(* ===== verification/Prelude.thy ===== *)
theory Prelude
  imports Main "HOL-Library.Word" "HOL-Library.Char_ord"
begin

text \<open>
  What every component of the development shares: the names of the C integer types, the
  lemmas that read fixed-width words as numbers, and the errors of the C runtime as values.

  \<^item> \<open>u8\<close>, \<open>u16\<close>, \<open>u32\<close>, \<open>u64\<close> are the unsigned C types at their width.
  \<^item> \<open>c_error\<close> is how a C function stops: \<open>Die msg\<close> is a run-time error of the Algol 68 program
    reported through \<open>die\<close>, \<open>Fatal msg\<close> a message on standard error followed by \<open>exit\<close> or
    \<open>abort\<close>, \<open>UB\<close> an access that C leaves undefined (a read or write outside an object).
  \<^item> \<open>bindE\<close> sequences two computations that can stop.
\<close>

named_theorems u64_simps \<open>reading 64-bit intermediate arithmetic as natural numbers\<close>

section \<open>Machine words\<close>

type_synonym u8 = "8 word"
type_synonym u16 = "16 word"
type_synonym u32 = "32 word"
type_synonym u64 = "64 word"

lemma unat_u32_less: "unat (x :: u32) < 4294967296"
  using unsigned_less [of x, where ?'a = nat] by simp

lemma unat_u64_less: "unat (x :: u64) < 18446744073709551616"
  using unsigned_less [of x, where ?'a = nat] by simp

lemma sint_u64_range:
  "- 9223372036854775808 \<le> sint (v :: 64 word)" "sint (v :: 64 word) < 9223372036854775808"
  using sint_greater_eq [of v] sint_less [of v] by simp_all

lemma sint_u32_range:
  "- 2147483648 \<le> sint (v :: 32 word)" "sint (v :: 32 word) < 2147483648"
  using sint_greater_eq [of v] sint_less [of v] by simp_all

lemma unat_u32_le: "unat (x :: u32) \<le> 4294967295"
  using unat_u32_less [of x] by linarith

lemma unat_ucast_u32_u64 [simp, u64_simps]: "unat (ucast (x :: u32) :: u64) = unat x"
proof -
  have "unat x < 18446744073709551616" using unat_u32_less [of x] by linarith
  then show ?thesis by (simp add: unsigned_ucast_eq take_bit_eq_mod)
qed

lemma unat_ucast_u64_u32: "unat (ucast (t :: u64) :: u32) = unat t mod 4294967296"
  by (simp add: unsigned_ucast_eq take_bit_eq_mod)

lemma unat_low32 [simp, u64_simps]:
  "unat (ucast (and t 0xFFFFFFFF :: u64) :: u32) = unat t mod 4294967296"
proof -
  have m: "(0xFFFFFFFF :: u64) = mask 32" by (simp add: mask_eq_exp_minus_1)
  have "(ucast (and t 0xFFFFFFFF :: u64) :: u32) = ucast t"
    unfolding m by (rule bit_word_eqI) (auto simp: bit_simps)
  then show ?thesis by (simp add: unat_ucast_u64_u32)
qed

lemma unat_high32 [simp, u64_simps]: "unat (drop_bit 32 (t :: u64)) = unat t div 4294967296"
  by (simp add: unat_drop_bit_eq) (simp add: drop_bit_eq_div)

lemma unat_add_u64: "unat a + unat b < 18446744073709551616 \<Longrightarrow> unat (a + b :: u64) = unat a + unat b"
  by (simp add: unat_word_ariths)

lemma unat_mult_u64: "unat a * unat b < 18446744073709551616 \<Longrightarrow> unat (a * b :: u64) = unat a * unat b"
  by (simp add: unat_word_ariths)

lemma unat_sub_u64: "unat b \<le> unat a \<Longrightarrow> unat (a - b :: u64) = unat a - unat b"
  by (simp add: unat_sub word_le_nat_alt)

lemma unat_sub_wrap_u64:
  "unat a < unat b \<Longrightarrow> unat (a - b :: u64) = 18446744073709551616 + unat a - unat b"
  using unat_sub_if_size [of a b] by (auto simp: word_size)

text \<open>Joining two 32-bit halves: \<open>((uint64_t) hi << 32) | lo\<close>.\<close>

lemma unat_push32: "unat (push_bit 32 (ucast (hi :: u32) :: u64)) = unat hi * 4294967296"
proof -
  have "unat hi * 4294967296 < 18446744073709551616" using unat_u32_less [of hi] by linarith
  then show ?thesis by (simp add: push_bit_eq_mult unat_word_ariths mult.commute)
qed

lemma unat_join32 [simp, u64_simps]:
  "unat (or (push_bit 32 (ucast (hi :: u32) :: u64)) (ucast (lo :: u32))) = unat hi * 4294967296 + unat lo"
proof -
  have d: "and (push_bit 32 (ucast hi :: u64)) (ucast lo) = 0"
    by (rule bit_word_eqI) (auto simp: bit_simps dest: bit_imp_le_length)
  have e: "or (push_bit 32 (ucast hi :: u64)) (ucast lo) = push_bit 32 (ucast hi) + ucast lo"
    using disjunctive_add_eq_or [OF d] by simp
  have "unat hi * 4294967296 + unat lo < 18446744073709551616"
    using unat_u32_less [of hi] unat_u32_less [of lo] by linarith
  then have "unat (push_bit 32 (ucast hi) + ucast lo :: u64) = unat hi * 4294967296 + unat lo"
    by (simp add: unat_add_u64 unat_push32)
  then show ?thesis by (simp only: e)
qed

section \<open>Computations that can stop\<close>

datatype c_error = Die string | Fatal string | UB

type_synonym 'a res = "c_error + 'a"

definition bindE :: "'a res \<Rightarrow> ('a \<Rightarrow> 'b res) \<Rightarrow> 'b res" where
  "bindE m f = (case m of Inl e \<Rightarrow> Inl e | Inr x \<Rightarrow> f x)"

lemma bindE_simps [simp]:
  "bindE (Inl e) f = Inl e"
  "bindE (Inr x) f = f x"
  by (simp_all add: bindE_def)

lemma bindE_cong [fundef_cong]:
  "m = m' \<Longrightarrow> (\<And>x. m' = Inr x \<Longrightarrow> f x = f' x) \<Longrightarrow> bindE m f = bindE m' f'"
  by (auto simp: bindE_def split: sum.splits)

lemma bindE_Inr [simp]: "bindE m f = Inr y \<longleftrightarrow> (\<exists>x. m = Inr x \<and> f x = Inr y)"
  by (auto simp: bindE_def split: sum.splits)

lemma bindE_Inl_iff: "bindE m f = Inl e \<longleftrightarrow> m = Inl e \<or> (\<exists>x. m = Inr x \<and> f x = Inl e)"
  by (auto simp: bindE_def split: sum.splits)

lemma bindE_assoc: "bindE (bindE m f) g = bindE m (\<lambda>x. bindE (f x) g)"
  by (simp add: bindE_def split: sum.splits)

section \<open>State and errors together\<close>

text \<open>
  A C function over a global state \<open>'s\<close> that can stop is \<open>'s \<Rightarrow> ('a \<times> 's) res\<close>; \<open>bnd\<close> runs one
  after the other, \<open>ret\<close> returns, \<open>stop\<close> ends the program, \<open>each\<close> is a loop over a list.
\<close>

type_synonym ('s, 'a) run = "'s \<Rightarrow> ('a \<times> 's) res"

definition ret :: "'a \<Rightarrow> ('s, 'a) run" where "ret x s = Inr (x, s)"
definition stop :: "c_error \<Rightarrow> ('s, 'a) run" where "stop e s = Inl e"
definition bnd :: "('s, 'a) run \<Rightarrow> ('a \<Rightarrow> ('s, 'b) run) \<Rightarrow> ('s, 'b) run" where
  "bnd m f s = (case m s of Inl e \<Rightarrow> Inl e | Inr (x, s') \<Rightarrow> f x s')"
definition get :: "('s \<Rightarrow> 'a) \<Rightarrow> ('s, 'a) run" where "get f s = Inr (f s, s)"
definition modify :: "('s \<Rightarrow> 's) \<Rightarrow> ('s, unit) run" where "modify f s = Inr ((), f s)"

fun each :: "'a list \<Rightarrow> ('a \<Rightarrow> ('s, unit) run) \<Rightarrow> ('s, unit) run" where
  "each [] f = ret ()"
| "each (x # xs) f = bnd (f x) (\<lambda>_. each xs f)"

fun collect_run :: "'a list \<Rightarrow> ('a \<Rightarrow> ('s, 'b) run) \<Rightarrow> ('s, 'b list) run" where
  "collect_run [] f = ret []"
| "collect_run (x # xs) f = bnd (f x) (\<lambda>y. bnd (collect_run xs f) (\<lambda>ys. ret (y # ys)))"

lemma run_simps [simp]:
  "ret x s = Inr (x, s)"
  "stop e s = Inl e"
  "get g s = Inr (g s, s)"
  "modify h s = Inr ((), h s)"
  by (simp_all add: ret_def stop_def get_def modify_def)

lemma bnd_Inl: "m s = Inl e \<Longrightarrow> bnd m f s = Inl e"
  by (simp add: bnd_def)

lemma bnd_Inr: "m s = Inr (x, s') \<Longrightarrow> bnd m f s = f x s'"
  by (simp add: bnd_def)

lemma bnd_simps [simp]:
  "bnd (ret x) f s = f x s"
  "bnd (stop e) f s = Inl e"
  "bnd (get g) f s = f (g s) s"
  "bnd (modify h) f' s = f' () (h s)"
  by (simp_all add: bnd_def)

lemma bnd_assoc: "bnd (bnd m f) g = bnd m (\<lambda>x. bnd (f x) g)"
  by (rule ext) (simp add: bnd_def split: sum.split prod.split)

lemma bnd_eq_Inr: "bnd m f s = Inr r \<longleftrightarrow> (\<exists>x s'. m s = Inr (x, s') \<and> f x s' = Inr r)"
  by (auto simp: bnd_def split: sum.splits)

lemma bnd_eq_Inl: "bnd m f s = Inl e \<longleftrightarrow> m s = Inl e \<or> (\<exists>x s'. m s = Inr (x, s') \<and> f x s' = Inl e)"
  by (auto simp: bnd_def split: sum.splits)

lemma bnd_cong [fundef_cong]:
  "m s = m' s' \<Longrightarrow> (\<And>x t. m' s' = Inr (x, t) \<Longrightarrow> f x t = f' x t) \<Longrightarrow> bnd m f s = bnd m' f' s'"
  by (auto simp: bnd_def split: sum.splits)

text \<open>A relation between the states before and after that survives sequencing.\<close>

definition keeps :: "('s \<Rightarrow> 's \<Rightarrow> bool) \<Rightarrow> ('s, 'a) run \<Rightarrow> bool" where
  "keeps R m \<longleftrightarrow> (\<forall>s x s'. m s = Inr (x, s') \<longrightarrow> R s s')"

lemma keepsI: "(\<And>s x s'. m s = Inr (x, s') \<Longrightarrow> R s s') \<Longrightarrow> keeps R m"
  by (simp add: keeps_def)

lemma keepsD: "keeps R m \<Longrightarrow> m s = Inr (x, s') \<Longrightarrow> R s s'"
  by (simp add: keeps_def)

lemma keeps_bnd:
  "transp R \<Longrightarrow> keeps R m \<Longrightarrow> (\<And>x. keeps R (f x)) \<Longrightarrow> keeps R (bnd m f)"
  unfolding keeps_def bnd_eq_Inr by (meson transpD)

lemma keeps_ret: "reflp R \<Longrightarrow> keeps R (ret x)"
  by (auto intro!: keepsI dest: reflpD)

lemma keeps_stop: "keeps R (stop e)"
  by (auto intro!: keepsI)

lemma keeps_get: "reflp R \<Longrightarrow> keeps R (get f)"
  by (auto intro!: keepsI dest: reflpD)

lemma keeps_each:
  "transp R \<Longrightarrow> reflp R \<Longrightarrow> (\<And>x. x \<in> set xs \<Longrightarrow> keeps R (f x)) \<Longrightarrow> keeps R (each xs f)"
  by (induction xs) (auto intro!: keeps_bnd keeps_ret)

section \<open>C integer division and casts\<close>

text \<open>Division of C integers truncates toward zero; a cast to \<open>uint32_t\<close> keeps the low 32 bits.\<close>

definition c_quot :: "int \<Rightarrow> int \<Rightarrow> int" where
  "c_quot a b = sgn a * sgn b * (\<bar>a\<bar> div \<bar>b\<bar>)"

definition c_rem :: "int \<Rightarrow> int \<Rightarrow> int" where
  "c_rem a b = a - c_quot a b * b"

definition u32_of_int :: "int \<Rightarrow> int" where
  "u32_of_int n = n mod 4294967296"

definition s32_of_int :: "int \<Rightarrow> int" where
  "s32_of_int n = (n + 2147483648) mod 4294967296 - 2147483648"

lemma c_quot_nonneg: "0 \<le> a \<Longrightarrow> 0 < b \<Longrightarrow> c_quot a b = a div b"
  by (cases "a = 0") (simp_all add: c_quot_def)

lemma c_rem_nonneg: "0 \<le> a \<Longrightarrow> 0 < b \<Longrightarrow> c_rem a b = a mod b"
  by (simp add: c_rem_def c_quot_nonneg minus_div_mult_eq_mod)

lemma c_rem_abs: "b \<noteq> 0 \<Longrightarrow> \<bar>c_rem a b\<bar> < \<bar>b\<bar>"
proof -
  assume b: "b \<noteq> 0"
  have "c_rem a b = sgn a * (\<bar>a\<bar> - \<bar>a\<bar> div \<bar>b\<bar> * \<bar>b\<bar>)"
  proof -
    have "b = sgn b * \<bar>b\<bar>" "a = sgn a * \<bar>a\<bar>" by (simp_all add: sgn_mult_abs)
    moreover have "sgn b * sgn b = 1" using b by (simp add: sgn_if)
    ultimately show ?thesis unfolding c_rem_def c_quot_def
      by (metis (no_types, opaque_lifting) mult.assoc mult.commute mult.left_neutral right_diff_distrib)
  qed
  also have "\<bar>a\<bar> - \<bar>a\<bar> div \<bar>b\<bar> * \<bar>b\<bar> = \<bar>a\<bar> mod \<bar>b\<bar>" by (rule minus_div_mult_eq_mod)
  finally have e: "c_rem a b = sgn a * (\<bar>a\<bar> mod \<bar>b\<bar>)" .
  have "0 \<le> \<bar>a\<bar> mod \<bar>b\<bar>" using b by simp
  then have "\<bar>c_rem a b\<bar> \<le> \<bar>a\<bar> mod \<bar>b\<bar>" unfolding e by (simp add: abs_mult abs_sgn_eq)
  also have "\<dots> < \<bar>b\<bar>" using b by simp
  finally show ?thesis .
qed

lemma u32_of_int_id: "0 \<le> n \<Longrightarrow> n < 4294967296 \<Longrightarrow> u32_of_int n = n"
  by (simp add: u32_of_int_def)

lemma s32_of_int_id: "- 2147483648 \<le> n \<Longrightarrow> n < 2147483648 \<Longrightarrow> s32_of_int n = n"
  by (simp add: s32_of_int_def)

end
