(* ===== verification/Bigint.thy ===== *)
theory Bigint
  imports Prelude
begin

text \<open>
  \<open>csrc/bigint.c\<close>, first part: the representation of arbitrary-precision integers (a sign and
  a little-endian list of 32-bit limbs), the magnitude helpers, addition, subtraction,
  multiplication and comparison. Every loop of the C code is a recursion over the limbs, every
  intermediate value a 64-bit word, so the carries and borrows are those of the machine.

  \<open>mag_val\<close> and \<open>big_val\<close> read a representation as a number, \<open>big_wf\<close> is the invariant that
  \<open>big_trim\<close> establishes. The lemmas show that each routine computes the mathematical
  operation and keeps the invariant.
\<close>

section \<open>Representation\<close>

type_synonym mag = "u32 list"

record a68_big =
  b_neg :: bool
  b_limb :: mag

fun mag_val :: "mag \<Rightarrow> nat" where
  "mag_val [] = 0"
| "mag_val (x # xs) = unat x + 4294967296 * mag_val xs"

definition big_val :: "a68_big \<Rightarrow> int" where
  "big_val a = (if b_neg a then - int (mag_val (b_limb a)) else int (mag_val (b_limb a)))"

definition big_wf :: "a68_big \<Rightarrow> bool" where
  "big_wf a \<longleftrightarrow> (b_limb a \<noteq> [] \<longrightarrow> last (b_limb a) \<noteq> 0) \<and> (b_limb a = [] \<longrightarrow> \<not> b_neg a)"

definition mag_wf :: "mag \<Rightarrow> bool" where
  "mag_wf xs \<longleftrightarrow> (xs \<noteq> [] \<longrightarrow> last xs \<noteq> 0)"

section \<open>Trimming\<close>

fun mag_trim :: "mag \<Rightarrow> mag" where
  "mag_trim xs = rev (dropWhile (\<lambda>x. x = 0) (rev xs))"

definition big_trim :: "a68_big \<Rightarrow> a68_big" where
  "big_trim r = (let l = mag_trim (b_limb r) in
     \<lparr>b_neg = (if l = [] then False else b_neg r), b_limb = l\<rparr>)"

definition big_copy_mag :: "a68_big \<Rightarrow> bool \<Rightarrow> a68_big" where
  "big_copy_mag a neg = \<lparr>b_neg = (if b_limb a \<noteq> [] then neg else False), b_limb = b_limb a\<rparr>"

section \<open>Magnitude helpers\<close>

text \<open>\<open>mag_cmp\<close>: lengths first, then the limbs from the most significant one down.\<close>

fun cmp_down :: "mag \<Rightarrow> mag \<Rightarrow> int" where
  "cmp_down (x # xs) (y # ys) = (if x \<noteq> y then (if x < y then -1 else 1) else cmp_down xs ys)"
| "cmp_down _ _ = 0"

definition mag_cmp :: "mag \<Rightarrow> mag \<Rightarrow> int" where
  "mag_cmp a b = (if length a \<noteq> length b then (if length a < length b then -1 else 1)
     else cmp_down (rev a) (rev b))"

text \<open>\<open>mag_add\<close>: one pass over the longer operand, then the last carry.\<close>

fun mag_add_from :: "u64 \<Rightarrow> mag \<Rightarrow> mag \<Rightarrow> mag" where
  "mag_add_from carry [] [] = [ucast carry]"
| "mag_add_from carry (x # xs) [] =
     (let s = carry + ucast x in
      ucast (and s 0xFFFFFFFF) # mag_add_from (drop_bit 32 s) xs [])"
| "mag_add_from carry [] (y # ys) =
     (let s = carry + ucast y in
      ucast (and s 0xFFFFFFFF) # mag_add_from (drop_bit 32 s) [] ys)"
| "mag_add_from carry (x # xs) (y # ys) =
     (let s = carry + ucast x + ucast y in
      ucast (and s 0xFFFFFFFF) # mag_add_from (drop_bit 32 s) xs ys)"

definition mag_add :: "mag \<Rightarrow> mag \<Rightarrow> mag" where
  "mag_add a b = mag_add_from 0 a b"

text \<open>\<open>mag_sub\<close>: the borrow is read off the wrapped 64-bit difference.\<close>

fun mag_sub_from :: "u64 \<Rightarrow> mag \<Rightarrow> mag \<Rightarrow> mag" where
  "mag_sub_from borrow [] ys = []"
| "mag_sub_from borrow (x # xs) ys =
     (let d = ucast x - borrow - (case ys of [] \<Rightarrow> 0 | y # _ \<Rightarrow> ucast y) in
      ucast (and d 0xFFFFFFFF)
        # mag_sub_from (if drop_bit 32 d \<noteq> 0 then 1 else 0) xs (tl ys))"

definition mag_sub :: "mag \<Rightarrow> mag \<Rightarrow> mag" where
  "mag_sub a b = mag_sub_from 0 a b"

text \<open>
  \<open>mag_mul\<close>: schoolbook. \<open>mul_row\<close> is the inner loop for one limb of \<open>a\<close>; it adds into the
  part of \<open>r\<close> that starts at index \<open>i\<close> and stores the last carry at \<open>r[i + bn]\<close>.
\<close>

fun mul_row :: "u32 \<Rightarrow> u64 \<Rightarrow> mag \<Rightarrow> mag \<Rightarrow> mag" where
  "mul_row x carry [] (r # rs) = ucast carry # rs"
| "mul_row x carry (y # ys) (r # rs) =
     (let t = ucast x * ucast y + ucast r + carry in
      ucast (and t 0xFFFFFFFF) # mul_row x (drop_bit 32 t) ys rs)"
| "mul_row x carry ys [] = []"

fun mag_mul :: "mag \<Rightarrow> mag \<Rightarrow> mag \<Rightarrow> mag" where
  "mag_mul [] b r = r"
| "mag_mul (x # xs) b r =
     (case mul_row x 0 b r of [] \<Rightarrow> [] | r0 # rs \<Rightarrow> r0 # mag_mul xs b rs)"

text \<open>\<open>mag_mul_add_small\<close>: in place \<open>a * k + c\<close>, one limb longer when a carry is left.\<close>

fun mag_mul_add_from :: "mag \<Rightarrow> u32 \<Rightarrow> u64 \<Rightarrow> mag" where
  "mag_mul_add_from [] k carry = (if carry \<noteq> 0 then [ucast carry] else [])"
| "mag_mul_add_from (x # xs) k carry =
     (let t = ucast x * ucast k + carry in
      ucast (and t 0xFFFFFFFF) # mag_mul_add_from xs k (drop_bit 32 t))"

definition mag_mul_add_small :: "mag \<Rightarrow> u32 \<Rightarrow> u32 \<Rightarrow> mag" where
  "mag_mul_add_small a k c = mag_mul_add_from a k (ucast c)"

text \<open>\<open>mag_div_small\<close>: short division from the most significant limb; quotient and remainder.\<close>

fun mag_div_small :: "mag \<Rightarrow> u32 \<Rightarrow> mag \<times> u64" where
  "mag_div_small [] d = ([], 0)"
| "mag_div_small (x # xs) d =
     (let (qs, rem) = mag_div_small xs d;
          cur = or (push_bit 32 rem) (ucast x)
      in (ucast (cur div ucast d) # qs, cur mod ucast d))"

section \<open>Conversions from machine integers\<close>

definition big_from_i64 :: "64 word \<Rightarrow> a68_big" where
  "big_from_i64 v = (let mag = (if sint v < 0 then 0 - v else v) in
     big_trim \<lparr>b_neg = (sint v < 0),
               b_limb = [ucast (and mag 0xFFFFFFFF), ucast (drop_bit 32 mag)]\<rparr>)"

definition big_low64 :: "a68_big \<Rightarrow> u64" where
  "big_low64 a = or (case b_limb a of [] \<Rightarrow> 0 | x # _ \<Rightarrow> ucast x)
     (case b_limb a of x # y # _ \<Rightarrow> push_bit 32 (ucast y) | _ \<Rightarrow> 0)"

definition big_fits_i64 :: "a68_big \<Rightarrow> bool" where
  "big_fits_i64 a = (if length (b_limb a) > 2 then False
     else if b_neg a then big_low64 a \<le> push_bit 63 1 else big_low64 a < push_bit 63 1)"

definition big_to_i64 :: "a68_big \<Rightarrow> 64 word" where
  "big_to_i64 a = (if b_neg a then 0 - big_low64 a else big_low64 a)"

section \<open>Arithmetic and queries\<close>

definition add_signed :: "a68_big \<Rightarrow> bool \<Rightarrow> a68_big \<Rightarrow> bool \<Rightarrow> a68_big" where
  "add_signed a aneg b bneg = big_trim
     (if aneg = bneg then \<lparr>b_neg = aneg, b_limb = mag_add (b_limb a) (b_limb b)\<rparr>
      else if mag_cmp (b_limb a) (b_limb b) \<ge> 0
        then \<lparr>b_neg = aneg, b_limb = mag_sub (b_limb a) (b_limb b)\<rparr>
      else \<lparr>b_neg = bneg, b_limb = mag_sub (b_limb b) (b_limb a)\<rparr>)"

definition big_add :: "a68_big \<Rightarrow> a68_big \<Rightarrow> a68_big" where
  "big_add a b = add_signed a (b_neg a) b (b_neg b)"

definition big_sub :: "a68_big \<Rightarrow> a68_big \<Rightarrow> a68_big" where
  "big_sub a b = add_signed a (b_neg a) b (\<not> b_neg b)"

definition big_mul :: "a68_big \<Rightarrow> a68_big \<Rightarrow> a68_big" where
  "big_mul a b = big_trim
     \<lparr>b_neg = (b_neg a \<noteq> b_neg b),
      b_limb = mag_mul (b_limb a) (b_limb b) (replicate (length (b_limb a) + length (b_limb b)) 0)\<rparr>"

definition big_mul_small :: "a68_big \<Rightarrow> 64 word \<Rightarrow> a68_big" where
  "big_mul_small a k = big_mul a (big_from_i64 k)"

definition big_sign :: "a68_big \<Rightarrow> int" where
  "big_sign a = (if b_limb a = [] then 0 else if b_neg a then -1 else 1)"

definition big_is_zero :: "a68_big \<Rightarrow> bool" where
  "big_is_zero a \<longleftrightarrow> b_limb a = []"

definition big_cmp :: "a68_big \<Rightarrow> a68_big \<Rightarrow> int" where
  "big_cmp a b = (let sa = big_sign a; sb = big_sign b in
     if sa \<noteq> sb then (if sa < sb then -1 else 1)
     else if sa = 0 then 0
     else sa * mag_cmp (b_limb a) (b_limb b))"

definition big_neg :: "a68_big \<Rightarrow> a68_big" where
  "big_neg a = big_copy_mag a (\<not> b_neg a)"

definition big_abs :: "a68_big \<Rightarrow> a68_big" where
  "big_abs a = big_copy_mag a False"


section \<open>Values of limb lists\<close>

lemma mag_val_append: "mag_val (xs @ ys) = mag_val xs + 4294967296 ^ length xs * mag_val ys"
  by (induction xs) (simp_all add: algebra_simps)

lemma mag_val_less: "mag_val xs < 4294967296 ^ length xs"
proof (induction xs)
  case (Cons x xs)
  have "unat x + 4294967296 * mag_val xs < 4294967296 * (mag_val xs + 1)"
    using unat_u32_less [of x] by simp
  also have "\<dots> \<le> 4294967296 * 4294967296 ^ length xs" using Cons by (intro mult_le_mono2) simp
  finally show ?case by simp
qed simp

lemma mag_val_replicate0 [simp]: "mag_val (replicate n 0) = 0"
  by (induction n) simp_all

lemma mag_val_last_ge: "xs \<noteq> [] \<Longrightarrow> last xs \<noteq> 0 \<Longrightarrow> 4294967296 ^ (length xs - 1) \<le> mag_val xs"
proof (induction xs)
  case (Cons x xs)
  show ?case
  proof (cases "xs = []")
    case True
    then show ?thesis using Cons.prems by (simp add: Suc_le_eq unat_gt_0)
  next
    case False
    then have ih: "4294967296 ^ (length xs - 1) \<le> mag_val xs" using Cons by simp
    have "length xs = Suc (length xs - 1)" using False by simp
    then have "(4294967296 :: nat) ^ length xs = 4294967296 * 4294967296 ^ (length xs - 1)"
      by (metis power_Suc)
    then show ?thesis using ih by simp
  qed
qed simp

lemma mag_val_pos: "mag_wf xs \<Longrightarrow> xs \<noteq> [] \<Longrightarrow> 0 < mag_val xs"
  by (rule order_less_le_trans [OF _ mag_val_last_ge]) (simp_all add: mag_wf_def)

lemma mag_val_eq_0: "mag_wf xs \<Longrightarrow> mag_val xs = 0 \<longleftrightarrow> xs = []"
  by (metis less_irrefl mag_val.simps(1) mag_val_pos)

lemma mag_val_length_less:
  assumes "mag_wf ys" and "length xs < length ys"
  shows "mag_val xs < mag_val ys"
proof -
  have "mag_val xs < 4294967296 ^ length xs" by (rule mag_val_less)
  also have "\<dots> \<le> 4294967296 ^ (length ys - 1)" using assms(2) by (intro power_increasing) auto
  also have "\<dots> \<le> mag_val ys" using assms by (intro mag_val_last_ge) (auto simp: mag_wf_def)
  finally show ?thesis .
qed

section \<open>Trimming\<close>

lemma mag_trim_eq: "\<exists>n. xs = mag_trim xs @ replicate n 0"
proof -
  have "rev xs = takeWhile (\<lambda>x. x = 0) (rev xs) @ dropWhile (\<lambda>x. x = 0) (rev xs)" by simp
  then have "xs = rev (dropWhile (\<lambda>x. x = 0) (rev xs)) @ rev (takeWhile (\<lambda>x. x = 0) (rev xs))"
    by (metis rev_append rev_rev_ident)
  moreover have "rev (takeWhile (\<lambda>x. x = 0) (rev xs))
      = replicate (length (takeWhile (\<lambda>x. x = 0) (rev xs))) 0"
    by (metis (mono_tags, lifting) replicate_eqI length_rev set_rev set_takeWhileD)
  ultimately show ?thesis by (metis mag_trim.simps)
qed

lemma mag_val_trim [simp]: "mag_val (mag_trim xs) = mag_val xs"
  using mag_trim_eq [of xs] by (metis add.right_neutral mag_val_append mag_val_replicate0 mult_0_right)

lemma mag_wf_trim [simp]: "mag_wf (mag_trim xs)"
proof -
  have "dropWhile (\<lambda>x. x = 0) (rev xs) \<noteq> [] \<Longrightarrow> hd (dropWhile (\<lambda>x. x = 0) (rev xs)) \<noteq> 0"
    by (rule hd_dropWhile)
  then show ?thesis by (auto simp: mag_wf_def last_rev)
qed

declare mag_trim.simps [simp del]

lemma big_wf_mag: "big_wf a \<Longrightarrow> mag_wf (b_limb a)"
  by (simp add: big_wf_def mag_wf_def)

lemma big_trim_wf [simp]: "big_wf (big_trim r)"
  using mag_wf_trim [of "b_limb r"] by (auto simp: big_trim_def big_wf_def mag_wf_def Let_def)

lemma big_trim_val [simp]: "big_val (big_trim r) = big_val r"
proof -
  have "mag_trim (b_limb r) = [] \<Longrightarrow> mag_val (b_limb r) = 0"
    using mag_val_trim [of "b_limb r"] by simp
  then show ?thesis using mag_val_trim [of "b_limb r"] by (auto simp: big_trim_def big_val_def Let_def)
qed

lemma big_copy_mag_wf [simp]: "big_wf a \<Longrightarrow> big_wf (big_copy_mag a s)"
  by (auto simp: big_copy_mag_def big_wf_def)

lemma big_copy_mag_val: "big_val (big_copy_mag a s) = (if s then - \<bar>big_val a\<bar> else \<bar>big_val a\<bar>)"
  by (auto simp: big_copy_mag_def big_val_def)

lemma big_val_eq_0: "big_wf a \<Longrightarrow> big_val a = 0 \<longleftrightarrow> b_limb a = []"
  using mag_val_eq_0 [of "b_limb a"] big_wf_mag [of a] by (auto simp: big_val_def)

lemma abs_big_val: "\<bar>big_val a\<bar> = int (mag_val (b_limb a))"
  by (simp add: big_val_def)

section \<open>Comparison of magnitudes\<close>

lemma cmp_down_spec:
  "length a = length b \<Longrightarrow> cmp_down (rev a) (rev b) = sgn (int (mag_val a) - int (mag_val b))"
proof (induction a arbitrary: b rule: rev_induct)
  case (snoc x xs)
  then obtain y ys where b: "b = ys @ [y]" and len: "length xs = length ys"
    by (cases b rule: rev_cases) auto
  have va: "mag_val xs < 4294967296 ^ length ys" and vb: "mag_val ys < 4294967296 ^ length ys"
    using mag_val_less [of xs] mag_val_less [of ys] len by auto
  show ?case
  proof (cases "x = y")
    case True
    then show ?thesis using snoc.IH [OF len] len b by (simp add: mag_val_append)
  next
    case False
    have gap: "u < v \<Longrightarrow> p < B \<Longrightarrow> p + B * u < q + B * (v::nat)" for u v p q B :: nat
    proof -
      assume "u < v" "p < B"
      then have "p + B * u < B * (u + 1)" by simp
      also have "\<dots> \<le> B * v" using \<open>u < v\<close> by (intro mult_le_mono2) simp
      finally show ?thesis by simp
    qed
    consider "unat x < unat y" | "unat y < unat x" using False by (metis nat_neq_iff word_unat_eq_iff)
    then show ?thesis
    proof cases
      case 1
      have "mag_val (xs @ [x]) < mag_val b"
        using gap [OF 1 va, of "mag_val ys"] b len by (simp add: mag_val_append)
      then have "sgn (int (mag_val (xs @ [x])) - int (mag_val b)) = -1" by simp
      then show ?thesis using 1 b False by (simp add: word_less_nat_alt del: mag_val.simps)
    next
      case 2
      have "mag_val b < mag_val (xs @ [x])"
        using gap [OF 2 vb, of "mag_val xs"] b len by (simp add: mag_val_append)
      then have "sgn (int (mag_val (xs @ [x])) - int (mag_val b)) = 1" by simp
      then show ?thesis using 2 b False by (simp add: word_less_nat_alt del: mag_val.simps)
    qed
  qed
qed simp

lemma mag_cmp_spec:
  assumes "mag_wf a" and "mag_wf b"
  shows "mag_cmp a b = sgn (int (mag_val a) - int (mag_val b))"
proof (cases "length a" "length b" rule: linorder_cases)
  case less
  then show ?thesis using mag_val_length_less [OF assms(2) less] by (simp add: mag_cmp_def)
next
  case equal
  then show ?thesis using cmp_down_spec [OF equal] by (simp add: mag_cmp_def)
next
  case greater
  then show ?thesis using mag_val_length_less [OF assms(1) greater] by (simp add: mag_cmp_def)
qed


section \<open>Addition, subtraction, multiplication\<close>

lemma split32: "(n :: nat) mod 4294967296 + 4294967296 * (n div 4294967296) = n"
  by simp

text \<open>Reading one step of a carry chain: the low half is stored, the high half carried on.\<close>

lemma carry_chain:
  assumes "unat (s :: u64) = n" and "V = n div 4294967296 + w"
  shows "unat (ucast (and s 0xFFFFFFFF) :: u32) + 4294967296 * V = n + 4294967296 * w"
  using assms by (simp add: algebra_simps)

lemma length_mag_add_from: "length (mag_add_from c a b) = max (length a) (length b) + 1"
  by (induction c a b rule: mag_add_from.induct) (simp_all add: Let_def)

lemma mag_add_from_val:
  "unat c < 4294967296 \<Longrightarrow> mag_val (mag_add_from c a b) = unat c + mag_val a + mag_val b"
proof (induction c a b rule: mag_add_from.induct)
  case (1 carry)
  then show ?case by (simp add: unat_ucast_u64_u32)
next
  case (2 carry x xs)
  have s: "unat (carry + ucast x) = unat carry + unat x"
    using "2.prems" unat_u32_less [of x] by (subst unat_add_u64) simp_all
  have "unat (drop_bit 32 (carry + ucast x)) < 4294967296"
    using "2.prems" unat_u32_less [of x] s by (simp add: div_less_iff_less_mult)
  from "2.IH" [OF refl this] s show ?case by (simp add: Let_def)
next
  case (3 carry y ys)
  have s: "unat (carry + ucast y) = unat carry + unat y"
    using "3.prems" unat_u32_less [of y] by (subst unat_add_u64) simp_all
  have "unat (drop_bit 32 (carry + ucast y)) < 4294967296"
    using "3.prems" unat_u32_less [of y] s by (simp add: div_less_iff_less_mult)
  from "3.IH" [OF refl this] s show ?case by (simp add: Let_def)
next
  case (4 carry x xs y ys)
  have s: "unat (carry + ucast x + ucast y) = unat carry + unat x + unat y"
    using "4.prems" unat_u32_less [of x] unat_u32_less [of y]
    by (subst unat_add_u64, simp_all add: unat_add_u64)
  have "unat (drop_bit 32 (carry + ucast x + ucast y)) < 4294967296"
    using "4.prems" unat_u32_less [of x] unat_u32_less [of y] s by (simp add: div_less_iff_less_mult)
  from "4.IH" [OF refl this] s show ?case by (simp add: Let_def)
qed

lemma mag_add_val [simp]: "mag_val (mag_add a b) = mag_val a + mag_val b"
  by (simp add: mag_add_def mag_add_from_val)

lemma length_mag_sub_from: "length (mag_sub_from c a b) = length a"
  by (induction c a b rule: mag_sub_from.induct) (simp_all add: Let_def)

text \<open>The subtraction is exact up to the borrow it returns, which is lost when \<open>a < b\<close>.\<close>

lemma mag_sub_step:
  fixes x y :: u32 and bor d :: u64
  assumes "unat bor \<le> 1" and d_def: "d = ucast x - bor - ucast y"
  shows "int (unat (ucast (and d 0xFFFFFFFF) :: u32))
    = int (unat x) - int (unat y) - int (unat bor) + (if drop_bit 32 d \<noteq> 0 then 4294967296 else 0)"
proof -
  have x: "unat x \<le> 4294967295" and y: "unat y \<le> 4294967295" by (rule unat_u32_le)+
  have bsum: "unat (bor + ucast y :: u64) = unat bor + unat y"
    using assms(1) y by (subst unat_add_u64) simp_all
  have d: "d = ucast x - (bor + ucast y)" using d_def by (simp add: algebra_simps)
  show ?thesis
  proof (cases "unat bor + unat y \<le> unat x")
    case True
    then have e: "unat d = unat x - (unat bor + unat y)"
      unfolding d by (subst unat_sub_u64) (simp_all add: bsum)
    then have "unat d div 4294967296 = 0" using x by simp
    then have "drop_bit 32 d = 0" by (metis unat_high32 unat_0_iff)
    then show ?thesis using True e x by (simp add: of_nat_diff)
  next
    case False
    then have e: "unat d = 18446744073709551616 + unat x - (unat bor + unat y)"
      unfolding d by (subst unat_sub_wrap_u64) (simp_all add: bsum)
    have "unat d div 4294967296 \<noteq> 0" using e x y assms(1) by simp
    then have nz: "drop_bit 32 d \<noteq> 0" by (metis unat_high32 unat_0)
    define k where "k = 4294967296 + unat x - (unat bor + unat y)"
    have k: "k < 4294967296" and dk: "unat d = k + 4294967296 * 4294967295"
      using e False x y assms(1) by (auto simp: k_def)
    have "unat d mod 4294967296 = k" unfolding dk using k by (simp only: mod_mult_self2 mod_less)
    then show ?thesis using nz False x y assms(1) by (simp add: k_def of_nat_diff)
  qed
qed

lemma mag_sub_from_val:
  assumes "unat c \<le> 1" and "length ys \<le> length xs"
  shows "\<exists>k. int (mag_val (mag_sub_from c xs ys))
    = int (mag_val xs) - int (mag_val ys) - int (unat c) + k * 4294967296 ^ length xs"
  using assms
proof (induction c xs ys rule: mag_sub_from.induct)
  case (1 borrow ys)
  then show ?case by (intro exI [of _ "int (unat borrow)"]) simp
next
  case (2 borrow x xs ys)
  define y where "y = (case ys of [] \<Rightarrow> 0 | y # _ \<Rightarrow> y)"
  define d where "d = ucast x - borrow - (ucast y :: u64)"
  have yc: "(case ys of [] \<Rightarrow> 0 | y # _ \<Rightarrow> ucast y) = (ucast y :: u64)"
    by (simp add: y_def split: list.splits)
  have ys: "mag_val ys = unat y + 4294967296 * mag_val (tl ys)"
    by (cases ys) (simp_all add: y_def)
  define b where "b = (if drop_bit 32 d \<noteq> 0 then 1 else 0 :: u64)"
  have b1: "unat b \<le> 1" by (simp add: b_def)
  have len: "length (tl ys) \<le> length xs" using "2.prems" by simp
  obtain k where k: "int (mag_val (mag_sub_from b xs (tl ys)))
      = int (mag_val xs) - int (mag_val (tl ys)) - int (unat b) + k * 4294967296 ^ length xs"
    using "2.IH" [OF refl] b1 len unfolding b_def d_def yc by blast
  have st: "int (unat (ucast (and d 0xFFFFFFFF) :: u32))
      = int (unat x) - int (unat y) - int (unat borrow) + 4294967296 * int (unat b)"
    using mag_sub_step [OF "2.prems"(1) d_def] by (simp add: b_def)
  have "mag_sub_from borrow (x # xs) ys
      = ucast (and d 0xFFFFFFFF) # mag_sub_from b xs (tl ys)"
    by (simp add: Let_def yc d_def b_def)
  then show ?case using k st ys
    by (intro exI [of _ k]) (simp add: algebra_simps del: unat_low32)
qed

lemma mag_sub_val:
  assumes "length b \<le> length a" and "mag_val b \<le> mag_val a"
  shows "mag_val (mag_sub a b) = mag_val a - mag_val b"
proof -
  define N where "N = int (4294967296 ^ length a)"
  obtain k where k: "int (mag_val (mag_sub a b)) = int (mag_val a) - int (mag_val b) + k * N"
    using mag_sub_from_val [of 0 b a] assms(1) by (auto simp: mag_sub_def N_def)
  have "length (mag_sub a b) = length a" by (simp add: mag_sub_def length_mag_sub_from)
  then have "int (mag_val (mag_sub a b)) < N"
    using mag_val_less [of "mag_sub a b"] unfolding N_def by (simp only: of_nat_less_iff)
  moreover have "int (mag_val a) < N"
    using mag_val_less [of a] unfolding N_def by (simp only: of_nat_less_iff)
  ultimately have "int (mag_val (mag_sub a b)) mod N = int (mag_val (mag_sub a b))"
    and "(int (mag_val a) - int (mag_val b)) mod N = int (mag_val a) - int (mag_val b)"
    using assms(2) by (simp_all add: mod_pos_pos_trivial)
  then have "int (mag_val (mag_sub a b)) = int (mag_val a) - int (mag_val b)"
    unfolding k by (metis mod_mult_self1)
  then show ?thesis using assms(2) by linarith
qed

text \<open>
  The product of two limbs plus a limb plus a carry below \<open>2\<^sup>3\<^sup>2\<close> is at most
  \<open>(2\<^sup>3\<^sup>2 - 1)\<^sup>2 + 2 (2\<^sup>3\<^sup>2 - 1) = 2\<^sup>6\<^sup>4 - 1\<close>: the inner loops never overflow 64 bits.
\<close>

lemma limb_product_bound:
  assumes "c < 4294967296" and "d < 4294967296"
  shows "unat (x :: u32) * unat (y :: u32) + c + d < 18446744073709551616"
proof -
  have "unat x * unat y \<le> 4294967295 * 4294967295" by (intro mult_le_mono unat_u32_le)
  then show ?thesis using assms by simp
qed

lemma unat_mul_add2:
  assumes "unat c < 4294967296"
  shows "unat (ucast (x :: u32) * ucast (y :: u32) + ucast (r :: u32) + (c :: u64))
    = unat x * unat y + unat r + unat c"
proof -
  note b = limb_product_bound [OF unat_u32_less [of r] assms, of x y]
  have m: "unat (ucast x * ucast y :: u64) = unat x * unat y"
    using b by (subst unat_mult_u64) simp_all
  have r: "unat (ucast x * ucast y + ucast r :: u64) = unat x * unat y + unat r"
    using b m by (subst unat_add_u64) simp_all
  show ?thesis using b r by (subst unat_add_u64) simp_all
qed

lemma unat_mul_add1:
  assumes "unat c < 4294967296"
  shows "unat (ucast (x :: u32) * ucast (y :: u32) + (c :: u64)) = unat x * unat y + unat c"
  using unat_mul_add2 [OF assms, of x y 0] by simp

lemma high32_less: "unat (drop_bit 32 (t :: u64)) < 4294967296"
  using unat_u64_less [of t] by (simp add: div_less_iff_less_mult)

lemma mul_row_val:
  assumes "length ys < length rs" and "unat c < 4294967296" and "rs ! length ys = 0"
  shows "mag_val (mul_row x c ys rs) = unat x * mag_val ys + mag_val rs + unat c
    \<and> length (mul_row x c ys rs) = length rs"
  using assms
proof (induction x c ys rs rule: mul_row.induct)
  case (1 x carry r rs)
  then show ?case by (simp add: unat_ucast_u64_u32)
next
  case (2 x carry y ys r rs)
  define t where "t = ucast x * ucast y + ucast r + carry"
  have t: "unat t = unat x * unat y + unat r + unat carry"
    unfolding t_def by (rule unat_mul_add2) (rule "2.prems"(2))
  have ih: "mag_val (mul_row x (drop_bit 32 t) ys rs)
      = unat x * mag_val ys + mag_val rs + unat (drop_bit 32 t)"
    and len: "length (mul_row x (drop_bit 32 t) ys rs) = length rs"
    using "2.IH" [OF t_def] "2.prems" high32_less by auto
  have "mul_row x carry (y # ys) (r # rs) = ucast (and t 0xFFFFFFFF) # mul_row x (drop_bit 32 t) ys rs"
    by (simp add: t_def Let_def)
  then show ?case using ih len t by (simp add: algebra_simps)
qed simp

lemma mul_row_above:
  assumes "length ys < length rs" and "length ys < i"
  shows "mul_row x c ys rs ! i = rs ! i"
  using assms
proof (induction x c ys rs arbitrary: i rule: mul_row.induct)
  case (2 x carry y ys r rs)
  then show ?case by (cases i) (auto simp: Let_def)
qed (auto simp: nth_Cons')

lemma mag_mul_val:
  assumes "length r = length a + length b" and "\<forall>i < length a. r ! (length b + i) = 0"
  shows "mag_val (mag_mul a b r) = mag_val a * mag_val b + mag_val r"
  using assms
proof (induction a arbitrary: r)
  case (Cons x xs)
  define w where "w = mul_row x 0 b r"
  have z: "r ! length b = 0" using spec [OF Cons.prems(2), of 0] by simp
  have w: "mag_val w = unat x * mag_val b + mag_val r" "length w = length r"
    unfolding w_def using mul_row_val [of b r 0 x] Cons.prems z by auto
  then obtain r0 rs where ws: "w = r0 # rs" using Cons.prems by (cases w) auto
  have "\<forall>i < length xs. rs ! (length b + i) = 0"
  proof (intro allI impI)
    fix i assume i: "i < length xs"
    have "rs ! (length b + i) = w ! (length b + Suc i)" by (simp add: ws)
    also have "\<dots> = r ! (length b + Suc i)"
      unfolding w_def using Cons.prems(1) by (intro mul_row_above) auto
    also have "\<dots> = 0" using Cons.prems(2) i by auto
    finally show "rs ! (length b + i) = 0" .
  qed
  then have ih: "mag_val (mag_mul xs b rs) = mag_val xs * mag_val b + mag_val rs"
    using Cons.IH [of rs] Cons.prems w ws by simp
  have "mag_mul (x # xs) b r = r0 # mag_mul xs b rs" using ws by (simp add: w_def)
  then show ?case using ih w(1) by (simp add: ws algebra_simps)
qed simp

lemma mag_mul_add_from_val:
  "unat c < 4294967296 \<Longrightarrow> mag_val (mag_mul_add_from a k c) = mag_val a * unat k + unat c"
proof (induction a k c rule: mag_mul_add_from.induct)
  case (1 k carry)
  then show ?case by (auto simp: unat_ucast_u64_u32)
next
  case (2 x xs k carry)
  define t where "t = ucast x * ucast k + carry"
  have t: "unat t = unat x * unat k + unat carry"
    unfolding t_def by (rule unat_mul_add1) (rule "2.prems")
  have "mag_val (mag_mul_add_from xs k (drop_bit 32 t)) = mag_val xs * unat k + unat (drop_bit 32 t)"
    using "2.IH" [OF t_def] high32_less by simp
  moreover have "mag_mul_add_from (x # xs) k carry
      = ucast (and t 0xFFFFFFFF) # mag_mul_add_from xs k (drop_bit 32 t)"
    by (simp add: t_def Let_def)
  ultimately show ?case using t by (simp add: algebra_simps)
qed

lemma mag_mul_add_small_val [simp]:
  "mag_val (mag_mul_add_small a k c) = mag_val a * unat k + unat c"
  by (simp add: mag_mul_add_small_def mag_mul_add_from_val unat_u32_less)

lemma length_mag_mul_add_from:
  "length (mag_mul_add_from a k c) \<le> length a + 1"
  by (induction a k c rule: mag_mul_add_from.induct) (simp_all add: Let_def)

text \<open>The routine appends a limb only when it is not zero, so it never breaks the invariant.\<close>

lemma mag_mul_add_from_wf:
  assumes "unat c < 4294967296" and "mag_wf a" and "k \<noteq> 0"
  shows "mag_wf (mag_mul_add_from a k c)"
  using assms
proof (induction a k c rule: mag_mul_add_from.induct)
  case (1 k carry)
  have "carry \<noteq> 0 \<Longrightarrow> (ucast carry :: u32) \<noteq> 0"
    using "1.prems"(1) by (metis mod_less unat_0 unat_0_iff unat_ucast_u64_u32)
  then show ?case by (simp add: mag_wf_def)
next
  case (2 x xs k carry)
  define t where "t = ucast x * ucast k + carry"
  have t: "unat t = unat x * unat k + unat carry"
    unfolding t_def by (rule unat_mul_add1) (rule "2.prems"(1))
  have eq: "mag_mul_add_from (x # xs) k carry
      = ucast (and t 0xFFFFFFFF) # mag_mul_add_from xs k (drop_bit 32 t)"
    by (simp add: t_def Let_def)
  show ?case
  proof (cases "xs = []")
    case True
    then have x: "x \<noteq> 0" using "2.prems"(2) by (simp add: mag_wf_def)
    have "unat x * unat k \<noteq> 0" using x "2.prems"(3) by (simp add: unat_gt_0)
    then have tn: "unat t \<noteq> 0" using t by simp
    show ?thesis
    proof (cases "drop_bit 32 t = 0")
      case dz: True
      then have "unat t div 4294967296 = 0" by (metis unat_high32 unat_0)
      then have "unat (ucast (and t 0xFFFFFFFF) :: u32) \<noteq> 0" using tn by simp
      then have "(ucast (and t 0xFFFFFFFF) :: u32) \<noteq> 0" by (metis unat_0)
      then show ?thesis unfolding eq using True dz by (simp add: mag_wf_def)
    next
      case False
      have "(ucast (drop_bit 32 t) :: u32) \<noteq> 0"
        using False high32_less [of t] by (metis mod_less unat_0 unat_0_iff unat_ucast_u64_u32)
      then show ?thesis unfolding eq using True False by (simp add: mag_wf_def)
    qed
  next
    case False
    then have "mag_wf xs" using "2.prems"(2) by (simp add: mag_wf_def)
    then have "mag_wf (mag_mul_add_from xs k (drop_bit 32 t))"
      using "2.IH" [OF t_def] high32_less "2.prems"(3) by simp
    moreover have "mag_mul_add_from xs k (drop_bit 32 t) \<noteq> []"
      using False by (cases xs) (simp_all add: Let_def)
    ultimately show ?thesis unfolding eq by (simp add: mag_wf_def)
  qed
qed

lemma mag_mul_add_small_wf: "mag_wf a \<Longrightarrow> k \<noteq> 0 \<Longrightarrow> mag_wf (mag_mul_add_small a k c)"
  by (simp add: mag_mul_add_small_def mag_mul_add_from_wf unat_u32_less)

lemma mag_div_small_spec:
  assumes "d \<noteq> 0" and "mag_div_small a d = (q, r)"
  shows "mag_val a = mag_val q * unat d + unat r \<and> unat r < unat d \<and> length q = length a"
  using assms(2)
proof (induction a arbitrary: q r)
  case Nil
  then show ?case using assms(1) by (simp add: unat_gt_0)
next
  case (Cons x xs)
  obtain qs rem where ds: "mag_div_small xs d = (qs, rem)" by fastforce
  from Cons.IH [OF ds] have ih: "mag_val xs = mag_val qs * unat d + unat rem"
    and rl: "unat rem < unat d" and len: "length qs = length xs" by auto
  have r32: "unat rem < 4294967296" using rl unat_u32_less [of d] by linarith
  define h where "h = (ucast rem :: u32)"
  have hr: "ucast h = rem"
    using r32 by (simp add: word_unat_eq_iff h_def unat_ucast_u64_u32)
  define cur where "cur = or (push_bit 32 rem) (ucast x)"
  have cur: "unat cur = unat rem * 4294967296 + unat x"
    unfolding cur_def hr [symmetric] by simp
  have q: "q = ucast (cur div ucast d) # qs" and r: "r = cur mod ucast d"
    using Cons.prems ds by (simp_all add: cur_def Let_def)
  have ru: "unat r = unat cur mod unat d" by (simp add: r unat_mod)
  have "unat cur < unat d * 4294967296"
  proof -
    have "unat cur < (unat rem + 1) * 4294967296" using cur unat_u32_less [of x] by simp
    also have "\<dots> \<le> unat d * 4294967296" using rl by (intro mult_le_mono1) simp
    finally show ?thesis .
  qed
  then have "unat cur div unat d < 4294967296"
    by (simp add: div_less_iff_less_mult rl [THEN le_less_trans [OF le0]] mult.commute)
  then have qu: "unat (ucast (cur div ucast d) :: u32) = unat cur div unat d"
    by (simp add: unat_ucast_u64_u32 unat_div)
  have "unat cur div unat d * unat d + unat cur mod unat d = unat cur" by simp
  then have "mag_val (x # xs) = mag_val q * unat d + unat r"
    using ih cur by (simp add: q ru qu algebra_simps)
  moreover have "unat r < unat d" using rl by (simp add: ru)
  ultimately show ?case using len by (simp add: q)
qed


section \<open>The operations on signed values\<close>

lemma add_signed_wf [simp]: "big_wf (add_signed a s b t)"
  by (simp add: add_signed_def)

lemma add_signed_val:
  assumes "big_wf a" and "big_wf b"
  shows "big_val (add_signed a s b t)
    = (if s then - int (mag_val (b_limb a)) else int (mag_val (b_limb a)))
    + (if t then - int (mag_val (b_limb b)) else int (mag_val (b_limb b)))"
proof -
  note cmp = mag_cmp_spec [OF big_wf_mag [OF assms(1)] big_wf_mag [OF assms(2)]]
  have len1: "length (b_limb b) \<le> length (b_limb a)" if "mag_val (b_limb b) \<le> mag_val (b_limb a)"
    using mag_val_length_less [OF big_wf_mag [OF assms(2)], of "b_limb a"] that by (meson not_le)
  have len2: "length (b_limb a) \<le> length (b_limb b)" if "mag_val (b_limb a) \<le> mag_val (b_limb b)"
    using mag_val_length_less [OF big_wf_mag [OF assms(1)], of "b_limb b"] that by (meson not_le)
  consider "s = t" | "s \<noteq> t" "mag_val (b_limb b) \<le> mag_val (b_limb a)"
    | "s \<noteq> t" "mag_val (b_limb a) < mag_val (b_limb b)" by linarith
  then show ?thesis
  proof cases
    case 1
    then have "big_val (add_signed a s b t)
        = big_val \<lparr>b_neg = s, b_limb = mag_add (b_limb a) (b_limb b)\<rparr>"
      by (simp add: add_signed_def)
    with 1 show ?thesis by (simp add: big_val_def)
  next
    case 2
    then have "big_val (add_signed a s b t)
        = big_val \<lparr>b_neg = s, b_limb = mag_sub (b_limb a) (b_limb b)\<rparr>"
      by (simp add: add_signed_def cmp sgn_if)
    with 2 len1 show ?thesis by (simp add: big_val_def mag_sub_val of_nat_diff)
  next
    case 3
    then have "big_val (add_signed a s b t)
        = big_val \<lparr>b_neg = t, b_limb = mag_sub (b_limb b) (b_limb a)\<rparr>"
      by (simp add: add_signed_def cmp sgn_if)
    with 3 len2 show ?thesis by (simp add: big_val_def mag_sub_val of_nat_diff)
  qed
qed

lemma big_add_wf [simp]: "big_wf (big_add a b)"
  by (simp add: big_add_def)

lemma big_sub_wf [simp]: "big_wf (big_sub a b)"
  by (simp add: big_sub_def)

lemma big_mul_wf [simp]: "big_wf (big_mul a b)"
  by (simp add: big_mul_def)

lemma big_add_val: "big_wf a \<Longrightarrow> big_wf b \<Longrightarrow> big_val (big_add a b) = big_val a + big_val b"
  by (simp add: big_add_def add_signed_val) (simp add: big_val_def)

lemma big_sub_val: "big_wf a \<Longrightarrow> big_wf b \<Longrightarrow> big_val (big_sub a b) = big_val a - big_val b"
  by (simp add: big_sub_def add_signed_val) (simp add: big_val_def)

lemma big_mul_val: "big_val (big_mul a b) = big_val a * big_val b"
  by (simp add: big_mul_def) (simp add: big_val_def mag_mul_val)

lemma big_neg_wf [simp]: "big_wf a \<Longrightarrow> big_wf (big_neg a)"
  by (simp add: big_neg_def)

lemma big_abs_wf [simp]: "big_wf a \<Longrightarrow> big_wf (big_abs a)"
  by (simp add: big_abs_def)

lemma big_neg_val: "big_val (big_neg a) = - big_val a"
  by (auto simp: big_neg_def big_copy_mag_def big_val_def)

lemma big_abs_val: "big_val (big_abs a) = \<bar>big_val a\<bar>"
  by (simp add: big_abs_def big_copy_mag_val)

lemma big_sign_val: "big_wf a \<Longrightarrow> big_sign a = sgn (big_val a)"
  using big_val_eq_0 [of a] mag_val_pos [OF big_wf_mag [of a]]
  by (auto simp: big_sign_def big_val_def sgn_if)

lemma big_is_zero_val: "big_wf a \<Longrightarrow> big_is_zero a \<longleftrightarrow> big_val a = 0"
  by (simp add: big_is_zero_def big_val_eq_0)

lemma big_cmp_val:
  assumes "big_wf a" and "big_wf b"
  shows "big_cmp a b = sgn (big_val a - big_val b)"
proof -
  note cmp = mag_cmp_spec [OF big_wf_mag [OF assms(1)] big_wf_mag [OF assms(2)]]
  note sa = big_sign_val [OF assms(1)] and sb = big_sign_val [OF assms(2)]
  show ?thesis
  proof (cases "big_sign a = big_sign b \<and> big_sign a \<noteq> 0")
    case False
    then show ?thesis by (auto simp: big_cmp_def sa sb sgn_if split: if_splits)
  next
    case True
    then have nz: "b_limb a \<noteq> []" "b_limb b \<noteq> []" and sg: "b_neg a = b_neg b"
      by (auto simp: big_sign_def split: if_splits)
    have "big_cmp a b = big_sign a * mag_cmp (b_limb a) (b_limb b)"
      using True by (simp add: big_cmp_def Let_def)
    then show ?thesis using nz sg by (auto simp: cmp big_sign_def big_val_def sgn_if)
  qed
qed

section \<open>Machine integers\<close>

lemma two_limbs_val: "mag_val [ucast (and m 0xFFFFFFFF), ucast (drop_bit 32 m)] = unat (m :: u64)"
proof -
  have "unat (ucast (drop_bit 32 m) :: u32) = unat m div 4294967296"
    using high32_less [of m] by (simp add: unat_ucast_u64_u32)
  then show ?thesis by simp
qed

lemma big_from_i64_wf [simp]: "big_wf (big_from_i64 v)"
  by (simp add: big_from_i64_def Let_def)


lemma sint_of_unat:
  "sint (v :: u64) = (if unat v < 9223372036854775808 then int (unat v) else int (unat v) - 18446744073709551616)"
proof -
  have "sint v = sint (word_of_int (uint v) :: u64)" by simp
  also have "\<dots> = (uint v + 9223372036854775808) mod 18446744073709551616 - 9223372036854775808"
    by (subst int_word_sint) simp
  finally have s: "sint v = (int (unat v) + 9223372036854775808) mod 18446744073709551616 - 9223372036854775808"
    by (simp add: add.commute)
  have lt: "unat v < 18446744073709551616" by (rule unat_u64_less)
  show ?thesis
  proof (cases "unat v < 9223372036854775808")
    case True
    then show ?thesis unfolding s by (simp add: mod_pos_pos_trivial del: of_nat_unat)
  next
    case False
    have "(int (unat v) + 9223372036854775808) mod 18446744073709551616
        = (int (unat v) - 9223372036854775808 + 18446744073709551616 * 1) mod 18446744073709551616"
      by (simp add: add.commute)
    also have "\<dots> = int (unat v) - 9223372036854775808"
      using False lt by (simp only: mod_mult_self2) (simp add: mod_pos_pos_trivial del: of_nat_unat)
    finally show ?thesis unfolding s using False by simp
  qed
qed

lemma unat_neg_u64: "unat (0 - v :: u64) = (if v = 0 then 0 else 18446744073709551616 - unat v)"
proof (cases "v = 0")
  case False
  then have lt: "unat (0 :: u64) < unat v" by (simp add: unat_gt_0)
  have "unat (0 - v) = 18446744073709551616 + unat (0 :: u64) - unat v"
    by (rule unat_sub_wrap_u64 [OF lt])
  then show ?thesis using False by (simp only: unat_0 add_0_right if_False)
qed simp

lemma big_from_i64_val: "big_val (big_from_i64 v) = sint v"
proof -
  define m where "m = (if sint v < 0 then 0 - v else v)"
  have "big_val (big_from_i64 v) = (if sint v < 0 then - int (unat m) else int (unat m))"
    unfolding big_from_i64_def Let_def m_def [symmetric] big_trim_val
    by (simp only: big_val_def a68_big.simps two_limbs_val)
  moreover have "int (unat m) = \<bar>sint v\<bar>"
  proof (cases "sint v < 0")
    case True
    then have big: "9223372036854775808 \<le> unat v" by (simp add: sint_of_unat split: if_splits)
    then have "v \<noteq> 0" by auto
    then have "unat (0 - v) = 18446744073709551616 - unat v" using unat_neg_u64 [of v] by (simp only: if_False)
    then have "unat m = 18446744073709551616 - unat v" using True by (simp only: m_def if_True)
    then show ?thesis using big unat_u64_less [of v]
      by (simp add: sint_of_unat of_nat_diff del: of_nat_unat)
  next
    case False
    then have "m = v" "unat v < 9223372036854775808"
      using unat_u64_less [of v] by (auto simp: m_def sint_of_unat split: if_splits)
    then show ?thesis by (simp add: sint_of_unat del: of_nat_unat)
  qed
  ultimately show ?thesis by (simp split: if_splits)
qed

lemma unat_or_low:
  "unat (or (ucast (lo :: u32)) (push_bit 32 (ucast (hi :: u32) :: u64))) = unat lo + 4294967296 * unat hi"
  using unat_join32 [of hi lo] by (simp add: or.commute)

lemma big_low64_val:
  "length (b_limb a) \<le> 2 \<Longrightarrow> unat (big_low64 a) = mag_val (b_limb a)"
  by (auto simp: big_low64_def unat_or_low split: list.splits)

lemma mag_val_ge_64: "mag_wf xs \<Longrightarrow> 2 < length xs \<Longrightarrow> 18446744073709551616 \<le> mag_val xs"
proof -
  assume wf: "mag_wf xs" and len: "2 < length xs"
  have "(18446744073709551616 :: nat) = 4294967296 ^ 2" by simp
  also have "\<dots> \<le> 4294967296 ^ (length xs - 1)" using len by (intro power_increasing) auto
  also have "\<dots> \<le> mag_val xs" using wf len by (intro mag_val_last_ge) (auto simp: mag_wf_def)
  finally show ?thesis .
qed

lemma big_fits_i64_iff:
  assumes "big_wf a"
  shows "big_fits_i64 a \<longleftrightarrow> -9223372036854775808 \<le> big_val a \<and> big_val a < 9223372036854775808"
proof (cases "2 < length (b_limb a)")
  case True
  then show ?thesis using mag_val_ge_64 [OF big_wf_mag [OF assms]]
    by (simp add: big_fits_i64_def big_val_def)
next
  case False
  then have "unat (big_low64 a) = mag_val (b_limb a)" by (intro big_low64_val) simp
  then show ?thesis using False
    by (simp add: big_fits_i64_def big_val_def word_le_nat_alt word_less_nat_alt del: of_nat_unat)
qed

lemma big_to_i64_val:
  assumes "big_wf a" and "big_fits_i64 a"
  shows "sint (big_to_i64 a) = big_val a"
proof -
  have len: "length (b_limb a) \<le> 2" using assms(2) by (auto simp: big_fits_i64_def split: if_splits)
  note lo = big_low64_val [OF len]
  have r: "-9223372036854775808 \<le> big_val a \<and> big_val a < 9223372036854775808"
    using big_fits_i64_iff [OF assms(1)] assms(2) by simp
  show ?thesis
  proof (cases "b_neg a")
    case True
    then have "b_limb a \<noteq> []" using assms(1) by (auto simp: big_wf_def)
    then have "0 < mag_val (b_limb a)" by (rule mag_val_pos [OF big_wf_mag [OF assms(1)]])
    then have "big_low64 a \<noteq> 0" using lo by auto
    then have "unat (big_to_i64 a) = 18446744073709551616 - mag_val (b_limb a)"
      using True lo unat_neg_u64 [of "big_low64 a"] by (simp only: big_to_i64_def if_True if_False)
    then show ?thesis using True r \<open>0 < mag_val (b_limb a)\<close>
      by (simp add: sint_of_unat big_val_def of_nat_diff del: of_nat_unat)
  next
    case False
    then show ?thesis using r lo by (simp add: big_to_i64_def sint_of_unat big_val_def del: of_nat_unat)
  qed
qed

section \<open>Properties\<close>

text \<open>
  C5: addition, subtraction, multiplication and comparison of arbitrary-precision integers are
  the mathematical operations, and their results are normalised again (no leading zero limb,
  no negative zero).
\<close>

theorem big_arithmetic_exact:
  assumes "big_wf a" and "big_wf b"
  shows "big_val (big_add a b) = big_val a + big_val b \<and> big_wf (big_add a b) \<and>
    big_val (big_sub a b) = big_val a - big_val b \<and> big_wf (big_sub a b) \<and>
    big_val (big_mul a b) = big_val a * big_val b \<and> big_wf (big_mul a b) \<and>
    big_cmp a b = sgn (big_val a - big_val b)"
  using assms by (simp add: big_add_val big_sub_val big_mul_val big_cmp_val)

theorem big_arithmetic_exact_witness:
  "big_val (big_mul (big_from_i64 (- 3000000000)) (big_from_i64 5000000000)) = - 15000000000000000000 \<and>
   big_cmp (big_from_i64 (- 3000000000)) (big_from_i64 5000000000) = - 1"
  using big_arithmetic_exact [of "big_from_i64 (- 3000000000)" "big_from_i64 5000000000"]
  by (simp add: big_from_i64_val)

text \<open>
  Conversion to and from 64-bit integers. \<open>big_from_i64\<close> keeps the value of every word,
  the least one included; \<open>big_fits_i64\<close> decides exactly whether a value is in range; and
  \<open>big_to_i64\<close> gives the value when it is, so the two conversions are inverse to each other.
\<close>

theorem big_i64_conversions:
  "big_val (big_from_i64 v) = sint v \<and> big_fits_i64 (big_from_i64 v) \<and> big_to_i64 (big_from_i64 v) = v \<and>
   (big_wf a \<longrightarrow> (big_fits_i64 a \<longleftrightarrow> - (2 ^ 63) \<le> big_val a \<and> big_val a < 2 ^ 63) \<and>
     (big_fits_i64 a \<longrightarrow> sint (big_to_i64 a) = big_val a))"
proof -
  have r: "- (2 ^ 63) \<le> sint v" "sint v < 2 ^ 63" using sint_u64_range [of v] by simp_all
  have f: "big_fits_i64 (big_from_i64 v)"
    using r by (subst big_fits_i64_iff) (simp_all add: big_from_i64_val)
  have "sint (big_to_i64 (big_from_i64 v)) = sint v"
    using big_to_i64_val [OF big_from_i64_wf f] by (simp add: big_from_i64_val)
  then have "big_to_i64 (big_from_i64 v) = v" by (rule signed_word_eqI)
  then show ?thesis using f big_fits_i64_iff [of a] big_to_i64_val [of a] by (simp add: big_from_i64_val)
qed

theorem big_i64_conversions_witness:
  "big_to_i64 (big_from_i64 0x8000000000000000) = 0x8000000000000000 \<and>
   \<not> big_fits_i64 (big_neg (big_from_i64 0x8000000000000000))"
  using big_i64_conversions [of "0x8000000000000000" "big_neg (big_from_i64 0x8000000000000000)"]
  by (simp add: big_neg_val big_from_i64_val)

end
