(* ===== verification/BigintDiv.thy ===== *)
theory BigintDiv
  imports Bigint
begin

text \<open>
  \<open>csrc/bigint.c\<close>, second part: long division (\<open>mag_divmod\<close>, Knuth's algorithm D on 32-bit
  limbs) and \<open>big_divmod\<close>. The quotient digit is estimated from the two leading limbs of the
  normalised divisor, corrected by \<open>qhat_loop\<close>, multiplied and subtracted with separate carry
  and borrow, and added back when the wrapped top limb shows that the estimate was one too
  large. The lemmas follow those steps and end in the division theorem for \<open>big_divmod\<close>.
\<close>

section \<open>Normalisation\<close>

text \<open>\<open>clz32\<close>: shift left until the top bit is set.\<close>

function clz_loop :: "u32 \<Rightarrow> nat" where
  "clz_loop x = (if x = 0 \<or> and x 0x80000000 \<noteq> 0 then 0 else Suc (clz_loop (push_bit 1 x)))"
  by pat_completeness auto
termination
proof (relation "measure (\<lambda>x. 4294967296 - unat x)", goal_cases)
  case (2 x)
  then have nz: "x \<noteq> 0" and top: "and x 0x80000000 = 0" by auto
  have "\<not> bit x 31"
  proof
    assume "bit x 31"
    then have "bit (and x 0x80000000) 31" by (simp add: bit_and_iff bit_numeral_word_iff)
    then show False using top by simp
  qed
  then have "unat x < 2147483648"
    using unat_u32_less [of x] bit_iff_odd [of "unat x" 31]
    by (simp add: bit_unsigned_iff) (metis One_nat_def bit_unsigned_iff div_eq_0_iff div_less_iff_less_mult
        less_2_cases_iff linorder_not_less mult_2 numeral_Bit0 odd_one zero_neq_numeral)
  then have "unat (push_bit 1 x) = 2 * unat x"
    by (simp add: push_bit_eq_mult unat_word_ariths)
  moreover have "0 < unat x" using nz by (simp add: unat_gt_0)
  ultimately show ?case using unat_u32_less [of "push_bit 1 x"] by simp
qed simp

definition clz32 :: "u32 \<Rightarrow> nat" where
  "clz32 x = (if x = 0 then 32 else clz_loop x)"

definition shl_limb :: "nat \<Rightarrow> u32 \<Rightarrow> u32 \<Rightarrow> u32" where
  "shl_limb s hi lo = or (push_bit s hi) (if s \<noteq> 0 then drop_bit (32 - s) lo else 0)"

fun shl_limbs :: "nat \<Rightarrow> u32 \<Rightarrow> mag \<Rightarrow> mag" where
  "shl_limbs s prev [] = []"
| "shl_limbs s prev (x # xs) = shl_limb s x prev # shl_limbs s x xs"

text \<open>The shift back: \<open>r[i] = (un[i] >> s) | (un[i + 1] << (32 - s))\<close> for all limbs but the last.\<close>

fun shr_limbs :: "nat \<Rightarrow> mag \<Rightarrow> mag" where
  "shr_limbs s (x # y # zs) =
     or (drop_bit s x) (if s \<noteq> 0 then push_bit (32 - s) y else 0) # shr_limbs s (y # zs)"
| "shr_limbs s _ = []"

section \<open>One quotient digit\<close>

text \<open>The correction loop; \<open>v1, v2\<close> are the leading divisor limbs, \<open>u2\<close> the third limb of the window.\<close>

function qhat_loop :: "u64 \<Rightarrow> u64 \<Rightarrow> u64 \<Rightarrow> u64 \<Rightarrow> u64 \<Rightarrow> u64" where
  "qhat_loop v1 v2 u2 qhat rhat =
     (if qhat \<ge> 0x100000000 \<or> qhat * v2 > or (push_bit 32 rhat) u2
      then if rhat + v1 \<ge> 0x100000000 then qhat - 1
           else qhat_loop v1 v2 u2 (qhat - 1) (rhat + v1)
      else qhat)"
  by pat_completeness auto
termination
proof (relation "measure (\<lambda>(v1, v2, u2, qhat, rhat). unat qhat)", goal_cases)
  case (2 v1 v2 u2 qhat rhat)
  then have "qhat \<noteq> 0" by auto
  then show ?case by (simp add: unat_minus_one unat_gt_0)
qed simp

fun mulsub_from :: "u64 \<Rightarrow> u64 \<Rightarrow> u64 \<Rightarrow> mag \<Rightarrow> mag \<Rightarrow> mag \<times> bool" where
  "mulsub_from qhat carry borrow vs [] = ([], False)"
| "mulsub_from qhat carry borrow [] (u # us) =
     (let t = ucast u - carry - borrow in
      (ucast (and t 0xFFFFFFFF) # us, drop_bit 32 t \<noteq> 0))"
| "mulsub_from qhat carry borrow (v # vs) (u # us) =
     (let p = qhat * ucast v + carry;
          t = ucast u - and p 0xFFFFFFFF - borrow;
          (ws, neg) = mulsub_from qhat (drop_bit 32 p) (if drop_bit 32 t \<noteq> 0 then 1 else 0) vs us
      in (ucast (and t 0xFFFFFFFF) # ws, neg))"

fun addback_from :: "u64 \<Rightarrow> mag \<Rightarrow> mag \<Rightarrow> mag" where
  "addback_from carry vs [] = []"
| "addback_from carry [] (u # us) = ucast (and (ucast u + carry) 0xFFFFFFFF) # us"
| "addback_from carry (v # vs) (u # us) =
     (let a = ucast u + ucast v + carry in
      ucast (and a 0xFFFFFFFF) # addback_from (drop_bit 32 a) vs us)"

text \<open>The body of the main loop on the window \<open>un[jj .. jj + n]\<close>.\<close>

definition div_step :: "mag \<Rightarrow> mag \<Rightarrow> u32 \<times> mag" where
  "div_step vn w =
     (let n = length vn;
          num = or (push_bit 32 (ucast (w ! n))) (ucast (w ! (n - 1)));
          v1 = ucast (vn ! (n - 1));
          qhat = qhat_loop v1 (ucast (vn ! (n - 2))) (ucast (w ! (n - 2))) (num div v1) (num mod v1);
          (w', neg) = mulsub_from qhat 0 0 vn w
      in if neg then (ucast qhat - 1, addback_from 0 vn w') else (ucast qhat, w'))"

fun divmod_loop :: "mag \<Rightarrow> nat \<Rightarrow> mag \<Rightarrow> mag \<Rightarrow> mag \<times> mag" where
  "divmod_loop vn 0 un q = (q, un)"
| "divmod_loop vn (Suc jj) un q =
     (let n = length vn;
          (d, w) = div_step vn (take (n + 1) (drop jj un))
      in divmod_loop vn jj (take jj un @ w @ drop (jj + n + 1) un) (d # q))"

definition mag_divmod :: "mag \<Rightarrow> mag \<Rightarrow> mag \<times> mag" where
  "mag_divmod u v =
     (let n = length v; m = length u; s = clz32 (last v);
          vn = shl_limbs s 0 v;
          un = shl_limbs s 0 u @ [if s \<noteq> 0 then drop_bit (32 - s) (last u) else 0];
          (q, un') = divmod_loop vn (m - n + 1) un []
      in (q, shr_limbs s (take (n + 1) un')))"

definition big_divmod :: "a68_big \<Rightarrow> a68_big \<Rightarrow> (a68_big \<times> a68_big) option" where
  "big_divmod a b =
     (if b_limb b = [] then None
      else let (q, r) =
             (if mag_cmp (b_limb a) (b_limb b) < 0 then ([], b_limb a)
              else if length (b_limb b) = 1 then
                (let (q, rem) = mag_div_small (b_limb a) (hd (b_limb b)) in (q, [ucast rem]))
              else mag_divmod (b_limb a) (b_limb b))
           in Some (big_trim \<lparr>b_neg = (b_neg a \<noteq> b_neg b), b_limb = q\<rparr>,
                    big_trim \<lparr>b_neg = b_neg a, b_limb = r\<rparr>))"


declare clz_loop.simps [simp del]
declare qhat_loop.simps [simp del]

section \<open>Shifting a limb list\<close>

lemma bit31_iff: "(and (x :: u32) 0x80000000 \<noteq> 0) \<longleftrightarrow> 2147483648 \<le> unat x"
proof -
  have m: "(0x80000000 :: u32) = push_bit 31 1" by simp
  have "(and x (push_bit 31 1) \<noteq> 0) \<longleftrightarrow> bit x 31"
    by (metis (no_types, opaque_lifting) and_exp_eq_0_iff_not_bit push_bit_of_1)
  also have "\<dots> \<longleftrightarrow> odd (unat x div 2147483648)"
  proof -
    have "bit x 31 \<longleftrightarrow> bit (unat x) 31" by (simp add: bit_unsigned_iff)
    then show ?thesis by (simp add: bit_iff_odd [of "unat x"])
  qed
  also have "\<dots> \<longleftrightarrow> 2147483648 \<le> unat x"
  proof -
    have "unat x div 2147483648 < 2" using unat_u32_less [of x] by (simp add: div_less_iff_less_mult)
    then have "odd (unat x div 2147483648) \<longleftrightarrow> unat x div 2147483648 \<noteq> 0"
      by (auto simp: less_2_cases_iff)
    then show ?thesis by (simp add: div_eq_0_iff not_less)
  qed
  finally show ?thesis unfolding m .
qed

lemma clz_loop_spec:
  "x \<noteq> 0 \<Longrightarrow> 2147483648 \<le> unat x * 2 ^ clz_loop x \<and> unat x * 2 ^ clz_loop x < 4294967296 \<and> clz_loop x < 32"
proof (induction x rule: clz_loop.induct)
  case (1 x)
  show ?case
  proof (cases "and x 0x80000000 \<noteq> 0")
    case True
    then show ?thesis using unat_u32_less [of x] bit31_iff [of x] by (simp add: clz_loop.simps [of x])
  next
    case False
    then have lt: "unat x < 2147483648" using bit31_iff [of x] by simp
    then have d: "unat (push_bit 1 x) = 2 * unat x" by (simp add: push_bit_eq_mult unat_word_ariths)
    then have "push_bit 1 x \<noteq> 0" using "1.prems" by (metis mult_is_0 unat_0 unat_0_iff zero_neq_numeral)
    with "1.IH" "1.prems" False d
    have ih: "2147483648 \<le> unat x * 2 ^ Suc (clz_loop (push_bit 1 x))"
      "unat x * 2 ^ Suc (clz_loop (push_bit 1 x)) < 4294967296" "clz_loop (push_bit 1 x) < 32"
      by (auto simp: mult_ac)
    have "0 < unat x" using "1.prems" by (simp add: unat_gt_0)
    then have "(2 :: nat) ^ Suc (clz_loop (push_bit 1 x)) \<le> unat x * 2 ^ Suc (clz_loop (push_bit 1 x))"
      by simp
    from this ih(2) have "(2 :: nat) ^ Suc (clz_loop (push_bit 1 x)) < 4294967296" by (rule le_less_trans)
    moreover have "(2 :: nat) ^ 32 = 4294967296" by simp
    ultimately have "(2 :: nat) ^ Suc (clz_loop (push_bit 1 x)) < 2 ^ 32" by (simp only:)
    then have "Suc (clz_loop (push_bit 1 x)) < 32" by (rule power_less_imp_less_exp [rotated]) simp
    then show ?thesis using ih False "1.prems" by (simp add: clz_loop.simps [of x])
  qed
qed

lemma pow2_split: "s \<le> 32 \<Longrightarrow> (4294967296 :: nat) = 2 ^ s * 2 ^ (32 - s)"
  by (simp flip: power_add)

lemma unat_push_u32: "unat (push_bit s x :: u32) = unat x * 2 ^ s mod 4294967296"
proof -
  have "unat (push_bit s x) = take_bit 32 (push_bit s (unat x))" by (simp add: unsigned_push_bit_eq)
  then show ?thesis by (simp only: push_bit_eq_mult take_bit_eq_mod) simp
qed

lemma shl_limb_val:
  assumes "s < 32"
  shows "unat (shl_limb s hi lo) = unat hi * 2 ^ s mod 4294967296 + unat lo div 2 ^ (32 - s)"
proof -
  define t where "t = (if s \<noteq> 0 then drop_bit (32 - s) lo else 0)"
  have t: "unat t = unat lo div 2 ^ (32 - s)"
  proof (cases "s = 0")
    case False
    then have "unat t = drop_bit (32 - s) (unat lo)" by (simp add: t_def unat_drop_bit_eq)
    then show ?thesis by (simp only: drop_bit_eq_div)
  qed (use unat_u32_less [of lo] in \<open>simp add: t_def\<close>)
  have disj: "and (push_bit s hi) t = 0"
    by (rule bit_word_eqI) (auto simp: t_def bit_simps dest: bit_imp_le_length)
  have "unat (push_bit s hi) = unat hi * 2 ^ s mod 4294967296"
    by (rule unat_push_u32)
  moreover have "unat (shl_limb s hi lo) = unat (push_bit s hi) + unat t"
  proof -
    have "unat (shl_limb s hi lo) = or (unat (push_bit s hi)) (unat t)"
      by (simp add: shl_limb_def t_def unsigned_or_eq)
    moreover have "and (unat (push_bit s hi)) (unat t) = 0"
      using disj by (metis unat_0 unsigned_and_eq)
    ultimately show ?thesis by (simp add: disjunctive_add_eq_or)
  qed
  ultimately show ?thesis using t by simp
qed

lemma length_shl_limbs [simp]: "length (shl_limbs s p xs) = length xs"
  by (induction s p xs rule: shl_limbs.induct) simp_all

lemma shl_limbs_val:
  assumes "s < 32"
  shows "mag_val (shl_limbs s p xs) + 4294967296 ^ length xs * (unat (last (p # xs)) div 2 ^ (32 - s))
    = 2 ^ s * mag_val xs + unat p div 2 ^ (32 - s)"
proof (induction xs arbitrary: p)
  case (Cons x xs)
  have B: "(4294967296 :: nat) = 2 ^ s * 2 ^ (32 - s)" using assms by (intro pow2_split) simp
  have "unat x * 2 ^ s div 4294967296 = unat x div 2 ^ (32 - s)"
    by (simp add: B mult.commute)
  then have x: "unat x * 2 ^ s mod 4294967296 + 4294967296 * (unat x div 2 ^ (32 - s)) = unat x * 2 ^ s"
    by (metis mod_mult_div_eq)
  have "mag_val (shl_limbs s p (x # xs)) + 4294967296 ^ length (x # xs) * (unat (last (p # x # xs)) div 2 ^ (32 - s))
      = unat (shl_limb s x p) + 4294967296 * (mag_val (shl_limbs s x xs)
          + 4294967296 ^ length xs * (unat (last (x # xs)) div 2 ^ (32 - s)))"
    by (simp add: algebra_simps)
  also have "\<dots> = unat (shl_limb s x p) + 4294967296 * (2 ^ s * mag_val xs + unat x div 2 ^ (32 - s))"
    by (simp only: Cons.IH)
  also have "\<dots> = unat x * 2 ^ s + unat p div 2 ^ (32 - s) + 4294967296 * (2 ^ s * mag_val xs)"
    using x by (simp add: shl_limb_val [OF assms] algebra_simps)
  finally show ?case by (simp add: algebra_simps)
qed simp

lemma length_shr_limbs [simp]: "length (shr_limbs s xs) = length xs - 1"
  by (induction s xs rule: shr_limbs.induct) simp_all

lemma shr_limb_val:
  assumes "s < 32"
  shows "unat (or (drop_bit s x) (if s \<noteq> 0 then push_bit (32 - s) y else 0) :: u32)
    = unat x div 2 ^ s + 2 ^ (32 - s) * (unat y mod 2 ^ s)"
proof -
  define t :: u32 where "t = (if s \<noteq> 0 then push_bit (32 - s) y else 0)"
  have t: "unat t = 2 ^ (32 - s) * (unat y mod 2 ^ s)"
  proof (cases "s = 0")
    case False
    have B: "(4294967296 :: nat) = 2 ^ (32 - s) * 2 ^ s"
      using assms pow2_split [of s] by (simp add: mult.commute)
    have "unat t = 2 ^ (32 - s) * unat y mod 4294967296"
      using False unat_push_u32 [of "32 - s" y] by (simp add: t_def mult.commute)
    also have "\<dots> = 2 ^ (32 - s) * (unat y mod 2 ^ s)"
      by (subst B) (rule mult_mod_right [symmetric])
    finally show ?thesis .
  qed (simp add: t_def)
  have disj: "and (drop_bit s x) t = 0"
    using assms by (intro bit_word_eqI) (auto simp: t_def bit_simps dest: bit_imp_le_length)
  have "unat (or (drop_bit s x) t) = unat (drop_bit s x) + unat t"
  proof -
    have "and (unat (drop_bit s x)) (unat t) = 0" using disj by (metis unat_0 unsigned_and_eq)
    then show ?thesis by (simp add: unsigned_or_eq disjunctive_add_eq_or)
  qed
  then show ?thesis using t by (simp add: t_def unat_drop_bit_eq) (simp add: drop_bit_eq_div)
qed

lemma shr_limbs_val:
  "s < 32 \<Longrightarrow> xs \<noteq> [] \<Longrightarrow> last xs = 0 \<Longrightarrow> mag_val (shr_limbs s xs) = mag_val xs div 2 ^ s"
proof (induction s xs rule: shr_limbs.induct)
  case (1 s x y zs)
  define W where "W = mag_val (y # zs)"
  note s = "1.prems"(1)
  have B: "(4294967296 :: nat) = 2 ^ s * 2 ^ (32 - s)" using s by (intro pow2_split) simp
  have ih: "mag_val (shr_limbs s (y # zs)) = W div 2 ^ s" using 1 by (simp add: W_def)
  have ym: "unat y mod 2 ^ s = W mod 2 ^ s"
    by (simp add: W_def B mod_mult_self2 mult.assoc)
  have "mag_val (x # y # zs) div 2 ^ s = unat x div 2 ^ s + 2 ^ (32 - s) * W"
    by (simp add: W_def B mult.assoc)
  also have "2 ^ (32 - s) * W = 2 ^ (32 - s) * (2 ^ s * (W div 2 ^ s) + W mod 2 ^ s)" by simp
  also have "\<dots> = 2 ^ (32 - s) * (W mod 2 ^ s) + (2 ^ s * 2 ^ (32 - s)) * (W div 2 ^ s)"
    by (simp only: algebra_simps)
  finally have "mag_val (x # y # zs) div 2 ^ s
      = unat x div 2 ^ s + 2 ^ (32 - s) * (unat y mod 2 ^ s) + 4294967296 * (W div 2 ^ s)"
    by (simp only: ym B add.assoc)
  then show ?case by (simp only: shr_limbs.simps mag_val.simps(2) [of "or _ _"] shr_limb_val [OF s] ih)
qed auto


section \<open>Multiply, subtract and add back\<close>

text \<open>One limb of the subtraction: the stored low half and the borrow read off the wrap.\<close>

lemma sub_step:
  fixes u :: u32 and y bor t :: u64
  assumes "unat bor \<le> 1" and "unat y < 4294967296" and t: "t = ucast u - y - bor"
  shows "int (unat (ucast (and t 0xFFFFFFFF) :: u32))
    = int (unat u) - int (unat y) - int (unat bor) + (if drop_bit 32 t \<noteq> 0 then 4294967296 else 0)"
proof -
  define y32 where "y32 = (ucast y :: u32)"
  have y: "ucast y32 = y" "unat y32 = unat y"
    using assms(2) by (simp_all add: y32_def word_unat_eq_iff unat_ucast_u64_u32)
  have "t = ucast u - bor - ucast y32" using t y by (simp add: algebra_simps)
  from mag_sub_step [OF assms(1) this] show ?thesis by (simp only: y(2))
qed

lemma low_mask_less: "unat (and p 0xFFFFFFFF :: u64) = unat p mod 4294967296"
proof -
  have m: "(0xFFFFFFFF :: u64) = mask 32" by (simp add: mask_eq_exp_minus_1)
  have "unat (and p (mask 32)) = take_bit 32 (unat p)"
    by (simp add: unsigned_take_bit_eq flip: take_bit_eq_mask)
  then show ?thesis unfolding m by (simp only: take_bit_eq_mod) simp
qed

lemma unat_mul_add_wide:
  assumes "unat q < 4294967296" and "unat c < 4294967296"
  shows "unat (q * ucast (v :: u32) + c :: u64) = unat q * unat v + unat c"
proof -
  have "unat q * unat v \<le> 4294967295 * 4294967295"
    using assms(1) by (intro mult_le_mono unat_u32_le) simp
  then have b: "unat q * unat v + unat c < 18446744073709551616" using assms(2) by simp
  then have "unat (q * ucast v) = unat q * unat v" by (subst unat_mult_u64) simp_all
  with b show ?thesis by (subst unat_add_u64) simp_all
qed

lemma mulsub_algebra:
  fixes w w' st u u' q v vs c b b' p K :: int
  assumes "w = st + 4294967296 * w'" and "st = u - (q * v + c - 4294967296 * p) - b + 4294967296 * b'"
    and "w' = u' - q * vs - p - b' + K"
  shows "w = (u + 4294967296 * u') - q * (v + 4294967296 * vs) - c - b + 4294967296 * K"
  unfolding assms by (simp add: algebra_simps)

lemma mulsub_from_val:
  assumes "unat q < 4294967296" and "unat c < 4294967296" and "unat b \<le> 1"
    and "length us = Suc (length vs)" and "mulsub_from q c b vs us = (ws, neg)"
  shows "int (mag_val ws) = int (mag_val us) - int (unat q) * int (mag_val vs) - int (unat c) - int (unat b)
      + (if neg then 4294967296 ^ length us else 0) \<and> length ws = length us"
  using assms(2-)
proof (induction vs arbitrary: c b us ws neg)
  case Nil
  from Nil.prems(3) obtain u where us: "us = [u]" by (cases us) auto
  define t where "t = ucast u - c - b"
  have "ws = [ucast (and t 0xFFFFFFFF)]" "neg = (drop_bit 32 t \<noteq> 0)"
    using Nil.prems us by (auto simp: t_def Let_def)
  then show ?case using sub_step [OF Nil.prems(2,1) t_def] us by (simp del: unat_low32)
next
  case (Cons v vs)
  from Cons.prems(3) obtain u us' where us: "us = u # us'" and len: "length us' = Suc (length vs)"
    by (cases us) auto
  define p where "p = q * ucast v + c"
  have p: "unat p = unat q * unat v + unat c"
    unfolding p_def by (rule unat_mul_add_wide [OF assms(1) Cons.prems(1)])
  define t where "t = ucast u - and p 0xFFFFFFFF - b"
  define b' where "b' = (if drop_bit 32 t \<noteq> 0 then 1 else 0 :: u64)"
  obtain ws' neg' where r: "mulsub_from q (drop_bit 32 p) b' vs us' = (ws', neg')" by fastforce
  have ws: "ws = ucast (and t 0xFFFFFFFF) # ws'" "neg = neg'"
    using Cons.prems(4) r
    unfolding us mulsub_from.simps Let_def p_def [symmetric] t_def [symmetric] b'_def [symmetric]
    by (simp_all only: prod.case prod.inject)
  have b': "unat b' \<le> 1" by (simp add: b'_def)
  have ih: "int (mag_val ws') = int (mag_val us') - int (unat q) * int (mag_val vs)
      - int (unat p div 4294967296) - int (unat b') + (if neg' then 4294967296 ^ length us' else 0)"
    "length ws' = length us'"
    using Cons.IH [OF high32_less b' len r] by (simp_all del: of_nat_unat)
  have "unat (and p 0xFFFFFFFF) < 4294967296" by (simp add: low_mask_less)
  from sub_step [OF Cons.prems(2) this t_def]
  have st: "int (unat (ucast (and t 0xFFFFFFFF) :: u32))
      = int (unat u) - int (unat p mod 4294967296) - int (unat b) + 4294967296 * int (unat b')"
    by (simp only: low_mask_less b'_def) (simp del: unat_low32 of_nat_unat)
  have "int (unat p mod 4294967296) + 4294967296 * int (unat p div 4294967296) = int (unat p)"
    by (metis of_nat_add of_nat_mult of_nat_numeral split32)
  then have pe: "int (unat p mod 4294967296)
      = int (unat q) * int (unat v) + int (unat c) - 4294967296 * int (unat p div 4294967296)"
    using p by simp
  have w: "int (mag_val ws) = int (unat (ucast (and t 0xFFFFFFFF) :: u32)) + 4294967296 * int (mag_val ws')"
    by (simp only: ws mag_val.simps of_nat_add of_nat_mult of_nat_numeral)
  have "int (mag_val ws) = (int (unat u) + 4294967296 * int (mag_val us'))
      - int (unat q) * (int (unat v) + 4294967296 * int (mag_val vs)) - int (unat c) - int (unat b)
      + 4294967296 * (if neg' then 4294967296 ^ length us' else 0)"
    by (rule mulsub_algebra [OF w _ ih(1)]) (simp only: st pe)
  then show ?case using ih(2) ws us
    by (simp only: mag_val.simps of_nat_add of_nat_mult of_nat_numeral list.size power_Suc power_add)
      (simp del: of_nat_unat)
qed

lemma addback_from_val:
  assumes "unat c \<le> 1" and "length us = Suc (length vs)"
  shows "\<exists>k. mag_val (addback_from c vs us) + k * 4294967296 ^ length us = mag_val us + mag_val vs + unat c
      \<and> length (addback_from c vs us) = length us"
  using assms
proof (induction vs arbitrary: c us)
  case Nil
  then obtain u where us: "us = [u]" by (cases us) auto
  have "unat (ucast u + c) = unat u + unat c"
    using Nil.prems(1) unat_u32_less [of u] by (subst unat_add_u64) simp_all
  then show ?case using us
    by (intro exI [of _ "(unat u + unat c) div 4294967296"]) simp
next
  case (Cons v vs)
  then obtain u us' where us: "us = u # us'" and len: "length us' = Suc (length vs)" by (cases us) auto
  define a where "a = ucast u + ucast v + c"
  have a: "unat a = unat u + unat v + unat c"
    unfolding a_def using Cons.prems(1) unat_u32_less [of u] unat_u32_less [of v]
    by (subst unat_add_u64, simp_all add: unat_add_u64)
  have "unat a div 4294967296 \<le> 1"
    using a Cons.prems(1) unat_u32_le [of u] unat_u32_le [of v] by linarith
  then have c': "unat (drop_bit 32 a) \<le> 1" by simp
  obtain k where k: "mag_val (addback_from (drop_bit 32 a) vs us') + k * 4294967296 ^ length us'
      = mag_val us' + mag_val vs + unat a div 4294967296"
    and l: "length (addback_from (drop_bit 32 a) vs us') = length us'"
    using Cons.IH [OF c' len] by auto
  have eq: "addback_from c (v # vs) us = ucast (and a 0xFFFFFFFF) # addback_from (drop_bit 32 a) vs us'"
    unfolding us a_def by (simp only: addback_from.simps Let_def)
  have "mag_val (addback_from c (v # vs) us) + k * 4294967296 ^ length us
      = unat a mod 4294967296 + 4294967296 * (mag_val (addback_from (drop_bit 32 a) vs us') + k * 4294967296 ^ length us')"
    unfolding eq unfolding us by (simp add: algebra_simps del: addback_from.simps)
  also have "\<dots> = (unat a mod 4294967296 + 4294967296 * (unat a div 4294967296)) + 4294967296 * (mag_val us' + mag_val vs)"
    unfolding k by (simp only: algebra_simps)
  also have "\<dots> = mag_val us + mag_val (v # vs) + unat c"
    unfolding split32 a us by (simp add: algebra_simps)
  finally show ?case using l unfolding eq unfolding us by (intro exI [of _ k]) (simp del: addback_from.simps)
qed

section \<open>The quotient-digit estimate\<close>

text \<open>
  \<open>qhat_loop\<close> ends with the largest estimate that fits: \<open>min (U div V2) (2\<^sup>3\<^sup>2 - 1)\<close> for the
  three leading limbs \<open>U\<close> of the window and the two leading limbs \<open>V2\<close> of the divisor.
\<close>

lemma qhat_loop_spec:
  assumes "unat qhat * unat v1 + unat rhat = N" and "unat rhat < 4294967296"
    and "unat v1 < 4294967296" and "unat v2 < 4294967296" and "unat u2 < 4294967296"
    and "N < unat v1 * 4294967296 + 4294967296" and "0 < unat v1"
    and "min ((N * 4294967296 + unat u2) div (unat v1 * 4294967296 + unat v2)) 4294967295 \<le> unat qhat"
  shows "unat (qhat_loop v1 v2 u2 qhat rhat)
    = min ((N * 4294967296 + unat u2) div (unat v1 * 4294967296 + unat v2)) 4294967295"
  using assms
proof (induction v1 v2 u2 qhat rhat rule: qhat_loop.induct)
  case (1 v1 v2 u2 qhat rhat)
  define X where "X = (N * 4294967296 + unat u2) div (unat v1 * 4294967296 + unat v2)"
  define V where "V = unat v1 * 4294967296 + unat v2"
  have V: "0 < V" using "1.prems" by (simp add: V_def)
  have XV: "x \<le> X \<longleftrightarrow> x * V \<le> N * 4294967296 + unat u2" for x
    using V by (simp add: X_def V_def less_eq_div_iff_mult_less_eq)
  have join: "unat (or (push_bit 32 rhat) u2) = unat rhat * 4294967296 + unat u2"
  proof -
    have "rhat = ucast (ucast rhat :: u32)" "u2 = ucast (ucast u2 :: u32)"
      using "1.prems" by (simp_all add: word_unat_eq_iff unat_ucast_u64_u32)
    then have "unat (or (push_bit 32 rhat) u2) = unat (ucast rhat :: u32) * 4294967296 + unat (ucast u2 :: u32)"
      by (metis unat_join32)
    then show ?thesis using "1.prems" by (simp add: unat_ucast_u64_u32)
  qed
  have prod: "unat (qhat * v2) = unat qhat * unat v2" if "unat qhat < 4294967296"
  proof -
    have "unat qhat * unat v2 \<le> 4294967295 * 4294967295" using that "1.prems"(4) by (intro mult_le_mono) auto
    then show ?thesis by (intro unat_mult_u64) simp
  qed
  define G where "G \<longleftrightarrow> qhat \<ge> 0x100000000 \<or> qhat * v2 > or (push_bit 32 rhat) u2"
  have test: "unat qhat * unat v2 > unat rhat * 4294967296 + unat u2 \<longleftrightarrow> \<not> unat qhat \<le> X"
  proof -
    have "unat qhat * V = (unat qhat * unat v1) * 4294967296 + unat qhat * unat v2"
      by (simp add: V_def algebra_simps)
    moreover have "N * 4294967296 = (unat qhat * unat v1) * 4294967296 + unat rhat * 4294967296"
      using "1.prems"(1) by (simp add: algebra_simps)
    ultimately show ?thesis unfolding XV by linarith
  qed
  have G: "G \<longleftrightarrow> 4294967296 \<le> unat qhat \<or> \<not> unat qhat \<le> X"
  proof (cases "unat qhat < 4294967296")
    case True
    then show ?thesis using prod join test by (simp add: G_def word_le_nat_alt word_less_nat_alt)
  next
    case False
    then show ?thesis by (simp add: G_def word_le_nat_alt)
  qed
  show ?case
  proof (cases G)
    case False
    then have "qhat_loop v1 v2 u2 qhat rhat = qhat" by (simp add: qhat_loop.simps [of v1 v2 u2 qhat] G_def)
    moreover have "unat qhat = min X 4294967295" using False G "1.prems"(8) by (auto simp: X_def)
    ultimately show ?thesis by (simp add: X_def)
  next
    case True
    then have nz: "0 < unat qhat" using G XV [of 0] by (metis gr0I le0 not_numeral_le_zero)
    have q1: "unat (qhat - 1) = unat qhat - 1"
      using nz by (metis unat_minus_one unat_0 less_irrefl)
    have ge: "min X 4294967295 \<le> unat qhat - 1" using True G "1.prems"(8) by (auto simp: X_def min_def)
    have rs: "unat (rhat + v1) = unat rhat + unat v1" using "1.prems" by (intro unat_add_u64) simp
    have eq: "unat (qhat - 1) * unat v1 + unat (rhat + v1) = N"
      using "1.prems"(1) nz by (simp only: q1 rs) (simp add: diff_mult_distrib mult_eq_if)
    show ?thesis
    proof (cases "rhat + v1 \<ge> 0x100000000")
      case brk: True
      then have l: "qhat_loop v1 v2 u2 qhat rhat = qhat - 1"
        using True by (simp add: qhat_loop.simps [of v1 v2 u2 qhat] G_def)
      have r: "4294967296 \<le> unat (rhat + v1)" using brk by (simp add: word_le_nat_alt)
      have small: "unat (qhat - 1) < 4294967296"
      proof (rule ccontr)
        assume "\<not> ?thesis"
        then have "4294967296 * unat v1 \<le> unat (qhat - 1) * unat v1" by (intro mult_le_mono1) simp
        then show False using eq r "1.prems"(6) by linarith
      qed
      have "unat (qhat - 1) * unat v2 \<le> 4294967296 * 4294967296"
        using small "1.prems"(4) by (intro mult_le_mono) auto
      also have "\<dots> \<le> unat (rhat + v1) * 4294967296" using r by simp
      finally have "unat (qhat - 1) * V \<le> N * 4294967296"
        unfolding eq [symmetric] V_def by (simp add: algebra_simps)
      then have "unat (qhat - 1) \<le> X" unfolding XV by linarith
      then show ?thesis using ge small by (simp add: l q1 X_def [symmetric])
    next
      case go: False
      then have lt: "unat (rhat + v1) < 4294967296" by (simp add: word_le_nat_alt)
      have l: "qhat_loop v1 v2 u2 qhat rhat = qhat_loop v1 v2 u2 (qhat - 1) (rhat + v1)"
        using True go by (simp add: qhat_loop.simps [of v1 v2 u2 qhat] G_def)
      have "unat (qhat_loop v1 v2 u2 (qhat - 1) (rhat + v1)) = min X 4294967295"
        unfolding X_def using True go eq lt "1.prems" ge q1
        by (intro "1.IH") (auto simp: G_def X_def)
      then show ?thesis by (simp add: l X_def)
    qed
  qed
qed


section \<open>One step of the long division\<close>

abbreviation (input) limb_base :: nat where
  "limb_base \<equiv> 4294967296"

lemma mag_val_top2:
  assumes "length xs = n" and "2 \<le> n"
  shows "mag_val xs = mag_val (take (n - 2) xs) + limb_base ^ (n - 2) * (unat (xs ! (n - 2)) + limb_base * unat (xs ! (n - 1)))"
proof -
  have "drop (n - 2) xs = [xs ! (n - 2), xs ! (n - 1)]"
  proof -
    have "drop (n - 2) xs = xs ! (n - 2) # drop (Suc (n - 2)) xs" using assms by (intro Cons_nth_drop_Suc [symmetric]) auto
    moreover have "drop (Suc (n - 2)) xs = xs ! (n - 1) # drop n xs"
      using assms Cons_nth_drop_Suc [of "n - 1" xs] by (auto simp: Suc_diff_Suc numeral_2_eq_2)
    ultimately show ?thesis using assms by simp
  qed
  moreover have "mag_val xs = mag_val (take (n - 2) xs @ drop (n - 2) xs)" by simp
  ultimately show ?thesis unfolding mag_val_append using assms by simp
qed

lemma mag_val_top3:
  assumes "length w = n + 1" and "2 \<le> n"
  shows "mag_val w = mag_val (take (n - 2) w)
    + limb_base ^ (n - 2) * (unat (w ! (n - 2)) + limb_base * (unat (w ! (n - 1)) + limb_base * unat (w ! n)))"
proof -
  have w: "w = take n w @ [w ! n]" using assms by (metis Suc_eq_plus1 lessI take_Suc_conv_app_nth take_all_iff order_refl)
  have "mag_val w = mag_val (take n w) + limb_base ^ n * unat (w ! n)"
    by (subst w) (simp add: mag_val_append assms)
  moreover have "mag_val (take n w) = mag_val (take (n - 2) w)
      + limb_base ^ (n - 2) * (unat (w ! (n - 2)) + limb_base * unat (w ! (n - 1)))"
    using mag_val_top2 [of "take n w" n] assms by (simp add: min_def)
  moreover have "limb_base ^ n = limb_base ^ (n - 2) * (limb_base * limb_base)"
    using assms by (metis le_add_diff_inverse2 power2_eq_square power_add)
  ultimately show ?thesis by (simp add: algebra_simps)
qed

text \<open>
  The classical bound: the estimate from three leading limbs over two is the true digit or one
  more, when the top limb of the divisor is at least half the base.
\<close>

lemma estimate_bounds:
  fixes V V2 U W Wl Vl P :: nat
  assumes V: "V = V2 * P + Vl" and Vl: "Vl < P" and W: "W = U * P + Wl" and Wl: "Wl < P"
    and WV: "W < limb_base * V" and V2: "limb_base \<le> V2"
  defines "x \<equiv> min (U div V2) 4294967295"
  shows "W div V \<le> x \<and> x \<le> W div V + 1"
proof -
  have P: "0 < P" using Vl by simp
  have V0: "0 < V" using V V2 P by simp
  define q where "q = W div V"
  have q1: "q * V \<le> W" by (simp add: q_def)
  have q2: "W < (q + 1) * V" using dividend_less_div_times [OF V0, of W] by (simp add: q_def algebra_simps)
  have "q < limb_base" using WV V0 by (simp add: q_def div_less_iff_less_mult mult.commute)
  moreover have "q \<le> U div V2"
  proof -
    have "q * V2 * P \<le> q * V" by (simp add: V algebra_simps)
    also have "\<dots> \<le> W" by (rule q1)
    also have "\<dots> < (U + 1) * P" using W Wl by simp
    finally have "q * V2 < U + 1" by (metis mult_less_cancel2)
    then show ?thesis using V2 by (simp add: less_eq_div_iff_mult_less_eq)
  qed
  ultimately have "q \<le> x" by (simp add: x_def)
  moreover have "x \<le> q + 1"
  proof (rule ccontr)
    assume "\<not> x \<le> q + 1"
    then have xq: "q + 1 \<le> x - 1" and x2: "2 \<le> x" by auto
    have "x * V2 \<le> U" using V2 unfolding x_def
      by (metis div_times_less_eq_dividend le_trans min.cobounded1 mult_le_mono1)
    then have "x * V2 * P \<le> W" unfolding W by (simp add: trans_le_add1)
    also have "\<dots> < (q + 1) * V" by (rule q2)
    also have "\<dots> \<le> (x - 1) * V" using xq by (rule mult_le_mono1)
    also have "\<dots> \<le> (x - 1) * ((V2 + 1) * P)" using V Vl by (intro mult_le_mono2) simp
    finally have "(x * V2) * P < ((x - 1) * (V2 + 1)) * P" by (simp only: mult.assoc)
    then have "x * V2 < (x - 1) * (V2 + 1)" by (metis mult_less_cancel2)
    moreover obtain y where y: "x = Suc y" using x2 by (cases x) auto
    ultimately have "V2 < y" by simp
    moreover have "x \<le> 4294967295" by (simp add: x_def)
    ultimately show False using V2 y by simp
  qed
  ultimately show ?thesis by (simp add: q_def)
qed

lemma div_step_qhat:
  assumes n: "length vn = n" "2 \<le> n" and top: "2147483648 \<le> unat (vn ! (n - 1))"
    and w: "length w = n + 1" and lt: "mag_val w < limb_base * mag_val vn"
  defines "v1 \<equiv> ucast (vn ! (n - 1)) :: u64"
    and "num \<equiv> or (push_bit 32 (ucast (w ! n))) (ucast (w ! (n - 1))) :: u64"
  defines "qhat \<equiv> qhat_loop v1 (ucast (vn ! (n - 2))) (ucast (w ! (n - 2))) (num div v1) (num mod v1)"
  shows "unat qhat < limb_base \<and> mag_val w div mag_val vn \<le> unat qhat \<and> unat qhat \<le> mag_val w div mag_val vn + 1"
proof -
  define P where "P = limb_base ^ (n - 2)"
  define V2 where "V2 = unat (vn ! (n - 1)) * limb_base + unat (vn ! (n - 2))"
  define N where "N = unat (w ! n) * limb_base + unat (w ! (n - 1))"
  define U where "U = N * limb_base + unat (w ! (n - 2))"
  have vtop: "mag_val vn = V2 * P + mag_val (take (n - 2) vn)"
    using mag_val_top2 [OF n] by (simp add: V2_def P_def algebra_simps)
  have wtop: "mag_val w = U * P + mag_val (take (n - 2) w)"
    using mag_val_top3 [OF w n(2)] by (simp add: U_def N_def P_def algebra_simps)
  have vl: "mag_val (take (n - 2) vn) < P" and wl: "mag_val (take (n - 2) w) < P"
  proof -
    have "length (take (n - 2) vn) = n - 2" "length (take (n - 2) w) = n - 2" using n w by auto
    then show "mag_val (take (n - 2) vn) < P" "mag_val (take (n - 2) w) < P"
      using mag_val_less [of "take (n - 2) vn"] mag_val_less [of "take (n - 2) w"] by (simp_all only: P_def)
  qed
  have v1: "unat v1 = unat (vn ! (n - 1))" by (simp add: v1_def)
  have num: "unat num = N" by (simp add: num_def N_def)
  have V2: "limb_base \<le> V2"
    using top by (simp add: V2_def trans_le_add1)
  have "U * P \<le> mag_val w" using wtop by simp
  also have "\<dots> < limb_base * mag_val vn" by (rule lt)
  also have "\<dots> \<le> limb_base * ((V2 + 1) * P)" using vtop vl by (intro mult_le_mono2) simp
  finally have "U * P < (limb_base * (V2 + 1)) * P" by (simp add: algebra_simps)
  then have UV: "U < limb_base * (V2 + 1)" by (metis mult_less_cancel2)
  have N: "N < unat v1 * limb_base + limb_base"
  proof -
    have "N * limb_base < limb_base * (V2 + 1)" using UV by (simp add: U_def)
    then have "N < V2 + 1" by (metis mult.commute mult_less_cancel2)
    then show ?thesis using unat_u32_less [of "vn ! (n - 2)"] by (simp add: V2_def v1)
  qed
  have pos: "0 < unat v1" using top by (simp add: v1)
  have X: "U div V2 \<le> unat num div unat v1"
  proof -
    have "U div V2 * (unat v1 * limb_base) \<le> U div V2 * V2" by (intro mult_le_mono2) (simp add: V2_def v1)
    also have "\<dots> \<le> U" by simp
    also have "\<dots> < (N + 1) * limb_base" using unat_u32_less [of "w ! (n - 2)"] by (simp add: U_def)
    finally have "(U div V2 * unat v1) * limb_base < (N + 1) * limb_base" by (simp only: mult.assoc)
    then have "U div V2 * unat v1 \<le> N" by (metis mult_less_cancel2 Suc_eq_plus1 less_Suc_eq_le)
    then show ?thesis using pos by (simp add: num less_eq_div_iff_mult_less_eq)
  qed
  have "unat qhat = min (U div V2) 4294967295"
  proof -
    have "unat qhat = min ((N * 4294967296 + unat (ucast (w ! (n - 2)) :: u64))
        div (unat v1 * 4294967296 + unat (ucast (vn ! (n - 2)) :: u64))) 4294967295"
      unfolding qhat_def
    proof (rule qhat_loop_spec)
      show "unat (num div v1) * unat v1 + unat (num mod v1) = N"
        by (simp add: unat_div unat_mod num)
      show "unat (num mod v1) < 4294967296"
        using pos unat_u32_less [of "vn ! (n - 1)"] by (simp add: unat_mod v1 less_trans [OF mod_less_divisor])
      show "unat v1 < 4294967296" using unat_u32_less by (simp add: v1)
      show "unat (ucast (vn ! (n - 2)) :: u64) < 4294967296" using unat_u32_less by simp
      show "unat (ucast (w ! (n - 2)) :: u64) < 4294967296" using unat_u32_less by simp
      show "N < unat v1 * 4294967296 + 4294967296" by (rule N)
      show "0 < unat v1" by (rule pos)
      show "min ((N * 4294967296 + unat (ucast (w ! (n - 2)) :: u64))
        div (unat v1 * 4294967296 + unat (ucast (vn ! (n - 2)) :: u64))) 4294967295 \<le> unat (num div v1)"
        using X by (simp add: U_def V2_def v1 unat_div num)
    qed
    then show ?thesis by (simp add: U_def V2_def v1)
  qed
  then show ?thesis using estimate_bounds [OF vtop vl wtop wl lt V2] by simp
qed

lemma div_step_spec:
  assumes n: "length vn = n" "2 \<le> n" and top: "2147483648 \<le> unat (vn ! (n - 1))"
    and w: "length w = n + 1" and lt: "mag_val w < limb_base * mag_val vn"
    and step: "div_step vn w = (d, w')"
  shows "unat d = mag_val w div mag_val vn \<and> mag_val w' = mag_val w mod mag_val vn \<and> length w' = n + 1"
proof -
  define v1 num qhat where "v1 = (ucast (vn ! (n - 1)) :: u64)"
    and "num = (or (push_bit 32 (ucast (w ! n))) (ucast (w ! (n - 1))) :: u64)"
    and "qhat = qhat_loop v1 (ucast (vn ! (n - 2))) (ucast (w ! (n - 2))) (num div v1) (num mod v1)"
  define V W q where "V = mag_val vn" and "W = mag_val w" and "q = W div V"
  have qh: "unat qhat < limb_base" "q \<le> unat qhat" "unat qhat \<le> q + 1"
    using div_step_qhat [OF n top w lt] by (auto simp: qhat_def num_def v1_def q_def V_def W_def)
  obtain ws neg where ms: "mulsub_from qhat 0 0 vn w = (ws, neg)" by fastforce
  define B where "B = int (limb_base ^ (n + 1))"
  have wlen: "length w = Suc (length vn)" using w n by simp
  have msv: "int (mag_val ws) = int W - int (unat qhat) * int V + (if neg then B else 0)"
    and lws: "length ws = n + 1"
    using mulsub_from_val [OF qh(1) _ _ wlen ms] w by (auto simp: V_def W_def B_def)
  have wB: "int (mag_val ws) < B" and WB: "int W < B"
    using mag_val_less [of ws] mag_val_less [of w] lws w by (auto simp: B_def W_def simp flip: of_nat_power)
  have V0: "0 < V" using lt by (auto simp: V_def intro: gr0I)
  have Wq: "q * V \<le> W" "W < (q + 1) * V"
    using dividend_less_div_times [OF V0, of W] by (simp_all add: q_def algebra_simps)
  have mod: "W mod V = W - q * V" by (simp add: q_def minus_mult_div_eq_mod mult.commute)
  have VB: "int V < B"
  proof -
    have "V < limb_base ^ n" using mag_val_less [of vn] n by (simp add: V_def)
    also have "\<dots> \<le> limb_base ^ (n + 1)" by (intro power_increasing) auto
    finally show ?thesis unfolding B_def by (simp only: of_nat_less_iff)
  qed
  have dw: "(d, w') = (if neg then (ucast qhat - 1, addback_from 0 vn ws) else (ucast qhat, ws))"
  proof -
    have "div_step vn w = (case mulsub_from qhat 0 0 vn w of (w', neg) \<Rightarrow>
        if neg then (ucast qhat - 1, addback_from 0 vn w') else (ucast qhat, w'))"
      unfolding div_step_def Let_def n(1) qhat_def num_def v1_def by (rule refl)
    also have "\<dots> = (if neg then (ucast qhat - 1, addback_from 0 vn ws) else (ucast qhat, ws))"
      unfolding ms by (simp only: prod.case)
    finally show ?thesis unfolding step .
  qed
  have qu: "unat (ucast qhat :: u32) = unat qhat" using qh(1) by (simp add: unat_ucast_u64_u32)
  show ?thesis
  proof (cases "unat qhat = q")
    case True
    have "int q * int V \<le> int W" using Wq(1) by (metis of_nat_le_iff of_nat_mult)
    then have "\<not> neg" using msv wB True by auto
    then have "int (mag_val ws) = int (W mod V)"
      using msv True Wq(1) by (simp add: mod of_nat_diff)
    then show ?thesis using dw \<open>\<not> neg\<close> True qu lws by (simp add: q_def V_def W_def)
  next
    case False
    then have q1: "unat qhat = q + 1" using qh by simp
    have lt': "int W < int (unat qhat) * int V" using Wq(2) q1 by (metis of_nat_less_iff of_nat_mult)
    then have neg using msv by (cases neg) auto
    then have wsv: "int (mag_val ws) + int V = int (W mod V) + B"
      using msv q1 Wq(1) by (simp add: mod of_nat_diff algebra_simps)
    have lw: "length ws = Suc (length vn)" using lws n by simp
    obtain k where k: "mag_val (addback_from 0 vn ws) + k * limb_base ^ (n + 1) = mag_val ws + V"
      and la: "length (addback_from 0 vn ws) = n + 1"
      using addback_from_val [OF _ lw, of 0] lws by (auto simp: V_def)
    have e1: "int (mag_val (addback_from 0 vn ws)) + int k * B = int (W mod V) + B"
    proof -
      have "int (mag_val (addback_from 0 vn ws) + k * limb_base ^ (n + 1)) = int (mag_val ws) + int V"
        unfolding k by simp
      then show ?thesis unfolding wsv B_def by (simp only: of_nat_add of_nat_mult)
    qed
    have "int (mag_val (addback_from 0 vn ws)) < B"
      using mag_val_less [of "addback_from 0 vn ws"] la unfolding B_def by (simp only: of_nat_less_iff)
    moreover have "int (W mod V) < B" using V0 VB by (metis less_trans mod_less_divisor of_nat_less_iff)
    ultimately have "int (mag_val (addback_from 0 vn ws)) = int (W mod V)"
    proof -
      assume a: "int (mag_val (addback_from 0 vn ws)) < B" and m: "int (W mod V) < B"
      have "int (mag_val (addback_from 0 vn ws)) mod B = int (W mod V) mod B"
        using arg_cong [OF e1, of "\<lambda>z. z mod B"] by simp
      then show ?thesis using a m by (simp add: mod_pos_pos_trivial)
    qed
    moreover have "unat (ucast qhat - 1 :: u32) = q"
    proof -
      have "(ucast qhat :: u32) \<noteq> 0" using qu q1 by (metis unat_0 add_is_0 zero_neq_one)
      then have "unat (ucast qhat - 1 :: u32) = unat (ucast qhat :: u32) - 1" by (rule unat_minus_one)
      then show ?thesis using qu q1 by simp
    qed
    ultimately show ?thesis using dw \<open>neg\<close> la by (simp add: q_def V_def W_def)
  qed
qed

section \<open>The main loop\<close>

lemma high_part_zero: "x + b * y < b \<Longrightarrow> y = (0 :: nat)"
  by (cases y) simp_all

lemma divmod_loop_spec:
  assumes n: "length vn = n" "2 \<le> n" and top: "2147483648 \<le> unat (vn ! (n - 1))"
  shows "n + k \<le> length un \<Longrightarrow> mag_val (drop k un) < mag_val vn \<Longrightarrow>
    divmod_loop vn k un q = (q', un') \<Longrightarrow>
    \<exists>ds. q' = ds @ q \<and> length ds = k \<and> length un' = length un \<and>
      mag_val ds * mag_val vn + mag_val un' = mag_val un \<and> mag_val un' < mag_val vn"
proof (induction k arbitrary: un q)
  case 0
  then show ?case by simp
next
  case (Suc k)
  define w where "w = take (n + 1) (drop k un)"
  define rest where "rest = drop (k + n + 1) un"
  obtain d w' where st: "div_step vn w = (d, w')" by fastforce
  have split: "un = take k un @ w @ rest"
    by (simp add: w_def rest_def) (metis append_take_drop_id drop_drop add.commute add_Suc_right)
  have lw: "length w = n + 1" and lk: "length (take k un) = k" using Suc.prems(1) by (simp_all add: w_def)
  have "mag_val vn < 4294967296 ^ n" using mag_val_less [of vn] n by simp
  then have lt0: "mag_val (drop (Suc k) un) < 4294967296 ^ n" using Suc.prems(2) by (rule less_trans [rotated])
  have dk: "drop (Suc k) un = tl w @ rest"
  proof -
    have "drop (Suc k) (take k un) = []" using lk by simp
    then show ?thesis using lw lk by (subst split) (simp del: drop_take add: drop_append, simp add: drop_Suc)
  qed
  have lt1: "length (tl w) = n" using lw by simp
  have r0: "mag_val rest = 0"
    using lt0 unfolding dk mag_val_append lt1 by (rule high_part_zero)
  have tw: "mag_val (tl w) < mag_val vn" using Suc.prems(2) r0 unfolding dk mag_val_append by simp
  have "w = hd w # tl w" using lw by (cases w) auto
  then have "mag_val w = unat (hd w) + 4294967296 * mag_val (tl w)" by (metis mag_val.simps(2))
  moreover have "4294967296 * (mag_val (tl w) + 1) \<le> 4294967296 * mag_val vn" using tw by simp
  ultimately have wV: "mag_val w < 4294967296 * mag_val vn" using unat_u32_less [of "hd w"] by simp
  from div_step_spec [OF n top lw wV st]
  have d: "unat d = mag_val w div mag_val vn" and w': "mag_val w' = mag_val w mod mag_val vn"
    and lw': "length w' = n + 1" by auto
  define un1 where "un1 = take k un @ w' @ rest"
  have next1: "divmod_loop vn k un1 (d # q) = (q', un')"
    using Suc.prems(3) st by (simp add: n un1_def rest_def w_def Let_def)
  have len1: "length un1 = length un" using lw lw' lk by (subst split) (simp add: un1_def)
  have "drop k un1 = w' @ rest" using lk by (simp add: un1_def)
  then have "mag_val (drop k un1) < mag_val vn" using r0 w' tw by (simp add: mag_val_append)
  then obtain ds where ds: "q' = ds @ d # q" "length ds = k" "length un' = length un"
      "mag_val ds * mag_val vn + mag_val un' = mag_val un1" "mag_val un' < mag_val vn"
    using Suc.IH [OF _ _ next1] Suc.prems(1) len1 by auto
  have "mag_val un = mag_val (take k un) + 4294967296 ^ k * mag_val w"
    using r0 lk by (subst split) (simp add: mag_val_append)
  also have "mag_val w = unat d * mag_val vn + mag_val w'" by (simp add: d w')
  finally have "mag_val un = mag_val un1 + 4294967296 ^ k * unat d * mag_val vn"
    using r0 lk by (simp add: un1_def mag_val_append algebra_simps)
  moreover have "mag_val (ds @ [d]) = mag_val ds + 4294967296 ^ k * unat d"
    using ds(2) by (simp add: mag_val_append)
  ultimately have "mag_val (ds @ [d]) * mag_val vn + mag_val un' = mag_val un"
    using ds(4) by (simp add: algebra_simps)
  then show ?case using ds by (intro exI [of _ "ds @ [d]"]) simp
qed

lemma clz32_spec:
  "x \<noteq> 0 \<Longrightarrow> clz32 x < 32 \<and> 2147483648 \<le> unat x * 2 ^ clz32 x \<and> unat x * 2 ^ clz32 x < 4294967296"
  using clz_loop_spec [of x] by (simp add: clz32_def)

lemma last_shl_limbs:
  "xs \<noteq> [] \<Longrightarrow> last (shl_limbs s p xs) = shl_limb s (last xs) (last (p # butlast xs))"
  by (induction s p xs rule: shl_limbs.induct) (auto simp: neq_Nil_conv)

lemma mag_divmod_spec:
  assumes u: "length v \<le> length u" "u \<noteq> []" and v: "mag_wf v" "2 \<le> length v" and r: "mag_divmod u v = (q, r)"
  shows "mag_val u = mag_val q * mag_val v + mag_val r \<and> mag_val r < mag_val v"
proof -
  define n m s where "n = length v" and "m = length u" and "s = clz32 (last v)"
  define vn where "vn = shl_limbs s 0 v"
  define over :: u32 where "over = (if s \<noteq> 0 then drop_bit (32 - s) (last u) else 0)"
  define un where "un = shl_limbs s 0 u @ [over]"
  obtain un' where loop: "divmod_loop vn (m - n + 1) un [] = (q, un')" and r': "r = shr_limbs s (take (n + 1) un')"
  proof (cases "divmod_loop vn (m - n + 1) un []")
    case (Pair q' un')
    then have "mag_divmod u v = (q', shr_limbs s (take (n + 1) un'))"
      unfolding mag_divmod_def Let_def un_def over_def vn_def s_def n_def m_def by (simp only: prod.case)
    then show ?thesis using that r Pair by simp
  qed
  have vne: "v \<noteq> []" "last v \<noteq> 0" using v by (auto simp: mag_wf_def)
  have s: "s < 32" "2147483648 \<le> unat (last v) * 2 ^ s" "unat (last v) * 2 ^ s < 4294967296"
    using clz32_spec [OF vne(2)] by (auto simp: s_def)
  have B: "(4294967296 :: nat) = 2 ^ s * 2 ^ (32 - s)" using s(1) by (intro pow2_split) simp
  have "unat (last v) < 2 ^ (32 - s)" using s(3) by (simp add: B mult.commute)
  then have vnv: "mag_val vn = 2 ^ s * mag_val v"
    using shl_limbs_val [OF s(1), of 0 v] vne by (simp add: vn_def)
  have over: "unat over = unat (last u) div 2 ^ (32 - s)"
  proof (cases "s = 0")
    case False
    then show ?thesis by (simp add: over_def unat_drop_bit_eq) (simp add: drop_bit_eq_div)
  qed (use unat_u32_less [of "last u"] in \<open>simp add: over_def\<close>)
  have unv: "mag_val un = 2 ^ s * mag_val u"
    using shl_limbs_val [OF s(1), of 0 u] u by (simp add: un_def mag_val_append over)
  have vl: "length vn = n" "2 \<le> n" using v by (simp_all add: vn_def n_def)
  have vtop: "2147483648 \<le> unat (vn ! (n - 1))"
  proof -
    have "vn ! (n - 1) = last vn" using vne vl by (metis last_conv_nth list.size(3) not_numeral_le_zero)
    moreover have "unat (last vn) \<ge> unat (last v) * 2 ^ s"
      using s(3) vne by (simp add: vn_def last_shl_limbs shl_limb_val [OF s(1)])
    ultimately show ?thesis using s(2) by simp
  qed
  have lenun: "length un = n + (m - n + 1)" using u by (simp add: un_def n_def m_def)
  have lead: "mag_val (drop (m - n + 1) un) < mag_val vn"
  proof -
    define hi where "hi = drop (m - n + 1) (shl_limbs s 0 u)"
    have lh: "length hi = n - 1" using u vl(2) by (simp add: hi_def n_def m_def)
    have "drop (m - n + 1) un = hi @ [over]" using u vl(2) by (simp add: un_def hi_def n_def m_def)
    then have "mag_val (drop (m - n + 1) un) = mag_val hi + 4294967296 ^ (n - 1) * unat over"
      by (simp add: mag_val_append lh)
    also have "\<dots> < 4294967296 ^ (n - 1) * (unat over + 1)"
      using mag_val_less [of hi] lh by simp
    also have "\<dots> \<le> 4294967296 ^ (n - 1) * unat (vn ! (n - 1))"
    proof -
      have "unat over < 2 ^ s"
        unfolding over using unat_u32_less [of "last u"] by (simp add: less_mult_imp_div_less B)
      also have "(2 :: nat) ^ s \<le> 2 ^ 31" using s(1) by (intro power_increasing) auto
      finally have "unat over + 1 \<le> unat (vn ! (n - 1))" using vtop by simp
      then show ?thesis by (rule mult_le_mono2)
    qed
    also have "\<dots> \<le> mag_val vn"
    proof -
      have "vn = take (n - 1) vn @ [vn ! (n - 1)]"
        using vl take_Suc_conv_app_nth [of "n - 1" vn] by simp
      then have "mag_val vn = mag_val (take (n - 1) vn) + 4294967296 ^ (n - 1) * unat (vn ! (n - 1))"
        using mag_val_append [of "take (n - 1) vn" "[vn ! (n - 1)]"] vl by simp
      then show ?thesis by simp
    qed
    finally show ?thesis .
  qed
  obtain ds where q: "q = ds" and le: "length un' = length un"
    and eq: "mag_val q * mag_val vn + mag_val un' = mag_val un" and lt: "mag_val un' < mag_val vn"
    using divmod_loop_spec [OF vl vtop _ lead loop] lenun by auto
  have tk: "mag_val un' = mag_val (take n un')" and nthn: "mag_val (drop n un') = 0"
  proof -
    have "length (take n un') = n" using le lenun by simp
    then have e: "mag_val un' = mag_val (take n un') + 4294967296 ^ n * mag_val (drop n un')"
      using mag_val_append [of "take n un'" "drop n un'"] by simp
    have "mag_val un' < 4294967296 ^ n" using lt mag_val_less [of vn] vl by simp
    then show "mag_val (drop n un') = 0"
      unfolding e by (rule high_part_zero)
    then show "mag_val un' = mag_val (take n un')" using e by simp
  qed
  have rv: "mag_val r = mag_val un' div 2 ^ s"
  proof -
    have tn: "take (n + 1) un' = take n un' @ [un' ! n]" using le lenun by (simp add: take_Suc_conv_app_nth)
    have "drop n un' = un' ! n # drop (Suc n) un'" using le lenun by (simp add: Cons_nth_drop_Suc)
    then have z: "un' ! n = 0" using nthn by (simp add: unat_eq_0)
    have "mag_val r = mag_val (take (n + 1) un') div 2 ^ s"
      unfolding r' tn by (rule shr_limbs_val [OF s(1)]) (simp_all add: z)
    then show ?thesis unfolding tn tk by (simp add: z mag_val_append)
  qed
  have dvd: "2 ^ s dvd mag_val un'"
  proof -
    have "2 ^ s dvd mag_val q * mag_val vn + mag_val un'" unfolding eq unv by simp
    moreover have "2 ^ s dvd mag_val q * mag_val vn" unfolding vnv by simp
    ultimately show ?thesis by (simp add: dvd_add_right_iff)
  qed
  then have un'v: "mag_val un' = 2 ^ s * mag_val r" by (simp add: rv)
  have "2 ^ s * mag_val u = 2 ^ s * (mag_val q * mag_val v + mag_val r)"
    using eq unfolding unv vnv un'v by (simp add: algebra_simps)
  moreover have "2 ^ s * mag_val r < 2 ^ s * mag_val v" using lt unfolding vnv un'v .
  ultimately show ?thesis by simp
qed


section \<open>The signed division\<close>

lemma big_divmod_parts:
  assumes "big_wf a" and "big_wf b" and "b_limb b \<noteq> []"
  shows "\<exists>q r. big_divmod a b = Some (big_trim \<lparr>b_neg = (b_neg a \<noteq> b_neg b), b_limb = q\<rparr>,
      big_trim \<lparr>b_neg = b_neg a, b_limb = r\<rparr>) \<and>
    mag_val (b_limb a) = mag_val q * mag_val (b_limb b) + mag_val r \<and> mag_val r < mag_val (b_limb b)"
proof -
  let ?u = "b_limb a" and ?v = "b_limb b"
  have wu: "mag_wf ?u" and wv: "mag_wf ?v" using assms by (auto intro: big_wf_mag)
  have sg: "mag_cmp ?u ?v = sgn (int (mag_val ?u) - int (mag_val ?v))" using wu wv by (rule mag_cmp_spec)
  consider (less) "mag_cmp ?u ?v < 0" | (small) "\<not> mag_cmp ?u ?v < 0" "length ?v = 1"
    | (long) "\<not> mag_cmp ?u ?v < 0" "length ?v \<noteq> 1" by blast
  then show ?thesis
  proof cases
    case less
    then have "mag_val ?u < mag_val ?v" unfolding sg by (simp add: sgn_if split: if_splits)
    then show ?thesis using less assms(3)
      by (intro exI [of _ "[]"] exI [of _ "?u"]) (simp add: big_divmod_def)
  next
    case small
    then obtain d where d: "?v = [d]" by (cases ?v) auto
    then have d0: "d \<noteq> 0" using wv by (simp add: mag_wf_def)
    obtain q rem where ds: "mag_div_small ?u d = (q, rem)" by fastforce
    have sp: "mag_val ?u = mag_val q * unat d + unat rem" "unat rem < unat d"
      using mag_div_small_spec [OF d0 ds] by auto
    then have "unat (ucast rem :: u32) = unat rem"
      using unat_u32_less [of d] by (simp add: unat_ucast_u64_u32)
    then show ?thesis using small sp d ds
      by (intro exI [of _ q] exI [of _ "[ucast rem]"]) (simp add: big_divmod_def)
  next
    case long
    have ge: "mag_val ?v \<le> mag_val ?u" using long(1) unfolding sg by (simp add: sgn_if split: if_splits)
    have len: "length ?v \<le> length ?u"
      using ge mag_val_length_less [OF wv, of ?u] by (meson linorder_not_less)
    obtain q r where qr: "mag_divmod ?u ?v = (q, r)" by fastforce
    have "2 \<le> length ?v" using long(2) assms(3) by (cases ?v rule: list.exhaust) (auto simp: Suc_le_eq)
    moreover have "?u \<noteq> []" using len assms(3) by auto
    ultimately show ?thesis using mag_divmod_spec [OF len _ wv _ qr] long assms(3) qr
      by (intro exI [of _ q] exI [of _ r]) (simp add: big_divmod_def)
  qed
qed

lemma big_divmod_spec:
  assumes "big_wf a" and "big_wf b" and "big_divmod a b = Some (q, r)"
  shows "big_wf q \<and> big_wf r \<and> big_val a = big_val q * big_val b + big_val r \<and>
    \<bar>big_val r\<bar> < \<bar>big_val b\<bar> \<and> (big_val r = 0 \<or> sgn (big_val r) = sgn (big_val a))"
proof -
  have b: "b_limb b \<noteq> []" using assms(3) by (auto simp: big_divmod_def)
  obtain q' r' where
    e: "big_divmod a b = Some (big_trim \<lparr>b_neg = (b_neg a \<noteq> b_neg b), b_limb = q'\<rparr>,
        big_trim \<lparr>b_neg = b_neg a, b_limb = r'\<rparr>)"
    and v: "mag_val (b_limb a) = mag_val q' * mag_val (b_limb b) + mag_val r'"
    and lt: "mag_val r' < mag_val (b_limb b)"
    using big_divmod_parts [OF assms(1,2) b] by auto
  have q: "q = big_trim \<lparr>b_neg = (b_neg a \<noteq> b_neg b), b_limb = q'\<rparr>"
    and r: "r = big_trim \<lparr>b_neg = b_neg a, b_limb = r'\<rparr>" using assms(3) e by auto
  have iv: "int (mag_val (b_limb a)) = int (mag_val q') * int (mag_val (b_limb b)) + int (mag_val r')"
    using v by (metis of_nat_add of_nat_mult)
  have qv: "big_val q = (if b_neg a \<noteq> b_neg b then - int (mag_val q') else int (mag_val q'))"
    and rv: "big_val r = (if b_neg a then - int (mag_val r') else int (mag_val r'))"
    by (simp_all add: q r big_val_def [of "\<lparr>b_neg = _, b_limb = _\<rparr>"])
  have "big_val a = big_val q * big_val b + big_val r"
    using iv unfolding qv rv big_val_def [of a] big_val_def [of b] by auto
  moreover have "\<bar>big_val r\<bar> < \<bar>big_val b\<bar>" using lt by (simp add: rv abs_big_val)
  moreover have "big_val r = 0 \<or> sgn (big_val r) = sgn (big_val a)"
  proof (cases "mag_val r' = 0")
    case False
    then have "0 < mag_val (b_limb a)" using v by simp
    then show ?thesis using False unfolding rv big_val_def [of a] by simp
  qed (simp add: rv)
  ultimately show ?thesis by (simp add: q r)
qed

text \<open>The result is C's truncating quotient and remainder, the pair \<open>OVER\<close> and \<open>MOD\<close> need.\<close>

lemma big_divmod_total: "big_divmod a b = None \<longleftrightarrow> b_limb b = []"
  by (simp add: big_divmod_def split: prod.splits)

lemma trunc_div_unique:
  fixes a b q r :: int
  assumes "a = q * b + r" and "\<bar>r\<bar> < \<bar>b\<bar>" and "r = 0 \<or> sgn r = sgn a"
  shows "\<bar>q\<bar> = \<bar>a\<bar> div \<bar>b\<bar> \<and> \<bar>r\<bar> = \<bar>a\<bar> mod \<bar>b\<bar>"
proof -
  have e: "\<bar>a\<bar> = \<bar>q\<bar> * \<bar>b\<bar> + \<bar>r\<bar>"
  proof (cases "r = 0")
    case False
    have qb: "\<bar>q * b\<bar> = \<bar>q\<bar> * \<bar>b\<bar>" by (rule abs_mult)
    have "sgn a = sgn r" using assms(3) False by simp
    moreover have "0 \<le> q * b * sgn r"
    proof (cases "q = 0")
      case q: False
      have "\<bar>b\<bar> \<le> \<bar>q * b\<bar>" unfolding qb using q by (intro mult_le_cancel_right1 [THEN iffD2]) auto
      then have "\<bar>r\<bar> < \<bar>q * b\<bar>" using assms(2) by simp
      then show ?thesis using \<open>sgn a = sgn r\<close> assms(1) False by (auto simp: sgn_if split: if_splits)
    qed simp
    ultimately have "\<bar>a\<bar> = \<bar>q * b\<bar> + \<bar>r\<bar>"
      using assms(1) False by (auto simp: sgn_if split: if_splits)
    then show ?thesis unfolding qb .
  qed (use assms(1) in \<open>simp add: abs_mult\<close>)
  have b0: "0 < \<bar>b\<bar>" using assms(2) by simp
  have "\<bar>a\<bar> div \<bar>b\<bar> = \<bar>q\<bar> + \<bar>r\<bar> div \<bar>b\<bar>" unfolding e using b0 by simp
  moreover have "\<bar>r\<bar> div \<bar>b\<bar> = 0" using assms(2) by (intro div_pos_pos_trivial) auto
  moreover have "\<bar>a\<bar> mod \<bar>b\<bar> = \<bar>r\<bar> mod \<bar>b\<bar>" unfolding e by simp
  moreover have "\<bar>r\<bar> mod \<bar>b\<bar> = \<bar>r\<bar>" using assms(2) by (intro mod_pos_pos_trivial) auto
  ultimately show ?thesis by simp
qed

section \<open>Properties\<close>

text \<open>
  C4: long division. Dividing by any non-zero value returns the quotient truncated toward zero
  and the remainder with the sign of the dividend, both normalised; dividing by zero returns
  nothing.
\<close>

theorem big_divmod_truncates:
  assumes "big_wf a" and "big_wf b"
  shows "if big_val b = 0 then big_divmod a b = None
    else \<exists>q r. big_divmod a b = Some (q, r) \<and> big_wf q \<and> big_wf r \<and>
      big_val a = big_val q * big_val b + big_val r \<and>
      \<bar>big_val q\<bar> = \<bar>big_val a\<bar> div \<bar>big_val b\<bar> \<and> \<bar>big_val r\<bar> = \<bar>big_val a\<bar> mod \<bar>big_val b\<bar> \<and>
      (big_val r = 0 \<or> sgn (big_val r) = sgn (big_val a))"
proof (cases "big_val b = 0")
  case True
  then show ?thesis using big_val_eq_0 [OF assms(2)] by (simp add: big_divmod_total)
next
  case False
  then obtain q r where e: "big_divmod a b = Some (q, r)"
    using big_val_eq_0 [OF assms(2)] big_divmod_total [of a b] by fastforce
  note s = big_divmod_spec [OF assms e]
  have "\<bar>big_val q\<bar> = \<bar>big_val a\<bar> div \<bar>big_val b\<bar> \<and> \<bar>big_val r\<bar> = \<bar>big_val a\<bar> mod \<bar>big_val b\<bar>"
    using s by (intro trunc_div_unique) auto
  with s e False show ?thesis by auto
qed

theorem big_divmod_truncates_witness:
  "\<exists>q r. big_divmod (big_mul (big_from_i64 (- 0x7FFFFFFFFFFFFFFF)) (big_from_i64 0x7FFFFFFFFFFFFFFF))
      (big_from_i64 0x100000001) = Some (q, r) \<and> big_val r = - (0x7FFFFFFFFFFFFFFF * 0x7FFFFFFFFFFFFFFF mod 0x100000001)"
  using big_divmod_truncates [of "big_mul (big_from_i64 (- 0x7FFFFFFFFFFFFFFF)) (big_from_i64 0x7FFFFFFFFFFFFFFF)"
      "big_from_i64 0x100000001"]
  by (auto simp: big_mul_val big_from_i64_val sgn_if split: if_splits)

end
