(* ===== verification/Digits.thy ===== *)
theory Digits
  imports Prelude
begin

text \<open>
  Decimal digit strings. The C code writes numbers with loops that peel off digits and with
  \<open>snprintf ("%llu")\<close>, and reads them back digit by digit; \<open>nat_dec\<close> is the canonical decimal
  string of a natural number (what \<open>%llu\<close> prints), \<open>pad_dec k\<close> the string of exactly \<open>k\<close> digits
  of a number modulo \<open>10 ^ k\<close>, \<open>digits_val\<close> the number a digit string denotes.
\<close>

definition digit_char :: "nat \<Rightarrow> char" where
  "digit_char d = char_of (48 + d)"

definition is_digit :: "char \<Rightarrow> bool" where
  "is_digit c \<longleftrightarrow> (48 :: nat) \<le> of_char c \<and> of_char c \<le> (57 :: nat)"

definition digit_val :: "char \<Rightarrow> nat" where
  "digit_val c = of_char c - 48"

fun nat_dec :: "nat \<Rightarrow> string" where
  "nat_dec n = (if n < 10 then [digit_char n] else nat_dec (n div 10) @ [digit_char (n mod 10)])"

fun pad_dec :: "nat \<Rightarrow> nat \<Rightarrow> string" where
  "pad_dec 0 n = []"
| "pad_dec (Suc k) n = pad_dec k (n div 10) @ [digit_char (n mod 10)]"

definition digits_val :: "string \<Rightarrow> nat" where
  "digits_val s = foldl (\<lambda>v c. v * 10 + digit_val c) 0 s"

declare nat_dec.simps [simp del]

lemma of_char_digit [simp]: "d < 10 \<Longrightarrow> of_char (digit_char d) = 48 + d"
  by (simp add: digit_char_def)

lemma is_digit_digit [simp]: "d < 10 \<Longrightarrow> is_digit (digit_char d)"
  by (simp add: is_digit_def)

lemma digit_val_digit [simp]: "d < 10 \<Longrightarrow> digit_val (digit_char d) = d"
  by (simp add: digit_val_def)

lemma digit_val_less: "is_digit c \<Longrightarrow> digit_val c < 10"
  unfolding is_digit_def digit_val_def by linarith

lemma digit_char_inj: "a < 10 \<Longrightarrow> b < 10 \<Longrightarrow> digit_char a = digit_char b \<longleftrightarrow> a = b"
  by (metis digit_val_digit)

lemma nat_dec_step: "10 \<le> n \<Longrightarrow> nat_dec n = nat_dec (n div 10) @ [digit_char (n mod 10)]"
  by (simp add: nat_dec.simps [of n])

lemma nat_dec_small: "n < 10 \<Longrightarrow> nat_dec n = [digit_char n]"
  by (simp add: nat_dec.simps [of n])

lemma digit_char_0: "digit_char 0 = CHR ''0''"
proof -
  have "of_char (CHR ''0'') = (48 :: nat)" by simp
  then show ?thesis by (metis add.right_neutral char_of_char digit_char_def)
qed

lemma nat_dec_not_empty [simp]: "nat_dec n \<noteq> []"
  by (simp add: nat_dec.simps [of n])

lemma nat_dec_digits: "c \<in> set (nat_dec n) \<Longrightarrow> is_digit c"
proof (induction n rule: nat_dec.induct)
  case (1 n)
  then show ?case by (cases "n < 10") (auto simp: nat_dec_small nat_dec_step)
qed

lemma hd_nat_dec_digit: "is_digit (hd (nat_dec n))"
  using hd_in_set nat_dec_digits nat_dec_not_empty by blast

lemma digits_val_snoc [simp]: "digits_val (s @ [c]) = digits_val s * 10 + digit_val c"
  by (simp add: digits_val_def)

lemma digits_val_nil [simp]: "digits_val [] = 0"
  by (simp add: digits_val_def)

lemma digits_val_nat_dec [simp]: "digits_val (nat_dec n) = n"
proof (induction n rule: nat_dec.induct)
  case (1 n)
  show ?case
  proof (cases "n < 10")
    case True
    then show ?thesis by (simp add: nat_dec_small digits_val_def)
  next
    case False
    then show ?thesis using 1 by (simp add: nat_dec_step)
  qed
qed

lemma digits_val_append: "digits_val (s @ t) = digits_val s * 10 ^ length t + digits_val t"
  by (induction t rule: rev_induct) (simp_all add: algebra_simps digits_val_snoc flip: append_assoc)

lemma digits_val_less: "\<forall>c \<in> set s. is_digit c \<Longrightarrow> digits_val s < 10 ^ length s"
proof (induction s rule: rev_induct)
  case (snoc c s)
  then have "digits_val s + 1 \<le> 10 ^ length s" and "digit_val c < 10"
    by (simp_all add: digit_val_less Suc_le_eq)
  then have "(digits_val s + 1) * 10 \<le> 10 ^ length s * 10" by (intro mult_le_mono1)
  with \<open>digit_val c < 10\<close> show ?case by (simp only: digits_val_snoc) simp
qed simp

lemma nat_dec_inj: "nat_dec m = nat_dec n \<longleftrightarrow> m = n"
  by (metis digits_val_nat_dec)

lemma length_nat_dec_le: "0 < k \<Longrightarrow> length (nat_dec n) \<le> k \<longleftrightarrow> n < 10 ^ k"
proof (induction n arbitrary: k rule: nat_dec.induct)
  case (1 n)
  show ?case
  proof (cases "n < 10")
    case True
    have "(10 :: nat) ^ 1 \<le> 10 ^ k" using "1.prems" by (intro power_increasing) auto
    then show ?thesis using True "1.prems" by (simp add: nat_dec_small)
  next
    case False
    show ?thesis
    proof (cases "k = 1")
      case True
      then show ?thesis using False by (simp add: nat_dec_step neq_Nil_conv)
    next
      case k: False
      then obtain j where j: "k = Suc j" "0 < j" using "1.prems" by (cases k) auto
      have "length (nat_dec n) \<le> k \<longleftrightarrow> length (nat_dec (n div 10)) \<le> j"
        using False by (simp add: nat_dec_step j)
      also have "\<dots> \<longleftrightarrow> n div 10 < 10 ^ j" using 1 False j by simp
      also have "\<dots> \<longleftrightarrow> n < 10 ^ k" by (simp add: j div_less_iff_less_mult mult.commute)
      finally show ?thesis .
    qed
  qed
qed

lemma length_nat_dec_ge: "10 ^ k \<le> n \<Longrightarrow> k < length (nat_dec n)"
  using length_nat_dec_le [of k n] by (cases "k = 0") auto

lemma length_pad_dec [simp]: "length (pad_dec k n) = k"
  by (induction k n rule: pad_dec.induct) simp_all

lemma pad_dec_digits: "c \<in> set (pad_dec k n) \<Longrightarrow> is_digit c"
  by (induction k n rule: pad_dec.induct) auto

lemma digits_val_pad_dec: "digits_val (pad_dec k n) = n mod 10 ^ k"
proof (induction k n rule: pad_dec.induct)
  case (2 k n)
  have "n div 10 mod 10 ^ k * 10 + n mod 10 = n mod (10 * 10 ^ k)"
    by (simp add: mod_mult2_eq)
  then show ?case using 2 by simp
qed simp

lemma pad_dec_append: "pad_dec (j + k) n = pad_dec j (n div 10 ^ k) @ pad_dec k n"
proof (induction k arbitrary: n)
  case (Suc k)
  then show ?case by (simp add: div_mult2_eq [symmetric])
qed simp

lemma nat_dec_pad: "nat_dec n = pad_dec (length (nat_dec n)) n"
proof (induction n rule: nat_dec.induct)
  case (1 n)
  show ?case
  proof (cases "n < 10")
    case False
    then show ?thesis using 1 by (simp add: nat_dec_step)
  qed (simp add: nat_dec_small)
qed

lemma nat_dec_eq_pad: "10 ^ k \<le> n \<Longrightarrow> n < 10 ^ Suc k \<Longrightarrow> nat_dec n = pad_dec (Suc k) n"
  using length_nat_dec_ge [of k n] length_nat_dec_le [of "Suc k" n] nat_dec_pad [of n]
  by (metis Suc_leI le_antisym zero_less_Suc)

lemma star_not_digit: "is_digit c \<Longrightarrow> c \<noteq> CHR ''*''"
  by (auto simp: is_digit_def)

lemma star_not_in_nat_dec [simp]: "CHR ''*'' \<notin> set (nat_dec n)"
  using nat_dec_digits star_not_digit by blast

lemma star_not_in_pad_dec [simp]: "CHR ''*'' \<notin> set (pad_dec k n)"
  using pad_dec_digits star_not_digit by blast

text \<open>What \<open>%lld\<close> prints.\<close>

definition int_dec :: "int \<Rightarrow> string" where
  "int_dec i = (if i < 0 then ''-'' @ nat_dec (nat (- i)) else nat_dec (nat i))"

end
