(* ===== verification/BigintDec.thy ===== *)
theory BigintDec
  imports BigintDiv Digits
begin

text \<open>
  \<open>csrc/bigint.c\<close>, third part: the conversions to and from decimal strings (\<open>big_from_dec\<close>,
  \<open>big_to_dec\<close>), powers of ten (\<open>big_pow10\<close>) and the digit count (\<open>big_ndigits\<close>). The C code
  fills buffers whose capacity it computes beforehand; the lemmas \<open>*_fits\<close> show that the
  capacity is never exceeded, the others that the strings are the canonical decimal ones and
  that reading back what was written gives the same value.

  The theory closes with the interface \<open>integer_ops\<close>, what a client of \<open>bigint.h\<close> may rely on,
  and its interpretation on the definitions of this component.
\<close>

section \<open>Reading\<close>

fun from_dec_loop :: "string \<Rightarrow> mag \<Rightarrow> mag" where
  "from_dec_loop [] l = l"
| "from_dec_loop (c # cs) l =
     (if \<not> is_digit c then l
      else from_dec_loop cs (mag_mul_add_small l 10 (of_nat (digit_val c))))"

definition big_from_dec :: "string \<Rightarrow> a68_big" where
  "big_from_dec s =
     (let (neg, t) = (case s of [] \<Rightarrow> (False, [])
        | c # cs \<Rightarrow> if c = CHR ''-'' \<or> c = CHR ''+'' then (c = CHR ''-'', cs) else (False, s))
      in big_trim \<lparr>b_neg = neg, b_limb = from_dec_loop t []\<rparr>)"

text \<open>The capacity in limbs that \<open>big_from_dec\<close> allocates for \<open>k\<close> characters after the sign.\<close>

definition from_dec_cap :: "nat \<Rightarrow> nat" where
  "from_dec_cap k = k div 9 + 2"

section \<open>Writing\<close>

text \<open>
  The digits of one chunk, least significant first: at most \<open>k\<close> of them, and no leading zeros
  when the rest of the number is already zero (\<open>final\<close>).
\<close>

fun chunk_digits :: "nat \<Rightarrow> u32 \<Rightarrow> bool \<Rightarrow> string" where
  "chunk_digits 0 chunk final = []"
| "chunk_digits (Suc k) chunk final =
     (let rest = chunk div 10
      in digit_char (unat (chunk mod 10)) # (if final \<and> rest = 0 then [] else chunk_digits k rest final))"

lemma mag_trim_length: "length (mag_trim xs) \<le> length xs"
  using mag_trim_eq [of xs] by (metis le_add1 length_append)

lemma mag_trim_nonzero: "xs \<noteq> [] \<Longrightarrow> mag_val xs = 0 \<Longrightarrow> mag_trim xs = []"
  using mag_val_eq_0 [of "mag_trim xs"] by simp

function to_dec_loop :: "mag \<Rightarrow> string" where
  "to_dec_loop tmp =
     (if tmp = [] then []
      else let (q, chunk) = mag_div_small tmp 1000000000; tmp' = mag_trim q
           in chunk_digits 9 (ucast chunk) (tmp' = []) @ to_dec_loop tmp')"
  by pat_completeness auto
termination
proof (relation "measure (\<lambda>tmp. mag_val tmp + length tmp)", goal_cases)
  case (2 tmp p q chunk tmp')
  then have d: "mag_div_small tmp 1000000000 = (q, chunk)" by simp
  have sp: "mag_val tmp = mag_val q * 1000000000 + unat chunk" "length q = length tmp"
    using mag_div_small_spec [OF _ d] by auto
  show ?case
  proof (cases "mag_val tmp = 0")
    case True
    then have "mag_trim q = []" using sp 2(1) by (intro mag_trim_nonzero) auto
    then show ?thesis using 2 by simp
  next
    case False
    then have "mag_val q < mag_val tmp" using sp(1) by linarith
    then show ?thesis using mag_trim_length [of q] sp(2) 2(4) by simp
  qed
qed simp

declare to_dec_loop.simps [simp del]

definition big_to_dec :: "a68_big \<Rightarrow> string" where
  "big_to_dec a =
     (let buf = to_dec_loop (b_limb a); buf' = (if buf = [] then ''0'' else buf)
      in (if b_neg a then ''-'' else '''') @ rev buf')"

definition to_dec_cap :: "nat \<Rightarrow> nat" where
  "to_dec_cap n = n * 10 + 3"

definition big_ndigits :: "a68_big \<Rightarrow> nat" where
  "big_ndigits a = length (big_to_dec a) - (if b_neg a then 1 else 0)"

section \<open>Powers of ten\<close>

function pow10_nines :: "int \<Rightarrow> mag \<Rightarrow> int \<times> mag" where
  "pow10_nines n l = (if n \<ge> 9 then pow10_nines (n - 9) (mag_mul_add_small l 1000000000 0) else (n, l))"
  by pat_completeness auto
termination by (relation "measure (\<lambda>(n, l). nat n)") auto

function pow10_ones :: "int \<Rightarrow> mag \<Rightarrow> mag" where
  "pow10_ones n l = (if n > 0 then pow10_ones (n - 1) (mag_mul_add_small l 10 0) else l)"
  by pat_completeness auto
termination by (relation "measure (\<lambda>(n, l). nat n)") auto

declare pow10_nines.simps [simp del] pow10_ones.simps [simp del]

definition big_pow10 :: "int \<Rightarrow> a68_big" where
  "big_pow10 n = (let (m, l) = pow10_nines n [1]
     in big_trim \<lparr>b_neg = False, b_limb = pow10_ones m l\<rparr>)"

section \<open>Reading: value and capacity\<close>

lemma from_dec_loop_val:
  "mag_wf l \<Longrightarrow> mag_wf (from_dec_loop s l) \<and>
    mag_val (from_dec_loop s l) = mag_val l * 10 ^ length (takeWhile is_digit s) + digits_val (takeWhile is_digit s)"
proof (induction s l rule: from_dec_loop.induct)
  case (2 c cs l)
  show ?case
  proof (cases "is_digit c")
    case True
    define l' where "l' = mag_mul_add_small l 10 (of_nat (digit_val c))"
    have d: "unat (of_nat (digit_val c) :: u32) = digit_val c"
      using digit_val_less [OF True] by (simp add: unsigned_of_nat take_bit_eq_mod)
    have l': "mag_wf l'" "mag_val l' = mag_val l * 10 + digit_val c"
      using "2.prems" d by (simp_all add: l'_def mag_mul_add_small_wf)
    have "digits_val (c # t) = digit_val c * 10 ^ length t + digits_val t" for t
      using digits_val_append [of "[c]" t] by (simp add: digits_val_def)
    then show ?thesis using "2.IH" True l' by (simp add: l'_def [symmetric] algebra_simps)
  qed (use "2.prems" in simp)
qed simp

lemma big_from_dec_wf [simp]: "big_wf (big_from_dec s)"
  by (simp add: big_from_dec_def split: prod.split)

lemma big_from_dec_val:
  "big_val (big_from_dec (CHR ''-'' # s)) = - int (digits_val (takeWhile is_digit s))"
  "big_val (big_from_dec (CHR ''+'' # s)) = int (digits_val (takeWhile is_digit s))"
  "s = [] \<or> hd s \<noteq> CHR ''-'' \<and> hd s \<noteq> CHR ''+'' \<Longrightarrow>
     big_val (big_from_dec s) = int (digits_val (takeWhile is_digit s))"
  by (auto simp: big_from_dec_def big_val_def [of "\<lparr>b_neg = _, b_limb = _\<rparr>"] from_dec_loop_val mag_wf_def
      simp del: from_dec_loop.simps split: list.splits)

text \<open>The accumulator never outgrows the allocation, whatever prefix has been read.\<close>

lemma mag_wf_length_bound:
  assumes "mag_wf l" and "mag_val l < 10 ^ k"
  shows "length l \<le> k div 9 + 1"
proof (cases "l = []")
  case False
  then have "(4294967296 :: nat) ^ (length l - 1) \<le> mag_val l"
    using assms(1) by (intro mag_val_last_ge) (auto simp: mag_wf_def)
  moreover have "((10 :: nat) ^ 9) ^ (length l - 1) \<le> 4294967296 ^ (length l - 1)"
    by (intro power_mono) simp_all
  ultimately have "((10 :: nat) ^ 9) ^ (length l - 1) < 10 ^ k" using assms(2) by linarith
  then have "(10 :: nat) ^ (9 * (length l - 1)) < 10 ^ k" by (simp only: power_mult)
  then have "9 * (length l - 1) < k" by (rule power_less_imp_less_exp [rotated]) simp
  then show ?thesis by linarith
qed simp

lemma from_dec_loop_fits:
  "length (from_dec_loop (take i s) []) + 1 \<le> from_dec_cap (length s)"
proof -
  let ?d = "takeWhile is_digit (take i s)"
  have wf: "mag_wf []" by (simp add: mag_wf_def)
  have "digits_val ?d < 10 ^ length ?d" by (rule digits_val_less) (auto dest: set_takeWhileD)
  also have "\<dots> \<le> 10 ^ length s"
    by (intro power_increasing) (auto intro: order_trans [OF length_takeWhile_le])
  finally have "mag_val (from_dec_loop (take i s) []) < 10 ^ length s"
    using from_dec_loop_val [OF wf, of "take i s"] by simp
  with from_dec_loop_val [OF wf, of "take i s"] show ?thesis
    using mag_wf_length_bound by (simp add: from_dec_cap_def)
qed

section \<open>Writing: the canonical decimal string\<close>

lemma chunk_digits_inner:
  "unat c < 10 ^ k \<Longrightarrow> 0 < m \<Longrightarrow>
    chunk_digits k c False @ rev (nat_dec m) = rev (nat_dec (unat c + 10 ^ k * m))"
proof (induction k arbitrary: c)
  case (Suc k)
  let ?n = "unat c + 10 ^ Suc k * m"
  have "10 * 1 \<le> 10 ^ Suc k * m" using Suc.prems(2) by (simp only: power_Suc mult.assoc) (rule mult_le_mono2, simp)
  then have big: "10 \<le> ?n" by linarith
  have c10: "unat (c div 10) = unat c div 10" "unat (c mod 10) = unat c mod 10"
    by (simp_all add: unat_div unat_mod)
  have "unat (c div 10) < 10 ^ k" using Suc.prems(1) by (simp add: c10 div_less_iff_less_mult mult.commute)
  from Suc.IH [OF this Suc.prems(2)]
  have ih: "chunk_digits k (c div 10) False @ rev (nat_dec m) = rev (nat_dec (unat c div 10 + 10 ^ k * m))"
    by (simp add: c10)
  have q: "?n div 10 = unat c div 10 + 10 ^ k * m" and r: "?n mod 10 = unat c mod 10"
    by (simp_all add: mult.assoc)
  show ?case unfolding nat_dec_step [OF big] q r using ih by (simp add: c10)
qed simp

lemma chunk_digits_final:
  "0 < k \<Longrightarrow> unat c < 10 ^ k \<Longrightarrow> chunk_digits k c True = rev (nat_dec (unat c))"
proof (induction k arbitrary: c)
  case (Suc k)
  have c10: "unat (c div 10) = unat c div 10" "unat (c mod 10) = unat c mod 10"
    by (simp_all add: unat_div unat_mod)
  show ?case
  proof (cases "unat c < 10")
    case True
    then have "c div 10 = 0" using c10(1) by (simp add: unat_eq_0 [symmetric])
    then show ?thesis using True by (simp add: c10 nat_dec_small)
  next
    case False
    then have "c div 10 \<noteq> 0" using c10(1) by (metis div_eq_0_iff unat_0 zero_neq_numeral)
    moreover have "0 < k" using False Suc.prems(2) by (cases k) auto
    moreover have "unat (c div 10) < 10 ^ k"
      using Suc.prems(2) by (simp add: c10 div_less_iff_less_mult mult.commute)
    ultimately show ?thesis using Suc.IH [of "c div 10"] False by (simp add: c10 nat_dec_step)
  qed
qed simp

lemma to_dec_loop_val: "mag_wf tmp \<Longrightarrow> tmp \<noteq> [] \<Longrightarrow> to_dec_loop tmp = rev (nat_dec (mag_val tmp))"
proof (induction tmp rule: to_dec_loop.induct)
  case (1 tmp)
  obtain q chunk where d: "mag_div_small tmp 1000000000 = (q, chunk)" by fastforce
  have v: "mag_val tmp = mag_val q * 1000000000 + unat chunk" "unat chunk < 1000000000"
    using mag_div_small_spec [OF _ d] by auto
  then have ch: "unat (ucast chunk :: u32) = unat chunk" by (simp add: unat_ucast_u64_u32)
  have step: "to_dec_loop tmp = chunk_digits 9 (ucast chunk) (mag_trim q = []) @ to_dec_loop (mag_trim q)"
    using 1 d by (simp add: to_dec_loop.simps [of tmp] Let_def)
  show ?case
  proof (cases "mag_trim q = []")
    case True
    then have "mag_val q = 0" using mag_val_trim [of q] by simp
    then show ?thesis using True v ch chunk_digits_final [of 9 "ucast chunk :: u32"]
      unfolding step by (simp add: to_dec_loop.simps [of "[]"])
  next
    case False
    then have pos: "0 < mag_val q" using mag_val_pos [of "mag_trim q"] by simp
    have "to_dec_loop (mag_trim q) = rev (nat_dec (mag_val q))"
      using "1.IH" [OF "1.prems"(2) d [symmetric] refl] False d by simp
    then show ?thesis using False v ch chunk_digits_inner [OF _ pos, of "ucast chunk :: u32" 9]
      unfolding step by (simp add: add.commute mult.commute)
  qed
qed

lemma big_to_dec_eq:
  assumes "big_wf a"
  shows "big_to_dec a = (if big_val a < 0 then ''-'' else '''') @ nat_dec (nat \<bar>big_val a\<bar>)"
proof (cases "b_limb a = []")
  case True
  then have "big_val a = 0" "\<not> b_neg a" using assms by (simp_all add: big_val_def big_wf_def)
  then show ?thesis using True
    by (simp add: big_to_dec_def to_dec_loop.simps [of "[]"] nat_dec_small digit_char_0)
next
  case False
  have wf: "mag_wf (b_limb a)" using assms by (rule big_wf_mag)
  then have "0 < mag_val (b_limb a)" using False by (rule mag_val_pos)
  then have "big_val a < 0 \<longleftrightarrow> b_neg a" by (simp add: big_val_def)
  then show ?thesis using to_dec_loop_val [OF wf False] by (simp add: big_to_dec_def abs_big_val)
qed

lemma to_dec_loop_fits: "mag_wf tmp \<Longrightarrow> length (to_dec_loop tmp) + 1 \<le> to_dec_cap (length tmp)"
proof (cases "tmp = []")
  case False
  assume wf: "mag_wf tmp"
  have a: "mag_val tmp < 4294967296 ^ length tmp" by (rule mag_val_less)
  have b: "(4294967296 :: nat) ^ length tmp \<le> (10 ^ 10) ^ length tmp" by (rule power_mono) simp_all
  have c: "((10 :: nat) ^ 10) ^ length tmp = 10 ^ (10 * length tmp)" by (rule power_mult [symmetric])
  have "0 < 10 * length tmp" using False by simp
  then have "length (nat_dec (mag_val tmp)) \<le> 10 * length tmp"
    using less_le_trans [OF a b] unfolding c by (rule length_nat_dec_le [THEN iffD2])
  then show ?thesis using to_dec_loop_val [OF wf False] by (simp add: to_dec_cap_def)
qed (simp add: to_dec_loop.simps [of "[]"] to_dec_cap_def)

lemma big_ndigits_eq: "big_wf a \<Longrightarrow> big_ndigits a = length (nat_dec (nat \<bar>big_val a\<bar>))"
proof -
  assume wf: "big_wf a"
  have "b_neg a \<longleftrightarrow> big_val a < 0"
    using wf mag_val_pos [OF big_wf_mag [OF wf]] by (cases "b_limb a = []") (auto simp: big_val_def big_wf_def)
  then show ?thesis using big_to_dec_eq [OF wf] by (simp add: big_ndigits_def)
qed

section \<open>Representations are unique\<close>

lemma mag_val_inj: "mag_wf xs \<Longrightarrow> mag_wf ys \<Longrightarrow> mag_val xs = mag_val ys \<Longrightarrow> xs = ys"
proof (induction xs arbitrary: ys)
  case Nil
  then show ?case using mag_val_eq_0 [of ys] by simp
next
  case (Cons x xs)
  then have "ys \<noteq> []" using mag_val_pos [of "x # xs"] by auto
  then obtain y zs where ys: "ys = y # zs" by (cases ys) auto
  have e: "unat x + 4294967296 * mag_val xs = unat y + 4294967296 * mag_val zs"
    using Cons.prems(3) ys by simp
  have m: "(unat w + 4294967296 * k) mod 4294967296 = unat w" for w :: u32 and k
    by (simp only: mod_mult_self2 mod_less [OF unat_u32_less])
  have x: "unat x = unat y" using arg_cong [OF e, of "\<lambda>n. n mod 4294967296"] by (simp only: m)
  then have "mag_val xs = mag_val zs" using e by simp
  moreover have "mag_wf xs" "mag_wf zs" using Cons.prems ys by (auto simp: mag_wf_def split: if_splits)
  ultimately have "xs = zs" by (intro Cons.IH)
  moreover have "x = y" using x by (rule unsigned_word_eqI)
  ultimately show ?case using ys by simp
qed

lemma big_val_inj:
  assumes "big_wf a" and "big_wf b" and "big_val a = big_val b"
  shows "a = b"
proof -
  have "mag_val (b_limb a) = mag_val (b_limb b)" using assms(3) abs_big_val [of a] abs_big_val [of b] by simp
  then have l: "b_limb a = b_limb b" using mag_val_inj assms by (simp add: big_wf_mag)
  have "b_neg a = b_neg b"
  proof (cases "b_limb a = []")
    case False
    then have "0 < mag_val (b_limb a)" using assms by (simp add: big_wf_mag mag_val_pos)
    then show ?thesis using assms(3) l by (auto simp: big_val_def split: if_splits)
  qed (use assms l in \<open>simp add: big_wf_def\<close>)
  with l show ?thesis by (cases a; cases b) simp
qed

lemma takeWhile_digits_nat_dec [simp]: "takeWhile is_digit (nat_dec n) = nat_dec n"
  using nat_dec_digits by (simp add: takeWhile_eq_all_conv)

lemma big_from_to_dec:
  assumes "big_wf a"
  shows "big_from_dec (big_to_dec a) = a"
proof (rule big_val_inj)
  show "big_val (big_from_dec (big_to_dec a)) = big_val a"
  proof (cases "big_val a < 0")
    case True
    then show ?thesis using big_to_dec_eq [OF assms] big_from_dec_val(1) by simp
  next
    case False
    have "hd (nat_dec (nat \<bar>big_val a\<bar>)) \<noteq> CHR ''-'' \<and> hd (nat_dec (nat \<bar>big_val a\<bar>)) \<noteq> CHR ''+''"
      using hd_nat_dec_digit [of "nat \<bar>big_val a\<bar>"] by (auto simp: is_digit_def)
    then show ?thesis using False big_to_dec_eq [OF assms] big_from_dec_val(3) by simp
  qed
qed (use assms in simp_all)

section \<open>Powers of ten\<close>

lemma pow10_nines_val:
  "mag_wf l \<Longrightarrow> pow10_nines n l = (m, l') \<Longrightarrow>
    mag_wf l' \<and> mag_val l' * 10 ^ nat m = mag_val l * 10 ^ nat n \<and> m < 9"
proof (induction n l rule: pow10_nines.induct)
  case (1 n l)
  show ?case
  proof (cases "n \<ge> 9")
    case True
    have "nat n = 9 + nat (n - 9)" using True by simp
    then have "(10 :: nat) ^ nat n = 1000000000 * 10 ^ nat (n - 9)" by (simp add: power_add)
    then show ?thesis using 1 True
      by (simp add: pow10_nines.simps [of n] mag_mul_add_small_wf mult.assoc)
  qed (use 1 in \<open>auto simp: pow10_nines.simps [of n]\<close>)
qed

lemma pow10_ones_val:
  "mag_wf l \<Longrightarrow> mag_wf (pow10_ones n l) \<and> mag_val (pow10_ones n l) = mag_val l * 10 ^ nat n"
proof (induction n l rule: pow10_ones.induct)
  case (1 n l)
  show ?case
  proof (cases "n > 0")
    case True
    then have "nat n = Suc (nat (n - 1))" by simp
    then have "(10 :: nat) ^ nat n = 10 * 10 ^ nat (n - 1)" by simp
    then show ?thesis using 1 True
      by (simp add: pow10_ones.simps [of n] mag_mul_add_small_wf mult.assoc)
  qed (use 1 in \<open>simp add: pow10_ones.simps [of n]\<close>)
qed

lemma big_pow10_wf [simp]: "big_wf (big_pow10 n)"
  by (simp add: big_pow10_def split: prod.split)

lemma big_pow10_val: "big_val (big_pow10 n) = 10 ^ nat n"
proof -
  obtain m l where e: "pow10_nines n [1] = (m, l)" by fastforce
  have "mag_wf [1]" by (simp add: mag_wf_def)
  from pow10_nines_val [OF this e] have "mag_wf l" "mag_val l * 10 ^ nat m = 10 ^ nat n" by auto
  then have "mag_val (pow10_ones m l) = 10 ^ nat n" using pow10_ones_val [of l m] by simp
  then show ?thesis by (simp add: big_pow10_def e big_val_def [of "\<lparr>b_neg = _, b_limb = _\<rparr>"])
qed

lemma big_pow10_fits: "length (b_limb (big_pow10 n)) + 1 \<le> nat n div 9 + 3"
proof -
  have wf: "mag_wf (b_limb (big_pow10 n))" by (rule big_wf_mag) simp
  have "int (mag_val (b_limb (big_pow10 n))) = 10 ^ nat n"
    using abs_big_val [of "big_pow10 n"] by (simp add: big_pow10_val)
  then have v: "mag_val (b_limb (big_pow10 n)) = 10 ^ nat n"
    by (metis of_nat_eq_iff of_nat_numeral of_nat_power)
  have "(10 :: nat) ^ nat n < 10 ^ Suc (nat n)" by simp
  then have "length (b_limb (big_pow10 n)) \<le> Suc (nat n) div 9 + 1"
    using mag_wf_length_bound [OF wf] v by simp
  moreover have le: "Suc k div 9 \<le> k div 9 + 1" for k :: nat by presburger
  ultimately show ?thesis using le [of "nat n"] by linarith
qed

section \<open>The interface to the clients of \<open>bigint.h\<close>\<close>

text \<open>
  What the decimal kernel of the number formatting uses of \<open>bigint.h\<close>: values that denote
  integers, exact arithmetic, division that truncates, and powers of ten. The lemmas in the
  locale are those the client needs: scaling by a power of ten, the alignment of two decimals
  to a common exponent, and the integer part as a truncated quotient.
\<close>

locale integer_ops =
  fixes val :: "'b \<Rightarrow> int" and ok :: "'b \<Rightarrow> bool"
    and add sub mul :: "'b \<Rightarrow> 'b \<Rightarrow> 'b" and quot_rem :: "'b \<Rightarrow> 'b \<Rightarrow> ('b \<times> 'b) option"
    and pow10 :: "int \<Rightarrow> 'b"
  assumes ok_add: "ok a \<Longrightarrow> ok b \<Longrightarrow> ok (add a b)" and ok_sub: "ok a \<Longrightarrow> ok b \<Longrightarrow> ok (sub a b)"
    and ok_mul: "ok a \<Longrightarrow> ok b \<Longrightarrow> ok (mul a b)" and ok_pow10: "ok (pow10 n)"
    and val_add: "ok a \<Longrightarrow> ok b \<Longrightarrow> val (add a b) = val a + val b"
    and val_sub: "ok a \<Longrightarrow> ok b \<Longrightarrow> val (sub a b) = val a - val b"
    and val_mul: "ok a \<Longrightarrow> ok b \<Longrightarrow> val (mul a b) = val a * val b"
    and val_pow10: "val (pow10 n) = 10 ^ nat n"
    and quot_total: "ok a \<Longrightarrow> ok b \<Longrightarrow> val b \<noteq> 0 \<Longrightarrow> quot_rem a b \<noteq> None"
    and quot_spec: "ok a \<Longrightarrow> ok b \<Longrightarrow> quot_rem a b = Some (q, r) \<Longrightarrow> ok q \<and> ok r \<and>
      val a = val q * val b + val r \<and> \<bar>val r\<bar> < \<bar>val b\<bar> \<and> (val r = 0 \<or> sgn (val r) = sgn (val a))"
begin

lemma scale_val: "ok m \<Longrightarrow> val (mul m (pow10 k)) = val m * 10 ^ nat k"
  by (simp add: val_mul ok_pow10 val_pow10)

lemma quot_nonneg:
  assumes "ok a" and "ok b" and "0 \<le> val a" and "0 < val b"
  shows "\<exists>q r. quot_rem a b = Some (q, r) \<and> ok q \<and> ok r \<and> val q = val a div val b \<and> val r = val a mod val b"
proof -
  obtain q r where e: "quot_rem a b = Some (q, r)" using quot_total [OF assms(1,2)] assms(4) by fastforce
  note s = quot_spec [OF assms(1,2) e]
  have r0: "0 \<le> val r" using s assms(3) by (auto simp: sgn_if split: if_splits)
  then have "val a div val b = val q" and "val a mod val b = val r"
    using s assms(4) by (simp_all add: div_pos_pos_trivial mod_pos_pos_trivial)
  with e s show ?thesis by auto
qed

lemma quot_pow10:
  assumes "ok a" and "0 \<le> val a"
  shows "\<exists>q r. quot_rem a (pow10 k) = Some (q, r) \<and> ok q \<and> val q = val a div 10 ^ nat k"
  using quot_nonneg [OF assms(1) ok_pow10 [of k] assms(2)] by (auto simp: val_pow10)

end

interpretation bi: integer_ops big_val big_wf big_add big_sub big_mul big_divmod big_pow10
proof (unfold_locales, goal_cases)
  case (9 a b)
  then show ?case using big_val_eq_0 [of b] by (simp add: big_divmod_total)
next
  case (10 a b q r)
  then show ?case by (rule big_divmod_spec)
qed (simp_all add: big_add_val big_sub_val big_mul_val big_pow10_val)

section \<open>Properties\<close>

text \<open>
  C7: decimal output. \<open>big_to_dec\<close> writes a minus sign for negative values only and then the
  canonical decimal digits of the absolute value (no leading zeros, a single 0 for zero), and
  \<open>big_from_dec\<close> reads that string back to the identical representation.
\<close>

theorem big_dec_round_trip:
  assumes "big_wf a"
  shows "big_to_dec a = (if big_val a < 0 then ''-'' else []) @ nat_dec (nat \<bar>big_val a\<bar>) \<and>
    big_from_dec (big_to_dec a) = a"
  using big_to_dec_eq [OF assms] big_from_to_dec [OF assms] by simp

theorem big_dec_round_trip_witness:
  "big_from_dec (big_to_dec (big_pow10 40)) = big_pow10 40 \<and>
   big_to_dec (big_neg (big_from_i64 7)) = ''-7''"
proof -
  have c: "char_of (55 :: nat) = CHR ''7''" by (simp add: char_of_eq_iff)
  have "big_to_dec (big_neg (big_from_i64 7)) = ''-7''"
    using big_dec_round_trip [of "big_neg (big_from_i64 7)"]
    by (simp add: big_neg_val big_from_i64_val nat_dec_small digit_char_def c)
  then show ?thesis using big_dec_round_trip [OF big_pow10_wf, of 40] by blast
qed

text \<open>
  The buffers of the decimal conversions are large enough. While \<open>big_from_dec\<close> reads any
  prefix of its input there is always room for one more limb; the digits \<open>big_to_dec\<close> collects
  stay below the capacity it computes from the number of limbs; \<open>big_pow10\<close> fits its allocation.
\<close>

theorem big_dec_buffers_fit:
  "length (from_dec_loop (take i s) []) + 1 \<le> from_dec_cap (length s) \<and>
   (big_wf a \<longrightarrow> length (to_dec_loop (b_limb a)) + 1 \<le> to_dec_cap (length (b_limb a))) \<and>
   length (b_limb (big_pow10 n)) + 1 \<le> nat n div 9 + 3"
  using from_dec_loop_fits to_dec_loop_fits [OF big_wf_mag] big_pow10_fits by blast

theorem big_dec_buffers_fit_witness:
  "length (from_dec_loop (take 30 (replicate 60 (CHR ''9''))) []) + 1 \<le> from_dec_cap 60 \<and>
   length (to_dec_loop (b_limb (big_pow10 100))) + 1 \<le> to_dec_cap (length (b_limb (big_pow10 100)))"
  using big_dec_buffers_fit [of 30 "replicate 60 (CHR ''9'')" "big_pow10 100" 100] by simp

end
