(* ===== verification/Decimal.thy ===== *)
theory Decimal
  imports Complex_Main BigintDec
begin

text \<open>
  \<open>csrc/fmt.c\<close>, the exact decimal kernel: a mantissa from \<open>bigint.h\<close> times a power of ten, the
  operations on it and the two loops every conversion is made of, scaling a number below one and
  extracting its digits.

  Mantissas are owned by their decimal, so the copies (\<open>big_dup\<close>) and releases of the C code are
  values here. Exponents are \<open>int64_t\<close> there and integers here; they count digits, so they stay far
  from the bounds of the type. The casts \<open>(int) k\<close> on the way to \<open>big_pow10\<close> are kept
  (\<open>s32_of_int\<close>): they are why the lemmas ask for exponents of at most \<open>10 ^ 9\<close> (\<open>dec_ok\<close>).

  \<open>dval\<close> is the rational number a decimal denotes. The lemmas on the operations rest on the laws of
  \<open>integer_ops\<close> through its interpretation \<open>bi\<close>.
\<close>

section \<open>Helpers\<close>

definition i64_abs :: "int \<Rightarrow> int" where
  "i64_abs v = (if v = - (2 ^ 63) then 2 ^ 63 - 1 else if v < 0 then - v else v)"

definition fmt_sgn :: "int \<Rightarrow> int" where
  "fmt_sgn v = (if v > 0 then 1 else if v < 0 then -1 else 0)"

definition big_dup :: "a68_big \<Rightarrow> a68_big" where
  "big_dup a = big_add a (big_from_i64 0)"

definition big_scale10 :: "a68_big \<Rightarrow> int \<Rightarrow> a68_big" where
  "big_scale10 m k = (if k \<le> 0 then big_dup m else big_mul m (big_pow10 (s32_of_int k)))"

definition str_fill :: "nat \<Rightarrow> char \<Rightarrow> string" where "str_fill n c = replicate n c"
definition str_prepend :: "char \<Rightarrow> string \<Rightarrow> string" where "str_prepend c s = c # s"
definition str_concat3 :: "string \<Rightarrow> string \<Rightarrow> string \<Rightarrow> string" where "str_concat3 a m b = a @ m @ b"

section \<open>Decimals\<close>

record a68_dec =
  d_mant :: a68_big
  d_exp :: int

definition dec_mk :: "a68_big \<Rightarrow> int \<Rightarrow> a68_dec" where "dec_mk m e = \<lparr>d_mant = m, d_exp = e\<rparr>"
definition dec_zero :: a68_dec where "dec_zero = dec_mk (big_from_i64 0) 0"
definition dec_of_i64 :: "64 word \<Rightarrow> a68_dec" where "dec_of_i64 n = dec_mk (big_from_i64 n) 0"
definition dec_ten_up :: "int \<Rightarrow> a68_dec" where "dec_ten_up n = dec_mk (big_from_i64 1) n"

definition a68_dec_of_u64 :: "u64 \<Rightarrow> a68_dec" where
  "a68_dec_of_u64 n = dec_mk (big_from_dec (nat_dec (unat n))) 0"
definition a68_dec_of_big :: "a68_big \<Rightarrow> a68_dec" where
  "a68_dec_of_big n = dec_mk (big_abs n) 0"

definition dec_align :: "a68_dec \<Rightarrow> a68_dec \<Rightarrow> a68_big \<times> a68_big \<times> int" where
  "dec_align a b = (let e = (if d_exp a < d_exp b then d_exp a else d_exp b)
     in (big_scale10 (d_mant a) (d_exp a - e), big_scale10 (d_mant b) (d_exp b - e), e))"

definition dec_add :: "a68_dec \<Rightarrow> a68_dec \<Rightarrow> a68_dec" where
  "dec_add a b = (case dec_align a b of (x, y, e) \<Rightarrow> dec_mk (big_add x y) e)"
definition dec_sub :: "a68_dec \<Rightarrow> a68_dec \<Rightarrow> a68_dec" where
  "dec_sub a b = (case dec_align a b of (x, y, e) \<Rightarrow> dec_mk (big_sub x y) e)"

definition dec_mul10 :: "a68_dec \<Rightarrow> a68_dec" where "dec_mul10 a = dec_mk (big_dup (d_mant a)) (d_exp a + 1)"
definition dec_div10 :: "a68_dec \<Rightarrow> a68_dec" where "dec_div10 a = dec_mk (big_dup (d_mant a)) (d_exp a - 1)"
definition dec_half :: "a68_dec \<Rightarrow> a68_dec" where "dec_half a = dec_mk (big_mul_small (d_mant a) 5) (d_exp a - 1)"
definition dec_is_zero :: "a68_dec \<Rightarrow> bool" where "dec_is_zero a = big_is_zero (d_mant a)"
definition dec_sign :: "a68_dec \<Rightarrow> int" where "dec_sign a = big_sign (d_mant a)"

definition dec_cmp :: "a68_dec \<Rightarrow> a68_dec \<Rightarrow> int" where "dec_cmp a b = dec_sign (dec_sub a b)"
definition dec_lt :: "a68_dec \<Rightarrow> a68_dec \<Rightarrow> bool" where "dec_lt a b \<longleftrightarrow> dec_cmp a b < 0"
definition dec_ge :: "a68_dec \<Rightarrow> a68_dec \<Rightarrow> bool" where "dec_ge a b \<longleftrightarrow> dec_cmp a b \<ge> 0"
definition dec_gt :: "a68_dec \<Rightarrow> a68_dec \<Rightarrow> bool" where "dec_gt a b \<longleftrightarrow> dec_cmp a b > 0"

text \<open>
  \<open>dec_floor_nat\<close>: the divisor is a power of ten, so \<open>big_divmod\<close> never gives the \<open>NULL\<close> of a
  division by zero (\<open>integer_ops.quot_total\<close>).
\<close>

definition dec_floor_nat :: "a68_dec \<Rightarrow> a68_big" where
  "dec_floor_nat a =
    (let r = (if d_exp a \<ge> 0 then big_scale10 (d_mant a) (d_exp a)
              else fst (the (big_divmod (d_mant a) (big_pow10 (s32_of_int (- d_exp a))))))
     in if big_sign r < 0 then big_from_i64 0 else r)"

section \<open>Digits\<close>

text \<open>\<open>choose_dig\<close>: the next digit of a number below one, and what is left of it.\<close>

definition choose_dig :: "a68_dec \<Rightarrow> char \<times> a68_dec" where
  "choose_dig y =
    (let y10 = dec_mul10 y; fl = dec_floor_nat y10;
         c = (if big_cmp fl (big_from_i64 9) > 0 then 9 else big_to_i64 fl)
     in (char_of (nat (48 + sint c)), dec_sub y10 (dec_of_i64 c)))"

definition LONG_LONG_REAL_WIDTH :: int where "LONG_LONG_REAL_WIDTH = 70"

text \<open>The loop over \<open>n\<close> digits; \<open>len\<close> counts the digits written so far.\<close>

fun digit_loop :: "nat \<Rightarrow> int \<Rightarrow> a68_dec \<Rightarrow> string \<times> int \<times> a68_dec" where
  "digit_loop 0 len y = ([], len, y)"
| "digit_loop (Suc n) len y =
    (if len < LONG_LONG_REAL_WIDTH
     then (case choose_dig y of (c, y') \<Rightarrow> case digit_loop n (len + 1) y' of (s, r) \<Rightarrow> (c # s, r))
     else (case digit_loop n (len + 1) y of (s, r) \<Rightarrow> (CHR ''0'' # s, r)))"

text \<open>The loop that counts the digits before the point, dividing by ten while the number is at least one.\<close>

partial_function (option) before_loop :: "a68_dec \<Rightarrow> int \<Rightarrow> (a68_dec \<times> int) option" where
  "before_loop y before =
    (if dec_ge y (dec_of_i64 1) then before_loop (dec_div10 y) (before + 1) else Some (y, before))"

section \<open>What the operations denote\<close>

definition dval :: "a68_dec \<Rightarrow> rat" where
  "dval a = of_int (big_val (d_mant a)) * 10 powi d_exp a"

definition dec_ok :: "a68_dec \<Rightarrow> bool" where
  "dec_ok a \<longleftrightarrow> big_wf (d_mant a) \<and> \<bar>d_exp a\<bar> \<le> 1000000000"

named_theorems dec_simps \<open>the fields and well-formedness of the results of the decimal operations\<close>

lemma big_dup_id: "big_wf a \<Longrightarrow> big_dup a = a"
  unfolding big_dup_def by (rule big_val_inj) (simp_all add: big_add_val big_from_i64_val)

lemma dec_mk_simps [simp]: "d_mant (dec_mk m e) = m" "d_exp (dec_mk m e) = e"
  by (simp_all add: dec_mk_def)

lemma dec_mk_cong: "dec_mk m e = dec_mk m' e' \<longleftrightarrow> m = m' \<and> e = e'"
  by (simp add: dec_mk_def)

lemma dec_mk_eta: "dec_mk (d_mant a) (d_exp a) = a"
  by (simp add: dec_mk_def)

lemma dval_mk: "dval (dec_mk m e) = of_int (big_val m) * 10 powi e"
  by (simp add: dval_def)

lemma powi_pos [simp]: "0 < (10 :: rat) powi e"
  by simp

lemma powi_split: "e \<le> f \<Longrightarrow> (10 :: rat) powi f = 10 ^ nat (f - e) * 10 powi e"
  using power_int_add [of "10 :: rat" "f - e" e] by (simp add: power_int_def [of _ "f - e"])

lemma big_scale10_ok:
  assumes "big_wf m" "0 \<le> k" "k \<le> 2000000000"
  shows "big_wf (big_scale10 m k)" and "big_val (big_scale10 m k) = big_val m * 10 ^ nat k"
  using assms bi.scale_val [of m "s32_of_int k"]
  by (auto simp: big_scale10_def big_dup_id s32_of_int_id)

lemma dec_align_ok:
  assumes "dec_ok a" "dec_ok b" and "dec_align a b = (x, y, e)"
  shows "big_wf x" and "big_wf y" and "e = min (d_exp a) (d_exp b)"
    and "dval a = of_int (big_val x) * 10 powi e" and "dval b = of_int (big_val y) * 10 powi e"
proof -
  show e: "e = min (d_exp a) (d_exp b)" using assms(3) by (auto simp: dec_align_def Let_def min_def)
  have x: "x = big_scale10 (d_mant a) (d_exp a - e)" and y: "y = big_scale10 (d_mant b) (d_exp b - e)"
    using assms(3) by (auto simp: dec_align_def Let_def)
  have b: "0 \<le> d_exp a - e" "d_exp a - e \<le> 2000000000" "0 \<le> d_exp b - e" "d_exp b - e \<le> 2000000000"
    using assms(1,2) by (auto simp: e dec_ok_def min_def)
  have w: "big_wf (d_mant a)" "big_wf (d_mant b)" using assms(1,2) by (auto simp: dec_ok_def)
  show "big_wf x" and "big_wf y" using big_scale10_ok w b by (auto simp: x y)
  have "big_val x = big_val (d_mant a) * 10 ^ nat (d_exp a - e)" "big_val y = big_val (d_mant b) * 10 ^ nat (d_exp b - e)"
    using big_scale10_ok w b by (auto simp: x y)
  then show "dval a = of_int (big_val x) * 10 powi e" and "dval b = of_int (big_val y) * 10 powi e"
    using powi_split [of e "d_exp a"] powi_split [of e "d_exp b"] b by (simp_all add: dval_def mult.assoc)
qed

lemma dec_add_ok:
  assumes "dec_ok a" "dec_ok b"
  shows "dec_ok (dec_add a b)" and "dval (dec_add a b) = dval a + dval b"
    and "d_exp (dec_add a b) = min (d_exp a) (d_exp b)"
proof -
  obtain x y e where al: "dec_align a b = (x, y, e)" by (metis prod_cases3)
  note o = dec_align_ok [OF assms al]
  have d: "dec_add a b = dec_mk (big_add x y) e" by (simp add: dec_add_def al)
  show "d_exp (dec_add a b) = min (d_exp a) (d_exp b)" using o(3) by (simp add: d)
  show "dec_ok (dec_add a b)" using assms o(3) by (auto simp: d dec_ok_def min_def)
  show "dval (dec_add a b) = dval a + dval b"
    unfolding d dval_mk o(4,5) using o(1,2) by (simp add: big_add_val distrib_right)
qed

lemma dec_sub_ok:
  assumes "dec_ok a" "dec_ok b"
  shows "dec_ok (dec_sub a b)" and "dval (dec_sub a b) = dval a - dval b"
    and "d_exp (dec_sub a b) = min (d_exp a) (d_exp b)"
proof -
  obtain x y e where al: "dec_align a b = (x, y, e)" by (metis prod_cases3)
  note o = dec_align_ok [OF assms al]
  have d: "dec_sub a b = dec_mk (big_sub x y) e" by (simp add: dec_sub_def al)
  show "d_exp (dec_sub a b) = min (d_exp a) (d_exp b)" using o(3) by (simp add: d)
  show "dec_ok (dec_sub a b)" using assms o(3) by (auto simp: d dec_ok_def min_def)
  show "dval (dec_sub a b) = dval a - dval b"
    unfolding d dval_mk o(4,5) using o(1,2) by (simp add: big_sub_val left_diff_distrib)
qed

lemma dval_sign:
  "0 < dval a \<longleftrightarrow> 0 < big_val (d_mant a)" "dval a < 0 \<longleftrightarrow> big_val (d_mant a) < 0"
  "dval a = 0 \<longleftrightarrow> big_val (d_mant a) = 0" "0 \<le> dval a \<longleftrightarrow> 0 \<le> big_val (d_mant a)"
proof -
  have "0 < (10 :: rat) powi d_exp a" "\<not> (10 :: rat) powi d_exp a < 0" "\<not> (10 :: rat) powi d_exp a \<le> 0"
    using powi_pos [of "d_exp a"] by linarith+
  then show "0 < dval a \<longleftrightarrow> 0 < big_val (d_mant a)" "dval a < 0 \<longleftrightarrow> big_val (d_mant a) < 0"
    "dval a = 0 \<longleftrightarrow> big_val (d_mant a) = 0" "0 \<le> dval a \<longleftrightarrow> 0 \<le> big_val (d_mant a)"
    by (auto simp: dval_def zero_less_mult_iff mult_less_0_iff zero_le_mult_iff)
qed

lemma dec_sign_val: "dec_ok a \<Longrightarrow> (0 < dec_sign a \<longleftrightarrow> 0 < dval a) \<and> (dec_sign a < 0 \<longleftrightarrow> dval a < 0)"
  by (auto simp: dec_sign_def dec_ok_def big_sign_val dval_sign sgn_if)

lemma dec_order:
  assumes "dec_ok a" "dec_ok b"
  shows "dec_lt a b \<longleftrightarrow> dval a < dval b" and "dec_ge a b \<longleftrightarrow> dval a \<ge> dval b" and "dec_gt a b \<longleftrightarrow> dval a > dval b"
  using dec_sign_val [OF dec_sub_ok(1) [OF assms]] dec_sub_ok(2) [OF assms]
  unfolding dec_lt_def dec_ge_def dec_gt_def dec_cmp_def by linarith+

lemma dec_scale_vals:
  assumes "dec_ok a"
  shows "dval (dec_mul10 a) = dval a * 10" and "dval (dec_div10 a) = dval a / 10"
    and "dval (dec_half a) = dval a / 2"
  using assms
  by (auto simp: dec_mul10_def dec_div10_def dec_half_def dval_def dec_ok_def big_dup_id power_int_add power_int_diff
      big_mul_small_def big_mul_val big_from_i64_val)

lemma dec_scale_fields:
  assumes "dec_ok a"
  shows "dec_mul10 a = dec_mk (d_mant a) (d_exp a + 1)" and "dec_div10 a = dec_mk (d_mant a) (d_exp a - 1)"
    and "d_exp (dec_half a) = d_exp a - 1" and "big_wf (d_mant (dec_half a))"
  using assms
  by (auto simp: dec_mul10_def dec_div10_def dec_half_def dec_ok_def big_dup_id big_mul_small_def)

lemma dec_consts [simp]:
  "dec_ok dec_zero" "dval dec_zero = 0" "d_exp dec_zero = 0"
  "dec_ok (dec_of_i64 n)" "d_exp (dec_of_i64 n) = 0"
  "dval (dec_ten_up k) = 10 powi k" "d_exp (dec_ten_up k) = k" "big_wf (d_mant (dec_ten_up k))"
  by (simp_all add: dec_zero_def dec_of_i64_def dec_ten_up_def dval_def dec_ok_def big_from_i64_val)

lemma dval_one: "dval (dec_of_i64 1) = 1"
  by (simp add: dval_def dec_of_i64_def big_from_i64_val)

lemma dec_ok_ten_up: "dec_ok (dec_ten_up k) \<longleftrightarrow> \<bar>k\<bar> \<le> 1000000000"
  by (simp add: dec_ok_def)

lemma dec_is_zero_val: "dec_ok a \<Longrightarrow> dec_is_zero a \<longleftrightarrow> dval a = 0"
  by (simp add: dec_is_zero_def dec_ok_def big_is_zero_val dval_def)

section \<open>Integer part and digits\<close>

lemma floor_scaled:
  assumes "e < 0"
  shows "\<lfloor>of_int m * (10 :: rat) powi e\<rfloor> = m div 10 ^ nat (- e)"
proof -
  have "(10 :: rat) powi e = inverse (10 ^ nat (- e))"
    using assms by (simp only: power_int_def power_inverse not_le if_False)  simp
  then have "of_int m * (10 :: rat) powi e = of_int m / of_int (10 ^ nat (- e))"
    by (simp add: divide_inverse)
  then show ?thesis by (simp only: floor_divide_of_int_eq)
qed

lemma dec_floor_nat_ok:
  assumes "dec_ok a" "0 \<le> dval a"
  shows "big_wf (dec_floor_nat a)" and "big_val (dec_floor_nat a) = \<lfloor>dval a\<rfloor>"
proof -
  have w: "big_wf (d_mant a)" and m0: "0 \<le> big_val (d_mant a)" and e: "\<bar>d_exp a\<bar> \<le> 1000000000"
    using assms by (auto simp: dec_ok_def dval_sign)
  define r where "r = (if d_exp a \<ge> 0 then big_scale10 (d_mant a) (d_exp a)
    else fst (the (big_divmod (d_mant a) (big_pow10 (s32_of_int (- d_exp a))))))"
  have r: "big_wf r \<and> big_val r = \<lfloor>dval a\<rfloor>"
  proof (cases "d_exp a \<ge> 0")
    case True
    then have "dval a = of_int (big_val (d_mant a) * 10 ^ nat (d_exp a))"
      by (simp add: dval_def power_int_def)
    then show ?thesis using True w e big_scale10_ok [of "d_mant a" "d_exp a"] by (simp only: r_def floor_of_int) auto
  next
    case False
    have s: "s32_of_int (- d_exp a) = - d_exp a" using e False by (simp add: s32_of_int_id)
    obtain q q' where q: "big_divmod (d_mant a) (big_pow10 (- d_exp a)) = Some (q, q')" "big_wf q"
        "big_val q = big_val (d_mant a) div 10 ^ nat (- d_exp a)"
      using bi.quot_pow10 [OF w m0, of "- d_exp a"] by blast
    then show ?thesis using False m0 by (simp add: r_def s dval_def floor_scaled)
  qed
  have "dec_floor_nat a = r"
  proof -
    have "0 \<le> big_val r" using r assms(2) by simp
    then have "\<not> big_sign r < 0" using r by (simp add: big_sign_val)
    then show ?thesis by (simp add: dec_floor_nat_def r_def [symmetric])
  qed
  with r show "big_wf (dec_floor_nat a)" and "big_val (dec_floor_nat a) = \<lfloor>dval a\<rfloor>" by simp_all
qed

lemma choose_dig_ok:
  assumes "dec_ok y" "0 \<le> dval y" "dval y < 1" "d_exp y < 1000000000"
  shows "choose_dig y = (c, y') \<Longrightarrow> c = digit_char (nat \<lfloor>10 * dval y\<rfloor>) \<and> dec_ok y' \<and>
    dval y' = 10 * dval y - of_int \<lfloor>10 * dval y\<rfloor> \<and> d_exp y' = min (d_exp y + 1) 0"
proof -
  assume c: "choose_dig y = (c, y')"
  have y10: "dec_ok (dec_mul10 y)" "dval (dec_mul10 y) = 10 * dval y" "d_exp (dec_mul10 y) = d_exp y + 1"
    using assms dec_scale_vals(1) [OF assms(1)] by (auto simp: dec_scale_fields dec_ok_def)
  let ?f = "\<lfloor>10 * dval y\<rfloor>"
  have f: "0 \<le> ?f" "?f \<le> 9" using assms(2,3) by (auto simp: floor_le_iff)
  have fl: "big_wf (dec_floor_nat (dec_mul10 y))" "big_val (dec_floor_nat (dec_mul10 y)) = ?f"
    using dec_floor_nat_ok [OF y10(1)] y10(2) assms(2) by simp_all
  have nine: "\<not> big_cmp (dec_floor_nat (dec_mul10 y)) (big_from_i64 9) > 0"
    using f fl by (simp add: big_cmp_val big_from_i64_val sgn_if)
  have to: "sint (big_to_i64 (dec_floor_nat (dec_mul10 y))) = ?f"
    using f fl big_to_i64_val [of "dec_floor_nat (dec_mul10 y)"] by (simp add: big_fits_i64_iff)
  from c nine have e: "c = char_of (nat (48 + ?f))"
      "y' = dec_sub (dec_mul10 y) (dec_of_i64 (big_to_i64 (dec_floor_nat (dec_mul10 y))))"
    by (simp_all add: choose_dig_def Let_def to)
  have "nat (48 + ?f) = 48 + nat ?f" using nat_add_distrib [OF _ f(1), of 48] by simp
  moreover have "dval (dec_of_i64 (big_to_i64 (dec_floor_nat (dec_mul10 y)))) = of_int ?f"
    by (simp only: dval_def dec_of_i64_def dec_mk_simps big_from_i64_val to power_int_0_right mult_1_right)
  ultimately show ?thesis
    using dec_sub_ok [OF y10(1) dec_consts(4)] by (simp add: e y10 digit_char_def)
qed

text \<open>
  The digit loop writes the digits of the fraction, cut off after the 70th of the number; the
  remainder is again below one, so the guard of \<open>choose_dig\<close> against a digit above 9 never fires.
\<close>

definition digits70 :: "nat \<Rightarrow> nat \<Rightarrow> string" where
  "digits70 n k = (let m = min n 70 in pad_dec m (k div 10 ^ (n - m)) @ replicate (n - m) (CHR ''0''))"

lemma length_digits70 [simp]: "length (digits70 n k) = n"
  by (simp add: digits70_def Let_def)

lemma digits70_small: "n \<le> 70 \<Longrightarrow> digits70 n k = pad_dec n k"
  by (simp add: digits70_def Let_def min_def)

lemma star_not_in_digits70 [simp]: "CHR ''*'' \<notin> set (digits70 n k)"
  by (simp add: digits70_def Let_def)

lemma pad_dec_mod: "pad_dec m (c * 10 ^ m + n) = pad_dec m n"
proof (induction m arbitrary: n c)
  case (Suc m)
  have "(c * 10 ^ Suc m + n) div 10 = c * 10 ^ m + n div 10" "(c * 10 ^ Suc m + n) mod 10 = n mod 10"
    by (simp_all add: mult.left_commute [of c 10])
  then show ?case by (simp only: pad_dec.simps Suc.IH)
qed simp

lemma pad_dec_cons: "d < 10 \<Longrightarrow> n < 10 ^ m \<Longrightarrow> pad_dec (Suc m) (d * 10 ^ m + n) = digit_char d # pad_dec m n"
  using pad_dec_append [of 1 m "d * 10 ^ m + n"] by (simp add: pad_dec_mod)

lemma floor_digit:
  assumes "0 \<le> (v :: rat)"
  shows "nat \<lfloor>v * 10 ^ Suc m\<rfloor> = nat \<lfloor>10 * v\<rfloor> * 10 ^ m + nat \<lfloor>(10 * v - of_int \<lfloor>10 * v\<rfloor>) * 10 ^ m\<rfloor>"
proof -
  let ?f = "\<lfloor>10 * v\<rfloor>"
  have "v * 10 ^ Suc m = of_int (?f * 10 ^ m) + (10 * v - of_int ?f) * 10 ^ m" by (simp add: algebra_simps)
  then have e: "\<lfloor>v * 10 ^ Suc m\<rfloor> = ?f * 10 ^ m + \<lfloor>(10 * v - of_int ?f) * 10 ^ m\<rfloor>" by (simp only: int_add_floor)
  have "0 \<le> ?f" "0 \<le> \<lfloor>(10 * v - of_int ?f) * 10 ^ m\<rfloor>" using assms by simp_all
  moreover have "0 \<le> ?f * 10 ^ m" using \<open>0 \<le> ?f\<close> by simp
  ultimately show ?thesis unfolding e by (simp only: nat_add_distrib nat_mult_distrib) (simp add: nat_power_eq)
qed

lemma frac_less_pow: "0 \<le> (v :: rat) \<Longrightarrow> v < 1 \<Longrightarrow> nat \<lfloor>v * 10 ^ m\<rfloor> < 10 ^ m"
proof -
  assume "0 \<le> v" "v < 1"
  then have "v * 10 ^ m < of_int (10 ^ m)" by simp
  then have "\<lfloor>v * 10 ^ m\<rfloor> < 10 ^ m" by (simp only: floor_less_iff)
  then show ?thesis by (simp add: nat_less_iff)
qed

lemma digit_loop_ok:
  "dec_ok y \<Longrightarrow> 0 \<le> dval y \<Longrightarrow> dval y < 1 \<Longrightarrow> d_exp y < 1000000000 \<Longrightarrow> 0 \<le> len \<Longrightarrow>
   m = min n (nat (70 - len)) \<Longrightarrow>
   fst (digit_loop n len y) = pad_dec m (nat \<lfloor>dval y * 10 ^ m\<rfloor>) @ replicate (n - m) (CHR ''0'')"
proof (induction n arbitrary: len y m)
  case (Suc n)
  show ?case
  proof (cases "len < 70")
    case True
    obtain c y' where cy: "choose_dig y = (c, y')" by fastforce
    note ch = choose_dig_ok [OF Suc.prems(1-4) cy]
    let ?d = "nat \<lfloor>10 * dval y\<rfloor>"
    define m' where "m' = min n (nat (70 - (len + 1)))"
    have m: "m = Suc m'" using True Suc.prems(6) by (auto simp: m'_def min_def)
    have y': "0 \<le> dval y'" "dval y' < 1" using ch by linarith+
    have d: "?d < 10" using Suc.prems(2,3) by (simp add: nat_less_iff floor_less_iff)
    have s: "fst (digit_loop n (len + 1) y') = pad_dec m' (nat \<lfloor>dval y' * 10 ^ m'\<rfloor>) @ replicate (n - m') (CHR ''0'')"
      by (rule Suc.IH) (use ch y' Suc.prems(5) in \<open>auto simp: m'_def\<close>)
    have "nat \<lfloor>dval y * 10 ^ m\<rfloor> = ?d * 10 ^ m' + nat \<lfloor>dval y' * 10 ^ m'\<rfloor>"
      unfolding m using ch floor_digit [OF Suc.prems(2)] by simp
    then have "pad_dec m (nat \<lfloor>dval y * 10 ^ m\<rfloor>) = c # pad_dec m' (nat \<lfloor>dval y' * 10 ^ m'\<rfloor>)"
      using pad_dec_cons [OF d frac_less_pow [OF y', of m']] ch m by simp
    moreover have "fst (digit_loop (Suc n) len y) = c # fst (digit_loop n (len + 1) y')"
      using True by (simp add: LONG_LONG_REAL_WIDTH_def cy split: prod.split)
    ultimately show ?thesis using s m by simp
  next
    case False
    then have "m = 0" using Suc.prems(6) by simp
    have "fst (digit_loop n (len + 1) y) = pad_dec 0 (nat \<lfloor>dval y * 10 ^ 0\<rfloor>) @ replicate (n - 0) (CHR ''0'')"
      by (rule Suc.IH) (use Suc.prems False in auto)
    then show ?thesis using False \<open>m = 0\<close> by (simp add: LONG_LONG_REAL_WIDTH_def case_prod_beta)
  qed
qed simp

lemma digit_loop_append:
  "digit_loop (m + n) len y = (case digit_loop m len y of (s1, l1, y1) \<Rightarrow> case digit_loop n l1 y1 of (s2, r) \<Rightarrow> (s1 @ s2, r))"
  by (induction m arbitrary: len y) (auto split: prod.splits)

lemma length_digit_loop [simp]: "length (fst (digit_loop n len y)) = n"
  by (induction n arbitrary: len y) (simp_all add: case_prod_beta)

section \<open>Counting the digits before the point\<close>

definition int_digits :: "rat \<Rightarrow> nat" where
  "int_digits v = (if v < 1 then 0 else length (nat_dec (nat \<lfloor>v\<rfloor>)))"

lemma int_digits_eq:
  assumes "v < 10 ^ k" and "k = 0 \<or> 10 ^ (k - 1) \<le> v"
  shows "int_digits v = k"
proof (cases k)
  case (Suc j)
  let ?n = "nat \<lfloor>v\<rfloor>"
  have lo: "(10 :: rat) ^ j \<le> v" using assms(2) Suc by simp
  have v1: "1 \<le> v" using lo one_le_power [of "10 :: rat" j] by linarith
  have "of_int (10 ^ j) \<le> v" using lo by simp
  then have "10 ^ j \<le> \<lfloor>v\<rfloor>" by (simp only: le_floor_iff)
  then have a: "10 ^ j \<le> ?n" by (simp add: le_nat_iff)
  have "v < of_int (10 ^ k)" using assms(1) by simp
  then have "\<lfloor>v\<rfloor> < 10 ^ k" by (simp only: floor_less_iff)
  then have b: "?n < 10 ^ k" by (simp add: nat_less_iff)
  show ?thesis using v1 length_nat_dec_ge [OF a] length_nat_dec_le [of k ?n] b Suc by (simp add: int_digits_def)
qed (use assms in \<open>simp add: int_digits_def\<close>)

lemma int_digits_bounds:
  shows "v < 10 ^ int_digits v" and "0 < int_digits v \<Longrightarrow> 10 ^ (int_digits v - 1) \<le> v"
proof -
  let ?n = "nat \<lfloor>v\<rfloor>"
  have "?n < 10 ^ length (nat_dec ?n)" using length_nat_dec_le [of "length (nat_dec ?n)" ?n] by simp
  then have "\<lfloor>v\<rfloor> < 10 ^ length (nat_dec ?n)" by (simp add: nat_less_iff)
  then have "v < of_int (10 ^ length (nat_dec ?n))" by (simp only: floor_less_iff)
  then show "v < 10 ^ int_digits v" by (simp add: int_digits_def)
  show "10 ^ (int_digits v - 1) \<le> v" if p: "0 < int_digits v"
  proof -
    have v1: "1 \<le> v" using p by (auto simp: int_digits_def split: if_splits)
    have "10 ^ (length (nat_dec ?n) - 1) \<le> ?n"
    proof (cases "length (nat_dec ?n) - 1 = 0")
      case True
      have "1 \<le> \<lfloor>v\<rfloor>" using v1 by simp
      then have "1 \<le> ?n" by linarith
      then show ?thesis using True by simp
    next
      case False
      then show ?thesis using length_nat_dec_le [of "length (nat_dec ?n) - 1" ?n] by auto
    qed
    then have "10 ^ (length (nat_dec ?n) - 1) \<le> \<lfloor>v\<rfloor>" using v1 by (simp add: le_nat_iff)
    then have "of_int (10 ^ (length (nat_dec ?n) - 1)) \<le> v" by (simp only: le_floor_iff)
    then show ?thesis using v1 by (simp add: int_digits_def)
  qed
qed

lemma dval_shift: "dval (dec_mk m (e - int k)) = dval (dec_mk m e) / 10 ^ k"
  by (simp add: dval_mk power_int_diff)

lemma before_loop_ok:
  assumes "dec_ok y" "0 \<le> dval y" "dval y < 10 ^ n" "- 1000000000 \<le> d_exp y - int n"
  shows "before_loop y b = Some (dec_mk (d_mant y) (d_exp y - int (int_digits (dval y))), b + int (int_digits (dval y)))"
  using assms
proof (induction n arbitrary: y b)
  case 0
  then have "\<not> dec_ge y (dec_of_i64 1)" by (simp add: dec_order dval_one)
  moreover have "int_digits (dval y) = 0" using 0 by (simp add: int_digits_def)
  ultimately show ?case by (subst before_loop.simps) (simp add: dec_mk_eta)
next
  case (Suc n)
  show ?case
  proof (cases "dval y < 1")
    case True
    then have "\<not> dec_ge y (dec_of_i64 1)" using Suc.prems(1) by (simp add: dec_order dval_one)
    moreover have "int_digits (dval y) = 0" using True by (simp add: int_digits_def)
    ultimately show ?thesis by (subst before_loop.simps) (simp add: dec_mk_eta)
  next
    case False
    let ?z = "dec_div10 y"
    note z = dec_scale_fields(2) [OF Suc.prems(1)] dec_scale_vals(2) [OF Suc.prems(1)]
    have y10: "dval y = 10 * dval ?z" using z(2) by simp
    have d: "int_digits (dval y) = Suc (int_digits (dval ?z))"
    proof (rule int_digits_eq)
      show "dval y < 10 ^ Suc (int_digits (dval ?z))" 
        unfolding y10 using int_digits_bounds(1) [of "dval ?z"] by simp
      show "Suc (int_digits (dval ?z)) = 0 \<or> 10 ^ (Suc (int_digits (dval ?z)) - 1) \<le> dval y"
        using int_digits_bounds(2) [of "dval ?z"] False unfolding y10
        by (cases "int_digits (dval ?z)") auto
    qed
    have "before_loop ?z (b + 1) = Some (dec_mk (d_mant ?z) (d_exp ?z - int (int_digits (dval ?z))), b + 1 + int (int_digits (dval ?z)))"
      by (rule Suc.IH) (use Suc.prems in \<open>auto simp: z dec_ok_def dval_mk dval_def power_int_diff\<close>)
    moreover have "dec_ge y (dec_of_i64 1)" using False Suc.prems(1) by (simp add: dec_order dval_one)
    ultimately show ?thesis
      by (subst before_loop.simps) (simp add: d z)
  qed
qed

end
