(* ===== verification/Numfmt.thy ===== *)
theory Numfmt
  imports Decimal
begin

text \<open>
  \<open>csrc/fmt.c\<close>, the conversions \<open>whole\<close> and \<open>fixed\<close>: error characters and padding,
  \<open>sub_whole\<close>, \<open>whole_int\<close>, \<open>sub_fixed\<close> and \<open>fixed_dec\<close>. Strings are character lists; the buffers
  the C functions allocate have the length of the list and a NUL.

  \<open>sub_fixed_ok\<close> says what the digit loops compute: the argument rounded half up at the last
  decimal. \<open>dec_small\<close> bounds mantissa and exponent by \<open>10 ^ 8\<close> digits, which keeps every exponent
  the loops reach inside the range of the casts.
\<close>

section \<open>Error characters and padding\<close>

definition error_chars :: "int \<Rightarrow> string" where
  "error_chars width = str_fill (if width = 0 then 1 else if width < 0 then nat (- width) else nat width) (CHR ''*'')"

definition a68_fmt_has_error :: "string \<Rightarrow> bool" where
  "a68_fmt_has_error s \<longleftrightarrow> CHR ''*'' \<in> set s"

definition leading_spaces :: "string \<Rightarrow> nat \<Rightarrow> string" where
  "leading_spaces s width = (if length s \<ge> width then s else replicate (width - length s) (CHR '' '') @ s)"

section \<open>Whole numbers\<close>

definition sub_whole_big :: "a68_big \<Rightarrow> int \<Rightarrow> string" where
  "sub_whole_big n width = (let s = big_to_dec n in if int (length s) > width then error_chars width else s)"

text \<open>The digits of a machine word, peeled off from the last one.\<close>

fun peel_digits :: "nat \<Rightarrow> string" where
  "peel_digits n = char_of (48 + n mod 10) # (if n div 10 = 0 then [] else peel_digits (n div 10))"

declare peel_digits.simps [simp del]

definition a68_fmt_sub_whole :: "u64 \<Rightarrow> int \<Rightarrow> string" where
  "a68_fmt_sub_whole n width =
    (let buf = peel_digits (unat n) in if int (length buf) > width then error_chars width else rev buf)"

definition a68_fmt_whole_int :: "a68_big \<Rightarrow> int \<Rightarrow> string" where
  "a68_fmt_whole_int n width =
    (let ltz = big_sign n < 0; an = big_abs n;
         len = (if width = 0 then int (big_ndigits an)
                else i64_abs width - (if ltz \<or> width > 0 then 1 else 0));
         s = sub_whole_big an len
     in if len = 0 \<or> a68_fmt_has_error s then error_chars (i64_abs width)
        else let s1 = (if ltz then str_prepend (CHR ''-'') s else if width > 0 then str_prepend (CHR ''+'') s else s)
             in if width \<noteq> 0 then leading_spaces s1 (nat (i64_abs width)) else s1)"

section \<open>Fixed-point numbers\<close>

definition a68_fmt_sub_fixed :: "a68_dec \<Rightarrow> int \<Rightarrow> int \<Rightarrow> string option" where
  "a68_fmt_sub_fixed x width after =
    (let y0 = dec_add x (dec_half (dec_ten_up (- after)))
     in Option.bind (before_loop y0 0) (\<lambda>(y, before).
       if before + after + (if after > 0 then 1 else 0) > width then Some (error_chars width)
       else case digit_loop (nat before) 0 y of (s1, len, y1) \<Rightarrow>
            case digit_loop (nat after) len y1 of (s2, _, _) \<Rightarrow>
            let str = s1 @ (if after > 0 then ''.'' else []) @ s2
            in if int (length str) > width then Some (error_chars width) else Some str))"

text \<open>\<open>fixed_dec\<close> with width 0: the width is grown until the number fits.\<close>

partial_function (option) width_loop :: "a68_dec \<Rightarrow> a68_dec \<Rightarrow> a68_dec \<Rightarrow> int \<Rightarrow> int option" where
  "width_loop z0h x z1 len =
    (if dec_gt (dec_sub (dec_add z0h x) z1) dec_zero then width_loop z0h x (dec_mul10 z1) (len + 1) else Some len)"

definition fixed_width :: "a68_dec \<Rightarrow> int \<Rightarrow> int option" where
  "fixed_width x after =
    (let len = (if after = 0 then 1 else 0)
     in map_option (\<lambda>l. l + (if after = 0 then 0 else after + 1))
          (width_loop (dec_half (dec_ten_up (- after))) x (dec_ten_up len) len))"

text \<open>The decoration of a string that holds no error: a zero before the point, the sign, blanks.\<close>

definition fixed_decorate :: "bool \<Rightarrow> a68_dec \<Rightarrow> int \<Rightarrow> int \<Rightarrow> string \<Rightarrow> string" where
  "fixed_decorate ltz x width len s =
    (let s1 = (if len > int (length s) \<and> (s = [] \<or> hd s = CHR ''.'') \<and> dec_lt x (dec_of_i64 1)
               then str_prepend (CHR ''0'') s else s);
         s2 = (if ltz then str_prepend (CHR ''-'') s1 else if width > 0 then str_prepend (CHR ''+'') s1 else s1)
     in if width \<noteq> 0 then leading_spaces s2 (nat (i64_abs width)) else s2)"

text \<open>The outer loop retries with one decimal less.\<close>

partial_function (option) a68_fmt_fixed_dec :: "bool \<Rightarrow> a68_dec \<Rightarrow> int \<Rightarrow> int \<Rightarrow> string option" where
  "a68_fmt_fixed_dec ltz x width after =
    (let len0 = i64_abs width - (if ltz \<or> width > 0 then 1 else 0)
     in if \<not> (after \<ge> 0 \<and> (len0 > after \<or> width = 0)) then Some (error_chars width)
        else Option.bind (if width = 0 then fixed_width x after else Some len0) (\<lambda>len.
             Option.bind (a68_fmt_sub_fixed x len after) (\<lambda>s.
               if \<not> a68_fmt_has_error s then Some (fixed_decorate ltz x width len s)
               else if after > 0 then a68_fmt_fixed_dec ltz x width (after - 1)
               else Some (error_chars width))))"

section \<open>Strings: lengths and errors\<close>

lemma has_error_simps [simp]:
  "a68_fmt_has_error (error_chars w)"
  "\<not> a68_fmt_has_error []"
  by (simp_all add: a68_fmt_has_error_def error_chars_def str_fill_def)

lemma length_error_chars: "length (error_chars w) = (if w = 0 then 1 else nat \<bar>w\<bar>)"
  by (simp add: error_chars_def str_fill_def)

lemma length_leading_spaces: "length (leading_spaces s w) = max w (length s)"
  by (simp add: leading_spaces_def)

lemma i64_abs_eq: "- (2 ^ 63) < w \<Longrightarrow> i64_abs w = \<bar>w\<bar>"
  by (simp add: i64_abs_def)

lemma peel_digits_eq: "rev (peel_digits n) = nat_dec n"
proof (induction n rule: nat_dec.induct)
  case (1 n)
  show ?case
  proof (cases "n < 10")
    case True
    then show ?thesis by (simp add: peel_digits.simps [of n] nat_dec_small digit_char_def)
  next
    case False
    then have "n div 10 \<noteq> 0" by (simp add: div_eq_0_iff)
    then show ?thesis using False 1 by (simp add: peel_digits.simps [of n] nat_dec_step digit_char_def)
  qed
qed

lemma sub_whole_eq:
  "a68_fmt_sub_whole n width = (if int (length (nat_dec (unat n))) > width then error_chars width else nat_dec (unat n))"
  using peel_digits_eq [of "unat n"] by (metis a68_fmt_sub_whole_def length_rev)

lemma no_error_nat_dec [simp]: "\<not> a68_fmt_has_error (nat_dec n)"
  by (simp add: a68_fmt_has_error_def)

lemma big_to_dec_abs: "big_wf n \<Longrightarrow> big_to_dec (big_abs n) = nat_dec (nat \<bar>big_val n\<bar>)"
  using big_to_dec_eq [of "big_abs n"] by (simp add: big_abs_val)

lemma whole_int_eq:
  assumes "big_wf n" and "- (2 ^ 63) < width"
  defines "d \<equiv> nat_dec (nat \<bar>big_val n\<bar>)"
  defines "s \<equiv> (if big_val n < 0 then ''-'' else if width > 0 then ''+'' else [])"
  shows "a68_fmt_whole_int n width =
    (if width = 0 then s @ d
     else if int (length s + length d) \<le> \<bar>width\<bar> then leading_spaces (s @ d) (nat \<bar>width\<bar>)
     else error_chars width)"
proof -
  have sg: "big_sign n < 0 \<longleftrightarrow> big_val n < 0" using assms(1) by (simp add: big_sign_val)
  have nd: "big_ndigits (big_abs n) = length d"
    using assms(1) by (simp add: big_ndigits_eq big_abs_val d_def)
  have td: "big_to_dec (big_abs n) = d" using assms(1) by (simp add: big_to_dec_abs d_def)
  have d0: "0 < length d" by (simp add: d_def)
  have er: "\<not> a68_fmt_has_error d" by (simp add: d_def)
  have ec: "error_chars \<bar>width\<bar> = error_chars width" by (simp add: error_chars_def)
  show ?thesis
    using d0 er
    by (auto simp: a68_fmt_whole_int_def Let_def sub_whole_big_def sg nd td i64_abs_eq [OF assms(2)] ec s_def str_prepend_def)
qed

section \<open>Rounding\<close>

text \<open>
  The bound on the number of digits, kept folded: the exponents the loops reach stay below
  \<open>10 ^ 9\<close> (\<open>dec_ok\<close>) for mantissas, exponents and precisions of at most \<open>10 ^ 8\<close> digits.
\<close>

definition DIGIT_BOUND :: nat where "DIGIT_BOUND = 100000000"

definition dec_small :: "a68_dec \<Rightarrow> bool" where
  "dec_small x \<longleftrightarrow> big_wf (d_mant x) \<and> 0 \<le> big_val (d_mant x) \<and> big_val (d_mant x) < 10 ^ DIGIT_BOUND
     \<and> \<bar>d_exp x\<bar> \<le> int DIGIT_BOUND"

lemma DIGIT_BOUND_int: "int DIGIT_BOUND = 100000000"
  by (simp add: DIGIT_BOUND_def)

text \<open>The argument in units of the last decimal, rounded half up.\<close>

definition rounded :: "rat \<Rightarrow> nat \<Rightarrow> nat" where
  "rounded v a = nat \<lfloor>v * 10 ^ a + 1 / 2\<rfloor>"

definition ndigits :: "nat \<Rightarrow> nat" where
  "ndigits n = (if n = 0 then 0 else length (nat_dec n))"

lemma floor_div_nat:
  assumes "0 < k"
  shows "\<lfloor>(r :: rat) / of_nat k\<rfloor> = \<lfloor>r\<rfloor> div int k"
proof (rule floor_unique)
  have d: "\<lfloor>r\<rfloor> = \<lfloor>r\<rfloor> div int k * int k + \<lfloor>r\<rfloor> mod int k" by simp
  have m: "0 \<le> \<lfloor>r\<rfloor> mod int k" "\<lfloor>r\<rfloor> mod int k < int k" using assms by simp_all
  have "\<lfloor>r\<rfloor> div int k * int k \<le> \<lfloor>r\<rfloor>" using d m by linarith
  then have "of_int (\<lfloor>r\<rfloor> div int k * int k) \<le> r" by (simp only: le_floor_iff)
  then show "of_int (\<lfloor>r\<rfloor> div int k) \<le> r / of_nat k" using assms by (simp add: field_simps)
  have "(\<lfloor>r\<rfloor> div int k + 1) * int k = \<lfloor>r\<rfloor> div int k * int k + int k" by (simp only: distrib_right mult_1_left)
  then have "\<lfloor>r\<rfloor> < (\<lfloor>r\<rfloor> div int k + 1) * int k" using d m by linarith
  then have "r < of_int ((\<lfloor>r\<rfloor> div int k + 1) * int k)" by (simp only: floor_less_iff)
  then show "r / of_nat k < of_int (\<lfloor>r\<rfloor> div int k) + 1" using assms by (simp add: field_simps)
qed

lemma floor_div_pow: "0 \<le> (r :: rat) \<Longrightarrow> nat \<lfloor>r / 10 ^ k\<rfloor> = nat \<lfloor>r\<rfloor> div 10 ^ k"
  using floor_div_nat [of "10 ^ k" r] by (simp add: nat_div_distrib' nat_power_eq)

lemma int_digits_floor: "0 \<le> v \<Longrightarrow> int_digits v = ndigits (nat \<lfloor>v\<rfloor>)"
proof (cases "v < 1")
  case True
  then have "\<lfloor>v\<rfloor> < 1" by (simp add: floor_less_iff)
  then show ?thesis using True by (simp add: int_digits_def ndigits_def)
next
  case False
  then have "1 \<le> \<lfloor>v\<rfloor>" by (simp add: le_floor_iff)
  then have "nat \<lfloor>v\<rfloor> \<noteq> 0" by linarith
  then show ?thesis using False by (simp only: int_digits_def ndigits_def if_False)
qed

lemma dec_small_ok: "dec_small x \<Longrightarrow> dec_ok x \<and> 0 \<le> dval x"
  by (simp add: dec_small_def dec_ok_def dval_sign DIGIT_BOUND_int)

lemma dec_small_less: "dec_small x \<Longrightarrow> dval x < 10 ^ (2 * DIGIT_BOUND)"
proof -
  assume x: "dec_small x"
  have "of_int (big_val (d_mant x)) < (of_int (10 ^ DIGIT_BOUND) :: rat)" using x by (simp only: dec_small_def of_int_less_iff)
  moreover have "(10 :: rat) powi d_exp x \<le> 10 powi int DIGIT_BOUND"
    using x by (intro power_int_increasing) (auto simp: dec_small_def)
  moreover have "0 \<le> (of_int (big_val (d_mant x)) :: rat)" using x by (simp add: dec_small_def)
  ultimately have "dval x < of_int (10 ^ DIGIT_BOUND) * 10 powi int DIGIT_BOUND"
    unfolding dval_def by (intro mult_less_le_imp_less) auto
  then show ?thesis by (simp add: mult_2 power_add)
qed

lemma powi_neg: "(10 :: rat) powi (- int a) = 1 / 10 ^ a"
  by (simp add: power_int_minus_divide)

lemma sub_fixed_ok:
  assumes x: "dec_small x" and a: "a \<le> DIGIT_BOUND"
  defines "N \<equiv> rounded (dval x) a"
  defines "b \<equiv> ndigits (N div 10 ^ a)"
  defines "D \<equiv> digits70 (b + a) N"
  shows "a68_fmt_sub_fixed x width (int a) = Some
    (if int (b + a + (if a > 0 then 1 else 0)) > width then error_chars width
     else take b D @ (if a > 0 then ''.'' else []) @ drop b D)"
proof -
  note ok = dec_small_ok [OF x]
  have a8: "int a \<le> 100000000" using a DIGIT_BOUND_int by linarith
  have tu: "dec_ok (dec_ten_up (- int a))" using a8 by (simp add: dec_ok_ten_up)
  define h where "h = dec_half (dec_ten_up (- int a))"
  have h: "dec_ok h" "dval h = 1 / 2 / 10 ^ a" "d_exp h = - int a - 1"
    using a8 dec_scale_fields(3,4) [OF tu] dec_scale_vals(3) [OF tu]
    by (simp_all add: h_def dec_ok_def powi_neg)
  define y0 where "y0 = dec_add x h"
  have y0: "dec_ok y0" "dval y0 = dval x + 1 / 2 / 10 ^ a" "d_exp y0 = min (d_exp x) (- int a - 1)"
    using dec_add_ok [of x h] ok h by (simp_all add: y0_def)
  have y00: "0 \<le> dval y0" using ok y0(2) by simp
  have up: "dval y0 * 10 ^ a = dval x * 10 ^ a + 1 / 2" using y0(2) by (simp add: field_simps)
  have N: "nat \<lfloor>dval y0 * 10 ^ a\<rfloor> = N" by (simp add: up N_def rounded_def)
  have fl: "nat \<lfloor>dval y0\<rfloor> = N div 10 ^ a"
    using floor_div_pow [of "dval y0 * 10 ^ a" a] y00 N by simp
  have b: "int_digits (dval y0) = b" using int_digits_floor [OF y00] fl by (simp add: b_def)
  have less: "dval y0 < 10 ^ (2 * DIGIT_BOUND + 1)"
  proof -
    have "1 / 2 / 10 ^ a \<le> (1 :: rat)" 
    proof -
      have "1 \<le> (10 :: rat) ^ a" by simp
      then have "1 \<le> 2 * (10 :: rat) ^ a" by linarith
      then show ?thesis by (simp add: divide_le_eq)
    qed
    moreover have "(1 :: rat) \<le> 10 ^ (2 * DIGIT_BOUND)" by simp
    moreover have "(10 :: rat) ^ (2 * DIGIT_BOUND + 1) = 10 * 10 ^ (2 * DIGIT_BOUND)" by simp
    ultimately show ?thesis unfolding y0(2) using dec_small_less [OF x] by linarith
  qed
  have bl: "before_loop y0 0 = Some (dec_mk (d_mant y0) (d_exp y0 - int b), int b)"
  proof -
    have "- 1000000000 \<le> d_exp y0 - int (2 * DIGIT_BOUND + 1)"
      using x a8 y0(3) DIGIT_BOUND_int by (auto simp: dec_small_def min_def)
    then show ?thesis using before_loop_ok [OF y0(1) y00 less, of 0] b by simp
  qed
  define y where "y = dec_mk (d_mant y0) (d_exp y0 - int b)"
  have y: "dec_ok y" "0 \<le> dval y" "dval y < 1" "d_exp y < 1000000000"
  proof -
    have bu: "b \<le> 2 * DIGIT_BOUND + 1"
    proof (rule ccontr)
      assume "\<not> ?thesis"
      then have "2 * DIGIT_BOUND + 1 \<le> b - 1" "0 < b" by simp_all
      then have "(10 :: rat) ^ (2 * DIGIT_BOUND + 1) \<le> 10 ^ (b - 1)" by (simp only: power_increasing_iff)
      then show False using int_digits_bounds(2) [of "dval y0"] \<open>0 < b\<close> less by (simp add: b)
    qed
    show "dec_ok y" using y0(1,3) bu x a8 DIGIT_BOUND_int by (auto simp: y_def dec_ok_def dec_small_def)
    have v: "dval y = dval y0 / 10 ^ b" by (simp add: y_def dval_shift dec_mk_eta)
    show "0 \<le> dval y" "dval y < 1" using int_digits_bounds(1) [of "dval y0"] y00 by (simp_all add: v b)
    show "d_exp y < 1000000000" using y0(3) by (simp add: y_def)
  qed
  obtain s1 l1 y1 where l1: "digit_loop b 0 y = (s1, l1, y1)" by (metis prod_cases3)
  obtain s2 l2 y2 where l2: "digit_loop a l1 y1 = (s2, l2, y2)" by (metis prod_cases3)
  have len: "length s1 = b" "length s2 = a"
    using length_digit_loop [of b 0 y] length_digit_loop [of a l1 y1] l1 l2 by simp_all
  have all: "s1 @ s2 = D"
  proof -
    define m where "m = min (b + a) 70"
    have m: "m \<le> b + a" by (simp add: m_def)
    have "dval y * 10 ^ m = dval y0 * 10 ^ a / 10 ^ (b + a - m)"
    proof -
      have "(10 :: rat) ^ (b + a) = 10 ^ (b + a - m) * 10 ^ m" using m by (simp add: power_add [symmetric])
      then show ?thesis by (simp add: y_def dval_shift dec_mk_eta field_simps power_add)
    qed
    then have fm: "nat \<lfloor>dval y * 10 ^ m\<rfloor> = N div 10 ^ (b + a - m)"
      using floor_div_pow [of "dval y0 * 10 ^ a" "b + a - m"] y00 N by simp
    have "s1 @ s2 = fst (digit_loop (b + a) 0 y)" by (simp add: digit_loop_append l1 l2)
    also have "\<dots> = pad_dec m (nat \<lfloor>dval y * 10 ^ m\<rfloor>) @ replicate (b + a - m) (CHR ''0'')"
      by (rule digit_loop_ok [OF y]) (simp_all add: m_def)
    also have "\<dots> = D" by (simp add: fm D_def digits70_def Let_def m_def [symmetric])
    finally show ?thesis .
  qed
  then have "s1 = take b D" "s2 = drop b D" using len by (metis append_eq_conv_conj)+
  then show ?thesis
    using len bl by (simp add: a68_fmt_sub_fixed_def Let_def h_def [symmetric] y0_def [symmetric] y_def [symmetric] l1 l2)
qed

section \<open>What \<open>fixed\<close> writes\<close>

definition fixed_fits :: "rat \<Rightarrow> nat \<Rightarrow> int \<Rightarrow> bool" where
  "fixed_fits v a len \<longleftrightarrow> int (ndigits (rounded v a div 10 ^ a) + a + (if a > 0 then 1 else 0)) \<le> len"

definition fixed_text :: "rat \<Rightarrow> nat \<Rightarrow> string" where
  "fixed_text v a = (let N = rounded v a; b = ndigits (N div 10 ^ a); D = digits70 (b + a) N
     in take b D @ (if a > 0 then ''.'' else []) @ drop b D)"

lemma length_fixed_text: "length (fixed_text v a) = ndigits (rounded v a div 10 ^ a) + a + (if a > 0 then 1 else 0)"
  by (simp add: fixed_text_def Let_def)

lemma fixed_fits_length: "fixed_fits v a len \<longleftrightarrow> int (length (fixed_text v a)) \<le> len"
  by (simp add: fixed_fits_def length_fixed_text)

lemma no_error_fixed_text [simp]: "\<not> a68_fmt_has_error (fixed_text v a)"
  by (auto simp: a68_fmt_has_error_def fixed_text_def Let_def dest: in_set_takeD in_set_dropD)

lemma sub_fixed_eq:
  "dec_small x \<Longrightarrow> a \<le> DIGIT_BOUND \<Longrightarrow> a68_fmt_sub_fixed x len (int a) =
   Some (if fixed_fits (dval x) a len then fixed_text (dval x) a else error_chars len)"
  using sub_fixed_ok [of x a len] by (simp add: fixed_fits_def fixed_text_def Let_def not_less)

abbreviation sign_len :: "bool \<Rightarrow> int \<Rightarrow> int" where
  "sign_len ltz width \<equiv> (if ltz \<or> width > 0 then 1 else 0)"

lemma fixed_dec_step:
  assumes "dec_small x" "a \<le> DIGIT_BOUND" "width \<noteq> 0"
  shows "a68_fmt_fixed_dec ltz x width (int a) =
    (let len = i64_abs width - sign_len ltz width
     in if len \<le> int a then Some (error_chars width)
        else if fixed_fits (dval x) a len then Some (fixed_decorate ltz x width len (fixed_text (dval x) a))
        else if a > 0 then a68_fmt_fixed_dec ltz x width (int (a - 1)) else Some (error_chars width))"
proof -
  have "int a - 1 = int (a - 1)" if "0 < a" using that by simp
  then show ?thesis
    using assms(3) by (subst a68_fmt_fixed_dec.simps) (simp add: Let_def sub_fixed_eq [OF assms(1,2)] not_less)
qed

lemma fixed_dec_cases:
  fixes ltz :: bool
  assumes x: "dec_small x" and a: "a \<le> DIGIT_BOUND" and w: "width \<noteq> 0"
  defines "len \<equiv> i64_abs width - sign_len ltz width"
  shows "a68_fmt_fixed_dec ltz x width (int a) =
    Some (if len > int a \<and> (\<exists>k \<le> a. fixed_fits (dval x) k len)
          then fixed_decorate ltz x width len (fixed_text (dval x) (GREATEST k. k \<le> a \<and> fixed_fits (dval x) k len))
          else error_chars width)"
  using a
proof (induction a)
  case 0
  have "(GREATEST k. k \<le> 0 \<and> fixed_fits (dval x) k len) = 0" if "fixed_fits (dval x) 0 len"
    by (rule Greatest_equality) (use that in auto)
  then show ?case using fixed_dec_step [OF x _ w, of 0 ltz] by (auto simp: Let_def len_def [symmetric])
next
  case (Suc a)
  show ?case
  proof (cases "fixed_fits (dval x) (Suc a) len")
    case True
    then have "(GREATEST k. k \<le> Suc a \<and> fixed_fits (dval x) k len) = Suc a"
      by (intro Greatest_equality) auto
    then show ?thesis using True fixed_dec_step [OF x Suc.prems w, of ltz]
      by (auto simp: Let_def len_def [symmetric])
  next
    case False
    then have e: "(k \<le> Suc a \<and> fixed_fits (dval x) k len) \<longleftrightarrow> (k \<le> a \<and> fixed_fits (dval x) k len)" for k
      by (auto simp: le_Suc_eq)
    have ex: "(\<exists>k \<le> Suc a. fixed_fits (dval x) k len) \<longleftrightarrow> (\<exists>k \<le> a. fixed_fits (dval x) k len)"
      using e by blast
    have st: "a68_fmt_fixed_dec ltz x width (int (Suc a)) =
        (if len \<le> int (Suc a) then Some (error_chars width) else a68_fmt_fixed_dec ltz x width (int a))"
      using False fixed_dec_step [OF x Suc.prems w, of ltz] by (simp add: Let_def len_def [symmetric])
    show ?thesis
      unfolding st ex e using Suc.IH Suc.prems by auto
  qed
qed

lemma fixed_dec_negative: "after < 0 \<Longrightarrow> a68_fmt_fixed_dec ltz x width after = Some (error_chars width)"
  by (subst a68_fmt_fixed_dec.simps) simp

lemma length_fixed_decorate:
  assumes "width \<noteq> 0" "- (2 ^ 63) < width" "int (length s) \<le> len" "len = i64_abs width - sign_len ltz width"
  shows "length (fixed_decorate ltz x width len s) = nat \<bar>width\<bar>"
  using assms
  by (auto simp: fixed_decorate_def Let_def length_leading_spaces i64_abs_eq str_prepend_def max_def split: if_splits)

text \<open>Width 0: the loop that grows the width stops, and the result fits unless rounding carries into a power of ten.\<close>

lemma width_loop_ok:
  assumes "dec_ok h" "dec_ok x" "dval h + dval x \<le> 10 ^ (k + n)" "k + n \<le> 1000000000"
  shows "\<exists>j \<le> n. width_loop h x (dec_ten_up (int k)) (int k) = Some (int (k + j)) \<and>
    dval h + dval x \<le> 10 ^ (k + j) \<and> (j = 0 \<or> 10 ^ (k + j - 1) < dval h + dval x)"
  using assms(3,4)
proof (induction n arbitrary: k)
  case 0
  have g: "dec_gt (dec_sub (dec_add h x) (dec_ten_up (int k))) dec_zero \<longleftrightarrow> dval h + dval x > 10 ^ k" if "k \<le> 1000000000" for k
    using dec_sub_ok [OF dec_add_ok(1) [OF assms(1,2)], of "dec_ten_up (int k)"] dec_add_ok(2) [OF assms(1,2)] that
    by (simp add: dec_order(3) dec_ok_ten_up)
  then have "\<not> dec_gt (dec_sub (dec_add h x) (dec_ten_up (int k))) dec_zero" using 0 g [of k] by simp
  then show ?case using 0 by (subst width_loop.simps) simp
next
  case (Suc n)
  have g: "dec_gt (dec_sub (dec_add h x) (dec_ten_up (int k))) dec_zero \<longleftrightarrow> dval h + dval x > 10 ^ k"
    using dec_sub_ok [OF dec_add_ok(1) [OF assms(1,2)], of "dec_ten_up (int k)"] dec_add_ok(2) [OF assms(1,2)] Suc.prems(2)
    by (simp add: dec_order(3) dec_ok_ten_up)
  have m: "dec_mul10 (dec_ten_up (int k)) = dec_ten_up (int (Suc k))"
    using Suc.prems(2) by (simp add: dec_scale_fields dec_ok_ten_up) (simp add: dec_ten_up_def add.commute)
  show ?case
  proof (cases "dval h + dval x > 10 ^ k")
    case True
    have IH: "\<exists>j \<le> n. width_loop h x (dec_ten_up (int (Suc k))) (int (Suc k)) = Some (int (Suc k + j)) \<and>
      dval h + dval x \<le> 10 ^ (Suc k + j) \<and> (j = 0 \<or> 10 ^ (Suc k + j - 1) < dval h + dval x)"
      by (rule Suc.IH) (use Suc.prems in simp_all)
    then obtain j where j: "j \<le> n" "width_loop h x (dec_ten_up (int (Suc k))) (int (Suc k)) = Some (int (Suc k + j))"
      "dval h + dval x \<le> 10 ^ (Suc k + j)" "j = 0 \<or> 10 ^ (Suc k + j - 1) < dval h + dval x" by blast
    have st: "width_loop h x (dec_ten_up (int k)) (int k) = width_loop h x (dec_ten_up (int (Suc k))) (int (Suc k))"
      using True g m by (subst width_loop.simps) (simp add: add.commute)
    show ?thesis by (rule exI [of _ "Suc j"]) (use j True in \<open>auto simp: st\<close>)
  next
    case False
    then show ?thesis using g by (intro exI [of _ 0]) (subst width_loop.simps, simp)
  qed
qed

abbreviation half_up :: "a68_dec \<Rightarrow> nat \<Rightarrow> rat" where
  "half_up x a \<equiv> dval x + 1 / 2 / 10 ^ a"

lemma half_ulp:
  assumes "a \<le> DIGIT_BOUND"
  shows "dec_ok (dec_half (dec_ten_up (- int a)))" and "dval (dec_half (dec_ten_up (- int a))) = 1 / 2 / 10 ^ a"
proof -
  have a8: "int a \<le> 100000000" using assms DIGIT_BOUND_int by linarith
  then have tu: "dec_ok (dec_ten_up (- int a))" by (simp add: dec_ok_ten_up)
  show "dec_ok (dec_half (dec_ten_up (- int a)))" and "dval (dec_half (dec_ten_up (- int a))) = 1 / 2 / 10 ^ a"
    using a8 dec_scale_fields(3,4) [OF tu] dec_scale_vals(3) [OF tu] by (simp_all add: dec_ok_def powi_neg)
qed

lemma half_up_less: "dec_small x \<Longrightarrow> half_up x a \<le> 10 ^ (k + (2 * DIGIT_BOUND + 1))"
proof -
  assume x: "dec_small x"
  have "1 \<le> (10 :: rat) ^ a" by simp
  then have "1 \<le> 2 * (10 :: rat) ^ a" by linarith
  then have "1 / 2 / 10 ^ a \<le> (1 :: rat)" by (simp add: divide_le_eq)
  moreover have "(1 :: rat) \<le> 10 ^ (2 * DIGIT_BOUND)" by simp
  moreover have "(10 :: rat) ^ (2 * DIGIT_BOUND + 1) = 10 * 10 ^ (2 * DIGIT_BOUND)" by simp
  moreover have "(10 :: rat) ^ (2 * DIGIT_BOUND + 1) \<le> 10 ^ (k + (2 * DIGIT_BOUND + 1))"
    by (rule power_increasing) simp_all
  ultimately show ?thesis using dec_small_less [OF x] by linarith
qed

lemma fixed_width_ok:
  assumes x: "dec_small x" and a: "a \<le> DIGIT_BOUND"
  defines "k0 \<equiv> (if a = 0 then 1 else 0 :: nat)"
  shows "\<exists>k \<ge> k0. fixed_width x (int a) = Some (int (k + (if a = 0 then 0 else a + 1))) \<and>
    half_up x a \<le> 10 ^ k \<and> (k = k0 \<or> 10 ^ (k - 1) < half_up x a)"
proof -
  define h where "h = dec_half (dec_ten_up (- int a))"
  have h: "dec_ok h" "dval h = 1 / 2 / 10 ^ a" using half_ulp [OF a] by (simp_all add: h_def)
  have le: "dval h + dval x \<le> 10 ^ (k0 + (2 * DIGIT_BOUND + 1))"
    unfolding h(2) using half_up_less [OF x, of a k0] by linarith
  have b: "k0 + (2 * DIGIT_BOUND + 1) \<le> 1000000000" by (simp add: k0_def DIGIT_BOUND_def)
  obtain j where j: "width_loop h x (dec_ten_up (int k0)) (int k0) = Some (int (k0 + j))"
      "dval h + dval x \<le> 10 ^ (k0 + j)" "j = 0 \<or> 10 ^ (k0 + j - 1) < dval h + dval x"
    using width_loop_ok [OF h(1) conjunct1 [OF dec_small_ok [OF x]] le b] by blast
  have k0: "(if int a = 0 then 1 else 0 :: int) = int k0" by (simp add: k0_def)
  have w: "fixed_width x (int a) = Some (int (k0 + j + (if a = 0 then 0 else a + 1)))"
    unfolding fixed_width_def Let_def k0 h_def [symmetric] j(1) by simp
  show ?thesis
    by (rule exI [of _ "k0 + j"]) (use w j(2,3) in \<open>auto simp: h(2) add.commute\<close>)
qed

lemma half_up_floor: "dec_small x \<Longrightarrow> rounded (dval x) a div 10 ^ a = nat \<lfloor>half_up x a\<rfloor>"
proof -
  assume x: "dec_small x"
  then have "0 \<le> dval x * 10 ^ a + 1 / 2" using dec_small_ok [OF x] by simp
  have e: "half_up x a = (dval x * 10 ^ a + 1 / 2) / 10 ^ a" by (simp add: field_simps)
  show ?thesis unfolding e rounded_def by (rule floor_div_pow [symmetric]) fact
qed

lemma fixed_text_hd:
  assumes "fixed_text v a \<noteq> []" and "hd (fixed_text v a) = CHR ''.''"
  shows "ndigits (rounded v a div 10 ^ a) = 0"
proof (rule ccontr)
  let ?b = "ndigits (rounded v a div 10 ^ a)"
  let ?D = "digits70 (?b + a) (rounded v a)"
  assume b: "?b \<noteq> 0"
  then have D: "?D \<noteq> []" using length_digits70 [of "?b + a" "rounded v a"] by (metis add_is_0 list.size(3))
  have "hd (fixed_text v a) = hd ?D" using b D by (simp add: fixed_text_def Let_def hd_append)
  moreover have "is_digit (hd ?D)"
  proof -
    have "is_digit (CHR ''0'')" by (simp add: is_digit_def)
    then show ?thesis using hd_in_set [OF D] by (auto simp: digits70_def Let_def dest: pad_dec_digits)
  qed
  ultimately have "is_digit (CHR ''.'')" using assms(2) by simp
  then show False by (simp add: is_digit_def)
qed

lemma ndigits_le: "ndigits n \<le> k \<longleftrightarrow> n < 10 ^ k"
  by (cases "k = 0") (auto simp: ndigits_def length_nat_dec_le)

lemma fixed_zero_fits:
  assumes "dec_small x" and "half_up x a \<le> 10 ^ k"
  shows "fixed_fits (dval x) a (int (k + (if a = 0 then 0 else a + 1))) \<longleftrightarrow> half_up x a \<noteq> 10 ^ k"
proof -
  have "fixed_fits (dval x) a (int (k + (if a = 0 then 0 else a + 1))) \<longleftrightarrow> nat \<lfloor>half_up x a\<rfloor> < 10 ^ k"
    by (auto simp: fixed_fits_def half_up_floor [OF assms(1)] ndigits_le [symmetric])
  also have "\<dots> \<longleftrightarrow> \<lfloor>half_up x a\<rfloor> < 10 ^ k" by (simp add: nat_less_iff)
  also have "\<dots> \<longleftrightarrow> half_up x a < of_int (10 ^ k)" by (simp only: floor_less_iff)
  finally show ?thesis using assms(2) by auto
qed

lemma fixed_zero_step:
  assumes x: "dec_small x" and a: "a \<le> DIGIT_BOUND"
  shows "a68_fmt_fixed_dec ltz x 0 (int a) =
    (if \<exists>k \<ge> (if a = 0 then 1 else 0). half_up x a = 10 ^ k
     then (if a > 0 then a68_fmt_fixed_dec ltz x 0 (int (a - 1)) else Some ''*'')
     else Some ((if ltz then ''-'' else []) @ (if fixed_text (dval x) a = [] then ''0'' else fixed_text (dval x) a)))"
proof -
  define k0 where "k0 = (if a = 0 then 1 else 0 :: nat)"
  obtain k where k: "k0 \<le> k" "fixed_width x (int a) = Some (int (k + (if a = 0 then 0 else a + 1)))"
      "half_up x a \<le> 10 ^ k" "k = k0 \<or> 10 ^ (k - 1) < half_up x a"
    using fixed_width_ok [OF x a] unfolding k0_def by blast
  define len where "len = int (k + (if a = 0 then 0 else a + 1))"
  have fw: "fixed_width x (int a) = Some len" by (simp add: k(2) len_def)
  have ex: "(\<exists>k \<ge> (if a = 0 then 1 else 0). half_up x a = 10 ^ k) \<longleftrightarrow> half_up x a = 10 ^ k"
  proof
    assume "\<exists>k \<ge> (if a = 0 then 1 else 0). half_up x a = 10 ^ k"
    then obtain j where j: "k0 \<le> j" "half_up x a = 10 ^ j" by (auto simp: k0_def)
    have "j \<le> k" using k(3) unfolding j(2) by simp
    moreover have "k \<le> j"
    proof (cases "k = k0")
      case False
      then have "(10 :: rat) ^ (k - 1) < 10 ^ j" using k(4) unfolding j(2) by simp
      then show ?thesis by simp
    qed (use j in simp)
    ultimately show "half_up x a = 10 ^ k" using j(2) by simp
  qed (use k(1) in \<open>auto simp: k0_def\<close>)
  have sf: "a68_fmt_sub_fixed x len (int a) = Some (if half_up x a \<noteq> 10 ^ k then fixed_text (dval x) a else error_chars len)"
    using sub_fixed_eq [OF x a] fixed_zero_fits [OF x k(3)] by (simp add: len_def)
  have deco: "fixed_decorate ltz x 0 len (fixed_text (dval x) a) =
      (if ltz then ''-'' else []) @ (if fixed_text (dval x) a = [] then ''0'' else fixed_text (dval x) a)"
    if ne: "half_up x a \<noteq> 10 ^ k"
  proof -
    let ?s = "fixed_text (dval x) a"
    have small: "half_up x a < 1" if "ndigits (rounded (dval x) a div 10 ^ a) = 0"
    proof -
      have "nat \<lfloor>half_up x a\<rfloor> = 0"
        using that half_up_floor [OF x, of a] by (simp add: ndigits_def split: if_splits)
      then show ?thesis by (simp add: floor_less_iff)
    qed
    have k0: "k = k0" if "half_up x a < 1"
    proof (rule ccontr)
      assume "k \<noteq> k0"
      then have "(10 :: rat) ^ (k - 1) < 1" using k(4) that by linarith
      then show False using one_le_power [of "10 :: rat" "k - 1"] by linarith
    qed
    have "int (length ?s) < len \<and> (?s = [] \<or> hd ?s = CHR ''.'') \<and> dec_lt x (dec_of_i64 1) \<longleftrightarrow> ?s = []"
    proof (cases "?s = []")
      case True
      then have a0: "a = 0" and b0: "ndigits (rounded (dval x) a div 10 ^ a) = 0"
        using length_fixed_text [of "dval x" a] by (auto split: if_splits)
      have "0 < (1 :: rat) / 2 / 10 ^ a" by simp
      then have "dval x < 1" using small [OF b0] by linarith
      then have "dec_lt x (dec_of_i64 1)" using dec_small_ok [OF x] by (simp add: dec_order dval_one)
      then show ?thesis using True a0 k(1) by (simp add: len_def k0_def)
    next
      case False
      have "\<not> (hd ?s = CHR ''.'' \<and> int (length ?s) < len)"
      proof
        assume h: "hd ?s = CHR ''.'' \<and> int (length ?s) < len"
        then have b0: "ndigits (rounded (dval x) a div 10 ^ a) = 0" using fixed_text_hd [OF False] by blast
        then have "a \<noteq> 0" using False length_fixed_text [of "dval x" a] by (intro notI) simp
        then have "k = 0" using k0 [OF small [OF b0]] by (simp add: k0_def)
        then show False using h b0 \<open>a \<noteq> 0\<close> by (simp add: len_def length_fixed_text)
      qed
      then show ?thesis using False by blast
    qed
    then show ?thesis by (auto simp: fixed_decorate_def str_prepend_def Let_def)
  qed
  have err: "error_chars 0 = ''*''" by (simp add: error_chars_def str_fill_def)
  have st: "a68_fmt_fixed_dec ltz x 0 (int a) =
      (if half_up x a \<noteq> 10 ^ k then Some (fixed_decorate ltz x 0 len (fixed_text (dval x) a))
       else if 0 < a then a68_fmt_fixed_dec ltz x 0 (int a - 1) else Some ''*'')"
    by (subst a68_fmt_fixed_dec.simps) (simp add: Let_def fw sf err)
  show ?thesis
  proof (cases "half_up x a = 10 ^ k")
    case True
    show ?thesis
    proof (cases "0 < a")
      case pos: True
      then have a1: "int a - 1 = int (a - 1)" by simp
      show ?thesis unfolding ex st a1 using True pos by (simp del: of_nat_diff)
    qed (unfold ex st, use True in simp)
  qed (unfold ex st, use deco in simp)
qed

lemma rounded_close: "0 \<le> v \<Longrightarrow> \<bar>of_nat (rounded v a) / 10 ^ a - v\<bar> \<le> 1 / 2 / 10 ^ a"
proof -
  assume v: "0 \<le> v"
  let ?f = "\<lfloor>v * 10 ^ a + 1 / 2\<rfloor>"
  have "0 \<le> ?f" using v by simp
  then have e: "of_nat (rounded v a) = (of_int ?f :: rat)" by (simp add: rounded_def)
  have "of_int ?f \<le> v * 10 ^ a + 1 / 2" "v * 10 ^ a + 1 / 2 < of_int ?f + 1" by linarith+
  then have "\<bar>of_int ?f - v * 10 ^ a\<bar> \<le> 1 / 2" by linarith
  then have "\<bar>of_int ?f - v * 10 ^ a\<bar> / 10 ^ a \<le> 1 / 2 / 10 ^ a" by (rule divide_right_mono) simp
  moreover have "\<bar>of_int ?f - v * 10 ^ a\<bar> / 10 ^ a = \<bar>of_int ?f / 10 ^ a - v\<bar>"
  proof -
    have "(of_int ?f - v * 10 ^ a) / 10 ^ a = of_int ?f / 10 ^ a - v" by (simp add: field_simps)
    then show ?thesis by (metis abs_divide abs_numeral power_abs)
  qed
  ultimately show ?thesis unfolding e by simp
qed

lemma fixed_text_parts:
  assumes "ndigits (rounded v a div 10 ^ a) + a \<le> 70"
  shows "fixed_text v a = (if rounded v a div 10 ^ a = 0 then [] else nat_dec (rounded v a div 10 ^ a))
    @ (if a > 0 then ''.'' else []) @ pad_dec a (rounded v a)"
proof -
  define N where "N = rounded v a"
  define b where "b = ndigits (N div 10 ^ a)"
  have D: "digits70 (b + a) N = pad_dec b (N div 10 ^ a) @ pad_dec a N"
    using assms by (simp add: N_def b_def digits70_small pad_dec_append)
  have "pad_dec b (N div 10 ^ a) = (if N div 10 ^ a = 0 then [] else nat_dec (N div 10 ^ a))"
    using nat_dec_pad [of "N div 10 ^ a"] by (simp only: b_def ndigits_def split: if_split) simp
  moreover have "take b (pad_dec b (N div 10 ^ a) @ pad_dec a N) = pad_dec b (N div 10 ^ a)"
    "drop b (pad_dec b (N div 10 ^ a) @ pad_dec a N) = pad_dec a N" by simp_all
  ultimately show ?thesis
    unfolding fixed_text_def Let_def N_def [symmetric] b_def [symmetric] D by simp
qed

lemma Greatest_below:
  fixes P :: "nat \<Rightarrow> bool"
  assumes "k \<le> a" "P k"
  shows "(GREATEST k. k \<le> a \<and> P k) \<le> a \<and> P (GREATEST k. k \<le> a \<and> P k) \<and>
    (\<forall>j. (GREATEST k. k \<le> a \<and> P k) < j \<and> j \<le> a \<longrightarrow> \<not> P j)"
proof -
  have "(GREATEST k. k \<le> a \<and> P k) \<le> a \<and> P (GREATEST k. k \<le> a \<and> P k)"
    by (rule GreatestI_nat [where P = "\<lambda>k. k \<le> a \<and> P k" and k = k and b = a]) (use assms in auto)
  moreover have "\<not> P j" if "(GREATEST k. k \<le> a \<and> P k) < j \<and> j \<le> a" for j
    using that Greatest_le_nat [where P = "\<lambda>k. k \<le> a \<and> P k" and k = j and b = a] by auto
  ultimately show ?thesis by blast
qed

lemma whole_int_length:
  "big_wf n \<Longrightarrow> - (2 ^ 63) < width \<Longrightarrow> width \<noteq> 0 \<Longrightarrow> length (a68_fmt_whole_int n width) = nat \<bar>width\<bar>"
  by (auto simp: whole_int_eq length_leading_spaces length_error_chars)

lemma fixed_dec_length:
  "dec_small x \<Longrightarrow> a \<le> DIGIT_BOUND \<Longrightarrow> width \<noteq> 0 \<Longrightarrow> - (2 ^ 63) < width \<Longrightarrow>
   \<exists>s. a68_fmt_fixed_dec ltz x width (int a) = Some s \<and> length s = nat \<bar>width\<bar>"
proof -
  assume a: "dec_small x" "a \<le> DIGIT_BOUND" "width \<noteq> 0" "- (2 ^ 63) < width"
  define len where "len = i64_abs width - sign_len ltz width"
  note c = fixed_dec_cases [OF a(1-3), of ltz, folded len_def]
  show ?thesis
  proof (cases "len > int a \<and> (\<exists>k \<le> a. fixed_fits (dval x) k len)")
    case True
    then have "fixed_fits (dval x) (GREATEST k. k \<le> a \<and> fixed_fits (dval x) k len) len"
      using Greatest_below [where P = "\<lambda>k. fixed_fits (dval x) k len"] by blast
    then show ?thesis
      using c True length_fixed_decorate [OF a(3,4) _ len_def, of "fixed_text (dval x) (GREATEST k. k \<le> a \<and> fixed_fits (dval x) k len)" x]
      by (simp add: fixed_fits_length)
  next
    case False
    then show ?thesis using c a(3) length_error_chars [of width] by auto
  qed
qed

section \<open>Properties\<close>

text \<open>
  C13: \<open>whole\<close>. The decimal digits of the number with its sign (\<open>+\<close> only for a positive width),
  blanks in front up to \<open>|width|\<close> characters, and \<open>|width|\<close> error characters when the number needs more.
\<close>

theorem whole_int_text:
  assumes "big_wf n" and "- (2 ^ 63) < width"
  defines "d \<equiv> (if big_val n < 0 then ''-'' else if width > 0 then ''+'' else []) @ nat_dec (nat \<bar>big_val n\<bar>)"
  shows "(width = 0 \<longrightarrow> a68_fmt_whole_int n width = d) \<and>
    (width \<noteq> 0 \<and> int (length d) \<le> \<bar>width\<bar> \<longrightarrow>
       a68_fmt_whole_int n width = replicate (nat \<bar>width\<bar> - length d) (CHR '' '') @ d) \<and>
    (width \<noteq> 0 \<and> int (length d) > \<bar>width\<bar> \<longrightarrow>
       a68_fmt_whole_int n width = replicate (nat \<bar>width\<bar>) (CHR ''*''))"
  unfolding d_def using assms(1,2)
  by (auto simp: whole_int_eq leading_spaces_def error_chars_def str_fill_def)

theorem whole_int_text_witness:
  "a68_fmt_whole_int (big_from_i64 7) 4 = ''  +7'' \<and> a68_fmt_whole_int (big_from_i64 7) 1 = ''*''"
proof -
  have c: "char_of (55 :: nat) = CHR ''7''" by (simp add: char_of_eq_iff)
  show ?thesis
    using whole_int_text [of "big_from_i64 7" 4] whole_int_text [of "big_from_i64 7" 1]
    by (simp add: big_from_i64_val nat_dec_small digit_char_def c numeral_2_eq_2)
qed

text \<open>
  C9: \<open>sub_fixed\<close> rounds half up. When the text fits in \<open>width\<close> and has at most the 70 digits of
  \<open>LONG_LONG_REAL_WIDTH\<close>, it is the integer part without leading zeros (nothing for 0), the point,
  and \<open>a\<close> decimals, of the multiple of \<open>10 ^ - a\<close> nearest to the argument, halves going up; when
  it does not fit, it is error characters. The loop that scales the argument below one ends.
\<close>

theorem sub_fixed_rounds:
  assumes "dec_small x" and "a \<le> DIGIT_BOUND"
  defines "n \<equiv> nat \<lfloor>dval x * 10 ^ a + 1 / 2\<rfloor>"
  defines "ip \<equiv> (if n div 10 ^ a = 0 then [] else nat_dec (n div 10 ^ a))"
  defines "fp \<equiv> (if a > 0 then ''.'' @ pad_dec a n else [])"
  assumes "length ip + a \<le> 70"
  shows "a68_fmt_sub_fixed x width (int a) =
      Some (if int (length (ip @ fp)) \<le> width then ip @ fp else error_chars width) \<and>
    \<bar>of_nat n / 10 ^ a - dval x\<bar> \<le> 1 / 2 / 10 ^ a"
proof -
  have n: "n = rounded (dval x) a" by (simp add: n_def rounded_def)
  have nd: "ndigits (n div 10 ^ a) = length ip" by (simp add: ndigits_def ip_def)
  have t: "fixed_text (dval x) a = ip @ fp"
    using fixed_text_parts [of "dval x" a] assms(6) unfolding n [symmetric] nd
    by (auto simp: ip_def fp_def)
  show ?thesis
    using sub_fixed_eq [OF assms(1,2)] rounded_close [of "dval x" a] dec_small_ok [OF assms(1)]
    by (simp add: fixed_fits_length t n [symmetric])
qed

text \<open>The decimal 2.675, kept as 2675 with exponent -3.\<close>

definition dec_demo :: a68_dec where "dec_demo = dec_mk (big_from_i64 2675) (- 3)"

lemma dec_small_intro:
  "big_wf m \<Longrightarrow> 0 \<le> big_val m \<Longrightarrow> big_val m < 10 ^ k \<Longrightarrow> k \<le> 100000000 \<Longrightarrow> \<bar>e\<bar> \<le> 100000000 \<Longrightarrow> dec_small (dec_mk m e)"
proof -
  assume a: "big_wf m" "0 \<le> big_val m" "big_val m < 10 ^ k" "k \<le> 100000000" "\<bar>e\<bar> \<le> 100000000"
  have "k \<le> DIGIT_BOUND" using a(4) DIGIT_BOUND_int by linarith
  then have "(10 :: int) ^ k \<le> 10 ^ DIGIT_BOUND" by simp
  then have "big_val m < 10 ^ DIGIT_BOUND" using a(3) by linarith
  then show ?thesis using a DIGIT_BOUND_int by (simp add: dec_small_def)
qed

lemma dec_demo_ok: "dec_small dec_demo" "dval dec_demo = 2675 / 1000"
proof -
  show "dec_small dec_demo" unfolding dec_demo_def
    by (rule dec_small_intro [where k = 4]) (simp_all add: big_from_i64_val)
  have "(10 :: rat) powi (- 3) = 1 / 1000" using powi_neg [of 3] by simp
  then show "dval dec_demo = 2675 / 1000" by (simp add: dec_demo_def dval_mk big_from_i64_val)
qed

lemma bound_ge: "a \<le> 1000 \<Longrightarrow> a \<le> DIGIT_BOUND"
  by (simp add: DIGIT_BOUND_def)

theorem sub_fixed_rounds_witness:
  "a68_fmt_sub_fixed dec_demo 10 2 = Some ''2.68'' \<and> a68_fmt_sub_fixed dec_demo 3 2 = Some ''***''"
proof -
  have c: "digit_char 2 = CHR ''2''" "digit_char 6 = CHR ''6''" "digit_char 8 = CHR ''8''"
    by (simp_all add: digit_char_def char_of_eq_iff)
  have "\<lfloor>dval dec_demo * 10 ^ 2 + 1 / 2\<rfloor> = 268" by (simp add: dec_demo_ok floor_eq_iff)
  then have n: "nat \<lfloor>dval dec_demo * 10 ^ 2 + 1 / 2\<rfloor> = 268" by simp
  have "pad_dec (Suc (Suc 0)) 268 = ''68''" by (simp add: c)
  then have d: "pad_dec 2 268 = ''68''" "nat_dec 2 = ''2''"
    by (simp_all only: numeral_2_eq_2 [symmetric]) (simp add: nat_dec_small c)
  show ?thesis
    using sub_fixed_rounds [OF dec_demo_ok(1) bound_ge, of 2 10] sub_fixed_rounds [OF dec_demo_ok(1) bound_ge, of 2 3]
    unfolding n by (simp add: d error_chars_def str_fill_def numeral_3_eq_3)
qed

lemma fixed_decorate_eq:
  "dec_small x \<Longrightarrow> width \<noteq> 0 \<Longrightarrow> - (2 ^ 63) < width \<Longrightarrow> fixed_decorate ltz x width len s =
   leading_spaces ((if ltz then ''-'' else if width > 0 then ''+'' else []) @
     (if int (length s) < len \<and> (s = [] \<or> hd s = CHR ''.'') \<and> dval x < 1 then ''0'' else []) @ s) (nat \<bar>width\<bar>)"
  using dec_small_ok [of x]
  by (auto simp: fixed_decorate_def Let_def str_prepend_def i64_abs_eq dec_order dval_one)

text \<open>
  C10: \<open>fixed\<close> with a width. The call returns a string of exactly \<open>|width|\<close> characters. It is the
  sign, a zero where there is room for it, and the text with the most decimals \<open>k \<le> a\<close> that fits,
  with blanks in front; it is error characters exactly when the precision leaves no room for the
  point or no number of decimals fits.
\<close>

theorem fixed_dec_text:
  fixes ltz :: bool
  assumes x: "dec_small x" and a: "a \<le> DIGIT_BOUND" and w: "width \<noteq> 0" "- (2 ^ 63) < width"
  defines "len \<equiv> \<bar>width\<bar> - (if ltz \<or> width > 0 then 1 else 0)"
  shows "\<exists>s. a68_fmt_fixed_dec ltz x width (int a) = Some s \<and> length s = nat \<bar>width\<bar> \<and>
    ((len \<le> int a \<or> (\<forall>k \<le> a. \<not> fixed_fits (dval x) k len)) \<and> s = replicate (nat \<bar>width\<bar>) (CHR ''*'') \<or>
     int a < len \<and> (\<exists>k \<le> a. fixed_fits (dval x) k len \<and> (\<forall>j. k < j \<and> j \<le> a \<longrightarrow> \<not> fixed_fits (dval x) j len) \<and>
       (let t = fixed_text (dval x) k in
        s = leading_spaces ((if ltz then ''-'' else if width > 0 then ''+'' else []) @
          (if int (length t) < len \<and> (t = [] \<or> hd t = CHR ''.'') \<and> dval x < 1 then ''0'' else []) @ t) (nat \<bar>width\<bar>))))"
proof -
  have l: "i64_abs width - (if ltz \<or> width > 0 then 1 else 0) = len" by (simp add: len_def i64_abs_eq [OF w(2)])
  note c = fixed_dec_cases [OF x a w(1), of ltz, unfolded l]
  have err: "error_chars width = replicate (nat \<bar>width\<bar>) (CHR ''*'')"
    using w(1) by (simp add: error_chars_def str_fill_def)
  show ?thesis
  proof (cases "len > int a \<and> (\<exists>k \<le> a. fixed_fits (dval x) k len)")
    case True
    define g where "g = (GREATEST k. k \<le> a \<and> fixed_fits (dval x) k len)"
    obtain k where "k \<le> a" "fixed_fits (dval x) k len" using True by blast
    note g = Greatest_below [where P = "\<lambda>k. fixed_fits (dval x) k len", OF this, folded g_def]
    have "int (length (fixed_text (dval x) g)) \<le> len" using g by (simp add: fixed_fits_length)
    note lf = length_fixed_decorate [OF w this l [symmetric], of x]
    show ?thesis
      using c True g lf by (intro exI [of _ "fixed_decorate ltz x width len (fixed_text (dval x) g)"])
        (auto simp: g_def [symmetric] fixed_decorate_eq [OF x w] Let_def)
  next
    case False
    then show ?thesis using c err by (intro exI [of _ "error_chars width"]) (auto simp: not_less)
  qed
qed

lemma demo_texts:
  "fixed_text (dval dec_demo) 2 = ''2.68''" "rounded (dval dec_demo) 2 = 268" "rounded (dval dec_demo) 3 = 2675"
proof -
  have c: "digit_char 2 = CHR ''2''" "digit_char 6 = CHR ''6''" "digit_char 8 = CHR ''8''"
    by (simp_all add: digit_char_def char_of_eq_iff)
  have "\<lfloor>dval dec_demo * 10 ^ 2 + 1 / 2\<rfloor> = 268" "\<lfloor>dval dec_demo * 10 ^ 3 + 1 / 2\<rfloor> = 2675"
    by (simp_all add: dec_demo_ok floor_eq_iff)
  then show n: "rounded (dval dec_demo) 2 = 268" "rounded (dval dec_demo) 3 = 2675" by (simp_all add: rounded_def)
  have "pad_dec (Suc (Suc 0)) 268 = ''68''" by (simp add: c)
  then have d: "pad_dec 2 268 = ''68''" "nat_dec 2 = ''2''"
    by (simp_all only: numeral_2_eq_2 [symmetric]) (simp add: nat_dec_small c)
  show "fixed_text (dval dec_demo) 2 = ''2.68''"
    using fixed_text_parts [of "dval dec_demo" 2] by (simp add: n d ndigits_def)
qed

theorem fixed_dec_text_witness: "a68_fmt_fixed_dec False dec_demo 5 3 = Some ''+2.68''"
proof -
  have f: "\<not> fixed_fits (dval dec_demo) 3 4" "fixed_fits (dval dec_demo) 2 4"
    by (simp_all add: fixed_fits_def demo_texts ndigits_def nat_dec_small)
  have k: "k = 2" if "k \<le> 3" "fixed_fits (dval dec_demo) k 4" "\<forall>j. k < j \<and> j \<le> 3 \<longrightarrow> \<not> fixed_fits (dval dec_demo) j 4" for k
  proof -
    have "\<not> k < 2" using that(3) f(2) by auto
    moreover have "k \<noteq> 3" using that(2) f(1) by auto
    ultimately show ?thesis using that(1) by linarith
  qed
  obtain s where s: "a68_fmt_fixed_dec False dec_demo 5 (int 3) = Some s"
      "\<exists>k \<le> 3. fixed_fits (dval dec_demo) k 4 \<and> (\<forall>j. k < j \<and> j \<le> 3 \<longrightarrow> \<not> fixed_fits (dval dec_demo) j 4) \<and>
       (let t = fixed_text (dval dec_demo) k in
        s = leading_spaces (''+'' @ (if int (length t) < 4 \<and> (t = [] \<or> hd t = CHR ''.'') \<and> dval dec_demo < 1 then ''0'' else []) @ t) 5)"
    using fixed_dec_text [OF dec_demo_ok(1) bound_ge, of 3 5 False] f(2) by auto
  from s(2) obtain j where j: "j \<le> 3" "fixed_fits (dval dec_demo) j 4" "\<forall>i. j < i \<and> i \<le> 3 \<longrightarrow> \<not> fixed_fits (dval dec_demo) i 4"
      "s = leading_spaces (''+'' @ (if int (length (fixed_text (dval dec_demo) j)) < 4 \<and> (fixed_text (dval dec_demo) j = [] \<or>
        hd (fixed_text (dval dec_demo) j) = CHR ''.'') \<and> dval dec_demo < 1 then ''0'' else []) @ fixed_text (dval dec_demo) j) 5"
    by (auto simp: Let_def)
  have "s = ''+2.68''" using j(4) unfolding k [OF j(1-3)] demo_texts by (simp add: leading_spaces_def)
  then show ?thesis using s(1) by simp
qed

text \<open>
  \<open>fixed\<close> with width 0 returns for every precision. Unless rounding gives exactly a power of
  ten, the result is the sign and the text with all \<open>a\<close> decimals (a single \<open>0\<close> for an empty text).
  Without decimals, a number that rounds up to \<open>10 ^ k\<close> from below is printed as an error character:
  the width was chosen for one digit less.
\<close>

theorem fixed_zero_width:
  assumes "dec_small x" and "a \<le> DIGIT_BOUND"
  shows "(\<exists>s. a68_fmt_fixed_dec ltz x 0 (int a) = Some s) \<and>
    ((\<forall>k \<ge> (if a = 0 then 1 else 0). dval x + 1 / 2 / 10 ^ a \<noteq> 10 ^ k) \<longrightarrow>
       a68_fmt_fixed_dec ltz x 0 (int a) =
       Some ((if ltz then ''-'' else []) @ (if fixed_text (dval x) a = [] then ''0'' else fixed_text (dval x) a))) \<and>
    (a = 0 \<and> (\<exists>k \<ge> 1. dval x + 1 / 2 = 10 ^ k) \<longrightarrow> a68_fmt_fixed_dec ltz x 0 (int a) = Some ''*'')"
proof -
  have "\<exists>s. a68_fmt_fixed_dec ltz x 0 (int a) = Some s"
    using assms(2)
  proof (induction a)
    case 0
    show ?case using fixed_zero_step [OF assms(1) 0, of ltz] by (auto split: if_splits)
  next
    case (Suc a)
    have "a \<le> DIGIT_BOUND" using Suc.prems by simp
    then show ?case using fixed_zero_step [OF assms(1) Suc.prems, of ltz] Suc.IH by (auto split: if_splits)
  qed
  then show ?thesis using fixed_zero_step [OF assms, of ltz] by (auto split: if_splits)
qed

text \<open>9.5 with no decimals: half up gives 10, which has a digit more than the width allows.\<close>

definition dec_carry :: a68_dec where "dec_carry = dec_mk (big_from_i64 95) (- 1)"

theorem fixed_zero_width_witness:
  "a68_fmt_fixed_dec False dec_carry 0 0 = Some ''*'' \<and> a68_fmt_fixed_dec False dec_demo 0 2 = Some ''2.68''"
proof -
  have "(10 :: rat) powi (- 1) = 1 / 10" using powi_neg [of 1] by simp
  then have v: "dval dec_carry + 1 / 2 = 10 ^ 1" by (simp add: dec_carry_def dval_mk big_from_i64_val)
  have s: "dec_small dec_carry" unfolding dec_carry_def
    by (rule dec_small_intro [where k = 2]) (simp_all add: big_from_i64_val)
  have np: "dval dec_demo + 1 / 2 / 10 ^ 2 \<noteq> 10 ^ k" for k
  proof (cases k)
    case (Suc j)
    have "1 \<le> (10 :: rat) ^ j" by simp
    then have "10 \<le> (10 :: rat) ^ k" using Suc by simp
    then show ?thesis by (simp add: dec_demo_ok)
  qed (simp add: dec_demo_ok)
  show ?thesis
    using fixed_zero_width [OF s bound_ge, of 0 False] v fixed_zero_width [OF dec_demo_ok(1) bound_ge, of 2 False] np
    by (auto simp: demo_texts)
qed

end
