(* ===== verification/Doubles.thy ===== *)
theory Doubles
  imports Prelude
begin

text \<open>
  The C type \<open>double\<close>. A value is its 64 bits; the arithmetic of the type is a record of operations
  (\<open>dbl_ops\<close>), a parameter of every definition that uses it, because rounding belongs to the
  machine. What the code does on the bits, or derives from the two comparisons, is defined here.
\<close>

record dbl_ops =
  f_add :: "u64 \<Rightarrow> u64 \<Rightarrow> u64"
  f_sub :: "u64 \<Rightarrow> u64 \<Rightarrow> u64"
  f_mul :: "u64 \<Rightarrow> u64 \<Rightarrow> u64"
  f_div :: "u64 \<Rightarrow> u64 \<Rightarrow> u64"
  f_less :: "u64 \<Rightarrow> u64 \<Rightarrow> bool"
  f_eq :: "u64 \<Rightarrow> u64 \<Rightarrow> bool"
  f_exp :: "u64 \<Rightarrow> u64"
  f_log :: "u64 \<Rightarrow> u64"
  f_floor :: "u64 \<Rightarrow> u64"
  f_of_i64 :: "64 word \<Rightarrow> u64"
  f_to_u64 :: "u64 \<Rightarrow> u64"

text \<open>Constants and the sign bit operations of the IEEE format.\<close>

definition dbl_zero :: u64 where "dbl_zero = 0"
definition dbl_one :: u64 where "dbl_one = 0x3FF0000000000000"
definition dbl_minus_one :: u64 where "dbl_minus_one = 0xBFF0000000000000"
definition dbl_half :: u64 where "dbl_half = 0x3FE0000000000000"
definition dbl_neg :: "u64 \<Rightarrow> u64" where "dbl_neg x = xor x 0x8000000000000000"
definition dbl_abs :: "u64 \<Rightarrow> u64" where "dbl_abs x = and x 0x7FFFFFFFFFFFFFFF"
definition dbl_isnan :: "u64 \<Rightarrow> bool" where "dbl_isnan x \<longleftrightarrow> dbl_abs x > 0x7FF0000000000000"
definition dbl_isinf :: "u64 \<Rightarrow> bool" where "dbl_isinf x \<longleftrightarrow> dbl_abs x = 0x7FF0000000000000"

text \<open>What number formatting uses beyond that: two library functions, \<open>strtod\<close>, and \<open>\<le>\<close>.\<close>

record fmt_ops = dbl_ops +
  f_log10 :: "u64 \<Rightarrow> u64"
  f_ceil :: "u64 \<Rightarrow> u64"
  f_strtod :: "string \<Rightarrow> u64"

definition dbl_le :: "'a dbl_ops_scheme \<Rightarrow> u64 \<Rightarrow> u64 \<Rightarrow> bool" where
  "dbl_le f x y \<longleftrightarrow> f_less f x y \<or> f_eq f x y"

definition dbl_ten :: u64 where "dbl_ten = 0x4024000000000000"
definition dbl_e7 :: u64 where "dbl_e7 = 0x416312D000000000"
definition dbl_two64 :: u64 where "dbl_two64 = 0x43F0000000000000"
definition dbl_log2_10 :: u64 where "dbl_log2_10 = 0x400A934F0979A371"

end
