(* ===== verification/Floatfmt.thy ===== *)
theory Floatfmt
  imports Numfmt Doubles
begin

text \<open>
  \<open>csrc/fmt.c\<close>, the rest: \<open>standardize\<close> and \<open>float_dec\<close> (numbers with an exponent part), the
  conversion of a \<open>double\<close> into a decimal (\<open>realToDec\<close>), the public entry points on REAL and INT
  values, the standard widths, \<open>print_bits\<close> and the scanner of \<open>parse_float\<close>.

  Arithmetic on \<open>double\<close> is the parameter \<open>fmt_ops\<close>. The loops of \<open>standardize\<close> and \<open>float_dec\<close>
  scale by ten until a bound is reached; they are partial functions, with the theorems saying when
  they return.
\<close>

section \<open>Standard form\<close>

partial_function (option) std_down :: "a68_dec \<Rightarrow> a68_dec \<Rightarrow> int \<Rightarrow> (a68_dec \<times> int) option" where
  "std_down g y q =
    (if dec_ge (dec_sub y g) dec_zero then std_down g (dec_div10 y) (q + 1) else Some (y, q))"

partial_function (option) std_up :: "a68_dec \<Rightarrow> a68_dec \<Rightarrow> int \<Rightarrow> (a68_dec \<times> int) option" where
  "std_up h y q =
    (if dec_lt (dec_sub y h) dec_zero then std_up h (dec_mul10 y) (q - 1) else Some (y, q))"

definition standardize :: "a68_dec \<Rightarrow> int \<Rightarrow> int \<Rightarrow> int \<Rightarrow> (a68_dec \<times> int) option" where
  "standardize y before after q =
    (let g = dec_ten_up before; h = dec_div10 g
     in Option.bind (std_down g y q) (\<lambda>(y1, q1).
        Option.bind (if dec_is_zero y1 then Some (y1, q1) else std_up h y1 q1) (\<lambda>(y2, q2).
          let f = dec_ten_up (- after); sum = dec_add (dec_half f) y2
          in Some (if dec_ge (dec_sub sum g) dec_zero then (dec_mk (big_dup (d_mant h)) (d_exp h), q2 + 1) else (y2, q2)))))"

definition a68_fmt_standardize :: "a68_dec \<Rightarrow> int \<Rightarrow> int \<Rightarrow> int \<Rightarrow> (a68_dec \<times> int) option" where
  "a68_fmt_standardize y before after q = standardize (dec_mk (big_dup (d_mant y)) (d_exp y)) before after q"

section \<open>Numbers with an exponent\<close>

text \<open>
  The exponent is moved to a multiple of \<open>frmt\<close>; \<open>frmt \<le> 0\<close> asks instead for \<open>- frmt\<close> digits
  before the point.
\<close>

partial_function (option) frmt_loop :: "int \<Rightarrow> a68_dec \<Rightarrow> int \<Rightarrow> int \<Rightarrow> (a68_dec \<times> int \<times> int) option" where
  "frmt_loop frmt z q after =
    (if c_rem q frmt \<noteq> 0 then frmt_loop frmt (dec_mul10 z) (q - 1) (if after > 0 then after - 1 else after)
     else Some (z, q, after))"

partial_function (option) lim_up :: "a68_dec \<Rightarrow> a68_dec \<Rightarrow> int \<Rightarrow> int \<Rightarrow> (a68_dec \<times> int \<times> int) option" where
  "lim_up zlim z q after =
    (if dec_lt (dec_sub z zlim) dec_zero
     then lim_up zlim (dec_mul10 z) (q - 1) (if after > 0 then after - 1 else after) else Some (z, q, after))"

partial_function (option) lim_down :: "a68_dec \<Rightarrow> a68_dec \<Rightarrow> int \<Rightarrow> int \<Rightarrow> (a68_dec \<times> int \<times> int) option" where
  "lim_down zlim z q after =
    (if dec_gt (dec_sub z zlim) dec_zero
     then lim_down zlim (dec_div10 z) (q + 1) (if after > 0 then after + 1 else after) else Some (z, q, after))"

definition frmt_shift :: "int \<Rightarrow> a68_dec \<Rightarrow> int \<Rightarrow> int \<Rightarrow> (a68_dec \<times> int \<times> int) option" where
  "frmt_shift frmt z q after =
    (if frmt > 0 then frmt_loop frmt z q after
     else let zlim = dec_ten_up (- frmt - 1)
          in Option.bind (lim_up zlim z q after) (\<lambda>(z', q', after'). lim_down (dec_mul10 zlim) z' q' after'))"

text \<open>One attempt: the mantissa, the letter e and the exponent, with the precision it ended with.\<close>

definition float_try :: "bool \<Rightarrow> a68_dec \<Rightarrow> int \<Rightarrow> int \<Rightarrow> int \<Rightarrow> int \<Rightarrow> int \<Rightarrow> (string \<times> int) option" where
  "float_try ltz x width before after expo frmt =
    Option.bind (standardize (dec_mk (big_dup (d_mant x)) (d_exp x)) before after 0) (\<lambda>(z, q).
    Option.bind (frmt_shift frmt z q after) (\<lambda>(z', q', after').
    let mwidth = fmt_sgn width * (i64_abs width - i64_abs expo - 1)
    in Option.bind (a68_fmt_fixed_dec ltz z' mwidth after') (\<lambda>s.
       let e = a68_fmt_whole_int (big_from_i64 (word_of_int q')) expo
       in Some (str_concat3 s ''e'' e, after'))))"

partial_function (option) a68_fmt_float_dec :: "bool \<Rightarrow> a68_dec \<Rightarrow> int \<Rightarrow> int \<Rightarrow> int \<Rightarrow> int \<Rightarrow> string option" where
  "a68_fmt_float_dec ltz x width after expo frmt =
    (let before = i64_abs width - i64_abs expo - (if after \<noteq> 0 then after + 1 else 0) - 2
     in if \<not> (fmt_sgn before + fmt_sgn after > 0) then Some (error_chars width)
        else Option.bind (float_try ltz x width before after expo frmt) (\<lambda>(s, after').
          if expo = 0 \<or> a68_fmt_has_error s
          then a68_fmt_float_dec ltz x width (if after' \<noteq> 0 then after' - 1 else 0) (if expo > 0 then expo + 1 else expo - 1) frmt
          else Some s))"

section \<open>From a double\<close>

text \<open>\<open>float_to_uint64\<close> saturates; NaN and negative values give 0.\<close>

definition float_to_uint64 :: "'a dbl_ops_scheme \<Rightarrow> u64 \<Rightarrow> u64" where
  "float_to_uint64 f a = (if dbl_le f dbl_zero a then (if f_less f a dbl_two64 then f_to_u64 f a else - 1) else 0)"

definition trunc_int_big :: "'a dbl_ops_scheme \<Rightarrow> u64 \<Rightarrow> a68_big" where
  "trunc_int_big f x =
    (if dbl_le f dbl_zero x then big_from_dec (nat_dec (unat (float_to_uint64 f x)))
     else big_neg (big_from_dec (nat_dec (unat (float_to_uint64 f (dbl_neg x))))))"

definition trunc_int :: "'a dbl_ops_scheme \<Rightarrow> u64 \<Rightarrow> 64 word" where
  "trunc_int f x = big_to_i64 (trunc_int_big f x)"

definition ten_up_table :: "u64 list" where
  "ten_up_table = [0x4024000000000000, 0x4059000000000000, 0x40C3880000000000, 0x4197D78400000000,
     0x4341C37937E08000, 0x4693B8B5B5056E17, 0x4D384F03E93FF9F5, 0x5A827748F9301D32, 0x75154FDD7F73BF3C]"

function ten_up_loop :: "'a dbl_ops_scheme \<Rightarrow> nat \<Rightarrow> nat \<Rightarrow> u64 \<Rightarrow> u64" where
  "ten_up_loop f e i r =
    (if e \<noteq> 0
     then ten_up_loop f (e div 2) (i + 1)
            (if e mod 2 = 1 then f_mul f r (if i < 9 then ten_up_table ! i else dbl_zero) else r)
     else r)"
  by pat_completeness auto
termination by (relation "measure (\<lambda>(f, e, i, r). e)") auto

declare ten_up_loop.simps [simp del]

definition ten_up_float :: "'a dbl_ops_scheme \<Rightarrow> 64 word \<Rightarrow> u64" where
  "ten_up_float f expo =
    (let neg = sint expo < 0; e = (if neg then 0 - expo else expo); r = ten_up_loop f (unat e) 0 dbl_one
     in if neg then f_div f dbl_one r else r)"

text \<open>Three digits of radix \<open>10 ^ 7\<close>.\<close>

fun radix_loop :: "'a dbl_ops_scheme \<Rightarrow> nat \<Rightarrow> u64 \<Rightarrow> a68_big \<Rightarrow> a68_big" where
  "radix_loop f 0 a mant = mant"
| "radix_loop f (Suc k) a mant =
    (let t = f_mul f a dbl_e7; dig = f_floor f t
     in radix_loop f k (f_sub f t dig) (big_add (big_mul_small mant 10000000) (trunc_int_big f dig)))"

definition a68_real_to_dec :: "'a fmt_ops_scheme \<Rightarrow> u64 \<Rightarrow> bool \<times> a68_dec" where
  "a68_real_to_dec f x =
    (if f_eq f x dbl_zero then (False, dec_zero)
     else let neg = f_less f x dbl_zero
     in if dbl_isnan x \<or> dbl_isinf x then (neg, dec_zero)
     else let a0 = dbl_abs x
     in if f_less f a0 dbl_e7 \<and> f_eq f (f_floor f a0) a0 then (neg, dec_of_i64 (trunc_int f a0))
     else let expo = trunc_int f (f_log10 f a0);
              a = f_div f a0 (ten_up_float f expo);
              big = dbl_le f dbl_one a;
              expo' = (if big then expo - 1 + 1 else expo - 1);
              a' = (if big then f_div f a dbl_ten else a)
     in (neg, dec_mk (radix_loop f 3 a' (big_from_i64 0)) (sint (expo' + 1 - 21))))"

section \<open>Entry points\<close>

definition big_to_double :: "'a fmt_ops_scheme \<Rightarrow> a68_big \<Rightarrow> u64" where
  "big_to_double f n = f_strtod f (big_to_dec n)"

definition a68_fmt_fixed_real :: "'a fmt_ops_scheme \<Rightarrow> u64 \<Rightarrow> int \<Rightarrow> int \<Rightarrow> string option" where
  "a68_fmt_fixed_real f x width after = (case a68_real_to_dec f x of (neg, d) \<Rightarrow> a68_fmt_fixed_dec neg d width after)"

definition a68_fmt_fixed_int :: "'a fmt_ops_scheme \<Rightarrow> a68_big \<Rightarrow> int \<Rightarrow> int \<Rightarrow> bool \<Rightarrow> string option" where
  "a68_fmt_fixed_int f n width after is_long =
    (if \<not> is_long then a68_fmt_fixed_real f (big_to_double f n) width after
     else a68_fmt_fixed_dec (big_sign n < 0) (dec_mk (big_abs n) 0) width after)"

definition a68_fmt_float_real :: "'a fmt_ops_scheme \<Rightarrow> u64 \<Rightarrow> int \<Rightarrow> int \<Rightarrow> int \<Rightarrow> int \<Rightarrow> string option" where
  "a68_fmt_float_real f x width after expo frmt =
    (case a68_real_to_dec f x of (neg, d) \<Rightarrow> a68_fmt_float_dec neg d width after expo frmt)"

definition a68_fmt_float_int :: "a68_big \<Rightarrow> int \<Rightarrow> int \<Rightarrow> int \<Rightarrow> int \<Rightarrow> string option" where
  "a68_fmt_float_int n width after expo frmt =
    a68_fmt_float_dec (big_sign n < 0) (dec_mk (big_abs n) 0) width after expo frmt"

definition a68_fmt_whole_real :: "'a fmt_ops_scheme \<Rightarrow> u64 \<Rightarrow> int \<Rightarrow> string option" where
  "a68_fmt_whole_real f x width = a68_fmt_fixed_real f x width 0"

section \<open>Standard widths and limits\<close>

definition a68_fmt_int_width :: "int \<Rightarrow> int \<Rightarrow> int" where
  "a68_fmt_int_width longness ll = (if longness \<le> 0 then 10 else if longness = 1 then 50 else ll * 7 + 1)"
definition a68_fmt_real_width :: "int \<Rightarrow> int \<Rightarrow> int" where
  "a68_fmt_real_width longness ll =
    (if longness \<le> 0 then 15 else if longness = 1 then 42 else if ll \<ge> 2 then (ll - 2) * 7 else 0)"
definition a68_fmt_exp_width :: "int \<Rightarrow> int" where "a68_fmt_exp_width longness = 3"
definition a68_fmt_ll_digits_of_precision :: "int \<Rightarrow> int" where
  "a68_fmt_ll_digits_of_precision n = 2 + c_quot (n + 6) 7"

definition mp_bits_width :: "'a fmt_ops_scheme \<Rightarrow> int \<Rightarrow> int" where
  "mp_bits_width f k =
    s32_of_int (uint (float_to_uint64 f (f_ceil f (f_mul f (f_of_i64 f (word_of_int (k * 7))) dbl_log2_10)) - 1))"

definition a68_fmt_bits_width :: "'a fmt_ops_scheme \<Rightarrow> int \<Rightarrow> int \<Rightarrow> int" where
  "a68_fmt_bits_width f longness ll =
    (if longness \<le> 0 then 32 else if longness = 1 then mp_bits_width f 7 else mp_bits_width f ll)"

definition a68_fmt_max_int :: "int \<Rightarrow> int \<Rightarrow> a68_big" where
  "a68_fmt_max_int longness ll =
    (if longness \<le> 0 then big_from_i64 2147483647
     else big_sub (big_pow10 (if longness = 1 then 49 else ll * 7)) (big_from_i64 1))"

definition a68_fmt_print_int :: "a68_big \<Rightarrow> int \<Rightarrow> int \<Rightarrow> string" where
  "a68_fmt_print_int n longness ll =
    (let w = a68_fmt_int_width longness ll in a68_fmt_whole_int n (if longness \<le> 0 then w + 1 else w))"

definition a68_fmt_print_real :: "'a fmt_ops_scheme \<Rightarrow> u64 \<Rightarrow> int \<Rightarrow> int \<Rightarrow> string option" where
  "a68_fmt_print_real f x longness ll =
    (let rw = a68_fmt_real_width longness ll; ew = a68_fmt_exp_width longness
     in a68_fmt_float_real f x (rw + ew + 4) (rw - 1) (ew + 1) 1)"

section \<open>Bits\<close>

text \<open>The words of the magnitude, least significant first, then one character for each bit.\<close>

fun bits_words :: "nat \<Rightarrow> a68_big \<Rightarrow> u32 list" where
  "bits_words 0 m = []"
| "bits_words (Suc n) m =
    (case the (big_divmod m (big_from_i64 (push_bit 32 1))) of (q, r) \<Rightarrow> ucast (big_to_i64 r) # bits_words n q)"

fun set_flips :: "u32 list \<Rightarrow> nat \<Rightarrow> nat \<Rightarrow> string \<Rightarrow> string" where
  "set_flips ws w 0 s = s"
| "set_flips ws w (Suc n) s =
    (let i = w - Suc n
     in set_flips ws w n (if and (drop_bit (i mod 32) (ws ! (i div 32))) 1 \<noteq> 0 then s[w - 1 - i := CHR ''T''] else s))"

definition a68_fmt_print_bits :: "a68_big \<Rightarrow> int \<Rightarrow> string" where
  "a68_fmt_print_bits v width =
    (let w = nat width; ws = bits_words ((w + 31) div 32) (big_abs v)
     in set_flips ws w w (str_fill w (CHR ''F'')))"

section \<open>Reading a real denotation\<close>

text \<open>\<open>parse_float\<close>: the text handed to \<open>strtod\<close>, built from mantissa digits and exponent.\<close>

fun exp_digits :: "string \<Rightarrow> int \<Rightarrow> int" where
  "exp_digits [] e = e"
| "exp_digits (c # cs) e = (if is_digit c then exp_digits cs (if e < 1000000000 then e * 10 + int (digit_val c) else e) else e)"

definition parse_float_text :: "string \<Rightarrow> string" where
  "parse_float_text s =
    (let d1 = takeWhile is_digit s; r1 = dropWhile is_digit s;
         d2 = (if r1 \<noteq> [] \<and> hd r1 = CHR ''.'' then takeWhile is_digit (tl r1) else []);
         r2 = (if r1 \<noteq> [] \<and> hd r1 = CHR ''.'' then dropWhile is_digit (tl r1) else r1);
         e = (if r2 \<noteq> [] \<and> (hd r2 = CHR ''e'' \<or> hd r2 = CHR ''E'')
              then let r3 = tl r2; signed = r3 \<noteq> [] \<and> (hd r3 = CHR ''+'' \<or> hd r3 = CHR ''-'')
                   in (if signed \<and> hd r3 = CHR ''-'' then - exp_digits (tl r3) 0
                       else exp_digits (if signed then tl r3 else r3) 0)
              else 0);
         digits = d1 @ d2
     in (if digits = [] then ''0'' else digits) @ ''e'' @ int_dec (e - int (length d2)))"

definition a68_fmt_parse_float :: "'a fmt_ops_scheme \<Rightarrow> string \<Rightarrow> u64" where
  "a68_fmt_parse_float f s = f_strtod f (parse_float_text s)"

section \<open>Lemmas: bits\<close>

lemma bits_words_spec:
  "big_wf m \<Longrightarrow> 0 \<le> big_val m \<Longrightarrow> k < n \<Longrightarrow>
   unat (bits_words n m ! k) = take_bit 32 (drop_bit (32 * k) (nat (big_val m)))"
proof (induction n arbitrary: m k)
  case (Suc n)
  have b: "big_val (big_from_i64 (push_bit 32 1)) = 4294967296" by (simp add: big_from_i64_val)
  obtain q r where qr: "big_divmod m (big_from_i64 (push_bit 32 1)) = Some (q, r)" "big_wf q" "big_wf r"
      "big_val q = big_val m div 4294967296" "big_val r = big_val m mod 4294967296"
    using bi.quot_nonneg [OF Suc.prems(1) big_from_i64_wf Suc.prems(2), of "push_bit 32 1"] b by auto
  have ws: "bits_words (Suc n) m = ucast (big_to_i64 r) # bits_words n q"
    by (simp only: bits_words.simps qr(1) option.sel prod.case)
  have nq: "nat (big_val q) = drop_bit 32 (nat (big_val m))"
    using Suc.prems(2) by (simp add: qr(4) nat_div_distrib drop_bit_eq_div)
  show ?case
  proof (cases k)
    case 0
    have rng: "0 \<le> big_val r" "big_val r < 4294967296" by (simp_all add: qr(5))
    then have sv: "sint (big_to_i64 r) = big_val r"
      using big_to_i64_val [OF qr(3)] qr(3) by (simp add: big_fits_i64_iff)
    have "unat (ucast (big_to_i64 r) :: u32) = nat (big_val r)"
    proof -
      have "uint (ucast (big_to_i64 r) :: u32) = take_bit 32 (uint (big_to_i64 r))"
        by (simp add: unsigned_ucast_eq)
      moreover have "uint (big_to_i64 r) = take_bit 64 (sint (big_to_i64 r))" by (simp add: uint_sint)
      ultimately have "uint (ucast (big_to_i64 r) :: u32) = take_bit 32 (sint (big_to_i64 r))"
        by (simp add: take_bit_take_bit)
      then show ?thesis using rng by (simp add: sv take_bit_eq_mod unat_eq_nat_uint)
    qed
    also have "\<dots> = take_bit 32 (nat (big_val m))"
      using Suc.prems(2) by (simp add: qr(5) nat_mod_distrib take_bit_eq_mod)
    finally show ?thesis using 0 by (simp add: ws del: bits_words.simps)
  next
    case (Suc j)
    have "unat (bits_words n q ! j) = take_bit 32 (drop_bit (32 * j) (nat (big_val q)))"
      by (rule Suc.IH) (use qr Suc Suc.prems in \<open>simp_all add: pos_imp_zdiv_nonneg_iff\<close>)
    then show ?thesis by (simp add: ws Suc nq drop_bit_drop_bit add.commute del: bits_words.simps)
  qed
qed simp

lemma length_set_flips [simp]: "length (set_flips ws w n s) = length s"
  by (induction ws w n s rule: set_flips.induct) (simp_all add: Let_def)

lemma set_flips_nth:
  "n \<le> w \<Longrightarrow> length s = w \<Longrightarrow> p < w \<Longrightarrow>
   set_flips ws w n s ! (w - 1 - p) =
     (if w - n \<le> p \<and> and (drop_bit (p mod 32) (ws ! (p div 32))) 1 \<noteq> 0 then CHR ''T'' else s ! (w - 1 - p))"
proof (induction n arbitrary: s)
  case (Suc n)
  define i where "i = w - Suc n"
  define t where "t = (if and (drop_bit (i mod 32) (ws ! (i div 32))) 1 \<noteq> 0 then s[w - 1 - i := CHR ''T''] else s)"
  have l: "length t = w" using Suc.prems by (simp add: t_def)
  have "set_flips ws w (Suc n) s = set_flips ws w n t" by (simp add: t_def i_def Let_def)
  then have st: "set_flips ws w (Suc n) s ! (w - 1 - p) =
     (if w - n \<le> p \<and> and (drop_bit (p mod 32) (ws ! (p div 32))) 1 \<noteq> 0 then CHR ''T'' else t ! (w - 1 - p))"
    using Suc.IH [of t] Suc.prems l by simp
  show ?case
  proof (cases "p = i")
    case True
    then show ?thesis using Suc.prems unfolding st by (simp add: t_def i_def)
  next
    case False
    have "w - 1 - i \<noteq> w - 1 - p" using False Suc.prems(1,3) by (auto simp: i_def)
    then have "t ! (w - 1 - p) = s ! (w - 1 - p)" by (simp add: t_def)
    moreover have "w - n \<le> p \<longleftrightarrow> w - Suc n \<le> p" using False Suc.prems by (auto simp: i_def)
    ultimately show ?thesis unfolding st by simp
  qed
qed simp

section \<open>Lemmas: scaling loops\<close>

lemma dval_shift_up: "dval (dec_mk m (e + int k)) = dval (dec_mk m e) * 10 ^ k"
  by (simp add: dval_mk power_int_add)

lemma dval_eta: "dval (dec_mk (d_mant y) (d_exp y)) = dval y"
  by (simp add: dec_mk_eta)

lemma dec_ok_shift: "dec_ok y \<Longrightarrow> \<bar>e\<bar> \<le> 1000000000 \<Longrightarrow> dec_ok (dec_mk (d_mant y) e)"
  by (simp add: dec_ok_def)

lemma dec_cmp_zero:
  assumes "dec_ok y" "dec_ok g"
  shows "dec_ge (dec_sub y g) dec_zero \<longleftrightarrow> dval y \<ge> dval g" and "dec_lt (dec_sub y g) dec_zero \<longleftrightarrow> dval y < dval g"
    and "dec_gt (dec_sub y g) dec_zero \<longleftrightarrow> dval y > dval g"
  using dec_sub_ok [OF assms] by (auto simp: dec_order)

lemma std_down_ok:
  assumes "dec_ok y" "dval y < 10 powi (b + int n)" "- 1000000000 \<le> d_exp y - int n" "\<bar>b\<bar> \<le> 1000000000"
  shows "\<exists>j \<le> n. std_down (dec_ten_up b) y q = Some (dec_mk (d_mant y) (d_exp y - int j), q + int j) \<and>
    dval y < 10 powi (b + int j) \<and> (j = 0 \<or> 10 powi (b + int j - 1) \<le> dval y)"
  using assms
proof (induction n arbitrary: y q)
  case 0
  have "\<not> dec_ge (dec_sub y (dec_ten_up b)) dec_zero" using 0 by (simp add: dec_cmp_zero dec_ok_ten_up)
  then show ?case using 0 by (subst std_down.simps) (simp add: dec_mk_eta)
next
  case (Suc n)
  have g: "dec_ge (dec_sub y (dec_ten_up b)) dec_zero \<longleftrightarrow> dval y \<ge> 10 powi b"
    using Suc.prems by (simp add: dec_cmp_zero dec_ok_ten_up)
  show ?case
  proof (cases "dval y \<ge> 10 powi b")
    case True
    let ?z = "dec_div10 y"
    have z: "?z = dec_mk (d_mant y) (d_exp y - 1)" "dval ?z = dval y / 10"
      using dec_scale_fields(2) [OF Suc.prems(1)] dec_scale_vals(2) [OF Suc.prems(1)] by simp_all
    have p: "10 powi (b + int (Suc n)) = (10 :: rat) * 10 powi (b + int n)" for n
      by (simp add: power_int_add)
    have p1: "10 powi (b + int (Suc n) - 1) = (10 :: rat) * 10 powi (b + int n - 1)" for n
      by (simp add: power_int_add power_int_diff)
    have "\<exists>j \<le> n. std_down (dec_ten_up b) ?z (q + 1) = Some (dec_mk (d_mant ?z) (d_exp ?z - int j), q + 1 + int j) \<and>
        dval ?z < 10 powi (b + int j) \<and> (j = 0 \<or> 10 powi (b + int j - 1) \<le> dval ?z)"
    proof (rule Suc.IH)
      show "dec_ok ?z" using Suc.prems(1,3) unfolding z(1) dec_ok_def by auto
      show "dval ?z < 10 powi (b + int n)" using Suc.prems(2) unfolding p z(2) by simp
      show "- 1000000000 \<le> d_exp ?z - int n" using Suc.prems(3) by (simp add: z(1))
    qed fact
    then obtain j where j: "j \<le> n" "std_down (dec_ten_up b) ?z (q + 1) = Some (dec_mk (d_mant y) (d_exp y - 1 - int j), q + 1 + int j)"
        "dval y / 10 < 10 powi (b + int j)" "j = 0 \<or> 10 powi (b + int j - 1) \<le> dval y / 10"
      unfolding z(2) by (auto simp: z(1))
    have st: "std_down (dec_ten_up b) y q = std_down (dec_ten_up b) ?z (q + 1)"
      using True g by (subst std_down.simps) simp
    show ?thesis
    proof (intro exI [of _ "Suc j"] conjI)
      show "dval y < 10 powi (b + int (Suc j))" using j(3) unfolding p by simp
      show "Suc j = 0 \<or> 10 powi (b + int (Suc j) - 1) \<le> dval y"
        using j(4) True unfolding p1 by (cases "j = 0") (auto simp: power_int_diff)
    qed (use j st in \<open>simp_all add: algebra_simps\<close>)
  next
    case False
    then show ?thesis using g by (intro exI [of _ 0]) (subst std_down.simps, simp add: dec_mk_eta)
  qed
qed

lemma std_up_ok:
  assumes "dec_ok y" "10 powi (c - int n) \<le> dval y" "d_exp y + int n \<le> 1000000000" "\<bar>c\<bar> \<le> 1000000000"
  shows "\<exists>j \<le> n. std_up (dec_ten_up c) y q = Some (dec_mk (d_mant y) (d_exp y + int j), q - int j) \<and>
    10 powi (c - int j) \<le> dval y \<and> (j = 0 \<or> dval y < 10 powi (c - int j + 1))"
  using assms
proof (induction n arbitrary: y q)
  case 0
  have "\<not> dec_lt (dec_sub y (dec_ten_up c)) dec_zero" using 0 by (simp add: dec_cmp_zero dec_ok_ten_up)
  then show ?case using 0 by (subst std_up.simps) (simp add: dec_mk_eta)
next
  case (Suc n)
  have g: "dec_lt (dec_sub y (dec_ten_up c)) dec_zero \<longleftrightarrow> dval y < 10 powi c"
    using Suc.prems by (simp add: dec_cmp_zero dec_ok_ten_up)
  show ?case
  proof (cases "dval y < 10 powi c")
    case True
    let ?z = "dec_mul10 y"
    have z: "?z = dec_mk (d_mant y) (d_exp y + 1)" "dval ?z = dval y * 10"
      using dec_scale_fields(1) [OF Suc.prems(1)] dec_scale_vals(1) [OF Suc.prems(1)] by simp_all
    have p: "10 powi (c - int n) = (10 :: rat) * 10 powi (c - int (Suc n))" for n
      using power_int_add [of "10 :: rat" 1 "c - int (Suc n)"] by (simp add: algebra_simps)
    have p1: "10 powi (c - int n + 1) = (10 :: rat) * 10 powi (c - int (Suc n) + 1)" for n
      using power_int_add [of "10 :: rat" 1 "c - int (Suc n) + 1"] by (simp add: algebra_simps)
    have "\<exists>j \<le> n. std_up (dec_ten_up c) ?z (q - 1) = Some (dec_mk (d_mant ?z) (d_exp ?z + int j), q - 1 - int j) \<and>
        10 powi (c - int j) \<le> dval ?z \<and> (j = 0 \<or> dval ?z < 10 powi (c - int j + 1))"
    proof (rule Suc.IH)
      show "dec_ok ?z" using Suc.prems(1,3) unfolding z(1) dec_ok_def by auto
      show "10 powi (c - int n) \<le> dval ?z" using Suc.prems(2) unfolding p [of n] z(2) by simp
      show "d_exp ?z + int n \<le> 1000000000" using Suc.prems(3) by (simp add: z(1))
    qed fact
    then obtain j where j: "j \<le> n" "std_up (dec_ten_up c) ?z (q - 1) = Some (dec_mk (d_mant y) (d_exp y + 1 + int j), q - 1 - int j)"
        "10 powi (c - int j) \<le> dval y * 10" "j = 0 \<or> dval y * 10 < 10 powi (c - int j + 1)"
      unfolding z(2) by (auto simp: z(1))
    have st: "std_up (dec_ten_up c) y q = std_up (dec_ten_up c) ?z (q - 1)"
      using True g by (subst std_up.simps) simp
    show ?thesis
    proof (intro exI [of _ "Suc j"] conjI)
      show "10 powi (c - int (Suc j)) \<le> dval y" using j(3) unfolding p [of j] by simp
      show "Suc j = 0 \<or> dval y < 10 powi (c - int (Suc j) + 1)"
        using j(4) True unfolding p1 [of j] by (cases "j = 0") auto
    qed (use j st in \<open>simp_all add: algebra_simps\<close>)
  next
    case False
    then show ?thesis using g by (intro exI [of _ 0]) (subst std_up.simps, simp add: dec_mk_eta)
  qed
qed

section \<open>Lemmas: standard form\<close>

text \<open>A tighter bound on the arguments, so that the scaled mantissa is still \<open>dec_small\<close>.\<close>

definition FLOAT_BOUND :: nat where "FLOAT_BOUND = 10000000"

lemma FLOAT_BOUND_int: "int FLOAT_BOUND = 10000000"
  by (simp add: FLOAT_BOUND_def)

definition dec_float :: "a68_dec \<Rightarrow> bool" where
  "dec_float x \<longleftrightarrow> big_wf (d_mant x) \<and> 0 \<le> big_val (d_mant x) \<and> big_val (d_mant x) < 10 ^ FLOAT_BOUND
     \<and> \<bar>d_exp x\<bar> \<le> int FLOAT_BOUND"

definition dec_scaled :: "a68_dec \<Rightarrow> bool" where
  "dec_scaled x \<longleftrightarrow> big_wf (d_mant x) \<and> 0 \<le> big_val (d_mant x) \<and> big_val (d_mant x) < 10 ^ FLOAT_BOUND
     \<and> \<bar>d_exp x\<bar> \<le> 40000000"

lemma dec_scaled_shift: "dec_scaled x \<Longrightarrow> \<bar>e\<bar> \<le> 100000000 \<Longrightarrow> dec_small (dec_mk (d_mant x) e)"
proof -
  assume a: "dec_scaled x" "\<bar>e\<bar> \<le> 100000000"
  have "FLOAT_BOUND \<le> 100000000" by (simp add: FLOAT_BOUND_def)
  then show ?thesis using dec_small_intro [where k = FLOAT_BOUND] a by (simp add: dec_scaled_def)
qed

lemma dec_float_range:
  assumes "dec_float x"
  shows "dval x < 10 powi (2 * int FLOAT_BOUND)" and "0 < dval x \<Longrightarrow> 10 powi (- int FLOAT_BOUND) \<le> dval x"
proof -
  have e: "(10 :: rat) powi d_exp x \<le> 10 powi int FLOAT_BOUND" "(10 :: rat) powi (- int FLOAT_BOUND) \<le> 10 powi d_exp x"
    using assms power_int_increasing [of "d_exp x" "int FLOAT_BOUND" "10 :: rat"]
      power_int_increasing [of "- int FLOAT_BOUND" "d_exp x" "10 :: rat"] by (auto simp: dec_float_def)
  have "of_int (big_val (d_mant x)) < (of_int (10 ^ FLOAT_BOUND) :: rat)"
    using assms by (simp only: dec_float_def of_int_less_iff)
  moreover have "0 \<le> (of_int (big_val (d_mant x)) :: rat)" using assms by (simp add: dec_float_def)
  ultimately have "of_int (big_val (d_mant x)) * 10 powi d_exp x < (of_int (10 ^ FLOAT_BOUND) * 10 powi int FLOAT_BOUND :: rat)"
    by (rule mult_less_le_imp_less [OF _ e(1) _ powi_pos])
  then show "dval x < 10 powi (2 * int FLOAT_BOUND)"
    using power_int_add [of "10 :: rat" "int FLOAT_BOUND" "int FLOAT_BOUND"]
    unfolding dval_def mult_2 by (simp only: of_int_power of_int_numeral power_int_of_nat) simp
  show "10 powi (- int FLOAT_BOUND) \<le> dval x" if "0 < dval x"
  proof -
    have "1 \<le> big_val (d_mant x)" using that by (simp add: dval_sign)
    then have "1 \<le> (of_int (big_val (d_mant x)) :: rat)" by simp
    then have "1 * 10 powi d_exp x \<le> of_int (big_val (d_mant x)) * (10 :: rat) powi d_exp x"
      by (rule mult_right_mono) simp
    then show ?thesis unfolding dval_def using e(2) by linarith
  qed
qed

lemma half_small: "(1 :: rat) / 2 / 10 ^ a < 1"
proof -
  have "1 \<le> (10 :: rat) ^ a" by simp
  then have "1 < 2 * (10 :: rat) ^ a" by linarith
  then show ?thesis by (simp add: divide_less_eq)
qed

text \<open>The two loops bring a positive number into \<open>[10 powi (b - 1), 10 powi b)\<close>.\<close>

lemma std_loops_ok:
  assumes x: "dec_float x" and b: "b \<le> FLOAT_BOUND"
  shows "\<exists>y q. Option.bind (std_down (dec_ten_up (int b)) x q0) (\<lambda>(y1, q1).
      if dec_is_zero y1 then Some (y1, q1) else std_up (dec_ten_up (int b - 1)) y1 q1) = Some (y, q) \<and>
    y = dec_mk (d_mant x) (d_exp x - (q - q0)) \<and> \<bar>q - q0\<bar> \<le> 20000000 \<and> dval y < 10 powi int b \<and>
    (dval x = 0 \<longrightarrow> dval y = 0 \<and> q = q0) \<and> (0 < dval x \<longrightarrow> 10 powi (int b - 1) \<le> dval y)"
proof -
  note FB = FLOAT_BOUND_int
  have b8: "int b \<le> 10000000" using b FB by linarith
  have ox: "dec_ok x" and x0: "0 \<le> dval x" using x FB by (auto simp: dec_float_def dec_ok_def dval_sign)
  have ex: "\<bar>d_exp x\<bar> \<le> 10000000" using x FB by (simp add: dec_float_def)
  have "(10 :: rat) powi (2 * int FLOAT_BOUND) \<le> 10 powi (int b + int (2 * FLOAT_BOUND))"
    by (rule power_int_increasing) simp_all
  then have up: "dval x < 10 powi (int b + int (2 * FLOAT_BOUND))" using dec_float_range(1) [OF x] by linarith
  have lo: "- 1000000000 \<le> d_exp x - int (2 * FLOAT_BOUND)" "\<bar>int b\<bar> \<le> 1000000000" using ex b8 FB by simp_all
  obtain j where j: "j \<le> 2 * FLOAT_BOUND" "std_down (dec_ten_up (int b)) x q0 = Some (dec_mk (d_mant x) (d_exp x - int j), q0 + int j)"
      "dval x < 10 powi (int b + int j)" "j = 0 \<or> 10 powi (int b + int j - 1) \<le> dval x"
    using std_down_ok [OF ox up lo, of q0] by blast
  define y1 where "y1 = dec_mk (d_mant x) (d_exp x - int j)"
  have j8: "int j \<le> 20000000" using j(1) FB by linarith
  have y1: "dval y1 = dval x / 10 ^ j" by (simp add: y1_def dval_shift dval_eta)
  have oy1: "dec_ok y1" using ox ex j8 unfolding y1_def by (intro dec_ok_shift) auto
  have y1b: "dval y1 < 10 powi int b" using j(3) by (simp add: y1 power_int_add field_simps)
  show ?thesis
  proof (cases "dval x = 0")
    case True
    then have j0: "j = 0" using j(4) powi_pos [of "int b + int j - 1"] by linarith
    have "dec_is_zero y1" using oy1 True by (simp add: dec_is_zero_val y1)
    moreover have "y1 = dec_mk (d_mant x) (d_exp x - (q0 - q0))" by (simp add: y1_def j0)
    ultimately show ?thesis using j(2) True y1b y1 unfolding y1_def [symmetric]
      by (intro exI [of _ y1] exI [of _ q0]) (simp add: j0)
  next
    case False
    then have pos: "0 < dval x" using x0 by simp
    have nz: "\<not> dec_is_zero y1" using oy1 False by (simp add: dec_is_zero_val y1)
    show ?thesis
    proof (cases "j = 0")
      case False
      then have "10 powi (int b - 1) \<le> dval y1"
        using j(4) by (simp add: y1 power_int_add power_int_diff field_simps)
      moreover from this have "std_up (dec_ten_up (int b - 1)) y1 (q0 + int j) = Some (y1, q0 + int j)"
        using oy1 b8 by (subst std_up.simps) (simp add: dec_cmp_zero dec_ok_ten_up)
      ultimately show ?thesis using j nz j8 y1b \<open>dval x \<noteq> 0\<close>
        by (intro exI [of _ y1] exI [of _ "q0 + int j"]) (simp add: y1_def)
    next
      case True
      have y1x: "y1 = x" "dval y1 = dval x" by (simp_all add: y1_def True dec_mk_eta)
      let ?n = "b + FLOAT_BOUND"
      have "(10 :: rat) powi (int b - 1 - int ?n) \<le> 10 powi (- int FLOAT_BOUND)"
        by (rule power_int_increasing) simp_all
      then have lo2: "10 powi (int b - 1 - int ?n) \<le> dval x" using dec_float_range(2) [OF x pos] by linarith
      have hi2: "d_exp x + int ?n \<le> 1000000000" "\<bar>int b - 1\<bar> \<le> 1000000000" using ex b8 FB by simp_all
      obtain i where i: "i \<le> ?n" "std_up (dec_ten_up (int b - 1)) x q0 = Some (dec_mk (d_mant x) (d_exp x + int i), q0 - int i)"
          "10 powi (int b - 1 - int i) \<le> dval x" "i = 0 \<or> dval x < 10 powi (int b - 1 - int i + 1)"
        using std_up_ok [OF ox lo2 hi2, of q0] by blast
      define y where "y = dec_mk (d_mant x) (d_exp x + int i)"
      have y: "dval y = dval x * 10 ^ i" by (simp add: y_def dval_shift_up dval_eta)
      have i8: "int i \<le> 20000000" using i(1) b8 FB by linarith
      have "10 powi (int b - 1) = 10 powi (int b - 1 - int i) * (10 :: rat) ^ i"
        using power_int_add [of "10 :: rat" "int b - 1 - int i" "int i"] by simp
      then have "10 powi (int b - 1) \<le> dval y" using mult_right_mono [OF i(3), of "10 ^ i"] by (simp add: y)
      moreover have "dval y < 10 powi int b"
        using i(4) y1b y1x(2) by (cases "i = 0") (auto simp: y power_int_diff field_simps)
      moreover have "std_up (dec_ten_up (int b - 1)) y1 q0 = Some (y, q0 - int i)"
        using i(2) by (simp add: y1x(1) y_def)
      moreover have "std_down (dec_ten_up (int b)) x q0 = Some (y1, q0)" using j(2) by (simp add: y1_def True)
      moreover have "y = dec_mk (d_mant x) (d_exp x - (q0 - int i - q0))" by (simp add: y_def)
      ultimately show ?thesis using nz i8 pos
        by (intro exI [of _ y] exI [of _ "q0 - int i"]) simp
    qed
  qed
qed

lemma standardize_ok:
  assumes x: "dec_float x" and b: "b \<le> FLOAT_BOUND" and a: "a \<le> FLOAT_BOUND"
  shows "\<exists>z q. standardize x (int b) (int a) q0 = Some (z, q) \<and> dec_scaled z \<and> \<bar>q - q0\<bar> \<le> 20000001 \<and>
    (dval x = 0 \<longrightarrow> dval z = 0 \<and> q = q0) \<and>
    (0 < dval x \<longrightarrow> 10 powi (int b - 1) \<le> dval z \<and> dval z < 10 powi int b \<and>
      (if dval x / 10 powi (q - q0) = dval z then dval z + 1 / 2 / 10 ^ a < 10 powi int b
       else dval z = 10 powi (int b - 1) \<and> dval x / 10 powi (q - 1 - q0) < 10 powi int b \<and>
         10 powi int b \<le> dval x / 10 powi (q - 1 - q0) + 1 / 2 / 10 ^ a))"
proof -
  note FB = FLOAT_BOUND_int
  have b8: "int b \<le> 10000000" and a8: "int a \<le> 10000000" using b a FB by linarith+
  have ex: "\<bar>d_exp x\<bar> \<le> 10000000" using x FB by (simp add: dec_float_def)
  define g where "g = dec_ten_up (int b)"
  have og: "dec_ok g" "dval g = 10 powi int b" using b8 by (simp_all add: g_def dec_ok_ten_up)
  have h: "dec_div10 g = dec_ten_up (int b - 1)"
    using dec_scale_fields(2) [OF og(1)] by (simp add: g_def dec_ten_up_def)
  obtain y q where y: "Option.bind (std_down g x q0) (\<lambda>(y1, q1).
      if dec_is_zero y1 then Some (y1, q1) else std_up (dec_ten_up (int b - 1)) y1 q1) = Some (y, q)"
    "y = dec_mk (d_mant x) (d_exp x - (q - q0))" "\<bar>q - q0\<bar> \<le> 20000000" "dval y < 10 powi int b"
    "dval x = 0 \<longrightarrow> dval y = 0 \<and> q = q0" "0 < dval x \<longrightarrow> 10 powi (int b - 1) \<le> dval y"
    using std_loops_ok [OF x b, of q0] unfolding g_def by blast
  have oy: "dec_ok y" using ex y(3) x by (simp add: y(2) dec_ok_def dec_float_def)
  have vy: "dval y = dval x / 10 powi (q - q0)" by (simp add: y(2) dval_def power_int_diff)
  have "a \<le> DIGIT_BOUND" using a8 DIGIT_BOUND_int by linarith
  note hu = half_ulp [OF this]
  define carry where "carry \<longleftrightarrow> 10 powi int b \<le> dval y + 1 / 2 / 10 ^ a"
  have c: "dec_ge (dec_sub (dec_add (dec_half (dec_ten_up (- int a))) y) g) dec_zero \<longleftrightarrow> carry"
    using dec_add_ok [OF hu(1) oy] by (simp add: dec_cmp_zero(1) og hu(2) carry_def add.commute)
  have st: "standardize x (int b) (int a) q0 = Some (if carry then (dec_ten_up (int b - 1), q + 1) else (y, q))"
  proof -
    have hd: "dec_mk (big_dup (d_mant (dec_ten_up (int b - 1)))) (d_exp (dec_ten_up (int b - 1))) = dec_ten_up (int b - 1)"
      by (simp add: dec_ten_up_def big_dup_id)
    have "standardize x (int b) (int a) q0 = Option.bind (Option.bind (std_down g x q0) (\<lambda>(y1, q1).
      if dec_is_zero y1 then Some (y1, q1) else std_up (dec_ten_up (int b - 1)) y1 q1)) (\<lambda>(y2, q2).
        Some (if dec_ge (dec_sub (dec_add (dec_half (dec_ten_up (- int a))) y2) g) dec_zero
          then (dec_ten_up (int b - 1), q2 + 1) else (y2, q2)))"
      unfolding standardize_def Let_def g_def [symmetric] h hd
      by (cases "std_down g x q0") (auto split: prod.split)
    then show ?thesis unfolding y(1) using c by simp
  qed
  show ?thesis
  proof (cases carry)
    case True
    have nz: "0 < dval x"
    proof (rule ccontr)
      assume "\<not> 0 < dval x"
      then have "dval x = 0" using x by (simp add: dval_sign dec_float_def)
      then have "10 powi int b \<le> (1 :: rat) / 2 / 10 ^ a" using True y(5) by (simp add: carry_def)
      then have "(10 :: rat) ^ b \<le> 1 / 2 / 10 ^ a" by (simp only: power_int_of_nat)
      then show False using half_small [of a] one_le_power [of "10 :: rat" b] by linarith
    qed
    have ne: "dval x / 10 powi (q + 1 - q0) \<noteq> 10 powi (int b - 1)"
    proof
      assume "dval x / 10 powi (q + 1 - q0) = 10 powi (int b - 1)"
      then have "dval y = 10 powi int b" by (simp add: vy power_int_add power_int_diff field_simps)
      then show False using y(4) by simp
    qed
    have "(10 :: rat) powi (int b - 1) < 10 powi int b" by (rule power_int_strict_increasing) simp_all
    moreover have "dec_scaled (dec_ten_up (int b - 1))"
    proof -
      have "0 < FLOAT_BOUND" by (simp add: FLOAT_BOUND_def)
      then have "(1 :: int) < 10 ^ FLOAT_BOUND" by simp
      then show ?thesis using b8 by (simp add: dec_scaled_def dec_ten_up_def big_from_i64_val)
    qed
    ultimately show ?thesis
      using True y(3,4) nz ne st by (intro exI [of _ "dec_ten_up (int b - 1)"] exI [of _ "q + 1"]) (simp add: vy carry_def)
  next
    case False
    moreover have "dec_scaled y" using x ex y(3) by (simp add: y(2) dec_scaled_def dec_float_def)
    ultimately show ?thesis
      using y(3-6) st vy by (intro exI [of _ y] exI [of _ q]) (simp add: carry_def)
  qed
qed

lemma c_rem_dvd: "0 < f \<Longrightarrow> c_rem p f = 0 \<longleftrightarrow> f dvd p"
proof
  assume "0 < f" "f dvd p"
  then have "\<bar>p\<bar> div f * f = \<bar>p\<bar>" by simp
  then have "sgn p * (\<bar>p\<bar> div f) * f = p" by (simp add: mult.assoc sgn_mult_abs)
  then show "c_rem p f = 0" using \<open>0 < f\<close> by (simp add: c_rem_def c_quot_def)
next
  assume "0 < f" "c_rem p f = 0"
  then have "p = c_quot p f * f" by (simp add: c_rem_def)
  then show "f dvd p" by (metis dvd_triv_right)
qed

lemma frmt_loop_ok:
  "0 < f \<Longrightarrow> dec_ok z \<Longrightarrow> d_exp z + int m \<le> 1000000000 \<Longrightarrow> 0 \<le> after \<Longrightarrow> q mod f = int m \<Longrightarrow>
   frmt_loop f z q after = Some (dec_mk (d_mant z) (d_exp z + int m), q - int m, max 0 (after - int m))"
proof (induction m arbitrary: z q after)
  case 0
  then have "c_rem q f = 0" by (simp add: c_rem_dvd mod_0_imp_dvd)
  then show ?case using 0 by (subst frmt_loop.simps) (simp add: dec_mk_eta)
next
  case (Suc m)
  have ne: "c_rem q f \<noteq> 0"
    using Suc.prems(1,5) by (simp add: c_rem_dvd dvd_eq_mod_eq_0)
  have m: "(q - 1) mod f = int m"
  proof -
    have "int m < f" using Suc.prems(1,5) pos_mod_bound [of f q] by linarith
    then have "int m mod f = int m" by simp
    moreover have "(q - 1) mod f = (q mod f - 1) mod f" by (simp add: mod_diff_left_eq)
    ultimately show ?thesis using Suc.prems(5) by simp
  qed
  have z: "dec_mul10 z = dec_mk (d_mant z) (d_exp z + 1)" using dec_scale_fields(1) [OF Suc.prems(2)] .
  have "frmt_loop f (dec_mul10 z) (q - 1) (if after > 0 then after - 1 else after) =
      Some (dec_mk (d_mant (dec_mul10 z)) (d_exp (dec_mul10 z) + int m), q - 1 - int m,
        max 0 ((if after > 0 then after - 1 else after) - int m))"
    by (rule Suc.IH) (use Suc.prems m in \<open>auto simp: z dec_ok_def\<close>)
  then show ?case using ne Suc.prems(4)
    by (subst frmt_loop.simps) (auto simp: z algebra_simps)
qed

text \<open>One attempt returns, and with an exponent width the string has exactly the width asked for.\<close>

lemma float_try_ok:
  assumes x: "dec_float x" and w: "\<bar>width\<bar> \<le> int FLOAT_BOUND" and f: "0 < frmt" "frmt \<le> int FLOAT_BOUND"
    and a: "0 \<le> after" and e: "- (2 ^ 63) < expo"
    and b: "before = \<bar>width\<bar> - \<bar>expo\<bar> - (if after \<noteq> 0 then after + 1 else 0) - 2" "0 \<le> before" "0 < before \<or> 0 < after"
  shows "\<exists>s after'. float_try ltz x width before after expo frmt = Some (s, after') \<and> 0 \<le> after' \<and> after' \<le> after \<and>
    (expo \<noteq> 0 \<longrightarrow> length s = nat \<bar>width\<bar>)"
proof -
  note FB = FLOAT_BOUND_int
  have a8: "after \<le> int FLOAT_BOUND" using w a b by (auto split: if_splits)
  have wr: "2 \<le> \<bar>width\<bar>" "\<bar>width\<bar> \<le> 10000000" using w FB b a by (auto split: if_splits)
  have aw: "i64_abs width = \<bar>width\<bar>" "i64_abs expo = \<bar>expo\<bar>" using wr(2) e by (simp_all add: i64_abs_eq)
  have wf: "big_wf (d_mant x)" using x by (simp add: dec_float_def)
  have bn: "nat before \<le> FLOAT_BOUND" "nat after \<le> FLOAT_BOUND" using b(1,2) w a a8 by (auto split: if_splits)
  obtain z q where z: "standardize x before after 0 = Some (z, q)" "dec_scaled z"
    using standardize_ok [OF x bn, of 0] b(2) a by auto
  define m where "m = nat (q mod frmt)"
  have m: "q mod frmt = int m" "int m < frmt" using f(1) by (simp_all add: m_def)
  have zo: "dec_ok z" "\<bar>d_exp z\<bar> \<le> 40000000" using z(2) by (simp_all add: dec_scaled_def dec_ok_def)
  define z' where "z' = dec_mk (d_mant z) (d_exp z + int m)"
  have fs: "frmt_shift frmt z q after = Some (z', q - int m, max 0 (after - int m))"
    using frmt_loop_ok [OF f(1) zo(1) _ a m(1)] zo(2) m(2) f FB by (simp add: frmt_shift_def z'_def)
  have sz: "dec_small z'" unfolding z'_def by (rule dec_scaled_shift [OF z(2)]) (use zo(2) m(2) f(2) FB in linarith)
  define mw where "mw = fmt_sgn width * (\<bar>width\<bar> - \<bar>expo\<bar> - 1)"
  have mw: "\<bar>mw\<bar> = \<bar>width\<bar> - \<bar>expo\<bar> - 1" "mw \<noteq> 0" "- (2 ^ 63) < mw"
    using b wr a by (auto simp: mw_def fmt_sgn_def abs_mult split: if_splits)
  have ad: "nat (max 0 (after - int m)) \<le> DIGIT_BOUND" using a8 FB DIGIT_BOUND_int by (simp add: nat_le_iff)
  obtain s where s: "a68_fmt_fixed_dec ltz z' mw (max 0 (after - int m)) = Some s" "length s = nat \<bar>mw\<bar>"
    using fixed_dec_length [OF sz ad mw(2,3), of ltz] by auto
  define ex where "ex = a68_fmt_whole_int (big_from_i64 (word_of_int (q - int m))) expo"
  have "length (s @ ''e'' @ ex) = nat \<bar>width\<bar>" if "expo \<noteq> 0"
  proof -
    have "0 \<le> \<bar>width\<bar> - \<bar>expo\<bar> - 1" using mw(1) abs_ge_zero [of mw] by linarith
    then have "Suc (nat (\<bar>width\<bar> - \<bar>expo\<bar> - 1) + nat \<bar>expo\<bar>) = nat \<bar>width\<bar>" by linarith
    then show ?thesis using whole_int_length [OF big_from_i64_wf e that] s(2) by (simp add: ex_def mw(1))
  qed
  moreover have "float_try ltz x width before after expo frmt = Some (s @ ''e'' @ ex, max 0 (after - int m))"
    using z(1) fs s(1) by (simp add: float_try_def big_dup_id [OF wf] dec_mk_eta aw mw_def [symmetric] str_concat3_def ex_def Let_def)
  ultimately show ?thesis using a by auto
qed

lemma float_dec_step:
  "a68_fmt_float_dec ltz x width after expo frmt =
    (let before = i64_abs width - i64_abs expo - (if after \<noteq> 0 then after + 1 else 0) - 2
     in if \<not> (fmt_sgn before + fmt_sgn after > 0) then Some (error_chars width)
        else Option.bind (float_try ltz x width before after expo frmt) (\<lambda>(s, after').
          if expo = 0 \<or> a68_fmt_has_error s
          then a68_fmt_float_dec ltz x width (if after' \<noteq> 0 then after' - 1 else 0) (if expo > 0 then expo + 1 else expo - 1) frmt
          else Some s))"
  by (rule a68_fmt_float_dec.simps)

lemma float_dec_total:
  assumes "dec_float x" "\<bar>width\<bar> \<le> int FLOAT_BOUND" "0 < frmt" "frmt \<le> int FLOAT_BOUND" "- (2 ^ 63) < expo"
  shows "\<exists>s. a68_fmt_float_dec ltz x width after expo frmt = Some s \<and> length s = (if width = 0 then 1 else nat \<bar>width\<bar>)"
  using assms(5)
proof (induction "nat (\<bar>width\<bar> - \<bar>expo\<bar>)" arbitrary: after expo rule: less_induct)
  case less
  have aw: "i64_abs width = \<bar>width\<bar>" "i64_abs expo = \<bar>expo\<bar>"
    using assms(2) FLOAT_BOUND_int less.prems by (simp_all add: i64_abs_eq)
  define before where "before = \<bar>width\<bar> - \<bar>expo\<bar> - (if after \<noteq> 0 then after + 1 else 0) - 2"
  note st = float_dec_step [of ltz x width after expo frmt, unfolded aw before_def [symmetric] Let_def]
  show ?case
  proof (cases "fmt_sgn before + fmt_sgn after > 0")
    case False
    then show ?thesis using length_error_chars [of width] by (simp add: st)
  next
    case True
    then have r: "0 \<le> after" "0 \<le> before" "0 < before \<or> 0 < after" by (auto simp: fmt_sgn_def split: if_splits)
    obtain s after' where t: "float_try ltz x width before after expo frmt = Some (s, after')" "0 \<le> after'"
        "expo \<noteq> 0 \<longrightarrow> length s = nat \<bar>width\<bar>"
      using float_try_ok [OF assms(1-4) r(1) less.prems before_def r(2,3)] by blast
    have w0: "width \<noteq> 0" using r by (auto simp: before_def split: if_splits)
    define expo' where "expo' = (if expo > 0 then expo + 1 else expo - 1)"
    have ee: "\<bar>expo'\<bar> = \<bar>expo\<bar> + 1" by (simp add: expo'_def)
    have lt: "\<bar>expo\<bar> < \<bar>width\<bar>" using r by (auto simp: before_def split: if_splits)
    have "nat (\<bar>width\<bar> - \<bar>expo'\<bar>) < nat (\<bar>width\<bar> - \<bar>expo\<bar>)" using ee lt by linarith
    moreover have "- (2 ^ 63) < expo'"
    proof -
      have "- 10000000 \<le> expo'" using ee lt assms(2) FLOAT_BOUND_int by linarith
      then show ?thesis by simp
    qed
    ultimately have IH: "\<exists>s. a68_fmt_float_dec ltz x width a expo' frmt = Some s \<and> length s = (if width = 0 then 1 else nat \<bar>width\<bar>)" for a
      by (rule less.hyps)
    show ?thesis using st True t w0 IH expo'_def by (cases "expo = 0 \<or> a68_fmt_has_error s") auto
  qed
qed

section \<open>Lemmas: zero and a negative \<open>frmt\<close>\<close>

lemma big_scale10_any: "big_wf m \<Longrightarrow> big_wf (big_scale10 m k) \<and> (\<exists>j. big_val (big_scale10 m k) = big_val m * 10 ^ j)"
proof (cases "k \<le> 0")
  case True
  assume "big_wf m"
  then show ?thesis using True by (auto simp: big_scale10_def big_dup_id intro: exI [of _ 0])
next
  case False
  assume "big_wf m"
  then show ?thesis using False bi.scale_val [of m "s32_of_int k"] by (auto simp: big_scale10_def)
qed

lemma dec_sub_mant:
  assumes "big_wf (d_mant a)" "big_wf (d_mant b)"
  shows "big_wf (d_mant (dec_sub a b)) \<and>
    (\<exists>i j. big_val (d_mant (dec_sub a b)) = big_val (d_mant a) * 10 ^ i - big_val (d_mant b) * 10 ^ j)"
proof -
  obtain x y e where al: "dec_align a b = (x, y, e)" by (metis prod_cases3)
  then have x: "x = big_scale10 (d_mant a) (d_exp a - e)" and y: "y = big_scale10 (d_mant b) (d_exp b - e)"
    by (auto simp: dec_align_def Let_def)
  obtain i j where "big_wf x" "big_wf y" "big_val x = big_val (d_mant a) * 10 ^ i" "big_val y = big_val (d_mant b) * 10 ^ j"
    using big_scale10_any assms unfolding x y by meson
  then show ?thesis by (auto simp: dec_sub_def al big_sub_val)
qed

lemma zero_below:
  assumes "big_wf (d_mant z)" "big_val (d_mant z) = 0" "big_wf (d_mant l)" "0 < big_val (d_mant l)"
  shows "dec_lt (dec_sub z l) dec_zero"
proof -
  let ?d = "dec_sub z l"
  have d: "big_wf (d_mant ?d)" "big_val (d_mant ?d) < 0"
    using dec_sub_mant [OF assms(1,3)] assms(2,4) by auto
  have z: "big_wf (d_mant dec_zero)" "big_val (d_mant dec_zero) = 0" by (simp_all add: dec_zero_def big_from_i64_val)
  have "big_wf (d_mant (dec_sub ?d dec_zero))" "big_val (d_mant (dec_sub ?d dec_zero)) < 0"
    using dec_sub_mant [OF d(1) z(1)] d(2) z(2) by (auto simp: mult_less_0_iff)
  then show ?thesis by (simp add: dec_lt_def dec_cmp_def dec_sign_def big_sign_val)
qed

lemma lim_up_zero:
  assumes "big_wf (d_mant z)" "big_val (d_mant z) = 0" "big_wf (d_mant l)" "0 < big_val (d_mant l)"
  shows "lim_up l z q after = None"
proof (rule ccontr)
  assume "lim_up l z q after \<noteq> None"
  then obtain r where r: "lim_up l z q after = Some r" by blast
  have "\<not> (big_wf (d_mant z) \<and> big_val (d_mant z) = 0 \<and> big_wf (d_mant l) \<and> 0 < big_val (d_mant l))"
  proof (rule lim_up.raw_induct [where P = "\<lambda>l z q after r.
      \<not> (big_wf (d_mant z) \<and> big_val (d_mant z) = 0 \<and> big_wf (d_mant l) \<and> 0 < big_val (d_mant l))", OF _ r])
    fix rec :: "a68_dec \<Rightarrow> a68_dec \<Rightarrow> int \<Rightarrow> int \<Rightarrow> (a68_dec \<times> int \<times> int) option" and l z q after r
    assume IH: "\<And>l z q after r. rec l z q after = Some r \<Longrightarrow>
        \<not> (big_wf (d_mant z) \<and> big_val (d_mant z) = 0 \<and> big_wf (d_mant l) \<and> 0 < big_val (d_mant l))"
      and step: "(if dec_lt (dec_sub z l) dec_zero
        then rec l (dec_mul10 z) (q - 1) (if after > 0 then after - 1 else after) else Some (z, q, after)) = Some r"
    show "\<not> (big_wf (d_mant z) \<and> big_val (d_mant z) = 0 \<and> big_wf (d_mant l) \<and> 0 < big_val (d_mant l))"
    proof
      assume a: "big_wf (d_mant z) \<and> big_val (d_mant z) = 0 \<and> big_wf (d_mant l) \<and> 0 < big_val (d_mant l)"
      then have "rec l (dec_mul10 z) (q - 1) (if after > 0 then after - 1 else after) = Some r"
        using step zero_below by (simp only: if_True)
      then show False using IH a by (fastforce simp: dec_mul10_def big_dup_id)
    qed
  qed
  then show False using assms by blast
qed

section \<open>Lemmas: exponents of denotations\<close>

lemma exp_digits_snoc:
  "\<forall>x \<in> set s. is_digit x \<Longrightarrow> is_digit c \<Longrightarrow>
   exp_digits (s @ [c]) e = (let v = exp_digits s e in if v < 1000000000 then v * 10 + int (digit_val c) else v)"
  by (induction s arbitrary: e) (simp_all add: Let_def)

lemma exp_digits_nat_dec: "n < 10000000000 \<Longrightarrow> exp_digits (nat_dec n) 0 = int n"
proof (induction n rule: nat_dec.induct)
  case (1 n)
  show ?case
  proof (cases "n < 10")
    case True
    then show ?thesis by (simp add: nat_dec_small)
  next
    case False
    have lt: "n div 10 < 1000000000" using 1(2) by linarith
    have "exp_digits (nat_dec (n div 10)) 0 = int (n div 10)" using 1(1) False 1(2) by simp
    then have "exp_digits (nat_dec n) 0 = int (n div 10) * 10 + int (n mod 10)"
      using lt False by (simp add: nat_dec_step exp_digits_snoc nat_dec_digits Let_def)
    also have "\<dots> = int (n div 10 * 10 + n mod 10)" by (simp only: of_nat_add of_nat_mult of_nat_numeral)
    finally show ?thesis by simp
  qed
qed

lemma takeWhile_digits_app:
  "\<forall>x \<in> set s. is_digit x \<Longrightarrow> \<not> is_digit c \<Longrightarrow> takeWhile is_digit (s @ c # t) = s \<and> dropWhile is_digit (s @ c # t) = c # t"
  by (induction s) auto

section \<open>Properties\<close>

text \<open>
  \<open>print_bits\<close> writes \<open>width\<close> flips and flops, bit 0 last: the character \<open>i\<close> from the end is
  \<open>T\<close> exactly when bit \<open>i\<close> of the magnitude is set.
\<close>

theorem print_bits_flips:
  assumes "big_wf v" and "0 \<le> width"
  shows "int (length (a68_fmt_print_bits v width)) = width \<and>
    (\<forall>i < nat width. a68_fmt_print_bits v width ! (nat width - 1 - i) =
       (if bit (nat \<bar>big_val v\<bar>) i then CHR ''T'' else CHR ''F''))"
proof (intro conjI allI impI)
  show "int (length (a68_fmt_print_bits v width)) = width"
    using assms(2) by (simp add: a68_fmt_print_bits_def Let_def str_fill_def)
  fix i assume i: "i < nat width"
  define ws where "ws = bits_words ((nat width + 31) div 32) (big_abs v)"
  have k: "i div 32 < (nat width + 31) div 32" using i by linarith
  have w: "unat (ws ! (i div 32)) = take_bit 32 (drop_bit (32 * (i div 32)) (nat \<bar>big_val v\<bar>))"
    using bits_words_spec [OF big_abs_wf [OF assms(1)] _ k] by (simp add: ws_def big_abs_val)
  have "and (drop_bit (i mod 32) (ws ! (i div 32))) 1 \<noteq> 0 \<longleftrightarrow> bit (ws ! (i div 32)) (i mod 32)"
    by (simp add: and_one_eq bit_iff_odd_drop_bit odd_iff_mod_2_eq_one)
  also have "\<dots> \<longleftrightarrow> bit (unat (ws ! (i div 32))) (i mod 32)" by (simp add: bit_unsigned_iff)
  also have "\<dots> \<longleftrightarrow> bit (nat \<bar>big_val v\<bar>) i" by (simp add: w bit_take_bit_iff bit_drop_bit_eq)
  finally have b: "and (drop_bit (i mod 32) (ws ! (i div 32))) 1 \<noteq> 0 \<longleftrightarrow> bit (nat \<bar>big_val v\<bar>) i" .
  show "a68_fmt_print_bits v width ! (nat width - 1 - i) = (if bit (nat \<bar>big_val v\<bar>) i then CHR ''T'' else CHR ''F'')"
    using set_flips_nth [of "nat width" "nat width" "str_fill (nat width) (CHR ''F'')" i ws] i b
    by (simp add: a68_fmt_print_bits_def Let_def ws_def [symmetric] str_fill_def)
qed

theorem print_bits_flips_witness:
  "a68_fmt_print_bits (big_from_i64 5) 3 ! 0 = CHR ''T'' \<and> a68_fmt_print_bits (big_from_i64 5) 3 ! 1 = CHR ''F''"
proof -
  have b: "bit (5 :: nat) 2" "\<not> bit (5 :: nat) 1" by (simp_all add: bit_iff_odd)
  show ?thesis
    using conjunct2 [OF print_bits_flips [OF big_from_i64_wf, of 3 5], rule_format, of 2]
      conjunct2 [OF print_bits_flips [OF big_from_i64_wf, of 3 5], rule_format, of 1] b
    by (simp add: big_from_i64_val)
qed

text \<open>
  \<open>standardize\<close> returns, and brings a positive number into \<open>[10 powi (b - 1), 10 powi b)\<close> with the
  exponent that keeps its value; only when rounding to \<open>a\<close> decimals would reach \<open>10 powi b\<close> does it
  answer \<open>10 powi (b - 1)\<close> with an exponent one higher. Zero keeps its exponent.
\<close>

theorem standardize_normalises:
  assumes "dec_float x" and "b \<le> FLOAT_BOUND" and "a \<le> FLOAT_BOUND"
  shows "\<exists>z q. a68_fmt_standardize x (int b) (int a) 0 = Some (z, q) \<and>
    (dval x = 0 \<longrightarrow> dval z = 0 \<and> q = 0) \<and>
    (0 < dval x \<longrightarrow> 10 powi (int b - 1) \<le> dval z \<and> dval z < 10 powi int b \<and>
      (dval z * 10 powi q = dval x \<and> dval z + 1 / 2 / 10 ^ a < 10 powi int b \<or>
       dval z = 10 powi (int b - 1) \<and> dval x < 10 powi (int b + q - 1) \<and>
         10 powi int b \<le> dval x / 10 powi (q - 1) + 1 / 2 / 10 ^ a))"
proof -
  have e: "dec_mk (big_dup (d_mant x)) (d_exp x) = x"
    using assms(1) by (simp add: dec_float_def big_dup_id dec_mk_eta)
  obtain z q where z: "standardize x (int b) (int a) 0 = Some (z, q)" "dval x = 0 \<longrightarrow> dval z = 0 \<and> q = 0"
    "0 < dval x \<longrightarrow> 10 powi (int b - 1) \<le> dval z \<and> dval z < 10 powi int b \<and>
      (if dval x / 10 powi q = dval z then dval z + 1 / 2 / 10 ^ a < 10 powi int b
       else dval z = 10 powi (int b - 1) \<and> dval x / 10 powi (q - 1) < 10 powi int b \<and>
         10 powi int b \<le> dval x / 10 powi (q - 1) + 1 / 2 / 10 ^ a)"
    using standardize_ok [OF assms, of 0, unfolded diff_zero] by blast
  have d: "dval x / 10 powi (q - 1) < 10 powi int b \<longleftrightarrow> dval x < 10 powi (int b + q - 1)"
    using power_int_add [of "10 :: rat" "int b" "q - 1"] by (simp add: divide_less_eq add_diff_eq)
  have v: "dval x / 10 powi q = dval z \<longleftrightarrow> dval z * 10 powi q = dval x" by (auto simp: divide_eq_eq)
  have "a68_fmt_standardize x (int b) (int a) 0 = Some (z, q)" using z(1) by (simp only: a68_fmt_standardize_def e)
  moreover have "0 < dval x \<longrightarrow> 10 powi (int b - 1) \<le> dval z \<and> dval z < 10 powi int b \<and>
      (dval z * 10 powi q = dval x \<and> dval z + 1 / 2 / 10 ^ a < 10 powi int b \<or>
       dval z = 10 powi (int b - 1) \<and> dval x < 10 powi (int b + q - 1) \<and>
         10 powi int b \<le> dval x / 10 powi (q - 1) + 1 / 2 / 10 ^ a)"
    using z(3) unfolding d v by presburger
  ultimately show ?thesis using z(2) by blast
qed

lemma dec_float_intro:
  "big_wf m \<Longrightarrow> 0 \<le> big_val m \<Longrightarrow> big_val m < 10 ^ k \<Longrightarrow> k \<le> 10000000 \<Longrightarrow> \<bar>e\<bar> \<le> 10000000 \<Longrightarrow> dec_float (dec_mk m e)"
proof -
  assume a: "big_wf m" "0 \<le> big_val m" "big_val m < 10 ^ k" "k \<le> 10000000" "\<bar>e\<bar> \<le> 10000000"
  have "k \<le> FLOAT_BOUND" using a(4) FLOAT_BOUND_int by linarith
  then have "(10 :: int) ^ k \<le> 10 ^ FLOAT_BOUND" by simp
  then have "big_val m < 10 ^ FLOAT_BOUND" using a(3) by linarith
  then show ?thesis using a FLOAT_BOUND_int by (simp add: dec_float_def)
qed

lemma demo_float: "dec_float dec_demo" "dec_float dec_zero"
  unfolding dec_demo_def dec_zero_def by (rule dec_float_intro [where k = 4]; simp add: big_from_i64_val)+

lemma float_bound_ge: "k \<le> 1000 \<Longrightarrow> k \<le> FLOAT_BOUND"
  by (simp add: FLOAT_BOUND_def)

theorem standardize_normalises_witness:
  "\<exists>z q. a68_fmt_standardize dec_demo 2 3 0 = Some (z, q) \<and> 10 \<le> dval z \<and> dval z < 100"
  using standardize_normalises [OF demo_float(1) float_bound_ge float_bound_ge, of 2 3] by (auto simp: dec_demo_ok)

text \<open>
  C11: \<open>float\<close> and \<open>real\<close> with a positive \<open>frmt\<close> return for every width, precision and exponent
  width (widths and \<open>frmt\<close> up to \<open>FLOAT_BOUND\<close>): the retries with a wider exponent and fewer
  decimals end, and the string has exactly \<open>|width|\<close> characters (one error character for width 0).
\<close>

theorem float_dec_fills_width:
  assumes "dec_float x" and "\<bar>width\<bar> \<le> int FLOAT_BOUND" and "0 < frmt" and "frmt \<le> int FLOAT_BOUND" and "- (2 ^ 63) < expo"
  shows "\<exists>s. a68_fmt_float_dec ltz x width after expo frmt = Some s \<and>
    length s = (if width = 0 then 1 else nat \<bar>width\<bar>)"
  by (rule float_dec_total [OF assms])

theorem float_dec_fills_width_witness:
  "\<exists>s. a68_fmt_float_dec False dec_demo 12 3 0 1 = Some s \<and> length s = 12"
  using float_dec_fills_width [OF demo_float(1), of 12 1 0 False 3] FLOAT_BOUND_int by simp

text \<open>
  C12: \<open>real\<close> of zero with \<open>frmt \<le> 0\<close> does not return: the loop that multiplies the mantissa by ten
  until it reaches \<open>10 powi (- frmt - 1)\<close> has nothing to multiply. The precondition is the one
  under which the call gets as far as formatting.
\<close>

theorem float_zero_diverges:
  assumes "dec_float x" and "dval x = 0" and "frmt \<le> 0" and "\<bar>width\<bar> \<le> int FLOAT_BOUND" and "0 \<le> after"
    and "\<bar>expo\<bar> + after + 4 \<le> \<bar>width\<bar>"
  shows "a68_fmt_float_dec ltz x width after expo frmt = None"
proof -
  have aw: "i64_abs width = \<bar>width\<bar>" "i64_abs expo = \<bar>expo\<bar>"
    using assms(4,6) assms(5) FLOAT_BOUND_int by (auto simp: i64_abs_eq)
  define before where "before = \<bar>width\<bar> - \<bar>expo\<bar> - (if after \<noteq> 0 then after + 1 else 0) - 2"
  have b: "0 < before" "before \<le> \<bar>width\<bar>" "after \<le> \<bar>width\<bar>" using assms(5,6) by (auto simp: before_def)
  have bn: "nat before \<le> FLOAT_BOUND" "nat after \<le> FLOAT_BOUND" using b assms(4,5) by simp_all
  obtain z q where z: "standardize x before after 0 = Some (z, q)" "dval z = 0" "dec_scaled z"
    using standardize_ok [OF assms(1) bn, of 0] assms(2,5) b by auto
  have "big_wf (d_mant z)" "big_val (d_mant z) = 0" using z(2,3) by (simp_all add: dec_scaled_def dval_sign)
  then have "frmt_shift frmt z q after = None"
    using lim_up_zero [of z "dec_ten_up (- frmt - 1)"] assms(3)
    by (simp add: frmt_shift_def Let_def dec_ten_up_def big_from_i64_val)
  moreover have "dec_mk (big_dup (d_mant x)) (d_exp x) = x"
    using assms(1) by (simp add: dec_float_def big_dup_id dec_mk_eta)
  ultimately have "float_try ltz x width before after expo frmt = None" using z(1) by (simp add: float_try_def)
  moreover have "fmt_sgn before + fmt_sgn after > 0" using b(1) assms(5) by (simp add: fmt_sgn_def)
  ultimately show ?thesis
    using float_dec_step [of ltz x width after expo frmt, unfolded aw before_def [symmetric] Let_def] by simp
qed

theorem float_zero_diverges_witness: "a68_fmt_float_dec False dec_zero 10 2 2 0 = None"
  using float_zero_diverges [OF demo_float(2), of 0 10 2 2 False] FLOAT_BOUND_int by simp

lemma max_int_val:
  "big_val (a68_fmt_max_int longness ll) =
    (if longness \<le> 0 then 2147483647 else if longness = 1 then 10 ^ 49 - 1 else 10 ^ nat (ll * 7) - 1)"
  by (simp add: a68_fmt_max_int_def big_from_i64_val big_sub_val big_pow10_val)

lemma length_dec_below: "0 < k \<Longrightarrow> \<bar>v\<bar> \<le> 10 ^ k - 1 \<Longrightarrow> length (nat_dec (nat \<bar>v\<bar>)) \<le> k"
  by (simp add: length_nat_dec_le nat_less_iff)

text \<open>
  Default printing has room. Every INT, LONG INT and LONG LONG INT within the limits of its
  mode (\<open>a68_fmt_max_int\<close>) is printed by \<open>print_int\<close> with its sign and all its digits, right
  justified in the standard width of the mode, never with error characters.
\<close>

theorem print_int_fits:
  assumes "big_wf n" and "\<bar>big_val n\<bar> \<le> big_val (a68_fmt_max_int longness ll)" and "1 \<le> ll" and "ll \<le> 100000"
  defines "d \<equiv> (if big_val n < 0 then ''-'' else ''+'') @ nat_dec (nat \<bar>big_val n\<bar>)"
  defines "w \<equiv> nat (if longness \<le> 0 then 11 else a68_fmt_int_width longness ll)"
  shows "length d \<le> w \<and> a68_fmt_print_int n longness ll = replicate (w - length d) (CHR '' '') @ d"
proof -
  define k where "k = (if longness \<le> 0 then 10 else if longness = 1 then 49 else nat (ll * 7))"
  have k: "0 < k" "w = k + 1" using assms(3) by (auto simp: k_def w_def a68_fmt_int_width_def)
  have wd: "(if longness \<le> 0 then a68_fmt_int_width longness ll + 1 else a68_fmt_int_width longness ll) = int w"
    using assms(3) by (auto simp: w_def a68_fmt_int_width_def)
  have w8: "- (2 ^ 63) < int w" by simp
  have "\<bar>big_val n\<bar> \<le> 10 ^ k - 1" using assms(2) by (auto simp: max_int_val k_def split: if_splits)
  then have l: "length d \<le> w" using length_dec_below [OF k(1), of "big_val n"] by (auto simp: d_def k(2))
  have "a68_fmt_print_int n longness ll = a68_fmt_whole_int n (int w)"
    unfolding a68_fmt_print_int_def Let_def wd ..
  also have "\<dots> = leading_spaces d w"
  proof -
    have "0 < int w" using k by simp
    then have "(if big_val n < 0 then ''-'' else if int w > 0 then ''+'' else []) @ nat_dec (nat \<bar>big_val n\<bar>) = d"
      by (simp add: d_def)
    then show ?thesis unfolding whole_int_eq [OF assms(1) w8] length_append [symmetric] 
      by (simp only: abs_of_nat nat_int) (use k(1) l in \<open>simp add: k(2)\<close>)
  qed
  also have "\<dots> = replicate (w - length d) (CHR '' '') @ d" using l by (simp add: leading_spaces_def)
  finally show ?thesis using l by simp
qed

theorem print_int_fits_witness: "a68_fmt_print_int (big_from_i64 2147483647) 0 12 = ''+2147483647''"
proof -
  have c: "digit_char (Suc 0) = CHR ''1''" "digit_char 2 = CHR ''2''" "digit_char 3 = CHR ''3''" "digit_char 4 = CHR ''4''"
    "digit_char 6 = CHR ''6''" "digit_char 7 = CHR ''7''" "digit_char 8 = CHR ''8''"
    by (simp_all add: digit_char_def char_of_eq_iff)
  have "nat_dec 2147483647 = ''2147483647''" by (simp add: nat_dec_step nat_dec_small c)
  then show ?thesis
    using print_int_fits [of "big_from_i64 2147483647" 0 12] by (simp add: big_from_i64_val max_int_val)
qed

text \<open>
  The scanner of \<open>parse_float\<close>. A denotation with integer part \<open>m\<close>, \<open>k\<close> decimals and an
  exponent \<open>j\<close> (of at most ten digits) is handed to \<open>strtod\<close> as all its digits with the exponent
  \<open>j - k\<close>, so that it denotes the same number.
\<close>

theorem parse_float_scales:
  assumes "j < 10000000000"
  shows "parse_float_text (nat_dec m @ ''.'' @ pad_dec k n @ (if neg then ''e-'' else ''e'') @ nat_dec j) =
    nat_dec m @ pad_dec k n @ ''e'' @ int_dec ((if neg then - int j else int j) - int k)"
proof -
  have dot: "\<not> is_digit (CHR ''.'')" and e: "\<not> is_digit (CHR ''e'')" by (simp_all add: is_digit_def)
  obtain c cs where c: "nat_dec j = c # cs" "is_digit c"
    using nat_dec_not_empty [of j] nat_dec_digits [of _ j] by (cases "nat_dec j") auto
  have ns: "c \<noteq> CHR ''-''" "c \<noteq> CHR ''+''" using c(2) by (auto simp: is_digit_def)
  have j: "exp_digits (c # cs) 0 = int j" using exp_digits_nat_dec [OF assms] by (simp only: c(1))
  note tm = takeWhile_digits_app [OF _ dot, of "nat_dec m"] takeWhile_digits_app [OF _ e, of "pad_dec k n"]
  show ?thesis
    using tm nat_dec_digits [of _ m] pad_dec_digits [of _ k n] ns j nat_dec_not_empty [of m]
    by (cases neg) (simp_all add: parse_float_text_def Let_def c(1) del: exp_digits.simps)
qed

theorem parse_float_scales_witness: "parse_float_text ''1.5e-3'' = ''15e-4''"
proof -
  have c: "digit_char (Suc 0) = CHR ''1''" "digit_char 3 = CHR ''3''" "digit_char 4 = CHR ''4''" "digit_char 5 = CHR ''5''"
    by (simp_all add: digit_char_def char_of_eq_iff)
  have "nat_dec 1 = ''1''" "nat_dec 3 = ''3''" "nat_dec 4 = ''4''" "pad_dec 1 5 = ''5''"
    by (simp_all add: nat_dec_small c)
  then show ?thesis using parse_float_scales [of 3 1 1 5 True] by (simp add: int_dec_def)
qed

end
