(* ===== verification/Stackmap.thy ===== *)
theory Stackmap
  imports Prelude
begin

text \<open>
  \<open>csrc/stackmap.c\<close>: the LLVM stack maps of a compiled program. \<open>stackmap_init\<close> parses the section
  with bounds-checked reads, \<open>find_rec\<close> looks a return address up, \<open>stackmap_roots\<close> walks the frame
  chain and reports the heap pointers of the frames it finds.

  The section is a byte list; a read outside it is \<open>UB\<close>. The growing arrays \<open>recs\<close> and \<open>locs\<close>
  are lists. \<open>qsort\<close> is the library's stable sort (\<open>stackmap_init\<close> stops on equal keys). The stack is
  a partial map from addresses to 64-bit words; \<open>STRIP_PAC\<close>, the frame address and the top of the
  stack are parameters. The trace output and the environment variable that asks for it are left out.
\<close>

section \<open>Types and state\<close>

definition LOC_REGISTER :: nat where "LOC_REGISTER = 1"
definition LOC_DIRECT :: nat where "LOC_DIRECT = 2"
definition LOC_INDIRECT :: nat where "LOC_INDIRECT = 3"
definition LOC_CONSTANT :: nat where "LOC_CONSTANT = 4"
definition LOC_CONST_INDEX :: nat where "LOC_CONST_INDEX = 5"
definition REG_FP :: nat where "REG_FP = 29"
definition REG_SP :: nat where "REG_SP = 31"
definition STACK_SIZE_UNKNOWN :: u64 where "STACK_SIZE_UNKNOWN = - 1"

lemmas loc_defs = LOC_REGISTER_def LOC_DIRECT_def LOC_INDIRECT_def LOC_CONSTANT_def LOC_CONST_INDEX_def

record sm_loc =
  l_type :: nat
  l_reg :: nat
  l_off :: int
  l_konst :: u64

record sm_rec =
  s_ret :: u64
  s_size :: u64
  s_first :: nat
  s_nloc :: nat

text \<open>The reader's offset and the two tables.\<close>

record sm_state =
  r_off :: nat
  sm_recs :: "sm_rec list"
  sm_locs :: "sm_loc list"

type_synonym 'a sm = "(sm_state, 'a) run"

section \<open>Bounds-checked reading\<close>

text \<open>\<open>need\<close> compares with a difference of \<open>size_t\<close> values, which wraps around.\<close>

definition need :: "u8 list \<Rightarrow> nat \<Rightarrow> string \<Rightarrow> unit sm" where
  "need p k what = bnd (get r_off) (\<lambda>off.
     if k > (length p + 2 ^ 64 - off) mod 2 ^ 64 then stop (Fatal what) else ret ())"

fun le_val :: "u8 list \<Rightarrow> nat" where
  "le_val [] = 0"
| "le_val (b # bs) = unat b + 256 * le_val bs"

definition peek :: "u8 list \<Rightarrow> nat \<Rightarrow> nat \<Rightarrow> nat res" where
  "peek p off k = (if off + k \<le> length p then Inr (le_val (take k (drop off p))) else Inl UB)"

definition lift_sm :: "'a res \<Rightarrow> 'a sm" where
  "lift_sm m s = (case m of Inl e \<Rightarrow> Inl e | Inr x \<Rightarrow> Inr (x, s))"

definition rd_uint :: "u8 list \<Rightarrow> nat \<Rightarrow> string \<Rightarrow> nat sm" where
  "rd_uint p k what = bnd (need p k what) (\<lambda>_. bnd (get r_off) (\<lambda>off. bnd (lift_sm (peek p off k)) (\<lambda>v.
     bnd (modify (\<lambda>s. s\<lparr>r_off := off + k\<rparr>)) (\<lambda>_. ret v))))"

definition rd_u8 :: "u8 list \<Rightarrow> string \<Rightarrow> nat sm" where "rd_u8 p = rd_uint p 1"
definition rd_u16 :: "u8 list \<Rightarrow> string \<Rightarrow> nat sm" where "rd_u16 p = rd_uint p 2"
definition rd_u32 :: "u8 list \<Rightarrow> string \<Rightarrow> nat sm" where "rd_u32 p = rd_uint p 4"
definition rd_u64 :: "u8 list \<Rightarrow> string \<Rightarrow> nat sm" where "rd_u64 p = rd_uint p 8"

definition rd_i32 :: "u8 list \<Rightarrow> string \<Rightarrow> int sm" where
  "rd_i32 p what = bnd (rd_uint p 4 what) (\<lambda>v. ret (s32_of_int (int v)))"

definition skip_bytes :: "u8 list \<Rightarrow> nat \<Rightarrow> string \<Rightarrow> unit sm" where
  "skip_bytes p k what = bnd (need p k what) (\<lambda>_. modify (\<lambda>s. s\<lparr>r_off := r_off s + k\<rparr>))"

definition rd_align8 :: "u8 list \<Rightarrow> string \<Rightarrow> unit sm" where
  "rd_align8 p what = bnd (get r_off) (\<lambda>off. skip_bytes p ((8 - off mod 8) mod 8) what)"

section \<open>Parsing\<close>

text \<open>What one map's header gives: its offsets into the section and its counts.\<close>

record sm_head =
  h_funcs :: nat
  h_consts :: nat
  h_nfunc :: nat
  h_nconst :: nat
  h_nrec :: nat

definition sm_header :: "u8 list \<Rightarrow> sm_head sm" where
  "sm_header p =
    bnd (rd_u8 p ''truncated header'') (\<lambda>version.
    if version \<noteq> 3 then stop (Fatal ''unsupported version (expected 3)'') else
    bnd (rd_u8 p ''truncated header'') (\<lambda>_. bnd (rd_u16 p ''truncated header'') (\<lambda>_.
    bnd (rd_u32 p ''truncated header'') (\<lambda>nfunc. bnd (rd_u32 p ''truncated header'') (\<lambda>nconst.
    bnd (rd_u32 p ''truncated header'') (\<lambda>nrec.
    bnd (get r_off) (\<lambda>funcs. bnd (skip_bytes p (nfunc * 24) ''function table exceeds the section'') (\<lambda>_.
    bnd (get r_off) (\<lambda>consts. bnd (skip_bytes p (nconst * 8) ''constant table exceeds the section'') (\<lambda>_.
    ret \<lparr>h_funcs = funcs, h_consts = consts, h_nfunc = nfunc, h_nconst = nconst, h_nrec = nrec\<rparr>))))))))))"

text \<open>A word of the function table; the index is computed in \<open>uint32_t\<close>.\<close>

definition func_word :: "u8 list \<Rightarrow> sm_head \<Rightarrow> nat \<Rightarrow> nat \<Rightarrow> nat sm" where
  "func_word p h i k = lift_sm (peek p (h_funcs h + (i * 24 + k) mod 2 ^ 32) 8)"

definition const_word :: "u8 list \<Rightarrow> sm_head \<Rightarrow> nat \<Rightarrow> nat sm" where
  "const_word p h i = lift_sm (peek p (h_consts h + i * 8) 8)"

text \<open>The sum of the record counts, with the check against overflow of \<open>uint64_t\<close>.\<close>

fun seen_loop :: "u8 list \<Rightarrow> sm_head \<Rightarrow> nat \<Rightarrow> nat \<Rightarrow> nat sm" where
  "seen_loop p h 0 seen = ret seen"
| "seen_loop p h (Suc k) seen = bnd (func_word p h (h_nfunc h - Suc k) 16) (\<lambda>c.
     let seen' = (seen + c) mod 2 ^ 64
     in if seen' < c \<or> seen' > h_nrec h then stop (Fatal ''record counts of the functions exceed NumRecords'')
        else seen_loop p h k seen')"

text \<open>The function whose records are being read: its index, the records left, address and frame size.\<close>

record sm_cur =
  c_fi :: nat
  c_left :: nat
  c_addr :: nat
  c_size :: nat

function next_func :: "u8 list \<Rightarrow> sm_head \<Rightarrow> sm_cur \<Rightarrow> sm_cur sm" where
  "next_func p h c =
    (if c_left c = 0
     then if c_fi c \<ge> h_nfunc h then stop (Fatal ''more records than the functions account for'')
          else bnd (func_word p h (c_fi c) 0) (\<lambda>a. bnd (func_word p h (c_fi c) 8) (\<lambda>sz. bnd (func_word p h (c_fi c) 16) (\<lambda>l.
               next_func p h \<lparr>c_fi = c_fi c + 1, c_left = l, c_addr = a, c_size = sz\<rparr>)))
     else ret c)"
  by pat_completeness auto
termination by (relation "measure (\<lambda>(p, h, c). h_nfunc h - c_fi c)") auto

declare next_func.simps [simp del]

text \<open>A leading location has to be a constant; its value.\<close>

definition lead_const :: "u8 list \<Rightarrow> sm_head \<Rightarrow> nat sm" where
  "lead_const p h =
    bnd (rd_u8 p ''truncated location'') (\<lambda>type. bnd (rd_u8 p ''truncated location'') (\<lambda>_.
    bnd (rd_u16 p ''truncated location'') (\<lambda>_. bnd (rd_u16 p ''truncated location'') (\<lambda>_.
    bnd (rd_u16 p ''truncated location'') (\<lambda>_. bnd (rd_i32 p ''truncated location'') (\<lambda>val.
    if type = LOC_CONSTANT then ret (nat (val mod 2 ^ 64))
    else if type = LOC_CONST_INDEX
    then if val < 0 \<or> val \<ge> int (h_nconst h) then stop (Fatal ''constant index out of range'') else const_word p h (nat val)
    else stop (Fatal ''statepoint record whose leading locations are not constants'')))))))"

fun skip_deopts :: "u8 list \<Rightarrow> nat \<Rightarrow> unit sm" where
  "skip_deopts p 0 = ret ()"
| "skip_deopts p (Suc k) = bnd (skip_bytes p 12 ''truncated location'') (\<lambda>_. skip_deopts p k)"

text \<open>One gc pointer location, checked by type.\<close>

definition check_slot :: "nat \<Rightarrow> nat \<Rightarrow> unit sm" where
  "check_slot reg fsize =
    (if reg \<noteq> REG_SP \<and> reg \<noteq> REG_FP then stop (Fatal ''gc pointer location relative to a register other than SP or FP'')
     else if reg = REG_SP \<and> fsize = unat STACK_SIZE_UNKNOWN then stop (Fatal ''SP-relative gc pointer in a frame of unknown size'')
     else ret ())"

definition gc_location :: "u8 list \<Rightarrow> sm_head \<Rightarrow> nat \<Rightarrow> sm_loc sm" where
  "gc_location p h fsize =
    bnd (rd_u8 p ''truncated location'') (\<lambda>type. bnd (rd_u8 p ''truncated location'') (\<lambda>_.
    bnd (rd_u16 p ''truncated location'') (\<lambda>sz. bnd (rd_u16 p ''truncated location'') (\<lambda>reg.
    bnd (rd_u16 p ''truncated location'') (\<lambda>_. bnd (rd_i32 p ''truncated location'') (\<lambda>off.
    let l = \<lparr>l_type = type, l_reg = reg, l_off = off, l_konst = 0\<rparr>
    in if type = LOC_INDIRECT \<and> sz \<noteq> 8 then stop (Fatal ''gc pointer spill slot that is not 8 bytes'')
       else if type = LOC_INDIRECT \<or> type = LOC_DIRECT then bnd (check_slot reg fsize) (\<lambda>_. ret l)
       else if type = LOC_REGISTER
       then stop (Fatal ''gc pointer held in a register across a call (not recoverable from the frame chain)'')
       else if type = LOC_CONSTANT then ret l
       else if type = LOC_CONST_INDEX
       then if off < 0 \<or> off \<ge> int (h_nconst h) then stop (Fatal ''constant index out of range'')
            else bnd (const_word p h (nat off)) (\<lambda>v. ret (l\<lparr>l_konst := word_of_nat v\<rparr>))
       else stop (Fatal ''unknown location type'')))))))"

text \<open>
  The gc pointers come in base and derived pairs; a derived location equal to its base is dropped.
  \<open>locs[nlocs - 1]\<close> before any location is a read outside the array.
\<close>

definition add_location :: "nat \<Rightarrow> sm_loc \<Rightarrow> unit sm" where
  "add_location k l = bnd (get sm_locs) (\<lambda>ls.
     if odd k \<and> ls = [] then stop UB
     else if odd k \<and> last ls = l then ret ()
     else bnd (modify (\<lambda>s. s\<lparr>sm_locs := sm_locs s @ [l]\<rparr>)) (\<lambda>_.
          modify (\<lambda>s. s\<lparr>sm_recs := butlast (sm_recs s) @ [last (sm_recs s)\<lparr>s_nloc := s_nloc (last (sm_recs s)) + 1\<rparr>]\<rparr>)))"

fun pair_loop :: "u8 list \<Rightarrow> sm_head \<Rightarrow> nat \<Rightarrow> nat \<Rightarrow> nat \<Rightarrow> unit sm" where
  "pair_loop p h fsize 0 k = ret ()"
| "pair_loop p h fsize (Suc n) k =
    bnd (gc_location p h fsize) (\<lambda>l. bnd (add_location k l) (\<lambda>_. pair_loop p h fsize n (k + 1)))"

definition live_outs :: "u8 list \<Rightarrow> unit sm" where
  "live_outs p =
    bnd (rd_align8 p ''truncated record padding'') (\<lambda>_. bnd (rd_u16 p ''truncated live-outs'') (\<lambda>_.
    bnd (rd_u16 p ''truncated live-outs'') (\<lambda>nlive.
    bnd (skip_bytes p (nlive * 4) ''live-outs exceed the section'') (\<lambda>_. rd_align8 p ''truncated record padding''))))"

definition parse_record :: "u8 list \<Rightarrow> sm_head \<Rightarrow> sm_cur \<Rightarrow> sm_cur sm" where
  "parse_record p h c0 =
    bnd (next_func p h c0) (\<lambda>c.
    bnd (rd_u64 p ''truncated record'') (\<lambda>_. bnd (rd_u32 p ''truncated record'') (\<lambda>ioff.
    bnd (rd_u16 p ''truncated record'') (\<lambda>_. bnd (rd_u16 p ''truncated record'') (\<lambda>nloc.
    if nloc < 3 then stop (Fatal ''statepoint record with fewer than three locations'') else
    bnd (lead_const p h) (\<lambda>_. bnd (lead_const p h) (\<lambda>_. bnd (lead_const p h) (\<lambda>ndeopt.
    if ndeopt > nloc - 3 then stop (Fatal (''deopt count exceeds the record'' @ [CHR 0x27] @ ''s locations'')) else
    let npairs2 = nloc - 3 - ndeopt
    in if odd npairs2 then stop (Fatal ''odd number of gc pointer locations (expected base/derived pairs)'') else
    bnd (skip_deopts p ndeopt) (\<lambda>_.
    bnd (modify (\<lambda>s. s\<lparr>sm_recs := sm_recs s @ [\<lparr>s_ret = word_of_nat (c_addr c) + word_of_nat ioff,
       s_size = word_of_nat (c_size c), s_first = length (sm_locs s) mod 2 ^ 32, s_nloc = 0\<rparr>]\<rparr>)) (\<lambda>_.
    bnd (pair_loop p h (c_size c) npairs2 0) (\<lambda>_.
    bnd (live_outs p) (\<lambda>_. ret (c\<lparr>c_left := c_left c - 1\<rparr>)))))))))))))"

fun record_loop :: "u8 list \<Rightarrow> sm_head \<Rightarrow> nat \<Rightarrow> sm_cur \<Rightarrow> sm_cur sm" where
  "record_loop p h 0 c = ret c"
| "record_loop p h (Suc n) c = bnd (parse_record p h c) (\<lambda>c'. record_loop p h n c')"

definition parse_map :: "u8 list \<Rightarrow> unit sm" where
  "parse_map p =
    bnd (sm_header p) (\<lambda>h. bnd (seen_loop p h (h_nfunc h) 0) (\<lambda>seen.
    if seen \<noteq> h_nrec h then stop (Fatal ''record counts of the functions do not sum to NumRecords'') else
    bnd (record_loop p h (h_nrec h) \<lparr>c_fi = 0, c_left = 0, c_addr = 0, c_size = 0\<rparr>) (\<lambda>c.
    if c_left c \<noteq> 0 then stop (Fatal ''fewer records than the functions account for'') else ret ())))"

text \<open>
  The loop over the maps of the section. Every map takes at least its 16 header bytes, so as much
  fuel as the section has bytes is enough; running out of it would be \<open>UB\<close>, which
  \<open>parse_sections_no_UB\<close> excludes.
\<close>

fun map_loop :: "nat \<Rightarrow> u8 list \<Rightarrow> unit sm" where
  "map_loop 0 p = bnd (get r_off) (\<lambda>off. if off < length p then stop UB else ret ())"
| "map_loop (Suc n) p = bnd (get r_off) (\<lambda>off.
     if off < length p
     then bnd (parse_map p) (\<lambda>_. bnd (rd_align8 p ''truncated padding between stack maps'') (\<lambda>_. map_loop n p))
     else ret ())"

fun dup_ret :: "sm_rec list \<Rightarrow> bool" where
  "dup_ret (a # b # rs) \<longleftrightarrow> s_ret b = s_ret a \<or> dup_ret (b # rs)"
| "dup_ret _ \<longleftrightarrow> False"

definition sm_empty :: sm_state where "sm_empty = \<lparr>r_off = 0, sm_recs = [], sm_locs = []\<rparr>"

definition stackmap_init :: "u8 list \<Rightarrow> sm_state res" where
  "stackmap_init p =
    (if p = [] then Inr sm_empty
     else case map_loop (length p) p sm_empty of Inl e \<Rightarrow> Inl e
     | Inr (_, s) \<Rightarrow>
         let rs = sort_key s_ret (sm_recs s)
         in if dup_ret rs then Inl (Fatal ''two records with the same return address'') else Inr (s\<lparr>sm_recs := rs\<rparr>))"

definition stackmap_record_count :: "sm_state \<Rightarrow> nat" where "stackmap_record_count s = length (sm_recs s)"

section \<open>Looking a return address up\<close>

function find_loop :: "sm_rec list \<Rightarrow> u64 \<Rightarrow> nat \<Rightarrow> nat \<Rightarrow> sm_rec option" where
  "find_loop rs r lo hi =
    (if lo < hi
     then let mid = lo + (hi - lo) div 2
          in if s_ret (rs ! mid) < r then find_loop rs r (mid + 1) hi
             else if s_ret (rs ! mid) > r then find_loop rs r lo mid
             else Some (rs ! mid)
     else None)"
  by pat_completeness auto
termination by (relation "measure (\<lambda>(rs, r, lo, hi). hi - lo)") auto

declare find_loop.simps [simp del]

definition find_rec :: "sm_state \<Rightarrow> u64 \<Rightarrow> sm_rec option" where
  "find_rec s r = find_loop (sm_recs s) r 0 (length (sm_recs s))"

section \<open>The walk\<close>

text \<open>A word of the native stack; an address that is not mapped is a read outside it.\<close>

type_synonym stack_mem = "u64 \<Rightarrow> u64 option"

definition rd_word :: "stack_mem \<Rightarrow> u64 \<Rightarrow> u64 res" where
  "rd_word m a = (case m a of None \<Rightarrow> Inl UB | Some v \<Rightarrow> Inr v)"

text \<open>The pointer a location names, in the frame with frame pointer \<open>ffp\<close> and stack pointer \<open>sp\<close>.\<close>

definition loc_value :: "stack_mem \<Rightarrow> u64 \<Rightarrow> u64 \<Rightarrow> sm_loc \<Rightarrow> u64 res" where
  "loc_value m ffp sp l =
    (let cfa = ffp + 16; addr = (if l_reg l = REG_SP then sp else ffp) + word_of_int (l_off l)
     in if l_type l = LOC_INDIRECT
        then if addr < sp \<or> addr + 8 > cfa \<or> and addr 7 \<noteq> 0 then Inl (Fatal ''gc pointer slot outside its frame'')
             else rd_word m addr
        else if l_type l = LOC_DIRECT then Inr addr
        else if l_type l = LOC_CONSTANT then Inr (word_of_int (l_off l))
        else if l_type l = LOC_CONST_INDEX then Inr (l_konst l)
        else Inl (Fatal ''unexpected location type at collection time''))"

text \<open>The locations of one frame, in order; the nonzero values are marked.\<close>

fun loc_loop :: "stack_mem \<Rightarrow> u64 \<Rightarrow> u64 \<Rightarrow> sm_loc list \<Rightarrow> u64 list res" where
  "loc_loop m ffp sp [] = Inr []"
| "loc_loop m ffp sp (l # ls) = bindE (loc_value m ffp sp l) (\<lambda>v. bindE (loc_loop m ffp sp ls) (\<lambda>vs.
     Inr (if v \<noteq> 0 then v # vs else vs)))"

definition rec_locs :: "sm_state \<Rightarrow> sm_rec \<Rightarrow> sm_loc list" where
  "rec_locs s r = take (s_nloc r) (drop (s_first r) (sm_locs s))"

definition frame_roots :: "stack_mem \<Rightarrow> sm_state \<Rightarrow> sm_rec \<Rightarrow> u64 \<Rightarrow> u64 list res" where
  "frame_roots m s r ffp =
    (if ffp = 0 then Inl (Fatal ''statepoint frame without a frame pointer'')
     else if s_size r \<noteq> STACK_SIZE_UNKNOWN \<and> s_size r > ffp then Inl (Fatal ''stack size larger than the stack'')
     else let sp = (if s_size r \<noteq> STACK_SIZE_UNKNOWN then ffp + 16 - s_size r else 0)
     in if s_size r \<noteq> STACK_SIZE_UNKNOWN \<and> and sp 15 \<noteq> 0 then Inl (Fatal (''frame'' @ [CHR 0x27] @ ''s SP not 16-byte aligned''))
     else loc_loop m ffp sp (rec_locs s r))"

function walk :: "(u64 \<Rightarrow> u64) \<Rightarrow> stack_mem \<Rightarrow> sm_state \<Rightarrow> u64 \<Rightarrow> u64 \<Rightarrow> u64 list res" where
  "walk strip m s hi fp =
    (if fp = 0 then Inr []
     else if and fp 7 \<noteq> 0 \<or> fp + 16 > hi then Inl (Fatal ''frame pointer out of bounds during the walk'')
     else bindE (rd_word m fp) (\<lambda>nxt. bindE (rd_word m (fp + 8)) (\<lambda>raw.
       if nxt \<noteq> 0 \<and> nxt \<le> fp then Inl (Fatal ''frame chain does not ascend'')
       else bindE (case find_rec s (strip raw) of None \<Rightarrow> Inr [] | Some r \<Rightarrow> frame_roots m s r nxt) (\<lambda>vs.
         bindE (if nxt = 0 then Inr [] else walk strip m s hi nxt) (\<lambda>ws. Inr (vs @ ws))))))"
  by pat_completeness auto
termination
  by (relation "measure (\<lambda>(strip, m, s, hi, fp). 2 ^ 64 - unat fp)") (auto simp: word_le_nat_alt not_le intro!: diff_less_mono2 unat_u64_less)

declare walk.simps [simp del]

definition stackmap_roots :: "(u64 \<Rightarrow> u64) \<Rightarrow> stack_mem \<Rightarrow> sm_state \<Rightarrow> u64 \<Rightarrow> u64 \<Rightarrow> u64 list res" where
  "stackmap_roots strip m s hi fp =
    (if sm_recs s = [] then Inr []
     else if fp = 0 \<or> fp \<ge> hi then Inl (Fatal ''frame pointer outside the stack'')
     else walk strip m s hi fp)"

section \<open>Reading stays inside the section\<close>

text \<open>
  \<open>sm_safe p A m B\<close>: started with the reader inside the section and \<open>A\<close>, \<open>m\<close> does not read outside an
  array; where it returns, the reader has not moved back, is still inside, and \<open>B\<close> holds.
\<close>

definition sm_safe :: "u8 list \<Rightarrow> (sm_state \<Rightarrow> bool) \<Rightarrow> 'a sm \<Rightarrow> (sm_state \<Rightarrow> 'a \<Rightarrow> sm_state \<Rightarrow> bool) \<Rightarrow> bool" where
  "sm_safe p A m B \<longleftrightarrow> (\<forall>s. r_off s \<le> length p \<and> A s \<longrightarrow> m s \<noteq> Inl UB \<and>
     (\<forall>x s'. m s = Inr (x, s') \<longrightarrow> r_off s \<le> r_off s' \<and> r_off s' \<le> length p \<and> B s x s'))"

named_theorems sm_rules \<open>what the reading operations promise\<close>

lemma sm_safeD:
  assumes "sm_safe p A m B" "r_off s \<le> length p" "A s"
  shows "m s \<noteq> Inl UB" and "m s = Inr (x, s') \<Longrightarrow> r_off s \<le> r_off s' \<and> r_off s' \<le> length p \<and> B s x s'"
  using assms unfolding sm_safe_def by blast+

lemma sm_safe_bnd:
  assumes "sm_safe p A m B" and "\<And>s x. r_off s \<le> length p \<Longrightarrow> A s \<Longrightarrow> sm_safe p (\<lambda>s'. r_off s \<le> r_off s' \<and> B s x s') (f x) (\<lambda>_. C s)"
  shows "sm_safe p A (bnd m f) C"
  unfolding sm_safe_def
proof (intro allI impI)
  fix s assume s: "r_off s \<le> length p \<and> A s"
  note m = sm_safeD [OF assms(1) conjunct1 [OF s] conjunct2 [OF s]]
  show "bnd m f s \<noteq> Inl UB \<and> (\<forall>x s'. bnd m f s = Inr (x, s') \<longrightarrow> r_off s \<le> r_off s' \<and> r_off s' \<le> length p \<and> C s x s')"
  proof (cases "m s")
    case (Inl e)
    then show ?thesis using m(1) by (simp add: bnd_def)
  next
    case (Inr r)
    obtain x t where r: "r = (x, t)" by fastforce
    have t: "r_off s \<le> r_off t" "r_off t \<le> length p" "B s x t" using m(2) Inr r by blast+
    have f: "sm_safe p (\<lambda>s'. r_off s \<le> r_off s' \<and> B s x s') (f x) (\<lambda>_. C s)" using assms(2) s by blast
    have e: "bnd m f s = f x t" using Inr r by (simp add: bnd_def)
    show ?thesis using sm_safeD [OF f t(2)] t unfolding e by (meson order_trans)
  qed
qed

lemma sm_safe_ret: "(\<And>s. A s \<Longrightarrow> B s x s) \<Longrightarrow> sm_safe p A (ret x) B"
  by (simp add: sm_safe_def)

lemma sm_safe_here: "sm_safe p A (ret x) (\<lambda>s y s'. s' = s \<and> y = x \<and> A s \<and> r_off s \<le> length p)"
  by (simp add: sm_safe_def)

lemma sm_safe_stop: "e \<noteq> UB \<Longrightarrow> sm_safe p A (stop e) B"
  by (simp add: sm_safe_def)

lemma sm_safe_get [sm_rules]: "sm_safe p A (get g) (\<lambda>s x s'. s' = s \<and> x = g s)"
  by (simp add: sm_safe_def)

lemma sm_safe_modify [sm_rules]:
  "(\<And>s. r_off (h s) = r_off s) \<Longrightarrow> sm_safe p A (modify h) (\<lambda>s x s'. s' = h s)"
  by (simp add: sm_safe_def)

lemma sm_safe_weaken:
  "sm_safe p A' m B' \<Longrightarrow> (\<And>s. A s \<Longrightarrow> A' s) \<Longrightarrow> (\<And>s x s'. A s \<Longrightarrow> r_off s \<le> r_off s' \<Longrightarrow> B' s x s' \<Longrightarrow> B s x s') \<Longrightarrow> sm_safe p A m B"
  unfolding sm_safe_def by blast

lemma sm_safe_if: "(b \<Longrightarrow> sm_safe p A m B) \<Longrightarrow> (\<not> b \<Longrightarrow> sm_safe p A m' B) \<Longrightarrow> sm_safe p A (if b then m else m') B"
  by simp

text \<open>The frame of a read: the tables are untouched.\<close>

abbreviation same_tables :: "sm_state \<Rightarrow> sm_state \<Rightarrow> bool" where
  "same_tables s s' \<equiv> sm_recs s' = sm_recs s \<and> sm_locs s' = sm_locs s"

lemma need_wrap:
  assumes "off \<le> n" "n < 18446744073709551616"
  shows "(n + 18446744073709551616 - off) mod 18446744073709551616 = n - (off :: nat)"
proof -
  have "n + 18446744073709551616 - off = (n - off) + 18446744073709551616" using assms(1) by linarith
  then have "(n + 18446744073709551616 - off) mod 18446744073709551616 = (n - off) mod 18446744073709551616"
    by (simp only: mod_add_self2)
  also have "\<dots> = n - off" by (rule mod_less) (use assms in linarith)
  finally show ?thesis .
qed

lemma rd_uint_safe [sm_rules]:
  "length p < 2 ^ 64 \<Longrightarrow> sm_safe p A (rd_uint p k what) (\<lambda>s x s'. same_tables s s' \<and> r_off s' = r_off s + k)"
  unfolding sm_safe_def
  by (auto simp: rd_uint_def need_def bnd_def lift_sm_def peek_def need_wrap get_def modify_def ret_def stop_def split: if_splits)

lemma skip_bytes_safe [sm_rules]:
  "length p < 2 ^ 64 \<Longrightarrow> sm_safe p A (skip_bytes p k what) (\<lambda>s x s'. same_tables s s' \<and> r_off s' = r_off s + k)"
  unfolding sm_safe_def
  by (auto simp: skip_bytes_def need_def bnd_def need_wrap get_def modify_def ret_def stop_def split: if_splits)

lemma rd_align8_safe [sm_rules]:
  "length p < 2 ^ 64 \<Longrightarrow> sm_safe p A (rd_align8 p what) (\<lambda>s x s'. same_tables s s')"
  unfolding sm_safe_def
  by (auto simp: rd_align8_def skip_bytes_def need_def bnd_def need_wrap get_def modify_def ret_def stop_def split: if_splits)

lemmas rd_defs = rd_u8_def rd_u16_def rd_u32_def rd_u64_def

lemma rd_i32_safe [sm_rules]:
  "length p < 2 ^ 64 \<Longrightarrow> sm_safe p A (rd_i32 p what) (\<lambda>s x s'. same_tables s s' \<and> r_off s' = r_off s + 4)"
  unfolding rd_i32_def by (rule sm_safe_bnd [OF rd_uint_safe]) (auto intro!: sm_safe_ret simp: sm_safe_def)

lemma peek_safe: "off + k \<le> length p \<Longrightarrow> sm_safe p A (lift_sm (peek p off k)) (\<lambda>s x s'. s' = s)"
  by (simp add: sm_safe_def lift_sm_def peek_def)

definition head_ok :: "u8 list \<Rightarrow> sm_head \<Rightarrow> bool" where
  "head_ok p h \<longleftrightarrow> h_funcs h + h_nfunc h * 24 \<le> length p \<and> h_consts h + h_nconst h * 8 \<le> length p"

lemma sm_header_safe:
  assumes "length p < 2 ^ 64"
  shows "sm_safe p A (sm_header p) (\<lambda>s h s'. head_ok p h \<and> same_tables s s' \<and> r_off s < r_off s')"
proof -
  note rd = rd_uint_safe [OF assms] and sk = skip_bytes_safe [OF assms]
  show ?thesis
    unfolding sm_header_def rd_defs
    by (rule sm_safe_bnd [OF rd], rule sm_safe_if, rule sm_safe_stop, simp,
        (rule sm_safe_bnd [OF rd])+,
        rule sm_safe_bnd [OF sm_safe_get], rule sm_safe_bnd [OF sk], rule sm_safe_bnd [OF sm_safe_get], rule sm_safe_bnd [OF sk],
        rule sm_safe_weaken [OF sm_safe_here]) (auto simp: head_ok_def)
qed

text \<open>The functions that only read keep the tables, whatever they return.\<close>

definition sm_keeps :: "u8 list \<Rightarrow> 'a sm \<Rightarrow> bool" where
  "sm_keeps p m \<longleftrightarrow> sm_safe p (\<lambda>_. True) m (\<lambda>s x s'. same_tables s s')"

named_theorems sm_keep_rules \<open>the reading operations keep the tables\<close>

lemma sm_keepsD: "sm_keeps p m \<Longrightarrow> sm_safe p A m (\<lambda>s x s'. same_tables s s')"
  unfolding sm_keeps_def by (erule sm_safe_weaken) auto

lemma sm_keepsI: "sm_safe p (\<lambda>_. True) m B \<Longrightarrow> (\<And>s x s'. B s x s' \<Longrightarrow> same_tables s s') \<Longrightarrow> sm_keeps p m"
  unfolding sm_keeps_def by (erule sm_safe_weaken) auto

lemma sm_keeps_bnd [sm_keep_rules]: "sm_keeps p m \<Longrightarrow> (\<And>x. sm_keeps p (f x)) \<Longrightarrow> sm_keeps p (bnd m f)"
  unfolding sm_keeps_def
  by (rule sm_safe_bnd, assumption) (erule meta_allE, erule sm_safe_weaken, auto)

lemma sm_keeps_simple [sm_keep_rules]:
  "sm_keeps p (ret x)" "e \<noteq> UB \<Longrightarrow> sm_keeps p (stop e)" "sm_keeps p (get g)"
  by (auto simp: sm_keeps_def sm_safe_def)

lemma sm_keeps_if [sm_keep_rules]: "(b \<Longrightarrow> sm_keeps p m) \<Longrightarrow> (\<not> b \<Longrightarrow> sm_keeps p m') \<Longrightarrow> sm_keeps p (if b then m else m')"
  by simp

lemma sm_keeps_read [sm_keep_rules]:
  assumes "length p < 2 ^ 64"
  shows "sm_keeps p (rd_uint p k what)" "sm_keeps p (skip_bytes p k what)" "sm_keeps p (rd_align8 p what)" "sm_keeps p (rd_i32 p what)"
    "sm_keeps p (rd_u8 p what)" "sm_keeps p (rd_u16 p what)" "sm_keeps p (rd_u32 p what)" "sm_keeps p (rd_u64 p what)"
  unfolding rd_defs
  by (rule sm_keepsI [OF rd_uint_safe [OF assms]] sm_keepsI [OF skip_bytes_safe [OF assms]]
      sm_keepsI [OF rd_align8_safe [OF assms]] sm_keepsI [OF rd_i32_safe [OF assms]]; simp)+

lemma func_word_keeps [sm_keep_rules]:
  assumes "head_ok p h" "i < h_nfunc h" "k \<le> 16"
  shows "sm_keeps p (func_word p h i k)"
proof -
  have "(i * 24 + k) mod 2 ^ 32 \<le> i * 24 + k" by (rule mod_less_eq_dividend)
  moreover have "i * 24 + 24 \<le> h_nfunc h * 24" using assms(2) by simp
  ultimately have "h_funcs h + (i * 24 + k) mod 2 ^ 32 + 8 \<le> length p" using assms(1,3) unfolding head_ok_def by linarith
  then show ?thesis unfolding func_word_def by (rule sm_keepsI [OF peek_safe]) simp
qed

lemma const_word_keeps [sm_keep_rules]: "head_ok p h \<Longrightarrow> i < h_nconst h \<Longrightarrow> sm_keeps p (const_word p h i)"
  unfolding const_word_def by (rule sm_keepsI [OF peek_safe]) (simp_all add: head_ok_def)

lemma seen_loop_keeps [sm_keep_rules]: "head_ok p h \<Longrightarrow> k \<le> h_nfunc h \<Longrightarrow> sm_keeps p (seen_loop p h k seen)"
proof (induction k arbitrary: seen)
  case (Suc k)
  then show ?case unfolding seen_loop.simps Let_def by (intro sm_keep_rules Suc.IH) auto
qed (simp add: sm_keeps_simple)

lemma next_func_keeps [sm_keep_rules]: "head_ok p h \<Longrightarrow> sm_keeps p (next_func p h c)"
proof (induction p h c rule: next_func.induct)
  case (1 p h c)
  show ?case
  proof (cases "c_left c = 0 \<and> c_fi c < h_nfunc h")
    case True
    have "sm_keeps p (next_func p h \<lparr>c_fi = c_fi c + 1, c_left = l, c_addr = a, c_size = sz\<rparr>)" for l a sz
      by (rule "1.IH") (use True 1(2) in simp_all)
    then show ?thesis using True 1(2) by (subst next_func.simps) (auto intro!: sm_keep_rules)
  next
    case False
    then show ?thesis by (subst next_func.simps) (auto intro!: sm_keep_rules)
  qed
qed

lemma lead_const_keeps [sm_keep_rules]: "length p < 2 ^ 64 \<Longrightarrow> head_ok p h \<Longrightarrow> sm_keeps p (lead_const p h)"
  unfolding lead_const_def by (intro sm_keep_rules) auto

lemma skip_deopts_keeps [sm_keep_rules]: "length p < 2 ^ 64 \<Longrightarrow> sm_keeps p (skip_deopts p k)"
  by (induction k) (auto intro!: sm_keep_rules)

lemma gc_location_keeps [sm_keep_rules]: "length p < 2 ^ 64 \<Longrightarrow> head_ok p h \<Longrightarrow> sm_keeps p (gc_location p h fsize)"
  unfolding gc_location_def check_slot_def Let_def by (intro sm_keep_rules) auto

lemma live_outs_keeps [sm_keep_rules]: "length p < 2 ^ 64 \<Longrightarrow> sm_keeps p (live_outs p)"
  unfolding live_outs_def by (intro sm_keep_rules)

text \<open>\<open>locs[nlocs - 1]\<close> is only read after the base of the pair was stored.\<close>

lemma add_location_safe:
  "sm_safe p (\<lambda>s. odd k \<longrightarrow> sm_locs s \<noteq> []) (add_location k l) (\<lambda>s x s'. sm_locs s' \<noteq> [])"
  unfolding add_location_def
  by (auto simp: sm_safe_def bnd_def split: if_splits)

lemma pair_loop_safe:
  "length p < 2 ^ 64 \<Longrightarrow> head_ok p h \<Longrightarrow> sm_safe p (\<lambda>s. odd k \<longrightarrow> sm_locs s \<noteq> []) (pair_loop p h fsize n k) (\<lambda>s x s'. True)"
proof (induction n arbitrary: k)
  case (Suc n)
  have st: "sm_safe p (\<lambda>s. sm_locs s \<noteq> []) (pair_loop p h fsize n (k + 1)) (\<lambda>s x s'. True)"
    by (rule sm_safe_weaken [OF Suc.IH [OF Suc.prems]]) auto
  have add: "sm_safe p (\<lambda>s. odd k \<longrightarrow> sm_locs s \<noteq> []) (bnd (add_location k l) (\<lambda>_. pair_loop p h fsize n (k + 1))) (\<lambda>s x s'. True)" for l
    by (rule sm_safe_bnd [OF add_location_safe], rule sm_safe_weaken [OF st]) auto
  show ?case unfolding pair_loop.simps
    by (rule sm_safe_bnd [OF sm_keepsD [OF gc_location_keeps [OF Suc.prems]]], rule sm_safe_weaken [OF add]) auto
qed (simp add: sm_safe_ret)

abbreviation sm_ok :: "u8 list \<Rightarrow> 'a sm \<Rightarrow> bool" where
  "sm_ok p m \<equiv> sm_safe p (\<lambda>_. True) m (\<lambda>s x s'. True)"

lemma sm_ok_keeps: "sm_keeps p m \<Longrightarrow> sm_ok p m"
  unfolding sm_keeps_def by (erule sm_safe_weaken) auto

lemma sm_ok_bnd: "sm_ok p m \<Longrightarrow> (\<And>x. sm_ok p (f x)) \<Longrightarrow> sm_ok p (bnd m f)"
  by (rule sm_safe_bnd, assumption) (erule meta_allE, erule sm_safe_weaken, auto)

lemma sm_ok_modify: "(\<And>s. r_off (h s) = r_off s) \<Longrightarrow> sm_ok p (modify h)"
  by (rule sm_safe_weaken [OF sm_safe_modify]) auto

lemma parse_record_ok: "length p < 2 ^ 64 \<Longrightarrow> head_ok p h \<Longrightarrow> sm_ok p (parse_record p h c)"
  unfolding parse_record_def Let_def
  by (intro sm_ok_bnd sm_safe_if sm_safe_stop sm_ok_keeps [OF next_func_keeps] sm_ok_keeps [OF sm_keeps_read(8)]
      sm_ok_keeps [OF sm_keeps_read(7)] sm_ok_keeps [OF sm_keeps_read(6)] sm_ok_keeps [OF lead_const_keeps]
      sm_ok_keeps [OF skip_deopts_keeps] sm_ok_modify sm_safe_weaken [OF pair_loop_safe [of _ _ 0]]
      sm_ok_keeps [OF live_outs_keeps] sm_safe_ret) auto

lemma record_loop_ok: "length p < 2 ^ 64 \<Longrightarrow> head_ok p h \<Longrightarrow> sm_ok p (record_loop p h n c)"
  by (induction n arbitrary: c) (auto intro!: sm_ok_bnd parse_record_ok sm_safe_ret)

lemma parse_map_safe:
  assumes "length p < 2 ^ 64"
  shows "sm_safe p A (parse_map p) (\<lambda>s x s'. r_off s < r_off s')"
proof -
  have rest: "sm_ok p (bnd (seen_loop p h (h_nfunc h) 0) (\<lambda>seen.
    if seen \<noteq> h_nrec h then stop (Fatal ''record counts of the functions do not sum to NumRecords'') else
    bnd (record_loop p h (h_nrec h) \<lparr>c_fi = 0, c_left = 0, c_addr = 0, c_size = 0\<rparr>) (\<lambda>c.
    if c_left c \<noteq> 0 then stop (Fatal ''fewer records than the functions account for'') else ret ())))" if "head_ok p h" for h
    by (intro sm_ok_bnd sm_safe_if sm_safe_stop sm_ok_keeps [OF seen_loop_keeps] record_loop_ok sm_safe_ret assms that) auto
  have after: "sm_safe p (\<lambda>s'. r_off s \<le> r_off s' \<and> head_ok p h \<and> same_tables s s' \<and> r_off s < r_off s') m (\<lambda>_ x s'. r_off s < r_off s')"
    if "sm_ok p m" for m :: "unit sm" and s h
    using that by (rule sm_safe_weaken) auto
  show ?thesis unfolding parse_map_def
  proof (rule sm_safe_bnd [OF sm_header_safe [OF assms]], goal_cases)
    case (1 s h)
    show ?case
    proof (cases "head_ok p h")
      case True
      show ?thesis by (rule after [OF rest [OF True]])
    qed (simp add: sm_safe_def)
  qed
qed

lemma map_loop_no_UB:
  "length p < 2 ^ 64 \<Longrightarrow> r_off s \<le> length p \<Longrightarrow> length p - r_off s \<le> n \<Longrightarrow> map_loop n p s \<noteq> Inl UB"
proof (induction n arbitrary: s)
  case (Suc n)
  show ?case
  proof (cases "r_off s < length p")
    case True
    note pm = sm_safeD [OF parse_map_safe [OF Suc.prems(1)] Suc.prems(2) TrueI]
    have al: "sm_keeps p (rd_align8 p ''truncated padding between stack maps'')" by (rule sm_keeps_read [OF Suc.prems(1)])
    show ?thesis
    proof (cases "parse_map p s")
      case (Inl e)
      then show ?thesis using pm(1) True by (simp add: bnd_def)
    next
      case (Inr r)
      obtain t where r: "r = ((), t)" by (cases r) simp
      have t: "r_off s < r_off t" "r_off t \<le> length p" using pm(2) Inr r by auto
      note am = sm_safeD [OF al [unfolded sm_keeps_def] t(2) TrueI]
      show ?thesis
      proof (cases "rd_align8 p ''truncated padding between stack maps'' t")
        case (Inl e)
        then show ?thesis using am(1) True Inr r by (simp add: bnd_def)
      next
        case r2: (Inr r2)
        obtain u where u: "r2 = ((), u)" by (cases r2) simp
        have "r_off t \<le> r_off u" "r_off u \<le> length p" using am(2) r2 u by auto
        then have "map_loop n p u \<noteq> Inl UB" using Suc.prems t by (intro Suc.IH) linarith+
        then show ?thesis using True Inr r r2 u by (simp add: bnd_def)
      qed
    qed
  qed simp
qed simp

section \<open>Binary search\<close>

abbreviation recs_sorted :: "sm_rec list \<Rightarrow> bool" where
  "recs_sorted rs \<equiv> sorted (map s_ret rs) \<and> distinct (map s_ret rs)"

lemma sorted_no_dup: "sorted (map s_ret rs) \<Longrightarrow> \<not> dup_ret rs \<Longrightarrow> distinct (map s_ret rs)"
proof (induction rs rule: dup_ret.induct)
  case (1 a b rs)
  then show ?case by fastforce
qed auto

lemma sorted_at: "recs_sorted rs \<Longrightarrow> i < length rs \<Longrightarrow> j < length rs \<Longrightarrow> s_ret (rs ! i) < s_ret (rs ! j) \<longleftrightarrow> i < j"
  using sorted_nth_mono [of "map s_ret rs" i j] sorted_nth_mono [of "map s_ret rs" j i] nth_eq_iff_index_eq [of "map s_ret rs" i j]
  by (cases i j rule: linorder_cases) (simp_all add: order_less_le not_less)

lemma find_loop_spec:
  "recs_sorted rs \<Longrightarrow> hi \<le> length rs \<Longrightarrow>
   find_loop rs r lo hi = (if \<exists>i. lo \<le> i \<and> i < hi \<and> s_ret (rs ! i) = r then find (\<lambda>x. s_ret x = r) rs else None)"
proof (induction rs r lo hi rule: find_loop.induct)
  case (1 rs r lo hi)
  define mid where "mid = lo + (hi - lo) div 2"
  show ?case
  proof (cases "lo < hi")
    case True
    have m: "lo \<le> mid" "mid < hi" "mid < length rs" using True 1(4) by (auto simp: mid_def)
    have at: "i < length rs \<Longrightarrow> s_ret (rs ! i) < s_ret (rs ! mid) \<longleftrightarrow> i < mid"
      "i < length rs \<Longrightarrow> s_ret (rs ! mid) < s_ret (rs ! i) \<longleftrightarrow> mid < i" for i
      using sorted_at [OF 1(3)] m by blast+
    consider "s_ret (rs ! mid) < r" | "r < s_ret (rs ! mid)" | "s_ret (rs ! mid) = r" by force
    then show ?thesis
    proof cases
      case 1: 1
      have "(\<exists>i. lo \<le> i \<and> i < hi \<and> s_ret (rs ! i) = r) \<longleftrightarrow> (\<exists>i. mid + 1 \<le> i \<and> i < hi \<and> s_ret (rs ! i) = r)"
        using at 1 m "1.prems"(2) by (metis Suc_eq_plus1 Suc_le_eq leD le_less_trans less_imp_le_nat less_le_trans linorder_not_less)
      then show ?thesis using 1 True "1.IH"(1) [OF True mid_def] "1.prems"
        by (subst find_loop.simps) (simp add: mid_def [symmetric] Let_def)
    next
      case 2
      have "(\<exists>i. lo \<le> i \<and> i < hi \<and> s_ret (rs ! i) = r) \<longleftrightarrow> (\<exists>i. lo \<le> i \<and> i < mid \<and> s_ret (rs ! i) = r)"
        using at 2 m "1.prems"(2) by (metis less_le_trans less_trans)
      moreover have "\<not> s_ret (rs ! mid) < r" using 2 by simp
      ultimately show ?thesis using 2 True "1.IH"(2) [OF True mid_def] "1.prems" m
        by (subst find_loop.simps) (simp add: mid_def [symmetric] Let_def)
    next
      case 3
      have "find (\<lambda>x. s_ret x = r) rs = Some (rs ! mid)"
      proof -
        have "s_ret (rs ! j) \<noteq> r" if "j < mid" for j
          using at(1) [of j] that m(3) 3 by auto
        then show ?thesis using 3 m(3) by (auto simp: find_Some_iff intro!: exI [of _ mid])
      qed
      then show ?thesis using 3 True m
        by (subst find_loop.simps) (auto simp: mid_def [symmetric] Let_def)
    qed
  qed (subst find_loop.simps, auto)
qed

lemma find_rec_linear: "recs_sorted (sm_recs s) \<Longrightarrow> find_rec s r = find (\<lambda>x. s_ret x = r) (sm_recs s)"
proof -
  assume a: "recs_sorted (sm_recs s)"
  show ?thesis
    using find_loop_spec [OF a order_refl, of r 0]
    by (cases "find (\<lambda>x. s_ret x = r) (sm_recs s)") (auto simp: find_rec_def find_Some_iff)
qed

section \<open>The frame chain\<close>

text \<open>
  A well-formed frame chain from \<open>fp\<close> to the outermost frame: the saved frame pointer and the return
  address of every frame, the addresses aligned, ascending and below the top of the stack.
\<close>

fun frame_chain :: "stack_mem \<Rightarrow> u64 \<Rightarrow> u64 \<Rightarrow> (u64 \<times> u64) list \<Rightarrow> bool" where
  "frame_chain m hi fp [] \<longleftrightarrow> False"
| "frame_chain m hi fp ((nxt, raw) # fs) \<longleftrightarrow>
     fp \<noteq> 0 \<and> and fp 7 = 0 \<and> fp + 16 \<le> hi \<and> m fp = Some nxt \<and> m (fp + 8) = Some raw \<and>
     (if fs = [] then nxt = 0 else fp < nxt \<and> frame_chain m hi nxt fs)"

text \<open>What the walk is for: the roots of every frame whose return address has a record, in order.\<close>

fun chain_roots :: "(u64 \<Rightarrow> u64) \<Rightarrow> stack_mem \<Rightarrow> sm_state \<Rightarrow> (u64 \<times> u64) list \<Rightarrow> u64 list res" where
  "chain_roots strip m s [] = Inr []"
| "chain_roots strip m s ((nxt, raw) # fs) =
     bindE (case find (\<lambda>x. s_ret x = strip raw) (sm_recs s) of None \<Rightarrow> Inr [] | Some r \<Rightarrow> frame_roots m s r nxt)
       (\<lambda>vs. bindE (chain_roots strip m s fs) (\<lambda>ws. Inr (vs @ ws)))"

lemma frame_chain_nonzero: "frame_chain m hi fp fs \<Longrightarrow> fp \<noteq> 0"
  by (cases fs) auto

lemma walk_chain:
  "recs_sorted (sm_recs s) \<Longrightarrow> frame_chain m hi fp fs \<Longrightarrow> walk strip m s hi fp = chain_roots strip m s fs"
proof (induction fs arbitrary: fp)
  case (Cons f fs)
  obtain nxt raw where f: "f = (nxt, raw)" by fastforce
  have rd: "rd_word m fp = Inr nxt" "rd_word m (fp + 8) = Inr raw" using Cons.prems(2) by (simp_all add: f rd_word_def)
  have st: "walk strip m s hi fp =
      bindE (case find (\<lambda>x. s_ret x = strip raw) (sm_recs s) of None \<Rightarrow> Inr [] | Some r \<Rightarrow> frame_roots m s r nxt)
        (\<lambda>vs. bindE (if nxt = 0 then Inr [] else walk strip m s hi nxt) (\<lambda>ws. Inr (vs @ ws)))"
    using Cons.prems(2) find_rec_linear [OF Cons.prems(1)]
    by (subst walk.simps) (auto simp: f rd not_less split: if_splits)
  show ?case
  proof (cases "fs = []")
    case True
    then have n0: "nxt = 0" using Cons.prems(2) by (simp add: f)
    show ?thesis using st True unfolding f n0 by simp
  next
    case False
    then have c: "frame_chain m hi nxt fs" using Cons.prems(2) by (simp add: f)
    show ?thesis
      using Cons.IH [OF Cons.prems(1) c] frame_chain_nonzero [OF c] st by (simp add: f)
  qed
qed simp

text \<open>An indirect location is read from an aligned slot inside its frame.\<close>

lemma and7_dvd: "and (a :: u64) 7 = 0 \<Longrightarrow> 8 dvd unat a"
proof -
  assume a: "and a 7 = 0"
  have m: "(7 :: u64) = mask 3" by (simp add: mask_eq_exp_minus_1)
  have "take_bit 3 a = 0" using a unfolding m by (simp add: take_bit_eq_mask)
  then have "take_bit 3 (unat a) = 0" by (metis unsigned_0 unsigned_take_bit_eq)
  then show ?thesis by (simp add: take_bit_eq_mod dvd_eq_mod_eq_0)
qed

lemma slot_inside:
  assumes v: "loc_value m ffp sp l = Inr v" and t: "l_type l = LOC_INDIRECT" and hi: "unat ffp < 2 ^ 62"
    and lo: "int (unat (if l_reg l = REG_SP then sp else ffp)) \<ge> - l_off l" and sp: "unat sp < 2 ^ 62"
    and off: "l_off l < 2 ^ 31" "- (2 ^ 31) \<le> l_off l"
  shows "\<exists>a. m a = Some v \<and> unat sp \<le> unat a \<and> unat a + 8 \<le> unat ffp + 16 \<and> 8 dvd unat a"
proof -
  define b where "b = (if l_reg l = REG_SP then sp else ffp)"
  define a where "a = b + word_of_int (l_off l)"
  have c: "\<not> a < sp" "\<not> a + 8 > ffp + 16" "and a 7 = 0" "rd_word m a = Inr v"
    using v t by (auto simp: loc_value_def Let_def a_def b_def loc_defs split: if_splits)
  have bl: "unat b < 2 ^ 62" using hi sp by (simp add: b_def)
  have ua: "int (unat a) = int (unat b) + l_off l"
  proof -
    have "int (unat b) < int (2 ^ 62)" using bl by (simp only: of_nat_less_iff)
    then have r: "0 \<le> int (unat b) + l_off l" "int (unat b) + l_off l < 18446744073709551616"
      using lo off unfolding b_def [symmetric] by simp_all
    have "uint a = (int (unat b) + l_off l) mod 18446744073709551616"
      by (simp add: a_def uint_word_ariths mod_simps uint_word_of_int)
    also have "\<dots> = int (unat b) + l_off l" by (rule mod_pos_pos_trivial) (use r in simp_all)
    finally show ?thesis by simp
  qed
  have "int (unat b) < int (2 ^ 62)" using bl by (simp only: of_nat_less_iff)
  then have "int (unat a) < 9223372036854775808" using ua off(1) by simp
  then have small: "unat a < 9223372036854775808" by linarith
  have s8: "unat (a + 8) = unat a + 8" using small by (subst unat_add_u64) simp_all
  have s16: "unat (ffp + 16) = unat ffp + 16" using hi by (subst unat_add_u64) simp_all
  have "unat sp \<le> unat a" using c(1) by (simp add: word_less_nat_alt)
  moreover have "unat a + 8 \<le> unat ffp + 16" using c(2) by (simp add: word_less_nat_alt s8 s16)
  moreover have "m a = Some v" using c(4) by (simp add: rd_word_def split: option.splits)
  ultimately show ?thesis using and7_dvd [OF c(3)] by blast
qed

section \<open>Properties\<close>

text \<open>
  C14: parsing never reads outside the section or outside the tables it builds, whatever bytes the
  section holds, and it terminates: \<open>stackmap_init\<close> either stops with one of its messages or returns
  tables whose records are sorted by distinct return addresses.
\<close>

theorem stackmap_init_safe:
  assumes "length p < 2 ^ 64"
  shows "stackmap_init p \<noteq> Inl UB \<and>
    (\<forall>s. stackmap_init p = Inr s \<longrightarrow> sorted (map s_ret (sm_recs s)) \<and> distinct (map s_ret (sm_recs s)))"
proof -
  have m: "map_loop (length p) p sm_empty \<noteq> Inl UB"
    using map_loop_no_UB [OF assms, of sm_empty "length p"] by (simp add: sm_empty_def)
  have "sorted (map s_ret (sort_key s_ret rs))" for rs by simp
  then show ?thesis using m sorted_no_dup
    by (auto simp: stackmap_init_def Let_def sm_empty_def split: sum.splits prod.splits if_splits)
qed

theorem stackmap_init_safe_witness:
  "stackmap_init (replicate 100 3) \<noteq> Inl UB"
  using stackmap_init_safe [of "replicate 100 3"] by simp

text \<open>
  C16: \<open>find_rec\<close>, a binary search, finds in the tables of \<open>stackmap_init\<close> exactly what a linear
  search over the records finds.
\<close>

theorem find_rec_equals_linear:
  assumes "length p < 2 ^ 64" and "stackmap_init p = Inr s"
  shows "find_rec s r = find (\<lambda>x. s_ret x = r) (sm_recs s)"
proof -
  have m: "sorted (map s_ret (sort_key s_ret rs))" for rs by simp
  have "recs_sorted (sm_recs s)"
    using assms(2) m sorted_no_dup
    by (auto simp: stackmap_init_def Let_def sm_empty_def split: sum.splits prod.splits if_splits)
  then show ?thesis by (rule find_rec_linear)
qed

text \<open>A map with one function and one record, all of whose locations are constants.\<close>

definition demo_map :: "u8 list" where
  "demo_map = [3, 0, 0, 0, 1, 0, 0, 0, 0, 0, 0, 0, 1, 0, 0, 0, 0, 16, 0, 0, 0, 0, 0, 0, 32, 0,
     0, 0, 0, 0, 0, 0, 1, 0, 0, 0, 0, 0, 0, 0, 0, 0, 0, 0, 0, 0, 0, 0, 8, 0, 0, 0,
     0, 0, 3, 0, 4, 0, 8, 0, 0, 0, 0, 0, 0, 0, 0, 0, 4, 0, 8, 0, 0, 0, 0, 0, 0, 0,
     0, 0, 4, 0, 8, 0, 0, 0, 0, 0, 0, 0, 0, 0, 0, 0, 0, 0, 0, 0, 0, 0, 0, 0, 0, 0]"

lemma rd_uint_at:
  "length p < 18446744073709551616 \<Longrightarrow> off + k \<le> length p \<Longrightarrow>
   rd_uint p k what \<lparr>r_off = off, sm_recs = rs, sm_locs = ls\<rparr> =
     Inr (le_val (take k (drop off p)), \<lparr>r_off = off + k, sm_recs = rs, sm_locs = ls\<rparr>)"
  by (auto simp: rd_uint_def need_def need_wrap bnd_def lift_sm_def peek_def)

lemma skip_bytes_at:
  "length p < 18446744073709551616 \<Longrightarrow> off + k \<le> length p \<Longrightarrow>
   skip_bytes p k what \<lparr>r_off = off, sm_recs = rs, sm_locs = ls\<rparr> = Inr ((), \<lparr>r_off = off + k, sm_recs = rs, sm_locs = ls\<rparr>)"
  by (auto simp: skip_bytes_def need_def need_wrap bnd_def)

lemma demo_map_parsed:
  "stackmap_init demo_map = Inr \<lparr>r_off = 104, sm_recs = [\<lparr>s_ret = 4104, s_size = 32, s_first = 0, s_nloc = 0\<rparr>], sm_locs = []\<rparr>"
proof -
  define p where "p = demo_map"
  have L: "length p = 104" by (simp add: p_def demo_map_def)
  have v: "le_val (take (Suc 0) (drop 0 p)) = 3" "le_val (take 4 (drop (Suc (Suc (Suc (Suc 0)))) p)) = 1" "le_val (take 4 (drop 8 p)) = 0" "le_val (take 4 (drop 12 p)) = 1"
    "le_val (take 8 (drop 16 p)) = 4096" "le_val (take 8 (drop 24 p)) = 32" "le_val (take 8 (drop 32 p)) = 1"
    "le_val (take 4 (drop 48 p)) = 8" "le_val (take 2 (drop 54 p)) = 3"
    "le_val (take (Suc 0) (drop 56 p)) = 4" "le_val (take (Suc 0) (drop 68 p)) = 4" "le_val (take (Suc 0) (drop 80 p)) = 4"
    "le_val (take 4 (drop 64 p)) = 0" "le_val (take 4 (drop 76 p)) = 0" "le_val (take 4 (drop 88 p)) = 0" "le_val (take 2 (drop 98 p)) = 0"
    by (simp_all add: p_def demo_map_def)
  define h where "h = \<lparr>h_funcs = 16, h_consts = 40, h_nfunc = 1, h_nconst = 0, h_nrec = 1\<rparr>"
  note ev = rd_uint_at skip_bytes_at L v bnd_def rd_defs ret_def
  have hd: "sm_header p sm_empty = Inr (h, \<lparr>r_off = 40, sm_recs = [], sm_locs = []\<rparr>)"
    by (simp add: sm_header_def sm_empty_def h_def ev v(1) [unfolded drop_0])
  have w: "func_word p h 0 0 = ret 4096" "func_word p h 0 8 = ret 32" "func_word p h 0 16 = ret 1"
    by (simp_all add: h_def func_word_def lift_sm_def peek_def L v fun_eq_iff)
  have c: "seen_loop p h (h_nfunc h) 0 s = Inr (1, s)" for s
    using w(3) by (simp add: h_def bnd_def)
  have nf: "next_func p h \<lparr>c_fi = 0, c_left = 0, c_addr = 0, c_size = 0\<rparr> s =
      Inr (\<lparr>c_fi = 1, c_left = 1, c_addr = 4096, c_size = 32\<rparr>, s)" for s
  proof -
    have "next_func p h \<lparr>c_fi = 1, c_left = 1, c_addr = 4096, c_size = 32\<rparr> = ret \<lparr>c_fi = 1, c_left = 1, c_addr = 4096, c_size = 32\<rparr>"
      by (simp add: next_func.simps)
    moreover have "0 < h_nfunc h" by (simp add: h_def)
    ultimately show ?thesis by (subst next_func.simps) (simp add: w bnd_def)
  qed
  have lc: "lead_const p h \<lparr>r_off = off, sm_recs = [], sm_locs = []\<rparr> = Inr (0, \<lparr>r_off = off + 12, sm_recs = [], sm_locs = []\<rparr>)"
    if "off = 56 \<or> off = 68 \<or> off = 80" for off
    using that by (auto simp: lead_const_def rd_i32_def ev loc_defs s32_of_int_def)
  have pr: "parse_record p h \<lparr>c_fi = 0, c_left = 0, c_addr = 0, c_size = 0\<rparr> \<lparr>r_off = 40, sm_recs = [], sm_locs = []\<rparr> =
      Inr (\<lparr>c_fi = 1, c_left = 0, c_addr = 4096, c_size = 32\<rparr>,
        \<lparr>r_off = 104, sm_recs = [\<lparr>s_ret = 4104, s_size = 32, s_first = 0, s_nloc = 0\<rparr>], sm_locs = []\<rparr>)"
    by (simp add: parse_record_def nf lc ev live_outs_def rd_align8_def Let_def)
  have pm: "parse_map p sm_empty = Inr ((), \<lparr>r_off = 104, sm_recs = [\<lparr>s_ret = 4104, s_size = 32, s_first = 0, s_nloc = 0\<rparr>], sm_locs = []\<rparr>)"
    using pr c by (simp add: parse_map_def hd bnd_def ret_def) (simp add: h_def bnd_def)
  have ml: "map_loop 104 p sm_empty = Inr ((), \<lparr>r_off = 104, sm_recs = [\<lparr>s_ret = 4104, s_size = 32, s_first = 0, s_nloc = 0\<rparr>], sm_locs = []\<rparr>)"
  proof -
    have "map_loop (Suc (Suc n)) p sm_empty = Inr ((), \<lparr>r_off = 104, sm_recs = [\<lparr>s_ret = 4104, s_size = 32, s_first = 0, s_nloc = 0\<rparr>], sm_locs = []\<rparr>)" for n
      using pm by (simp add: bnd_def L rd_align8_def skip_bytes_at) (simp add: sm_empty_def)
    moreover have "104 = Suc (Suc (102 :: nat))" by simp
    ultimately show ?thesis by metis
  qed
  have "p \<noteq> []" using L by auto
  then show ?thesis using ml L unfolding p_def [symmetric] by (simp add: stackmap_init_def)
qed

theorem find_rec_equals_linear_witness:
  "find_rec \<lparr>r_off = 104, sm_recs = [\<lparr>s_ret = 4104, s_size = 32, s_first = 0, s_nloc = 0\<rparr>], sm_locs = []\<rparr> 4104 =
   Some \<lparr>s_ret = 4104, s_size = 32, s_first = 0, s_nloc = 0\<rparr>"
  using find_rec_equals_linear [OF _ demo_map_parsed, of 4104] by (simp add: demo_map_def)

text \<open>
  C15: on a well-formed frame chain the walk reports exactly the roots of the frames that have a
  record, frame by frame, and stops at the outermost frame; it neither skips nor repeats a frame.
\<close>

theorem stackmap_roots_chain:
  assumes "length p < 2 ^ 64" and "stackmap_init p = Inr s" and "sm_recs s \<noteq> []" and "frame_chain m hi fp fs" and "fp < hi"
  shows "stackmap_roots strip m s hi fp = chain_roots strip m s fs"
proof -
  have m: "sorted (map s_ret (sort_key s_ret rs))" for rs by simp
  have "recs_sorted (sm_recs s)"
    using assms(2) m sorted_no_dup
    by (auto simp: stackmap_init_def Let_def sm_empty_def split: sum.splits prod.splits if_splits)
  then show ?thesis
    using walk_chain [OF _ assms(4)] frame_chain_nonzero [OF assms(4)] assms(3) assms(5) [folded not_le]
    by (simp add: stackmap_roots_def)
qed

theorem stackmap_roots_chain_witness:
  "stackmap_roots id (\<lambda>a. if a = 64 then Some 0 else if a = 72 then Some 99 else None)
     \<lparr>r_off = 104, sm_recs = [\<lparr>s_ret = 4104, s_size = 32, s_first = 0, s_nloc = 0\<rparr>], sm_locs = []\<rparr> 128 64 = Inr []"
  using stackmap_roots_chain [OF _ demo_map_parsed, of "\<lambda>a. if a = 64 then Some 0 else if a = 72 then Some 99 else None" 128 64 "[(0, 99)]" id]
  by (simp add: demo_map_def)

text \<open>
  A heap pointer of kind Indirect is read from an aligned 8-byte slot of the frame itself,
  between its stack pointer and the end of its frame record, for addresses in the user half of the
  address space.
\<close>

theorem gc_slot_inside_frame:
  assumes "loc_value m ffp sp l = Inr v" and "l_type l = LOC_INDIRECT" and "unat ffp < 2 ^ 62" and "unat sp < 2 ^ 62"
    and "- l_off l \<le> int (unat (if l_reg l = REG_SP then sp else ffp))" and "l_off l < 2 ^ 31" and "- (2 ^ 31) \<le> l_off l"
  shows "\<exists>a. m a = Some v \<and> unat sp \<le> unat a \<and> unat a + 8 \<le> unat ffp + 16 \<and> 8 dvd unat a"
  by (rule slot_inside [OF assms(1-3) assms(5) assms(4) assms(6,7)])

theorem gc_slot_inside_frame_witness:
  "\<exists>a. (\<lambda>a. if a = 40 then Some 7 else None) a = Some (7 :: u64) \<and> (32 :: nat) \<le> unat (a :: u64) \<and> unat a + 8 \<le> 80 \<and> 8 dvd unat a"
  using gc_slot_inside_frame [of "\<lambda>a. if a = 40 then Some 7 else None" 64 32 "\<lparr>l_type = LOC_INDIRECT, l_reg = REG_SP, l_off = 8, l_konst = 0\<rparr>" 7]
  by (simp add: loc_value_def rd_word_def Let_def REG_SP_def)

text \<open>
  The check that bounds the walk, \<open>fp + 16 > top\<close>, wraps around for a saved frame pointer in the
  last 16 bytes of the address space: the walk then reads there instead of stopping.
\<close>

lemma walk_bound_wraps:
  assumes "m (- 8) = None" and "8 \<le> hi"
  shows "walk strip m s hi (- 8) = Inl UB"
  using assms(1) leD [OF assms(2)] by (subst walk.simps) (simp add: rd_word_def)

end
