(* ===== verification/RtState.thy ===== *)
theory RtState
  imports Prelude Digits
begin

text \<open>
  \<open>csrc/a68rt.h\<close> and the first part of \<open>csrc/rt.c\<close>: values, heap objects, the global state of
  the run-time system, and the allocator with its free lists by size class.

  An address is a natural number, 0 is the null pointer. The C heap is a map from addresses to
  objects; \<open>all_objects\<close> is the list the sweep walks, newest first. A block on a free list, or
  given back to the C library, is not in the map. \<open>block_cap\<close> remembers how many bytes
  \<open>calloc\<close> was asked for when a block was first made; the code has no such field, it is there
  to state that a recycled block is large enough. \<open>xmalloc\<close> never returns null (the code
  exits), and \<open>calloc\<close> is taken to return addresses that are not in use.

  REAL payloads are kept as their 64 bits. \<open>depth_limit\<close> bounds the recursion of the C
  functions that walk structures inside structures: a walk deeper than it ends in the error
  \<open>Fatal ''stack overflow''\<close>, as exhausting the C stack would.
\<close>

section \<open>Values\<close>

datatype a68_val = VUndef | VInt "64 word" | VReal u64 | VBool bool | VChar u32 | VBits u64
  | VVoid | VNil | VRef nat u32 | VRow nat | VStruct nat | VUnion nat u32 | VCproc nat u32
  | VFmt nat u32 | VBuiltin u32 | VFile u32 | VMp nat | VBigint nat | VBigbits nat | VLref u32

fun tag_of :: "a68_val \<Rightarrow> nat" where
  "tag_of VUndef = 0" | "tag_of (VInt _) = 1" | "tag_of (VReal _) = 2" | "tag_of (VBool _) = 3"
| "tag_of (VChar _) = 4" | "tag_of (VBits _) = 5" | "tag_of VVoid = 6" | "tag_of VNil = 7"
| "tag_of (VRef _ _) = 8" | "tag_of (VRow _) = 9" | "tag_of (VStruct _) = 10"
| "tag_of (VUnion _ _) = 11" | "tag_of (VCproc _ _) = 12" | "tag_of (VFmt _ _) = 13"
| "tag_of (VBuiltin _) = 14" | "tag_of (VFile _) = 15" | "tag_of (VMp _) = 16"
| "tag_of (VBigint _) = 17" | "tag_of (VBigbits _) = 18" | "tag_of (VLref _) = 19"

text \<open>\<open>tag_is_ptr\<close>, and the pointer of a value whose tag says so (0 for the others).\<close>

fun tag_is_ptr :: "a68_val \<Rightarrow> bool" where
  "tag_is_ptr (VRef _ _) = True" | "tag_is_ptr (VRow _) = True" | "tag_is_ptr (VStruct _) = True"
| "tag_is_ptr (VUnion _ _) = True" | "tag_is_ptr (VCproc _ _) = True" | "tag_is_ptr (VFmt _ _) = True"
| "tag_is_ptr (VMp _) = True" | "tag_is_ptr (VBigint _) = True" | "tag_is_ptr (VBigbits _) = True"
| "tag_is_ptr _ = False"

fun val_ptr :: "a68_val \<Rightarrow> nat" where
  "val_ptr (VRef p _) = p" | "val_ptr (VRow p) = p" | "val_ptr (VStruct p) = p"
| "val_ptr (VUnion p _) = p" | "val_ptr (VCproc p _) = p" | "val_ptr (VFmt p _) = p"
| "val_ptr (VMp p) = p" | "val_ptr (VBigint p) = p" | "val_ptr (VBigbits p) = p"
| "val_ptr _ = 0"

text \<open>The 64 payload bits \<open>v.v.u\<close>.\<close>

fun val_bits :: "a68_val \<Rightarrow> u64" where
  "val_bits (VInt i) = i" | "val_bits (VReal r) = r" | "val_bits (VBool b) = (if b then 1 else 0)"
| "val_bits (VChar c) = ucast c" | "val_bits (VBits b) = b" | "val_bits v = of_nat (val_ptr v)"

section \<open>Objects\<close>

datatype ekind = EK_INT | EK_REAL | EK_BOOL | EK_CHAR | EK_BITS | EK_BYTES

record a68_dim =
  d_l :: int
  d_u :: int
  d_stride :: int

record a68_rowd =
  r_base :: nat
  r_off :: int
  r_field :: nat
  r_borrow :: bool
  r_dim :: "a68_dim list"

datatype obj_body = Slots "a68_val list" | Leaf ekind "u64 list" "bool list" | Rowd a68_rowd
  | Frame nat nat "a68_val list" | Freed

record a68_obj =
  o_mark :: bool
  o_rc :: u32
  o_size :: nat
  o_body :: obj_body

definition VIEW_OFF :: u32 where "VIEW_OFF = 0xFFFFFFFF"

fun leaf_esize :: "ekind \<Rightarrow> nat" where
  "leaf_esize EK_INT = 8" | "leaf_esize EK_REAL = 8" | "leaf_esize EK_BITS = 8"
| "leaf_esize EK_CHAR = 1" | "leaf_esize EK_BOOL = 1" | "leaf_esize EK_BYTES = 1"

text \<open>The sizes of the C structures on the 64-bit targets.\<close>

definition slots_size :: "nat \<Rightarrow> nat" where "slots_size n = 24 + n * 16"
definition rowd_size :: "nat \<Rightarrow> nat" where "rowd_size nd = 48 + nd * 24"
definition frame_size :: "nat \<Rightarrow> nat" where "frame_size n = 40 + n * 16"
definition leaf_size :: "ekind \<Rightarrow> nat \<Rightarrow> nat" where
  "leaf_size ek n = 24 + (n * leaf_esize ek + (if ek = EK_BYTES then 0 else n))"

section \<open>The global state\<close>

record rt_state =
  heap :: "nat \<Rightarrow> a68_obj option"
  all_objects :: "nat list"
  free_lists :: "nat \<Rightarrow> nat list"
  next_addr :: nat
  block_cap :: "nat \<Rightarrow> nat"
  bytes_allocated :: nat
  bytes_live :: nat
  gc_wanted :: bool
  gc_off :: bool
  gc_stress :: bool
  gc_verify :: bool
  gc_limit :: nat
  gc_min_between :: nat
  gc_collections :: nat
  gc_freed_bytes :: nat
  gc_peak_live :: nat
  quarantine :: "nat \<Rightarrow> nat list"
  stack :: "a68_val list"
  env :: nat
  saved :: "nat list"
  io_roots :: "a68_val list"
  native_roots :: "nat list"
  jump_flag :: u32
  line_no :: u32
  strtab :: "string list"
  depth_limit :: nat

type_synonym 'a rt = "(rt_state, 'a) run"

definition die :: "string \<Rightarrow> 'a rt" where "die msg = stop (Die msg)"

section \<open>Allocation\<close>

definition FREE_MAX :: nat where "FREE_MAX = 512"

definition obj_alloc :: "obj_body \<Rightarrow> nat \<Rightarrow> nat rt" where
  "obj_alloc b sz s =
     (let cls = (sz + 15) div 16;
          sz' = (if sz \<le> FREE_MAX then cls * 16 else sz);
          (a, s1) = (if sz \<le> FREE_MAX \<and> free_lists s cls \<noteq> []
            then (hd (free_lists s cls), s\<lparr>free_lists := (free_lists s)(cls := tl (free_lists s cls))\<rparr>)
            else (next_addr s, s\<lparr>next_addr := next_addr s + 1,
                                 block_cap := (block_cap s)(next_addr s := sz')\<rparr>));
          s2 = s1\<lparr>heap := (heap s1)(a \<mapsto> \<lparr>o_mark = False, o_rc = 0, o_size = sz' mod 4294967296, o_body = b\<rparr>),
                  all_objects := a # all_objects s1,
                  bytes_allocated := bytes_allocated s1 + sz'\<rparr>
      in Inr (a, if \<not> gc_off s2 \<and> (gc_stress s2 \<or> bytes_allocated s2 > gc_min_between s2 + 2 * bytes_live s2)
                 then s2\<lparr>gc_wanted := True\<rparr> else s2))"

text \<open>\<open>obj_release\<close> on an object already unlinked from \<open>all_objects\<close>.\<close>

definition obj_release :: "nat \<Rightarrow> rt_state \<Rightarrow> rt_state" where
  "obj_release a s = (case heap s a of None \<Rightarrow> s
     | Some ob \<Rightarrow>
       (let s1 = s\<lparr>heap := (heap s)(a := None)\<rparr> in
        if o_size ob \<le> FREE_MAX
        then s1\<lparr>free_lists := (free_lists s1)(o_size ob div 16 := a # free_lists s1 (o_size ob div 16))\<rparr>
        else s1))"

definition leaf_alloc :: "ekind \<Rightarrow> nat \<Rightarrow> nat rt" where
  "leaf_alloc ek n = obj_alloc (Leaf ek (replicate n 0) (if ek = EK_BYTES then [] else replicate n False))
     (leaf_size ek n)"

definition slots_alloc :: "nat \<Rightarrow> nat rt" where
  "slots_alloc n = obj_alloc (Slots (replicate n VUndef)) (slots_size n)"

definition rowd_alloc :: "nat \<Rightarrow> nat rt" where
  "rowd_alloc nd = obj_alloc (Rowd \<lparr>r_base = 0, r_off = 0, r_field = 0, r_borrow = False,
     r_dim = replicate nd \<lparr>d_l = 0, d_u = 0, d_stride = 0\<rparr>\<rparr>) (rowd_size nd)"

section \<open>Reading and writing objects\<close>

definition get_obj :: "nat \<Rightarrow> a68_obj rt" where
  "get_obj a s = (case heap s a of None \<Rightarrow> Inl UB | Some ob \<Rightarrow> Inr (ob, s))"

definition get_body :: "nat \<Rightarrow> obj_body rt" where
  "get_body a = bnd (get_obj a) (\<lambda>ob. ret (o_body ob))"

definition put_obj :: "nat \<Rightarrow> (a68_obj \<Rightarrow> a68_obj) \<Rightarrow> unit rt" where
  "put_obj a f s = (case heap s a of None \<Rightarrow> Inl UB
     | Some ob \<Rightarrow> Inr ((), s\<lparr>heap := (heap s)(a \<mapsto> f ob)\<rparr>))"

definition set_body :: "nat \<Rightarrow> obj_body \<Rightarrow> unit rt" where
  "set_body a b = put_obj a (\<lambda>ob. ob\<lparr>o_body := b\<rparr>)"

definition set_rc :: "nat \<Rightarrow> (u32 \<Rightarrow> u32) \<Rightarrow> unit rt" where
  "set_rc a f = put_obj a (\<lambda>ob. ob\<lparr>o_rc := f (o_rc ob)\<rparr>)"

text \<open>A cast of an object pointer to the type of its kind; reading it at another kind is undefined.\<close>

definition get_rowd :: "nat \<Rightarrow> a68_rowd rt" where
  "get_rowd a = bnd (get_body a) (\<lambda>b. case b of Rowd r \<Rightarrow> ret r | _ \<Rightarrow> stop UB)"

definition get_slots :: "nat \<Rightarrow> a68_val list rt" where
  "get_slots a = bnd (get_body a) (\<lambda>b. case b of Slots vs \<Rightarrow> ret vs | _ \<Rightarrow> stop UB)"

text \<open>A pointer to a value: the address of a slots object or a frame, and the index of the slot.\<close>

fun body_cells :: "obj_body \<Rightarrow> a68_val list option" where
  "body_cells (Slots vs) = Some vs"
| "body_cells (Frame p d vs) = Some vs"
| "body_cells _ = None"

fun body_with_cells :: "obj_body \<Rightarrow> a68_val list \<Rightarrow> obj_body" where
  "body_with_cells (Slots _) vs = Slots vs"
| "body_with_cells (Frame p d _) vs = Frame p d vs"
| "body_with_cells b vs = b"

definition slot_read :: "nat \<times> nat \<Rightarrow> a68_val rt" where
  "slot_read p = bnd (get_body (fst p)) (\<lambda>b. case body_cells b of
     Some vs \<Rightarrow> if snd p < length vs then ret (vs ! snd p) else stop UB | None \<Rightarrow> stop UB)"

definition slot_write :: "nat \<times> nat \<Rightarrow> a68_val \<Rightarrow> unit rt" where
  "slot_write p v = bnd (get_body (fst p)) (\<lambda>b. case body_cells b of
     Some vs \<Rightarrow> if snd p < length vs then set_body (fst p) (body_with_cells b (vs[snd p := v])) else stop UB
   | None \<Rightarrow> stop UB)"

section \<open>Elements of a store\<close>

fun leaf_value :: "ekind \<Rightarrow> u64 \<Rightarrow> a68_val" where
  "leaf_value EK_INT x = VInt x" | "leaf_value EK_REAL x = VReal x" | "leaf_value EK_BITS x = VBits x"
| "leaf_value EK_CHAR x = VChar (ucast x)" | "leaf_value EK_BOOL x = VBool (x \<noteq> 0)"
| "leaf_value EK_BYTES x = VUndef"

fun leaf_payload :: "ekind \<Rightarrow> u64 \<Rightarrow> a68_val \<Rightarrow> u64" where
  "leaf_payload EK_INT old v = val_bits v" | "leaf_payload EK_REAL old v = val_bits v"
| "leaf_payload EK_BITS old v = val_bits v"
| "leaf_payload EK_CHAR old v = ucast (ucast (val_bits v) :: u8)"
| "leaf_payload EK_BOOL old v = ucast (ucast (val_bits v) :: u8)"
| "leaf_payload EK_BYTES old v = old"

fun store_get :: "obj_body \<Rightarrow> int \<Rightarrow> a68_val res" where
  "store_get (Slots vs) idx = (if 0 \<le> idx \<and> idx < int (length vs) then Inr (vs ! nat idx) else Inl UB)"
| "store_get (Leaf ek ds fs) idx =
     (if 0 \<le> idx \<and> idx < int (length fs) \<and> length ds = length fs
      then Inr (if fs ! nat idx then leaf_value ek (ds ! nat idx) else VUndef) else Inl UB)"
| "store_get _ idx = Inl UB"

fun leaf_accepts :: "ekind \<Rightarrow> a68_val \<Rightarrow> bool" where
  "leaf_accepts ek VUndef = True"
| "leaf_accepts EK_INT (VInt _) = True"
| "leaf_accepts EK_REAL (VReal _) = True"
| "leaf_accepts EK_BITS (VBits _) = True"
| "leaf_accepts EK_BOOL (VBool _) = True"
| "leaf_accepts EK_CHAR (VChar c) = (c < 256)"
| "leaf_accepts _ _ = False"

fun store_put :: "obj_body \<Rightarrow> int \<Rightarrow> a68_val \<Rightarrow> obj_body res" where
  "store_put (Slots vs) idx v =
     (if 0 \<le> idx \<and> idx < int (length vs) then Inr (Slots (vs[nat idx := v])) else Inl UB)"
| "store_put (Leaf ek ds fs) idx v =
     (if 0 \<le> idx \<and> idx < int (length fs) \<and> length ds = length fs
      then Inr (if v = VUndef then Leaf ek ds (fs[nat idx := False])
                else Leaf ek (ds[nat idx := leaf_payload ek (ds ! nat idx) v]) (fs[nat idx := True]))
      else Inl UB)"
| "store_put _ idx v = Inl UB"

definition lift_res :: "'a res \<Rightarrow> 'a rt" where
  "lift_res r s = (case r of Inl e \<Rightarrow> Inl e | Inr x \<Rightarrow> Inr (x, s))"

text \<open>\<open>unborrow\<close>: a borrowed row that is kept becomes a share.\<close>

definition unborrow :: "a68_val \<Rightarrow> a68_val rt" where
  "unborrow v = (case v of
     VRow p \<Rightarrow> bnd (get_rowd p) (\<lambda>d. if r_borrow d
       then bnd (set_body p (Rowd (d\<lparr>r_borrow := False\<rparr>))) (\<lambda>_.
            bnd (set_rc (r_base d) (\<lambda>c. c + 1)) (\<lambda>_. ret v))
       else ret v)
   | _ \<Rightarrow> ret v)"

definition store_set :: "nat \<Rightarrow> int \<Rightarrow> a68_val \<Rightarrow> unit rt" where
  "store_set st idx v = bnd (get_body st) (\<lambda>b. case b of
     Slots _ \<Rightarrow> bnd (unborrow v) (\<lambda>v'. bnd (get_body st) (\<lambda>b'. bnd (lift_res (store_put b' idx v')) (set_body st)))
   | _ \<Rightarrow> bnd (lift_res (store_put b idx v)) (set_body st))"

text \<open>The leaf kind \<open>store_alloc_for\<close> picks for a sample value; slots for anything else.\<close>

fun leaf_kind_for :: "a68_val \<Rightarrow> ekind option" where
  "leaf_kind_for (VInt _) = Some EK_INT"
| "leaf_kind_for (VReal _) = Some EK_REAL"
| "leaf_kind_for (VBits _) = Some EK_BITS"
| "leaf_kind_for (VBool _) = Some EK_BOOL"
| "leaf_kind_for (VChar c) = (if c < 256 then Some EK_CHAR else None)"
| "leaf_kind_for _ = None"

definition store_alloc_for :: "nat \<Rightarrow> a68_val \<Rightarrow> nat rt" where
  "store_alloc_for n sample = (case leaf_kind_for sample of
     Some ek \<Rightarrow> leaf_alloc ek n | None \<Rightarrow> slots_alloc n)"

section \<open>The allocator's invariant\<close>

text \<open>
  The objects are pairwise different addresses and in the map; what else is in the map is
  poisoned and in quarantine; a free block is not in the map, is on one free list only, and
  holds at least as many bytes as the class of its list promises.
\<close>

definition quarantined :: "rt_state \<Rightarrow> nat set" where
  "quarantined s = (\<Union>q. set (quarantine s q))"

definition blocks_ok :: "rt_state \<Rightarrow> bool" where
  "blocks_ok s \<longleftrightarrow> (\<forall>c. distinct (free_lists s c) \<and>
     (\<forall>a \<in> set (free_lists s c). heap s a = None \<and> 0 < a \<and> a < next_addr s \<and> c * 16 \<le> block_cap s a) \<and>
     (\<forall>c'. c \<noteq> c' \<longrightarrow> set (free_lists s c) \<inter> set (free_lists s c') = {}))"

definition quar_ok :: "rt_state \<Rightarrow> bool" where
  "quar_ok s \<longleftrightarrow> (\<forall>q q'. q \<noteq> q' \<longrightarrow> set (quarantine s q) \<inter> set (quarantine s q') = {}) \<and>
     (\<forall>q \<ge> 4. quarantine s q = [])"

definition alloc_ok :: "rt_state \<Rightarrow> bool" where
  "alloc_ok s \<longleftrightarrow> 0 < next_addr s \<and> distinct (all_objects s) \<and> blocks_ok s \<and> quar_ok s \<and>
     dom (heap s) = set (all_objects s) \<union> quarantined s \<and> set (all_objects s) \<inter> quarantined s = {} \<and>
     (\<forall>a ob. heap s a = Some ob \<longrightarrow> 0 < a \<and> a < next_addr s \<and> o_size ob \<le> block_cap s a)"

lemma alloc_okD:
  assumes "alloc_ok s"
  shows "distinct (all_objects s)" and "blocks_ok s" and "dom (heap s) = set (all_objects s) \<union> quarantined s"
    and "set (all_objects s) \<inter> quarantined s = {}" and "0 < next_addr s" and "quar_ok s"
    and "heap s a = Some ob \<Longrightarrow> 0 < a \<and> a < next_addr s \<and> o_size ob \<le> block_cap s a"
  using assms by (auto simp: alloc_ok_def)

lemma alloc_ok_heap: "alloc_ok s \<Longrightarrow> a \<in> set (all_objects s) \<Longrightarrow> \<exists>ob. heap s a = Some ob"
  using alloc_okD(3) [of s] by (auto simp: dom_def)

lemma alloc_ok_pos: "alloc_ok s \<Longrightarrow> a \<in> set (all_objects s) \<Longrightarrow> 0 < a"
  using alloc_ok_heap alloc_okD(7) by blast

lemma blocks_okD:
  assumes "blocks_ok s" and "a \<in> set (free_lists s c)"
  shows "heap s a = None" and "0 < a" and "a < next_addr s" and "c * 16 \<le> block_cap s a"
    and "c \<noteq> c' \<Longrightarrow> a \<notin> set (free_lists s c')"
  using assms by (auto simp: blocks_ok_def)

text \<open>Round up to the size class.\<close>

definition alloc_size :: "nat \<Rightarrow> nat" where
  "alloc_size sz = (if sz \<le> FREE_MAX then (sz + 15) div 16 * 16 else sz)"

lemma alloc_size_ge: "sz \<le> alloc_size sz"
  unfolding alloc_size_def by (simp, presburger)

text \<open>The two ways to obtain a block.\<close>

definition take_block :: "nat \<Rightarrow> rt_state \<Rightarrow> nat \<times> rt_state" where
  "take_block sz s = (let cls = (sz + 15) div 16 in
     if sz \<le> FREE_MAX \<and> free_lists s cls \<noteq> []
     then (hd (free_lists s cls), s\<lparr>free_lists := (free_lists s)(cls := tl (free_lists s cls))\<rparr>)
     else (next_addr s, s\<lparr>next_addr := next_addr s + 1, block_cap := (block_cap s)(next_addr s := alloc_size sz)\<rparr>))"

definition new_object :: "obj_body \<Rightarrow> nat \<Rightarrow> a68_obj" where
  "new_object b sz = \<lparr>o_mark = False, o_rc = 0, o_size = alloc_size sz mod 4294967296, o_body = b\<rparr>"

definition link_object :: "nat \<Rightarrow> a68_obj \<Rightarrow> nat \<Rightarrow> rt_state \<Rightarrow> rt_state" where
  "link_object a ob n s = (let s2 = s\<lparr>heap := (heap s)(a \<mapsto> ob), all_objects := a # all_objects s,
       bytes_allocated := bytes_allocated s + n\<rparr>
     in if \<not> gc_off s2 \<and> (gc_stress s2 \<or> bytes_allocated s2 > gc_min_between s2 + 2 * bytes_live s2)
        then s2\<lparr>gc_wanted := True\<rparr> else s2)"

lemma obj_alloc_eq:
  "obj_alloc b sz s = (let (a, s1) = take_block sz s in Inr (a, link_object a (new_object b sz) (alloc_size sz) s1))"
  by (simp add: obj_alloc_def take_block_def link_object_def new_object_def alloc_size_def Let_def)

lemma link_object_fields [simp]:
  "heap (link_object a ob n s) = (heap s)(a \<mapsto> ob)"
  "all_objects (link_object a ob n s) = a # all_objects s"
  "free_lists (link_object a ob n s) = free_lists s"
  "next_addr (link_object a ob n s) = next_addr s"
  "block_cap (link_object a ob n s) = block_cap s"
  "quarantine (link_object a ob n s) = quarantine s"
  "stack (link_object a ob n s) = stack s" "env (link_object a ob n s) = env s"
  "saved (link_object a ob n s) = saved s" "io_roots (link_object a ob n s) = io_roots s"
  "native_roots (link_object a ob n s) = native_roots s" "depth_limit (link_object a ob n s) = depth_limit s"
  "gc_off (link_object a ob n s) = gc_off s" "jump_flag (link_object a ob n s) = jump_flag s"
  by (simp_all add: link_object_def Let_def)

lemma take_block_frame:
  assumes "take_block sz s = (a, s1)"
  shows "heap s1 = heap s" and "all_objects s1 = all_objects s" and "quarantine s1 = quarantine s"
    and "stack s1 = stack s" and "env s1 = env s" and "saved s1 = saved s" and "io_roots s1 = io_roots s"
    and "native_roots s1 = native_roots s" and "depth_limit s1 = depth_limit s" and "gc_off s1 = gc_off s"
    and "jump_flag s1 = jump_flag s"
  using assms by (auto simp: take_block_def Let_def split: if_splits)

lemma take_block_ok:
  assumes ok: "alloc_ok s" and t: "take_block sz s = (a, s1)"
  shows "heap s a = None \<and> 0 < a \<and> a < next_addr s1 \<and> next_addr s \<le> next_addr s1 \<and> alloc_size sz \<le> block_cap s1 a \<and>
    (\<forall>b < next_addr s. block_cap s1 b = block_cap s b) \<and>
    (\<forall>c. distinct (free_lists s1 c) \<and> set (free_lists s1 c) \<subseteq> set (free_lists s c) - {a})"
proof (cases "sz \<le> FREE_MAX \<and> free_lists s ((sz + 15) div 16) \<noteq> []")
  case True
  define cls where "cls = (sz + 15) div 16"
  obtain as where f: "free_lists s cls = a # as"
    and s1: "s1 = s\<lparr>free_lists := (free_lists s)(cls := as)\<rparr>"
    using True t by (cases "free_lists s cls") (auto simp: take_block_def cls_def Let_def)
  have b: "blocks_ok s" using ok by (rule alloc_okD)
  have a: "a \<in> set (free_lists s cls)" using f by simp
  have d: "distinct (free_lists s c)" for c using b by (simp add: blocks_ok_def)
  have sub: "distinct (free_lists s1 c) \<and> set (free_lists s1 c) \<subseteq> set (free_lists s c) - {a}" for c
    using d [of c] f blocks_okD(5) [OF b a, of c] by (cases "c = cls") (auto simp: s1)
  have "alloc_size sz = cls * 16" using True by (simp add: alloc_size_def cls_def)
  then show ?thesis using blocks_okD [OF b a] sub by (simp add: s1)
next
  case False
  then have "a = next_addr s" and s1: "s1 = s\<lparr>next_addr := next_addr s + 1, block_cap := (block_cap s)(next_addr s := alloc_size sz)\<rparr>"
    using t by (auto simp: take_block_def Let_def split: if_splits)
  moreover have "heap s (next_addr s) = None"
    using alloc_okD(7) [OF ok, of "next_addr s"] by (cases "heap s (next_addr s)") auto
  moreover have "blocks_ok s" "0 < next_addr s" using ok by (rule alloc_okD)+
  ultimately show ?thesis by (auto simp: blocks_ok_def)
qed

lemma obj_alloc_cases:
  assumes "alloc_ok s" and "obj_alloc b sz s = Inr (a, s')"
  obtains s1 where "take_block sz s = (a, s1)" and "s' = link_object a (new_object b sz) (alloc_size sz) s1"
  using assms by (auto simp: obj_alloc_eq Let_def split: prod.splits)

lemma obj_alloc_total: "\<exists>a s'. obj_alloc b sz s = Inr (a, s')"
  by (auto simp: obj_alloc_eq Let_def split: prod.splits)

lemma obj_alloc_fresh:
  assumes ok: "alloc_ok s" and al: "obj_alloc b sz s = Inr (a, s')"
  shows "heap s a = None \<and> 0 < a \<and> heap s' = (heap s)(a \<mapsto> new_object b sz) \<and>
    all_objects s' = a # all_objects s \<and> sz \<le> block_cap s' a \<and>
    quarantine s' = quarantine s \<and> stack s' = stack s \<and> env s' = env s \<and> saved s' = saved s \<and>
    io_roots s' = io_roots s \<and> native_roots s' = native_roots s \<and> depth_limit s' = depth_limit s"
proof -
  obtain s1 where t: "take_block sz s = (a, s1)" and s': "s' = link_object a (new_object b sz) (alloc_size sz) s1"
    using obj_alloc_cases [OF ok al] .
  have "sz \<le> block_cap s1 a" using take_block_ok [OF ok t] alloc_size_ge [of sz] by linarith
  then show ?thesis using take_block_ok [OF ok t] take_block_frame [OF t] by (simp add: s')
qed

lemma obj_alloc_ok:
  assumes ok: "alloc_ok s" and al: "obj_alloc b sz s = Inr (a, s')"
  shows "alloc_ok s'"
proof -
  obtain s1 where t: "take_block sz s = (a, s1)" and s': "s' = link_object a (new_object b sz) (alloc_size sz) s1"
    using obj_alloc_cases [OF ok al] .
  note fr = take_block_frame [OF t] and tb = take_block_ok [OF ok t]
  have q: "quarantined s' = quarantined s" "quar_ok s' = quar_ok s"
    using fr by (simp_all add: s' quarantined_def quar_ok_def)
  have bl: "blocks_ok s" using ok by (rule alloc_okD)
  have na: "a \<notin> dom (heap s)" using tb by (simp add: dom_def)
  have sub: "\<And>c. set (free_lists s1 c) \<subseteq> set (free_lists s c) - {a}" using tb by blast
  have "blocks_ok s'"
    unfolding blocks_ok_def
  proof (intro allI conjI ballI impI)
    fix c show "distinct (free_lists s' c)" using tb by (simp add: s')
  next
    fix c x assume x: "x \<in> set (free_lists s' c)"
    then have xs: "x \<in> set (free_lists s c)" "x \<noteq> a" using sub [of c] by (auto simp: s')
    show "heap s' x = None" using blocks_okD(1) [OF bl xs(1)] xs(2) fr by (simp add: s')
    show "0 < x" using blocks_okD(2) [OF bl xs(1)] .
    show "x < next_addr s'" using blocks_okD(3) [OF bl xs(1)] tb by (simp add: s')
    show "c * 16 \<le> block_cap s' x" using blocks_okD(3,4) [OF bl xs(1)] tb by (simp add: s')
  next
    fix c c' :: nat assume "c \<noteq> c'"
    then have "set (free_lists s c) \<inter> set (free_lists s c') = {}" using bl by (simp add: blocks_ok_def)
    then show "set (free_lists s' c) \<inter> set (free_lists s' c') = {}" using sub [of c] sub [of c'] by (auto simp: s')
  qed
  moreover have "alloc_size sz mod 4294967296 \<le> block_cap s1 a"
    using tb by (meson le_trans mod_less_eq_dividend)
  moreover have "o_size ob \<le> block_cap s1 x \<and> 0 < x \<and> x < next_addr s1" if "heap s x = Some ob" for x ob
    using alloc_okD(7) [OF ok that] tb by auto
  ultimately show ?thesis
    using alloc_okD [OF ok] na tb q fr by (auto simp: alloc_ok_def s' new_object_def)
qed

text \<open>Releasing a block that is not among the objects any more.\<close>

lemma obj_release_ok:
  assumes bl: "blocks_ok s" and h: "heap s a = Some ob" and sz: "o_size ob \<le> block_cap s a"
    and a: "0 < a" "a < next_addr s"
  shows "blocks_ok (obj_release a s)"
proof -
  define c0 where "c0 = o_size ob div 16"
  have na: "a \<notin> set (free_lists s c)" for c using blocks_okD(1) [OF bl, of a c] h by auto
  show ?thesis
  proof (cases "o_size ob \<le> FREE_MAX")
    case False
    then show ?thesis using bl h by (auto simp: obj_release_def Let_def blocks_ok_def)
  next
    case True
    have s': "obj_release a s = s\<lparr>heap := (heap s)(a := None),
        free_lists := (free_lists s)(c0 := a # free_lists s c0)\<rparr>"
      using True h by (simp add: obj_release_def Let_def c0_def)
    have c0: "c0 * 16 \<le> block_cap s a" using sz by (simp add: c0_def)
    have old: "distinct (free_lists s c)" "\<forall>x \<in> set (free_lists s c). heap s x = None \<and> 0 < x \<and> x < next_addr s \<and> c * 16 \<le> block_cap s x"
        "\<And>c'. c \<noteq> c' \<Longrightarrow> set (free_lists s c) \<inter> set (free_lists s c') = {}" for c
      using bl by (auto simp: blocks_ok_def)
    show ?thesis
      unfolding blocks_ok_def s'
    proof (intro allI conjI ballI impI, goal_cases)
      case (1 c) then show ?case using old(1) na by simp
    next
      case (2 c x) then show ?case using old(2) by (auto split: if_splits)
    next
      case (3 c x) then show ?case using old(2) a by (auto split: if_splits)
    next
      case (4 c x) then show ?case using old(2) a by (auto split: if_splits)
    next
      case (5 c x) then show ?case using old(2) c0 by (auto split: if_splits)
    next
      case (6 c c') then show ?case using old(3) [of c c'] na by (auto split: if_splits)
    qed
  qed
qed

end
