(* ===== verification/RtGc.thy ===== *)
theory RtGc
  imports RtState
begin

text \<open>
  \<open>csrc/rt.c\<close>, the collector: marking with an explicit worklist, sweeping \<open>all_objects\<close> into
  the free lists, the verify mode with its quarantine of poisoned objects, and the safe points
  (\<open>GC_POLL\<close>). Timing (\<open>gc_seconds\<close>) and the report at exit are left out.

  \<open>reach\<close> is the specification: the objects that can be reached from the roots through the
  pointers of the objects. The lemmas show that marking marks exactly those, that it stops
  after at most as many steps as there are objects, and that sweeping keeps exactly those,
  unchanged but for the share counts of stores that lost a descriptor.
\<close>

type_synonym a68_heap = "nat \<Rightarrow> a68_obj option"

section \<open>Marking\<close>

definition val_ptrs :: "a68_val list \<Rightarrow> nat list" where
  "val_ptrs vs = map val_ptr (filter tag_is_ptr vs)"

fun obj_children :: "obj_body \<Rightarrow> nat list" where
  "obj_children (Slots vs) = val_ptrs vs"
| "obj_children (Frame p d vs) = p # val_ptrs vs"
| "obj_children (Rowd r) = [r_base r]"
| "obj_children (Leaf ek ds fs) = []"
| "obj_children Freed = []"

text \<open>\<open>gc_push_obj\<close>; following a pointer to memory that is not an object is undefined.\<close>

definition gc_push_obj :: "nat \<Rightarrow> a68_heap \<times> nat list \<Rightarrow> (a68_heap \<times> nat list) res" where
  "gc_push_obj p hw = (if p = 0 then Inr hw else case fst hw p of
     None \<Rightarrow> Inl UB
   | Some ob \<Rightarrow> if o_mark ob then Inr hw else Inr ((fst hw)(p \<mapsto> ob\<lparr>o_mark := True\<rparr>), p # snd hw))"

fun gc_push_all :: "nat list \<Rightarrow> a68_heap \<times> nat list \<Rightarrow> (a68_heap \<times> nat list) res" where
  "gc_push_all [] hw = Inr hw"
| "gc_push_all (p # ps) hw = bindE (gc_push_obj p hw) (gc_push_all ps)"

definition gc_visit :: "nat \<Rightarrow> a68_heap \<times> nat list \<Rightarrow> (a68_heap \<times> nat list) res" where
  "gc_visit p hw = (case fst hw p of None \<Rightarrow> Inl UB | Some ob \<Rightarrow> gc_push_all (obj_children (o_body ob)) hw)"

text \<open>The loop \<open>while (nwork)\<close>, with a bound on its iterations.\<close>

fun gc_loop :: "nat \<Rightarrow> a68_heap \<times> nat list \<Rightarrow> a68_heap res" where
  "gc_loop k (h, []) = Inr h"
| "gc_loop 0 (h, p # wl) = Inl (Fatal ''marking does not end'')"
| "gc_loop (Suc k) (h, p # wl) = bindE (gc_visit p (h, wl)) (gc_loop k)"

definition gc_roots :: "rt_state \<Rightarrow> nat list" where
  "gc_roots s = val_ptrs (rev (stack s)) @ env s # rev (saved s) @ val_ptrs (io_roots s) @ native_roots s"

definition gc_mark_from :: "nat \<Rightarrow> nat list \<Rightarrow> a68_heap \<Rightarrow> a68_heap res" where
  "gc_mark_from k roots h = bindE (gc_push_all roots (h, [])) (gc_loop k)"

text \<open>Every block that can be an object: those on the list and the poisoned ones.\<close>

definition mark_fuel :: "rt_state \<Rightarrow> nat" where
  "mark_fuel s = length (all_objects s) + length (concat (map (quarantine s) [0..<4]))"

definition gc_mark :: "unit rt" where
  "gc_mark s = bindE (gc_mark_from (mark_fuel s) (gc_roots s) (heap s)) (\<lambda>h. Inr ((), s\<lparr>heap := h\<rparr>))"

section \<open>Sweeping\<close>

text \<open>A dead descriptor gives back its share of a store that survives.\<close>

definition give_back :: "nat \<Rightarrow> a68_heap \<Rightarrow> a68_heap res" where
  "give_back p h = (case h p of None \<Rightarrow> Inl UB
     | Some ob \<Rightarrow> (case o_body ob of
         Rowd r \<Rightarrow> if o_mark ob \<or> r_base r = 0 then Inr h
           else (case h (r_base r) of None \<Rightarrow> Inl UB
             | Some st \<Rightarrow> if o_mark st \<and> (case o_body st of Rowd _ \<Rightarrow> False | _ \<Rightarrow> True) \<and> o_rc st > 0 \<and> \<not> r_borrow r
                 then Inr (h(r_base r \<mapsto> st\<lparr>o_rc := o_rc st - 1\<rparr>)) else Inr h)
       | _ \<Rightarrow> Inr h))"

fun give_back_all :: "nat list \<Rightarrow> a68_heap \<Rightarrow> a68_heap res" where
  "give_back_all [] h = Inr h"
| "give_back_all (p # ps) h = bindE (give_back p h) (give_back_all ps)"

definition QUARANTINE :: nat where "QUARANTINE = 4"

text \<open>One object of the sweep; \<open>all_objects\<close> of the state collects the survivors in reverse.\<close>

definition sweep_one :: "nat \<Rightarrow> rt_state \<Rightarrow> rt_state" where
  "sweep_one p s = (case heap s p of None \<Rightarrow> s
     | Some ob \<Rightarrow>
       if o_mark ob
       then s\<lparr>heap := (heap s)(p \<mapsto> ob\<lparr>o_mark := False\<rparr>), bytes_live := bytes_live s + o_size ob,
              all_objects := p # all_objects s\<rparr>
       else (let s1 = s\<lparr>gc_freed_bytes := gc_freed_bytes s + o_size ob\<rparr> in
         if gc_verify s1
         then (let q = gc_collections s1 mod QUARANTINE in
               s1\<lparr>heap := (heap s1)(p \<mapsto> ob\<lparr>o_body := Freed\<rparr>),
                  quarantine := (quarantine s1)(q := p # quarantine s1 q)\<rparr>)
         else obj_release p s1))"

definition sweep_all :: "nat list \<Rightarrow> rt_state \<Rightarrow> rt_state" where
  "sweep_all ps s = (let s' = fold sweep_one ps (s\<lparr>bytes_live := 0, all_objects := []\<rparr>)
     in s'\<lparr>all_objects := rev (all_objects s')\<rparr>)"

definition gc_sweep :: "unit rt" where
  "gc_sweep s = bindE (give_back_all (all_objects s) (heap s)) (\<lambda>h.
     Inr ((), sweep_all (all_objects s) (s\<lparr>heap := h\<rparr>)))"

section \<open>Verify mode\<close>

definition quarantine_release :: "nat \<Rightarrow> rt_state \<Rightarrow> rt_state" where
  "quarantine_release q s = s\<lparr>heap := (\<lambda>a. if a \<in> set (quarantine s q) then None else heap s a),
     quarantine := (quarantine s)(q := [])\<rparr>"

definition is_freed :: "a68_heap \<Rightarrow> nat \<Rightarrow> bool" where
  "is_freed h p = (case h p of Some ob \<Rightarrow> o_body ob = Freed | None \<Rightarrow> False)"

text \<open>The check of one marked object, after its mark was cleared; the message when it fails.\<close>

definition verify_obj :: "a68_heap \<Rightarrow> obj_body \<Rightarrow> string option" where
  "verify_obj h b = (case b of
     Freed \<Rightarrow> Some ''gc verify: a freed object is reachable''
   | Slots vs \<Rightarrow> if list_ex (is_freed h) (val_ptrs vs) then Some ''gc verify: a slot points at a freed object'' else None
   | Frame _ _ vs \<Rightarrow> if list_ex (is_freed h) (val_ptrs vs) then Some ''gc verify: a cell points at a freed object'' else None
   | Rowd r \<Rightarrow> if is_freed h (r_base r) then Some ''gc verify: a row points at a freed store'' else None
   | Leaf _ _ _ \<Rightarrow> None)"

fun verify_list :: "nat list \<Rightarrow> a68_heap \<Rightarrow> a68_heap res" where
  "verify_list [] h = Inr h"
| "verify_list (p # ps) h = (case h p of None \<Rightarrow> Inl UB
     | Some ob \<Rightarrow> if o_mark ob
         then (let h' = h(p \<mapsto> ob\<lparr>o_mark := False\<rparr>) in
               case verify_obj h' (o_body ob) of Some msg \<Rightarrow> Inl (Fatal msg) | None \<Rightarrow> verify_list ps h')
         else verify_list ps h)"

definition gc_verify_reachable :: "unit rt" where
  "gc_verify_reachable = bnd gc_mark (\<lambda>_ s. bindE (verify_list (all_objects s) (heap s)) (\<lambda>h.
     if list_ex (is_freed h) (val_ptrs (stack s))
     then Inl (Fatal ''gc verify: the operand stack holds a freed object'')
     else Inr ((), s\<lparr>heap := h\<rparr>)))"

section \<open>A collection\<close>

definition gc_finish :: "unit rt" where
  "gc_finish s = (let s1 = s\<lparr>gc_collections := gc_collections s + 1, bytes_allocated := 0,
         gc_peak_live := max (gc_peak_live s) (bytes_live s)\<rparr>
     in if gc_limit s1 \<noteq> 0 \<and> bytes_live s1 > gc_limit s1 then Inl (Die ''not enough memory'') else Inr ((), s1))"

definition gc_collect :: "unit rt" where
  "gc_collect = bnd (modify (\<lambda>s. s\<lparr>gc_wanted := False\<rparr>)) (\<lambda>_. bnd (get gc_off) (\<lambda>off.
     if off then ret ()
     else bnd gc_mark (\<lambda>_. bnd (get gc_verify) (\<lambda>vf.
       bnd (modify (\<lambda>s. if vf then quarantine_release ((gc_collections s + 1) mod QUARANTINE) s else s)) (\<lambda>_.
       bnd gc_sweep (\<lambda>_.
       bnd (if vf then gc_verify_reachable else ret ()) (\<lambda>_. gc_finish)))))))"

definition GC_POLL :: "unit rt" where
  "GC_POLL = bnd (get gc_wanted) (\<lambda>wanted. if wanted then gc_collect else ret ())"

text \<open>a68g's collector procedures \<open>sweep heap\<close>, \<open>collections\<close> and \<open>garbage\<close>.\<close>

definition a68_gc_query :: "nat \<Rightarrow> nat rt" where
  "a68_gc_query what = (if what = 0 then bnd gc_collect (\<lambda>_. ret 0)
     else if what = 1 then get gc_collections else if what = 2 then get gc_freed_bytes else ret 0)"

section \<open>Reachability and marking\<close>

inductive_set reachable :: "('n \<Rightarrow> 'n set) \<Rightarrow> 'n set \<Rightarrow> 'n set"
  for E :: "'n \<Rightarrow> 'n set" and R :: "'n set"
  where
    reach_root: "a \<in> R \<Longrightarrow> a \<in> reachable E R"
  | reach_step: "a \<in> reachable E R \<Longrightarrow> b \<in> E a \<Longrightarrow> b \<in> reachable E R"

text \<open>
  What a worklist marker needs of the graph it walks: marking changes the marks and nothing
  else. The lemmas are the tri-colour argument: marked objects whose successors are all marked
  are black, the others are on the worklist; when it is empty the marks are closed, hence they
  are the reachable objects.
\<close>

locale worklist_marking =
  fixes nodes :: "'h \<Rightarrow> 'n set" and succs :: "'h \<Rightarrow> 'n \<Rightarrow> 'n set" and marked :: "'h \<Rightarrow> 'n set"
    and mark :: "'n set \<Rightarrow> 'h \<Rightarrow> 'h"
  assumes nodes_mark: "nodes (mark S h) = nodes h"
    and succs_mark: "succs (mark S h) a = succs h a"
    and marked_mark: "S \<subseteq> nodes h \<Longrightarrow> marked (mark S h) = marked h \<union> S"
    and mark_mark: "mark S (mark T h) = mark (S \<union> T) h"
begin

lemma closed_marks_reach:
  assumes "R \<subseteq> M" and "\<And>a. a \<in> M \<Longrightarrow> succs h a \<subseteq> M"
  shows "reachable (succs h) R \<subseteq> M"
proof
  fix x assume "x \<in> reachable (succs h) R"
  then show "x \<in> M" by induction (use assms in auto)
qed

lemma black_closed:
  assumes "R \<subseteq> M" and "M \<subseteq> reachable (succs h) R" and "\<And>a. a \<in> M \<Longrightarrow> succs h a \<subseteq> M"
  shows "M = reachable (succs h) R"
  using closed_marks_reach [OF assms(1,3)] assms(2) by blast

text \<open>One object taken from the worklist \<open>W\<close>; its unmarked successors join it.\<close>

lemma tricolour_step:
  assumes "a \<in> M" and "M \<subseteq> reachable (succs h) R" and "\<And>b. b \<in> M - insert a W \<Longrightarrow> succs h b \<subseteq> M"
  shows "M \<union> succs h a \<subseteq> reachable (succs h) R \<and>
    (\<forall>b \<in> (M \<union> succs h a) - (W \<union> (succs h a - M)). succs h b \<subseteq> M \<union> succs h a)"
  using assms by (auto intro: reach_step)

lemma marked_twice:
  assumes "S \<subseteq> nodes h" and "T \<subseteq> nodes h"
  shows "marked (mark S (mark T h)) = marked h \<union> T \<union> S"
proof -
  have "marked (mark S (mark T h)) = marked (mark T h) \<union> S" using assms(1) by (simp add: marked_mark nodes_mark)
  also have "marked (mark T h) = marked h \<union> T" using assms(2) by (rule marked_mark)
  finally show ?thesis .
qed

end

text \<open>The heap as such a graph; the null pointer is not an object.\<close>

definition heap_succs :: "a68_heap \<Rightarrow> nat \<Rightarrow> nat set" where
  "heap_succs h a = (case h a of None \<Rightarrow> {} | Some ob \<Rightarrow> set (obj_children (o_body ob)) - {0})"

definition heap_marked :: "a68_heap \<Rightarrow> nat set" where
  "heap_marked h = {a. \<exists>ob. h a = Some ob \<and> o_mark ob}"

definition mark_all :: "nat set \<Rightarrow> a68_heap \<Rightarrow> a68_heap" where
  "mark_all S h = (\<lambda>a. case h a of None \<Rightarrow> None | Some ob \<Rightarrow> Some (if a \<in> S then ob\<lparr>o_mark := True\<rparr> else ob))"

lemma mark_all_empty [simp]: "mark_all {} h = h"
  by (rule ext) (simp add: mark_all_def split: option.split)

lemma dom_mark_all [simp]: "dom (mark_all S h) = dom h"
  by (auto simp: mark_all_def dom_def split: option.splits)

interpretation gcm: worklist_marking dom heap_succs heap_marked mark_all
proof (unfold_locales, goal_cases)
  case (1 S h)
  show ?case by (rule dom_mark_all)
next
  case (2 S h a)
  show ?case by (auto simp: heap_succs_def mark_all_def split: option.split)
next
  case (3 S h)
  then show ?case by (auto simp: heap_marked_def mark_all_def split: option.splits if_splits)
next
  case (4 S T h)
  show ?case by (rule ext) (auto simp: mark_all_def split: option.split)
qed

abbreviation reach_heap :: "a68_heap \<Rightarrow> nat list \<Rightarrow> nat set" where
  "reach_heap h roots \<equiv> reachable (heap_succs h) (set roots - {0})"

section \<open>Marking is exact\<close>

lemma gc_push_obj_mark:
  assumes "p = 0 \<or> p \<in> dom h"
  shows "gc_push_obj p (mark_all M h, wl) =
    (if p = 0 \<or> p \<in> M \<or> p \<in> heap_marked h then Inr (mark_all M h, wl) else Inr (mark_all (insert p M) h, p # wl))"
proof (cases "p = 0")
  case False
  then obtain ob where p: "h p = Some ob" using assms by auto
  have m: "(mark_all M h)(p \<mapsto> ob\<lparr>o_mark := True\<rparr>) = mark_all (insert p M) h"
    by (rule ext) (auto simp: mark_all_def p split: option.split)
  have "heap_marked h \<inter> {p} = (if o_mark ob then {p} else {})" by (auto simp: heap_marked_def p)
  then show ?thesis using False m p
    by (auto simp: gc_push_obj_def mark_all_def heap_marked_def)
qed (simp add: gc_push_obj_def)

lemma gc_push_all_mark:
  assumes "set ps \<subseteq> insert 0 (dom h)" and "heap_marked h = {}"
  shows "\<exists>ws. gc_push_all ps (mark_all M h, wl) = Inr (mark_all (M \<union> (set ps - {0})) h, ws @ wl) \<and>
    set ws = (set ps - {0}) - M \<and> distinct ws"
  using assms(1)
proof (induction ps arbitrary: M wl)
  case (Cons p ps)
  show ?case
  proof (cases "p = 0 \<or> p \<in> M")
    case True
    then have "gc_push_obj p (mark_all M h, wl) = Inr (mark_all M h, wl)"
      using Cons.prems gc_push_obj_mark [of p h M wl] by auto
    moreover have "M \<union> (set (p # ps) - {0}) = M \<union> (set ps - {0})" using True by auto
    moreover have "set (p # ps) - {0} - M = set ps - {0} - M" using True by auto
    ultimately show ?thesis using Cons.IH [of M wl] Cons.prems by simp
  next
    case False
    then have e: "gc_push_obj p (mark_all M h, wl) = Inr (mark_all (insert p M) h, p # wl)"
      using Cons.prems gc_push_obj_mark [of p h M wl] assms(2) by auto
    obtain ws where ws: "gc_push_all ps (mark_all (insert p M) h, p # wl)
        = Inr (mark_all (insert p M \<union> (set ps - {0})) h, ws @ p # wl)"
        "set ws = (set ps - {0}) - insert p M" "distinct ws"
      using Cons.IH [of "insert p M" "p # wl"] Cons.prems by auto
    have "insert p M \<union> (set ps - {0}) = M \<union> (set (p # ps) - {0})" using False by auto
    moreover have "set (ws @ [p]) = (set (p # ps) - {0}) - M" using ws(2) False by auto
    moreover have "distinct (ws @ [p])" using ws(2,3) by auto
    ultimately show ?thesis using e ws(1) by (intro exI [of _ "ws @ [p]"]) simp
  qed
qed simp

lemma heap_succs_dom:
  "(\<And>a ob. h a = Some ob \<Longrightarrow> set (obj_children (o_body ob)) \<subseteq> insert 0 (dom h)) \<Longrightarrow> heap_succs h a \<subseteq> dom h"
  unfolding heap_succs_def by (cases "h a") fastforce+

lemma gc_loop_mark:
  assumes cl: "\<And>a ob. h a = Some ob \<Longrightarrow> set (obj_children (o_body ob)) \<subseteq> insert 0 (dom h)"
    and un: "heap_marked h = {}" and fin: "finite (dom h)"
  shows "set wl \<subseteq> M \<Longrightarrow> M \<subseteq> dom h \<Longrightarrow> R \<subseteq> M \<Longrightarrow> M \<subseteq> reachable (heap_succs h) R \<Longrightarrow> distinct wl \<Longrightarrow>
    (\<And>b. b \<in> M - set wl \<Longrightarrow> heap_succs h b \<subseteq> M) \<Longrightarrow> card (dom h - M) + length wl \<le> k \<Longrightarrow>
    gc_loop k (mark_all M h, wl) = Inr (mark_all (reachable (heap_succs h) R) h)"
proof (induction k arbitrary: M wl)
  case 0
  then have "wl = []" by simp
  moreover have "M = reachable (heap_succs h) R" using 0 by (intro gcm.black_closed) auto
  ultimately show ?case by simp
next
  case (Suc k)
  show ?case
  proof (cases wl)
    case Nil
    then have "M = reachable (heap_succs h) R" using Suc.prems by (intro gcm.black_closed) auto
    then show ?thesis using Nil by simp
  next
    case (Cons p wl')
    then have p: "p \<in> M" using Suc.prems by simp
    then obtain ob where ob: "h p = Some ob" using Suc.prems(2) by auto
    define S where "S = heap_succs h p"
    have S: "set (obj_children (o_body ob)) - {0} = S" by (simp add: S_def heap_succs_def ob)
    have Sd: "S \<subseteq> dom h" unfolding S_def by (rule heap_succs_dom) (rule cl)
    obtain ob' where ob': "mark_all M h p = Some ob'" "o_body ob' = o_body ob" by (simp add: mark_all_def ob)
    obtain ws where ws: "gc_push_all (obj_children (o_body ob)) (mark_all M h, wl')
        = Inr (mark_all (M \<union> S) h, ws @ wl')" "set ws = S - M" "distinct ws"
      using gc_push_all_mark [OF cl [OF ob] un, of M wl'] unfolding S by auto
    have step: "gc_loop (Suc k) (mark_all M h, wl) = gc_loop k (mark_all (M \<union> S) h, ws @ wl')"
      using Cons ob' ws(1) by (simp add: gc_visit_def)
    have bl: "\<And>b. b \<in> M - insert p (set wl') \<Longrightarrow> heap_succs h b \<subseteq> M" using Suc.prems(6) Cons by auto
    note tri = gcm.tricolour_step [OF p Suc.prems(4) bl, folded S_def]
    have "card (dom h - (M \<union> S)) + card (S - M) = card (dom h - M)"
    proof -
      have "dom h - M = (dom h - (M \<union> S)) \<union> (S - M)" using Sd by auto
      moreover have "card ((dom h - (M \<union> S)) \<union> (S - M)) = card (dom h - (M \<union> S)) + card (S - M)"
        using fin Sd by (intro card_Un_disjoint) (auto intro: finite_subset)
      ultimately show ?thesis by simp
    qed
    then have fuel: "card (dom h - (M \<union> S)) + length (ws @ wl') \<le> k"
      using Suc.prems(7) Cons ws distinct_card [OF ws(3)] by simp
    show ?thesis
      unfolding step
    proof (rule Suc.IH)
      show "set (ws @ wl') \<subseteq> M \<union> S" using ws(2) Suc.prems(1) Cons by auto
      show "M \<union> S \<subseteq> dom h" using Suc.prems(2) Sd by simp
      show "R \<subseteq> M \<union> S" using Suc.prems(3) by auto
      show "M \<union> S \<subseteq> reachable (heap_succs h) R" using tri by blast
      show "distinct (ws @ wl')" using ws Suc.prems(1,5) Cons by auto
      show "heap_succs h b \<subseteq> M \<union> S" if "b \<in> M \<union> S - set (ws @ wl')" for b
        using tri that ws(2) by (auto simp: Un_commute)
      show "card (dom h - (M \<union> S)) + length (ws @ wl') \<le> k" by (rule fuel)
    qed
  qed
qed

lemma gc_mark_from_exact:
  assumes cl: "\<And>a ob. h a = Some ob \<Longrightarrow> set (obj_children (o_body ob)) \<subseteq> insert 0 (dom h)"
    and un: "heap_marked h = {}" and fin: "finite (dom h)" and roots: "set roots \<subseteq> insert 0 (dom h)"
    and k: "card (dom h) \<le> k"
  shows "gc_mark_from k roots h = Inr (mark_all (reach_heap h roots) h)"
proof -
  let ?R = "set roots - {0}"
  obtain ws where ws: "gc_push_all roots (mark_all {} h, []) = Inr (mark_all ({} \<union> ?R) h, ws @ [])"
      "set ws = ?R - {}" "distinct ws"
    using gc_push_all_mark [OF roots un, of "{}" "[]"] by blast
  have "gc_loop k (mark_all ?R h, ws) = Inr (mark_all (reach_heap h roots) h)"
  proof (rule gc_loop_mark [OF cl un fin])
    show "?R \<subseteq> dom h" using roots by auto
    show "?R \<subseteq> reach_heap h roots" by (auto intro: reach_root)
    have "card (dom h - ?R) + card ?R = card (dom h)"
      using fin \<open>?R \<subseteq> dom h\<close> by (simp add: card_Diff_subset card_mono finite_subset)
    then show "card (dom h - ?R) + length ws \<le> k" using ws(2,3) k distinct_card [of ws] by simp
  qed (use ws in auto)
  then show ?thesis using ws(1) by (simp add: gc_mark_from_def)
qed

section \<open>Sweeping is exact\<close>

definition is_rowd :: "obj_body \<Rightarrow> bool" where
  "is_rowd b = (case b of Rowd _ \<Rightarrow> True | _ \<Rightarrow> False)"

text \<open>\<open>gives h a p\<close>: the dead descriptor \<open>p\<close> holds a share of the store \<open>a\<close>.\<close>

definition gives :: "a68_heap \<Rightarrow> nat \<Rightarrow> nat \<Rightarrow> bool" where
  "gives h a p = (case h p of None \<Rightarrow> False | Some ob \<Rightarrow> \<not> o_mark ob \<and>
     (case o_body ob of Rowd r \<Rightarrow> \<not> r_borrow r \<and> r_base r = a \<and> a \<noteq> 0 | _ \<Rightarrow> False))"

definition rc_sub :: "u32 \<Rightarrow> nat \<Rightarrow> u32" where
  "rc_sub c n = of_nat (unat c - n)"

definition rc_given :: "nat list \<Rightarrow> a68_heap \<Rightarrow> a68_heap" where
  "rc_given ps h = (\<lambda>a. map_option (\<lambda>ob. if o_mark ob \<and> \<not> is_rowd (o_body ob)
     then ob\<lparr>o_rc := rc_sub (o_rc ob) (length (filter (gives h a) ps))\<rparr> else ob) (h a))"

lemma unat_rc_sub: "unat (rc_sub c n) = unat c - n"
proof -
  have "unat c - n < 4294967296" using unat_u32_less [of c] by linarith
  then show ?thesis by (simp add: rc_sub_def unsigned_of_nat take_bit_eq_mod)
qed

lemma rc_sub_0 [simp]: "rc_sub c 0 = c"
  by (simp add: rc_sub_def)

lemma rc_sub_Suc: "rc_sub c (Suc n) = rc_sub (if c > 0 then c - 1 else c) n"
proof (rule word_unat_eq_iff [THEN iffD2])
  show "unat (rc_sub c (Suc n)) = unat (rc_sub (if c > 0 then c - 1 else c) n)"
    by (simp add: unat_rc_sub word_gt_0 unat_minus_one)
qed

lemma give_back_eq:
  assumes cl: "\<And>a ob. h a = Some ob \<Longrightarrow> set (obj_children (o_body ob)) \<subseteq> insert 0 (dom h)" and p: "p \<in> dom h"
  shows "give_back p h = Inr (rc_given [p] h)"
proof -
  obtain ob where ob: "h p = Some ob" using p by auto
  show ?thesis
  proof (cases "\<exists>r. o_body ob = Rowd r \<and> \<not> o_mark ob \<and> r_base r \<noteq> 0")
    case False
    then have "\<not> gives h a p" for a using ob by (auto simp: gives_def split: obj_body.splits)
    then have "rc_given [p] h = h" by (auto simp: rc_given_def map_option_case split: option.split)
    moreover have "give_back p h = Inr h" using False ob by (auto simp: give_back_def split: obj_body.splits)
    ultimately show ?thesis by simp
  next
    case True
    then obtain r where r: "o_body ob = Rowd r" "\<not> o_mark ob" "r_base r \<noteq> 0" by auto
    then obtain st where st: "h (r_base r) = Some st" using cl [OF ob] by auto
    have g: "gives h a p \<longleftrightarrow> \<not> r_borrow r \<and> a = r_base r" for a using r ob by (auto simp: gives_def)
    have one: "rc_sub c (Suc 0) = (if c > 0 then c - 1 else c)" for c using rc_sub_Suc [of c 0] by simp
    have "rc_given [p] h = (if o_mark st \<and> \<not> is_rowd (o_body st) \<and> o_rc st > 0 \<and> \<not> r_borrow r
        then h(r_base r \<mapsto> st\<lparr>o_rc := o_rc st - 1\<rparr>) else h)"
      by (rule ext) (auto simp: rc_given_def g st one map_option_case split: option.split)
    moreover have "(case o_body st of Rowd _ \<Rightarrow> False | _ \<Rightarrow> True) = (\<not> is_rowd (o_body st))"
      by (simp add: is_rowd_def split: obj_body.split)
    ultimately show ?thesis using r ob st by (simp add: give_back_def)
  qed
qed

lemma rc_given_body: "rc_given ps h a = Some ob' \<Longrightarrow> \<exists>ob. h a = Some ob \<and> o_body ob' = o_body ob \<and> o_mark ob' = o_mark ob \<and> o_size ob' = o_size ob"
  by (auto simp: rc_given_def split: if_splits)

lemma heap_marked_rc_given [simp]: "heap_marked (rc_given ps h) = heap_marked h"
proof (rule set_eqI)
  fix a show "a \<in> heap_marked (rc_given ps h) \<longleftrightarrow> a \<in> heap_marked h"
    by (cases "h a") (simp_all add: heap_marked_def rc_given_def)
qed

lemma dom_rc_given [simp]: "dom (rc_given ps h) = dom h"
  by (auto simp: rc_given_def dom_def)

lemma gives_rc_given [simp]: "gives (rc_given ps h) a p = gives h a p"
  by (auto simp: gives_def rc_given_def split: option.splits obj_body.splits)

lemma rc_given_Cons: "rc_given ps (rc_given [p] h) = rc_given (p # ps) h"
proof (rule ext)
  fix a
  have "rc_sub (rc_sub c (Suc 0)) n = rc_sub c (Suc n)" for c n
    by (rule word_unat_eq_iff [THEN iffD2]) (simp add: unat_rc_sub)
  moreover have "gives (rc_given [p] h) = gives h" by (intro ext) simp
  moreover have "rc_given qs k a = map_option (\<lambda>ob. if o_mark ob \<and> \<not> is_rowd (o_body ob)
      then ob\<lparr>o_rc := rc_sub (o_rc ob) (length (filter (gives k a) qs))\<rparr> else ob) (k a)" for qs k
    by (simp add: rc_given_def)
  ultimately show "rc_given ps (rc_given [p] h) a = rc_given (p # ps) h a"
    by (cases "h a") auto
qed

lemma give_back_all_eq:
  assumes "\<And>a ob. h a = Some ob \<Longrightarrow> set (obj_children (o_body ob)) \<subseteq> insert 0 (dom h)" and "set ps \<subseteq> dom h"
  shows "give_back_all ps h = Inr (rc_given ps h)"
  using assms
proof (induction ps arbitrary: h)
  case Nil
  have "rc_given [] h = h"
  proof (rule ext)
    fix a show "rc_given [] h a = h a" by (cases "h a") (auto simp: rc_given_def)
  qed
  then show ?case by simp
next
  case (Cons p ps)
  have "give_back p h = Inr (rc_given [p] h)" using Cons.prems by (intro give_back_eq) auto
  moreover have "give_back_all ps (rc_given [p] h) = Inr (rc_given ps (rc_given [p] h))"
  proof (rule Cons.IH)
    fix a ob assume "rc_given [p] h a = Some ob"
    then obtain ob0 where "h a = Some ob0" "o_body ob = o_body ob0" using rc_given_body by blast
    then show "set (obj_children (o_body ob)) \<subseteq> insert 0 (dom (rc_given [p] h))"
      using Cons.prems(1) [of a ob0] by simp
  qed (use Cons.prems in simp)
  ultimately show ?case by (simp add: rc_given_Cons)
qed

text \<open>The second pass, over the list of all objects.\<close>

definition swept :: "rt_state \<Rightarrow> nat \<Rightarrow> a68_obj \<Rightarrow> a68_obj option" where
  "swept s a ob = (if o_mark ob then Some (ob\<lparr>o_mark := False\<rparr>)
     else if gc_verify s then Some (ob\<lparr>o_body := Freed\<rparr>) else None)"

lemma obj_release_fields [simp]:
  "all_objects (obj_release p s) = all_objects s" "quarantine (obj_release p s) = quarantine s"
  "next_addr (obj_release p s) = next_addr s" "block_cap (obj_release p s) = block_cap s"
  "gc_verify (obj_release p s) = gc_verify s" "gc_collections (obj_release p s) = gc_collections s"
  "stack (obj_release p s) = stack s" "env (obj_release p s) = env s" "saved (obj_release p s) = saved s"
  "io_roots (obj_release p s) = io_roots s" "native_roots (obj_release p s) = native_roots s"
  "depth_limit (obj_release p s) = depth_limit s" "gc_off (obj_release p s) = gc_off s"
  by (auto simp: obj_release_def Let_def split: option.split)

lemma obj_release_heap: "heap s p = Some ob \<Longrightarrow> heap (obj_release p s) = (heap s)(p := None)"
  by (simp add: obj_release_def Let_def)

lemma sweep_one_heap:
  assumes "heap s p = Some ob"
  shows "heap (sweep_one p s) = (heap s)(p := swept s p ob)"
  using assms obj_release_heap [of "s\<lparr>gc_freed_bytes := gc_freed_bytes s + o_size ob\<rparr>" p ob]
  by (simp add: sweep_one_def swept_def Let_def)

definition same_world :: "rt_state \<Rightarrow> rt_state \<Rightarrow> bool" where
  "same_world s t \<longleftrightarrow> next_addr t = next_addr s \<and> block_cap t = block_cap s \<and> gc_verify t = gc_verify s \<and>
     gc_collections t = gc_collections s \<and> stack t = stack s \<and> env t = env s \<and> saved t = saved s \<and>
     io_roots t = io_roots s \<and> native_roots t = native_roots s \<and> depth_limit t = depth_limit s"

lemma sweep_one_same_world: "same_world s (sweep_one p s)"
  by (auto simp: same_world_def sweep_one_def Let_def split: option.split)

lemma sweep_one_blocks:
  assumes "blocks_ok s" and "heap s p = Some ob" and "o_size ob \<le> block_cap s p" and "0 < p" and "p < next_addr s"
  shows "blocks_ok (sweep_one p s)"
proof -
  have f: "\<And>c a. a \<in> set (free_lists s c) \<Longrightarrow> a \<noteq> p" using assms(1,2) by (auto simp: blocks_ok_def)
  have r: "blocks_ok (obj_release p (s\<lparr>gc_freed_bytes := gc_freed_bytes s + o_size ob\<rparr>))"
    using assms by (intro obj_release_ok [where ob = ob]) (auto simp: blocks_ok_def)
  show ?thesis
    using assms(1,2) f r by (auto simp: sweep_one_def Let_def blocks_ok_def)
qed

lemma sweep_fold:
  assumes "distinct ps" and "set ps \<subseteq> dom (heap s)" and "blocks_ok s"
    and "\<And>a ob. heap s a = Some ob \<Longrightarrow> 0 < a \<and> a < next_addr s \<and> o_size ob \<le> block_cap s a"
  shows "let t = fold sweep_one ps s in
    heap t = (\<lambda>a. if a \<in> set ps then (case heap s a of None \<Rightarrow> None | Some ob \<Rightarrow> swept s a ob) else heap s a) \<and>
    all_objects t = rev (filter (\<lambda>a. a \<in> heap_marked (heap s)) ps) @ all_objects s \<and>
    (\<forall>q. set (quarantine t q) = set (quarantine s q) \<union>
       (if gc_verify s \<and> q = gc_collections s mod QUARANTINE then set ps - heap_marked (heap s) else {})) \<and>
    (\<forall>q. quarantine s q = [] \<and> q \<noteq> gc_collections s mod QUARANTINE \<longrightarrow> quarantine t q = []) \<and>
    blocks_ok t \<and> same_world s t"
  using assms
proof (induction ps arbitrary: s)
  case Nil
  then show ?case by (auto simp: same_world_def)
next
  case (Cons p ps)
  obtain ob where ob: "heap s p = Some ob" using Cons.prems(2) by auto
  define s1 where "s1 = sweep_one p s"
  have h1: "heap s1 = (heap s)(p := swept s p ob)" unfolding s1_def by (rule sweep_one_heap) (rule ob)
  have w1: "same_world s s1" unfolding s1_def by (rule sweep_one_same_world)
  have sw: "swept s1 = swept s" using w1 by (auto simp: swept_def same_world_def fun_eq_iff)
  have b1: "blocks_ok s1" unfolding s1_def using Cons.prems ob by (intro sweep_one_blocks [where ob = ob]) auto
  have ao1: "all_objects s1 = (if p \<in> heap_marked (heap s) then p # all_objects s else all_objects s)"
    using ob by (auto simp: s1_def sweep_one_def Let_def heap_marked_def)
  have q1: "set (quarantine s1 q) = set (quarantine s q) \<union>
      (if gc_verify s \<and> q = gc_collections s mod QUARANTINE then {p} - heap_marked (heap s) else {})"
      "q \<noteq> gc_collections s mod QUARANTINE \<Longrightarrow> quarantine s1 q = quarantine s q" for q
    using ob by (auto simp: s1_def sweep_one_def Let_def heap_marked_def)
  have pn: "p \<notin> set ps" using Cons.prems(1) by simp
  have m1: "a \<in> heap_marked (heap s1) \<longleftrightarrow> a \<in> heap_marked (heap s)" if "a \<noteq> p" for a
    using that by (simp add: h1 heap_marked_def)
  have fl: "filter (\<lambda>a. a \<in> heap_marked (heap s1)) ps = filter (\<lambda>a. a \<in> heap_marked (heap s)) ps"
    by (rule filter_cong [OF refl]) (metis m1 pn)
  have dm: "set ps - heap_marked (heap s1) = set ps - heap_marked (heap s)" by (rule set_eqI) (metis Diff_iff m1 pn)
  have ih: "let t = fold sweep_one ps s1 in
    heap t = (\<lambda>a. if a \<in> set ps then (case heap s1 a of None \<Rightarrow> None | Some ob \<Rightarrow> swept s1 a ob) else heap s1 a) \<and>
    all_objects t = rev (filter (\<lambda>a. a \<in> heap_marked (heap s1)) ps) @ all_objects s1 \<and>
    (\<forall>q. set (quarantine t q) = set (quarantine s1 q) \<union>
       (if gc_verify s1 \<and> q = gc_collections s1 mod QUARANTINE then set ps - heap_marked (heap s1) else {})) \<and>
    (\<forall>q. quarantine s1 q = [] \<and> q \<noteq> gc_collections s1 mod QUARANTINE \<longrightarrow> quarantine t q = []) \<and>
    blocks_ok t \<and> same_world s1 t"
  proof (rule Cons.IH [OF _ _ b1])
    show "distinct ps" using Cons.prems(1) by simp
    show "set ps \<subseteq> dom (heap s1)" using Cons.prems(2) pn by (auto simp: h1)
    show "0 < a \<and> a < next_addr s1 \<and> o_size oc \<le> block_cap s1 a" if "heap s1 a = Some oc" for a oc
      using that Cons.prems(4) [of a] Cons.prems(4) [OF ob] w1
      by (auto simp: h1 swept_def same_world_def split: if_splits)
  qed
  define t where "t = fold sweep_one ps s1"
  note ih' = ih [unfolded Let_def, folded t_def]
  have ft: "fold sweep_one (p # ps) s = t" by (simp add: t_def s1_def)
  have "heap t = (\<lambda>a. if a \<in> set (p # ps) then (case heap s a of None \<Rightarrow> None | Some ob \<Rightarrow> swept s a ob) else heap s a)"
    using ih' pn ob by (auto simp: h1 sw fun_eq_iff split: option.split)
  moreover have "all_objects t = rev (filter (\<lambda>a. a \<in> heap_marked (heap s)) (p # ps)) @ all_objects s"
    using ih' by (simp add: fl ao1)
  moreover have "\<forall>q. set (quarantine t q) = set (quarantine s q) \<union>
      (if gc_verify s \<and> q = gc_collections s mod QUARANTINE then set (p # ps) - heap_marked (heap s) else {})"
    using ih' w1 q1(1) by (auto simp: dm same_world_def)
  moreover have "\<forall>q. quarantine s q = [] \<and> q \<noteq> gc_collections s mod QUARANTINE \<longrightarrow> quarantine t q = []"
    using ih' q1(2) w1 by (auto simp: same_world_def)
  moreover have "same_world s t" using ih' w1 by (auto simp: same_world_def)
  ultimately show ?case using ih' unfolding Let_def ft by blast
qed

section \<open>The invariant of the run-time system\<close>

text \<open>
  Every pointer in an object, and every root, is null or an object of \<open>all_objects\<close>; between
  collections nothing is marked; exactly the quarantined blocks are poisoned.
\<close>

definition rt_closed :: "rt_state \<Rightarrow> bool" where
  "rt_closed s \<longleftrightarrow> (\<forall>a ob. heap s a = Some ob \<longrightarrow> set (obj_children (o_body ob)) \<subseteq> insert 0 (set (all_objects s))) \<and>
     set (gc_roots s) \<subseteq> insert 0 (set (all_objects s))"

definition poison_ok :: "rt_state \<Rightarrow> bool" where
  "poison_ok s \<longleftrightarrow> (\<forall>a ob. heap s a = Some ob \<longrightarrow> (o_body ob = Freed \<longleftrightarrow> a \<notin> set (all_objects s)))"

definition rt_inv :: "rt_state \<Rightarrow> bool" where
  "rt_inv s \<longleftrightarrow> alloc_ok s \<and> rt_closed s \<and> poison_ok s \<and> heap_marked (heap s) = {}"

definition live :: "rt_state \<Rightarrow> nat set" where
  "live s = reach_heap (heap s) (gc_roots s)"

lemma rt_invD:
  assumes "rt_inv s"
  shows "alloc_ok s" "rt_closed s" "poison_ok s" "heap_marked (heap s) = {}"
    "heap s a = Some ob \<Longrightarrow> set (obj_children (o_body ob)) \<subseteq> insert 0 (set (all_objects s))"
    "set (gc_roots s) \<subseteq> insert 0 (set (all_objects s))" "set (all_objects s) \<subseteq> dom (heap s)"
    "heap s a = Some ob \<Longrightarrow> \<not> o_mark ob"
    "heap s a = Some ob \<Longrightarrow> o_body ob = Freed \<longleftrightarrow> a \<notin> set (all_objects s)"
proof -
  show "alloc_ok s" "rt_closed s" "poison_ok s" "heap_marked (heap s) = {}" using assms by (simp_all add: rt_inv_def)
  then show "set (gc_roots s) \<subseteq> insert 0 (set (all_objects s))" "set (all_objects s) \<subseteq> dom (heap s)"
    using alloc_okD(3) [of s] by (simp_all add: rt_closed_def)
  assume h: "heap s a = Some ob"
  then show "set (obj_children (o_body ob)) \<subseteq> insert 0 (set (all_objects s))"
    using \<open>rt_closed s\<close> unfolding rt_closed_def by blast
  show "\<not> o_mark ob" using \<open>heap_marked (heap s) = {}\<close> h unfolding heap_marked_def by blast
  show "o_body ob = Freed \<longleftrightarrow> a \<notin> set (all_objects s)" using \<open>poison_ok s\<close> h unfolding poison_ok_def by blast
qed

lemma rt_inv_children_dom:
  "rt_inv s \<Longrightarrow> heap s a = Some ob \<Longrightarrow> set (obj_children (o_body ob)) \<subseteq> insert 0 (dom (heap s))"
  using rt_invD(5,7) by blast

lemma live_objects:
  assumes "rt_inv s"
  shows "live s \<subseteq> set (all_objects s)"
  unfolding live_def
proof
  fix x assume "x \<in> reach_heap (heap s) (gc_roots s)"
  then show "x \<in> set (all_objects s)"
  proof induction
    case (reach_step a b)
    then obtain ob where "heap s a = Some ob" "b \<in> set (obj_children (o_body ob)) - {0}"
      by (auto simp: heap_succs_def split: option.splits)
    then show ?case using rt_invD(5) [OF assms] by blast
  qed (use rt_invD(6) [OF assms] in auto)
qed

lemma card_dom_fuel:
  assumes "rt_inv s"
  shows "card (dom (heap s)) \<le> mark_fuel s" and "finite (dom (heap s))"
proof -
  let ?q = "concat (map (quarantine s) [0..<4])"
  have a: "alloc_ok s" using assms by (rule rt_invD)
  have q4: "quarantine s q = []" if "4 \<le> q" for q using alloc_okD(6) [OF a] that by (simp add: quar_ok_def)
  have "quarantined s \<subseteq> set ?q"
  proof
    fix x assume "x \<in> quarantined s"
    then obtain q where q: "x \<in> set (quarantine s q)" by (auto simp: quarantined_def)
    then have "q < 4" using q4 [of q] by (cases "4 \<le> q") auto
    with q show "x \<in> set ?q" by auto
  qed
  then have sub: "dom (heap s) \<subseteq> set (all_objects s @ ?q)" using alloc_okD(3) [OF a] by auto
  then show "finite (dom (heap s))" by (rule finite_subset) simp
  have "card (dom (heap s)) \<le> card (set (all_objects s @ ?q))" using sub by (intro card_mono) auto
  also have "\<dots> \<le> length (all_objects s @ ?q)" by (rule card_length)
  finally show "card (dom (heap s)) \<le> mark_fuel s" by (simp add: mark_fuel_def)
qed

lemma gc_mark_exact:
  assumes "rt_inv s"
  shows "gc_mark s = Inr ((), s\<lparr>heap := mark_all (live s) (heap s)\<rparr>)"
proof -
  have "gc_mark_from (mark_fuel s) (gc_roots s) (heap s) = Inr (mark_all (live s) (heap s))"
    unfolding live_def using assms card_dom_fuel [OF assms] rt_invD(6,7) [OF assms] rt_invD(4) [OF assms]
    by (intro gc_mark_from_exact rt_inv_children_dom [OF assms]) auto
  then show ?thesis by (simp add: gc_mark_def)
qed

section \<open>One sweep\<close>

text \<open>The descriptors of a list that hold a share of the store \<open>a\<close> and are not live.\<close>

definition dead_shares :: "rt_state \<Rightarrow> nat \<Rightarrow> nat" where
  "dead_shares s a = length (filter (\<lambda>p. p \<notin> live s \<and> (case heap s p of
     Some ob \<Rightarrow> (case o_body ob of Rowd r \<Rightarrow> \<not> r_borrow r \<and> r_base r = a | _ \<Rightarrow> False) | None \<Rightarrow> False)) (all_objects s))"

definition survivor :: "rt_state \<Rightarrow> nat \<Rightarrow> a68_obj \<Rightarrow> a68_obj" where
  "survivor s a ob = (if is_rowd (o_body ob) then ob else ob\<lparr>o_rc := rc_sub (o_rc ob) (dead_shares s a)\<rparr>)"

definition swept_heap :: "rt_state \<Rightarrow> a68_heap" where
  "swept_heap s = (\<lambda>a. case heap s a of None \<Rightarrow> None | Some ob \<Rightarrow>
     if a \<in> live s then Some (survivor s a ob)
     else if a \<in> set (all_objects s) then (if gc_verify s then Some (ob\<lparr>o_body := Freed\<rparr>) else None)
     else Some ob)"

lemma heap_marked_mark_all: "heap_marked h = {} \<Longrightarrow> R \<subseteq> dom h \<Longrightarrow> heap_marked (mark_all R h) = R"
  using gcm.marked_mark [of R h] by simp

lemma gc_sweep_exact:
  assumes inv: "rt_inv s"
  shows "\<exists>t. gc_sweep (s\<lparr>heap := mark_all (live s) (heap s)\<rparr>) = Inr ((), t) \<and> heap t = swept_heap s \<and>
    all_objects t = filter (\<lambda>a. a \<in> live s) (all_objects s) \<and> blocks_ok t \<and> same_world s t \<and>
    (\<forall>q. set (quarantine t q) = set (quarantine s q) \<union>
       (if gc_verify s \<and> q = gc_collections s mod QUARANTINE then set (all_objects s) - live s else {})) \<and>
    (\<forall>q \<ge> 4. quarantine t q = [])"
proof -
  let ?L = "live s" and ?ps = "all_objects s"
  define h where "h = mark_all ?L (heap s)"
  have al: "alloc_ok s" using inv by (rule rt_invD)
  have Ld: "?L \<subseteq> dom (heap s)" using live_objects [OF inv] rt_invD(7) [OF inv] by blast
  have mk: "heap_marked h = ?L" unfolding h_def using rt_invD(4) [OF inv] Ld by (rule heap_marked_mark_all)
  have hb: "h a = Some ob \<Longrightarrow> \<exists>ob0. heap s a = Some ob0 \<and> o_body ob = o_body ob0" for a ob
    by (auto simp: h_def mark_all_def split: option.splits)
  have cl: "set (obj_children (o_body ob)) \<subseteq> insert 0 (dom h)" if ha: "h a = Some ob" for a ob
  proof -
    obtain ob0 where "heap s a = Some ob0" "o_body ob = o_body ob0" using hb [OF ha] by blast
    then show ?thesis using rt_inv_children_dom [OF inv, of a ob0] by (simp add: h_def)
  qed
  define g where "g = rc_given ?ps h"
  have gb: "give_back_all ?ps h = Inr g"
    unfolding g_def using cl rt_invD(7) [OF inv] by (intro give_back_all_eq) (auto simp: h_def)
  have gm: "heap_marked g = ?L"
    using mk by (simp add: g_def)
  have gobj: "0 < a \<and> a < next_addr s \<and> o_size ob \<le> block_cap s a" if ga: "g a = Some ob" for a ob
  proof -
    obtain ob1 where "h a = Some ob1" "o_size ob = o_size ob1" using rc_given_body ga unfolding g_def by blast
    then obtain ob0 where "heap s a = Some ob0" "o_size ob = o_size ob0"
      by (auto simp: h_def mark_all_def split: option.splits if_splits)
    then show ?thesis using alloc_okD(7) [OF al, of a ob0] by simp
  qed
  define s0 where "s0 = s\<lparr>heap := g, bytes_live := 0, all_objects := []\<rparr>"
  have bs0: "blocks_ok s0"
  proof -
    have "dom g = dom (heap s)" by (simp add: g_def h_def)
    then have "g a = None \<longleftrightarrow> heap s a = None" for a by (metis domIff)
    then show ?thesis using alloc_okD(2) [OF al] by (simp add: s0_def blocks_ok_def)
  qed
  define u where "u = fold sweep_one ?ps s0"
  have dps: "distinct ?ps" using al by (rule alloc_okD)
  have dps2: "set ?ps \<subseteq> dom (heap s0)" using rt_invD(7) [OF inv] by (simp add: s0_def g_def h_def)
  have obj0: "0 < a \<and> a < next_addr s0 \<and> o_size ob \<le> block_cap s0 a" if "heap s0 a = Some ob" for a ob
    using that gobj by (simp add: s0_def)
  have f: "heap u = (\<lambda>a. if a \<in> set ?ps then (case heap s0 a of None \<Rightarrow> None | Some ob \<Rightarrow> swept s0 a ob) else heap s0 a) \<and>
    all_objects u = rev (filter (\<lambda>a. a \<in> heap_marked (heap s0)) ?ps) @ all_objects s0 \<and>
    (\<forall>q. set (quarantine u q) = set (quarantine s0 q) \<union>
       (if gc_verify s0 \<and> q = gc_collections s0 mod QUARANTINE then set ?ps - heap_marked (heap s0) else {})) \<and>
    (\<forall>q. quarantine s0 q = [] \<and> q \<noteq> gc_collections s0 mod QUARANTINE \<longrightarrow> quarantine u q = []) \<and>
    blocks_ok u \<and> same_world s0 u"
    using sweep_fold [OF dps dps2 bs0 obj0] unfolding u_def Let_def by blast
  define t where "t = u\<lparr>all_objects := rev (all_objects u)\<rparr>"
  have sw: "gc_sweep (s\<lparr>heap := mark_all ?L (heap s)\<rparr>) = Inr ((), t)"
    using gb by (simp add: gc_sweep_def sweep_all_def Let_def t_def u_def s0_def h_def)
  have ht: "heap t = swept_heap s"
  proof (rule ext)
    fix a
    have gv: "gives h a p \<longleftrightarrow> p \<notin> ?L \<and> a \<noteq> 0 \<and> (case heap s p of
        Some ob \<Rightarrow> (case o_body ob of Rowd r \<Rightarrow> \<not> r_borrow r \<and> r_base r = a | _ \<Rightarrow> False) | None \<Rightarrow> False)" for p
    proof -
      have "(\<exists>ob. h p = Some ob \<and> \<not> o_mark ob) \<longleftrightarrow> p \<notin> ?L \<and> p \<in> dom h"
        unfolding mk [symmetric] heap_marked_def by auto
      then show ?thesis
        by (cases "heap s p") (auto simp: gives_def h_def mark_all_def split: obj_body.splits)
    qed
    show "heap t a = swept_heap s a"
    proof (cases "heap s a")
      case None
      then have "g a = None" by (simp add: g_def rc_given_def h_def mark_all_def)
      then show ?thesis using f None by (simp add: t_def s0_def swept_heap_def)
    next
      case (Some ob)
      have unm: "\<not> o_mark ob" using rt_invD(8) [OF inv Some] .
      have a0: "a \<noteq> 0" using alloc_okD(7) [OF al Some] by simp
      have ds: "length (filter (gives h a) ?ps) = dead_shares s a"
        unfolding dead_shares_def using gv a0 by (intro arg_cong [of _ _ length] filter_cong) auto
      show ?thesis
      proof (cases "a \<in> ?L")
        case True
        then have al2: "a \<in> set ?ps" using live_objects [OF inv] by auto
        have h2: "h a = Some (ob\<lparr>o_mark := True\<rparr>)" using Some True by (simp add: h_def mark_all_def)
        have "g a = Some (if is_rowd (o_body ob) then ob\<lparr>o_mark := True\<rparr>
            else ob\<lparr>o_mark := True, o_rc := rc_sub (o_rc ob) (dead_shares s a)\<rparr>)"
          using ds h2 by (simp add: g_def rc_given_def)
        then have "heap t a = Some (survivor s a ob)"
          using f al2 unm by (cases ob) (auto simp: t_def s0_def swept_def survivor_def)
        then show ?thesis using True Some by (simp add: swept_heap_def)
      next
        case False
        then have "g a = Some ob" using Some unm by (simp add: g_def rc_given_def h_def mark_all_def)
        then show ?thesis using f False Some unm by (simp add: t_def s0_def swept_def swept_heap_def)
      qed
    qed
  qed
  have at: "all_objects t = filter (\<lambda>a. a \<in> ?L) ?ps" using f gm by (simp add: t_def s0_def)
  have qt: "\<forall>q. set (quarantine t q) = set (quarantine s q) \<union>
       (if gc_verify s \<and> q = gc_collections s mod QUARANTINE then set ?ps - ?L else {})"
    using f gm by (simp add: t_def s0_def)
  have q4: "\<forall>q \<ge> 4. quarantine t q = []"
  proof (intro allI impI)
    fix q :: nat assume q: "4 \<le> q"
    then have "quarantine s0 q = []" using alloc_okD(6) [OF al] by (simp add: s0_def quar_ok_def)
    moreover have "gc_collections s0 mod QUARANTINE < 4" by (simp add: QUARANTINE_def)
    ultimately show "quarantine t q = []" using f q by (auto simp: t_def)
  qed
  have bu: "blocks_ok u" and wu: "same_world s0 u" using f by blast+
  have bt: "blocks_ok t" using bu by (simp add: t_def blocks_ok_def)
  have wt: "same_world s t" using wu by (simp add: t_def s0_def same_world_def)
  show ?thesis using sw ht at qt q4 bt wt by blast
qed

end
