(* ===== verification/RtCollect.thy ===== *)
theory RtCollect
  imports RtGc
begin

text \<open>
  A whole collection of \<open>csrc/rt.c\<close> (\<open>gc_collect\<close> and \<open>GC_POLL\<close>): it keeps the invariant of the
  run-time system, keeps exactly the objects that can be reached from the roots, with their
  contents, and its verify mode never finds a freed object.
\<close>

lemma reachable_cong:
  assumes "R \<subseteq> S" and "\<And>a. a \<in> S \<Longrightarrow> E a = E' a" and "\<And>a. a \<in> S \<Longrightarrow> E a \<subseteq> S"
  shows "reachable E R = reachable E' R"
proof -
  have 1: "x \<in> S \<and> x \<in> reachable E' R" if "x \<in> reachable E R" for x
    using that
  proof induction
    case (reach_step a b)
    then have "b \<in> S" "b \<in> E' a" using assms(2,3) by blast+
    with reach_step show ?case by (blast intro: reachable.reach_step)
  qed (use assms in \<open>auto intro: reach_root\<close>)
  have 2: "x \<in> S \<and> x \<in> reachable E R" if "x \<in> reachable E' R" for x
    using that
  proof induction
    case (reach_step a b)
    then have "b \<in> E a" using assms(2) by simp
    with reach_step show ?case using assms(3) by (auto intro: reachable.reach_step)
  qed (use assms in \<open>auto intro: reach_root\<close>)
  show ?thesis using 1 2 by blast
qed

lemma live_cong:
  assumes inv: "rt_inv s" and r: "gc_roots t = gc_roots s"
    and b: "\<And>a ob. a \<in> set (all_objects s) \<Longrightarrow> heap s a = Some ob \<Longrightarrow> \<exists>ob'. heap t a = Some ob' \<and> o_body ob' = o_body ob"
  shows "live t = live s"
proof -
  have "reachable (heap_succs (heap s)) (set (gc_roots s) - {0}) = reachable (heap_succs (heap t)) (set (gc_roots s) - {0})"
  proof (rule reachable_cong [where S = "set (all_objects s)"])
    show "set (gc_roots s) - {0} \<subseteq> set (all_objects s)" using rt_invD(6) [OF inv] by blast
    fix a assume a: "a \<in> set (all_objects s)"
    then obtain ob where ob: "heap s a = Some ob" using rt_invD(7) [OF inv] by blast
    then obtain ob' where "heap t a = Some ob'" "o_body ob' = o_body ob" using b [OF a ob] by blast
    then show "heap_succs (heap s) a = heap_succs (heap t) a" using ob by (simp add: heap_succs_def)
    show "heap_succs (heap s) a \<subseteq> set (all_objects s)" using rt_invD(5) [OF inv ob] ob by (auto simp: heap_succs_def)
  qed
  then show ?thesis by (simp add: live_def r)
qed

section \<open>Releasing the quarantine\<close>

lemma quarantine_release_mark:
  "quarantine_release q (s\<lparr>heap := mark_all M (heap s)\<rparr>) =
   (quarantine_release q s)\<lparr>heap := mark_all M (heap (quarantine_release q s))\<rparr>"
proof -
  have "(\<lambda>a. if a \<in> set (quarantine s q) then None else mark_all M (heap s) a) =
      mark_all M (\<lambda>a. if a \<in> set (quarantine s q) then None else heap s a)"
    by (rule ext) (simp add: mark_all_def)
  then show ?thesis by (simp add: quarantine_release_def cong: if_cong)
qed

lemma gc_roots_quarantine_release [simp]: "gc_roots (quarantine_release q s) = gc_roots s"
  by (simp add: gc_roots_def quarantine_release_def)

lemma quarantine_release_fields [simp]:
  "all_objects (quarantine_release q s) = all_objects s" "gc_verify (quarantine_release q s) = gc_verify s"
  "stack (quarantine_release q s) = stack s" "env (quarantine_release q s) = env s"
  "saved (quarantine_release q s) = saved s" "io_roots (quarantine_release q s) = io_roots s"
  "native_roots (quarantine_release q s) = native_roots s" "depth_limit (quarantine_release q s) = depth_limit s"
  "next_addr (quarantine_release q s) = next_addr s" "block_cap (quarantine_release q s) = block_cap s"
  "gc_collections (quarantine_release q s) = gc_collections s" "free_lists (quarantine_release q s) = free_lists s"
  by (simp_all add: quarantine_release_def)

lemma quarantine_release_heap:
  assumes inv: "rt_inv s"
  shows "a \<in> set (all_objects s) \<Longrightarrow> heap (quarantine_release q s) a = heap s a"
    and "heap (quarantine_release q s) a = Some ob \<Longrightarrow> heap s a = Some ob"
proof -
  have "set (all_objects s) \<inter> quarantined s = {}" using alloc_okD(4) [OF rt_invD(1) [OF inv]] .
  then show "a \<in> set (all_objects s) \<Longrightarrow> heap (quarantine_release q s) a = heap s a"
    by (auto simp: quarantine_release_def quarantined_def)
  show "heap (quarantine_release q s) a = Some ob \<Longrightarrow> heap s a = Some ob"
    by (simp add: quarantine_release_def split: if_splits)
qed

lemma quarantine_release_inv:
  assumes inv: "rt_inv s"
  shows "rt_inv (quarantine_release q s)"
proof -
  let ?t = "quarantine_release q s"
  have al: "alloc_ok s" using inv by (rule rt_invD)
  note qh = quarantine_release_heap [OF inv]
  have bo: "blocks_ok ?t" using alloc_okD(2) [OF al] by (simp add: blocks_ok_def quarantine_release_def)
  have qo: "quar_ok ?t" using alloc_okD(6) [OF al] by (simp add: quar_ok_def quarantine_release_def)
  have dq: "set (quarantine s q) \<inter> set (quarantine s q') = {}" if "q' \<noteq> q" for q'
    using alloc_okD(6) [OF al] that by (auto simp: quar_ok_def)
  have qd: "quarantined ?t = quarantined s - set (quarantine s q)"
  proof (rule set_eqI)
    fix x
    have "x \<in> quarantined ?t \<longleftrightarrow> (\<exists>q'. q' \<noteq> q \<and> x \<in> set (quarantine s q'))"
      by (auto simp: quarantined_def quarantine_release_def split: if_splits)
    moreover have "x \<in> quarantined s - set (quarantine s q) \<longleftrightarrow> (\<exists>q'. q' \<noteq> q \<and> x \<in> set (quarantine s q'))"
    proof
      assume "x \<in> quarantined s - set (quarantine s q)"
      then obtain q' where "x \<in> set (quarantine s q')" "x \<notin> set (quarantine s q)" by (auto simp: quarantined_def)
      then show "\<exists>q'. q' \<noteq> q \<and> x \<in> set (quarantine s q')" by metis
    qed (use dq in \<open>auto simp: quarantined_def\<close>)
    ultimately show "x \<in> quarantined ?t \<longleftrightarrow> x \<in> quarantined s - set (quarantine s q)" by blast
  qed
  have do: "dom (heap ?t) = dom (heap s) - set (quarantine s q)"
    by (auto simp: quarantine_release_def dom_def split: if_splits)
  have dj: "set (all_objects s) \<inter> quarantined s = {}" using al by (rule alloc_okD)
  have qs: "set (quarantine s q) \<subseteq> quarantined s" by (auto simp: quarantined_def)
  have "dom (heap ?t) = set (all_objects s) \<union> quarantined ?t"
    unfolding do qd alloc_okD(3) [OF al] using dj qs by blast
  moreover have "set (all_objects s) \<inter> quarantined ?t = {}" unfolding qd using dj by blast
  moreover have "0 < a \<and> a < next_addr s \<and> o_size ob \<le> block_cap s a" if "heap ?t a = Some ob" for a ob
    using alloc_okD(7) [OF al qh(2) [OF that]] .
  ultimately have "alloc_ok ?t" using alloc_okD(1,5) [OF al] bo qo by (simp add: alloc_ok_def)
  moreover have "rt_closed ?t"
    unfolding rt_closed_def quarantine_release_fields gc_roots_quarantine_release
    using rt_invD(5,6) [OF inv] qh(2) by blast
  moreover have "poison_ok ?t"
    unfolding poison_ok_def quarantine_release_fields using rt_invD(9) [OF inv] qh(2) by blast
  moreover have "heap_marked (heap ?t) = {}"
    unfolding heap_marked_def using rt_invD(8) [OF inv] qh(2) by blast
  ultimately show ?thesis by (simp add: rt_inv_def)
qed

lemma quarantine_release_live:
  assumes inv: "rt_inv s"
  shows "live (quarantine_release q s) = live s"
  using inv quarantine_release_heap(1) [OF inv] by (intro live_cong) auto

lemma quarantine_release_survivor:
  assumes inv: "rt_inv s"
  shows "survivor (quarantine_release q s) a ob = survivor s a ob"
proof -
  have "dead_shares (quarantine_release q s) a = dead_shares s a"
    unfolding dead_shares_def quarantine_release_live [OF inv] quarantine_release_fields
    by (rule arg_cong [where f = length], rule filter_cong [OF refl])
      (simp add: quarantine_release_heap(1) [OF inv])
  then show ?thesis by (simp add: survivor_def)
qed

section \<open>The state after a sweep\<close>

lemma o_body_survivor [simp]: "o_body (survivor s a ob) = o_body ob" "o_size (survivor s a ob) = o_size ob"
    "o_mark (survivor s a ob) = o_mark ob"
  by (simp_all add: survivor_def)

lemma same_world_roots: "same_world s t \<Longrightarrow> gc_roots t = gc_roots s"
  by (simp add: same_world_def gc_roots_def)

definition after_sweep :: "rt_state \<Rightarrow> rt_state \<Rightarrow> bool" where
  "after_sweep s t \<longleftrightarrow> heap t = swept_heap s \<and>
    all_objects t = filter (\<lambda>a. a \<in> live s) (all_objects s) \<and> blocks_ok t \<and> same_world s t \<and>
    (\<forall>q. set (quarantine t q) = set (quarantine s q) \<union>
       (if gc_verify s \<and> q = gc_collections s mod QUARANTINE then set (all_objects s) - live s else {})) \<and>
    (\<forall>q \<ge> 4. quarantine t q = [])"

lemma live_children:
  assumes inv: "rt_inv s" and "a \<in> live s" and "heap s a = Some ob"
  shows "set (obj_children (o_body ob)) \<subseteq> insert 0 (live s)"
proof
  fix x assume "x \<in> set (obj_children (o_body ob))"
  then have "x = 0 \<or> x \<in> heap_succs (heap s) a" using assms(3) by (auto simp: heap_succs_def)
  then show "x \<in> insert 0 (live s)" using assms(2) unfolding live_def by (auto intro: reach_step)
qed

lemma live_roots: "set (gc_roots s) \<subseteq> insert 0 (live s)"
  unfolding live_def by (auto intro: reach_root)

lemma swept_heap_cases:
  assumes inv: "rt_inv s" and h: "swept_heap s a = Some ob"
  obtains (kept) ob0 where "a \<in> live s" "heap s a = Some ob0" "ob = survivor s a ob0"
    | (poisoned) ob0 where "a \<notin> live s" "heap s a = Some ob0" "ob = ob0\<lparr>o_body := Freed\<rparr>"
proof -
  obtain ob0 where h0: "heap s a = Some ob0" using h by (auto simp: swept_heap_def split: option.splits)
  show ?thesis
  proof (cases "a \<in> live s")
    case True
    then show ?thesis using h h0 kept by (simp add: swept_heap_def)
  next
    case False
    have "ob = ob0\<lparr>o_body := Freed\<rparr>"
      using h h0 False rt_invD(9) [OF inv h0] by (cases ob0) (auto simp: swept_heap_def split: if_splits)
    then show ?thesis using False h0 poisoned by blast
  qed
qed

lemma after_sweep_alloc:
  assumes inv: "rt_inv s" and sw: "after_sweep s t"
  shows "alloc_ok t"
proof -
  let ?L = "live s"
  have al: "alloc_ok s" using inv by (rule rt_invD)
  have w: "next_addr t = next_addr s" "block_cap t = block_cap s"
    using sw by (simp_all add: after_sweep_def same_world_def)
  have h: "heap t = swept_heap s" and ao: "all_objects t = filter (\<lambda>a. a \<in> ?L) (all_objects s)"
    and bo: "blocks_ok t" and q4: "\<forall>q \<ge> 4. quarantine t q = []"
    and qt: "\<And>q. set (quarantine t q) = set (quarantine s q) \<union>
       (if gc_verify s \<and> q = gc_collections s mod QUARANTINE then set (all_objects s) - ?L else {})"
    using sw unfolding after_sweep_def by blast+
  have dj: "set (all_objects s) \<inter> quarantined s = {}" using al by (rule alloc_okD)
  have Ls: "?L \<subseteq> set (all_objects s)" by (rule live_objects [OF inv])
  have qd: "quarantined t = quarantined s \<union> (if gc_verify s then set (all_objects s) - ?L else {})"
    unfolding quarantined_def by (simp only: qt) (auto split: if_splits)
  have dh: "dom (swept_heap s) = ?L \<union> (if gc_verify s then set (all_objects s) - ?L else {}) \<union> quarantined s"
  proof (rule set_eqI)
    fix a
    have "a \<in> dom (heap s) \<longleftrightarrow> a \<in> set (all_objects s) \<or> a \<in> quarantined s" using alloc_okD(3) [OF al] by simp
    then show "a \<in> dom (swept_heap s) \<longleftrightarrow> a \<in> ?L \<union> (if gc_verify s then set (all_objects s) - ?L else {}) \<union> quarantined s"
      using Ls dj by (cases "heap s a") (auto simp: swept_heap_def dom_def)
  qed
  have "quar_ok t"
    unfolding quar_ok_def
  proof (intro conjI allI impI)
    fix q q' :: nat assume ne: "q \<noteq> q'"
    have "set (quarantine s q) \<inter> set (quarantine s q') = {}" using alloc_okD(6) [OF al] ne by (simp add: quar_ok_def)
    moreover have "set (quarantine s p) \<inter> set (all_objects s) = {}" for p using dj by (auto simp: quarantined_def)
    ultimately show "set (quarantine t q) \<inter> set (quarantine t q') = {}" using ne by (simp only: qt) auto
  qed (use q4 in blast)
  moreover have "dom (heap t) = set (all_objects t) \<union> quarantined t"
    unfolding h dh ao qd using Ls by auto
  moreover have "set (all_objects t) \<inter> quarantined t = {}" unfolding ao qd using dj by auto
  moreover have "0 < a \<and> a < next_addr t \<and> o_size ob \<le> block_cap t a" if ha: "heap t a = Some ob" for a ob
  proof -
    have "\<exists>ob0. heap s a = Some ob0 \<and> o_size ob = o_size ob0"
      using ha unfolding h by (cases rule: swept_heap_cases [OF inv]) auto
    then show ?thesis using alloc_okD(7) [OF al] w by force
  qed
  ultimately show ?thesis using alloc_okD(1,5) [OF al] bo w ao by (simp add: alloc_ok_def)
qed

lemma after_sweep_inv:
  assumes inv: "rt_inv s" and sw: "after_sweep s t"
  shows "rt_inv t"
proof -
  let ?L = "live s"
  have h: "heap t = swept_heap s" and ao: "all_objects t = filter (\<lambda>a. a \<in> ?L) (all_objects s)"
    and w: "same_world s t" using sw unfolding after_sweep_def by blast+
  have so: "set (all_objects t) = ?L" using live_objects [OF inv] by (auto simp: ao)
  have "alloc_ok t" by (rule after_sweep_alloc [OF assms])
  moreover have "rt_closed t"
    unfolding rt_closed_def so
  proof (intro conjI allI impI)
    show "set (gc_roots t) \<subseteq> insert 0 ?L" unfolding same_world_roots [OF w] by (rule live_roots)
    fix a ob assume ha: "heap t a = Some ob"
    show "set (obj_children (o_body ob)) \<subseteq> insert 0 ?L"
      using ha unfolding h
    proof (cases rule: swept_heap_cases [OF inv])
      fix ob0 assume k: "a \<in> live s" "heap s a = Some ob0" "ob = survivor s a ob0"
      show ?thesis using live_children [OF inv k(1,2)] k(3) by simp
    next
      fix ob0 assume "ob = ob0\<lparr>o_body := Freed\<rparr>"
      then show ?thesis by simp
    qed
  qed
  moreover have "poison_ok t"
    unfolding poison_ok_def so
  proof (intro allI impI)
    fix a ob assume ha: "heap t a = Some ob"
    show "o_body ob = Freed \<longleftrightarrow> a \<notin> ?L"
      using ha unfolding h
      by (cases rule: swept_heap_cases [OF inv]) (use rt_invD(9) [OF inv] live_objects [OF inv] in auto)
  qed
  moreover have "heap_marked (heap t) = {}"
  proof -
    have "\<not> o_mark ob" if ha: "heap t a = Some ob" for a ob
      using ha unfolding h by (cases rule: swept_heap_cases [OF inv]) (use rt_invD(8) [OF inv] in auto)
    then show ?thesis unfolding heap_marked_def by blast
  qed
  ultimately show ?thesis by (simp add: rt_inv_def)
qed

section \<open>The verify mode\<close>

lemma is_freed_mark_all [simp]: "is_freed (mark_all M h) = is_freed h"
  by (rule ext) (auto simp: is_freed_def mark_all_def split: option.split)

lemma verify_obj_fine:
  assumes "b \<noteq> Freed" and "\<And>p. p \<in> set (obj_children b) \<Longrightarrow> \<not> is_freed h p"
  shows "verify_obj h b = None"
  using assms by (cases b) (auto simp: verify_obj_def list_ex_iff)

lemma verify_list_clears:
  assumes un: "heap_marked h = {}"
    and fine: "\<And>a ob. a \<in> set ps \<Longrightarrow> h a = Some ob \<Longrightarrow> verify_obj h (o_body ob) = None"
    and d: "set ps \<subseteq> dom h"
  shows "verify_list ps (mark_all M h) = Inr (mark_all (M - set ps) h)"
  using fine d
proof (induction ps arbitrary: M)
  case (Cons p ps)
  obtain ob where ob: "h p = Some ob" using Cons.prems(2) by auto
  have um: "\<not> o_mark ob" using un ob unfolding heap_marked_def by blast
  have vb: "verify_obj (mark_all N h) (o_body ob) = None" for N
  proof -
    have "verify_obj (mark_all N h) = verify_obj h" by (rule ext) (simp add: verify_obj_def cong: obj_body.case_cong)
    then show ?thesis using Cons.prems(1) [of p ob] ob by simp
  qed
  have ih: "verify_list ps (mark_all (M - {p}) h) = Inr (mark_all (M - {p} - set ps) h)"
    using Cons.IH [of "M - {p}"] Cons.prems by auto
  have same: "M - {p} - set ps = M - set (p # ps)" by auto
  show ?case
  proof (cases "p \<in> M")
    case True
    have "(mark_all M h)(p \<mapsto> ob\<lparr>o_mark := False\<rparr>) = mark_all (M - {p}) h"
    proof (rule ext)
      fix a show "((mark_all M h)(p \<mapsto> ob\<lparr>o_mark := False\<rparr>)) a = mark_all (M - {p}) h a"
        using ob um by (cases ob) (auto simp: mark_all_def split: option.split)
    qed
    then show ?thesis using True ob vb [of "M - {p}"] ih same by (simp add: mark_all_def [of M] Let_def)
  next
    case False
    then have "M - {p} = M" by simp
    moreover have "mark_all M h p = Some ob" using False ob by (simp add: mark_all_def)
    ultimately show ?thesis using um ih same by simp
  qed
qed simp

lemma rt_inv_not_freed:
  assumes inv: "rt_inv s" and "p \<in> insert 0 (set (all_objects s))"
  shows "\<not> is_freed (heap s) p"
proof (cases "heap s p")
  case (Some ob)
  then have "p \<noteq> 0" using alloc_okD(7) [OF rt_invD(1) [OF inv] Some] by simp
  then show ?thesis using assms rt_invD(9) [OF inv Some] Some by (simp add: is_freed_def)
qed (simp add: is_freed_def)

lemma gc_verify_reachable_silent:
  assumes inv: "rt_inv s"
  shows "gc_verify_reachable s = Inr ((), s)"
proof -
  have sub: "live s - set (all_objects s) = {}" using live_objects [OF inv] by blast
  have vl: "verify_list (all_objects s) (mark_all (live s) (heap s)) = Inr (mark_all (live s - set (all_objects s)) (heap s))"
  proof (rule verify_list_clears)
    show "heap_marked (heap s) = {}" "set (all_objects s) \<subseteq> dom (heap s)" using rt_invD(4,7) [OF inv] by blast+
    fix a ob assume a: "a \<in> set (all_objects s)" "heap s a = Some ob"
    show "verify_obj (heap s) (o_body ob) = None"
    proof (rule verify_obj_fine)
      show "o_body ob \<noteq> Freed" using rt_invD(9) [OF inv a(2)] a(1) by simp
      show "\<not> is_freed (heap s) p" if "p \<in> set (obj_children (o_body ob))" for p
        using rt_inv_not_freed [OF inv] rt_invD(5) [OF inv a(2)] that by blast
    qed
  qed
  have vp: "set (val_ptrs (stack s)) \<subseteq> set (gc_roots s)" by (auto simp: gc_roots_def val_ptrs_def)
  have "\<not> list_ex (is_freed (heap s)) (val_ptrs (stack s))"
  proof (simp add: list_ex_iff, intro ballI)
    fix p assume "p \<in> set (val_ptrs (stack s))"
    then show "\<not> is_freed (heap s) p" using rt_inv_not_freed [OF inv] rt_invD(6) [OF inv] vp by blast
  qed
  then show ?thesis
    unfolding gc_verify_reachable_def using gc_mark_exact [OF inv] vl sub by (simp add: bnd_def)
qed

section \<open>A collection\<close>

text \<open>
  What a collection promises: the invariant holds after it, the objects that survive are those
  that can be reached, in their old order, with the contents they had; an object that cannot be
  reached is gone, or poisoned in verify mode; the roots are what they were.
\<close>

definition collected :: "rt_state \<Rightarrow> rt_state \<Rightarrow> bool" where
  "collected s t \<longleftrightarrow> rt_inv t \<and> all_objects t = filter (\<lambda>a. a \<in> live s) (all_objects s) \<and>
    (\<forall>a \<in> live s. heap t a = map_option (survivor s a) (heap s a)) \<and>
    (\<forall>a. a \<notin> live s \<longrightarrow> heap t a = None \<or> (gc_verify s \<and> is_freed (heap t) a)
        \<or> (a \<notin> set (all_objects s) \<and> heap t a = heap s a)) \<and>
    stack t = stack s \<and> env t = env s \<and> saved t = saved s \<and> io_roots t = io_roots s \<and>
    native_roots t = native_roots s \<and> depth_limit t = depth_limit s"

lemma after_sweep_collected:
  assumes inv: "rt_inv s" and sw: "after_sweep s t"
  shows "collected s t"
proof -
  have h: "heap t = swept_heap s" and ao: "all_objects t = filter (\<lambda>a. a \<in> live s) (all_objects s)"
    and w: "same_world s t" using sw unfolding after_sweep_def by blast+
  have keep: "\<forall>a \<in> live s. heap t a = map_option (survivor s a) (heap s a)"
    by (auto simp: h swept_heap_def split: option.split)
  have lose: "\<forall>a. a \<notin> live s \<longrightarrow> heap t a = None \<or> (gc_verify s \<and> is_freed (heap t) a)
      \<or> (a \<notin> set (all_objects s) \<and> heap t a = heap s a)"
    by (auto simp: h swept_heap_def is_freed_def split: option.split)
  show ?thesis unfolding collected_def
    using after_sweep_inv [OF assms] ao keep lose w by (simp add: same_world_def)
qed

definition counters_only :: "rt_state \<Rightarrow> rt_state \<Rightarrow> bool" where
  "counters_only s t \<longleftrightarrow> heap t = heap s \<and> all_objects t = all_objects s \<and> free_lists t = free_lists s \<and>
    next_addr t = next_addr s \<and> block_cap t = block_cap s \<and> quarantine t = quarantine s \<and> stack t = stack s \<and>
    env t = env s \<and> saved t = saved s \<and> io_roots t = io_roots s \<and> native_roots t = native_roots s \<and>
    depth_limit t = depth_limit s"

lemma counters_only_roots: "counters_only s t \<Longrightarrow> gc_roots t = gc_roots s"
  by (simp add: counters_only_def gc_roots_def)

lemma counters_only_inv:
  assumes "counters_only s t"
  shows "rt_inv t = rt_inv s"
  using assms counters_only_roots [OF assms]
  by (simp add: counters_only_def rt_inv_def alloc_ok_def blocks_ok_def quar_ok_def quarantined_def rt_closed_def poison_ok_def)

lemma counters_only_live: "counters_only s t \<Longrightarrow> live t = live s"
  using counters_only_roots [of s t] by (simp add: live_def counters_only_def)

lemma collected_counters: "collected s t \<Longrightarrow> counters_only t u \<Longrightarrow> collected s u"
proof -
  assume c: "collected s t" and k: "counters_only t u"
  have "rt_inv u" using c counters_only_inv [OF k] by (simp add: collected_def)
  moreover have "heap u = heap t" "all_objects u = all_objects t" "stack u = stack t" "env u = env t"
    "saved u = saved t" "io_roots u = io_roots t" "native_roots u = native_roots t" "depth_limit u = depth_limit t"
    using k by (simp_all add: counters_only_def)
  ultimately show "collected s u" using c unfolding collected_def by simp
qed

lemma gc_sweep_after:
  assumes inv: "rt_inv s"
  shows "\<exists>t. gc_sweep (s\<lparr>heap := mark_all (live s) (heap s)\<rparr>) = Inr ((), t) \<and> after_sweep s t"
  using gc_sweep_exact [OF inv] unfolding after_sweep_def .

lemma quarantine_release_collected:
  assumes inv: "rt_inv s" and c: "collected (quarantine_release q s) t"
  shows "collected s t"
proof -
  note qr = quarantine_release_heap [OF inv, of _ q]
  have L: "live (quarantine_release q s) = live s" by (rule quarantine_release_live [OF inv])
  have keep: "\<forall>a \<in> live s. heap t a = map_option (survivor s a) (heap s a)"
  proof
    fix a assume a: "a \<in> live s"
    then have "heap (quarantine_release q s) a = heap s a" using qr(1) live_objects [OF inv] by blast
    moreover have "survivor (quarantine_release q s) a = survivor s a"
      by (rule ext) (rule quarantine_release_survivor [OF inv])
    ultimately show "heap t a = map_option (survivor s a) (heap s a)" using c a L unfolding collected_def by metis
  qed
  have lose: "heap t a = None \<or> (gc_verify s \<and> is_freed (heap t) a) \<or> (a \<notin> set (all_objects s) \<and> heap t a = heap s a)"
    if a: "a \<notin> live s" for a
  proof -
    have "heap (quarantine_release q s) a = None \<or> heap (quarantine_release q s) a = heap s a"
      by (simp add: quarantine_release_def)
    then show ?thesis using c a L unfolding collected_def quarantine_release_fields by metis
  qed
  show ?thesis using c keep lose unfolding collected_def L quarantine_release_fields by blast
qed

text \<open>The collection proper, from the marked state to the last check of the verify mode.\<close>

definition gc_work :: "unit rt" where
  "gc_work = bnd gc_mark (\<lambda>_. bnd (get gc_verify) (\<lambda>vf.
     bnd (modify (\<lambda>s. if vf then quarantine_release ((gc_collections s + 1) mod QUARANTINE) s else s)) (\<lambda>_.
     bnd gc_sweep (\<lambda>_. if vf then gc_verify_reachable else ret ()))))"

lemma gc_collect_work:
  "gc_collect = bnd (modify (\<lambda>s. s\<lparr>gc_wanted := False\<rparr>)) (\<lambda>_. bnd (get gc_off) (\<lambda>off.
     if off then ret () else bnd gc_work (\<lambda>_. gc_finish)))"
  unfolding gc_collect_def gc_work_def by (simp only: bnd_assoc)

lemma gc_work_collects:
  assumes inv: "rt_inv s"
  shows "\<exists>t. gc_work s = Inr ((), t) \<and> collected s t"
proof -
  define s1 where "s1 = (if gc_verify s then quarantine_release ((gc_collections s + 1) mod QUARANTINE) s else s)"
  have i1: "rt_inv s1" using inv quarantine_release_inv by (simp add: s1_def)
  have l1: "live s1 = live s" using quarantine_release_live [OF inv] by (simp add: s1_def)
  obtain t where t: "gc_sweep (s1\<lparr>heap := mark_all (live s) (heap s1)\<rparr>) = Inr ((), t)" and a: "after_sweep s1 t"
    using gc_sweep_after [OF i1] l1 by auto
  have c1: "collected s1 t" by (rule after_sweep_collected [OF i1 a])
  have c: "collected s t"
    using c1 quarantine_release_collected [OF inv] by (cases "gc_verify s") (simp_all add: s1_def)
  have it: "rt_inv t" using c by (simp add: collected_def)
  have q: "(if gc_verify s then quarantine_release ((gc_collections s + 1) mod QUARANTINE) (s\<lparr>heap := mark_all (live s) (heap s)\<rparr>)
      else s\<lparr>heap := mark_all (live s) (heap s)\<rparr>) = s1\<lparr>heap := mark_all (live s) (heap s1)\<rparr>"
    by (simp add: s1_def quarantine_release_mark)
  have "gc_work s = Inr ((), t)"
    unfolding gc_work_def using gc_mark_exact [OF inv] q t gc_verify_reachable_silent [OF it]
    by (simp add: bnd_def get_def modify_def ret_def split: if_splits)
  then show ?thesis using c by blast
qed

lemma gc_finish_cases:
  "gc_finish s = Inl (Die ''not enough memory'') \<and> gc_limit s \<noteq> 0 \<and> gc_limit s < bytes_live s \<or>
   (\<exists>t. gc_finish s = Inr ((), t) \<and> counters_only s t)"
  by (auto simp: gc_finish_def Let_def counters_only_def)

lemma gc_collect_cases:
  assumes inv: "rt_inv s" and on: "\<not> gc_off s"
  shows "(\<exists>t. gc_collect s = Inr ((), t) \<and> collected s t) \<or> gc_collect s = Inl (Die ''not enough memory'')"
proof -
  define s0 where "s0 = s\<lparr>gc_wanted := False\<rparr>"
  have k0: "counters_only s s0" by (simp add: s0_def counters_only_def)
  have i0: "rt_inv s0" using inv counters_only_inv [OF k0] by simp
  obtain t where t: "gc_work s0 = Inr ((), t)" and c: "collected s0 t" using gc_work_collects [OF i0] by blast
  have eq: "gc_collect s = gc_finish t"
    using on t by (simp add: gc_collect_work bnd_def modify_def get_def s0_def)
  have cs: "collected s t"
  proof -
    have "live s0 = live s" by (rule counters_only_live [OF k0])
    moreover have "survivor s0 = survivor s" using \<open>live s0 = live s\<close>
      by (intro ext) (simp add: survivor_def dead_shares_def s0_def)
    ultimately show ?thesis using c unfolding collected_def s0_def by simp
  qed
  show ?thesis using gc_finish_cases [of t] collected_counters [OF cs] eq by auto
qed

lemma gc_collect_off: "gc_off s \<Longrightarrow> gc_collect s = Inr ((), s\<lparr>gc_wanted := False\<rparr>)"
  by (simp add: gc_collect_def bnd_def modify_def get_def ret_def)

end
