(* ===== verification/RtRows.thy ===== *)
theory RtRows
  imports RtState
begin

text \<open>
  \<open>csrc/rt.c\<close>, rows: bounds and strides, the store index of an element, reading through a
  descriptor, copy on write, shares and borrows, and the copying of values.

  A descriptor's base is either a store or, for a view, the descriptor of the variable that
  owns the store. Index arithmetic is exact (the C type is \<open>int64_t\<close>); the casts to
  \<open>uint32_t\<close> the code makes are written out.
\<close>

section \<open>Bounds, strides and indices\<close>

definition dim_ext :: "a68_dim \<Rightarrow> int" where
  "dim_ext d = d_u d - d_l d + 1"

fun count_loop :: "a68_dim list \<Rightarrow> int \<Rightarrow> int" where
  "count_loop [] n = n"
| "count_loop (d # ds) n = (if dim_ext d \<le> 0 then 0 else count_loop ds (n * dim_ext d))"

definition row_count :: "a68_rowd \<Rightarrow> int" where
  "row_count r = count_loop (r_dim r) 1"

text \<open>The dimensions from the last one to the first; an empty dimension would divide by zero.\<close>

fun index_down :: "a68_dim list \<Rightarrow> int \<Rightarrow> int \<Rightarrow> int res" where
  "index_down [] flat idx = Inr idx"
| "index_down (d # ds) flat idx =
     (if dim_ext d = 0 then Inl UB
      else index_down ds (c_quot flat (dim_ext d)) (idx + c_rem flat (dim_ext d) * d_stride d))"

definition row_store_index :: "a68_rowd \<Rightarrow> int \<Rightarrow> int res" where
  "row_store_index r flat = index_down (rev (r_dim r)) flat (r_off r)"

text \<open>The strides of a row with canonical layout, from the last dimension to the first.\<close>

fun canon_down :: "a68_dim list \<Rightarrow> int \<Rightarrow> a68_dim list" where
  "canon_down [] stride = []"
| "canon_down (d # ds) stride =
     d\<lparr>d_stride := stride\<rparr> # canon_down ds (stride * (if dim_ext d > 0 then dim_ext d else 0))"

definition canon_dims :: "a68_dim list \<Rightarrow> a68_dim list" where
  "canon_dims ds = rev (canon_down (rev ds) 1)"

definition upto_int :: "int \<Rightarrow> int list" where
  "upto_int n = map int [0..<nat n]"

definition same_bounds :: "a68_rowd \<Rightarrow> a68_rowd \<Rightarrow> bool" where
  "same_bounds a b \<longleftrightarrow> map (\<lambda>d. (d_l d, d_u d)) (r_dim a) = map (\<lambda>d. (d_l d, d_u d)) (r_dim b)"

section \<open>Reading through a descriptor\<close>

definition rowd_store :: "a68_rowd \<Rightarrow> nat rt" where
  "rowd_store r = bnd (get_body (r_base r)) (\<lambda>b. case b of Rowd o' \<Rightarrow> ret (r_base o') | _ \<Rightarrow> ret (r_base r))"

definition rowd_owner :: "nat \<Rightarrow> nat rt" where
  "rowd_owner p = bnd (get_rowd p) (\<lambda>r. bnd (get_body (r_base r)) (\<lambda>b.
     case b of Rowd _ \<Rightarrow> ret (r_base r) | _ \<Rightarrow> ret p))"

definition select_field :: "nat \<Rightarrow> a68_val \<Rightarrow> (nat \<times> nat) rt" where
  "select_field field e = (case e of
     VStruct p \<Rightarrow> bnd (get_slots p) (\<lambda>fs.
       if field - 1 \<ge> length fs then die ''internal: field index out of range'' else ret (p, field - 1))
   | _ \<Rightarrow> die ''internal: field selection on non-struct element'')"

definition rowd_get :: "a68_rowd \<Rightarrow> int \<Rightarrow> a68_val rt" where
  "rowd_get r idx = bnd (rowd_store r) (\<lambda>st. bnd (get_body st) (\<lambda>b. bnd (lift_res (store_get b idx)) (\<lambda>e.
     if r_field r \<noteq> 0 then bnd (select_field (r_field r) e) slot_read else ret e)))"

definition rowd_get_flat :: "a68_rowd \<Rightarrow> int \<Rightarrow> a68_val rt" where
  "rowd_get_flat r i = bnd (lift_res (row_store_index r i)) (rowd_get r)"

text \<open>The slot to write for an element; \<open>None\<close> when the store is a leaf.\<close>

definition rowd_slot :: "a68_rowd \<Rightarrow> int \<Rightarrow> (nat \<times> nat) option rt" where
  "rowd_slot r idx = bnd (rowd_store r) (\<lambda>st. bnd (get_body st) (\<lambda>b. case b of
     Slots vs \<Rightarrow>
       if \<not> (0 \<le> idx \<and> idx < int (length vs)) then stop UB
       else if r_field r \<noteq> 0 then bnd (select_field (r_field r) (vs ! nat idx)) (\<lambda>p. ret (Some p))
       else ret (Some (st, nat idx))
   | _ \<Rightarrow> ret None))"

section \<open>Copy on write, shares, borrows\<close>

definition store_copy :: "nat \<Rightarrow> nat rt" where
  "store_copy st = bnd (get_body st) (\<lambda>b. case b of
     Slots vs \<Rightarrow> bnd (slots_alloc (length vs)) (\<lambda>c. bnd (set_body c (Slots vs)) (\<lambda>_. ret c))
   | Leaf ek ds fs \<Rightarrow> bnd (leaf_alloc ek (length ds)) (\<lambda>c. bnd (set_body c (Leaf ek ds fs)) (\<lambda>_. ret c))
   | _ \<Rightarrow> stop UB)"

definition own_store :: "nat \<Rightarrow> unit rt" where
  "own_store owner = bnd (get_rowd owner) (\<lambda>r. bnd (get_obj (r_base r)) (\<lambda>st.
     if o_rc st > 1
     then bnd (store_copy (r_base r)) (\<lambda>c.
          bnd (set_rc (r_base r) (\<lambda>n. n - 1)) (\<lambda>_.
          bnd (set_rc c (\<lambda>_. 1)) (\<lambda>_. set_body owner (Rowd (r\<lparr>r_base := c\<rparr>)))))
     else ret ()))"

definition rowd_share :: "nat \<Rightarrow> nat rt" where
  "rowd_share p = bnd (get_rowd p) (\<lambda>r. bnd (rowd_alloc (length (r_dim r))) (\<lambda>n. bnd (rowd_store r) (\<lambda>st.
     bnd (set_rc st (\<lambda>c. c + 1)) (\<lambda>_.
     bnd (set_body n (Rowd \<lparr>r_base = st, r_off = r_off r, r_field = r_field r, r_borrow = False,
                            r_dim = r_dim r\<rparr>)) (\<lambda>_. ret n)))))"

definition rowd_borrow :: "nat \<Rightarrow> nat rt" where
  "rowd_borrow p = bnd (get_rowd p) (\<lambda>r. bnd (rowd_alloc (length (r_dim r))) (\<lambda>n. bnd (rowd_store r) (\<lambda>st.
     bnd (set_body n (Rowd \<lparr>r_base = st, r_off = r_off r, r_field = r_field r, r_borrow = True,
                            r_dim = r_dim r\<rparr>)) (\<lambda>_. ret n))))"

section \<open>Copying values\<close>

text \<open>One level of \<open>copy_value\<close>; \<open>self\<close> is the recursive call.\<close>

definition copy_value_body :: "(a68_val \<Rightarrow> a68_val rt) \<Rightarrow> a68_val \<Rightarrow> a68_val rt" where
  "copy_value_body self v = (case v of
     VRow p \<Rightarrow> bnd (rowd_borrow p) (\<lambda>n. ret (VRow n))
   | VStruct p \<Rightarrow> bnd (get_slots p) (\<lambda>vs. bnd (slots_alloc (length vs)) (\<lambda>c.
       bnd (each [0..<length vs] (\<lambda>i. bnd (slot_read (p, i)) (\<lambda>e.
         bnd (self e) (\<lambda>e'. bnd (unborrow e') (slot_write (c, i)))))) (\<lambda>_. ret (VStruct c))))
   | VUnion p m \<Rightarrow> bnd (slots_alloc 1) (\<lambda>c. bnd (slot_read (p, 0)) (\<lambda>e.
       bnd (self e) (\<lambda>e'. bnd (unborrow e') (\<lambda>e''. bnd (slot_write (c, 0) e'') (\<lambda>_. ret (VUnion c m))))))
   | _ \<Rightarrow> ret v)"

primrec copy_value_n :: "nat \<Rightarrow> a68_val \<Rightarrow> a68_val rt" where
  "copy_value_n 0 v = stop (Fatal ''stack overflow'')"
| "copy_value_n (Suc k) v = copy_value_body (copy_value_n k) v"

definition copy_value :: "a68_val \<Rightarrow> a68_val rt" where
  "copy_value v = bnd (get depth_limit) (\<lambda>k. copy_value_n k v)"

text \<open>\<open>row_canonical_copy\<close>: a fresh row with canonical layout holding copies of the elements.\<close>

definition row_canonical_copy :: "nat \<Rightarrow> nat rt" where
  "row_canonical_copy p = bnd (get_rowd p) (\<lambda>r.
     bnd (rowd_store r) (\<lambda>st. bnd (get_body st) (\<lambda>b. bnd (rowd_alloc (length (r_dim r))) (\<lambda>c.
     bnd (case b of
            Leaf ek _ _ \<Rightarrow> bnd (leaf_alloc ek (nat (u32_of_int (row_count r)))) (\<lambda>ns.
              bnd (each (upto_int (row_count r)) (\<lambda>i. bnd (rowd_get_flat r i) (store_set ns i))) (\<lambda>_. ret ns))
          | _ \<Rightarrow> bnd (slots_alloc (nat (u32_of_int (row_count r)))) (\<lambda>ns.
              bnd (each (upto_int (row_count r)) (\<lambda>i. bnd (rowd_get_flat r i) (\<lambda>e.
                bnd (copy_value e) (store_set ns i)))) (\<lambda>_. ret ns))) (\<lambda>ns.
     bnd (set_rc ns (\<lambda>_. 1)) (\<lambda>_.
     bnd (set_body c (Rowd \<lparr>r_base = ns, r_off = 0, r_field = 0, r_borrow = False,
                            r_dim = canon_dims (r_dim r)\<rparr>)) (\<lambda>_. ret c)))))))"

section \<open>Strings\<close>

definition string_row :: "u8 list \<Rightarrow> int \<Rightarrow> a68_val rt" where
  "string_row p lwb = bnd (rowd_alloc 1) (\<lambda>d. bnd (leaf_alloc EK_CHAR (length p)) (\<lambda>l.
     bnd (set_body l (Leaf EK_CHAR (map ucast p) (replicate (length p) True))) (\<lambda>_.
     bnd (set_rc l (\<lambda>_. 1)) (\<lambda>_.
     bnd (set_body d (Rowd \<lparr>r_base = l, r_off = 0, r_field = 0, r_borrow = False,
       r_dim = [\<lparr>d_l = lwb, d_u = lwb + int (length p) - 1, d_stride = 1\<rparr>]\<rparr>)) (\<lambda>_. ret (VRow d))))))"

text \<open>The characters of a string value, element by element, with the checks in order.\<close>

fun string_loop :: "string \<Rightarrow> a68_rowd \<Rightarrow> int list \<Rightarrow> u8 list rt" where
  "string_loop msg d [] = ret []"
| "string_loop msg d (i # is) = bnd (rowd_get_flat d i) (\<lambda>e. case e of
     VUndef \<Rightarrow> die ''attempt to use an uninitialised CHAR value''
   | VChar c \<Rightarrow> bnd (string_loop msg d is) (\<lambda>bs. ret (ucast c # bs))
   | _ \<Rightarrow> die msg)"

text \<open>
  \<open>string_bytes\<close>: a contiguous leaf of characters with every element of the row defined is
  copied as it is; everything else goes element by element.
\<close>

definition string_fast :: "a68_rowd \<Rightarrow> obj_body \<Rightarrow> u8 list option" where
  "string_fast d b = (case (r_dim d, b) of
     ([dm], Leaf EK_CHAR ds fs) \<Rightarrow>
       if r_field d = 0 \<and> d_stride dm = 1 \<and> 0 \<le> r_off d \<and> r_off d + row_count d \<le> int (length fs)
          \<and> length ds = length fs
          \<and> list_all (\<lambda>x. x) (take (nat (row_count d)) (drop (nat (r_off d)) fs))
       then Some (map ucast (take (nat (row_count d)) (drop (nat (r_off d)) ds))) else None
   | _ \<Rightarrow> None)"

definition string_bytes :: "nat \<Rightarrow> u8 list rt" where
  "string_bytes p = bnd (get_rowd p) (\<lambda>d. bnd (get_body (r_base d)) (\<lambda>b.
     case string_fast d b of Some bs \<Rightarrow> ret bs
     | None \<Rightarrow> string_loop ''internal: [] CHAR expected'' d (upto_int (row_count d))))"

definition is_string_row :: "a68_val \<Rightarrow> bool rt" where
  "is_string_row v = (case v of VRow p \<Rightarrow> bnd (get_rowd p) (\<lambda>d. ret (length (r_dim d) = 1)) | _ \<Rightarrow> ret False)"

end
