(* ===== verification/RtNames.thy ===== *)
theory RtNames
  imports RtRows
begin

text \<open>
  \<open>csrc/rt.c\<close>, names: what a name refers to, dereferencing, assignment to cells, structures,
  elements and sub-rows (\<open>assign_ref\<close>, \<open>store_ref\<close>), the names of fields and elements, and
  appending to a row variable in place.
\<close>

section \<open>What a name refers to\<close>

text \<open>\<open>aux / sizeof (a68_val)\<close>: the offset of a name is in bytes, a value has 16 of them.\<close>

definition ref_index :: "u32 \<Rightarrow> nat" where
  "ref_index aux = unat aux div 16"

definition slot_offset :: "nat \<Rightarrow> u32" where
  "slot_offset i = of_nat (i * 16)"

definition ref_slot :: "nat \<Rightarrow> u32 \<Rightarrow> (nat \<times> nat) rt" where
  "ref_slot p aux = bnd (get_body p) (\<lambda>b. case body_cells b of
     Some _ \<Rightarrow> ret (p, ref_index aux) | None \<Rightarrow> stop UB)"

definition ref_load :: "nat \<Rightarrow> u32 \<Rightarrow> a68_val rt" where
  "ref_load p aux = bnd (get_body p) (\<lambda>b. case b of
     Rowd d \<Rightarrow> if aux = VIEW_OFF then bnd (rowd_share p) (\<lambda>n. ret (VRow n))
               else bnd (rowd_get d (int (unat aux))) copy_value
   | _ \<Rightarrow> bnd (ref_slot p aux) (\<lambda>sl. bnd (slot_read sl) copy_value))"

definition deref :: "a68_val \<Rightarrow> a68_val rt" where
  "deref r = (case r of
     VRef p aux \<Rightarrow> ref_load p aux
   | VFile _ \<Rightarrow> ret r
   | VNil \<Rightarrow> die ''attempt to dereference NIL''
   | VUndef \<Rightarrow> die ''attempt to use an uninitialised REF value''
   | _ \<Rightarrow> die ''internal: dereferencing a non-REF'')"

text \<open>The descriptor a row name designates (its address), if it designates a row at all.\<close>

definition ref_rowd :: "nat \<Rightarrow> u32 \<Rightarrow> nat option rt" where
  "ref_rowd p aux = bnd (get_body p) (\<lambda>b. case b of
     Rowd d \<Rightarrow> if aux = VIEW_OFF then ret (Some p)
               else bnd (rowd_get d (int (unat aux))) (\<lambda>e. case e of VRow q \<Rightarrow> ret (Some q) | _ \<Rightarrow> ret None)
   | _ \<Rightarrow> bnd (ref_slot p aux) (\<lambda>sl. bnd (slot_read sl) (\<lambda>e.
       case e of VRow q \<Rightarrow> ret (Some q) | _ \<Rightarrow> ret None)))"

section \<open>Assignment\<close>

definition slot_put :: "nat \<times> nat \<Rightarrow> a68_val \<Rightarrow> unit rt" where
  "slot_put sl v = (case v of
     VRow p \<Rightarrow> bnd (rowd_share p) (\<lambda>n. slot_write sl (VRow n))
   | _ \<Rightarrow> slot_write sl v)"

definition bounds_mismatch :: "'a rt" where
  "bounds_mismatch = die ''bounds of source and destination do not match''"

text \<open>Widening a leaf store to slots: the first \<open>m\<close> elements move, the owner gets the new store.\<close>

definition widen_store :: "nat \<Rightarrow> nat \<Rightarrow> nat \<Rightarrow> nat rt" where
  "widen_store owner st m = bnd (get_body st) (\<lambda>b. case b of
     Leaf ek ds fs \<Rightarrow> bnd (slots_alloc (length ds)) (\<lambda>ns.
       bnd (each [0..<m] (\<lambda>k. bnd (lift_res (store_get b (int k))) (slot_write (ns, k)))) (\<lambda>_.
       bnd (set_rc ns (\<lambda>_. 1)) (\<lambda>_. bnd (get_rowd owner) (\<lambda>r.
       bnd (set_body owner (Rowd (r\<lparr>r_base := ns\<rparr>))) (\<lambda>_. ret ns)))))
   | _ \<Rightarrow> stop UB)"

text \<open>\<open>rowd_put\<close>, with the assignment to a slot as a parameter.\<close>

definition rowd_put_with :: "(nat \<times> nat \<Rightarrow> a68_val \<Rightarrow> bool \<Rightarrow> bool \<Rightarrow> unit rt) \<Rightarrow> nat \<Rightarrow> int \<Rightarrow> a68_val \<Rightarrow> unit rt" where
  "rowd_put_with asg p idx v = bnd (get_rowd p) (\<lambda>r. bnd (rowd_slot r idx) (\<lambda>sl. case sl of
     Some q \<Rightarrow> asg q v True False
   | None \<Rightarrow> bnd (rowd_store r) (\<lambda>st. store_set st idx v)))"

definition same_leaf_kind :: "obj_body \<Rightarrow> obj_body \<Rightarrow> bool" where
  "same_leaf_kind a b = (case (a, b) of (Leaf k _ _, Leaf k' _ _) \<Rightarrow> k = k' | _ \<Rightarrow> False)"

definition leaf_refuses :: "obj_body \<Rightarrow> a68_val \<Rightarrow> bool" where
  "leaf_refuses b e = (case b of Leaf ek _ _ \<Rightarrow> \<not> leaf_accepts ek e | _ \<Rightarrow> False)"

definition is_leaf :: "obj_body \<Rightarrow> bool" where
  "is_leaf b = (case b of Leaf _ _ _ \<Rightarrow> True | _ \<Rightarrow> False)"

fun body_length :: "obj_body \<Rightarrow> nat" where
  "body_length (Slots vs) = length vs"
| "body_length (Leaf ek ds fs) = length ds"
| "body_length (Rowd r) = length (r_dim r)"
| "body_length (Frame p d vs) = length vs"
| "body_length Freed = 0"

text \<open>
  \<open>row_copy_into\<close>: the destination's owner gets a store of its own, then the elements are
  written one by one in row-major order; a leaf that cannot hold an element is widened first.
\<close>

definition row_copy_into_with ::
  "(nat \<times> nat \<Rightarrow> a68_val \<Rightarrow> bool \<Rightarrow> bool \<Rightarrow> unit rt) \<Rightarrow> nat \<Rightarrow> nat \<Rightarrow> unit rt" where
  "row_copy_into_with asg dst src = bnd (rowd_owner dst) (\<lambda>owner. bnd (own_store owner) (\<lambda>_.
     bnd (get_rowd dst) (\<lambda>d. bnd (rowd_store d) (\<lambda>ds. bnd (get_body ds) (\<lambda>db.
     bnd (get_rowd src) (\<lambda>s. bnd (rowd_store s) (\<lambda>ss. bnd (get_body ss) (\<lambda>sb.
     if same_leaf_kind db sb
     then each (upto_int (row_count d)) (\<lambda>i. bnd (lift_res (row_store_index d i)) (\<lambda>di.
            bnd (rowd_get_flat s i) (rowd_put_with asg dst di)))
     else each (upto_int (row_count d)) (\<lambda>i. bnd (rowd_get_flat s i) (\<lambda>e.
            bnd (get_rowd dst) (\<lambda>d'. bnd (rowd_store d') (\<lambda>ds'. bnd (get_body ds') (\<lambda>db'.
            bnd (if leaf_refuses db' e then bnd (widen_store owner ds' (body_length db')) (\<lambda>_. ret False)
                 else ret (is_leaf db')) (\<lambda>leaf.
            bnd (lift_res (row_store_index d' i)) (\<lambda>di.
            bnd (if leaf then ret e else copy_value e) (rowd_put_with asg dst di))))))))))))))))"

definition row_replace :: "nat \<Rightarrow> nat \<Rightarrow> unit rt" where
  "row_replace dst src = bnd (row_canonical_copy src) (\<lambda>c. bnd (get_rowd dst) (\<lambda>d.
     bnd (get_obj (r_base d)) (\<lambda>b.
     bnd (case o_body b of Rowd _ \<Rightarrow> ret ()
          | _ \<Rightarrow> if o_rc b > 0 then set_rc (r_base d) (\<lambda>n. n - 1) else ret ()) (\<lambda>_.
     bnd (get_rowd c) (\<lambda>cr.
     if length (r_dim d) = length (r_dim cr)
     then set_body dst (Rowd (d\<lparr>r_base := r_base cr, r_off := r_off cr, r_dim := r_dim cr\<rparr>))
     else die ''internal: row assignment changes the rank'')))))"

text \<open>One level of \<open>assign_slot\<close>; \<open>self\<close> is the recursive call.\<close>

definition assign_slot_body ::
  "(nat \<times> nat \<Rightarrow> a68_val \<Rightarrow> bool \<Rightarrow> bool \<Rightarrow> unit rt) \<Rightarrow> nat \<times> nat \<Rightarrow> a68_val \<Rightarrow> bool \<Rightarrow> bool \<Rightarrow> unit rt" where
  "assign_slot_body self sl v flex checked = bnd (slot_read sl) (\<lambda>cur.
     case v of
       VRow src \<Rightarrow>
         (case cur of
            VRow old \<Rightarrow> bnd (get_rowd old) (\<lambda>o'. bnd (get_rowd src) (\<lambda>s'.
              if checked \<and> \<not> flex \<and> \<not> same_bounds o' s' \<and> row_count o' \<noteq> 0 then bounds_mismatch
              else if \<not> flex \<and> same_bounds o' s' then row_copy_into_with self old src
              else row_replace old src))
          | _ \<Rightarrow> slot_put sl v)
     | VStruct c \<Rightarrow>
         (case cur of
            VStruct d \<Rightarrow> bnd (get_slots d) (\<lambda>ds. bnd (get_slots c) (\<lambda>cs.
              if length ds = length cs
              then each [0..<length ds] (\<lambda>i. bnd (slot_read (c, i)) (\<lambda>e. self (d, i) e True False))
              else bnd (copy_value v) (slot_put sl)))
          | _ \<Rightarrow> bnd (copy_value v) (slot_put sl))
     | _ \<Rightarrow> bnd (copy_value v) (slot_put sl))"

primrec assign_slot_n :: "nat \<Rightarrow> nat \<times> nat \<Rightarrow> a68_val \<Rightarrow> bool \<Rightarrow> bool \<Rightarrow> unit rt" where
  "assign_slot_n 0 sl v flex checked = stop (Fatal ''stack overflow'')"
| "assign_slot_n (Suc k) sl v flex checked = assign_slot_body (assign_slot_n k) sl v flex checked"

definition assign_slot :: "nat \<times> nat \<Rightarrow> a68_val \<Rightarrow> bool \<Rightarrow> bool \<Rightarrow> unit rt" where
  "assign_slot sl v flex checked = bnd (get depth_limit) (\<lambda>k. assign_slot_n k sl v flex checked)"

definition rowd_put :: "nat \<Rightarrow> int \<Rightarrow> a68_val \<Rightarrow> unit rt" where
  "rowd_put = rowd_put_with assign_slot"

definition row_copy_into :: "nat \<Rightarrow> nat \<Rightarrow> unit rt" where
  "row_copy_into = row_copy_into_with assign_slot"

text \<open>Assignment to a sub-row through a view: the sizes have to agree.\<close>

definition assign_view :: "nat \<Rightarrow> a68_val \<Rightarrow> unit rt" where
  "assign_view p v = (case v of
     VRow src \<Rightarrow> bnd (get_rowd p) (\<lambda>r. bnd (get_rowd src) (\<lambda>s.
       if row_count r \<noteq> row_count s then bounds_mismatch else row_copy_into p src))
   | _ \<Rightarrow> die ''internal: sub-row assignment of non-row'')"

definition assign_ref :: "a68_val \<Rightarrow> a68_val \<Rightarrow> bool \<Rightarrow> unit rt" where
  "assign_ref d v flex = (case d of
     VNil \<Rightarrow> die ''attempt to assign to NIL''
   | VRef p aux \<Rightarrow>
       if v = VUndef then die ''attempt to use an uninitialised value''
       else bnd (get_body p) (\<lambda>b. case b of
         Rowd r \<Rightarrow>
           if aux = VIEW_OFF then assign_view p v
           else bnd (rowd_store r) (\<lambda>st. bnd (get_body st) (\<lambda>sb. bnd (rowd_owner p) (\<lambda>owner.
             case sb of
               Leaf ek _ _ \<Rightarrow>
                 if \<not> leaf_accepts ek v
                 then bnd (own_store owner) (\<lambda>_. bnd (get_rowd p) (\<lambda>r'. bnd (rowd_store r') (\<lambda>st'.
                      bnd (get_body st') (\<lambda>sb'. bnd (widen_store owner st' (body_length sb')) (\<lambda>ns.
                      bnd (copy_value v) (store_set ns (int (unat aux))))))))
                 else bnd (own_store owner) (\<lambda>_. bnd (get_rowd p) (\<lambda>r'. bnd (rowd_store r') (\<lambda>st'.
                      store_set st' (int (unat aux)) v)))
             | _ \<Rightarrow> bnd (own_store owner) (\<lambda>_. bnd (get_rowd p) (\<lambda>r'. bnd (rowd_slot r' (int (unat aux))) (\<lambda>sl.
                      case sl of Some q \<Rightarrow> assign_slot q v flex True | None \<Rightarrow> stop UB))))))
       | _ \<Rightarrow> bnd (ref_slot p aux) (\<lambda>sl. assign_slot sl v flex True))
   | _ \<Rightarrow> die ''internal: assignment to a non-REF'')"

definition store_ref :: "a68_val \<Rightarrow> a68_val \<Rightarrow> unit rt" where
  "store_ref d v = (case d of
     VRef p aux \<Rightarrow> bnd (get_body p) (\<lambda>b. case b of
       Rowd r \<Rightarrow>
         if aux = VIEW_OFF then assign_view p v
         else bnd (rowd_owner p) (\<lambda>owner. bnd (own_store owner) (\<lambda>_.
           bnd (get_rowd p) (\<lambda>r'. bnd (rowd_store r') (\<lambda>st. bnd (get_body st) (\<lambda>sb.
           bnd (if leaf_refuses sb v then widen_store owner st (body_length sb) else ret st) (\<lambda>st'.
           bnd (get_body st') (\<lambda>sb'. case sb' of
             Leaf _ _ _ \<Rightarrow> store_set st' (int (unat aux)) v
           | _ \<Rightarrow> bnd (get_rowd p) (\<lambda>r''. bnd (rowd_slot r'' (int (unat aux))) (\<lambda>sl.
               case sl of Some q \<Rightarrow> assign_slot q v True False | None \<Rightarrow> stop UB)))))))))
     | _ \<Rightarrow> bnd (ref_slot p aux) (\<lambda>sl. assign_slot sl v True False))
   | _ \<Rightarrow> die ''internal: assignment to a non-REF'')"

section \<open>Names of fields and elements\<close>

definition ref_field :: "a68_val \<Rightarrow> nat \<Rightarrow> a68_val rt" where
  "ref_field r f = (case r of
     VNil \<Rightarrow> die ''attempt to select from NIL''
   | VRef p aux \<Rightarrow> bnd (get_body p) (\<lambda>b.
       bnd (case b of
              Rowd d \<Rightarrow> if aux = VIEW_OFF then ret (VRow p) else rowd_get d (int (unat aux))
            | _ \<Rightarrow> bnd (ref_slot p aux) slot_read) (\<lambda>target.
       case target of
         VRow _ \<Rightarrow> bnd (ref_rowd p aux) (\<lambda>q. case q of
             None \<Rightarrow> die ''internal: field selection on non-struct''
           | Some rw \<Rightarrow> bnd (get_rowd rw) (\<lambda>rd.
               if r_field rd \<noteq> 0 then die ''internal: nested multiple selection''
               else bnd (rowd_alloc (length (r_dim rd))) (\<lambda>v. bnd (rowd_owner rw) (\<lambda>ow.
                 bnd (set_body v (Rowd \<lparr>r_base = ow, r_off = r_off rd, r_field = f + 1, r_borrow = False,
                                        r_dim = r_dim rd\<rparr>)) (\<lambda>_. ret (VRef v VIEW_OFF))))))
       | VStruct s \<Rightarrow> bnd (get_slots s) (\<lambda>fs.
           if f \<ge> length fs then die ''internal: field index out of range''
           else ret (VRef s (slot_offset f)))
       | _ \<Rightarrow> die ''internal: field selection on non-struct''))
   | _ \<Rightarrow> die ''internal: select via non-REF'')"

definition ref_elem :: "nat \<Rightarrow> u32 \<Rightarrow> u32 \<Rightarrow> a68_val rt" where
  "ref_elem p aux i = bnd (ref_rowd p aux) (\<lambda>q. case q of
     None \<Rightarrow> die ''internal: element of a non-row''
   | Some d \<Rightarrow> bnd (get_rowd d) (\<lambda>r. bnd (lift_res (row_store_index r (int (unat i)))) (\<lambda>idx.
       ret (VRef d (word_of_int idx)))))"

section \<open>Appending in place\<close>

text \<open>The grown store: the old elements, then room to spare.\<close>

definition grow_store :: "nat \<Rightarrow> obj_body \<Rightarrow> int \<Rightarrow> int \<Rightarrow> nat rt" where
  "grow_store st b cur need = (let cap = (if need < 16 then 16 else need * 2); c = nat (u32_of_int cap) in
     case b of
       Leaf ek ds fs \<Rightarrow> bnd (leaf_alloc ek c) (\<lambda>ns.
         if nat cur \<le> c then
           bnd (set_body ns (Leaf ek (take (nat cur) ds @ replicate (c - nat cur) 0)
             (if ek = EK_BYTES then [] else take (nat cur) fs @ replicate (c - nat cur) False))) (\<lambda>_. ret ns)
         else stop UB)
     | Slots vs \<Rightarrow> bnd (slots_alloc c) (\<lambda>ns.
         if nat cur \<le> c then
           bnd (set_body ns (Slots (take (nat cur) vs @ replicate (c - nat cur) VUndef))) (\<lambda>_. ret ns)
         else stop UB)
     | _ \<Rightarrow> stop UB)"

definition append_one :: "nat \<Rightarrow> int \<Rightarrow> int \<times> a68_val \<Rightarrow> unit rt" where
  "append_one p cur ie = bnd (get_rowd p) (\<lambda>r. bnd (get_body (r_base r)) (\<lambda>sb.
     bnd (if leaf_refuses sb (snd ie)
          then bnd (slots_alloc (body_length sb)) (\<lambda>ns.
               bnd (each [0..<nat (cur + fst ie)] (\<lambda>k. bnd (lift_res (store_get sb (int k))) (slot_write (ns, k)))) (\<lambda>_.
               bnd (set_rc (r_base r) (\<lambda>n. n - 1)) (\<lambda>_. bnd (set_rc ns (\<lambda>_. 1)) (\<lambda>_.
               bnd (set_body p (Rowd (r\<lparr>r_base := ns\<rparr>))) (\<lambda>_. ret (ns, False))))))
          else ret (r_base r, is_leaf sb)) (\<lambda>(st, leaf).
     bnd (if leaf then ret (snd ie) else copy_value (snd ie)) (store_set st (cur + fst ie)))))"

definition append_in_place :: "nat \<times> nat \<Rightarrow> a68_val list \<Rightarrow> bool rt" where
  "append_in_place sl elems = bnd (slot_read sl) (\<lambda>c. case c of
     VRow p \<Rightarrow> bnd (get_rowd p) (\<lambda>r. bnd (get_body (r_base r)) (\<lambda>sb.
       if length (r_dim r) \<noteq> 1 \<or> d_l (hd (r_dim r)) \<noteq> 1 \<or> (case sb of Rowd _ \<Rightarrow> True | _ \<Rightarrow> False)
       then ret False
       else if r_off r \<noteq> 0 \<or> d_stride (hd (r_dim r)) \<noteq> 1 \<or> int (body_length sb) < row_count r then ret False
       else bnd (own_store p) (\<lambda>_. bnd (get_rowd p) (\<lambda>r1. bnd (get_body (r_base r1)) (\<lambda>sb1.
         let cur = row_count r; need = cur + int (length elems) in
         bnd (if need > int (body_length sb1)
              then bnd (grow_store (r_base r1) sb1 cur need) (\<lambda>ns.
                   bnd (set_rc (r_base r1) (\<lambda>n. n - 1)) (\<lambda>_. bnd (set_rc ns (\<lambda>_. 1)) (\<lambda>_.
                   set_body p (Rowd (r1\<lparr>r_base := ns\<rparr>)))))
              else ret ()) (\<lambda>_.
         bnd (each (zip (map int [0..<length elems]) elems) (append_one p cur)) (\<lambda>_.
         bnd (get_rowd p) (\<lambda>r2.
         bnd (set_body p (Rowd (r2\<lparr>r_dim := [(hd (r_dim r2))\<lparr>d_u := need\<rparr>]\<rparr>))) (\<lambda>_. ret True)))))))))
   | _ \<Rightarrow> ret False)"

definition ref_append_values :: "a68_val \<Rightarrow> a68_val list \<Rightarrow> bool rt" where
  "ref_append_values r vs = (case r of
     VRef p aux \<Rightarrow> bnd (get_body p) (\<lambda>b. case b of
       Slots _ \<Rightarrow> append_in_place (p, ref_index aux) vs
     | Frame _ _ _ \<Rightarrow> append_in_place (p, ref_index aux) vs
     | _ \<Rightarrow> ret False)
   | _ \<Rightarrow> ret False)"

end
