(* ===== verification/RtEnv.thy ===== *)
theory RtEnv
  imports RtNames RtGc
begin

text \<open>
  \<open>csrc/rt.c\<close>, the machine the compiled program drives: the operand stack (its top is the head
  of the list), the chain of frames, the saved environments, jumps, cells, and the checked
  access to values of the primitive modes. Tracing to standard error is left out. The extra
  argument \<open>w\<close> of the entry points is not used by the code and is dropped.
\<close>

section \<open>The operand stack\<close>

definition push :: "a68_val \<Rightarrow> unit rt" where
  "push v = modify (\<lambda>s. s\<lparr>stack := v # stack s\<rparr>)"

definition underflow :: "'a rt" where
  "underflow = stop (Fatal ''uncaught exception: operand stack underflow'')"

definition pop :: "a68_val rt" where
  "pop s = (case stack s of [] \<Rightarrow> underflow s | v # vs \<Rightarrow> Inr (v, s\<lparr>stack := vs\<rparr>))"

definition top_val :: "a68_val rt" where
  "top_val s = (case stack s of [] \<Rightarrow> underflow s | v # vs \<Rightarrow> Inr (v, s))"

definition drop_stack :: "nat \<Rightarrow> unit rt" where
  "drop_stack n = modify (\<lambda>s. s\<lparr>stack := drop n (stack s)\<rparr>)"

text \<open>The \<open>n\<close> values on top in the order they were pushed (\<open>&stack[sp - n]\<close>).\<close>

definition top_n :: "nat \<Rightarrow> a68_val list rt" where
  "top_n n = bnd (get stack) (\<lambda>st. if length st < n then underflow else ret (rev (take n st)))"

definition rt_stack_depth :: "u32 rt" where
  "rt_stack_depth = get (\<lambda>s. of_nat (length (stack s)))"

definition rt_stack_truncate :: "u32 \<Rightarrow> unit rt" where
  "rt_stack_truncate d = modify (\<lambda>s. if unat d < length (stack s)
     then s\<lparr>stack := drop (length (stack s) - unat d) (stack s)\<rparr> else s)"

definition rt_pop :: "unit rt" where "rt_pop = bnd pop (\<lambda>_. ret ())"
definition rt_dup :: "unit rt" where "rt_dup = bnd top_val push"
definition rt_nip :: "unit rt" where
  "rt_nip s = (case stack s of
     a # b # st \<Rightarrow> Inr ((), s\<lparr>stack := a # st\<rparr>)
   | _ \<Rightarrow> Inl (Fatal ''uncaught exception: nip on a short stack''))"

definition rt_push_int :: "64 word \<Rightarrow> unit rt" where "rt_push_int v = push (VInt v)"
definition rt_push_real :: "u64 \<Rightarrow> unit rt" where "rt_push_real v = push (VReal v)"
definition rt_push_bool :: "u8 \<Rightarrow> unit rt" where "rt_push_bool v = push (VBool (v \<noteq> 0))"
definition rt_push_char :: "u32 \<Rightarrow> unit rt" where "rt_push_char v = push (VChar v)"
definition rt_push_bits :: "u64 \<Rightarrow> unit rt" where "rt_push_bits v = push (VBits v)"
definition rt_push_undef :: "unit rt" where "rt_push_undef = push VUndef"
definition rt_push_nil :: "unit rt" where "rt_push_nil = push VNil"
definition rt_push_void :: "unit rt" where "rt_push_void = push VVoid"
definition rt_push_builtin :: "u32 \<Rightarrow> unit rt" where "rt_push_builtin i = push (VBuiltin i)"
definition rt_push_file :: "u32 \<Rightarrow> unit rt" where "rt_push_file i = push (VFile i)"

definition strtab_at :: "u32 \<Rightarrow> string rt" where
  "strtab_at i = bnd (get strtab) (\<lambda>t. if unat i < length t then ret (t ! unat i) else stop UB)"

definition bytes_of_string :: "string \<Rightarrow> u8 list" where
  "bytes_of_string s = map (\<lambda>c. of_nat (of_char c)) s"

definition big_of_string :: "u8 list \<Rightarrow> nat rt" where
  "big_of_string bs = bnd (leaf_alloc EK_BYTES (length bs)) (\<lambda>l.
     bnd (set_body l (Leaf EK_BYTES (map ucast bs) [])) (\<lambda>_. ret l))"

definition rt_push_bigint :: "u32 \<Rightarrow> unit rt" where
  "rt_push_bigint i = bnd GC_POLL (\<lambda>_. bnd (strtab_at i) (\<lambda>s.
     bnd (big_of_string (bytes_of_string s)) (\<lambda>l. push (VBigint l))))"

definition rt_push_bigbits :: "u32 \<Rightarrow> unit rt" where
  "rt_push_bigbits i = bnd GC_POLL (\<lambda>_. bnd (strtab_at i) (\<lambda>s.
     bnd (big_of_string (bytes_of_string s)) (\<lambda>l. push (VBigbits l))))"

definition rt_push_str :: "u32 \<Rightarrow> unit rt" where
  "rt_push_str i = bnd GC_POLL (\<lambda>_. bnd (strtab_at i) (\<lambda>s.
     bnd (string_row (bytes_of_string s) 1) push))"

definition rt_push_bytes :: "u8 list \<Rightarrow> int \<Rightarrow> unit rt" where
  "rt_push_bytes p lwb = bnd GC_POLL (\<lambda>_. bnd (string_row p lwb) push)"

definition rt_pop_bytes :: "(u8 list \<times> int) rt" where
  "rt_pop_bytes = bnd pop (\<lambda>v. case v of
     VChar c \<Rightarrow> ret ([ucast c], 1)
   | VUndef \<Rightarrow> die ''attempt to use an uninitialised value''
   | VRow p \<Rightarrow> bnd (get_rowd p) (\<lambda>d.
       if length (r_dim d) \<noteq> 1 then die ''internal: STRING expected''
       else bnd (string_loop ''internal: CHAR expected'' d (upto_int (row_count d))) (\<lambda>bs.
            ret (bs, d_l (hd (r_dim d)))))
   | _ \<Rightarrow> die ''internal: STRING expected'')"

section \<open>Frames\<close>

definition get_frame :: "nat \<Rightarrow> (nat \<times> nat \<times> a68_val list) rt" where
  "get_frame p = bnd (get_body p) (\<lambda>b. case b of Frame par d vs \<Rightarrow> ret (par, d, vs) | _ \<Rightarrow> stop UB)"

definition frame_depth :: "nat \<Rightarrow> nat rt" where
  "frame_depth p = (if p = 0 then ret 0 else bnd (get_frame p) (\<lambda>(_, d, _). ret d))"

definition frame_alloc :: "nat \<Rightarrow> nat rt" where
  "frame_alloc n = bnd (get env) (\<lambda>e. bnd (frame_depth e) (\<lambda>d.
     obj_alloc (Frame e (d + 1) (replicate n VUndef)) (frame_size n)))"

text \<open>The frame \<open>k\<close> levels out from \<open>p\<close>, 0 when the chain is shorter.\<close>

fun frame_out :: "nat \<Rightarrow> nat \<Rightarrow> nat rt" where
  "frame_out 0 p = ret p"
| "frame_out (Suc k) p = (if p = 0 then ret 0 else bnd (get_frame p) (\<lambda>(par, _, _). frame_out k par))"

definition frame_range_error :: "u32 \<Rightarrow> u32 \<Rightarrow> 'a rt" where
  "frame_range_error depth slot = stop (Fatal (''a68lean: internal: frame depth '' @ nat_dec (unat depth)
     @ '' slot '' @ nat_dec (unat slot) @ '' out of range''))"

definition cell_of :: "u32 \<Rightarrow> u32 \<Rightarrow> (nat \<times> nat) rt" where
  "cell_of depth slot = bnd (get env) (\<lambda>e. bnd (frame_out (unat depth) e) (\<lambda>f.
     if f = 0 then frame_range_error depth slot
     else bnd (get_frame f) (\<lambda>(_, _, vs). if unat slot \<ge> length vs
       then frame_range_error depth slot else ret (f, unat slot))))"

definition cell_val :: "u32 \<Rightarrow> u32 \<Rightarrow> a68_val rt" where
  "cell_val d s = bnd (cell_of d s) slot_read"

definition set_env :: "nat \<Rightarrow> unit rt" where
  "set_env f = modify (\<lambda>s. s\<lparr>env := f\<rparr>)"

definition rt_enter :: "nat \<Rightarrow> nat rt" where
  "rt_enter n = bnd GC_POLL (\<lambda>_. bnd (frame_alloc n) (\<lambda>f. bnd (set_env f) (\<lambda>_. ret f)))"

text \<open>The arguments come off the stack last first; those beyond the frame's cells are dropped.\<close>

fun pop_args :: "nat \<Rightarrow> nat \<Rightarrow> nat \<Rightarrow> unit rt" where
  "pop_args f n 0 = ret ()"
| "pop_args f n (Suc i) = bnd pop (\<lambda>v. bnd (if i < n then slot_put (f, i) v else ret ()) (\<lambda>_. pop_args f n i))"

definition rt_enter_args :: "nat \<Rightarrow> nat \<Rightarrow> nat rt" where
  "rt_enter_args n nargs = bnd GC_POLL (\<lambda>_. bnd (frame_alloc n) (\<lambda>f.
     bnd (pop_args f n nargs) (\<lambda>_. bnd (set_env f) (\<lambda>_. ret f))))"

definition rt_frame_cells :: "u32 \<Rightarrow> nat rt" where
  "rt_frame_cells depth = bnd (get env) (\<lambda>e. bnd (frame_out (unat depth) e) (\<lambda>f.
     if f = 0 then stop (Fatal (''a68lean: internal: frame depth '' @ nat_dec (unat depth) @ '' out of range''))
     else ret f))"

definition rt_leave :: "unit rt" where
  "rt_leave = bnd (get env) (\<lambda>e. if e = 0 then ret () else bnd (get_frame e) (\<lambda>(par, _, _). set_env par))"

definition rt_env_depth :: "nat rt" where
  "rt_env_depth = bnd (get env) frame_depth"

text \<open>
  Leaving frames until the depth is at most \<open>d\<close>. The chain gets one frame shorter at every
  step; the fuel is the number of objects, which no chain can exceed.
\<close>

fun truncate_loop :: "nat \<Rightarrow> nat \<Rightarrow> unit rt" where
  "truncate_loop 0 d = stop (Fatal ''frame chain does not end'')"
| "truncate_loop (Suc k) d = bnd (get env) (\<lambda>e. if e = 0 then ret ()
     else bnd (get_frame e) (\<lambda>(par, dep, _). if dep > d
       then bnd (set_env par) (\<lambda>_. truncate_loop k d) else ret ()))"

definition rt_env_truncate :: "nat \<Rightarrow> unit rt" where
  "rt_env_truncate d = bnd (get (\<lambda>s. length (all_objects s))) (\<lambda>k. truncate_loop (k + 1) d)"

section \<open>Saved environments\<close>

text \<open>\<open>saved\<close> grows at its head; \<open>saved[i]\<close> of the code is element \<open>i\<close> from the other end.\<close>

definition env_set :: "nat \<Rightarrow> unit rt" where
  "env_set f = modify (\<lambda>s. s\<lparr>saved := env s # saved s, env := f\<rparr>)"

definition env_restore :: "unit rt" where
  "env_restore s = (case saved s of
     [] \<Rightarrow> Inl (Fatal ''uncaught exception: environment stack underflow'')
   | e # es \<Rightarrow> Inr ((), s\<lparr>env := e, saved := es\<rparr>))"

definition env_saved_depth :: "nat rt" where
  "env_saved_depth = get (\<lambda>s. length (saved s))"

definition env_saved_truncate :: "nat \<Rightarrow> unit rt" where
  "env_saved_truncate n = modify (\<lambda>s. if n < length (saved s)
     then s\<lparr>env := rev (saved s) ! n, saved := drop (length (saved s) - n) (saved s)\<rparr> else s)"

section \<open>Jumps\<close>

definition rt_jump_pending :: "u32 rt" where "rt_jump_pending = get jump_flag"
definition rt_jump_clear :: "unit rt" where "rt_jump_clear = modify (\<lambda>s. s\<lparr>jump_flag := 0\<rparr>)"
definition rt_raise_jump :: "u32 \<Rightarrow> unit rt" where "rt_raise_jump l = modify (\<lambda>s. s\<lparr>jump_flag := l + 1\<rparr>)"
definition rt_line :: "u32 \<Rightarrow> unit rt" where "rt_line l = modify (\<lambda>s. s\<lparr>line_no := l\<rparr>)"

section \<open>Cells\<close>

definition rt_push_cell :: "u32 \<Rightarrow> u32 \<Rightarrow> unit rt" where
  "rt_push_cell d s = bnd GC_POLL (\<lambda>_. bnd (cell_val d s) (\<lambda>c.
     if c = VUndef then die ''attempt to use an uninitialised value'' else bnd (copy_value c) push))"

definition rt_push_ref :: "u32 \<Rightarrow> u32 \<Rightarrow> unit rt" where
  "rt_push_ref d s = bnd (get env) (\<lambda>e. bnd (frame_out (unat d) e) (\<lambda>f.
     if f = 0 then die ''internal: frame depth out of range'' else push (VRef f (s * 16))))"

definition rt_store :: "u32 \<Rightarrow> u32 \<Rightarrow> unit rt" where
  "rt_store d s = bnd pop (\<lambda>v. bnd (cell_of d s) (\<lambda>c. slot_put c v))"

definition rt_bind_cell :: "u32 \<Rightarrow> u32 \<Rightarrow> unit rt" where
  "rt_bind_cell d s = bnd pop (\<lambda>v. bnd (cell_of d s) (\<lambda>c. slot_put c v))"

definition set_cell :: "u32 \<Rightarrow> u32 \<Rightarrow> a68_val \<Rightarrow> unit rt" where
  "set_cell d s v = bnd (cell_of d s) (\<lambda>c. slot_write c v)"

definition rt_set_cell_int :: "u32 \<Rightarrow> u32 \<Rightarrow> 64 word \<Rightarrow> unit rt" where
  "rt_set_cell_int d s v = set_cell d s (VInt v)"
definition rt_set_cell_real :: "u32 \<Rightarrow> u32 \<Rightarrow> u64 \<Rightarrow> unit rt" where
  "rt_set_cell_real d s v = set_cell d s (VReal v)"
definition rt_set_cell_bool :: "u32 \<Rightarrow> u32 \<Rightarrow> u8 \<Rightarrow> unit rt" where
  "rt_set_cell_bool d s v = set_cell d s (VBool (v \<noteq> 0))"
definition rt_set_cell_char :: "u32 \<Rightarrow> u32 \<Rightarrow> u32 \<Rightarrow> unit rt" where
  "rt_set_cell_char d s v = set_cell d s (VChar v)"
definition rt_set_cell_bits :: "u32 \<Rightarrow> u32 \<Rightarrow> u64 \<Rightarrow> unit rt" where
  "rt_set_cell_bits d s v = set_cell d s (VBits v)"

section \<open>Values of the primitive modes\<close>

definition as_int :: "a68_val \<Rightarrow> (64 word) rt" where
  "as_int v = (case v of
     VInt i \<Rightarrow> ret i
   | VUndef \<Rightarrow> die ''attempt to use an uninitialised INT value''
   | _ \<Rightarrow> die (''internal: INT expected, got tag '' @ nat_dec (tag_of v)))"

text \<open>\<open>of_i64\<close> is the conversion of an integer to \<open>double\<close>.\<close>

definition as_real :: "(64 word \<Rightarrow> u64) \<Rightarrow> a68_val \<Rightarrow> u64 rt" where
  "as_real of_i64 v = (case v of
     VReal r \<Rightarrow> ret r
   | VInt i \<Rightarrow> ret (of_i64 i)
   | VUndef \<Rightarrow> die ''attempt to use an uninitialised REAL value''
   | _ \<Rightarrow> die (''internal: REAL expected, got tag '' @ nat_dec (tag_of v)))"

definition as_bool :: "a68_val \<Rightarrow> bool rt" where
  "as_bool v = (case v of
     VBool b \<Rightarrow> ret b
   | VUndef \<Rightarrow> die ''attempt to use an uninitialised BOOL value''
   | _ \<Rightarrow> die ''internal: BOOL expected'')"

definition as_char :: "a68_val \<Rightarrow> u32 rt" where
  "as_char v = (case v of
     VChar c \<Rightarrow> ret c
   | VUndef \<Rightarrow> die ''attempt to use an uninitialised CHAR value''
   | _ \<Rightarrow> die ''internal: CHAR expected'')"

definition as_bits :: "a68_val \<Rightarrow> u64 rt" where
  "as_bits v = (case v of
     VBits b \<Rightarrow> ret b
   | VUndef \<Rightarrow> die ''attempt to use an uninitialised BITS value''
   | _ \<Rightarrow> die ''internal: BITS expected'')"

definition rt_cell_int :: "u32 \<Rightarrow> u32 \<Rightarrow> (64 word) rt" where "rt_cell_int d s = bnd (cell_val d s) as_int"
definition rt_cell_real :: "(64 word \<Rightarrow> u64) \<Rightarrow> u32 \<Rightarrow> u32 \<Rightarrow> u64 rt" where
  "rt_cell_real of_i64 d s = bnd (cell_val d s) (as_real of_i64)"
definition rt_cell_bool :: "u32 \<Rightarrow> u32 \<Rightarrow> bool rt" where "rt_cell_bool d s = bnd (cell_val d s) as_bool"
definition rt_cell_char :: "u32 \<Rightarrow> u32 \<Rightarrow> u32 rt" where "rt_cell_char d s = bnd (cell_val d s) as_char"
definition rt_cell_bits :: "u32 \<Rightarrow> u32 \<Rightarrow> u64 rt" where "rt_cell_bits d s = bnd (cell_val d s) as_bits"

definition rt_pop_int :: "(64 word) rt" where "rt_pop_int = bnd pop as_int"
definition rt_pop_real :: "(64 word \<Rightarrow> u64) \<Rightarrow> u64 rt" where "rt_pop_real of_i64 = bnd pop (as_real of_i64)"
definition rt_pop_bool :: "bool rt" where "rt_pop_bool = bnd pop as_bool"
definition rt_pop_char :: "u32 rt" where "rt_pop_char = bnd pop as_char"
definition rt_pop_bits :: "u64 rt" where "rt_pop_bits = bnd pop as_bits"

definition rt_cell_isnil :: "u32 \<Rightarrow> u32 \<Rightarrow> bool rt" where
  "rt_cell_isnil d s = bnd (cell_val d s) (\<lambda>c. case c of
     VNil \<Rightarrow> ret True | VUndef \<Rightarrow> die ''attempt to use an uninitialised value'' | _ \<Rightarrow> ret False)"

definition rt_cell_cproc :: "u32 \<Rightarrow> u32 \<Rightarrow> u32 rt" where
  "rt_cell_cproc d s = bnd (cell_val d s) (\<lambda>c. case c of
     VCproc _ aux \<Rightarrow> ret (and aux 0xffffff + 1) | _ \<Rightarrow> ret 0)"

end
