(* ===== verification/RtSlice.thy ===== *)
theory RtSlice
  imports RtEnv
begin

text \<open>
  \<open>csrc/rt.c\<close>, the entry points on rows, structures and names that compiled code calls:
  subscripts, slices and trims, new rows, displays, selections, generators, assignment and the
  coercions. What the code calls in other modules is a parameter: \<open>of_i64\<close> (the conversion to
  \<open>double\<close>), \<open>concat_op\<close> (\<open>ops_row_concat\<close>), \<open>dispatch\<close> (the compiled program's procedures) and
  \<open>builtin\<close> (the prelude's).
\<close>

section \<open>Subscripts\<close>

definition index_error :: "int \<Rightarrow> int \<Rightarrow> int \<Rightarrow> c_error" where
  "index_error i l u = Die (''index '' @ int_dec i @ '' out of bounds ['' @ int_dec l @ '':'' @ int_dec u @ '']'')"

text \<open>The store index of \<open>a[i]\<close> or \<open>a[i, j]\<close>; at a rank of 0 the code reads a dimension that is not there.\<close>

definition elem_index :: "a68_rowd \<Rightarrow> nat \<Rightarrow> int \<Rightarrow> int \<Rightarrow> int res" where
  "elem_index r rank i j =
     (if length (r_dim r) \<noteq> rank then Inl (Die ''internal: wrong number of subscripts'')
      else case r_dim r of
        [] \<Rightarrow> Inl UB
      | d0 # ds \<Rightarrow>
          if i < d_l d0 \<or> i > d_u d0 then Inl (index_error i (d_l d0) (d_u d0))
          else (let idx = r_off r + (i - d_l d0) * d_stride d0 in
            if rank = 2 then
              (case ds of [] \<Rightarrow> Inl UB
               | d1 # _ \<Rightarrow> if j < d_l d1 \<or> j > d_u d1 then Inl (index_error j (d_l d1) (d_u d1))
                           else Inr (idx + (j - d_l d1) * d_stride d1))
            else Inr idx))"

text \<open>The row a cell holds, or the one the name in the cell refers to.\<close>

definition cell_rowd :: "nat \<times> nat \<Rightarrow> nat rt" where
  "cell_rowd sl = bnd (slot_read sl) (\<lambda>c. case c of
     VRow p \<Rightarrow> ret p
   | VRef p aux \<Rightarrow> bnd (ref_rowd p aux) (\<lambda>q. case q of Some r \<Rightarrow> ret r | None \<Rightarrow> die ''internal: row expected'')
   | VUndef \<Rightarrow> die ''attempt to use an uninitialised value''
   | VNil \<Rightarrow> die ''attempt to dereference NIL''
   | _ \<Rightarrow> die ''internal: row expected'')"

definition row_elem :: "u32 \<Rightarrow> u32 \<Rightarrow> nat \<Rightarrow> 64 word \<Rightarrow> 64 word \<Rightarrow> a68_val rt" where
  "row_elem d s rank i j = bnd (cell_of d s) (\<lambda>sl. bnd (cell_rowd sl) (\<lambda>p. bnd (get_rowd p) (\<lambda>r.
     bnd (lift_res (elem_index r rank (sint i) (sint j))) (rowd_get r))))"

definition row_set_elem :: "u32 \<Rightarrow> u32 \<Rightarrow> nat \<Rightarrow> 64 word \<Rightarrow> 64 word \<Rightarrow> a68_val \<Rightarrow> unit rt" where
  "row_set_elem d s rank i j v = bnd (cell_of d s) (\<lambda>sl. bnd (cell_rowd sl) (\<lambda>p. bnd (get_rowd p) (\<lambda>r.
     bnd (lift_res (elem_index r rank (sint i) (sint j))) (\<lambda>idx. store_ref (VRef p (word_of_int idx)) v))))"

definition rt_row_int :: "u32 \<Rightarrow> u32 \<Rightarrow> nat \<Rightarrow> 64 word \<Rightarrow> 64 word \<Rightarrow> (64 word) rt" where
  "rt_row_int d s rank i j = bnd (row_elem d s rank i j) as_int"
definition rt_row_bool :: "u32 \<Rightarrow> u32 \<Rightarrow> nat \<Rightarrow> 64 word \<Rightarrow> 64 word \<Rightarrow> bool rt" where
  "rt_row_bool d s rank i j = bnd (row_elem d s rank i j) as_bool"
definition rt_row_char :: "u32 \<Rightarrow> u32 \<Rightarrow> nat \<Rightarrow> 64 word \<Rightarrow> 64 word \<Rightarrow> u32 rt" where
  "rt_row_char d s rank i j = bnd (row_elem d s rank i j) as_char"
definition rt_row_bits :: "u32 \<Rightarrow> u32 \<Rightarrow> nat \<Rightarrow> 64 word \<Rightarrow> 64 word \<Rightarrow> u64 rt" where
  "rt_row_bits d s rank i j = bnd (row_elem d s rank i j) as_bits"
definition rt_row_real :: "(64 word \<Rightarrow> u64) \<Rightarrow> u32 \<Rightarrow> u32 \<Rightarrow> nat \<Rightarrow> 64 word \<Rightarrow> 64 word \<Rightarrow> u64 rt" where
  "rt_row_real of_i64 d s rank i j = bnd (row_elem d s rank i j) (as_real of_i64)"

definition rt_set_row_int :: "u32 \<Rightarrow> u32 \<Rightarrow> nat \<Rightarrow> 64 word \<Rightarrow> 64 word \<Rightarrow> 64 word \<Rightarrow> unit rt" where
  "rt_set_row_int d s rank i j v = row_set_elem d s rank i j (VInt v)"
definition rt_set_row_real :: "u32 \<Rightarrow> u32 \<Rightarrow> nat \<Rightarrow> 64 word \<Rightarrow> 64 word \<Rightarrow> u64 \<Rightarrow> unit rt" where
  "rt_set_row_real d s rank i j v = row_set_elem d s rank i j (VReal v)"
definition rt_set_row_bool :: "u32 \<Rightarrow> u32 \<Rightarrow> nat \<Rightarrow> 64 word \<Rightarrow> 64 word \<Rightarrow> u8 \<Rightarrow> unit rt" where
  "rt_set_row_bool d s rank i j v = row_set_elem d s rank i j (VBool (v \<noteq> 0))"
definition rt_set_row_char :: "u32 \<Rightarrow> u32 \<Rightarrow> nat \<Rightarrow> 64 word \<Rightarrow> 64 word \<Rightarrow> u32 \<Rightarrow> unit rt" where
  "rt_set_row_char d s rank i j v = row_set_elem d s rank i j (VChar v)"
definition rt_set_row_bits :: "u32 \<Rightarrow> u32 \<Rightarrow> nat \<Rightarrow> 64 word \<Rightarrow> 64 word \<Rightarrow> u64 \<Rightarrow> unit rt" where
  "rt_set_row_bits d s rank i j v = row_set_elem d s rank i j (VBits v)"

definition rt_index_error :: "64 word \<Rightarrow> 64 word \<Rightarrow> 64 word \<Rightarrow> unit rt" where
  "rt_index_error i l u = stop (index_error (sint i) (sint l) (sint u))"

section \<open>Slices\<close>

datatype indexer = Index int | Trim "int option" "int option" "int option"

definition trim_lo :: "int option \<Rightarrow> a68_dim \<Rightarrow> int" where
  "trim_lo lo d = (case lo of Some x \<Rightarrow> x | None \<Rightarrow> d_l d)"
definition trim_hi :: "int option \<Rightarrow> a68_dim \<Rightarrow> int" where
  "trim_hi hi d = (case hi of Some x \<Rightarrow> x | None \<Rightarrow> d_u d)"

definition trim_outside :: "int \<Rightarrow> int \<Rightarrow> a68_dim \<Rightarrow> bool" where
  "trim_outside lo hi d \<longleftrightarrow> (lo < d_l d \<or> hi > d_u d) \<and> \<not> hi < lo"

definition trim_error :: "int \<Rightarrow> int \<Rightarrow> a68_dim \<Rightarrow> c_error" where
  "trim_error lo hi d = Die (''trim ['' @ int_dec lo @ '':'' @ int_dec hi @ ''] out of bounds [''
     @ int_dec (d_l d) @ '':'' @ int_dec (d_u d) @ '']'')"

text \<open>
  The loop of \<open>slice_into\<close> over the dimensions: the offset and the trimmed dimensions. Its own
  message for a trim out of bounds asks \<open>dief\<close> for a fourth number that it does not have.
\<close>

fun slice_dims :: "(a68_dim \<times> indexer) list \<Rightarrow> int \<Rightarrow> (int \<times> a68_dim list) res" where
  "slice_dims [] off = Inr (off, [])"
| "slice_dims ((d, Index i) # rest) off =
     (if i < d_l d \<or> i > d_u d then Inl (index_error i (d_l d) (d_u d))
      else slice_dims rest (off + (i - d_l d) * d_stride d))"
| "slice_dims ((d, Trim lo hi at') # rest) off =
     (let l = trim_lo lo d; h = trim_hi hi d in
      if trim_outside l h d then Inl UB
      else bindE (slice_dims rest (off + (l - d_l d) * d_stride d)) (\<lambda>(off', ds).
        let nl = (case at' of Some a \<Rightarrow> a | None \<Rightarrow> 1)
        in Inr (off', \<lparr>d_l = nl, d_u = nl + (h - l), d_stride = d_stride d\<rparr> # ds)))"

definition is_trim :: "indexer \<Rightarrow> bool" where
  "is_trim ix = (case ix of Trim _ _ _ \<Rightarrow> True | _ \<Rightarrow> False)"

definition slice_into :: "nat \<Rightarrow> bool \<Rightarrow> indexer list \<Rightarrow> a68_val rt" where
  "slice_into p is_name ixs = bnd (get_rowd p) (\<lambda>r.
     if length ixs \<noteq> length (r_dim r) then die ''internal: wrong number of subscripts''
     else if list_ex is_trim ixs then
       bnd (rowd_alloc (length (filter is_trim ixs))) (\<lambda>nr.
       bnd (lift_res (slice_dims (zip (r_dim r) ixs) (r_off r))) (\<lambda>(off, ds).
       if is_name then bnd (rowd_owner p) (\<lambda>ow.
         bnd (set_body nr (Rowd \<lparr>r_base = ow, r_off = off, r_field = r_field r, r_borrow = False, r_dim = ds\<rparr>)) (\<lambda>_.
         ret (VRef nr VIEW_OFF)))
       else bnd (rowd_store r) (\<lambda>st. bnd (set_rc st (\<lambda>c. c + 1)) (\<lambda>_.
         bnd (set_body nr (Rowd \<lparr>r_base = st, r_off = off, r_field = r_field r, r_borrow = False, r_dim = ds\<rparr>)) (\<lambda>_.
         ret (VRow nr))))))
     else bnd (lift_res (slice_dims (zip (r_dim r) ixs) (r_off r))) (\<lambda>(off, _).
       if is_name then ret (VRef p (word_of_int off)) else bnd (rowd_get r off) copy_value))"

text \<open>
  The check \<open>a68rt_slice\<close> makes before: every trim against its bounds, with the index checks
  of the earlier dimensions first. \<open>seen\<close> are the indexers already passed; an indexer beyond
  the dimensions of the row reads past the descriptor.
\<close>

fun check_indices :: "(a68_dim \<times> indexer) list \<Rightarrow> unit res" where
  "check_indices [] = Inr ()"
| "check_indices ((d, Index i) # rest) =
     (if i < d_l d \<or> i > d_u d then Inl (index_error i (d_l d) (d_u d)) else check_indices rest)"
| "check_indices (_ # rest) = check_indices rest"

fun check_trims :: "(a68_dim \<times> indexer) list \<Rightarrow> a68_dim list \<Rightarrow> indexer list \<Rightarrow> unit res" where
  "check_trims seen ds [] = Inr ()"
| "check_trims seen ds (Index i # ixs) =
     (case ds of [] \<Rightarrow> check_trims seen [] ixs | d # ds' \<Rightarrow> check_trims (seen @ [(d, Index i)]) ds' ixs)"
| "check_trims seen ds (Trim lo hi at' # ixs) =
     (case ds of [] \<Rightarrow> Inl UB
      | d # ds' \<Rightarrow>
          if trim_outside (trim_lo lo d) (trim_hi hi d) d
          then bindE (check_indices seen) (\<lambda>_. Inl (trim_error (trim_lo lo d) (trim_hi hi d) d))
          else check_trims (seen @ [(d, Trim lo hi at')]) ds' ixs)"

text \<open>The four bits that describe indexer \<open>i\<close>; shifting by 64 or more is undefined.\<close>

definition kind_bits :: "u64 \<Rightarrow> nat \<Rightarrow> nat res" where
  "kind_bits kinds i = (if 4 * i \<ge> 64 then Inl UB else Inr (unat (and (drop_bit (4 * i) kinds) 15)))"

fun kinds_list :: "u64 \<Rightarrow> nat list \<Rightarrow> nat list res" where
  "kinds_list kinds [] = Inr []"
| "kinds_list kinds (i # is) = bindE (kind_bits kinds i) (\<lambda>k. bindE (kinds_list kinds is) (\<lambda>ks. Inr (k # ks)))"

definition kind_values :: "nat \<Rightarrow> nat" where
  "kind_values k = (if even k then 1
     else (if odd (k div 2) then 1 else 0) + (if odd (k div 4) then 1 else 0) + (if odd (k div 8) then 1 else 0))"

text \<open>One optional value of a trim.\<close>

definition take_value :: "bool \<Rightarrow> a68_val list \<Rightarrow> (int option \<times> a68_val list) rt" where
  "take_value present vs = (if \<not> present then ret (None, vs)
     else case vs of [] \<Rightarrow> stop UB | v # vs' \<Rightarrow> bnd (as_int v) (\<lambda>i. ret (Some (sint i), vs')))"

fun read_indexers :: "nat list \<Rightarrow> a68_val list \<Rightarrow> indexer list rt" where
  "read_indexers [] vs = ret []"
| "read_indexers (k # ks) vs =
     (if even k then (case vs of [] \<Rightarrow> stop UB | v # vs' \<Rightarrow> bnd (as_int v) (\<lambda>i.
        bnd (read_indexers ks vs') (\<lambda>ixs. ret (Index (sint i) # ixs))))
      else bnd (take_value (odd (k div 2)) vs) (\<lambda>(lo, vs1). bnd (take_value (odd (k div 4)) vs1) (\<lambda>(hi, vs2).
        bnd (take_value (odd (k div 8)) vs2) (\<lambda>(at', vs3).
        bnd (read_indexers ks vs3) (\<lambda>ixs. ret (Trim lo hi at' # ixs))))))"

definition slice_checked :: "nat \<Rightarrow> bool \<Rightarrow> indexer list \<Rightarrow> a68_val rt" where
  "slice_checked p is_name ixs = bnd (get_rowd p) (\<lambda>r.
     bnd (lift_res (check_trims [] (r_dim r) ixs)) (\<lambda>_. slice_into p is_name ixs))"

definition rt_slice :: "nat \<Rightarrow> u64 \<Rightarrow> bool \<Rightarrow> unit rt" where
  "rt_slice nidx kinds via_ref = bnd GC_POLL (\<lambda>_.
     if nidx > 64 then die ''internal: too many subscripts''
     else bnd (lift_res (kinds_list kinds [0..<nidx])) (\<lambda>ks.
       let nvals = sum_list (map kind_values ks) in
       bnd (get stack) (\<lambda>st. if length st < nvals + 1 then underflow else
       bnd (top_n nvals) (\<lambda>vals. bnd (read_indexers ks vals) (\<lambda>ixs. bnd (drop_stack nvals) (\<lambda>_.
       bnd pop (\<lambda>base.
       bnd (if via_ref then (case base of
              VNil \<Rightarrow> die ''attempt to dereference NIL''
            | VUndef \<Rightarrow> die ''attempt to use an uninitialised REF value''
            | VRef p aux \<Rightarrow> bnd (ref_rowd p aux) (\<lambda>q. case q of
                Some r \<Rightarrow> slice_checked r True ixs
              | None \<Rightarrow> bnd (ref_slot p aux) (\<lambda>sl. bnd (slot_read sl) (\<lambda>t.
                  if t = VUndef then die ''attempt to use an uninitialised value'' else die ''internal: row expected'')))
            | _ \<Rightarrow> die ''internal: slice via non-REF'')
          else (case base of
              VUndef \<Rightarrow> die ''attempt to use an uninitialised value''
            | VRow p \<Rightarrow> slice_checked p False ixs
            | _ \<Rightarrow> die ''internal: slice of non-row'')) push)))))))"

section \<open>New rows and displays\<close>

fun read_bounds :: "nat \<Rightarrow> a68_val list \<Rightarrow> a68_dim list rt" where
  "read_bounds 0 vs = ret []"
| "read_bounds (Suc n) vs = (case vs of
     l # u # vs' \<Rightarrow> (case (l, u) of
        (VInt l', VInt u') \<Rightarrow> bnd (read_bounds n vs') (\<lambda>ds.
          ret (\<lparr>d_l = sint l', d_u = sint u', d_stride = 0\<rparr> # ds))
      | _ \<Rightarrow> die ''internal: row bounds must be INT'')
   | _ \<Rightarrow> stop UB)"

definition rt_new_row_of :: "nat \<Rightarrow> ekind option \<Rightarrow> unit rt" where
  "rt_new_row_of ndims ek = bnd GC_POLL (\<lambda>_. bnd (get stack) (\<lambda>stk.
     if length stk < 2 * ndims + 1 then underflow else
     bnd (rowd_alloc ndims) (\<lambda>d. bnd (top_n (2 * ndims)) (\<lambda>bounds. bnd (read_bounds ndims bounds) (\<lambda>ds0.
     bnd (drop_stack (2 * ndims)) (\<lambda>_. bnd pop (\<lambda>init.
     let ds = canon_dims ds0; n = count_loop ds 1; sn = nat (u32_of_int n) in
     bnd (case (init, ek) of
            (VUndef, Some k) \<Rightarrow> leaf_alloc k sn
          | _ \<Rightarrow> bnd (store_alloc_for sn init) (\<lambda>st. bnd (get_body st) (\<lambda>b.
              bnd (if is_leaf b then each (upto_int n) (\<lambda>i. store_set st i init)
                   else each [0..<nat n] (\<lambda>i. bnd (copy_value init) (\<lambda>v. bnd (unborrow v) (slot_write (st, i)))))
                (\<lambda>_. ret st)))) (\<lambda>st.
     bnd (set_rc st (\<lambda>_. 1)) (\<lambda>_.
     bnd (set_body d (Rowd \<lparr>r_base = st, r_off = 0, r_field = 0, r_borrow = False, r_dim = ds\<rparr>)) (\<lambda>_.
     push (VRow d)))))))))))"

definition rt_new_row :: "nat \<Rightarrow> unit rt" where
  "rt_new_row ndims = rt_new_row_of ndims None"

definition struct_display :: "a68_val list \<Rightarrow> a68_val rt" where
  "struct_display vs = bnd (slots_alloc (length vs)) (\<lambda>c.
     bnd (each (zip [0..<length vs] vs) (\<lambda>(i, v). bnd (unborrow v) (slot_write (c, i)))) (\<lambda>_. ret (VStruct c)))"

text \<open>The leaf condition of a one-dimensional display: one tag, characters below 256.\<close>

definition display_leaf_ok :: "a68_val list \<Rightarrow> bool" where
  "display_leaf_ok vs \<longleftrightarrow> vs \<noteq> [] \<and> list_all (\<lambda>v. tag_of v = tag_of (hd vs) \<and>
     (case v of VChar c \<Rightarrow> c < 256 | _ \<Rightarrow> True)) vs"

definition row_display :: "a68_val list \<Rightarrow> a68_val rt" where
  "row_display vs = bnd (rowd_alloc 1) (\<lambda>d.
     bnd (if display_leaf_ok vs then store_alloc_for (length vs) (hd vs) else slots_alloc (length vs)) (\<lambda>st.
     bnd (each (zip (upto_int (int (length vs))) vs) (\<lambda>(i, v). store_set st i v)) (\<lambda>_.
     bnd (set_rc st (\<lambda>_. 1)) (\<lambda>_.
     bnd (set_body d (Rowd \<lparr>r_base = st, r_off = 0, r_field = 0, r_borrow = False,
       r_dim = [\<lparr>d_l = 1, d_u = int (length vs), d_stride = 1\<rparr>]\<rparr>)) (\<lambda>_. ret (VRow d))))))"

definition empty_display :: "nat \<Rightarrow> a68_val rt" where
  "empty_display dims = bnd (rowd_alloc dims) (\<lambda>d. bnd (slots_alloc 0) (\<lambda>st. bnd (set_rc st (\<lambda>_. 1)) (\<lambda>_.
     bnd (set_body d (Rowd \<lparr>r_base = st, r_off = 0, r_field = 0, r_borrow = False,
       r_dim = replicate dims \<lparr>d_l = 1, d_u = 0, d_stride = 1\<rparr>\<rparr>)) (\<lambda>_. ret (VRow d)))))"

definition row_operand :: "a68_val \<Rightarrow> a68_rowd rt" where
  "row_operand v = (case v of VRow p \<Rightarrow> get_rowd p | _ \<Rightarrow> die ''internal: row display'')"

definition operand_store :: "a68_rowd \<Rightarrow> obj_body rt" where
  "operand_store r = bnd (rowd_store r) get_body"

text \<open>A display of rows with equal bounds: one more dimension, the rows one after the other.\<close>

definition rows_display :: "a68_val list \<Rightarrow> a68_val rt" where
  "rows_display vs = bnd (row_operand (hd vs)) (\<lambda>first.
     bnd (each vs (\<lambda>v. bnd (row_operand v) (\<lambda>r.
       if same_bounds first r then ret () else die ''bounds of row display elements differ''))) (\<lambda>_.
     bnd (rowd_alloc (length (r_dim first) + 1)) (\<lambda>d.
     bnd (collect_run vs (\<lambda>v. bnd (row_operand v) operand_store)) (\<lambda>stores.
     let n = length vs; per = row_count first;
         ds = canon_dims (\<lparr>d_l = 1, d_u = int n, d_stride = 0\<rparr> # r_dim first);
         total = nat (u32_of_int (per * int n))
     in bnd (case hd stores of
              Leaf k _ _ \<Rightarrow> if list_all (\<lambda>b. same_leaf_kind b (hd stores)) stores then leaf_alloc k total
                            else slots_alloc total
            | _ \<Rightarrow> slots_alloc total) (\<lambda>st.
        bnd (each (zip (upto_int (int n)) vs) (\<lambda>(i, v). bnd (row_operand v) (\<lambda>r.
          each (upto_int per) (\<lambda>j. bnd (rowd_get_flat r j) (store_set st (i * per + j)))))) (\<lambda>_.
        bnd (set_rc st (\<lambda>_. 1)) (\<lambda>_.
        bnd (set_body d (Rowd \<lparr>r_base = st, r_off = 0, r_field = 0, r_borrow = False, r_dim = ds\<rparr>)) (\<lambda>_.
        ret (VRow d)))))))))"

definition rt_collateral :: "nat \<Rightarrow> bool \<Rightarrow> nat \<Rightarrow> unit rt" where
  "rt_collateral n is_struct dims = bnd GC_POLL (\<lambda>_. bnd (top_n n) (\<lambda>vs.
     bnd (if is_struct then struct_display vs
          else if dims \<le> 1 then row_display vs
          else if n = 0 then empty_display dims
          else rows_display vs) (\<lambda>v. bnd (drop_stack n) (\<lambda>_. push v))))"

section \<open>Selections\<close>

definition row_field_select :: "nat \<Rightarrow> nat \<Rightarrow> a68_val rt" where
  "row_field_select p idx = bnd (get_rowd p) (\<lambda>r. bnd (rowd_alloc (length (r_dim r))) (\<lambda>d.
     bnd (slots_alloc (nat (u32_of_int (row_count r)))) (\<lambda>st.
     bnd (each (upto_int (row_count r)) (\<lambda>i. bnd (rowd_get_flat r i) (\<lambda>e. case e of
       VStruct q \<Rightarrow> bnd (slot_read (q, idx)) (\<lambda>f. bnd (copy_value f) (\<lambda>v. bnd (unborrow v) (slot_write (st, nat i))))
     | _ \<Rightarrow> die ''internal: field selection on non-struct element''))) (\<lambda>_.
     bnd (set_rc st (\<lambda>_. 1)) (\<lambda>_.
     bnd (set_body d (Rowd \<lparr>r_base = st, r_off = 0, r_field = 0, r_borrow = False,
       r_dim = canon_dims (r_dim r)\<rparr>)) (\<lambda>_. ret (VRow d)))))))"

definition spec_rank :: "u32 \<Rightarrow> nat" where "spec_rank spec = unat (and spec 3)"
definition spec_fields :: "u32 \<Rightarrow> nat" where "spec_fields spec = unat (and (drop_bit 8 spec) 15)"

text \<open>\<open>(flds >> (8 * k)) & 255\<close> for the fields that follow; a shift by 32 or more is undefined.\<close>

definition field_index :: "u32 \<Rightarrow> nat \<Rightarrow> nat res" where
  "field_index flds k = (if 8 * k \<ge> 32 then Inl UB else Inr (unat (and (drop_bit (8 * k) flds) 255)))"

fun select_fields :: "u32 \<Rightarrow> nat list \<Rightarrow> a68_val \<Rightarrow> a68_val rt" where
  "select_fields flds [] v = ret v"
| "select_fields flds (k # ks) v = bnd (lift_res (field_index flds k)) (\<lambda>f.
     bnd (case v of
            VRow p \<Rightarrow> row_field_select p f
          | VStruct p \<Rightarrow> bnd (get_slots p) (\<lambda>fs.
              if f \<ge> length fs then die ''internal: field index out of range'' else ret (fs ! f))
          | _ \<Rightarrow> die ''internal: field selection on non-struct'') (select_fields flds ks))"

definition sel_read :: "u32 \<Rightarrow> u32 \<Rightarrow> u32 \<Rightarrow> 64 word \<Rightarrow> 64 word \<Rightarrow> u32 \<Rightarrow> a68_val rt" where
  "sel_read d s spec i j flds = bnd (cell_val d s) (\<lambda>v0.
     bnd (if and spec 4 \<noteq> 0 then
            (if v0 = VUndef then die ''attempt to use an uninitialised value''
             else if v0 = VNil then die ''attempt to select from NIL'' else deref v0)
          else ret v0) (\<lambda>v1.
     bnd (if spec_rank spec \<noteq> 0 then (case v1 of
            VRow p \<Rightarrow> bnd (get_rowd p) (\<lambda>r.
              bnd (lift_res (elem_index r (spec_rank spec) (sint i) (sint j))) (rowd_get r))
          | _ \<Rightarrow> die ''internal: row expected'')
          else ret v1) (select_fields flds [0..<spec_fields spec])))"

fun ref_fields :: "u32 \<Rightarrow> nat list \<Rightarrow> a68_val \<Rightarrow> a68_val rt" where
  "ref_fields flds [] r = ret r"
| "ref_fields flds (k # ks) r = bnd (lift_res (field_index flds k)) (\<lambda>f. bnd (ref_field r f) (ref_fields flds ks))"

definition sel_ref :: "u32 \<Rightarrow> u32 \<Rightarrow> u32 \<Rightarrow> 64 word \<Rightarrow> 64 word \<Rightarrow> u32 \<Rightarrow> a68_val rt" where
  "sel_ref d s spec i j flds =
     bnd (if and spec 4 \<noteq> 0 then bnd (cell_val d s) (\<lambda>v.
            if v = VUndef then die ''attempt to use an uninitialised value''
            else if v = VNil then die ''attempt to select from NIL'' else ret v)
          else bnd (get env) (\<lambda>e. bnd (frame_out (unat d) e) (\<lambda>f. ret (VRef f (s * 16))))) (\<lambda>r.
     bnd (if spec_rank spec \<noteq> 0 then (case r of
            VRef p aux \<Rightarrow> bnd (ref_rowd p aux) (\<lambda>q. case q of
              None \<Rightarrow> die ''internal: row expected''
            | Some rw \<Rightarrow> bnd (get_rowd rw) (\<lambda>rd.
                bnd (lift_res (elem_index rd (spec_rank spec) (sint i) (sint j))) (\<lambda>idx.
                ret (VRef rw (word_of_int idx)))))
          | _ \<Rightarrow> stop UB)
          else ret r) (ref_fields flds [0..<spec_fields spec]))"

definition defined_or_die :: "a68_val \<Rightarrow> unit rt" where
  "defined_or_die v = (if v = VUndef then die ''attempt to use an uninitialised value'' else ret ())"

definition rt_sel_push :: "u32 \<Rightarrow> u32 \<Rightarrow> u32 \<Rightarrow> 64 word \<Rightarrow> 64 word \<Rightarrow> u32 \<Rightarrow> unit rt" where
  "rt_sel_push d s spec i j f = bnd GC_POLL (\<lambda>_. bnd (sel_read d s spec i j f) (\<lambda>v.
     bnd (defined_or_die v) (\<lambda>_. bnd (copy_value v) push)))"

definition rt_sel_store :: "u32 \<Rightarrow> u32 \<Rightarrow> u32 \<Rightarrow> u32 \<Rightarrow> u32 \<Rightarrow> 64 word \<Rightarrow> 64 word \<Rightarrow> u32 \<Rightarrow> unit rt" where
  "rt_sel_store dd ds d s spec i j f = bnd GC_POLL (\<lambda>_. bnd (sel_read d s spec i j f) (\<lambda>v.
     bnd (defined_or_die v) (\<lambda>_. bnd (cell_of dd ds) (\<lambda>c. bnd (copy_value v) (slot_put c)))))"

definition rt_sel_int :: "u32 \<Rightarrow> u32 \<Rightarrow> u32 \<Rightarrow> 64 word \<Rightarrow> 64 word \<Rightarrow> u32 \<Rightarrow> (64 word) rt" where
  "rt_sel_int d s spec i j f = bnd (sel_read d s spec i j f) as_int"

definition rt_sel_real :: "(64 word \<Rightarrow> u64) \<Rightarrow> u32 \<Rightarrow> u32 \<Rightarrow> u32 \<Rightarrow> 64 word \<Rightarrow> 64 word \<Rightarrow> u32 \<Rightarrow> u64 rt" where
  "rt_sel_real of_i64 d s spec i j f = bnd (sel_read d s spec i j f) (as_real of_i64)"
definition rt_sel_bool :: "u32 \<Rightarrow> u32 \<Rightarrow> u32 \<Rightarrow> 64 word \<Rightarrow> 64 word \<Rightarrow> u32 \<Rightarrow> bool rt" where
  "rt_sel_bool d s spec i j f = bnd (sel_read d s spec i j f) as_bool"
definition rt_sel_char :: "u32 \<Rightarrow> u32 \<Rightarrow> u32 \<Rightarrow> 64 word \<Rightarrow> 64 word \<Rightarrow> u32 \<Rightarrow> u32 rt" where
  "rt_sel_char d s spec i j f = bnd (sel_read d s spec i j f) as_char"
definition rt_sel_bits :: "u32 \<Rightarrow> u32 \<Rightarrow> u32 \<Rightarrow> 64 word \<Rightarrow> 64 word \<Rightarrow> u32 \<Rightarrow> u64 rt" where
  "rt_sel_bits d s spec i j f = bnd (sel_read d s spec i j f) as_bits"

text \<open>The five \<open>a68rt_set_sel_*\<close>; \<open>v\<close> is the value \<open>mk_int\<close>, \<open>mk_real\<close>, ... make.\<close>

definition rt_set_sel :: "u32 \<Rightarrow> u32 \<Rightarrow> u32 \<Rightarrow> 64 word \<Rightarrow> 64 word \<Rightarrow> u32 \<Rightarrow> a68_val \<Rightarrow> unit rt" where
  "rt_set_sel d s spec i j f v = bnd (sel_ref d s spec i j f) (\<lambda>r. store_ref r v)"

definition rt_select :: "nat \<Rightarrow> bool \<Rightarrow> unit rt" where
  "rt_select idx via_ref = bnd GC_POLL (\<lambda>_. bnd pop (\<lambda>v.
     if via_ref then bnd (ref_field v idx) push
     else (case v of
       VStruct p \<Rightarrow> bnd (get_slots p) (\<lambda>fs.
         if idx \<ge> length fs then die ''internal: field index out of range'' else bnd (copy_value (fs ! idx)) push)
     | VRow p \<Rightarrow> bnd (row_field_select p idx) push
     | _ \<Rightarrow> die ''internal: select from non-struct'')))"

section \<open>Appending to a row variable\<close>

definition append_fallback :: "(a68_val \<Rightarrow> a68_val \<Rightarrow> a68_val rt) \<Rightarrow> u32 \<Rightarrow> u32 \<Rightarrow> a68_val \<Rightarrow> unit rt" where
  "append_fallback concat_op d s v = bnd (get env) (\<lambda>e. bnd (frame_out (unat d) e) (\<lambda>f.
     if f = 0 then die ''internal: frame depth out of range''
     else bnd (cell_val d s) (\<lambda>cur. bnd (defined_or_die cur) (\<lambda>_.
       bnd (concat_op cur v) (store_ref (VRef f (s * 16)))))))"

definition rt_append_char :: "(a68_val \<Rightarrow> a68_val \<Rightarrow> a68_val rt) \<Rightarrow> u32 \<Rightarrow> u32 \<Rightarrow> u32 \<Rightarrow> unit rt" where
  "rt_append_char concat_op d s ch = bnd GC_POLL (\<lambda>_. bnd (cell_of d s) (\<lambda>c.
     bnd (append_in_place c [VChar ch]) (\<lambda>ok. if ok then ret () else append_fallback concat_op d s (VChar ch))))"

definition rt_append :: "(a68_val \<Rightarrow> a68_val \<Rightarrow> a68_val rt) \<Rightarrow> u32 \<Rightarrow> u32 \<Rightarrow> unit rt" where
  "rt_append concat_op d s = bnd GC_POLL (\<lambda>_. bnd pop (\<lambda>v. bnd (cell_of d s) (\<lambda>c. case v of
     VRow p \<Rightarrow> bnd (get_rowd p) (\<lambda>src. bnd (collect_run (upto_int (row_count src)) (rowd_get_flat src)) (\<lambda>tmp.
       bnd (append_in_place c tmp) (\<lambda>ok. if ok then ret () else append_fallback concat_op d s v)))
   | _ \<Rightarrow> die ''internal: row expected in append'')))"

section \<open>Assignment, generators and coercions\<close>

text \<open>\<open>default_of\<close> is \<open>ops_default\<close>.\<close>

definition rt_push_skip :: "(nat \<Rightarrow> a68_val rt) \<Rightarrow> nat \<Rightarrow> unit rt" where
  "rt_push_skip default_of m = bnd GC_POLL (\<lambda>_. bnd (default_of m) push)"

definition rt_assign :: "bool \<Rightarrow> unit rt" where
  "rt_assign flex = bnd GC_POLL (\<lambda>_. bnd pop (\<lambda>v. bnd pop (\<lambda>d. bnd (assign_ref d v flex) (\<lambda>_. push d))))"

definition rt_gen :: "unit rt" where
  "rt_gen = bnd GC_POLL (\<lambda>_. bnd pop (\<lambda>v. bnd (slots_alloc 1) (\<lambda>c. bnd (slot_put (c, 0) v) (\<lambda>_. push (VRef c 0)))))"

definition rt_deref :: "unit rt" where
  "rt_deref = bnd GC_POLL (\<lambda>_. bnd pop (\<lambda>r. bnd (deref r) (\<lambda>v. bnd (defined_or_die v) (\<lambda>_. push v))))"

definition rt_row_of :: "unit rt" where
  "rt_row_of = bnd GC_POLL (\<lambda>_. bnd pop (\<lambda>v. case v of
     VRef _ _ \<Rightarrow> push v
   | _ \<Rightarrow> bnd (rowd_alloc 1) (\<lambda>d. bnd (store_alloc_for 1 v) (\<lambda>st. bnd (store_set st 0 v) (\<lambda>_.
       bnd (set_rc st (\<lambda>_. 1)) (\<lambda>_. bnd (set_body d (Rowd \<lparr>r_base = st, r_off = 0, r_field = 0, r_borrow = False,
         r_dim = [\<lparr>d_l = 1, d_u = 1, d_stride = 1\<rparr>]\<rparr>)) (\<lambda>_. push (VRow d))))))))"

definition rt_unite :: "u32 \<Rightarrow> unit rt" where
  "rt_unite m = bnd GC_POLL (\<lambda>_. bnd pop (\<lambda>v. bnd (slots_alloc 1) (\<lambda>c. bnd (unborrow v) (\<lambda>v'.
     bnd (slot_write (c, 0) v') (\<lambda>_. push (VUnion c m))))))"

definition rt_voiding :: "unit rt" where
  "rt_voiding = bnd pop (\<lambda>_. push VVoid)"

definition rt_ident_rel :: "bool \<Rightarrow> unit rt" where
  "rt_ident_rel isnt = bnd pop (\<lambda>b. bnd pop (\<lambda>a.
     let same = (case (a, b) of
         (VRef p x, VRef q y) \<Rightarrow> p = q \<and> x = y
       | (VNil, VNil) \<Rightarrow> True
       | _ \<Rightarrow> False)
     in push (VBool (if isnt then \<not> same else same))))"

definition rt_push_proc :: "u32 \<Rightarrow> u32 \<Rightarrow> unit rt" where
  "rt_push_proc fn np = bnd (get env) (\<lambda>e. push (VCproc e (or fn (push_bit 24 np))))"

definition rt_push_format :: "u32 \<Rightarrow> unit rt" where
  "rt_push_format skel = bnd (get env) (\<lambda>e. push (VFmt e skel))"

definition rt_case_index :: "nat \<Rightarrow> nat rt" where
  "rt_case_index n = bnd pop (\<lambda>v. case v of
     VUndef \<Rightarrow> die ''attempt to use an uninitialised INT value''
   | VInt i \<Rightarrow> ret (if 1 \<le> sint i \<and> sint i \<le> int n then nat (sint i) else 0)
   | _ \<Rightarrow> stop (Fatal ''uncaught exception: INT expected in CASE''))"

section \<open>Calls\<close>

definition call_value :: "(nat \<Rightarrow> unit rt) \<Rightarrow> (u32 \<Rightarrow> nat \<Rightarrow> a68_val rt) \<Rightarrow> a68_val \<Rightarrow> nat \<Rightarrow> unit rt" where
  "call_value dispatch builtin f nargs = (case f of
     VCproc p aux \<Rightarrow> bnd (env_set p) (\<lambda>_. bnd (get stack) (\<lambda>st0.
       bnd (dispatch (unat (and aux 0xffffff))) (\<lambda>_. bnd env_restore (\<lambda>_. bnd (get jump_flag) (\<lambda>j.
       if j \<noteq> 0 then bnd (modify (\<lambda>s. s\<lparr>stack := drop (length (stack s) - (length st0 - nargs)) (stack s)\<rparr>)) (\<lambda>_. push VUndef)
       else ret ())))))
   | VBuiltin i \<Rightarrow> bnd (get stack) (\<lambda>st0. bnd (builtin i nargs) (\<lambda>res.
       bnd (modify (\<lambda>s. s\<lparr>stack := drop (length (stack s) - (length st0 - nargs)) (stack s)\<rparr>)) (\<lambda>_. push res)))
   | VNil \<Rightarrow> die ''attempt to call NIL''
   | VUndef \<Rightarrow> die ''attempt to call an uninitialised procedure''
   | _ \<Rightarrow> die ''internal: call of a non-procedure'')"

definition rt_deproc :: "(nat \<Rightarrow> unit rt) \<Rightarrow> (u32 \<Rightarrow> nat \<Rightarrow> a68_val rt) \<Rightarrow> unit rt" where
  "rt_deproc dispatch builtin = bnd GC_POLL (\<lambda>_. bnd pop (\<lambda>f. call_value dispatch builtin f 0))"

definition rt_call :: "(nat \<Rightarrow> unit rt) \<Rightarrow> (u32 \<Rightarrow> nat \<Rightarrow> a68_val rt) \<Rightarrow> nat \<Rightarrow> unit rt" where
  "rt_call dispatch builtin nargs = bnd GC_POLL (\<lambda>_. bnd (get stack) (\<lambda>st.
     if length st < nargs + 1 then underflow
     else bnd (modify (\<lambda>s. s\<lparr>stack := take nargs st @ drop (nargs + 1) st\<rparr>)) (\<lambda>_.
       call_value dispatch builtin (st ! nargs) nargs)))"

end
