(* ===== verification/Tables.thy ===== *)
theory Tables
  imports Prelude Digits
begin

text \<open>
  \<open>csrc/tables.h\<close> and \<open>csrc/tables.c\<close>: the tables of modes, format texts, strings and mode
  declarations a compiled program carries, parsed from a blob with one entry per line, and the
  operations on modes (\<open>mode_resolve\<close>, \<open>mode_eqv\<close>, \<open>mode_string\<close>, modes made at run time).

  The growing C arrays are lists. A string index outside the table is a read outside the array
  and gives \<open>UB\<close>. The recursions of the code carry a fuel of their own (32, 64 and 40), kept
  here as it is.
\<close>

section \<open>The tables\<close>

datatype a68_mkind = M_INT | M_REAL | M_BOOL | M_CHAR | M_VOID | M_BITS | M_BYTES | M_COMPL | M_REF | M_ROW
  | M_PROC | M_STRUCT | M_UNION | M_NAMED | M_FORMAT | M_FILE | M_CHANNEL | M_SEMA | M_SIMPLOUT | M_SIMPLIN
  | M_NUMBER | M_BAD

record a68_mode =
  m_k :: a68_mkind
  m_len :: int
  m_sub :: nat
  m_dims :: nat
  m_flex :: bool
  m_n :: nat
  m_strs :: "nat list"
  m_modes :: "nat list"

datatype a68_fkind = F_LIT | F_NL | F_NP | F_SP | F_BS | F_REP | F_DIG | F_SIGN | F_POINT | F_EXP | F_GEN | F_BOOL
  | F_CHOICE | F_CHAR | F_STRINGS | F_GROUP | F_INCL | F_SEP | F_COL | F_RADIX | F_HMARK | F_CPAT
  | F_CWIDTH | F_CAFTER | F_BAD

record a68_fmt =
  f_k :: a68_fkind
  f_str :: nat
  f_str2 :: nat
  f_flag :: bool
  f_rep :: int
  f_dyn :: nat
  f_item :: nat
  f_n :: nat
  f_list :: "nat list"

record a68_core =
  c_hole :: bool
  c_fn :: nat
  c_idx :: nat
  c_lit :: int

record a68_decl =
  dc_name :: nat
  dc_mode :: nat

record a68_tables =
  t_modes :: "a68_mode list"
  t_fmts :: "a68_fmt list"
  t_cores :: "a68_core list"
  t_fmtlists :: "nat list list"
  t_decls :: "a68_decl list"
  t_strs :: "string list"

definition mode0 :: "a68_mkind \<Rightarrow> a68_mode" where
  "mode0 k = \<lparr>m_k = k, m_len = 0, m_sub = 0, m_dims = 0, m_flex = False, m_n = 0, m_strs = [], m_modes = []\<rparr>"
definition fmt0 :: "a68_fkind \<Rightarrow> a68_fmt" where
  "fmt0 k = \<lparr>f_k = k, f_str = 0, f_str2 = 0, f_flag = False, f_rep = 0, f_dyn = 0, f_item = 0, f_n = 0, f_list = []\<rparr>"
definition core0 :: a68_core where "core0 = \<lparr>c_hole = False, c_fn = 0, c_idx = 0, c_lit = 0\<rparr>"

section \<open>Lines and fields\<close>

definition hexval :: "char \<Rightarrow> nat" where
  "hexval c = (let n = of_char c :: nat in
     if 48 \<le> n \<and> n \<le> 57 then n - 48 else if 97 \<le> n \<and> n \<le> 102 then 10 + n - 97 else 0)"

text \<open>\<open>split\<close>: the fields between blanks; the C array holds 600 of them and ignores the rest.\<close>

definition skip_blanks :: "string \<Rightarrow> string" where
  "skip_blanks = dropWhile (\<lambda>c. c = CHR '' '')"

function split_loop :: "string \<Rightarrow> string list" where
  "split_loop s = (case skip_blanks s of [] \<Rightarrow> []
     | c # cs \<Rightarrow> takeWhile (\<lambda>c. c \<noteq> CHR '' '') (c # cs) # split_loop (dropWhile (\<lambda>c. c \<noteq> CHR '' '') (c # cs)))"
  by pat_completeness auto
termination
proof (relation "measure length", goal_cases)
  case (2 s c cs)
  have "c \<noteq> CHR '' ''" using 2 hd_dropWhile [of "\<lambda>c. c = CHR '' ''" s] by (auto simp: skip_blanks_def)
  then have "length (dropWhile (\<lambda>c. c \<noteq> CHR '' '') (c # cs)) < length (c # cs)"
    by (simp add: length_dropWhile_le le_imp_less_Suc)
  also have "length (c # cs) \<le> length s"
    using length_dropWhile_le [of "\<lambda>c. c = CHR '' ''" s] 2 by (simp add: skip_blanks_def)
  finally show ?case by simp
qed simp

declare split_loop.simps [simp del]

definition split_line :: "string \<Rightarrow> string list" where
  "split_line s = take 600 (split_loop s)"

text \<open>\<open>strtoll (..., 10)\<close> on a buffer: blanks, a sign, digits up to the first other character; it saturates.\<close>

definition is_space :: "char \<Rightarrow> bool" where
  "is_space c \<longleftrightarrow> (let n = of_char c :: nat in n = 32 \<or> 9 \<le> n \<and> n \<le> 13)"

definition clamp64 :: "int \<Rightarrow> int" where
  "clamp64 i = max (- (2 ^ 63)) (min (2 ^ 63 - 1) i)"

definition strtoll :: "string \<Rightarrow> int" where
  "strtoll s = (case dropWhile is_space s of
     [] \<Rightarrow> 0
   | c # cs \<Rightarrow> if c = CHR ''-'' then clamp64 (- int (digits_val (takeWhile is_digit cs)))
              else if c = CHR ''+'' then clamp64 (int (digits_val (takeWhile is_digit cs)))
              else clamp64 (int (digits_val (takeWhile is_digit (c # cs)))))"

definition fld :: "string list \<Rightarrow> nat \<Rightarrow> int" where
  "fld fs i = (if i \<ge> length fs then 0 else strtoll (take 31 (fs ! i)))"

definition fld_u32 :: "string list \<Rightarrow> nat \<Rightarrow> nat" where
  "fld_u32 fs i = nat (u32_of_int (fld fs i))"

definition is_field :: "string list \<Rightarrow> nat \<Rightarrow> string \<Rightarrow> bool" where
  "is_field fs i s \<longleftrightarrow> i < length fs \<and> fs ! i = s"

definition ulist :: "string list \<Rightarrow> nat \<Rightarrow> nat \<Rightarrow> nat list" where
  "ulist fs from n = map (\<lambda>k. fld_u32 fs (from + k)) [0..<n]"

definition mkind_of :: "string list \<Rightarrow> a68_mkind" where
  "mkind_of fs =
    (if is_field fs 1 ''int'' then M_INT else if is_field fs 1 ''real'' then M_REAL
     else if is_field fs 1 ''bool'' then M_BOOL else if is_field fs 1 ''char'' then M_CHAR
     else if is_field fs 1 ''void'' then M_VOID else if is_field fs 1 ''bits'' then M_BITS
     else if is_field fs 1 ''bytes'' then M_BYTES else if is_field fs 1 ''compl'' then M_COMPL
     else if is_field fs 1 ''ref'' then M_REF else if is_field fs 1 ''row'' then M_ROW
     else if is_field fs 1 ''proc'' then M_PROC else if is_field fs 1 ''struct'' then M_STRUCT
     else if is_field fs 1 ''union'' then M_UNION else if is_field fs 1 ''named'' then M_NAMED
     else if is_field fs 1 ''format'' then M_FORMAT else if is_field fs 1 ''file'' then M_FILE
     else if is_field fs 1 ''channel'' then M_CHANNEL else if is_field fs 1 ''sema'' then M_SEMA
     else if is_field fs 1 ''simplout'' then M_SIMPLOUT else if is_field fs 1 ''simplin'' then M_SIMPLIN
     else if is_field fs 1 ''number'' then M_NUMBER else M_BAD)"

definition fkind_table :: "(string \<times> a68_fkind) list" where
  "fkind_table = [(''lit'', F_LIT), (''nl'', F_NL), (''np'', F_NP), (''sp'', F_SP), (''bs'', F_BS), (''rep'', F_REP),
     (''dig'', F_DIG), (''sign'', F_SIGN), (''point'', F_POINT), (''exp'', F_EXP), (''gen'', F_GEN),
     (''bool'', F_BOOL), (''choice'', F_CHOICE), (''char'', F_CHAR), (''strings'', F_STRINGS),
     (''group'', F_GROUP), (''incl'', F_INCL), (''sep'', F_SEP), (''col'', F_COL), (''radix'', F_RADIX),
     (''hmark'', F_HMARK), (''cpat'', F_CPAT), (''cwidth'', F_CWIDTH), (''cafter'', F_CAFTER)]"

definition fkind_of :: "string list \<Rightarrow> a68_fkind" where
  "fkind_of fs = (case filter (\<lambda>(s, k). is_field fs 1 s) fkind_table of (_, k) # _ \<Rightarrow> k | [] \<Rightarrow> F_BAD)"

section \<open>One line\<close>

fun hex_bytes :: "string \<Rightarrow> string" where
  "hex_bytes (a # b # rest) = char_of (hexval a * 16 + hexval b) # hex_bytes rest"
| "hex_bytes _ = []"

definition parse_str :: "string list \<Rightarrow> string" where
  "parse_str fs = (if length fs \<ge> 2 then hex_bytes (fs ! 1) else [])"

definition parse_mode :: "string list \<Rightarrow> a68_mode" where
  "parse_mode fs = (let m = mode0 (mkind_of fs) in
     case mkind_of fs of
       M_INT \<Rightarrow> m\<lparr>m_len := fld fs 2\<rparr> | M_REAL \<Rightarrow> m\<lparr>m_len := fld fs 2\<rparr> | M_BITS \<Rightarrow> m\<lparr>m_len := fld fs 2\<rparr>
     | M_BYTES \<Rightarrow> m\<lparr>m_len := fld fs 2\<rparr> | M_COMPL \<Rightarrow> m\<lparr>m_len := fld fs 2\<rparr>
     | M_REF \<Rightarrow> m\<lparr>m_sub := fld_u32 fs 2\<rparr>
     | M_ROW \<Rightarrow> m\<lparr>m_dims := fld_u32 fs 2, m_flex := (fld fs 3 = 1), m_sub := fld_u32 fs 4\<rparr>
     | M_PROC \<Rightarrow> m\<lparr>m_sub := fld_u32 fs 2, m_n := fld_u32 fs 3, m_modes := ulist fs 4 (fld_u32 fs 3)\<rparr>
     | M_STRUCT \<Rightarrow> (let n = fld_u32 fs 2 in m\<lparr>m_n := n,
           m_strs := map (\<lambda>k. fld_u32 fs (3 + 2 * k)) [0..<n], m_modes := map (\<lambda>k. fld_u32 fs (4 + 2 * k)) [0..<n]\<rparr>)
     | M_UNION \<Rightarrow> m\<lparr>m_n := fld_u32 fs 2, m_modes := ulist fs 3 (fld_u32 fs 2)\<rparr>
     | M_NAMED \<Rightarrow> m\<lparr>m_sub := fld_u32 fs 2\<rparr>
     | _ \<Rightarrow> m)"

definition parse_core :: "string list \<Rightarrow> a68_core" where
  "parse_core fs =
     (if is_field fs 1 ''hole'' then core0\<lparr>c_hole := True, c_fn := fld_u32 fs 2, c_idx := fld_u32 fs 3\<rparr>
      else if is_field fs 1 ''int'' then core0\<lparr>c_lit := fld fs 2\<rparr> else core0)"

definition parse_fmt :: "string list \<Rightarrow> a68_fmt" where
  "parse_fmt fs = (let f = fmt0 (fkind_of fs) in
     case fkind_of fs of
       F_LIT \<Rightarrow> f\<lparr>f_str := fld_u32 fs 2\<rparr> | F_CPAT \<Rightarrow> f\<lparr>f_str := fld_u32 fs 2\<rparr>
     | F_REP \<Rightarrow> f\<lparr>f_rep := fld fs 2, f_dyn := fld_u32 fs 3, f_item := fld_u32 fs 4\<rparr>
     | F_DIG \<Rightarrow> f\<lparr>f_flag := (fld fs 2 = 1)\<rparr> | F_SIGN \<Rightarrow> f\<lparr>f_flag := (fld fs 2 = 1)\<rparr>
     | F_GEN \<Rightarrow> f\<lparr>f_n := fld_u32 fs 2, f_list := ulist fs 3 (fld_u32 fs 2)\<rparr>
     | F_CHOICE \<Rightarrow> f\<lparr>f_n := fld_u32 fs 2, f_list := ulist fs 3 (fld_u32 fs 2)\<rparr>
     | F_GROUP \<Rightarrow> f\<lparr>f_n := fld_u32 fs 2, f_list := ulist fs 3 (fld_u32 fs 2)\<rparr>
     | F_BOOL \<Rightarrow> (if fld fs 2 = 1 then f\<lparr>f_flag := True, f_str := fld_u32 fs 3, f_str2 := fld_u32 fs 4\<rparr> else f)
     | F_INCL \<Rightarrow> f\<lparr>f_dyn := (fld_u32 fs 2 + 1) mod 4294967296\<rparr>
     | _ \<Rightarrow> f)"

definition parse_fmtlist :: "string list \<Rightarrow> nat list" where
  "parse_fmtlist fs = ulist fs 2 (fld_u32 fs 1)"

definition parse_decl :: "string list \<Rightarrow> a68_decl" where
  "parse_decl fs = \<lparr>dc_name = fld_u32 fs 1, dc_mode = fld_u32 fs 2\<rparr>"

text \<open>One line of the blob: an entry is added to every table but the declarations.\<close>

definition add_line :: "string list \<Rightarrow> a68_tables \<Rightarrow> a68_tables" where
  "add_line fs t =
     t\<lparr>t_strs := t_strs t @ [if is_field fs 0 ''s'' then parse_str fs else []],
       t_modes := t_modes t @ [if is_field fs 0 ''m'' then parse_mode fs else mode0 M_VOID],
       t_cores := t_cores t @ [if is_field fs 0 ''c'' then parse_core fs else core0],
       t_fmts := t_fmts t @ [if is_field fs 0 ''f'' then parse_fmt fs else fmt0 F_SEP],
       t_fmtlists := t_fmtlists t @ [if is_field fs 0 ''k'' then parse_fmtlist fs else []],
       t_decls := t_decls t @ (if is_field fs 0 ''n'' then [parse_decl fs] else [])\<rparr>"

function blob_lines :: "string \<Rightarrow> string list" where
  "blob_lines p = (case dropWhile (\<lambda>c. c \<noteq> CHR ''\<newline>'') p of
     [] \<Rightarrow> [p]
   | _ # rest \<Rightarrow> takeWhile (\<lambda>c. c \<noteq> CHR ''\<newline>'') p # blob_lines rest)"
  by pat_completeness auto
termination
proof (relation "measure length", goal_cases)
  case (2 p c rest)
  then have "length (c # rest) \<le> length p" by (metis length_dropWhile_le)
  then show ?case by simp
qed simp

declare blob_lines.simps [simp del]

definition tables0 :: a68_tables where
  "tables0 = \<lparr>t_modes = [], t_fmts = [], t_cores = [], t_fmtlists = [], t_decls = [], t_strs = []\<rparr>"

definition tables_parse :: "string \<Rightarrow> a68_tables" where
  "tables_parse blob = fold (\<lambda>l. add_line (split_line l)) (blob_lines blob) tables0"

section \<open>Modes\<close>

definition mode_at :: "a68_tables \<Rightarrow> nat \<Rightarrow> a68_mode" where
  "mode_at t m = (if m < length (t_modes t) then t_modes t ! m else mode0 M_BAD)"

definition str_at :: "a68_tables \<Rightarrow> nat \<Rightarrow> string res" where
  "str_at t i = (if i < length (t_strs t) then Inr (t_strs t ! i) else Inl UB)"

definition name_eq :: "a68_tables \<Rightarrow> nat \<Rightarrow> nat \<Rightarrow> bool res" where
  "name_eq t i j = bindE (str_at t i) (\<lambda>a. bindE (str_at t j) (\<lambda>b. Inr (a = b)))"

fun decl_loop :: "a68_tables \<Rightarrow> nat \<Rightarrow> a68_decl list \<Rightarrow> nat res" where
  "decl_loop t name [] = Inr (length (t_modes t))"
| "decl_loop t name (d # ds) = bindE (name_eq t (dc_name d) name) (\<lambda>e.
     if e then Inr (dc_mode d) else decl_loop t name ds)"

definition decl_of :: "a68_tables \<Rightarrow> nat \<Rightarrow> nat res" where
  "decl_of t name = decl_loop t name (t_decls t)"

fun resolve_loop :: "nat \<Rightarrow> a68_tables \<Rightarrow> nat \<Rightarrow> nat res" where
  "resolve_loop 0 t m = Inr m"
| "resolve_loop (Suc fuel) t m =
     (if m_k (mode_at t m) \<noteq> M_NAMED then Inr m
      else bindE (decl_of t (m_sub (mode_at t m))) (\<lambda>d.
        if d \<ge> length (t_modes t) then Inr m else resolve_loop fuel t d))"

definition mode_resolve :: "a68_tables \<Rightarrow> nat \<Rightarrow> nat res" where
  "mode_resolve t m = resolve_loop 32 t m"

text \<open>Loops that stop at the first negative (\<open>all_res\<close>) or positive (\<open>any_res\<close>) answer.\<close>

fun all_res :: "('a \<Rightarrow> bool res) \<Rightarrow> 'a list \<Rightarrow> bool res" where
  "all_res f [] = Inr True"
| "all_res f (x # xs) = bindE (f x) (\<lambda>b. if b then all_res f xs else Inr False)"

fun any_res :: "('a \<Rightarrow> bool res) \<Rightarrow> 'a list \<Rightarrow> bool res" where
  "any_res f [] = Inr False"
| "any_res f (x # xs) = bindE (f x) (\<lambda>b. if b then Inr True else any_res f xs)"

text \<open>One level of \<open>eqv\<close>; \<open>self\<close> compares with one less fuel.\<close>

definition eqv_body :: "a68_tables \<Rightarrow> (nat \<Rightarrow> nat \<Rightarrow> bool res) \<Rightarrow> nat \<Rightarrow> nat \<Rightarrow> bool res" where
  "eqv_body t self a b =
     (let x = mode_at t a; y = mode_at t b; nm = length (t_modes t) in
      if m_k x = M_NAMED \<and> m_k y = M_NAMED then
        bindE (name_eq t (m_sub x) (m_sub y)) (\<lambda>same. if same then Inr True
          else bindE (decl_of t (m_sub x)) (\<lambda>da. bindE (decl_of t (m_sub y)) (\<lambda>db.
               if da \<ge> nm \<or> db \<ge> nm then Inr False else self da db)))
      else if m_k x = M_NAMED then
        bindE (decl_of t (m_sub x)) (\<lambda>d. if d < nm then self d b else Inr False)
      else if m_k y = M_NAMED then
        bindE (decl_of t (m_sub y)) (\<lambda>d. if d < nm then self a d else Inr False)
      else if m_k x \<noteq> m_k y then Inr False
      else case m_k x of
        M_INT \<Rightarrow> Inr (m_len x = m_len y) | M_REAL \<Rightarrow> Inr (m_len x = m_len y) | M_BITS \<Rightarrow> Inr (m_len x = m_len y)
      | M_BYTES \<Rightarrow> Inr (m_len x = m_len y) | M_COMPL \<Rightarrow> Inr (m_len x = m_len y)
      | M_REF \<Rightarrow> self (m_sub x) (m_sub y)
      | M_ROW \<Rightarrow> if m_dims x = m_dims y then self (m_sub x) (m_sub y) else Inr False
      | M_PROC \<Rightarrow> if m_n x \<noteq> m_n y then Inr False
          else bindE (all_res (\<lambda>(p, q). self p q) (zip (m_modes x) (m_modes y))) (\<lambda>ok.
            if ok then self (m_sub x) (m_sub y) else Inr False)
      | M_STRUCT \<Rightarrow> if m_n x \<noteq> m_n y then Inr False
          else all_res (\<lambda>((n, p), (n', q)). bindE (name_eq t n n') (\<lambda>e. if e then self p q else Inr False))
            (zip (zip (m_strs x) (m_modes x)) (zip (m_strs y) (m_modes y)))
      | M_UNION \<Rightarrow> if m_n x \<noteq> m_n y then Inr False
          else all_res (\<lambda>p. any_res (self p) (m_modes y)) (m_modes x)
      | M_BAD \<Rightarrow> Inr False | M_NAMED \<Rightarrow> Inr False
      | _ \<Rightarrow> Inr True)"

primrec eqv :: "nat \<Rightarrow> a68_tables \<Rightarrow> nat \<Rightarrow> nat \<Rightarrow> bool res" where
  "eqv 0 t a b = Inr False"
| "eqv (Suc fuel) t a b = eqv_body t (eqv fuel t) a b"

definition mode_eqv :: "a68_tables \<Rightarrow> nat \<Rightarrow> nat \<Rightarrow> bool res" where
  "mode_eqv t a b = eqv 64 t a b"

section \<open>Mode names\<close>

definition long_prefix :: "int \<Rightarrow> string" where
  "long_prefix n = concat (replicate (nat n) ''LONG '') @ concat (replicate (nat (- n)) ''SHORT '')"

fun join_res :: "string \<Rightarrow> ('a \<Rightarrow> string res) \<Rightarrow> 'a list \<Rightarrow> string res" where
  "join_res sep f [] = Inr []"
| "join_res sep f [x] = f x"
| "join_res sep f (x # y # ys) = bindE (f x) (\<lambda>s. bindE (join_res sep f (y # ys)) (\<lambda>t. Inr (s @ sep @ t)))"

definition mode_to_body :: "a68_tables \<Rightarrow> (nat \<Rightarrow> string res) \<Rightarrow> nat \<Rightarrow> string res" where
  "mode_to_body t self m = (let x = mode_at t m in
     case m_k x of
       M_INT \<Rightarrow> Inr (long_prefix (m_len x) @ ''INT'') | M_REAL \<Rightarrow> Inr (long_prefix (m_len x) @ ''REAL'')
     | M_BOOL \<Rightarrow> Inr ''BOOL'' | M_CHAR \<Rightarrow> Inr ''CHAR'' | M_VOID \<Rightarrow> Inr ''VOID''
     | M_BITS \<Rightarrow> Inr (long_prefix (m_len x) @ ''BITS'') | M_BYTES \<Rightarrow> Inr (long_prefix (m_len x) @ ''BYTES'')
     | M_COMPL \<Rightarrow> Inr (long_prefix (m_len x) @ ''COMPL'')
     | M_REF \<Rightarrow> bindE (self (m_sub x)) (\<lambda>s. Inr (''REF '' @ s))
     | M_ROW \<Rightarrow> bindE (self (m_sub x)) (\<lambda>s.
         Inr ((if m_flex x then ''FLEX '' else []) @ ''['' @ replicate (m_dims x - 1) (CHR '','') @ ''] '' @ s))
     | M_PROC \<Rightarrow> bindE (if m_n x \<noteq> 0 then bindE (join_res '', '' self (m_modes x)) (\<lambda>s. Inr (''('' @ s @ '') '')) else Inr [])
         (\<lambda>ps. bindE (self (m_sub x)) (\<lambda>s. Inr (''PROC '' @ ps @ s)))
     | M_STRUCT \<Rightarrow> bindE (join_res '', '' (\<lambda>(n, p). bindE (self p) (\<lambda>s. bindE (str_at t n) (\<lambda>f. Inr (s @ '' '' @ f))))
           (zip (m_strs x) (m_modes x))) (\<lambda>s. Inr (''STRUCT ('' @ s @ '')''))
     | M_UNION \<Rightarrow> bindE (join_res '', '' self (m_modes x)) (\<lambda>s. Inr (''UNION ('' @ s @ '')''))
     | M_NAMED \<Rightarrow> str_at t (m_sub x)
     | M_FORMAT \<Rightarrow> Inr ''FORMAT'' | M_FILE \<Rightarrow> Inr ''FILE'' | M_CHANNEL \<Rightarrow> Inr ''CHANNEL'' | M_SEMA \<Rightarrow> Inr ''SEMA''
     | M_SIMPLOUT \<Rightarrow> Inr ''SIMPLOUT'' | M_SIMPLIN \<Rightarrow> Inr ''SIMPLIN'' | M_NUMBER \<Rightarrow> Inr ''NUMBER''
     | M_BAD \<Rightarrow> Inr ''?'')"

primrec mode_to :: "nat \<Rightarrow> a68_tables \<Rightarrow> nat \<Rightarrow> string res" where
  "mode_to 0 t m = Inr ''...''"
| "mode_to (Suc fuel) t m = mode_to_body t (mode_to fuel t) m"

definition mode_string :: "a68_tables \<Rightarrow> nat \<Rightarrow> string res" where
  "mode_string t m = mode_to 40 t m"

section \<open>Modes made at run time\<close>

definition mode_push :: "a68_mode \<Rightarrow> a68_tables \<Rightarrow> nat \<times> a68_tables" where
  "mode_push m t = (length (t_modes t), t\<lparr>t_modes := t_modes t @ [m]\<rparr>)"

fun find_from :: "nat \<Rightarrow> ('a \<Rightarrow> bool) \<Rightarrow> 'a list \<Rightarrow> nat option" where
  "find_from i P [] = None"
| "find_from i P (x # xs) = (if P x then Some i else find_from (i + 1) P xs)"

text \<open>Look for a mode, add it when there is none.\<close>

definition mode_intern :: "(a68_mode \<Rightarrow> bool) \<Rightarrow> a68_mode \<Rightarrow> a68_tables \<Rightarrow> nat \<times> a68_tables" where
  "mode_intern P m t = (case find_from 0 P (t_modes t) of Some i \<Rightarrow> (i, t) | None \<Rightarrow> mode_push m t)"

definition mode_simple :: "a68_mkind \<Rightarrow> int \<Rightarrow> a68_tables \<Rightarrow> nat \<times> a68_tables" where
  "mode_simple k len = mode_intern (\<lambda>x. m_k x = k \<and> m_len x = len) ((mode0 k)\<lparr>m_len := len\<rparr>)"

definition mode_ref :: "nat \<Rightarrow> a68_tables \<Rightarrow> nat \<times> a68_tables" where
  "mode_ref sub = mode_intern (\<lambda>x. m_k x = M_REF \<and> m_sub x = sub) ((mode0 M_REF)\<lparr>m_sub := sub\<rparr>)"

definition mode_row :: "nat \<Rightarrow> bool \<Rightarrow> nat \<Rightarrow> a68_tables \<Rightarrow> nat \<times> a68_tables" where
  "mode_row dims flex sub = mode_intern (\<lambda>x. m_k x = M_ROW \<and> m_dims x = dims \<and> m_flex x = flex \<and> m_sub x = sub)
     ((mode0 M_ROW)\<lparr>m_dims := dims, m_flex := flex, m_sub := sub\<rparr>)"

definition mode_empty_union :: "a68_tables \<Rightarrow> nat \<times> a68_tables" where
  "mode_empty_union = mode_intern (\<lambda>x. m_k x = M_UNION \<and> m_n x = 0) (mode0 M_UNION)"

end
