(* ===== verification/RtOps.thy ===== *)
theory RtOps
  imports RtSlice Tables Doubles
begin

text \<open>
  \<open>csrc/rt.c\<close>, the native operators of the primitive modes, the operators with assignment, and
  the conformity test with its cache. Each operator answers \<open>None\<close> where the C function returns
  0, that is, leaves the operands to the general path in \<open>ops.c\<close>, which is a parameter here
  (\<open>general\<close>), like \<open>ops_conform\<close> and the arithmetic of the C type \<open>double\<close>: \<open>dbl_ops\<close> holds
  its operations, on the 64 bits of a value.

  \<open>int64_t\<close> arithmetic is on integers; operands of mode INT are values of at most 31 bits, so
  the sums and products the code forms before \<open>int_range\<close> looks at them do not overflow
  (\<open>pow_int_correct\<close> shows this for the powers).
\<close>

section \<open>Helpers\<close>

definition mode_is :: "a68_tables \<Rightarrow> nat \<Rightarrow> a68_mkind \<Rightarrow> int \<Rightarrow> bool" where
  "mode_is t m k len \<longleftrightarrow> m_k (mode_at t m) = k \<and> m_len (mode_at t m) = len"

definition mode_kind :: "a68_tables \<Rightarrow> nat \<Rightarrow> a68_mkind \<Rightarrow> bool" where
  "mode_kind t m k \<longleftrightarrow> m_k (mode_at t m) = k"

definition A68_MAXINT :: int where "A68_MAXINT = 2147483647"

definition int_range :: "int \<Rightarrow> int res" where
  "int_range r = (if r > A68_MAXINT \<or> r < - A68_MAXINT
     then Inl (Die ''INT value overflow, result too large'') else Inr r)"

definition real_check :: "u64 \<Rightarrow> u64 res" where
  "real_check x = (if dbl_isnan x then Inl (Die ''REAL value is not a number'')
     else if dbl_isinf x then Inl (Die ''infinite REAL value'') else Inr x)"

text \<open>The loop of \<open>pow_int\<close>: \<open>bit\<close> doubles until it passes \<open>nn\<close> (both \<open>uint64_t\<close>).\<close>

function pow_loop :: "nat \<Rightarrow> nat \<Rightarrow> int \<Rightarrow> int \<Rightarrow> int res" where
  "pow_loop nn b mm p =
     (if b = 0 then Inl UB
      else bindE (if odd (nn div b) then int_range (p * mm) else Inr p) (\<lambda>p'.
        if 2 * b \<le> nn then bindE (int_range (mm * mm)) (\<lambda>mm'. pow_loop nn (2 * b) mm' p')
        else Inr p'))"
  by pat_completeness auto
termination by (relation "measure (\<lambda>(nn, b, mm, p). nn + 1 - b)") auto

declare pow_loop.simps [simp del]

definition pow_int :: "int \<Rightarrow> int \<Rightarrow> int res" where
  "pow_int m n = (if n < 0 then Inl (Die ''invalid INT exponent'')
     else if m = 0 \<and> n = 0 then Inr 1
     else if m = 0 \<or> m = 1 then Inr m
     else if m = -1 then Inr (if even n then 1 else -1)
     else pow_loop (nat n) 1 m 1)"

function pow_real_loop :: "dbl_ops \<Rightarrow> nat \<Rightarrow> nat \<Rightarrow> u64 \<Rightarrow> u64 \<Rightarrow> u64" where
  "pow_real_loop F nn b mm p =
     (let p' = (if b \<noteq> 0 \<and> odd (nn div b) then f_mul F p mm else p)
      in if b \<noteq> 0 \<and> 2 * b \<le> nn then pow_real_loop F nn (2 * b) (f_mul F mm mm) p' else p')"
  by pat_completeness auto
termination by (relation "measure (\<lambda>(F, nn, b, mm, p). nn + 1 - b)") auto

declare pow_real_loop.simps [simp del]

definition pow_real_int :: "dbl_ops \<Rightarrow> u64 \<Rightarrow> int \<Rightarrow> u64 res" where
  "pow_real_int F x n = (let nn = nat \<bar>n\<bar> in
     bindE (if f_eq F x dbl_zero \<and> nn = 0 then Inr dbl_one
            else if f_eq F x dbl_zero \<or> f_eq F x dbl_one then Inr x
            else if f_eq F x dbl_minus_one then Inr (if even nn then dbl_one else dbl_minus_one)
            else (let p = pow_real_loop F nn 1 x dbl_one in
              if dbl_isinf p \<or> dbl_isnan p then Inl (Die ''infinite REAL value'') else Inr p)) (\<lambda>p.
     Inr (if n < 0 then f_div F dbl_one p else p)))"

definition cmp_op :: "string \<Rightarrow> int \<Rightarrow> bool" where
  "cmp_op op c = (if op = ''='' then c = 0 else if op = ''/='' then c \<noteq> 0 else if op = ''<'' then c < 0
     else if op = ''<='' then c \<le> 0 else if op = ''>'' then c > 0 else c \<ge> 0)"

definition is_cmp :: "string \<Rightarrow> bool" where
  "is_cmp op \<longleftrightarrow> op \<in> {''='', ''/='', ''<'', ''<='', ''>'', ''>=''}"

definition int_val :: "int \<Rightarrow> a68_val" where "int_val i = VInt (word_of_int i)"

definition cmp_int :: "int \<Rightarrow> int \<Rightarrow> int" where
  "cmp_int x y = (if x < y then -1 else if x > y then 1 else 0)"

section \<open>Dyadic operators\<close>

text \<open>\<open>%*\<close>: the remainder is never negative.\<close>

definition int_mod :: "int \<Rightarrow> int \<Rightarrow> int" where
  "int_mod x y = (let m = (if y < 0 then - y else y); r = c_rem x m in if r < 0 then r + m else r)"

definition int_dyop :: "string \<Rightarrow> int \<Rightarrow> int \<Rightarrow> a68_val option res" where
  "int_dyop op x y =
     (if op = ''+'' then bindE (int_range (x + y)) (\<lambda>r. Inr (Some (int_val r)))
      else if op = ''-'' then bindE (int_range (x - y)) (\<lambda>r. Inr (Some (int_val r)))
      else if op = ''*'' then bindE (int_range (x * y)) (\<lambda>r. Inr (Some (int_val r)))
      else if op = ''%'' then (if y = 0 then Inl (Die ''INT division by zero'') else Inr (Some (int_val (c_quot x y))))
      else if op = ''%*'' then (if y = 0 then Inl (Die ''INT division by zero'') else Inr (Some (int_val (int_mod x y))))
      else if op = ''**'' then bindE (pow_int x y) (\<lambda>r. Inr (Some (int_val r)))
      else if is_cmp op then Inr (Some (VBool (cmp_op op (cmp_int x y))))
      else Inr None)"

definition cmp_real :: "dbl_ops \<Rightarrow> u64 \<Rightarrow> u64 \<Rightarrow> int" where
  "cmp_real F x y = (if f_less F x y then -1 else if f_less F y x then 1 else 0)"

definition real_pow :: "dbl_ops \<Rightarrow> u64 \<Rightarrow> u64 \<Rightarrow> u64 res" where
  "real_pow F x y =
     (if f_eq F y dbl_zero then Inr dbl_one
      else if f_less F x dbl_zero then Inl (Die ''REAL math error'')
      else if f_eq F x dbl_zero then (if f_less F y dbl_zero then Inl (Die ''REAL math error'') else Inr dbl_zero)
      else Inr (f_exp F (f_mul F y (f_log F x))))"

definition mk_compl :: "u64 \<Rightarrow> u64 \<Rightarrow> a68_val rt" where
  "mk_compl re im = bnd (slots_alloc 2) (\<lambda>c. bnd (slot_write (c, 0) (VReal re)) (\<lambda>_.
     bnd (slot_write (c, 1) (VReal im)) (\<lambda>_. ret (VStruct c))))"

definition some_real :: "u64 res \<Rightarrow> a68_val option rt" where
  "some_real r = bnd (lift_res r) (\<lambda>x. ret (Some (VReal x)))"

definition real_dyop :: "dbl_ops \<Rightarrow> string \<Rightarrow> u64 \<Rightarrow> u64 \<Rightarrow> a68_val option rt" where
  "real_dyop F op x y =
     (if op = ''+'' then some_real (real_check (f_add F x y))
      else if op = ''-'' then some_real (real_check (f_sub F x y))
      else if op = ''*'' then some_real (real_check (f_mul F x y))
      else if op = ''/'' then some_real (if f_eq F y dbl_zero then Inl (Die ''REAL value is not a number'') else Inr (f_div F x y))
      else if op = ''I'' then bnd (mk_compl x y) (\<lambda>v. ret (Some v))
      else if op = ''**'' then some_real (real_pow F x y)
      else if is_cmp op then ret (Some (VBool (cmp_op op (cmp_real F x y))))
      else ret None)"

definition bool_dyop :: "string \<Rightarrow> bool \<Rightarrow> bool \<Rightarrow> a68_val option" where
  "bool_dyop op x y =
     (if op = ''AND'' then Some (VBool (x \<and> y)) else if op = ''OR'' then Some (VBool (x \<or> y))
      else if op = ''XOR'' \<or> op = ''/='' then Some (VBool (x \<noteq> y))
      else if op = ''='' then Some (VBool (x = y)) else None)"

text \<open>Strings: concatenation, and comparison byte by byte, then by length.\<close>

fun cmp_bytes :: "u8 list \<Rightarrow> u8 list \<Rightarrow> int" where
  "cmp_bytes (x # xs) (y # ys) = (if x < y then -1 else if x > y then 1 else cmp_bytes xs ys)"
| "cmp_bytes [] (y # ys) = -1"
| "cmp_bytes (x # xs) [] = 1"
| "cmp_bytes [] [] = 0"

definition is_char_leaf :: "a68_val \<Rightarrow> bool rt" where
  "is_char_leaf v = (case v of
     VRow p \<Rightarrow> bnd (get_rowd p) (\<lambda>d. if length (r_dim d) \<noteq> 1 then ret False
       else bnd (operand_store d) (\<lambda>b. ret (case b of Leaf EK_CHAR _ _ \<Rightarrow> True | _ \<Rightarrow> False)))
   | _ \<Rightarrow> ret False)"

definition string_dyop :: "string \<Rightarrow> nat \<Rightarrow> nat \<Rightarrow> a68_val option rt" where
  "string_dyop op p q =
     (if op = ''+'' then bnd (string_bytes p) (\<lambda>a. bnd (string_bytes q) (\<lambda>b.
        bnd (string_row (a @ b) 1) (\<lambda>v. ret (Some v))))
      else if is_cmp op then bnd (string_bytes p) (\<lambda>a. bnd (string_bytes q) (\<lambda>b.
        ret (Some (VBool (cmp_op op (cmp_bytes a b))))))
      else ret None)"

definition bound_dyop :: "string \<Rightarrow> int \<Rightarrow> a68_rowd \<Rightarrow> a68_val option res" where
  "bound_dyop op k d =
     (if op = ''LWB'' \<or> op = ''UPB'' then
        (if k < 1 \<or> k > int (length (r_dim d)) then Inl (Die ''LWB/UPB dimension out of range'')
         else Inr (Some (int_val (if op = ''LWB'' then d_l (r_dim d ! nat (k - 1)) else d_u (r_dim d ! nat (k - 1))))))
      else Inr None)"

definition bits_mask :: u64 where "bits_mask = 0xFFFFFFFF"

definition bits_dyop :: "string \<Rightarrow> u64 \<Rightarrow> u64 \<Rightarrow> a68_val option" where
  "bits_dyop op x y =
     (if op = ''AND'' then Some (VBits (and x y))
      else if op = ''OR'' then Some (VBits (and (or x y) bits_mask))
      else if op = ''XOR'' then Some (VBits (and (xor x y) bits_mask))
      else if op = ''='' then Some (VBool (x = y)) else if op = ''/='' then Some (VBool (x \<noteq> y))
      else if op = ''<='' then Some (VBool (and x y = x)) else if op = ''>='' then Some (VBool (and x y = y))
      else None)"

definition shift_dyop :: "string \<Rightarrow> u64 \<Rightarrow> int \<Rightarrow> a68_val option res" where
  "shift_dyop op x k =
     (if op = ''SHL'' \<or> op = ''SHR'' \<or> op = ''DOWN'' then
        (if \<bar>k\<bar> > 32 then Inl (Die ''shift count out of range'')
         else (let sh = (if op = ''SHL'' then k else - k) in
           Inr (Some (VBits (if sh \<ge> 0 then and (push_bit (nat sh) x) bits_mask else drop_bit (nat (- sh)) x)))))
      else Inr None)"

definition elem_dyop :: "string \<Rightarrow> int \<Rightarrow> u64 \<Rightarrow> a68_val option res" where
  "elem_dyop op k b =
     (if op = ''ELEM'' then
        (if k < 1 \<or> k > 32 then Inl (Die ''ELEM index out of range'')
         else Inr (Some (VBool (and (drop_bit (nat (32 - k)) b) 1 = 1))))
      else Inr None)"

definition is_real_operand :: "a68_val \<Rightarrow> bool" where
  "is_real_operand v = (case v of VReal _ \<Rightarrow> True | VInt _ \<Rightarrow> True | _ \<Rightarrow> False)"

definition native_dyop :: "a68_tables \<Rightarrow> dbl_ops \<Rightarrow> string \<Rightarrow> nat \<Rightarrow> nat \<Rightarrow> a68_val \<Rightarrow> a68_val \<Rightarrow> a68_val option rt" where
  "native_dyop t F op m1 m2 a b =
     (if a = VUndef \<or> b = VUndef then ret None
      else if mode_is t m1 M_INT 0 \<and> mode_is t m2 M_INT 0 \<and> tag_of a = 1 \<and> tag_of b = 1 then
        bnd (as_int a) (\<lambda>x. bnd (as_int b) (\<lambda>y. lift_res (int_dyop op (sint x) (sint y))))
      else if mode_is t m1 M_REAL 0 \<and> mode_is t m2 M_REAL 0 \<and> is_real_operand a \<and> is_real_operand b then
        bnd (as_real (f_of_i64 F) a) (\<lambda>x. bnd (as_real (f_of_i64 F) b) (\<lambda>y. real_dyop F op x y))
      else if mode_is t m1 M_REAL 0 \<and> mode_is t m2 M_INT 0 \<and> is_real_operand a \<and> tag_of b = 1 then
        bnd (as_real (f_of_i64 F) a) (\<lambda>x. bnd (as_int b) (\<lambda>y.
          if op = ''**'' then some_real (pow_real_int F x (sint y))
          else if op = ''I'' then bnd (mk_compl x (f_of_i64 F y)) (\<lambda>v. ret (Some v))
          else ret None))
      else if mode_kind t m1 M_BOOL \<and> mode_kind t m2 M_BOOL \<and> tag_of a = 3 \<and> tag_of b = 3 then
        bnd (as_bool a) (\<lambda>x. bnd (as_bool b) (\<lambda>y. ret (bool_dyop op x y)))
      else if mode_kind t m1 M_CHAR \<and> mode_kind t m2 M_CHAR \<and> tag_of a = 4 \<and> tag_of b = 4 then
        bnd (as_char a) (\<lambda>x. bnd (as_char b) (\<lambda>y.
          ret (if is_cmp op then Some (VBool (cmp_op op (cmp_int (uint x) (uint y)))) else None)))
      else bnd (if mode_kind t m1 M_ROW \<and> mode_kind t m2 M_ROW
                then bnd (is_char_leaf a) (\<lambda>x. if x then is_char_leaf b else ret False) else ret False) (\<lambda>strings.
        if strings then string_dyop op (val_ptr a) (val_ptr b)
        else if mode_is t m1 M_INT 0 \<and> mode_kind t m2 M_ROW \<and> tag_of a = 1 \<and> tag_of b = 9 then
          bnd (as_int a) (\<lambda>k. bnd (get_rowd (val_ptr b)) (\<lambda>d. lift_res (bound_dyop op (sint k) d)))
        else if mode_is t m1 M_BITS 0 \<and> mode_is t m2 M_BITS 0 \<and> tag_of a = 5 \<and> tag_of b = 5 then
          bnd (as_bits a) (\<lambda>x. bnd (as_bits b) (\<lambda>y. ret (bits_dyop op x y)))
        else if mode_is t m1 M_BITS 0 \<and> mode_is t m2 M_INT 0 \<and> tag_of a = 5 \<and> tag_of b = 1 then
          bnd (as_bits a) (\<lambda>x. bnd (as_int b) (\<lambda>k. lift_res (shift_dyop op x (sint k))))
        else if mode_is t m1 M_INT 0 \<and> mode_is t m2 M_BITS 0 \<and> tag_of a = 1 \<and> tag_of b = 5 then
          bnd (as_int a) (\<lambda>k. bnd (as_bits b) (\<lambda>x. lift_res (elem_dyop op (sint k) x)))
        else ret None))"

section \<open>Operators with assignment\<close>

definition int_assign_op :: "string \<Rightarrow> int \<Rightarrow> int \<Rightarrow> a68_val option res" where
  "int_assign_op op x y =
     (if op = ''+:='' then bindE (int_range (x + y)) (\<lambda>r. Inr (Some (int_val r)))
      else if op = ''-:='' then bindE (int_range (x - y)) (\<lambda>r. Inr (Some (int_val r)))
      else if op = ''*:='' then bindE (int_range (x * y)) (\<lambda>r. Inr (Some (int_val r)))
      else if op = ''%:='' then (if y = 0 then Inl (Die ''INT division by zero'') else Inr (Some (int_val (c_quot x y))))
      else if op = ''%*:='' then (if y = 0 then Inl (Die ''INT division by zero'') else Inr (Some (int_val (int_mod x y))))
      else Inr None)"

definition real_assign_op :: "dbl_ops \<Rightarrow> string \<Rightarrow> u64 \<Rightarrow> u64 \<Rightarrow> a68_val option rt" where
  "real_assign_op F op x y =
     (if op = ''+:='' then some_real (real_check (f_add F x y))
      else if op = ''-:='' then some_real (real_check (f_sub F x y))
      else if op = ''*:='' then some_real (real_check (f_mul F x y))
      else if op = ''/:='' then some_real (if f_eq F y dbl_zero then Inl (Die ''REAL value is not a number'') else Inr (f_div F x y))
      else ret None)"

definition append_assign :: "string \<Rightarrow> nat \<Rightarrow> u32 \<Rightarrow> a68_val \<Rightarrow> a68_val option rt" where
  "append_assign op p aux b = bnd (get_body p) (\<lambda>body. case body of
     Rowd _ \<Rightarrow> ret None
   | _ \<Rightarrow> bnd (ref_slot p aux) (\<lambda>sl. bnd (slot_read sl) (\<lambda>cur. case cur of
       VRow _ \<Rightarrow> bnd (get_rowd (val_ptr b)) (\<lambda>src.
         bnd (collect_run (upto_int (row_count src)) (rowd_get_flat src)) (\<lambda>tmp.
         bnd (append_in_place sl tmp) (\<lambda>ok. ret (if ok then Some (VRef p aux) else None))))
     | _ \<Rightarrow> ret None)))"

definition native_assign_op :: "a68_tables \<Rightarrow> dbl_ops \<Rightarrow> string \<Rightarrow> nat \<Rightarrow> a68_val \<Rightarrow> a68_val \<Rightarrow> a68_val option rt" where
  "native_assign_op t F op m1 a b = (case a of
     VRef p aux \<Rightarrow>
       if \<not> mode_kind t m1 M_REF then ret None
       else (let target = m_sub (mode_at t m1);
                 t_int = mode_is t target M_INT 0; t_real = mode_is t target M_REAL 0; t_row = mode_kind t target M_ROW
             in if \<not> t_int \<and> \<not> t_real \<and> \<not> t_row then ret None
             else if t_row then bnd (is_string_row b) (\<lambda>sr.
                    if op = ''+:='' \<and> sr then append_assign op p aux b else ret None)
             else bnd (ref_load p aux) (\<lambda>cur.
               bnd (case (cur, b) of
                      (VInt x, VInt y) \<Rightarrow> if t_int then lift_res (int_assign_op op (sint x) (sint y)) else ret None
                    | (VReal x, VInt y) \<Rightarrow> if t_real then real_assign_op F op x (f_of_i64 F y) else ret None
                    | (VReal x, VReal y) \<Rightarrow> if t_real then real_assign_op F op x y else ret None
                    | _ \<Rightarrow> ret None) (\<lambda>r. case r of
               None \<Rightarrow> ret None
             | Some v \<Rightarrow> bnd (store_ref a v) (\<lambda>_. ret (Some a)))))
   | _ \<Rightarrow> ret None)"

section \<open>Monadic operators\<close>

definition int_monop :: "string \<Rightarrow> int \<Rightarrow> a68_val option res" where
  "int_monop op x =
     (if op = ''-'' then bindE (int_range (- x)) (\<lambda>r. Inr (Some (int_val r)))
      else if op = ''+'' then Inr (Some (int_val x))
      else if op = ''ABS'' then Inr (Some (int_val (if x < 0 then - x else x)))
      else if op = ''SIGN'' then Inr (Some (int_val (if x > 0 then 1 else if x < 0 then -1 else 0)))
      else if op = ''ODD'' then Inr (Some (VBool (c_rem x 2 \<noteq> 0)))
      else if op = ''REPR'' then (if x < 0 \<or> x > 255 then Inl (Die ''REPR argument out of range'')
        else Inr (Some (VChar (word_of_int x))))
      else if op = ''BIN'' then (if x < 0 then Inl (Die ''BIN argument is negative'')
        else if x > 0xFFFFFFFF then Inl (Die ''BIN argument out of range'') else Inr (Some (VBits (word_of_int x))))
      else Inr None)"

definition real_monop :: "dbl_ops \<Rightarrow> string \<Rightarrow> u64 \<Rightarrow> a68_val option res" where
  "real_monop F op x = (let maxint = f_of_i64 F 2147483647; outside = f_less F x (dbl_neg maxint) \<or> f_less F maxint x in
     (if op = ''-'' then Inr (Some (VReal (dbl_neg x)))
      else if op = ''+'' then Inr (Some (VReal x))
      else if op = ''ABS'' then Inr (Some (VReal (dbl_abs x)))
      else if op = ''SIGN'' then Inr (Some (int_val (if f_less F dbl_zero x then 1 else if f_less F x dbl_zero then -1 else 0)))
      else if op = ''ENTIER'' then (if outside then Inl (Die ''INT value out of bounds'')
        else (let f = f_floor F x in Inr (Some (VInt (if f_less F f dbl_zero then - f_to_u64 F (dbl_neg f) else f_to_u64 F f)))))
      else if op = ''ROUND'' then (if outside then Inl (Die ''INT value out of bounds'')
        else (let n = f_to_u64 F (f_floor F (f_add F (dbl_abs x) dbl_half)) in
          Inr (Some (VInt (if f_less F x dbl_zero then - n else n)))))
      else Inr None))"

definition bits_monop :: "string \<Rightarrow> u64 \<Rightarrow> a68_val option" where
  "bits_monop op x =
     (if op = ''NOT'' then Some (VBits (xor bits_mask x))
      else if op = ''ABS'' then Some (int_val (if uint x \<ge> 2147483648 then uint x - 4294967296 else uint x))
      else None)"

definition row_monop :: "string \<Rightarrow> a68_rowd \<Rightarrow> a68_val option res" where
  "row_monop op d =
     (if op = ''LWB'' then (case r_dim d of dm # _ \<Rightarrow> Inr (Some (int_val (d_l dm))) | [] \<Rightarrow> Inl UB)
      else if op = ''UPB'' then (case r_dim d of dm # _ \<Rightarrow> Inr (Some (int_val (d_u dm))) | [] \<Rightarrow> Inl UB)
      else if op = ''ELEMS'' then Inr (Some (int_val (row_count d))) else Inr None)"

definition native_monop :: "a68_tables \<Rightarrow> dbl_ops \<Rightarrow> string \<Rightarrow> nat \<Rightarrow> a68_val \<Rightarrow> a68_val option rt" where
  "native_monop t F op m v =
     (if mode_is t m M_INT 0 \<and> tag_of v = 1 then bnd (as_int v) (\<lambda>x. lift_res (int_monop op (sint x)))
      else if mode_is t m M_REAL 0 \<and> is_real_operand v then
        bnd (as_real (f_of_i64 F) v) (\<lambda>x. lift_res (real_monop F op x))
      else if mode_kind t m M_BOOL \<and> tag_of v = 3 then bnd (as_bool v) (\<lambda>b.
        ret (if op = ''NOT'' then Some (VBool (\<not> b)) else if op = ''ABS'' then Some (int_val (if b then 1 else 0)) else None))
      else if mode_kind t m M_CHAR \<and> tag_of v = 4 then bnd (as_char v) (\<lambda>c.
        ret (if op = ''ABS'' then Some (int_val (uint c)) else None))
      else if mode_is t m M_BITS 0 \<and> tag_of v = 5 then bnd (as_bits v) (\<lambda>x. ret (bits_monop op x))
      else if mode_kind t m M_ROW \<and> tag_of v = 9 then bnd (get_rowd (val_ptr v)) (\<lambda>d. lift_res (row_monop op d))
      else ret None)"

section \<open>The entry points\<close>

definition rt_dyop :: "a68_tables \<Rightarrow> dbl_ops \<Rightarrow> (string \<Rightarrow> nat \<Rightarrow> nat \<Rightarrow> a68_val \<Rightarrow> a68_val \<Rightarrow> a68_val rt)
    \<Rightarrow> u32 \<Rightarrow> nat \<Rightarrow> nat \<Rightarrow> unit rt" where
  "rt_dyop t F general op m1 m2 = bnd GC_POLL (\<lambda>_. bnd (top_n 2) (\<lambda>ab. bnd (strtab_at op) (\<lambda>name.
     bnd (native_dyop t F name m1 m2 (ab ! 0) (ab ! 1)) (\<lambda>r1.
     bnd (case r1 of Some v \<Rightarrow> ret r1 | None \<Rightarrow> native_assign_op t F name m1 (ab ! 0) (ab ! 1)) (\<lambda>r2.
     bnd (case r2 of Some v \<Rightarrow> ret v | None \<Rightarrow> general name m1 m2 (ab ! 0) (ab ! 1)) (\<lambda>v.
     bnd (drop_stack 2) (\<lambda>_. push v)))))))"

definition rt_monop :: "a68_tables \<Rightarrow> dbl_ops \<Rightarrow> (string \<Rightarrow> nat \<Rightarrow> a68_val \<Rightarrow> a68_val rt) \<Rightarrow> u32 \<Rightarrow> nat \<Rightarrow> unit rt" where
  "rt_monop t F general op m = bnd GC_POLL (\<lambda>_. bnd (strtab_at op) (\<lambda>name. bnd top_val (\<lambda>v.
     bnd (native_monop t F name m v) (\<lambda>r.
     bnd (case r of Some x \<Rightarrow> ret x | None \<Rightarrow> general name m v) (\<lambda>x. bnd pop (\<lambda>_. push x))))))"

section \<open>Conformity\<close>

text \<open>The cache of answers; \<open>ask\<close> is \<open>ops_conform\<close>.\<close>

type_synonym conform_cache = "((nat \<times> nat) \<times> bool) list"

definition conforms :: "(nat \<Rightarrow> nat \<Rightarrow> bool) \<Rightarrow> nat \<Rightarrow> nat \<Rightarrow> conform_cache \<Rightarrow> bool \<times> conform_cache" where
  "conforms ask m vm c = (case map_of c (m, vm) of
     Some ok \<Rightarrow> (ok, c)
   | None \<Rightarrow> (ask m vm, c @ [((m, vm), ask m vm)]))"

text \<open>\<open>union_content\<close>: through unions united into unions; the fuel is \<open>depth_limit\<close>.\<close>

fun union_loop :: "nat \<Rightarrow> a68_val \<Rightarrow> u32 \<Rightarrow> (a68_val \<times> u32) rt" where
  "union_loop 0 v vm = stop (Fatal ''stack overflow'')"
| "union_loop (Suc k) v vm = (case v of
     VUnion p m \<Rightarrow> bnd (slot_read (p, 0)) (\<lambda>inner. union_loop k inner m)
   | _ \<Rightarrow> ret (v, vm))"

definition union_content :: "a68_val \<Rightarrow> (a68_val \<times> u32) rt" where
  "union_content v = bnd (get depth_limit) (\<lambda>k. union_loop k v 0xFFFFFFFF)"

definition rt_conform :: "(nat \<Rightarrow> nat \<Rightarrow> bool) \<Rightarrow> (nat \<Rightarrow> bool) \<Rightarrow> conform_cache \<Rightarrow> nat \<Rightarrow> bool \<Rightarrow> (bool \<times> conform_cache) rt" where
  "rt_conform ask is_union c m bind_it = bnd GC_POLL (\<lambda>_. bnd top_val (\<lambda>v. bnd (union_content v) (\<lambda>(inner, vm).
     let (ok, c') = conforms ask m (unat vm) c in
     bnd (if ok \<and> bind_it then bnd (copy_value (if is_union m then v else inner)) push else ret ()) (\<lambda>_.
     ret (ok, c')))))"

definition rt_conforms :: "(nat \<Rightarrow> nat \<Rightarrow> bool) \<Rightarrow> conform_cache \<Rightarrow> nat \<Rightarrow> nat \<Rightarrow> (bool \<times> conform_cache) rt" where
  "rt_conforms ask c m vm = ret (conforms ask m vm c)"

text \<open>The errors compiled code reports by number.\<close>

definition rt_undef_error :: "u32 \<Rightarrow> unit rt" where
  "rt_undef_error kind = die (if kind = 0 then ''attempt to use an uninitialised INT value''
     else if kind = 1 then ''attempt to use an uninitialised REAL value''
     else if kind = 2 then ''attempt to use an uninitialised BOOL value''
     else if kind = 3 then ''attempt to use an uninitialised CHAR value''
     else ''attempt to use an uninitialised BITS value'')"

definition rt_arith_error :: "u32 \<Rightarrow> unit rt" where
  "rt_arith_error kind = die (if kind = 0 then ''INT value overflow, result too large''
     else if kind = 1 then ''INT division by zero'' else if kind = 2 then ''infinite REAL value''
     else if kind = 3 then ''REAL value is not a number'' else if kind = 4 then ''INT value out of bounds''
     else if kind = 5 then ''REAL division by zero'' else if kind = 6 then ''REPR argument out of range''
     else if kind = 7 then ''REAL math error'' else ''invalid INT exponent'')"

definition rt_widen :: "a68_tables \<Rightarrow> dbl_ops \<Rightarrow> (nat \<Rightarrow> nat \<Rightarrow> a68_val \<Rightarrow> a68_val rt) \<Rightarrow> nat \<Rightarrow> nat \<Rightarrow> unit rt" where
  "rt_widen t F general src dst = bnd GC_POLL (\<lambda>_. bnd pop (\<lambda>v.
     let s = mode_at t src; d = mode_at t dst in
     if tag_of v = 1 \<and> m_k s = M_INT \<and> m_len s \<le> 0 \<and> m_k d = M_REAL \<and> m_len d \<le> 0
     then bnd (as_int v) (\<lambda>i. push (VReal (f_of_i64 F i)))
     else if m_k s = m_k d \<and> m_len s = m_len d \<and> m_k s \<noteq> M_NAMED then push v
     else bnd (general src dst v) push))"

end
