(* ===== verification/RtSafe.thy ===== *)
theory RtSafe
  imports RtCollect RtOps
begin

text \<open>
  The invariant of the run-time system is kept by everything \<open>csrc/rt.c\<close> does. \<open>opsafe A m P\<close>
  is a rule of a small program logic: \<open>A\<close> are the pointers the C function holds in its local
  variables (its arguments among them), \<open>P\<close> gives the pointers of its result. Between two safe
  points no object disappears, so pointers once valid stay valid; the entry points, which may
  collect when they start, hold none at that moment (\<open>entry_safe\<close>).
\<close>

section \<open>Pointers of values\<close>

definition vp :: "a68_val \<Rightarrow> nat set" where
  "vp v = (if tag_is_ptr v then {val_ptr v} else {})"

lemma vp_simps [simp]:
  "vp VUndef = {}" "vp (VInt i) = {}" "vp (VReal r) = {}" "vp (VBool b) = {}" "vp (VChar c) = {}"
  "vp (VBits x) = {}" "vp VVoid = {}" "vp VNil = {}" "vp (VRef p a) = {p}" "vp (VRow p) = {p}"
  "vp (VStruct p) = {p}" "vp (VUnion p m) = {p}" "vp (VCproc p a) = {p}" "vp (VFmt p a) = {p}"
  "vp (VBuiltin j) = {}" "vp (VFile j) = {}" "vp (VMp p) = {p}" "vp (VBigint p) = {p}"
  "vp (VBigbits p) = {p}" "vp (VLref j) = {}"
  by (simp_all add: vp_def)

definition vps :: "a68_val list \<Rightarrow> nat set" where
  "vps vs = (\<Union>v \<in> set vs. vp v)"

lemma vps_simps [simp]: "vps [] = {}" "vps (v # vs) = vp v \<union> vps vs" "vps (xs @ ys) = vps xs \<union> vps ys"
  "vps (rev xs) = vps xs"
  by (auto simp: vps_def)

lemma set_val_ptrs: "set (val_ptrs vs) = vps vs"
  by (auto simp: val_ptrs_def vps_def vp_def)

lemma vp_vps: "v \<in> set vs \<Longrightarrow> vp v \<subseteq> vps vs"
  by (auto simp: vps_def)

lemma vp_nth: "i < length vs \<Longrightarrow> vp (vs ! i) \<subseteq> vps vs"
  by (simp add: vp_vps)

lemma vp_nth_int: "x \<in> vp (vs ! nat i) \<Longrightarrow> 0 \<le> i \<Longrightarrow> i < int (length vs) \<Longrightarrow> x \<in> vps vs"
  using vp_nth [of "nat i" vs] by (simp add: nat_less_iff subset_iff)

lemma vps_update: "vps (vs[i := v]) \<subseteq> vps vs \<union> vp v"
  by (auto simp: vps_def dest!: set_update_subset_insert [THEN subsetD])

lemma vps_replicate [simp]: "vps (replicate n VUndef) = {}"
  by (auto simp: vps_def)

lemma vps_take: "vps (take n vs) \<subseteq> vps vs"
  by (auto simp: vps_def dest: in_set_takeD)

lemma vps_drop: "vps (drop n vs) \<subseteq> vps vs"
  by (auto simp: vps_def dest: in_set_dropD)

definition bp :: "obj_body \<Rightarrow> nat set" where
  "bp b = set (obj_children b)"

lemma bp_simps [simp]:
  "bp (Slots vs) = vps vs" "bp (Frame p d vs) = {p} \<union> vps vs" "bp (Rowd r) = {r_base r}"
  "bp (Leaf ek ds fs) = {}" "bp Freed = {}"
  by (simp_all add: bp_def set_val_ptrs)

section \<open>The logic\<close>

definition objs :: "rt_state \<Rightarrow> nat set" where
  "objs s = insert 0 (set (all_objects s))"

definition opsafe :: "nat set \<Rightarrow> 'a rt \<Rightarrow> ('a \<Rightarrow> nat set) \<Rightarrow> bool" where
  "opsafe A m P \<longleftrightarrow> (\<forall>s x t. rt_inv s \<longrightarrow> A \<subseteq> objs s \<longrightarrow> m s = Inr (x, t) \<longrightarrow>
     rt_inv t \<and> objs s \<subseteq> objs t \<and> P x \<subseteq> objs t)"

definition entry_safe :: "nat set \<Rightarrow> 'a rt \<Rightarrow> ('a \<Rightarrow> nat set) \<Rightarrow> bool" where
  "entry_safe A m P \<longleftrightarrow> (\<forall>s x t. rt_inv s \<longrightarrow> A \<subseteq> objs s \<longrightarrow> m s = Inr (x, t) \<longrightarrow> rt_inv t \<and> P x \<subseteq> objs t)"

abbreviation no_ptr :: "'a \<Rightarrow> nat set" where "no_ptr \<equiv> \<lambda>_. {}"
abbreviation ptr :: "nat \<Rightarrow> nat set" where "ptr \<equiv> \<lambda>p. {p}"

lemma opsafeI:
  "(\<And>s x t. rt_inv s \<Longrightarrow> A \<subseteq> objs s \<Longrightarrow> m s = Inr (x, t) \<Longrightarrow> rt_inv t \<and> objs s \<subseteq> objs t \<and> P x \<subseteq> objs t) \<Longrightarrow> opsafe A m P"
  by (simp add: opsafe_def)

lemma opsafeD:
  "opsafe A m P \<Longrightarrow> rt_inv s \<Longrightarrow> A \<subseteq> objs s \<Longrightarrow> m s = Inr (x, t) \<Longrightarrow> rt_inv t \<and> objs s \<subseteq> objs t \<and> P x \<subseteq> objs t"
  by (simp add: opsafe_def)

lemma opsafe_bnd:
  assumes m: "opsafe A m P" and f: "\<And>x. opsafe (A \<union> P x) (f x) Q"
  shows "opsafe A (bnd m f) Q"
proof (rule opsafeI)
  fix s y u assume s: "rt_inv s" "A \<subseteq> objs s" "bnd m f s = Inr (y, u)"
  then obtain x t where t: "m s = Inr (x, t)" "f x t = Inr (y, u)" by (auto simp: bnd_eq_Inr)
  have mt: "rt_inv t \<and> objs s \<subseteq> objs t \<and> P x \<subseteq> objs t" using opsafeD [OF m s(1,2) t(1)] .
  then have "A \<union> P x \<subseteq> objs t" using s(2) by blast
  then show "rt_inv u \<and> objs s \<subseteq> objs u \<and> Q y \<subseteq> objs u" using opsafeD [OF f _ _ t(2)] mt by blast
qed

lemma opsafe_weaken: "opsafe A m P \<Longrightarrow> A \<subseteq> B \<Longrightarrow> (\<And>x. Q x \<subseteq> P x \<union> B) \<Longrightarrow> opsafe B m Q"
  unfolding opsafe_def by (meson Un_least order_trans)

lemma opsafe_none: "opsafe A m P \<Longrightarrow> A \<subseteq> B \<Longrightarrow> opsafe B m no_ptr"
  by (rule opsafe_weaken) auto

lemma opsafe_ret: "P x \<subseteq> A \<union> {0} \<Longrightarrow> opsafe A (ret x) P"
  by (auto simp: opsafe_def objs_def)

lemma opsafe_stop: "opsafe A (stop e) P"
  by (simp add: opsafe_def)

lemma opsafe_die: "opsafe A (die e) P"
  by (simp add: opsafe_def die_def)

lemma opsafe_get: "opsafe A (get g) no_ptr"
  by (simp add: opsafe_def)

text \<open>The pointers of a result follow from its type.\<close>

definition slp :: "nat \<times> nat \<Rightarrow> nat set" where "slp sl = {fst sl}"
definition rwp :: "a68_rowd \<Rightarrow> nat set" where "rwp r = {r_base r}"
definition opn :: "nat option \<Rightarrow> nat set" where "opn x = set_option x"
definition opv :: "a68_val option \<Rightarrow> nat set" where "opv x = (case x of Some v \<Rightarrow> vp v | None \<Rightarrow> {})"
definition opsl :: "(nat \<times> nat) option \<Rightarrow> nat set" where "opsl x = (case x of Some v \<Rightarrow> {fst v} | None \<Rightarrow> {})"
definition objp :: "a68_obj \<Rightarrow> nat set" where "objp ob = bp (o_body ob)"

lemma ptr_simps [simp]: "slp (a, i) = {a}" "opn (Some a) = {a}" "opn None = {}" "opv (Some v) = vp v" "opv None = {}"
    "opsl (Some sl) = slp sl" "opsl None = {}"
  by (simp_all add: slp_def opn_def opv_def opsl_def)

named_theorems safe

lemma safe_bnd_unit [safe]: "opsafe A m no_ptr \<Longrightarrow> opsafe A (f ()) Q \<Longrightarrow> opsafe A (bnd m f) Q" for m :: "unit rt"
  by (rule opsafe_bnd [where P = no_ptr]) auto
lemma safe_bnd_nat: "opsafe A m ptr \<Longrightarrow> (\<And>x. opsafe (insert x A) (f x) Q) \<Longrightarrow> opsafe A (bnd m f) Q"
  by (rule opsafe_bnd [where P = ptr]) auto
lemma safe_bnd_val [safe]: "opsafe A m vp \<Longrightarrow> (\<And>x. opsafe (vp x \<union> A) (f x) Q) \<Longrightarrow> opsafe A (bnd m f) Q"
  by (rule opsafe_bnd [where P = vp]) (auto simp: Un_commute)
lemma safe_bnd_body [safe]: "opsafe A m bp \<Longrightarrow> (\<And>x. opsafe (bp x \<union> A) (f x) Q) \<Longrightarrow> opsafe A (bnd m f) Q"
  by (rule opsafe_bnd [where P = bp]) (auto simp: Un_commute)
lemma safe_bnd_obj [safe]: "opsafe A m objp \<Longrightarrow> (\<And>x. opsafe (objp x \<union> A) (f x) Q) \<Longrightarrow> opsafe A (bnd m f) Q"
  by (rule opsafe_bnd [where P = objp]) (auto simp: Un_commute)
lemma safe_bnd_slot [safe]: "opsafe A m slp \<Longrightarrow> (\<And>x. opsafe (slp x \<union> A) (f x) Q) \<Longrightarrow> opsafe A (bnd m f) Q"
  by (rule opsafe_bnd [where P = slp]) (auto simp: Un_commute)
lemma safe_bnd_rowd [safe]: "opsafe A m rwp \<Longrightarrow> (\<And>x. opsafe (rwp x \<union> A) (f x) Q) \<Longrightarrow> opsafe A (bnd m f) Q"
  by (rule opsafe_bnd [where P = rwp]) (auto simp: Un_commute)
lemma safe_bnd_opn [safe]: "opsafe A m opn \<Longrightarrow> (\<And>x. opsafe (opn x \<union> A) (f x) Q) \<Longrightarrow> opsafe A (bnd m f) Q"
  by (rule opsafe_bnd [where P = opn]) (auto simp: Un_commute)
lemma safe_bnd_opv [safe]: "opsafe A m opv \<Longrightarrow> (\<And>x. opsafe (opv x \<union> A) (f x) Q) \<Longrightarrow> opsafe A (bnd m f) Q"
  by (rule opsafe_bnd [where P = opv]) (auto simp: Un_commute)
lemma safe_bnd_opsl [safe]: "opsafe A m opsl \<Longrightarrow> (\<And>x. opsafe (opsl x \<union> A) (f x) Q) \<Longrightarrow> opsafe A (bnd m f) Q"
  by (rule opsafe_bnd [where P = opsl]) (auto simp: Un_commute)
lemma safe_bnd_vals [safe]: "opsafe A m vps \<Longrightarrow> (\<And>x. opsafe (vps x \<union> A) (f x) Q) \<Longrightarrow> opsafe A (bnd m f) Q"
  by (rule opsafe_bnd [where P = vps]) (auto simp: Un_commute)

text \<open>Results without pointers.\<close>

lemma safe_bnd_none: "opsafe A m no_ptr \<Longrightarrow> (\<And>x. opsafe A (f x) Q) \<Longrightarrow> opsafe A (bnd m f) Q"
  by (rule opsafe_bnd [where P = no_ptr]) auto
lemma safe_bnd_get [safe]: "(\<And>x. opsafe A (f x) Q) \<Longrightarrow> opsafe A (bnd (get g) f) Q"
  by (rule safe_bnd_none) (rule opsafe_get)
lemma safe_bnd_lift: "(\<And>x. opsafe A (f x) Q) \<Longrightarrow> opsafe A (bnd (lift_res r) f) Q"
  by (rule safe_bnd_none) (auto simp: opsafe_def lift_res_def split: sum.splits)

lemmas safe_basic [safe] = opsafe_ret opsafe_stop opsafe_die

lemma safe_each [safe]: "(\<And>x. x \<in> set xs \<Longrightarrow> opsafe A (f x) no_ptr) \<Longrightarrow> opsafe A (each xs f) no_ptr"
proof (induction xs)
  case (Cons x xs)
  have "opsafe A (bnd (f x) (\<lambda>_. each xs f)) no_ptr"
    by (rule safe_bnd_none) (use Cons in auto)
  then show ?case by simp
qed (simp add: opsafe_ret)

lemma safe_collect [safe]: "(\<And>x. x \<in> set xs \<Longrightarrow> opsafe A (f x) vp) \<Longrightarrow> opsafe A (collect_run xs f) vps"
proof (induction xs)
  case (Cons x xs)
  have "opsafe A (bnd (f x) (\<lambda>y. bnd (collect_run xs f) (\<lambda>ys. ret (y # ys)))) vps"
    by (rule safe_bnd_val, use Cons in simp, rule safe_bnd_vals, rule opsafe_weaken [OF Cons.IH])
      (use Cons in \<open>auto intro!: opsafe_ret\<close>)
  then show ?case by simp
qed (simp add: opsafe_ret)

section \<open>Objects\<close>

lemma rt_inv_obj: "rt_inv s \<Longrightarrow> heap s a = Some ob \<Longrightarrow> bp (o_body ob) \<subseteq> objs s"
  using rt_invD(5) by (simp add: bp_def objs_def)

lemma opsafe_get_obj [safe]: "opsafe A (get_obj a) objp"
  by (rule opsafeI) (auto simp: get_obj_def objp_def split: option.splits dest: rt_inv_obj)

lemma opsafe_get_body [safe]: "opsafe A (get_body a) bp"
  by (rule opsafeI) (auto simp: get_body_def get_obj_def bnd_eq_Inr split: option.splits dest: rt_inv_obj)

lemma roots_heap: "gc_roots (s\<lparr>heap := h\<rparr>) = gc_roots s"
  by (simp add: gc_roots_def)

lemma rt_inv_update:
  assumes inv: "rt_inv s" and h: "heap s a = Some ob"
    and sz: "o_size ob' = o_size ob" "o_mark ob' = o_mark ob"
    and fr: "o_body ob' = Freed \<longleftrightarrow> o_body ob = Freed" and ch: "bp (o_body ob') \<subseteq> objs s"
  shows "rt_inv (s\<lparr>heap := (heap s)(a \<mapsto> ob')\<rparr>)"
proof -
  let ?t = "s\<lparr>heap := (heap s)(a \<mapsto> ob')\<rparr>"
  have al: "alloc_ok s" using inv by (rule rt_invD)
  have bo: "blocks_ok ?t"
    using alloc_okD(2) [OF al] h by (auto simp: blocks_ok_def)
  have qo: "quar_ok ?t" "quarantined ?t = quarantined s"
    using alloc_okD(6) [OF al] by (simp_all add: quar_ok_def quarantined_def)
  have do: "dom ((heap s)(a \<mapsto> ob')) = dom (heap s)" using h by auto
  have "alloc_ok ?t"
    using alloc_okD(1,3,4,5) [OF al] alloc_okD(7) [OF al] alloc_okD(7) [OF al h] bo qo do sz
    by (simp add: alloc_ok_def)
  moreover have "rt_closed ?t"
    using rt_invD(5,6) [OF inv] ch by (auto simp: rt_closed_def roots_heap bp_def objs_def)
  moreover have "poison_ok ?t"
    using rt_invD(9) [OF inv] rt_invD(9) [OF inv h] fr by (auto simp: poison_ok_def)
  moreover have "heap_marked (heap ?t) = {}"
    using rt_invD(8) [OF inv] rt_invD(8) [OF inv h] sz by (auto simp: heap_marked_def)
  ultimately show ?thesis by (simp add: rt_inv_def)
qed

lemma objs_heap [simp]: "objs (s\<lparr>heap := h\<rparr>) = objs s"
  by (simp add: objs_def)

lemma opsafe_put_obj:
  assumes "\<And>ob. o_size (f ob) = o_size ob \<and> o_mark (f ob) = o_mark ob \<and> o_body (f ob) = o_body ob"
  shows "opsafe A (put_obj a f) no_ptr"
proof (rule opsafeI)
  fix s x t assume s: "rt_inv s" "put_obj a f s = Inr (x, t)"
  then obtain ob where ob: "heap s a = Some ob" "t = s\<lparr>heap := (heap s)(a \<mapsto> f ob)\<rparr>"
    by (auto simp: put_obj_def split: option.splits)
  have "rt_inv t" unfolding ob(2) by (rule rt_inv_update [OF s(1) ob(1)]) (use assms rt_inv_obj [OF s(1) ob(1)] in auto)
  then show "rt_inv t \<and> objs s \<subseteq> objs t \<and> {} \<subseteq> objs t" by (simp add: ob(2))
qed

lemma opsafe_set_rc [safe]: "opsafe A (set_rc a f) no_ptr"
  unfolding set_rc_def by (rule opsafe_put_obj) simp

text \<open>A body may be replaced in an object that is held, by pointers that are held.\<close>

lemma opsafe_set_body [safe]:
  assumes "a \<in> insert 0 A" and "bp b \<subseteq> insert 0 A" and "b \<noteq> Freed"
  shows "opsafe A (set_body a b) no_ptr"
proof (rule opsafeI)
  fix s x t assume s: "rt_inv s" "A \<subseteq> objs s" "set_body a b s = Inr (x, t)"
  then obtain ob where ob: "heap s a = Some ob" "t = s\<lparr>heap := (heap s)(a \<mapsto> ob\<lparr>o_body := b\<rparr>)\<rparr>"
    by (auto simp: set_body_def put_obj_def split: option.splits)
  have "a \<noteq> 0" using alloc_okD(7) [OF rt_invD(1) [OF s(1)] ob(1)] by simp
  then have "o_body ob \<noteq> Freed" using rt_invD(9) [OF s(1) ob(1)] assms(1) s(2) by (auto simp: objs_def)
  then have "rt_inv t" unfolding ob(2)
    by (intro rt_inv_update [OF s(1) ob(1)]) (use assms s(2) in \<open>auto simp: objs_def\<close>)
  then show "rt_inv t \<and> objs s \<subseteq> objs t \<and> {} \<subseteq> objs t" by (simp add: ob(2))
qed

lemma opsafe_obj_alloc [safe]:
  assumes "bp b \<subseteq> insert 0 A" and "b \<noteq> Freed"
  shows "opsafe A (obj_alloc b sz) ptr"
proof (rule opsafeI)
  fix s a t assume s: "rt_inv s" "A \<subseteq> objs s" "obj_alloc b sz s = Inr (a, t)"
  have al: "alloc_ok s" using s(1) by (rule rt_invD)
  note fr = obj_alloc_fresh [OF al s(3)]
  have o: "objs t = insert a (objs s)" using fr by (auto simp: objs_def)
  have roots: "gc_roots t = gc_roots s" using fr by (simp add: gc_roots_def)
  have "alloc_ok t" by (rule obj_alloc_ok [OF al s(3)])
  moreover have "rt_closed t"
    unfolding rt_closed_def roots
  proof (intro conjI allI impI)
    fix c ob assume "heap t c = Some ob"
    then have "bp (o_body ob) \<subseteq> insert 0 A \<or> heap s c = Some ob"
      using fr assms(1) by (auto simp: new_object_def split: if_splits)
    then show "set (obj_children (o_body ob)) \<subseteq> insert 0 (set (all_objects t))"
      using rt_inv_obj [OF s(1), of c ob] s(2) o by (auto simp: bp_def objs_def)
  qed (use rt_invD(6) [OF s(1)] o in \<open>auto simp: objs_def\<close>)
  moreover have "poison_ok t"
    using rt_invD(9) [OF s(1)] fr assms(2) by (auto simp: poison_ok_def new_object_def)
  moreover have "heap_marked (heap t) = {}"
    using rt_invD(8) [OF s(1)] fr by (auto simp: heap_marked_def new_object_def)
  ultimately show "rt_inv t \<and> objs s \<subseteq> objs t \<and> {a} \<subseteq> objs t" using o by (auto simp: rt_inv_def)
qed

lemma opsafe_leaf_alloc [safe]: "opsafe A (leaf_alloc ek n) ptr"
  unfolding leaf_alloc_def by (rule opsafe_obj_alloc) auto

lemma opsafe_slots_alloc [safe]: "opsafe A (slots_alloc n) ptr"
  unfolding slots_alloc_def by (rule opsafe_obj_alloc) auto

lemma opsafe_rowd_alloc [safe]: "opsafe A (rowd_alloc n) ptr"
  unfolding rowd_alloc_def by (rule opsafe_obj_alloc) auto

lemma opsafe_store_alloc_for [safe]: "opsafe A (store_alloc_for n v) ptr"
  unfolding store_alloc_for_def by (auto intro!: safe split: option.split)

lemmas safe_cases = obj_body.split a68_val.split option.split prod.split ekind.split if_split list.split

lemma opsafe_get_rowd [safe]: "opsafe A (get_rowd a) rwp"
  unfolding get_rowd_def by (auto intro!: safe simp: rwp_def split: safe_cases)

lemma opsafe_get_slots [safe]: "opsafe A (get_slots a) vps"
  unfolding get_slots_def by (auto intro!: safe split: safe_cases)

lemma body_cells_bp: "body_cells b = Some vs \<Longrightarrow> vps vs \<subseteq> bp b"
  by (cases b) auto

lemma opsafe_slot_read [safe]: "opsafe A (slot_read sl) vp"
  unfolding slot_read_def
  by (rule safe_bnd_body [OF opsafe_get_body])
    (auto intro!: safe split: option.split dest!: body_cells_bp dest: vp_nth [THEN subsetD])

text \<open>A slot is written in an object that is not poisoned, so it need not be held.\<close>

lemma opsafe_slot_write [safe]:
  assumes "vp v \<subseteq> insert 0 A"
  shows "opsafe A (slot_write sl v) no_ptr"
proof (rule opsafeI)
  fix s x t assume s: "rt_inv s" "A \<subseteq> objs s" "slot_write sl v s = Inr (x, t)"
  then obtain ob vs where h: "heap s (fst sl) = Some ob" and c: "body_cells (o_body ob) = Some vs"
    and t: "t = s\<lparr>heap := (heap s)(fst sl \<mapsto> ob\<lparr>o_body := body_with_cells (o_body ob) (vs[snd sl := v])\<rparr>)\<rparr>"
    by (auto simp: slot_write_def bnd_eq_Inr get_body_def get_obj_def set_body_def put_obj_def stop_def
        split: option.splits if_splits)
  have old: "bp (o_body ob) \<subseteq> objs s" by (rule rt_inv_obj [OF s(1) h])
  have new: "bp (body_with_cells (o_body ob) (vs[snd sl := v])) \<subseteq> bp (o_body ob) \<union> vp v"
    using c vps_update [of vs "snd sl" v] by (cases "o_body ob") auto
  have v: "vp v \<subseteq> objs s" using assms s(2) by (auto simp: objs_def)
  have "rt_inv t" unfolding t
    by (rule rt_inv_update [OF s(1) h]) (use c old new v in \<open>cases "o_body ob"; auto\<close>)+
  then show "rt_inv t \<and> objs s \<subseteq> objs t \<and> {} \<subseteq> objs t" by (simp add: t)
qed

lemma leaf_value_vp [simp]: "vp (leaf_value ek x) = {}"
  by (cases ek) auto

lemma store_get_bp: "store_get b i = Inr v \<Longrightarrow> vp v \<subseteq> bp b"
  by (cases b) (auto split: if_splits dest: vp_nth_int)

lemma opsafe_store_get [safe]: "bp b \<subseteq> insert 0 A \<Longrightarrow> opsafe A (lift_res (store_get b i)) vp"
  by (rule opsafeI) (auto simp: lift_res_def objs_def split: sum.splits dest!: store_get_bp)

lemma store_put_bp: "store_put b i v = Inr b' \<Longrightarrow> bp b' \<subseteq> bp b \<union> vp v \<and> b' \<noteq> Freed"
  using vps_update by (cases b) (fastforce split: if_splits)+

lemma opsafe_lift_Inr [safe]: "P x \<subseteq> insert 0 A \<Longrightarrow> opsafe A (lift_res (Inr x)) P"
  by (auto simp: opsafe_def lift_res_def objs_def)

lemma opsafe_lift_Inl [safe]: "opsafe A (lift_res (Inl e)) P"
  by (simp add: opsafe_def lift_res_def)

lemma safe_bnd_lift_int [safe]: "(\<And>x. opsafe A (f x) Q) \<Longrightarrow> opsafe A (bnd (lift_res r) f) Q" for r :: "int res"
  by (rule safe_bnd_lift)
lemma safe_bnd_lift_unit [safe]: "(\<And>x. opsafe A (f x) Q) \<Longrightarrow> opsafe A (bnd (lift_res r) f) Q" for r :: "unit res"
  by (rule safe_bnd_lift)
lemma safe_bnd_lift_nat [safe]: "(\<And>x. opsafe A (f x) Q) \<Longrightarrow> opsafe A (bnd (lift_res r) f) Q" for r :: "nat res"
  by (rule safe_bnd_lift)
lemma safe_bnd_lift_dims [safe]: "(\<And>x. opsafe A (f x) Q) \<Longrightarrow> opsafe A (bnd (lift_res r) f) Q"
  for r :: "(int \<times> a68_dim list) res"
  by (rule safe_bnd_lift)
lemma safe_bnd_lift_nats [safe]: "(\<And>x. opsafe A (f x) Q) \<Longrightarrow> opsafe A (bnd (lift_res r) f) Q" for r :: "nat list res"
  by (rule safe_bnd_lift)

declare safe_bnd_nat [safe]

lemma safe_bnd_bool [safe]: "opsafe A m no_ptr \<Longrightarrow> (\<And>x. opsafe A (f x) Q) \<Longrightarrow> opsafe A (bnd m f) Q" for m :: "bool rt"
  by (rule safe_bnd_none)
lemma safe_bnd_bytes [safe]: "opsafe A m no_ptr \<Longrightarrow> (\<And>x. opsafe A (f x) Q) \<Longrightarrow> opsafe A (bnd m f) Q" for m :: "u8 list rt"
  by (rule safe_bnd_none)
lemma safe_bnd_w32 [safe]: "opsafe A m no_ptr \<Longrightarrow> (\<And>x. opsafe A (f x) Q) \<Longrightarrow> opsafe A (bnd m f) Q" for m :: "u32 rt"
  by (rule safe_bnd_none)
lemma safe_bnd_w64 [safe]: "opsafe A m no_ptr \<Longrightarrow> (\<And>x. opsafe A (f x) Q) \<Longrightarrow> opsafe A (bnd m f) Q" for m :: "u64 rt"
  by (rule safe_bnd_none)
lemma safe_bnd_str [safe]: "opsafe A m no_ptr \<Longrightarrow> (\<And>x. opsafe A (f x) Q) \<Longrightarrow> opsafe A (bnd m f) Q" for m :: "string rt"
  by (rule safe_bnd_none)

section \<open>Rows\<close>

lemma opsafe_unborrow [safe]: "vp v \<subseteq> insert 0 A \<Longrightarrow> opsafe A (unborrow v) vp"
  unfolding unborrow_def by (auto intro!: safe simp: rwp_def split: a68_val.split)

lemma opsafe_store_set [safe]:
  assumes "st \<in> insert 0 A" and "vp v \<subseteq> insert 0 A"
  shows "opsafe A (store_set st i v) no_ptr"
proof -
  have put: "opsafe B (bnd (lift_res (store_put b i w)) (set_body st)) no_ptr"
    if B: "bp b \<subseteq> insert 0 B" "vp w \<subseteq> insert 0 B" "st \<in> insert 0 B" for b w B
  proof (cases "store_put b i w")
    case (Inl e)
    then show ?thesis by (simp add: opsafe_def lift_res_def bnd_def)
  next
    case (Inr b')
    then have "bnd (lift_res (store_put b i w)) (set_body st) = set_body st b'"
      by (intro ext) (simp add: lift_res_def bnd_def)
    then show ?thesis using store_put_bp [OF Inr] B by (auto intro!: opsafe_set_body)
  qed
  have one: "opsafe (bp b \<union> A) (case b of
     Slots _ \<Rightarrow> bnd (unborrow v) (\<lambda>v'. bnd (get_body st) (\<lambda>b'. bnd (lift_res (store_put b' i v')) (set_body st)))
   | _ \<Rightarrow> bnd (lift_res (store_put b i v)) (set_body st)) no_ptr" for b
  proof (cases b)
    case (Slots vs)
    have "opsafe (bp b \<union> A) (bnd (unborrow v) (\<lambda>v'. bnd (get_body st) (\<lambda>b'. bnd (lift_res (store_put b' i v')) (set_body st)))) no_ptr"
      by (rule safe_bnd_val [OF opsafe_unborrow], use assms in blast, rule safe_bnd_body [OF opsafe_get_body], rule put)
        (use assms in blast)+
    then show ?thesis by (simp add: Slots)
  next
    case (Leaf ek ds fs)
    have "opsafe (bp b \<union> A) (bnd (lift_res (store_put b i v)) (set_body st)) no_ptr"
      by (rule put) (use assms in blast)+
    then show ?thesis by (simp add: Leaf)
  qed (simp_all add: opsafe_def lift_res_def bnd_def)
  show ?thesis unfolding store_set_def by (rule safe_bnd_body [OF opsafe_get_body one])
qed

lemma opsafe_rowd_store [safe]: "r_base r \<in> insert 0 A \<Longrightarrow> opsafe A (rowd_store r) ptr"
  unfolding rowd_store_def by (auto intro!: safe split: obj_body.split)

lemma opsafe_rowd_owner [safe]: "p \<in> insert 0 A \<Longrightarrow> opsafe A (rowd_owner p) ptr"
  unfolding rowd_owner_def by (auto intro!: safe simp: rwp_def split: obj_body.split)

lemma opsafe_select_field [safe]: "vp e \<subseteq> insert 0 A \<Longrightarrow> opsafe A (select_field f e) slp"
  unfolding select_field_def by (auto intro!: safe split: a68_val.split)

lemma opsafe_rowd_get [safe]: "r_base r \<in> insert 0 A \<Longrightarrow> opsafe A (rowd_get r i) vp"
  unfolding rowd_get_def by (auto intro!: safe)

lemma opsafe_rowd_get_flat [safe]: "r_base r \<in> insert 0 A \<Longrightarrow> opsafe A (rowd_get_flat r i) vp"
  unfolding rowd_get_flat_def by (auto intro!: safe)

lemma opsafe_rowd_slot [safe]: "r_base r \<in> insert 0 A \<Longrightarrow> opsafe A (rowd_slot r i) opsl"
  unfolding rowd_slot_def by (auto intro!: safe split: obj_body.split dest: vp_nth_int)

lemma opsafe_store_copy [safe]: "opsafe A (store_copy st) ptr"
  unfolding store_copy_def by (auto intro!: safe split: obj_body.split)

lemma opsafe_own_store [safe]: "p \<in> insert 0 A \<Longrightarrow> opsafe A (own_store p) no_ptr"
  unfolding own_store_def by (auto intro!: safe simp: rwp_def)

lemma opsafe_rowd_share [safe]: "opsafe A (rowd_share p) ptr"
  unfolding rowd_share_def by (auto intro!: safe simp: rwp_def)

lemma opsafe_rowd_borrow [safe]: "opsafe A (rowd_borrow p) ptr"
  unfolding rowd_borrow_def by (auto intro!: safe simp: rwp_def)

lemma opsafe_copy_value_body:
  assumes "\<And>B w. vp w \<subseteq> insert 0 B \<Longrightarrow> opsafe B (self w) vp" and "vp v \<subseteq> insert 0 A"
  shows "opsafe A (copy_value_body self v) vp"
  unfolding copy_value_body_def using assms(2) by (auto intro!: safe assms(1) split: a68_val.split)

lemma opsafe_copy_value_n: "vp v \<subseteq> insert 0 A \<Longrightarrow> opsafe A (copy_value_n k v) vp"
  by (induction k arbitrary: A v) (auto intro!: safe opsafe_copy_value_body)

lemma opsafe_copy_value [safe]: "vp v \<subseteq> insert 0 A \<Longrightarrow> opsafe A (copy_value v) vp"
  unfolding copy_value_def by (auto intro!: safe opsafe_copy_value_n)

lemma opsafe_row_canonical_copy [safe]: "opsafe A (row_canonical_copy p) ptr"
  unfolding row_canonical_copy_def by (auto intro!: safe simp: rwp_def split: obj_body.split)

lemma opsafe_string_row [safe]: "opsafe A (string_row bs l) vp"
  unfolding string_row_def by (auto intro!: safe)

lemma opsafe_string_loop [safe]: "r_base d \<in> insert 0 A \<Longrightarrow> opsafe A (string_loop msg d is) no_ptr"
proof (induction "is" arbitrary: A)
  case (Cons i "is")
  have ih: "opsafe B (string_loop msg d is) no_ptr" if "r_base d \<in> insert 0 B" for B using Cons.IH that by blast
  show ?case using Cons.prems by (auto intro!: safe ih split: a68_val.split)
qed (auto intro!: safe)

lemma opsafe_string_bytes [safe]: "opsafe A (string_bytes p) no_ptr"
  unfolding string_bytes_def by (auto intro!: safe simp: rwp_def split: option.split)

section \<open>Names and assignment\<close>

lemma opsafe_ref_slot [safe]: "p \<in> insert 0 A \<Longrightarrow> opsafe A (ref_slot p aux) slp"
  unfolding ref_slot_def by (auto intro!: safe split: option.split)

lemma opsafe_ref_load [safe]: "p \<in> insert 0 A \<Longrightarrow> opsafe A (ref_load p aux) vp"
  unfolding ref_load_def by (auto intro!: safe simp: rwp_def split: obj_body.split)

lemma opsafe_deref [safe]: "vp r \<subseteq> insert 0 A \<Longrightarrow> opsafe A (deref r) vp"
  unfolding deref_def by (auto intro!: safe split: a68_val.split)

lemma opsafe_ref_rowd [safe]: "p \<in> insert 0 A \<Longrightarrow> opsafe A (ref_rowd p aux) opn"
  unfolding ref_rowd_def by (auto intro!: safe split: obj_body.split a68_val.split)

lemma opsafe_slot_put [safe]: "vp v \<subseteq> insert 0 A \<Longrightarrow> opsafe A (slot_put sl v) no_ptr"
  unfolding slot_put_def by (auto intro!: safe split: a68_val.split)

lemma opsafe_bounds_mismatch [safe]: "opsafe A bounds_mismatch P"
  unfolding bounds_mismatch_def by (rule opsafe_die)

lemma opsafe_widen_store [safe]: "owner \<in> insert 0 A \<Longrightarrow> opsafe A (widen_store owner st m) ptr"
  unfolding widen_store_def by (auto intro!: safe simp: rwp_def split: obj_body.split)

end
