(* ===== verification/RtSafeOps.thy ===== *)
theory RtSafeOps
  imports RtSafe
begin

text \<open>
  The program logic of \<open>RtSafe\<close> applied to assignment, names, slices, displays and the
  operators, and from them to the entry points of \<open>csrc/rt.c\<close>.
\<close>

section \<open>Assignment\<close>

declare neq0_conv [iff del]

text \<open>What is asked of an assignment to a slot; the slot itself need not be held.\<close>

definition put_safe :: "(nat \<times> nat \<Rightarrow> a68_val \<Rightarrow> bool \<Rightarrow> bool \<Rightarrow> unit rt) \<Rightarrow> bool" where
  "put_safe asg \<longleftrightarrow> (\<forall>A sl v f c. vp v \<subseteq> insert 0 A \<longrightarrow> opsafe A (asg sl v f c) no_ptr)"

lemma put_safeD: "put_safe asg \<Longrightarrow> vp v \<subseteq> insert 0 A \<Longrightarrow> opsafe A (asg sl v f c) no_ptr"
  unfolding put_safe_def by blast

lemma opsafe_rowd_put_with:
  assumes "put_safe asg" and "vp v \<subseteq> insert 0 A"
  shows "opsafe A (rowd_put_with asg p i v) no_ptr"
  unfolding rowd_put_with_def using assms(2)
  by (auto intro!: safe put_safeD [OF assms(1)] simp: rwp_def split: option.split)

lemma opsafe_row_copy_into_with:
  assumes asg: "put_safe asg" and "dst \<in> insert 0 A"
  shows "opsafe A (row_copy_into_with asg dst src) no_ptr"
  unfolding row_copy_into_with_def using assms(2)
  by (auto intro!: safe opsafe_rowd_put_with [OF asg] simp: rwp_def split: if_split)

lemma opsafe_row_replace [safe]: "dst \<in> insert 0 A \<Longrightarrow> opsafe A (row_replace dst src) no_ptr"
  unfolding row_replace_def by (auto intro!: safe simp: rwp_def split: obj_body.split)

lemma opsafe_assign_slot_body:
  assumes self: "put_safe self" and "vp v \<subseteq> insert 0 A"
  shows "opsafe A (assign_slot_body self sl v flex checked) no_ptr"
proof -
  have row: "opsafe (vp cur \<union> A) (case cur of
      VRow old \<Rightarrow> bnd (get_rowd old) (\<lambda>o'. bnd (get_rowd src) (\<lambda>s'.
        if checked \<and> \<not> flex \<and> \<not> same_bounds o' s' \<and> row_count o' \<noteq> 0 then bounds_mismatch
        else if \<not> flex \<and> same_bounds o' s' then row_copy_into_with self old src
        else row_replace old src))
    | _ \<Rightarrow> slot_put sl v) no_ptr" for cur src
    using assms(2) by (cases cur) (auto intro!: safe opsafe_row_copy_into_with [OF self])
  have copy: "opsafe (vp cur \<union> A) (bnd (copy_value v) (slot_put sl)) no_ptr" for cur
    using assms(2) by (auto intro!: safe)
  have struct: "opsafe (vp cur \<union> A) (case cur of
      VStruct d \<Rightarrow> bnd (get_slots d) (\<lambda>ds. bnd (get_slots c) (\<lambda>cs.
        if length ds = length cs
        then each [0..<length ds] (\<lambda>i. bnd (slot_read (c, i)) (\<lambda>e. self (d, i) e True False))
        else bnd (copy_value v) (slot_put sl)))
    | _ \<Rightarrow> bnd (copy_value v) (slot_put sl)) no_ptr" for cur c
    using assms(2) copy [of cur] by (cases cur) (auto intro!: safe put_safeD [OF self])
  show ?thesis
    unfolding assign_slot_body_def
    by (rule safe_bnd_val [OF opsafe_slot_read]) (use row copy struct in \<open>cases v; simp\<close>)
qed

lemma put_safe_assign_slot_n: "put_safe (assign_slot_n k)"
proof (induction k)
  case 0
  show ?case unfolding put_safe_def assign_slot_n.simps by (intro allI impI) (rule opsafe_stop)
next
  case (Suc k)
  show ?case unfolding put_safe_def assign_slot_n.simps
    by (intro allI impI) (rule opsafe_assign_slot_body [OF Suc])
qed

lemma opsafe_assign_slot [safe]: "vp v \<subseteq> insert 0 A \<Longrightarrow> opsafe A (assign_slot sl v flex checked) no_ptr"
  unfolding assign_slot_def by (auto intro!: safe put_safeD [OF put_safe_assign_slot_n])

lemma put_safe_assign_slot: "put_safe assign_slot"
  unfolding put_safe_def by (intro allI impI) (rule opsafe_assign_slot)

lemma opsafe_row_copy_into [safe]: "dst \<in> insert 0 A \<Longrightarrow> opsafe A (row_copy_into dst src) no_ptr"
  unfolding row_copy_into_def by (rule opsafe_row_copy_into_with [OF put_safe_assign_slot])

lemma opsafe_rowd_put [safe]: "vp v \<subseteq> insert 0 A \<Longrightarrow> opsafe A (rowd_put p i v) no_ptr"
  unfolding rowd_put_def by (rule opsafe_rowd_put_with [OF put_safe_assign_slot])

lemma opsafe_assign_view [safe]: "p \<in> insert 0 A \<Longrightarrow> opsafe A (assign_view p v) no_ptr"
  unfolding assign_view_def by (auto intro!: safe split: a68_val.split)

lemma opsafe_assign_ref [safe]:
  "vp d \<subseteq> insert 0 A \<Longrightarrow> vp v \<subseteq> insert 0 A \<Longrightarrow> opsafe A (assign_ref d v flex) no_ptr"
  unfolding assign_ref_def by (auto intro!: safe simp: rwp_def split: a68_val.split obj_body.split option.split; blast)

lemma opsafe_store_ref [safe]:
  "vp d \<subseteq> insert 0 A \<Longrightarrow> vp v \<subseteq> insert 0 A \<Longrightarrow> opsafe A (store_ref d v) no_ptr"
  unfolding store_ref_def by (auto intro!: safe simp: rwp_def split: a68_val.split obj_body.split option.split; blast)

lemma opsafe_ref_field [safe]: "vp r \<subseteq> insert 0 A \<Longrightarrow> opsafe A (ref_field r f) vp"
  unfolding ref_field_def by (auto intro!: safe simp: rwp_def split: a68_val.split obj_body.split option.split)

lemma opsafe_ref_elem [safe]: "p \<in> insert 0 A \<Longrightarrow> opsafe A (ref_elem p aux i) vp"
  unfolding ref_elem_def by (auto intro!: safe split: option.split)


section \<open>Appending\<close>

lemma opsafe_grow_store [safe]:
  assumes "bp b \<subseteq> insert 0 A"
  shows "opsafe A (grow_store st b cur need) ptr"
proof -
  have "vps (take k vs) \<subseteq> insert 0 A" if "b = Slots vs" for k vs
    using assms vps_take [of k vs] that by auto
  then show ?thesis
    unfolding grow_store_def Let_def by (auto intro!: safe split: obj_body.split; blast)
qed

lemma safe_bnd_natbool: "opsafe A m (\<lambda>(a, b). {a}) \<Longrightarrow> (\<And>x. opsafe (insert (fst x) A) (f x) Q) \<Longrightarrow> opsafe A (bnd m f) Q"
  for m :: "(nat \<times> bool) rt"
  by (rule opsafe_bnd [where P = "\<lambda>(a, b). {a}"]) (auto split: prod.splits)

lemma opsafe_append_one [safe]:
  assumes p: "p \<in> insert 0 A" and v: "vp (snd ie) \<subseteq> insert 0 A"
  shows "opsafe A (append_one p cur ie) no_ptr"
proof -
  have v': "vp (snd ie) \<subseteq> insert 0 B" if "A \<subseteq> B" for B using v that by blast
  show ?thesis
    unfolding append_one_def using p v
    by (auto intro!: safe safe_bnd_natbool v' simp: rwp_def split: prod.split)
qed

lemma opsafe_append_in_place [safe]:
  assumes "vps vs \<subseteq> insert 0 A"
  shows "opsafe A (append_in_place sl vs) no_ptr"
proof -
  have el: "x = 0 \<or> x \<in> A" if "x \<in> vp b" "b \<in> set vs" for x b
    using that assms vp_vps [of b vs] by blast
  show ?thesis
    unfolding append_in_place_def Let_def
    by (auto intro!: safe simp: rwp_def split: a68_val.split dest!: set_zip_rightD; use el in blast)
qed

lemma opsafe_ref_append_values [safe]: "vps vs \<subseteq> insert 0 A \<Longrightarrow> opsafe A (ref_append_values r vs) no_ptr"
  unfolding ref_append_values_def by (auto intro!: safe split: a68_val.split obj_body.split)

section \<open>Stack, frames, cells\<close>

lemma gc_roots_set: "set (gc_roots s) = vps (stack s) \<union> {env s} \<union> set (saved s) \<union> vps (io_roots s) \<union> set (native_roots s)"
  by (auto simp: gc_roots_def set_val_ptrs)

definition same_heap :: "rt_state \<Rightarrow> rt_state \<Rightarrow> bool" where
  "same_heap s t \<longleftrightarrow> heap t = heap s \<and> all_objects t = all_objects s \<and> free_lists t = free_lists s \<and>
     next_addr t = next_addr s \<and> block_cap t = block_cap s \<and> quarantine t = quarantine s"

lemma rt_inv_roots:
  assumes inv: "rt_inv s" and sh: "same_heap s t" and r: "set (gc_roots t) \<subseteq> objs s"
  shows "rt_inv t \<and> objs t = objs s"
proof -
  have e: "heap t = heap s" "all_objects t = all_objects s" "free_lists t = free_lists s" "next_addr t = next_addr s"
      "block_cap t = block_cap s" "quarantine t = quarantine s" using sh by (simp_all add: same_heap_def)
  have "alloc_ok t" using rt_invD(1) [OF inv] e by (simp add: alloc_ok_def blocks_ok_def quar_ok_def quarantined_def)
  moreover have "rt_closed t" using rt_invD(2) [OF inv] r e by (simp add: rt_closed_def objs_def)
  moreover have "poison_ok t" "heap_marked (heap t) = {}" using rt_invD(3,4) [OF inv] e by (simp_all add: poison_ok_def)
  ultimately show ?thesis using e by (simp add: rt_inv_def objs_def)
qed

lemma rt_inv_root_objs: "rt_inv s \<Longrightarrow> set (gc_roots s) \<subseteq> objs s"
  using rt_invD(6) [of s] by (simp add: objs_def)

text \<open>A step that changes only the roots, to values it holds or that were roots before.\<close>

lemma opsafe_roots:
  assumes "\<And>s x t. m s = Inr (x, t) \<Longrightarrow> same_heap s t \<and> set (gc_roots t) \<subseteq> insert 0 (set (gc_roots s) \<union> A) \<and>
    P x \<subseteq> insert 0 (set (gc_roots s) \<union> A)"
  shows "opsafe A m P"
proof (rule opsafeI)
  fix s x t assume s: "rt_inv s" "A \<subseteq> objs s" "m s = Inr (x, t)"
  note a = assms [OF s(3)]
  have r: "set (gc_roots s) \<subseteq> objs s" by (rule rt_inv_root_objs [OF s(1)])
  have "0 \<in> objs s" by (simp add: objs_def)
  then have sub: "insert 0 (set (gc_roots s) \<union> A) \<subseteq> objs s" using r s(2) by blast
  have "rt_inv t \<and> objs t = objs s" by (rule rt_inv_roots [OF s(1)]) (use a sub in blast)+
  then show "rt_inv t \<and> objs s \<subseteq> objs t \<and> P x \<subseteq> objs t" using a sub by blast
qed

lemma opsafe_push [safe]: "vp v \<subseteq> insert 0 A \<Longrightarrow> opsafe A (push v) no_ptr"
  by (rule opsafe_roots) (auto simp: push_def same_heap_def gc_roots_set)

lemma opsafe_underflow [safe]: "opsafe A underflow P"
  unfolding underflow_def by (rule opsafe_stop)

lemma opsafe_pop [safe]: "opsafe A pop vp"
  by (rule opsafe_roots) (auto simp: pop_def underflow_def same_heap_def gc_roots_set split: list.splits)

lemma opsafe_top_val [safe]: "opsafe A top_val vp"
  by (rule opsafe_roots) (auto simp: top_val_def underflow_def same_heap_def gc_roots_set split: list.splits)

lemma opsafe_drop_stack [safe]: "opsafe A (drop_stack n) no_ptr"
  by (rule opsafe_roots) (use vps_drop in \<open>fastforce simp: drop_stack_def same_heap_def gc_roots_set\<close>)

lemma opsafe_set_stack [safe]: "opsafe A (modify (\<lambda>s. s\<lparr>stack := drop (f s) (stack s)\<rparr>)) no_ptr"
  by (rule opsafe_roots) (use vps_drop in \<open>fastforce simp: same_heap_def gc_roots_set\<close>)

lemma opsafe_top_n [safe]: "opsafe A (top_n n) vps"
  by (rule opsafe_roots)
    (use vps_take in \<open>fastforce simp: top_n_def underflow_def same_heap_def gc_roots_set split: if_splits\<close>)

lemma opsafe_get_env [safe]: "opsafe A (get env) ptr"
  by (rule opsafe_roots) (auto simp: same_heap_def gc_roots_set)

lemma safe_bnd_env: "(\<And>x. opsafe (insert x A) (f x) Q) \<Longrightarrow> opsafe A (bnd (get env) f) Q"
  by (rule safe_bnd_nat [OF opsafe_get_env])

lemma opsafe_set_env [safe]: "f \<in> insert 0 A \<Longrightarrow> opsafe A (set_env f) no_ptr"
  by (rule opsafe_roots) (auto simp: set_env_def same_heap_def gc_roots_set)

lemma opsafe_env_set [safe]: "f \<in> insert 0 A \<Longrightarrow> opsafe A (env_set f) no_ptr"
  by (rule opsafe_roots) (auto simp: env_set_def same_heap_def gc_roots_set)

lemma opsafe_env_restore [safe]: "opsafe A env_restore no_ptr"
  by (rule opsafe_roots) (auto simp: env_restore_def same_heap_def gc_roots_set split: list.splits)

lemma opsafe_env_saved_truncate [safe]: "opsafe A (env_saved_truncate n) no_ptr"
proof (rule opsafe_roots)
  fix s x t assume m: "env_saved_truncate n s = Inr (x, t)"
  have "rev (saved s) ! n \<in> set (saved s)" if "n < length (saved s)"
    using nth_mem [of n "rev (saved s)"] that by simp
  then show "same_heap s t \<and> set (gc_roots t) \<subseteq> insert 0 (set (gc_roots s) \<union> A) \<and> {} \<subseteq> insert 0 (set (gc_roots s) \<union> A)"
    using m by (cases "n < length (saved s)")
      (auto simp: env_saved_truncate_def same_heap_def gc_roots_set dest: in_set_dropD)
qed

lemma opsafe_rt_stack_truncate [safe]: "opsafe A (rt_stack_truncate d) no_ptr"
proof (rule opsafe_roots)
  fix s x t assume m: "rt_stack_truncate d s = Inr (x, t)"
  show "same_heap s t \<and> set (gc_roots t) \<subseteq> insert 0 (set (gc_roots s) \<union> A) \<and> {} \<subseteq> insert 0 (set (gc_roots s) \<union> A)"
    using m vps_drop [of "length (stack s) - unat d" "stack s"]
    by (cases "unat d < length (stack s)") (auto simp: rt_stack_truncate_def same_heap_def gc_roots_set)
qed

lemma opsafe_rt_nip [safe]: "opsafe A rt_nip no_ptr"
  by (rule opsafe_roots) (auto simp: rt_nip_def same_heap_def gc_roots_set split: list.splits)

lemma opsafe_flags [safe]: "opsafe A rt_jump_clear no_ptr" "opsafe A (rt_raise_jump l) no_ptr" "opsafe A (rt_line k) no_ptr"
  by (rule opsafe_roots; auto simp: rt_jump_clear_def rt_raise_jump_def rt_line_def same_heap_def gc_roots_set)+

end
