(* ===== verification/RtEntries.thy ===== *)
theory RtEntries
  imports RtSafeOps
begin

text \<open>
  Every entry point of \<open>csrc/rt.c\<close> keeps the invariant of the run-time system, the safe point at
  its start included. What the code calls in other modules is constrained only by the same
  condition: it may not break the invariant, and what it returns is null, an object, or no
  pointer.
\<close>

section \<open>Frames and cells\<close>

abbreviation frp :: "nat \<times> nat \<times> a68_val list \<Rightarrow> nat set" where
  "frp \<equiv> \<lambda>x. insert (fst x) (vps (snd (snd x)))"

lemma safe_bnd_frame [safe]:
  "opsafe A m frp \<Longrightarrow> (\<And>x. opsafe (insert (fst x) (vps (snd (snd x))) \<union> A) (f x) Q) \<Longrightarrow> opsafe A (bnd m f) Q"
  by (rule opsafe_bnd [where P = frp]) (auto simp: Un_commute)

lemma opsafe_get_frame [safe]: "opsafe A (get_frame p) frp"
  unfolding get_frame_def by (auto intro!: safe split: obj_body.split)

lemma opsafe_frame_depth: "opsafe A (frame_depth e) no_ptr"
  unfolding frame_depth_def by (auto intro!: safe split: prod.split)

lemma safe_bnd_frame_depth [safe]: "(\<And>x. opsafe A (f x) Q) \<Longrightarrow> opsafe A (bnd (frame_depth e) f) Q"
  by (rule safe_bnd_none [OF opsafe_frame_depth])

lemma opsafe_frame_alloc [safe]: "opsafe A (frame_alloc n) ptr"
  unfolding frame_alloc_def by (auto intro!: safe_bnd_env safe_bnd_frame_depth opsafe_obj_alloc)

lemma opsafe_frame_out [safe]: "p \<in> insert 0 A \<Longrightarrow> opsafe A (frame_out k p) ptr"
proof (induction k arbitrary: p A)
  case (Suc k)
  have ih: "opsafe B (frame_out k q) ptr" if "q \<in> insert 0 B" for q B using Suc.IH that by blast
  show ?case by (auto intro!: safe ih split: prod.split)
qed (auto intro!: safe)

lemma opsafe_frame_range_error [safe]: "opsafe A (frame_range_error d s) P"
  unfolding frame_range_error_def by (rule opsafe_stop)

lemma opsafe_cell_of [safe]: "opsafe A (cell_of d s) slp"
  unfolding cell_of_def by (rule safe_bnd_env) (auto intro!: safe split: prod.split)

lemma opsafe_cell_val [safe]: "opsafe A (cell_val d s) vp"
  unfolding cell_val_def by (auto intro!: safe)

lemma opsafe_pop_args [safe]: "opsafe A (pop_args f n k) no_ptr"
proof (induction k arbitrary: A)
  case (Suc k)
  show ?case by (auto intro!: safe Suc.IH)
qed (auto intro!: safe)

lemma opsafe_strtab_at [safe]: "opsafe A (strtab_at i) no_ptr"
  unfolding strtab_at_def by (auto intro!: safe)

lemma opsafe_big_of_string [safe]: "opsafe A (big_of_string bs) ptr"
  unfolding big_of_string_def by (auto intro!: safe)

lemma opsafe_truncate_loop [safe]: "opsafe A (truncate_loop k d) no_ptr"
proof (induction k arbitrary: A)
  case (Suc k)
  show ?case unfolding truncate_loop.simps
    by (rule safe_bnd_env) (auto intro!: safe Suc.IH split: prod.split)
qed (auto intro!: safe)

section \<open>Values of the primitive modes\<close>

lemma opsafe_as [safe]: "opsafe A (as_int v) no_ptr" "opsafe A (as_real g v) no_ptr" "opsafe A (as_bool v) no_ptr"
    "opsafe A (as_char v) no_ptr" "opsafe A (as_bits v) no_ptr"
  unfolding as_int_def as_real_def as_bool_def as_char_def as_bits_def
  by (auto intro!: safe split: a68_val.split)

section \<open>Rows\<close>

lemma opsafe_cell_rowd [safe]: "opsafe A (cell_rowd sl) ptr"
  unfolding cell_rowd_def by (auto intro!: safe split: a68_val.split option.split)

lemma opsafe_row_elem [safe]: "opsafe A (row_elem d s rank i j) vp"
  unfolding row_elem_def by (auto intro!: safe simp: rwp_def)

lemma opsafe_row_set_elem [safe]: "vp v \<subseteq> insert 0 A \<Longrightarrow> opsafe A (row_set_elem d s rank i j v) no_ptr"
  unfolding row_set_elem_def by (auto intro!: safe simp: rwp_def)

lemma opsafe_slice_into [safe]: "p \<in> insert 0 A \<Longrightarrow> opsafe A (slice_into p nm ixs) vp"
  unfolding slice_into_def by (auto intro!: safe simp: rwp_def split: prod.split)

lemma opsafe_slice_checked [safe]: "p \<in> insert 0 A \<Longrightarrow> opsafe A (slice_checked p nm ixs) vp"
  unfolding slice_checked_def by (auto intro!: safe)

lemma safe_bnd_ixs [safe]: "opsafe A m no_ptr \<Longrightarrow> (\<And>x. opsafe A (f x) Q) \<Longrightarrow> opsafe A (bnd m f) Q" for m :: "indexer list rt"
  by (rule safe_bnd_none)
lemma safe_bnd_take [safe]: "opsafe A m no_ptr \<Longrightarrow> (\<And>x. opsafe A (f x) Q) \<Longrightarrow> opsafe A (bnd m f) Q"
  for m :: "(int option \<times> a68_val list) rt"
  by (rule safe_bnd_none)
lemma safe_bnd_dims [safe]: "opsafe A m no_ptr \<Longrightarrow> (\<And>x. opsafe A (f x) Q) \<Longrightarrow> opsafe A (bnd m f) Q" for m :: "a68_dim list rt"
  by (rule safe_bnd_none)

lemma opsafe_take_value [safe]: "opsafe A (take_value b vs) no_ptr"
  unfolding take_value_def by (auto intro!: safe split: list.split)

lemma opsafe_read_indexers [safe]: "opsafe A (read_indexers ks vs) no_ptr"
proof (induction ks arbitrary: vs)
  case (Cons k ks)
  show ?case by (auto intro!: safe Cons.IH split: list.split prod.split)
next
  case Nil
  show ?case unfolding read_indexers.simps by (rule opsafe_ret) simp
qed

lemma opsafe_read_bounds [safe]: "opsafe A (read_bounds n vs) no_ptr"
proof (induction n arbitrary: vs)
  case (Suc n)
  show ?case by (auto intro!: safe Suc.IH split: list.split a68_val.split)
qed (auto intro!: safe)

lemma opsafe_struct_display [safe]:
  assumes "vps vs \<subseteq> insert 0 A"
  shows "opsafe A (struct_display vs) vp"
proof -
  have el: "x = 0 \<or> x \<in> A" if "x \<in> vp b" "b \<in> set vs" for x b
    using that assms vp_vps [of b vs] by blast
  show ?thesis unfolding struct_display_def
    by (auto intro!: safe split: prod.split dest!: set_zip_rightD; use el in blast)
qed

lemma opsafe_row_display [safe]:
  assumes "vps vs \<subseteq> insert 0 A"
  shows "opsafe A (row_display vs) vp"
proof -
  have el: "x = 0 \<or> x \<in> A" if "x \<in> vp b" "b \<in> set vs" for x b
    using that assms vp_vps [of b vs] by blast
  show ?thesis unfolding row_display_def
    by (auto intro!: safe split: prod.split dest!: set_zip_rightD; use el in blast)
qed

lemma opsafe_empty_display [safe]: "opsafe A (empty_display n) vp"
  unfolding empty_display_def by (auto intro!: safe)

lemma opsafe_row_operand [safe]: "opsafe A (row_operand v) rwp"
  unfolding row_operand_def by (auto intro!: safe split: a68_val.split)

lemma opsafe_operand_store [safe]: "r_base r \<in> insert 0 A \<Longrightarrow> opsafe A (operand_store r) bp"
  unfolding operand_store_def by (auto intro!: safe)

lemma safe_collect_none: "(\<And>x. x \<in> set xs \<Longrightarrow> opsafe A (f x) no_ptr) \<Longrightarrow> opsafe A (collect_run xs f) no_ptr"
proof (induction xs)
  case (Cons x xs)
  have "opsafe A (bnd (f x) (\<lambda>y. bnd (collect_run xs f) (\<lambda>ys. ret (y # ys)))) no_ptr"
    by (rule safe_bnd_none, use Cons in simp, rule safe_bnd_none, use Cons in simp) (auto intro!: opsafe_ret)
  then show ?case by simp
qed (simp add: opsafe_ret)

lemma opsafe_rows_display [safe]: "opsafe A (rows_display vs) vp"
proof -
  have st: "opsafe B (collect_run vs (\<lambda>v. bnd (row_operand v) operand_store)) no_ptr" for B
    by (rule safe_collect_none, rule opsafe_none [where P = bp and A = B]) (auto intro!: safe simp: rwp_def)
  show ?thesis unfolding rows_display_def Let_def
    by (auto intro!: safe safe_bnd_none [OF st] simp: rwp_def split: prod.split obj_body.split)
qed

lemma opsafe_row_field_select [safe]: "opsafe A (row_field_select p i) vp"
  unfolding row_field_select_def by (auto intro!: safe simp: rwp_def split: a68_val.split)

lemma opsafe_select_fields [safe]: "vp v \<subseteq> insert 0 A \<Longrightarrow> opsafe A (select_fields fl ks v) vp"
proof (induction ks arbitrary: v A)
  case (Cons k ks)
  have ih: "opsafe B (select_fields fl ks w) vp" if "vp w \<subseteq> insert 0 B" for w B using Cons.IH that by blast
  have nth: "x \<in> vps fs" if "x \<in> vp (fs ! f)" "f < length fs" for x f fs
    using that vp_nth [of f fs] by auto
  show ?case using Cons.prems by (auto intro!: safe ih split: a68_val.split simp: not_le dest!: nth)
qed (auto intro!: safe)

lemma opsafe_sel_read [safe]: "opsafe A (sel_read d s spec i j fl) vp"
  unfolding sel_read_def by (auto intro!: safe simp: rwp_def split: a68_val.split)

lemma opsafe_ref_fields [safe]: "vp r \<subseteq> insert 0 A \<Longrightarrow> opsafe A (ref_fields fl ks r) vp"
proof (induction ks arbitrary: r A)
  case (Cons k ks)
  have ih: "opsafe B (ref_fields fl ks w) vp" if "vp w \<subseteq> insert 0 B" for w B using Cons.IH that by blast
  show ?case using Cons.prems by (auto intro!: safe ih)
qed (auto intro!: safe)

lemma opsafe_sel_ref [safe]: "opsafe A (sel_ref d s spec i j fl) vp"
proof -
  have "opsafe B (bnd (get env) (\<lambda>e. bnd (frame_out (unat d) e) (\<lambda>f. ret (VRef f (s * 16))))) vp" for B
    by (rule safe_bnd_env) (auto intro!: safe)
  then have "opsafe B (if and spec 4 \<noteq> 0 then bnd (cell_val d s) (\<lambda>v.
            if v = VUndef then die ''attempt to use an uninitialised value''
            else if v = VNil then die ''attempt to select from NIL'' else ret v)
          else bnd (get env) (\<lambda>e. bnd (frame_out (unat d) e) (\<lambda>f. ret (VRef f (s * 16))))) vp" for B
    by (simp, intro impI, intro safe) (auto intro!: safe)
  then show ?thesis
    unfolding sel_ref_def
    by (rule safe_bnd_val) (auto intro!: safe simp: rwp_def split: a68_val.split option.split)
qed

lemma opsafe_defined_or_die [safe]: "opsafe A (defined_or_die v) no_ptr"
  unfolding defined_or_die_def by (auto intro!: safe)

section \<open>Appending, operators\<close>

text \<open>What the other modules of the run-time system may do when they are called.\<close>

definition concat_ok :: "(a68_val \<Rightarrow> a68_val \<Rightarrow> a68_val rt) \<Rightarrow> bool" where
  "concat_ok f \<longleftrightarrow> (\<forall>A a b. vp a \<subseteq> insert 0 A \<longrightarrow> vp b \<subseteq> insert 0 A \<longrightarrow> opsafe A (f a b) vp)"

lemma opsafe_append_fallback [safe]:
  assumes c: "concat_ok f" and v: "vp v \<subseteq> insert 0 A"
  shows "opsafe A (append_fallback f d s v) no_ptr"
proof -
  have f: "opsafe B (f a v) vp" if "vp a \<subseteq> insert 0 B" "A \<subseteq> B" for a B
    using c v that unfolding concat_ok_def by blast
  show ?thesis unfolding append_fallback_def
    by (rule safe_bnd_env) (auto intro!: safe f)
qed

lemma opsafe_if: "opsafe A x P \<Longrightarrow> opsafe A y P \<Longrightarrow> opsafe A (if c then x else y) P"
  by simp

lemma opsafe_lift_if: "opsafe A (lift_res x) P \<Longrightarrow> opsafe A (lift_res y) P \<Longrightarrow> opsafe A (lift_res (if c then x else y)) P"
  by simp

lemma opsafe_lift_bind: "(\<And>x. opsafe A (lift_res (f x)) P) \<Longrightarrow> opsafe A (lift_res (bindE r f)) P"
  by (cases r) (auto simp: opsafe_lift_Inl)

lemmas lift_rules = opsafe_lift_if opsafe_lift_bind opsafe_lift_Inr opsafe_lift_Inl

lemma vp_int_val [simp]: "vp (int_val i) = {}"
  by (simp add: int_val_def)

lemma opsafe_int_ops [safe]:
  "opsafe A (lift_res (int_dyop nm x y)) opv" "opsafe A (lift_res (int_assign_op nm x y)) opv"
  "opsafe A (lift_res (int_monop nm x)) opv"
  unfolding int_dyop_def int_assign_op_def int_monop_def by ((intro lift_rules)?; simp)+

lemma opsafe_real_monop [safe]: "opsafe A (lift_res (real_monop F nm x)) opv"
  unfolding real_monop_def Let_def by ((intro lift_rules)?; simp)

lemma opsafe_bound_ops [safe]: "opsafe A (lift_res (bound_dyop nm k d)) opv" "opsafe A (lift_res (row_monop nm d)) opv"
  unfolding bound_dyop_def row_monop_def by (auto intro!: lift_rules split: list.split)

lemma opsafe_bits_ops [safe]: "opsafe A (lift_res (shift_dyop nm x k)) opv" "opsafe A (lift_res (elem_dyop nm k x)) opv"
  unfolding shift_dyop_def elem_dyop_def Let_def by ((intro lift_rules)?; simp)+

lemma opv_plain [simp]: "opv (bits_dyop nm x y) = {}" "opv (bool_dyop nm p q) = {}" "opv (bits_monop nm x) = {}"
  by (auto simp: bits_dyop_def bool_dyop_def bits_monop_def)

lemma opsafe_mk_compl [safe]: "opsafe A (mk_compl x y) vp"
  unfolding mk_compl_def by (auto intro!: safe)

lemma opsafe_some_real [safe]: "opsafe A (some_real r) opv"
  unfolding some_real_def by (auto intro!: safe safe_bnd_lift)

lemma opsafe_real_dyop [safe]: "opsafe A (real_dyop F nm x y) opv"
  unfolding real_dyop_def by (auto intro!: safe)

lemma opsafe_real_assign_op [safe]: "opsafe A (real_assign_op F nm x y) opv"
  unfolding real_assign_op_def by (auto intro!: safe)

lemma opsafe_string_dyop [safe]: "opsafe A (string_dyop nm p q) opv"
  unfolding string_dyop_def by (auto intro!: safe)

lemma opsafe_is_char_leaf [safe]: "opsafe A (is_char_leaf v) no_ptr"
  unfolding is_char_leaf_def by (auto intro!: safe simp: rwp_def split: a68_val.split obj_body.split)

lemma opsafe_is_string_row [safe]: "opsafe A (is_string_row v) no_ptr"
  unfolding is_string_row_def by (auto intro!: safe split: a68_val.split)

lemma opsafe_native_dyop [safe]: "opsafe A (native_dyop t F nm m1 m2 a b) opv"
  unfolding native_dyop_def by ((intro opsafe_if safe)?; (simp split: if_split)?; blast?)

lemma opsafe_append_assign [safe]: "p \<in> insert 0 A \<Longrightarrow> opsafe A (append_assign nm p aux b) opv"
  unfolding append_assign_def by (auto intro!: safe simp: rwp_def split: obj_body.split a68_val.split if_splits)

lemma opsafe_native_assign_op [safe]: "vp a \<subseteq> insert 0 A \<Longrightarrow> opsafe A (native_assign_op t F nm m1 a b) opv"
  unfolding native_assign_op_def Let_def by (auto intro!: safe split: a68_val.split option.split; blast)

lemma opsafe_native_monop [safe]: "opsafe A (native_monop t F nm m v) opv"
  unfolding native_monop_def by ((intro opsafe_if safe)?; (simp split: if_split)?)

end
