(* ===== verification/RtMachine.thy ===== *)
theory RtMachine
  imports RtEntries
begin

text \<open>
  The machine a compiled program drives: start-up (\<open>a68rt_boot\<close>, \<open>gc_init\<close>), the entry points of
  \<open>csrc/rt.c\<close> as a datatype of calls with one interpretation each, and the states a sequence of
  calls can reach. \<open>rt_ext\<close> holds what the calls use of the other modules. The theorem of this
  theory is the memory safety of the run-time system: in every reachable state every pointer in
  an object and every root is null or an object the collector knows, and nothing is freed twice
  or reused while it is on a free list.
\<close>

section \<open>Start-up\<close>

text \<open>\<open>strtoull (h, NULL, 10)\<close> and \<open>strstr\<close>.\<close>

definition strtoull :: "string \<Rightarrow> nat" where
  "strtoull s = (case dropWhile is_space s of
     [] \<Rightarrow> 0
   | c # cs \<Rightarrow> if c = CHR ''-'' then nat ((- int (min (digits_val (takeWhile is_digit cs)) (2 ^ 64 - 1))) mod 2 ^ 64)
              else if c = CHR ''+'' then min (digits_val (takeWhile is_digit cs)) (2 ^ 64 - 1)
              else min (digits_val (takeWhile is_digit (c # cs))) (2 ^ 64 - 1))"

fun has_sub :: "string \<Rightarrow> string \<Rightarrow> bool" where
  "has_sub pat [] = (pat = [])"
| "has_sub pat (c # cs) = (take (length pat) (c # cs) = pat \<or> has_sub pat cs)"

definition rt_zero :: "nat \<Rightarrow> rt_state" where
  "rt_zero limit = \<lparr>heap = (\<lambda>_. None), all_objects = [], free_lists = (\<lambda>_. []), next_addr = 1, block_cap = (\<lambda>_. 0),
     bytes_allocated = 0, bytes_live = 0, gc_wanted = False, gc_off = False, gc_stress = False, gc_verify = False,
     gc_limit = 0, gc_min_between = 8388608, gc_collections = 0, gc_freed_bytes = 0, gc_peak_live = 0,
     quarantine = (\<lambda>_. []), stack = [], env = 0, saved = [], io_roots = [], native_roots = [], jump_flag = 0,
     line_no = 0, strtab = [], depth_limit = limit\<rparr>"

text \<open>The arguments are the values of \<open>A68LEAN_GC\<close> and \<open>A68LEAN_HEAP\<close>.\<close>

definition gc_init :: "string option \<Rightarrow> string option \<Rightarrow> rt_state \<Rightarrow> rt_state" where
  "gc_init m h s =
     (let s1 = (case m of None \<Rightarrow> s
        | Some x \<Rightarrow> s\<lparr>gc_off := gc_off s \<or> has_sub ''off'' x, gc_stress := gc_stress s \<or> has_sub ''stress'' x,
                     gc_verify := gc_verify s \<or> has_sub ''verify'' x\<rparr>)
      in case h of None \<Rightarrow> s1 | Some x \<Rightarrow> s1\<lparr>gc_limit := strtoull x\<rparr>)"

definition rt_boot :: "nat \<Rightarrow> string option \<Rightarrow> string option \<Rightarrow> string \<Rightarrow> rt_state" where
  "rt_boot limit m h blob = (gc_init m h (rt_zero limit))\<lparr>strtab := t_strs (tables_parse blob), jump_flag := 0\<rparr>"

section \<open>The calls\<close>

record rt_ext =
  x_tables :: a68_tables
  x_dbl :: dbl_ops
  x_dyadic :: "string \<Rightarrow> nat \<Rightarrow> nat \<Rightarrow> a68_val \<Rightarrow> a68_val \<Rightarrow> a68_val rt"
  x_monadic :: "string \<Rightarrow> nat \<Rightarrow> a68_val \<Rightarrow> a68_val rt"
  x_widen :: "nat \<Rightarrow> nat \<Rightarrow> a68_val \<Rightarrow> a68_val rt"
  x_default :: "nat \<Rightarrow> a68_val rt"
  x_concat :: "a68_val \<Rightarrow> a68_val \<Rightarrow> a68_val rt"
  x_builtin :: "u32 \<Rightarrow> nat \<Rightarrow> a68_val rt"
  x_dispatch :: "nat \<Rightarrow> unit rt"
  x_conform :: "nat \<Rightarrow> nat \<Rightarrow> bool"
  x_is_union :: "nat \<Rightarrow> bool"

datatype push_call =
    PushInt "64 word" | PushReal u64 | PushBool u8 | PushChar u32 | PushBits u64 | PushUndef | PushNil | PushVoid
  | PushBuiltin u32 | PushFile u32 | PushBigint u32 | PushBigbits u32 | PushStr u32 | PushBytes "u8 list" int
  | PushSkip nat | PushProc u32 u32 | PushFormat u32

datatype stack_call =
    PopBytes | Pop | Dup | Nip | StackTruncate u32 | PopInt | PopReal | PopBool | PopChar | PopBits
  | Voiding | IdentRel bool | CaseIndex nat

datatype env_call =
    Enter nat | EnterArgs nat nat | Leave | EnvTruncate nat | FrameCells u32
  | EnvSet | EnvRestore | EnvSavedTruncate nat | JumpClear | RaiseJump u32 | Line u32

datatype cell_call =
    PushCell u32 u32 | PushRef u32 u32 | Store u32 u32 | BindCell u32 u32 | SetCell u32 u32 a68_val
  | CellInt u32 u32 | CellReal u32 u32 | CellBool u32 u32 | CellChar u32 u32 | CellBits u32 u32
  | CellIsnil u32 u32 | CellCproc u32 u32 | AppendChar u32 u32 u32 | Append u32 u32

datatype row_call =
    RowElem u32 u32 nat "64 word" "64 word" | SetRowElem u32 u32 nat "64 word" "64 word" a68_val
  | Slice nat u64 bool | NewRowOf nat "ekind option" | Collateral nat bool nat
  | SelPush u32 u32 u32 "64 word" "64 word" u32 | SelStore u32 u32 u32 u32 u32 "64 word" "64 word" u32
  | SelRead u32 u32 u32 "64 word" "64 word" u32 | SetSel u32 u32 u32 "64 word" "64 word" u32 a68_val
  | Select nat bool

datatype op_call =
    Assign bool | Gen | Deref | RowOf | Unite u32 | Deproc | Call nat | Dyop u32 nat nat | Monop u32 nat
  | Widen nat nat | Conform conform_cache nat bool | GcQuery nat

datatype rt_call = CPush push_call | CStack stack_call | CEnv env_call | CCell cell_call | CRow row_call | COp op_call

text \<open>A result that only compiled code sees is dropped.\<close>

definition quiet :: "'a rt \<Rightarrow> unit rt" where "quiet m = bnd m (\<lambda>_. ret ())"

fun run_push_call :: "rt_ext \<Rightarrow> push_call \<Rightarrow> unit rt" where
  "run_push_call X (PushInt v) = rt_push_int v"
| "run_push_call X (PushReal v) = rt_push_real v"
| "run_push_call X (PushBool v) = rt_push_bool v"
| "run_push_call X (PushChar v) = rt_push_char v"
| "run_push_call X (PushBits v) = rt_push_bits v"
| "run_push_call X PushUndef = rt_push_undef"
| "run_push_call X PushNil = rt_push_nil"
| "run_push_call X PushVoid = rt_push_void"
| "run_push_call X (PushBuiltin i) = rt_push_builtin i"
| "run_push_call X (PushFile i) = rt_push_file i"
| "run_push_call X (PushBigint i) = rt_push_bigint i"
| "run_push_call X (PushBigbits i) = rt_push_bigbits i"
| "run_push_call X (PushStr i) = rt_push_str i"
| "run_push_call X (PushBytes p l) = rt_push_bytes p l"
| "run_push_call X (PushSkip m) = rt_push_skip (x_default X) m"
| "run_push_call X (PushProc f n) = rt_push_proc f n"
| "run_push_call X (PushFormat k) = rt_push_format k"

fun run_stack_call :: "rt_ext \<Rightarrow> stack_call \<Rightarrow> unit rt" where
  "run_stack_call X PopBytes = quiet rt_pop_bytes"
| "run_stack_call X Pop = rt_pop"
| "run_stack_call X Dup = rt_dup"
| "run_stack_call X Nip = rt_nip"
| "run_stack_call X (StackTruncate d) = rt_stack_truncate d"
| "run_stack_call X PopInt = quiet rt_pop_int"
| "run_stack_call X PopReal = quiet (rt_pop_real (f_of_i64 (x_dbl X)))"
| "run_stack_call X PopBool = quiet rt_pop_bool"
| "run_stack_call X PopChar = quiet rt_pop_char"
| "run_stack_call X PopBits = quiet rt_pop_bits"
| "run_stack_call X Voiding = rt_voiding"
| "run_stack_call X (IdentRel b) = rt_ident_rel b"
| "run_stack_call X (CaseIndex n) = quiet (rt_case_index n)"

fun run_env_call :: "rt_ext \<Rightarrow> env_call \<Rightarrow> unit rt" where
  "run_env_call X (Enter n) = quiet (rt_enter n)"
| "run_env_call X (EnterArgs n k) = quiet (rt_enter_args n k)"
| "run_env_call X Leave = rt_leave"
| "run_env_call X (EnvTruncate d) = rt_env_truncate d"
| "run_env_call X (FrameCells d) = quiet (rt_frame_cells d)"
| "run_env_call X EnvSet = bnd (get env) env_set"
| "run_env_call X EnvRestore = env_restore"
| "run_env_call X (EnvSavedTruncate n) = env_saved_truncate n"
| "run_env_call X JumpClear = rt_jump_clear"
| "run_env_call X (RaiseJump l) = rt_raise_jump l"
| "run_env_call X (Line l) = rt_line l"

fun run_cell_call :: "rt_ext \<Rightarrow> cell_call \<Rightarrow> unit rt" where
  "run_cell_call X (PushCell d s) = rt_push_cell d s"
| "run_cell_call X (PushRef d s) = rt_push_ref d s"
| "run_cell_call X (Store d s) = rt_store d s"
| "run_cell_call X (BindCell d s) = rt_bind_cell d s"
| "run_cell_call X (SetCell d s v) = (if tag_is_ptr v then stop UB else set_cell d s v)"
| "run_cell_call X (CellInt d s) = quiet (rt_cell_int d s)"
| "run_cell_call X (CellReal d s) = quiet (rt_cell_real (f_of_i64 (x_dbl X)) d s)"
| "run_cell_call X (CellBool d s) = quiet (rt_cell_bool d s)"
| "run_cell_call X (CellChar d s) = quiet (rt_cell_char d s)"
| "run_cell_call X (CellBits d s) = quiet (rt_cell_bits d s)"
| "run_cell_call X (CellIsnil d s) = quiet (rt_cell_isnil d s)"
| "run_cell_call X (CellCproc d s) = quiet (rt_cell_cproc d s)"
| "run_cell_call X (AppendChar d s c) = rt_append_char (x_concat X) d s c"
| "run_cell_call X (Append d s) = rt_append (x_concat X) d s"

fun run_row_call :: "rt_ext \<Rightarrow> row_call \<Rightarrow> unit rt" where
  "run_row_call X (RowElem d s rank i j) = quiet (row_elem d s rank i j)"
| "run_row_call X (SetRowElem d s rank i j v) = (if tag_is_ptr v then stop UB else row_set_elem d s rank i j v)"
| "run_row_call X (Slice n k via) = rt_slice n k via"
| "run_row_call X (NewRowOf n ek) = rt_new_row_of n ek"
| "run_row_call X (Collateral n st dims) = rt_collateral n st dims"
| "run_row_call X (SelPush d s spec i j f) = rt_sel_push d s spec i j f"
| "run_row_call X (SelStore dd ds d s spec i j f) = rt_sel_store dd ds d s spec i j f"
| "run_row_call X (SelRead d s spec i j f) = quiet (sel_read d s spec i j f)"
| "run_row_call X (SetSel d s spec i j f v) = (if tag_is_ptr v then stop UB else rt_set_sel d s spec i j f v)"
| "run_row_call X (Select i via) = rt_select i via"

fun run_op_call :: "rt_ext \<Rightarrow> op_call \<Rightarrow> unit rt" where
  "run_op_call X (Assign fl) = rt_assign fl"
| "run_op_call X Gen = rt_gen"
| "run_op_call X Deref = rt_deref"
| "run_op_call X RowOf = rt_row_of"
| "run_op_call X (Unite m) = rt_unite m"
| "run_op_call X Deproc = rt_deproc (x_dispatch X) (x_builtin X)"
| "run_op_call X (Call n) = rt_call (x_dispatch X) (x_builtin X) n"
| "run_op_call X (Dyop o' m1 m2) = rt_dyop (x_tables X) (x_dbl X) (x_dyadic X) o' m1 m2"
| "run_op_call X (Monop o' m) = rt_monop (x_tables X) (x_dbl X) (x_monadic X) o' m"
| "run_op_call X (Widen m1 m2) = rt_widen (x_tables X) (x_dbl X) (x_widen X) m1 m2"
| "run_op_call X (Conform c m b) = quiet (rt_conform (x_conform X) (x_is_union X) c m b)"
| "run_op_call X (GcQuery n) = quiet (a68_gc_query n)"

fun run_call :: "rt_ext \<Rightarrow> rt_call \<Rightarrow> unit rt" where
  "run_call X (CPush c) = run_push_call X c"
| "run_call X (CStack c) = run_stack_call X c"
| "run_call X (CEnv c) = run_env_call X c"
| "run_call X (CCell c) = run_cell_call X c"
| "run_call X (CRow c) = run_row_call X c"
| "run_call X (COp c) = run_op_call X c"

text \<open>
  A step is a call that returns, or a change of the roots the other modules keep: \<open>io.c\<close> holds
  values (the strings behind files), native frames of the LLVM back end hold object pointers.
  The values they keep come from the run-time system, so they name its objects.
\<close>

inductive rt_step :: "rt_ext \<Rightarrow> rt_state \<Rightarrow> rt_state \<Rightarrow> bool" for X where
  step_call: "run_call X c s = Inr ((), t) \<Longrightarrow> rt_step X s t"
| step_io: "set (val_ptrs vs) \<subseteq> objs s \<Longrightarrow> rt_step X s (s\<lparr>io_roots := vs\<rparr>)"
| step_native: "set ps \<subseteq> objs s \<Longrightarrow> rt_step X s (s\<lparr>native_roots := ps\<rparr>)"

inductive rt_reach :: "rt_ext \<Rightarrow> rt_state \<Rightarrow> rt_state \<Rightarrow> bool" for X s0 where
  reach_start: "rt_reach X s0 s0"
| reach_next: "rt_reach X s0 s \<Longrightarrow> rt_step X s t \<Longrightarrow> rt_reach X s0 t"

section \<open>Safe points and calls of compiled code\<close>

lemma gc_collect_inv:
  assumes "rt_inv s" and "gc_collect s = Inr (x, t)"
  shows "rt_inv t"
proof (cases "gc_off s")
  case True
  then have "t = s\<lparr>gc_wanted := False\<rparr>" using assms(2) by (simp add: gc_collect_off)
  moreover have "counters_only s (s\<lparr>gc_wanted := False\<rparr>)" by (simp add: counters_only_def)
  ultimately show ?thesis using assms(1) counters_only_inv by blast
next
  case False
  then have "collected s t" using gc_collect_cases [OF assms(1) False] assms(2) by auto
  then show ?thesis by (simp add: collected_def)
qed

lemma entry_opsafe: "opsafe A m P \<Longrightarrow> entry_safe A m P"
  unfolding opsafe_def entry_safe_def by blast

lemma entry_gc_collect: "entry_safe A gc_collect no_ptr"
  unfolding entry_safe_def using gc_collect_inv by blast

lemma entry_bnd:
  assumes m: "entry_safe A m P" and f: "\<And>x. entry_safe (P x) (f x) Q"
  shows "entry_safe A (bnd m f) Q"
  unfolding entry_safe_def
proof (intro allI impI)
  fix s y u assume s: "rt_inv s" "A \<subseteq> objs s" "bnd m f s = Inr (y, u)"
  then obtain x t where t: "m s = Inr (x, t)" "f x t = Inr (y, u)" by (auto simp: bnd_eq_Inr)
  have "rt_inv t \<and> P x \<subseteq> objs t" using m s(1,2) t(1) unfolding entry_safe_def by blast
  then show "rt_inv u \<and> Q y \<subseteq> objs u" using f [of x] t(2) unfolding entry_safe_def by blast
qed

text \<open>While nothing disappears, what was held stays held.\<close>

lemma entry_hold:
  assumes m: "opsafe A m P" and f: "\<And>x. entry_safe (A \<union> P x) (f x) Q"
  shows "entry_safe A (bnd m f) Q"
  unfolding entry_safe_def
proof (intro allI impI)
  fix s y u assume s: "rt_inv s" "A \<subseteq> objs s" "bnd m f s = Inr (y, u)"
  then obtain x t where t: "m s = Inr (x, t)" "f x t = Inr (y, u)" by (auto simp: bnd_eq_Inr)
  have mt: "rt_inv t \<and> objs s \<subseteq> objs t \<and> P x \<subseteq> objs t" using opsafeD [OF m s(1,2) t(1)] .
  then have "A \<union> P x \<subseteq> objs t" using s(2) by blast
  then show "rt_inv u \<and> Q y \<subseteq> objs u" using f [of x] mt t(2) unfolding entry_safe_def by blast
qed

lemma entry_poll: "(\<And>x. opsafe {} (f x) P) \<Longrightarrow> entry_safe A (bnd GC_POLL f) P"
proof (rule entry_bnd [where P = no_ptr])
  show "entry_safe A GC_POLL no_ptr"
    unfolding GC_POLL_def
  proof (rule entry_hold [OF opsafe_get])
    fix w show "entry_safe (A \<union> {}) (if w then gc_collect else ret ()) no_ptr"
      using entry_gc_collect by (simp add: entry_opsafe [OF opsafe_ret])
  qed
  fix x assume "\<And>x. opsafe {} (f x) P"
  then show "entry_safe {} (f x) P" by (rule entry_opsafe)
qed

lemma opsafe_quiet: "opsafe A m P \<Longrightarrow> opsafe A (quiet m) no_ptr"
  unfolding quiet_def by (rule opsafe_bnd [where P = P]) (auto intro!: opsafe_ret)

lemma entry_quiet: "entry_safe A m P \<Longrightarrow> entry_safe A (quiet m) no_ptr"
  unfolding quiet_def by (rule entry_bnd [where P = P]) (auto intro!: entry_opsafe opsafe_ret)

text \<open>What the other modules promise: \<open>ext_ok\<close>.\<close>

definition ext_ok :: "rt_ext \<Rightarrow> bool" where
  "ext_ok X \<longleftrightarrow>
     (\<forall>A nm m1 m2 a b. vp a \<subseteq> insert 0 A \<longrightarrow> vp b \<subseteq> insert 0 A \<longrightarrow> opsafe A (x_dyadic X nm m1 m2 a b) vp) \<and>
     (\<forall>A nm m a. vp a \<subseteq> insert 0 A \<longrightarrow> opsafe A (x_monadic X nm m a) vp) \<and>
     (\<forall>A m1 m2 a. vp a \<subseteq> insert 0 A \<longrightarrow> opsafe A (x_widen X m1 m2 a) vp) \<and>
     (\<forall>A m. opsafe A (x_default X m) vp) \<and> concat_ok (x_concat X) \<and>
     (\<forall>i n. entry_safe {} (x_builtin X i n) vp) \<and> (\<forall>n. entry_safe {} (x_dispatch X n) no_ptr)"

lemma ext_okD:
  assumes "ext_ok X"
  shows "vp a \<subseteq> insert 0 A \<Longrightarrow> vp b \<subseteq> insert 0 A \<Longrightarrow> opsafe A (x_dyadic X nm m1 m2 a b) vp"
    and "vp a \<subseteq> insert 0 A \<Longrightarrow> opsafe A (x_monadic X nm m a) vp"
    and "vp a \<subseteq> insert 0 A \<Longrightarrow> opsafe A (x_widen X m1 m2 a) vp"
    and "opsafe A (x_default X m) vp" and "concat_ok (x_concat X)"
    and "entry_safe {} (x_builtin X i n) vp" and "entry_safe {} (x_dispatch X k) no_ptr"
  using assms by (simp_all add: ext_ok_def)

section \<open>Every call keeps the invariant\<close>

lemma push_call_safe:
  assumes X: "ext_ok X"
  shows "entry_safe {} (run_push_call X c) no_ptr"
proof (cases c)
  case (PushProc f n)
  show ?thesis unfolding PushProc run_push_call.simps rt_push_proc_def
    by (rule entry_opsafe, rule safe_bnd_env) (auto intro!: safe)
next
  case (PushFormat k)
  show ?thesis unfolding PushFormat run_push_call.simps rt_push_format_def
    by (rule entry_opsafe, rule safe_bnd_env) (auto intro!: safe)
qed (simp only: run_push_call.simps rt_push_int_def rt_push_real_def rt_push_bool_def rt_push_char_def rt_push_bits_def rt_push_undef_def
      rt_push_nil_def rt_push_void_def rt_push_builtin_def rt_push_file_def rt_push_bigint_def rt_push_bigbits_def
      rt_push_str_def rt_push_bytes_def rt_push_skip_def;
    (rule entry_poll | rule entry_opsafe); auto intro!: safe ext_okD(4) [OF X])+

lemma opsafe_rt_pop_bytes: "opsafe A rt_pop_bytes no_ptr"
  unfolding rt_pop_bytes_def by (auto intro!: safe simp: rwp_def split: a68_val.split)

lemma opsafe_rt_case_index: "opsafe A (rt_case_index n) no_ptr"
  unfolding rt_case_index_def by (auto intro!: safe split: a68_val.split)

lemma stack_call_safe: "entry_safe {} (run_stack_call X c) no_ptr"
  by (cases c) (auto intro!: entry_opsafe opsafe_quiet [where P = no_ptr] opsafe_rt_pop_bytes opsafe_rt_case_index safe
      simp: rt_pop_def rt_dup_def rt_pop_int_def rt_pop_real_def rt_pop_bool_def rt_pop_char_def rt_pop_bits_def
        rt_voiding_def rt_ident_rel_def Let_def)

lemma env_call_safe: "entry_safe {} (run_env_call X c) no_ptr"
proof (cases c)
  case (Enter n)
  show ?thesis unfolding Enter run_env_call.simps rt_enter_def
    by (rule entry_quiet [where P = ptr], rule entry_poll) (auto intro!: safe)
next
  case (EnterArgs n k)
  show ?thesis unfolding EnterArgs run_env_call.simps rt_enter_args_def
    by (rule entry_quiet [where P = ptr], rule entry_poll) (auto intro!: safe)
next
  case (FrameCells d)
  show ?thesis unfolding FrameCells run_env_call.simps rt_frame_cells_def
    by (rule entry_opsafe, rule opsafe_quiet [where P = ptr], rule safe_bnd_env) (auto intro!: safe)
next
  case Leave
  show ?thesis unfolding Leave run_env_call.simps rt_leave_def
    by (rule entry_opsafe, rule safe_bnd_env) (auto intro!: safe split: prod.split)
next
  case EnvSet
  show ?thesis unfolding EnvSet run_env_call.simps
    by (rule entry_opsafe, rule safe_bnd_env) (auto intro!: safe)
qed (auto intro!: entry_opsafe safe simp: rt_env_truncate_def)

lemma cell_call_safe:
  assumes X: "ext_ok X"
  shows "entry_safe {} (run_cell_call X c) no_ptr"
proof (cases c)
  case (PushRef d s)
  show ?thesis unfolding PushRef run_cell_call.simps rt_push_ref_def
    by (rule entry_opsafe, rule safe_bnd_env) (auto intro!: safe)
qed (simp only: run_cell_call.simps rt_push_cell_def rt_store_def rt_bind_cell_def set_cell_def rt_cell_int_def rt_cell_real_def
      rt_cell_bool_def rt_cell_char_def rt_cell_bits_def rt_cell_isnil_def rt_cell_cproc_def rt_append_char_def
      rt_append_def; (rule entry_poll | rule entry_opsafe);
    auto intro!: opsafe_quiet [where P = no_ptr] safe ext_okD(5) [OF X] simp: rwp_def vp_def split: a68_val.split)+

lemma vp_plain: "\<not> tag_is_ptr v \<Longrightarrow> vp v = {}"
  by (simp add: vp_def)

lemma vp_nth_elem: "x \<in> vp (vs ! i) \<Longrightarrow> i < length vs \<Longrightarrow> x \<in> vps vs"
  using vp_nth by blast

lemma row_call_safe: "entry_safe {} (run_row_call X c) no_ptr"
  by (cases c; simp only: run_row_call.simps rt_slice_def rt_new_row_of_def rt_collateral_def rt_sel_push_def
        rt_sel_store_def rt_set_sel_def rt_select_def;
      (rule entry_poll | rule entry_opsafe);
      auto intro!: opsafe_quiet [where P = vp] safe simp: Let_def vp_plain not_le
        split: a68_val.split option.split dest!: vp_nth_elem)

lemma call_value_safe:
  assumes X: "ext_ok X" and f: "vp f \<subseteq> insert 0 A"
  shows "entry_safe A (call_value (x_dispatch X) (x_builtin X) f n) no_ptr"
proof (cases f)
  case (VCproc p aux)
  have "entry_safe B (bnd (x_dispatch X k) (\<lambda>_. bnd env_restore (\<lambda>_. bnd (get jump_flag) (\<lambda>j.
      if j \<noteq> 0 then bnd (modify (\<lambda>s. s\<lparr>stack := drop (length (stack s) - m) (stack s)\<rparr>)) (\<lambda>_. push VUndef)
      else ret ())))) no_ptr" if "B = {}" for B k m unfolding that
    by (rule entry_bnd [OF ext_okD(7) [OF X]], rule entry_opsafe) (auto intro!: safe)
  then have d: "entry_safe B (bnd (x_dispatch X k) (\<lambda>_. bnd env_restore (\<lambda>_. bnd (get jump_flag) (\<lambda>j.
      if j \<noteq> 0 then bnd (modify (\<lambda>s. s\<lparr>stack := drop (length (stack s) - m) (stack s)\<rparr>)) (\<lambda>_. push VUndef)
      else ret ())))) no_ptr" for B k m
    unfolding entry_safe_def by blast
  show ?thesis unfolding call_value_def VCproc a68_val.case
    by (rule entry_hold [where P = no_ptr], rule opsafe_env_set, use f VCproc in simp,
        rule entry_hold [OF opsafe_get], rule d)
next
  case (VBuiltin i)
  have b: "entry_safe {} (bnd (x_builtin X i n) (\<lambda>res.
      bnd (modify (\<lambda>s. s\<lparr>stack := drop (length (stack s) - m) (stack s)\<rparr>)) (\<lambda>_. push res))) no_ptr" for m
    by (rule entry_bnd [OF ext_okD(6) [OF X]], rule entry_opsafe) (auto intro!: safe)
  then have d: "entry_safe B (bnd (x_builtin X i n) (\<lambda>res.
      bnd (modify (\<lambda>s. s\<lparr>stack := drop (length (stack s) - m) (stack s)\<rparr>)) (\<lambda>_. push res))) no_ptr" for B m
    unfolding entry_safe_def by blast
  show ?thesis unfolding call_value_def VBuiltin a68_val.case
    by (rule entry_hold [OF opsafe_get], rule d)
qed (auto intro!: entry_opsafe safe simp: call_value_def)

lemma entry_poll_then: "(\<And>x. entry_safe {} (f x) P) \<Longrightarrow> entry_safe A (bnd GC_POLL f) P"
proof (rule entry_bnd [where P = no_ptr])
  have "entry_safe A (bnd GC_POLL (\<lambda>_. ret ())) no_ptr" by (rule entry_poll) (simp add: opsafe_ret)
  then show "entry_safe A GC_POLL no_ptr" unfolding entry_safe_def by (auto simp: bnd_eq_Inr)
qed simp

lemma opsafe_union_loop: "vp v \<subseteq> insert 0 A \<Longrightarrow> opsafe A (union_loop k v m) (\<lambda>x. vp (fst x))"
proof (induction k arbitrary: v m A)
  case (Suc k)
  have ih: "opsafe B (union_loop k w m') (\<lambda>x. vp (fst x))" if "vp w \<subseteq> insert 0 B" for w m' B using Suc.IH that by blast
  show ?case using Suc.prems by (auto intro!: safe ih split: a68_val.split)
qed (auto intro!: safe)

lemma opsafe_union_content: "vp v \<subseteq> insert 0 A \<Longrightarrow> opsafe A (union_content v) (\<lambda>x. vp (fst x))"
  unfolding union_content_def by (rule safe_bnd_get) (rule opsafe_union_loop)

lemma opsafe_conform: "opsafe A (bnd top_val (\<lambda>v. bnd (union_content v) (\<lambda>(inner, vm).
     let (ok, c') = conforms ask m (unat vm) c in
     bnd (if ok \<and> bind_it then bnd (copy_value (if is_union m then v else inner)) push else ret ()) (\<lambda>_.
     ret (ok, c'))))) no_ptr"
proof (rule safe_bnd_val [OF opsafe_top_val], rule opsafe_bnd [OF opsafe_union_content])
  fix v show "vp v \<subseteq> insert 0 (vp v \<union> A)" by blast
qed (auto intro!: safe split: prod.split)

lemma rt_call_safe:
  assumes X: "ext_ok X"
  shows "entry_safe {} (rt_call (x_dispatch X) (x_builtin X) n) no_ptr"
  unfolding rt_call_def
proof (rule entry_poll_then, unfold entry_safe_def, intro allI impI)
  fix s x t
  assume s: "rt_inv s" and m: "bnd (get stack) (\<lambda>st. if length st < n + 1 then underflow
     else bnd (modify (\<lambda>s. s\<lparr>stack := take n st @ drop (n + 1) st\<rparr>)) (\<lambda>_.
       call_value (x_dispatch X) (x_builtin X) (st ! n) n)) s = Inr (x, t)"
  then have n: "n < length (stack s)" by (cases "length (stack s) < n + 1") (simp_all add: underflow_def)
  define u where "u = s\<lparr>stack := take n (stack s) @ drop (n + 1) (stack s)\<rparr>"
  have c: "call_value (x_dispatch X) (x_builtin X) (stack s ! n) n u = Inr (x, t)"
    using m n by (simp add: u_def)
  have r: "set (gc_roots s) \<subseteq> objs s" by (rule rt_inv_root_objs [OF s])
  have su: "vps (stack s) \<subseteq> objs s" using r by (simp add: gc_roots_set)
  have "set (gc_roots u) \<subseteq> set (gc_roots s)"
    using vps_take [of n "stack s"] vps_drop [of "n + 1" "stack s"] by (auto simp: gc_roots_set u_def)
  then have u: "rt_inv u \<and> objs u = objs s"
    using r by (intro rt_inv_roots [OF s]) (auto simp: u_def same_heap_def)
  have "vp (stack s ! n) \<subseteq> objs u" using vp_nth [OF n] su u by blast
  moreover have "entry_safe (vp (stack s ! n)) (call_value (x_dispatch X) (x_builtin X) (stack s ! n) n) no_ptr"
    by (rule call_value_safe [OF X]) blast
  ultimately show "rt_inv t \<and> {} \<subseteq> objs t" using u c unfolding entry_safe_def by blast
qed

lemma top_n_length: "top_n n s = Inr (x, t) \<Longrightarrow> length x = n"
  by (auto simp: top_n_def underflow_def split: if_splits)

lemma safe_bnd_top_n:
  assumes "\<And>ab. length ab = n \<Longrightarrow> opsafe (vps ab \<union> A) (f ab) Q"
  shows "opsafe A (bnd (top_n n) f) Q"
proof (rule opsafeI)
  fix s y u assume s: "rt_inv s" "A \<subseteq> objs s" "bnd (top_n n) f s = Inr (y, u)"
  then obtain x t where t: "top_n n s = Inr (x, t)" "f x t = Inr (y, u)" by (auto simp: bnd_eq_Inr)
  have m: "rt_inv t \<and> objs s \<subseteq> objs t \<and> vps x \<subseteq> objs t" using opsafeD [OF opsafe_top_n s(1,2) t(1)] .
  then have "vps x \<union> A \<subseteq> objs t" using s(2) by blast
  then show "rt_inv u \<and> objs s \<subseteq> objs u \<and> Q y \<subseteq> objs u"
    using opsafeD [OF assms [OF top_n_length [OF t(1)]] _ _ t(2)] m by blast
qed

lemma rt_dyop_safe:
  assumes X: "ext_ok X"
  shows "entry_safe {} (rt_dyop (x_tables X) (x_dbl X) (x_dyadic X) nm m1 m2) no_ptr"
  unfolding rt_dyop_def
proof (rule entry_poll, rule safe_bnd_top_n, rule safe_bnd_str [OF opsafe_strtab_at])
  fix ab name assume len: "length (ab :: a68_val list) = 2"
  have a: "vp (ab ! 0) \<subseteq> vps ab" and b: "vp (ab ! Suc 0) \<subseteq> vps ab" by (rule vp_nth, simp add: len)+
  show "opsafe (vps ab \<union> {}) (bnd (native_dyop (x_tables X) (x_dbl X) name m1 m2 (ab ! 0) (ab ! 1)) (\<lambda>r1.
     bnd (case r1 of Some v \<Rightarrow> ret r1 | None \<Rightarrow> native_assign_op (x_tables X) (x_dbl X) name m1 (ab ! 0) (ab ! 1)) (\<lambda>r2.
     bnd (case r2 of Some v \<Rightarrow> ret v | None \<Rightarrow> x_dyadic X name m1 m2 (ab ! 0) (ab ! 1)) (\<lambda>v.
     bnd (drop_stack 2) (\<lambda>_. push v))))) no_ptr"
    using a b by (auto intro!: safe ext_okD(1) [OF X] split: option.split)
qed

lemma op_call_safe:
  assumes X: "ext_ok X"
  shows "entry_safe {} (run_op_call X c) no_ptr"
proof (cases c)
  case Deproc
  show ?thesis unfolding Deproc run_op_call.simps rt_deproc_def
    by (rule entry_poll_then, rule entry_hold [OF opsafe_pop], rule call_value_safe [OF X]) blast
next
  case (Call n)
  show ?thesis unfolding Call run_op_call.simps by (rule rt_call_safe [OF X])
next
  case (Dyop nm m1 m2)
  show ?thesis unfolding Dyop run_op_call.simps by (rule rt_dyop_safe [OF X])
next
  case (Conform cc m b)
  show ?thesis unfolding Conform run_op_call.simps rt_conform_def
    by (rule entry_quiet, rule entry_poll, rule opsafe_conform)
next
  case (GcQuery n)
  have "entry_safe {} (bnd gc_collect (\<lambda>_. ret 0)) (\<lambda>_ :: nat. {})"
    by (rule entry_bnd [OF entry_gc_collect], rule entry_opsafe) (simp add: opsafe_ret)
  then have "entry_safe {} (a68_gc_query n) no_ptr"
    unfolding a68_gc_query_def by (simp add: entry_opsafe opsafe_get opsafe_ret)
  then show ?thesis unfolding GcQuery run_op_call.simps by (rule entry_quiet)
qed (simp only: run_op_call.simps rt_assign_def rt_gen_def rt_deref_def rt_row_of_def rt_unite_def rt_monop_def rt_widen_def;
    rule entry_poll; auto intro!: safe ext_okD(2,3) [OF X] simp: Let_def split: a68_val.split option.split)+

section \<open>Memory safety\<close>

lemma run_call_safe:
  assumes "ext_ok X"
  shows "entry_safe {} (run_call X c) no_ptr"
  using push_call_safe [OF assms] stack_call_safe env_call_safe cell_call_safe [OF assms] row_call_safe
    op_call_safe [OF assms] by (cases c) simp_all

lemma rt_step_inv:
  assumes X: "ext_ok X" and st: "rt_step X s t" and inv: "rt_inv s"
  shows "rt_inv t"
  using st
proof cases
  case (step_call c)
  then show ?thesis using run_call_safe [OF X, of c] inv unfolding entry_safe_def by blast
next
  case (step_io vs)
  have "rt_inv t \<and> objs t = objs s"
    using step_io rt_inv_root_objs [OF inv]
    by (intro rt_inv_roots [OF inv]) (auto simp: same_heap_def gc_roots_set set_val_ptrs)
  then show ?thesis ..
next
  case (step_native ps)
  have "rt_inv t \<and> objs t = objs s"
    using step_native rt_inv_root_objs [OF inv]
    by (intro rt_inv_roots [OF inv]) (auto simp: same_heap_def gc_roots_set)
  then show ?thesis ..
qed

lemma rt_reach_inv: "rt_reach X s0 s \<Longrightarrow> ext_ok X \<Longrightarrow> rt_inv s0 \<Longrightarrow> rt_inv s"
  by (induction rule: rt_reach.induct) (auto dest: rt_step_inv)

lemma rt_zero_inv: "rt_inv (rt_zero limit)"
  by (simp add: rt_inv_def rt_zero_def alloc_ok_def blocks_ok_def quar_ok_def quarantined_def rt_closed_def poison_ok_def
      heap_marked_def gc_roots_def val_ptrs_def)

lemma rt_boot_inv: "rt_inv (rt_boot limit m h blob)"
proof -
  have "counters_only (rt_zero limit) (rt_boot limit m h blob)"
    by (auto simp: counters_only_def rt_boot_def gc_init_def Let_def split: option.split)
  then show ?thesis using counters_only_inv rt_zero_inv by blast
qed

fun run_calls :: "rt_ext \<Rightarrow> rt_call list \<Rightarrow> unit rt" where
  "run_calls X [] = ret ()"
| "run_calls X (c # cs) = bnd (run_call X c) (\<lambda>_. run_calls X cs)"

lemma run_calls_reach: "run_calls X cs s = Inr ((), t) \<Longrightarrow> rt_reach X s0 s \<Longrightarrow> rt_reach X s0 t"
proof (induction cs arbitrary: s)
  case (Cons c cs)
  then obtain u where "run_call X c s = Inr ((), u)" "run_calls X cs u = Inr ((), t)" by (auto simp: bnd_eq_Inr)
  then show ?case using Cons.IH Cons.prems(2) reach_next step_call by metis
qed simp


text \<open>A runtime whose other modules refuse every request, and a program that makes a name and reads it.\<close>

definition ext_refuse :: rt_ext where
  "ext_refuse = \<lparr>x_tables = tables0,
     x_dbl = \<lparr>f_add = (\<lambda>x y. x), f_sub = (\<lambda>x y. x), f_mul = (\<lambda>x y. x), f_div = (\<lambda>x y. x), f_less = (<), f_eq = (=),
              f_exp = id, f_log = id, f_floor = id, f_of_i64 = id, f_to_u64 = id\<rparr>,
     x_dyadic = (\<lambda>nm m1 m2 a b. die ''refused''), x_monadic = (\<lambda>nm m a. die ''refused''),
     x_widen = (\<lambda>m1 m2 a. die ''refused''), x_default = (\<lambda>m. ret VUndef), x_concat = (\<lambda>a b. die ''refused''),
     x_builtin = (\<lambda>i n. ret VVoid), x_dispatch = (\<lambda>n. ret ()), x_conform = (=), x_is_union = (\<lambda>m. False)\<rparr>"

lemma ext_refuse_ok: "ext_ok ext_refuse"
  by (simp add: ext_ok_def ext_refuse_def concat_ok_def opsafe_die opsafe_ret entry_opsafe)

definition demo_calls :: "rt_call list" where
  "demo_calls = [CEnv (Enter 1), CPush (PushInt 7), COp Gen, CStack Dup, COp Deref, CCell (Store 0 0)]"

lemmas demo_defs = GC_POLL_def rt_enter_def frame_alloc_def frame_depth_def set_env_def rt_push_int_def push_def
  rt_gen_def pop_def slots_alloc_def obj_alloc_def slot_put_def slot_write_def get_body_def get_obj_def set_body_def
  put_obj_def rt_dup_def top_val_def rt_deref_def deref_def ref_load_def ref_slot_def slot_read_def ref_index_def
  copy_value_def copy_value_body_def defined_or_die_def rt_store_def cell_of_def get_frame_def quiet_def

lemma demo_runs:
  "\<exists>t. run_calls ext_refuse demo_calls (rt_boot 1 None None []) = Inr ((), t) \<and> all_objects t = [2, 1] \<and>
     stack t = [VRef 2 0] \<and> env t = 1"
  by (simp add: demo_calls_def rt_boot_def gc_init_def rt_zero_def demo_defs bnd_def Let_def frame_size_def slots_size_def
      FREE_MAX_def)


end
