(* ===== verification/RtGcExact.thy ===== *)
theory RtGcExact
  imports RtMachine
begin

text \<open>What a collection of \<open>csrc/rt.c\<close> does to the heap, stated for the states the machine can be in.\<close>

section \<open>Collections are exact\<close>

abbreviation same_limit :: "rt_state \<Rightarrow> rt_state \<Rightarrow> bool" where
  "same_limit s t \<equiv> gc_limit t = gc_limit s"

lemma sweep_one_limit: "gc_limit (sweep_one p s) = gc_limit s"
  by (auto simp: sweep_one_def obj_release_def Let_def split: option.split)

lemma sweep_fold_limit: "gc_limit (fold sweep_one ps s) = gc_limit s"
  by (induction ps arbitrary: s) (simp_all add: sweep_one_limit)

lemma gc_work_limit: "keeps same_limit gc_work"
proof -
  have tr: "transp same_limit" and rf: "reflp same_limit" by (auto intro: transpI reflpI)
  have mk: "keeps same_limit gc_mark"
    by (auto intro!: keepsI simp: gc_mark_def bindE_def split: sum.splits)
  have sw: "keeps same_limit gc_sweep"
    by (auto intro!: keepsI simp: gc_sweep_def sweep_all_def Let_def sweep_fold_limit bindE_def split: sum.splits)
  have md: "keeps same_limit (modify (\<lambda>s. if b then quarantine_release ((gc_collections s + 1) mod QUARANTINE) s else s))" for b
    by (auto intro!: keepsI simp: quarantine_release_def)
  have vf: "keeps same_limit gc_verify_reachable"
    unfolding gc_verify_reachable_def
    by (intro keeps_bnd [OF tr] mk) (auto intro!: keepsI simp: bindE_def split: sum.splits if_splits)
  show ?thesis unfolding gc_work_def
    by (intro keeps_bnd [OF tr] mk md sw keeps_get [OF rf]) (simp add: vf keeps_ret [OF rf])
qed

lemma gc_collect_error:
  assumes inv: "rt_inv s" and on: "\<not> gc_off s" and e: "gc_collect s = Inl e"
  shows "e = Die ''not enough memory'' \<and> gc_limit s \<noteq> 0"
proof -
  define s0 where "s0 = s\<lparr>gc_wanted := False\<rparr>"
  have "counters_only s s0" by (simp add: s0_def counters_only_def)
  then have "rt_inv s0" using inv counters_only_inv by blast
  then obtain t where t: "gc_work s0 = Inr ((), t)" using gc_work_collects by blast
  have "gc_collect s = gc_finish t"
    using on t by (simp add: gc_collect_work bnd_def modify_def get_def s0_def)
  moreover have "gc_limit t = gc_limit s" using keepsD [OF gc_work_limit t] by (simp add: s0_def)
  ultimately show ?thesis using gc_finish_cases [of t] e by auto
qed

text \<open>A row on the stack, its store, and a second descriptor of the store that nothing refers to.\<close>

definition demo_store :: a68_obj where
  "demo_store = \<lparr>o_mark = False, o_rc = 2, o_size = 48, o_body = Leaf EK_INT [7] [True]\<rparr>"

definition demo_row :: a68_obj where
  "demo_row = \<lparr>o_mark = False, o_rc = 0, o_size = 48, o_body = Rowd \<lparr>r_base = 1, r_off = 0, r_field = 0, r_borrow = False,
     r_dim = [\<lparr>d_l = 1, d_u = 1, d_stride = 1\<rparr>]\<rparr>\<rparr>"

definition gc_demo :: rt_state where
  "gc_demo = (rt_zero 1)\<lparr>heap := [1 \<mapsto> demo_store, 2 \<mapsto> demo_row, 3 \<mapsto> demo_row],
     all_objects := [3, 2, 1], next_addr := 4, block_cap := (\<lambda>_. 48), stack := [VRow 2]\<rparr>"

lemma gc_demo_inv: "rt_inv gc_demo"
proof -
  have h: "heap gc_demo = [1 \<mapsto> demo_store, 2 \<mapsto> demo_row, 3 \<mapsto> demo_row]"
    by (simp add: gc_demo_def)
  have c: "a = 1 \<and> ob = demo_store \<or> a = 2 \<and> ob = demo_row \<or> a = 3 \<and> ob = demo_row"
    if "heap gc_demo a = Some ob" for a ob
    using that by (auto simp: h split: if_splits)
  have "alloc_ok gc_demo"
    unfolding alloc_ok_def
  proof (intro conjI allI impI)
    show "dom (heap gc_demo) = set (all_objects gc_demo) \<union> quarantined gc_demo"
      by (auto simp: gc_demo_def quarantined_def rt_zero_def)
    fix a ob assume "heap gc_demo a = Some ob"
    then show "0 < a" "a < next_addr gc_demo" "o_size ob \<le> block_cap gc_demo a"
      using c [of a ob] by (auto simp: gc_demo_def demo_store_def demo_row_def)
  qed (auto simp: gc_demo_def blocks_ok_def quar_ok_def quarantined_def rt_zero_def)
  moreover have "rt_closed gc_demo"
    unfolding rt_closed_def
  proof (intro conjI allI impI)
    fix a ob assume "heap gc_demo a = Some ob"
    then show "set (obj_children (o_body ob)) \<subseteq> insert 0 (set (all_objects gc_demo))"
      using c [of a ob] by (auto simp: gc_demo_def demo_store_def demo_row_def val_ptrs_def)
  qed (simp add: gc_demo_def gc_roots_def val_ptrs_def rt_zero_def)
  moreover have "poison_ok gc_demo"
    unfolding poison_ok_def
  proof (intro allI impI)
    fix a ob assume "heap gc_demo a = Some ob"
    then show "o_body ob = Freed \<longleftrightarrow> a \<notin> set (all_objects gc_demo)"
      using c [of a ob] by (auto simp: gc_demo_def demo_store_def demo_row_def)
  qed
  moreover have "heap_marked (heap gc_demo) = {}"
  proof -
    have "\<not> o_mark ob" if "heap gc_demo a = Some ob" for a ob using c [OF that] by (auto simp: demo_store_def demo_row_def)
    then show ?thesis unfolding heap_marked_def by blast
  qed
  ultimately show ?thesis by (simp add: rt_inv_def)
qed

lemma gc_demo_garbage: "3 \<notin> live gc_demo"
proof -
  have "x \<in> {1, 2}" if "x \<in> live gc_demo" for x
    using that unfolding live_def
  proof induction
    case (reach_root a)
    then show ?case by (auto simp: gc_demo_def gc_roots_def val_ptrs_def rt_zero_def)
  next
    case (reach_step a b)
    then show ?case by (auto simp: heap_succs_def gc_demo_def demo_store_def demo_row_def val_ptrs_def split: if_splits)
  qed
  then show ?thesis by fastforce
qed



section \<open>Share counts\<close>

text \<open>The descriptors that hold a share of the store \<open>a\<close>: those that do not only borrow it.\<close>

definition holds_share :: "rt_state \<Rightarrow> nat \<Rightarrow> nat \<Rightarrow> bool" where
  "holds_share s a p = (case heap s p of
     Some ob \<Rightarrow> (case o_body ob of Rowd r \<Rightarrow> \<not> r_borrow r \<and> r_base r = a | _ \<Rightarrow> False) | None \<Rightarrow> False)"

definition shares :: "rt_state \<Rightarrow> nat \<Rightarrow> nat" where
  "shares s a = length (filter (holds_share s a) (all_objects s))"

definition share_count :: "rt_state \<Rightarrow> nat \<Rightarrow> nat" where
  "share_count s a = (case heap s a of Some ob \<Rightarrow> unat (o_rc ob) | None \<Rightarrow> 0)"

definition is_store_at :: "rt_state \<Rightarrow> nat \<Rightarrow> bool" where
  "is_store_at s a = (case heap s a of Some ob \<Rightarrow> \<not> is_rowd (o_body ob) | None \<Rightarrow> False)"

text \<open>C3: A collection keeps the share counts of stores exact. If a store that survives counted the descriptors that share it before the collection, it counts those that are left after it: the dead ones gave their share back, borrowing descriptors never had one.\<close>

theorem gc_share_counts:
  assumes "rt_inv s" and "\<not> gc_off s" and "gc_collect s = Inr ((), t)"
    and "a \<in> live s" and "is_store_at s a" and "share_count s a = shares s a"
  shows "share_count t a = shares t a"
proof -
  have c: "collected s t" using gc_collect_cases [OF assms(1,2)] assms(3) by auto
  obtain ob where ob: "heap s a = Some ob" "\<not> is_rowd (o_body ob)"
    using assms(5) by (auto simp: is_store_at_def split: option.splits)
  have ta: "heap t a = Some (ob\<lparr>o_rc := rc_sub (o_rc ob) (dead_shares s a)\<rparr>)"
    using c assms(4) ob by (simp add: collected_def survivor_def)
  have h: "holds_share t a p = holds_share s a p" if p: "p \<in> live s" for p
  proof -
    obtain po where "heap s p = Some po" using p live_objects [OF assms(1)] rt_invD(7) [OF assms(1)] by blast
    moreover have "heap t p = map_option (survivor s p) (heap s p)" using c p by (simp add: collected_def)
    ultimately show ?thesis by (simp add: holds_share_def)
  qed
  have f: "filter (holds_share t a) (all_objects t) = filter (\<lambda>p. p \<in> live s \<and> holds_share s a p) (all_objects s)"
    using c h by (auto simp: collected_def intro: filter_cong)
  have d: "dead_shares s a = length (filter (\<lambda>p. p \<notin> live s \<and> holds_share s a p) (all_objects s))"
    by (simp add: dead_shares_def holds_share_def)
  have "length (filter (\<lambda>p. p \<in> live s \<and> P p) xs) + length (filter (\<lambda>p. p \<notin> live s \<and> P p) xs) = length (filter P xs)"
    for P and xs :: "nat list" by (induction xs) auto
  then have "shares t a + dead_shares s a = shares s a"
    unfolding shares_def f d by simp
  moreover have "share_count t a = share_count s a - dead_shares s a"
    using ta ob by (simp add: share_count_def unat_rc_sub)
  ultimately show ?thesis using assms(6) by simp
qed

theorem gc_share_counts_witness:
  "\<exists>t. gc_collect gc_demo = Inr ((), t) \<and> share_count gc_demo 1 = 2 \<and> share_count t 1 = shares t 1"
proof -
  obtain t where t: "gc_collect gc_demo = Inr ((), t)"
    using gc_collect_error [OF gc_demo_inv] by (cases "gc_collect gc_demo") (auto simp: gc_demo_def rt_zero_def)
  have "2 \<in> live gc_demo" unfolding live_def
    by (rule reach_root) (simp add: gc_demo_def gc_roots_def val_ptrs_def)
  moreover have "1 \<in> heap_succs (heap gc_demo) 2" by (simp add: heap_succs_def gc_demo_def demo_row_def)
  ultimately have "1 \<in> live gc_demo" unfolding live_def by (rule reach_step)
  moreover have "share_count gc_demo 1 = 2" "shares gc_demo 1 = 2" "is_store_at gc_demo 1" "\<not> gc_off gc_demo"
    by (simp_all add: share_count_def shares_def holds_share_def is_store_at_def is_rowd_def gc_demo_def demo_store_def
        demo_row_def rt_zero_def)
  ultimately show ?thesis using gc_share_counts [OF gc_demo_inv _ t] t by simp
qed

end
