(* ===== verification/RtIndex.thy ===== *)
theory RtIndex
  imports RtSlice
begin

text \<open>
  Index arithmetic of \<open>csrc/rt.c\<close>: a row with canonical layout stores its elements row by row, and a
  slice of a slice is the slice it stands for.
\<close>

section \<open>Canonical layout\<close>

text \<open>The number of elements, as a product.\<close>

definition exts :: "a68_dim list \<Rightarrow> int" where
  "exts ds = prod_list (map dim_ext ds)"

lemma exts_simps [simp]: "exts [] = 1" "exts (d # ds) = dim_ext d * exts ds" "exts (xs @ ys) = exts xs * exts ys"
    "exts (rev xs) = exts xs"
  by (simp_all add: exts_def rev_map [symmetric] prod_list.rev)

abbreviation all_wide :: "a68_dim list \<Rightarrow> bool" where
  "all_wide ds \<equiv> \<forall>d \<in> set ds. 0 < dim_ext d"

lemma exts_pos: "all_wide ds \<Longrightarrow> 0 < exts ds"
  by (induction ds) simp_all

lemma count_loop_exts: "count_loop ds n = (if all_wide ds then n * exts ds else 0)"
  by (induction ds arbitrary: n) (auto simp: not_less algebra_simps)

lemma row_count_exts: "row_count r = (if all_wide (r_dim r) then exts (r_dim r) else 0)"
  by (simp add: row_count_def count_loop_exts)

lemma dim_ext_stride [simp]: "dim_ext (d\<lparr>d_stride := x\<rparr>) = dim_ext d"
  by (simp add: dim_ext_def)

lemma canon_down_append:
  "all_wide xs \<Longrightarrow> canon_down (xs @ ys) st = canon_down xs st @ canon_down ys (st * exts xs)"
  by (induction xs arbitrary: st) (simp_all add: mult.assoc)

lemma canon_dims_Cons: "all_wide ds \<Longrightarrow> canon_dims (d # ds) = d\<lparr>d_stride := exts ds\<rparr> # canon_dims ds"
  by (simp add: canon_dims_def canon_down_append)

lemma canon_dims_Nil [simp]: "canon_dims [] = []"
  by (simp add: canon_dims_def)

lemma canon_down_exts [simp]: "map dim_ext (canon_down ds st) = map dim_ext ds"
  by (induction ds arbitrary: st) simp_all

lemma canon_dims_exts [simp]: "map dim_ext (canon_dims ds) = map dim_ext ds"
  by (simp add: canon_dims_def rev_map [symmetric])

lemma exts_canon [simp]: "exts (canon_dims ds) = exts ds"
  by (simp add: exts_def)

lemma set_canon_wide [simp]: "all_wide (canon_dims ds) \<longleftrightarrow> all_wide ds"
proof -
  have "all_wide es \<longleftrightarrow> (\<forall>x \<in> set (map dim_ext es). 0 < x)" for es by simp
  then show ?thesis by (metis canon_dims_exts)
qed

lemma int_div_less: "0 < b \<Longrightarrow> a < c * b \<Longrightarrow> a div b < (c :: int)"
proof (rule ccontr)
  assume b: "0 < b" and a: "a < c * b" and "\<not> a div b < c"
  then have "c * b \<le> a div b * b" by (simp add: mult_right_mono)
  also have "\<dots> \<le> a" using b by (simp add: minus_mod_eq_div_mult [symmetric])
  finally show False using a by simp
qed

lemma index_down_canon:
  "all_wide es \<Longrightarrow> 0 \<le> flat \<Longrightarrow> flat < exts es \<Longrightarrow> index_down (canon_down es st) flat idx = Inr (idx + st * flat)"
proof (induction es arbitrary: st flat idx)
  case (Cons d es)
  have e: "0 < dim_ext d" "all_wide es" using Cons.prems by auto
  have q: "c_quot flat (dim_ext d) = flat div dim_ext d" "c_rem flat (dim_ext d) = flat mod dim_ext d"
    using Cons.prems e by (simp_all add: c_quot_nonneg c_rem_nonneg)
  have "flat div dim_ext d < exts es"
    using Cons.prems e by (intro int_div_less) (simp_all add: mult.commute)
  then have "index_down (canon_down es (st * dim_ext d)) (flat div dim_ext d) (idx + flat mod dim_ext d * st) =
    Inr (idx + flat mod dim_ext d * st + st * dim_ext d * (flat div dim_ext d))"
    using Cons.IH [OF e(2)] e Cons.prems(2) by (simp add: pos_imp_zdiv_nonneg_iff)
  moreover have "flat mod dim_ext d * st + st * dim_ext d * (flat div dim_ext d) = st * flat"
  proof -
    have "st * (flat mod dim_ext d + dim_ext d * (flat div dim_ext d)) = st * flat" by simp
    then show ?thesis by (simp only: algebra_simps)
  qed
  ultimately show ?case using e q by (simp add: add.assoc)
qed simp

text \<open>The position of the element with the given subscripts, row by row.\<close>

fun flat_index :: "a68_dim list \<Rightarrow> int list \<Rightarrow> int" where
  "flat_index (d # ds) (i # is) = (i - d_l d) * exts ds + flat_index ds is"
| "flat_index _ _ = 0"

fun in_bounds :: "a68_dim list \<Rightarrow> int list \<Rightarrow> bool" where
  "in_bounds [] [] = True"
| "in_bounds (d # ds) (i # is) = (d_l d \<le> i \<and> i \<le> d_u d \<and> in_bounds ds is)"
| "in_bounds _ _ = False"

lemma in_bounds_wide: "in_bounds ds is \<Longrightarrow> all_wide ds"
  by (induction ds "is" rule: in_bounds.induct) (auto simp: dim_ext_def)

lemma in_bounds_length: "in_bounds ds is \<Longrightarrow> length is = length ds"
  by (induction ds "is" rule: in_bounds.induct) auto

lemma flat_index_range: "in_bounds ds is \<Longrightarrow> 0 \<le> flat_index ds is \<and> flat_index ds is < exts ds"
proof (induction ds "is" rule: in_bounds.induct)
  case (2 d ds i "is")
  then have h: "0 \<le> flat_index ds is" "flat_index ds is < exts ds" "0 < exts ds"
    using exts_pos [OF in_bounds_wide] by auto
  have "(i - d_l d) * exts ds \<le> (dim_ext d - 1) * exts ds"
    using 2 h by (intro mult_right_mono) (auto simp: dim_ext_def)
  then have "(i - d_l d) * exts ds + flat_index ds is < dim_ext d * exts ds" using h by (simp add: algebra_simps)
  moreover have "0 \<le> (i - d_l d) * exts ds" using 2 h by simp
  ultimately show ?case using h by simp
qed simp_all

lemma flat_index_inject:
  "in_bounds ds is \<Longrightarrow> in_bounds ds js \<Longrightarrow> flat_index ds is = flat_index ds js \<Longrightarrow> is = js"
proof (induction ds "is" arbitrary: js rule: in_bounds.induct)
  case (2 d ds i "is")
  then obtain j js' where js: "js = j # js'" "in_bounds ds js'" by (cases js) auto
  have r: "0 \<le> flat_index ds is" "flat_index ds is < exts ds" "0 \<le> flat_index ds js'" "flat_index ds js' < exts ds"
    using flat_index_range js(2) 2(2) by auto
  have "((i - d_l d) * exts ds + flat_index ds is) div exts ds = ((j - d_l d) * exts ds + flat_index ds js') div exts ds"
    "((i - d_l d) * exts ds + flat_index ds is) mod exts ds = ((j - d_l d) * exts ds + flat_index ds js') mod exts ds"
    using 2(4) js(1) by simp_all
  then have "i - d_l d = j - d_l d" "flat_index ds is = flat_index ds js'" using r by simp_all
  then show ?case using 2(1) [OF _ js(2)] 2(2) js(1) by simp
next
  case 1 then show ?case by (cases js) auto
qed auto

lemma flat_index_onto:
  "all_wide ds \<Longrightarrow> 0 \<le> n \<Longrightarrow> n < exts ds \<Longrightarrow> \<exists>is. in_bounds ds is \<and> flat_index ds is = n"
proof (induction ds arbitrary: n)
  case Nil then show ?case by (auto intro: exI [of _ "[]"])
next
  case (Cons d ds)
  have e: "0 < exts ds" using exts_pos Cons.prems by simp
  obtain "is" where "in_bounds ds is" "flat_index ds is = n mod exts ds"
    using Cons.IH [of "n mod exts ds"] Cons.prems e by auto
  moreover have "0 \<le> n div exts ds" "n div exts ds < dim_ext d"
    using Cons.prems e by (simp_all add: pos_imp_zdiv_nonneg_iff int_div_less)
  ultimately have "in_bounds (d # ds) ((d_l d + n div exts ds) # is)" "flat_index (d # ds) ((d_l d + n div exts ds) # is) = n"
    by (auto simp: dim_ext_def)
  then show ?case by blast
qed

lemma slice_index_canon:
  "in_bounds ds is \<Longrightarrow> slice_dims (zip (canon_dims ds) (map Index is)) off = Inr (off + flat_index ds is, [])"
proof (induction ds "is" arbitrary: off rule: in_bounds.induct)
  case (2 d ds i "is")
  then show ?case using canon_dims_Cons [of ds d] in_bounds_wide [of ds "is"] by (simp add: add.assoc)
qed simp_all

lemma canonical_row_dense_parts:
  assumes r: "r_dim r = canon_dims ds" "r_off r = 0" and w: "all_wide ds"
  shows "in_bounds ds is \<Longrightarrow> slice_dims (zip (r_dim r) (map Index is)) (r_off r) = Inr (flat_index ds is, []) \<and>
      0 \<le> flat_index ds is \<and> flat_index ds is < row_count r"
    and "in_bounds ds is \<Longrightarrow> in_bounds ds js \<Longrightarrow> flat_index ds is = flat_index ds js \<Longrightarrow> is = js"
    and "0 \<le> n \<Longrightarrow> n < row_count r \<Longrightarrow> (\<exists>is. in_bounds ds is \<and> flat_index ds is = n) \<and> row_store_index r n = Inr n"
proof -
  have c: "row_count r = exts ds" using w r set_canon_wide [of ds] by (simp add: row_count_exts)
  show "in_bounds ds is \<Longrightarrow> slice_dims (zip (r_dim r) (map Index is)) (r_off r) = Inr (flat_index ds is, []) \<and>
      0 \<le> flat_index ds is \<and> flat_index ds is < row_count r"
    using slice_index_canon [of ds "is" 0] flat_index_range [of ds "is"] r c by simp
  show "in_bounds ds is \<Longrightarrow> in_bounds ds js \<Longrightarrow> flat_index ds is = flat_index ds js \<Longrightarrow> is = js"
    by (rule flat_index_inject)
  assume n: "0 \<le> n" "n < row_count r"
  have "row_store_index r n = Inr n"
    using index_down_canon [of "rev ds" n 1 0] w n c by (simp add: row_store_index_def r canon_dims_def)
  then show "(\<exists>is. in_bounds ds is \<and> flat_index ds is = n) \<and> row_store_index r n = Inr n"
    using flat_index_onto [OF w] n c by simp
qed


text \<open>A 2 by 3 row with bounds 0:1 and 1:3.\<close>

definition demo_dims :: "a68_dim list" where
  "demo_dims = [\<lparr>d_l = 0, d_u = 1, d_stride = 0\<rparr>, \<lparr>d_l = 1, d_u = 3, d_stride = 0\<rparr>]"

definition demo_rowd :: a68_rowd where
  "demo_rowd = \<lparr>r_base = 1, r_off = 0, r_field = 0, r_borrow = False, r_dim = canon_dims demo_dims\<rparr>"


section \<open>Slices of slices\<close>

text \<open>The subscripts in the row that subscripts in a slice of it stand for.\<close>

fun slice_subscripts :: "a68_dim list \<Rightarrow> indexer list \<Rightarrow> int list \<Rightarrow> int list" where
  "slice_subscripts (d # ds) (Index i # ixs) js = i # slice_subscripts ds ixs js"
| "slice_subscripts (d # ds) (Trim lo hi at' # ixs) (j # js) =
     (trim_lo lo d + (j - (case at' of Some a \<Rightarrow> a | None \<Rightarrow> 1))) # slice_subscripts ds ixs js"
| "slice_subscripts _ _ _ = []"

lemma slice_dims_shift:
  "slice_dims z (off + c) = bindE (slice_dims z off) (\<lambda>(o', ds). Inr (o' + c, ds))"
proof (induction z off rule: slice_dims.induct)
  case (2 d i rest off)
  have "off + c + (i - d_l d) * d_stride d = off + (i - d_l d) * d_stride d + c" by simp
  then show ?case using 2 by (auto simp: bindE_def ac_simps)
next
  case (3 d lo hi at' rest off)
  have "off + c + (trim_lo lo d - d_l d) * d_stride d = off + (trim_lo lo d - d_l d) * d_stride d + c" by simp
  then show ?case using 3 [OF refl refl] by (auto simp: bindE_def Let_def ac_simps split: sum.splits)
qed (simp add: bindE_def)

text \<open>
  C21: A slice is a window on the row: when \<open>a[...]\<close> with indices and trims gives a row, an element
  of that row by subscripts within its bounds is at the same position of the store as the element
  of \<open>a\<close> by the subscripts it stands for, which are within the bounds of \<open>a\<close>. So slicing a slice,
  reading through it and assigning to it reach the elements of the original row.
\<close>

theorem slice_is_window:
  assumes "length ixs = length ds" "slice_dims (zip ds ixs) off = Inr (off', ds')" "in_bounds ds' js"
  shows "in_bounds ds (slice_subscripts ds ixs js) \<and>
    slice_dims (zip ds' (map Index js)) off' = slice_dims (zip ds (map Index (slice_subscripts ds ixs js))) off"
  using assms
proof (induction ds ixs js arbitrary: off off' ds' rule: slice_subscripts.induct)
  case (1 d ds i ixs js)
  then show ?case by (auto split: if_splits)
next
  case (2 d ds lo hi at' ixs j js)
  define l h nl where "l = trim_lo lo d" and "h = trim_hi hi d" and "nl = (case at' of Some a \<Rightarrow> a | None \<Rightarrow> 1)"
  note defs = l_def [symmetric] h_def [symmetric] nl_def [symmetric]
  obtain o2 ds2 where s: "\<not> trim_outside l h d" "slice_dims (zip ds ixs) (off + (l - d_l d) * d_stride d) = Inr (o2, ds2)"
      and e: "off' = o2" "ds' = \<lparr>d_l = nl, d_u = nl + (h - l), d_stride = d_stride d\<rparr> # ds2"
    using 2(3) by (auto simp: Let_def defs bindE_def split: if_splits sum.splits)
  have j: "nl \<le> j" "j \<le> nl + (h - l)" "in_bounds ds2 js" using 2(4) e by auto
  have b: "d_l d \<le> l" "h \<le> d_u d" using s(1) j by (auto simp: trim_outside_def)
  have ih: "in_bounds ds (slice_subscripts ds ixs js) \<and> slice_dims (zip ds2 (map Index js)) o2 =
      slice_dims (zip ds (map Index (slice_subscripts ds ixs js))) (off + (l - d_l d) * d_stride d)"
    using 2(1) [OF _ s(2) j(3)] 2(2) by simp
  have o: "off + (l + (j - nl) - d_l d) * d_stride d = off + (l - d_l d) * d_stride d + (j - nl) * d_stride d"
    by (simp add: algebra_simps)
  have "slice_dims (zip ds2 (map Index js)) (o2 + (j - nl) * d_stride d) =
      slice_dims (zip ds (map Index (slice_subscripts ds ixs js))) (off + (l + (j - nl) - d_l d) * d_stride d)"
    unfolding o slice_dims_shift [of _ o2] slice_dims_shift [of _ "off + (l - d_l d) * d_stride d"] using ih by simp
  then show ?case using ih b j by (simp add: e defs)
qed (auto simp: Suc_length_conv Let_def bindE_def split: if_splits sum.splits)

theorem slice_is_window_witness:
  "slice_dims (zip (canon_dims demo_dims) [Index 1, Trim (Some 2) None None]) 0 = Inr (4, [\<lparr>d_l = 1, d_u = 2, d_stride = 1\<rparr>]) \<and>
   slice_dims (zip [\<lparr>d_l = 1, d_u = 2, d_stride = 1\<rparr>] (map Index [2])) 4 =
   slice_dims (zip (canon_dims demo_dims) (map Index [1, 3])) 0"
proof -
  have c: "canon_dims demo_dims = [\<lparr>d_l = 0, d_u = 1, d_stride = 3\<rparr>, \<lparr>d_l = 1, d_u = 3, d_stride = 1\<rparr>]"
    by (simp add: canon_dims_def demo_dims_def dim_ext_def)
  have s: "slice_dims (zip (canon_dims demo_dims) [Index 1, Trim (Some 2) None None]) 0 = Inr (4, [\<lparr>d_l = 1, d_u = 2, d_stride = 1\<rparr>])"
    by (simp add: c trim_lo_def trim_hi_def trim_outside_def bindE_def)
  have l: "length [Index 1, Trim (Some 2) None None] = length (canon_dims demo_dims)" by (simp add: c)
  have "in_bounds [\<lparr>d_l = 1, d_u = 2, d_stride = 1\<rparr>] [2]" by simp
  from slice_is_window [OF l s this] have "slice_dims (zip [\<lparr>d_l = 1, d_u = 2, d_stride = 1\<rparr>] (map Index [2])) 4 =
      slice_dims (zip (canon_dims demo_dims) (map Index (slice_subscripts (canon_dims demo_dims) [Index 1, Trim (Some 2) None None] [2]))) 0"
    by blast
  then show ?thesis using s by (simp add: c trim_lo_def)
qed

end
