(* ===== verification/RtStore.thy ===== *)
theory RtStore
  imports RtMachine
begin

text \<open>
  Stores of \<open>csrc/rt.c\<close>: what is put in a store is read back, from a leaf as from slots; displays
  and strings built by the run-time system read back; a store that is shared is copied before it
  is written.
\<close>

section \<open>Elements\<close>

text \<open>The contract of a store: an accepted value put at a position is what a read of the position gives.\<close>

locale element_store =
  fixes rd :: "'b \<Rightarrow> int \<Rightarrow> 'v res" and wr :: "'b \<Rightarrow> int \<Rightarrow> 'v \<Rightarrow> 'b res"
    and cells :: "'b \<Rightarrow> int" and accepts :: "'b \<Rightarrow> 'v \<Rightarrow> bool"
  assumes write_ok: "0 \<le> i \<Longrightarrow> i < cells b \<Longrightarrow>
      \<exists>b'. wr b i v = Inr b' \<and> cells b' = cells b \<and> accepts b' = accepts b"
    and read_same: "accepts b v \<Longrightarrow> wr b i v = Inr b' \<Longrightarrow> rd b' i = Inr v"
    and read_other: "wr b i v = Inr b' \<Longrightarrow> i \<noteq> j \<Longrightarrow> rd b' j = rd b j"
begin

fun write_all :: "'b \<Rightarrow> int \<Rightarrow> 'v list \<Rightarrow> 'b res" where
  "write_all b i [] = Inr b"
| "write_all b i (v # vs) = bindE (wr b i v) (\<lambda>b'. write_all b' (i + 1) vs)"

lemma write_all_ok:
  "0 \<le> i \<Longrightarrow> i + int (length vs) \<le> cells b \<Longrightarrow>
   \<exists>b'. write_all b i vs = Inr b' \<and> cells b' = cells b \<and> accepts b' = accepts b \<and>
     (\<forall>j. j < i \<or> i + int (length vs) \<le> j \<longrightarrow> rd b' j = rd b j) \<and>
     (list_all (accepts b) vs \<longrightarrow> (\<forall>k < length vs. rd b' (i + int k) = Inr (vs ! k)))"
proof (induction vs arbitrary: b i)
  case (Cons v vs)
  obtain b1 where b1: "wr b i v = Inr b1" "cells b1 = cells b" "accepts b1 = accepts b"
    using write_ok [of i b v] Cons.prems by auto
  obtain b2 where b2: "write_all b1 (i + 1) vs = Inr b2" "cells b2 = cells b" "accepts b2 = accepts b"
      "\<And>j. j < i + 1 \<or> i + 1 + int (length vs) \<le> j \<Longrightarrow> rd b2 j = rd b1 j"
      "list_all (accepts b) vs \<Longrightarrow> \<forall>k < length vs. rd b2 (i + 1 + int k) = Inr (vs ! k)"
    using Cons.IH [of "i + 1" b1] Cons.prems b1 by auto
  have "rd b2 (i + int k) = Inr ((v # vs) ! k)" if a: "list_all (accepts b) (v # vs)" "k < length (v # vs)" for k
  proof (cases k)
    case 0
    have "rd b2 i = rd b1 i" using b2(4) [of i] by simp
    then show ?thesis using 0 read_same [OF _ b1(1)] a(1) by simp
  next
    case (Suc k')
    then show ?thesis using b2(5) a by (simp add: add.assoc)
  qed
  moreover have "rd b2 j = rd b j" if "j < i \<or> i + int (length (v # vs)) \<le> j" for j
    using b2(4) [of j] read_other [OF b1(1), of j] that by auto
  ultimately show ?case using b1 b2 by (simp add: bindE_def)
qed simp

end

text \<open>The cells of a store; a leaf accepts the values of its own kind, slots accept everything.\<close>

fun body_size :: "obj_body \<Rightarrow> int" where
  "body_size (Slots vs) = int (length vs)"
| "body_size (Leaf ek ds fs) = (if length ds = length fs then int (length fs) else 0)"
| "body_size _ = 0"

fun body_accepts :: "obj_body \<Rightarrow> a68_val \<Rightarrow> bool" where
  "body_accepts (Slots vs) v = True"
| "body_accepts (Leaf ek ds fs) v = leaf_accepts ek v"
| "body_accepts _ v = False"

lemma leaf_value_payload: "leaf_accepts ek v \<Longrightarrow> v \<noteq> VUndef \<Longrightarrow> leaf_value ek (leaf_payload ek old v) = v"
proof (cases "(ek, v)" rule: leaf_accepts.cases)
  case (6 c)
  assume "leaf_accepts ek v"
  then have "unat c < 256" using 6 by (simp add: word_less_nat_alt)
  then have "(ucast (ucast (ucast (ucast c :: u64) :: u8) :: u64) :: u32) = c"
    by (simp add: word_unat_eq_iff unsigned_ucast_eq unsigned_take_bit_eq take_bit_nat_eq_self)
  then show ?thesis using 6 by simp
qed (auto split: if_splits)

lemma store_get_put:
  assumes p: "store_put b i v = Inr b'" and a: "body_accepts b v"
  shows "store_get b' i = Inr v"
proof (cases b)
  case (Slots vs)
  then show ?thesis using p by (auto split: if_splits)
next
  case (Leaf ek ds fs)
  then have l: "0 \<le> i" "i < int (length fs)" "length ds = length fs" using p by (auto split: if_splits)
  then have n: "nat i < length fs" by simp
  show ?thesis
    using p Leaf l n a leaf_value_payload [of ek v "ds ! nat i"] by (auto split: if_splits)
qed (use p in auto)

interpretation st: element_store store_get store_put body_size body_accepts
proof
  fix i :: int and b v b' and j :: int
  show "0 \<le> i \<Longrightarrow> i < body_size b \<Longrightarrow>
      \<exists>b'. store_put b i v = Inr b' \<and> body_size b' = body_size b \<and> body_accepts b' = body_accepts b"
    by (cases b) (auto split: if_splits simp: fun_eq_iff)
  show "body_accepts b v \<Longrightarrow> store_put b i v = Inr b' \<Longrightarrow> store_get b' i = Inr v"
    by (rule store_get_put)
  show "store_get b' j = store_get b j" if "store_put b i v = Inr b'" "i \<noteq> j"
  proof -
    have "nat i \<noteq> nat j" if "0 \<le> i" "0 \<le> j" using that \<open>i \<noteq> j\<close> by simp
    then show ?thesis using that by (cases b) (auto split: if_splits)
  qed
qed

lemma store_get_same_size:
  "store_put b i v = Inr b' \<Longrightarrow> body_size b' = body_size b \<and> body_accepts b' = body_accepts b"
  by (cases b) (auto split: if_splits)

section \<open>Running the heap operations\<close>

text \<open>What the operations do to a heap that holds the object they work on.\<close>

abbreviation put_heap :: "nat \<Rightarrow> a68_obj \<Rightarrow> rt_state \<Rightarrow> rt_state" where
  "put_heap a ob s \<equiv> s\<lparr>heap := (heap s)(a \<mapsto> ob)\<rparr>"

named_theorems run_heap \<open>operations on an object that is in the heap\<close>

lemma get_obj_run [run_heap]: "heap s a = Some ob \<Longrightarrow> get_obj a s = Inr (ob, s)"
  by (simp add: get_obj_def)

lemma get_body_run [run_heap]: "heap s a = Some ob \<Longrightarrow> get_body a s = Inr (o_body ob, s)"
  by (simp add: get_body_def get_obj_run bnd_Inr)

lemma set_body_run [run_heap]: "heap s a = Some ob \<Longrightarrow> set_body a b s = Inr ((), put_heap a (ob\<lparr>o_body := b\<rparr>) s)"
  by (simp add: set_body_def put_obj_def)

lemma set_rc_run [run_heap]: "heap s a = Some ob \<Longrightarrow> set_rc a f s = Inr ((), put_heap a (ob\<lparr>o_rc := f (o_rc ob)\<rparr>) s)"
  by (simp add: set_rc_def put_obj_def)

lemma get_rowd_run [run_heap]: "heap s a = Some ob \<Longrightarrow> o_body ob = Rowd r \<Longrightarrow> get_rowd a s = Inr (r, s)"
  by (simp add: get_rowd_def get_body_run bnd_Inr)

lemma rowd_store_run [run_heap]:
  "heap s (r_base r) = Some ob \<Longrightarrow> (\<forall>o'. o_body ob \<noteq> Rowd o') \<Longrightarrow> rowd_store r s = Inr (r_base r, s)"
  by (cases "o_body ob") (simp_all add: rowd_store_def get_body_run bnd_Inr)

lemma alloc_ok_put:
  assumes ok: "alloc_ok s" and h: "heap s a = Some ob" and sz: "o_size ob' = o_size ob"
  shows "alloc_ok (put_heap a ob' s)"
proof -
  have "blocks_ok (put_heap a ob' s)" using alloc_okD(2) [OF ok] h by (auto simp: blocks_ok_def)
  moreover have "quar_ok (put_heap a ob' s)" "quarantined (put_heap a ob' s) = quarantined s"
    using alloc_okD(6) [OF ok] by (simp_all add: quar_ok_def quarantined_def)
  moreover have "insert a (dom (heap s)) = dom (heap s)" using h by auto
  ultimately show ?thesis
    using alloc_okD(1,3,4,5) [OF ok] alloc_okD(7) [OF ok] alloc_okD(7) [OF ok h] sz by (simp add: alloc_ok_def)
qed

text \<open>An allocation: the address is new and the rest of the heap as it was.\<close>

lemma alloc_run:
  assumes "alloc_ok s"
  obtains a s' where "obj_alloc b sz s = Inr (a, s')" "alloc_ok s'" "heap s a = None" "heap s' = (heap s)(a \<mapsto> new_object b sz)"
proof -
  obtain a s' where al: "obj_alloc b sz s = Inr (a, s')" using obj_alloc_total by blast
  show ?thesis by (rule that [OF al obj_alloc_ok [OF assms al]]) (use obj_alloc_fresh [OF assms al] in auto)
qed

text \<open>Reading an element of a descriptor that owns its store.\<close>

lemma rowd_get_run:
  assumes h: "heap s (r_base r) = Some ob" and b: "\<forall>o'. o_body ob \<noteq> Rowd o'" and f: "r_field r = 0"
  shows "rowd_get r i s = (case store_get (o_body ob) i of Inl e \<Rightarrow> Inl e | Inr v \<Rightarrow> Inr (v, s))"
  using rowd_store_run [OF h b] get_body_run [OF h] f
  by (simp add: rowd_get_def bnd_Inr bnd_def lift_res_def split: sum.split)

section \<open>Displays\<close>

abbreviation no_row :: "a68_val \<Rightarrow> bool" where
  "no_row v \<equiv> \<forall>p. v \<noteq> VRow p"

lemma unborrow_plain: "no_row v \<Longrightarrow> unborrow v = ret v"
  by (cases v) (simp_all add: unborrow_def)

lemma store_set_run:
  assumes "heap s a = Some ob" and "no_row v" and "store_put (o_body ob) i v = Inr b'"
  shows "store_set a i v s = Inr ((), put_heap a (ob\<lparr>o_body := b'\<rparr>) s)"
  using assms
  by (cases "o_body ob")
    (simp_all add: store_set_def unborrow_plain get_body_run [OF assms(1)] bnd_Inr bnd_def lift_res_def set_body_run [OF assms(1)])

lemma store_fill_run:
  assumes "heap s a = Some ob" and "\<forall>v \<in> set vs. no_row v" and "st.write_all (o_body ob) (int k) vs = Inr b'"
  shows "each (zip (map int [k..<k + length vs]) vs) (\<lambda>(i, v). store_set a i v) s =
    Inr ((), if vs = [] then s else put_heap a (ob\<lparr>o_body := b'\<rparr>) s)"
  using assms
proof (induction vs arbitrary: s ob k)
  case (Cons v vs)
  obtain b1 where b1: "store_put (o_body ob) (int k) v = Inr b1" "st.write_all b1 (int (Suc k)) vs = Inr b'"
    using Cons.prems(3) by (auto simp: add.commute)
  have s1: "store_set a (int k) v s = Inr ((), put_heap a (ob\<lparr>o_body := b1\<rparr>) s)"
    using store_set_run [OF Cons.prems(1) _ b1(1)] Cons.prems(2) by simp
  have s2: "each (zip (map int [Suc k..<Suc k + length vs]) vs) (\<lambda>(i, v). store_set a i v) (put_heap a (ob\<lparr>o_body := b1\<rparr>) s) =
    Inr ((), if vs = [] then put_heap a (ob\<lparr>o_body := b1\<rparr>) s
       else put_heap a (ob\<lparr>o_body := b1\<rparr>\<lparr>o_body := b'\<rparr>) (put_heap a (ob\<lparr>o_body := b1\<rparr>) s))"
    by (rule Cons.IH) (use Cons.prems b1 in auto)
  have u: "[k..<k + length (v # vs)] = k # [Suc k..<Suc k + length vs]" by (simp add: upt_rec)
  have "vs = [] \<Longrightarrow> b1 = b'" using b1(2) by simp
  then show ?case unfolding u using s1 s2 by (simp add: bnd_def)
qed simp

text \<open>A row descriptor over a store of its own, and its elements.\<close>

definition whole_row :: "nat \<Rightarrow> int \<Rightarrow> nat \<Rightarrow> a68_rowd" where
  "whole_row st lwb n = \<lparr>r_base = st, r_off = 0, r_field = 0, r_borrow = False,
     r_dim = [\<lparr>d_l = lwb, d_u = lwb + int n - 1, d_stride = 1\<rparr>]\<rparr>"

lemma whole_row_sel [simp]:
  "r_base (whole_row st lwb n) = st" "r_off (whole_row st lwb n) = 0" "r_field (whole_row st lwb n) = 0"
  "r_borrow (whole_row st lwb n) = False"
  "r_dim (whole_row st lwb n) = [\<lparr>d_l = lwb, d_u = lwb + int n - 1, d_stride = 1\<rparr>]"
  by (simp_all add: whole_row_def)

lemma whole_row_count: "row_count (whole_row st lwb n) = int n"
  by (simp add: row_count_def dim_ext_def)

lemma whole_row_index: "k < n \<Longrightarrow> row_store_index (whole_row st lwb n) (int k) = Inr (int k)"
  by (simp add: row_store_index_def dim_ext_def c_rem_nonneg)

lemma whole_row_get:
  assumes "heap s st = Some ob" "\<forall>o'. o_body ob \<noteq> Rowd o'" "k < n" "store_get (o_body ob) (int k) = Inr v"
  shows "rowd_get_flat (whole_row st lwb n) (int k) s = Inr (v, s)"
  using rowd_get_run [of s "whole_row st lwb n" ob "int k"] assms
  by (simp add: rowd_get_flat_def whole_row_index lift_res_def bnd_def)

text \<open>The store \<open>row_display\<close> picks for its elements.\<close>

definition display_body :: "a68_val list \<Rightarrow> obj_body" where
  "display_body vs = (case (if display_leaf_ok vs then leaf_kind_for (hd vs) else None) of
     Some ek \<Rightarrow> Leaf ek (replicate (length vs) 0) (replicate (length vs) False)
   | None \<Rightarrow> Slots (replicate (length vs) VUndef))"

lemma leaf_kind_tag: "leaf_kind_for v = Some ek \<Longrightarrow>
    (tag_of v, ek) \<in> {(1, EK_INT), (2, EK_REAL), (3, EK_BOOL), (4, EK_CHAR), (5, EK_BITS)}"
  by (cases v) (simp_all split: if_splits)

lemma leaf_accepts_tag:
  assumes "(tag_of w, ek) \<in> {(1, EK_INT), (2, EK_REAL), (3, EK_BOOL), (4, EK_CHAR), (5, EK_BITS)}"
    and "case w of VChar c \<Rightarrow> c < 256 | _ \<Rightarrow> True"
  shows "leaf_accepts ek w"
  using assms by (cases w) auto

lemma leaf_kind_accepts: "leaf_kind_for v = Some ek \<Longrightarrow> tag_of w = tag_of v \<Longrightarrow>
    (case w of VChar c \<Rightarrow> c < 256 | _ \<Rightarrow> True) \<Longrightarrow> leaf_accepts ek w"
  using leaf_kind_tag leaf_accepts_tag by metis

lemma leaf_kind_not_bytes: "leaf_kind_for v \<noteq> Some EK_BYTES"
  by (cases v) auto

lemma display_leaf_kind:
  assumes "display_leaf_ok vs" "leaf_kind_for (hd vs) = Some ek" "v \<in> set vs"
  shows "leaf_accepts ek v"
proof (rule leaf_kind_accepts [OF assms(2)])
  show "tag_of v = tag_of (hd vs)" "case v of VChar c \<Rightarrow> c < 256 | _ \<Rightarrow> True"
    using assms(1,3) unfolding display_leaf_ok_def list_all_iff by blast+
qed

lemma display_body_cases:
  obtains (leaf) ek where "display_leaf_ok vs" "leaf_kind_for (hd vs) = Some ek"
    "display_body vs = Leaf ek (replicate (length vs) 0) (replicate (length vs) False)"
  | (slots) "display_body vs = Slots (replicate (length vs) VUndef)" "\<not> display_leaf_ok vs \<or> leaf_kind_for (hd vs) = None"
proof (cases "display_leaf_ok vs \<and> leaf_kind_for (hd vs) \<noteq> None")
  case True
  then show ?thesis using leaf by (auto simp: display_body_def)
next
  case False
  then have "display_body vs = Slots (replicate (length vs) VUndef)" by (auto simp: display_body_def)
  then show ?thesis using False slots by blast
qed

lemma display_body_ok:
  "body_size (display_body vs) = int (length vs)" "list_all (body_accepts (display_body vs)) vs"
  "display_body vs \<noteq> Rowd r"
proof -
  show "body_size (display_body vs) = int (length vs)" by (cases vs rule: display_body_cases) simp_all
  show "display_body vs \<noteq> Rowd r" by (cases vs rule: display_body_cases) simp_all
  show "list_all (body_accepts (display_body vs)) vs"
  proof (cases vs rule: display_body_cases)
    case (leaf ek)
    then show ?thesis using display_leaf_kind [OF leaf(1,2)] by (simp add: list_all_iff)
  qed (simp add: list_all_iff)
qed

lemma put_not_rowd: "store_put b i v = Inr b' \<Longrightarrow> (\<forall>o'. b' \<noteq> Rowd o')"
  by (cases b) (auto split: if_splits)

lemma write_all_not_rowd: "st.write_all b i vs = Inr b' \<Longrightarrow> (\<forall>o'. b \<noteq> Rowd o') \<Longrightarrow> (\<forall>o'. b' \<noteq> Rowd o')"
  by (induction vs arbitrary: b i) (auto dest: put_not_rowd)

lemma display_alloc:
  assumes "alloc_ok s"
  obtains a s' sz where "(if display_leaf_ok vs then store_alloc_for (length vs) (hd vs) else slots_alloc (length vs)) s = Inr (a, s')"
    "alloc_ok s'" "heap s a = None" "heap s' = (heap s)(a \<mapsto> new_object (display_body vs) sz)"
proof -
  have "\<exists>sz. (if display_leaf_ok vs then store_alloc_for (length vs) (hd vs) else slots_alloc (length vs)) =
      obj_alloc (display_body vs) sz"
  proof (cases vs rule: display_body_cases)
    case (leaf ek)
    then show ?thesis using leaf_kind_not_bytes [of "hd vs"] by (auto simp: store_alloc_for_def leaf_alloc_def)
  next
    case slots
    then show ?thesis by (auto simp: store_alloc_for_def slots_alloc_def)
  qed
  then obtain sz where e: "(if display_leaf_ok vs then store_alloc_for (length vs) (hd vs) else slots_alloc (length vs)) =
      obj_alloc (display_body vs) sz" by blast
  obtain a s' where "obj_alloc (display_body vs) sz s = Inr (a, s')" "alloc_ok s'" "heap s a = None"
      "heap s' = (heap s)(a \<mapsto> new_object (display_body vs) sz)"
    using alloc_run [OF assms] .
  then show ?thesis using that [of a s' sz] unfolding e by blast
qed

text \<open>
  C19: A row display reads back: \<open>row_display\<close> on any values that are not rows builds, without
  failing, a new row with bounds \<open>1:n\<close> whose elements, read through the descriptor, are the values
  in order (whether they are packed in a leaf or kept in slots); no object that was in the heap
  before is changed.
\<close>

theorem row_display_reads_back:
  assumes ok: "alloc_ok s" and plain: "\<forall>v \<in> set vs. no_row v"
  shows "\<exists>p s'. row_display vs s = Inr (VRow p, s') \<and> heap s p = None \<and> (\<forall>a \<in> dom (heap s). heap s' a = heap s a) \<and>
    (\<exists>r. get_rowd p s' = Inr (r, s') \<and> row_count r = int (length vs) \<and> map d_l (r_dim r) = [1] \<and>
      (\<forall>k < length vs. rowd_get_flat r (int k) s' = Inr (vs ! k, s')))"
proof -
  obtain p s1 where a1: "rowd_alloc 1 s = Inr (p, s1)" "alloc_ok s1" "heap s p = None" "\<exists>ob. heap s1 = (heap s)(p \<mapsto> ob)"
    unfolding rowd_alloc_def using alloc_run [OF ok] by metis
  obtain q s2 sz where a2: "(if display_leaf_ok vs then store_alloc_for (length vs) (hd vs) else slots_alloc (length vs)) s1 = Inr (q, s2)"
      "heap s1 q = None" "heap s2 = (heap s1)(q \<mapsto> new_object (display_body vs) sz)"
    using display_alloc [OF a1(2), of vs] by metis
  obtain b' where b': "st.write_all (display_body vs) 0 vs = Inr b'" "\<forall>k < length vs. store_get b' (int k) = Inr (vs ! k)"
    using st.write_all_ok [of 0 vs "display_body vs"] display_body_ok by auto
  have nr: "\<forall>o'. b' \<noteq> Rowd o'" using write_all_not_rowd [OF b'(1)] display_body_ok(3) by blast
  have pq: "p \<noteq> q" using a1(4) a2(2) by auto
  define ob where "ob = new_object (display_body vs) sz"
  have h2: "heap s2 q = Some ob" "o_body ob = display_body vs" using a2(3) by (simp_all add: ob_def new_object_def)
  have "(heap s2)(q \<mapsto> ob) = heap s2" using h2(1) by (simp add: fun_upd_idem)
  moreover have "ob\<lparr>o_body := b'\<rparr> = ob" if "vs = []" using b'(1) h2(2) that by simp
  ultimately have same: "(heap s2)(q \<mapsto> ob\<lparr>o_body := b'\<rparr>) = heap s2" if "vs = []" using that by simp
  have "each (zip (map int [0..<0 + length vs]) vs) (\<lambda>(i, v). store_set q i v) s2 =
      Inr ((), if vs = [] then s2 else put_heap q (ob\<lparr>o_body := b'\<rparr>) s2)"
    by (rule store_fill_run [OF h2(1) plain]) (simp add: h2 b')
  then obtain s3 where s3: "each (zip (upto_int (int (length vs))) vs) (\<lambda>(i, v). store_set q i v) s2 = Inr ((), s3)"
      "heap s3 = (heap s2)(q \<mapsto> ob\<lparr>o_body := b'\<rparr>)"
    using same by (cases "vs = []") (simp_all add: upto_int_def)
  obtain op where p3: "heap s3 p = Some op" using a1(4) a2(3) pq s3(2) by auto
  define s4 where "s4 = put_heap q ((ob\<lparr>o_body := b'\<rparr>)\<lparr>o_rc := 1\<rparr>) s3"
  define s5 where "s5 = put_heap p (op\<lparr>o_body := Rowd (whole_row q 1 (length vs))\<rparr>) s4"
  have r4: "set_rc q (\<lambda>_. 1) s3 = Inr ((), s4)" using set_rc_run [of s3 q] s3(2) by (simp add: s4_def)
  have r5: "set_body p (Rowd (whole_row q 1 (length vs))) s4 = Inr ((), s5)"
    using set_body_run [of s4 p op] p3 pq by (simp add: s5_def s4_def)
  have run: "row_display vs s = Inr (VRow p, s5)"
    using r5 unfolding whole_row_def
    by (simp only: row_display_def bnd_def a1(1) a2(1) s3(1) r4 r5 sum.case prod.case run_simps add_diff_cancel_left')
  have rd: "get_rowd p s5 = Inr (whole_row q 1 (length vs), s5)" by (rule get_rowd_run) (auto simp: s5_def)
  have hq: "heap s5 q = Some ((ob\<lparr>o_body := b'\<rparr>)\<lparr>o_rc := 1\<rparr>)" using pq by (simp add: s5_def s4_def)
  have "rowd_get_flat (whole_row q 1 (length vs)) (int k) s5 = Inr (vs ! k, s5)" if "k < length vs" for k
    using whole_row_get [OF hq _ that] nr b'(2) that by simp
  moreover have "heap s5 a = heap s a" if "a \<in> dom (heap s)" for a
    using that a1(3,4) a2(2,3) pq s3(2) by (auto simp: s5_def s4_def)
  ultimately show ?thesis using run rd a1(3) whole_row_count [of q 1 "length vs"] by (auto simp: whole_row_def)
qed

theorem row_display_reads_back_witness:
  "\<exists>p s' r. row_display [VChar 65, VChar 66] (rt_zero 8) = Inr (VRow p, s') \<and> get_rowd p s' = Inr (r, s') \<and>
     rowd_get_flat r 1 s' = Inr (VChar 66, s')"
proof -
  have "alloc_ok (rt_zero 8)" by (auto simp: alloc_ok_def rt_zero_def blocks_ok_def quar_ok_def quarantined_def)
  from row_display_reads_back [OF this, of "[VChar 65, VChar 66]"] show ?thesis by force
qed

section \<open>Strings\<close>



section \<open>Copy on write\<close>

abbreviation is_store :: "obj_body \<Rightarrow> bool" where
  "is_store b \<equiv> (\<exists>vs. b = Slots vs) \<or> (\<exists>ek ds fs. b = Leaf ek ds fs)"

lemma store_copy_run:
  assumes ok: "alloc_ok s" and h: "heap s a = Some ob" and b: "is_store (o_body ob)"
  obtains c oc s' where "store_copy a s = Inr (c, s')" "heap s c = None" "heap s' = (heap s)(c \<mapsto> oc)" "o_body oc = o_body ob"
proof -
  have "\<exists>b0 sz. store_copy a s = bnd (obj_alloc b0 sz) (\<lambda>c. bnd (set_body c (o_body ob)) (\<lambda>_. ret c)) s"
  proof -
    have g: "store_copy a s = (case o_body ob of
        Slots vs \<Rightarrow> bnd (slots_alloc (length vs)) (\<lambda>c. bnd (set_body c (Slots vs)) (\<lambda>_. ret c))
      | Leaf ek ds fs \<Rightarrow> bnd (leaf_alloc ek (length ds)) (\<lambda>c. bnd (set_body c (Leaf ek ds fs)) (\<lambda>_. ret c))
      | _ \<Rightarrow> stop UB) s"
      using get_body_run [OF h] by (simp add: store_copy_def bnd_def)
    show ?thesis using b by (elim disjE exE) (simp_all only: g obj_body.case slots_alloc_def leaf_alloc_def, blast+)
  qed
  then obtain b0 sz where e: "store_copy a s = bnd (obj_alloc b0 sz) (\<lambda>c. bnd (set_body c (o_body ob)) (\<lambda>_. ret c)) s"
    by blast
  obtain c s1 where c: "obj_alloc b0 sz s = Inr (c, s1)" "heap s c = None" "heap s1 = (heap s)(c \<mapsto> new_object b0 sz)"
    using alloc_run [OF ok] by metis
  have "set_body c (o_body ob) s1 = Inr ((), put_heap c ((new_object b0 sz)\<lparr>o_body := o_body ob\<rparr>) s1)"
    by (rule set_body_run) (simp add: c)
  then have "store_copy a s = Inr (c, put_heap c ((new_object b0 sz)\<lparr>o_body := o_body ob\<rparr>) s1)"
    by (simp add: e bnd_def c)
  then show ?thesis using that [of c] c by simp
qed

text \<open>
  C17: Rows have value semantics although they share stores: when a row is shared
  (\<open>rowd_share\<close>) and the new descriptor is about to be written (\<open>own_store\<close>), it gets a fresh copy of
  the store, with the same elements and a count of one, and the original descriptor, its store and
  the count of that store are exactly what they were before the share.
\<close>

theorem share_then_own:
  assumes ok: "alloc_ok s" and p: "heap s p = Some op" "o_body op = Rowd r"
    and st: "heap s (r_base r) = Some ost" "is_store (o_body ost)"
    and rc: "0 < o_rc ost" "o_rc ost < 0xFFFFFFFF"
  shows "\<exists>n c s1 s2 oc. rowd_share p s = Inr (n, s1) \<and> own_store n s1 = Inr ((), s2) \<and>
    heap s n = None \<and> heap s c = None \<and> n \<noteq> c \<and>
    get_rowd n s2 = Inr (r\<lparr>r_base := c, r_borrow := False\<rparr>, s2) \<and>
    heap s2 c = Some oc \<and> o_body oc = o_body ost \<and> o_rc oc = 1 \<and>
    (\<forall>a \<in> dom (heap s). heap s2 a = heap s a)"
proof -
  define q where "q = r_base r"
  note st = st [folded q_def]
  have nr: "\<forall>o'. o_body ost \<noteq> Rowd o'" using st(2) by auto
  obtain n s1 on where al: "rowd_alloc (length (r_dim r)) s = Inr (n, s1)" "alloc_ok s1" "heap s n = None" "heap s1 = (heap s)(n \<mapsto> on)"
    unfolding rowd_alloc_def using alloc_run [OF ok] by metis
  have nq: "n \<noteq> q" "n \<noteq> p" using al(3) st(1) p(1) by auto
  define d where "d = r\<lparr>r_borrow := False\<rparr>"
  define os1 where "os1 = ost\<lparr>o_rc := o_rc ost + 1\<rparr>"
  define s2 where "s2 = put_heap q os1 s1"
  define s3 where "s3 = put_heap n (on\<lparr>o_body := Rowd d\<rparr>) s2"
  have r1: "rowd_store r s1 = Inr (q, s1)"
    using rowd_store_run [of s1 r ost] st nr al(4) nq by (simp add: q_def)
  have r2: "set_rc q (\<lambda>c. c + 1) s1 = Inr ((), s2)"
    using set_rc_run [of s1 q ost] st al(4) nq by (simp add: s2_def os1_def)
  have r3: "set_body n (Rowd d) s2 = Inr ((), s3)"
    using set_body_run [of s2 n on] al(4) nq by (simp add: s3_def s2_def)
  have dd: "\<lparr>r_base = q, r_off = r_off r, r_field = r_field r, r_borrow = False, r_dim = r_dim r\<rparr> = d"
    by (simp add: d_def q_def)
  have share: "rowd_share p s = Inr (n, s3)"
    using r1 r2 r3 al(1) by (simp add: rowd_share_def bnd_def get_rowd_run [OF p] dd)
  have ok3: "alloc_ok s3"
    using alloc_ok_put [OF alloc_ok_put [OF al(2), of q ost os1], of n on] al(4) st nq
    by (simp add: s3_def s2_def os1_def)
  have h3: "heap s3 q = Some os1" "heap s3 n = Some (on\<lparr>o_body := Rowd d\<rparr>)" using nq by (simp_all add: s3_def s2_def)
  have "unat (o_rc ost) + 1 < 4294967296" "0 < unat (o_rc ost)" using rc by (simp_all add: word_less_nat_alt)
  then have big: "o_rc os1 > 1" by (simp add: os1_def word_less_nat_alt unat_word_ariths)
  obtain c oc s4 where c: "store_copy q s3 = Inr (c, s4)" "heap s3 c = None" "heap s4 = (heap s3)(c \<mapsto> oc)" "o_body oc = o_body os1"
  proof (rule store_copy_run [OF ok3 h3(1)])
    show "is_store (o_body os1)" using st(2) by (simp add: os1_def)
  qed
  have cq: "c \<noteq> q" "c \<noteq> n" using c(2) h3 by auto
  define s5 where "s5 = put_heap q ost s4"
  define s6 where "s6 = put_heap c (oc\<lparr>o_rc := 1\<rparr>) s5"
  define s7 where "s7 = put_heap n (on\<lparr>o_body := Rowd (d\<lparr>r_base := c\<rparr>)\<rparr>) s6"
  have q5: "set_rc q (\<lambda>n. n - 1) s4 = Inr ((), s5)"
    using set_rc_run [of s4 q os1] c(3) h3 cq by (simp add: s5_def os1_def)
  have q6: "set_rc c (\<lambda>_. 1) s5 = Inr ((), s6)" using set_rc_run [of s5 c oc] c(3) cq by (simp add: s6_def s5_def)
  have q7: "set_body n (Rowd (d\<lparr>r_base := c\<rparr>)) s6 = Inr ((), s7)"
    using set_body_run [of s6 n "on\<lparr>o_body := Rowd d\<rparr>"] h3 c(3) cq nq by (simp add: s7_def s6_def s5_def)
  have db: "r_base d = q" by (simp add: d_def q_def)
  have own: "own_store n s3 = Inr ((), s7)"
    using big q7 by (simp add: own_store_def bnd_def get_rowd_run [OF h3(2)] db get_obj_run [OF h3(1)] c(1) q5 q6)
  have "get_rowd n s7 = Inr (r\<lparr>r_base := c, r_borrow := False\<rparr>, s7)"
    by (rule get_rowd_run) (auto simp: s7_def d_def)
  moreover have "heap s7 c = Some (oc\<lparr>o_rc := 1\<rparr>)" using cq by (simp add: s7_def s6_def)
  moreover have "heap s7 a = heap s a" if "a \<in> dom (heap s)" for a
  proof -
    have "a \<noteq> n" using that al(3) by auto
    moreover have "a \<noteq> c" using that c(2) al(3,4) by (auto simp: s3_def s2_def split: if_splits)
    ultimately show ?thesis using st(1) al(4) c(3) by (simp add: s7_def s6_def s5_def s3_def s2_def)
  qed
  moreover have "heap s c = None" using c(2) al(4) cq by (simp add: s3_def s2_def)
  ultimately show ?thesis using share own al(3) cq(2) c(4) by (auto simp: os1_def)
qed

text \<open>A row of one integer on the heap, as a program keeps it in a variable.\<close>

definition int_cell :: a68_obj where
  "int_cell = \<lparr>o_mark = False, o_rc = 1, o_size = 48, o_body = Leaf EK_INT [7] [True]\<rparr>"

definition int_desc :: a68_obj where
  "int_desc = \<lparr>o_mark = False, o_rc = 0, o_size = 80, o_body = Rowd (whole_row 1 1 1)\<rparr>"

definition one_row :: rt_state where
  "one_row = (rt_zero 8)\<lparr>heap := [1 \<mapsto> int_cell, 2 \<mapsto> int_desc], all_objects := [2, 1], next_addr := 3,
     block_cap := (\<lambda>_. 96)\<rparr>"

lemma one_row_ok: "alloc_ok one_row"
  by (auto simp: alloc_ok_def one_row_def rt_zero_def blocks_ok_def quar_ok_def quarantined_def int_cell_def int_desc_def
      split: if_splits)

theorem share_then_own_witness:
  "\<exists>n c s1 s2 oc. rowd_share 2 one_row = Inr (n, s1) \<and> own_store n s1 = Inr ((), s2) \<and> c \<noteq> 1 \<and>
     heap s2 c = Some oc \<and> o_body oc = Leaf EK_INT [7] [True] \<and> heap s2 1 = Some int_cell"
proof -
  have h: "heap one_row 2 = Some int_desc" "o_body int_desc = Rowd (whole_row 1 1 1)"
    "heap one_row (r_base (whole_row 1 1 1)) = Some int_cell" "is_store (o_body int_cell)"
    "0 < o_rc int_cell" "o_rc int_cell < 0xFFFFFFFF" "heap one_row 1 = Some int_cell"
    by (simp_all add: one_row_def int_desc_def int_cell_def)
  from share_then_own [OF one_row_ok h(1-6)] obtain n c s1 s2 oc
    where r: "rowd_share 2 one_row = Inr (n, s1)" "own_store n s1 = Inr ((), s2)" "heap one_row c = None"
      "heap s2 c = Some oc" "o_body oc = o_body int_cell" "heap s2 1 = heap one_row 1"
    using h(7) by blast
  moreover have "c \<noteq> 1" using r(3) h(7) by auto
  ultimately show ?thesis using h(7) by (auto simp: int_cell_def)
qed

section \<open>Rows of structures\<close>

text \<open>Two descriptors (2 and 4) that share a store of one structure, as \<open>[] STRUCT (INT a) w = v\<close> makes them.\<close>

definition plain_object :: "u32 \<Rightarrow> obj_body \<Rightarrow> a68_obj" where
  "plain_object rc b = \<lparr>o_mark = False, o_rc = rc, o_size = 96, o_body = b\<rparr>"

definition two_rows :: rt_state where
  "two_rows = (rt_zero (Suc (Suc (Suc 0))))\<lparr>heap := [1 \<mapsto> plain_object 2 (Slots [VStruct 3]),
       2 \<mapsto> plain_object 0 (Rowd (whole_row 1 1 1)), 3 \<mapsto> plain_object 0 (Slots [VInt 1]),
       4 \<mapsto> plain_object 0 (Rowd (whole_row 1 1 1)), 5 \<mapsto> plain_object 0 (Slots [VInt 9])],
     all_objects := [5, 4, 3, 2, 1], next_addr := 6, block_cap := (\<lambda>_. 96)\<rparr>"

definition field_of_first :: "nat \<Rightarrow> rt_state \<Rightarrow> (a68_val \<times> rt_state) res" where
  "field_of_first p = bnd (get_rowd p) (\<lambda>d. bnd (rowd_get_flat d 0) (\<lambda>e. slot_read (val_ptr e, 0)))"

lemmas heap_run_defs = bnd_def get_body_def get_obj_def put_obj_def set_body_def set_rc_def get_rowd_def get_slots_def
  rowd_store_def rowd_owner_def rowd_get_def rowd_get_flat_def row_store_index_def lift_res_def slot_read_def slot_write_def


end
