(* ===== verification/RtFrames.thy ===== *)
theory RtFrames
  imports RtStore
begin

text \<open>
  Calls in \<open>csrc/rt.c\<close>: entering a procedure moves its arguments from the operand stack to the
  cells of a new frame, leaving it gives the caller's frame back.
\<close>

section \<open>Arguments\<close>

lemma slot_put_run:
  assumes h: "heap s f = Some ob" "o_body ob = Frame par d vs" and v: "no_row v" and i: "i < length vs"
  shows "slot_put (f, i) v s = Inr ((), put_heap f (ob\<lparr>o_body := Frame par d (vs[i := v])\<rparr>) s)"
proof -
  have "slot_put (f, i) v = slot_write (f, i) v" using v by (cases v) (simp_all add: slot_put_def)
  then show ?thesis
    using get_body_run [OF h(1)] set_body_run [OF h(1)] h(2) i by (simp add: slot_write_def bnd_def)
qed

lemma pop_run: "stack s = v # vs \<Longrightarrow> pop s = Inr (v, s\<lparr>stack := vs\<rparr>)"
  by (simp add: pop_def)

lemma pop_args_run:
  assumes "heap s f = Some ob" "o_body ob = Frame par d vs" "length vs = n"
    and "stack s = rev args @ rest" "\<forall>v \<in> set args. no_row v"
  shows "\<exists>ob'. pop_args f n (length args) s = Inr ((), s\<lparr>stack := rest, heap := (heap s)(f \<mapsto> ob')\<rparr>) \<and>
    o_body ob' = Frame par d (take n args @ drop (length args) vs)"
  using assms
proof (induction args arbitrary: s ob vs rule: rev_induct)
  case Nil
  have e: "s\<lparr>stack := rest, heap := (heap s)(f \<mapsto> ob)\<rparr> = s" using Nil.prems by (simp add: fun_upd_idem)
  show ?case by (rule exI [of _ ob], unfold e) (use Nil.prems in simp)
next
  case (snoc v args)
  define s1 where "s1 = s\<lparr>stack := rev args @ rest\<rparr>"
  have p: "pop s = Inr (v, s1)" using snoc.prems(4) by (simp add: s1_def pop_def)
  define vs' where "vs' = (if length args < n then vs[length args := v] else vs)"
  obtain ob1 s2 where w: "(if length args < n then slot_put (f, length args) v else ret ()) s1 = Inr ((), s2)"
      "s2 = s1\<lparr>heap := (heap s)(f \<mapsto> ob1)\<rparr>" "o_body ob1 = Frame par d vs'"
  proof (cases "length args < n")
    case True
    then show ?thesis using that [of _ "ob\<lparr>o_body := Frame par d (vs[length args := v])\<rparr>"]
        slot_put_run [of s1 f ob par d vs v "length args"] snoc.prems by (simp add: s1_def vs'_def)
  next
    case False
    then show ?thesis using that [of s1 ob] snoc.prems by (simp add: s1_def vs'_def fun_upd_idem)
  qed
  have "\<exists>ob'. pop_args f n (length args) s2 = Inr ((), s2\<lparr>stack := rest, heap := (heap s2)(f \<mapsto> ob')\<rparr>) \<and>
    o_body ob' = Frame par d (take n args @ drop (length args) vs')"
    by (rule snoc.IH [of s2 ob1 vs']) (use snoc.prems w in \<open>auto simp: s1_def vs'_def\<close>)
  then obtain ob' where ih: "pop_args f n (length args) s2 = Inr ((), s2\<lparr>stack := rest, heap := (heap s2)(f \<mapsto> ob')\<rparr>)"
    "o_body ob' = Frame par d (take n args @ drop (length args) vs')" by blast
  have e: "s2\<lparr>stack := rest, heap := (heap s2)(f \<mapsto> ob')\<rparr> = s\<lparr>stack := rest, heap := (heap s)(f \<mapsto> ob')\<rparr>"
    by (simp add: w(2) s1_def)
  have "take n args @ drop (length args) vs' = take n (args @ [v]) @ drop (length (args @ [v])) vs"
  proof (cases "length args < n")
    case True
    then have "drop (length args) (vs[length args := v]) = v # drop (Suc (length args)) vs"
      using snoc.prems(3) by (simp add: Cons_nth_drop_Suc [symmetric] drop_update_swap)
    then show ?thesis using True by (simp add: vs'_def)
  qed (use snoc.prems(3) in \<open>simp add: vs'_def\<close>)
  moreover have "pop_args f n (length (args @ [v])) s = pop_args f n (length args) s2"
    using p w(1) by (simp add: bnd_def)
  ultimately show ?case using ih e by metis
qed

text \<open>The environment: no frame, or a frame on the heap.\<close>

definition env_frame :: "rt_state \<Rightarrow> nat \<Rightarrow> bool" where
  "env_frame s d \<longleftrightarrow> env s = 0 \<and> d = 0 \<or>
     (env s \<noteq> 0 \<and> (\<exists>ob par vs. heap s (env s) = Some ob \<and> o_body ob = Frame par d vs))"

lemma frame_depth_run: "env_frame s d \<Longrightarrow> frame_depth (env s) s = Inr (d, s)"
  by (auto simp: env_frame_def frame_depth_def get_frame_def bnd_def get_body_run)

lemma alloc_keeps_stack:
  assumes "alloc_ok s" "obj_alloc b sz s = Inr (a, s')"
  shows "stack s' = stack s \<and> env s' = env s \<and> saved s' = saved s"
  using obj_alloc_fresh [OF assms] by simp



end
