(* ===== verification/RtArith.thy ===== *)
theory RtArith
  imports RtOps
begin

text \<open>
  What the native operators of \<open>csrc/rt.c\<close> compute: INT arithmetic is exact or reports overflow,
  BITS values stay within 32 bits, and the cache of conformity answers is transparent.
\<close>

section \<open>INT arithmetic\<close>

lemma int_range_small: "\<bar>r\<bar> \<le> A68_MAXINT \<Longrightarrow> int_range r = Inr r"
  by (auto simp: int_range_def)

lemma int_range_large: "A68_MAXINT < \<bar>r\<bar> \<Longrightarrow> int_range r = Inl (Die ''INT value overflow, result too large'')"
  by (auto simp: int_range_def)

lemma abs_pow_mono: "2 \<le> \<bar>m :: int\<bar> \<Longrightarrow> a \<le> b \<Longrightarrow> \<bar>m ^ a\<bar> \<le> \<bar>m ^ b\<bar>"
  by (simp add: power_abs power_increasing)

text \<open>A partial product that overflows makes the whole power overflow.\<close>

lemma pow_loop_correct:
  assumes "2 \<le> \<bar>m\<bar>" "0 < b" "b \<le> nn" "mm = m ^ b" "p = m ^ (nn mod b)"
  shows "pow_loop nn b mm p = int_range (m ^ nn)"
  using assms(2-)
proof (induction nn b mm p rule: pow_loop.induct)
  case (1 nn b mm p)
  have over: "int_range (m ^ nn) = Inl (Die ''INT value overflow, result too large'')"
    if "j \<le> nn" "A68_MAXINT < \<bar>m ^ j\<bar>" for j
    using that abs_pow_mono [OF assms(1) that(1)] int_range_large by force
  have split: "nn mod (2 * b) = b * (nn div b mod 2) + nn mod b"
    by (simp add: mod_mult2_eq mult.commute)
  define p' where "p' = m ^ (nn mod (2 * b))"
  have p': "(if odd (nn div b) then p * mm else p) = p'"
    using 1(2,4,5) split by (auto simp: p'_def power_add mult.commute odd_iff_mod_2_eq_one)
  have small: "nn mod (2 * b) \<le> nn" "nn mod b \<le> nn" by simp_all
  show ?case
  proof (cases "\<bar>p'\<bar> \<le> A68_MAXINT")
    case False
    then have big: "A68_MAXINT < \<bar>m ^ (nn mod (2 * b))\<bar>" by (simp add: p'_def)
    show ?thesis
    proof (cases "odd (nn div b)")
      case True
      then have "int_range (p * mm) = Inl (Die ''INT value overflow, result too large'')"
        using big p' by (simp add: p'_def int_range_large)
      then show ?thesis using True over [OF small(1) big] 1(2) by (simp add: pow_loop.simps [of nn b mm p] bindE_def)
    next
      case even: False
      show ?thesis
      proof (cases "2 * b \<le> nn")
        case True
        have le: "b \<le> 2 * b" by simp
        have "nn mod (2 * b) = nn mod b" using split even by (simp add: even_iff_mod_2_eq_zero)
        then have "nn mod (2 * b) \<le> 2 * b" using 1(2) mod_less_divisor [of b nn] by linarith
        then have "A68_MAXINT < \<bar>mm * mm\<bar>"
          using big abs_pow_mono [OF assms(1), of "nn mod (2 * b)" "2 * b"] 1(4) by (simp add: power_add [symmetric] mult_2)
        then show ?thesis using True even over [OF small(1) big] 1(2) int_range_large [of "mm * mm"]
          by (simp add: pow_loop.simps [of nn b mm p] bindE_def)
      next
        case False
        then have "nn div b = 1" using 1(2,3) by (simp add: div_nat_eqI)
        then show ?thesis using even by simp
      qed
    qed
  next
    case True
    have step: "(if odd (nn div b) then int_range (p * mm) else Inr p) = Inr p'"
      using True p' by (auto simp: int_range_small split: if_splits)
    show ?thesis
    proof (cases "2 * b \<le> nn")
      case more: True
      have sq: "mm * mm = m ^ (2 * b)" using 1(4) by (simp add: power_add [symmetric] mult_2)
      show ?thesis
      proof (cases "\<bar>mm * mm\<bar> \<le> A68_MAXINT")
        case True
        have "pow_loop nn (2 * b) (mm * mm) p' = int_range (m ^ nn)"
          using 1(1) [OF _ step more int_range_small [OF True]] 1(2) more sq by (simp add: p'_def)
        then show ?thesis using step more True 1(2) by (simp add: pow_loop.simps [of nn b mm p] bindE_def int_range_small)
      next
        case False
        then have "int_range (mm * mm) = int_range (m ^ nn)"
          using over [OF more] sq by (simp add: int_range_large)
        then show ?thesis using step more False 1(2) over [OF more] sq
          by (simp add: pow_loop.simps [of nn b mm p] bindE_def)
      qed
    next
      case False
      then have "p' = m ^ nn" by (simp add: p'_def)
      then show ?thesis using step False True 1(2)
        by (simp add: pow_loop.simps [of nn b mm p] bindE_def int_range_small)
    qed
  qed
qed

lemma pow_int_correct:
  assumes n: "0 \<le> n"  and m: "\<bar>m\<bar> \<le> A68_MAXINT"
  shows "pow_int m n = int_range (m ^ nat n)"
proof -
  consider "n = 0" | "0 < n" "m = 0" | "0 < n" "m = 1" | "0 < n" "m = -1" | "0 < n" "2 \<le> \<bar>m\<bar>" using n by linarith
  then show ?thesis
  proof cases
    case 1
    consider "m = 0" | "m = 1" | "m = -1" | "2 \<le> \<bar>m\<bar>" by linarith
    then show ?thesis using 1
      by cases (auto simp: pow_int_def int_range_def A68_MAXINT_def pow_loop.simps [of 0] bindE_def)
  next
    case 4
    then have "(-1 :: int) ^ nat n = (if even n then 1 else -1)" by (simp add: even_nat_iff)
    then show ?thesis using 4 by (simp add: pow_int_def int_range_def A68_MAXINT_def)
  next
    case 5
    then have "pow_int m n = pow_loop (nat n) 1 m 1" by (auto simp: pow_int_def)
    moreover have "pow_loop (nat n) 1 m 1 = int_range (m ^ nat n)"
      by (rule pow_loop_correct) (use 5 in auto)
    ultimately show ?thesis by simp
  qed (auto simp: pow_int_def int_range_def A68_MAXINT_def zero_power)
qed

lemma int_mod_correct: "y \<noteq> 0 \<Longrightarrow> int_mod x y = x mod \<bar>y\<bar>"
proof -
  assume y: "y \<noteq> 0"
  define m where "m = \<bar>y\<bar>"
  have m: "0 < m" using y by (simp add: m_def)
  have "(if y < 0 then - y else y) = m" by (simp add: m_def)
  then have d: "int_mod x y = (if c_rem x m < 0 then c_rem x m + m else c_rem x m)" by (simp add: int_mod_def Let_def)
  have "\<bar>c_rem x m\<bar> < m" using c_rem_abs [of m x] m by simp
  then have r: "0 \<le> int_mod x y" "int_mod x y < m" using d by (auto split: if_splits)
  have "c_rem x m = x - c_quot x m * m" by (simp add: c_rem_def)
  then have "int_mod x y = x - c_quot x m * m \<or> int_mod x y = x - (c_quot x m - 1) * m"
    using d by (auto simp: algebra_simps)
  then obtain q where "int_mod x y = x - q * m" by blast
  then have "int_mod x y mod m = x mod m" by (metis mod_mult_self2 diff_add_cancel mult.commute add.commute)
  then show ?thesis using r by (simp add: m_def)
qed

lemma c_quot_bound: "\<bar>c_quot x y\<bar> \<le> \<bar>x\<bar>"
proof -
  have "\<bar>x\<bar> div \<bar>y\<bar> \<le> \<bar>x\<bar>"
  proof (cases "y = 0")
    case False
    then show ?thesis using zdiv_mono2 [of "\<bar>x\<bar>" 1 "\<bar>y\<bar>"] by simp
  qed simp
  then show ?thesis
    by (auto simp: c_quot_def abs_mult abs_sgn_eq pos_imp_zdiv_nonneg_iff)
qed

text \<open>The values INT arithmetic should have: what is not in the range of INT is an error.\<close>

definition int_result :: "string \<Rightarrow> int \<Rightarrow> int \<Rightarrow> int res" where
  "int_result op x y =
     (if op = ''+'' then int_range (x + y) else if op = ''-'' then int_range (x - y)
      else if op = ''*'' then int_range (x * y)
      else if op = ''**'' then (if y < 0 then Inl (Die ''invalid INT exponent'') else int_range (x ^ nat y))
      else if y = 0 then Inl (Die ''INT division by zero'')
      else if op = ''%'' then Inr (sgn x * sgn y * (\<bar>x\<bar> div \<bar>y\<bar>)) else Inr (x mod \<bar>y\<bar>))"

lemma int_range_InrD: "int_range r = Inr z \<Longrightarrow> z = r \<and> \<bar>z\<bar> \<le> A68_MAXINT"
  by (auto simp: int_range_def split: if_splits)

lemma int_result_small:
  assumes "\<bar>x\<bar> \<le> A68_MAXINT" "\<bar>y\<bar> \<le> A68_MAXINT" "int_result op x y = Inr r"
  shows "\<bar>r\<bar> \<le> A68_MAXINT"
proof -
  have "\<bar>sgn x * sgn y * (\<bar>x\<bar> div \<bar>y\<bar>)\<bar> \<le> A68_MAXINT"
    using c_quot_bound [of x y] assms(1) by (simp add: c_quot_def)
  moreover have "y \<noteq> 0 \<Longrightarrow> \<bar>x mod \<bar>y\<bar>\<bar> \<le> A68_MAXINT"
    using pos_mod_bound [of "\<bar>y\<bar>" x] pos_mod_sign [of "\<bar>y\<bar>" x] assms(2) by linarith
  ultimately show ?thesis
    using assms(3) by (auto simp: int_result_def dest: int_range_InrD split: if_splits)
qed

lemma sint_int_range:
  assumes "\<bar>r\<bar> \<le> A68_MAXINT"
  shows "sint (word_of_int r :: 64 word) = r"
proof -
  have "- 9223372036854775808 \<le> r" "r < 9223372036854775808" using assms by (auto simp: A68_MAXINT_def)
  then show ?thesis by (simp add: sint_sbintrunc' signed_take_bit_int_eq_self)
qed

lemma int_dyop_exact_parts:
  assumes x: "\<bar>x\<bar> \<le> A68_MAXINT" and y: "\<bar>y\<bar> \<le> A68_MAXINT"
    and op: "op \<in> {''+'', ''-'', ''*'', ''%'', ''%*'', ''**''}"
  shows "int_dyop op x y = bindE (int_result op x y) (\<lambda>r. Inr (Some (int_val r)))"
    and "int_result op x y = Inr r \<Longrightarrow> \<bar>r\<bar> \<le> A68_MAXINT \<and> as_int (int_val r) s = Inr (word_of_int r, s) \<and>
      sint (word_of_int r :: 64 word) = r"
proof -
  have "pow_int x y = (if y < 0 then Inl (Die ''invalid INT exponent'') else int_range (x ^ nat y))"
    using pow_int_correct [of y x] x by (simp add: pow_int_def)
  then show "int_dyop op x y = bindE (int_result op x y) (\<lambda>r. Inr (Some (int_val r)))"
    using op by (auto simp: int_dyop_def int_result_def int_mod_correct c_quot_def bindE_def)
  assume r: "int_result op x y = Inr r"
  show "\<bar>r\<bar> \<le> A68_MAXINT \<and> as_int (int_val r) s = Inr (word_of_int r, s) \<and> sint (word_of_int r :: 64 word) = r"
    using int_result_small [OF x y r] sint_int_range [of r] by (simp add: as_int_def int_val_def ret_def)
qed



section \<open>BITS\<close>

lemma bits_mask_mask: "bits_mask = mask 32"
  by (simp add: bits_mask_def mask_eq_exp_minus_1)

lemma bit_bits_mask: "bit bits_mask n \<longleftrightarrow> n < 32"
  by (auto simp: bits_mask_mask bit_mask_iff)

lemma bits_le_mask: "x \<le> bits_mask \<longleftrightarrow> (\<forall>n. bit x n \<longrightarrow> n < 32)"
proof -
  have "x \<le> bits_mask \<longleftrightarrow> take_bit 32 (uint x) = uint x"
    by (auto simp: bits_mask_def word_le_def take_bit_int_eq_self_iff)
  also have "\<dots> \<longleftrightarrow> take_bit 32 x = x"
    by (simp add: word_uint_eq_iff unsigned_take_bit_eq)
  also have "\<dots> \<longleftrightarrow> (\<forall>n. bit x n \<longrightarrow> n < 32)"
    using bit_imp_le_length [of x] by (auto simp: bit_eq_iff bit_take_bit_iff)
  finally show ?thesis .
qed

text \<open>The amount a shift operator moves to the left.\<close>

definition shift_left :: "string \<Rightarrow> int \<Rightarrow> int" where
  "shift_left op k = (if op = ''SHL'' then k else - k)"

lemma bits_ops_32_parts:
  assumes x: "x \<le> bits_mask" and y: "y \<le> bits_mask"
  shows "\<exists>z. bits_dyop ''AND'' x y = Some (VBits z) \<and> z \<le> bits_mask \<and> (\<forall>n. bit z n \<longleftrightarrow> bit x n \<and> bit y n)"
    and "\<exists>z. bits_dyop ''OR'' x y = Some (VBits z) \<and> z \<le> bits_mask \<and> (\<forall>n. bit z n \<longleftrightarrow> bit x n \<or> bit y n)"
    and "\<exists>z. bits_dyop ''XOR'' x y = Some (VBits z) \<and> z \<le> bits_mask \<and> (\<forall>n. bit z n \<longleftrightarrow> bit x n \<noteq> bit y n)"
    and "\<exists>z. bits_monop ''NOT'' x = Some (VBits z) \<and> z \<le> bits_mask \<and> (\<forall>n. bit z n \<longleftrightarrow> n < 32 \<and> \<not> bit x n)"
    and "op \<in> {''SHL'', ''SHR'', ''DOWN''} \<Longrightarrow> \<bar>k\<bar> \<le> 32 \<Longrightarrow>
      \<exists>z. shift_dyop op x k = Inr (Some (VBits z)) \<and> z \<le> bits_mask \<and>
        (\<forall>n. bit z n \<longleftrightarrow> n < 32 \<and> shift_left op k \<le> int n \<and> bit x (nat (int n - shift_left op k)))"
proof -
  have xb: "bit x n \<Longrightarrow> n < 32" and yb: "bit y n \<Longrightarrow> n < 32" for n using x y bits_le_mask by blast+
  note b = bit_bits_mask bits_le_mask
  show "\<exists>z. bits_dyop ''AND'' x y = Some (VBits z) \<and> z \<le> bits_mask \<and> (\<forall>n. bit z n \<longleftrightarrow> bit x n \<and> bit y n)"
    using xb by (auto simp: bits_dyop_def b bit_and_iff)
  show "\<exists>z. bits_dyop ''OR'' x y = Some (VBits z) \<and> z \<le> bits_mask \<and> (\<forall>n. bit z n \<longleftrightarrow> bit x n \<or> bit y n)"
    using xb yb by (auto simp: bits_dyop_def b bit_and_iff bit_or_iff)
  show "\<exists>z. bits_dyop ''XOR'' x y = Some (VBits z) \<and> z \<le> bits_mask \<and> (\<forall>n. bit z n \<longleftrightarrow> bit x n \<noteq> bit y n)"
    using xb yb by (auto simp: bits_dyop_def b bit_and_iff bit_xor_iff)
  show "\<exists>z. bits_monop ''NOT'' x = Some (VBits z) \<and> z \<le> bits_mask \<and> (\<forall>n. bit z n \<longleftrightarrow> n < 32 \<and> \<not> bit x n)"
    using xb by (auto simp: bits_monop_def b bit_xor_iff)
  assume op: "op \<in> {''SHL'', ''SHR'', ''DOWN''}" and k: "\<bar>k\<bar> \<le> 32"
  define z where "z = (if shift_left op k \<ge> 0 then and (push_bit (nat (shift_left op k)) x) bits_mask
     else drop_bit (nat (- shift_left op k)) x)"
  have "shift_dyop op x k = Inr (Some (VBits z))"
    using op k by (auto simp: shift_dyop_def shift_left_def z_def Let_def)
  moreover have "bit z n \<longleftrightarrow> n < 32 \<and> shift_left op k \<le> int n \<and> bit x (nat (int n - shift_left op k))" for n
  proof (cases "shift_left op k \<ge> 0")
    case True
    then have "nat (shift_left op k) \<le> n \<longleftrightarrow> shift_left op k \<le> int n" "n - nat (shift_left op k) = nat (int n - shift_left op k)"
      by (simp_all add: nat_le_iff nat_minus_as_int)
    then show ?thesis using True by (auto simp: z_def bit_and_iff bit_push_bit_iff b)
  next
    case False
    then have e: "nat (- shift_left op k) + n = nat (int n - shift_left op k)" by simp
    then show ?thesis using False xb [of "nat (int n - shift_left op k)"] by (auto simp: z_def bit_drop_bit_eq)
  qed
  ultimately show "\<exists>z. shift_dyop op x k = Inr (Some (VBits z)) \<and> z \<le> bits_mask \<and>
        (\<forall>n. bit z n \<longleftrightarrow> n < 32 \<and> shift_left op k \<le> int n \<and> bit x (nat (int n - shift_left op k)))"
    using b by blast
qed

text \<open>
  C25: The BITS operators work on 32-bit values: on operands within 32 bits, \<open>AND OR XOR NOT\<close>
  answer the bitwise result, a shift by up to 32 places to either side moves every bit, drops
  those that leave the 32 positions and fills with zeros, and each result is within 32 bits again.
\<close>

theorem bits_ops_32:
  assumes x: "x \<le> bits_mask" and y: "y \<le> bits_mask"
  shows "(\<exists>z. bits_dyop ''AND'' x y = Some (VBits z) \<and> z \<le> bits_mask \<and> (\<forall>n. bit z n \<longleftrightarrow> bit x n \<and> bit y n)) \<and>
    (\<exists>z. bits_dyop ''OR'' x y = Some (VBits z) \<and> z \<le> bits_mask \<and> (\<forall>n. bit z n \<longleftrightarrow> bit x n \<or> bit y n)) \<and>
    (\<exists>z. bits_dyop ''XOR'' x y = Some (VBits z) \<and> z \<le> bits_mask \<and> (\<forall>n. bit z n \<longleftrightarrow> bit x n \<noteq> bit y n)) \<and>
    (\<exists>z. bits_monop ''NOT'' x = Some (VBits z) \<and> z \<le> bits_mask \<and> (\<forall>n. bit z n \<longleftrightarrow> n < 32 \<and> \<not> bit x n)) \<and>
    (\<forall>op k. op \<in> {''SHL'', ''SHR'', ''DOWN''} \<longrightarrow> \<bar>k\<bar> \<le> 32 \<longrightarrow>
      (\<exists>z. shift_dyop op x k = Inr (Some (VBits z)) \<and> z \<le> bits_mask \<and>
        (\<forall>n. bit z n \<longleftrightarrow> n < 32 \<and> shift_left op k \<le> int n \<and> bit x (nat (int n - shift_left op k)))))"
  by (intro conjI allI impI bits_ops_32_parts [OF assms])

theorem bits_ops_32_witness:
  "(\<exists>z. shift_dyop ''SHR'' 0xFF 4 = Inr (Some (VBits z)) \<and> bit z 0 \<and> \<not> bit z 4) \<and>
   (\<exists>z. bits_dyop ''OR'' 0xF0 0xFF = Some (VBits z) \<and> z \<le> bits_mask)"
proof -
  have m: "(0xF0 :: u64) \<le> bits_mask" "(0xFF :: u64) \<le> bits_mask" by (simp_all add: bits_mask_def)
  have "bit (0xFF :: u64) 4" "\<not> bit (0xFF :: u64) 8" by (simp_all add: bit_numeral_rec)
  then show ?thesis
    using bits_ops_32 [OF m(2) m(2), THEN conjunct2, THEN conjunct2, THEN conjunct2, THEN conjunct2, rule_format, of "''SHR''" 4]
      bits_ops_32 [OF m, THEN conjunct2, THEN conjunct1]
    by (auto simp: shift_left_def)
qed

lemma conversions_invert_parts:
  assumes x: "\<bar>x\<bar> \<le> A68_MAXINT" and v: "int_monop op x = Inr (Some v)"
  shows "op = ''BIN'' \<Longrightarrow> \<exists>w. v = VBits w \<and> w \<le> bits_mask \<and> 0 \<le> x \<and> bits_monop ''ABS'' w = Some (int_val x) \<and>
      (\<forall>k. 1 \<le> k \<and> k \<le> 32 \<longrightarrow> elem_dyop ''ELEM'' k w = Inr (Some (VBool (odd (x div 2 ^ nat (32 - k))))))"
    and "op = ''REPR'' \<Longrightarrow> \<exists>c. v = VChar c \<and> c < 256 \<and> 0 \<le> x \<and> x < 256 \<and> int_val (uint c) = int_val x"
proof -
  have r: "x < 4294967296" "x < 2147483648" using x by (auto simp: A68_MAXINT_def)
  assume op: "op = ''BIN''"
  then have v': "v = VBits (word_of_int x)" "0 \<le> x" using v r by (auto simp: int_monop_def split: if_splits)
  define w where "w = (word_of_int x :: u64)"
  have u: "uint w = x" using v'(2) r by (simp add: w_def uint_word_of_int)
  have "w \<le> bits_mask" using r by (simp add: word_le_def u bits_mask_def)
  moreover have "bits_monop ''ABS'' w = Some (int_val x)" using u r by (simp add: bits_monop_def)
  moreover have "elem_dyop ''ELEM'' k w = Inr (Some (VBool (odd (x div 2 ^ nat (32 - k)))))" if "1 \<le> k \<and> k \<le> 32" for k
  proof -
    have "and (drop_bit (nat (32 - k)) w) 1 = 1 \<longleftrightarrow> bit w (nat (32 - k))"
      by (simp add: and_one_eq odd_iff_mod_2_eq_one [symmetric] mod_2_eq_odd bit_iff_odd_drop_bit)
    also have "\<dots> \<longleftrightarrow> bit (uint w) (nat (32 - k))" using that by (simp add: bit_uint_iff nat_less_iff)
    also have "\<dots> \<longleftrightarrow> odd (x div 2 ^ nat (32 - k))" by (simp only: u bit_iff_odd)
    finally show ?thesis using that by (simp add: elem_dyop_def)
  qed
  ultimately show "\<exists>w. v = VBits w \<and> w \<le> bits_mask \<and> 0 \<le> x \<and> bits_monop ''ABS'' w = Some (int_val x) \<and>
      (\<forall>k. 1 \<le> k \<and> k \<le> 32 \<longrightarrow> elem_dyop ''ELEM'' k w = Inr (Some (VBool (odd (x div 2 ^ nat (32 - k))))))"
    using v' by (auto simp: w_def)
next
  assume "op = ''REPR''"
  then have v': "v = VChar (word_of_int x)" "0 \<le> x" "x < 256" using v by (auto simp: int_monop_def split: if_splits)
  then have "uint (word_of_int x :: u32) = x" by (simp add: uint_word_of_int)
  then show "\<exists>c. v = VChar c \<and> c < 256 \<and> 0 \<le> x \<and> x < 256 \<and> int_val (uint c) = int_val x"
    using v' by (auto simp: word_less_def)
qed

text \<open>
  Converting between the modes loses nothing: \<open>ABS\<close> undoes \<open>BIN\<close> on every INT that is not
  negative and \<open>ABS\<close> undoes \<open>REPR\<close> on every INT from 0 to 255, \<open>BIN\<close> and \<open>REPR\<close> refuse the
  others; and \<open>ELEM\<close> counts the 32 bits from the most significant one, which it numbers 1.
\<close>

theorem conversions_invert:
  assumes x: "\<bar>x\<bar> \<le> A68_MAXINT" and v: "int_monop op x = Inr (Some v)"
  shows "(op = ''BIN'' \<longrightarrow> (\<exists>w. v = VBits w \<and> w \<le> bits_mask \<and> 0 \<le> x \<and> bits_monop ''ABS'' w = Some (int_val x) \<and>
      (\<forall>k. 1 \<le> k \<and> k \<le> 32 \<longrightarrow> elem_dyop ''ELEM'' k w = Inr (Some (VBool (odd (x div 2 ^ nat (32 - k)))))))) \<and>
    (op = ''REPR'' \<longrightarrow> (\<exists>c. v = VChar c \<and> c < 256 \<and> 0 \<le> x \<and> x < 256 \<and> int_val (uint c) = int_val x))"
  by (intro conjI impI conversions_invert_parts [OF assms])

theorem conversions_invert_witness:
  "(\<exists>w. int_monop ''BIN'' 5 = Inr (Some (VBits w)) \<and> elem_dyop ''ELEM'' 32 w = Inr (Some (VBool True)) \<and>
     elem_dyop ''ELEM'' 31 w = Inr (Some (VBool False))) \<and>
   (\<exists>c. int_monop ''REPR'' 65 = Inr (Some (VChar c)) \<and> int_val (uint c) = int_val 65)"
proof -
  have m: "int_monop ''BIN'' 5 = Inr (Some (VBits 5))" "int_monop ''REPR'' 65 = Inr (Some (VChar 65))"
    by (simp_all add: int_monop_def)
  have "\<bar>5\<bar> \<le> A68_MAXINT" "\<bar>65\<bar> \<le> A68_MAXINT" by (simp_all add: A68_MAXINT_def)
  from conversions_invert [OF this(1) m(1)] conversions_invert [OF this(2) m(2)]
  have "elem_dyop ''ELEM'' 32 5 = Inr (Some (VBool True))" "elem_dyop ''ELEM'' 31 5 = Inr (Some (VBool False))"
    "int_val (uint (65 :: u32)) = int_val 65" by auto
  then show ?thesis using m by blast
qed

section \<open>The cache of conformity answers\<close>

text \<open>The contract of a cache in front of a question: answers are right, and only the keys asked are kept.\<close>

locale answer_cache =
  fixes ask :: "'k \<Rightarrow> 'v" and answer :: "'k \<Rightarrow> 'c \<Rightarrow> 'v \<times> 'c" and good :: "'c \<Rightarrow> bool" and asked :: "'c \<Rightarrow> 'k list"
  assumes right: "good c \<Longrightarrow> fst (answer k c) = ask k"
    and keeps: "good c \<Longrightarrow> good (snd (answer k c))"
    and adds: "good c \<Longrightarrow> asked (snd (answer k c)) = (if k \<in> set (asked c) then asked c else asked c @ [k])"
begin

primrec run :: "'k list \<Rightarrow> 'c \<Rightarrow> 'v list \<times> 'c" where
  "run [] c = ([], c)"
| "run (k # ks) c = (let (v, c') = answer k c; (vs, c'') = run ks c' in (v # vs, c''))"

lemma run_right: "good c \<Longrightarrow> fst (run ks c) = map ask ks \<and> good (snd (run ks c))"
proof (induction ks arbitrary: c)
  case (Cons k ks)
  then show ?case using right [OF Cons.prems, of k] keeps [OF Cons.prems, of k] Cons.IH [of "snd (answer k c)"]
    by (simp add: case_prod_beta Let_def)
qed simp

lemma run_asked:
  "good c \<Longrightarrow> distinct (asked c) \<Longrightarrow> distinct (asked (snd (run ks c))) \<and> set (asked (snd (run ks c))) = set (asked c) \<union> set ks"
proof (induction ks arbitrary: c)
  case (Cons k ks)
  have "distinct (asked (snd (answer k c)))" using Cons.prems adds [of c k] by auto
  then show ?case using adds [OF Cons.prems(1), of k] keeps [OF Cons.prems(1), of k] Cons.IH [of "snd (answer k c)"]
    by (auto simp: case_prod_beta Let_def split: if_splits)
qed simp

end

definition cache_good :: "(nat \<Rightarrow> nat \<Rightarrow> bool) \<Rightarrow> conform_cache \<Rightarrow> bool" where
  "cache_good q c \<longleftrightarrow> (\<forall>m vm ok. map_of c (m, vm) = Some ok \<longrightarrow> ok = q m vm)"

interpretation cc: answer_cache "\<lambda>(m, vm). q m vm" "\<lambda>(m, vm). conforms q m vm" "cache_good q" "map fst" for q
proof (unfold_locales, goal_cases)
  case (1 c k)
  then show ?case by (cases k) (auto simp: conforms_def cache_good_def split: option.split)
next
  case (2 c k)
  then show ?case by (cases k) (auto simp: conforms_def cache_good_def map_add_def split: option.split)
next
  case (3 c k)
  obtain m vm where k: "k = (m, vm)" by (cases k)
  have "k \<in> set (map fst c) \<longleftrightarrow> map_of c k \<noteq> None" by (simp add: map_of_eq_None_iff)
  then show ?case unfolding k by (auto simp: conforms_def split: option.split)
qed

text \<open>A sequence of conformity tests through the cache.\<close>

definition conform_run :: "(nat \<Rightarrow> nat \<Rightarrow> bool) \<Rightarrow> (nat \<times> nat) list \<Rightarrow> bool list \<times> conform_cache" where
  "conform_run ask qs = fold (\<lambda>(m, vm) (vs, c). let (v, c') = conforms ask m vm c in (vs @ [v], c')) qs ([], [])"

lemma conform_run_eq:
  "fold (\<lambda>(m, vm) (vs, c). let (v, c') = conforms ask m vm c in (vs @ [v], c')) qs (vs0, c) =
   (vs0 @ fst (cc.run ask qs c), snd (cc.run ask qs c))"
  by (induction qs arbitrary: vs0 c) (auto simp: case_prod_beta Let_def split: prod.split)

lemma conform_cache_transparent_parts:
  "fst (conform_run ask qs) = map (\<lambda>(m, vm). ask m vm) qs"
  "distinct (map fst (snd (conform_run ask qs)))" "fst ` set (snd (conform_run ask qs)) = set qs"
proof -
  have g: "cache_good ask []" by (simp add: cache_good_def)
  have e: "conform_run ask qs = (fst (cc.run ask qs []), snd (cc.run ask qs []))"
    unfolding conform_run_def conform_run_eq by simp
  show "fst (conform_run ask qs) = map (\<lambda>(m, vm). ask m vm) qs"
    using cc.run_right [OF g, of qs] by (simp add: e)
  show "distinct (map fst (snd (conform_run ask qs)))" "fst ` set (snd (conform_run ask qs)) = set qs"
    using cc.run_asked [OF g, of qs] by (simp_all add: e)
qed


end
