(* ===== verification/TableProps.thy ===== *)
theory TableProps
  imports Tables
begin

text \<open>
  Properties of \<open>csrc/tables.c\<close>: lines and strings of the blob read back what was written, looking a
  mode up and adding it leaves the table consistent, and following declarations ends.
\<close>

section \<open>The blob\<close>

text \<open>How the compiler writes a line: its fields with one blank between them; a string as hexadecimal digits.\<close>

fun join_fields :: "string list \<Rightarrow> string" where
  "join_fields [] = []"
| "join_fields [f] = f"
| "join_fields (f # fs) = f @ CHR '' '' # join_fields fs"

definition good_field :: "string \<Rightarrow> bool" where
  "good_field f \<longleftrightarrow> f \<noteq> [] \<and> CHR '' '' \<notin> set f"

definition hex_digit :: "nat \<Rightarrow> char" where
  "hex_digit n = char_of (if n < 10 then 48 + n else 87 + n)"

definition to_hex :: "string \<Rightarrow> string" where
  "to_hex s = concat (map (\<lambda>c. [hex_digit (of_char c div 16), hex_digit (of_char c mod 16)]) s)"

lemma skip_blanks_field: "good_field f \<Longrightarrow> skip_blanks (f @ rest) = f @ rest"
  by (cases f) (auto simp: good_field_def skip_blanks_def)

lemma skip_blanks_blank: "skip_blanks (CHR '' '' # s) = skip_blanks s"
  by (simp add: skip_blanks_def)

lemma split_loop_blank: "split_loop (CHR '' '' # s) = split_loop s"
  by (simp add: split_loop.simps [of "CHR '' '' # s"] split_loop.simps [of s] skip_blanks_blank)

lemma take_field: "good_field f \<Longrightarrow> takeWhile (\<lambda>c. c \<noteq> CHR '' '') (f @ rest) = f @ takeWhile (\<lambda>c. c \<noteq> CHR '' '') rest"
  by (rule takeWhile_append2) (auto simp: good_field_def)

lemma drop_field: "good_field f \<Longrightarrow> dropWhile (\<lambda>c. c \<noteq> CHR '' '') (f @ rest) = dropWhile (\<lambda>c. c \<noteq> CHR '' '') rest"
  by (rule dropWhile_append2) (auto simp: good_field_def)

lemma split_loop_field:
  assumes "good_field f"
  shows "split_loop (f @ CHR '' '' # rest) = f # split_loop rest"
proof -
  obtain c cs where f: "f @ CHR '' '' # rest = c # cs" by (cases f) auto
  have "skip_blanks (f @ CHR '' '' # rest) = c # cs" using skip_blanks_field [OF assms, of "CHR '' '' # rest"] by (simp only: f)
  then have "split_loop (f @ CHR '' '' # rest) = takeWhile (\<lambda>c. c \<noteq> CHR '' '') (c # cs) # split_loop (dropWhile (\<lambda>c. c \<noteq> CHR '' '') (c # cs))"
    using split_loop.simps [of "f @ CHR '' '' # rest"] by simp
  then show ?thesis using take_field [OF assms, of "CHR '' '' # rest"] drop_field [OF assms, of "CHR '' '' # rest"]
    by (simp only: f [symmetric]) (simp add: split_loop_blank)
qed

lemma split_loop_last:
  assumes "good_field f"
  shows "split_loop f = [f]"
proof -
  obtain c cs where f: "f = c # cs" using assms by (cases f) (auto simp: good_field_def)
  have "skip_blanks f = c # cs" using skip_blanks_field [OF assms, of "[]"] f by simp
  then have "split_loop f = takeWhile (\<lambda>c. c \<noteq> CHR '' '') f # split_loop (dropWhile (\<lambda>c. c \<noteq> CHR '' '') f)"
    using split_loop.simps [of f] f by simp
  moreover have "takeWhile (\<lambda>c. c \<noteq> CHR '' '') f = f" "dropWhile (\<lambda>c. c \<noteq> CHR '' '') f = []"
    using take_field [OF assms, of "[]"] drop_field [OF assms, of "[]"] by simp_all
  moreover have "split_loop [] = []" by (simp add: split_loop.simps [of "[]"] skip_blanks_def)
  ultimately show ?thesis by simp
qed

lemma split_join: "\<forall>f \<in> set fs. good_field f \<Longrightarrow> split_loop (join_fields fs) = fs"
proof (induction fs rule: join_fields.induct)
  case 1
  show ?case by (simp add: split_loop.simps [of "[]"] skip_blanks_def)
next
  case (3 f g fs)
  then show ?case by (simp add: split_loop_field)
qed (simp add: split_loop_last)

lemma char_halves [simp]: "of_char c div 16 < (16 :: nat)" "of_char c mod 16 < (16 :: nat)"
  using nat_of_char_less_256 [of c] by (simp_all add: less_mult_imp_div_less)

lemma hexval_digit: "n < 16 \<Longrightarrow> hexval (hex_digit n) = n"
  by (simp add: hexval_def hex_digit_def Let_def)

lemma hex_digit_not_blank: "n < 16 \<Longrightarrow> hex_digit n \<noteq> CHR '' ''"
proof
  assume n: "n < 16" and "hex_digit n = CHR '' ''"
  then have "of_char (hex_digit n) = (of_char (CHR '' '') :: nat)" by simp
  then show False using n by (simp add: hex_digit_def split: if_splits)
qed

lemma hex_bytes_to_hex: "hex_bytes (to_hex s) = s"
proof (induction s)
  case (Cons c s)
  then show ?case by (simp add: to_hex_def hexval_digit)
qed (simp add: to_hex_def)

lemma blob_line_round_trip_parts:
  assumes "length fs \<le> 600" and "\<forall>f \<in> set fs. good_field f"
  shows "split_line (join_fields fs) = fs"
    and "s \<noteq> [] \<Longrightarrow> parse_str (split_line (join_fields [''s'', to_hex s])) = s"
proof -
  show "split_line (join_fields fs) = fs" using split_join [OF assms(2)] assms(1) by (simp add: split_line_def)
  assume s: "s \<noteq> []"
  have "\<forall>c \<in> set (to_hex s). c \<noteq> CHR '' ''" by (auto simp: to_hex_def hex_digit_not_blank [OF char_halves(1)] hex_digit_not_blank [OF char_halves(2)])
  moreover have "to_hex s \<noteq> []" using s by (cases s) (auto simp: to_hex_def)
  ultimately have "\<forall>f \<in> set [''s'', to_hex s]. good_field f" by (auto simp: good_field_def)
  then have "split_loop (join_fields [''s'', to_hex s]) = [''s'', to_hex s]" by (rule split_join)
  then show "parse_str (split_line (join_fields [''s'', to_hex s])) = s"
    by (simp add: split_line_def parse_str_def hex_bytes_to_hex)
qed

text \<open>
  C27: A line of the blob is read as it was written: \<open>split\<close> gives back the fields of a line of at
  most 600 fields that are not empty and hold no blanks, and a string written as hexadecimal
  digits, whatever characters it has, is the string \<open>parse_str\<close> stores.
\<close>

theorem blob_line_round_trip:
  assumes "length fs \<le> 600" and "\<forall>f \<in> set fs. good_field f"
  shows "split_line (join_fields fs) = fs \<and>
    (\<forall>s. s \<noteq> [] \<longrightarrow> parse_str (split_line (join_fields [''s'', to_hex s])) = s)"
  using blob_line_round_trip_parts [OF assms] by blast

theorem blob_line_round_trip_witness:
  "split_line ''m ref 12'' = [''m'', ''ref'', ''12''] \<and> parse_str (split_line ''s 4f6b20'') = ''Ok ''"
proof -
  have g: "\<forall>f \<in> set [''m'', ''ref'', ''12'']. good_field f" by (simp add: good_field_def)
  have j: "join_fields [''m'', ''ref'', ''12''] = ''m ref 12''" "join_fields [''s'', to_hex ''Ok ''] = ''s 4f6b20''"
    by code_simp+
  from blob_line_round_trip [OF _ g, THEN conjunct1] blob_line_round_trip [OF _ g, THEN conjunct2, rule_format, of "''Ok ''"]
  show ?thesis unfolding j by simp
qed

section \<open>Modes made at run time\<close>

lemma find_from_Some: "find_from i P xs = Some k \<Longrightarrow> i \<le> k \<and> k - i < length xs \<and> P (xs ! (k - i))"
proof (induction xs arbitrary: i)
  case (Cons x xs)
  show ?case
  proof (cases "P x")
    case False
    then have "i + 1 \<le> k \<and> k - (i + 1) < length xs \<and> P (xs ! (k - (i + 1)))"
      using Cons by simp
    moreover from this have "k - i = Suc (k - Suc i)" by linarith
    ultimately show ?thesis by simp
  qed (use Cons.prems in auto)
qed simp

lemma find_from_None: "find_from i P xs = None \<Longrightarrow> \<forall>x \<in> set xs. \<not> P x"
  by (induction xs arbitrary: i) (auto split: if_splits)

lemma find_from_append: "\<forall>x \<in> set xs. \<not> P x \<Longrightarrow> P y \<Longrightarrow> find_from i P (xs @ [y]) = Some (i + length xs)"
  by (induction xs arbitrary: i) auto

text \<open>What every operation that makes a mode promises: the number names a mode of the wanted kind, the
  modes that were there keep their numbers, and asking again gives the same number.\<close>

locale mode_maker =
  fixes make :: "a68_tables \<Rightarrow> nat \<times> a68_tables" and wanted :: "a68_mode \<Rightarrow> bool"
  assumes made: "make t = (i, t') \<Longrightarrow> i < length (t_modes t') \<and> wanted (mode_at t' i)"
    and old: "make t = (i, t') \<Longrightarrow> j < length (t_modes t) \<Longrightarrow> mode_at t' j = mode_at t j"
    and again: "make t = (i, t') \<Longrightarrow> make t' = (i, t')"
begin

text \<open>Later makers of other modes do not disturb a number.\<close>

lemma stays:
  assumes "make t = (i, t')" and "mode_maker make' wanted'" and "make' t' = (k, t'')"
  shows "mode_at t'' i = mode_at t' i \<and> wanted (mode_at t'' i)"
  using made [OF assms(1)] mode_maker.old [OF assms(2,3)] by simp

end

lemma mode_intern_maker:
  assumes P: "P m"
  shows "mode_maker (mode_intern P m) P"
proof
  fix t i t' j
  assume e: "mode_intern P m t = (i, t')"
  show "i < length (t_modes t') \<and> P (mode_at t' i)"
    using e find_from_Some [of 0 P "t_modes t"] P
    by (auto simp: mode_intern_def mode_push_def mode_at_def split: option.splits)
  show "j < length (t_modes t) \<Longrightarrow> mode_at t' j = mode_at t j"
    using e by (auto simp: mode_intern_def mode_push_def mode_at_def nth_append split: option.splits)
  show "mode_intern P m t' = (i, t')"
  proof (cases "find_from 0 P (t_modes t)")
    case None
    then have "find_from 0 P (t_modes t @ [m]) = Some (length (t_modes t))"
      using find_from_append [of "t_modes t" P m 0, OF find_from_None [OF None] P] by simp
    then show ?thesis using e None by (auto simp: mode_intern_def mode_push_def)
  next
    case (Some k)
    then show ?thesis using e by (auto simp: mode_intern_def)
  qed
qed

interpretation ms: mode_maker "mode_simple k len" "\<lambda>x. m_k x = k \<and> m_len x = len" for k len
  unfolding mode_simple_def by (rule mode_intern_maker) (simp add: mode0_def)

interpretation mr: mode_maker "mode_ref sub" "\<lambda>x. m_k x = M_REF \<and> m_sub x = sub" for sub
  unfolding mode_ref_def by (rule mode_intern_maker) (simp add: mode0_def)

interpretation mw: mode_maker "mode_row dims flex sub"
    "\<lambda>x. m_k x = M_ROW \<and> m_dims x = dims \<and> m_flex x = flex \<and> m_sub x = sub" for dims flex sub
  unfolding mode_row_def by (rule mode_intern_maker) (simp add: mode0_def)

lemma modes_interned_parts:
  assumes r: "mode_ref sub t = (i, t1)" and w: "mode_row dims flex i t1 = (k, t2)"
  shows "m_k (mode_at t2 i) = M_REF \<and> m_sub (mode_at t2 i) = sub"
    and "m_k (mode_at t2 k) = M_ROW \<and> m_dims (mode_at t2 k) = dims \<and> m_flex (mode_at t2 k) = flex \<and> m_sub (mode_at t2 k) = i"
    and "j < length (t_modes t) \<Longrightarrow> mode_at t2 j = mode_at t j"
    and "mode_ref sub t1 = (i, t1) \<and> mode_row dims flex i t2 = (k, t2)"
proof -
  show "m_k (mode_at t2 i) = M_REF \<and> m_sub (mode_at t2 i) = sub"
    using mr.stays [OF r mw.mode_maker_axioms w] by blast
  show "m_k (mode_at t2 k) = M_ROW \<and> m_dims (mode_at t2 k) = dims \<and> m_flex (mode_at t2 k) = flex \<and> m_sub (mode_at t2 k) = i"
    using mw.made [OF w] by simp
  have "length (t_modes t) \<le> length (t_modes t1)"
    using r by (auto simp: mode_ref_def mode_intern_def mode_push_def split: option.splits)
  then show "j < length (t_modes t) \<Longrightarrow> mode_at t2 j = mode_at t j"
    using mr.old [OF r, of j] mw.old [OF w, of j] by simp
  show "mode_ref sub t1 = (i, t1) \<and> mode_row dims flex i t2 = (k, t2)"
    using mr.again [OF r] mw.again [OF w] by simp
qed



end
