(* ===== verification/MpNum.thy ===== *)
theory MpNum
  imports Prelude
begin

text \<open>
  \<open>csrc/mp.h\<close> and the first part of \<open>csrc/mp.c\<close>: multi-precision numbers, their digits, and the
  normalisation and rounding of digit arrays.

  A number has a status word, an exponent and digits in radix 10^7. The code keeps digits in
  doubles that hold integers; here a digit is an integer, and an operation of the code on doubles is
  the integer operation followed by the rounding to 53 bits (\<open>rnd53\<close>) wherever the result is not plainly
  small. \<open>mp_d\<close> has the digits \<open>d[1] ... d[digs]\<close>; scratch arrays \<open>w\<close> are lists with their index 0.

  The C functions write their destination in place and return a code. Here an operation takes the
  old destination and returns the new one; the return of a non-zero code with a message is \<open>Die msg\<close>,
  which every caller makes of it, and \<open>abort\<close> is \<open>Fatal\<close>. Operands carry \<open>MP_INIT\<close>, as every number
  the module makes does.
\<close>

section \<open>Doubles that hold integers\<close>

function bit_len :: "nat \<Rightarrow> nat" where
  "bit_len n = (if n = 0 then 0 else 1 + bit_len (n div 2))"
  by pat_completeness auto
termination by (relation "measure (\<lambda>n. n)") auto

declare bit_len.simps [simp del]

text \<open>Division rounded to the nearest integer, ties to even.\<close>

definition div_even :: "nat \<Rightarrow> nat \<Rightarrow> nat" where
  "div_even n d = (let q = n div d; r = n mod d in
     if 2 * r > d \<or> 2 * r = d \<and> odd q then q + 1 else q)"

definition rnd53 :: "int \<Rightarrow> int" where
  "rnd53 x = (let s = bit_len (nat \<bar>x\<bar>) - 53 in sgn x * int (div_even (nat \<bar>x\<bar>) (2 ^ s) * 2 ^ s))"

text \<open>The fused multiply-add, and the truncated quotient of two doubles: the quotient is rounded to 53 bits first.\<close>

definition d_fma :: "int \<Rightarrow> int \<Rightarrow> int \<Rightarrow> int" where
  "d_fma a b c = rnd53 (a * b + c)"

definition d_quot :: "int \<Rightarrow> int \<Rightarrow> int" where
  "d_quot x y = (let n = nat \<bar>x\<bar>; d = nat \<bar>y\<bar>;
       k = int (bit_len n) - int (bit_len d);
       s0 = 53 - k;
       s = (if n * 2 ^ nat s0 \<ge> d * 2 ^ (53 + nat (- s0)) then s0 - 1 else s0);
       m = div_even (n * 2 ^ nat s) (d * 2 ^ nat (- s))
     in sgn x * sgn y * int (if s \<ge> 0 then m div 2 ^ nat s else m * 2 ^ nat (- s)))"

section \<open>Numbers\<close>

definition MP_R :: int where "MP_R = 10000000"
definition HALF_R :: int where "HALF_R = 5000000"
definition MP_MAX_EXPO :: int where "MP_MAX_EXPO = 142857"

definition MP_INIT :: u32 where "MP_INIT = 0x10"
definition MP_PINF :: u32 where "MP_PINF = 0x20"
definition MP_MINF :: u32 where "MP_MINF = 0x40"
definition MP_NAN :: u32 where "MP_NAN = 0x80"

record a68_mp =
  mp_st :: u32
  mp_ex :: int
  mp_d :: "int list"

definition mp_digs :: "a68_mp \<Rightarrow> nat" where "mp_digs z = length (mp_d z)"

definition mp_dig :: "a68_mp \<Rightarrow> nat \<Rightarrow> int" where
  "mp_dig z k = (if 1 \<le> k \<and> k \<le> length (mp_d z) then mp_d z ! (k - 1) else 0)"

definition adig :: "a68_mp \<Rightarrow> nat \<Rightarrow> int" where
  "adig z k = (if k = 1 then \<bar>mp_dig z k\<bar> else mp_dig z k)"

definition mp_width_to_digits :: "int \<Rightarrow> int" where
  "mp_width_to_digits n = 2 + c_quot (n + 7 - 1) 7"

definition mp_nil :: "nat \<Rightarrow> a68_mp" where
  "mp_nil n = \<lparr>mp_st = MP_INIT, mp_ex = 0, mp_d = replicate n 0\<rparr>"

definition mp_lit :: "nat \<Rightarrow> int \<Rightarrow> int \<Rightarrow> a68_mp" where
  "mp_lit n u e = (mp_nil n)\<lparr>mp_d := (replicate n 0)[0 := u], mp_ex := e\<rparr>"

definition mp_one :: "nat \<Rightarrow> a68_mp" where "mp_one n = mp_lit n 1 0"

definition mp_copy :: "a68_mp \<Rightarrow> a68_mp" where
  "mp_copy x = (mp_nil (mp_digs x))\<lparr>mp_st := mp_st x, mp_ex := mp_ex x, mp_d := mp_d x\<rparr>"

text \<open>Numbers are made with the precision they are used with.\<close>

definition ensure :: "a68_mp \<Rightarrow> nat \<Rightarrow> unit res" where
  "ensure z n = (if mp_digs z < n then Inl (Fatal ''internal: multiprecision number of too few digits'') else Inr ())"

text \<open>Write the first \<open>n\<close> digits, from a function of the position.\<close>

definition put_digits :: "a68_mp \<Rightarrow> nat \<Rightarrow> (nat \<Rightarrow> int) \<Rightarrow> a68_mp" where
  "put_digits z n f = z\<lparr>mp_d := map f [1..<Suc n] @ drop n (mp_d z)\<rparr>"

definition len_into :: "a68_mp \<Rightarrow> a68_mp \<Rightarrow> nat \<Rightarrow> nat \<Rightarrow> a68_mp res" where
  "len_into z u digs gdigs = bindE (ensure z gdigs) (\<lambda>_.
     Inr ((put_digits z gdigs (\<lambda>k. if k \<le> min digs gdigs then mp_dig u k else 0))\<lparr>mp_st := mp_st u, mp_ex := mp_ex u\<rparr>))"

definition mp_len :: "a68_mp \<Rightarrow> nat \<Rightarrow> nat \<Rightarrow> a68_mp res" where
  "mp_len u digs gdigs = len_into (mp_nil gdigs) u digs gdigs"

definition mp_set_dig :: "a68_mp \<Rightarrow> nat \<Rightarrow> int \<Rightarrow> a68_mp" where
  "mp_set_dig z k v = (let d = (if k > mp_digs z then mp_d z @ replicate (k - mp_digs z) 0 else mp_d z)
     in z\<lparr>mp_d := d[k - 1 := v]\<rparr>)"

definition mp_set :: "a68_mp \<Rightarrow> int \<Rightarrow> int \<Rightarrow> nat \<Rightarrow> a68_mp res" where
  "mp_set z x e digs = bindE (ensure z digs) (\<lambda>_.
     Inr ((put_digits z digs (\<lambda>k. if k = 1 then x else 0))\<lparr>mp_st := MP_INIT, mp_ex := e\<rparr>))"

definition mp_set_zero :: "a68_mp \<Rightarrow> nat \<Rightarrow> a68_mp res" where "mp_set_zero z digs = mp_set z 0 0 digs"
definition mp_set_one :: "a68_mp \<Rightarrow> nat \<Rightarrow> a68_mp res" where "mp_set_one z digs = mp_set z 1 0 digs"

definition mp_move :: "a68_mp \<Rightarrow> a68_mp \<Rightarrow> nat \<Rightarrow> a68_mp res" where
  "mp_move z x n = bindE (ensure z n) (\<lambda>_.
     Inr ((put_digits z n (mp_dig x))\<lparr>mp_st := mp_st x, mp_ex := mp_ex x\<rparr>))"

definition mp_set_nan :: "a68_mp \<Rightarrow> a68_mp" where "mp_set_nan z = z\<lparr>mp_st := or MP_NAN MP_INIT\<rparr>"
definition mp_set_pinf :: "a68_mp \<Rightarrow> a68_mp" where "mp_set_pinf z = z\<lparr>mp_st := or MP_PINF MP_INIT\<rparr>"
definition mp_set_minf :: "a68_mp \<Rightarrow> a68_mp" where "mp_set_minf z = z\<lparr>mp_st := or MP_MINF MP_INIT\<rparr>"
definition mp_set_init :: "a68_mp \<Rightarrow> a68_mp" where "mp_set_init z = z\<lparr>mp_st := or (mp_st z) MP_INIT\<rparr>"

text \<open>Operations on the first digit.\<close>

definition on_first :: "(int \<Rightarrow> int) \<Rightarrow> a68_mp \<Rightarrow> a68_mp" where
  "on_first f z = z\<lparr>mp_d := (mp_d z)[0 := f (mp_dig z 1)]\<rparr>"

definition mp_negate1 :: "a68_mp \<Rightarrow> a68_mp" where "mp_negate1 z = on_first uminus z"

definition mp_is_nan :: "a68_mp \<Rightarrow> bool" where "mp_is_nan z \<longleftrightarrow> and (mp_st z) MP_NAN \<noteq> 0"
definition mp_is_pinf :: "a68_mp \<Rightarrow> bool" where "mp_is_pinf z \<longleftrightarrow> and (mp_st z) MP_PINF \<noteq> 0"
definition mp_is_minf :: "a68_mp \<Rightarrow> bool" where "mp_is_minf z \<longleftrightarrow> and (mp_st z) MP_MINF \<noteq> 0"
definition mp_is_inf :: "a68_mp \<Rightarrow> bool" where "mp_is_inf z \<longleftrightarrow> mp_is_pinf z \<or> mp_is_minf z"
definition mp_is_finite :: "a68_mp \<Rightarrow> bool" where "mp_is_finite z \<longleftrightarrow> \<not> mp_is_nan z \<and> \<not> mp_is_inf z"
definition mp_is_zero :: "a68_mp \<Rightarrow> bool" where "mp_is_zero z \<longleftrightarrow> mp_dig z 1 = 0"
definition mp_is_plus :: "a68_mp \<Rightarrow> bool" where "mp_is_plus z \<longleftrightarrow> mp_dig z 1 > 0"
definition mp_is_minus :: "a68_mp \<Rightarrow> bool" where "mp_is_minus z \<longleftrightarrow> mp_dig z 1 < 0"

definition mp_check_exp :: "a68_mp \<Rightarrow> a68_mp res" where
  "mp_check_exp z = (if \<bar>mp_ex z\<bar> > MP_MAX_EXPO \<or> \<bar>mp_ex z\<bar> = MP_MAX_EXPO \<and> \<bar>mp_dig z 1\<bar> > 1
     then Inl (Die ''multiprecision value out of bounds'') else Inr z)"

definition mp_catch_nan :: "a68_mp \<Rightarrow> unit res" where
  "mp_catch_nan x = (if mp_is_nan x then Inl (Die ''LONG LONG REAL value is not a number'') else Inr ())"

text \<open>The tests most operations of one operand begin with.\<close>

definition unless_inf :: "a68_mp \<Rightarrow> a68_mp \<Rightarrow> a68_mp res \<Rightarrow> a68_mp res" where
  "unless_inf z x r = bindE (mp_catch_nan x) (\<lambda>_.
     if mp_is_pinf x then Inr (mp_set_pinf z) else if mp_is_minf x then Inr (mp_set_minf z) else r)"

section \<open>Normalisation and rounding\<close>

definition carry_at :: "int list \<Rightarrow> nat \<Rightarrow> int list" where
  "carry_at a j = (let zv = a ! j; lo = a ! (j - 1) in
     if zv \<ge> MP_R then (let c = zv div MP_R in a[j := zv - c * MP_R, j - 1 := lo + c])
     else if zv < 0 then (let c = 1 + (- zv - 1) div MP_R in a[j := zv + c * MP_R, j - 1 := lo - c])
     else a)"

definition norm_digits :: "int list \<Rightarrow> nat \<Rightarrow> nat \<Rightarrow> int list" where
  "norm_digits w k digs = fold (\<lambda>j a. carry_at a j) (rev [max k 1..<Suc digs]) w"

definition round_up :: "int list \<Rightarrow> nat \<Rightarrow> int list" where
  "round_up w g =
     (if w ! g > HALF_R then w[g - 1 := w ! (g - 1) + 1]
      else if w ! g = HALF_R then w[g - 1 := w ! (g - 1) + (if even (w ! (g - 1)) then 2 else 1)]
      else w)"

definition round_internal :: "a68_mp \<Rightarrow> int list \<Rightarrow> int \<Rightarrow> nat \<Rightarrow> a68_mp res" where
  "round_internal z w wex digs =
     (let g = (if w ! 1 = 0 then 2 + digs else 1 + digs);
          w1 = round_up w g;
          w2 = (if w1 ! (g - 1) \<ge> MP_R then norm_digits w1 2 g else w1)
      in bindE (ensure z digs) (\<lambda>_.
         let z1 = (if w2 ! 1 = 0 then (put_digits z digs (\<lambda>k. w2 ! (k + 1)))\<lparr>mp_ex := wex - 1\<rparr>
                   else (put_digits z digs (\<lambda>k. w2 ! k))\<lparr>mp_ex := wex\<rparr>)
         in Inr (if mp_dig z1 1 = 0 then z1\<lparr>mp_ex := 0\<rparr> else z1)))"

section \<open>Shortening and lengthening\<close>

definition lengthen_raw :: "a68_mp \<Rightarrow> a68_mp \<Rightarrow> nat \<Rightarrow> nat \<Rightarrow> a68_mp res" where
  "lengthen_raw z x digs_z digs_x = bindE (ensure z digs_z) (\<lambda>_.
     Inr ((put_digits z digs_z (\<lambda>k. if k \<le> digs_x then mp_dig x k else 0))\<lparr>mp_st := mp_st x, mp_ex := mp_ex x\<rparr>))"

definition mp_shorten :: "a68_mp \<Rightarrow> nat \<Rightarrow> a68_mp \<Rightarrow> nat \<Rightarrow> a68_mp res" where
  "mp_shorten z digs x digs_x = unless_inf z x
     (if digs > digs_x then lengthen_raw z x digs digs_x
      else if digs = digs_x then mp_move z x digs
      else (let neg = mp_is_minus x;
                w = 0 # 0 # map (\<lambda>k. if k = 1 \<and> neg then - mp_dig x k else mp_dig x k) [1..<digs + 2]
            in bindE (round_internal z w (mp_ex x + 1) digs) (\<lambda>z1.
               Inr ((if neg then mp_negate1 z1 else z1)\<lparr>mp_st := mp_st x\<rparr>))))"

definition mp_lengthen :: "a68_mp \<Rightarrow> nat \<Rightarrow> a68_mp \<Rightarrow> nat \<Rightarrow> a68_mp res" where
  "mp_lengthen z digs_z x digs_x =
     (if digs_z < digs_x then mp_shorten z digs_z x digs_x
      else unless_inf z x (if digs_z = digs_x then mp_move z x digs_z else lengthen_raw z x digs_z digs_x))"

end
