(* ===== verification/MpArith.thy ===== *)
theory MpArith
  imports MpNum
begin

text \<open>
  \<open>csrc/mp.c\<close>, the arithmetic: addition, subtraction, multiplication, division, truncation, rounding,
  powers and comparison of multi-precision numbers.
\<close>

section \<open>Addition and subtraction\<close>

definition digit_or0 :: "a68_mp \<Rightarrow> nat \<Rightarrow> int \<Rightarrow> int" where
  "digit_or0 a digs j = (if j \<le> 0 \<or> j > int digs then 0 else adig a (nat j))"

text \<open>The aligned digit sums of \<open>|x|\<close> and \<open>s |y|\<close>, and the exponent they are for.\<close>

definition aligned_sum :: "a68_mp \<Rightarrow> a68_mp \<Rightarrow> nat \<Rightarrow> int \<Rightarrow> int list \<times> int" where
  "aligned_sum x y digs s =
     (let shl_x = (if mp_ex y > mp_ex x then mp_ex y - mp_ex x else 0);
          shl_y = (if mp_ex x > mp_ex y then mp_ex x - mp_ex y else 0)
      in (0 # 0 # map (\<lambda>i. digit_or0 x digs (int i - 1 - shl_x) + s * digit_or0 y digs (int i - 1 - shl_y)) [2..<digs + 3],
          1 + max (mp_ex x) (mp_ex y)))"

definition add_abs :: "a68_mp \<Rightarrow> a68_mp \<Rightarrow> a68_mp \<Rightarrow> nat \<Rightarrow> a68_mp res" where
  "add_abs z x y digs =
     (let z0 = mp_set_init z in
      if mp_is_zero x then bindE (mp_move z0 y digs) (\<lambda>z1. Inr (on_first abs z1))
      else if mp_is_zero y then bindE (mp_move z0 x digs) (\<lambda>z1. Inr (on_first abs z1))
      else (let (w, wex) = aligned_sum x y digs 1 in
            bindE (round_internal z0 (norm_digits w 2 (digs + 2)) wex digs) mp_check_exp))"

text \<open>The first position from 2 on, or from 1 on, that is not zero; 0 when there is none.\<close>

definition first_nonzero :: "int list \<Rightarrow> nat \<Rightarrow> nat \<Rightarrow> nat" where
  "first_nonzero w lo hi = (case filter (\<lambda>j. w ! j \<noteq> 0) [lo..<Suc hi] of [] \<Rightarrow> 0 | j # _ \<Rightarrow> j)"

text \<open>Negate the difference when it is negative.\<close>

definition make_positive :: "int list \<Rightarrow> nat \<Rightarrow> int list \<times> bool" where
  "make_positive w digs_h =
     (let f = first_nonzero w 2 digs_h; negative = (f \<noteq> 0 \<and> w ! f < 0) in
      if w ! 2 \<le> 0 \<and> negative
      then (map (\<lambda>j. if f \<le> j \<and> j \<le> digs_h then - (w ! j) else w ! j) [0..<length w], True) else (w, False))"

text \<open>Shift leading zeros out: positions \<open>1 ... digs_h\<close> move down by \<open>f - 1\<close>.\<close>

definition shift_out :: "int list \<Rightarrow> nat \<Rightarrow> nat \<Rightarrow> int list" where
  "shift_out w f digs_h = (let j2 = f - 1 in
     fold (\<lambda>j a. a[j := a ! (j + j2), j + j2 := 0]) [1..<Suc (digs_h - j2)] w)"

definition sub_abs :: "a68_mp \<Rightarrow> a68_mp \<Rightarrow> a68_mp \<Rightarrow> nat \<Rightarrow> a68_mp res" where
  "sub_abs z x y digs =
     (let z0 = mp_set_init z; digs_h = digs + 2 in
      if mp_is_zero x then bindE (mp_move z0 y digs) (\<lambda>z1. Inr (on_first (\<lambda>d. - \<bar>d\<bar>) z1))
      else if mp_is_zero y then bindE (mp_move z0 x digs) (\<lambda>z1. Inr (on_first abs z1))
      else (let (w0, wex0) = aligned_sum x y digs (- 1);
                (w1, negative) = make_positive w0 digs_h;
                w2 = norm_digits w1 2 digs_h;
                f = first_nonzero w2 1 digs_h;
                (w3, wex) = (if f > 1 then (shift_out w2 f digs_h, wex0 - int (f - 1)) else (w2, wex0))
            in bindE (round_internal z0 w3 wex digs) (\<lambda>z1. mp_check_exp (if negative then mp_negate1 z1 else z1))))"

text \<open>Infinities and zeros of a sum; \<open>neg_y\<close> says what a zero \<open>x\<close> leaves of \<open>y\<close>.\<close>

definition sum_cases :: "a68_mp \<Rightarrow> a68_mp \<Rightarrow> a68_mp \<Rightarrow> nat \<Rightarrow> (a68_mp \<Rightarrow> a68_mp) \<Rightarrow> a68_mp res \<Rightarrow> a68_mp res" where
  "sum_cases z x y digs neg_y r =
     bindE (mp_catch_nan x) (\<lambda>_. bindE (mp_catch_nan y) (\<lambda>_.
       if mp_is_pinf x \<and> mp_is_minf y \<or> mp_is_pinf y \<and> mp_is_minf x then Inr (mp_set_nan z)
       else if mp_is_pinf x \<or> mp_is_pinf y then Inr (mp_set_pinf z)
       else if mp_is_minf x \<or> mp_is_minf y then Inr (mp_set_minf z)
       else if mp_is_zero x then bindE (mp_move z y digs) (\<lambda>z1. Inr (neg_y z1))
       else if mp_is_zero y then mp_move z x digs
       else r))"

definition mp_add :: "a68_mp \<Rightarrow> a68_mp \<Rightarrow> a68_mp \<Rightarrow> nat \<Rightarrow> a68_mp res" where
  "mp_add z x y digs = sum_cases z x y digs (\<lambda>z1. z1)
     (let z0 = mp_set_init z; x1 = mp_dig x 1; y1 = mp_dig y 1 in
      if x1 \<ge> 0 \<and> y1 < 0 then sub_abs z0 x y digs
      else if x1 < 0 \<and> y1 \<ge> 0 then sub_abs z0 y x digs
      else if x1 < 0 \<and> y1 < 0 then bindE (add_abs z0 x y digs) (\<lambda>z1. Inr (mp_negate1 z1))
      else add_abs z0 x y digs)"

definition mp_sub :: "a68_mp \<Rightarrow> a68_mp \<Rightarrow> a68_mp \<Rightarrow> nat \<Rightarrow> a68_mp res" where
  "mp_sub z x y digs = sum_cases z x y digs mp_negate1
     (let z0 = mp_set_init z; x1 = mp_dig x 1; y1 = mp_dig y 1 in
      if x1 \<ge> 0 \<and> y1 < 0 then add_abs z0 x y digs
      else if x1 < 0 \<and> y1 \<ge> 0 then bindE (add_abs z0 y x digs) (\<lambda>z1. Inr (mp_negate1 z1))
      else if x1 < 0 \<and> y1 < 0 then sub_abs z0 y x digs
      else sub_abs z0 x y digs)"

section \<open>Multiplication\<close>

definition mul_inf :: "a68_mp \<Rightarrow> a68_mp \<Rightarrow> a68_mp \<Rightarrow> a68_mp" where
  "mul_inf u v w = (let pv = mp_is_pinf v in
     if mp_is_pinf w then (if pv then mp_set_pinf u else mp_set_minf u)
     else if mp_is_minf w then (if pv then mp_set_minf u else mp_set_pinf u)
     else if mp_is_zero w then mp_set_nan u
     else if mp_is_plus w then (if pv then mp_set_pinf u else mp_set_minf u)
     else (if pv then mp_set_minf u else mp_set_pinf u))"

definition MUL_OFLOW :: nat where "MUL_OFLOW = 44"

text \<open>One row of the product: digit \<open>yi\<close> times the digits \<open>j ... 1\<close>, added at \<open>i + jj\<close>.\<close>

definition mp_mul_row :: "a68_mp \<Rightarrow> int \<Rightarrow> nat \<Rightarrow> nat \<Rightarrow> int list \<Rightarrow> int list" where
  "mp_mul_row x yi i j w = fold (\<lambda>jj a. a[i + jj := rnd53 (a ! (i + jj) + rnd53 (yi * adig x jj))]) (rev [1..<Suc j]) w"

definition mul_step :: "a68_mp \<Rightarrow> a68_mp \<Rightarrow> nat \<Rightarrow> nat \<Rightarrow> int list \<Rightarrow> int list" where
  "mul_step x y digs i w = (let digs_h = 2 + digs; yi = adig y i in
     if yi \<noteq> 0
     then (let j = min digs (digs_h - i);
               w1 = (if (digs - i + 1) mod MUL_OFLOW = 0 then norm_digits w 2 digs_h else w)
           in mp_mul_row x yi i j w1)
     else w)"

definition mul_digits :: "a68_mp \<Rightarrow> a68_mp \<Rightarrow> nat \<Rightarrow> int list" where
  "mul_digits x y digs = norm_digits (fold (mul_step x y digs) (rev [1..<Suc digs]) (replicate (digs + 3) 0)) 2 (2 + digs)"

text \<open>The sign of the first digit, and the check of the exponent, at the end of an operation.\<close>

definition finish_sign :: "bool \<Rightarrow> a68_mp \<Rightarrow> a68_mp res" where
  "finish_sign pos z = mp_check_exp (if pos then z else mp_negate1 z)"

definition mp_mul :: "a68_mp \<Rightarrow> a68_mp \<Rightarrow> a68_mp \<Rightarrow> nat \<Rightarrow> a68_mp res" where
  "mp_mul z x y digs = bindE (mp_catch_nan x) (\<lambda>_. bindE (mp_catch_nan y) (\<lambda>_.
     if mp_is_inf x then Inr (mul_inf z x y)
     else if mp_is_inf y then Inr (mul_inf z y x)
     else if mp_is_zero x \<or> mp_is_zero y then mp_set_zero z digs
     else bindE (round_internal (mp_set_init z) (mul_digits x y digs) (mp_ex x + mp_ex y + 1) digs)
            (finish_sign (mp_dig x 1 * mp_dig y 1 \<ge> 0))))"

definition scale_digits :: "a68_mp \<Rightarrow> a68_mp \<Rightarrow> int \<Rightarrow> int \<Rightarrow> nat \<Rightarrow> a68_mp res" where
  "scale_digits z x y wex digs =
     (let w = 0 # 0 # map (\<lambda>j. rnd53 (y * adig x j)) [1..<Suc digs] @ [0]
      in round_internal z (norm_digits w 2 (2 + digs)) wex digs)"

definition half_abs :: "a68_mp \<Rightarrow> a68_mp \<Rightarrow> nat \<Rightarrow> a68_mp res" where
  "half_abs z x digs = bindE (scale_digits (mp_set_init z) x HALF_R (mp_ex x) digs) mp_check_exp"

definition tenth_abs :: "a68_mp \<Rightarrow> a68_mp \<Rightarrow> nat \<Rightarrow> a68_mp res" where
  "tenth_abs z x digs = bindE (scale_digits (mp_set_init z) x (MP_R div 10) (mp_ex x) digs) mp_check_exp"

definition mp_half :: "a68_mp \<Rightarrow> a68_mp \<Rightarrow> nat \<Rightarrow> a68_mp res" where
  "mp_half z x digs = unless_inf z x
     (bindE (scale_digits (mp_set_init z) x HALF_R (mp_ex x) digs) (finish_sign (mp_dig x 1 \<ge> 0)))"

definition mp_tenth :: "a68_mp \<Rightarrow> a68_mp \<Rightarrow> nat \<Rightarrow> a68_mp res" where
  "mp_tenth z x digs = unless_inf z x
     (bindE (scale_digits (mp_set_init z) x (MP_R div 10) (mp_ex x) digs) (finish_sign (mp_dig x 1 \<ge> 0)))"

text \<open>\<open>(double) ya\<close> rounds; the sign of the product is that of the exact one.\<close>

definition mp_mul_digit :: "a68_mp \<Rightarrow> a68_mp \<Rightarrow> int \<Rightarrow> nat \<Rightarrow> a68_mp res" where
  "mp_mul_digit z x y digs = bindE (mp_catch_nan x) (\<lambda>_.
     if mp_is_inf x \<and> y = 0 then Inr (mp_set_nan z)
     else if mp_is_inf x then Inr (if mp_is_pinf x then (if y > 0 then mp_set_pinf z else mp_set_minf z)
                                   else (if y < 0 then mp_set_pinf z else mp_set_minf z))
     else bindE (if \<bar>y\<bar> = 2 then add_abs (mp_set_init z) x x digs
                 else scale_digits (mp_set_init z) x (rnd53 \<bar>y\<bar>) (mp_ex x + 1) digs)
            (finish_sign (mp_dig x 1 * y \<ge> 0)))"

section \<open>Division\<close>

definition DIV_OFLOW :: nat where "DIV_OFLOW = 29"

text \<open>The scratch array of a division: \<open>|x|\<close> from position 2 on, and four places more.\<close>

definition div_start :: "a68_mp \<Rightarrow> nat \<Rightarrow> int list" where
  "div_start x digs = 0 # 0 # map (adig x) [1..<Suc digs] @ [0, 0, 0]"

text \<open>The fused numerator of the estimate of a quotient digit.\<close>

definition q_nom :: "nat \<Rightarrow> int list \<Rightarrow> nat \<Rightarrow> int" where
  "q_nom digs w k = d_fma (d_fma (d_fma (w ! k) MP_R (w ! (k + 1))) MP_R (w ! (k + 2))) MP_R
     (if digs + 4 \<ge> k + 4 then w ! (k + 3) else 0)"

definition div_digit_step :: "int \<Rightarrow> nat \<Rightarrow> nat \<Rightarrow> int list \<Rightarrow> int list" where
  "div_digit_step ya digs k w =
     (let den = rnd53 (rnd53 (rnd53 ya * MP_R) * MP_R);
          q = d_quot (q_nom digs w k) den;
          wk = w ! k;
          w1 = w[k + 1 := rnd53 (w ! (k + 1) + rnd53 (rnd53 (wk * MP_R) - rnd53 (q * rnd53 ya)))];
          w2 = w1[k := q]
      in if k mod DIV_OFLOW = 0 \<or> k = digs + 2 then norm_digits w2 (k + 2) (digs + 4) else w2)"

definition div_digit_loop :: "a68_mp \<Rightarrow> a68_mp \<Rightarrow> int \<Rightarrow> nat \<Rightarrow> a68_mp res" where
  "div_digit_loop z x ya digs =
     round_internal z (norm_digits (fold (div_digit_step ya digs) [1..<digs + 3] (div_start x digs)) 2 digs) (mp_ex x) digs"

text \<open>Subtract \<open>q\<close> times the digits of \<open>|y|\<close> from position \<open>first\<close> on; the positions are one less.\<close>

definition div_sub :: "a68_mp \<Rightarrow> int \<Rightarrow> nat \<Rightarrow> nat \<Rightarrow> nat \<Rightarrow> int list \<Rightarrow> int list" where
  "div_sub y q k first lim w =
     fold (\<lambda>j a. let i = k + 1 + (j - first) in a[i := rnd53 (a ! i - rnd53 (q * adig y (1 + (j - first))))]) [first..<Suc lim] w"

definition div_step_mp :: "a68_mp \<Rightarrow> nat \<Rightarrow> nat \<Rightarrow> nat \<Rightarrow> int list \<Rightarrow> int list" where
  "div_step_mp y nzdigs digs k w =
     (let wdigs = 4 + digs; first = k + 2; len = digs + 1 + k;
          den = d_fma (d_fma (adig y 1) MP_R (mp_dig y 2)) MP_R (mp_dig y 3);
          nom = q_nom digs w k;
          q = (if nom \<noteq> 0 then d_quot nom den else 0);
          lim0 = min len wdigs;
          lim = (if nzdigs + first \<le> lim0 + 1 then first + nzdigs - 1 else lim0);
          w1 = (if nom \<noteq> 0 then div_sub y q k first lim w else w);
          w2 = w1[k + 1 := d_fma (w1 ! k) MP_R (w1 ! (k + 1))];
          w3 = w2[k := q]
      in if k mod DIV_OFLOW = 0 \<or> k = digs + 2 then norm_digits w3 first wdigs else w3)"

definition div_loop :: "a68_mp \<Rightarrow> a68_mp \<Rightarrow> a68_mp \<Rightarrow> nat \<Rightarrow> nat \<Rightarrow> int \<Rightarrow> a68_mp res" where
  "div_loop z x y nzdigs digs wex =
     round_internal z (norm_digits (fold (div_step_mp y nzdigs digs) [1..<digs + 3] (div_start x digs)) 2 digs) wex digs"

definition div_digit_abs :: "a68_mp \<Rightarrow> a68_mp \<Rightarrow> int \<Rightarrow> nat \<Rightarrow> a68_mp res" where
  "div_digit_abs z x ya digs =
     (let z0 = mp_set_init z in
      if ya = 2 then half_abs z0 x digs else if ya = 10 then tenth_abs z0 x digs
      else bindE (div_digit_loop z0 x ya digs) mp_check_exp)"

definition mp_div_digit :: "a68_mp \<Rightarrow> a68_mp \<Rightarrow> int \<Rightarrow> nat \<Rightarrow> a68_mp res" where
  "mp_div_digit z x y digs = unless_inf z x
     (if y = 0 then Inr (mp_set_nan z)
      else bindE (div_digit_abs z x \<bar>y\<bar> digs) (finish_sign (mp_dig x 1 * y \<ge> 0)))"

text \<open>The number of digits of \<open>y\<close> without the zeros at the end.\<close>

fun nz_digits :: "a68_mp \<Rightarrow> nat \<Rightarrow> nat" where
  "nz_digits y n = (if adig y n = 0 \<and> n > 1 then nz_digits y (n - 1) else n)"

declare nz_digits.simps [simp del]

definition zero_divide :: "a68_mp \<Rightarrow> a68_mp \<Rightarrow> a68_mp" where
  "zero_divide z x = (if mp_is_zero x then mp_set_nan z else if mp_is_plus x then mp_set_pinf z else mp_set_minf z)"

definition mp_div :: "a68_mp \<Rightarrow> a68_mp \<Rightarrow> a68_mp \<Rightarrow> nat \<Rightarrow> a68_mp res" where
  "mp_div z x y digs = bindE (mp_catch_nan x) (\<lambda>_. bindE (mp_catch_nan y) (\<lambda>_.
     if mp_is_inf x then Inr (mp_set_nan z)
     else if mp_is_inf y then mp_set_zero z digs
     else if mp_is_zero y then Inr (zero_divide z x)
     else (let nzdigs = nz_digits y digs in
           bindE (if nzdigs = 1 \<and> mp_ex y = 0 then div_digit_abs (mp_set_init z) x (adig y 1) digs
                  else div_loop (mp_set_init z) x y nzdigs digs (mp_ex x - mp_ex y))
             (finish_sign (mp_dig x 1 * mp_dig y 1 \<ge> 0)))))"

definition mp_rec :: "a68_mp \<Rightarrow> a68_mp \<Rightarrow> nat \<Rightarrow> a68_mp res" where
  "mp_rec z x digs = (if mp_is_zero x then Inr (mp_set_nan z) else mp_div z (mp_one digs) x digs)"

section \<open>Truncation and rounding\<close>

definition MP_GUARDS :: nat where "MP_GUARDS = 2"

definition mp_trunc :: "a68_mp \<Rightarrow> a68_mp \<Rightarrow> nat \<Rightarrow> a68_mp res" where
  "mp_trunc z x digs = unless_inf z x
     (if mp_ex x < 0 then mp_set_zero z digs
      else if mp_ex x \<ge> int digs then Inl (Die ''value out of bounds'')
      else bindE (mp_move z x digs) (\<lambda>z1.
        Inr (mp_set_init (put_digits z1 digs (\<lambda>k. if int k \<ge> mp_ex x + 2 then 0 else mp_dig z1 k)))))"

definition mp_over :: "a68_mp \<Rightarrow> a68_mp \<Rightarrow> a68_mp \<Rightarrow> nat \<Rightarrow> a68_mp res" where
  "mp_over z x y digs = (let dg = digs + MP_GUARDS in bindE (mp_catch_nan x) (\<lambda>_. bindE (mp_catch_nan y) (\<lambda>_.
     if mp_is_inf x then Inr (mp_set_nan z)
     else if mp_is_inf y then mp_set_zero z digs
     else if mp_is_zero y then Inr (zero_divide z x)
     else bindE (mp_len x digs dg) (\<lambda>xg. bindE (mp_len y digs dg) (\<lambda>yg.
          bindE (mp_div (mp_nil dg) xg yg dg) (\<lambda>zg. bindE (mp_trunc zg zg dg) (\<lambda>zt.
          bindE (mp_shorten z digs zt dg) (\<lambda>z1. Inr (mp_set_init z1)))))))))"

definition mp_over_digit :: "a68_mp \<Rightarrow> a68_mp \<Rightarrow> int \<Rightarrow> nat \<Rightarrow> a68_mp res" where
  "mp_over_digit z x y digs = (let dg = digs + MP_GUARDS in unless_inf z x
     (if y = 0 then Inr (mp_set_nan z)
      else bindE (mp_len x digs dg) (\<lambda>xg. bindE (mp_div_digit (mp_nil dg) xg y dg) (\<lambda>zg.
           bindE (mp_trunc zg zg dg) (\<lambda>zt. mp_shorten z digs zt dg)))))"

definition mp_mod :: "a68_mp \<Rightarrow> a68_mp \<Rightarrow> a68_mp \<Rightarrow> nat \<Rightarrow> a68_mp res" where
  "mp_mod z x y digs = (let dg = digs + MP_GUARDS in bindE (mp_catch_nan x) (\<lambda>_. bindE (mp_catch_nan y) (\<lambda>_.
     if mp_is_inf x \<or> mp_is_inf y then Inr (mp_set_nan z)
     else if mp_is_zero y then Inr (mp_set_nan z)
     else bindE (mp_len x digs dg) (\<lambda>xg. bindE (mp_len y digs dg) (\<lambda>yg.
          bindE (mp_over (mp_nil dg) xg yg dg) (\<lambda>q. bindE (mp_mul q yg q dg) (\<lambda>p.
          bindE (mp_sub p xg p dg) (\<lambda>r. mp_shorten z digs r dg)))))))) "

definition mp_round :: "a68_mp \<Rightarrow> a68_mp \<Rightarrow> nat \<Rightarrow> a68_mp res" where
  "mp_round z x digs = unless_inf z x
     (let half = mp_lit digs HALF_R (- 1) in
      bindE (if mp_dig x 1 \<ge> 0 then mp_add z x half digs else mp_sub z x half digs) (\<lambda>z1.
      bindE (mp_trunc z1 z1 digs) (\<lambda>z2. Inr (mp_set_init z2))))"

text \<open>The scratch copy is taken from the destination.\<close>

definition mp_entier :: "a68_mp \<Rightarrow> a68_mp \<Rightarrow> nat \<Rightarrow> a68_mp res" where
  "mp_entier z x digs = unless_inf z x
     (if mp_dig x 1 \<ge> 0 then mp_trunc z x digs
      else bindE (mp_move (mp_nil digs) z digs) (\<lambda>y. bindE (mp_trunc z x digs) (\<lambda>z1.
           bindE (mp_sub y y z1 digs) (\<lambda>d.
           bindE (if mp_dig d 1 \<noteq> 0 then mp_sub z1 z1 (mp_one digs) digs else Inr z1) (\<lambda>z2. Inr (mp_set_init z2))))))"

definition mp_minus :: "a68_mp \<Rightarrow> a68_mp res" where
  "mp_minus x = bindE (mp_catch_nan x) (\<lambda>_. Inr (if mp_is_pinf x then mp_set_minf x
     else if mp_is_minf x then mp_set_pinf x else mp_set_init (mp_negate1 x)))"

definition mp_abs :: "a68_mp \<Rightarrow> a68_mp res" where
  "mp_abs x = bindE (mp_catch_nan x) (\<lambda>_. Inr (if mp_is_inf x then mp_set_pinf x
     else mp_set_init (on_first abs x)))"

definition mp_minus_one :: "a68_mp \<Rightarrow> a68_mp \<Rightarrow> nat \<Rightarrow> a68_mp res" where
  "mp_minus_one z x digs = unless_inf z x (mp_sub z x (mp_one digs) digs)"

definition mp_plus_one :: "a68_mp \<Rightarrow> a68_mp \<Rightarrow> nat \<Rightarrow> a68_mp res" where
  "mp_plus_one z x digs = unless_inf z x (mp_add z x (mp_one digs) digs)"

definition mp_one_minus :: "a68_mp \<Rightarrow> a68_mp \<Rightarrow> nat \<Rightarrow> a68_mp res" where
  "mp_one_minus z x digs = bindE (mp_catch_nan x) (\<lambda>_.
     if mp_is_pinf x then Inr (mp_set_minf z) else if mp_is_minf x then Inr (mp_set_pinf z)
     else mp_sub z (mp_one digs) x digs)"

text \<open>Square and multiply; the square is taken once more than is needed. The bit stays below 2^64.\<close>

function mp_pow_loop :: "nat \<Rightarrow> nat \<Rightarrow> nat \<Rightarrow> a68_mp \<Rightarrow> a68_mp \<Rightarrow> a68_mp res" where
  "mp_pow_loop nn b dg xg zg =
     (if b = 0 \<or> b > nn then Inr zg
      else bindE (if odd (nn div b) then mp_mul zg zg xg dg else Inr zg) (\<lambda>zg'.
           bindE (mp_mul xg xg xg dg) (\<lambda>xg'.
           if 2 * b \<ge> 2 ^ 64 then Inr zg' else mp_pow_loop nn (2 * b) dg xg' zg')))"
  by pat_completeness auto
termination by (relation "measure (\<lambda>(nn, b, dg, xg, zg). nn + 1 - b)") auto

declare mp_pow_loop.simps [simp del]

definition mp_pow_int :: "a68_mp \<Rightarrow> a68_mp \<Rightarrow> int \<Rightarrow> nat \<Rightarrow> a68_mp res" where
  "mp_pow_int z x n digs = (let dg = digs + MP_GUARDS in bindE (mp_catch_nan x) (\<lambda>_.
     if mp_is_inf x then
       (if n = 0 then Inr (mp_set_nan z) else if n < 0 then mp_set_zero z digs
        else if mp_is_pinf x then Inr (mp_set_pinf z)
        else if even n then Inr (mp_set_pinf z) else Inr (mp_set_minf z))
     else bindE (mp_len x digs dg) (\<lambda>xg.
          bindE (mp_pow_loop (nat \<bar>n\<bar>) 1 dg xg (mp_one dg)) (\<lambda>zg.
          bindE (if n < 0 then mp_rec zg zg dg else Inr zg) (\<lambda>zr.
          bindE (mp_shorten z digs zr dg) mp_check_exp)))))"

section \<open>Comparison\<close>

text \<open>By subtraction, which can itself fail.\<close>

definition mp_compare :: "(a68_mp \<Rightarrow> bool) \<Rightarrow> (a68_mp \<Rightarrow> a68_mp \<Rightarrow> bool) \<Rightarrow> a68_mp \<Rightarrow> a68_mp \<Rightarrow> nat \<Rightarrow> bool res" where
  "mp_compare test infs x y digs =
     (if mp_is_nan x \<or> mp_is_nan y then Inr False
      else if mp_is_finite x \<and> mp_is_finite y then bindE (mp_sub (mp_nil digs) x y digs) (\<lambda>v. Inr (test v))
      else Inr (infs x y))"

definition mp_eq :: "a68_mp \<Rightarrow> a68_mp \<Rightarrow> nat \<Rightarrow> bool res" where
  "mp_eq = mp_compare mp_is_zero (\<lambda>x y. mp_is_pinf x \<and> mp_is_pinf y \<or> mp_is_minf x \<and> mp_is_minf y)"

definition mp_lt :: "a68_mp \<Rightarrow> a68_mp \<Rightarrow> nat \<Rightarrow> bool res" where
  "mp_lt = mp_compare mp_is_minus (\<lambda>x y. mp_is_minf x \<and> mp_is_pinf y \<or> mp_is_finite x \<and> mp_is_pinf y
     \<or> mp_is_minf x \<and> mp_is_finite y)"

definition mp_gt :: "a68_mp \<Rightarrow> a68_mp \<Rightarrow> nat \<Rightarrow> bool res" where
  "mp_gt = mp_compare mp_is_plus (\<lambda>x y. mp_is_pinf x \<and> mp_is_minf y \<or> mp_is_pinf x \<and> mp_is_finite y
     \<or> mp_is_finite x \<and> mp_is_minf y)"

definition mp_ne :: "a68_mp \<Rightarrow> a68_mp \<Rightarrow> nat \<Rightarrow> bool res" where
  "mp_ne x y digs = bindE (mp_eq x y digs) (\<lambda>b. Inr (\<not> b))"
definition mp_le :: "a68_mp \<Rightarrow> a68_mp \<Rightarrow> nat \<Rightarrow> bool res" where
  "mp_le x y digs = bindE (mp_gt x y digs) (\<lambda>b. Inr (\<not> b))"
definition mp_ge :: "a68_mp \<Rightarrow> a68_mp \<Rightarrow> nat \<Rightarrow> bool res" where
  "mp_ge x y digs = bindE (mp_lt x y digs) (\<lambda>b. Inr (\<not> b))"

end
