(* ===== verification/MpConv.thy ===== *)
theory MpConv
  imports MpArith Digits Doubles
begin

text \<open>
  \<open>csrc/mp.c\<close>, the conversions: integers, decimal strings, powers of ten and doubles to and from
  multi-precision numbers. The arithmetic of \<open>double\<close> proper is the parameter \<open>f\<close>.
\<close>

section \<open>Integers\<close>

text \<open>The digits of a number in radix 10^7, the most significant first.\<close>

fun radix_len :: "nat \<Rightarrow> nat" where
  "radix_len m = (if m div 10000000 = 0 then 0 else radix_len (m div 10000000) + 1)"

declare radix_len.simps [simp del]

definition mp_int_to_mp :: "a68_mp \<Rightarrow> int \<Rightarrow> nat \<Rightarrow> a68_mp res" where
  "mp_int_to_mp z k digs =
     (let a = nat \<bar>k\<bar>; n = radix_len a in
      if n + 1 > mp_digs z then Inl (Die ''value out of bounds'')
      else bindE (mp_set z 0 (int n) digs) (\<lambda>z0.
        let z1 = put_digits z0 (n + 1) (\<lambda>j. int (a div 10000000 ^ (n + 1 - j) mod 10000000))
        in mp_check_exp (if k < 0 then mp_negate1 z1 else z1)))"

definition mp_of_i64 :: "int \<Rightarrow> nat \<Rightarrow> a68_mp res" where
  "mp_of_i64 k digs = (case mp_int_to_mp (mp_nil digs) k digs of
     Inl (Die msg) \<Rightarrow> Inl (Fatal msg) | r \<Rightarrow> r)"

text \<open>The chunks of seven digits of a string of digits, the first one shorter.\<close>

fun chunks7 :: "nat \<Rightarrow> string \<Rightarrow> string list" where
  "chunks7 0 s = []"
| "chunks7 (Suc k) s = take 7 s # chunks7 k (drop 7 s)"

definition mp_of_dec_string :: "string \<Rightarrow> nat \<Rightarrow> a68_mp res" where
  "mp_of_dec_string s digs =
     (let signed = (s \<noteq> [] \<and> (hd s = CHR ''+'' \<or> hd s = CHR ''-''));
          neg = (s \<noteq> [] \<and> hd s = CHR ''-'');
          t = (if signed then tl s else s)
      in if \<not> list_all is_digit t then Inl (Die ''invalid integer denotation'')
         else (let ds = dropWhile (\<lambda>c. c = CHR ''0'') t; nd = (length ds + 6) div 7 in
           if nd > digs then Inl (Die ''value out of bounds'')
           else if nd = 0 then Inr (mp_nil digs)
           else (let hl = length ds - (nd - 1) * 7;
                     vs = map (int \<circ> digits_val) (take hl ds # chunks7 (nd - 1) (drop hl ds));
                     z = (put_digits (mp_nil digs) nd (\<lambda>j. vs ! (j - 1)))\<lparr>mp_ex := int nd - 1\<rparr>
                 in mp_check_exp (if neg then mp_negate1 z else z))))"

text \<open>The value as an integer, when it fits in 64 bits; the sum is an \<open>uint64_t\<close>.\<close>

fun trunc_loop :: "a68_mp \<Rightarrow> nat \<Rightarrow> nat list \<Rightarrow> nat option" where
  "trunc_loop z s [] = Some s"
| "trunc_loop z s (j # js) = (let dj = nat (adig z j) in
     if s > (2 ^ 64 - 1 - dj) div 10000000 then None else trunc_loop z (s * 10000000 + dj) js)"

definition mp_to_i64_trunc :: "a68_mp \<Rightarrow> int option" where
  "mp_to_i64_trunc z = (if mp_ex z < 0 then Some 0
     else case trunc_loop z 0 [1..<nat (mp_ex z) + 2] of None \<Rightarrow> None
     | Some s \<Rightarrow> if mp_dig z 1 < 0 then (if s > 2 ^ 63 then None else Some (- int s))
                 else if s > 2 ^ 63 - 1 then None else Some (int s))"

definition mp_is_int_of_digits :: "a68_mp \<Rightarrow> nat \<Rightarrow> bool" where
  "mp_is_int_of_digits z digs \<longleftrightarrow> 0 \<le> mp_ex z \<and> mp_ex z < int digs"

definition wrap32 :: "int \<Rightarrow> int" where
  "wrap32 v = (let m0 = c_rem v 4294967296; m = (if m0 < 0 then m0 + 4294967296 else m0)
     in if m \<ge> 2147483648 then m - 4294967296 else m)"

fun int32_loop :: "a68_mp \<Rightarrow> int \<Rightarrow> int \<Rightarrow> nat list \<Rightarrow> int res" where
  "int32_loop z sm weight [] = Inr sm"
| "int32_loop z sm weight (j # js) = (let dj = adig z j in
     if weight = 0 then Inl (Die ''division by zero'')
     else if dj > c_quot 2147483647 weight then Inl (Die ''INT value out of bounds'')
     else (let trm = wrap32 (dj * weight) in
       if sm > 2147483647 - trm then Inl (Die ''INT value out of bounds'')
       else int32_loop z (sm + trm) (wrap32 (weight * MP_R)) js))"

definition mp_to_int32 :: "a68_mp \<Rightarrow> nat \<Rightarrow> int res" where
  "mp_to_int32 z digs = (if mp_ex z \<ge> int digs then Inl (Die ''value out of bounds'')
     else bindE (int32_loop z 0 1 (rev [1..<nat (max 0 (mp_ex z)) + 2])) (\<lambda>sm.
       Inr (if mp_dig z 1 < 0 then - sm else sm)))"

section \<open>Decimal exponents\<close>

definition mp_ten_up :: "a68_mp \<Rightarrow> int \<Rightarrow> nat \<Rightarrow> a68_mp res" where
  "mp_ten_up z n digs =
     bindE (if n \<ge> 0 then mp_set z (10 ^ nat (c_rem n 7)) (c_quot n 7) digs
            else mp_set z (10 ^ nat (c_rem (7 + c_rem n 7) 7)) (c_quot (n + 1) 7 - 1) digs) mp_check_exp"

text \<open>Shift the digits down by one decimal place.\<close>

fun shift_dec :: "int \<Rightarrow> int list \<Rightarrow> int list" where
  "shift_dec carry [] = []"
| "shift_dec carry (v # vs) = (c_quot v 10 + carry * 1000000) # shift_dec (c_rem v 10) vs"

definition align_mp :: "a68_mp \<Rightarrow> int \<Rightarrow> nat \<Rightarrow> (a68_mp \<times> int) res" where
  "align_mp z expo digs =
     (if \<not> mp_is_finite z then Inr (z, expo)
      else (let (shift, e) = (if expo \<ge> 0 then (7 - c_rem expo 7 - 1, c_quot expo 7)
                              else (c_rem (- expo - 1) 7, c_quot (expo + 1) 7 - 1))
            in bindE (ensure z digs) (\<lambda>_.
               Inr (z\<lparr>mp_d := (shift_dec 0 ^^ nat shift) (take digs (mp_d z)) @ drop digs (mp_d z)\<rparr>, e))))"

text \<open>The scan of a number: the position in the string, the digit being built, what it has so far.\<close>

record scan =
  sc_i :: int
  sc_dig :: nat
  sc_sum :: int
  sc_dot :: int
  sc_one :: int
  sc_pow :: int
  sc_w :: int
  sc_out :: "int list"

definition scan_digit :: "int \<Rightarrow> scan \<Rightarrow> scan" where
  "scan_digit v s =
     (let one = (if sc_one s < 0 \<and> v > 0 then sc_pow s else sc_one s);
          sm = sc_sum s + sc_w s * v;
          w = (if one \<ge> 0 then sc_w s div 10 else sc_w s);
          s1 = s\<lparr>sc_one := one, sc_pow := sc_pow s + 1, sc_i := sc_i s + 1\<rparr>
      in if w < 1 then s1\<lparr>sc_out := sc_out s @ [sm], sc_dig := sc_dig s + 1, sc_sum := 0, sc_w := 1000000\<rparr>
         else s1\<lparr>sc_sum := sm, sc_w := w\<rparr>)"

fun scan_loop :: "nat \<Rightarrow> string \<Rightarrow> scan \<Rightarrow> string \<times> scan" where
  "scan_loop digs [] s = ([], s)"
| "scan_loop digs (c # cs) s =
     (if sc_dig s \<le> digs \<and> (is_digit c \<or> c = CHR ''.'')
      then (if c = CHR ''.'' then scan_loop digs cs (s\<lparr>sc_dot := sc_i s, sc_i := sc_i s + 1\<rparr>)
            else scan_loop digs cs (scan_digit (int (digit_val c)) s))
      else (c # cs, s))"

definition scan0 :: scan where
  "scan0 = \<lparr>sc_i = 0, sc_dig = 1, sc_sum = 0, sc_dot = -1, sc_one = -1, sc_pow = 0, sc_w = 1000000, sc_out = []\<rparr>"

text \<open>The exponent as \<open>strtol\<close> reads it, and whether everything was used.\<close>

definition scan_expo :: "string \<Rightarrow> int \<times> bool" where
  "scan_expo rest = (case rest of
     c # p \<Rightarrow>
       if c = CHR ''e'' \<or> c = CHR ''E''
       then (let q0 = dropWhile (\<lambda>c. c = CHR '' '') p;
                 neg = (q0 \<noteq> [] \<and> hd q0 = CHR ''-'');
                 q = (if q0 \<noteq> [] \<and> (hd q0 = CHR ''-'' \<or> hd q0 = CHR ''+'') then tl q0 else q0);
                 ds = takeWhile is_digit q; v = int (digits_val ds)
             in (if neg then - v else v, if ds = [] then p = [] else dropWhile is_digit q = []))
       else (0, c = CHR 0x00)
   | [] \<Rightarrow> (0, True))"

definition is_blank :: "char \<Rightarrow> bool" where
  "is_blank c \<longleftrightarrow> c = CHR '' '' \<or> c = CHR 0x09 \<or> c = CHR 0x0A"

definition mp_string_to_mp :: "a68_mp \<Rightarrow> string \<Rightarrow> nat \<Rightarrow> (a68_mp \<times> bool) res" where
  "mp_string_to_mp z s digs = bindE (mp_set_zero z digs) (\<lambda>z0.
     let t0 = dropWhile is_blank s;
         neg = (t0 \<noteq> [] \<and> hd t0 = CHR ''-'');
         t1 = (if t0 \<noteq> [] \<and> (hd t0 = CHR ''+'' \<or> hd t0 = CHR ''-'') then tl t0 else t0);
         (rest, sc) = scan_loop digs (dropWhile (\<lambda>c. c = CHR ''0'') t1) scan0;
         out = (if sc_dig sc \<le> digs then sc_out sc @ [sc_sum sc] else sc_out sc);
         z1 = put_digits z0 digs (\<lambda>k. if k \<le> length out then out ! (k - 1) else 0);
         (expo0, ok) = scan_expo rest;
         expo = (if sc_dot sc \<ge> 0 then (if sc_one sc > sc_dot sc then expo0 - (sc_one sc - sc_dot sc + 1)
                                        else expo0 + sc_dot sc - 1)
                 else expo0 + sc_pow sc - 1)
     in bindE (align_mp z1 expo digs) (\<lambda>(z2, e).
        let z3 = z2\<lparr>mp_ex := (if mp_dig z2 1 = 0 then 0 else e)\<rparr>
        in bindE (mp_check_exp (if neg then mp_negate1 z3 else z3)) (\<lambda>z4. Inr (z4, ok))))"

section \<open>Doubles\<close>

definition mp_ten_table :: "u64 list" where
  "mp_ten_table = [0x4024000000000000, 0x4059000000000000, 0x40C3880000000000, 0x4197D78400000000,
     0x4341C37937E08000, 0x4693B8B5B5056E17, 0x4D384F03E93FF9F5, 0x5A827748F9301D32, 0x75154FDD7F73BF3C]"

fun mp_ten_loop :: "'a dbl_ops_scheme \<Rightarrow> nat \<Rightarrow> nat \<Rightarrow> u64 \<Rightarrow> u64" where
  "mp_ten_loop f e i r = (if e = 0 then r
     else mp_ten_loop f (e div 2) (i + 1) (if odd e then f_mul f r (mp_ten_table ! i) else r))"

declare mp_ten_loop.simps [simp del]

text \<open>The exponent is below 512, so the table suffices.\<close>

definition mp_ten_up_real :: "'a dbl_ops_scheme \<Rightarrow> int \<Rightarrow> u64 res" where
  "mp_ten_up_real f expo = (let e = nat \<bar>expo\<bar> in
     if e > 511 then Inl (Die ''invalid REAL value'')
     else (let r = mp_ten_loop f e 0 dbl_one in Inr (if expo < 0 then f_div f dbl_one r else r)))"

text \<open>The cast of a double that is not negative to an integer.\<close>

definition dbl_cast :: "'a dbl_ops_scheme \<Rightarrow> u64 \<Rightarrow> int" where
  "dbl_cast f x = (if f_less f x dbl_zero then - uint (f_to_u64 f (dbl_neg x)) else uint (f_to_u64 f x))"

fun real_digits :: "'a dbl_ops_scheme \<Rightarrow> nat \<Rightarrow> nat \<Rightarrow> nat \<Rightarrow> u64 \<Rightarrow> int list" where
  "real_digits f digs j 0 a = []"
| "real_digits f digs j (Suc r) a =
     (if j \<le> digs then (let t = f_mul f a dbl_e7; dg = f_floor f t in
        dbl_cast f dg # real_digits f digs (j + 1) r (f_sub f t dg)) else [])"

text \<open>Three digits at most: \<open>k\<close> is 0, 7 and 14.\<close>

definition mp_real_to_mp :: "'a fmt_ops_scheme \<Rightarrow> a68_mp \<Rightarrow> u64 \<Rightarrow> nat \<Rightarrow> a68_mp res" where
  "mp_real_to_mp f z x digs =
     (if dbl_isnan x then Inr (mp_set_nan z)
      else if dbl_isinf x then Inr (if f_less f dbl_zero x then mp_set_pinf z else mp_set_minf z)
      else bindE (mp_set_zero z digs) (\<lambda>z0.
        if f_eq f x dbl_zero then Inr z0
        else (let a0 = dbl_abs x in
          if f_less f a0 dbl_e7 \<and> f_eq f (f_floor f a0) a0 then mp_int_to_mp z0 (dbl_cast f x) digs
          else (let expo0 = dbl_cast f (f_log10 f a0) in
            bindE (mp_ten_up_real f expo0) (\<lambda>t.
            let a1 = f_div f a0 t; big = dbl_le f dbl_one a1;
                a2 = (if big then f_div f a1 dbl_ten else a1); expo = (if big then expo0 else expo0 - 1);
                ds = real_digits f digs 1 3 a2;
                z1 = put_digits z0 digs (\<lambda>k. if k \<le> length ds then ds ! (k - 1) else 0)
            in bindE (align_mp z1 expo digs) (\<lambda>(z2, e).
               let z3 = z2\<lparr>mp_ex := e\<rparr>
               in mp_check_exp (if f_less f dbl_zero x then z3 else mp_negate1 z3)))))))"

text \<open>Compensated summation.\<close>

fun neumaier_loop :: "'a dbl_ops_scheme \<Rightarrow> u64 list \<Rightarrow> u64 \<Rightarrow> u64 \<Rightarrow> u64 \<times> u64" where
  "neumaier_loop f [] sm lost = (sm, lost)"
| "neumaier_loop f (u # us) sm lost =
     (let v = f_add f sm u;
          lost' = (if dbl_le f (dbl_abs u) (dbl_abs sm) then f_add f lost (f_add f (f_sub f sm v) u)
                   else f_add f lost (f_add f (f_sub f u v) sm))
      in neumaier_loop f us v lost')"

definition neumaier_sum :: "'a dbl_ops_scheme \<Rightarrow> u64 list \<Rightarrow> u64" where
  "neumaier_sum f terms = (if terms = [] then dbl_zero
     else (let ascend = f_less f (dbl_abs (hd terms)) (dbl_abs (last terms));
               (sm, lost) = neumaier_loop f (if ascend then terms else rev terms) dbl_zero dbl_zero
           in f_add f sm lost))"

fun weigh :: "'a dbl_ops_scheme \<Rightarrow> int list \<Rightarrow> u64 \<Rightarrow> u64 list" where
  "weigh f [] w = []"
| "weigh f (d # ds) w = f_mul f (f_of_i64 f (word_of_int d)) w # weigh f ds (f_div f w dbl_e7)"

definition dbl_nan :: u64 where "dbl_nan = 0xFFF8000000000000"

text \<open>The sign of the NaN that \<open>0.0 / 0.0\<close> gives is up to the compiler.\<close>

definition mp_to_double :: "'a dbl_ops_scheme \<Rightarrow> a68_mp \<Rightarrow> nat \<Rightarrow> u64 res" where
  "mp_to_double f z digs =
     (if mp_is_nan z then Inr dbl_nan
      else if mp_is_pinf z then Inr 0x7FF0000000000000
      else if mp_is_minf z then Inr 0xFFF0000000000000
      else if mp_ex z * 7 \<le> -307 then Inr dbl_zero
      else bindE (mp_ten_up_real f (mp_ex z * 7)) (\<lambda>t.
        let sm = f_mul f (neumaier_sum f (weigh f (map (adig z) [1..<Suc (min digs 36)]) dbl_one)) t
        in if dbl_isnan sm then Inl (Die ''REAL value is not a number'')
           else if dbl_isinf sm then Inl (Die ''infinite REAL value'')
           else Inr (if mp_dig z 1 \<ge> 0 then sm else dbl_neg sm)))"

end
