(* ===== verification/MpDigits.thy ===== *)
theory MpDigits
  imports MpConv
begin

text \<open>
  The scratch arrays of the multi-precision kernel. \<open>wval\<close> is the integer such an array stands for, with
  the last entry as its unit. Carries keep \<open>wval\<close> and leave
  digits; as long as the entries stay below 2^53 the rounding of doubles does nothing, and \<open>mul_digits\<close> is
  shown to stay below it.
\<close>

section \<open>Doubles hold integers exactly up to 2^53\<close>

lemma bit_len_le: "n < 2 ^ k \<Longrightarrow> bit_len n \<le> k"
proof (induction n arbitrary: k rule: bit_len.induct)
  case (1 n)
  show ?case
  proof (cases "n = 0")
    case False
    with 1(2) obtain k' where k: "k = Suc k'" by (cases k) auto
    with 1(2) have "n div 2 < 2 ^ k'" by (simp add: div_less_iff_less_mult mult.commute)
    with 1(1) False k show ?thesis by (subst bit_len.simps) simp
  qed (simp add: bit_len.simps)
qed

lemma rnd53_exact:
  assumes "\<bar>x\<bar> < 2 ^ 53"
  shows "rnd53 x = x"
proof -
  have "nat \<bar>x\<bar> < 2 ^ 53" using assms by (simp add: nat_less_iff)
  then have "bit_len (nat \<bar>x\<bar>) \<le> 53" by (rule bit_len_le)
  then show ?thesis by (simp add: rnd53_def div_even_def sgn_if)
qed

section \<open>The value of a scratch array\<close>

definition wval :: "int list \<Rightarrow> int" where
  "wval w = (\<Sum>k<length w. w ! k * MP_R ^ (length w - 1 - k))"

lemma wval_update:
  assumes "k < length w"
  shows "wval (w[k := v]) = wval w + (v - w ! k) * MP_R ^ (length w - 1 - k)"
proof -
  let ?f = "\<lambda>j. w ! j * MP_R ^ (length w - 1 - j)"
  have "wval (w[k := v]) = (\<Sum>j<length w. ?f j + (if j = k then (v - w ! k) * MP_R ^ (length w - 1 - k) else 0))"
    unfolding wval_def length_list_update by (rule sum.cong) (auto simp: nth_list_update algebra_simps assms)
  also have "\<dots> = wval w + (v - w ! k) * MP_R ^ (length w - 1 - k)"
    using assms by (simp add: sum.distrib wval_def)
  finally show ?thesis .
qed

lemma MP_R_pos [simp]: "0 < MP_R" "0 \<le> MP_R" "1 < MP_R" "MP_R \<noteq> 0"
  by (simp_all add: MP_R_def)

text \<open>A carry is a division with remainder.\<close>

lemma carry_at_eq:
  assumes "1 \<le> j" "j < length a"
  shows "carry_at a j = a[j := a ! j mod MP_R, j - 1 := a ! (j - 1) + a ! j div MP_R]"
proof -
  let ?v = "a ! j"
  consider "?v \<ge> MP_R" | "?v < 0" | "0 \<le> ?v" "?v < MP_R" by linarith
  then show ?thesis
  proof cases
    case 1
    then show ?thesis by (simp add: carry_at_def Let_def minus_div_mult_eq_mod)
  next
    case 2
    have "- ?v - 1 = MP_R * (- 1 - ?v div MP_R) + (MP_R - 1 - ?v mod MP_R)"
      using mult_div_mod_eq [of MP_R ?v] by (simp add: algebra_simps)
    moreover have "0 \<le> MP_R - 1 - ?v mod MP_R" "MP_R - 1 - ?v mod MP_R < MP_R"
      using pos_mod_bound [OF MP_R_pos(1), of ?v] pos_mod_sign [OF MP_R_pos(1), of ?v] by linarith+
    ultimately have c: "1 + (- ?v - 1) div MP_R = - (?v div MP_R)" using int_div_pos_eq by fastforce
    show ?thesis using 2 unfolding carry_at_def Let_def c by (simp add: MP_R_def minus_div_mult_eq_mod)
  next
    case 3
    then show ?thesis by (simp add: carry_at_def Let_def list_update_same_conv)
  qed
qed

lemma length_carry_at [simp]: "length (carry_at a j) = length a"
  by (simp add: carry_at_def Let_def)

lemma norm_digits_step:
  assumes "1 \<le> k" "k \<le> n"
  shows "norm_digits w k n = norm_digits (carry_at w n) k (n - 1)"
proof -
  have "[k..<Suc n] = [k..<n] @ [n]" using assms by simp
  then show ?thesis using assms by (simp add: norm_digits_def max_def)
qed

lemma norm_digits_done [simp]: "n < k \<Longrightarrow> norm_digits w k n = w"
  by (simp add: norm_digits_def)

lemma length_norm_digits [simp]: "length (norm_digits w k n) = length w"
proof -
  have "length (fold (\<lambda>j a. carry_at a j) js w) = length w" for js
    by (induction js arbitrary: w) simp_all
  then show ?thesis by (simp add: norm_digits_def)
qed

lemma wval_carry_at:
  assumes "1 \<le> j" "j < length a"
  shows "wval (carry_at a j) = wval a"
proof -
  have e: "MP_R ^ (length a - j) = MP_R * MP_R ^ (length a - 1 - j)"
    using assms by (metis Suc_diff_Suc diff_Suc_eq_diff_pred power_Suc)
  have "a ! j mod MP_R - a ! j = - (a ! j div MP_R * MP_R)"
    by (simp add: minus_div_mult_eq_mod [symmetric])
  then have "(a ! j mod MP_R - a ! j) * MP_R ^ (length a - 1 - j) + a ! j div MP_R * MP_R ^ (length a - j) = 0"
    unfolding e by simp
  then show ?thesis using assms by (simp add: carry_at_eq wval_update)
qed

lemma wval_norm_digits:
  assumes "1 \<le> k" "n < length w"
  shows "wval (norm_digits w k n) = wval w"
  using assms
proof (induction n arbitrary: w)
  case (Suc n)
  then show ?case by (cases "k \<le> Suc n") (simp_all add: norm_digits_step wval_carry_at)
qed simp

lemma carry_at_nth:
  assumes "1 \<le> j" "j < length a" "i < length a"
  shows "carry_at a j ! i = (if i = j then a ! j mod MP_R else if i = j - 1 then a ! i + a ! j div MP_R else a ! i)"
  using assms by (auto simp: carry_at_eq nth_list_update)

lemma norm_digits_outside:
  assumes "1 \<le> k" "n < length w" "i < length w" "n < i \<or> i < k - 1"
  shows "norm_digits w k n ! i = w ! i"
  using assms
proof (induction n arbitrary: w)
  case (Suc n)
  then show ?case by (cases "k \<le> Suc n") (auto simp: norm_digits_step carry_at_nth)
qed simp

lemma norm_digits_range:
  assumes "1 \<le> k" "n < length w" "k \<le> i" "i \<le> n"
  shows "0 \<le> norm_digits w k n ! i \<and> norm_digits w k n ! i < MP_R"
  using assms
proof (induction n arbitrary: w)
  case (Suc n)
  show ?case
  proof (cases "i = Suc n")
    case True
    then show ?thesis using Suc.prems by (simp add: norm_digits_step norm_digits_outside carry_at_nth)
  next
    case False
    then show ?thesis using Suc.prems Suc.IH [of "carry_at w (Suc n)"] by (simp add: norm_digits_step)
  qed
qed simp

lemma norm_digits_nonneg:
  assumes "1 \<le> k" "n < length w" "\<forall>i<length w. 0 \<le> w ! i"
  shows "\<forall>i<length w. 0 \<le> norm_digits w k n ! i"
  using assms
proof (induction n arbitrary: w)
  case (Suc n)
  then have "\<forall>i<length w. 0 \<le> carry_at w (Suc n) ! i" by (auto simp: carry_at_nth pos_imp_zdiv_nonneg_iff)
  then show ?case using Suc by (cases "k \<le> Suc n") (simp_all add: norm_digits_step)
qed simp

text \<open>The carry out of entries of at most \<open>M + K\<close> is at most \<open>K\<close>.\<close>

lemma norm_digits_carry:
  assumes "1 \<le> k" "k \<le> Suc n" "n < length w" "M + K < (K + 1) * MP_R" "0 \<le> K"
    "\<And>i. k - 1 \<le> i \<Longrightarrow> i < n \<Longrightarrow> 0 \<le> w ! i \<and> w ! i \<le> M" "0 \<le> w ! n \<and> w ! n \<le> M + K"
  shows "0 \<le> norm_digits w k n ! (k - 1) \<and> norm_digits w k n ! (k - 1) \<le> M + K"
  using assms
proof (induction n arbitrary: w)
  case (Suc n)
  show ?case
  proof (cases "k \<le> Suc n")
    case True
    have "w ! Suc n div MP_R * MP_R \<le> w ! Suc n"
      using div_mult_mod_eq [of "w ! Suc n" MP_R] pos_mod_sign [OF MP_R_pos(1), of "w ! Suc n"] by linarith
    then have "w ! Suc n div MP_R * MP_R < (K + 1) * MP_R" using Suc.prems(4,7) by linarith
    then have "w ! Suc n div MP_R < K + 1" by (simp add: mult_less_cancel_right)
    moreover have "0 \<le> w ! Suc n div MP_R" using Suc.prems(7) by (simp add: pos_imp_zdiv_nonneg_iff)
    moreover have "0 \<le> w ! n" "w ! n \<le> M" using True Suc.prems(1) Suc.prems(6) [of n] by simp_all
    ultimately have "0 \<le> w ! n + w ! Suc n div MP_R" "w ! n + w ! Suc n div MP_R \<le> M + K" by simp_all
    then have "0 \<le> norm_digits (carry_at w (Suc n)) k n ! (k - 1) \<and> norm_digits (carry_at w (Suc n)) k n ! (k - 1) \<le> M + K"
      using True Suc.prems by (intro Suc.IH) (auto simp: carry_at_nth)
    then show ?thesis using True Suc.prems(1) by (simp add: norm_digits_step)
  next
    case False
    then have "k = Suc (Suc n)" using Suc.prems(2) by simp
    then show ?thesis using Suc.prems by simp
  qed
qed simp

section \<open>Multiplication\<close>

lemma mp_mul_row_Suc:
  "mp_mul_row x yi i (Suc j) w =
     mp_mul_row x yi i j (w[i + Suc j := rnd53 (w ! (i + Suc j) + rnd53 (yi * adig x (Suc j)))])"
  by (simp add: mp_mul_row_def)

lemma mp_mul_row_0 [simp]: "mp_mul_row x yi i 0 w = w"
  by (simp add: mp_mul_row_def)

lemma digit_product:
  assumes "0 \<le> a" "a < MP_R" "0 \<le> b" "b < MP_R"
  shows "0 \<le> a * b" "a * b \<le> (MP_R - 1) ^ 2"
  using assms mult_mono [of a "MP_R - 1" b "MP_R - 1"] by (simp_all add: power2_eq_square)

definition digits_ok :: "a68_mp \<Rightarrow> nat \<Rightarrow> bool" where
  "digits_ok x n \<longleftrightarrow> (\<forall>k\<in>{1..n}. 0 \<le> adig x k \<and> adig x k < MP_R)"

text \<open>A row adds the multiple of the digits, exactly, and the array keeps within the bounds.\<close>

lemma mp_mul_row_val:
  assumes "0 \<le> yi" "yi < MP_R" "digits_ok x j" "i + j < length w" "M + (MP_R - 1) ^ 2 < 2 ^ 53"
    "\<And>k. i < k \<Longrightarrow> k \<le> i + j \<Longrightarrow> 0 \<le> w ! k \<and> w ! k \<le> M"
  shows "length (mp_mul_row x yi i j w) = length w
    \<and> wval (mp_mul_row x yi i j w) = wval w + (\<Sum>jj=1..j. yi * adig x jj * MP_R ^ (length w - 1 - (i + jj)))
    \<and> (\<forall>k<length w. mp_mul_row x yi i j w ! k = (if i < k \<and> k \<le> i + j then w ! k + yi * adig x (k - i) else w ! k))"
  using assms
proof (induction j arbitrary: w)
  case (Suc j)
  let ?p = "yi * adig x (Suc j)"
  have p: "0 \<le> ?p" "?p \<le> (MP_R - 1) ^ 2"
    using Suc.prems(1,2,3) digit_product [of yi "adig x (Suc j)"] by (auto simp: digits_ok_def)
  have "0 \<le> w ! (i + Suc j)" "w ! (i + Suc j) \<le> M" using Suc.prems(6) [of "i + Suc j"] by simp_all
  then have "rnd53 (w ! (i + Suc j) + rnd53 ?p) = w ! (i + Suc j) + ?p"
    using p Suc.prems(5) by (simp add: rnd53_exact)
  then have st: "mp_mul_row x yi i (Suc j) w = mp_mul_row x yi i j (w[i + Suc j := w ! (i + Suc j) + ?p])"
    by (simp add: mp_mul_row_Suc)
  have ih: "length (mp_mul_row x yi i j (w[i + Suc j := w ! (i + Suc j) + ?p])) = length w
    \<and> wval (mp_mul_row x yi i j (w[i + Suc j := w ! (i + Suc j) + ?p]))
        = wval (w[i + Suc j := w ! (i + Suc j) + ?p]) + (\<Sum>jj=1..j. yi * adig x jj * MP_R ^ (length w - 1 - (i + jj)))
    \<and> (\<forall>k<length w. mp_mul_row x yi i j (w[i + Suc j := w ! (i + Suc j) + ?p]) ! k
        = (if i < k \<and> k \<le> i + j then w[i + Suc j := w ! (i + Suc j) + ?p] ! k + yi * adig x (k - i)
           else w[i + Suc j := w ! (i + Suc j) + ?p] ! k))"
    using Suc.IH [of "w[i + Suc j := w ! (i + Suc j) + ?p]"] Suc.prems by (auto simp: digits_ok_def)
  have v: "wval (w[i + Suc j := w ! (i + Suc j) + ?p]) = wval w + ?p * MP_R ^ (length w - 1 - (i + Suc j))"
    using Suc.prems(4) by (simp add: wval_update)
  show ?case unfolding st using ih v Suc.prems(4) by (auto simp: nth_list_update le_Suc_eq)
qed simp

text \<open>The product without the columns behind the guard digit, in units of that column.\<close>

definition columns :: "a68_mp \<Rightarrow> a68_mp \<Rightarrow> nat \<Rightarrow> nat \<Rightarrow> int" where
  "columns x y digs m = (\<Sum>i=Suc m..digs. \<Sum>j=1..min digs (digs + 2 - i). adig y i * adig x j * MP_R ^ (digs + 2 - (i + j)))"

text \<open>The state of the loop after the rows \<open>digs ... m + 1\<close>.\<close>

definition mul_inv :: "a68_mp \<Rightarrow> a68_mp \<Rightarrow> nat \<Rightarrow> nat \<Rightarrow> int list \<Rightarrow> bool" where
  "mul_inv x y digs m w \<longleftrightarrow> length w = digs + 3 \<and> w ! 0 = 0 \<and> wval w = columns x y digs m
     \<and> (\<forall>k<digs + 3. 0 \<le> w ! k \<and> w ! k \<le> int (digs - m) * MP_R ^ 2)"

lemma mul_step_norm:
  assumes "mul_inv x y digs (Suc m) w" "digs \<le> 90" "m < digs" "(digs - m) mod MUL_OFLOW = 0"
  shows "length (norm_digits w 2 (digs + 2)) = digs + 3 \<and> wval (norm_digits w 2 (digs + 2)) = wval w
    \<and> norm_digits w 2 (digs + 2) ! 0 = 0
    \<and> (\<forall>k<digs + 3. 0 \<le> norm_digits w 2 (digs + 2) ! k
         \<and> norm_digits w 2 (digs + 2) ! k \<le> (if k = 1 then int (digs - m) else int (digs - Suc m)) * MP_R ^ 2)"
proof -
  have "44 dvd digs - m" using assms(4) by (simp add: MUL_OFLOW_def mod_eq_0_iff_dvd)
  then have n: "44 \<le> digs - m" using assms(3) by (simp add: dvd_imp_le)
  then have n1: "1 \<le> digs - Suc m" by simp
  note [simp] = assms(1) [unfolded mul_inv_def]
  have w: "length w = digs + 3" "\<forall>k<digs + 3. 0 \<le> w ! k \<and> w ! k \<le> int (digs - Suc m) * MP_R ^ 2" by simp_all
  have "w ! (digs + 2) \<le> int (digs - Suc m) * MP_R ^ 2" using w(2) by simp
  then have wl: "w ! (digs + 2) \<le> int (digs - Suc m) * MP_R ^ 2 + MP_R ^ 2" by (rule add_increasing2 [rotated]) simp
  have one: "0 \<le> norm_digits w 2 (digs + 2) ! (2 - 1) \<and> norm_digits w 2 (digs + 2) ! (2 - 1) \<le> int (digs - Suc m) * MP_R ^ 2 + MP_R ^ 2"
  proof (rule norm_digits_carry)
    have "int (digs - Suc m) + 1 \<le> 90" using assms(2) by simp
    then have "(int (digs - Suc m) + 1) * MP_R ^ 2 \<le> 90 * MP_R ^ 2" by (rule mult_right_mono) simp
    then show "int (digs - Suc m) * MP_R ^ 2 + MP_R ^ 2 < (MP_R ^ 2 + 1) * MP_R"
      by (simp add: algebra_simps MP_R_def)
  qed (use w wl in auto)
  have r: "0 \<le> norm_digits w 2 (digs + 2) ! k \<and> norm_digits w 2 (digs + 2) ! k \<le> int (digs - Suc m) * MP_R ^ 2"
    if "2 \<le> k" "k < digs + 3" for k
  proof -
    have "MP_R \<le> 1 * MP_R ^ 2" by (simp add: MP_R_def)
    also have "\<dots> \<le> int (digs - Suc m) * MP_R ^ 2" using n1 by (intro mult_right_mono) simp_all
    finally show ?thesis using norm_digits_range [of 2 "digs + 2" w k] that w(1) by simp
  qed
  have z: "norm_digits w 2 (digs + 2) ! 0 = 0" using w(1) by (simp add: norm_digits_outside)
  have e: "int (digs - m) * MP_R ^ 2 = int (digs - Suc m) * MP_R ^ 2 + MP_R ^ 2"
    using assms(3) by (simp add: algebra_simps of_nat_diff)
  have "0 \<le> norm_digits w 2 (digs + 2) ! k
      \<and> norm_digits w 2 (digs + 2) ! k \<le> (if k = 1 then int (digs - m) else int (digs - Suc m)) * MP_R ^ 2"
    if "k < digs + 3" for k
  proof -
    consider "k = 0" | "k = 1" | "2 \<le> k" by linarith
    then show ?thesis using that one r [of k] z e by cases simp_all
  qed
  then show ?thesis using w(1) z by (simp add: wval_norm_digits)
qed

lemma mul_step_inv:
  assumes inv: "mul_inv x y digs (Suc m) w" and d: "digs \<le> 90" "m < digs" "digits_ok x digs" "digits_ok y digs"
  shows "mul_inv x y digs m (mul_step x y digs (Suc m) w)"
proof -
  let ?y = "adig y (Suc m)" and ?j = "min digs (digs + 2 - Suc m)"
  have cols: "columns x y digs m = columns x y digs (Suc m) + (\<Sum>j=1..?j. ?y * adig x j * MP_R ^ (digs + 2 - (Suc m + j)))"
    using d(2) by (simp add: columns_def sum.atLeast_Suc_atMost)
  have y: "0 \<le> ?y" "?y < MP_R" using d(2,4) by (auto simp: digits_ok_def)
  have n: "int (digs - m) = int (digs - Suc m) + 1" using d(2) by simp
  have le: "int (digs - Suc m) * MP_R ^ 2 \<le> int (digs - m) * MP_R ^ 2" by (intro mult_right_mono) simp_all
  note i = inv [unfolded mul_inv_def]
  define w1 where "w1 = (if (digs - Suc m + 1) mod MUL_OFLOW = 0 then norm_digits w 2 (2 + digs) else w)"
  have w1: "length w1 = digs + 3 \<and> wval w1 = wval w \<and> w1 ! 0 = 0
    \<and> (\<forall>k<digs + 3. 0 \<le> w1 ! k \<and> w1 ! k \<le> (if k = 1 then int (digs - m) else int (digs - Suc m)) * MP_R ^ 2)"
  proof (cases "(digs - m) mod MUL_OFLOW = 0")
    case True
    then show ?thesis using mul_step_norm [OF inv d(1,2)] d(2) by (simp add: w1_def Suc_diff_Suc add.commute)
  next
    case False
    then have "w1 = w" using d(2) by (simp add: w1_def Suc_diff_Suc)
    moreover have "0 \<le> w ! k \<and> w ! k \<le> int (digs - m) * MP_R ^ 2 \<and> w ! k \<le> int (digs - Suc m) * MP_R ^ 2" if "k < digs + 3" for k
      using i le that by (meson order_trans)
    ultimately show ?thesis using i by simp
  qed
  have b: "int (digs - Suc m) * MP_R ^ 2 + (MP_R - 1) ^ 2 < 2 ^ 53"
  proof -
    have "int (digs - Suc m) * MP_R ^ 2 \<le> 89 * MP_R ^ 2" using d(1) by (intro mult_right_mono) simp_all
    then show ?thesis by (simp add: MP_R_def)
  qed
  let ?w2 = "mp_mul_row x ?y (Suc m) ?j w1"
  have row: "length ?w2 = length w1
    \<and> wval ?w2 = wval w1 + (\<Sum>jj=1..?j. ?y * adig x jj * MP_R ^ (length w1 - 1 - (Suc m + jj)))
    \<and> (\<forall>k<length w1. ?w2 ! k = (if Suc m < k \<and> k \<le> Suc m + ?j then w1 ! k + ?y * adig x (k - Suc m) else w1 ! k))"
  proof (rule mp_mul_row_val [OF y _ _ b])
    show "0 \<le> w1 ! k \<and> w1 ! k \<le> int (digs - Suc m) * MP_R ^ 2" if "Suc m < k" "k \<le> Suc m + ?j" for k
    proof -
      have kd: "k < digs + 3" using that d(2) by (simp add: min_def split: if_splits)
      have "0 \<le> w1 ! k \<and> w1 ! k \<le> (if k = 1 then int (digs - m) else int (digs - Suc m)) * MP_R ^ 2"
        using w1 kd by blast
      then show ?thesis using that by simp
    qed
  qed (use w1 d in \<open>auto simp: digits_ok_def\<close>)
  have bound: "0 \<le> ?w2 ! k \<and> ?w2 ! k \<le> int (digs - m) * MP_R ^ 2" if k: "k < digs + 3" for k
  proof -
    have wk: "0 \<le> w1 ! k" "w1 ! k \<le> (if k = 1 then int (digs - m) else int (digs - Suc m)) * MP_R ^ 2" using w1 k by simp_all
    have sq: "(MP_R - 1) ^ 2 \<le> MP_R ^ 2" by (simp add: MP_R_def)
    show ?thesis
    proof (cases "Suc m < k \<and> k \<le> Suc m + ?j")
      case True
      then have "k - Suc m \<in> {1..digs}" by auto
      then have "0 \<le> adig x (k - Suc m)" "adig x (k - Suc m) < MP_R" using d(3) unfolding digits_ok_def by blast+
      then have "0 \<le> ?y * adig x (k - Suc m)" "?y * adig x (k - Suc m) \<le> (MP_R - 1) ^ 2"
        using y by (auto intro!: digit_product)
      moreover have "?w2 ! k = w1 ! k + ?y * adig x (k - Suc m)" using True row w1 k by simp
      ultimately show ?thesis using wk True sq n by (simp add: algebra_simps)
    next
      case False
      then have "?w2 ! k = w1 ! k" using row w1 k by auto
      moreover have "w1 ! k \<le> int (digs - m) * MP_R ^ 2"
      proof (cases "k = 1")
        case False
        then have "w1 ! k \<le> int (digs - Suc m) * MP_R ^ 2" using wk(2) by simp
        then show ?thesis using le by (rule order_trans)
      qed (use wk(2) in simp)
      ultimately show ?thesis using wk(1) by simp
    qed
  qed
  show ?thesis
  proof (cases "?y = 0")
    case True
    have "w ! k \<le> int (digs - m) * MP_R ^ 2" if "k < digs + 3" for k
      using i that le by (meson order_trans)
    then show ?thesis using True i cols by (simp add: mul_step_def mul_inv_def)
  next
    case False
    then have "mul_step x y digs (Suc m) w = ?w2" by (simp add: mul_step_def w1_def Let_def)
    then show ?thesis using row w1 i cols bound by (simp add: mul_inv_def)
  qed
qed

lemma mul_fold_inv:
  assumes "digs \<le> 90" "digits_ok x digs" "digits_ok y digs" "m \<le> digs"
  shows "mul_inv x y digs m (fold (mul_step x y digs) (rev [Suc m..<Suc digs]) (replicate (digs + 3) 0))"
  using assms(4)
proof (induction rule: inc_induct)
  case base
  then show ?case by (auto simp: mul_inv_def columns_def wval_def)
next
  case (step m)
  then have "[Suc m..<Suc digs] = Suc m # [Suc (Suc m)..<Suc digs]" by (simp add: upt_rec)
  then show ?case using step mul_step_inv [OF step.IH assms(1) _ assms(2,3)] by simp
qed

text \<open>The digits of a product: no rounding on the way, and the value of the columns.\<close>

lemma mul_digits_val:
  assumes "digs \<le> 90" "digits_ok x digs" "digits_ok y digs"
  shows "length (mul_digits x y digs) = digs + 3 \<and> mul_digits x y digs ! 0 = 0
    \<and> wval (mul_digits x y digs) = columns x y digs 0
    \<and> 0 \<le> mul_digits x y digs ! 1
    \<and> (\<forall>k\<in>{2..digs + 2}. 0 \<le> mul_digits x y digs ! k \<and> mul_digits x y digs ! k < MP_R)"
proof -
  let ?w = "fold (mul_step x y digs) (rev [1..<Suc digs]) (replicate (digs + 3) 0)"
  have i: "mul_inv x y digs 0 ?w" using mul_fold_inv [OF assms, of 0] by simp
  have d: "mul_digits x y digs = norm_digits ?w 2 (digs + 2)" by (simp add: mul_digits_def add.commute)
  have "0 \<le> norm_digits ?w 2 (digs + 2) ! (2 - 1) \<and> norm_digits ?w 2 (digs + 2) ! (2 - 1) \<le> int digs * MP_R ^ 2 + MP_R ^ 2"
  proof (rule norm_digits_carry)
    have "(int digs + 1) * MP_R ^ 2 \<le> 91 * MP_R ^ 2" using assms(1) by (intro mult_right_mono) simp_all
    then show "int digs * MP_R ^ 2 + MP_R ^ 2 < (MP_R ^ 2 + 1) * MP_R" by (simp add: algebra_simps MP_R_def)
    show "0 \<le> ?w ! k \<and> ?w ! k \<le> int digs * MP_R ^ 2" if "2 - 1 \<le> k" "k < digs + 2" for k
      using i that by (simp add: mul_inv_def)
    have "0 \<le> ?w ! (digs + 2)" "?w ! (digs + 2) \<le> int digs * MP_R ^ 2" using i by (simp_all add: mul_inv_def)
    then show "0 \<le> ?w ! (digs + 2) \<and> ?w ! (digs + 2) \<le> int digs * MP_R ^ 2 + MP_R ^ 2"
      by (metis add_increasing2 zero_le_power2)
  qed (use i in \<open>simp_all add: mul_inv_def\<close>)
  then show ?thesis
    using i norm_digits_range [of 2 "digs + 2" ?w] unfolding d
    by (auto simp: mul_inv_def wval_norm_digits norm_digits_outside)
qed

end
