(* ===== verification/MpValue.thy ===== *)
theory MpValue
  imports Complex_Main MpDigits
begin

text \<open>
  The number an \<open>a68_mp\<close> stands for (\<open>mp_val\<close>), the columns of a product, and the rounding of a scratch
  array: \<open>round_internal\<close> is within one and a half units of the last digit.
\<close>

section \<open>The number a list of digits stands for\<close>

lemma digit_sum_bounds:
  assumes "\<And>j. a < j \<Longrightarrow> j \<le> n \<Longrightarrow> 0 \<le> d j \<and> d j < MP_R" "a \<le> n"
  shows "0 \<le> (\<Sum>j=Suc a..n. d j * MP_R ^ (n - j)) \<and> (\<Sum>j=Suc a..n. d j * MP_R ^ (n - j)) < MP_R ^ (n - a)"
  using assms(2,1)
proof (induction rule: inc_induct)
  case (step m)
  let ?s = "\<Sum>j=Suc (Suc m)..n. d j * MP_R ^ (n - j)"
  have i: "0 \<le> ?s" "?s < MP_R ^ (n - Suc m)" using step by simp_all
  have e: "MP_R ^ (n - m) = MP_R * MP_R ^ (n - Suc m)" using step.hyps by (metis Suc_diff_Suc power_Suc)
  have d: "0 \<le> d (Suc m)" "d (Suc m) \<le> MP_R - 1" using step.prems [of "Suc m"] step.hyps by simp_all
  have "0 \<le> d (Suc m) * MP_R ^ (n - Suc m)" "d (Suc m) * MP_R ^ (n - Suc m) \<le> (MP_R - 1) * MP_R ^ (n - Suc m)"
    using d by (simp_all add: mult_right_mono)
  then show ?case using i step.hyps by (simp add: e sum.atLeast_Suc_atMost algebra_simps)
qed simp

definition mp_mag :: "nat \<Rightarrow> a68_mp \<Rightarrow> int" where
  "mp_mag n z = (\<Sum>k=1..n. adig z k * MP_R ^ (n - k))"

definition mp_val :: "nat \<Rightarrow> a68_mp \<Rightarrow> rat" where
  "mp_val n z = (if mp_dig z 1 < 0 then - 1 else 1) * of_int (mp_mag n z) * of_int MP_R powi (mp_ex z - int n + 1)"

lemma mp_mag_bounds: "digits_ok x n \<Longrightarrow> 0 \<le> mp_mag n x \<and> mp_mag n x < MP_R ^ n"
  using digit_sum_bounds [of 0 n "adig x"] by (simp add: mp_mag_def digits_ok_def)

text \<open>The columns that are left out are worth less than \<open>digs\<close> units of the guard digit.\<close>

lemma columns_close:
  assumes "digits_ok x digs" "digits_ok y digs" "1 \<le> digs"
  shows "columns x y digs 0 * MP_R ^ digs \<le> mp_mag digs x * mp_mag digs y * MP_R ^ 2
    \<and> mp_mag digs x * mp_mag digs y * MP_R ^ 2 \<le> columns x y digs 0 * MP_R ^ digs + int digs * MP_R ^ Suc digs"
proof -
  let ?k = "\<lambda>i. min digs (digs + 2 - i)"
  let ?in = "\<lambda>i. \<Sum>j=1..?k i. adig x j * MP_R ^ (digs - j)"
  let ?out = "\<lambda>i. \<Sum>j=Suc (?k i)..digs. adig x j * MP_R ^ (digs - j)"
  have split: "mp_mag digs x = ?in i + ?out i" if "i \<in> {1..digs}" for i
    unfolding mp_mag_def using sum.ub_add_nat [of 1 "?k i" _ "digs - ?k i"] that assms(3)
    by (subst sum.union_disjoint [symmetric]) (auto intro!: sum.cong)
  have col: "columns x y digs 0 * MP_R ^ digs = (\<Sum>i=1..digs. adig y i * MP_R ^ (digs - i) * ?in i) * MP_R ^ 2"
  proof -
    have e: "MP_R ^ (digs + 2 - (i + j)) * MP_R ^ digs = MP_R ^ (digs - i) * MP_R ^ (digs - j) * MP_R ^ 2"
      if "i \<in> {1..digs}" "j \<in> {1..?k i}" for i j
    proof -
      have "digs + 2 - (i + j) + digs = (digs - i) + (digs - j) + 2" using that by auto
      then show ?thesis by (metis power_add)
    qed
    have t: "adig y i * adig x j * MP_R ^ (digs + 2 - (i + j)) * MP_R ^ digs
        = adig y i * MP_R ^ (digs - i) * (adig x j * MP_R ^ (digs - j)) * MP_R ^ 2"
      if "i \<in> {1..digs}" "j \<in> {1..?k i}" for i j
    proof -
      have "adig y i * adig x j * MP_R ^ (digs + 2 - (i + j)) * MP_R ^ digs
          = adig y i * adig x j * (MP_R ^ (digs + 2 - (i + j)) * MP_R ^ digs)" by (simp only: mult.assoc)
      then show ?thesis unfolding e [OF that] by (simp only: mult_ac)
    qed
    have "columns x y digs 0 = (\<Sum>i=1..digs. \<Sum>j=1..?k i. adig y i * adig x j * MP_R ^ (digs + 2 - (i + j)))"
      by (simp add: columns_def)
    then show ?thesis by (simp only: sum_distrib_right sum_distrib_left t cong: sum.cong)
  qed
  have out: "0 \<le> adig y i * MP_R ^ (digs - i) * ?out i \<and> adig y i * MP_R ^ (digs - i) * ?out i * MP_R ^ 2 \<le> MP_R ^ Suc digs"
    if i: "i \<in> {1..digs}" for i
  proof -
    have o: "0 \<le> ?out i" "?out i < MP_R ^ (digs - ?k i)"
      using digit_sum_bounds [of "?k i" digs "adig x"] assms(1) by (auto simp: digits_ok_def)
    have y: "0 \<le> adig y i" "adig y i \<le> MP_R" using assms(2) i by (auto simp: digits_ok_def intro: less_imp_le)
    show ?thesis
    proof (cases "i \<le> 2")
      case True
      then have "?k i = digs" by simp
      then show ?thesis by simp
    next
      case False
      then have k: "digs - ?k i = i - 2" using i by auto
      have "?out i \<le> MP_R ^ (i - 2)" using o(2) unfolding k by (rule less_imp_le)
      then have "adig y i * MP_R ^ (digs - i) * ?out i \<le> MP_R * MP_R ^ (digs - i) * MP_R ^ (i - 2)"
        using y o(1) by (intro mult_mono) simp_all
      then have "adig y i * MP_R ^ (digs - i) * ?out i * MP_R ^ 2 \<le> MP_R * MP_R ^ (digs - i) * MP_R ^ (i - 2) * MP_R ^ 2"
        by (rule mult_right_mono) simp
      also have "\<dots> = MP_R ^ (1 + (digs - i) + (i - 2) + 2)" by (simp only: power_add power_one_right)
      also have "1 + (digs - i) + (i - 2) + 2 = Suc digs" using False i by simp
      finally have "adig y i * MP_R ^ (digs - i) * ?out i * MP_R ^ 2 \<le> MP_R ^ Suc digs" .
      moreover have "0 \<le> adig y i * MP_R ^ (digs - i) * ?out i"
        using y(1) o(1) by (intro mult_nonneg_nonneg zero_le_power) simp_all
      ultimately show ?thesis by (rule conjI [rotated])
    qed
  qed
  have "mp_mag digs x * mp_mag digs y = (\<Sum>i=1..digs. adig y i * MP_R ^ (digs - i) * mp_mag digs x)"
    by (simp add: mp_mag_def [of digs y] sum_distrib_left mult_ac)
  also have "\<dots> = (\<Sum>i=1..digs. adig y i * MP_R ^ (digs - i) * ?in i + adig y i * MP_R ^ (digs - i) * ?out i)"
    by (rule sum.cong) (simp_all add: split distrib_left)
  finally have tot: "mp_mag digs x * mp_mag digs y * MP_R ^ 2
      = columns x y digs 0 * MP_R ^ digs + (\<Sum>i=1..digs. adig y i * MP_R ^ (digs - i) * ?out i * MP_R ^ 2)"
    by (simp add: col sum.distrib distrib_right sum_distrib_right)
  have "0 \<le> (\<Sum>i=1..digs. adig y i * MP_R ^ (digs - i) * ?out i * MP_R ^ 2)"
    by (intro sum_nonneg mult_nonneg_nonneg [OF conjunct1 [OF out]]) simp_all
  moreover have "(\<Sum>i=1..digs. adig y i * MP_R ^ (digs - i) * ?out i * MP_R ^ 2) \<le> (\<Sum>i=1..digs. MP_R ^ Suc digs)"
    by (intro sum_mono conjunct2 [OF out])
  ultimately show ?thesis using tot by simp
qed

section \<open>Rounding\<close>

text \<open>What \<open>round_internal\<close> expects of its scratch array.\<close>

definition scratch_ok :: "int list \<Rightarrow> nat \<Rightarrow> bool" where
  "scratch_ok w digs \<longleftrightarrow> length w = digs + 3 \<and> w ! 0 = 0 \<and> 0 \<le> w ! 1
     \<and> (\<forall>k\<in>{2..digs + 2}. 0 \<le> w ! k \<and> w ! k < MP_R)"

lemma wval_split:
  assumes "length w = n + 3" "w ! 0 = 0"
  shows "wval w = (\<Sum>k=1..n. w ! k * MP_R ^ (n - k)) * MP_R ^ 2 + w ! (n + 1) * MP_R + w ! (n + 2)"
    "wval w = w ! 1 * MP_R ^ Suc n + (\<Sum>k=1..n. w ! (k + 1) * MP_R ^ (n - k)) * MP_R + w ! (n + 2)"
proof -
  have l: "wval w = (\<Sum>k<Suc (n + 2). w ! k * MP_R ^ (n + 2 - k))" by (simp add: wval_def assms eval_nat_numeral)
  also have "\<dots> = (\<Sum>k<Suc (n + 1). w ! Suc k * MP_R ^ (n + 1 - k))"
    by (subst sum.lessThan_Suc_shift) (simp add: assms(2))
  finally have m: "wval w = (\<Sum>k<Suc (n + 1). w ! Suc k * MP_R ^ (n + 1 - k))" .
  have p: "MP_R ^ (Suc n - k) = MP_R ^ (n - Suc k) * MP_R ^ 2" if "k < n" for k
  proof -
    have "Suc n - k = (n - Suc k) + 2" using that by simp
    then show ?thesis by (metis power_add)
  qed
  have "(\<Sum>k<n. w ! Suc k * MP_R ^ (n + 1 - k)) = (\<Sum>k<n. w ! Suc k * MP_R ^ (n - Suc k)) * MP_R ^ 2"
    unfolding sum_distrib_right by (rule sum.cong) (simp_all add: p)
  then show "wval w = (\<Sum>k=1..n. w ! k * MP_R ^ (n - k)) * MP_R ^ 2 + w ! (n + 1) * MP_R + w ! (n + 2)"
    by (simp add: m sum.atLeast1_atMost_eq)
  have q: "MP_R ^ (n - k) = MP_R ^ (n - Suc k) * MP_R" if "k < n" for k
    using that by (metis Suc_diff_Suc power_Suc2)
  have "wval w = w ! 1 * MP_R ^ Suc n + (\<Sum>k<Suc n. w ! Suc (Suc k) * MP_R ^ (n - k))"
    unfolding m by (subst sum.lessThan_Suc_shift) simp
  moreover have "(\<Sum>k<n. w ! Suc (Suc k) * MP_R ^ (n - k)) = (\<Sum>k<n. w ! Suc (Suc k) * MP_R ^ (n - Suc k)) * MP_R"
    unfolding sum_distrib_right by (rule sum.cong) (simp_all add: q)
  ultimately show "wval w = w ! 1 * MP_R ^ Suc n + (\<Sum>k=1..n. w ! (k + 1) * MP_R ^ (n - k)) * MP_R + w ! (n + 2)"
    by (simp add: sum.atLeast1_atMost_eq)
qed

definition round_inc :: "int list \<Rightarrow> nat \<Rightarrow> int" where
  "round_inc w g = (if w ! g > HALF_R then 1 else if w ! g = HALF_R then (if even (w ! (g - 1)) then 2 else 1) else 0)"

lemma round_up_eq: "round_up w g = w[g - 1 := w ! (g - 1) + round_inc w g]"
  by (simp add: round_up_def round_inc_def list_update_same_conv)

lemma round_inc_bounds: "0 \<le> round_inc w g" "round_inc w g \<le> 2" "w ! g = 0 \<Longrightarrow> round_inc w g = 0"
  by (auto simp: round_inc_def HALF_R_def)

lemma round_inc_error:
  "0 \<le> w ! g \<Longrightarrow> w ! g < MP_R \<Longrightarrow> round_inc w g * MP_R - w ! g \<le> MP_R + HALF_R"
  "0 \<le> w ! g \<Longrightarrow> w ! g < MP_R \<Longrightarrow> w ! g - round_inc w g * MP_R < HALF_R"
  by (auto simp: round_inc_def HALF_R_def MP_R_def)

lemma scratch_top:
  assumes "scratch_ok w digs"
  shows "w ! 1 * MP_R ^ Suc digs \<le> wval w" "wval w < (w ! 1 + 1) * MP_R ^ Suc digs"
proof -
  have l: "length w = digs + 3" "w ! 0 = 0" "\<And>k. 2 \<le> k \<Longrightarrow> k \<le> digs + 2 \<Longrightarrow> 0 \<le> w ! k \<and> w ! k < MP_R"
    using assms by (auto simp: scratch_ok_def)
  let ?t = "\<Sum>k=1..digs. w ! (k + 1) * MP_R ^ (digs - k)"
  have "0 \<le> ?t" "?t + 1 \<le> MP_R ^ digs"
    using digit_sum_bounds [of 0 digs "\<lambda>k. w ! (k + 1)"] l(3) by simp_all
  then have t: "0 \<le> ?t * MP_R" "?t * MP_R \<le> (MP_R ^ digs - 1) * MP_R" by (auto intro: mult_right_mono)
  have g: "0 \<le> w ! (digs + 2)" "w ! (digs + 2) < MP_R" using l(3) [of "digs + 2"] by simp_all
  have v: "wval w = w ! 1 * MP_R ^ Suc digs + ?t * MP_R + w ! (digs + 2)" by (rule wval_split(2) [OF l(1,2)])
  show "w ! 1 * MP_R ^ Suc digs \<le> wval w" using t(1) g(1) by (simp add: v)
  show "wval w < (w ! 1 + 1) * MP_R ^ Suc digs" using t(2) g(2) by (simp add: v algebra_simps)
qed

lemma scratch_second:
  assumes "scratch_ok w digs" "w ! 1 = 0" "1 \<le> digs"
  shows "w ! 2 * MP_R ^ digs \<le> wval w" "wval w < (w ! 2 + 1) * MP_R ^ digs"
proof -
  have l: "length w = digs + 3" "w ! 0 = 0" "\<And>k. 2 \<le> k \<Longrightarrow> k \<le> digs + 2 \<Longrightarrow> 0 \<le> w ! k \<and> w ! k < MP_R"
    using assms by (auto simp: scratch_ok_def)
  let ?t = "\<Sum>k=2..digs. w ! (k + 1) * MP_R ^ (digs - k)"
  have "0 \<le> ?t" "?t + 1 \<le> MP_R ^ (digs - 1)"
    using digit_sum_bounds [of 1 digs "\<lambda>k. w ! (k + 1)"] l(3) assms(3) by (simp_all add: numeral_2_eq_2)
  then have t: "0 \<le> ?t * MP_R" "?t * MP_R \<le> (MP_R ^ (digs - 1) - 1) * MP_R" by (auto intro: mult_right_mono)
  have p: "MP_R ^ (digs - 1) * MP_R = MP_R ^ digs" using assms(3) power_minus_mult [of digs MP_R] by simp
  have g: "0 \<le> w ! (digs + 2)" "w ! (digs + 2) < MP_R" using l(3) [of "digs + 2"] by simp_all
  have "(\<Sum>k=1..digs. w ! (k + 1) * MP_R ^ (digs - k)) = w ! 2 * MP_R ^ (digs - 1) + ?t"
    using assms(3) by (simp add: sum.atLeast_Suc_atMost numeral_2_eq_2)
  moreover have "wval w = w ! 1 * MP_R ^ Suc digs + (\<Sum>k=1..digs. w ! (k + 1) * MP_R ^ (digs - k)) * MP_R + w ! (digs + 2)"
    using l by (intro wval_split(2))
  ultimately have v: "wval w = w ! 2 * MP_R ^ digs + ?t * MP_R + w ! (digs + 2)"
    using assms(2) p by (simp add: distrib_right mult.assoc)
  show "w ! 2 * MP_R ^ digs \<le> wval w" using t(1) g(1) by (simp add: v)
  have "?t * MP_R \<le> MP_R ^ digs - MP_R" using t(2) p by (simp add: left_diff_distrib)
  then show "wval w < (w ! 2 + 1) * MP_R ^ digs" using g(2) unfolding v distrib_right mult_1 by linarith
qed

text \<open>Rounding and the carries after it.\<close>

definition round_carry :: "int list \<Rightarrow> nat \<Rightarrow> int list" where
  "round_carry w g = (let w1 = round_up w g in if w1 ! (g - 1) \<ge> MP_R then norm_digits w1 2 g else w1)"

lemma round_carry_spec:
  assumes w: "scratch_ok w digs" and g: "3 \<le> g" "g \<le> digs + 2"
  shows "scratch_ok (round_carry w g) digs \<and> wval (round_carry w g) = wval w + round_inc w g * MP_R ^ (digs + 3 - g)
    \<and> (\<forall>k. g \<le> k \<longrightarrow> k \<le> digs + 2 \<longrightarrow> round_carry w g ! k = w ! k)
    \<and> (round_carry w g ! 1 \<noteq> w ! 1 \<longrightarrow> round_carry w g ! (g - 1) \<le> 1)"
proof -
  let ?r = "round_inc w g"
  let ?w1 = "w[g - 1 := w ! (g - 1) + ?r]"
  have l: "length w = digs + 3" "w ! 0 = 0" "0 \<le> w ! 1" "\<And>k. 2 \<le> k \<Longrightarrow> k \<le> digs + 2 \<Longrightarrow> 0 \<le> w ! k \<and> w ! k < MP_R"
    using w by (auto simp: scratch_ok_def)
  have r: "0 \<le> ?r" "?r \<le> 2" by (rule round_inc_bounds)+
  have "digs + 3 - 1 - (g - 1) = digs + 3 - g" using g by simp
  then have v: "wval ?w1 = wval w + ?r * MP_R ^ (digs + 3 - g)"
    using l(1) g by (simp add: wval_update)
  have d: "0 \<le> w ! (g - 1)" "w ! (g - 1) < MP_R" using l(4) [of "g - 1"] g by simp_all
  show ?thesis
  proof (cases "?w1 ! (g - 1) \<ge> MP_R")
    case False
    then have "round_carry w g = ?w1" by (simp add: round_carry_def round_up_eq)
    then show ?thesis using v l g r d False by (auto simp: scratch_ok_def nth_list_update)
  next
    case True
    have c: "carry_at ?w1 g = ?w1"
      using l(1) l(4) [of g] g by (intro nth_equalityI) (auto simp: carry_at_nth)
    have e: "round_carry w g = norm_digits ?w1 2 (g - 1)"
      using True c g by (simp add: round_carry_def round_up_eq norm_digits_step)
    let ?w2 = "norm_digits ?w1 2 (g - 1)"
    have "?w2 = norm_digits (carry_at ?w1 (g - 1)) 2 (g - 2)"
      using g norm_digits_step [of 2 "g - 1" ?w1] by (simp add: numeral_2_eq_2)
    then have last: "?w2 ! (g - 1) = (w ! (g - 1) + ?r) mod MP_R"
      using l(1) g by (simp add: norm_digits_outside carry_at_nth)
    have "(w ! (g - 1) + ?r) mod MP_R = w ! (g - 1) + ?r - MP_R"
    proof (rule int_mod_pos_eq [of _ _ 1])
      show "0 \<le> w ! (g - 1) + ?r - MP_R" using True l(1) g by simp
      show "w ! (g - 1) + ?r - MP_R < MP_R" using d r by (simp add: MP_R_def)
    qed simp
    then have small: "?w2 ! (g - 1) \<le> 1" using last d r by simp
    have "0 \<le> w ! k" if "k < digs + 3" for k
      using that l(2,3) l(4) [of k] by (cases "k = 0"; cases "k = 1") simp_all
    then have "\<forall>k<length ?w1. 0 \<le> ?w1 ! k" using l(1) r d g by (auto simp: nth_list_update)
    then have "0 \<le> ?w2 ! 1" using norm_digits_nonneg [of 2 "g - 1" ?w1] l(1) g by simp
    moreover have "?w2 ! k = w ! k" if "g \<le> k" "k \<le> digs + 2" for k
      using that l(1) g by (simp add: norm_digits_outside)
    moreover have "0 \<le> ?w2 ! k \<and> ?w2 ! k < MP_R" if "2 \<le> k" "k < g" for k
      using that l(1) g by (intro norm_digits_range) simp_all
    moreover have "?w2 ! 0 = 0" using l g by (simp add: norm_digits_outside)
    moreover have "wval ?w2 = wval ?w1" using l(1) g by (simp add: wval_norm_digits)
    ultimately show ?thesis unfolding e using v l(1) l(4) small
      by (auto simp: scratch_ok_def) (metis linorder_not_less)+
  qed
qed

lemma mp_dig_put: "1 \<le> k \<Longrightarrow> k \<le> n \<Longrightarrow> mp_dig (put_digits z n f) k = f k"
  by (auto simp: mp_dig_def put_digits_def nth_append simp del: upt_Suc)

lemma put_digits_simps [simp]:
  "mp_st (put_digits z n f) = mp_st z" "mp_ex (put_digits z n f) = mp_ex z"
  "n \<le> mp_digs z \<Longrightarrow> mp_digs (put_digits z n f) = mp_digs z"
  by (simp_all add: put_digits_def mp_digs_def del: upt_Suc)

lemma mp_dig_fields [simp]:
  "mp_dig (z\<lparr>mp_ex := e\<rparr>) k = mp_dig z k" "mp_dig (z\<lparr>mp_st := s\<rparr>) k = mp_dig z k"
  "mp_digs (z\<lparr>mp_ex := e\<rparr>) = mp_digs z" "mp_digs (z\<lparr>mp_st := s\<rparr>) = mp_digs z"
  by (simp_all add: mp_dig_def mp_digs_def)

lemma ensure_ok [simp]: "n \<le> mp_digs z \<Longrightarrow> ensure z n = Inr ()"
  by (simp add: ensure_def)

lemma round_internal_eq:
  assumes "1 \<le> digs" "digs \<le> mp_digs z"
  shows "round_internal z w wex digs =
    (let w2 = round_carry w (if w ! 1 = 0 then digs + 2 else digs + 1);
         z1 = (if w2 ! 1 = 0 then (put_digits z digs (\<lambda>k. w2 ! (k + 1)))\<lparr>mp_ex := wex - 1\<rparr>
               else (put_digits z digs (\<lambda>k. w2 ! k))\<lparr>mp_ex := wex\<rparr>)
     in Inr (if mp_dig z1 1 = 0 then z1\<lparr>mp_ex := 0\<rparr> else z1))"
  using assms by (simp add: round_internal_def round_carry_def Let_def bindE_def add.commute)

text \<open>A result of rounding: the digits, and how far it is from the scratch array.\<close>

definition rounded :: "a68_mp \<Rightarrow> int list \<Rightarrow> int \<Rightarrow> nat \<Rightarrow> a68_mp \<Rightarrow> bool" where
  "rounded z w wex digs r \<longleftrightarrow> mp_st r = mp_st z \<and> mp_digs r = mp_digs z \<and> 0 < mp_dig r 1
     \<and> (\<forall>k\<in>{2..digs}. 0 \<le> mp_dig r k \<and> mp_dig r k < MP_R)
     \<and> (w ! 1 = 0 \<longrightarrow> mp_dig r 1 < MP_R)
     \<and> (w ! 1 \<noteq> 0 \<longrightarrow> mp_mag digs r * MP_R ^ 2 + w ! (digs + 1) * MP_R + w ! (digs + 2)
            = wval w + round_inc w (digs + 1) * MP_R ^ 2)
     \<and> (mp_ex r = wex - 1 \<and> \<bar>wval w - mp_mag digs r * MP_R\<bar> \<le> MP_R + HALF_R
       \<or> mp_ex r = wex \<and> \<bar>wval w - mp_mag digs r * MP_R ^ 2\<bar> \<le> (MP_R + HALF_R) * MP_R)"

lemma mp_mag_dig: "0 \<le> mp_dig z 1 \<Longrightarrow> mp_mag n z = (\<Sum>k=1..n. mp_dig z k * MP_R ^ (n - k))"
  unfolding mp_mag_def by (rule sum.cong) (simp_all add: adig_def)

lemma round_internal_ok:
  assumes w: "scratch_ok w digs" "w ! 1 \<noteq> 0 \<or> w ! 2 \<noteq> 0" and d: "2 \<le> digs" "digs \<le> mp_digs z"
  shows "\<exists>r. round_internal z w wex digs = Inr r \<and> rounded z w wex digs r"
proof -
  define g where "g = (if w ! 1 = 0 then digs + 2 else digs + 1)"
  define w2 where "w2 = round_carry w g"
  have g: "3 \<le> g" "g \<le> digs + 2" using d by (simp_all add: g_def)
  have s: "scratch_ok w2 digs" "wval w2 = wval w + round_inc w g * MP_R ^ (digs + 3 - g)"
    "\<And>k. g \<le> k \<Longrightarrow> k \<le> digs + 2 \<Longrightarrow> w2 ! k = w ! k" "w2 ! 1 \<noteq> w ! 1 \<Longrightarrow> w2 ! (g - 1) \<le> 1"
    using round_carry_spec [OF w(1) g] by (auto simp: w2_def)
  have l: "length w2 = digs + 3" "w2 ! 0 = 0" "0 \<le> w2 ! 1" "\<And>k. 2 \<le> k \<Longrightarrow> k \<le> digs + 2 \<Longrightarrow> 0 \<le> w2 ! k \<and> w2 ! k < MP_R"
    using s(1) by (auto simp: scratch_ok_def)
  have wd: "0 \<le> w ! k" "w ! k < MP_R" if "2 \<le> k" "k \<le> digs + 2" for k using w(1) that by (auto simp: scratch_ok_def)
  have w1: "0 \<le> w ! 1" using w(1) by (auto simp: scratch_ok_def)
  have top: "w2 ! 1 * MP_R ^ Suc digs \<le> wval w2" "wval w2 < (w2 ! 1 + 1) * MP_R ^ Suc digs"
    "w ! 1 * MP_R ^ Suc digs \<le> wval w" "wval w < (w ! 1 + 1) * MP_R ^ Suc digs"
    using scratch_top [OF s(1)] scratch_top [OF w(1)] by simp_all
  have inc: "0 \<le> round_inc w g" "round_inc w g \<le> 2" by (rule round_inc_bounds)+
  have ge: "wval w \<le> wval w2" using s(2) inc by simp
  have v1: "wval w2 = (\<Sum>k=1..digs. w2 ! k * MP_R ^ (digs - k)) * MP_R ^ 2 + w2 ! (digs + 1) * MP_R + w2 ! (digs + 2)"
    and v2: "wval w2 = w2 ! 1 * MP_R ^ Suc digs + (\<Sum>k=1..digs. w2 ! (k + 1) * MP_R ^ (digs - k)) * MP_R + w2 ! (digs + 2)"
    using wval_split [OF l(1,2)] by simp_all
  let ?r0 = "(put_digits z digs (\<lambda>k. w2 ! (k + 1)))\<lparr>mp_ex := wex - 1\<rparr>"
  let ?r1 = "(put_digits z digs (\<lambda>k. w2 ! k))\<lparr>mp_ex := wex\<rparr>"
  have m0: "mp_mag digs ?r0 = (\<Sum>k=1..digs. w2 ! (k + 1) * MP_R ^ (digs - k))"
    using l(4) [of 2] d by (subst mp_mag_dig) (auto simp: mp_dig_put numeral_2_eq_2 intro!: sum.cong)
  have m1: "mp_mag digs ?r1 = (\<Sum>k=1..digs. w2 ! k * MP_R ^ (digs - k))"
    using l(3) d by (subst mp_mag_dig) (auto simp: mp_dig_put intro!: sum.cong)
  have g2: "w2 ! (digs + 2) = w ! (digs + 2)" using s(3) [of "digs + 2"] g by simp
  show ?thesis
  proof (cases "w2 ! 1 = 0")
    case True
    have "w ! 1 = 0"
    proof (rule ccontr)
      assume "w ! 1 \<noteq> 0"
      then have "1 * MP_R ^ Suc digs \<le> w ! 1 * MP_R ^ Suc digs" using w1 by (intro mult_right_mono) simp_all
      then have "MP_R ^ Suc digs \<le> wval w2" using top(3) ge by (metis mult_1 order_trans)
      moreover have "wval w2 < MP_R ^ Suc digs" using top(2) by (simp only: True add_0 mult_1)
      ultimately show False by simp
    qed
    then have gA: "g = digs + 2" by (simp add: g_def)
    have wg: "0 \<le> w ! g" "w ! g < MP_R" using wd [of g] g by simp_all
    have "digs + 3 - g = 1" using gA by simp
    then have err: "wval w - mp_mag digs ?r0 * MP_R = w ! g - round_inc w g * MP_R"
      using s(2) v2 g2 True gA unfolding m0 by simp
    have lead: "0 < w2 ! 2"
    proof (rule ccontr)
      assume "\<not> 0 < w2 ! 2"
      then have z: "w2 ! 2 = 0" using l(4) [of 2] by simp
      have "wval w2 < MP_R ^ digs" using scratch_second(2) [OF s(1) True] z d by simp
      moreover have "1 * MP_R ^ digs \<le> w ! 2 * MP_R ^ digs"
        using w(2) \<open>w ! 1 = 0\<close> wd(1) [of 2] by (intro mult_right_mono) simp_all
      moreover have "w ! 2 * MP_R ^ digs \<le> wval w" using scratch_second(1) [OF w(1) \<open>w ! 1 = 0\<close>] d by simp
      ultimately show False using ge by linarith
    qed
    have "round_internal z w wex digs = Inr ?r0"
      using d lead True w2_def gA \<open>w ! 1 = 0\<close> by (simp add: round_internal_eq mp_dig_put numeral_2_eq_2)
    moreover have "\<bar>wval w - mp_mag digs ?r0 * MP_R\<bar> \<le> MP_R + HALF_R"
      unfolding err using round_inc_error [OF wg] by (simp add: abs_le_iff MP_R_def)
    then have "rounded z w wex digs ?r0"
      unfolding rounded_def using d lead l(4) \<open>w ! 1 = 0\<close>
      by (auto simp: mp_dig_put numeral_2_eq_2)
    ultimately show ?thesis by blast
  next
    case False
    then have w21: "1 \<le> w2 ! 1" using l(3) by simp
    have r1: "round_internal z w wex digs = Inr ?r1"
      using d False w2_def g_def by (simp add: round_internal_eq mp_dig_put)
    have mag: "mp_mag digs ?r1 * MP_R ^ 2 = wval w + round_inc w g * MP_R ^ (digs + 3 - g) - w2 ! (digs + 1) * MP_R - w ! (digs + 2)"
      using v1 s(2) g2 by (simp add: m1)
    have e2: "0 \<le> w ! (digs + 2)" "w ! (digs + 2) < MP_R" using wd [of "digs + 2"] by simp_all
    have "rounded z w wex digs ?r1"
    proof (cases "w ! 1 = 0")
      case True
      then have gA: "g = digs + 2" by (simp add: g_def)
      have c: "0 \<le> w2 ! (digs + 1)" "w2 ! (digs + 1) \<le> 1" using s(4) False True gA l(4) [of "digs + 1"] d by simp_all
      have "wval w2 < 2 * MP_R ^ Suc digs"
      proof -
        have "round_inc w g * MP_R \<le> 2 * MP_R" using inc by (intro mult_right_mono) simp_all
        moreover have "2 * MP_R \<le> MP_R * MP_R ^ digs"
          using d mult_left_mono [of 2 "MP_R ^ digs" MP_R] self_le_power [of MP_R digs] by (simp add: MP_R_def)
        moreover have "wval w < MP_R * MP_R ^ digs" using top(4) True by simp
        moreover have "wval w2 = wval w + round_inc w g * MP_R" using s(2) gA by simp
        ultimately show ?thesis unfolding power_Suc by linarith
      qed
      then have "w2 ! 1 * MP_R ^ Suc digs < 2 * MP_R ^ Suc digs" using top(1) by linarith
      then have "w2 ! 1 < 2" by (simp add: mult_less_cancel_right)
      then have "w2 ! 1 < MP_R" by (simp add: MP_R_def)
      moreover have "\<bar>wval w - mp_mag digs ?r1 * MP_R ^ 2\<bar> \<le> (MP_R + HALF_R) * MP_R"
        using mag gA c e2 round_inc_error [of w g] by (simp add: MP_R_def HALF_R_def)
      ultimately show ?thesis
        unfolding rounded_def using d w21 l(4) True by (auto simp: mp_dig_put)
    next
      case B: False
      then have gB: "g = digs + 1" by (simp add: g_def)
      have wg: "0 \<le> w ! (digs + 1)" "w ! (digs + 1) < MP_R" using wd [of "digs + 1"] d by simp_all
      have g1: "w2 ! (digs + 1) = w ! (digs + 1)" using s(3) [of "digs + 1"] gB by simp
      have mB: "mp_mag digs ?r1 * MP_R ^ 2 + w ! (digs + 1) * MP_R + w ! (digs + 2) = wval w + round_inc w (digs + 1) * MP_R ^ 2"
        using mag gB g1 by (simp add: numeral_2_eq_2)
      moreover have "\<bar>wval w - mp_mag digs ?r1 * MP_R ^ 2\<bar> \<le> (MP_R + HALF_R) * MP_R"
        using mB e2 wg round_inc_error [of w "digs + 1"] by (simp add: MP_R_def HALF_R_def power2_eq_square)
      ultimately show ?thesis
        unfolding rounded_def using d w21 l(4) B by (auto simp: mp_dig_put)
    qed
    with r1 show ?thesis by blast
  qed
qed

end
