(* ===== verification/MpProps.thy ===== *)
theory MpProps
  imports MpValue
begin

text \<open>
  What the multi-precision kernel computes: the results of the operations are numbers again, and
  within a few units of the last digit of the exact result.
\<close>

section \<open>Products\<close>

text \<open>A number as every operation leaves it: zero has only zero digits.\<close>

definition mp_normal :: "nat \<Rightarrow> a68_mp \<Rightarrow> bool" where
  "mp_normal n x \<longleftrightarrow> mp_is_finite x \<and> digits_ok x n \<and> (mp_dig x 1 = 0 \<longrightarrow> (\<forall>k\<in>{1..n}. mp_dig x k = 0))"

lemma mp_mag_lead:
  assumes "\<forall>k\<in>{1..n}. 0 \<le> adig x k" "1 \<le> n"
  shows "adig x 1 * MP_R ^ (n - 1) \<le> mp_mag n x"
proof -
  have "0 \<le> (\<Sum>k=Suc 1..n. adig x k * MP_R ^ (n - k))"
    using assms by (intro sum_nonneg) auto
  then show ?thesis using assms(2) by (simp add: mp_mag_def sum.atLeast_Suc_atMost)
qed

lemma mul_digits_scratch:
  assumes d: "2 \<le> digs" "digs \<le> 90" and x: "digits_ok x digs" "mp_dig x 1 \<noteq> 0" and y: "digits_ok y digs" "mp_dig y 1 \<noteq> 0"
  shows "scratch_ok (mul_digits x y digs) digs" "mul_digits x y digs ! 1 \<noteq> 0 \<or> mul_digits x y digs ! 2 \<noteq> 0"
proof -
  let ?w = "mul_digits x y digs"
  show ok: "scratch_ok ?w digs" using mul_digits_val [OF d(2) x(1) y(1)] by (simp add: scratch_ok_def)
  let ?t = "\<lambda>i j. adig y i * adig x j * MP_R ^ (digs + 2 - (i + j))"
  let ?k = "\<lambda>i. min digs (digs + 2 - i)"
  have nn: "0 \<le> ?t i j" if "i \<in> {1..digs}" "j \<in> {1..?k i}" for i j
    using x(1) y(1) that by (auto simp: digits_ok_def)
  have "1 * 1 \<le> adig y 1 * adig x 1" using x y d by (intro mult_mono) (auto simp: adig_def)
  then have "1 * MP_R ^ digs \<le> ?t 1 1" by (simp add: mult_right_mono del: mult_1)
  also have "\<dots> \<le> (\<Sum>j=1..?k 1. ?t 1 j)" by (rule member_le_sum) (use nn [of 1] d in auto)
  also have "\<dots> \<le> (\<Sum>i=1..digs. \<Sum>j=1..?k i. ?t i j)"
    by (rule member_le_sum) (use nn d in \<open>auto intro!: sum_nonneg\<close>)
  also have "\<dots> = wval ?w" using mul_digits_val [OF d(2) x(1) y(1)] by (simp add: columns_def)
  finally have "MP_R ^ digs \<le> wval ?w" by simp
  then show "?w ! 1 \<noteq> 0 \<or> ?w ! 2 \<noteq> 0" using scratch_second(2) [OF ok] d by fastforce
qed

text \<open>The leading digit of a product stays a digit, even when the carries of the rounding reach it.\<close>

lemma product_no_overflow:
  assumes d: "2 \<le> digs" "digs \<le> 90" and x: "digits_ok x digs" and y: "digits_ok y digs"
    and r: "rounded z (mul_digits x y digs) wex digs r"
  shows "mp_dig r 1 < MP_R"
proof (cases "mul_digits x y digs ! 1 = 0")
  case True
  then show ?thesis using r by (simp add: rounded_def)
next
  case False
  let ?w = "mul_digits x y digs" and ?N = "MP_R ^ digs" and ?q = "mp_mag digs r"
  have w: "wval ?w = columns x y digs 0" "0 \<le> ?w ! (digs + 1)" "?w ! (digs + 1) < MP_R" "0 \<le> ?w ! (digs + 2)"
    using mul_digits_val [OF d(2) x y] d by auto
  have c: "columns x y digs 0 * ?N \<le> mp_mag digs x * mp_mag digs y * MP_R ^ 2"
    using columns_close [OF x y] d by simp
  have "mp_mag digs x * mp_mag digs y \<le> (?N - 1) * (?N - 1)"
    using mp_mag_bounds [OF x] mp_mag_bounds [OF y] by (intro mult_mono) simp_all
  then have "mp_mag digs x * mp_mag digs y * MP_R ^ 2 \<le> (?N - 1) * (?N - 1) * MP_R ^ 2" by (rule mult_right_mono) simp
  with c have P: "wval ?w * ?N \<le> (?N - 1) * (?N - 1) * MP_R ^ 2" unfolding w(1) by (rule order_trans)
  have "1 \<le> MP_R" by (simp add: MP_R_def)
  then have N: "MP_R \<le> ?N" using d self_le_power [of MP_R digs] by simp
  have mag: "?q * MP_R ^ 2 + ?w ! (digs + 1) * MP_R + ?w ! (digs + 2) = wval ?w + round_inc ?w (digs + 1) * MP_R ^ 2"
    using r False by (simp add: rounded_def)
  have "?q < ?N"
  proof (rule ccontr)
    assume "\<not> ?q < ?N"
    then have q: "?N * MP_R ^ 2 \<le> ?q * MP_R ^ 2" by (intro mult_right_mono) simp_all
    have "?N * MP_R ^ 2 - 2 * MP_R ^ 2 + HALF_R * MP_R \<le> wval ?w"
    proof (cases "round_inc ?w (digs + 1) = 0")
      case True
      have "HALF_R * MP_R \<le> 2 * MP_R ^ 2" by (simp add: HALF_R_def MP_R_def)
      moreover have "0 \<le> ?w ! (digs + 1) * MP_R" using w by simp
      ultimately show ?thesis using mag q w(4) unfolding True by linarith
    next
      case False
      then have "HALF_R \<le> ?w ! (digs + 1)" by (auto simp: round_inc_def split: if_splits)
      then have "HALF_R * MP_R \<le> ?w ! (digs + 1) * MP_R" by (intro mult_right_mono) simp_all
      moreover have "round_inc ?w (digs + 1) * MP_R ^ 2 \<le> 2 * MP_R ^ 2" by (intro mult_right_mono round_inc_bounds) simp
      ultimately show ?thesis using mag q w(4) by linarith
    qed
    then have "(?N * MP_R ^ 2 - 2 * MP_R ^ 2 + HALF_R * MP_R) * ?N \<le> wval ?w * ?N" by (rule mult_right_mono) simp
    also note P
    finally have "HALF_R * MP_R * ?N \<le> MP_R ^ 2" by (simp add: algebra_simps)
    moreover have "HALF_R * MP_R * MP_R \<le> HALF_R * MP_R * ?N" using N by (intro mult_left_mono) (simp_all add: HALF_R_def)
    ultimately show False by (simp add: HALF_R_def MP_R_def)
  qed
  moreover have "mp_dig r 1 * MP_R ^ (digs - 1) \<le> ?q"
    using mp_mag_lead [of digs r] r d by (auto simp: rounded_def adig_def)
  ultimately have "mp_dig r 1 * MP_R ^ (digs - 1) < MP_R * MP_R ^ (digs - 1)"
    using power_minus_mult [of digs MP_R] d by (simp add: mult.commute)
  then show ?thesis by (simp add: mult_less_cancel_right)
qed

text \<open>The distance of two numbers in units of the last digit of a scratch array.\<close>

lemma close_numbers:
  fixes m P c :: int and digs :: nat and U :: rat
  assumes c: "c * N \<le> P * MP_R ^ 2" "P * MP_R ^ 2 \<le> c * N + int digs * MP_R * N" and N: "0 < N"
    and m: "\<bar>c - m * MP_R ^ t\<bar> \<le> (MP_R + HALF_R) * MP_R ^ (t - 1)" and t: "t = 1 \<or> t = 2"
  shows "\<bar>of_int (m * MP_R ^ t) - of_int (P * MP_R ^ 2) / of_int N\<bar> \<le> (of_int (int digs + 2) * of_int (MP_R ^ t) :: rat)"
proof -
  have "\<bar>m * MP_R ^ t * N - P * MP_R ^ 2\<bar> \<le> \<bar>c - m * MP_R ^ t\<bar> * N + int digs * MP_R * N"
  proof -
    have "\<bar>m * MP_R ^ t * N - c * N\<bar> = \<bar>c - m * MP_R ^ t\<bar> * N"
      using N by (simp add: abs_mult abs_minus_commute flip: left_diff_distrib)
    then show ?thesis using c by linarith
  qed
  also have "\<dots> \<le> (MP_R + HALF_R) * MP_R ^ (t - 1) * N + int digs * MP_R * N"
    using m N by (intro add_mono mult_right_mono) simp_all
  also have "\<dots> \<le> (int digs + 2) * MP_R ^ t * N"
  proof -
    have "(MP_R + HALF_R) * MP_R ^ (t - 1) + int digs * MP_R \<le> (int digs + 2) * MP_R ^ t"
      using t by (auto simp: MP_R_def HALF_R_def)
    then have "((MP_R + HALF_R) * MP_R ^ (t - 1) + int digs * MP_R) * N \<le> (int digs + 2) * MP_R ^ t * N"
      using N by (intro mult_right_mono) simp_all
    then show ?thesis by (simp add: distrib_right)
  qed
  finally have "of_int \<bar>m * MP_R ^ t * N - P * MP_R ^ 2\<bar> \<le> (of_int ((int digs + 2) * MP_R ^ t * N) :: rat)"
    by (simp only: of_int_le_iff)
  then have "\<bar>of_int (m * MP_R ^ t) * of_int N - of_int (P * MP_R ^ 2)\<bar> \<le> (of_int (int digs + 2) * of_int (MP_R ^ t) * of_int N :: rat)"
    by (simp only: of_int_abs of_int_diff of_int_mult mult.assoc)
  moreover have "of_int (m * MP_R ^ t) - of_int (P * MP_R ^ 2) / (of_int N :: rat)
      = (of_int (m * MP_R ^ t) * of_int N - of_int (P * MP_R ^ 2)) / of_int N"
    using N by (simp add: diff_divide_distrib)
  ultimately show ?thesis using N by (simp add: abs_divide pos_divide_le_eq)
qed

lemma mp_negate1_dig: "mp_dig (mp_negate1 z) k = (if k = 1 then - mp_dig z 1 else mp_dig z k)"
  by (cases "mp_d z") (auto simp: mp_negate1_def on_first_def mp_dig_def nth_list_update)

lemma mp_negate1_adig [simp]: "adig (mp_negate1 z) k = adig z k"
  by (simp add: adig_def mp_negate1_dig)

lemma mp_negate1_simps [simp]:
  "mp_ex (mp_negate1 z) = mp_ex z" "mp_st (mp_negate1 z) = mp_st z" "mp_digs (mp_negate1 z) = mp_digs z"
  "mp_mag n (mp_negate1 z) = mp_mag n z" "digits_ok (mp_negate1 z) n = digits_ok z n"
  by (simp_all add: mp_mag_def digits_ok_def) (simp_all add: mp_negate1_def on_first_def mp_digs_def)

lemma mp_finite_st: "mp_is_finite z \<longleftrightarrow> and (mp_st z) MP_NAN = 0 \<and> and (mp_st z) MP_PINF = 0 \<and> and (mp_st z) MP_MINF = 0"
  by (simp add: mp_is_finite_def mp_is_nan_def mp_is_inf_def mp_is_pinf_def mp_is_minf_def)

lemma mp_is_finite_cong: "mp_st r = mp_st z \<Longrightarrow> mp_is_finite r = mp_is_finite z"
  by (simp add: mp_finite_st)

lemma mp_set_init_simps [simp]:
  "mp_digs (mp_set_init z) = mp_digs z" "mp_is_finite (mp_set_init z) = mp_is_finite z" "mp_ex (mp_set_init z) = mp_ex z"
  by (simp_all add: mp_set_init_def mp_digs_def mp_finite_st MP_INIT_def MP_NAN_def MP_PINF_def MP_MINF_def
      bit.conj_disj_distrib2)

text \<open>The result of an operation: a number close to the exact value, or the error of an exponent out of range.\<close>

definition mp_close :: "nat \<Rightarrow> int \<Rightarrow> rat \<Rightarrow> a68_mp res \<Rightarrow> bool" where
  "mp_close n ulps v res \<longleftrightarrow> (case res of
     Inr r \<Rightarrow> mp_normal n r \<and> n \<le> mp_digs r \<and> \<bar>mp_val n r - v\<bar> \<le> of_int ulps * of_int MP_R powi (mp_ex r - int n + 1)
   | Inl e \<Rightarrow> e = Die ''multiprecision value out of bounds'')"

lemma mp_close_finish:
  assumes r: "mp_is_finite r" "n \<le> mp_digs r" "1 \<le> n" "digits_ok r n" "0 < mp_dig r 1"
    and v: "\<bar>of_int (mp_mag n r) * of_int MP_R powi (mp_ex r - int n + 1) - v\<bar> \<le> of_int ulps * of_int MP_R powi (mp_ex r - int n + 1)"
  shows "mp_close n ulps (if pos then v else - v) (finish_sign pos r)"
proof -
  have f: "mp_is_finite (mp_negate1 r)" using r(1) by (simp add: mp_is_finite_cong [of "mp_negate1 r" r])
  have "\<bar>- (of_int (mp_mag n r) * of_int MP_R powi (mp_ex r - int n + 1)) + v\<bar> \<le> of_int ulps * of_int MP_R powi (mp_ex r - int n + 1)"
    using v by (metis abs_minus_commute uminus_add_conv_diff)
  then show ?thesis
    using r v f by (simp add: mp_close_def finish_sign_def mp_check_exp_def mp_normal_def mp_val_def mp_negate1_dig)
qed

lemma rounded_digits:
  "rounded z w wex n r \<Longrightarrow> mp_dig r 1 < MP_R \<Longrightarrow> digits_ok r n"
  by (auto simp: rounded_def digits_ok_def adig_def)

lemma scale_close: "\<bar>a - b\<bar> \<le> e \<Longrightarrow> 0 < u \<Longrightarrow> \<bar>a * u - b * u\<bar> \<le> e * (u :: rat)"
  by (simp add: abs_mult mult_right_mono flip: left_diff_distrib)

lemma mul_core_close:
  assumes d: "2 \<le> digs" "digs \<le> 90" "digs \<le> mp_digs z" "mp_is_finite z"
    and x: "digits_ok x digs" "mp_dig x 1 \<noteq> 0" and y: "digits_ok y digs" "mp_dig y 1 \<noteq> 0"
    and v: "v = of_int (mp_mag digs x * mp_mag digs y) * of_int MP_R powi (ex + ey - 2 * int digs + 2)"
  shows "mp_close digs (int digs + 2) (if pos then v else - v)
      (bindE (round_internal z (mul_digits x y digs) (ex + ey + 1) digs) (finish_sign pos))"
proof -
  let ?w = "mul_digits x y digs" and ?R = "of_int MP_R :: rat" and ?P = "mp_mag digs x * mp_mag digs y"
  obtain r where r: "round_internal z ?w (ex + ey + 1) digs = Inr r" and rd: "rounded z ?w (ex + ey + 1) digs r"
    using round_internal_ok [OF mul_digits_scratch [OF d(1,2) x y] d(1,3)] by blast
  have R: "?R \<noteq> 0" by simp
  let ?U = "?R powi (ex + ey - int digs)"
  have c: "columns x y digs 0 * MP_R ^ digs \<le> ?P * MP_R ^ 2"
    "?P * MP_R ^ 2 \<le> columns x y digs 0 * MP_R ^ digs + int digs * MP_R * MP_R ^ digs"
    using columns_close [OF x(1) y(1)] d by (simp_all add: mult.assoc)
  have w: "wval ?w = columns x y digs 0" using mul_digits_val [OF d(2) x(1) y(1)] by simp
  obtain t where t: "t = 1 \<or> t = 2" and e: "mp_ex r = ex + ey + int t - 1"
    and m: "\<bar>columns x y digs 0 - mp_mag digs r * MP_R ^ t\<bar> \<le> (MP_R + HALF_R) * MP_R ^ (t - 1)"
  proof -
    from rd w consider "mp_ex r = ex + ey" "\<bar>columns x y digs 0 - mp_mag digs r * MP_R\<bar> \<le> MP_R + HALF_R"
      | "mp_ex r = ex + ey + 1" "\<bar>columns x y digs 0 - mp_mag digs r * MP_R ^ 2\<bar> \<le> (MP_R + HALF_R) * MP_R"
      by (auto simp: rounded_def)
    then show ?thesis by cases (use that [of 1] that [of 2] in auto)
  qed
  have vU: "v = of_int (?P * MP_R ^ 2) / of_int (MP_R ^ digs) * ?U"
  proof -
    have a: "?R powi (2 + - int digs + (ex + ey - int digs)) = ?R powi 2 * ?R powi (- int digs) * ?U"
      using R by (simp only: power_int_add simp_thms)
    have b: "ex + ey - 2 * int digs + 2 = 2 + - int digs + (ex + ey - int digs)" by simp
    have "?R powi (ex + ey - 2 * int digs + 2) = ?R powi 2 * ?R powi (- int digs) * ?U" unfolding b by (rule a)
    then show ?thesis by (simp add: v power_int_minus divide_inverse)
  qed
  have rU: "of_int (mp_mag digs r) * ?R powi (mp_ex r - int digs + 1) = of_int (mp_mag digs r * MP_R ^ t) * ?U"
    "of_int (int digs + 2) * ?R powi (mp_ex r - int digs + 1) = of_int (int digs + 2) * of_int (MP_R ^ t) * ?U"
  proof -
    have a: "?R powi (int t + (ex + ey - int digs)) = ?R powi (int t) * ?U"
      using R by (simp only: power_int_add simp_thms)
    have b: "mp_ex r - int digs + 1 = int t + (ex + ey - int digs)" by (simp add: e)
    have "?R powi (mp_ex r - int digs + 1) = ?R powi (int t) * ?U" unfolding b by (rule a)
    then show "of_int (mp_mag digs r) * ?R powi (mp_ex r - int digs + 1) = of_int (mp_mag digs r * MP_R ^ t) * ?U"
      "of_int (int digs + 2) * ?R powi (mp_ex r - int digs + 1) = of_int (int digs + 2) * of_int (MP_R ^ t) * ?U" by simp_all
  qed
  have U: "0 < ?U" by (simp add: zero_less_power_int)
  have cl: "\<bar>of_int (mp_mag digs r * MP_R ^ t) - of_int (?P * MP_R ^ 2) / of_int (MP_R ^ digs)\<bar>
      \<le> (of_int (int digs + 2) * of_int (MP_R ^ t) :: rat)"
    by (rule close_numbers [OF c _ m t]) simp
  have "\<bar>of_int (mp_mag digs r) * ?R powi (mp_ex r - int digs + 1) - v\<bar> \<le> of_int (int digs + 2) * ?R powi (mp_ex r - int digs + 1)"
    unfolding rU vU by (rule scale_close [OF cl U])
  moreover have "mp_is_finite r" using rd d(4) mp_is_finite_cong [of r z] by (simp add: rounded_def)
  moreover have "digits_ok r digs" using rounded_digits [OF rd product_no_overflow [OF d(1,2) x(1) y(1) rd]] .
  moreover have "digs \<le> mp_digs r" "0 < mp_dig r 1" using rd d(3) by (simp_all add: rounded_def)
  ultimately have "mp_close digs (int digs + 2) (if pos then v else - v) (finish_sign pos r)"
    using d(1) by (intro mp_close_finish) simp_all
  then show ?thesis by (simp only: r bindE_def sum.case)
qed

lemma mp_val_product:
  assumes "mp_dig x 1 \<noteq> 0" "mp_dig y 1 \<noteq> 0"
    and v: "v = of_int (mp_mag n x * mp_mag n y) * of_int MP_R powi (mp_ex x + mp_ex y - 2 * int n + 2)"
  shows "mp_val n x * mp_val n y = (if 0 \<le> mp_dig x 1 * mp_dig y 1 then v else - v)"
proof -
  have "(of_int MP_R :: rat) powi ((mp_ex x - int n + 1) + (mp_ex y - int n + 1))
      = of_int MP_R powi (mp_ex x - int n + 1) * of_int MP_R powi (mp_ex y - int n + 1)"
    by (intro power_int_add) simp
  moreover have "(mp_ex x - int n + 1) + (mp_ex y - int n + 1) = mp_ex x + mp_ex y - 2 * int n + 2" by simp
  ultimately have p: "(of_int MP_R :: rat) powi (mp_ex x + mp_ex y - 2 * int n + 2)
      = of_int MP_R powi (mp_ex x - int n + 1) * of_int MP_R powi (mp_ex y - int n + 1)" by metis
  show ?thesis using assms(1,2) unfolding v p mp_val_def by (auto simp: zero_le_mult_iff)
qed

lemma mp_mag_zero: "\<forall>k\<in>{1..n}. mp_dig x k = 0 \<Longrightarrow> mp_mag n x = 0"
  unfolding mp_mag_def by (rule sum.neutral) (auto simp: adig_def)

lemma mp_set_zero_close:
  assumes "n \<le> mp_digs z" "1 \<le> n" "0 \<le> k"
  shows "mp_close n k 0 (mp_set_zero z n)"
proof -
  let ?z = "(put_digits z n (\<lambda>k. if k = 1 then 0 else 0))\<lparr>mp_st := MP_INIT, mp_ex := 0\<rparr>"
  have z: "mp_set_zero z n = Inr ?z" using assms by (simp add: mp_set_zero_def mp_set_def bindE_def)
  have d: "mp_dig ?z k = 0" if "k \<in> {1..n}" for k using that by (simp add: mp_dig_put)
  then have a: "adig ?z k = 0" if "k \<in> {1..n}" for k using that by (simp add: adig_def)
  have f: "mp_is_finite ?z" by (simp add: mp_finite_st MP_INIT_def MP_NAN_def MP_PINF_def MP_MINF_def)
  have v: "mp_val n ?z = 0" using d mp_mag_zero [of n ?z] by (simp add: mp_val_def)
  have "mp_normal n ?z" using f d a unfolding mp_normal_def digits_ok_def by simp
  moreover have "n \<le> mp_digs ?z" using assms by simp
  ultimately show ?thesis unfolding z mp_close_def sum.case v using assms(3) by simp
qed

text \<open>
  C6: Multiplying two numbers of at most 90 digits (of seven decimals each) never loses anything to the rounding of
  doubles, and ends in one of two ways: in a number again, all of whose digits are between 0 and 10^7, that differs
  from the exact product by at most \<open>digs + 2\<close> units of its last digit, or in the error of an exponent out of range.
\<close>
theorem mp_mul_close:
  assumes "mp_normal digs x" "mp_normal digs y" "2 \<le> digs" "digs \<le> 90" "mp_is_finite z" "digs \<le> mp_digs z"
  shows "mp_close digs (int digs + 2) (mp_val digs x * mp_val digs y) (mp_mul z x y digs)"
proof -
  have f: "\<not> mp_is_nan x" "\<not> mp_is_nan y" "\<not> mp_is_inf x" "\<not> mp_is_inf y"
    using assms(1,2) by (simp_all add: mp_normal_def mp_is_finite_def)
  show ?thesis
  proof (cases "mp_dig x 1 = 0 \<or> mp_dig y 1 = 0")
    case True
    then have "mp_mag digs x = 0 \<or> mp_mag digs y = 0"
      using assms(1,2) mp_mag_zero unfolding mp_normal_def by blast
    then have p: "mp_val digs x * mp_val digs y = 0" by (auto simp: mp_val_def)
    have m: "mp_mul z x y digs = mp_set_zero z digs"
      using f True by (simp add: mp_mul_def mp_catch_nan_def bindE_def mp_is_zero_def)
    show ?thesis unfolding p m using assms by (intro mp_set_zero_close) simp_all
  next
    case False
    let ?v = "of_int (mp_mag digs x * mp_mag digs y) * of_int MP_R powi (mp_ex x + mp_ex y - 2 * int digs + 2)"
    have "mp_mul z x y digs = bindE (round_internal (mp_set_init z) (mul_digits x y digs) (mp_ex x + mp_ex y + 1) digs)
        (finish_sign (0 \<le> mp_dig x 1 * mp_dig y 1))"
      using f False by (simp add: mp_mul_def mp_catch_nan_def bindE_def mp_is_zero_def)
    moreover have "mp_val digs x * mp_val digs y = (if 0 \<le> mp_dig x 1 * mp_dig y 1 then ?v else - ?v)"
      using False by (intro mp_val_product) simp_all
    ultimately show ?thesis
      using mul_core_close [of digs "mp_set_init z" x y ?v "mp_ex x" "mp_ex y" "0 \<le> mp_dig x 1 * mp_dig y 1"] False assms
      by (simp add: mp_normal_def)
  qed
qed

theorem mp_mul_close_witness:
  "mp_close 2 4 (mp_val 2 (mp_lit 2 3 0) * mp_val 2 (mp_lit 2 (- 7) 1)) (mp_mul (mp_nil 2) (mp_lit 2 3 0) (mp_lit 2 (- 7) 1) 2)"
proof -
  have l: "mp_normal 2 (mp_lit 2 u e)" if "u \<noteq> 0" "\<bar>u\<bar> < MP_R" for u e
    using that by (auto simp: mp_normal_def digits_ok_def adig_def mp_dig_def mp_lit_def mp_nil_def mp_finite_st
        MP_INIT_def MP_NAN_def MP_PINF_def MP_MINF_def nth_list_update numeral_2_eq_2)
  have n: "mp_is_finite (mp_nil 2)" "2 \<le> mp_digs (mp_nil 2)"
    by (simp_all add: mp_nil_def mp_finite_st mp_digs_def MP_INIT_def MP_NAN_def MP_PINF_def MP_MINF_def)
  show ?thesis
    using mp_mul_close [OF l [of 3 0] l [of "- 7" 1] _ _ n] by (simp add: MP_R_def)
qed

section \<open>Integers\<close>

lemma radix_len_bounds: "m < 10000000 ^ Suc (radix_len m) \<and> (m \<noteq> 0 \<longrightarrow> 10000000 ^ radix_len m \<le> m)"
proof (induction m rule: radix_len.induct)
  case (1 m)
  show ?case
  proof (cases "m div 10000000 = 0")
    case True
    then have "m < 10000000" by (simp add: div_eq_0_iff)
    then show ?thesis using True by (simp add: radix_len.simps [of m])
  next
    case False
    let ?q = "m div 10000000"
    have q: "?q < 10000000 ^ Suc (radix_len ?q)" "10000000 ^ radix_len ?q \<le> ?q" using 1 False by simp_all
    have "m < 10000000 * (?q + 1)" by simp
    also have "\<dots> \<le> 10000000 * 10000000 ^ Suc (radix_len ?q)" using q(1) by (intro mult_left_mono) simp_all
    finally have up: "m < 10000000 ^ Suc (Suc (radix_len ?q))" by simp
    have "10000000 * 10000000 ^ radix_len ?q \<le> 10000000 * ?q" using q(2) by simp
    also have "\<dots> \<le> m" by simp
    finally have lo: "10000000 ^ Suc (radix_len ?q) \<le> m" by simp
    have "radix_len m = Suc (radix_len ?q)" using False by (simp add: radix_len.simps [of m])
    then show ?thesis using up lo by simp
  qed
qed

lemma radix_len_64: "m < 2 ^ 64 \<Longrightarrow> radix_len m \<le> 2"
proof (rule ccontr)
  assume m: "m < 2 ^ 64" and n: "\<not> radix_len m \<le> 2"
  have "radix_len 0 = 0" by (subst radix_len.simps) simp
  then have "m \<noteq> 0" using n by (metis le0)
  then have "10000000 ^ radix_len m \<le> m" using radix_len_bounds by blast
  moreover have "(10000000 :: nat) ^ 3 \<le> 10000000 ^ radix_len m" using n by (intro power_increasing) simp_all
  ultimately show False using m by simp
qed

text \<open>Reading the digits back gives the number they were taken from.\<close>

lemma trunc_loop_digits:
  assumes "\<And>j. Suc i \<le> j \<Longrightarrow> j \<le> n \<Longrightarrow> adig z j = int (a div 10000000 ^ (n - j) mod 10000000)" "i \<le> n" "a < 2 ^ 64"
  shows "trunc_loop z (a div 10000000 ^ (n - i)) [Suc i..<Suc n] = Some a"
  using assms(2,1)
proof (induction rule: inc_induct)
  case base
  then show ?case by simp
next
  case (step i)
  let ?s = "a div 10000000 ^ (n - i)" and ?d = "a div 10000000 ^ (n - Suc i) mod 10000000"
  have d: "nat (adig z (Suc i)) = ?d" using step.prems [of "Suc i"] step.hyps by simp
  have e: "n - i = Suc (n - Suc i)" using step.hyps by simp
  have s: "?s * 10000000 + ?d = a div 10000000 ^ (n - Suc i)"
    unfolding e power_Suc2 div_mult2_eq by (rule div_mult_mod_eq)
  have "?s * 10000000 + ?d < 2 ^ 64" unfolding s using assms(3) by (rule le_less_trans [OF div_le_dividend])
  then have "?s * 10000000 \<le> 2 ^ 64 - 1 - ?d" by simp
  then have "\<not> ?s > (2 ^ 64 - 1 - ?d) div 10000000" by (simp add: less_eq_div_iff_mult_less_eq not_less)
  moreover have "[Suc i..<Suc n] = Suc i # [Suc (Suc i)..<Suc n]" using step.hyps by (simp add: upt_rec)
  ultimately show ?case using step.IH step.prems by (simp add: d s Let_def del: upt_Suc)
qed

text \<open>
  C8: A 64-bit integer stored as a multi-precision number of at least three digits is always representable and is
  read back unchanged, the smallest negative integer included.
\<close>
theorem mp_i64_roundtrip:
  assumes "- (2 ^ 63) \<le> k" "k < 2 ^ 63" "3 \<le> digs" "digs \<le> mp_digs z"
  shows "\<exists>r. mp_int_to_mp z k digs = Inr r \<and> mp_to_i64_trunc r = Some k"
proof -
  define a where "a = nat \<bar>k\<bar>"
  let ?n = "radix_len a"
  let ?f = "\<lambda>j. int (a div 10000000 ^ (?n + 1 - j) mod 10000000)"
  have a: "a < 2 ^ 64" using assms(1,2) by (simp add: a_def nat_less_iff)
  then have n: "?n \<le> 2" by (rule radix_len_64)
  let ?z0 = "(put_digits z digs (\<lambda>k. if k = 1 then 0 else 0))\<lparr>mp_st := MP_INIT, mp_ex := int ?n\<rparr>"
  let ?z1 = "put_digits ?z0 (?n + 1) ?f"
  let ?r = "if k < 0 then mp_negate1 ?z1 else ?z1"
  have dig: "mp_dig ?z1 j = ?f j" if "1 \<le> j" "j \<le> ?n + 1" for j
    using that by (simp add: mp_dig_put)
  have ex: "mp_ex ?r = int ?n" by simp
  have "mp_int_to_mp z k digs = Inr ?r"
    using assms n by (auto simp: mp_int_to_mp_def Let_def mp_set_def bindE_def mp_check_exp_def MP_MAX_EXPO_def a_def [symmetric])
  moreover have "mp_to_i64_trunc ?r = Some k"
  proof -
    have first: "mp_dig ?r 1 = (if k < 0 then - ?f 1 else ?f 1)" using dig [of 1] by (simp add: mp_negate1_dig)
    have f1: "0 \<le> ?f 1" by simp
    have neg: "mp_dig ?r 1 < 0 \<longleftrightarrow> k < 0"
    proof (cases "k < 0")
      case True
      then have "10000000 ^ ?n \<le> a" "a < 10000000 ^ Suc ?n" using radix_len_bounds [of a] by (simp_all add: a_def)
      then have "1 \<le> a div 10000000 ^ ?n" "a div 10000000 ^ ?n < 10000000"
        by (simp_all add: Suc_leI div_greater_zero_iff less_mult_imp_div_less)
      then have "0 < ?f 1" by simp
      then show ?thesis using True first by simp
    next
      case False
      then show ?thesis using first f1 by simp
    qed
    have ad: "adig ?r j = ?f j" if "1 \<le> j" "j \<le> ?n + 1" for j
    proof -
      have "adig ?z1 j = ?f j" unfolding adig_def dig [OF that] by simp
      then show ?thesis by simp
    qed
    have "trunc_loop ?r (a div 10000000 ^ (?n + 1 - 0)) [Suc 0..<Suc (?n + 1)] = Some a"
      using ad a by (intro trunc_loop_digits) simp_all
    moreover have "a div 10000000 ^ (?n + 1 - 0) = 0"
      using radix_len_bounds [of a] by simp
    ultimately have "trunc_loop ?r 0 [1..<?n + 2] = Some a" by simp
    then show ?thesis using assms(1,2) neg ex by (auto simp: mp_to_i64_trunc_def a_def)
  qed
  ultimately show ?thesis by blast
qed

theorem mp_i64_roundtrip_witness:
  "\<exists>r. mp_int_to_mp (mp_nil 7) (- (2 ^ 63)) 7 = Inr r \<and> mp_to_i64_trunc r = Some (- (2 ^ 63))"
  by (rule mp_i64_roundtrip) (simp_all add: mp_nil_def mp_digs_def)

section \<open>Ties\<close>

text \<open>Half a unit above an even digit adds two; a difference can end with a digit equal to the radix.\<close>

lemma tie_adds_two: "map_sum id mp_d (mp_shorten (mp_nil 1) 1 ((mp_nil 2)\<lparr>mp_d := [4, 5000000]\<rparr>) 2) = Inr [6]"
  by code_simp

lemma sub_digit_overflow:
  "map_sum id mp_d (mp_sub (mp_nil 2) ((mp_nil 2)\<lparr>mp_d := [9999999, 9999999], mp_ex := 1\<rparr>) (mp_lit 2 5000000 (- 1)) 2)
     = Inr [10000000, 0]"
  by code_simp

end
