(* ===== verification/MpMath.thy ===== *)
theory MpMath
  imports MpConv
begin

text \<open>
  \<open>csrc/mpmath.c\<close>: the elementary functions of multi-precision numbers, \<open>pi\<close> and the complex functions.
  The functions of the C library on doubles are parameters (\<open>math_ops\<close>). The caches of \<open>pi\<close>, \<open>ln 10^7\<close> and
  \<open>ln 10\<close> are the state \<open>mp_cache\<close> that the operations pass along.

  A Newton iteration runs through the list \<open>newton_digs\<close> of the precisions of its steps. A series or a
  reduction may run for ever as far as the code tells, so these loops are \<open>partial_function (option)\<close>:
  \<open>None\<close> is a call that does not return, \<open>Some (Inl e)\<close> one that stops with an error.
\<close>

section \<open>Sequencing\<close>

definition bindO :: "'a res option \<Rightarrow> ('a \<Rightarrow> 'b res option) \<Rightarrow> 'b res option" where
  "bindO m k = Option.bind m (\<lambda>r. case r of Inl e \<Rightarrow> Some (Inl e) | Inr x \<Rightarrow> k x)"

definition lf :: "'a res \<Rightarrow> 'a res option" where "lf r = Some r"
definition okO :: "'a \<Rightarrow> 'a res option" where "okO x = Some (Inr x)"

lemma bindO_simps [simp]:
  "bindO None k = None" "bindO (Some (Inl e)) k = Some (Inl e)" "bindO (Some (Inr x)) k = k x"
  "bindO (lf (Inl e)) k = Some (Inl e)" "bindO (lf (Inr x)) k = k x" "bindO (okO x) k = k x"
  by (simp_all add: bindO_def lf_def okO_def)

lemma bindO_mono [partial_function_mono]:
  assumes "mono_option B" "\<And>y. mono_option (\<lambda>f. C y f)"
  shows "mono_option (\<lambda>f. bindO (B f) (\<lambda>y. C y f))"
  unfolding bindO_def
proof (rule bind_mono [OF assms(1)])
  fix y
  show "mono_option (\<lambda>f. case y of Inl e \<Rightarrow> Some (Inl e) | Inr x \<Rightarrow> C x f)"
    using assms(2) by (cases y) (simp_all add: option.const_mono)
qed

record math_ops = fmt_ops +
  f_sqrt :: "u64 \<Rightarrow> u64"
  f_cbrt :: "u64 \<Rightarrow> u64"
  f_atan :: "u64 \<Rightarrow> u64"

text \<open>The caches: how many digits were computed, and the values (the eight constants of \<open>mp_pi_mod\<close>).\<close>

datatype mp_pi_mod = MP_PI | MP_HALF_PI | MP_TWO_PI | MP_SQRT_TWO_PI | MP_SQRT_PI | MP_LN_PI | MP_180_OVER_PI | MP_PI_OVER_180

record mp_cache =
  c_pi :: "(nat \<times> (mp_pi_mod \<Rightarrow> a68_mp)) option"
  c_ls :: "(nat \<times> a68_mp) option"
  c_l10 :: "(nat \<times> a68_mp) option"

definition mp_cache_reset :: mp_cache where
  "mp_cache_reset = \<lparr>c_pi = None, c_ls = None, c_l10 = None\<rparr>"

type_synonym 'a mpm = "mp_cache \<Rightarrow> ('a \<times> mp_cache) res option"

definition bndM :: "'a mpm \<Rightarrow> ('a \<Rightarrow> 'b mpm) \<Rightarrow> 'b mpm" where
  "bndM m k c = bindO (m c) (\<lambda>(x, c'). k x c')"
definition upM :: "'a res option \<Rightarrow> 'a mpm" where "upM m c = bindO m (\<lambda>x. okO (x, c))"
definition lfM :: "'a res \<Rightarrow> 'a mpm" where "lfM r = upM (lf r)"
definition okM :: "'a \<Rightarrow> 'a mpm" where "okM x c = okO (x, c)"
definition getM :: "mp_cache mpm" where "getM c = okO (c, c)"
definition putM :: "mp_cache \<Rightarrow> unit mpm" where "putM c' c = okO ((), c')"

lemma bndM_simps [simp]:
  "bndM (okM x) k = k x" "bndM (lfM (Inr x)) k = k x" "bndM (upM (Some (Inr x))) k = k x"
  "bndM (lfM (Inl e)) k = lfM (Inl e)"
  by (rule ext, simp add: bndM_def okM_def lfM_def upM_def okO_def lf_def)+

section \<open>Helpers\<close>

definition dbl_milli :: u64 where "dbl_milli = 0x3F50624DD2F1A9FC"

definition dbl_of_digit :: "'a dbl_ops_scheme \<Rightarrow> int \<Rightarrow> u64" where
  "dbl_of_digit f d = f_of_i64 f (word_of_int d)"

definition mp_must_reduce :: "'a dbl_ops_scheme \<Rightarrow> a68_mp \<Rightarrow> nat \<Rightarrow> bool res" where
  "mp_must_reduce f z digs =
     (let expo = mp_ex z * 7 in
     if mp_is_zero z then Inr (False)
     else (if expo \<ge> 0 then Inr (True)
     else (if expo < - 14 then Inr (False)
     else (bindE (mp_ten_up_real f (expo * 7)) (\<lambda>t.
     (let est = f_mul f (dbl_of_digit f \<bar>mp_dig z 1\<bar>) t in
     if digs > 1 then (
         bindE (mp_ten_up_real f 7) (\<lambda>t.
         Inr (f_less f dbl_milli (f_add f est (f_div f (f_mul f (dbl_of_digit f (mp_dig z 2)) (dbl_of_digit f expo)) t)))))
     else (
         Inr (f_less f dbl_milli est))))))))"


definition mp_same :: "a68_mp \<Rightarrow> a68_mp \<Rightarrow> nat \<Rightarrow> bool" where
  "mp_same x y digs \<longleftrightarrow> \<not> mp_is_nan x \<and> \<not> mp_is_nan y \<and> mp_st x = mp_st y \<and> mp_ex x = mp_ex y
     \<and> (\<forall>k\<in>set [1..<Suc digs]. mp_dig x k = mp_dig y k)"

text \<open>The precisions of a Newton iteration: the decimals double from 14 on until they reach the limit.\<close>

function newton_digs :: "nat \<Rightarrow> nat \<Rightarrow> nat \<Rightarrow> nat list" where
  "newton_digs dec lim gdigs = (if dec = 0 then [] else
     min (1 + 2 * dec div 7) gdigs # (if 2 * dec < lim then newton_digs (2 * dec) lim gdigs else []))"
  by pat_completeness auto
termination by (relation "measure (\<lambda>(dec, lim, gdigs). lim - dec)") auto

declare newton_digs.simps [simp del]

definition DOUBLE_ACCURACY :: nat where "DOUBLE_ACCURACY = 14"

text \<open>What the functions of a positive argument do with infinities, zero and negative numbers.\<close>

section \<open>Roots\<close>

fun sqrt_newton :: "a68_mp \<Rightarrow> nat list \<Rightarrow> a68_mp \<Rightarrow> a68_mp \<Rightarrow> a68_mp res" where
  "sqrt_newton xg [] tmp zg = Inr zg"
| "sqrt_newton xg (h # hs) tmp zg =
     bindE (mp_div tmp xg zg h) (\<lambda>tmp. bindE (mp_add tmp zg tmp h) (\<lambda>tmp.
     bindE (mp_half zg tmp h) (\<lambda>zg. sqrt_newton xg hs tmp zg)))"

partial_function (option) mp_sqrt :: "'a math_ops_scheme \<Rightarrow> a68_mp \<Rightarrow> a68_mp \<Rightarrow> nat \<Rightarrow> a68_mp res option" where
  "mp_sqrt f z x digs =
     (let gdigs = digs + MP_GUARDS in
     bindO (lf (mp_catch_nan x)) (\<lambda>u.
     if mp_is_pinf x then okO (mp_set_pinf z)
     else (if mp_is_minf x then okO (mp_set_nan z)
     else (if mp_dig x 1 = 0 then lf (mp_set_zero z digs)
     else (if mp_dig x 1 < 0 then okO (mp_set_nan z)
     else (bindO (lf (mp_len x digs gdigs)) (\<lambda>xg.
     (let reciprocal = (mp_ex xg < 0) in
     bindO (lf ((if reciprocal then mp_rec xg xg gdigs else Inr xg))) (\<lambda>xg.
     bindO (if \<bar>mp_ex xg\<bar> \<ge> 2 then (
             (let expo = mp_ex xg in
             bindO (mp_sqrt f (mp_nil gdigs) (xg\<lparr>mp_ex := c_rem expo 2\<rparr>) gdigs) (\<lambda>zg.
             okO (zg\<lparr>mp_ex := mp_ex zg + c_quot expo 2\<rparr>))))
         else (
             bindO (lf (mp_to_double f xg gdigs)) (\<lambda>xd.
             bindO (lf (mp_real_to_mp f (mp_nil gdigs) (f_sqrt f xd) gdigs)) (\<lambda>zg.
             lf (sqrt_newton xg (newton_digs DOUBLE_ACCURACY (2 * gdigs * 7) gdigs) (mp_nil gdigs) zg)))))
       (\<lambda>zg.
     bindO (lf ((if reciprocal then mp_rec zg zg digs else Inr zg))) (\<lambda>zg.
     lf (mp_shorten z digs zg gdigs))))))))))))"


fun curt_newton :: "a68_mp \<Rightarrow> nat list \<Rightarrow> a68_mp \<Rightarrow> a68_mp \<Rightarrow> a68_mp res" where
  "curt_newton xg [] tmp zg = Inr zg"
| "curt_newton xg (h # hs) tmp zg =
     bindE (mp_mul tmp zg zg h) (\<lambda>tmp. bindE (mp_div tmp xg tmp h) (\<lambda>tmp.
     bindE (mp_add tmp zg tmp h) (\<lambda>tmp. bindE (mp_add tmp zg tmp h) (\<lambda>tmp.
     bindE (mp_div_digit zg tmp 3 h) (\<lambda>zg. curt_newton xg hs tmp zg)))))"

partial_function (option) mp_curt :: "'a math_ops_scheme \<Rightarrow> a68_mp \<Rightarrow> a68_mp \<Rightarrow> nat \<Rightarrow> a68_mp res option" where
  "mp_curt f z x digs =
     (let gdigs = digs + MP_GUARDS in
     bindO (lf (mp_catch_nan x)) (\<lambda>u.
     if mp_is_pinf x then okO (mp_set_pinf z)
     else (if mp_is_minf x then okO (mp_set_nan z)
     else (if mp_dig x 1 = 0 then lf (mp_set_zero z digs)
     else ((let change_sign = (mp_dig x 1 < 0) in
     bindO (lf (mp_len x digs gdigs)) (\<lambda>xg.
     (let xg = (if change_sign then mp_negate1 xg else xg);
          reciprocal = (mp_ex xg < 0) in
     bindO (lf ((if reciprocal then mp_rec xg xg gdigs else Inr xg))) (\<lambda>xg.
     bindO (if \<bar>mp_ex xg\<bar> \<ge> 3 then (
             (let expo = mp_ex xg in
             bindO (mp_curt f (mp_nil gdigs) (xg\<lparr>mp_ex := c_rem expo 3\<rparr>) gdigs) (\<lambda>zg.
             okO (zg\<lparr>mp_ex := mp_ex zg + c_quot expo 3\<rparr>))))
         else (
             bindO (lf (mp_to_double f xg gdigs)) (\<lambda>xd.
             bindO (lf (mp_real_to_mp f (mp_nil gdigs) (f_cbrt f xd) gdigs)) (\<lambda>zg.
             lf (curt_newton xg (newton_digs DOUBLE_ACCURACY (gdigs * 7) gdigs) (mp_nil gdigs) zg)))))
       (\<lambda>zg.
     bindO (lf ((if reciprocal then mp_rec zg zg digs else Inr zg))) (\<lambda>zg.
     bindO (lf (mp_shorten z digs zg gdigs)) (\<lambda>z.
     okO (if change_sign then mp_negate1 z else z)))))))))))))"


section \<open>The exponential function\<close>

partial_function (option) exp_loop :: "a68_mp \<Rightarrow> nat \<Rightarrow> int \<Rightarrow> a68_mp \<Rightarrow> a68_mp \<Rightarrow> a68_mp \<Rightarrow> a68_mp \<Rightarrow> a68_mp res option" where
  "exp_loop xg gdigs n sm pwr fac tmp =
     bindO (lf (mp_div tmp pwr fac gdigs)) (\<lambda>tmp.
     if mp_ex tmp \<le> mp_ex sm - int gdigs then okO (sm)
     else (bindO (lf (mp_add sm sm tmp gdigs)) (\<lambda>sm.
     bindO (lf (mp_mul pwr pwr xg gdigs)) (\<lambda>pwr.
     bindO (lf (mp_mul_digit fac fac (n + 1) gdigs)) (\<lambda>fac.
     exp_loop xg gdigs (n + 1) sm pwr fac tmp)))))"


fun exp_terms :: "a68_mp \<Rightarrow> nat \<Rightarrow> int list \<Rightarrow> a68_mp \<Rightarrow> a68_mp \<Rightarrow> a68_mp \<Rightarrow> (a68_mp \<times> a68_mp \<times> a68_mp) res" where
  "exp_terms xg gdigs [] sm pwr tmp = Inr (sm, pwr, tmp)"
| "exp_terms xg gdigs (k # ks) sm pwr tmp =
     bindE (mp_mul pwr pwr xg gdigs) (\<lambda>pwr. bindE (mp_div_digit tmp pwr k gdigs) (\<lambda>tmp.
     bindE (mp_add sm sm tmp gdigs) (\<lambda>sm. exp_terms xg gdigs ks sm pwr tmp)))"

definition exp_series :: "a68_mp \<Rightarrow> a68_mp \<Rightarrow> nat \<Rightarrow> a68_mp res option" where
  "exp_series sm xg gdigs =
     (let tmp = mp_nil gdigs in
     bindO (lf (mp_add sm sm xg gdigs)) (\<lambda>sm.
     bindO (lf (mp_mul (mp_nil gdigs) xg xg gdigs)) (\<lambda>pwr.
     bindO (lf (mp_half tmp pwr gdigs)) (\<lambda>tmp.
     bindO (lf (mp_add sm sm tmp gdigs)) (\<lambda>sm.
     bindO (lf (exp_terms xg gdigs [6, 24, 120, 720, 5040, 40320, 362880] sm pwr tmp)) (\<lambda>(sm, pwr, tmp).
     bindO (lf (mp_mul pwr pwr xg gdigs)) (\<lambda>pwr.
     bindO (lf (mp_set (mp_nil gdigs) 3628800 0 gdigs)) (\<lambda>fac.
     if mp_dig pwr 1 = 0 then okO (sm)
     else (exp_loop xg gdigs 10 sm pwr fac tmp)))))))))"

partial_function (option) halve_loop :: "'a dbl_ops_scheme \<Rightarrow> nat \<Rightarrow> a68_mp \<Rightarrow> nat \<Rightarrow> (a68_mp \<times> nat) res option" where
  "halve_loop f gdigs xg m =
     bindO (lf (mp_must_reduce f xg gdigs)) (\<lambda>reduce.
     if \<not>  reduce then okO ((xg, m))
     else (bindO (lf (mp_half xg xg gdigs)) (\<lambda>xg.
     halve_loop f gdigs xg (m + 1))))"


fun square_times :: "nat \<Rightarrow> nat \<Rightarrow> a68_mp \<Rightarrow> a68_mp res" where
  "square_times gdigs 0 sm = Inr sm"
| "square_times gdigs (Suc m) sm = bindE (mp_mul sm sm sm gdigs) (square_times gdigs m)"

definition mp_exp :: "'a dbl_ops_scheme \<Rightarrow> a68_mp \<Rightarrow> a68_mp \<Rightarrow> nat \<Rightarrow> a68_mp res option" where
  "mp_exp f z x digs =
     (let gdigs = digs + MP_GUARDS in
     bindO (lf (mp_catch_nan x)) (\<lambda>u.
     if mp_is_pinf x then okO (mp_set_pinf z)
     else (if mp_is_minf x then lf (mp_set_zero z digs)
     else (if mp_dig x 1 = 0 then lf (mp_set_one z digs)
     else (bindO (lf (mp_len x digs gdigs)) (\<lambda>xg.
     bindO (halve_loop f gdigs xg 0) (\<lambda>(xg, m).
     bindO (lf (mp_set_one (mp_nil gdigs) gdigs)) (\<lambda>sm.
     bindO (exp_series sm xg gdigs) (\<lambda>sm.
     bindO (lf (square_times gdigs m sm)) (\<lambda>sm.
     lf (mp_shorten z digs sm gdigs)))))))))))"

definition mp_expm1 :: "a68_mp \<Rightarrow> a68_mp \<Rightarrow> nat \<Rightarrow> a68_mp res option" where
  "mp_expm1 z x digs =
     (let gdigs = digs + MP_GUARDS in
     bindO (lf (mp_catch_nan x)) (\<lambda>u.
     if mp_is_pinf x then okO (mp_set_pinf z)
     else (if mp_is_minf x then lf (mp_set z (- 1) 0 digs)
     else (if mp_dig x 1 = 0 then lf (mp_set_one z digs)
     else (bindO (lf (mp_len x digs gdigs)) (\<lambda>xg.
     bindO (exp_series (mp_nil gdigs) xg gdigs) (\<lambda>sm.
     lf (mp_shorten z digs sm gdigs))))))))"


section \<open>The logarithm\<close>

partial_function (option) ln_loop :: "a68_mp \<Rightarrow> nat \<Rightarrow> int \<Rightarrow> a68_mp \<Rightarrow> a68_mp \<Rightarrow> a68_mp \<Rightarrow> a68_mp res option" where
  "ln_loop xg gdigs n zg pwr tmp =
     bindO (lf (mp_div_digit tmp pwr n gdigs)) (\<lambda>tmp.
     if mp_ex tmp \<le> mp_ex zg - int gdigs then okO (zg)
     else ((let tmp = (if even n then mp_negate1 tmp else tmp) in
     bindO (lf (mp_add zg zg tmp gdigs)) (\<lambda>zg.
     bindO (lf (mp_mul pwr pwr xg gdigs)) (\<lambda>pwr.
     ln_loop xg gdigs (n + 1) zg pwr tmp)))))"


fun ln_newton :: "'a dbl_ops_scheme \<Rightarrow> a68_mp \<Rightarrow> nat list \<Rightarrow> a68_mp \<Rightarrow> a68_mp \<Rightarrow> a68_mp res option" where
  "ln_newton f xg [] tmp zg = okO zg"
| "ln_newton f xg (h # hs) tmp zg =
     bindO (mp_exp f tmp zg h) (\<lambda>tmp. bindO (lf (mp_div tmp xg tmp h)) (\<lambda>tmp.
     bindO (lf (mp_minus_one zg zg h)) (\<lambda>zg. bindO (lf (mp_add zg zg tmp h)) (\<lambda>zg. ln_newton f xg hs tmp zg))))"

text \<open>The logarithm of a number next to 1, by its series, or of any other by Newton's iteration.\<close>

definition ln_core :: "'a math_ops_scheme \<Rightarrow> a68_mp \<Rightarrow> nat \<Rightarrow> a68_mp res option" where
  "ln_core f xg gdigs =
     (if mp_ex xg = 0 \<and> mp_dig xg 1 = 1 \<and> mp_dig xg 2 = 0 then (
         bindO (lf (mp_minus_one xg xg gdigs)) (\<lambda>xg.
         bindO (lf (mp_mul (mp_nil gdigs) xg xg gdigs)) (\<lambda>pwr.
         bindO (lf (mp_move (mp_nil gdigs) xg gdigs)) (\<lambda>zg.
         if mp_dig pwr 1 = 0 then okO (zg)
         else (ln_loop xg gdigs 2 zg pwr (mp_nil gdigs))))))
     else (
         bindO (lf (mp_to_double f xg gdigs)) (\<lambda>xd.
         bindO (lf (mp_real_to_mp f (mp_nil gdigs) (f_log f xd) gdigs)) (\<lambda>zg.
         ln_newton f xg (newton_digs DOUBLE_ACCURACY (gdigs * 7) gdigs) (mp_nil gdigs) zg))))"


text \<open>
  \<open>mp_ln\<close> calls \<open>mp_ln_scale\<close> for numbers of an exponent of at least 2 and that calls \<open>mp_ln\<close> for 10^7, whose
  exponent is 1. Here the inner function is a parameter, so that the calls are not mutually recursive.
\<close>

definition mp_ln_with :: "'a math_ops_scheme \<Rightarrow> (nat \<Rightarrow> a68_mp mpm) \<Rightarrow> a68_mp \<Rightarrow> a68_mp \<Rightarrow> nat \<Rightarrow> a68_mp mpm" where
  "mp_ln_with f ln_base_of z x digs =
     (let gdigs = digs + MP_GUARDS in
     bndM (lfM (mp_catch_nan x)) (\<lambda>u.
     if mp_is_pinf x then okM (mp_set_pinf z)
     else (if mp_is_minf x then okM (mp_set_nan z)
     else (if mp_dig x 1 = 0 then okM (mp_set_minf z)
     else (if mp_dig x 1 < 0 then okM (mp_set_nan z)
     else (bndM (lfM (mp_len x digs gdigs)) (\<lambda>xg.
     (let neg = (mp_ex xg < 0) in
     bndM (lfM ((if neg then mp_rec xg xg digs else Inr xg))) (\<lambda>xg.
     (let expo = mp_ex xg;
          scale = (\<bar>expo\<bar> \<ge> 2) in
     bndM (upM (ln_core f (if scale then xg\<lparr>mp_ex := 0\<rparr> else xg) gdigs)) (\<lambda>zg.
     bndM (if scale then (
             bndM (ln_base_of gdigs) (\<lambda>ln_base.
             bndM (lfM (mp_mul_digit ln_base ln_base expo gdigs)) (\<lambda>ln_base.
             lfM (mp_add zg zg ln_base gdigs))))
         else (
             okM (zg)))
       (\<lambda>zg.
     (let zg = (if neg then mp_negate1 zg else zg) in
     lfM (mp_shorten z digs zg gdigs))))))))))))))"


text \<open>The logarithm of \<open>u 10^(7 e)\<close>, stored in the cache by \<open>store\<close>.\<close>

definition ln_const :: "'a math_ops_scheme \<Rightarrow> int \<Rightarrow> int \<Rightarrow> nat \<Rightarrow> (nat \<times> a68_mp \<Rightarrow> mp_cache \<Rightarrow> mp_cache) \<Rightarrow> a68_mp mpm" where
  "ln_const f u e gdigs store =
     bndM (lfM (mp_set (mp_nil gdigs) u e gdigs)) (\<lambda>zg.
     bndM (mp_ln_with f (\<lambda>_. lfM (Inl (Fatal ''ln_const''))) zg zg gdigs) (\<lambda>zg.
     bndM (getM) (\<lambda>c.
     bndM (putM (store (gdigs, zg) c)) (\<lambda>d.
     lfM (mp_move (mp_nil gdigs) zg gdigs)))))"

definition mp_ln_scale :: "'a math_ops_scheme \<Rightarrow> a68_mp \<Rightarrow> nat \<Rightarrow> a68_mp mpm" where
  "mp_ln_scale f z digs =
     (let gdigs = digs + MP_GUARDS in
     bndM (getM) (\<lambda>c.
     bndM ((case c_ls c of Some (n, v) \<Rightarrow> (if gdigs \<le> n then lfM (mp_move (mp_nil gdigs) v gdigs) else ln_const f 1 1 gdigs (\<lambda>x c. c\<lparr>c_ls := Some x\<rparr>)) | None \<Rightarrow> ln_const f 1 1 gdigs (\<lambda>x c. c\<lparr>c_ls := Some x\<rparr>))) (\<lambda>zg.
     lfM (mp_shorten z digs zg gdigs))))"

definition mp_ln_10 :: "'a math_ops_scheme \<Rightarrow> a68_mp \<Rightarrow> nat \<Rightarrow> a68_mp mpm" where
  "mp_ln_10 f z digs =
     (let gdigs = digs + MP_GUARDS in
     bndM (getM) (\<lambda>c.
     bndM ((case c_l10 c of Some (n, v) \<Rightarrow> (if gdigs \<le> n then lfM (mp_move (mp_nil gdigs) v gdigs) else ln_const f 10 0 gdigs (\<lambda>x c. c\<lparr>c_l10 := Some x\<rparr>)) | None \<Rightarrow> ln_const f 10 0 gdigs (\<lambda>x c. c\<lparr>c_l10 := Some x\<rparr>))) (\<lambda>zg.
     lfM (mp_shorten z digs zg gdigs))))"


definition mp_ln :: "'a math_ops_scheme \<Rightarrow> a68_mp \<Rightarrow> a68_mp \<Rightarrow> nat \<Rightarrow> a68_mp mpm" where
  "mp_ln f = mp_ln_with f (\<lambda>n. mp_ln_scale f (mp_nil n) n)"

definition mp_log :: "'a math_ops_scheme \<Rightarrow> a68_mp \<Rightarrow> a68_mp \<Rightarrow> nat \<Rightarrow> a68_mp mpm" where
  "mp_log f z x digs =
     bndM (lfM (mp_catch_nan x)) (\<lambda>u.
     if mp_is_pinf x then okM (mp_set_pinf z)
     else (if mp_is_minf x then okM (mp_set_nan z)
     else (if mp_dig x 1 = 0 then okM (mp_set_minf z)
     else (if mp_dig x 1 < 0 then okM (mp_set_nan z)
     else (bndM (mp_ln f z x digs) (\<lambda>z.
     if mp_is_nan z then okM (mp_set_nan z)
     else (bndM (mp_ln_10 f (mp_nil digs) digs) (\<lambda>l10.
     lfM (mp_div z z l10 digs)))))))))"


section \<open>The number pi\<close>

text \<open>The arithmetic-geometric mean, until an iteration changes nothing.\<close>

partial_function (option) pi_loop :: "'a math_ops_scheme \<Rightarrow> nat \<Rightarrow> a68_mp \<Rightarrow> a68_mp \<Rightarrow> a68_mp \<Rightarrow> a68_mp \<Rightarrow> a68_mp \<Rightarrow> a68_mp res option" where
  "pi_loop f gdigs pi_g xg yg ug vg =
     bindO (mp_sqrt f ug xg gdigs) (\<lambda>ug.
     bindO (lf (mp_rec vg ug gdigs)) (\<lambda>vg.
     bindO (lf (mp_add ug ug vg gdigs)) (\<lambda>ug.
     bindO (lf (mp_half xg ug gdigs)) (\<lambda>xg.
     bindO (lf (mp_plus_one ug xg gdigs)) (\<lambda>ug.
     bindO (lf (mp_plus_one vg yg gdigs)) (\<lambda>vg.
     bindO (lf (mp_div ug ug vg gdigs)) (\<lambda>ug.
     bindO (lf (mp_mul vg pi_g ug gdigs)) (\<lambda>vg.
     if mp_same vg pi_g gdigs then okO (pi_g)
     else (bindO (lf (mp_move pi_g vg gdigs)) (\<lambda>pi_g.
     bindO (mp_sqrt f ug xg gdigs) (\<lambda>ug.
     bindO (lf (mp_rec vg ug gdigs)) (\<lambda>vg.
     bindO (lf (mp_mul ug yg ug gdigs)) (\<lambda>ug.
     bindO (lf (mp_add ug ug vg gdigs)) (\<lambda>ug.
     bindO (lf (mp_plus_one vg yg gdigs)) (\<lambda>vg.
     bindO (lf (mp_div yg ug vg gdigs)) (\<lambda>yg.
     pi_loop f gdigs pi_g xg yg ug vg))))))))))))))))"

definition pi_compute :: "'a math_ops_scheme \<Rightarrow> nat \<Rightarrow> a68_mp res option" where
  "pi_compute f gdigs =
     (let two = mp_lit gdigs 2 0 in
     bindO (mp_sqrt f two two gdigs) (\<lambda>xg.
     bindO (lf (mp_add (mp_nil gdigs) xg two gdigs)) (\<lambda>pi_g.
     bindO (mp_sqrt f (mp_nil gdigs) xg gdigs) (\<lambda>yg.
     pi_loop f gdigs pi_g xg yg (mp_nil gdigs) (mp_nil gdigs)))))"


text \<open>The constants that are kept with \<open>pi\<close>.\<close>

definition pi_constants :: "'a math_ops_scheme \<Rightarrow> a68_mp \<Rightarrow> nat \<Rightarrow> (mp_pi_mod \<Rightarrow> a68_mp) mpm" where
  "pi_constants f api digs =
     bndM (lfM (mp_move (mp_nil digs) api digs)) (\<lambda>p.
     bndM (lfM (mp_half (mp_nil digs) api digs)) (\<lambda>h.
     bndM (upM (mp_sqrt f (mp_nil digs) api digs)) (\<lambda>sp.
     bndM (mp_ln f (mp_nil digs) api digs) (\<lambda>lp.
     bndM (lfM (mp_mul_digit (mp_nil digs) api 2 digs)) (\<lambda>tp.
     bndM (upM (mp_sqrt f (mp_nil digs) tp digs)) (\<lambda>stp.
     bndM (lfM (mp_div_digit (mp_nil digs) api 180 digs)) (\<lambda>po.
     bndM (lfM (mp_rec (mp_nil digs) po digs)) (\<lambda>rp.
     okM (\<lambda>md. case md of MP_PI \<Rightarrow> p | MP_HALF_PI \<Rightarrow> h | MP_TWO_PI \<Rightarrow> tp | MP_SQRT_TWO_PI \<Rightarrow> stp | MP_SQRT_PI \<Rightarrow> sp | MP_LN_PI \<Rightarrow> lp | MP_180_OVER_PI \<Rightarrow> rp | MP_PI_OVER_180 \<Rightarrow> po)))))))))"


text \<open>The cached constants are dropped before they are computed again.\<close>

definition mp_pi :: "'a math_ops_scheme \<Rightarrow> a68_mp \<Rightarrow> mp_pi_mod \<Rightarrow> nat \<Rightarrow> a68_mp mpm" where
  "mp_pi f api md digs =
     (let gdigs = digs + MP_GUARDS in
     bndM (getM) (\<lambda>c.
     bndM (if (case c_pi c of None \<Rightarrow> True | Some (n, v) \<Rightarrow> gdigs > n) then (
             bndM (putM (c\<lparr>c_pi := None\<rparr>)) (\<lambda>d.
             bndM (upM (pi_compute f gdigs)) (\<lambda>pi_g.
             bndM (lfM (mp_move (mp_nil digs) api digs)) (\<lambda>api1.
             bndM (lfM (mp_shorten api1 digs pi_g gdigs)) (\<lambda>api1.
             bndM (pi_constants f api1 digs) (\<lambda>consts.
             bndM (getM) (\<lambda>c.
             bndM (putM (c\<lparr>c_pi := Some (gdigs, consts)\<rparr>)) (\<lambda>d.
             lfM (mp_move api api1 digs)))))))))
         else (
             okM (api)))
       (\<lambda>api.
     bndM (getM) (\<lambda>c.
     lfM ((case c_pi c of Some (n, v) \<Rightarrow> mp_move api (v md) digs | None \<Rightarrow> Inr (mp_set_nan api)))))))"


section \<open>Hyperbolic functions\<close>

definition is_one :: "a68_mp \<Rightarrow> bool" where
  "is_one x \<longleftrightarrow> mp_dig x 1 = 1 \<and> mp_dig x 2 = 0"

definition hyp_mp :: "'a dbl_ops_scheme \<Rightarrow> a68_mp \<Rightarrow> a68_mp \<Rightarrow> a68_mp \<Rightarrow> nat \<Rightarrow> (a68_mp \<times> a68_mp) res option" where
  "hyp_mp f sh ch z digs =
     bindO (lf (mp_move (mp_nil digs) z digs)) (\<lambda>zg.
     bindO (mp_exp f (mp_nil digs) zg digs) (\<lambda>xg.
     bindO (lf (mp_rec (mp_nil digs) xg digs)) (\<lambda>yg.
     bindO (lf (mp_add ch xg yg digs)) (\<lambda>ch.
     bindO (if is_one xg \<or> is_one yg then (
             bindO (mp_expm1 xg zg digs) (\<lambda>xg.
             bindO (mp_expm1 yg (mp_negate1 zg) digs) (\<lambda>yg.
             okO ((xg, yg)))))
         else (
             okO ((xg, yg))))
       (\<lambda>(xg, yg).
     bindO (lf (mp_sub sh xg yg digs)) (\<lambda>sh.
     bindO (lf (mp_half sh sh digs)) (\<lambda>sh.
     bindO (lf (mp_half ch ch digs)) (\<lambda>ch.
     okO ((sh, ch))))))))))"

definition hyp_at :: "'a dbl_ops_scheme \<Rightarrow> a68_mp \<Rightarrow> nat \<Rightarrow> (a68_mp \<times> a68_mp) res option" where
  "hyp_at f x digs =
     (let gdigs = digs + MP_GUARDS in
     bindO (lf (mp_catch_nan x)) (\<lambda>u.
     bindO (lf (mp_len x digs gdigs)) (\<lambda>xg.
     hyp_mp f (mp_nil gdigs) (mp_nil gdigs) xg gdigs)))"

definition mp_sinh :: "'a dbl_ops_scheme \<Rightarrow> a68_mp \<Rightarrow> a68_mp \<Rightarrow> nat \<Rightarrow> a68_mp res option" where
  "mp_sinh f z x digs =
     bindO (hyp_at f x digs) (\<lambda>(s, c).
     lf (mp_shorten z digs s (digs + MP_GUARDS)))"

definition mp_cosh :: "'a dbl_ops_scheme \<Rightarrow> a68_mp \<Rightarrow> a68_mp \<Rightarrow> nat \<Rightarrow> a68_mp res option" where
  "mp_cosh f z x digs =
     bindO (hyp_at f x digs) (\<lambda>(s, c).
     lf (mp_shorten z digs c (digs + MP_GUARDS)))"

definition mp_tanh :: "'a dbl_ops_scheme \<Rightarrow> a68_mp \<Rightarrow> a68_mp \<Rightarrow> nat \<Rightarrow> a68_mp res option" where
  "mp_tanh f z x digs =
     bindO (hyp_at f x digs) (\<lambda>(s, c).
     bindO (lf (mp_div c s c (digs + MP_GUARDS))) (\<lambda>c.
     lf (mp_shorten z digs c (digs + MP_GUARDS))))"

definition mp_asinh :: "'a math_ops_scheme \<Rightarrow> a68_mp \<Rightarrow> a68_mp \<Rightarrow> nat \<Rightarrow> a68_mp mpm" where
  "mp_asinh f z x digs =
     bndM (lfM (mp_catch_nan x)) (\<lambda>u.
     if mp_is_zero x then lfM (mp_set_zero z digs)
     else ((let gdigs = (if mp_ex x \<ge> - 1 then digs + MP_GUARDS else 2 * (digs + MP_GUARDS)) in
     bndM (lfM (mp_len x digs gdigs)) (\<lambda>xg.
     bndM (lfM (mp_mul (mp_nil gdigs) xg xg gdigs)) (\<lambda>zg.
     bndM (lfM (mp_add (mp_nil gdigs) zg (mp_one gdigs) gdigs)) (\<lambda>yg.
     bndM (upM (mp_sqrt f yg yg gdigs)) (\<lambda>yg.
     bndM (lfM (mp_add yg yg xg gdigs)) (\<lambda>yg.
     bndM (mp_ln f zg yg gdigs) (\<lambda>zg.
     if mp_is_zero zg then lfM (mp_move z x digs)
     else (lfM (mp_shorten z digs zg gdigs)))))))))))"

definition mp_acosh :: "'a math_ops_scheme \<Rightarrow> a68_mp \<Rightarrow> a68_mp \<Rightarrow> nat \<Rightarrow> a68_mp mpm" where
  "mp_acosh f z x digs =
     (let gdigs = (if is_one x then 2 * (digs + MP_GUARDS) else digs + MP_GUARDS) in
     bndM (lfM (mp_len x digs gdigs)) (\<lambda>xg.
     bndM (lfM (mp_mul (mp_nil gdigs) xg xg gdigs)) (\<lambda>zg.
     bndM (lfM (mp_sub (mp_nil gdigs) zg (mp_one gdigs) gdigs)) (\<lambda>yg.
     bndM (upM (mp_sqrt f yg yg gdigs)) (\<lambda>yg.
     bndM (lfM (mp_add yg yg xg gdigs)) (\<lambda>yg.
     bndM (mp_ln f zg yg gdigs) (\<lambda>zg.
     lfM (mp_shorten z digs zg gdigs))))))))"

definition mp_atanh :: "'a math_ops_scheme \<Rightarrow> a68_mp \<Rightarrow> a68_mp \<Rightarrow> nat \<Rightarrow> a68_mp mpm" where
  "mp_atanh f z x digs =
     (let gdigs = digs + MP_GUARDS in
     bndM (lfM (mp_catch_nan x)) (\<lambda>u.
     bndM (lfM (mp_len x digs gdigs)) (\<lambda>xg.
     (let yg = mp_one gdigs in
     bndM (lfM (mp_add (mp_nil gdigs) yg xg gdigs)) (\<lambda>zg.
     bndM (lfM (mp_sub yg yg xg gdigs)) (\<lambda>yg.
     bndM (lfM (mp_div yg zg yg gdigs)) (\<lambda>yg.
     bndM (mp_ln f zg yg gdigs) (\<lambda>zg.
     bndM (lfM (mp_half zg zg gdigs)) (\<lambda>zg.
     lfM (mp_shorten z digs zg gdigs))))))))))"


section \<open>Circular functions\<close>

partial_function (option) thirds_loop :: "'a dbl_ops_scheme \<Rightarrow> nat \<Rightarrow> a68_mp \<Rightarrow> nat \<Rightarrow> (a68_mp \<times> nat) res option" where
  "thirds_loop f gdigs xg m =
     bindO (lf (mp_must_reduce f xg gdigs)) (\<lambda>reduce.
     if \<not>  reduce then okO ((xg, m))
     else (bindO (lf (mp_div_digit xg xg 3 gdigs)) (\<lambda>xg.
     thirds_loop f gdigs xg (m + 1))))"

partial_function (option) sin_loop :: "a68_mp \<Rightarrow> nat \<Rightarrow> int \<Rightarrow> bool \<Rightarrow> a68_mp \<Rightarrow> a68_mp \<Rightarrow> a68_mp \<Rightarrow> a68_mp \<Rightarrow> (a68_mp \<times> a68_mp \<times> a68_mp) res option" where
  "sin_loop sqr gdigs n even_t zg pwr fac tmp =
     bindO (lf (mp_div tmp pwr fac gdigs)) (\<lambda>tmp.
     if mp_ex tmp \<le> mp_ex zg - int gdigs then okO ((zg, pwr, fac))
     else (bindO (lf ((if even_t then mp_add zg zg tmp gdigs else mp_sub zg zg tmp gdigs))) (\<lambda>zg.
     bindO (lf (mp_mul pwr pwr sqr gdigs)) (\<lambda>pwr.
     bindO (lf (mp_mul_digit fac fac (n + 1) gdigs)) (\<lambda>fac.
     bindO (lf (mp_mul_digit fac fac (n + 2) gdigs)) (\<lambda>fac.
     sin_loop sqr gdigs (n + 2) (\<not>  even_t) zg pwr fac tmp))))))"


text \<open>The first four terms of the sine, then the loop.\<close>

definition sin_series :: "a68_mp \<Rightarrow> nat \<Rightarrow> (a68_mp \<times> a68_mp \<times> a68_mp) res option" where
  "sin_series xg gdigs =
     bindO (lf (mp_mul (mp_nil gdigs) xg xg gdigs)) (\<lambda>sqr.
     bindO (lf (mp_mul (mp_nil gdigs) sqr xg gdigs)) (\<lambda>pwr.
     bindO (lf (mp_move (mp_nil gdigs) xg gdigs)) (\<lambda>zg.
     bindO (lf (mp_div_digit (mp_nil gdigs) pwr 6 gdigs)) (\<lambda>tmp.
     bindO (lf (mp_sub zg zg tmp gdigs)) (\<lambda>zg.
     bindO (lf (mp_mul pwr pwr sqr gdigs)) (\<lambda>pwr.
     bindO (lf (mp_div_digit tmp pwr 120 gdigs)) (\<lambda>tmp.
     bindO (lf (mp_add zg zg tmp gdigs)) (\<lambda>zg.
     bindO (lf (mp_mul pwr pwr sqr gdigs)) (\<lambda>pwr.
     bindO (lf (mp_div_digit tmp pwr 5040 gdigs)) (\<lambda>tmp.
     bindO (lf (mp_sub zg zg tmp gdigs)) (\<lambda>zg.
     bindO (lf (mp_mul pwr pwr sqr gdigs)) (\<lambda>pwr.
     bindO (lf (mp_set (mp_nil gdigs) 362880 0 gdigs)) (\<lambda>fac.
     if mp_dig pwr 1 = 0 then okO ((zg, pwr, fac))
     else (sin_loop sqr gdigs 9 True zg pwr fac tmp))))))))))))))"


text \<open>The sine of the triple angle, \<open>m\<close> times.\<close>

fun triple_times :: "nat \<Rightarrow> a68_mp \<Rightarrow> nat \<Rightarrow> a68_mp \<Rightarrow> a68_mp \<Rightarrow> a68_mp res" where
  "triple_times gdigs fac 0 pwr zg = Inr zg"
| "triple_times gdigs fac (Suc m) pwr zg =
     bindE (mp_mul pwr zg zg gdigs) (\<lambda>pwr. bindE (mp_mul_digit pwr pwr 4 gdigs) (\<lambda>pwr.
     bindE (mp_sub pwr fac pwr gdigs) (\<lambda>pwr. bindE (mp_mul zg pwr zg gdigs) (\<lambda>zg.
     triple_times gdigs fac m pwr zg))))"

definition mp_sin :: "'a math_ops_scheme \<Rightarrow> a68_mp \<Rightarrow> a68_mp \<Rightarrow> nat \<Rightarrow> a68_mp mpm" where
  "mp_sin f z x digs =
     (let gdigs = digs + MP_GUARDS in
     if \<not>  mp_is_finite x then okM (mp_set_nan z)
     else (bndM (mp_pi f (mp_nil gdigs) MP_PI gdigs) (\<lambda>pi.
     bndM (mp_pi f (mp_nil gdigs) MP_TWO_PI gdigs) (\<lambda>tpi.
     bndM (mp_pi f (mp_nil gdigs) MP_HALF_PI gdigs) (\<lambda>hpi.
     bndM (lfM (mp_len x digs gdigs)) (\<lambda>xg.
     bndM (lfM (mp_mod xg xg tpi gdigs)) (\<lambda>xg.
     (let neg = (mp_dig xg 1 < 0);
          xg = (if neg then mp_negate1 xg else xg) in
     bndM (lfM (mp_sub (mp_nil gdigs) xg pi gdigs)) (\<lambda>tmp.
     (let flip = (mp_dig tmp 1 > 0) in
     bndM (lfM ((if flip then mp_sub xg xg pi gdigs else Inr xg))) (\<lambda>xg.
     bndM (lfM (mp_sub tmp xg hpi gdigs)) (\<lambda>tmp.
     bndM (lfM ((if mp_dig tmp 1 > 0 then mp_sub xg pi xg gdigs else Inr xg))) (\<lambda>xg.
     bndM (upM (thirds_loop f gdigs xg 0)) (\<lambda>(xg, m).
     bndM (upM (sin_series xg gdigs)) (\<lambda>(zg, pwr, fac).
     bndM (lfM (mp_set fac 3 0 gdigs)) (\<lambda>fac.
     bndM (lfM (triple_times gdigs fac m pwr zg)) (\<lambda>zg.
     bndM (lfM (mp_shorten z digs zg gdigs)) (\<lambda>z.
     okM (if neg \<noteq> flip then mp_negate1 z else z)))))))))))))))))))"

partial_function (option) atan_loop :: "a68_mp \<Rightarrow> nat \<Rightarrow> int \<Rightarrow> bool \<Rightarrow> a68_mp \<Rightarrow> a68_mp \<Rightarrow> a68_mp \<Rightarrow> a68_mp res option" where
  "atan_loop sqr gdigs n even_t zg pwr tmp =
     bindO (lf (mp_div_digit tmp pwr n gdigs)) (\<lambda>tmp.
     if mp_ex tmp \<le> mp_ex zg - int gdigs then okO (zg)
     else (bindO (lf ((if even_t then mp_add zg zg tmp gdigs else mp_sub zg zg tmp gdigs))) (\<lambda>zg.
     bindO (lf (mp_mul pwr pwr sqr gdigs)) (\<lambda>pwr.
     atan_loop sqr gdigs (n + 2) (\<not>  even_t) zg pwr tmp))))"


fun atan_newton :: "'a math_ops_scheme \<Rightarrow> a68_mp \<Rightarrow> nat list \<Rightarrow> a68_mp \<Rightarrow> a68_mp \<Rightarrow> a68_mp \<Rightarrow> a68_mp \<Rightarrow> a68_mp mpm" where
  "atan_newton f xg [] sns cns tmp zg = okM zg"
| "atan_newton f xg (h # hs) sns cns tmp zg =
     bndM (mp_sin f sns zg h) (\<lambda>sns. bndM (lfM (mp_mul tmp sns sns h)) (\<lambda>tmp.
     bndM (lfM (mp_one_minus tmp tmp h)) (\<lambda>tmp. bndM (upM (mp_sqrt f cns tmp h)) (\<lambda>cns.
     bndM (lfM (mp_mul tmp xg cns h)) (\<lambda>tmp. bndM (lfM (mp_sub tmp sns tmp h)) (\<lambda>tmp.
     bndM (lfM (mp_mul tmp tmp cns h)) (\<lambda>tmp. bndM (lfM (mp_sub zg zg tmp h)) (\<lambda>zg.
     atan_newton f xg hs sns cns tmp zg))))))))"

text \<open>The arctangent of a positive number of at most 1: the series below 0.01, Newton's iteration above.\<close>

definition atan_core :: "'a math_ops_scheme \<Rightarrow> a68_mp \<Rightarrow> nat \<Rightarrow> a68_mp mpm" where
  "atan_core f xg gdigs =
     (if mp_ex xg < - 1 \<or> mp_ex xg = - 1 \<and> mp_dig xg 1 < 100000 then (
         bndM (lfM (mp_mul (mp_nil gdigs) xg xg gdigs)) (\<lambda>sqr.
         bndM (lfM (mp_mul (mp_nil gdigs) sqr xg gdigs)) (\<lambda>pwr.
         bndM (lfM (mp_move (mp_nil gdigs) xg gdigs)) (\<lambda>zg.
         if mp_dig pwr 1 = 0 then okM (zg)
         else (upM (atan_loop sqr gdigs 3 False zg pwr (mp_nil gdigs)))))))
     else (
         bndM (lfM (mp_to_double f xg gdigs)) (\<lambda>xd.
         bndM (lfM (mp_real_to_mp f (mp_nil gdigs) (f_atan f xd) gdigs)) (\<lambda>zg.
         atan_newton f xg (newton_digs DOUBLE_ACCURACY (gdigs * 7) gdigs) (mp_nil gdigs) (mp_nil gdigs) (mp_nil gdigs) zg))))"

definition mp_atan :: "'a math_ops_scheme \<Rightarrow> a68_mp \<Rightarrow> a68_mp \<Rightarrow> nat \<Rightarrow> a68_mp mpm" where
  "mp_atan f z x digs =
     (let gdigs = digs + MP_GUARDS in
     bndM (lfM (mp_catch_nan x)) (\<lambda>u.
     if mp_is_pinf x then mp_pi f z MP_HALF_PI digs
     else (if mp_is_minf x then bndM (mp_pi f z MP_HALF_PI digs) (\<lambda>z. okM (mp_negate1 z))
     else (if mp_dig x 1 = 0 then lfM (mp_set_zero z digs)
     else (bndM (lfM (mp_len x digs gdigs)) (\<lambda>xg.
     (let neg = (mp_dig xg 1 < 0);
          xg = (if neg then mp_negate1 xg else xg);
          flip = ((mp_ex xg > 0 \<or> mp_ex xg = 0 \<and> mp_dig xg 1 > 1) \<and> mp_dig xg 1 \<noteq> 0) in
     bndM (lfM ((if flip then mp_rec xg xg gdigs else Inr xg))) (\<lambda>xg.
     bndM (atan_core f xg gdigs) (\<lambda>zg.
     bndM (if flip then (
             bndM (mp_pi f (mp_nil gdigs) MP_HALF_PI gdigs) (\<lambda>hpi.
             lfM (mp_sub zg hpi zg gdigs)))
         else (
             okM (zg)))
       (\<lambda>zg.
     bndM (lfM (mp_shorten z digs zg gdigs)) (\<lambda>z.
     okM (if neg then mp_negate1 z else z))))))))))))"

definition mp_cos :: "'a math_ops_scheme \<Rightarrow> a68_mp \<Rightarrow> a68_mp \<Rightarrow> nat \<Rightarrow> a68_mp mpm" where
  "mp_cos f z x digs =
     (let gdigs = digs + MP_GUARDS in
     if \<not>  mp_is_finite x then okM (mp_set_nan z)
     else (bndM (mp_pi f (mp_nil gdigs) MP_HALF_PI gdigs) (\<lambda>hpi.
     bndM (mp_pi f (mp_nil gdigs) MP_TWO_PI gdigs) (\<lambda>tpi.
     bndM (lfM (mp_len x digs gdigs)) (\<lambda>xg.
     bndM (lfM (mp_mod xg xg tpi gdigs)) (\<lambda>xg.
     bndM (lfM (mp_sub xg hpi xg gdigs)) (\<lambda>xg.
     bndM (lfM (mp_shorten (mp_nil digs) digs xg gdigs)) (\<lambda>y.
     mp_sin f z y digs))))))))"

definition tan_cot :: "'a math_ops_scheme \<Rightarrow> a68_mp \<Rightarrow> a68_mp \<Rightarrow> nat \<Rightarrow> bool \<Rightarrow> a68_mp mpm" where
  "tan_cot f z x digs cot =
     (let gdigs = digs + MP_GUARDS in
     bndM (lfM ((if cot then mp_catch_nan x else Inr ()))) (\<lambda>u.
     if \<not>  cot \<and> \<not>  mp_is_finite x then okM (mp_set_nan z)
     else (bndM (mp_pi f (mp_nil gdigs) MP_PI gdigs) (\<lambda>pi.
     bndM (mp_pi f (mp_nil gdigs) MP_HALF_PI gdigs) (\<lambda>hpi.
     bndM (lfM (mp_len x digs gdigs)) (\<lambda>xg.
     bndM (lfM (mp_mod xg xg pi gdigs)) (\<lambda>xg.
     bndM (lfM ((if mp_dig xg 1 \<ge> 0 then mp_sub (mp_nil gdigs) xg hpi gdigs else mp_add (mp_nil gdigs) xg hpi gdigs))) (\<lambda>yg.
     (let neg = (if mp_dig xg 1 \<ge> 0 then mp_dig yg 1 > 0 else mp_dig yg 1 < 0) in
     bndM (lfM (mp_move (mp_nil digs) x digs)) (\<lambda>x1.
     bndM (lfM (mp_shorten x1 digs xg gdigs)) (\<lambda>x1.
     bndM (mp_sin f (mp_nil digs) x1 digs) (\<lambda>sns.
     bndM (lfM (mp_mul (mp_nil digs) sns sns digs)) (\<lambda>cns.
     bndM (lfM (mp_one_minus cns cns digs)) (\<lambda>cns.
     bndM (upM (mp_sqrt f cns cns digs)) (\<lambda>cns.
     bndM (lfM ((if cot then mp_div z cns sns digs else mp_div z sns cns digs))) (\<lambda>z.
     if mp_is_nan z then okM (mp_set_nan z)
     else (okM (if neg then mp_negate1 z else z))))))))))))))))))"


definition mp_tan :: "'a math_ops_scheme \<Rightarrow> a68_mp \<Rightarrow> a68_mp \<Rightarrow> nat \<Rightarrow> a68_mp mpm" where
  "mp_tan f z x digs = tan_cot f z x digs False"
definition mp_cot :: "'a math_ops_scheme \<Rightarrow> a68_mp \<Rightarrow> a68_mp \<Rightarrow> nat \<Rightarrow> a68_mp mpm" where
  "mp_cot f z x digs = tan_cot f z x digs True"

definition mp_asin :: "'a math_ops_scheme \<Rightarrow> a68_mp \<Rightarrow> a68_mp \<Rightarrow> nat \<Rightarrow> a68_mp mpm" where
  "mp_asin f z x digs =
     (let gdigs = digs + MP_GUARDS in
     if \<not>  mp_is_finite x then okM (mp_set_nan z)
     else (bndM (lfM (mp_len x digs gdigs)) (\<lambda>xg.
     bndM (lfM (mp_mul (mp_nil gdigs) xg xg gdigs)) (\<lambda>zg.
     bndM (lfM (mp_one_minus zg zg gdigs)) (\<lambda>zg.
     bndM (upM (mp_sqrt f zg zg digs)) (\<lambda>zg.
     if mp_is_nan zg then okM (mp_set_nan z)
     else (if mp_dig zg 1 = 0 then (
         bndM (mp_pi f z MP_HALF_PI digs) (\<lambda>z.
         okM (if mp_dig xg 1 < 0 then mp_negate1 z else z)))
     else (
         bndM (lfM (mp_div xg xg zg gdigs)) (\<lambda>xg.
         if mp_is_nan xg then okM (mp_set_nan z)
         else (bndM (lfM (mp_shorten (mp_nil digs) digs xg gdigs)) (\<lambda>y.
         mp_atan f z y digs)))))))))))"

definition mp_acos :: "'a math_ops_scheme \<Rightarrow> a68_mp \<Rightarrow> a68_mp \<Rightarrow> nat \<Rightarrow> a68_mp mpm" where
  "mp_acos f z x digs =
     (let gdigs = digs + MP_GUARDS in
     if \<not>  mp_is_finite x then okM (mp_set_nan z)
     else ((let neg = (mp_dig x 1 < 0) in
     if mp_dig x 1 = 0 then mp_pi f z MP_HALF_PI digs
     else (bndM (lfM (mp_len x digs gdigs)) (\<lambda>xg.
     bndM (lfM (mp_mul (mp_nil gdigs) xg xg gdigs)) (\<lambda>zg.
     bndM (lfM (mp_one_minus zg zg gdigs)) (\<lambda>zg.
     bndM (upM (mp_sqrt f zg zg digs)) (\<lambda>zg.
     if mp_is_nan zg then okM (mp_set_nan z)
     else (bndM (lfM (mp_div xg zg xg gdigs)) (\<lambda>xg.
     if mp_is_nan xg then okM (mp_set_nan z)
     else (bndM (lfM (mp_shorten (mp_nil digs) digs xg gdigs)) (\<lambda>y.
     bndM (mp_atan f z y digs) (\<lambda>z.
     if \<not>  neg then okM (z)
     else (bndM (mp_pi f y MP_PI digs) (\<lambda>y.
     lfM (mp_add z z y digs))))))))))))))))"


text \<open>A copy without the sign, as the code makes it with \<open>mp_move\<close> and \<open>fabs\<close>.\<close>

definition abs_copy :: "nat \<Rightarrow> a68_mp \<Rightarrow> nat \<Rightarrow> a68_mp res" where
  "abs_copy n x digs = bindE (mp_move (mp_nil n) x digs) (\<lambda>u. Inr (on_first abs u))"

definition mp_atan2 :: "'a math_ops_scheme \<Rightarrow> a68_mp \<Rightarrow> a68_mp \<Rightarrow> a68_mp \<Rightarrow> nat \<Rightarrow> a68_mp mpm" where
  "mp_atan2 f z x y digs =
     (if mp_dig x 1 = 0 \<and> mp_dig y 1 = 0 then okM (mp_set_nan z)
     else ((let flip = (mp_dig y 1 < 0) in
     bndM (lfM (abs_copy (mp_digs y) y (mp_digs y))) (\<lambda>ya.
     bndM (if mp_is_zero x then (
             mp_pi f z MP_HALF_PI digs)
         else (
             (let flop = (mp_dig x 1 \<le> 0) in
             bndM (lfM (abs_copy (mp_digs x) x (mp_digs x))) (\<lambda>xa.
             bndM (lfM (mp_div z ya xa digs)) (\<lambda>z.
             bndM (mp_atan f z z digs) (\<lambda>z.
             if \<not>  flop then okM (z)
             else (bndM (mp_pi f (mp_nil digs) MP_PI digs) (\<lambda>t.
             lfM (mp_sub z t z digs)))))))))
       (\<lambda>z.
     okM (if flip then mp_negate1 z else z))))))"

definition mp_pow :: "'a math_ops_scheme \<Rightarrow> a68_mp \<Rightarrow> a68_mp \<Rightarrow> a68_mp \<Rightarrow> nat \<Rightarrow> a68_mp mpm" where
  "mp_pow f z x y digs =
     bndM (lfM (mp_catch_nan x)) (\<lambda>u.
     bndM (lfM (mp_catch_nan y)) (\<lambda>u.
     bndM (mp_ln f z x digs) (\<lambda>z.
     if mp_is_nan z then lfM (Inl (Die ''invalid argument''))
     else (bndM (lfM (mp_mul z y z digs)) (\<lambda>z.
     upM (mp_exp f z z digs))))))"

definition hypot_with :: "'a math_ops_scheme \<Rightarrow> a68_mp \<Rightarrow> a68_mp \<Rightarrow> a68_mp \<Rightarrow> nat \<Rightarrow> a68_mp res option" where
  "hypot_with f z u v digs =
     bindO (lf (mp_div z v u digs)) (\<lambda>z.
     bindO (lf (mp_mul z z z digs)) (\<lambda>z.
     bindO (lf (mp_add z (mp_one digs) z digs)) (\<lambda>z.
     bindO (mp_sqrt f z z digs) (\<lambda>z.
     lf (mp_mul z u z digs)))))"

definition mp_hypot :: "'a math_ops_scheme \<Rightarrow> a68_mp \<Rightarrow> a68_mp \<Rightarrow> a68_mp \<Rightarrow> nat \<Rightarrow> a68_mp res option" where
  "mp_hypot f z x y digs =
     bindO (lf (mp_catch_nan x)) (\<lambda>a.
     bindO (lf (mp_catch_nan y)) (\<lambda>a.
     bindO (lf (abs_copy digs x digs)) (\<lambda>u.
     bindO (lf (abs_copy digs y digs)) (\<lambda>v.
     if mp_is_zero u then lf (mp_move z v digs)
     else (if mp_is_zero v then lf (mp_move z u digs)
     else (bindO (lf (mp_sub z u v digs)) (\<lambda>z.
     if mp_dig z 1 > 0 then hypot_with f z u v digs
     else (hypot_with f z v u digs))))))))"


section \<open>Degrees, and reciprocals\<close>

text \<open>A function of the module: destination, argument, digits.\<close>

type_synonym mp_fn = "a68_mp \<Rightarrow> a68_mp \<Rightarrow> nat \<Rightarrow> a68_mp mpm"

definition rec_of :: "mp_fn \<Rightarrow> mp_fn" where
  "rec_of g z x digs = bndM (g z x digs) (\<lambda>z. lfM (mp_rec z z digs))"

definition via_pi_over_180 :: "'a math_ops_scheme \<Rightarrow> mp_fn \<Rightarrow> mp_fn" where
  "via_pi_over_180 f h z x digs =
     bndM (lfM (mp_catch_nan x)) (\<lambda>u.
     bndM (mp_pi f (mp_nil digs) MP_PI_OVER_180 digs) (\<lambda>fct.
     bndM (lfM (mp_mul (mp_nil digs) x fct digs)) (\<lambda>g.
     h z g digs)))"

definition times_180_over_pi :: "'a math_ops_scheme \<Rightarrow> mp_fn \<Rightarrow> mp_fn" where
  "times_180_over_pi f h z x digs =
     bndM (lfM (mp_catch_nan x)) (\<lambda>u.
     bndM (h (mp_nil digs) x digs) (\<lambda>fr.
     bndM (mp_pi f (mp_nil digs) MP_180_OVER_PI digs) (\<lambda>g.
     lfM (mp_mul z fr g digs))))"


definition mp_csc :: "'a math_ops_scheme \<Rightarrow> mp_fn" where "mp_csc f = rec_of (mp_sin f)"
definition mp_sec :: "'a math_ops_scheme \<Rightarrow> mp_fn" where "mp_sec f = rec_of (mp_cos f)"

definition after_rec :: "mp_fn \<Rightarrow> mp_fn" where
  "after_rec g z x digs = bndM (lfM (mp_rec z x digs)) (\<lambda>z. g z z digs)"

definition mp_arccsc :: "'a math_ops_scheme \<Rightarrow> mp_fn" where "mp_arccsc f = after_rec (mp_asin f)"
definition mp_arcsec :: "'a math_ops_scheme \<Rightarrow> mp_fn" where "mp_arcsec f = after_rec (mp_acos f)"

definition mp_arccot :: "'a math_ops_scheme \<Rightarrow> mp_fn" where
  "mp_arccot f z x digs =
     bndM (lfM (mp_catch_nan x)) (\<lambda>u.
     bndM (lfM (mp_rec (mp_nil digs) x digs)) (\<lambda>g.
     mp_atan f z g digs))"


definition mp_sindg :: "'a math_ops_scheme \<Rightarrow> mp_fn" where "mp_sindg f = via_pi_over_180 f (mp_sin f)"
definition mp_cosdg :: "'a math_ops_scheme \<Rightarrow> mp_fn" where "mp_cosdg f = via_pi_over_180 f (mp_cos f)"
definition mp_tandg :: "'a math_ops_scheme \<Rightarrow> mp_fn" where "mp_tandg f = via_pi_over_180 f (mp_tan f)"
definition mp_cotdg :: "'a math_ops_scheme \<Rightarrow> mp_fn" where "mp_cotdg f = via_pi_over_180 f (mp_cot f)"
definition mp_cscdg :: "'a math_ops_scheme \<Rightarrow> mp_fn" where "mp_cscdg f = rec_of (mp_sindg f)"
definition mp_secdg :: "'a math_ops_scheme \<Rightarrow> mp_fn" where "mp_secdg f = via_pi_over_180 f (mp_cos f)"
definition mp_arcsindg :: "'a math_ops_scheme \<Rightarrow> mp_fn" where "mp_arcsindg f = times_180_over_pi f (mp_asin f)"
definition mp_arccosdg :: "'a math_ops_scheme \<Rightarrow> mp_fn" where "mp_arccosdg f = times_180_over_pi f (mp_acos f)"
definition mp_arctandg :: "'a math_ops_scheme \<Rightarrow> mp_fn" where "mp_arctandg f = times_180_over_pi f (mp_atan f)"
definition mp_arccotdg :: "'a math_ops_scheme \<Rightarrow> mp_fn" where "mp_arccotdg f = times_180_over_pi f (mp_arccot f)"
definition mp_arccscdg :: "'a math_ops_scheme \<Rightarrow> mp_fn" where "mp_arccscdg f = after_rec (times_180_over_pi f (mp_asin f))"
definition mp_arcsecdg :: "'a math_ops_scheme \<Rightarrow> mp_fn" where "mp_arcsecdg f = after_rec (times_180_over_pi f (mp_acos f))"

definition mp_cas :: "'a math_ops_scheme \<Rightarrow> mp_fn" where
  "mp_cas f z x digs =
     (if \<not>  mp_is_finite x then okM (mp_set_nan z)
     else (bndM (mp_cos f (mp_nil digs) x digs) (\<lambda>c.
     bndM (mp_sin f (mp_nil digs) x digs) (\<lambda>s.
     lfM (mp_add z c s digs)))))"


end
