(* ===== verification/MpComplex.thy ===== *)
theory MpComplex
  imports MpMath
begin

text \<open>
  \<open>csrc/mpmath.c\<close>, the last part: the functions of \<open>LONG COMPLEX\<close> numbers. A function writes its result over
  its two operands; here it returns the new pair.
\<close>

type_synonym mp_pair = "a68_mp \<times> a68_mp"

definition abs_first :: "a68_mp \<Rightarrow> a68_mp" where "abs_first z = on_first abs z"

section \<open>Multiplication, division, powers\<close>

definition mp_cmul :: "a68_mp \<Rightarrow> a68_mp \<Rightarrow> a68_mp \<Rightarrow> a68_mp \<Rightarrow> nat \<Rightarrow> mp_pair res" where
  "mp_cmul a b c d digs =
     (let gdigs = digs + MP_GUARDS in
     bindE (mp_len a digs gdigs) (\<lambda>la.
     bindE (mp_len b digs gdigs) (\<lambda>lb.
     bindE (mp_len c digs gdigs) (\<lambda>lc.
     bindE (mp_len d digs gdigs) (\<lambda>ld.
     bindE (mp_mul (mp_nil gdigs) la lc gdigs) (\<lambda>ac.
     bindE (mp_mul (mp_nil gdigs) lb ld gdigs) (\<lambda>bd.
     bindE (mp_mul (mp_nil gdigs) la ld gdigs) (\<lambda>ad.
     bindE (mp_mul (mp_nil gdigs) lb lc gdigs) (\<lambda>bc.
     bindE (mp_sub la ac bd gdigs) (\<lambda>la.
     bindE (mp_add lb ad bc gdigs) (\<lambda>lb.
     bindE (mp_shorten a digs la gdigs) (\<lambda>a.
     bindE (mp_shorten b digs lb gdigs) (\<lambda>b.
     Inr ((a, b)))))))))))))))"


text \<open>The quotient \<open>(a + b q) / r\<close>, \<open>(b - a q) / r\<close> with \<open>q = d / c\<close> and \<open>r = c + d q\<close>, for \<open>|c| \<ge> |d|\<close>; \<open>None\<close> is a quotient \<open>q\<close> that is no number.\<close>

definition cdiv_big_c :: "a68_mp \<Rightarrow> a68_mp \<Rightarrow> a68_mp \<Rightarrow> a68_mp \<Rightarrow> a68_mp \<Rightarrow> a68_mp \<Rightarrow> nat \<Rightarrow> mp_pair option res" where
  "cdiv_big_c a b c d q r digs =
     bindE (mp_div q d c digs) (\<lambda>q.
     if mp_is_nan q then Inr (None)
     else (bindE (mp_mul r d q digs) (\<lambda>r.
     bindE (mp_add r r c digs) (\<lambda>r.
     bindE (mp_mul (mp_nil digs) b q digs) (\<lambda>c1.
     bindE (mp_add c1 c1 a digs) (\<lambda>c1.
     bindE (mp_div c1 c1 r digs) (\<lambda>c1.
     bindE (mp_mul (mp_nil digs) a q digs) (\<lambda>d1.
     bindE (mp_sub d1 b d1 digs) (\<lambda>d1.
     bindE (mp_div d1 d1 r digs) (\<lambda>d1.
     Inr (Some (c1, d1))))))))))))"

definition cdiv_big_d :: "a68_mp \<Rightarrow> a68_mp \<Rightarrow> a68_mp \<Rightarrow> a68_mp \<Rightarrow> a68_mp \<Rightarrow> a68_mp \<Rightarrow> nat \<Rightarrow> mp_pair option res" where
  "cdiv_big_d a b c d q r digs =
     bindE (mp_div q c d digs) (\<lambda>q.
     if mp_is_nan q then Inr (None)
     else (bindE (mp_mul r c q digs) (\<lambda>r.
     bindE (mp_add r r d digs) (\<lambda>r.
     bindE (mp_mul (mp_nil digs) a q digs) (\<lambda>c1.
     bindE (mp_add c1 c1 b digs) (\<lambda>c1.
     bindE (mp_div c1 c1 r digs) (\<lambda>c1.
     bindE (mp_mul (mp_nil digs) b q digs) (\<lambda>d1.
     bindE (mp_sub d1 d1 a digs) (\<lambda>d1.
     bindE (mp_div d1 d1 r digs) (\<lambda>d1.
     Inr (Some (c1, d1))))))))))))"

definition mp_cdiv :: "a68_mp \<Rightarrow> a68_mp \<Rightarrow> a68_mp \<Rightarrow> a68_mp \<Rightarrow> nat \<Rightarrow> mp_pair res" where
  "mp_cdiv a b c d digs =
     (if mp_dig c 1 = 0 \<and> mp_dig d 1 = 0 then Inr ((mp_set_nan a, mp_set_nan b))
     else (bindE (mp_move (mp_nil digs) c digs) (\<lambda>q.
     bindE (mp_move (mp_nil digs) d digs) (\<lambda>r.
     (let r = abs_first r in
     bindE (mp_sub q (abs_first q) r digs) (\<lambda>q.
     bindE ((if mp_dig q 1 \<ge> 0 then cdiv_big_c a b c d q r digs else cdiv_big_d a b c d q r digs)) (\<lambda>o1.
     (case o1 of None \<Rightarrow> Inr (mp_set_nan a, mp_set_nan b) | Some (c1, d1) \<Rightarrow> bindE (mp_move a c1 digs) (\<lambda>a. bindE (mp_move b d1 digs) (\<lambda>b. Inr (a, b)))))))))))"


text \<open>The variables of the loop of \<open>mp_cpow_int\<close>.\<close>

record cpow_vars =
  re_z :: a68_mp
  im_z :: a68_mp
  re_y :: a68_mp
  im_y :: a68_mp
  v_rea :: a68_mp
  v_acc :: a68_mp

definition cpow_mul :: "nat \<Rightarrow> cpow_vars \<Rightarrow> cpow_vars res" where
  "cpow_mul digs v =
     bindE (mp_mul (v_acc v) (im_z v) (im_y v) digs) (\<lambda>acc.
     bindE (mp_mul (v_rea v) (re_z v) (re_y v) digs) (\<lambda>rea.
     bindE (mp_sub rea rea acc digs) (\<lambda>rea.
     bindE (mp_mul acc (im_z v) (re_y v) digs) (\<lambda>acc.
     bindE (mp_mul (im_z v) (re_z v) (im_y v) digs) (\<lambda>iz.
     bindE (mp_add iz iz acc digs) (\<lambda>iz.
     bindE (mp_move (re_z v) rea digs) (\<lambda>rz.
     Inr (v\<lparr>re_z := rz, im_z := iz, v_rea := rea, v_acc := acc\<rparr>))))))))"

definition cpow_square :: "nat \<Rightarrow> cpow_vars \<Rightarrow> cpow_vars res" where
  "cpow_square digs v =
     bindE (mp_mul (v_acc v) (im_y v) (im_y v) digs) (\<lambda>acc.
     bindE (mp_mul (v_rea v) (re_y v) (re_y v) digs) (\<lambda>rea.
     bindE (mp_sub rea rea acc digs) (\<lambda>rea.
     bindE (mp_mul acc (im_y v) (re_y v) digs) (\<lambda>acc.
     bindE (mp_mul (im_y v) (re_y v) (im_y v) digs) (\<lambda>iy.
     bindE (mp_add iy iy acc digs) (\<lambda>iy.
     bindE (mp_move (re_y v) rea digs) (\<lambda>ry.
     Inr (v\<lparr>re_y := ry, im_y := iy, v_rea := rea, v_acc := acc\<rparr>))))))))"


definition UINT64_MAX :: nat where "UINT64_MAX = 2 ^ 64 - 1"

text \<open>The loop over the powers of two up to \<open>jj\<close>; \<open>expo\<close> starts at 1.\<close>

function cpow_loop :: "nat \<Rightarrow> nat \<Rightarrow> nat \<Rightarrow> cpow_vars \<Rightarrow> cpow_vars res" where
  "cpow_loop digs jj expo v = (if expo = 0 \<or> jj < expo then Inr v
     else bindE (if and expo jj \<noteq> 0 then cpow_mul digs v else Inr v) (\<lambda>v.
       bindE (cpow_square digs v) (\<lambda>v.
         if UINT64_MAX div 2 < expo then Inr v else cpow_loop digs jj (2 * expo) v)))"
  by pat_completeness auto
termination by (relation "measure (\<lambda>(digs, jj, expo, v). Suc jj - expo)") auto

declare cpow_loop.simps [simp del]

definition mp_cpow_int :: "a68_mp \<Rightarrow> a68_mp \<Rightarrow> int \<Rightarrow> nat \<Rightarrow> mp_pair res" where
  "mp_cpow_int re im j digs =
     bindE (mp_move (mp_nil digs) re digs) (\<lambda>ry.
     bindE (mp_move (mp_nil digs) im digs) (\<lambda>iy.
     bindE (cpow_loop digs (nat \<bar>j\<bar>) 1 \<lparr>re_z = mp_one digs, im_z = mp_nil digs, re_y = ry, im_y = iy, v_rea = mp_nil digs, v_acc = mp_nil digs\<rparr>) (\<lambda>v.
     bindE ((if j < 0 then mp_cdiv (mp_one digs) (mp_nil digs) (re_z v) (im_z v) digs else Inr (re_z v, im_z v))) (\<lambda>(zr, zi).
     bindE (mp_move re zr digs) (\<lambda>re.
     bindE (mp_move im zi digs) (\<lambda>im.
     Inr ((re, im))))))))"


section \<open>Square root, exponential, logarithm\<close>

text \<open>The modulus part \<open>w\<close> of \<open>csqrt\<close>, from the absolute values \<open>x\<close>, \<open>y\<close> of the parts.\<close>

definition csqrt_w :: "'a math_ops_scheme \<Rightarrow> a68_mp \<Rightarrow> a68_mp \<Rightarrow> a68_mp \<Rightarrow> nat \<Rightarrow> a68_mp res option" where
  "csqrt_w f x y w gdigs =
     (let big_x = (mp_dig w 1 \<ge> 0) in
     bindO (lf ((if big_x then mp_div (mp_nil gdigs) y x gdigs else mp_div (mp_nil gdigs) x y gdigs))) (\<lambda>t.
     bindO (lf (mp_mul (mp_nil gdigs) t t gdigs)) (\<lambda>v.
     bindO (lf (mp_add (mp_nil gdigs) (mp_one gdigs) v gdigs)) (\<lambda>u.
     bindO (mp_sqrt f v u gdigs) (\<lambda>v.
     bindO (lf ((if big_x then mp_add u (mp_one gdigs) v gdigs else mp_add u t v gdigs))) (\<lambda>u.
     bindO (lf (mp_half v u gdigs)) (\<lambda>v.
     bindO (mp_sqrt f u v gdigs) (\<lambda>u.
     bindO ((if big_x then mp_sqrt f v x gdigs else mp_sqrt f v y gdigs)) (\<lambda>v.
     lf (mp_mul w u v gdigs))))))))))"

definition csqrt_parts :: "'a math_ops_scheme \<Rightarrow> a68_mp \<Rightarrow> a68_mp \<Rightarrow> nat \<Rightarrow> mp_pair res option" where
  "csqrt_parts f re im gdigs =
     bindO (lf (mp_move (mp_nil gdigs) re gdigs)) (\<lambda>x.
     (let x = abs_first x in
     bindO (lf (mp_move (mp_nil gdigs) im gdigs)) (\<lambda>y.
     (let y = abs_first y in
     bindO (lf (mp_sub (mp_nil gdigs) x y gdigs)) (\<lambda>w.
     bindO (csqrt_w f x y w gdigs) (\<lambda>w.
     if mp_dig re 1 \<ge> 0 then (
         bindO (lf (mp_move re w gdigs)) (\<lambda>re.
         bindO (lf (mp_add (mp_nil gdigs) w w gdigs)) (\<lambda>u.
         bindO (lf (mp_div im im u gdigs)) (\<lambda>im.
         okO ((re, im))))))
     else (
         (let w = (if mp_dig im 1 < 0 then mp_negate1 w else w) in
         bindO (lf (mp_add (mp_nil gdigs) w w gdigs)) (\<lambda>v.
         bindO (lf (mp_div re im v gdigs)) (\<lambda>re.
         bindO (lf (mp_move im w gdigs)) (\<lambda>im.
         okO ((re, im)))))))))))))"


text \<open>Both parts of a result back at the precision of the operands.\<close>

definition shorten_pair :: "a68_mp \<Rightarrow> a68_mp \<Rightarrow> nat \<Rightarrow> mp_pair \<Rightarrow> nat \<Rightarrow> mp_pair res" where
  "shorten_pair r i digs p gdigs =
     bindE (mp_shorten r digs (fst p) gdigs) (\<lambda>r.
     bindE (mp_shorten i digs (snd p) gdigs) (\<lambda>i.
     Inr ((r, i))))"

definition mp_csqrt :: "'a math_ops_scheme \<Rightarrow> a68_mp \<Rightarrow> a68_mp \<Rightarrow> nat \<Rightarrow> mp_pair res option" where
  "mp_csqrt f r i digs =
     (let gdigs = digs + MP_GUARDS in
     bindO (lf (mp_len r digs gdigs)) (\<lambda>re.
     bindO (lf (mp_len i digs gdigs)) (\<lambda>im.
     bindO (if mp_is_zero re \<and> mp_is_zero im then (
             bindO (lf (mp_set_zero re gdigs)) (\<lambda>re.
             bindO (lf (mp_set_zero im gdigs)) (\<lambda>im.
             okO ((re, im)))))
         else (
             csqrt_parts f re im gdigs))
       (\<lambda>p.
     lf (shorten_pair r i digs p gdigs)))))"

definition mp_cexp :: "'a math_ops_scheme \<Rightarrow> a68_mp \<Rightarrow> a68_mp \<Rightarrow> nat \<Rightarrow> mp_pair mpm" where
  "mp_cexp f r i digs =
     (let gdigs = digs + MP_GUARDS in
     bndM (lfM (mp_len r digs gdigs)) (\<lambda>re.
     bndM (lfM (mp_len i digs gdigs)) (\<lambda>im.
     bndM (if mp_is_zero im then (
             bndM (upM (mp_exp f re re gdigs)) (\<lambda>re.
             okM ((re, im))))
         else (
             bndM (upM (mp_exp f (mp_nil gdigs) re gdigs)) (\<lambda>u.
             bndM (mp_cos f re im gdigs) (\<lambda>re.
             bndM (mp_sin f im im gdigs) (\<lambda>im.
             bndM (lfM (mp_mul re re u gdigs)) (\<lambda>re.
             bndM (lfM (mp_mul im im u gdigs)) (\<lambda>im.
             okM ((re, im)))))))))
       (\<lambda>p.
     lfM (shorten_pair r i digs p gdigs)))))"

definition mp_cln :: "'a math_ops_scheme \<Rightarrow> a68_mp \<Rightarrow> a68_mp \<Rightarrow> nat \<Rightarrow> mp_pair mpm" where
  "mp_cln f r i digs =
     (let gdigs = digs + MP_GUARDS in
     bndM (lfM (mp_len r digs gdigs)) (\<lambda>re.
     bndM (lfM (mp_len i digs gdigs)) (\<lambda>im.
     bndM (lfM (mp_move (mp_nil gdigs) re gdigs)) (\<lambda>re1.
     bndM (lfM (mp_move (mp_nil gdigs) im gdigs)) (\<lambda>im1.
     bndM (upM (mp_hypot f (mp_nil gdigs) re1 im1 gdigs)) (\<lambda>s.
     bndM (lfM (mp_move (mp_nil gdigs) re gdigs)) (\<lambda>re2.
     bndM (lfM (mp_move (mp_nil gdigs) im gdigs)) (\<lambda>im2.
     bndM (mp_atan2 f (mp_nil gdigs) re2 im2 gdigs) (\<lambda>t.
     bndM (mp_ln f re s gdigs) (\<lambda>re.
     bndM (lfM (mp_move im t gdigs)) (\<lambda>im.
     lfM (shorten_pair r i digs (re, im) gdigs))))))))))))"


section \<open>Circular functions\<close>

definition csin_cos :: "'a math_ops_scheme \<Rightarrow> bool \<Rightarrow> a68_mp \<Rightarrow> a68_mp \<Rightarrow> nat \<Rightarrow> mp_pair mpm" where
  "csin_cos f cosine r i digs =
     (let gdigs = digs + MP_GUARDS in
     bndM (lfM (mp_len r digs gdigs)) (\<lambda>re.
     bndM (lfM (mp_len i digs gdigs)) (\<lambda>im.
     bndM (if mp_is_zero im then (
             bndM ((if cosine then mp_cos f re re gdigs else mp_sin f re re gdigs)) (\<lambda>re.
             bndM (lfM (mp_set_zero im gdigs)) (\<lambda>im.
             okM ((re, im)))))
         else (
             bndM (mp_sin f (mp_nil gdigs) re gdigs) (\<lambda>s.
             bndM (mp_cos f (mp_nil gdigs) re gdigs) (\<lambda>c.
             bndM (upM (hyp_mp f (mp_nil gdigs) (mp_nil gdigs) im gdigs)) (\<lambda>(sh, ch).
             bndM (lfM ((if cosine then mp_mul re c ch gdigs else mp_mul re s ch gdigs))) (\<lambda>re.
             bndM (lfM ((if cosine then mp_mul im s (mp_negate1 sh) gdigs else mp_mul im c sh gdigs))) (\<lambda>im.
             okM ((re, im)))))))))
       (\<lambda>p.
     lfM (shorten_pair r i digs p gdigs)))))"


definition mp_csin :: "'a math_ops_scheme \<Rightarrow> a68_mp \<Rightarrow> a68_mp \<Rightarrow> nat \<Rightarrow> mp_pair mpm" where
  "mp_csin f = csin_cos f False"
definition mp_ccos :: "'a math_ops_scheme \<Rightarrow> a68_mp \<Rightarrow> a68_mp \<Rightarrow> nat \<Rightarrow> mp_pair mpm" where
  "mp_ccos f = csin_cos f True"

definition mp_ctan :: "'a math_ops_scheme \<Rightarrow> a68_mp \<Rightarrow> a68_mp \<Rightarrow> nat \<Rightarrow> mp_pair mpm" where
  "mp_ctan f r i digs =
     bndM (lfM (mp_move (mp_nil digs) r digs)) (\<lambda>su.
     bndM (lfM (mp_move (mp_nil digs) i digs)) (\<lambda>sv.
     bndM (csin_cos f False su sv digs) (\<lambda>(su, sv).
     bndM (lfM (mp_move (mp_nil digs) r digs)) (\<lambda>cu.
     bndM (lfM (mp_move (mp_nil digs) i digs)) (\<lambda>cv.
     bndM (csin_cos f True cu cv digs) (\<lambda>(cu, cv).
     bndM (lfM (mp_move (mp_nil digs) su digs)) (\<lambda>s.
     bndM (lfM (mp_move (mp_nil digs) sv digs)) (\<lambda>t.
     bndM (lfM (mp_cdiv s t cu cv digs)) (\<lambda>(s, t).
     bndM (lfM (mp_move r s digs)) (\<lambda>r.
     bndM (lfM (mp_move i t digs)) (\<lambda>i.
     okM ((r, i)))))))))))))"

definition casin_acos :: "'a math_ops_scheme \<Rightarrow> bool \<Rightarrow> a68_mp \<Rightarrow> a68_mp \<Rightarrow> nat \<Rightarrow> mp_pair mpm" where
  "casin_acos f arccos r i digs =
     (let gdigs = digs + MP_GUARDS in
     bndM (lfM (mp_len r digs gdigs)) (\<lambda>re.
     bndM (lfM (mp_len i digs gdigs)) (\<lambda>im.
     (let negim = (mp_dig im 1 < 0);
          c1 = mp_one gdigs in
     bndM (lfM (mp_add (mp_nil gdigs) re c1 gdigs)) (\<lambda>a.
     bndM (lfM (mp_sub (mp_nil gdigs) re c1 gdigs)) (\<lambda>b.
     bndM (upM (mp_hypot f (mp_nil gdigs) a im gdigs)) (\<lambda>u.
     bndM (upM (mp_hypot f (mp_nil gdigs) b im gdigs)) (\<lambda>v.
     bndM (lfM (mp_add a u v gdigs)) (\<lambda>a.
     bndM (lfM (mp_half a a gdigs)) (\<lambda>a.
     bndM (lfM (mp_sub b u v gdigs)) (\<lambda>b.
     bndM (lfM (mp_half b b gdigs)) (\<lambda>b.
     bndM (lfM (mp_mul u a a gdigs)) (\<lambda>u.
     bndM (lfM (mp_sub u u c1 gdigs)) (\<lambda>u.
     bndM (upM (mp_sqrt f u u gdigs)) (\<lambda>u.
     bndM (lfM (mp_add u a u gdigs)) (\<lambda>u.
     bndM (mp_ln f im u gdigs) (\<lambda>im.
     bndM ((if arccos then mp_acos f re b gdigs else mp_asin f re b gdigs)) (\<lambda>re.
     (let flip_im = (if arccos then \<not>  negim else negim);
          im = (if flip_im then mp_negate1 im else im) in
     lfM (shorten_pair r i digs (re, im) gdigs))))))))))))))))))))"


definition mp_casin :: "'a math_ops_scheme \<Rightarrow> a68_mp \<Rightarrow> a68_mp \<Rightarrow> nat \<Rightarrow> mp_pair mpm" where
  "mp_casin f = casin_acos f False"
definition mp_cacos :: "'a math_ops_scheme \<Rightarrow> a68_mp \<Rightarrow> a68_mp \<Rightarrow> nat \<Rightarrow> mp_pair mpm" where
  "mp_cacos f = casin_acos f True"

text \<open>The real part of \<open>catan\<close>, half the angle of \<open>1 - |z|^2 + 2 re i\<close>.\<close>

definition catan_re :: "'a math_ops_scheme \<Rightarrow> a68_mp \<Rightarrow> a68_mp \<Rightarrow> a68_mp \<Rightarrow> a68_mp \<Rightarrow> nat \<Rightarrow> a68_mp mpm" where
  "catan_re f re u a c1 gdigs =
     bndM (lfM (mp_sub u c1 a gdigs)) (\<lambda>u.
     if mp_is_zero u then mp_pi f u MP_HALF_PI gdigs
     else ((let neg = (mp_dig u 1 < 0) in
     bndM (lfM (mp_add a re re gdigs)) (\<lambda>a.
     bndM (lfM (mp_div a a u gdigs)) (\<lambda>a.
     bndM (mp_atan f u a gdigs) (\<lambda>u.
     bndM (if neg then (
             bndM (mp_pi f a MP_PI gdigs) (\<lambda>a.
             lfM (if mp_dig re 1 < 0 then mp_sub u u a gdigs else mp_add u u a gdigs)))
         else (
             okM (u)))
       (\<lambda>u.
     lfM (mp_half u u gdigs))))))))"

definition mp_catan :: "'a math_ops_scheme \<Rightarrow> a68_mp \<Rightarrow> a68_mp \<Rightarrow> nat \<Rightarrow> mp_pair mpm" where
  "mp_catan f r i digs =
     (let gdigs = digs + MP_GUARDS in
     bndM (lfM (mp_len r digs gdigs)) (\<lambda>re.
     bndM (lfM (mp_len i digs gdigs)) (\<lambda>im.
     bndM (if mp_is_zero im then (
             bndM (mp_atan f (mp_nil gdigs) re gdigs) (\<lambda>u.
             bndM (lfM (mp_set_zero (mp_nil gdigs) gdigs)) (\<lambda>v.
             okM ((u, v)))))
         else (
             (let c1 = mp_one gdigs in
             bndM (lfM (mp_add (mp_nil gdigs) im c1 gdigs)) (\<lambda>a.
             bndM (lfM (mp_sub (mp_nil gdigs) im c1 gdigs)) (\<lambda>b.
             bndM (upM (mp_hypot f (mp_nil gdigs) re a gdigs)) (\<lambda>u.
             bndM (upM (mp_hypot f (mp_nil gdigs) re b gdigs)) (\<lambda>v.
             bndM (lfM (mp_div u u v gdigs)) (\<lambda>u.
             bndM (mp_ln f v u gdigs) (\<lambda>v.
             bndM (lfM (mp_half v v gdigs)) (\<lambda>v.
             bndM (lfM (mp_mul a re re gdigs)) (\<lambda>a.
             bndM (lfM (mp_mul b im im gdigs)) (\<lambda>b.
             bndM (lfM (mp_add a a b gdigs)) (\<lambda>a.
             bndM (catan_re f re u a c1 gdigs) (\<lambda>u.
             okM ((u, v))))))))))))))))
       (\<lambda>p.
     lfM (shorten_pair r i digs p gdigs)))))"


section \<open>Hyperbolic functions\<close>

datatype ch_which = CH_SINH | CH_COSH | CH_TANH | CH_ASINH | CH_ACOSH | CH_ATANH

text \<open>The circular functions of \<open>i z\<close> or \<open>- i z\<close>, multiplied back. \<open>CH_TANH\<close> overwrites the tangent it computed.\<close>

definition chyp_parts :: "'a math_ops_scheme \<Rightarrow> ch_which \<Rightarrow> a68_mp \<Rightarrow> a68_mp \<Rightarrow> nat \<Rightarrow> mp_pair mpm" where
  "chyp_parts f w re im gdigs =
     (let zero = mp_nil gdigs in
     bndM (lfM (mp_set_one (mp_nil gdigs) gdigs)) (\<lambda>one.
     bndM (lfM (mp_set (mp_nil gdigs) (- 1) 0 gdigs)) (\<lambda>minus_one.
     if w = CH_SINH then (
         bndM (lfM (mp_cmul re im zero one gdigs)) (\<lambda>(re, im).
         bndM (csin_cos f False re im gdigs) (\<lambda>(re, im).
         lfM (mp_cmul re im zero minus_one gdigs))))
     else if w = CH_COSH then (
         bndM (lfM (mp_cmul re im zero one gdigs)) (\<lambda>(re, im).
         csin_cos f True re im gdigs))
     else if w = CH_TANH then (
         bndM (lfM (mp_cmul re im zero one gdigs)) (\<lambda>(re, im).
         bndM (mp_ctan f re im gdigs) (\<lambda>(re, im).
         bndM (lfM (mp_set_zero re gdigs)) (\<lambda>re.
         bndM (lfM (mp_set im (- 1) 0 gdigs)) (\<lambda>im.
         lfM (mp_cmul re im zero one gdigs))))))
     else if w = CH_ASINH then (
         bndM (lfM (mp_cmul re im zero minus_one gdigs)) (\<lambda>(re, im).
         bndM (casin_acos f False re im gdigs) (\<lambda>(re, im).
         lfM (mp_cmul re im zero one gdigs))))
     else if w = CH_ACOSH then (
         bndM (casin_acos f True re im gdigs) (\<lambda>(re, im).
         lfM (mp_cmul re im zero one gdigs)))
     else (
         bndM (lfM (mp_cmul re im zero minus_one gdigs)) (\<lambda>(re, im).
         bndM (mp_catan f re im gdigs) (\<lambda>(re, im).
         lfM (mp_cmul re im zero one gdigs)))))))"

definition chyp :: "'a math_ops_scheme \<Rightarrow> ch_which \<Rightarrow> a68_mp \<Rightarrow> a68_mp \<Rightarrow> nat \<Rightarrow> mp_pair mpm" where
  "chyp f w r i digs =
     (let gdigs = digs + MP_GUARDS in
     bndM (lfM (mp_len r digs gdigs)) (\<lambda>re.
     bndM (lfM (mp_len i digs gdigs)) (\<lambda>im.
     bndM (chyp_parts f w re im gdigs) (\<lambda>p.
     lfM (shorten_pair r i digs p gdigs)))))"


type_synonym mp_cfn = "a68_mp \<Rightarrow> a68_mp \<Rightarrow> nat \<Rightarrow> mp_pair mpm"

definition mp_csinh :: "'a math_ops_scheme \<Rightarrow> mp_cfn" where "mp_csinh f = chyp f CH_SINH"
definition mp_ccosh :: "'a math_ops_scheme \<Rightarrow> mp_cfn" where "mp_ccosh f = chyp f CH_COSH"
definition mp_ctanh :: "'a math_ops_scheme \<Rightarrow> mp_cfn" where "mp_ctanh f = chyp f CH_TANH"
definition mp_casinh :: "'a math_ops_scheme \<Rightarrow> mp_cfn" where "mp_casinh f = chyp f CH_ASINH"
definition mp_cacosh :: "'a math_ops_scheme \<Rightarrow> mp_cfn" where "mp_cacosh f = chyp f CH_ACOSH"
definition mp_catanh :: "'a math_ops_scheme \<Rightarrow> mp_cfn" where "mp_catanh f = chyp f CH_ATANH"

end
