(* ===== verification/MpCache.thy ===== *)
theory MpCache
  imports MpComplex
begin

text \<open>
  The caches of \<open>csrc/mpmath.c\<close>: what a request leaves in them and what a later request finds. Also that the
  model of the two logarithm constants, which \<open>mp_ln\<close> needs and which need \<open>mp_ln\<close>, is the code's.
\<close>

section \<open>Runs that return\<close>

lemma bindO_eq_Some: "bindO m k = Some (Inr y) \<longleftrightarrow> (\<exists>x. m = Some (Inr x) \<and> k x = Some (Inr y))"
  by (auto simp: bindO_def split: option.splits sum.splits bind_splits)

lemma bndM_eq_Some:
  "bndM m k c = Some (Inr (y, c')) \<longleftrightarrow> (\<exists>x c1. m c = Some (Inr (x, c1)) \<and> k x c1 = Some (Inr (y, c')))"
  by (auto simp: bndM_def bindO_eq_Some)

lemma lfM_eq_Some: "lfM r c = Some (Inr (x, c')) \<longleftrightarrow> r = Inr x \<and> c' = c"
  by (auto simp: lfM_def upM_def bindO_eq_Some lf_def okO_def)

lemma upM_eq_Some: "upM r c = Some (Inr (x, c')) \<longleftrightarrow> r = Some (Inr x) \<and> c' = c"
  by (auto simp: upM_def bindO_eq_Some okO_def)

lemma state_eq_Some:
  "okM y c = Some (Inr (x, c')) \<longleftrightarrow> x = y \<and> c' = c"
  "getM c = Some (Inr (x', c')) \<longleftrightarrow> x' = c \<and> c' = c"
  "putM d c = Some (Inr (u, c')) \<longleftrightarrow> c' = d"
  by (auto simp: okM_def getM_def putM_def okO_def)

lemmas run_eq_Some = bndM_eq_Some lfM_eq_Some upM_eq_Some state_eq_Some

section \<open>The constants kept with pi\<close>

lemma mp_pi_leaves:
  assumes "mp_pi f api md digs c = Some (Inr (z, c'))"
  shows "\<exists>n v. c_pi c' = Some (n, v) \<and> digs + MP_GUARDS \<le> n"
  using assms unfolding mp_pi_def Let_def run_eq_Some
  by (auto simp: run_eq_Some split: if_splits option.splits)

text \<open>
  After a request for a constant of \<open>pi\<close> that returned, every request for any of the eight constants with
  no more digits is answered from the cache: it copies the digits kept there and leaves the cache as it is.
\<close>

lemma mp_pi_answers_from_cache:
  assumes "mp_pi f api md digs c = Some (Inr (z, c'))" and "digs' \<le> digs"
  shows "\<exists>n v. c_pi c' = Some (n, v) \<and>
    mp_pi f' api' md' digs' c' = bindO (lf (mp_move api' (v md') digs')) (\<lambda>z'. okO (z', c'))"
proof -
  obtain n v where c': "c_pi c' = Some (n, v)" and n: "digs + MP_GUARDS \<le> n"
    using mp_pi_leaves [OF assms(1)] by blast
  have "\<not> n < digs' + MP_GUARDS" using n assms(2) by simp
  then show ?thesis
    using c' by (auto simp: mp_pi_def Let_def bndM_def getM_def okM_def okO_def lfM_def upM_def lf_def)
qed

section \<open>The constants of the logarithm\<close>

text \<open>
  The inner call of \<open>mp_ln\<close> is reached for numbers of an exponent of 2 and more only, so \<open>ln_const\<close>, whose model
  passes a function that stops, is \<open>mp_ln\<close> called for the constant, as the code has it.
\<close>

lemma mp_ln_with_small:
  assumes "mp_ex x = 0 \<or> mp_ex x = 1"
  shows "mp_ln_with f g z x digs = mp_ln_with f g' z x digs"
proof -
  have e: "mp_ex y = mp_ex x" if "mp_len x digs n = Inr y" for y n
    using that by (auto simp: mp_len_def len_into_def)
  show ?thesis
  proof (cases "mp_len x digs (digs + MP_GUARDS)")
    case (Inl err)
    then show ?thesis by (simp add: mp_ln_with_def Let_def)
  next
    case (Inr y)
    have "mp_ex y = 0 \<or> mp_ex y = 1" using e [OF Inr] assms by simp
    then show ?thesis using Inr by (auto simp: mp_ln_with_def Let_def)
  qed
qed

lemma mp_set_ex: "mp_set z x e digs = Inr y \<Longrightarrow> mp_ex y = e"
  by (auto simp: mp_set_def)

lemma ln_const_is_mp_ln:
  assumes "e = 0 \<or> e = 1"
  shows "ln_const f u e gdigs store =
    bndM (lfM (mp_set (mp_nil gdigs) u e gdigs)) (\<lambda>zg. bndM (mp_ln f zg zg gdigs) (\<lambda>zg.
    bndM getM (\<lambda>c. bndM (putM (store (gdigs, zg) c)) (\<lambda>d. lfM (mp_move (mp_nil gdigs) zg gdigs)))))"
proof (cases "mp_set (mp_nil gdigs) u e gdigs")
  case (Inl err)
  then show ?thesis by (simp add: ln_const_def)
next
  case (Inr y)
  then have "mp_ex y = 0 \<or> mp_ex y = 1" using assms mp_set_ex by blast
  then have "mp_ln_with f (\<lambda>_. lfM (Inl (Fatal ''ln_const''))) y y gdigs = mp_ln f y y gdigs"
    unfolding mp_ln_def by (rule mp_ln_with_small)
  then show ?thesis by (simp add: ln_const_def Inr)
qed

lemmas mp_ln_constants = ln_const_is_mp_ln [of 1 _ 1] ln_const_is_mp_ln [of 0 _ 10]

end
