(* ===== verification/MpFmt.thy ===== *)
theory MpFmt
  imports MpMath Floatfmt
begin

text \<open>
  \<open>csrc/mpfmt.c\<close>: \<open>whole\<close>, \<open>fixed\<close> and \<open>float\<close> of multi-precision numbers, by the arithmetic of the kernel.
  A function that returns \<open>NULL\<close> with a message stops with \<open>Die\<close> of that message, as all its callers do.
  The loops that scale by ten are \<open>partial_function (option)\<close>, as in \<open>Floatfmt\<close>.
\<close>

section \<open>Helpers\<close>

definition mpfmt_ll_real_width :: "int \<Rightarrow> int" where
  "mpfmt_ll_real_width ll = (ll - int MP_GUARDS) * 7"

text \<open>\<open>wholeInt\<close> of a 64-bit integer.\<close>

definition mpfmt_whole_i64 :: "int \<Rightarrow> int \<Rightarrow> string" where
  "mpfmt_whole_i64 n width =
    (let ltz = n < 0; digits = nat_dec (nat \<bar>n\<bar>); ndig = int (length digits);
         len = (if width = 0 then ndig else \<bar>width\<bar> - (if ltz \<or> width > 0 then 1 else 0));
         s = (if ndig > len then error_chars len else digits)
     in if len = 0 \<or> a68_fmt_has_error s then error_chars \<bar>width\<bar>
        else (let s1 = (if ltz then CHR ''-'' # s else if width > 0 then CHR ''+'' # s else s)
              in if width \<noteq> 0 then leading_spaces s1 (nat \<bar>width\<bar>) else s1))"

section \<open>Fixed-point numbers\<close>

text \<open>Multiply by ten and take the units digit.\<close>

definition mp_choose_dig :: "a68_mp \<Rightarrow> nat \<Rightarrow> (char \<times> a68_mp) res" where
  "mp_choose_dig y digits =
     bindE (mp_mul_digit y y 10 digits) (\<lambda>y.
     (let c0 = (if mp_ex y = 0 then mp_dig y 1 else 0);
          c = (if c0 > 9 then 9 else c0) in
     bindE (mp_sub y y (mp_lit digits c 0) digits) (\<lambda>y.
     Inr ((digit_char (if c < 0 then 0 else nat c), y)))))"


text \<open>\<open>n\<close> digits; from \<open>llw\<close> digits on they are \<open>0\<close>. \<open>len\<close> counts the digits of the whole number.\<close>

fun choose_digs :: "nat \<Rightarrow> nat \<Rightarrow> int \<Rightarrow> int \<Rightarrow> a68_mp \<Rightarrow> (string \<times> int \<times> a68_mp) res" where
  "choose_digs digits 0 llw len y = Inr ([], len, y)"
| "choose_digs digits (Suc n) llw len y =
     bindE (if len < llw then mp_choose_dig y digits else Inr (CHR ''0'', y)) (\<lambda>(ch, y).
     bindE (choose_digs digits n llw (len + 1) y) (\<lambda>(s, len, y). Inr (ch # s, len, y)))"

partial_function (option) before_count :: "nat \<Rightarrow> a68_mp \<Rightarrow> a68_mp \<Rightarrow> int \<Rightarrow> (a68_mp \<times> int) res option" where
  "before_count digits y t before =
     bindO (lf (mp_sub t y (mp_one digits) digits)) (\<lambda>t.
     if \<not>  mp_dig t 1 \<ge> 0 then okO ((y, before))
     else (bindO (lf (mp_div_digit y y 10 digits)) (\<lambda>y.
     before_count digits y t (before + 1))))"

definition mp_sub_fixed :: "a68_mp \<Rightarrow> nat \<Rightarrow> int \<Rightarrow> int \<Rightarrow> int \<Rightarrow> string res option" where
  "mp_sub_fixed x digits width after llw =
     bindO (lf (mp_ten_up (mp_nil digits) (- after) digits)) (\<lambda>t.
     bindO (lf (mp_half t t digits)) (\<lambda>t.
     bindO (lf (mp_add (mp_nil digits) x t digits)) (\<lambda>y.
     bindO (before_count digits (if mp_ex y > 1 then y\<lparr>mp_ex := 1\<rparr> else y) t (if mp_ex y > 1 then (mp_ex y - 1) * 7 else 0)) (\<lambda>(y, before).
     if before + after + (if after > 0 then 1 else 0) > width then okO (error_chars width)
     else (bindO (lf (choose_digs digits (nat before) llw 0 y)) (\<lambda>(s1, len, y).
     bindO (lf (choose_digs digits (nat after) llw len y)) (\<lambda>(s2, len, y).
     (let s = s1 @ (if after > 0 then ''.'' else []) @ s2 in
     okO (if int (length s) > width then error_chars width else s)))))))))"

definition mpfmt_check_finite :: "a68_mp \<Rightarrow> unit res" where
  "mpfmt_check_finite x =
     (if mp_is_nan x then Inl (Die ''LONG REAL value is not a number'')
     else (if mp_is_inf x then Inl (Die ''infinite LONG REAL value'')
     else (Inr (()))))"


text \<open>The width of a number printed with width 0: grown until the rounded number fits.\<close>

partial_function (option) mp_width_loop :: "nat \<Rightarrow> a68_mp \<Rightarrow> a68_mp \<Rightarrow> a68_mp \<Rightarrow> a68_mp \<Rightarrow> int \<Rightarrow> int res option" where
  "mp_width_loop digits xa z0 z1 t len =
     bindO (lf (mp_div_digit t z0 2 digits)) (\<lambda>t.
     bindO (lf (mp_add t xa t digits)) (\<lambda>t.
     bindO (lf (mp_sub t t z1 digits)) (\<lambda>t.
     if \<not>  mp_dig t 1 > 0 then okO (len)
     else (bindO (lf (mp_mul_digit z1 z1 10 digits)) (\<lambda>z1.
     mp_width_loop digits xa z0 z1 t (len + 1))))))"

definition mp_zero_width :: "a68_mp \<Rightarrow> nat \<Rightarrow> int \<Rightarrow> int res option" where
  "mp_zero_width xa digits after =
     (let len = (if after = 0 then 1 else 0) in
     bindO (lf (mp_set (mp_nil digits) 1000000 (- 1) digits)) (\<lambda>z0.
     bindO (lf (mp_pow_int z0 z0 after digits)) (\<lambda>z0.
     bindO (lf (mp_set (mp_nil digits) 10 0 digits)) (\<lambda>z1.
     bindO (lf (mp_pow_int z1 z1 len digits)) (\<lambda>z1.
     bindO (mp_width_loop digits xa z0 z1 (mp_nil digits) len) (\<lambda>len.
     okO (len + (if after = 0 then 0 else after + 1))))))))"


definition mp_decorate :: "bool \<Rightarrow> a68_mp \<Rightarrow> int \<Rightarrow> int \<Rightarrow> string \<Rightarrow> string" where
  "mp_decorate ltz xa width len s =
    (let s1 = (if len > int (length s) \<and> (s = [] \<or> hd s = CHR ''.'') \<and> (mp_ex xa < 0 \<or> mp_dig xa 1 = 0)
               then CHR ''0'' # s else s);
         s2 = (if ltz then CHR ''-'' # s1 else if width > 0 then CHR ''+'' # s1 else s1)
     in if width \<noteq> 0 then leading_spaces s2 (nat \<bar>width\<bar>) else s2)"

partial_function (option) mpfmt_fixed :: "a68_mp \<Rightarrow> nat \<Rightarrow> int \<Rightarrow> int \<Rightarrow> int \<Rightarrow> string res option" where
  "mpfmt_fixed x digits width after llw =
     bindO (lf (mpfmt_check_finite x)) (\<lambda>u.
     (let ltz = (mp_dig x 1 < 0) in
     bindO (lf (abs_copy (mp_digs x) x (mp_digs x))) (\<lambda>xa.
     (let len0 = \<bar>width\<bar> - (if ltz \<or> width > 0 then 1 else 0) in
     if \<not>  (after \<ge> 0 \<and> (len0 > after \<or> width = 0)) then okO (error_chars width)
     else (bindO ((if width = 0 then mp_zero_width xa digits after else okO len0)) (\<lambda>len.
     bindO (mp_sub_fixed xa digits len after llw) (\<lambda>s.
     if \<not>  a68_fmt_has_error s then okO (mp_decorate ltz xa width len s)
     else (if after > 0 then mpfmt_fixed x digits width (after - 1) llw
     else (okO (error_chars width))))))))))"


section \<open>Numbers with an exponent\<close>

partial_function (option) mp_std_down :: "nat \<Rightarrow> a68_mp \<Rightarrow> a68_mp \<Rightarrow> a68_mp \<Rightarrow> int \<Rightarrow> (a68_mp \<times> int) res option" where
  "mp_std_down digits g t y q =
     bindO (lf (mp_sub t y g digits)) (\<lambda>t.
     if \<not>  mp_dig t 1 \<ge> 0 then okO ((y, q))
     else (bindO (lf (mp_div_digit y y 10 digits)) (\<lambda>y.
     mp_std_down digits g t y (q + 1))))"

partial_function (option) mp_std_up :: "nat \<Rightarrow> a68_mp \<Rightarrow> a68_mp \<Rightarrow> a68_mp \<Rightarrow> int \<Rightarrow> (a68_mp \<times> int) res option" where
  "mp_std_up digits h t y q =
     bindO (lf (mp_sub t y h digits)) (\<lambda>t.
     if \<not>  mp_dig t 1 < 0 then okO ((y, q))
     else (bindO (lf (mp_mul_digit y y 10 digits)) (\<lambda>y.
     mp_std_up digits h t y (q - 1))))"

definition mp_standardize :: "a68_mp \<Rightarrow> nat \<Rightarrow> int \<Rightarrow> int \<Rightarrow> int \<Rightarrow> (a68_mp \<times> int) res option" where
  "mp_standardize y digits before after q =
     bindO (lf (mp_ten_up (mp_nil digits) before digits)) (\<lambda>g.
     bindO (lf (mp_div_digit (mp_nil digits) g 10 digits)) (\<lambda>h.
     (let far = (mp_ex y - mp_ex g > 1) in
     bindO (mp_std_down digits g (mp_nil digits) (if far then y\<lparr>mp_ex := mp_ex g + 1\<rparr> else y) (if far then q + 7 * (mp_ex y - mp_ex g - 1) else q)) (\<lambda>(y, q).
     bindO (if mp_dig y 1 \<noteq> 0 then (
             (let low = (mp_ex y - mp_ex h < - 1) in
             mp_std_up digits h (mp_nil digits) (if low then y\<lparr>mp_ex := mp_ex h - 1\<rparr> else y) (if low then q - 7 * (mp_ex h - mp_ex y - 1) else q)))
         else (
             okO ((y, q))))
       (\<lambda>(y, q).
     bindO (lf (mp_ten_up (mp_nil digits) (- after) digits)) (\<lambda>fc.
     bindO (lf (mp_div_digit (mp_nil digits) fc 2 digits)) (\<lambda>t.
     bindO (lf (mp_add t y t digits)) (\<lambda>t.
     bindO (lf (mp_sub t t g digits)) (\<lambda>t.
     if mp_dig t 1 \<ge> 0 then (
         bindO (lf (mp_move y h digits)) (\<lambda>y.
         okO ((y, q + 1))))
     else (
         okO ((y, q))))))))))))"


text \<open>The exponent is moved to a multiple of \<open>frmt\<close>, or the mantissa to \<open>- frmt\<close> digits before the point.\<close>

partial_function (option) mp_frmt_loop :: "nat \<Rightarrow> int \<Rightarrow> a68_mp \<Rightarrow> int \<Rightarrow> int \<Rightarrow> (a68_mp \<times> int \<times> int) res option" where
  "mp_frmt_loop digits frmt z q after =
     (if c_rem q frmt = 0 then okO ((z, q, after))
     else (bindO (lf (mp_mul_digit z z 10 digits)) (\<lambda>z.
     mp_frmt_loop digits frmt z (q - 1) (if after > 0 then after - 1 else after))))"

partial_function (option) mp_lim_up :: "nat \<Rightarrow> a68_mp \<Rightarrow> a68_mp \<Rightarrow> a68_mp \<Rightarrow> int \<Rightarrow> int \<Rightarrow> (a68_mp \<times> a68_mp \<times> int \<times> int) res option" where
  "mp_lim_up digits lm dif z q after =
     (if \<not>  mp_dig dif 1 < 0 then okO ((dif, z, q, after))
     else (bindO (lf (mp_mul_digit z z 10 digits)) (\<lambda>z.
     bindO (lf (mp_sub dif z lm digits)) (\<lambda>dif.
     mp_lim_up digits lm dif z (q - 1) (if after > 0 then after - 1 else after)))))"

partial_function (option) mp_lim_down :: "nat \<Rightarrow> a68_mp \<Rightarrow> a68_mp \<Rightarrow> a68_mp \<Rightarrow> int \<Rightarrow> int \<Rightarrow> (a68_mp \<times> int \<times> int) res option" where
  "mp_lim_down digits lm dif z q after =
     (if \<not>  mp_dig dif 1 > 0 then okO ((z, q, after))
     else (bindO (lf (mp_div_digit z z 10 digits)) (\<lambda>z.
     bindO (lf (mp_sub dif z lm digits)) (\<lambda>dif.
     mp_lim_down digits lm dif z (q + 1) (if after > 0 then after + 1 else after)))))"

definition mp_frmt_shift :: "nat \<Rightarrow> int \<Rightarrow> a68_mp \<Rightarrow> int \<Rightarrow> int \<Rightarrow> (a68_mp \<times> int \<times> int) res option" where
  "mp_frmt_shift digits frmt z q after =
     (if frmt > 0 then mp_frmt_loop digits frmt z q after
     else (bindO (lf (mp_ten_up (mp_nil digits) (- frmt - 1) digits)) (\<lambda>lm.
     bindO (lf (mp_sub (mp_nil digits) z lm digits)) (\<lambda>dif.
     bindO (mp_lim_up digits lm dif z q after) (\<lambda>(dif, z, q, after).
     bindO (lf (mp_mul_digit lm lm 10 digits)) (\<lambda>lm.
     bindO (lf (mp_sub dif z lm digits)) (\<lambda>dif.
     mp_lim_down digits lm dif z q after)))))))"

partial_function (option) mpfmt_float :: "a68_mp \<Rightarrow> nat \<Rightarrow> int \<Rightarrow> int \<Rightarrow> int \<Rightarrow> int \<Rightarrow> int \<Rightarrow> string res option" where
  "mpfmt_float x digits width after expo frmt llw =
     bindO (lf (mpfmt_check_finite x)) (\<lambda>u.
     (let ltz = (mp_dig x 1 < 0);
          before = \<bar>width\<bar> - \<bar>expo\<bar> - (if after \<noteq> 0 then after + 1 else 0) - 2 in
     if \<not>  sgn before + sgn after > 0 then okO (error_chars width)
     else (bindO (lf (abs_copy digits x digits)) (\<lambda>z.
     bindO (mp_standardize z digits before after 0) (\<lambda>(z, q).
     bindO (mp_frmt_shift digits frmt z q after) (\<lambda>(z, q, after).
     (let z = (if ltz then mp_negate1 z else z) in
     bindO (mpfmt_fixed z digits (sgn width * (\<bar>width\<bar> - \<bar>expo\<bar> - 1)) after llw) (\<lambda>s.
     (let r = s @ ''e'' @ mpfmt_whole_i64 q expo in
     if expo = 0 \<or> a68_fmt_has_error r then mpfmt_float x digits width (if after \<noteq> 0 then after - 1 else 0) (if expo > 0 then expo + 1 else expo - 1) frmt llw
     else (okO (r)))))))))))"


definition mpfmt_whole :: "a68_mp \<Rightarrow> nat \<Rightarrow> int \<Rightarrow> int \<Rightarrow> string res option" where
  "mpfmt_whole x digits width llw = mpfmt_fixed x digits width 0 llw"

definition MP_LONG_DIGITS :: nat where "MP_LONG_DIGITS = 7"

definition mpfmt_std :: "a68_mp \<Rightarrow> int \<Rightarrow> nat \<Rightarrow> string res option" where
  "mpfmt_std x longness ll =
    (let rw = (if longness \<le> 1 then 42 else (int ll - 2) * 7); ew = 3;
         digits = (if longness \<le> 1 then MP_LONG_DIGITS else ll)
     in mpfmt_float x digits (rw + ew + 4) (rw - 1) (ew + 1) 1 (mpfmt_ll_real_width (int ll)))"

end
