(* ===== verification/MpRt.thy ===== *)
theory MpRt
  imports RtOps MpFmt MpComplex
begin

text \<open>
  \<open>csrc/mprt.c\<close>: LONG and LONG LONG values of compiled programs on top of the multi-precision modules. A
  LONG REAL value is a leaf of bytes: the status, the number of digits and the exponent, then the digits as
  doubles. \<open>a68_ll_digits\<close>, the number of digits of LONG LONG, is the parameter \<open>ll\<close>.

  A view (\<open>mp_view\<close>) shares its digits with the leaf. An operation works on the view of a fresh leaf; \<open>mp_sync\<close>
  is the effect of its writes on the leaf and \<open>mp_commit\<close> what the function of this name stores. Digits are
  integers in the model, so the sign of a digit zero is not kept; position 0 of a digit array is always 0.
\<close>

section \<open>Computations with the caches and the run-time state\<close>

type_synonym lstate = "mp_cache \<times> rt_state"
type_synonym 'a lrt = "lstate \<Rightarrow> ('a \<times> lstate) res option"

definition bndL :: "'a lrt \<Rightarrow> ('a \<Rightarrow> 'b lrt) \<Rightarrow> 'b lrt" where
  "bndL m k c = bindO (m c) (\<lambda>(x, c'). k x c')"
definition okL :: "'a \<Rightarrow> 'a lrt" where "okL x c = okO (x, c)"
definition liftO :: "'a res option \<Rightarrow> 'a lrt" where "liftO m c = bindO m (\<lambda>x. okO (x, c))"
definition liftR :: "'a res \<Rightarrow> 'a lrt" where "liftR r = liftO (lf r)"
definition liftS :: "'a rt \<Rightarrow> 'a lrt" where
  "liftS m c = bindO (lf (m (snd c))) (\<lambda>(x, s). okO (x, (fst c, s)))"
definition liftM :: "'a mpm \<Rightarrow> 'a lrt" where
  "liftM m c = bindO (m (fst c)) (\<lambda>(x, d). okO (x, (d, snd c)))"
definition dieL :: "string \<Rightarrow> 'a lrt" where "dieL msg = liftR (Inl (Die msg))"

lemma bndL_simps [simp]:
  "bndL (okL x) k = k x" "bndL (liftR (Inr x)) k = k x" "bndL (liftO (Some (Inr x))) k = k x"
  "bndL (liftR (Inl e)) k = liftR (Inl e)"
  by (rule ext, simp add: bndL_def okL_def liftR_def liftO_def okO_def lf_def)+

section \<open>Leaves\<close>

definition HDR :: nat where "HDR = 16"

definition le_bytes :: "nat \<Rightarrow> u64 \<Rightarrow> u64 list" where
  "le_bytes k w = map (\<lambda>i. and (drop_bit (8 * i) w) 0xFF) [0..<k]"

fun le_word :: "u64 list \<Rightarrow> u64" where
  "le_word [] = 0"
| "le_word (b # bs) = or b (push_bit 8 (le_word bs))"

text \<open>The bits of a \<open>double\<close> that holds an integer, and the integer of such bits.\<close>

definition dig_bits :: "int \<Rightarrow> u64" where
  "dig_bits n = (if n = 0 then 0 else
     (let m = nat \<bar>n\<bar>; e = bit_len m - 1;
          sig = (if e \<le> 52 then m * 2 ^ (52 - e) else m div 2 ^ (e - 52))
      in of_nat ((if n < 0 then 2 ^ 63 else 0) + (1023 + e) * 2 ^ 52 + (sig - 2 ^ 52))))"

definition bits_dig :: "u64 \<Rightarrow> int" where
  "bits_dig w = (let x = unat w; e = x div 2 ^ 52 mod 2048; sig = 2 ^ 52 + x mod 2 ^ 52;
       m = (if e = 0 then 0 else if e \<ge> 1075 then sig * 2 ^ (e - 1075) else sig div 2 ^ (1075 - e))
     in if x \<ge> 2 ^ 63 then - int m else int m)"

definition head_bytes :: "a68_mp \<Rightarrow> u64 list" where
  "head_bytes x = le_bytes 4 (ucast (mp_st x)) @ le_bytes 4 (of_nat (mp_digs x)) @ le_bytes 8 (word_of_int (mp_ex x))"

definition digit_bytes :: "a68_mp \<Rightarrow> u64 list" where
  "digit_bytes x = le_bytes 8 0 @ concat (map (\<lambda>d. le_bytes 8 (dig_bits d)) (mp_d x))"

definition bytes_mp :: "u64 list \<Rightarrow> a68_mp res" where
  "bytes_mp ds = (let digs = sint (ucast (le_word (take 4 (drop 4 ds))) :: 32 word) in
     if digs < 0 \<or> length ds < HDR + (nat digs + 1) * 8 then Inl UB
     else Inr \<lparr>mp_st = ucast (le_word (take 4 ds)), mp_ex = sint (le_word (take 8 (drop 8 ds))),
       mp_d = map (\<lambda>k. bits_dig (le_word (take 8 (drop (HDR + 8 * k) ds)))) [1..<Suc (nat digs)]\<rparr>)"

definition leaf_bytes :: "nat \<Rightarrow> u64 list rt" where
  "leaf_bytes l = bnd (get_body l) (\<lambda>b. case b of Leaf ek ds fs \<Rightarrow> ret ds | _ \<Rightarrow> stop UB)"

definition put_bytes :: "nat \<Rightarrow> nat \<Rightarrow> u64 list \<Rightarrow> unit rt" where
  "put_bytes l off bs = bnd (get_body l) (\<lambda>b. case b of
     Leaf ek ds fs \<Rightarrow> if off + length bs \<le> length ds
       then set_body l (Leaf ek (take off ds @ bs @ drop (off + length bs) ds) fs) else stop UB
   | _ \<Rightarrow> stop UB)"

definition mp_view :: "a68_val \<Rightarrow> a68_mp rt" where
  "mp_view v = (case v of
     VUndef \<Rightarrow> die ''attempt to use an uninitialised LONG REAL value''
   | VMp l \<Rightarrow> bnd (leaf_bytes l) (\<lambda>ds. lift_res (bytes_mp ds))
   | _ \<Rightarrow> die ''internal: LONG REAL expected'')"

definition mp_leaf :: "a68_mp \<Rightarrow> a68_val rt" where
  "mp_leaf x = bnd (leaf_alloc EK_BYTES (HDR + (mp_digs x + 1) * 8)) (\<lambda>l.
     bnd (put_bytes l 0 (head_bytes x @ digit_bytes x)) (\<lambda>_. ret (VMp l)))"

definition mp_sync :: "a68_val \<Rightarrow> a68_mp \<Rightarrow> unit rt" where
  "mp_sync r x = put_bytes (val_ptr r) HDR (digit_bytes x)"

definition mp_commit :: "a68_val \<Rightarrow> a68_mp \<Rightarrow> a68_val rt" where
  "mp_commit r x = bnd (mp_sync r x) (\<lambda>_. bnd (put_bytes (val_ptr r) 0 (head_bytes x)) (\<lambda>_. ret r))"

definition fresh_copy :: "a68_val \<Rightarrow> nat \<Rightarrow> (a68_val \<times> a68_mp) rt" where
  "fresh_copy v digs =
     bnd (mp_view v) (\<lambda>x.
     bnd (lift_res ((if mp_digs x \<ge> digs then Inr x else mp_len x (mp_digs x) digs))) (\<lambda>w.
     bnd (mp_leaf w) (\<lambda>r.
     bnd (mp_view r) (\<lambda>view.
     ret ((r, view))))))"

definition fresh_nil :: "nat \<Rightarrow> (a68_val \<times> a68_mp) rt" where
  "fresh_nil digs =
     bnd (mp_leaf (mp_nil digs)) (\<lambda>r.
     bnd (mp_view r) (\<lambda>view.
     ret ((r, view))))"

definition compl_of :: "a68_val \<Rightarrow> a68_val \<Rightarrow> a68_val rt" where
  "compl_of re im =
     bnd (slots_alloc 2) (\<lambda>c.
     bnd (slot_write (c, 0) re) (\<lambda>d.
     bnd (slot_write (c, 1) im) (\<lambda>d.
     ret (VStruct c))))"


definition compl_parts :: "a68_val \<Rightarrow> (a68_val \<times> a68_val) rt" where
  "compl_parts v = (case v of
     VUndef \<Rightarrow> die ''attempt to use an uninitialised LONG COMPLEX value''
   | VStruct c \<Rightarrow> bnd (slot_read (c, 0)) (\<lambda>re. bnd (slot_read (c, 1)) (\<lambda>im. ret (re, im)))
   | _ \<Rightarrow> die ''internal: LONG COMPLEX expected'')"

section \<open>Texts of integers\<close>

definition chars_of_bytes :: "u64 list \<Rightarrow> string" where
  "chars_of_bytes ds = map (\<lambda>b. char_of (unat b)) ds"

definition int_text :: "a68_val \<Rightarrow> string rt" where
  "int_text v = (case v of
     VInt i \<Rightarrow> ret (int_dec (sint i))
   | VBigint l \<Rightarrow> bnd (leaf_bytes l) (\<lambda>ds. ret (chars_of_bytes ds))
   | VUndef \<Rightarrow> die ''attempt to use an uninitialised value''
   | _ \<Rightarrow> die ''internal: INT expected'')"

text \<open>\<open>%07lld\<close>.\<close>

definition pct07 :: "int \<Rightarrow> string" where
  "pct07 d = (let s = nat_dec (nat \<bar>d\<bar>); w = (if d < 0 then 6 else 7) in
     (if d < 0 then ''-'' else []) @ replicate (w - length s) (CHR ''0'') @ s)"

text \<open>The digits of \<open>long_int_of\<close>: the buffer has 1024 bytes, \<open>n\<close> of them in use.\<close>

fun buf_digits :: "a68_mp \<Rightarrow> nat list \<Rightarrow> nat \<Rightarrow> string" where
  "buf_digits z [] n = []"
| "buf_digits z (j # js) n = (if n + 8 < 1024
     then (let s = pct07 (mp_dig z j) in s @ buf_digits z js (n + length s)) else [])"

definition long_int_text :: "a68_mp \<Rightarrow> string" where
  "long_int_text z = (let s = (if mp_dig z 1 < 0 then ''-'' else []) @ nat_dec (nat \<bar>mp_dig z 1\<bar>)
     in s @ buf_digits z [2..<nat (mp_ex z + 2)] (length s))"

definition text_leaf :: "string \<Rightarrow> nat rt" where
  "text_leaf s = bnd (leaf_alloc EK_BYTES (length s)) (\<lambda>l.
     bnd (put_bytes l 0 (map (\<lambda>c. of_nat (of_char c)) s)) (\<lambda>_. ret l))"

definition long_int_of :: "a68_mp \<Rightarrow> a68_val rt" where
  "long_int_of z = (case mp_to_i64_trunc z of
     Some k \<Rightarrow> ret (VInt (word_of_int k))
   | None \<Rightarrow> bnd (text_leaf (long_int_text z)) (\<lambda>l. ret (VBigint l)))"

section \<open>Conversions\<close>

definition mp_digits_of :: "nat \<Rightarrow> int \<Rightarrow> nat" where
  "mp_digits_of ll longness = (if longness \<le> 1 then MP_LONG_DIGITS else ll)"

definition real_mode :: "int \<Rightarrow> string" where
  "real_mode n = (if n \<le> 1 then ''LONG REAL'' else ''LONG LONG REAL'')"
definition compl_mode :: "int \<Rightarrow> string" where
  "compl_mode n = (if n \<le> 1 then ''LONG COMPL'' else ''LONG LONG COMPL'')"
definition int_mode :: "int \<Rightarrow> string" where
  "int_mode n = (if n \<le> 1 then ''LONG INT'' else ''LONG LONG INT'')"

definition die2 :: "string \<Rightarrow> string \<Rightarrow> 'a res" where
  "die2 mode rest = Inl (Die (mode @ '' '' @ rest))"

text \<open>A number from its decimal text, or the error of an integer that is too large.\<close>

definition mp_of_text :: "nat \<Rightarrow> string \<Rightarrow> int \<Rightarrow> a68_mp res" where
  "mp_of_text ll s longness = (case mp_of_dec_string s (mp_digits_of ll longness) of
     Inl (Die e) \<Rightarrow> die2 (int_mode longness) ''value out of bounds''
   | Inl e \<Rightarrow> Inl e
   | Inr z \<Rightarrow> Inr z)"

definition mp_of_int :: "nat \<Rightarrow> a68_big \<Rightarrow> int \<Rightarrow> a68_val rt" where
  "mp_of_int ll k longness = bnd (lift_res (mp_of_text ll (big_to_dec k) longness)) mp_leaf"

definition mp_of_real :: "'a fmt_ops_scheme \<Rightarrow> nat \<Rightarrow> u64 \<Rightarrow> int \<Rightarrow> a68_val rt" where
  "mp_of_real f ll x longness =
     bnd (lift_res (mp_real_to_mp f (mp_nil MP_LONG_DIGITS) x MP_LONG_DIGITS)) (\<lambda>z.
     if longness \<ge> 2 then (
         bnd (lift_res (mp_len z MP_LONG_DIGITS ll)) (\<lambda>w.
         mp_leaf w))
     else (
         mp_leaf z))"

definition mp_of_string :: "nat \<Rightarrow> string \<Rightarrow> int \<Rightarrow> (a68_val \<times> bool) rt" where
  "mp_of_string ll s longness =
     (let digs = mp_digits_of ll longness in
     bnd (lift_res (mp_string_to_mp (mp_nil digs) s digs)) (\<lambda>(z, ok).
     bnd (mp_leaf z) (\<lambda>r.
     ret ((r, ok)))))"

definition mp_to_dec :: "nat \<Rightarrow> a68_val \<Rightarrow> int \<Rightarrow> (bool \<times> a68_dec) rt" where
  "mp_to_dec ll z longness =
     bnd (mp_view z) (\<lambda>x.
     (let digs = mp_digits_of ll longness;
          buf = nat_dec (nat \<bar>mp_dig x 1\<bar>) @ concat (map (\<lambda>j. pct07 (mp_dig x j)) [2..<Suc digs]) in
     ret ((mp_dig x 1 < 0, dec_mk (big_from_dec buf) ((mp_ex x - int digs + 1) * 7)))))"

definition mp_to_real :: "'a dbl_ops_scheme \<Rightarrow> nat \<Rightarrow> a68_val \<Rightarrow> int \<Rightarrow> u64 rt" where
  "mp_to_real f ll z longness =
     bnd (mp_view z) (\<lambda>x.
     lift_res (mp_to_double f x (mp_digits_of ll longness)))"


section \<open>Formatting\<close>

definition llw :: "nat \<Rightarrow> int" where "llw ll = mpfmt_ll_real_width (int ll)"

definition mp_fmt_whole :: "nat \<Rightarrow> a68_val \<Rightarrow> int \<Rightarrow> int \<Rightarrow> string lrt" where
  "mp_fmt_whole ll z longness width =
     bndL (liftS (mp_view z)) (\<lambda>x.
     liftO (mpfmt_whole x (mp_digits_of ll longness) width (llw ll)))"

definition mp_fmt_fixed :: "nat \<Rightarrow> a68_val \<Rightarrow> int \<Rightarrow> int \<Rightarrow> int \<Rightarrow> string lrt" where
  "mp_fmt_fixed ll z longness width after =
     bndL (liftS (mp_view z)) (\<lambda>x.
     liftO (mpfmt_fixed x (mp_digits_of ll longness) width after (llw ll)))"

definition mp_fmt_float :: "nat \<Rightarrow> a68_val \<Rightarrow> int \<Rightarrow> int \<Rightarrow> int \<Rightarrow> int \<Rightarrow> int \<Rightarrow> string lrt" where
  "mp_fmt_float ll z longness width after expo frmt =
     bndL (liftS (mp_view z)) (\<lambda>x.
     liftO (mpfmt_float x (mp_digits_of ll longness) width after expo frmt (llw ll)))"

definition mp_float_std :: "nat \<Rightarrow> a68_val \<Rightarrow> int \<Rightarrow> string lrt" where
  "mp_float_std ll z longness =
     bndL (liftS (mp_view z)) (\<lambda>x.
     liftO (mpfmt_std x (if longness \<le> 1 then 1 else 2) ll))"

definition mp_check_finite :: "a68_val \<Rightarrow> unit rt" where
  "mp_check_finite z =
     bnd (mp_view z) (\<lambda>x.
     lift_res (mpfmt_check_finite x))"


section \<open>Operators\<close>

text \<open>The comparisons; \<open>None\<close> is any other operator.\<close>

definition mp_cmp_op :: "string \<Rightarrow> a68_mp \<Rightarrow> a68_mp \<Rightarrow> nat \<Rightarrow> bool option res" where
  "mp_cmp_op op x y digs =
     (if op = ''='' then bindE (mp_eq x y digs) (\<lambda>b. Inr (Some b))
      else if op = ''/='' then bindE (mp_ne x y digs) (\<lambda>b. Inr (Some b))
      else if op = ''<'' then bindE (mp_lt x y digs) (\<lambda>b. Inr (Some b))
      else if op = ''<='' then bindE (mp_le x y digs) (\<lambda>b. Inr (Some b))
      else if op = ''>'' then bindE (mp_gt x y digs) (\<lambda>b. Inr (Some b))
      else if op = ''>='' then bindE (mp_ge x y digs) (\<lambda>b. Inr (Some b))
      else Inr None)"

definition mp_dyop :: "'a math_ops_scheme \<Rightarrow> string \<Rightarrow> int \<Rightarrow> a68_mp \<Rightarrow> a68_mp \<Rightarrow> nat \<Rightarrow> a68_mp mpm" where
  "mp_dyop f op n x y digs =
     (if op = ''+'' then lfM (mp_add x x y digs)
      else if op = ''-'' then lfM (mp_sub x x y digs)
      else if op = ''*'' then lfM (bindE (mp_mul x x y digs) (\<lambda>x.
        if mp_is_finite x then Inr x else die2 (real_mode n) ''value is not finite''))
      else if op = ''/'' then lfM (bindE (mp_div x x y digs) (\<lambda>x.
        if mp_is_nan x then die2 (real_mode n) ''value is not a number'' else Inr x))
      else if op = ''**'' then mp_pow f x x y digs
      else lfM (die2 ''internal:'' op))"

definition mp_dyadic :: "'a math_ops_scheme \<Rightarrow> nat \<Rightarrow> string \<Rightarrow> int \<Rightarrow> a68_val \<Rightarrow> a68_val \<Rightarrow> a68_val lrt" where
  "mp_dyadic f ll op longness xv yv =
     (let digs = mp_digits_of ll longness in
     bndL (liftS (mp_view yv)) (\<lambda>y.
     bndL (liftS (mp_view xv)) (\<lambda>x.
     bndL (liftR (mp_cmp_op op x y digs)) (\<lambda>c.
     if c \<noteq> None then okL (VBool (the c))
     else (bndL (liftS (fresh_copy xv digs)) (\<lambda>(r, x).
     bndL (liftM (mp_dyop f op longness x y digs)) (\<lambda>x.
     liftS (mp_commit r x))))))))"


definition sgn_word :: "int \<Rightarrow> 64 word" where
  "sgn_word d = (if d > 0 then 1 else if d < 0 then - 1 else 0)"

text \<open>SHORTEN of a LONG LONG number.\<close>

definition shorten_to_long :: "a68_mp \<Rightarrow> nat \<Rightarrow> a68_val rt" where
  "shorten_to_long x digs =
     bnd (fresh_nil MP_LONG_DIGITS) (\<lambda>(r, z).
     bnd (lift_res (mp_shorten z MP_LONG_DIGITS x digs)) (\<lambda>z.
     mp_commit r z))"

definition mp_monadic :: "'a dbl_ops_scheme \<Rightarrow> nat \<Rightarrow> string \<Rightarrow> int \<Rightarrow> a68_val \<Rightarrow> a68_val rt" where
  "mp_monadic f ll op longness xv =
     (let digs = mp_digits_of ll longness in
     if op = ''+'' then (
         bnd (mp_view xv) (\<lambda>x.
         ret (xv)))
     else if op = ''SIGN'' then (
         bnd (mp_view xv) (\<lambda>x.
         ret (VInt (sgn_word (mp_dig x 1)))))
     else if op = ''SHORTEN'' then (
         if longness \<le> 1 then (
             bnd (mp_to_real f ll xv longness) (\<lambda>d.
             ret (VReal d)))
         else (
             bnd (mp_view xv) (\<lambda>x.
             shorten_to_long x digs)))
     else (
         bnd (fresh_copy xv digs) (\<lambda>(r, x).
         if op = ''-'' then (
             bnd (lift_res (mp_minus x)) (\<lambda>x.
             mp_commit r x))
         else if op = ''ABS'' then (
             bnd (lift_res (mp_abs x)) (\<lambda>x.
             mp_commit r x))
         else if op = ''ENTIER'' then (
             bnd (lift_res (mp_entier x x digs)) (\<lambda>x.
             bnd (mp_sync r x) (\<lambda>d.
             long_int_of x)))
         else if op = ''ROUND'' then (
             bnd (lift_res (mp_round x x digs)) (\<lambda>x.
             bnd (mp_sync r x) (\<lambda>d.
             long_int_of x)))
         else (
             lift_res (die2 ''internal: monadic operator'' op)))))"


text \<open>The arithmetic of LONG COMPLEX numbers; the result is the pair that replaces the first operand.\<close>

definition compl_dyop :: "string \<Rightarrow> int \<Rightarrow> mp_pair \<Rightarrow> mp_pair \<Rightarrow> nat \<Rightarrow> mp_pair res" where
  "compl_dyop op n a b digs =
     (if op = ''+'' then (
         bindE (mp_add (snd a) (snd a) (snd b) digs) (\<lambda>ai.
         bindE (mp_add (fst a) (fst a) (fst b) digs) (\<lambda>ar.
         Inr ((ar, ai)))))
     else if op = ''-'' \<or> op = ''='' \<or> op = ''/='' then (
         bindE (mp_sub (snd a) (snd a) (snd b) digs) (\<lambda>ai.
         bindE (mp_sub (fst a) (fst a) (fst b) digs) (\<lambda>ar.
         Inr ((ar, ai)))))
     else if op = ''*'' then (
         mp_cmul (fst a) (snd a) (fst b) (snd b) digs)
     else if op = ''/'' then (
         bindE (mp_cdiv (fst a) (snd a) (fst b) (snd b) digs) (\<lambda>(ar, ai).
         if mp_is_nan ar \<or> mp_is_nan ai then die2 (compl_mode n) ''value is not finite''
         else (Inr ((ar, ai)))))
     else (
         die2 ''internal: LONG COMPL operator'' op))"


text \<open>A new pair of values with the numbers of the views.\<close>

definition commit_pair :: "a68_val \<Rightarrow> a68_val \<Rightarrow> mp_pair \<Rightarrow> a68_val rt" where
  "commit_pair rr ri p =
     bnd (mp_commit rr (fst p)) (\<lambda>rr.
     bnd (mp_commit ri (snd p)) (\<lambda>ri.
     compl_of rr ri))"

definition mp_compl_dyadic :: "nat \<Rightarrow> string \<Rightarrow> int \<Rightarrow> a68_val \<Rightarrow> a68_val \<Rightarrow> a68_val rt" where
  "mp_compl_dyadic ll op longness av bv =
     (let digs = mp_digits_of ll longness in
     bnd (compl_parts av) (\<lambda>(arv, aiv).
     bnd (compl_parts bv) (\<lambda>(brv, biv).
     bnd (mp_view brv) (\<lambda>br.
     bnd (mp_view biv) (\<lambda>bi.
     bnd (fresh_copy arv digs) (\<lambda>(rr, ar).
     bnd (fresh_copy aiv digs) (\<lambda>(ri, ai).
     bnd (lift_res (compl_dyop op longness (ar, ai) (br, bi) digs)) (\<lambda>p.
     if op = ''='' \<or> op = ''/='' then (
         bnd (mp_sync rr (fst p)) (\<lambda>d.
         bnd (mp_sync ri (snd p)) (\<lambda>d.
         (let same = (mp_dig (fst p) 1 = 0 \<and> mp_dig (snd p) 1 = 0) in
         ret (VBool (if op = ''='' then same else \<not>  same))))))
     else (
         commit_pair rr ri p)))))))))"

definition mp_compl_pow :: "nat \<Rightarrow> int \<Rightarrow> a68_val \<Rightarrow> int \<Rightarrow> a68_val rt" where
  "mp_compl_pow ll longness av j =
     (let digs = mp_digits_of ll longness in
     bnd (compl_parts av) (\<lambda>(arv, aiv).
     bnd (fresh_nil digs) (\<lambda>(rr, re).
     bnd (fresh_nil digs) (\<lambda>(ri, im).
     bnd (mp_view arv) (\<lambda>x.
     bnd (lift_res (mp_move re x digs)) (\<lambda>re.
     bnd (mp_view aiv) (\<lambda>x.
     bnd (lift_res (mp_move im x digs)) (\<lambda>im.
     bnd (lift_res (mp_cpow_int re im j digs)) (\<lambda>p.
     if j < 0 \<and> (mp_is_nan (fst p) \<or> mp_is_nan (snd p)) then lift_res (die2 (compl_mode longness) ''value is not finite'')
     else (commit_pair rr ri p))))))))))"

definition mp_compl_monadic :: "'a math_ops_scheme \<Rightarrow> nat \<Rightarrow> string \<Rightarrow> int \<Rightarrow> a68_val \<Rightarrow> a68_val lrt" where
  "mp_compl_monadic f ll op longness v =
     (let digs = mp_digits_of ll longness in
     bndL (liftS (compl_parts v)) (\<lambda>(rev, imv).
     if op = ''+'' then okL (v)
     else (if op = ''RE'' then (
         bndL (liftS (fresh_copy rev 0)) (\<lambda>(r, re).
         okL (r)))
     else if op = ''IM'' then (
         bndL (liftS (fresh_copy imv 0)) (\<lambda>(r, im).
         okL (r)))
     else if op = ''-'' \<or> op = ''CONJ'' then (
         bndL (liftS (fresh_copy rev 0)) (\<lambda>(rr, re).
         bndL (liftS (fresh_copy imv 0)) (\<lambda>(ri, im).
         liftS (commit_pair rr ri (if op = ''-'' then mp_negate1 re else re, mp_negate1 im)))))
     else if op = ''ABS'' \<or> op = ''ARG'' then (
         bndL (liftS (fresh_nil digs)) (\<lambda>(r, t).
         bndL (liftS (mp_view rev)) (\<lambda>re.
         bndL (liftS (mp_view imv)) (\<lambda>im.
         bndL (liftM ((if op = ''ABS'' then upM (mp_hypot f t re im digs) else mp_atan2 f t re im digs))) (\<lambda>t.
         liftS (mp_commit r t))))))
     else if op = ''SHORTEN'' then (
         if longness \<le> 1 then (
             bndL (liftS (mp_to_real f ll rev longness)) (\<lambda>a.
             bndL (liftS (mp_to_real f ll imv longness)) (\<lambda>b.
             liftS (mk_compl a b))))
         else (
             bndL (liftS (fresh_nil MP_LONG_DIGITS)) (\<lambda>(rr, re).
             bndL (liftS (fresh_nil MP_LONG_DIGITS)) (\<lambda>(ri, im).
             bndL (liftS (mp_view rev)) (\<lambda>x.
             bndL (liftR (mp_shorten re MP_LONG_DIGITS x digs)) (\<lambda>re.
             bndL (liftS (mp_view imv)) (\<lambda>x.
             bndL (liftR (mp_shorten im MP_LONG_DIGITS x digs)) (\<lambda>im.
             liftS (commit_pair rr ri (re, im))))))))))
     else (
         liftR (die2 ''internal: monadic operator'' op)))))"


section \<open>Functions and constants\<close>

definition split_long :: "string \<Rightarrow> (int \<times> string) option" where
  "split_long name = (if take 8 name = ''longlong'' then Some (2, drop 8 name)
     else if take 4 name = ''long'' then Some (1, drop 4 name) else None)"

definition math_fn_of :: "'a math_ops_scheme \<Rightarrow> string \<Rightarrow> mp_fn option" where
  "math_fn_of f base = map_of [
     (''sqrt'', \<lambda>z x n. upM (mp_sqrt f z x n)), (''curt'', \<lambda>z x n. upM (mp_curt f z x n)),
     (''cbrt'', \<lambda>z x n. upM (mp_curt f z x n)), (''exp'', \<lambda>z x n. upM (mp_exp f z x n)), (''ln'', mp_ln f),
     (''log'', mp_log f), (''sinh'', \<lambda>z x n. upM (mp_sinh f z x n)), (''cosh'', \<lambda>z x n. upM (mp_cosh f z x n)),
     (''tanh'', \<lambda>z x n. upM (mp_tanh f z x n)),
     (''arcsinh'', mp_asinh f), (''arccosh'', mp_acosh f), (''arctanh'', mp_atanh f),
     (''sin'', mp_sin f), (''cos'', mp_cos f), (''tan'', mp_tan f), (''cot'', mp_cot f),
     (''arcsin'', mp_asin f), (''arccos'', mp_acos f), (''arctan'', mp_atan f),
     (''csc'', mp_csc f), (''sec'', mp_sec f), (''arccsc'', mp_arccsc f), (''arcsec'', mp_arcsec f), (''arccot'', mp_arccot f),
     (''sindg'', mp_sindg f), (''cosdg'', mp_cosdg f), (''tandg'', mp_tandg f), (''cotdg'', mp_cotdg f),
     (''cscdg'', mp_cscdg f), (''secdg'', mp_secdg f), (''arcsindg'', mp_arcsindg f), (''arccosdg'', mp_arccosdg f),
     (''arctandg'', mp_arctandg f), (''arccotdg'', mp_arccotdg f), (''arccscdg'', mp_arccscdg f),
     (''arcsecdg'', mp_arcsecdg f), (''cas'', mp_cas f)] base"

text \<open>\<open>None\<close>: the name is not one of a LONG function.\<close>

definition mp_math_fn :: "'a math_ops_scheme \<Rightarrow> nat \<Rightarrow> string \<Rightarrow> a68_val \<Rightarrow> a68_val option lrt" where
  "mp_math_fn f ll name xv = (case split_long name of None \<Rightarrow> okL None | Some (n, base) \<Rightarrow>
     (case math_fn_of f base of None \<Rightarrow> okL None | Some g \<Rightarrow>
       (let digs = mp_digits_of ll n in
        bndL (liftS (fresh_copy xv digs)) (\<lambda>(r, x). bndL (liftM (g x x digs)) (\<lambda>x.
        if mp_is_nan x then liftR (die2 (real_mode n) ''value is not a number'')
        else if \<not> mp_is_finite x then liftR (die2 (real_mode n) ''value is not finite'')
        else bndL (liftS (mp_commit r x)) (\<lambda>r. okL (Some r)))))))"

definition compl_fn_of :: "'a math_ops_scheme \<Rightarrow> string \<Rightarrow> mp_cfn option" where
  "compl_fn_of f base = map_of [
     (''sqrt'', \<lambda>r i n. upM (mp_csqrt f r i n)), (''exp'', mp_cexp f), (''ln'', mp_cln f), (''sin'', mp_csin f), (''cos'', mp_ccos f),
     (''tan'', mp_ctan f), (''arcsin'', mp_casin f), (''arccos'', mp_cacos f), (''arctan'', mp_catan f),
     (''sinh'', mp_csinh f), (''cosh'', mp_ccosh f), (''tanh'', mp_ctanh f), (''arcsinh'', mp_casinh f),
     (''arccosh'', mp_cacosh f), (''arctanh'', mp_catanh f), (''atanh'', mp_catanh f)] base"

definition mp_compl_fn :: "'a math_ops_scheme \<Rightarrow> nat \<Rightarrow> string \<Rightarrow> a68_val \<Rightarrow> a68_val option lrt" where
  "mp_compl_fn f ll name xv = (case split_long name of None \<Rightarrow> okL None | Some (n, base) \<Rightarrow>
     if take 7 base \<noteq> ''complex'' then okL None
     else (case compl_fn_of f (drop 7 base) of None \<Rightarrow> okL None | Some g \<Rightarrow>
       (let digs = mp_digits_of ll n in
        bndL (liftS (compl_parts xv)) (\<lambda>(rev, imv).
        bndL (liftS (fresh_copy rev digs)) (\<lambda>(rr, re). bndL (liftS (fresh_copy imv digs)) (\<lambda>(ri, im).
        bndL (liftM (g re im digs)) (\<lambda>p.
        if \<not> mp_is_finite (fst p) \<or> \<not> mp_is_finite (snd p) then liftR (die2 ''math error in'' (compl_mode n))
        else bndL (liftS (commit_pair rr ri p)) (\<lambda>r. okL (Some r)))))))))"

text \<open>The number of a LONG constant, from a fresh number \<open>z\<close>; \<open>None\<close> for another name.\<close>

definition const_mp :: "'a math_ops_scheme \<Rightarrow> string \<Rightarrow> nat \<Rightarrow> a68_mp \<Rightarrow> a68_mp mpm option" where
  "const_mp f base digs z =
     (if base = ''pi'' then Some (mp_pi f z MP_PI digs)
      else if base = ''maxreal'' then Some (okM ((put_digits z digs (\<lambda>k. MP_R - 1))\<lparr>mp_ex := MP_MAX_EXPO - 1\<rparr>))
      else if base = ''minreal'' then Some (okM ((on_first (\<lambda>_. 1) z)\<lparr>mp_ex := - MP_MAX_EXPO\<rparr>))
      else if base = ''smallreal'' then Some (okM ((on_first (\<lambda>_. 1) z)\<lparr>mp_ex := 1 - int digs\<rparr>))
      else if base \<in> {''infinity'', ''inf'', ''plusinfinity'', ''plusinf''} then Some (okM (mp_set_pinf z))
      else if base \<in> {''minusinfinity'', ''minusinf''} then Some (okM (mp_set_minf z))
      else if base = ''nan'' then Some (okM (mp_set_nan z))
      else None)"

definition mp_const :: "'a math_ops_scheme \<Rightarrow> nat \<Rightarrow> string \<Rightarrow> a68_val option lrt" where
  "mp_const f ll name = (case split_long name of None \<Rightarrow> okL None | Some (n, base) \<Rightarrow>
     (let digs = mp_digits_of ll n in
      (case const_mp f base digs (mp_nil digs) of None \<Rightarrow> okL None | Some _ \<Rightarrow>
        bndL (liftS (fresh_nil digs)) (\<lambda>(r, z).
        (case const_mp f base digs z of None \<Rightarrow> okL None | Some m \<Rightarrow>
          bndL (liftM m) (\<lambda>z. bndL (liftS (mp_commit r z)) (\<lambda>r. okL (Some r))))))))"

definition mp_arctan2 :: "'a math_ops_scheme \<Rightarrow> nat \<Rightarrow> string \<Rightarrow> a68_val \<Rightarrow> a68_val \<Rightarrow> a68_val lrt" where
  "mp_arctan2 f ll name av bv = (case split_long name of None \<Rightarrow> dieL ''internal: arctan2'' | Some (n, base) \<Rightarrow>
     (let digs = mp_digits_of ll n in
      bndL (liftS (mp_view bv)) (\<lambda>y. bndL (liftS (fresh_copy av digs)) (\<lambda>(r, x).
      bndL (liftM (mp_atan2 f x y x digs)) (\<lambda>x.
      bndL (if base = ''arctan2dg'' \<and> \<not> mp_is_nan x
            then bndL (liftM (mp_pi f (mp_nil digs) MP_180_OVER_PI digs)) (\<lambda>g. liftR (mp_mul x x g digs))
            else okL x) (\<lambda>x.
      if mp_is_nan x then liftR (die2 (real_mode n) ''invalid argument'') else liftS (mp_commit r x)))))))"

definition mp_long_random :: "'a fmt_ops_scheme \<Rightarrow> nat \<Rightarrow> u64 \<Rightarrow> int \<Rightarrow> a68_val rt" where
  "mp_long_random f ll r longness = mp_of_real f ll r longness"

section \<open>Widening\<close>

definition widen_int :: "'a fmt_ops_scheme \<Rightarrow> nat \<Rightarrow> a68_val \<Rightarrow> int \<Rightarrow> a68_val rt" where
  "widen_int f ll v dst =
     bnd (int_text v) (\<lambda>s.
     if dst \<le> 0 then (
         ret (VReal (f_strtod f s)))
     else (
         bnd (lift_res (mp_of_text ll s dst)) (\<lambda>x.
         mp_leaf x)))"

definition widen_mp :: "nat \<Rightarrow> a68_val \<Rightarrow> int \<Rightarrow> int \<Rightarrow> a68_val rt" where
  "widen_mp ll v src dst =
     (if src = 1 \<and> dst \<ge> 2 then (
         bnd (mp_view v) (\<lambda>x.
         bnd (fresh_nil ll) (\<lambda>(r, z).
         bnd (lift_res (mp_move z x MP_LONG_DIGITS)) (\<lambda>z.
         mp_commit r z))))
     else (
         ret (v)))"


text \<open>The parts of a complex number are widened by the same function; a part that is complex again would recurse.\<close>

fun mp_widen_n :: "nat \<Rightarrow> 'a fmt_ops_scheme \<Rightarrow> nat \<Rightarrow> a68_val \<Rightarrow> int \<Rightarrow> int \<Rightarrow> a68_val rt" where
  "mp_widen_n 0 f ll v src dst = stop (Fatal ''stack overflow'')"
| "mp_widen_n (Suc k) f ll v src dst = (case v of
     VInt _ \<Rightarrow> widen_int f ll v dst
   | VBigint _ \<Rightarrow> widen_int f ll v dst
   | VReal r \<Rightarrow> if src \<le> 0 \<and> dst \<ge> 1 then mp_of_real f ll r dst else ret v
   | VMp _ \<Rightarrow> widen_mp ll v src dst
   | VStruct _ \<Rightarrow> bnd (compl_parts v) (\<lambda>(re, im).
       if tag_of re = 2 \<or> tag_of re = 16
       then bnd (mp_widen_n k f ll re src dst) (\<lambda>re. bnd (mp_widen_n k f ll im src dst) (\<lambda>im. compl_of re im))
       else ret v)
   | VUndef \<Rightarrow> die ''attempt to use an uninitialised value''
   | _ \<Rightarrow> ret v)"

definition mp_widen :: "'a fmt_ops_scheme \<Rightarrow> nat \<Rightarrow> a68_val \<Rightarrow> int \<Rightarrow> int \<Rightarrow> a68_val rt" where
  "mp_widen f ll v src dst = bnd (get depth_limit) (\<lambda>k. mp_widen_n k f ll v src dst)"

end
