(* ===== verification/Ops.thy ===== *)
theory Ops
  imports MpRt
begin

text \<open>
  \<open>csrc/ops.c\<close>, the parts of the general operator path: integers of any length, bits of any width, complex
  numbers (with the three functions of \<open>os.c\<close> they call), rows and comparison. The entry points are in \<open>OpsEntry\<close>.

  \<open>longness\<close> counts the LONGs of a mode. An \<open>int64_t\<close> that overflows by a negation stops with \<open>UB\<close>. The
  complex functions of \<open>os.c\<close> use the operations of \<open>double\<close> as they are written; a compiler may fuse them.
\<close>

section \<open>Error messages\<close>

definition simple_name :: "a68_tables \<Rightarrow> a68_mkind \<Rightarrow> int \<Rightarrow> string res" where
  "simple_name t k n = (case mode_simple k n t of (m, t') \<Rightarrow> mode_string t' m)"

definition die_m :: "a68_tables \<Rightarrow> string \<Rightarrow> a68_mkind \<Rightarrow> int \<Rightarrow> string \<Rightarrow> 'a res" where
  "die_m t pre k n post = bindE (simple_name t k n) (\<lambda>s. Inl (Die (pre @ s @ post)))"

definition die_m2 :: "a68_tables \<Rightarrow> string \<Rightarrow> string \<Rightarrow> nat \<Rightarrow> nat \<Rightarrow> 'a res" where
  "die_m2 t pre op m1 m2 = bindE (mode_string t m1) (\<lambda>s1. bindE (mode_string t m2) (\<lambda>s2.
     Inl (Die (pre @ op @ '' on '' @ s1 @ '' and '' @ s2))))"

text \<open>A message made in a buffer of \<open>n\<close> bytes.\<close>

definition die_buf :: "nat \<Rightarrow> string \<Rightarrow> 'a res" where
  "die_buf n msg = Inl (Die (take (n - 1) msg))"

definition rm :: "a68_tables \<Rightarrow> nat \<Rightarrow> a68_mode res" where
  "rm t m = bindE (mode_resolve t m) (\<lambda>i. Inr (mode_at t i))"

definition mode_is_string :: "a68_tables \<Rightarrow> nat \<Rightarrow> bool" where
  "mode_is_string t m \<longleftrightarrow> m_k (mode_at t m) = M_ROW \<and> m_dims (mode_at t m) = 1 \<and> m_k (mode_at t (m_sub (mode_at t m))) = M_CHAR"

definition string_mode :: "a68_tables \<Rightarrow> nat \<Rightarrow> bool res" where
  "string_mode t m = bindE (mode_resolve t m) (\<lambda>i. Inr (mode_is_string t i))"

section \<open>Integers of any length\<close>

text \<open>\<open>%llu\<close> of a BITS value is \<open>nat_dec\<close>.\<close>

definition big_of :: "a68_val \<Rightarrow> a68_big rt" where
  "big_of v = (case v of
     VInt i \<Rightarrow> ret (big_from_i64 i)
   | VBigint l \<Rightarrow> bnd (leaf_bytes l) (\<lambda>ds. ret (big_from_dec (chars_of_bytes ds)))
   | VBigbits l \<Rightarrow> bnd (leaf_bytes l) (\<lambda>ds. ret (big_from_dec (chars_of_bytes ds)))
   | VBits b \<Rightarrow> ret (big_from_dec (nat_dec (unat b)))
   | VUndef \<Rightarrow> die ''attempt to use an uninitialised INT value''
   | _ \<Rightarrow> die ''internal: INT expected'')"

definition val_of_big :: "a68_big \<Rightarrow> a68_val rt" where
  "val_of_big b = (if big_fits_i64 b then ret (VInt (big_to_i64 b))
     else bnd (text_leaf (big_to_dec b)) (\<lambda>l. ret (VBigint l)))"

definition max_int_of :: "nat \<Rightarrow> int \<Rightarrow> a68_big" where
  "max_int_of ll longness = (if longness \<le> 0 then big_from_i64 (word_of_int A68_MAXINT)
     else big_sub (big_pow10 (if longness = 1 then 49 else int ll * 7)) (big_from_i64 1))"

definition over_limit :: "nat \<Rightarrow> a68_big \<Rightarrow> int \<Rightarrow> bool" where
  "over_limit ll r longness \<longleftrightarrow> big_cmp (big_abs r) (max_int_of ll longness) > 0"

definition ops_int_range :: "a68_tables \<Rightarrow> nat \<Rightarrow> int \<Rightarrow> int \<Rightarrow> int res" where
  "ops_int_range t ll r longness = (if longness \<le> 0 then int_range r
     else if over_limit ll (big_from_i64 (word_of_int r)) longness
     then die_m t [] M_INT longness '' value overflow, result too large'' else Inr r)"

text \<open>The negation of an \<open>int64_t\<close>; C leaves that of the least one undefined.\<close>

definition neg_i64 :: "int \<Rightarrow> int res" where
  "neg_i64 x = (if x = - (2 ^ 63) then Inl UB else Inr (- x))"

definition expect_int :: "a68_val \<Rightarrow> int rt" where
  "expect_int v = bnd (as_int v) (\<lambda>i. ret (sint i))"

text \<open>The outcome of a LONG INT operator: a number, a truth value, or an error.\<close>

definition rem_nonneg :: "a68_big \<Rightarrow> a68_big \<Rightarrow> a68_big res" where
  "rem_nonneg x y = (let ay = big_abs y in case big_divmod x ay of
     None \<Rightarrow> Inl UB
   | Some (q, rmd) \<Rightarrow> Inr (if big_sign rmd < 0 then big_add rmd ay else rmd))"

definition long_int_num :: "a68_tables \<Rightarrow> nat \<Rightarrow> string \<Rightarrow> int \<Rightarrow> a68_big \<Rightarrow> a68_big \<Rightarrow> a68_big res" where
  "long_int_num t ll op n x y =
     (if op = ''%'' then (if big_is_zero y then die_m t [] M_INT n '' division by zero''
        else case big_divmod x y of None \<Rightarrow> Inl UB | Some (q, rmd) \<Rightarrow> Inr q)
      else if op = ''%*'' then (if big_is_zero y then die_m t [] M_INT n '' value is not a number'' else rem_nonneg x y)
      else (let r = (if op = ''+'' then big_add x y else if op = ''-'' then big_sub x y else big_mul x y)
        in if over_limit ll r n then die_m t [] M_INT n '' value out of bounds'' else Inr r))"

definition long_int_dyadic :: "a68_tables \<Rightarrow> nat \<Rightarrow> string \<Rightarrow> int \<Rightarrow> a68_val \<Rightarrow> a68_val \<Rightarrow> a68_val rt" where
  "long_int_dyadic t ll op n a b =
     bnd (big_of a) (\<lambda>x.
     bnd (big_of b) (\<lambda>y.
     if op \<in> {''+'', ''-'', ''*'', ''%'', ''%*''} then (
         bnd (lift_res (long_int_num t ll op n x y)) (\<lambda>r.
         val_of_big r))
     else if is_cmp op then (
         ret (VBool (cmp_op op (big_cmp x y))))
     else (
         lift_res (bindE (simple_name t M_INT n) (\<lambda>ms. die_buf 128 (''internal: '' @ ms @ '' operator '' @ op))))))"


fun long_pow_loop :: "a68_tables \<Rightarrow> int \<Rightarrow> a68_big \<Rightarrow> a68_big \<Rightarrow> nat \<Rightarrow> a68_big \<Rightarrow> a68_big res" where
  "long_pow_loop t n lm ax 0 r = Inr r"
| "long_pow_loop t n lm ax (Suc k) r = (let r' = big_mul r ax in
     if big_cmp r' lm > 0 then die_m t [] M_INT n '' value out of bounds''
     else if big_cmp ax (big_from_i64 1) \<le> 0 then Inr r'
     else long_pow_loop t n lm ax k r')"

definition long_int_pow :: "a68_tables \<Rightarrow> nat \<Rightarrow> int \<Rightarrow> a68_val \<Rightarrow> int \<Rightarrow> a68_val rt" where
  "long_int_pow t ll n a k =
     bnd (big_of a) (\<lambda>x.
     if k < 0 then (
         if big_cmp x (big_from_i64 1) = 0 then ret (VInt 1)
         else (if big_cmp x (big_from_i64 (- 1)) = 0 then ret (VInt (if even k then 1 else - 1))
         else (lift_res (die_m t [] M_INT n '' value out of bounds''))))
     else (
         bnd (lift_res (long_pow_loop t n (max_int_of ll n) (big_abs x) (nat k) (big_from_i64 1))) (\<lambda>r.
         val_of_big (if big_sign x < 0 \<and> odd k then big_neg r else r))))"


section \<open>Bits of any width\<close>

definition WB :: nat where "WB = 12"

type_synonym wbits = "u32 list"

definition wb_zero :: wbits where "wb_zero = replicate WB 0"

definition bits_width_of :: "'a fmt_ops_scheme \<Rightarrow> nat \<Rightarrow> int \<Rightarrow> int" where
  "bits_width_of f ll longness = a68_fmt_bits_width f longness (int ll)"

fun wb_limbs :: "nat \<Rightarrow> a68_big \<Rightarrow> u32 list" where
  "wb_limbs 0 z = []"
| "wb_limbs (Suc n) z = (if big_is_zero z then replicate (Suc n) 0
     else case the (big_divmod z (big_from_i64 4294967296)) of (q, rmd) \<Rightarrow> ucast (big_to_i64 rmd) # wb_limbs n q)"

definition wb_of_big :: "a68_big \<Rightarrow> wbits" where
  "wb_of_big b = wb_limbs WB (big_abs b)"

definition wb_of_val :: "a68_val \<Rightarrow> wbits rt" where
  "wb_of_val v = (case v of
     VBits b \<Rightarrow> ret (wb_zero[0 := ucast b, 1 := ucast (drop_bit 32 b)])
   | VUndef \<Rightarrow> die ''attempt to use an uninitialised BITS value''
   | VBigbits _ \<Rightarrow> bnd (big_of v) (\<lambda>b. ret (wb_of_big b))
   | _ \<Rightarrow> die ''internal: BITS expected'')"

definition big_of_wb :: "wbits \<Rightarrow> a68_big" where
  "big_of_wb w = foldr (\<lambda>l r. big_add (big_mul r (big_from_i64 4294967296)) (big_from_i64 (ucast l))) w (big_from_i64 0)"

definition val_of_wb :: "wbits \<Rightarrow> a68_val rt" where
  "val_of_wb w = (if list_all (\<lambda>l. l = 0) (drop 2 w)
     then ret (VBits (or (ucast (w ! 0)) (push_bit 32 (ucast (w ! 1)))))
     else bnd (text_leaf (big_to_dec (big_of_wb w))) (\<lambda>l. ret (VBigbits l)))"

definition wb_set_bit :: "nat \<Rightarrow> wbits \<Rightarrow> wbits" where
  "wb_set_bit i w = w[i div 32 := or (w ! (i div 32)) (push_bit (i mod 32) 1)]"

definition wb_mask :: "int \<Rightarrow> wbits" where
  "wb_mask width = fold wb_set_bit [0..<min (nat width) (WB * 32)] wb_zero"

definition wb_bit :: "wbits \<Rightarrow> nat \<Rightarrow> bool" where
  "wb_bit w i \<longleftrightarrow> i div 32 < WB \<and> and (drop_bit (i mod 32) (w ! (i div 32))) 1 \<noteq> 0"

definition wb_and :: "wbits \<Rightarrow> wbits \<Rightarrow> wbits" where "wb_and a b = map2 and a b"
definition wb_or :: "wbits \<Rightarrow> wbits \<Rightarrow> wbits" where "wb_or a b = map2 or a b"
definition wb_xor :: "wbits \<Rightarrow> wbits \<Rightarrow> wbits" where "wb_xor a b = map2 xor a b"
definition wb_eq :: "wbits \<Rightarrow> wbits \<Rightarrow> bool" where "wb_eq a b \<longleftrightarrow> a = b"

definition wb_shl :: "wbits \<Rightarrow> int \<Rightarrow> wbits" where
  "wb_shl a s = fold (\<lambda>i r. if wb_bit a i \<and> int i + s < int (WB * 32) \<and> int i + s \<ge> 0
     then wb_set_bit (nat (int i + s)) r else r) [0..<WB * 32] wb_zero"

definition wb_exceeds :: "wbits \<Rightarrow> int \<Rightarrow> bool" where
  "wb_exceeds v width \<longleftrightarrow> list_ex (wb_bit v) [nat width..<WB * 32]"

section \<open>Complex numbers\<close>

record ops_fns = math_ops +
  f_atan2 :: "u64 \<Rightarrow> u64 \<Rightarrow> u64"

definition check_compl :: "u64 \<Rightarrow> u64 \<Rightarrow> a68_val rt" where
  "check_compl re im = (if dbl_isnan re then die ''COMPL value is not a number''
     else if dbl_isinf re then die ''infinite COMPL value''
     else if dbl_isnan im then die ''COMPL value is not a number''
     else if dbl_isinf im then die ''infinite COMPL value''
     else mk_compl re im)"

text \<open>\<open>os.c\<close>.\<close>

definition os_abs :: "'a dbl_ops_scheme \<Rightarrow> u64 \<Rightarrow> u64" where
  "os_abs f x = (if dbl_le f dbl_zero x then x else dbl_neg x)"

definition a68_compl_op :: "'a dbl_ops_scheme \<Rightarrow> nat \<Rightarrow> u64 \<Rightarrow> u64 \<Rightarrow> u64 \<Rightarrow> u64 \<Rightarrow> u64 \<times> u64" where
  "a68_compl_op f which rx ix ry iy =
     (if which = 0 then (f_sub f (f_mul f rx ry) (f_mul f ix iy), f_add f (f_mul f ix ry) (f_mul f rx iy))
      else if dbl_le f (os_abs f iy) (os_abs f ry) then
        (let r = f_div f iy ry; den = f_add f ry (f_mul f r iy)
         in (f_div f (f_add f rx (f_mul f r ix)) den, f_div f (f_sub f ix (f_mul f r rx)) den))
      else
        (let r = f_div f ry iy; den = f_add f iy (f_mul f r ry)
         in (f_div f (f_add f (f_mul f rx r) ix) den, f_div f (f_sub f (f_mul f ix r) rx) den)))"

function compl_pow_loop :: "'a dbl_ops_scheme \<Rightarrow> nat \<Rightarrow> nat \<Rightarrow> u64 \<Rightarrow> u64 \<Rightarrow> u64 \<Rightarrow> u64 \<Rightarrow> u64 \<times> u64" where
  "compl_pow_loop f j expo zr zi ry iy = (if expo = 0 \<or> j < expo then (zr, zi)
     else (let (zr2, zi2) = (if and expo j \<noteq> 0
             then (f_sub f (f_mul f zr ry) (f_mul f zi iy), f_add f (f_mul f zr iy) (f_mul f zi ry))
             else (zr, zi))
       in compl_pow_loop f j (2 * expo) zr2 zi2 (f_sub f (f_mul f ry ry) (f_mul f iy iy))
            (f_add f (f_mul f iy ry) (f_mul f ry iy))))"
  by pat_completeness auto
termination by (relation "measure (\<lambda>(f, j, expo, _). Suc j - expo)") auto

declare compl_pow_loop.simps [simp del]

definition a68_compl_pow :: "'a dbl_ops_scheme \<Rightarrow> u64 \<Rightarrow> u64 \<Rightarrow> nat \<Rightarrow> u64 \<times> u64" where
  "a68_compl_pow f rx ix j = compl_pow_loop f j 1 dbl_one dbl_zero rx ix"

definition a68_compl_abs :: "'a math_ops_scheme \<Rightarrow> u64 \<Rightarrow> u64 \<Rightarrow> u64" where
  "a68_compl_abs f x y = (let xa = os_abs f x; ya = os_abs f y;
       mn = (if f_less f xa ya then xa else ya); mx = (if f_less f xa ya then ya else xa)
     in if f_eq f mn dbl_zero then mx
        else (let u = f_div f mn mx in f_mul f mx (f_sqrt f (f_add f dbl_one (f_mul f u u)))))"

definition compl_bin :: "'a dbl_ops_scheme \<Rightarrow> nat \<Rightarrow> u64 \<Rightarrow> u64 \<Rightarrow> u64 \<Rightarrow> u64 \<Rightarrow> a68_val rt" where
  "compl_bin f which ar ai br bi = (case a68_compl_op f which ar ai br bi of (re, im) \<Rightarrow> check_compl re im)"

definition compl_reals :: "a68_val \<Rightarrow> (u64 \<times> u64) option rt" where
  "compl_reals v = (case v of
     VStruct p \<Rightarrow> bnd (get_slots p) (\<lambda>s. ret (case s of [VReal re, VReal im] \<Rightarrow> Some (re, im) | _ \<Rightarrow> None))
   | _ \<Rightarrow> ret None)"

definition compl_mps :: "a68_val \<Rightarrow> (a68_val \<times> a68_val) option rt" where
  "compl_mps v = (case v of
     VStruct p \<Rightarrow> bnd (get_slots p) (\<lambda>s. ret (case s of [VMp re, VMp im] \<Rightarrow> Some (VMp re, VMp im) | _ \<Rightarrow> None))
   | _ \<Rightarrow> ret None)"

definition struct2 :: "a68_val \<Rightarrow> a68_val \<Rightarrow> a68_val rt" where "struct2 a b = compl_of a b"

text \<open>The parts of a COMPL operand, or the error.\<close>

definition need_compl :: "string \<Rightarrow> a68_val \<Rightarrow> (u64 \<times> u64) rt" where
  "need_compl msg v = bnd (compl_reals v) (\<lambda>c. case c of Some p \<Rightarrow> ret p | None \<Rightarrow> die msg)"

section \<open>Powers of plain numbers\<close>

function ops_pow_loop :: "(int \<Rightarrow> int res) \<Rightarrow> nat \<Rightarrow> nat \<Rightarrow> int \<Rightarrow> int \<Rightarrow> int res" where
  "ops_pow_loop rng nn b mm p = (if b = 0 then Inl UB
     else bindE (if odd (nn div b) then rng (p * mm) else Inr p) (\<lambda>p'.
       if 2 * b \<le> nn then bindE (rng (mm * mm)) (\<lambda>mm'. ops_pow_loop rng nn (2 * b) mm' p') else Inr p'))"
  by pat_completeness auto
termination by (relation "measure (\<lambda>(rng, nn, b, mm, p). nn + 1 - b)") auto

declare ops_pow_loop.simps [simp del]

definition ops_pow_int :: "a68_tables \<Rightarrow> nat \<Rightarrow> int \<Rightarrow> int \<Rightarrow> int \<Rightarrow> int res" where
  "ops_pow_int t ll m n longness = (if n < 0 then Inl (Die ''invalid INT exponent'')
     else if m = 0 \<and> n = 0 then Inr 1
     else if m = 0 \<or> m = 1 then Inr m
     else if m = -1 then Inr (if even n then 1 else -1)
     else ops_pow_loop (\<lambda>r. ops_int_range t ll r longness) (nat n) 1 m 1)"

section \<open>Rows\<close>

definition row_of :: "a68_val \<Rightarrow> a68_rowd rt" where
  "row_of v = (case v of
     VRow p \<Rightarrow> get_rowd p
   | VUndef \<Rightarrow> die ''attempt to use an uninitialised row''
   | _ \<Rightarrow> die ''internal: row expected'')"

definition check_chars :: "a68_rowd \<Rightarrow> unit rt" where
  "check_chars d = each (upto_int (row_count d)) (\<lambda>i. bnd (rowd_get_flat d i) (\<lambda>e. case e of
     VUndef \<Rightarrow> die ''attempt to use an uninitialised CHAR value''
   | VChar c \<Rightarrow> ret ()
   | _ \<Rightarrow> die ''internal: [] CHAR expected''))"

definition char_bytes :: "a68_rowd \<Rightarrow> u8 list option rt" where
  "char_bytes d = bnd (get_body (r_base d)) (\<lambda>b. ret (string_fast d b))"

fun chars_loop :: "a68_rowd \<Rightarrow> a68_rowd \<Rightarrow> int list \<Rightarrow> int rt" where
  "chars_loop x y [] = ret 0"
| "chars_loop x y (i # is) = bnd (rowd_get_flat x i) (\<lambda>ex. bnd (rowd_get_flat y i) (\<lambda>ey.
     let cx = (ucast (val_bits ex) :: u32); cy = (ucast (val_bits ey) :: u32)
     in if cx < cy then ret (- 1) else if cx > cy then ret 1 else chars_loop x y is))"

definition compare_chars :: "a68_val \<Rightarrow> a68_val \<Rightarrow> int rt" where
  "compare_chars a b =
     bnd (row_of a) (\<lambda>x.
     bnd (row_of b) (\<lambda>y.
     bnd (char_bytes x) (\<lambda>px.
     bnd ((case px of None \<Rightarrow> ret None | Some p \<Rightarrow> char_bytes y)) (\<lambda>py.
     if px \<noteq> None \<and> py \<noteq> None then ret (cmp_bytes (the px) (the py))
     else (bnd (check_chars x) (\<lambda>d.
     bnd (check_chars y) (\<lambda>d.
     bnd (chars_loop x y (upto_int (min (row_count x) (row_count y)))) (\<lambda>c.
     ret (if c \<noteq> 0 then c else cmp_int (row_count x) (row_count y))))))))))"


definition cmp_result :: "string \<Rightarrow> int \<Rightarrow> string \<Rightarrow> bool res" where
  "cmp_result op c what = (if is_cmp op then Inr (cmp_op op c)
     else die_buf 96 (''internal: '' @ what @ '' operator '' @ op))"

definition row_elems :: "a68_rowd \<Rightarrow> a68_val list rt" where
  "row_elems d = collect_run (upto_int (row_count d)) (rowd_get_flat d)"

text \<open>\<open>io.c\<close>: a row from 1 of the values; the first one decides the kind of store.\<close>

definition row_of_values :: "a68_val list \<Rightarrow> a68_val rt" where
  "row_of_values vs =
     bnd (rowd_alloc 1) (\<lambda>d.
     bnd ((case vs of [] \<Rightarrow> slots_alloc 0 | v # _ \<Rightarrow> store_alloc_for (length vs) v)) (\<lambda>st.
     bnd (each [0..<length vs] (\<lambda>i. store_set st (int i) (vs ! i))) (\<lambda>u.
     bnd (set_rc st (\<lambda>_. 1)) (\<lambda>u.
     bnd (set_body d (Rowd \<lparr>r_base = st, r_off = 0, r_field = 0, r_borrow = False, r_dim = [\<lparr>d_l = 1, d_u = int (length vs), d_stride = 1\<rparr>]\<rparr>)) (\<lambda>u.
     ret (VRow d))))))"

definition row_concat :: "a68_val \<Rightarrow> a68_val \<Rightarrow> a68_val rt" where
  "row_concat a b =
     bnd (row_of a) (\<lambda>dx.
     bnd (row_elems dx) (\<lambda>xs.
     bnd (row_of b) (\<lambda>dy.
     bnd (row_elems dy) (\<lambda>ys.
     row_of_values (xs @ ys)))))"


definition ops_row_concat :: "a68_val \<Rightarrow> a68_val \<Rightarrow> a68_val rt" where
  "ops_row_concat a b = bnd (if tag_of b = 9 then ret b else row_of_values [b]) (row_concat a)"

definition row_repeat :: "a68_val \<Rightarrow> int \<Rightarrow> a68_val rt" where
  "row_repeat a k =
     bnd (row_of a) (\<lambda>dx.
     bnd (row_elems dx) (\<lambda>xs.
     row_of_values (concat (replicate (nat k) xs))))"


text \<open>Loops that stop at the first difference.\<close>

fun all_rt :: "('a \<Rightarrow> bool rt) \<Rightarrow> 'a list \<Rightarrow> bool rt" where
  "all_rt g [] = ret True"
| "all_rt g (x # xs) = bnd (g x) (\<lambda>b. if b then all_rt g xs else ret False)"

definition same_leaf :: "nat \<Rightarrow> nat \<Rightarrow> bool rt" where
  "same_leaf p q = bnd (leaf_bytes p) (\<lambda>x. bnd (leaf_bytes q) (\<lambda>y. ret (x = y)))"

primrec values_equal_n :: "nat \<Rightarrow> 'a dbl_ops_scheme \<Rightarrow> a68_val \<Rightarrow> a68_val \<Rightarrow> bool rt" where
  "values_equal_n 0 f a b = stop (Fatal ''stack overflow'')"
| "values_equal_n (Suc k) f a b = (case (a, b) of
     (VInt x, VInt y) \<Rightarrow> ret (x = y)
   | (VReal x, VReal y) \<Rightarrow> ret (f_eq f x y)
   | (VMp p, VMp q) \<Rightarrow> same_leaf p q
   | (VBigint p, VBigint q) \<Rightarrow> same_leaf p q
   | (VBigbits p, VBigbits q) \<Rightarrow> same_leaf p q
   | (VInt x, VReal y) \<Rightarrow> ret (f_eq f (f_of_i64 f x) y)
   | (VReal x, VInt y) \<Rightarrow> ret (f_eq f x (f_of_i64 f y))
   | (VBool x, VBool y) \<Rightarrow> ret (x = y)
   | (VChar x, VChar y) \<Rightarrow> ret (x = y)
   | (VBits x, VBits y) \<Rightarrow> ret (x = y)
   | (VRow p, VRow q) \<Rightarrow> bnd (get_rowd p) (\<lambda>x. bnd (get_rowd q) (\<lambda>y.
       if row_count x \<noteq> row_count y then ret False
       else all_rt (\<lambda>i. bnd (rowd_get_flat x i) (\<lambda>e. bnd (rowd_get_flat y i) (\<lambda>e'. values_equal_n k f e e')))
         (upto_int (row_count x))))
   | (VStruct p, VStruct q) \<Rightarrow> bnd (get_slots p) (\<lambda>xs. bnd (get_slots q) (\<lambda>ys.
       if length xs \<noteq> length ys then ret False else all_rt (\<lambda>(e, e'). values_equal_n k f e e') (zip xs ys)))
   | (VUnion p _, VUnion q _) \<Rightarrow> bnd (slot_read (p, 0)) (\<lambda>e. bnd (slot_read (q, 0)) (\<lambda>e'. values_equal_n k f e e'))
   | _ \<Rightarrow> ret False)"

definition values_equal :: "'a dbl_ops_scheme \<Rightarrow> a68_val \<Rightarrow> a68_val \<Rightarrow> bool rt" where
  "values_equal f a b = bnd (get depth_limit) (\<lambda>k. values_equal_n k f a b)"

section \<open>Multi-precision helpers\<close>

definition mp_pow_int_val :: "nat \<Rightarrow> a68_val \<Rightarrow> int \<Rightarrow> int \<Rightarrow> a68_val rt" where
  "mp_pow_int_val ll x k longness =
     (let digs = mp_digits_of ll longness in
     bnd (mp_view x) (\<lambda>xv.
     bnd (lift_res (mp_move (mp_nil digs) xv (min (mp_digs xv) digs))) (\<lambda>z.
     bnd (lift_res (mp_pow_int z z k digs)) (\<lambda>z.
     mp_leaf z))))"

definition shorten_long_int :: "a68_val \<Rightarrow> int rt" where
  "shorten_long_int v =
     bnd (big_of v) (\<lambda>b.
     bnd (lift_res (mp_of_dec_string (big_to_dec b) MP_LONG_DIGITS)) (\<lambda>z.
     lift_res (mp_to_int32 z MP_LONG_DIGITS)))"


text \<open>\<open>io.c\<close>: the bytes of a string or character, and the value of a name.\<close>

definition str_of :: "a68_val \<Rightarrow> u8 list rt" where
  "str_of v = (case v of
     VRow p \<Rightarrow> string_bytes p
   | VChar c \<Rightarrow> ret [ucast c]
   | VUndef \<Rightarrow> die ''attempt to use an uninitialised STRING value''
   | _ \<Rightarrow> die ''internal: STRING expected'')"

definition ref_load_checked :: "a68_val \<Rightarrow> a68_val rt" where
  "ref_load_checked r = (case r of
     VRef p aux \<Rightarrow> ref_load p aux
   | VFile _ \<Rightarrow> ret r
   | VNil \<Rightarrow> die ''attempt to dereference NIL''
   | VUndef \<Rightarrow> die ''attempt to use an uninitialised REF value''
   | _ \<Rightarrow> die ''internal: dereferencing a non-REF'')"

text \<open>The test for a LONG REAL operand.\<close>

definition need_mp :: "a68_val \<Rightarrow> unit rt" where
  "need_mp v = (case v of
     VMp _ \<Rightarrow> ret ()
   | VUndef \<Rightarrow> die ''attempt to use an uninitialised LONG REAL value''
   | _ \<Rightarrow> die ''internal: LONG REAL expected'')"

end
