(* ===== verification/OpsEntry.thy ===== *)
theory OpsEntry
  imports Ops
begin

text \<open>
  \<open>csrc/ops.c\<close>, the entry points: dyadic and assigning operators, monadic operators, widening, the value of
  SKIP and the conformity test. A function of the code with one \<open>switch\<close> over the kind of the left operand is
  here one definition for each case. Operands of a comparison of doubles go through \<open>cmp_real\<close>.
\<close>

section \<open>Dyadic operators\<close>

definition no_op :: "a68_tables \<Rightarrow> string \<Rightarrow> nat \<Rightarrow> nat \<Rightarrow> 'a res" where
  "no_op t op m1 m2 = die_m2 t ''internal: operator '' op m1 m2"

text \<open>The arithmetic of two plain INT values.\<close>

definition ops_int_dyop :: "a68_tables \<Rightarrow> nat \<Rightarrow> string \<Rightarrow> int \<Rightarrow> int \<Rightarrow> int \<Rightarrow> a68_val res" where
  "ops_int_dyop t ll op n x y =
     (if op = ''+'' then bindE (ops_int_range t ll (x + y) n) (\<lambda>r. Inr (int_val r))
      else if op = ''-'' then bindE (ops_int_range t ll (x - y) n) (\<lambda>r. Inr (int_val r))
      else if op = ''*'' then bindE (ops_int_range t ll (x * y) n) (\<lambda>r. Inr (int_val r))
      else if op = ''%'' then (if y = 0 then Inl (Die ''INT division by zero'') else Inr (int_val (c_quot x y)))
      else if op = ''%*'' then (if y = 0 then Inl (Die ''INT division by zero'') else Inr (int_val (int_mod x y)))
      else if op = ''**'' then bindE (ops_pow_int t ll x y n) (\<lambda>r. Inr (int_val r))
      else bindE (cmp_result op (cmp_int x y) ''INT'') (\<lambda>b. Inr (VBool b)))"

definition bound_of :: "string \<Rightarrow> a68_rowd \<Rightarrow> int \<Rightarrow> int" where
  "bound_of op d k = (if op = ''LWB'' then d_l (r_dim d ! nat (k - 1)) else d_u (r_dim d ! nat (k - 1)))"

definition check_dim :: "a68_rowd \<Rightarrow> int \<Rightarrow> unit res" where
  "check_dim d k = (if k < 1 \<or> k > int (length (r_dim d)) then Inl (Die ''LWB/UPB dimension out of range'') else Inr ())"

definition dy_int :: "'a fmt_ops_scheme \<Rightarrow> a68_tables \<Rightarrow> nat \<Rightarrow> string \<Rightarrow> nat \<Rightarrow> nat \<Rightarrow> a68_mode \<Rightarrow> a68_mode \<Rightarrow> a68_val \<Rightarrow> a68_val \<Rightarrow> a68_val rt" where
  "dy_int f t ll op m1 m2 p1 p2 a b =
     bnd (lift_res (string_mode t m2)) (\<lambda>str2.
     if m_k p2 = M_INT then (
         if m_len p1 \<ge> 1 then (
             if op = ''**'' then (
                 bnd (expect_int b) (\<lambda>k.
                 long_int_pow t ll (m_len p1) a k))
             else (
                 long_int_dyadic t ll op (m_len p1) a b))
         else (
             bnd (expect_int a) (\<lambda>x.
             bnd (expect_int b) (\<lambda>y.
             lift_res (ops_int_dyop t ll op (m_len p1) x y)))))
     else if str2 then (
         bnd (expect_int a) (\<lambda>k.
         bnd (row_of b) (\<lambda>d.
         if op = ''LWB'' \<or> op = ''UPB'' then (
             bnd (lift_res (check_dim d k)) (\<lambda>u.
             ret (int_val (bound_of op d k))))
         else (
             row_repeat b k))))
     else if m_k p2 = M_BITS then (
         bnd (expect_int a) (\<lambda>k.
         bnd (wb_of_val b) (\<lambda>x.
         (let w = bits_width_of f ll (m_len p2) in
         if op = ''ELEM'' then (
             if k < 1 \<or> k > w then lift_res (Inl (Die ''ELEM index out of range''))
             else (ret (VBool (wb_bit x (nat (w - k))))))
         else (
             lift_res (die_buf 64 (''internal: INT/BITS operator '' @ op)))))))
     else if m_k p2 = M_BYTES then (
         bnd (expect_int a) (\<lambda>k.
         bnd (row_of b) (\<lambda>d.
         (let n = row_count d in
         if k < 1 \<or> k > n then lift_res (Inl (Die (''index '' @ int_dec k @ '' out of bounds [1:'' @ int_dec n @ '']'')))
         else (rowd_get_flat d (k - 1))))))
     else if m_k p2 = M_ROW then (
         bnd (expect_int a) (\<lambda>k.
         bnd (row_of b) (\<lambda>d.
         bnd (lift_res (check_dim d k)) (\<lambda>u.
         if op = ''LWB'' \<or> op = ''UPB'' then ret (int_val (bound_of op d k))
         else (lift_res (die_buf 64 (''internal: INT/row operator '' @ op)))))))
     else (
         lift_res (no_op t op m1 m2)))"


definition ops_real_dyop :: "'a dbl_ops_scheme \<Rightarrow> string \<Rightarrow> u64 \<Rightarrow> u64 \<Rightarrow> a68_val rt" where
  "ops_real_dyop f op x y = (let F = dbl_ops.truncate f; real = (\<lambda>r. bnd (lift_res r) (\<lambda>z. ret (VReal z))) in
     if op = ''+'' then real (real_check (f_add f x y))
     else if op = ''-'' then real (real_check (f_sub f x y))
     else if op = ''*'' then real (real_check (f_mul f x y))
     else if op = ''/'' then real (if f_eq f y dbl_zero then Inl (Die ''REAL value is not a number'') else Inr (f_div f x y))
     else if op = ''I'' then mk_compl x y
     else if op = ''**'' then real (real_pow F x y)
     else bnd (lift_res (cmp_result op (cmp_real F x y) ''REAL'')) (\<lambda>b. ret (VBool b)))"

definition dy_real :: "'a math_ops_scheme \<Rightarrow> a68_tables \<Rightarrow> nat \<Rightarrow> string \<Rightarrow> nat \<Rightarrow> nat \<Rightarrow> a68_mode \<Rightarrow> a68_mode \<Rightarrow> a68_val \<Rightarrow> a68_val \<Rightarrow> a68_val lrt" where
  "dy_real f t ll op m1 m2 p1 p2 a b =
     (let n = m_len p1 in
     if m_k p2 = M_REAL then (
         if n \<ge> 1 then (
             if op = ''I'' then liftS (struct2 a b)
             else (bndL (liftS (need_mp a)) (\<lambda>u.
             bndL (liftS (need_mp b)) (\<lambda>u.
             mp_dyadic f ll op n a b))))
         else (
             bndL (liftS (as_real (f_of_i64 f) a)) (\<lambda>x.
             bndL (liftS (as_real (f_of_i64 f) b)) (\<lambda>y.
             liftS (ops_real_dyop f op x y)))))
     else if m_k p2 = M_INT then (
         if n \<ge> 1 then (
             bndL (liftS (need_mp a)) (\<lambda>u.
             bndL (liftS (expect_int b)) (\<lambda>k.
             if op = ''**'' then liftS (mp_pow_int_val ll a k n)
             else (liftR (bindE (simple_name t M_REAL n) (\<lambda>ms. die_buf 96 (''internal: '' @ ms @ ''/INT operator '' @ op)))))))
         else (
             bndL (liftS (as_real (f_of_i64 f) a)) (\<lambda>x.
             bndL (liftS (expect_int b)) (\<lambda>y.
             if op = ''**'' then (
                 bndL (liftR (pow_real_int (dbl_ops.truncate f) x y)) (\<lambda>r.
                 okL (VReal r)))
             else if op = ''I'' then (
                 liftS (mk_compl x (f_of_i64 f (word_of_int y))))
             else (
                 liftR (die_buf 64 (''internal: REAL/INT operator '' @ op @ '' ('' @ int_dec n @ '')'')))))))
     else (
         liftR (no_op t op m1 m2)))"


definition ops_compl_dyop :: "'a dbl_ops_scheme \<Rightarrow> string \<Rightarrow> u64 \<times> u64 \<Rightarrow> u64 \<times> u64 \<Rightarrow> a68_val rt" where
  "ops_compl_dyop f op x y = (case x of (ar, ai) \<Rightarrow> case y of (br, bi) \<Rightarrow>
     let same = f_eq f ar br \<and> f_eq f ai bi in
     if op = ''+'' then check_compl (f_add f ar br) (f_add f ai bi)
     else if op = ''-'' then check_compl (f_sub f ar br) (f_sub f ai bi)
     else if op = ''*'' then compl_bin f 0 ar ai br bi
     else if op = ''/'' then compl_bin f 1 ar ai br bi
     else if op = ''='' then ret (VBool same)
     else if op = ''/='' then ret (VBool (\<not> same))
     else lift_res (die_buf 64 (''internal: COMPL operator '' @ op)))"

definition dy_compl :: "'a math_ops_scheme \<Rightarrow> a68_tables \<Rightarrow> nat \<Rightarrow> string \<Rightarrow> nat \<Rightarrow> nat \<Rightarrow> a68_mode \<Rightarrow> a68_mode \<Rightarrow> a68_val \<Rightarrow> a68_val \<Rightarrow> a68_val rt" where
  "dy_compl f t ll op m1 m2 p1 p2 a b =
     (let n = m_len p1 in
     if m_k p2 = M_INT then (
         if n \<ge> 1 then (
             bnd (expect_int b) (\<lambda>k.
             mp_compl_pow ll n a k))
         else (
             bnd (need_compl ''internal: COMPL expected'' a) (\<lambda>(re, im).
             bnd (expect_int b) (\<lambda>y.
             (let (zr, zi) = a68_compl_pow f re im (nat \<bar>y\<bar>) in
             bnd (check_compl zr zi) (\<lambda>z.
             if y < 0 then compl_bin f 1 dbl_one dbl_zero zr zi
             else (ret (z))))))))
     else if m_k p2 = M_COMPL then (
         if n \<ge> 1 then mp_compl_dyadic ll op n a b
         else (bnd (need_compl ''internal: COMPL expected'' a) (\<lambda>x.
         bnd (need_compl ''internal: COMPL expected'' b) (\<lambda>y.
         ops_compl_dyop f op x y))))
     else (
         lift_res (no_op t op m1 m2)))"


definition ops_bool_dyop :: "string \<Rightarrow> bool \<Rightarrow> bool \<Rightarrow> a68_val res" where
  "ops_bool_dyop op x y = (case bool_dyop op x y of Some v \<Rightarrow> Inr v
     | None \<Rightarrow> die_buf 64 (''internal: BOOL operator '' @ op))"

definition dy_row :: "'a dbl_ops_scheme \<Rightarrow> a68_tables \<Rightarrow> string \<Rightarrow> nat \<Rightarrow> nat \<Rightarrow> a68_mode \<Rightarrow> a68_val \<Rightarrow> a68_val \<Rightarrow> a68_val rt" where
  "dy_row f t op m1 m2 p2 a b =
     bnd (lift_res (string_mode t m1)) (\<lambda>str1.
     bnd (lift_res (string_mode t m2)) (\<lambda>str2.
     if str1 \<and> str2 then (
         if op = ''+'' then (
             bnd (row_of a) (\<lambda>d.
             bnd (row_of b) (\<lambda>d.
             row_concat a b)))
         else (
             bnd (compare_chars a b) (\<lambda>c.
             bnd (lift_res (cmp_result op c ''STRING'')) (\<lambda>r.
             ret (VBool r)))))
     else if str1 \<and> m_k p2 = M_INT then (
         bnd (expect_int b) (\<lambda>k.
         row_repeat a k))
     else if m_k p2 = M_ROW then (
         if op = ''='' \<or> op = ''/='' then (
             bnd (values_equal f a b) (\<lambda>e.
             ret (VBool (if op = ''='' then e else \<not>  e))))
         else (
             lift_res (die_buf 64 (''internal: row operator '' @ op))))
     else (
         lift_res (no_op t op m1 m2))))"


definition ops_bits_dyop :: "string \<Rightarrow> wbits \<Rightarrow> wbits \<Rightarrow> wbits \<Rightarrow> a68_val rt" where
  "ops_bits_dyop op msk x y =
     (if op = ''AND'' then val_of_wb (wb_and x y)
      else if op = ''OR'' then val_of_wb (wb_and (wb_or x y) msk)
      else if op = ''XOR'' then val_of_wb (wb_and (wb_xor x y) msk)
      else if op = ''='' then ret (VBool (wb_eq x y))
      else if op = ''/='' then ret (VBool (\<not> wb_eq x y))
      else if op = ''<='' then ret (VBool (wb_eq (wb_and x y) x))
      else if op = ''>='' then ret (VBool (wb_eq (wb_and x y) y))
      else lift_res (die_buf 64 (''internal: BITS operator '' @ op)))"

definition ops_bits_shift :: "string \<Rightarrow> int \<Rightarrow> wbits \<Rightarrow> int \<Rightarrow> wbits res" where
  "ops_bits_shift op w x k =
     (if op = ''SHL'' \<or> op = ''SHR'' \<or> op = ''DOWN'' then
        (if \<bar>k\<bar> > w then Inl (Die ''shift count out of range'')
         else (let s = (if op = ''SHL'' then k else - k) in
           Inr (if s \<ge> 0 then wb_and (wb_shl x s) (wb_mask w) else wb_shl x s)))
      else die_buf 64 (''internal: BITS/INT operator '' @ op))"

definition dy_bits :: "'a fmt_ops_scheme \<Rightarrow> a68_tables \<Rightarrow> nat \<Rightarrow> string \<Rightarrow> nat \<Rightarrow> nat \<Rightarrow> a68_mode \<Rightarrow> a68_mode \<Rightarrow> a68_val \<Rightarrow> a68_val \<Rightarrow> a68_val rt" where
  "dy_bits f t ll op m1 m2 p1 p2 a b =
     (let w = bits_width_of f ll (m_len p1) in
     if m_k p2 = M_BITS then (
         bnd (wb_of_val a) (\<lambda>x.
         bnd (wb_of_val b) (\<lambda>y.
         ops_bits_dyop op (wb_mask w) x y)))
     else if m_k p2 = M_INT then (
         bnd (wb_of_val a) (\<lambda>x.
         bnd (expect_int b) (\<lambda>k.
         bnd (lift_res (ops_bits_shift op w x k)) (\<lambda>r.
         val_of_wb r))))
     else (
         lift_res (no_op t op m1 m2)))"


section \<open>Operators with assignment\<close>

definition base_op :: "string \<Rightarrow> string" where
  "base_op op = (if op = ''+:='' then ''+'' else if op = ''-:='' then ''-'' else if op = ''*:='' then ''*''
     else if op = ''/:='' then ''/'' else if op = ''%:='' then ''%'' else if op = ''%*:='' then ''%*'' else op)"

definition int_assigning :: "a68_tables \<Rightarrow> nat \<Rightarrow> string \<Rightarrow> int \<Rightarrow> int \<Rightarrow> int \<Rightarrow> a68_val res" where
  "int_assigning t ll op n x y =
     (if op \<in> {''+:='', ''-:='', ''*:='', ''%:='', ''%*:=''} then ops_int_dyop t ll (base_op op) n x y
      else if op = ''/:='' then Inl (Die ''operator /:= not defined for INT'')
      else die_buf 64 (''internal: assigning operator '' @ op @ '' on INT''))"

definition real_assigning :: "'a dbl_ops_scheme \<Rightarrow> string \<Rightarrow> u64 \<Rightarrow> u64 \<Rightarrow> a68_val rt" where
  "real_assigning f op x y =
     (if op \<in> {''+:='', ''-:='', ''*:='', ''/:=''} then ops_real_dyop f (base_op op) x y
      else lift_res (die_buf 64 (''internal: assigning operator '' @ op @ '' on REAL'')))"

definition compl_assigning :: "'a dbl_ops_scheme \<Rightarrow> string \<Rightarrow> u64 \<times> u64 \<Rightarrow> u64 \<times> u64 \<Rightarrow> a68_val rt" where
  "compl_assigning f op x y = (case x of (ar, ai) \<Rightarrow> case y of (br, bi) \<Rightarrow>
     if op = ''+:='' then mk_compl (f_add f ar br) (f_add f ai bi)
     else if op = ''-:='' then mk_compl (f_sub f ar br) (f_sub f ai bi)
     else if op = ''*:='' then compl_bin f 0 ar ai br bi
     else if op = ''/:='' then compl_bin f 1 ar ai br bi
     else lift_res (die_buf 64 (''internal: assigning operator '' @ op @ '' on COMPL'')))"

text \<open>The new value of a name of a plain mode.\<close>

definition assigned :: "'a math_ops_scheme \<Rightarrow> a68_tables \<Rightarrow> nat \<Rightarrow> string \<Rightarrow> a68_mode \<Rightarrow> a68_val \<Rightarrow> a68_val \<Rightarrow> a68_val rt" where
  "assigned f t ll op p cur b =
     (if m_k p = M_INT then (
         bnd (expect_int cur) (\<lambda>x.
         bnd (expect_int b) (\<lambda>y.
         lift_res (int_assigning t ll op (m_len p) x y))))
     else if m_k p = M_REAL then (
         bnd (as_real (f_of_i64 f) cur) (\<lambda>x.
         bnd (as_real (f_of_i64 f) b) (\<lambda>y.
         real_assigning f op x y)))
     else if m_k p = M_COMPL then (
         bnd (need_compl ''internal: COMPL expected'' cur) (\<lambda>x.
         bnd (need_compl ''internal: COMPL expected'' b) (\<lambda>y.
         compl_assigning f op x y)))
     else if m_k p = M_BITS then (
         bnd (wb_of_val cur) (\<lambda>x.
         bnd (wb_of_val b) (\<lambda>y.
         if op = ''&:='' then val_of_wb (wb_and x y)
         else (if op = ''|:='' then val_of_wb (wb_and (wb_or x y) (wb_mask (bits_width_of f ll (m_len p))))
         else (lift_res (die_buf 64 (''internal: assigning operator '' @ op @ '' on BITS'')))))))
     else if m_k p = M_ROW then (
         if m_dims p \<noteq> 1 then lift_res (die_buf 64 (''internal: assigning operator '' @ op))
         else (if op = ''+:='' then row_concat cur b
         else (if op = ''*:='' then (
             bnd (expect_int b) (\<lambda>k.
             row_repeat cur k))
         else (
             lift_res (die_buf 64 (''internal: assigning operator '' @ op @ '' on STRING''))))))
     else (
         lift_res (die_buf 64 (''internal: assigning operator '' @ op))))"

definition assigning :: "'a math_ops_scheme \<Rightarrow> a68_tables \<Rightarrow> nat \<Rightarrow> string \<Rightarrow> nat \<Rightarrow> a68_val \<Rightarrow> a68_val \<Rightarrow> a68_val lrt" where
  "assigning f t ll op m1 a b =
     bndL (liftR (rm t m1)) (\<lambda>p1.
     bndL (liftR (mode_resolve t (m_sub p1))) (\<lambda>mr.
     (let p = mode_at t mr;
          n = m_len p in
     bndL (liftS (ref_load_checked a)) (\<lambda>cur.
     bndL (if m_k p = M_INT \<and> n \<ge> 1 then (
             liftS (long_int_dyadic t ll (base_op op) n cur b))
         else if m_k p = M_REAL \<and> n \<ge> 1 then (
             bndL (liftS (need_mp cur)) (\<lambda>u.
             bndL (liftS (need_mp b)) (\<lambda>u.
             mp_dyadic f ll (base_op op) n cur b)))
         else if m_k p = M_COMPL \<and> n \<ge> 1 then (
             liftS (mp_compl_dyadic ll (base_op op) n cur b))
         else (
             liftS (assigned f t ll op p cur b)))
       (\<lambda>v.
     bndL (liftS (store_ref a v)) (\<lambda>u.
     okL (a)))))))"

definition ops_dyadic :: "'a math_ops_scheme \<Rightarrow> a68_tables \<Rightarrow> nat \<Rightarrow> string \<Rightarrow> nat \<Rightarrow> nat \<Rightarrow> a68_val \<Rightarrow> a68_val \<Rightarrow> a68_val lrt" where
  "ops_dyadic f t ll op m1 m2 a b =
     bndL (liftR (rm t m1)) (\<lambda>p1.
     bndL (liftR (rm t m2)) (\<lambda>p2.
     if m_k p1 = M_REF then assigning f t ll op m1 a b
     else (bndL (liftR (string_mode t m1)) (\<lambda>str1.
     if str1 \<and> m_k p2 = M_REF then (
         bndL (liftS (ref_load_checked b)) (\<lambda>cur.
         bndL (liftS (row_concat a cur)) (\<lambda>v.
         bndL (liftS (store_ref b v)) (\<lambda>u.
         okL (b)))))
     else if m_k p1 = M_INT then (
         liftS (dy_int f t ll op m1 m2 p1 p2 a b))
     else if m_k p1 = M_REAL then (
         dy_real f t ll op m1 m2 p1 p2 a b)
     else if m_k p1 = M_COMPL then (
         liftS (dy_compl f t ll op m1 m2 p1 p2 a b))
     else if m_k p1 = M_BOOL \<and> m_k p2 = M_BOOL then (
         bndL (liftS (as_bool a)) (\<lambda>x.
         bndL (liftS (as_bool b)) (\<lambda>y.
         liftR (ops_bool_dyop op x y))))
     else if m_k p1 = M_CHAR \<and> m_k p2 = M_CHAR then (
         bndL (liftS (as_char a)) (\<lambda>x.
         bndL (liftS (as_char b)) (\<lambda>y.
         bndL (liftR (cmp_result op (cmp_int (uint x) (uint y)) ''CHAR'')) (\<lambda>r.
         okL (VBool r)))))
     else if m_k p1 = M_ROW then (
         liftS (dy_row f t op m1 m2 p2 a b))
     else if m_k p1 = M_BITS then (
         liftS (dy_bits f t ll op m1 m2 p1 p2 a b))
     else if m_k p1 = M_BYTES \<and> m_k p2 = M_BYTES then (
         bndL (liftS (compare_chars a b)) (\<lambda>c.
         bndL (liftR (cmp_result op c ''BYTES'')) (\<lambda>r.
         okL (VBool r))))
     else (
         liftR (no_op t op m1 m2))))))"


section \<open>Monadic operators\<close>

definition no_monop :: "a68_tables \<Rightarrow> string \<Rightarrow> nat \<Rightarrow> 'a res" where
  "no_monop t op m = bindE (mode_string t m) (\<lambda>ms. Inl (Die (''internal: monadic operator '' @ op @ '' on '' @ ms)))"

text \<open>The last decimal digit of a LONG INT in a leaf.\<close>

definition last_digit_odd :: "a68_val \<Rightarrow> bool rt" where
  "last_digit_odd v = bnd (leaf_bytes (val_ptr v)) (\<lambda>ds. if ds = [] then stop UB
     else ret (c_rem (sint (ucast (last ds) :: 32 word) - 48) 2 \<noteq> 0))"

definition mon_int :: "'a fmt_ops_scheme \<Rightarrow> a68_tables \<Rightarrow> nat \<Rightarrow> string \<Rightarrow> nat \<Rightarrow> int \<Rightarrow> a68_val \<Rightarrow> a68_val rt" where
  "mon_int f t ll op m n v =
     (let big = (tag_of v = 17) in
     if op = ''-'' then (
         if big then (
             bnd (big_of v) (\<lambda>b.
             val_of_big (big_neg b)))
         else (
             bnd (expect_int v) (\<lambda>x.
             bnd (lift_res (neg_i64 x)) (\<lambda>y.
             bnd (lift_res (ops_int_range t ll y n)) (\<lambda>y.
             ret (int_val y))))))
     else if op = ''+'' then (
         if v = VUndef then (
             bnd (expect_int v) (\<lambda>x.
             ret (v)))
         else (
             ret (v)))
     else if op = ''ABS'' then (
         if big then (
             bnd (big_of v) (\<lambda>b.
             val_of_big (big_abs b)))
         else (
             bnd (expect_int v) (\<lambda>x.
             bnd (lift_res ((if x < 0 then neg_i64 x else Inr x))) (\<lambda>y.
             ret (int_val y)))))
     else if op = ''SIGN'' then (
         if big then (
             bnd (big_of v) (\<lambda>b.
             ret (int_val (big_sign b))))
         else (
             bnd (expect_int v) (\<lambda>x.
             ret (int_val (sgn x)))))
     else if op = ''ODD'' then (
         if big then (
             bnd (last_digit_odd v) (\<lambda>o1.
             ret (VBool o1)))
         else (
             bnd (expect_int v) (\<lambda>x.
             ret (VBool (odd x)))))
     else if op = ''REPR'' then (
         bnd (expect_int v) (\<lambda>x.
         if x < 0 \<or> x > 255 then lift_res (Inl (Die ''REPR argument out of range''))
         else (ret (VChar (word_of_int x)))))
     else if op = ''BIN'' then (
         bnd (big_of v) (\<lambda>b.
         if big_sign b < 0 then lift_res (Inl (Die ''BIN argument is negative''))
         else (if wb_exceeds (wb_of_big b) (bits_width_of f ll n) then lift_res (Inl (Die ''BIN argument out of range''))
         else (val_of_wb (wb_of_big b)))))
     else if op = ''SHORTEN'' then (
         if n = 1 then (
             bnd (shorten_long_int v) (\<lambda>k.
             ret (int_val k)))
         else (
             bnd (big_of v) (\<lambda>b.
             if over_limit ll b (n - 1) then lift_res (die_m t [] M_INT (n - 1) '' value overflow, result too large'')
             else (val_of_big b))))
     else (
         lift_res (no_monop t op m)))"

definition mon_real :: "'a dbl_ops_scheme \<Rightarrow> a68_tables \<Rightarrow> string \<Rightarrow> nat \<Rightarrow> a68_val \<Rightarrow> a68_val rt" where
  "mon_real f t op m v =
     (if op \<in> {''-'', ''+'', ''ABS'', ''SIGN'', ''ENTIER'', ''ROUND'', ''SHORTEN''} then (
         bnd (as_real (f_of_i64 f) v) (\<lambda>x.
         if op = ''-'' then ret (VReal (dbl_neg x))
         else (if op = ''+'' \<or> op = ''SHORTEN'' then ret (v)
         else (if op = ''ABS'' then ret (VReal (dbl_abs x))
         else (if op = ''SIGN'' then ret (int_val (if f_less f dbl_zero x then 1 else if f_less f x dbl_zero then - 1 else 0))
         else ((let lm = f_of_i64 f (word_of_int A68_MAXINT) in
         if f_less f x (dbl_neg lm) \<or> f_less f lm x then lift_res (Inl (Die ''INT value out of bounds''))
         else ((let fl = f_floor f x;
              k = f_to_u64 f (f_floor f (f_add f (dbl_abs x) dbl_half)) in
         if op = ''ENTIER'' then ret (VInt (if f_less f fl dbl_zero then - f_to_u64 f (dbl_neg fl) else f_to_u64 f fl))
         else (ret (VInt (if f_less f x dbl_zero then - k else k))))))))))))
     else (
         lift_res (no_monop t op m)))"

definition mon_compl :: "'a ops_fns_scheme \<Rightarrow> a68_tables \<Rightarrow> string \<Rightarrow> nat \<Rightarrow> a68_val \<Rightarrow> a68_val rt" where
  "mon_compl f t op m v =
     (if op = ''+'' \<or> op = ''SHORTEN'' then ret (v)
     else (bnd (need_compl ''internal'' v) (\<lambda>(re, im).
     if op = ''-'' then mk_compl (dbl_neg re) (dbl_neg im)
     else (if op = ''ABS'' then ret (VReal (a68_compl_abs f re im))
     else (if op = ''RE'' then ret (VReal re)
     else (if op = ''IM'' then ret (VReal im)
     else (if op = ''CONJ'' then mk_compl re (dbl_neg im)
     else (if op = ''ARG'' then (
         if f_eq f re dbl_zero \<and> f_eq f im dbl_zero then lift_res (Inl (Die ''invalid COMPL argument''))
         else (ret (VReal (f_atan2 f im re))))
     else (
         lift_res (no_monop t op m))))))))))"

definition mon_bits :: "'a fmt_ops_scheme \<Rightarrow> a68_tables \<Rightarrow> nat \<Rightarrow> string \<Rightarrow> nat \<Rightarrow> int \<Rightarrow> a68_val \<Rightarrow> a68_val rt" where
  "mon_bits f t ll op m n v =
     (if op = ''ABS'' then (
         if tag_of v = 5 then (
             bnd (as_bits v) (\<lambda>b.
             ret (VInt (if n \<le> 0 \<and> b \<ge> 2147483648 then b - 4294967296 else b))))
         else (
             bnd (big_of v) (\<lambda>b.
             val_of_big b)))
     else if op = ''NOT'' then (
         bnd (wb_of_val v) (\<lambda>x.
         val_of_wb (wb_xor (wb_mask (bits_width_of f ll n)) x)))
     else if op = ''SHORTEN'' then (
         bnd (wb_of_val v) (\<lambda>x.
         val_of_wb (wb_and x (wb_mask (bits_width_of f ll (n - 1))))))
     else (
         lift_res (no_monop t op m)))"

definition mon_denot :: "a68_tables \<Rightarrow> nat \<Rightarrow> int \<Rightarrow> a68_val \<Rightarrow> a68_val rt" where
  "mon_denot t ll n v =
     bnd (str_of v) (\<lambda>text.
     bnd (mp_of_string ll (map (\<lambda>b. char_of (unat b)) text) n) (\<lambda>(z, ok).
     if \<not>  ok then lift_res (die_m t ''error in '' M_REAL n '' denotation'')
     else (ret (z))))"


definition long_real_monops :: "string set" where
  "long_real_monops = {''-'', ''+'', ''ABS'', ''SIGN'', ''ENTIER'', ''ROUND'', ''SHORTEN''}"
definition long_compl_monops :: "string set" where
  "long_compl_monops = {''-'', ''+'', ''RE'', ''IM'', ''CONJ'', ''ABS'', ''ARG'', ''SHORTEN''}"

definition ops_monadic :: "'a ops_fns_scheme \<Rightarrow> a68_tables \<Rightarrow> nat \<Rightarrow> string \<Rightarrow> nat \<Rightarrow> a68_val \<Rightarrow> a68_val lrt" where
  "ops_monadic f t ll op m v =
     bndL (liftR (mode_resolve t m)) (\<lambda>mri.
     (let p = mode_at t mri;
          n = m_len p in
     if m_k p = M_REAL \<and> op = ''DENOT'' then liftS (mon_denot t ll n v)
     else (if m_k p = M_REAL \<and> n \<ge> 1 \<and> op \<in> long_real_monops then (
         bndL (liftS (need_mp v)) (\<lambda>u.
         liftS (mp_monadic f ll op n v)))
     else if m_k p = M_COMPL \<and> n \<ge> 1 \<and> op \<in> long_compl_monops then (
         mp_compl_monadic f ll op n v)
     else if m_k p = M_INT then (
         liftS (mon_int f t ll op m n v))
     else if m_k p = M_REAL then (
         liftS (mon_real f t op m v))
     else if m_k p = M_COMPL then (
         liftS (mon_compl f t op m v))
     else if m_k p = M_CHAR \<and> op = ''ABS'' then (
         bndL (liftS (as_char v)) (\<lambda>c.
         okL (int_val (uint c))))
     else if m_k p = M_BOOL \<and> op = ''ABS'' then (
         bndL (liftS (as_bool v)) (\<lambda>b.
         okL (int_val (if b then 1 else 0))))
     else if m_k p = M_BOOL \<and> op = ''NOT'' then (
         bndL (liftS (as_bool v)) (\<lambda>b.
         okL (VBool (\<not>  b))))
     else if m_k p = M_BITS then (
         liftS (mon_bits f t ll op m n v))
     else if m_k p = M_ROW then (
         bndL (liftS (row_of v)) (\<lambda>d.
         if op = ''LWB'' \<or> op = ''UPB'' then okL (int_val (bound_of op d 1))
         else (if op = ''ELEMS'' then okL (int_val (row_count d))
         else (liftR (no_monop t op m)))))
     else (
         liftR (no_monop t op m)))))"


section \<open>Widening\<close>

definition row_of_bools :: "'a fmt_ops_scheme \<Rightarrow> nat \<Rightarrow> a68_val \<Rightarrow> int \<Rightarrow> a68_val rt" where
  "row_of_bools f ll v longness =
     bnd (wb_of_val v) (\<lambda>x.
     (let w = nat (bits_width_of f ll longness) in
     row_of_values (map (\<lambda>i. VBool (wb_bit x (w - 1 - i))) [0..<w])))"


text \<open>LENG of a BITS value whose top bit is set: the number as an INT, plus a power of 10^7.\<close>

definition leng_bits :: "u64 \<Rightarrow> u64" where
  "leng_bits b = (if b < 2147483648 then b
     else (let k = uint b - 4294967296; ak = \<bar>k\<bar>; modulus = (if ak < 10000000 then 10000000 else 100000000000000)
           in b mod modulus))"

definition widen_long_int :: "nat \<Rightarrow> a68_val \<Rightarrow> int \<Rightarrow> a68_val rt" where
  "widen_long_int ll v b =
     bnd (big_of v) (\<lambda>k.
     mp_of_int ll k b)"

definition mp_zero_val :: "nat \<Rightarrow> int \<Rightarrow> a68_val rt" where
  "mp_zero_val ll b =
     mp_of_int ll (big_from_i64 0) b"

definition widen_compl :: "'a fmt_ops_scheme \<Rightarrow> nat \<Rightarrow> a68_val \<Rightarrow> int \<Rightarrow> int \<Rightarrow> a68_val rt" where
  "widen_compl f ll v a b =
     bnd (compl_reals v) (\<lambda>c.
     bnd (compl_mps v) (\<lambda>mc.
     if c \<noteq> None then (
         if b \<ge> 1 then (
             bnd (mp_of_real f ll (fst (the c)) b) (\<lambda>re.
             bnd (mp_of_real f ll (snd (the c)) b) (\<lambda>im.
             struct2 re im)))
         else (
             ret (v)))
     else if mc \<noteq> None \<and> a = 1 \<and> b \<ge> 2 then (
         bnd (mp_widen f ll (fst (the mc)) 1 2) (\<lambda>re.
         bnd (mp_widen f ll (snd (the mc)) 1 2) (\<lambda>im.
         struct2 re im)))
     else (
         ret (v))))"

definition widen_bytes :: "a68_val \<Rightarrow> int \<Rightarrow> a68_val rt" where
  "widen_bytes v b =
     (let w = (if b \<ge> 1 then 256 else 32) in
     bnd (row_of v) (\<lambda>d.
     bnd (row_elems d) (\<lambda>es.
     row_of_values (es @ replicate (w - length es) (VChar 0)))))"

definition ops_widen :: "'a fmt_ops_scheme \<Rightarrow> a68_tables \<Rightarrow> nat \<Rightarrow> nat \<Rightarrow> nat \<Rightarrow> a68_val \<Rightarrow> a68_val rt" where
  "ops_widen f t ll src dst v =
     bnd (lift_res (rm t src)) (\<lambda>s.
     bnd (lift_res (rm t dst)) (\<lambda>d.
     bnd (lift_res (string_mode t dst)) (\<lambda>dstr.
     (let a = m_len s;
          b = m_len d;
          isint = (tag_of v = 1 \<or> tag_of v = 17) in
     if v = VUndef then lift_res (Inl (Die ''attempt to use an uninitialised value''))
     else (if m_k s = M_INT \<and> m_k d = M_INT then ret (v)
     else (if m_k s = M_INT \<and> m_k d = M_REAL \<and> isint then (
         if b \<ge> 1 then widen_long_int ll v b
         else (ret (VReal (f_of_i64 f (val_bits v)))))
     else if m_k s = M_REAL \<and> m_k d = M_REAL then (
         (case v of VReal r \<Rightarrow> if a \<le> 0 \<and> b \<ge> 1 then mp_of_real f ll r b else ret v | VMp _ \<Rightarrow> if a = 1 \<and> b \<ge> 2 then mp_widen f ll v 1 2 else ret v | _ \<Rightarrow> ret v))
     else if m_k s = M_INT \<and> m_k d = M_COMPL \<and> isint then (
         if b \<ge> 1 then (
             bnd (widen_long_int ll v b) (\<lambda>re.
             bnd (mp_zero_val ll b) (\<lambda>im.
             struct2 re im)))
         else (
             mk_compl (f_of_i64 f (val_bits v)) dbl_zero))
     else if m_k s = M_REAL \<and> m_k d = M_COMPL \<and> tag_of v = 2 then (
         if b \<ge> 1 then (
             bnd (mp_zero_val ll b) (\<lambda>im.
             bnd (mp_of_real f ll (val_bits v) b) (\<lambda>re.
             struct2 re im)))
         else (
             mk_compl (val_bits v) dbl_zero))
     else if m_k s = M_REAL \<and> m_k d = M_COMPL \<and> tag_of v = 16 then (
         bnd ((if a = 1 \<and> b \<ge> 2 then mp_widen f ll v 1 2 else ret v)) (\<lambda>x.
         bnd (mp_zero_val ll b) (\<lambda>im.
         struct2 x im)))
     else if m_k s = M_COMPL \<and> m_k d = M_COMPL then (
         widen_compl f ll v a b)
     else if m_k s = M_BITS \<and> a = 0 \<and> m_k d = M_BITS \<and> tag_of v = 5 then (
         ret (if b \<le> 0 then v else VBits (leng_bits (val_bits v))))
     else if m_k s = M_BITS \<and> m_k d = M_BITS then (
         ret (v))
     else if m_k s = M_BYTES \<and> dstr then (
         ret (v))
     else if m_k s = M_BYTES \<and> m_k d = M_BYTES \<and> tag_of v = 9 then (
         widen_bytes v b)
     else if m_k s = M_BITS \<and> m_k d = M_ROW \<and> m_k (mode_at t (m_sub d)) = M_BOOL \<and> (tag_of v = 5 \<or> tag_of v = 18) then (
         row_of_bools f ll v a)
     else (
         lift_res (bindE (mode_string t src) (\<lambda>s1. bindE (mode_string t dst) (\<lambda>s2. Inl (Die (''internal: cannot widen '' @ s1 @ '' to '' @ s2))))))))))))"


section \<open>SKIP and conformity\<close>

text \<open>The value of a SKIP, and the tables: a union gets the mode of the empty union.\<close>

definition default_row :: "nat \<Rightarrow> a68_val rt" where
  "default_row dims =
     bnd (rowd_alloc dims) (\<lambda>d.
     bnd (slots_alloc 0) (\<lambda>st.
     bnd (set_rc st (\<lambda>_. 1)) (\<lambda>u.
     bnd (set_body d (Rowd \<lparr>r_base = st, r_off = 0, r_field = 0, r_borrow = False, r_dim = replicate dims \<lparr>d_l = 1, d_u = 0, d_stride = 1\<rparr>\<rparr>)) (\<lambda>u.
     ret (VRow d)))))"

definition ops_default :: "a68_tables \<Rightarrow> nat \<Rightarrow> (a68_val \<times> a68_tables) rt" where
  "ops_default t m =
     bnd (lift_res (rm t m)) (\<lambda>p.
     if m_k p = M_VOID then ret ((VVoid, t))
     else (if m_k p = M_ROW then (
         bnd (default_row (m_dims p)) (\<lambda>v.
         ret ((v, t))))
     else if m_k p = M_UNION then (
         bnd (slots_alloc 1) (\<lambda>s.
         ret ((VUnion s (of_nat (fst (mode_empty_union t))), snd (mode_empty_union t)))))
     else (
         ret ((VUndef, t)))))"


text \<open>The answer and the tables, in which VOID may be new.\<close>

definition ops_conform :: "a68_tables \<Rightarrow> nat \<Rightarrow> nat \<Rightarrow> (bool \<times> a68_tables) res" where
  "ops_conform t m vm =
     (let (vmm, t) = (if vm = 0xffffffff then mode_simple M_VOID 0 t else (vm, t)) in
     bindE (rm t m) (\<lambda>p.
     if m_k p = M_UNION then (
         bindE (any_res (\<lambda>x. mode_eqv t x vmm) (m_modes p)) (\<lambda>b.
         Inr ((b, t))))
     else (
         bindE (mode_eqv t m vmm) (\<lambda>b.
         Inr ((b, t))))))"

definition ops_mode_is_union :: "a68_tables \<Rightarrow> nat \<Rightarrow> bool res" where
  "ops_mode_is_union t m =
     bindE (rm t m) (\<lambda>p.
     Inr (m_k p = M_UNION))"


end
