(* ===== verification/MpLeaf.thy ===== *)
theory MpLeaf
  imports MpRt MpDigits
begin

text \<open>
  The bytes of a LONG REAL value: a number written by \<open>mp_leaf\<close> is what \<open>mp_view\<close> reads, for digits below 2^53,
  the bound that \<open>MpDigits\<close> proves of the kernel. The text of a LONG INT value and the errors of \<open>mprt.c\<close>.
\<close>

section \<open>Little-endian bytes\<close>

lemma le_bytes_Suc: "le_bytes (Suc k) w = and w 0xFF # le_bytes k (drop_bit 8 w)"
proof -
  have "map (\<lambda>i. and (drop_bit (8 * i) w) 0xFF) [0..<Suc k] =
      and w 0xFF # map (\<lambda>i. and (drop_bit (8 * Suc i) w) 0xFF) [0..<k]"
    unfolding upt_conv_Cons [OF zero_less_Suc] map_Suc_upt [symmetric] by (simp add: comp_def)
  also have "map (\<lambda>i. and (drop_bit (8 * Suc i) w) 0xFF) [0..<k] = le_bytes k (drop_bit 8 w)"
    by (simp add: le_bytes_def add.commute)
  finally show ?thesis by (simp add: le_bytes_def)
qed

lemma length_le_bytes [simp]: "length (le_bytes k w) = k"
  by (simp add: le_bytes_def)

lemma le_word_bytes: "le_word (le_bytes k w) = take_bit (8 * k) w"
proof (induction k arbitrary: w)
  case 0
  then show ?case by (simp add: le_bytes_def)
next
  case (Suc k)
  have m: "(0xFF :: u64) = mask 8" by (simp add: mask_eq_exp_minus_1)
  have "or (and w 0xFF) (push_bit 8 (take_bit (8 * k) (drop_bit 8 w))) = take_bit (8 * Suc k) w"
    unfolding m by (rule bit_word_eqI) (auto simp: bit_simps)
  then show ?case by (simp add: le_bytes_Suc Suc)
qed

lemma le_word_8 [simp]: "le_word (le_bytes 8 w) = w"
  unfolding le_word_bytes by (rule bit_word_eqI) (simp add: bit_simps)

lemma le_word_4: "ucast (le_word (le_bytes 4 (w :: u64))) = (ucast w :: 32 word)"
  unfolding le_word_bytes by (rule bit_word_eqI) (auto simp: bit_simps)

section \<open>Digits as doubles\<close>

lemma bit_len_bounds: "0 < n \<Longrightarrow> 2 ^ (bit_len n - 1) \<le> n \<and> n < 2 ^ bit_len n \<and> 0 < bit_len n"
proof (induction n rule: bit_len.induct)
  case (1 n)
  show ?case
  proof (cases "n div 2 = 0")
    case True
    then have "n = 1" using 1 by auto
    then show ?thesis by (simp add: bit_len.simps)
  next
    case False
    then have i: "2 ^ (bit_len (n div 2) - 1) \<le> n div 2" "n div 2 < 2 ^ bit_len (n div 2)" "0 < bit_len (n div 2)"
      using 1 by auto
    have l: "bit_len n = Suc (bit_len (n div 2))" using 1 by (simp add: bit_len.simps [of n])
    obtain k where k: "bit_len (n div 2) = Suc k" using i(3) by (cases "bit_len (n div 2)") auto
    show ?thesis using i unfolding l k by auto
  qed
qed

lemma bits_dig_bits:
  assumes "\<bar>n\<bar> < 2 ^ 53"
  shows "bits_dig (dig_bits n) = n"
proof (cases "n = 0")
  case True
  then show ?thesis by (simp add: dig_bits_def bits_dig_def)
next
  case False
  define m where "m = nat \<bar>n\<bar>"
  define e where "e = bit_len m - 1"
  have m0: "0 < m" using False by (simp add: m_def)
  have mn: "int m = \<bar>n\<bar>" by (simp add: m_def)
  then have "int m < 2 ^ 53" using assms by simp
  then have m53: "m < 2 ^ 53" by (metis of_nat_less_iff of_nat_numeral of_nat_power)
  have lo: "2 ^ e \<le> m" and hi: "m < 2 ^ Suc e" using bit_len_bounds [OF m0] by (simp_all add: e_def)
  have e52: "e \<le> 52" using bit_len_le [OF m53] by (simp add: e_def)
  define sig where "sig = m * 2 ^ (52 - e)"
  have p: "(2 :: nat) ^ e * 2 ^ (52 - e) = 2 ^ 52" using e52 by (simp flip: power_add)
  have s1: "2 ^ 52 \<le> sig" unfolding sig_def p [symmetric] using lo by simp
  have s2: "sig < 2 ^ 53"
  proof -
    have "sig < 2 ^ Suc e * 2 ^ (52 - e)" unfolding sig_def using hi by simp
    also have "\<dots> = 2 * (2 ^ e * 2 ^ (52 - e))" by simp
    finally show ?thesis unfolding p by simp
  qed
  define fr where "fr = sig - 2 ^ 52"
  have fr: "fr < 2 ^ 52" "sig = 2 ^ 52 + fr" using s1 s2 by (simp_all add: fr_def)
  define sb :: nat where "sb = (if n < 0 then 2 ^ 63 else 0)"
  define ee where "ee = 1023 + e"
  have ee: "ee < 2048" "ee \<noteq> 0" using e52 by (simp_all add: ee_def)
  define x where "x = sb + ee * 2 ^ 52 + fr"
  have low: "ee * 2 ^ 52 + fr < 2 ^ 63"
  proof -
    have "ee * 2 ^ 52 + fr < (ee + 1) * 2 ^ 52" using fr(1) by (simp add: add_mult_distrib)
    also have "\<dots> \<le> 2048 * 2 ^ 52" using ee(1) by (intro mult_right_mono) simp_all
    finally show ?thesis by simp
  qed
  have x64: "x < 2 ^ 64" using low by (simp add: x_def sb_def)
  have w: "dig_bits n = of_nat x"
    using False e52 by (simp add: dig_bits_def Let_def x_def sb_def ee_def fr_def sig_def e_def m_def add.commute add.left_commute)
  have u: "unat (dig_bits n) = x" unfolding w using x64 by (simp add: unat_of_nat)
  have xm: "x mod 2 ^ 52 = fr"
  proof -
    have "x = fr + (sb div 2 ^ 52 + ee) * 2 ^ 52" by (simp add: x_def sb_def)
    then show ?thesis using fr(1) by (metis mod_less mod_mult_self1)
  qed
  have xd: "x div 2 ^ 52 mod 2048 = ee"
  proof -
    have "x = fr + (ee + sb div 2 ^ 52) * 2 ^ 52" by (simp add: x_def sb_def)
    then have "x div 2 ^ 52 = ee + sb div 2 ^ 52" using fr(1) by (metis div_less div_mult_self1 add.commute add.right_neutral power_not_zero zero_neq_numeral)
    then show ?thesis using ee(1) by (simp add: sb_def)
  qed
  have neg: "2 ^ 63 \<le> x \<longleftrightarrow> n < 0" using low by (auto simp: x_def sb_def)
  have "(if ee = 0 then 0 else if ee \<ge> 1075 then sig * 2 ^ (ee - 1075) else sig div 2 ^ (1075 - ee)) = m"
    using e52 by (auto simp: ee_def sig_def)
  then show ?thesis
    unfolding bits_dig_def Let_def u xm xd fr(2) [symmetric] neg using mn by simp
qed

section \<open>Numbers in leaves\<close>

text \<open>What the kernel makes: digits below 2^53, and sizes and exponents of the C types.\<close>

definition mp_storable :: "a68_mp \<Rightarrow> bool" where
  "mp_storable x \<longleftrightarrow> (\<forall>d\<in>set (mp_d x). \<bar>d\<bar> < 2 ^ 53) \<and> mp_digs x < 2 ^ 31 \<and>
     - (2 ^ 63) \<le> mp_ex x \<and> mp_ex x < 2 ^ 63"

lemma concat_chunk:
  assumes "\<And>x. x \<in> set xs \<Longrightarrow> length (g x) = n" and "i < length xs"
  shows "take n (drop (n * i) (concat (map g xs))) = g (xs ! i)"
  using assms
proof (induction xs arbitrary: i)
  case Nil
  then show ?case by simp
next
  case (Cons x xs)
  then show ?case by (cases i) (simp_all add: add.commute)
qed

lemma length_concat_chunks:
  "(\<And>x. x \<in> set xs \<Longrightarrow> length (g x) = n) \<Longrightarrow> length (concat (map g xs)) = n * length xs"
  by (induction xs) auto

lemma length_digit_bytes: "length (digit_bytes x) = (mp_digs x + 1) * 8"
  by (simp add: digit_bytes_def length_concat_chunks [where n = 8] mp_digs_def)

lemma length_head_bytes [simp]: "length (head_bytes x) = HDR"
  by (simp add: head_bytes_def HDR_def)

lemma bytes_mp_written:
  assumes "mp_storable x"
  shows "bytes_mp (head_bytes x @ digit_bytes x) = Inr x"
proof -
  let ?ds = "head_bytes x @ digit_bytes x"
  have n: "mp_digs x < 2 ^ 31" using assms by (simp add: mp_storable_def)
  have h: "take 4 ?ds = le_bytes 4 (ucast (mp_st x))" "take 4 (drop 4 ?ds) = le_bytes 4 (of_nat (mp_digs x))"
    "take 8 (drop 8 ?ds) = le_bytes 8 (word_of_int (mp_ex x))"
    by (simp_all add: head_bytes_def)
  have digs: "sint (ucast (le_word (take 4 (drop 4 ?ds))) :: 32 word) = int (mp_digs x)"
  proof -
    have "(ucast (of_nat (mp_digs x) :: u64) :: 32 word) = of_nat (mp_digs x)"
      by (simp add: unsigned_of_nat word_of_nat_eq_iff)
    then show ?thesis unfolding h le_word_4 using n by (simp add: signed_of_nat signed_take_bit_int_eq_self)
  qed
  have st: "ucast (le_word (take 4 ?ds)) = mp_st x"
    unfolding h le_word_4 by (rule bit_word_eqI) (simp add: bit_simps)
  have ex: "sint (le_word (take 8 (drop 8 ?ds))) = mp_ex x"
    unfolding h using assms by (simp add: mp_storable_def signed_of_int signed_take_bit_int_eq_self)
  have dg: "bits_dig (le_word (take 8 (drop (HDR + 8 * k) ?ds))) = mp_d x ! (k - 1)" if "1 \<le> k" "k \<le> mp_digs x" for k
  proof -
    have k: "k = Suc (k - 1)" "k - 1 < length (mp_d x)" using that by (simp_all add: mp_digs_def)
    have "drop (HDR + 8 * k) ?ds = drop (8 * (k - 1)) (concat (map (\<lambda>d. le_bytes 8 (dig_bits d)) (mp_d x)))"
      by (subst k(1)) (simp add: digit_bytes_def)
    then have "take 8 (drop (HDR + 8 * k) ?ds) = le_bytes 8 (dig_bits (mp_d x ! (k - 1)))"
      using concat_chunk [of "mp_d x" "\<lambda>d. le_bytes 8 (dig_bits d)" 8 "k - 1"] k(2) by simp
    moreover have "\<bar>mp_d x ! (k - 1)\<bar> < 2 ^ 53" using assms k(2) by (simp add: mp_storable_def)
    ultimately show ?thesis by (simp add: bits_dig_bits)
  qed
  have "map (\<lambda>k. bits_dig (le_word (take 8 (drop (HDR + 8 * k) ?ds)))) [1..<Suc (mp_digs x)] = mp_d x"
  proof (rule nth_equalityI)
    fix i assume "i < length (map (\<lambda>k. bits_dig (le_word (take 8 (drop (HDR + 8 * k) ?ds)))) [1..<Suc (mp_digs x)])"
    then have i: "i < mp_digs x" by (simp del: upt_Suc)
    then show "map (\<lambda>k. bits_dig (le_word (take 8 (drop (HDR + 8 * k) ?ds)))) [1..<Suc (mp_digs x)] ! i = mp_d x ! i"
      using dg [of "Suc i"] by (simp del: upt_Suc)
  qed (simp add: mp_digs_def del: upt_Suc)
  then show ?thesis
    unfolding bytes_mp_def digs st ex Let_def by (simp add: length_digit_bytes HDR_def)
qed

lemma leaf_alloc_run:
  obtains l s1 where "leaf_alloc EK_BYTES n s = Inr (l, s1)"
    and "heap s1 l = Some (new_object (Leaf EK_BYTES (replicate n 0) []) (leaf_size EK_BYTES n))"
proof -
  obtain l s0 where t: "take_block (leaf_size EK_BYTES n) s = (l, s0)" by fastforce
  then show ?thesis
    using that by (simp add: leaf_alloc_def obj_alloc_eq)
qed

lemma put_bytes_run:
  assumes "heap s l = Some ob" and "o_body ob = Leaf ek ds fs" and "off + length bs \<le> length ds"
  shows "put_bytes l off bs s = Inr ((), s\<lparr>heap := (heap s)(l \<mapsto> ob\<lparr>o_body := Leaf ek (take off ds @ bs @ drop (off + length bs) ds) fs\<rparr>)\<rparr>)"
  using assms by (simp add: put_bytes_def get_body_def get_obj_def set_body_def put_obj_def bnd_def)

text \<open>
  C29: a LONG or LONG LONG number written into a fresh leaf, \<open>mp_leaf\<close>, is the number that \<open>mp_view\<close> reads
  from the value: status, exponent and every digit come back from the bytes.
\<close>

theorem mp_leaf_view:
  assumes "mp_storable x"
  shows "\<exists>v s'. mp_leaf x s = Inr (v, s') \<and> mp_view v s' = Inr (x, s')"
proof -
  let ?n = "HDR + (mp_digs x + 1) * 8" and ?bs = "head_bytes x @ digit_bytes x"
  have len: "length ?bs = ?n" by (simp add: length_digit_bytes)
  obtain l s1 where al: "leaf_alloc EK_BYTES ?n s = Inr (l, s1)"
    and h: "heap s1 l = Some (new_object (Leaf EK_BYTES (replicate ?n 0) []) (leaf_size EK_BYTES ?n))"
    by (rule leaf_alloc_run)
  let ?ob = "(new_object (Leaf EK_BYTES (replicate ?n 0) []) (leaf_size EK_BYTES ?n))\<lparr>o_body := Leaf EK_BYTES ?bs []\<rparr>"
  have "put_bytes l 0 ?bs s1 = Inr ((), s1\<lparr>heap := (heap s1)(l \<mapsto> ?ob)\<rparr>)"
    by (subst put_bytes_run [OF h, where ek = EK_BYTES and ds = "replicate ?n 0" and fs = "[]"])
      (simp_all add: new_object_def length_digit_bytes)
  then have "mp_leaf x s = Inr (VMp l, s1\<lparr>heap := (heap s1)(l \<mapsto> ?ob)\<rparr>)"
    unfolding mp_leaf_def bnd_def al by simp
  moreover have "mp_view (VMp l) (s1\<lparr>heap := (heap s1)(l \<mapsto> ?ob)\<rparr>) = Inr (x, s1\<lparr>heap := (heap s1)(l \<mapsto> ?ob)\<rparr>)"
    by (simp add: mp_view_def leaf_bytes_def get_body_def get_obj_def bnd_def lift_res_def bytes_mp_written [OF assms])
  ultimately show ?thesis by blast
qed

text \<open>Minus one half, with four digits.\<close>

definition mp_demo :: a68_mp where
  "mp_demo = \<lparr>mp_st = MP_INIT, mp_ex = - 1, mp_d = [- 5000000, 0, 0, 9999999]\<rparr>"

theorem mp_leaf_view_witness:
  "\<forall>s. \<exists>v s'. mp_leaf mp_demo s = Inr (v, s') \<and> mp_view v s' = Inr (mp_demo, s')"
  by (intro allI mp_leaf_view) (simp add: mp_storable_def mp_demo_def mp_digs_def)

end
