(* ===== verification/OpsProps.thy ===== *)
theory OpsProps
  imports OpsEntry MpLeaf
begin

text \<open>
  What the general operator path computes on LONG INT values: a value is a machine word or a leaf of decimal digits,
  and an operator works on the integers they stand for, exactly or with an error. Also the one place where a
  LONG BITS value of 64 bits becomes a wrong integer.
\<close>

section \<open>Integers as values\<close>

definition is_long :: "rt_state \<Rightarrow> a68_val \<Rightarrow> int \<Rightarrow> bool" where
  "is_long s v i \<longleftrightarrow> (\<exists>x. big_of v s = Inr (x, s) \<and> big_val x = i)"

lemma leaf_bytes_eq: "leaf_bytes l s = Inr (ds, s') \<Longrightarrow> s' = s"
  by (auto simp: leaf_bytes_def get_body_def get_obj_def bnd_def split: option.splits sum.splits obj_body.splits)

lemma big_of_wf: "big_of v s = Inr (x, s') \<Longrightarrow> big_wf x \<and> s' = s"
  by (auto simp: big_of_def die_def bnd_def dest: leaf_bytes_eq split: a68_val.splits sum.splits)

lemma big_from_to_i64: "big_wf b \<Longrightarrow> big_fits_i64 b \<Longrightarrow> big_from_i64 (big_to_i64 b) = b"
  by (rule big_val_inj) (simp_all add: big_from_i64_val big_to_i64_val)

lemma chars_round: "chars_of_bytes (map (\<lambda>c. of_nat (of_char c)) s) = s"
proof -
  have "char_of (unat (of_nat (of_char c :: nat) :: u64)) = c" for c
  proof -
    have "of_char c < (256 :: nat)" by simp
    then have "of_char c < (18446744073709551616 :: nat)" by linarith
    then have "unat (of_nat (of_char c :: nat) :: u64) = of_char c" by (simp add: unat_of_nat)
    then show ?thesis by simp
  qed
  then show ?thesis by (simp add: chars_of_bytes_def comp_def)
qed

text \<open>The text of a number in a fresh leaf.\<close>

lemma text_leaf_reads:
  obtains l s' where "text_leaf u s = Inr (l, s')" and "\<exists>ds. leaf_bytes l s' = Inr (ds, s') \<and> chars_of_bytes ds = u"
proof -
  let ?bs = "map (\<lambda>c. of_nat (of_char c)) u :: u64 list" and ?n = "length u"
  obtain l s1 where al: "leaf_alloc EK_BYTES ?n s = Inr (l, s1)"
    and h: "heap s1 l = Some (new_object (Leaf EK_BYTES (replicate ?n 0) []) (leaf_size EK_BYTES ?n))"
    by (rule leaf_alloc_run)
  let ?ob = "(new_object (Leaf EK_BYTES (replicate ?n 0) []) (leaf_size EK_BYTES ?n))\<lparr>o_body := Leaf EK_BYTES ?bs []\<rparr>"
  let ?s' = "s1\<lparr>heap := (heap s1)(l \<mapsto> ?ob)\<rparr>"
  have "put_bytes l 0 ?bs s1 = Inr ((), ?s')"
    by (subst put_bytes_run [OF h, where ek = EK_BYTES and ds = "replicate ?n 0" and fs = "[]"])
      (simp_all add: new_object_def)
  then have "text_leaf u s = Inr (l, ?s')"
    unfolding text_leaf_def bnd_def al by simp
  moreover have "leaf_bytes l ?s' = Inr (?bs, ?s')"
    by (simp add: leaf_bytes_def get_body_def get_obj_def bnd_def)
  ultimately show ?thesis using that chars_round [of u] by blast
qed

lemma val_of_big_reads:
  assumes "big_wf b"
  obtains v s' where "val_of_big b s = Inr (v, s')" and "big_of v s' = Inr (b, s')"
proof (cases "big_fits_i64 b")
  case True
  then show ?thesis using that assms by (simp add: val_of_big_def big_of_def big_from_to_i64)
next
  case False
  obtain l s' ds where t: "text_leaf (big_to_dec b) s = Inr (l, s')"
    and ds: "leaf_bytes l s' = Inr (ds, s')" "chars_of_bytes ds = big_to_dec b"
    using text_leaf_reads by metis
  have "val_of_big b s = Inr (VBigint l, s')" using False t by (simp add: val_of_big_def bnd_def)
  moreover have "big_of (VBigint l) s' = Inr (b, s')"
    using ds assms by (simp add: big_of_def bnd_def big_from_to_dec)
  ultimately show ?thesis by (rule that)
qed

section \<open>The operators\<close>

definition long_max :: "nat \<Rightarrow> int \<Rightarrow> int" where
  "long_max ll n = (if n \<le> 0 then 2147483647 else 10 ^ (if n = 1 then 49 else ll * 7) - 1)"

text \<open>The integer an operator is to compute, or its error.\<close>

definition long_op_spec :: "a68_tables \<Rightarrow> nat \<Rightarrow> string \<Rightarrow> int \<Rightarrow> int \<Rightarrow> int \<Rightarrow> int res" where
  "long_op_spec t ll op n i j =
     (if op = ''%'' then (if j = 0 then die_m t [] M_INT n '' division by zero'' else Inr (c_quot i j))
      else if op = ''%*'' then (if j = 0 then die_m t [] M_INT n '' value is not a number'' else Inr (i mod \<bar>j\<bar>))
      else (let r = (if op = ''+'' then i + j else if op = ''-'' then i - j else i * j)
        in if \<bar>r\<bar> > long_max ll n then die_m t [] M_INT n '' value out of bounds'' else Inr r))"

lemma max_int_of_val: "big_wf (max_int_of ll n)" "big_val (max_int_of ll n) = long_max ll n"
proof -
  have e: "nat (int ll * 7) = ll * 7" by linarith
  show "big_wf (max_int_of ll n)" by (simp add: max_int_of_def)
  show "big_val (max_int_of ll n) = long_max ll n"
    by (simp add: max_int_of_def long_max_def big_from_i64_val big_sub_val big_pow10_val A68_MAXINT_def e)
qed

lemma over_limit_iff: "big_wf r \<Longrightarrow> over_limit ll r n \<longleftrightarrow> \<bar>big_val r\<bar> > long_max ll n"
  by (simp add: over_limit_def big_cmp_val max_int_of_val big_abs_val sgn_if)

lemma die_m_Inl: "\<exists>e. die_m t pre k n post = Inl e"
  by (cases "simple_name t k n") (simp_all add: die_m_def)

lemma c_quot_eq:
  assumes "i = q * j + r" and "\<bar>q\<bar> = \<bar>i\<bar> div \<bar>j\<bar>" and "\<bar>r\<bar> = \<bar>i\<bar> mod \<bar>j\<bar>" and "r = 0 \<or> sgn r = sgn i" and "j \<noteq> 0"
  shows "q = c_quot i j"
proof -
  have r: "r = sgn i * (\<bar>i\<bar> mod \<bar>j\<bar>)"
  proof (cases "r = 0")
    case False
    then have e: "sgn i = sgn r" using assms(4) by simp
    have "sgn i * \<bar>r\<bar> = r" unfolding e by (rule sgn_mult_abs)
    then show ?thesis by (simp add: assms(3))
  qed (use assms(3) in simp)
  have sj: "sgn j * j = \<bar>j\<bar>" by (simp add: abs_sgn mult.commute)
  have "c_quot i j * j = sgn i * (\<bar>i\<bar> div \<bar>j\<bar> * (sgn j * j))" unfolding c_quot_def by (simp only: mult_ac)
  also have "\<dots> = sgn i * (\<bar>i\<bar> - \<bar>i\<bar> mod \<bar>j\<bar>)" unfolding sj by (simp only: minus_mod_eq_div_mult)
  also have "\<dots> = i - r" unfolding r by (simp only: right_diff_distrib sgn_mult_abs)
  also have "\<dots> = q * j" using assms(1) by simp
  finally show ?thesis using assms(5) by simp
qed

lemma rem_nonneg_val:
  assumes "big_wf x" and "big_wf y" and "big_val y \<noteq> 0"
  shows "\<exists>r. rem_nonneg x y = Inr r \<and> big_wf r \<and> big_val r = big_val x mod \<bar>big_val y\<bar>"
proof -
  have ay: "big_wf (big_abs y)" "big_val (big_abs y) = \<bar>big_val y\<bar>" using assms by (simp_all add: big_abs_val)
  obtain q r where d: "big_divmod x (big_abs y) = Some (q, r)" using assms ay bi.quot_total [of x "big_abs y"] by auto
  have s: "big_wf r" "big_val x = big_val q * \<bar>big_val y\<bar> + big_val r" "\<bar>big_val r\<bar> < \<bar>big_val y\<bar>"
    using bi.quot_spec [OF assms(1) ay(1) d] ay(2) by simp_all
  have m: "big_val x mod \<bar>big_val y\<bar> = big_val r mod \<bar>big_val y\<bar>" by (simp add: s(2))
  show ?thesis
  proof (cases "big_val r < 0")
    case True
    then have "(big_val r + \<bar>big_val y\<bar>) mod \<bar>big_val y\<bar> = big_val r + \<bar>big_val y\<bar>"
      using s(3) by (intro mod_pos_pos_trivial) simp_all
    then show ?thesis using True d s(1) ay by (simp add: rem_nonneg_def Let_def big_sign_val big_add_val m)
  next
    case False
    then show ?thesis using d s by (simp add: rem_nonneg_def Let_def big_sign_val m)
  qed
qed

lemma long_int_num_spec:
  assumes x: "big_wf x" and y: "big_wf y"
  shows "case long_op_spec t ll op n (big_val x) (big_val y) of
      Inl e \<Rightarrow> long_int_num t ll op n x y = Inl e
    | Inr i \<Rightarrow> \<exists>r. long_int_num t ll op n x y = Inr r \<and> big_wf r \<and> big_val r = i"
proof (cases "op = ''%'' \<or> op = ''%*''")
  case True
  show ?thesis
  proof (cases "big_val y = 0")
    case True
    obtain e e' where "die_m t [] M_INT n '' division by zero'' = (Inl e :: int res)"
      "die_m t [] M_INT n '' value is not a number'' = (Inl e' :: int res)" using die_m_Inl by blast
    then show ?thesis using \<open>op = ''%'' \<or> op = ''%*''\<close> True y
      by (auto simp: long_op_spec_def long_int_num_def big_is_zero_val die_m_def bindE_def split: sum.splits)
  next
    case nz: False
    obtain q r where d: "big_divmod x y = Some (q, r)" using bi.quot_total [OF x y nz] by auto
    have t: "big_wf q" "big_val x = big_val q * big_val y + big_val r" "\<bar>big_val q\<bar> = \<bar>big_val x\<bar> div \<bar>big_val y\<bar>"
      "\<bar>big_val r\<bar> = \<bar>big_val x\<bar> mod \<bar>big_val y\<bar>" "big_val r = 0 \<or> sgn (big_val r) = sgn (big_val x)"
      using big_divmod_truncates [OF x y] nz d by auto
    have "big_val q = c_quot (big_val x) (big_val y)" by (rule c_quot_eq [OF t(2-5) nz])
    then show ?thesis using \<open>op = ''%'' \<or> op = ''%*''\<close> nz y d t(1) rem_nonneg_val [OF x y nz]
      by (auto simp: long_op_spec_def long_int_num_def big_is_zero_val)
  qed
next
  case False
  define r where "r = (if op = ''+'' then big_add x y else if op = ''-'' then big_sub x y else big_mul x y)"
  have r: "big_wf r" "big_val r = (if op = ''+'' then big_val x + big_val y else if op = ''-'' then big_val x - big_val y
      else big_val x * big_val y)"
    using x y by (simp_all add: r_def big_add_val big_sub_val big_mul_val)
  have "long_int_num t ll op n x y = (if over_limit ll r n then die_m t [] M_INT n '' value out of bounds'' else Inr r)"
    using False by (simp add: long_int_num_def r_def Let_def)
  moreover have "long_op_spec t ll op n (big_val x) (big_val y) = (if over_limit ll r n
      then die_m t [] M_INT n '' value out of bounds'' else Inr (big_val r))"
    using False by (simp add: long_op_spec_def over_limit_iff [OF r(1)] r(2) Let_def)
  ultimately show ?thesis using r(1)
    by (auto simp: die_m_def bindE_def split: sum.splits)
qed

text \<open>
  C30: an arithmetic operator on LONG INT values computes the integer operation exactly, whatever the values'
  representation: the sum, difference, product, truncated quotient or non-negative remainder, as a value that
  stands for that integer, or the error for a zero divisor or a result beyond the largest LONG INT.
\<close>

theorem long_int_dyadic_exact:
  assumes "is_long s a i" and "is_long s b j" and "op \<in> {''+'', ''-'', ''*'', ''%'', ''%*''}"
  shows "case long_op_spec t ll op n i j of
      Inl e \<Rightarrow> long_int_dyadic t ll op n a b s = Inl e
    | Inr r \<Rightarrow> \<exists>v s'. long_int_dyadic t ll op n a b s = Inr (v, s') \<and> is_long s' v r"
proof -
  obtain x y where x: "big_of a s = Inr (x, s)" "big_val x = i" and y: "big_of b s = Inr (y, s)" "big_val y = j"
    using assms(1,2) by (auto simp: is_long_def)
  have wf: "big_wf x" "big_wf y" using big_of_wf x(1) y(1) by blast+
  have run: "long_int_dyadic t ll op n a b s = bnd (lift_res (long_int_num t ll op n x y)) val_of_big s"
    using assms(3) by (auto simp: long_int_dyadic_def bnd_def x(1) y(1))
  have spec: "case long_op_spec t ll op n i j of Inl e \<Rightarrow> long_int_num t ll op n x y = Inl e
    | Inr i \<Rightarrow> \<exists>r. long_int_num t ll op n x y = Inr r \<and> big_wf r \<and> big_val r = i"
    using long_int_num_spec [OF wf] x(2) y(2) by simp
  show ?thesis
  proof (cases "long_op_spec t ll op n i j")
    case (Inl e)
    then show ?thesis using spec by (simp add: run bnd_def lift_res_def)
  next
    case (Inr k)
    then obtain r where r: "long_int_num t ll op n x y = Inr r" "big_wf r" "big_val r = k" using spec by auto
    obtain v s' where "val_of_big r s = Inr (v, s')" "big_of v s' = Inr (r, s')" by (rule val_of_big_reads [OF r(2)])
    then show ?thesis using Inr r by (auto simp: run bnd_def lift_res_def is_long_def)
  qed
qed

text \<open>The product of two machine words, beyond 64 bits.\<close>

theorem long_int_dyadic_exact_witness:
  "\<forall>s. \<exists>v s'. long_int_dyadic tables0 9 ''*'' 1 (VInt 5000000000) (VInt (- 5000000000)) s = Inr (v, s') \<and>
     is_long s' v (- 25000000000000000000)"
proof
  fix s :: rt_state
  have "is_long s (VInt 5000000000) 5000000000" "is_long s (VInt (- 5000000000)) (- 5000000000)"
    by (simp_all add: is_long_def big_of_def big_from_i64_val)
  from long_int_dyadic_exact [OF this, of "''*''" tables0 9 1] show "\<exists>v s'. long_int_dyadic tables0 9 ''*'' 1 (VInt 5000000000) (VInt (- 5000000000)) s = Inr (v, s') \<and>
     is_long s' v (- 25000000000000000000)"
    by (simp add: long_op_spec_def long_max_def)
qed

section \<open>At the ends of 64 bits\<close>

lemma liftS_ret: "m s = Inr (x, s') \<Longrightarrow> liftS m (d, s) = Some (Inr (x, (d, s')))"
  by (simp add: liftS_def lf_def okO_def)

text \<open>
  The integer of a LONG BITS value, ABS, is negative when bit 63 is set and no higher one: the value is kept as a
  64-bit word and its bits are taken for an \<open>int64_t\<close>.
\<close>

theorem long_bits_abs_negative:
  assumes "mode_resolve t m = Inr i" and "m_k (mode_at t i) = M_BITS" and "1 \<le> m_len (mode_at t i)" and "2 ^ 63 \<le> uint b"
  shows "ops_monadic f t ll ''ABS'' m (VBits b) c = Some (Inr (VInt b, c)) \<and> sint b < 0"
proof
  obtain d s where c: "c = (d, s)" by (cases c)
  have n: "\<not> m_len (mode_at t i) \<le> 0" using assms(3) by simp
  have "mon_bits f t ll ''ABS'' m (m_len (mode_at t i)) (VBits b) s = Inr (VInt b, s)"
    using n by (simp add: mon_bits_def as_bits_def)
  then show "ops_monadic f t ll ''ABS'' m (VBits b) c = Some (Inr (VInt b, c))"
    using assms(1,2) by (simp add: ops_monadic_def c liftS_ret Let_def)
  have "bit b 63"
  proof (rule ccontr)
    assume nb: "\<not> bit b 63"
    have "b = take_bit 63 b"
    proof (rule bit_word_eqI)
      fix n :: nat assume "n < LENGTH(64)"
      then show "bit b n \<longleftrightarrow> bit (take_bit 63 b) n" using nb by (cases "n = 63") (auto simp: bit_simps)
    qed
    then have "uint b < 2 ^ 63" by (metis take_bit_int_less_exp unsigned_take_bit_eq)
    then show False using assms(4) by simp
  qed
  then show "sint b < 0" by (simp add: sint_uint signed_take_bit_negative_iff bit_simps)
qed

theorem long_bits_abs_negative_witness:
  "\<forall>f ll c. ops_monadic f (tables0\<lparr>t_modes := [(mode0 M_BITS)\<lparr>m_len := 1\<rparr>]\<rparr>) ll ''ABS'' 0 (VBits 0x8000000000000000) c =
     Some (Inr (VInt 0x8000000000000000, c)) \<and> sint (0x8000000000000000 :: 64 word) < 0"
  by (intro allI long_bits_abs_negative [where i = 0])
    (simp_all add: mode_resolve_def mode_at_def mode0_def resolve_loop.simps(2) [of 31, simplified])

text \<open>The least 64-bit LONG INT cannot be negated: the code overflows.\<close>

lemma long_int_least_negated:
  assumes "mode_resolve t m = Inr i" and "m_k (mode_at t i) = M_INT"
  shows "ops_monadic f t ll ''-'' m (VInt 0x8000000000000000) (d, s) = Some (Inl UB)"
    and "ops_monadic f t ll ''ABS'' m (VInt 0x8000000000000000) (d, s) = Some (Inl UB)"
  using assms by (simp_all add: ops_monadic_def Let_def liftS_def lf_def mon_int_def expect_int_def as_int_def bnd_def
    neg_i64_def lift_res_def bindO_def)

end
