(* ===== verification/Io.thy ===== *)
theory Io
  imports OpsEntry
begin

text \<open>
  \<open>csrc/io.c\<close>, the first part: the files of a run, the output buffer, the end of a run, and how an event
  unwinds a transput call.

  Transput works on the \<open>io_world\<close>: the run-time state of \<open>rt.c\<close> with its tables and caches, the table of files,
  the buffer of standard output, and the operating system, whose state \<open>'o\<close> and calls are parameters. A
  computation ends with a value (\<open>Done\<close>) or with \<open>exit (0)\<close> (\<open>Stopped\<close>), with an error (\<open>Failed\<close>; the world then is the one at the error, whose
  output is still to be flushed by \<open>io_die\<close>), or it unwinds to the innermost handler (\<open>Raised\<close>, the \<open>longjmp\<close> of
  the code). \<open>None\<close> is a computation that does not end. Compiled code that transput calls (event routines,
  the holes of formats) is a parameter acting on the whole world. Memory of C (arenas, capacities) has no
  counterpart.
\<close>

section \<open>The world\<close>

record a68_file =
  fl_name :: "string option"
  fl_buf :: "u8 list"
  fl_pos :: nat
  fl_assoc :: a68_val
  fl_on_end :: a68_val
  fl_on_value :: a68_val
  fl_on_line :: a68_val
  fl_term :: "u8 list"
  fl_writing :: bool
  fl_reading :: bool
  fl_loaded :: bool
  fl_eof :: bool
  fl_dirty :: bool
  fl_ondisk :: bool
  fl_fd :: int
  fl_channel :: int

text \<open>
  \<open>w_pf\<close> is the formatted call in progress (\<open>pf_active\<close>, \<open>pf_start\<close>, \<open>pf_item\<close>); \<open>w_catch\<close> are the handlers, innermost
  first, each with the depths of the operand stack and of the saved environments; \<open>w_stdout\<close> and \<open>w_stderr\<close>
  are what has been written to the streams, \<open>w_out\<close> what still is in the buffer; \<open>w_taus\<close> is the state of the
  random numbers.
\<close>

record 'o io_world =
  w_cache :: mp_cache
  w_rt :: rt_state
  w_tabs :: a68_tables
  w_files :: "a68_file list"
  w_out :: "u8 list"
  w_stdout :: "u8 list"
  w_stderr :: "u8 list"
  w_cut :: bool
  w_col :: int
  w_pf :: "bool \<times> nat \<times> nat"
  w_catch :: "(nat \<times> nat) list"
  w_taus :: "u32 \<times> u32 \<times> u32 \<times> u32"
  w_ll :: nat
  w_regression :: bool
  w_args :: "string list"
  w_os :: 'o

datatype 'a outcome = Done 'a | Failed c_error | Raised nat | Stopped

type_synonym ('o, 'a) tio = "'o io_world \<Rightarrow> ('a outcome \<times> 'o io_world) option"

text \<open>Compiled code (\<open>x_call\<close> is \<open>call_value\<close> of \<open>rt.c\<close>, \<open>x_hole\<close> is \<open>a68_dispatch_hole\<close>) and the calls of the system.\<close>

record 'o io_fns = ops_fns +
  x_call :: "a68_val \<Rightarrow> nat \<Rightarrow> ('o, unit) tio"
  x_hole :: "nat \<Rightarrow> ('o, unit) tio"
  x_write_file :: "string \<Rightarrow> u8 list \<Rightarrow> 'o \<Rightarrow> bool \<times> 'o"
  x_read_fd :: "int \<Rightarrow> 'o \<Rightarrow> u8 list \<times> 'o"
  x_write_fd :: "int \<Rightarrow> u8 list \<Rightarrow> 'o \<Rightarrow> bool \<times> 'o"
  x_getline :: "'o \<Rightarrow> u8 list \<times> 'o"

section \<open>Sequencing\<close>

definition bndT :: "('o, 'a) tio \<Rightarrow> ('a \<Rightarrow> ('o, 'b) tio) \<Rightarrow> ('o, 'b) tio" where
  "bndT m k w = Option.bind (m w) (\<lambda>(r, w'). case r of
     Done x \<Rightarrow> k x w' | Failed e \<Rightarrow> Some (Failed e, w') | Raised n \<Rightarrow> Some (Raised n, w')
   | Stopped \<Rightarrow> Some (Stopped, w'))"

definition okT :: "'a \<Rightarrow> ('o, 'a) tio" where "okT x w = Some (Done x, w)"
definition failT :: "c_error \<Rightarrow> ('o, 'a) tio" where "failT e w = Some (Failed e, w)"
definition dieT :: "string \<Rightarrow> ('o, 'a) tio" where "dieT msg = failT (Die msg)"
definition askT :: "('o io_world \<Rightarrow> 'a) \<Rightarrow> ('o, 'a) tio" where "askT g w = Some (Done (g w), w)"
definition modT :: "('o io_world \<Rightarrow> 'o io_world) \<Rightarrow> ('o, unit) tio" where "modT h w = Some (Done (), h w)"
definition optT :: "'a option \<Rightarrow> ('o, 'a) tio" where
  "optT m w = (case m of None \<Rightarrow> None | Some x \<Rightarrow> Some (Done x, w))"
definition resT :: "'a res \<Rightarrow> ('o, 'a) tio" where
  "resT r w = Some (case r of Inl e \<Rightarrow> Failed e | Inr x \<Rightarrow> Done x, w)"
definition rtT :: "'a rt \<Rightarrow> ('o, 'a) tio" where
  "rtT m w = Some (case m (w_rt w) of Inl e \<Rightarrow> (Failed e, w) | Inr (x, s) \<Rightarrow> (Done x, w\<lparr>w_rt := s\<rparr>))"
definition lrtT :: "'a lrt \<Rightarrow> ('o, 'a) tio" where
  "lrtT m w = map_option (\<lambda>r. case r of Inl e \<Rightarrow> (Failed e, w)
     | Inr (x, (c, s)) \<Rightarrow> (Done x, w\<lparr>w_cache := c, w_rt := s\<rparr>)) (m (w_cache w, w_rt w))"
definition tabT :: "(a68_tables \<Rightarrow> 'a \<times> a68_tables) \<Rightarrow> ('o, 'a) tio" where
  "tabT g w = (case g (w_tabs w) of (x, t) \<Rightarrow> Some (Done x, w\<lparr>w_tabs := t\<rparr>))"
definition osT :: "('o \<Rightarrow> 'a \<times> 'o) \<Rightarrow> ('o, 'a) tio" where
  "osT g w = (case g (w_os w) of (x, z) \<Rightarrow> Some (Done x, w\<lparr>w_os := z\<rparr>))"

lemma bndT_simps [simp]:
  "bndT (okT x) k = k x"
  "bndT (failT e) k = failT e"
  "bndT (dieT s) k = dieT s"
  "bndT (resT (Inr x)) k = k x"
  "bndT (resT (Inl e)) k = failT e"
  "bndT (optT (Some x)) k = k x"
  by (rule ext, simp add: bndT_def okT_def failT_def dieT_def resT_def optT_def)+

lemma bndT_ask [simp]: "bndT (askT g) k w = k (g w) w"
  by (simp add: bndT_def askT_def)

lemma bndT_mod [simp]: "bndT (modT h) k w = k () (h w)"
  by (simp add: bndT_def modT_def)

lemma bndT_assoc: "bndT (bndT m f) g = bndT m (\<lambda>x. bndT (f x) g)"
  by (rule ext) (auto simp: bndT_def split: option.splits outcome.splits bind_splits)

lemma bndT_mono [partial_function_mono]:
  assumes "\<And>w. mono_option (\<lambda>f. B f w)" "\<And>y w. mono_option (\<lambda>f. C y f w)"
  shows "mono_option (\<lambda>f. bndT (B f) (\<lambda>y. C y f) w)"
  unfolding bndT_def
proof (rule bind_mono [OF assms(1)])
  fix r
  show "mono_option (\<lambda>f. case r of (r, w') \<Rightarrow> (case r of Done x \<Rightarrow> C x f w'
      | Failed e \<Rightarrow> Some (Failed e, w') | Raised n \<Rightarrow> Some (Raised n, w') | Stopped \<Rightarrow> Some (Stopped, w')))"
    using assms(2) by (cases r; cases "fst r") (simp_all add: option.const_mono)
qed

lemma if_app_mono [partial_function_mono]:
  "mono_option (\<lambda>f. A f w) \<Longrightarrow> mono_option (\<lambda>f. B f w) \<Longrightarrow> mono_option (\<lambda>f. (if b then A f else B f) w)"
  by (cases b) simp_all

lemma prod_app_mono [partial_function_mono]:
  assumes "\<And>a b. mono_option (\<lambda>f. A f a b w)"
  shows "mono_option (\<lambda>f. (case p of (a, b) \<Rightarrow> A f a b) w)"
  using assms by (cases p) simp

lemma let_app_mono [partial_function_mono]:
  "(\<And>x. mono_option (\<lambda>f. A f x w)) \<Longrightarrow> mono_option (\<lambda>f. (let x = a in A f x) w)"
  by (simp add: Let_def)

text \<open>A loop over a list.\<close>

primrec eachT :: "'a list \<Rightarrow> ('a \<Rightarrow> ('o, unit) tio) \<Rightarrow> ('o, unit) tio" where
  "eachT [] f = okT ()"
| "eachT (x # xs) f = bndT (f x) (\<lambda>u. eachT xs f)"

primrec collectT :: "'a list \<Rightarrow> ('a \<Rightarrow> ('o, 'b) tio) \<Rightarrow> ('o, 'b list) tio" where
  "collectT [] f = okT []"
| "collectT (x # xs) f = bndT (f x) (\<lambda>y. bndT (collectT xs f) (\<lambda>ys. okT (y # ys)))"

primrec foldT :: "('a \<Rightarrow> 's \<Rightarrow> ('o, 's) tio) \<Rightarrow> 'a list \<Rightarrow> 's \<Rightarrow> ('o, 's) tio" where
  "foldT g [] s = okT s"
| "foldT g (x # xs) s = bndT (g x s) (foldT g xs)"

text \<open>Strings of C as bytes and back.\<close>

definition bstr :: "string \<Rightarrow> u8 list" where "bstr s = map (\<lambda>c. of_nat (of_char c)) s"
definition cstr :: "u8 list \<Rightarrow> string" where "cstr bs = map (\<lambda>b. char_of (unat b)) bs"

lemma cstr_bstr [simp]: "cstr (bstr s) = s"
proof (induction s)
  case (Cons c s)
  have "(of_char c :: nat) < 256" by (rule nat_of_char_less_256)
  then have "unat (of_nat (of_char c) :: u8) = of_char c" by (simp add: unat_of_nat)
  then show ?case using Cons by (simp add: cstr_def bstr_def)
qed (simp add: cstr_def bstr_def)

lemma length_bstr [simp]: "length (bstr s) = length s" by (simp add: bstr_def)

section \<open>Modes\<close>

definition mode_name :: "nat \<Rightarrow> ('o, string) tio" where
  "mode_name m = bndT (askT w_tabs) (\<lambda>t. resT (mode_string t m))"

definition die_mode :: "string \<Rightarrow> nat \<Rightarrow> string \<Rightarrow> ('o, 'a) tio" where
  "die_mode pre m post = bndT (mode_name m) (\<lambda>ms. dieT (pre @ ms @ post))"

definition die_mode_str :: "string \<Rightarrow> nat \<Rightarrow> string \<Rightarrow> u8 list \<Rightarrow> string \<Rightarrow> ('o, 'a) tio" where
  "die_mode_str pre m mid s post = bndT (mode_name m) (\<lambda>ms. dieT (pre @ ms @ mid @ cstr s @ post))"

definition resolveT :: "nat \<Rightarrow> ('o, nat) tio" where
  "resolveT m = bndT (askT w_tabs) (\<lambda>t. resT (mode_resolve t m))"

definition modeT :: "nat \<Rightarrow> ('o, a68_mode) tio" where
  "modeT i = askT (\<lambda>w. mode_at (w_tabs w) i)"

definition mode_is_file_proc :: "a68_tables \<Rightarrow> nat \<Rightarrow> bool" where
  "mode_is_file_proc t m = (let p = mode_at t m in
     if m_k p \<noteq> M_PROC \<or> m_n p \<noteq> 1 \<or> m_k (mode_at t (m_sub p)) \<noteq> M_VOID then False
     else (let a = mode_at t (m_modes p ! 0) in m_k a = M_REF \<and> m_k (mode_at t (m_sub a)) = M_FILE))"

definition mode_is_flex_string :: "a68_tables \<Rightarrow> nat \<Rightarrow> bool" where
  "mode_is_flex_string t m \<longleftrightarrow> mode_is_string t m \<and> m_flex (mode_at t m)"

section \<open>Values\<close>

definition check_real :: "u64 \<Rightarrow> u64 res" where
  "check_real x = (if dbl_isnan x then Inl (Die ''REAL value is not a number'')
     else if dbl_isinf x then Inl (Die ''infinite REAL value'') else Inr x)"

text \<open>The pieces of a COMPL value: a structure of two fields.\<close>

definition pair_parts :: "a68_val \<Rightarrow> (a68_val \<times> a68_val) option rt" where
  "pair_parts v = (case v of
     VStruct p \<Rightarrow> bnd (get_slots p) (\<lambda>s. ret (case s of [re, im] \<Rightarrow> Some (re, im) | _ \<Rightarrow> None))
   | _ \<Rightarrow> ret None)"

definition big_of_val :: "a68_val \<Rightarrow> a68_big rt" where
  "big_of_val v = (case v of
     VInt i \<Rightarrow> ret (big_from_i64 i)
   | VBits b \<Rightarrow> ret (if unat b < 2 ^ 63 then big_from_i64 b else big_from_dec (nat_dec (unat b)))
   | VBigint l \<Rightarrow> bnd (leaf_bytes l) (\<lambda>ds. ret (big_from_dec (chars_of_bytes ds)))
   | VBigbits l \<Rightarrow> bnd (leaf_bytes l) (\<lambda>ds. ret (big_from_dec (chars_of_bytes ds)))
   | VUndef \<Rightarrow> die ''attempt to use an uninitialised INT value''
   | _ \<Rightarrow> die ''internal: INT expected'')"

text \<open>\<open>strcmp (s, t) \<le> 0\<close>.\<close>

fun strcmp_le :: "string \<Rightarrow> string \<Rightarrow> bool" where
  "strcmp_le [] t = True"
| "strcmp_le (c # s) [] = False"
| "strcmp_le (c # s) (d # t) \<longleftrightarrow> (of_char c :: nat) < of_char d \<or> c = d \<and> strcmp_le s t"

text \<open>A BITS value when it fits 64 bits, otherwise the text of the number.\<close>

definition bits_of_big :: "a68_big \<Rightarrow> a68_val rt" where
  "bits_of_big b = (let s = big_to_dec b in
     if big_ndigits b \<le> 20 \<and> big_sign b \<ge> 0 \<and> (length s < 20 \<or> strcmp_le s ''18446744073709551615'')
     then ret (VBits (of_nat (min (digits_val (takeWhile is_digit s)) (2 ^ 64 - 1))))
     else bnd (text_leaf s) (\<lambda>l. ret (VBigbits l)))"

definition of_string :: "u8 list \<Rightarrow> a68_val rt" where "of_string s = string_row s 1"

definition row_at :: "nat \<Rightarrow> int \<Rightarrow> a68_val rt" where
  "row_at p i = bnd (get_rowd p) (\<lambda>d. bnd (lift_res (row_store_index d i)) (rowd_get d))"

definition row_len :: "nat \<Rightarrow> int rt" where
  "row_len p = bnd (get_rowd p) (\<lambda>d. ret (row_count d))"

section \<open>Unwinding\<close>

text \<open>
  \<open>io_raise\<close> takes the innermost handler off the list and restores the two stacks to the depths it recorded;
  \<open>catchT\<close> is a call between \<open>io_catch_push\<close> and \<open>io_catch_pop\<close>, where control arrives.
\<close>

definition io_raise :: "nat \<Rightarrow> ('o, 'a) tio" where
  "io_raise kind w = (case w_catch w of
     [] \<Rightarrow> dieT ''internal: transput event with no handler'' w
   | (sp0, env0) # cs \<Rightarrow> bndT (modT (\<lambda>w. w\<lparr>w_catch := cs\<rparr>)) (\<lambda>u.
       bndT (rtT (modify (\<lambda>s. s\<lparr>stack := drop (length (stack s) - sp0) (stack s)\<rparr>))) (\<lambda>u.
       bndT (rtT (env_saved_truncate env0)) (\<lambda>u w. Some (Raised kind, w)))) w)"

definition io_catch_push :: "('o, unit) tio" where
  "io_catch_push = modT (\<lambda>w. w\<lparr>w_catch := (length (stack (w_rt w)), length (saved (w_rt w))) # w_catch w\<rparr>)"

definition io_catch_pop :: "('o, unit) tio" where
  "io_catch_pop = modT (\<lambda>w. w\<lparr>w_catch := tl (w_catch w)\<rparr>)"

definition catchT :: "('o, 'a) tio \<Rightarrow> ('o, 'a option) tio" where
  "catchT m = bndT io_catch_push (\<lambda>u w. Option.bind (m w) (\<lambda>(r, w'). case r of
     Done x \<Rightarrow> bndT io_catch_pop (\<lambda>u. okT (Some x)) w'
   | Failed e \<Rightarrow> Some (Failed e, w')
   | Raised n \<Rightarrow> Some (Done None, w')
   | Stopped \<Rightarrow> Some (Stopped, w')))"

definition IO_FILE_END :: nat where "IO_FILE_END = 1"
definition IO_JUMP :: nat where "IO_JUMP = 2"

definition io_check_jump :: "('o, unit) tio" where
  "io_check_jump = bndT (askT (\<lambda>w. jump_flag (w_rt w))) (\<lambda>j. if j \<noteq> 0 then io_raise IO_JUMP else okT ())"

section \<open>Files\<close>

definition file_default :: a68_file where
  "file_default = \<lparr>fl_name = None, fl_buf = [], fl_pos = 0, fl_assoc = VUndef, fl_on_end = VUndef,
     fl_on_value = VUndef, fl_on_line = VUndef, fl_term = [], fl_writing = False, fl_reading = False,
     fl_loaded = False, fl_eof = False, fl_dirty = False, fl_ondisk = False, fl_fd = - 1, fl_channel = 3\<rparr>"

text \<open>The values the file table holds are roots of the collector.\<close>

definition io_gc_roots :: "a68_file list \<Rightarrow> a68_val list" where
  "io_gc_roots fs = concat (map (\<lambda>f. [fl_assoc f, fl_on_end f, fl_on_value f, fl_on_line f]) fs)"

definition set_files :: "a68_file list \<Rightarrow> 'o io_world \<Rightarrow> 'o io_world" where
  "set_files fs w = w\<lparr>w_files := fs, w_rt := (w_rt w)\<lparr>io_roots := io_gc_roots fs\<rparr>\<rparr>"

definition file_get :: "nat \<Rightarrow> ('o, a68_file) tio" where
  "file_get fid = bndT (askT w_files) (\<lambda>fs. if fid \<ge> length fs then dieT ''file is not open'' else okT (fs ! fid))"

text \<open>A write through the pointer \<open>file_get\<close> returned.\<close>

definition file_upd :: "nat \<Rightarrow> (a68_file \<Rightarrow> a68_file) \<Rightarrow> ('o, unit) tio" where
  "file_upd fid h = bndT (file_get fid) (\<lambda>f. modT (\<lambda>w. set_files ((w_files w)[fid := h f]) w))"

definition file_push :: "a68_file \<Rightarrow> ('o, nat) tio" where
  "file_push f = bndT (askT (\<lambda>w. length (w_files w))) (\<lambda>n.
     bndT (modT (\<lambda>w. set_files (w_files w @ [f]) w)) (\<lambda>u. okT n))"

definition file_pop :: "nat \<Rightarrow> ('o, unit) tio" where
  "file_pop fid = modT (\<lambda>w. if length (w_files w) = fid + 1 then set_files (butlast (w_files w)) w else w)"

definition file_set :: "nat \<Rightarrow> a68_file \<Rightarrow> ('o, unit) tio" where
  "file_set fid f = modT (\<lambda>w. if fid < length (w_files w) then set_files ((w_files w)[fid := f]) w else w)"

definition file_new :: "a68_val \<Rightarrow> a68_file \<Rightarrow> ('o, nat) tio" where
  "file_new fv f =
     (case fv of VFile a \<Rightarrow> bndT (file_set (unat a) f) (\<lambda>u. okT (unat a)) | _ \<Rightarrow> bndT (file_push f) (\<lambda>fid. bndT (rtT (store_ref fv (VFile (of_nat fid)))) (\<lambda>u. okT fid)))"

definition file_id_of :: "a68_val \<Rightarrow> ('o, nat) tio" where
  "file_id_of f =
     bndT (rtT ((case f of VRef p aux \<Rightarrow> ref_load p aux | _ \<Rightarrow> ret f))) (\<lambda>v.
     (case v of VFile a \<Rightarrow> okT (unat a) | _ \<Rightarrow> dieT ''internal: file expected''))"

definition file_channel :: "a68_val \<Rightarrow> ('o, nat) tio" where
  "file_channel f =
     bndT (file_id_of f) (\<lambda>fid.
     bndT (file_get fid) (\<lambda>fs.
     okT (if fid \<le> 2 then fid else nat (fl_channel fs mod 2 ^ 32))))"

definition file_flush :: "('o, 'z) io_fns_scheme \<Rightarrow> nat \<Rightarrow> ('o, unit) tio" where
  "file_flush x fid =
     bndT (file_get fid) (\<lambda>f.
     if \<not> (fl_ondisk f \<and> fl_dirty f \<and> fl_writing f) then okT (())
     else (bndT ((case fl_name f of None \<Rightarrow> failT UB | Some n \<Rightarrow> okT n)) (\<lambda>n.
     bndT (osT (x_write_file x n (fl_buf f))) (\<lambda>bad.
     file_upd fid (\<lambda>f. f\<lparr>fl_dirty := False\<rparr>)))))"


section \<open>The output buffer\<close>

definition out_append :: "u8 list \<Rightarrow> ('o, unit) tio" where
  "out_append p = modT (\<lambda>w. w\<lparr>w_out := w_out w @ p\<rparr>)"

definition io_flush_out :: "('o, unit) tio" where
  "io_flush_out = modT (\<lambda>w. w\<lparr>w_stdout := w_stdout w @ w_out w, w_out := []\<rparr>)"

definition flush_final :: "('o, unit) tio" where
  "flush_final = bndT (askT (\<lambda>w. w_regression w \<and> w_out w \<noteq> [] \<and> last (w_out w) \<noteq> 10)) (\<lambda>b.
     bndT (if b then out_append [10] else okT ()) (\<lambda>u. io_flush_out))"

text \<open>\<open>exit (0)\<close>.\<close>

definition io_stop :: "('o, 'a) tio" where
  "io_stop = bndT flush_final (\<lambda>u w. Some (Stopped, w))"

text \<open>The end of a run: the files that were written go to the disk.\<close>

definition io_finish :: "('o, 'z) io_fns_scheme \<Rightarrow> ('o, unit) tio" where
  "io_finish x =
     bndT (flush_final) (\<lambda>u.
     bndT (askT w_files) (\<lambda>fs.
     eachT fs (\<lambda>f. if fl_ondisk f \<and> fl_dirty f \<and> fl_writing f then (case fl_name f of None \<Rightarrow> failT UB | Some n \<Rightarrow> bndT (osT (x_write_file x n (fl_buf f))) (\<lambda>b. okT ())) else okT ())))"


text \<open>An error drops the output of the formatted call in progress after its last line.\<close>

definition discard_unpurged :: "nat \<Rightarrow> nat \<Rightarrow> u8 list \<Rightarrow> u8 list" where
  "discard_unpurged start item_mark out = (let lm = min item_mark (length out);
       cut = foldl (\<lambda>c i. if out ! i = 10 \<or> out ! i = 12 then i + 1 else c) start [start..<lm]
     in take cut out)"

definition io_die :: "string \<Rightarrow> 'o io_world \<Rightarrow> 'o io_world" where
  "io_die msg w = (let w1 = (case w_pf w of (act, st, it) \<Rightarrow> if act then w\<lparr>w_out := discard_unpurged st it (w_out w)\<rparr> else w);
       w2 = (if w_regression w1 \<and> w_out w1 \<noteq> [] \<and> last (w_out w1) \<noteq> 10 then w1\<lparr>w_out := w_out w1 @ [10]\<rparr> else w1);
       line = nat_dec (unat (line_no (w_rt w2)))
     in w2\<lparr>w_stdout := w_stdout w2 @ w_out w2, w_out := [],
           w_stderr := w_stderr w2 @ bstr (''a68lean: runtime error: '' @ line @ '': '' @ msg @ ''.'' @ [CHR 0x0A])\<rparr>)"

section \<open>Writing to a file\<close>

definition assoc_append :: "a68_val \<Rightarrow> u8 list \<Rightarrow> ('o, unit) tio" where
  "assoc_append r s =
     bndT (rtT (ref_append_values r (map (\<lambda>b. VChar (ucast b)) s))) (\<lambda>done.
     if done then okT (())
     else (bndT (rtT (ref_load_checked r)) (\<lambda>v.
     bndT (rtT (str_of v)) (\<lambda>old.
     bndT (rtT (string_row (old @ s) 1)) (\<lambda>nv.
     rtT (store_ref r nv))))))"


definition next_col :: "u8 list \<Rightarrow> int \<Rightarrow> int" where
  "next_col s c = foldl (\<lambda>c b. if b = 10 then 0 else c + 1) c s"

text \<open>Standard output and standard error stop at a NUL until the next line or item.\<close>

definition std_out :: "nat \<Rightarrow> u8 list \<Rightarrow> ('o, unit) tio" where
  "std_out fid s = bndT (askT w_cut) (\<lambda>c. if c then okT () else
     (let z = takeWhile (\<lambda>b. b \<noteq> 0) s in
      bndT (modT (\<lambda>w. if 0 \<in> set s then w\<lparr>w_cut := True\<rparr> else w)) (\<lambda>u.
      if fid = 0 then out_append z else modT (\<lambda>w. w\<lparr>w_stderr := w_stderr w @ z\<rparr>))))"

definition file_out :: "('o, 'z) io_fns_scheme \<Rightarrow> nat \<Rightarrow> u8 list \<Rightarrow> ('o, unit) tio" where
  "file_out x fid s =
     bndT (modT (\<lambda>w. w\<lparr>w_col := next_col s (w_col w)\<rparr>)) (\<lambda>u.
     if fid = 0 \<or> fid = 2 then std_out fid s
     else (bndT (file_get fid) (\<lambda>f.
     if fl_fd f \<ge> 0 then (
         bndT (osT (x_write_fd x (fl_fd f) s)) (\<lambda>b.
         file_upd fid (\<lambda>f. f\<lparr>fl_writing := True\<rparr>)))
     else if fl_assoc f \<noteq> VUndef then (
         bndT (if \<not>  fl_writing f then (
                 bndT (rtT (of_string [])) (\<lambda>e.
                 bndT (rtT (store_ref (fl_assoc f) e)) (\<lambda>u.
                 file_upd fid (\<lambda>f. f\<lparr>fl_writing := True, fl_reading := False\<rparr>))))
             else (
                 okT (())))
           (\<lambda>u.
         assoc_append (fl_assoc f) s))
     else (
         file_upd fid (\<lambda>f. f\<lparr>fl_buf := fl_buf f @ s, fl_writing := True, fl_dirty := True, fl_loaded := True\<rparr>)))))"


definition file_out_str :: "('o, 'z) io_fns_scheme \<Rightarrow> nat \<Rightarrow> string \<Rightarrow> ('o, unit) tio" where
  "file_out_str x fid s = file_out x fid (bstr (takeWhile (\<lambda>c. c \<noteq> CHR 0x00) s))"

text \<open>A single byte. On standard output the column is not moved.\<close>

definition file_out_byte :: "('o, 'z) io_fns_scheme \<Rightarrow> nat \<Rightarrow> u8 \<Rightarrow> ('o, unit) tio" where
  "file_out_byte x fid b =
     (if fid \<noteq> 0 then file_out x fid [b]
     else (bndT (askT w_cut) (\<lambda>c.
     if c then okT (())
     else (if b = 0 then modT (\<lambda>w. w\<lparr>w_cut := True\<rparr>)
     else (out_append [b])))))"


end
