(* ===== verification/IoPrint.thy ===== *)
theory IoPrint
  imports Io
begin

text \<open>
  \<open>csrc/io.c\<close>: numbers as text and unformatted output. The recursion through nested values is bounded by
  \<open>depth_limit\<close>, beyond which the stack of C is exhausted.
\<close>

section \<open>Numbers as text\<close>

definition file_out_take :: "('o, 'z) io_fns_scheme \<Rightarrow> nat \<Rightarrow> string \<Rightarrow> ('o, unit) tio" where
  "file_out_take x fid s = file_out_str x fid s"

definition fmt_int_of :: "a68_val \<Rightarrow> int \<Rightarrow> ('o, string) tio" where
  "fmt_int_of v longness =
     bndT (askT w_ll) (\<lambda>ll.
     bndT (rtT (big_of_val v)) (\<lambda>b.
     okT (a68_fmt_print_int b longness (int ll))))"

definition io_bits_width_of :: "('o, 'z) io_fns_scheme \<Rightarrow> int \<Rightarrow> ('o, int) tio" where
  "io_bits_width_of x longness =
     bndT (askT w_ll) (\<lambda>ll.
     okT (bits_width_of x ll longness))"

definition fmt_bits_of :: "('o, 'z) io_fns_scheme \<Rightarrow> a68_val \<Rightarrow> int \<Rightarrow> ('o, string) tio" where
  "fmt_bits_of x v longness =
     bndT (rtT (big_of_val v)) (\<lambda>b.
     bndT (io_bits_width_of x longness) (\<lambda>wd.
     okT (a68_fmt_print_bits b wd)))"


definition real_width_of :: "nat \<Rightarrow> int \<Rightarrow> int" where
  "real_width_of ll longness = (if longness \<le> 0 then 15 else if longness = 1 then 42 else (int ll - 2) * 7)"

definition exp_width_of :: "int \<Rightarrow> int" where "exp_width_of longness = 3"

text \<open>The largest BITS value: \<open>2 ^ w - 1\<close>, the power in steps of at most 30 bits.\<close>

function mask_loop :: "int \<Rightarrow> a68_big \<Rightarrow> a68_big" where
  "mask_loop wd r = (if wd \<le> 0 then r else (let k = (if wd > 30 then 30 else wd)
     in mask_loop (wd - k) (big_mul_small r (push_bit (nat k) 1))))"
  by pat_completeness auto
termination by (relation "measure (\<lambda>(wd, r). nat wd)") auto

declare mask_loop.simps [simp del]

definition io_bits_mask :: "int \<Rightarrow> a68_big" where
  "io_bits_mask wd = big_sub (mask_loop wd (big_from_i64 1)) (big_from_i64 1)"

section \<open>Printing values\<close>

definition put_mp :: "('o, 'z) io_fns_scheme \<Rightarrow> nat \<Rightarrow> a68_val \<Rightarrow> int \<Rightarrow> ('o, unit) tio" where
  "put_mp x fid v n = bndT (askT w_ll) (\<lambda>ll. bndT (lrtT (mp_float_std ll v n)) (file_out_take x fid))"

definition put_real :: "('o, 'z) io_fns_scheme \<Rightarrow> nat \<Rightarrow> u64 \<Rightarrow> int \<Rightarrow> ('o, unit) tio" where
  "put_real x fid r n = bndT (askT w_ll) (\<lambda>ll. bndT (optT (a68_fmt_print_real x r n (int ll))) (file_out_take x fid))"

definition call_file_proc :: "('o, 'z) io_fns_scheme \<Rightarrow> nat \<Rightarrow> a68_val \<Rightarrow> ('o, unit) tio" where
  "call_file_proc x fid f =
     bndT (rtT ((case f of VBuiltin a \<Rightarrow> strtab_at a | _ \<Rightarrow> die ''cannot print a procedure value''))) (\<lambda>n.
     if n = ''newline'' then file_out x fid [10]
     else (if n = ''newpage'' then file_out x fid [12]
     else (if n = ''space'' then file_out x fid [32]
     else (if n = ''backspace'' then file_out x fid [8]
     else (dieT (''cannot print procedure '' @ n))))))"


text \<open>The errors at the end of \<open>print_value\<close>.\<close>

definition cannot_print :: "nat \<Rightarrow> a68_val \<Rightarrow> ('o, unit) tio" where
  "cannot_print m v = (case v of
     VUndef \<Rightarrow> die_mode ''attempt to use an uninitialised '' m '' value''
   | VNil \<Rightarrow> dieT ''cannot print NIL''
   | _ \<Rightarrow> die_mode ''cannot print a value of mode '' m [])"

definition print_compl :: "('o, 'z) io_fns_scheme \<Rightarrow> nat \<Rightarrow> int \<Rightarrow> a68_val \<times> a68_val \<Rightarrow> ('o, unit) tio \<Rightarrow> ('o, unit) tio" where
  "print_compl x fid n p other = (case p of
     (VMp a, VMp b) \<Rightarrow> bndT (put_mp x fid (VMp a) n) (\<lambda>u. put_mp x fid (VMp b) n)
   | (VReal a, VReal b) \<Rightarrow> bndT (resT (check_real a)) (\<lambda>u. bndT (resT (check_real b)) (\<lambda>u.
       bndT (put_real x fid a n) (\<lambda>u. put_real x fid b n)))
   | _ \<Rightarrow> other)"

text \<open>The elements of a row or the fields of a structure; an undefined one is an error.\<close>

definition print_part :: "(nat \<Rightarrow> a68_val \<Rightarrow> ('o, unit) tio) \<Rightarrow> nat \<Rightarrow> a68_val \<Rightarrow> ('o, unit) tio" where
  "print_part self m e = (if e = VUndef then die_mode ''attempt to use an uninitialised '' m '' value'' else self m e)"

definition print_row :: "(nat \<Rightarrow> a68_val \<Rightarrow> ('o, unit) tio) \<Rightarrow> nat \<Rightarrow> nat \<Rightarrow> ('o, unit) tio" where
  "print_row self m p = bndT (rtT (row_len p)) (\<lambda>n. eachT (upto_int n) (\<lambda>i.
     bndT (rtT (row_at p i)) (print_part self m)))"

definition print_struct :: "(nat \<Rightarrow> a68_val \<Rightarrow> ('o, unit) tio) \<Rightarrow> a68_mode \<Rightarrow> nat \<Rightarrow> ('o, unit) tio" where
  "print_struct self md p = bndT (rtT (get_slots p)) (\<lambda>s. eachT [0..<min (m_n md) (length s)] (\<lambda>i.
     bndT (rtT (slot_read (p, i))) (print_part self (m_modes md ! i))))"

definition print_bytes :: "('o, 'z) io_fns_scheme \<Rightarrow> nat \<Rightarrow> nat \<Rightarrow> ('o, unit) tio" where
  "print_bytes x fid p = bndT (rtT (row_len p)) (\<lambda>n. eachT (upto_int n) (\<lambda>i.
     bndT (rtT (row_at p i)) (\<lambda>e. bndT (rtT (as_char e)) (\<lambda>c. file_out_byte x fid (ucast c)))))"

definition print_scalar :: "('o, 'z) io_fns_scheme \<Rightarrow> nat \<Rightarrow> nat \<Rightarrow> a68_mode \<Rightarrow> nat \<Rightarrow> a68_val \<Rightarrow> ('o, unit) tio" where
  "print_scalar x fid m p mr v = (let n = m_len p in
     if m_k p = M_INT then
       (if tag_of v = 1 \<or> tag_of v = 17 then bndT (fmt_int_of v n) (file_out_take x fid)
        else case v of VReal r \<Rightarrow> put_real x fid r 0 | _ \<Rightarrow> cannot_print m v)
     else if m_k p = M_REAL then
       (case v of VMp _ \<Rightarrow> put_mp x fid v n
        | VReal r \<Rightarrow> bndT (resT (check_real r)) (\<lambda>u. put_real x fid r n)
        | VInt i \<Rightarrow> put_real x fid (f_of_i64 x i) n
        | _ \<Rightarrow> cannot_print m v)
     else if m_k p = M_COMPL then
       bndT (rtT (pair_parts v)) (\<lambda>c. case c of Some q \<Rightarrow> print_compl x fid n q (cannot_print m v) | None \<Rightarrow> cannot_print m v)
     else if m_k p = M_BOOL then
       (case v of VBool b \<Rightarrow> file_out x fid (bstr (if b then ''T'' else ''F'')) | _ \<Rightarrow> cannot_print m v)
     else if m_k p = M_CHAR then (case v of VChar c \<Rightarrow> file_out_byte x fid (ucast c) | _ \<Rightarrow> cannot_print m v)
     else if m_k p = M_BITS then
       (if tag_of v = 5 \<or> tag_of v = 18 then bndT (fmt_bits_of x v n) (file_out_take x fid) else cannot_print m v)
     else if m_k p = M_BYTES then (case v of VRow q \<Rightarrow> print_bytes x fid q | _ \<Rightarrow> cannot_print m v)
     else if m_k p = M_PROC then
       bndT (askT (\<lambda>w. mode_is_file_proc (w_tabs w) mr)) (\<lambda>b. if b then call_file_proc x fid v else cannot_print m v)
     else if m_k p = M_FORMAT then dieT ''cannot print a FORMAT value''
     else cannot_print m v)"

definition print_value_body :: "('o, 'z) io_fns_scheme \<Rightarrow> nat \<Rightarrow> (nat \<Rightarrow> a68_val \<Rightarrow> ('o, unit) tio) \<Rightarrow> nat \<Rightarrow> a68_val \<Rightarrow> ('o, unit) tio" where
  "print_value_body x fid self m v = bndT (resolveT m) (\<lambda>mr. bndT (modeT mr) (\<lambda>p. case v of
     VUnion q a \<Rightarrow> bndT (rtT (slot_read (q, 0))) (self (unat a))
   | _ \<Rightarrow> (case (m_k p, v) of
       (M_ROW, VRow q) \<Rightarrow> print_row self (m_sub p) q
     | (M_STRUCT, VStruct q) \<Rightarrow> print_struct self p q
     | _ \<Rightarrow> print_scalar x fid m p mr v)))"

primrec print_value_n :: "nat \<Rightarrow> ('o, 'z) io_fns_scheme \<Rightarrow> nat \<Rightarrow> nat \<Rightarrow> a68_val \<Rightarrow> ('o, unit) tio" where
  "print_value_n 0 x fid m v = failT (Fatal ''stack overflow'')"
| "print_value_n (Suc k) x fid m v = print_value_body x fid (print_value_n k x fid) m v"

definition print_value :: "('o, 'z) io_fns_scheme \<Rightarrow> nat \<Rightarrow> nat \<Rightarrow> a68_val \<Rightarrow> ('o, unit) tio" where
  "print_value x fid m v = bndT (askT (\<lambda>w. depth_limit (w_rt w))) (\<lambda>k. print_value_n k x fid m v)"

definition need_row :: "string \<Rightarrow> a68_val \<Rightarrow> ('o, nat) tio" where
  "need_row msg v = (case v of VRow p \<Rightarrow> okT p | _ \<Rightarrow> dieT msg)"

text \<open>The items of a transput call: united values.\<close>

definition need_union :: "string \<Rightarrow> a68_val \<Rightarrow> ('o, nat \<times> nat) tio" where
  "need_union msg v = (case v of VUnion p a \<Rightarrow> okT (p, unat a) | _ \<Rightarrow> dieT msg)"

definition print_items :: "('o, 'z) io_fns_scheme \<Rightarrow> nat \<Rightarrow> a68_val \<Rightarrow> ('o, unit) tio" where
  "print_items x fid row =
     bndT (need_row ''internal: print argument'' row) (\<lambda>p.
     bndT (rtT (row_len p)) (\<lambda>n.
     eachT (upto_int n) (\<lambda>i. bndT (rtT (row_at p i)) (\<lambda>e. bndT (need_union ''internal: print argument'' e) (\<lambda>(q, m). bndT (rtT (slot_read (q, 0))) (\<lambda>v. bndT (print_value x fid m v) (\<lambda>u. modT (\<lambda>w. w\<lparr>w_cut := False\<rparr>))))))))"


end
