(* ===== verification/IoRead.thy ===== *)
theory IoRead
  imports IoPrint
begin

text \<open>
  \<open>csrc/io.c\<close>: input. Characters come from the buffer of a file, which a pipe and standard input fill when it
  is used up. Loops that read until some character appears need not end (a pipe may never), so they are
  partial functions.
\<close>

section \<open>Characters\<close>

text \<open>A pipe (one read) and standard input (one line) are asked for more; pending output is flushed first.\<close>

definition fill_buffer :: "nat \<Rightarrow> ('o \<Rightarrow> u8 list \<times> 'o) \<Rightarrow> ('o, a68_file) tio" where
  "fill_buffer fid g = bndT (file_get fid) (\<lambda>f. if fl_pos f < length (fl_buf f) \<or> fl_eof f then okT f
     else bndT io_flush_out (\<lambda>u. bndT (osT g) (\<lambda>ch.
       bndT (file_upd fid (\<lambda>f. (if ch = [] then f\<lparr>fl_eof := True\<rparr> else f\<lparr>fl_buf := fl_buf f @ ch\<rparr>)\<lparr>fl_loaded := True, fl_reading := True\<rparr>)) (\<lambda>u.
       file_get fid))))"

definition load_file :: "('o, 'z) io_fns_scheme \<Rightarrow> nat \<Rightarrow> ('o, a68_file) tio" where
  "load_file x fid =
     bndT (file_get fid) (\<lambda>f.
     if fl_fd f \<ge> 0 then fill_buffer fid (x_read_fd x (fl_fd f))
     else (if fid = 1 then fill_buffer fid (x_getline x)
     else (if fl_loaded f then okT (f)
     else (bndT (if fl_assoc f \<noteq> VUndef then (
             bndT (rtT (ref_load_checked (fl_assoc f))) (\<lambda>v.
             bndT (rtT (str_of v)) (\<lambda>s.
             file_upd fid (\<lambda>f. f\<lparr>fl_buf := s, fl_pos := 0\<rparr>))))
         else (
             okT (())))
       (\<lambda>u.
     bndT (file_upd fid (\<lambda>f. f\<lparr>fl_loaded := True\<rparr>)) (\<lambda>u.
     file_get fid))))))"

definition read_char :: "('o, 'z) io_fns_scheme \<Rightarrow> nat \<Rightarrow> ('o, u8 option) tio" where
  "read_char x fid =
     bndT (load_file x fid) (\<lambda>f.
     if fl_pos f < length (fl_buf f) then (
         bndT (file_upd fid (\<lambda>f. f\<lparr>fl_reading := True, fl_pos := fl_pos f + 1\<rparr>)) (\<lambda>u.
         okT (Some (fl_buf f ! fl_pos f))))
     else (
         okT (None)))"

definition peek_char :: "('o, 'z) io_fns_scheme \<Rightarrow> nat \<Rightarrow> ('o, u8 option) tio" where
  "peek_char x fid =
     bndT (load_file x fid) (\<lambda>f.
     okT (if fl_pos f < length (fl_buf f) then Some (fl_buf f ! fl_pos f) else None))"

definition at_end :: "('o, 'z) io_fns_scheme \<Rightarrow> nat \<Rightarrow> ('o, bool) tio" where
  "at_end x fid =
     bndT (load_file x fid) (\<lambda>f.
     okT (fl_pos f \<ge> length (fl_buf f)))"


section \<open>Events\<close>

definition io_call_handler :: "('o, 'z) io_fns_scheme \<Rightarrow> a68_val \<Rightarrow> nat \<Rightarrow> ('o, bool) tio" where
  "io_call_handler x h fid =
     bndT (rtT (push (VFile (of_nat fid)))) (\<lambda>u.
     bndT (x_call x h 1) (\<lambda>u.
     bndT (rtT (pop)) (\<lambda>r.
     bndT (io_check_jump) (\<lambda>u.
     okT (r = VBool True)))))"

definition value_error :: "('o, 'z) io_fns_scheme \<Rightarrow> nat \<Rightarrow> string \<Rightarrow> ('o, 'a) tio" where
  "value_error x fid msg =
     bndT (file_get fid) (\<lambda>f.
     if fl_on_value f = VUndef then dieT msg
     else (bndT (io_call_handler x (fl_on_value f) fid) (\<lambda>b.
     if b then io_raise IO_FILE_END
     else (dieT msg))))"

definition value_error_mode :: "('o, 'z) io_fns_scheme \<Rightarrow> nat \<Rightarrow> nat \<Rightarrow> u8 list \<Rightarrow> ('o, 'a) tio" where
  "value_error_mode x fid tm s =
     bndT (mode_name tm) (\<lambda>ms.
     value_error x fid (''cannot read '' @ ms @ '' from '' @ [CHR 0x22] @ cstr s @ [CHR 0x22]))"

definition skip_char :: "('o, 'z) io_fns_scheme \<Rightarrow> nat \<Rightarrow> ('o, unit) tio" where
  "skip_char x fid =
     bndT (peek_char x fid) (\<lambda>c.
     if c = None then okT (())
     else (bndT (file_get fid) (\<lambda>f.
     if c = Some 10 \<and> fl_on_line f \<noteq> VUndef then (
         bndT (io_call_handler x (fl_on_line f) fid) (\<lambda>b.
         if \<not>  b then dieT ''end of line reached while reading''
         else (bndT (read_char x fid) (\<lambda>d.
         okT (())))))
     else (
         bndT (read_char x fid) (\<lambda>d.
         okT (()))))))"


text \<open>An associated file continues with the value its string has now, at the position reached.\<close>

definition refresh_assoc :: "nat \<Rightarrow> ('o, unit) tio" where
  "refresh_assoc fid =
     bndT (file_get fid) (\<lambda>f.
     if fl_assoc f = VUndef then okT (())
     else (bndT (rtT (ref_load_checked (fl_assoc f))) (\<lambda>v.
     bndT (rtT (str_of v)) (\<lambda>s.
     file_upd fid (\<lambda>f. if s \<noteq> fl_buf f then f\<lparr>fl_buf := s, fl_loaded := True\<rparr> else f)))))"

definition logical_end :: "('o, 'z) io_fns_scheme \<Rightarrow> nat \<Rightarrow> ('o, 'a) tio" where
  "logical_end x fid =
     bndT (file_get fid) (\<lambda>f.
     if fl_on_end f = VUndef then dieT ''attempt to read past logical end of file''
     else (bndT (io_call_handler x (fl_on_end f) fid) (\<lambda>b.
     if b then io_raise IO_FILE_END
     else (dieT ''logical file end''))))"


section \<open>Words, numbers and lines\<close>

definition is_space :: "u8 \<Rightarrow> bool" where
  "is_space c \<longleftrightarrow> c = 32 \<or> c = 9 \<or> c = 10 \<or> c = 13"

definition is_dig :: "u8 \<Rightarrow> bool" where "is_dig c \<longleftrightarrow> 48 \<le> c \<and> c \<le> 57"

partial_function (option) skip_while :: "('o, 'z) io_fns_scheme \<Rightarrow> nat \<Rightarrow> (u8 \<Rightarrow> bool) \<Rightarrow> ('o, unit) tio" where
  "skip_while x fid p wld =
     (bndT (peek_char x fid) (\<lambda>c.
     if c = None \<or> \<not>  p (the c) then okT (())
     else (bndT (read_char x fid) (\<lambda>d.
     skip_while x fid p)))) wld"

partial_function (option) take_while :: "('o, 'z) io_fns_scheme \<Rightarrow> nat \<Rightarrow> (u8 \<Rightarrow> bool) \<Rightarrow> u8 list \<Rightarrow> ('o, u8 list) tio" where
  "take_while x fid p acc wld =
     (bndT (peek_char x fid) (\<lambda>c.
     if c = None \<or> \<not>  p (the c) then okT (acc)
     else (bndT (read_char x fid) (\<lambda>d.
     take_while x fid p (acc @ [the c]))))) wld"

definition skip_spaces :: "('o, 'z) io_fns_scheme \<Rightarrow> nat \<Rightarrow> ('o, unit) tio" where
  "skip_spaces x fid =
     skip_while x fid is_space"

definition read_token :: "('o, 'z) io_fns_scheme \<Rightarrow> nat \<Rightarrow> ('o, u8 list) tio" where
  "read_token x fid =
     bndT (skip_spaces x fid) (\<lambda>u.
     bndT (at_end x fid) (\<lambda>e.
     if e then logical_end x fid
     else (take_while x fid (\<lambda>c. \<not>  is_space c) [])))"


text \<open>\<open>if (PEEK_IS (p)) TAKE ();\<close>\<close>

definition take_if :: "('o, 'z) io_fns_scheme \<Rightarrow> nat \<Rightarrow> (u8 \<Rightarrow> bool) \<Rightarrow> u8 list \<Rightarrow> ('o, u8 list \<times> bool) tio" where
  "take_if x fid p acc =
     bndT (peek_char x fid) (\<lambda>c.
     if c = None \<or> \<not>  p (the c) then okT ((acc, False))
     else (bndT (read_char x fid) (\<lambda>d.
     okT ((acc @ [the d], True)))))"


definition is_sign :: "u8 \<Rightarrow> bool" where "is_sign c \<longleftrightarrow> c = 43 \<or> c = 45"

definition read_exponent :: "('o, 'z) io_fns_scheme \<Rightarrow> nat \<Rightarrow> u8 list \<Rightarrow> ('o, u8 list) tio" where
  "read_exponent x fid b =
     bndT (skip_while x fid (\<lambda>c. c = 32)) (\<lambda>u.
     bndT (take_if x fid is_sign b) (\<lambda>(b, t).
     bndT (skip_while x fid (\<lambda>c. c = 32)) (\<lambda>u.
     take_while x fid is_dig b)))"

definition read_fraction :: "('o, 'z) io_fns_scheme \<Rightarrow> nat \<Rightarrow> u8 list \<Rightarrow> ('o, u8 list) tio" where
  "read_fraction x fid b =
     bndT (take_if x fid (\<lambda>c. c = 46) b) (\<lambda>(b, t).
     bndT ((if t then take_while x fid is_dig b else okT b)) (\<lambda>b.
     bndT (take_if x fid (\<lambda>c. c = 101 \<or> c = 69) b) (\<lambda>(b, t).
     if t then read_exponent x fid b else okT b)))"

definition read_number :: "('o, 'z) io_fns_scheme \<Rightarrow> nat \<Rightarrow> bool \<Rightarrow> ('o, u8 list) tio" where
  "read_number x fid isreal =
     bndT (skip_spaces x fid) (\<lambda>u.
     bndT (at_end x fid) (\<lambda>e.
     if e then logical_end x fid
     else (bndT (take_if x fid is_sign []) (\<lambda>(b, t).
     bndT (take_while x fid is_dig b) (\<lambda>b.
     bndT ((if isreal then read_fraction x fid b else okT b)) (\<lambda>b.
     if b = [] \<or> b = [43] \<or> b = [45] then value_error x fid ''invalid numeral in input''
     else (okT (b))))))))"

definition line_end :: "nat \<Rightarrow> u8 \<Rightarrow> ('o, bool) tio" where
  "line_end fid c =
     (if c = 10 then okT (True)
     else (bndT (file_get fid) (\<lambda>f.
     okT (c \<in> set (fl_term f)))))"

partial_function (option) line_loop :: "('o, 'z) io_fns_scheme \<Rightarrow> nat \<Rightarrow> u8 list \<Rightarrow> ('o, u8 list) tio" where
  "line_loop x fid acc wld =
     (bndT (peek_char x fid) (\<lambda>c.
     if c = None then okT (acc)
     else (bndT (line_end fid (the c)) (\<lambda>e.
     if e then okT (acc)
     else (bndT (read_char x fid) (\<lambda>d.
     line_loop x fid (acc @ [the c]))))))) wld"

definition read_line_str :: "('o, 'z) io_fns_scheme \<Rightarrow> nat \<Rightarrow> ('o, u8 list) tio" where
  "read_line_str x fid =
     bndT (at_end x fid) (\<lambda>e.
     if e then logical_end x fid
     else (line_loop x fid []))"

partial_function (option) skip_line :: "('o, 'z) io_fns_scheme \<Rightarrow> nat \<Rightarrow> ('o, unit) tio" where
  "skip_line x fid wld =
     (bndT (read_char x fid) (\<lambda>c.
     if c = None \<or> c = Some 10 then okT (())
     else (skip_line x fid))) wld"


section \<open>Texts of numbers\<close>

definition is_white :: "char \<Rightarrow> bool" where
  "is_white c \<longleftrightarrow> c = CHR '' '' \<or> c = CHR 0x09 \<or> c = CHR 0x0A"

text \<open>A sign: whether it is minus, and the rest.\<close>

definition split_sign :: "string \<Rightarrow> bool \<times> string" where
  "split_sign s = (case s of [] \<Rightarrow> (False, [])
     | c # cs \<Rightarrow> if c = CHR ''-'' then (True, cs) else if c = CHR ''+'' then (False, cs) else (False, s))"

definition parse_int_text :: "string \<Rightarrow> a68_big option" where
  "parse_int_text s = (case split_sign (dropWhile is_white s) of (neg, t) \<Rightarrow>
     if t = [] \<or> \<not> list_all is_digit t then None
     else (let v = big_from_dec t in Some (if neg then big_neg v else v)))"

definition exp_part_ok :: "string \<Rightarrow> bool" where
  "exp_part_ok s \<longleftrightarrow> (case s of [] \<Rightarrow> True
     | c # cs \<Rightarrow> (c = CHR ''e'' \<or> c = CHR ''E'') \<and> (let t = snd (split_sign cs) in t \<noteq> [] \<and> list_all is_digit t))"

definition parse_real_text :: "'a fmt_ops_scheme \<Rightarrow> string \<Rightarrow> u64 option" where
  "parse_real_text f s = (case split_sign (dropWhile is_white s) of (neg, body) \<Rightarrow>
     (let ip = takeWhile is_digit body; r1 = dropWhile is_digit body;
          dotted = (r1 \<noteq> [] \<and> hd r1 = CHR ''.'');
          fp = (if dotted then takeWhile is_digit (tl r1) else []);
          r2 = (if dotted then dropWhile is_digit (tl r1) else r1)
      in if ip = [] \<and> fp = [] \<or> \<not> exp_part_ok r2 then None
         else (let v = a68_fmt_parse_float f body in Some (if neg then dbl_neg v else v))))"

text \<open>The value of digits in a base from 2 to 16.\<close>

definition digit_of_char :: "char \<Rightarrow> nat" where
  "digit_of_char c = (let n = of_char c :: nat in if 48 \<le> n \<and> n \<le> 57 then n - 48
     else if 97 \<le> n \<and> n \<le> 102 then n - 87 else if 65 \<le> n \<and> n \<le> 70 then n - 55 else 99)"

fun radix_text_loop :: "nat \<Rightarrow> string \<Rightarrow> a68_big \<Rightarrow> a68_big option" where
  "radix_text_loop radix [] v = Some v"
| "radix_text_loop radix (c # s) v = (let d = digit_of_char c in if d \<ge> radix then None
     else radix_text_loop radix s (big_add (big_mul_small v (of_nat radix)) (big_from_i64 (of_nat d))))"

definition simple_mode :: "a68_mkind \<Rightarrow> int \<Rightarrow> ('o, nat) tio" where
  "simple_mode k n =
     tabT (mode_simple k n)"

definition bits_error :: "string \<Rightarrow> int \<Rightarrow> string \<Rightarrow> ('o, 'a) tio" where
  "bits_error pre longness post =
     bndT (simple_mode M_BITS longness) (\<lambda>m.
     die_mode pre m post)"

definition radix_value :: "('o, 'z) io_fns_scheme \<Rightarrow> string \<Rightarrow> nat \<Rightarrow> int \<Rightarrow> ('o, a68_val) tio" where
  "radix_value x s radix longness =
     bndT (io_bits_width_of x longness) (\<lambda>wd.
     (case radix_text_loop radix (dropWhile is_white s) (big_from_i64 0) of None \<Rightarrow> bits_error ''error in '' longness '' denotation'' | Some v \<Rightarrow> if big_cmp v (io_bits_mask wd) > 0 then bits_error [] longness '' value out of range'' else rtT (bits_of_big v)))"

definition int_of_text :: "string \<Rightarrow> a68_val rt" where
  "int_of_text s =
     val_of_big (big_from_dec s)"


definition is_int_text :: "string \<Rightarrow> bool" where
  "is_int_text s \<longleftrightarrow> (let t = (if s \<noteq> [] \<and> hd s = CHR ''-'' then tl s else s) in t \<noteq> [] \<and> list_all is_digit t)"

definition real_of_text :: "'a fmt_ops_scheme \<Rightarrow> string \<Rightarrow> a68_val" where
  "real_of_text f s = (let neg = (s \<noteq> [] \<and> hd s = CHR ''-'');
       v = a68_fmt_parse_float f (if s \<noteq> [] \<and> (hd s = CHR ''-'' \<or> hd s = CHR ''+'') then tl s else s)
     in VReal (if neg then dbl_neg v else v))"

definition undef_pair :: "a68_val rt" where
  "undef_pair = bnd (slots_alloc 2) (\<lambda>s. ret (VStruct s))"

end
