(* ===== verification/IoInto.thy ===== *)
theory IoInto
  imports IoRead
begin

text \<open>
  \<open>csrc/io.c\<close>: unformatted input into names, and the calls \<open>read\<close> and \<open>get\<close>. \<open>ref_load\<close> and \<open>ref_elem\<close> read the
  pointer of a name without looking at its tag, so anything but a name stops with \<open>UB\<close>.
\<close>

section \<open>Names\<close>

definition load_name :: "a68_val \<Rightarrow> a68_val rt" where
  "load_name r = (case r of VRef p aux \<Rightarrow> ref_load p aux | _ \<Rightarrow> stop UB)"

definition elem_name :: "a68_val \<Rightarrow> int \<Rightarrow> a68_val rt" where
  "elem_name r i = (case r of VRef p aux \<Rightarrow> ref_elem p aux (word_of_int i) | _ \<Rightarrow> stop UB)"

definition ref_mode :: "nat \<Rightarrow> ('o, nat) tio" where "ref_mode m = tabT (mode_ref m)"


text \<open>Reading into a united name: through a cell of the mode the united value has.\<close>

definition read_union :: "(nat \<Rightarrow> a68_val \<Rightarrow> ('o, unit) tio) \<Rightarrow> nat \<Rightarrow> a68_val \<Rightarrow> ('o, unit) tio" where
  "read_union rd t r =
     bndT (rtT (load_name r)) (\<lambda>cur.
     bndT ((case cur of VUnion q a \<Rightarrow> okT (q, a) | _ \<Rightarrow> die_mode ''attempt to use an uninitialised '' t '' value'')) (\<lambda>(q, um).
     bndT (rtT (slots_alloc 1)) (\<lambda>tmp.
     bndT (rtT (slot_read (q, 0))) (\<lambda>v.
     bndT (rtT (slot_write (tmp, 0) v)) (\<lambda>u.
     bndT (rtT (push (VRef tmp 0))) (\<lambda>u.
     bndT (ref_mode (unat um)) (\<lambda>m.
     bndT (rd m (VRef tmp 0)) (\<lambda>u.
     bndT (rtT (slots_alloc 1)) (\<lambda>n.
     bndT (rtT (slot_read (tmp, 0))) (\<lambda>v.
     bndT (rtT (slot_write (n, 0) v)) (\<lambda>u.
     bndT (rtT (store_ref r (VUnion n um))) (\<lambda>u.
     bndT (rtT (pop)) (\<lambda>d.
     okT (()))))))))))))))"


section \<open>The kinds of values\<close>

definition quoted :: "u8 list \<Rightarrow> string" where "quoted s = [CHR 0x22] @ cstr s @ [CHR 0x22]"

definition read_int :: "('o, 'z) io_fns_scheme \<Rightarrow> nat \<Rightarrow> a68_val \<Rightarrow> ('o, unit) tio" where
  "read_int x fid r =
     bndT (read_number x fid False) (\<lambda>tok.
     (let s = (if tok \<noteq> [] \<and> hd tok = 43 then tl tok else tok) in
     if \<not>  is_int_text (cstr s) then dieT (''cannot read INT from '' @ quoted s)
     else (bndT (rtT (int_of_text (cstr s))) (\<lambda>v.
     rtT (store_ref r v)))))"


text \<open>A real number from the characters of its denotation; \<open>t\<close> is its mode.\<close>

definition store_real :: "('o, 'z) io_fns_scheme \<Rightarrow> nat \<Rightarrow> int \<Rightarrow> u8 list \<Rightarrow> a68_val \<Rightarrow> ('o, unit) tio" where
  "store_real x t longness tok r =
     (if longness \<ge> 1 then (
         bndT (askT w_ll) (\<lambda>ll.
         bndT (rtT (mp_of_string ll (cstr tok) longness)) (\<lambda>(z, ok).
         if \<not>  ok then die_mode_str ''cannot read '' t ('' from '' @ [CHR 0x22]) tok [CHR 0x22]
         else (rtT (store_ref r z)))))
     else (
         rtT (store_ref r (real_of_text x (cstr tok)))))"

definition read_bool :: "('o, 'z) io_fns_scheme \<Rightarrow> nat \<Rightarrow> a68_val \<Rightarrow> ('o, unit) tio" where
  "read_bool x fid r =
     bndT (read_token x fid) (\<lambda>tok.
     rtT (store_ref r (VBool (cstr tok = ''T'' \<or> cstr tok = ''TRUE''))))"

definition read_char_into :: "('o, 'z) io_fns_scheme \<Rightarrow> nat \<Rightarrow> a68_val \<Rightarrow> ('o, unit) tio" where
  "read_char_into x fid r =
     bndT (read_char x fid) (\<lambda>c.
     (case c of Some b \<Rightarrow> rtT (store_ref r (VChar (ucast b))) | None \<Rightarrow> logical_end x fid))"

definition read_string :: "('o, 'z) io_fns_scheme \<Rightarrow> nat \<Rightarrow> a68_val \<Rightarrow> ('o, unit) tio" where
  "read_string x fid r =
     bndT (read_line_str x fid) (\<lambda>s.
     bndT (rtT (of_string s)) (\<lambda>v.
     rtT (store_ref r v)))"


text \<open>The row a name refers to, its elements one after the other.\<close>

definition row_of_name :: "a68_val \<Rightarrow> ('o, nat) tio" where
  "row_of_name r =
     bndT (rtT (load_name r)) (\<lambda>v.
     (case v of VRow p \<Rightarrow> okT p | VUndef \<Rightarrow> dieT ''attempt to use an uninitialised row'' | _ \<Rightarrow> dieT ''internal: row expected''))"

definition read_elems :: "(nat \<Rightarrow> a68_val \<Rightarrow> ('o, unit) tio) \<Rightarrow> nat \<Rightarrow> a68_val \<Rightarrow> ('o, unit) tio" where
  "read_elems self em r =
     bndT (row_of_name r) (\<lambda>p.
     bndT (rtT (row_len p)) (\<lambda>n.
     bndT (ref_mode em) (\<lambda>m.
     eachT (upto_int n) (\<lambda>i. bndT (rtT (elem_name r i)) (self m)))))"

definition read_fields :: "(nat \<Rightarrow> a68_val \<Rightarrow> ('o, unit) tio) \<Rightarrow> nat list \<Rightarrow> a68_val \<Rightarrow> ('o, unit) tio" where
  "read_fields self ms r =
     eachT [0..<length ms] (\<lambda>i. bndT (ref_mode (ms ! i)) (\<lambda>m. bndT (rtT (ref_field r i)) (self m)))"

definition read_compl :: "(nat \<Rightarrow> a68_val \<Rightarrow> ('o, unit) tio) \<Rightarrow> int \<Rightarrow> a68_val \<Rightarrow> ('o, unit) tio" where
  "read_compl self longness r =
     bndT (rtT (load_name r)) (\<lambda>cur.
     bndT (rtT ((case cur of VStruct c \<Rightarrow> ret () | _ \<Rightarrow> bnd undef_pair (store_ref r)))) (\<lambda>u.
     bndT (simple_mode M_REAL longness) (\<lambda>sm.
     bndT (ref_mode sm) (\<lambda>m.
     bndT (rtT (ref_field r 0)) (\<lambda>re.
     bndT (self m re) (\<lambda>u.
     bndT (rtT (ref_field r 1)) (\<lambda>im.
     self m im)))))))"

definition read_file_proc :: "('o, 'z) io_fns_scheme \<Rightarrow> nat \<Rightarrow> a68_val \<Rightarrow> ('o, unit) tio" where
  "read_file_proc x fid r =
     bndT (rtT ((case r of VBuiltin a \<Rightarrow> strtab_at a | _ \<Rightarrow> ret []))) (\<lambda>n.
     if n = ''newline'' \<or> n = ''newpage'' then skip_line x fid
     else (if n = ''space'' then skip_char x fid
     else (okT (()))))"

definition read_name :: "('o, 'z) io_fns_scheme \<Rightarrow> nat \<Rightarrow> (nat \<Rightarrow> a68_val \<Rightarrow> ('o, unit) tio) \<Rightarrow> nat \<Rightarrow> a68_val \<Rightarrow> ('o, unit) tio" where
  "read_name x fid self tsub r =
     bndT (resolveT tsub) (\<lambda>t.
     bndT (modeT t) (\<lambda>q.
     bndT (askT (\<lambda>w. mode_is_flex_string (w_tabs w) t)) (\<lambda>flexstr.
     if m_k q = M_INT then read_int x fid r
     else (if m_k q = M_STRUCT then read_fields self (take (m_n q) (m_modes q)) r
     else (if m_k q = M_REAL then bndT (read_number x fid True) (\<lambda>tok. store_real x t (m_len q) tok r)
     else (if m_k q = M_BOOL then read_bool x fid r
     else (if m_k q = M_CHAR then read_char_into x fid r
     else (if m_k q = M_ROW \<and> flexstr then read_string x fid r
     else (if m_k q = M_ROW \<and> m_dims q = 1 then read_elems self (m_sub q) r
     else (if m_k q = M_COMPL then read_compl self (m_len q) r
     else (if m_k q = M_UNION then read_union self tsub r
     else (die_mode ''cannot read a value of mode '' tsub []))))))))))))"

definition read_into_body :: "('o, 'z) io_fns_scheme \<Rightarrow> nat \<Rightarrow> (nat \<Rightarrow> a68_val \<Rightarrow> ('o, unit) tio) \<Rightarrow> nat \<Rightarrow> a68_val \<Rightarrow> ('o, unit) tio" where
  "read_into_body x fid self m r =
     bndT (resolveT m) (\<lambda>mr.
     bndT (modeT mr) (\<lambda>p.
     bndT (askT (\<lambda>w. mode_is_file_proc (w_tabs w) mr)) (\<lambda>isproc.
     if m_k p = M_REF then read_name x fid self (m_sub p) r
     else (if isproc then read_file_proc x fid r
     else (die_mode ''cannot read into a value of mode '' m [])))))"


primrec read_into_n :: "nat \<Rightarrow> ('o, 'z) io_fns_scheme \<Rightarrow> nat \<Rightarrow> nat \<Rightarrow> a68_val \<Rightarrow> ('o, unit) tio" where
  "read_into_n 0 x fid m r = failT (Fatal ''stack overflow'')"
| "read_into_n (Suc k) x fid m r = read_into_body x fid (read_into_n k x fid) m r"

definition read_into :: "('o, 'z) io_fns_scheme \<Rightarrow> nat \<Rightarrow> nat \<Rightarrow> a68_val \<Rightarrow> ('o, unit) tio" where
  "read_into x fid m r = bndT (askT (\<lambda>w. depth_limit (w_rt w))) (\<lambda>k. read_into_n k x fid m r)"


text \<open>An event that was mended ends the call, not the program.\<close>

definition get_items_of :: "('o, 'z) io_fns_scheme \<Rightarrow> nat \<Rightarrow> nat \<Rightarrow> ('o, unit) tio" where
  "get_items_of x fid p =
     bndT (rtT (row_len p)) (\<lambda>n.
     eachT (upto_int n) (\<lambda>i. bndT (rtT (row_at p i)) (\<lambda>e. bndT (need_union ''internal: read argument'' e) (\<lambda>(q, m). bndT (rtT (slot_read (q, 0))) (read_into x fid m)))))"

definition get_items :: "('o, 'z) io_fns_scheme \<Rightarrow> nat \<Rightarrow> a68_val \<Rightarrow> ('o, unit) tio" where
  "get_items x fid row =
     bndT (need_row ''internal: read argument'' row) (\<lambda>p.
     bndT (refresh_assoc fid) (\<lambda>u.
     bndT (catchT (get_items_of x fid p)) (\<lambda>c.
     okT (()))))"


end
