(* ===== verification/IoFormat.thy ===== *)
theory IoFormat
  imports IoInto
begin

text \<open>
  \<open>csrc/io.c\<close>: format texts. \<open>walk_one\<close> flattens the items of a format into pictures, \<open>next_pattern\<close> is the
  cursor that runs through them: insertions are written on the way, included formats are entered and left,
  the outermost format starts again when a pattern is still wanted. A format may include itself, so the
  cursor is a partial function; the items of a format text nest finitely, within \<open>depth_limit\<close>.
\<close>

section \<open>Pictures\<close>

datatype fframe = FR_Z | FR_D | FR_PLUS | FR_MINUS | FR_POINT | FR_E | FR_A | FR_INS "u8 list" | FR_RADIX int

text \<open>\<open>P_CPAT\<close> has the flags, the width and the digits after the point; \<open>P_BOOL\<close> its two texts, if any.\<close>

datatype pic = is_ins: P_INS (p_text: "u8 list") | P_PATTERN "fframe list" | P_GENERAL "int list"
  | P_BOOL "(u8 list \<times> u8 list) option" | P_CHOICE "u8 list list"
  | is_include: P_INCLUDE (p_env: nat) (p_skel: nat) | is_col: P_COL (p_col: int)
  | P_CPAT "u8 list" "int option" "int option" | P_HGEN "int list"

record fmt_frame =
  ff_pics :: "pic list"
  ff_cursor :: nat
  ff_embedded :: bool

text \<open>The formats being worked on, innermost first.\<close>

type_synonym fmt_state = "fmt_frame list"

record fmt_build =
  b_pics :: "pic list"
  b_pend :: "fframe list"
  b_pins :: "fframe list"

definition b_add_pic :: "pic \<Rightarrow> fmt_build \<Rightarrow> fmt_build" where
  "b_add_pic p b = b\<lparr>b_pics := b_pics b @ [p]\<rparr>"

definition b_ins :: "u8 list \<Rightarrow> fmt_build \<Rightarrow> fmt_build" where "b_ins s = b_add_pic (P_INS s)"
definition b_col :: "int \<Rightarrow> fmt_build \<Rightarrow> fmt_build" where "b_col k = b_add_pic (P_COL k)"

definition b_flush :: "fmt_build \<Rightarrow> fmt_build" where
  "b_flush b = (let b1 = (if b_pend b \<noteq> [] then b_add_pic (P_PATTERN (b_pend b)) b else b);
       b2 = fold (\<lambda>fr b. case fr of FR_INS s \<Rightarrow> b_ins s b | _ \<Rightarrow> b) (b_pins b) b1
     in b2\<lparr>b_pend := [], b_pins := []\<rparr>)"

definition b_add_frame :: "fframe \<Rightarrow> fmt_build \<Rightarrow> fmt_build" where
  "b_add_frame fr b = b\<lparr>b_pend := b_pend b @ b_pins b @ [fr], b_pins := []\<rparr>"

definition b_add_ins :: "u8 list \<Rightarrow> fmt_build \<Rightarrow> fmt_build" where
  "b_add_ins s b = (if b_pend b = [] then b_ins s b else b\<lparr>b_pins := b_pins b @ [FR_INS s]\<rparr>)"

definition b_pic :: "pic \<Rightarrow> fmt_build \<Rightarrow> fmt_build" where "b_pic p b = b_add_pic p (b_flush b)"

section \<open>Holes\<close>

definition core_at :: "a68_tables \<Rightarrow> nat \<Rightarrow> a68_core" where
  "core_at t i = (if i < length (t_cores t) then t_cores t ! i else core0)"

definition fmt_at :: "a68_tables \<Rightarrow> nat \<Rightarrow> a68_fmt" where
  "fmt_at t i = (if i < length (t_fmts t) then t_fmts t ! i else fmt0 F_BAD)"

text \<open>An expression of a format: a number, or compiled code run in the environment of the format.\<close>

definition eval_core :: "('o, 'z) io_fns_scheme \<Rightarrow> nat \<Rightarrow> nat \<Rightarrow> ('o, a68_val) tio" where
  "eval_core x fenv i =
     bndT (askT (\<lambda>w. core_at (w_tabs w) i)) (\<lambda>c.
     if \<not>  c_hole c then okT (VInt (word_of_int (c_lit c)))
     else (bndT (rtT (env_set fenv)) (\<lambda>u.
     bndT (x_hole x (c_idx c)) (\<lambda>u.
     bndT (rtT (env_restore)) (\<lambda>u.
     bndT (io_check_jump) (\<lambda>u.
     rtT (pop)))))))"

definition eval_int :: "('o, 'z) io_fns_scheme \<Rightarrow> nat \<Rightarrow> nat \<Rightarrow> ('o, int) tio" where
  "eval_int x fenv i =
     bndT (eval_core x fenv i) (\<lambda>v.
     bndT (rtT (as_int v)) (\<lambda>k.
     okT (sint k)))"


definition nat_of :: "int \<Rightarrow> int" where "nat_of k = (if k < 0 then 0 else k)"

definition fmt_of :: "a68_val \<Rightarrow> ('o, nat \<times> nat) tio" where
  "fmt_of v = (case v of VFmt e a \<Rightarrow> okT (e, unat a) | _ \<Rightarrow> dieT ''format expected'')"

section \<open>Flattening\<close>


text \<open>A text of the string table.\<close>

definition str_at :: "nat \<Rightarrow> ('o, u8 list) tio" where
  "str_at i = bndT (rtT (strtab_at (of_nat i))) (\<lambda>s. okT (bstr s))"

definition rep_count :: "('o, 'z) io_fns_scheme \<Rightarrow> nat \<Rightarrow> a68_fmt \<Rightarrow> ('o, int) tio" where
  "rep_count x fenv f = (if f_dyn f \<noteq> 0 then bndT (eval_int x fenv (f_dyn f - 1)) (\<lambda>k. okT (nat_of k)) else okT (f_rep f))"


text \<open>The width and the digits of a C-style pattern, from its replicators.\<close>

primrec cpat_args :: "('o, 'z) io_fns_scheme \<Rightarrow> nat \<Rightarrow> nat list \<Rightarrow> int option \<Rightarrow> int option \<Rightarrow> ('o, int option \<times> int option) tio" where
  "cpat_args x fenv [] cw ca = okT (cw, ca)"
| "cpat_args x fenv (i # is) cw ca = bndT (askT w_tabs) (\<lambda>t. let it = fmt_at t i in
     if f_k it \<noteq> F_REP then cpat_args x fenv is cw ca
     else bndT (rep_count x fenv it) (\<lambda>k. if f_k (fmt_at t (f_item it)) = F_CWIDTH
       then cpat_args x fenv is (Some k) ca else cpat_args x fenv is cw (Some k)))"


text \<open>Items whose effect needs neither the tables nor compiled code.\<close>

definition walk_simple :: "a68_fmt \<Rightarrow> (fmt_build \<Rightarrow> fmt_build) option" where
  "walk_simple f = (case f_k f of
     F_NL \<Rightarrow> Some (b_ins [10] \<circ> b_flush)
   | F_NP \<Rightarrow> Some (b_ins [12] \<circ> b_flush)
   | F_SP \<Rightarrow> Some (b_add_ins [32])
   | F_BS \<Rightarrow> Some (b_add_ins [32])
   | F_DIG \<Rightarrow> Some (b_add_frame (if f_flag f then FR_Z else FR_D))
   | F_SIGN \<Rightarrow> Some (b_add_frame (if f_flag f then FR_PLUS else FR_MINUS))
   | F_POINT \<Rightarrow> Some (b_add_frame FR_POINT)
   | F_EXP \<Rightarrow> Some (b_add_frame FR_E)
   | F_CHAR \<Rightarrow> Some (b_add_frame FR_A)
   | F_COL \<Rightarrow> Some (b_col 1 \<circ> b_flush)
   | F_STRINGS \<Rightarrow> Some b_flush
   | F_SEP \<Rightarrow> Some b_flush
   | F_HMARK \<Rightarrow> Some id
   | F_CPAT \<Rightarrow> Some id
   | F_CWIDTH \<Rightarrow> Some id
   | F_CAFTER \<Rightarrow> Some id
   | _ \<Rightarrow> None)"

definition walk_rep :: "('o, 'z) io_fns_scheme \<Rightarrow> nat \<Rightarrow> (nat \<Rightarrow> fmt_build \<Rightarrow> ('o, fmt_build) tio) \<Rightarrow> a68_fmt \<Rightarrow> fmt_build \<Rightarrow> ('o, fmt_build) tio" where
  "walk_rep x fenv self f b =
     bndT (askT (\<lambda>w. fmt_at (w_tabs w) (f_item f))) (\<lambda>inner.
     bndT (rep_count x fenv f) (\<lambda>k.
     if f_k inner = F_COL then okT (b_col k (b_flush b))
     else (if f_k inner = F_RADIX then okT (b_add_frame (FR_RADIX k) b)
     else (foldT self (replicate (nat k) (f_item f)) b))))"


text \<open>A collection: an \<open>h\<close> pattern, a C-style pattern, or items that never merge with those outside.\<close>

definition walk_group :: "('o, 'z) io_fns_scheme \<Rightarrow> nat \<Rightarrow> (nat \<Rightarrow> fmt_build \<Rightarrow> ('o, fmt_build) tio) \<Rightarrow> a68_fmt \<Rightarrow> fmt_build \<Rightarrow> ('o, fmt_build) tio" where
  "walk_group x fenv self f b =
     bndT (askT w_tabs) (\<lambda>t.
     (let first = (if f_n f > 0 then fmt_at t (f_list f ! 0) else fmt0 F_BAD);
          second = (if f_n f = 2 then fmt_at t (f_list f ! 1) else fmt0 F_BAD) in
     if f_n f > 0 \<and> f_k first = F_HMARK then (
         bndT ((if f_n f = 2 \<and> f_k second = F_GEN then collectT (take (f_n second) (f_list second)) (eval_int x fenv) else okT [])) (\<lambda>args.
         okT (b_pic (P_HGEN args) b)))
     else if f_n f > 0 \<and> f_k first = F_CPAT then (
         bndT (cpat_args x fenv (drop 1 (take (f_n f) (f_list f))) None None) (\<lambda>(cw, ca).
         bndT (str_at (f_str first)) (\<lambda>s.
         okT (b_pic (P_CPAT s cw ca) b))))
     else (
         bndT (foldT self (take (f_n f) (f_list f)) (b_flush b)) (\<lambda>c.
         okT (b_flush c)))))"

definition walk_bool :: "a68_fmt \<Rightarrow> fmt_build \<Rightarrow> ('o, fmt_build) tio" where
  "walk_bool f b =
     (if \<not>  f_flag f then okT (b_pic (P_BOOL None) b)
     else (bndT (str_at (f_str f)) (\<lambda>s.
     bndT (str_at (f_str2 f)) (\<lambda>s2.
     okT (b_pic (P_BOOL (Some (s, s2))) b)))))"


text \<open>The value of an included format is kept on the stack, where the collector finds its frame.\<close>

definition walk_incl :: "('o, 'z) io_fns_scheme \<Rightarrow> nat \<Rightarrow> a68_fmt \<Rightarrow> fmt_build \<Rightarrow> ('o, fmt_build) tio" where
  "walk_incl x fenv f b =
     bndT (eval_core x fenv (f_dyn f - 1)) (\<lambda>v.
     bndT (rtT (push v)) (\<lambda>u.
     bndT (fmt_of v) (\<lambda>(e, sk).
     okT (b_pic (P_INCLUDE e sk) b))))"

definition walk_one_body :: "('o, 'z) io_fns_scheme \<Rightarrow> nat \<Rightarrow> (nat \<Rightarrow> fmt_build \<Rightarrow> ('o, fmt_build) tio) \<Rightarrow> nat \<Rightarrow> fmt_build \<Rightarrow> ('o, fmt_build) tio" where
  "walk_one_body x fenv self fi b =
     bndT (askT (\<lambda>w. fmt_at (w_tabs w) fi)) (\<lambda>f.
     if walk_simple f \<noteq> None then okT (the (walk_simple f) b)
     else (if f_k f = F_LIT then bndT (str_at (f_str f)) (\<lambda>s. okT (b_add_ins s b))
     else (if f_k f = F_REP then walk_rep x fenv self f b
     else (if f_k f = F_RADIX then dieT ''radix frame without a radix''
     else (if f_k f = F_GROUP then walk_group x fenv self f b
     else (if f_k f = F_GEN then bndT (collectT (take (f_n f) (f_list f)) (eval_int x fenv)) (\<lambda>args. okT (b_pic (P_GENERAL args) b))
     else (if f_k f = F_BOOL then walk_bool f b
     else (if f_k f = F_CHOICE then bndT (collectT (take (f_n f) (f_list f)) str_at) (\<lambda>alts. okT (b_pic (P_CHOICE alts) b))
     else (if f_k f = F_INCL then walk_incl x fenv f b
     else (dieT ''internal: bad format item''))))))))))"


primrec walk_one_n :: "nat \<Rightarrow> ('o, 'z) io_fns_scheme \<Rightarrow> nat \<Rightarrow> nat \<Rightarrow> fmt_build \<Rightarrow> ('o, fmt_build) tio" where
  "walk_one_n 0 x fenv fi b = failT (Fatal ''stack overflow'')"
| "walk_one_n (Suc k) x fenv fi b = walk_one_body x fenv (walk_one_n k x fenv) fi b"

definition walk_format :: "('o, 'z) io_fns_scheme \<Rightarrow> nat \<Rightarrow> nat list \<Rightarrow> fmt_build \<Rightarrow> ('o, fmt_build) tio" where
  "walk_format x fenv items b = bndT (askT (\<lambda>w. depth_limit (w_rt w))) (\<lambda>k. foldT (walk_one_n k x fenv) items b)"

definition expand_format :: "('o, 'z) io_fns_scheme \<Rightarrow> nat \<Rightarrow> nat \<Rightarrow> bool \<Rightarrow> ('o, fmt_frame) tio" where
  "expand_format x fenv skel embedded =
     bndT (askT w_tabs) (\<lambda>t.
     if skel \<ge> length (t_fmtlists t) then failT UB
     else (bndT (walk_format x fenv (t_fmtlists t ! skel) \<lparr>b_pics = [], b_pend = [], b_pins = []\<rparr>) (\<lambda>b.
     okT (\<lparr>ff_pics = b_pics (b_flush b), ff_cursor = 0, ff_embedded = embedded\<rparr>))))"


section \<open>The cursor\<close>


text \<open>A new line or page purges the buffer of the line.\<close>

definition write_insertion :: "('o, 'z) io_fns_scheme \<Rightarrow> nat \<Rightarrow> u8 list \<Rightarrow> ('o, unit) tio" where
  "write_insertion x fid s =
     bndT (file_out x fid s) (\<lambda>u.
     if 10 \<in> set s \<or> 12 \<in> set s then modT (\<lambda>w. w\<lparr>w_cut := False\<rparr>)
     else (okT (())))"

definition align_column :: "('o, 'z) io_fns_scheme \<Rightarrow> nat \<Rightarrow> int \<Rightarrow> ('o, unit) tio" where
  "align_column x fid col =
     bndT (askT w_col) (\<lambda>pos.
     if col > pos + 1 then file_out x fid (replicate (nat (col - pos - 1)) 32)
     else (okT (())))"


definition at_cursor :: "nat \<Rightarrow> fmt_frame \<Rightarrow> fmt_frame" where "at_cursor i fr = fr\<lparr>ff_cursor := i\<rparr>"

definition top_cursor :: "fmt_state \<Rightarrow> nat" where
  "top_cursor st = (case st of [] \<Rightarrow> 0 | fr # frs \<Rightarrow> ff_cursor fr)"

text \<open>
  \<open>i\<close> is the position of the inner loop; the cursor of the frame is set when that loop is left. The result is
  the next pattern, if there is one, and the new state of the formats.
\<close>

partial_function (option) pattern_loop :: "('o, 'z) io_fns_scheme \<Rightarrow> nat \<Rightarrow> bool \<Rightarrow> nat \<Rightarrow> nat \<Rightarrow> fmt_state \<Rightarrow> ('o, pic option \<times> fmt_state) tio" where
  "pattern_loop x fid want restarts i st wld =
     ((if st = [] then okT ((None, []))
     else ((let fr = hd st in
     if i < length (ff_pics fr) then (
         (let p = ff_pics fr ! i in
         if is_ins p then bndT (write_insertion x fid (p_text p)) (\<lambda>u. pattern_loop x fid want restarts (i + 1) st)
         else (if is_col p then bndT (align_column x fid (p_col p)) (\<lambda>u. pattern_loop x fid want restarts (i + 1) st)
         else (if is_include p then bndT (expand_format x (p_env p) (p_skel p) True) (\<lambda>nf. pattern_loop x fid want restarts 0 (nf # at_cursor (i + 1) fr # tl st))
         else (okT ((Some p, at_cursor (i + 1) fr # tl st)))))))
     else (
         if ff_embedded fr then pattern_loop x fid want restarts (top_cursor (tl st)) (tl st)
         else (if \<not>  want then okT ((None, at_cursor i fr # tl st))
         else (if restarts > 0 \<or> ff_pics fr = [] then dieT ''format exhausted''
         else (pattern_loop x fid want (restarts + 1) (top_cursor [last (at_cursor 0 fr # tl st)]) [last (at_cursor 0 fr # tl st)])))))))) wld"

definition next_pattern :: "('o, 'z) io_fns_scheme \<Rightarrow> nat \<Rightarrow> bool \<Rightarrow> fmt_state \<Rightarrow> ('o, pic option \<times> fmt_state) tio" where
  "next_pattern x fid want st =
     pattern_loop x fid want 0 (top_cursor st) st"


end
