(* ===== verification/IoPattern.thy ===== *)
theory IoPattern
  imports IoFormat
begin

text \<open>
  \<open>csrc/io.c\<close>: formatted output. A value is straightened into scalars; each is written with the next pattern of
  the format: a general pattern, a mould of digit frames, a string, a choice, or a C-style pattern.
\<close>

section \<open>Moulds\<close>

definition is_zd :: "fframe \<Rightarrow> bool" where "is_zd fr \<longleftrightarrow> fr = FR_Z \<or> fr = FR_D"
definition count_zd :: "fframe list \<Rightarrow> nat" where "count_zd frs = length (filter is_zd frs)"
definition has_frame :: "fframe list \<Rightarrow> fframe \<Rightarrow> bool" where "has_frame frs k \<longleftrightarrow> k \<in> set frs"
definition has_sign_frame :: "fframe list \<Rightarrow> bool" where
  "has_sign_frame frs \<longleftrightarrow> has_frame frs FR_PLUS \<or> has_frame frs FR_MINUS"

text \<open>A leading sign moves right over the zeros that leading \<open>z\<close> frames suppress; \<open>pre\<close> zeros are in front of it.\<close>

fun shift_sign :: "fframe list \<Rightarrow> nat \<Rightarrow> string \<Rightarrow> string" where
  "shift_sign [] pre buf = buf"
| "shift_sign (FR_D # frs) pre buf = buf"
| "shift_sign (FR_Z # frs) pre buf =
     (if length buf - pre \<ge> 2 \<and> (buf ! pre = CHR ''+'' \<or> buf ! pre = CHR ''-'') \<and> buf ! (pre + 1) = CHR ''0''
      then shift_sign frs (pre + 1) (buf[pre := CHR ''0'', pre + 1 := buf ! pre])
      else shift_sign frs pre buf)"
| "shift_sign (fr # frs) pre buf = shift_sign frs pre buf"

text \<open>A sign or blank in front of the digits.\<close>

definition put_sign :: "('o, 'z) io_fns_scheme \<Rightarrow> nat \<Rightarrow> string \<Rightarrow> ('o, string) tio" where
  "put_sign x fid q = (case q of
     c # cs \<Rightarrow> if c = CHR ''+'' \<or> c = CHR ''-'' \<or> c = CHR '' ''
       then bndT (file_out_byte x fid (of_nat (of_char c))) (\<lambda>u. okT cs) else okT q
   | [] \<Rightarrow> okT [])"

definition put_char :: "('o, 'z) io_fns_scheme \<Rightarrow> nat \<Rightarrow> char \<Rightarrow> ('o, unit) tio" where
  "put_char x fid c = file_out x fid (bstr [c])"

text \<open>\<open>q\<close> is what is left of the number, \<open>db\<close> and \<open>ib\<close> say that digits and insertions are written as blanks.\<close>

primrec mould_loop :: "('o, 'z) io_fns_scheme \<Rightarrow> nat \<Rightarrow> fframe list \<Rightarrow> string \<Rightarrow> bool \<Rightarrow> bool \<Rightarrow> ('o, unit) tio" where
  "mould_loop x fid [] q db ib = okT ()"
| "mould_loop x fid (fr # frs) q db ib = (case fr of
     FR_INS s \<Rightarrow> bndT (if ib then eachT s (\<lambda>b. file_out x fid [32]) else file_out x fid s) (\<lambda>u. mould_loop x fid frs q db ib)
   | FR_Z \<Rightarrow> bndT (put_sign x fid q) (\<lambda>q. case q of
       [] \<Rightarrow> mould_loop x fid frs [] db ib
     | c # cs \<Rightarrow> if c = CHR ''0'' then
         (if db then bndT (file_out x fid [32]) (\<lambda>u. mould_loop x fid frs cs db True)
          else bndT (put_char x fid c) (\<lambda>u. mould_loop x fid frs cs db ib))
       else bndT (put_char x fid c) (\<lambda>u. mould_loop x fid frs cs False False))
   | FR_D \<Rightarrow> bndT (put_sign x fid q) (\<lambda>q. case q of
       [] \<Rightarrow> mould_loop x fid frs [] False False
     | c # cs \<Rightarrow> bndT (put_char x fid c) (\<lambda>u. mould_loop x fid frs cs False False))
   | _ \<Rightarrow> mould_loop x fid frs q db ib)"

definition write_mould :: "('o, 'z) io_fns_scheme \<Rightarrow> nat \<Rightarrow> fframe list \<Rightarrow> string \<Rightarrow> bool \<Rightarrow> ('o, unit) tio" where
  "write_mould x fid frs buf normal_mood = mould_loop x fid frs buf (\<not> normal_mood) False"

text \<open>The sign that goes in front, given the frames.\<close>

definition sign_text :: "fframe list \<Rightarrow> bool \<Rightarrow> string" where
  "sign_text frs neg = (if \<not> has_sign_frame frs then []
     else if neg then ''-'' else if has_frame frs FR_PLUS then ''+'' else '' '')"

definition integral_text :: "fframe list \<Rightarrow> bool \<Rightarrow> string \<Rightarrow> string" where
  "integral_text frs neg ds = (let buf = sign_text frs neg @ replicate (count_zd frs - length ds) (CHR ''0'') @ ds
     in if has_sign_frame frs then shift_sign (takeWhile (\<lambda>fr. fr \<noteq> FR_PLUS \<and> fr \<noteq> FR_MINUS) frs) 0 buf else buf)"

definition write_integral_pattern :: "('o, 'z) io_fns_scheme \<Rightarrow> nat \<Rightarrow> fframe list \<Rightarrow> bool \<Rightarrow> string \<Rightarrow> ('o, unit) tio" where
  "write_integral_pattern x fid frs neg ds =
     (if length ds > count_zd frs then dieT ''error transputting INT value''
     else (if neg \<and> \<not>  has_sign_frame frs then dieT ''error transputting INT value: negative value without sign frame''
     else (write_mould x fid frs (integral_text frs neg ds) False)))"


text \<open>The parts of a real pattern: before the point, after it, and the exponent.\<close>

definition split_at_frame :: "fframe \<Rightarrow> fframe list \<Rightarrow> fframe list \<times> bool \<times> fframe list" where
  "split_at_frame k frs = (takeWhile (\<lambda>fr. fr \<noteq> k) frs, k \<in> set frs, drop 1 (dropWhile (\<lambda>fr. fr \<noteq> k) frs))"

definition write_real_pattern :: "('o, 'z) io_fns_scheme \<Rightarrow> nat \<Rightarrow> fframe list \<Rightarrow> bool \<Rightarrow> a68_dec \<Rightarrow> ('o, unit) tio" where
  "write_real_pattern x fid frs neg d =
     (let (before, e, after) = split_at_frame FR_E frs;
          (mant, point, frac) = split_at_frame FR_POINT before;
          stag = int (count_zd mant);
          fracd = int (count_zd frac);
          mant_length = (if point then 1 + stag + fracd else stag) in
     bndT (optT ((if after \<noteq> [] then a68_fmt_standardize d stag fracd 0 else Some (d, 0)))) (\<lambda>(z, expval).
     bndT (optT (a68_fmt_sub_fixed z mant_length fracd)) (\<lambda>str.
     if a68_fmt_has_error str then dieT ''error transputting REAL value''
     else ((let stags = takeWhile (\<lambda>c. c \<noteq> CHR ''.'') str;
          fracs = drop 1 (dropWhile (\<lambda>c. c \<noteq> CHR ''.'') str) in
     if neg \<and> \<not>  has_sign_frame mant then dieT ''error transputting REAL value: negative value without sign frame''
     else ((let buf = sign_text mant neg @ replicate (nat stag - length stags) (CHR ''0'') @ stags in
     bndT (write_mould x fid mant (if has_sign_frame mant then shift_sign mant 0 buf else buf) False) (\<lambda>u.
     bndT ((if point then file_out x fid [46] else okT ())) (\<lambda>u.
     bndT ((if frac \<noteq> [] then write_mould x fid frac fracs True else okT ())) (\<lambda>u.
     if after = [] then okT (())
     else (bndT (file_out x fid [101]) (\<lambda>u.
     write_integral_pattern x fid after (expval < 0) (nat_dec (nat \<bar>expval\<bar>))))))))))))))"


fun string_pattern :: "('o, 'z) io_fns_scheme \<Rightarrow> nat \<Rightarrow> fframe list \<Rightarrow> u8 list \<Rightarrow> ('o, unit) tio" where
  "string_pattern x fid [] s = (if s \<noteq> [] then dieT ''error transputting STRING value'' else okT ())"
| "string_pattern x fid (FR_A # frs) s = (case s of
     b # bs \<Rightarrow> bndT (file_out_byte x fid b) (\<lambda>u. string_pattern x fid frs bs)
   | [] \<Rightarrow> dieT ''error transputting STRING value'')"
| "string_pattern x fid (FR_INS t # frs) s = bndT (file_out x fid t) (\<lambda>u. string_pattern x fid frs s)"
| "string_pattern x fid (fr # frs) s = string_pattern x fid frs s"

section \<open>Numbers for patterns\<close>


text \<open>The sign and the magnitude of a value as an exact decimal.\<close>

definition to_dec :: "('o, 'z) io_fns_scheme \<Rightarrow> nat \<Rightarrow> a68_val \<Rightarrow> ('o, bool \<times> a68_dec) tio" where
  "to_dec x m v =
     bndT (resolveT m) (\<lambda>mr.
     bndT (modeT mr) (\<lambda>p.
     bndT (askT w_ll) (\<lambda>ll.
     if m_k p = M_INT \<and> (tag_of v = 1 \<or> tag_of v = 17) then (
         bndT (rtT (big_of_val v)) (\<lambda>b.
         okT ((big_sign b < 0, a68_dec_of_big (big_abs b)))))
     else if m_k p = M_REAL \<and> tag_of v = 2 then (
         bndT (resT (check_real (val_bits v))) (\<lambda>u.
         okT (a68_real_to_dec x (val_bits v))))
     else if m_k p = M_REAL \<and> tag_of v = 16 then (
         bndT (rtT (mp_check_finite v)) (\<lambda>u.
         rtT (mp_to_dec ll v (m_len p))))
     else (
         dieT (if v = VUndef then ''attempt to use an uninitialised value'' else ''cannot transput this value with a numeric pattern'')))))"


definition hex_digit :: "nat \<Rightarrow> char" where "hex_digit d = ''0123456789abcdef'' ! d"

definition radix_step :: "nat \<Rightarrow> a68_big \<Rightarrow> char \<times> a68_big" where
  "radix_step radix z = (case the (big_divmod z (big_from_i64 (of_nat radix))) of
     (q, rmd) \<Rightarrow> (hex_digit (nat (sint (big_to_i64 rmd))), q))"


text \<open>The digits, least significant first: as many as it takes, or exactly \<open>n\<close>.\<close>

partial_function (option) radix_digits :: "nat \<Rightarrow> a68_big \<Rightarrow> string option" where
  "radix_digits radix z = (case radix_step radix z of (c, q) \<Rightarrow>
     if big_is_zero q then Some [c] else Option.bind (radix_digits radix q) (\<lambda>s. Some (c # s)))"

primrec radix_digits_n :: "nat \<Rightarrow> nat \<Rightarrow> a68_big \<Rightarrow> string \<times> a68_big" where
  "radix_digits_n 0 radix z = ([], z)"
| "radix_digits_n (Suc n) radix z = (case radix_step radix z of (c, q) \<Rightarrow>
     (case radix_digits_n n radix q of (s, r) \<Rightarrow> (c # s, r)))"


text \<open>\<open>None\<close>: it does not end; \<open>Some None\<close>: the number does not fit (\<open>NULL\<close>).\<close>

definition convert_radix :: "a68_big \<Rightarrow> nat \<Rightarrow> nat \<Rightarrow> string option option" where
  "convert_radix v radix width = (if width = 0 then map_option (\<lambda>s. Some (rev s)) (radix_digits radix (big_abs v))
     else case radix_digits_n width radix (big_abs v) of (s, z) \<Rightarrow> Some (if big_is_zero z then Some (rev s) else None))"

section \<open>C-style patterns\<close>

definition exponent_of :: "string \<Rightarrow> int" where
  "exponent_of s = (case dropWhile (\<lambda>c. c \<noteq> CHR ''e'') s of [] \<Rightarrow> 0
     | _ # t \<Rightarrow> (case split_sign (dropWhile (\<lambda>c. c = CHR '' '') t) of (neg, ds) \<Rightarrow>
         (let n = int (digits_val (takeWhile is_digit ds)) in if neg then - n else n)))"

definition cpat_letter :: "u8 list \<Rightarrow> char" where
  "cpat_letter flags = (if flags = [] then CHR 0x00 else last (cstr flags))"

definition cpat_flag :: "char \<Rightarrow> u8 list \<Rightarrow> bool" where "cpat_flag c flags \<longleftrightarrow> c \<in> set (cstr flags)"

definition is_intval :: "a68_val \<Rightarrow> bool" where "is_intval v \<longleftrightarrow> tag_of v = 1 \<or> tag_of v = 17"
definition is_bitsval :: "a68_val \<Rightarrow> bool" where "is_bitsval v \<longleftrightarrow> tag_of v = 5 \<or> tag_of v = 18"


text \<open>The text of a number, \<open>flt\<close> in floating-point form and otherwise with a fixed point.\<close>

definition cpat_number :: "('o, 'z) io_fns_scheme \<Rightarrow> bool \<Rightarrow> bool \<Rightarrow> a68_mode \<Rightarrow> a68_val \<Rightarrow> int \<Rightarrow> int \<Rightarrow> int \<Rightarrow> ('o, string) tio" where
  "cpat_number x flt sg p v width after expo =
     (let sw = (if sg then width else - width) in
     if is_intval v \<and> (flt \<or> m_k p = M_INT) then (
         bndT (rtT (big_of_val v)) (\<lambda>b.
         optT (if flt then a68_fmt_float_int b sw after expo 1 else a68_fmt_fixed_int x b sw after (m_len p > 0))))
     else if tag_of v = 2 then (
         bndT (resT (check_real (val_bits v))) (\<lambda>u.
         optT (if flt then a68_fmt_float_real x (val_bits v) sw after expo 1 else a68_fmt_fixed_real x (val_bits v) sw after)))
     else (
         dieT ''internal: C-style pattern''))"

definition cpat_real :: "('o, 'z) io_fns_scheme \<Rightarrow> char \<Rightarrow> bool \<Rightarrow> int option \<Rightarrow> int option \<Rightarrow> a68_mode \<Rightarrow> a68_val \<Rightarrow> ('o, string \<times> int) tio" where
  "cpat_real x letter sg cw ca p v =
     bndT (askT w_ll) (\<lambda>ll.
     (let rw = real_width_of ll (m_len p);
          ew = exp_width_of (m_len p);
          digits = (case cw of Some w \<Rightarrow> w | None \<Rightarrow> 0);
          after = (case ca of Some a \<Rightarrow> a | None \<Rightarrow> rw - 1);
          expo = ew + 1;
          fwidth = (if digits = 0 \<and> after > 0 then after + expo + 4 else if digits > 0 then digits else rw + ew + 4) in
     bndT ((if letter = CHR ''f'' then okT [] else cpat_number x True sg p v fwidth after expo)) (\<lambda>res.
     (let ev = exponent_of res in
     if letter = CHR ''f'' \<or> letter = CHR ''g'' \<and> ev > - 4 \<and> ev \<le> after then (
         (let width = (if digits = 0 then 0 else digits + after + 2) in
         bndT (cpat_number x False sg p v width after expo) (\<lambda>res.
         okT ((res, width)))))
     else (
         okT ((res, fwidth)))))))"

definition cpat_bits :: "('o, 'z) io_fns_scheme \<Rightarrow> char \<Rightarrow> int option \<Rightarrow> a68_mode \<Rightarrow> nat \<Rightarrow> a68_val \<Rightarrow> ('o, string \<times> int) tio" where
  "cpat_bits x letter cw p mr v =
     (let radix = (if letter = CHR ''b'' then 2 else if letter = CHR ''o'' then 8 else 16);
          nibble = (if letter = CHR ''b'' then 1 else if letter = CHR ''o'' then 3 else 4) in
     bndT (io_bits_width_of x (m_len p)) (\<lambda>wd.
     (let dflt = (wd + nibble - 1) div nibble;
          width = (case cw of Some w \<Rightarrow> if w > 0 then w else dflt | None \<Rightarrow> dflt) in
     bndT (rtT (big_of_val v)) (\<lambda>b.
     bndT (optT (convert_radix b radix (nat width))) (\<lambda>s.
     (case s of None \<Rightarrow> die_mode ''error transputting '' mr '' value'' | Some s \<Rightarrow> okT (s, width)))))))"

definition c_pattern_text :: "('o, 'z) io_fns_scheme \<Rightarrow> u8 list \<Rightarrow> int option \<Rightarrow> int option \<Rightarrow> nat \<Rightarrow> a68_val \<Rightarrow> ('o, string \<times> int) tio" where
  "c_pattern_text x flags cw ca mr v =
     (let letter = cpat_letter flags;
          sg = cpat_flag (CHR ''+'') flags in
     bndT (modeT mr) (\<lambda>p.
     bndT (askT (\<lambda>w. mode_is_string (w_tabs w) mr)) (\<lambda>isstr.
     if letter \<in> {CHR ''d'', CHR ''i''} \<and> m_k p = M_INT \<and> is_intval v then (
         (let width = (case cw of Some w \<Rightarrow> w | None \<Rightarrow> 0) in
         bndT (rtT (big_of_val v)) (\<lambda>b.
         okT ((a68_fmt_whole_int b (if sg then width else - width), width)))))
     else if letter \<in> {CHR ''f'', CHR ''e'', CHR ''g''} \<and> (m_k p = M_INT \<or> m_k p = M_REAL) then (
         cpat_real x letter sg cw ca p v)
     else if letter \<in> {CHR ''b'', CHR ''o'', CHR ''x''} \<and> m_k p = M_BITS \<and> is_bitsval v then (
         cpat_bits x letter cw p mr v)
     else if letter = CHR ''s'' \<and> m_k p = M_CHAR \<and> tag_of v = 4 then (
         okT ((cstr [ucast (val_bits v)], case cw of Some w \<Rightarrow> w | None \<Rightarrow> 1)))
     else if letter = CHR ''s'' \<and> isstr then (
         bndT (rtT (str_of v)) (\<lambda>s.
         okT ((cstr s, case cw of Some w \<Rightarrow> w | None \<Rightarrow> int (length s)))))
     else (
         die_mode ''cannot transput '' mr '' value with a C-style pattern''))))"

definition write_c_pattern :: "('o, 'z) io_fns_scheme \<Rightarrow> nat \<Rightarrow> u8 list \<Rightarrow> int option \<Rightarrow> int option \<Rightarrow> nat \<Rightarrow> a68_val \<Rightarrow> ('o, unit) tio" where
  "write_c_pattern x fid flags cw ca mr v =
     bndT (c_pattern_text x flags cw ca mr v) (\<lambda>(str, width).
     (let str = takeWhile (\<lambda>c. c \<noteq> CHR 0x00) str in
     if cpat_letter flags \<noteq> CHR ''s'' \<and> a68_fmt_has_error str then die_mode ''error transputting '' mr '' value''
     else (if width = 0 then file_out_take x fid str
     else ((let s = dropWhile (\<lambda>c. c = CHR '' '') str;
          blanks = width - int (length s) in
     if blanks < 0 then die_mode ''error transputting '' mr '' value''
     else ((let left = cpat_flag (CHR ''-'') flags in
     bndT ((if left then file_out x fid (bstr s) else okT ())) (\<lambda>u.
     bndT (eachT [0..<nat blanks] (\<lambda>i. file_out x fid [32])) (\<lambda>u.
     if left then okT () else file_out x fid (bstr s))))))))))"


end
