(* ===== verification/IoPrintf.thy ===== *)
theory IoPrintf
  imports IoPattern
begin

text \<open>\<open>csrc/io.c\<close>: one value with one pattern, values straightened into scalars, and the calls \<open>printf\<close> and \<open>putf\<close>.\<close>

section \<open>General patterns\<close>

definition cannot_general :: "nat \<Rightarrow> bool \<Rightarrow> ('o, 'a) tio" where
  "cannot_general m with_args = die_mode ''cannot transput '' m
     (if with_args then '' value with a general pattern with arguments'' else '' value with a general pattern'')"

text \<open>An INT with up to three arguments; a long one goes through a multi-precision number from two arguments on.\<close>

definition general_int :: "('o, 'z) io_fns_scheme \<Rightarrow> nat \<Rightarrow> a68_mode \<Rightarrow> a68_val \<Rightarrow> int list \<Rightarrow> ('o, string) tio" where
  "general_int x m p v a =
     bndT (askT w_ll) (\<lambda>ll.
     (let n = m_len p in
     bndT (rtT (big_of_val v)) (\<lambda>b.
     if length a = 0 then okT (a68_fmt_print_int b n (int ll))
     else (if length a = 1 then okT (a68_fmt_whole_int b (a ! 0))
     else (if length a = 2 \<and> n \<le> 0 then optT (a68_fmt_fixed_int x b (a ! 0) (a ! 1) False)
     else (if length a = 3 \<and> n \<le> 0 then optT (a68_fmt_float_int b (a ! 0) (a ! 1) (a ! 2) 1)
     else (if length a > 3 then cannot_general m True
     else (bndT (rtT (mp_of_int ll b n)) (\<lambda>z.
     lrtT (if length a = 2 then mp_fmt_fixed ll z n (a ! 0) (a ! 1) else mp_fmt_float ll z n (a ! 0) (a ! 1) (a ! 2) 1))))))))))"

definition general_mp :: "nat \<Rightarrow> int \<Rightarrow> a68_val \<Rightarrow> int list \<Rightarrow> ('o, string) tio" where
  "general_mp m n v a =
     bndT (askT w_ll) (\<lambda>ll.
     if length a = 0 then lrtT (mp_float_std ll v n)
     else (if length a = 1 then lrtT (mp_fmt_whole ll v n (a ! 0))
     else (if length a = 2 then lrtT (mp_fmt_fixed ll v n (a ! 0) (a ! 1))
     else (if length a = 3 then lrtT (mp_fmt_float ll v n (a ! 0) (a ! 1) (a ! 2) 1)
     else (cannot_general m True)))))"

definition general_real :: "('o, 'z) io_fns_scheme \<Rightarrow> nat \<Rightarrow> int \<Rightarrow> u64 \<Rightarrow> int list \<Rightarrow> ('o, string) tio" where
  "general_real x m n r a =
     bndT (askT w_ll) (\<lambda>ll.
     if length a = 0 then optT (a68_fmt_print_real x r n (int ll))
     else (if length a = 1 then optT (a68_fmt_whole_real x r (a ! 0))
     else (if length a = 2 then optT (a68_fmt_fixed_real x r (a ! 0) (a ! 1))
     else (if length a = 3 then optT (a68_fmt_float_real x r (a ! 0) (a ! 1) (a ! 2) 1)
     else (cannot_general m True)))))"


text \<open>A COMPL: both parts, the second made after the first is written.\<close>

definition general_compl :: "('o, 'z) io_fns_scheme \<Rightarrow> nat \<Rightarrow> nat \<Rightarrow> int \<Rightarrow> a68_val \<times> a68_val \<Rightarrow> int list \<Rightarrow> ('o, bool) tio" where
  "general_compl x fid m n q a =
     (case q of (VMp c, VMp d) \<Rightarrow> if a \<noteq> [] then cannot_general m True else bndT (put_mp x fid (VMp c) n) (\<lambda>u. bndT (put_mp x fid (VMp d) n) (\<lambda>u. okT True)) | (VReal c, VReal d) \<Rightarrow> bndT (general_real x m n c a) (\<lambda>s. bndT (file_out_take x fid s) (\<lambda>u. bndT (general_real x m n d a) (\<lambda>s. bndT (file_out_take x fid s) (\<lambda>u. okT True)))) | _ \<Rightarrow> okT False)"


text \<open>Values without a numeric form. The result says whether the value was one of them.\<close>

definition put_plain :: "('o, 'z) io_fns_scheme \<Rightarrow> nat \<Rightarrow> nat \<Rightarrow> a68_mode \<Rightarrow> a68_val \<Rightarrow> ('o, bool) tio" where
  "put_plain x fid mr p v =
     bndT (askT (\<lambda>w. mode_is_string (w_tabs w) mr)) (\<lambda>isstr.
     if m_k p = M_BOOL \<and> tag_of v = 3 then bndT (file_out x fid (bstr (if v = VBool True then ''T'' else ''F''))) (\<lambda>u. okT True)
     else (if m_k p = M_CHAR \<and> tag_of v = 4 then bndT (file_out_byte x fid (ucast (val_bits v))) (\<lambda>u. okT True)
     else (if m_k p = M_BITS \<and> is_bitsval v then bndT (fmt_bits_of x v (m_len p)) (\<lambda>s. bndT (file_out_take x fid s) (\<lambda>u. okT True))
     else (if isstr \<and> tag_of v = 9 then bndT (rtT (str_of v)) (\<lambda>s. bndT (file_out x fid s) (\<lambda>u. okT True))
     else (okT (False))))))"

definition write_general :: "('o, 'z) io_fns_scheme \<Rightarrow> nat \<Rightarrow> nat \<Rightarrow> nat \<Rightarrow> a68_mode \<Rightarrow> a68_val \<Rightarrow> int list \<Rightarrow> ('o, unit) tio" where
  "write_general x fid m mr p v a =
     bndT (rtT (pair_parts v)) (\<lambda>c.
     if m_k p = M_INT \<and> is_intval v then bndT (general_int x m p v a) (file_out_take x fid)
     else (if m_k p = M_REAL \<and> tag_of v = 16 then bndT (general_mp m (m_len p) v a) (file_out_take x fid)
     else (if m_k p = M_REAL \<and> tag_of v = 2 then bndT (resT (check_real (val_bits v))) (\<lambda>u. bndT (general_real x m (m_len p) (val_bits v) a) (file_out_take x fid))
     else (bndT ((if m_k p = M_COMPL \<and> c \<noteq> None then general_compl x fid m (m_len p) (the c) a else okT False)) (\<lambda>done.
     if done then okT (())
     else (if a \<noteq> [] then cannot_general m True
     else (bndT (put_plain x fid mr p v) (\<lambda>done.
     if done then okT (())
     else (bndT (askT (\<lambda>w. mode_is_file_proc (w_tabs w) mr)) (\<lambda>isproc.
     if isproc then print_value x fid mr v else cannot_general m False))))))))))"


section \<open>The other patterns\<close>

fun find_radix :: "fframe list \<Rightarrow> int option" where
  "find_radix [] = None"
| "find_radix (FR_RADIX k # frs) = Some k"
| "find_radix (fr # frs) = find_radix frs"

definition write_radix :: "('o, 'z) io_fns_scheme \<Rightarrow> nat \<Rightarrow> nat \<Rightarrow> a68_mode \<Rightarrow> fframe list \<Rightarrow> int \<Rightarrow> a68_val \<Rightarrow> ('o, unit) tio" where
  "write_radix x fid m p frs rdx v =
     (if \<not>  (m_k p = M_BITS \<and> is_bitsval v) then die_mode ''cannot transput '' m '' value with a bits pattern''
     else (if rdx < 2 \<or> rdx > 16 then dieT (''invalid radix '' @ int_dec rdx)
     else (bndT (rtT (big_of_val v)) (\<lambda>b.
     bndT (optT (convert_radix b (nat rdx) (count_zd frs))) (\<lambda>s.
     (case s of None \<Rightarrow> die_mode ''error transputting '' m '' value'' | Some s \<Rightarrow> write_mould x fid frs s False))))))"

definition write_frames :: "('o, 'z) io_fns_scheme \<Rightarrow> nat \<Rightarrow> nat \<Rightarrow> nat \<Rightarrow> a68_mode \<Rightarrow> fframe list \<Rightarrow> a68_val \<Rightarrow> ('o, unit) tio" where
  "write_frames x fid m mr p frs v =
     bndT (askT (\<lambda>w. mode_is_string (w_tabs w) mr)) (\<lambda>isstr.
     if find_radix frs \<noteq> None then write_radix x fid m p frs (the (find_radix frs)) v
     else (if has_frame frs FR_A then (
         if m_k p = M_CHAR \<and> tag_of v = 4 then string_pattern x fid frs [ucast (val_bits v)]
         else (if isstr then bndT (rtT (str_of v)) (string_pattern x fid frs)
         else (die_mode ''cannot transput '' m '' value with a string pattern'')))
     else if has_frame frs FR_POINT \<or> has_frame frs FR_E then (
         bndT (to_dec x m v) (\<lambda>(neg, d).
         write_real_pattern x fid frs neg d))
     else if m_k p = M_INT \<and> is_intval v then (
         bndT (rtT (big_of_val v)) (\<lambda>b.
         write_integral_pattern x fid frs (big_sign b < 0) (big_to_dec (big_abs b))))
     else if m_k p = M_REAL then (
         dieT ''cannot transput REAL value with an integral pattern'')
     else (
         die_mode ''cannot transput '' m '' value with an integral pattern'')))"

definition write_bool :: "('o, 'z) io_fns_scheme \<Rightarrow> nat \<Rightarrow> nat \<Rightarrow> (u8 list \<times> u8 list) option \<Rightarrow> a68_val \<Rightarrow> ('o, unit) tio" where
  "write_bool x fid m texts v =
     (case v of VBool b \<Rightarrow> file_out x fid (case texts of Some (flip, flop) \<Rightarrow> if b then flip else flop | None \<Rightarrow> bstr (if b then ''T'' else ''F'')) | _ \<Rightarrow> die_mode ''cannot transput '' m '' value with a boolean pattern'')"

definition write_choice :: "('o, 'z) io_fns_scheme \<Rightarrow> nat \<Rightarrow> nat \<Rightarrow> u8 list list \<Rightarrow> a68_val \<Rightarrow> ('o, unit) tio" where
  "write_choice x fid m alts v =
     (case v of VInt i \<Rightarrow> (let k = sint i in if 1 \<le> k \<and> k \<le> int (length alts) then file_out x fid (alts ! nat (k - 1)) else okT ()) | _ \<Rightarrow> die_mode ''cannot transput '' m '' value with a choice pattern'')"


text \<open>Width, digits, exponent and its multiple of an \<open>h\<close> pattern.\<close>

definition h_arguments :: "int \<Rightarrow> int list \<Rightarrow> ('o, int \<times> int \<times> int \<times> int) tio" where
  "h_arguments longness a =
     bndT (askT w_ll) (\<lambda>ll.
     (let rw = real_width_of ll longness;
          ew = exp_width_of longness;
          de = ew + 1 in
     if length a = 0 then okT ((rw + ew + 4, rw - 1, de, 3))
     else (if length a = 1 then okT ((a ! 0 + de + 4, a ! 0, de, 3))
     else (if length a = 2 then okT ((a ! 0 + de + 4, a ! 0, de, a ! 1))
     else (if length a = 3 then okT ((a ! 0, a ! 1, de, a ! 2))
     else (if length a = 4 then okT ((a ! 0, a ! 1, a ! 2, a ! 3))
     else (dieT ''INT arguments required for a general pattern'')))))))"

definition write_hgen :: "('o, 'z) io_fns_scheme \<Rightarrow> nat \<Rightarrow> nat \<Rightarrow> nat \<Rightarrow> a68_mode \<Rightarrow> a68_val \<Rightarrow> int list \<Rightarrow> ('o, unit) tio" where
  "write_hgen x fid m mr p v a =
     (if m_k p = M_INT \<and> is_intval v then (
         bndT (h_arguments (m_len p) a) (\<lambda>(w, af, e, mult).
         bndT (rtT (big_of_val v)) (\<lambda>b.
         bndT (optT (a68_fmt_float_int b w af e mult)) (\<lambda>s.
         file_out_take x fid s))))
     else if m_k p = M_REAL \<and> tag_of v = 2 then (
         bndT (resT (check_real (val_bits v))) (\<lambda>u.
         bndT (h_arguments (m_len p) a) (\<lambda>(w, af, e, mult).
         bndT (optT (a68_fmt_float_real x (val_bits v) w af e mult)) (\<lambda>s.
         file_out_take x fid s))))
     else (
         bndT ((if a = [] then put_plain x fid mr p v else okT False)) (\<lambda>done.
         if done then okT () else cannot_general m False)))"

definition write_pic :: "('o, 'z) io_fns_scheme \<Rightarrow> nat \<Rightarrow> pic \<Rightarrow> nat \<Rightarrow> a68_val \<Rightarrow> ('o, unit) tio" where
  "write_pic x fid pat m v =
     bndT (resolveT m) (\<lambda>mr.
     bndT (modeT mr) (\<lambda>p.
     (case pat of P_INCLUDE e s \<Rightarrow> dieT ''internal: include as pattern'' | P_GENERAL a \<Rightarrow> write_general x fid m mr p v a | P_PATTERN frs \<Rightarrow> write_frames x fid m mr p frs v | P_BOOL texts \<Rightarrow> write_bool x fid m texts v | P_CHOICE alts \<Rightarrow> write_choice x fid m alts v | P_CPAT fl cw ca \<Rightarrow> write_c_pattern x fid fl cw ca mr v | P_HGEN a \<Rightarrow> write_hgen x fid m mr p v a | P_INS s \<Rightarrow> dieT ''internal: insertion as pattern'' | P_COL k \<Rightarrow> dieT ''internal: column alignment as pattern'')))"

definition write_scalar_formatted :: "('o, 'z) io_fns_scheme \<Rightarrow> nat \<Rightarrow> nat \<Rightarrow> a68_val \<Rightarrow> fmt_state \<Rightarrow> ('o, fmt_state) tio" where
  "write_scalar_formatted x fid m v st =
     bndT (resolveT m) (\<lambda>mr.
     bndT (next_pattern x fid True st) (\<lambda>(pat, st).
     if pat = None then dieT ''format exhausted''
     else (bndT (write_pic x fid (the pat) m v) (\<lambda>u.
     okT (st)))))"


section \<open>Values\<close>

definition write_part :: "bool \<Rightarrow> (nat \<Rightarrow> a68_val \<Rightarrow> fmt_state \<Rightarrow> ('o, fmt_state) tio) \<Rightarrow> nat \<Rightarrow> a68_val rt \<Rightarrow> fmt_state \<Rightarrow> ('o, fmt_state) tio" where
  "write_part check self m rd st = bndT (rtT rd) (\<lambda>e.
     if check \<and> e = VUndef then die_mode ''attempt to use an uninitialised '' m '' value'' else self m e st)"

definition write_formatted_body :: "('o, 'z) io_fns_scheme \<Rightarrow> nat \<Rightarrow> (nat \<Rightarrow> a68_val \<Rightarrow> fmt_state \<Rightarrow> ('o, fmt_state) tio) \<Rightarrow> nat \<Rightarrow> a68_val \<Rightarrow> fmt_state \<Rightarrow> ('o, fmt_state) tio" where
  "write_formatted_body x fid self m v st =
     bndT (resolveT m) (\<lambda>mr.
     bndT (modeT mr) (\<lambda>p.
     bndT (askT (\<lambda>w. mode_is_string (w_tabs w) mr)) (\<lambda>isstr.
     bndT (rtT (pair_parts v)) (\<lambda>c.
     if tag_of v = 11 then bndT (rtT (slot_read (val_ptr v, 0))) (\<lambda>e. self (unat (case v of VUnion q a \<Rightarrow> a | _ \<Rightarrow> 0)) e st)
     else (if isstr \<and> tag_of v = 9 then write_scalar_formatted x fid m v st
     else (if m_k p = M_COMPL \<and> c \<noteq> None then bndT (simple_mode M_REAL (m_len p)) (\<lambda>rmode. bndT (self rmode (fst (the c)) st) (self rmode (snd (the c))))
     else (if m_k p = M_ROW \<and> tag_of v = 9 then (
         bndT (rtT (row_len (val_ptr v))) (\<lambda>n.
         foldT (\<lambda>i. write_part True self (m_sub p) (row_at (val_ptr v) i)) (upto_int n) st))
     else if m_k p = M_STRUCT \<and> tag_of v = 10 then (
         bndT (rtT (get_slots (val_ptr v))) (\<lambda>s.
         foldT (\<lambda>i. write_part False self (m_modes p ! i) (slot_read (val_ptr v, i))) [0..<min (m_n p) (length s)] st))
     else if v = VUndef then (
         die_mode ''attempt to use an uninitialised '' m '' value'')
     else (
         write_scalar_formatted x fid m v st))))))))"


primrec write_formatted_n :: "nat \<Rightarrow> ('o, 'z) io_fns_scheme \<Rightarrow> nat \<Rightarrow> nat \<Rightarrow> a68_val \<Rightarrow> fmt_state \<Rightarrow> ('o, fmt_state) tio" where
  "write_formatted_n 0 x fid m v st = failT (Fatal ''stack overflow'')"
| "write_formatted_n (Suc k) x fid m v st = write_formatted_body x fid (write_formatted_n k x fid) m v st"

definition write_formatted :: "('o, 'z) io_fns_scheme \<Rightarrow> nat \<Rightarrow> nat \<Rightarrow> a68_val \<Rightarrow> fmt_state \<Rightarrow> ('o, fmt_state) tio" where
  "write_formatted x fid m v st = bndT (askT (\<lambda>w. depth_limit (w_rt w))) (\<lambda>k. write_formatted_n k x fid m v st)"

section \<open>Calls\<close>

definition is_format_union :: "a68_val \<Rightarrow> ('o, a68_val option) tio" where
  "is_format_union e =
     (case e of VUnion q a \<Rightarrow> bndT (resolveT (unat a)) (\<lambda>i. bndT (modeT i) (\<lambda>p. if m_k p = M_FORMAT then bndT (rtT (slot_read (q, 0))) (\<lambda>v. okT (Some v)) else okT None)) | _ \<Rightarrow> okT None)"


text \<open>The formats of a call: \<open>None\<close> until the first format of the list.\<close>

definition new_format :: "('o, 'z) io_fns_scheme \<Rightarrow> a68_val \<Rightarrow> ('o, fmt_state option) tio" where
  "new_format x f =
     bndT (fmt_of f) (\<lambda>(e, sk).
     bndT (expand_format x e sk False) (\<lambda>fr.
     okT (Some [fr])))"

definition printf_value :: "('o, 'z) io_fns_scheme \<Rightarrow> nat \<Rightarrow> nat \<Rightarrow> a68_val \<Rightarrow> fmt_state \<Rightarrow> ('o, fmt_state option) tio" where
  "printf_value x fid start e st =
     bndT (askT w_pf) (\<lambda>was.
     bndT (need_union ''internal: printf argument'' e) (\<lambda>(q, m).
     bndT (modT (\<lambda>w. if fid = 0 then w\<lparr>w_pf := (True, start, length (w_out w))\<rparr> else w)) (\<lambda>u.
     bndT (rtT (slot_read (q, 0))) (\<lambda>v.
     bndT (write_formatted x fid m v st) (\<lambda>st.
     bndT (modT (\<lambda>w. w\<lparr>w_pf := was\<rparr>)) (\<lambda>u.
     okT (Some st)))))))"

definition printf_item :: "('o, 'z) io_fns_scheme \<Rightarrow> nat \<Rightarrow> nat \<Rightarrow> nat \<Rightarrow> int \<Rightarrow> fmt_state option \<Rightarrow> ('o, fmt_state option) tio" where
  "printf_item x fid start p i st =
     bndT (rtT (row_at p i)) (\<lambda>e.
     bndT (is_format_union e) (\<lambda>f.
     if f \<noteq> None then (
         bndT ((if st \<noteq> None then bndT (next_pattern x fid False (the st)) (\<lambda>r. okT ()) else okT ())) (\<lambda>u.
         new_format x (the f)))
     else if tag_of e = 11 \<and> st = None then (
         dieT ''no format active in printf'')
     else (
         printf_value x fid start e (case st of Some s \<Rightarrow> s | None \<Rightarrow> []))))"

definition printf_items :: "('o, 'z) io_fns_scheme \<Rightarrow> nat \<Rightarrow> a68_val \<Rightarrow> ('o, unit) tio" where
  "printf_items x fid row =
     bndT (need_row ''internal: printf argument'' row) (\<lambda>p.
     bndT (modT (\<lambda>w. w\<lparr>w_col := 0\<rparr>)) (\<lambda>u.
     bndT (askT (\<lambda>w. length (w_out w))) (\<lambda>start.
     bndT (rtT (row_len p)) (\<lambda>n.
     bndT (foldT (printf_item x fid start p) (upto_int n) None) (\<lambda>st.
     bndT ((if st = None then okT None else bndT (next_pattern x fid False (the st)) (\<lambda>(l, s). okT l))) (\<lambda>left.
     if left \<noteq> None then dieT ''format has unused patterns''
     else (modT (\<lambda>w. w\<lparr>w_cut := False\<rparr>))))))))"


end
