(* ===== verification/IoReadF.thy ===== *)
theory IoReadF
  imports IoPrintf
begin

text \<open>
  \<open>csrc/io.c\<close>: formatted input. A value takes the next pattern of the format, whose insertions are skipped in
  the input; the characters its frames cover are read and converted.
\<close>

section \<open>The cursor on input\<close>

definition read_insertion :: "('o, 'z) io_fns_scheme \<Rightarrow> nat \<Rightarrow> u8 list \<Rightarrow> ('o, unit) tio" where
  "read_insertion x fid s =
     eachT s (\<lambda>b. if b = 10 then skip_line x fid else skip_char x fid)"

partial_function (option) read_pattern :: "('o, 'z) io_fns_scheme \<Rightarrow> nat \<Rightarrow> fmt_state \<Rightarrow> ('o, pic \<times> fmt_state) tio" where
  "read_pattern x fid st wld =
     ((if st = [] then dieT ''format exhausted''
     else ((let fr = hd st;
          i = ff_cursor (hd st) in
     if i < length (ff_pics fr) then (
         (let p = ff_pics fr ! i;
              next = at_cursor (i + 1) fr # tl st in
         if is_ins p then bndT (read_insertion x fid (p_text p)) (\<lambda>u. read_pattern x fid next)
         else (if is_col p then read_pattern x fid next
         else (if is_include p then bndT (expand_format x (p_env p) (p_skel p) True) (\<lambda>nf. read_pattern x fid (nf # next))
         else (okT ((p, next)))))))
     else (
         if ff_embedded fr then read_pattern x fid (tl st)
         else (if ff_pics fr = [] then dieT ''format exhausted''
         else (read_pattern x fid [last (at_cursor 0 fr # tl st)]))))))) wld"


section \<open>Conversions\<close>


text \<open>Exactly \<open>n\<close> characters.\<close>

primrec read_n :: "('o, 'z) io_fns_scheme \<Rightarrow> nat \<Rightarrow> nat \<Rightarrow> ('o, u8 list) tio" where
  "read_n x fid 0 = okT []"
| "read_n x fid (Suc n) = bndT (read_char x fid) (\<lambda>c. case c of
     None \<Rightarrow> logical_end x fid
   | Some b \<Rightarrow> bndT (read_n x fid n) (\<lambda>bs. okT (b # bs)))"

definition is_hex :: "u8 \<Rightarrow> bool" where
  "is_hex c \<longleftrightarrow> 48 \<le> c \<and> c \<le> 57 \<or> 97 \<le> c \<and> c \<le> 102 \<or> 65 \<le> c \<and> c \<le> 70"

definition read_c_int :: "('o, 'z) io_fns_scheme \<Rightarrow> nat \<Rightarrow> nat \<Rightarrow> int \<Rightarrow> nat \<Rightarrow> a68_val \<Rightarrow> ('o, unit) tio" where
  "read_c_int x fid tm longness n r =
     bndT (read_n x fid n) (\<lambda>b.
     bndT (askT w_ll) (\<lambda>ll.
     (let k = parse_int_text (cstr b) in
     if k = None \<or> big_cmp (big_abs (the k)) (max_int_of ll longness) > 0 then value_error_mode x fid tm b
     else (bndT (rtT (val_of_big (the k))) (\<lambda>v.
     rtT (store_ref r v))))))"

definition read_c_real :: "('o, 'z) io_fns_scheme \<Rightarrow> nat \<Rightarrow> nat \<Rightarrow> nat \<Rightarrow> a68_val \<Rightarrow> ('o, unit) tio" where
  "read_c_real x fid tm n r =
     bndT (read_n x fid n) (\<lambda>b.
     (case parse_real_text x (cstr b) of None \<Rightarrow> value_error_mode x fid tm b | Some d \<Rightarrow> rtT (store_ref r (VReal d))))"

definition read_c_bits :: "('o, 'z) io_fns_scheme \<Rightarrow> nat \<Rightarrow> nat \<Rightarrow> int \<Rightarrow> nat \<Rightarrow> a68_val \<Rightarrow> ('o, unit) tio" where
  "read_c_bits x fid radix longness n r =
     bndT ((if n = 0 then skip_spaces x fid else okT ())) (\<lambda>u.
     bndT ((if n = 0 then take_while x fid is_hex [] else read_n x fid n)) (\<lambda>b.
     bndT (radix_value x (cstr b) radix longness) (\<lambda>v.
     rtT (store_ref r v))))"


text \<open>The last character of the field, or the first one when it is aligned left.\<close>

definition read_c_char :: "('o, 'z) io_fns_scheme \<Rightarrow> nat \<Rightarrow> int \<Rightarrow> bool \<Rightarrow> a68_val \<Rightarrow> ('o, unit) tio" where
  "read_c_char x fid width lft r =
     bndT (read_n x fid (nat width)) (\<lambda>b.
     (let off = (if width > 1 \<and> \<not>  lft then nat width - 1 else 0) in
     rtT (store_ref r (VChar (if off < length b then ucast (b ! off) else 32)))))"

definition read_c_string :: "('o, 'z) io_fns_scheme \<Rightarrow> nat \<Rightarrow> int \<Rightarrow> a68_val \<Rightarrow> ('o, unit) tio" where
  "read_c_string x fid width r =
     bndT (read_n x fid (nat width)) (\<lambda>b.
     bndT (rtT (of_string b)) (\<lambda>v.
     rtT (store_ref r v)))"


text \<open>Without a width the value is read as \<open>get\<close> reads it.\<close>

definition read_c_pattern :: "('o, 'z) io_fns_scheme \<Rightarrow> nat \<Rightarrow> u8 list \<Rightarrow> int option \<Rightarrow> nat \<Rightarrow> nat \<Rightarrow> a68_val \<Rightarrow> ('o, unit) tio" where
  "read_c_pattern x fid flags cw m tm r =
     bndT (modeT tm) (\<lambda>q.
     bndT (askT (\<lambda>w. mode_is_string (w_tabs w) tm)) (\<lambda>isstr.
     (let letter = cpat_letter flags;
          width = (case cw of Some w \<Rightarrow> w | None \<Rightarrow> 0);
          sg = cpat_flag (CHR ''+'') flags;
          n = nat (if sg then width + 1 else width) in
     if m_k q = M_CHAR \<and> letter = CHR ''c'' then if width = 0 then read_into x fid m r else read_c_char x fid width (cpat_flag (CHR ''-'') flags) r
     else (if isstr \<and> letter = CHR ''s'' then if width = 0 then read_into x fid m r else read_c_string x fid width r
     else (if m_k q = M_INT \<and> letter \<in> {CHR ''d'', CHR ''i''} then if width = 0 then read_into x fid m r else read_c_int x fid tm (m_len q) n r
     else (if m_k q = M_REAL \<and> letter \<in> {CHR ''f'', CHR ''e'', CHR ''g''} then if width = 0 then read_into x fid m r else read_c_real x fid tm n r
     else (if m_k q = M_BITS \<and> letter \<in> {CHR ''b'', CHR ''o'', CHR ''x''} then read_c_bits x fid (if letter = CHR ''b'' then 2 else if letter = CHR ''o'' then 8 else 16) (m_len q) (nat width) r
     else (die_mode ''cannot transput '' tm '' value with a C-style pattern''))))))))"


text \<open>The digits of a bits pattern; a \<open>z\<close> frame takes a blank for a zero.\<close>

primrec radix_frames :: "('o, 'z) io_fns_scheme \<Rightarrow> nat \<Rightarrow> nat \<Rightarrow> fframe list \<Rightarrow> u8 list \<Rightarrow> ('o, u8 list) tio" where
  "radix_frames x fid tm [] b = okT b"
| "radix_frames x fid tm (fr # frs) b = (case fr of
     FR_INS s \<Rightarrow> bndT (read_insertion x fid s) (\<lambda>u. radix_frames x fid tm frs b)
   | _ \<Rightarrow> if \<not> is_zd fr then radix_frames x fid tm frs b
     else bndT (read_char x fid) (\<lambda>c. case c of
         None \<Rightarrow> logical_end x fid
       | Some c \<Rightarrow> if fr = FR_Z \<and> c = 32 then radix_frames x fid tm frs (b @ [48])
           else if is_hex c then radix_frames x fid tm frs (b @ [c])
           else value_error_mode x fid tm (b @ [c])))"

definition read_radix :: "('o, 'z) io_fns_scheme \<Rightarrow> nat \<Rightarrow> fframe list \<Rightarrow> int \<Rightarrow> nat \<Rightarrow> a68_val \<Rightarrow> ('o, unit) tio" where
  "read_radix x fid frs rdx tm r =
     bndT (modeT tm) (\<lambda>q.
     if m_k q \<noteq> M_BITS then die_mode ''cannot transput '' tm '' value with a bits pattern''
     else (if rdx < 2 \<or> rdx > 16 then dieT (''invalid radix '' @ int_dec rdx)
     else (bndT (radix_frames x fid tm frs []) (\<lambda>b.
     bndT (radix_value x (cstr b) (nat rdx) (m_len q)) (\<lambda>v.
     rtT (store_ref r v))))))"


text \<open>The characters the frames of a kind cover.\<close>

primrec frame_chars :: "('o, 'z) io_fns_scheme \<Rightarrow> nat \<Rightarrow> (fframe \<Rightarrow> bool) \<Rightarrow> fframe list \<Rightarrow> u8 list \<Rightarrow> ('o, u8 list) tio" where
  "frame_chars x fid takes [] b = okT b"
| "frame_chars x fid takes (fr # frs) b = (case fr of
     FR_INS s \<Rightarrow> bndT (read_insertion x fid s) (\<lambda>u. frame_chars x fid takes frs b)
   | _ \<Rightarrow> if \<not> takes fr then frame_chars x fid takes frs b
     else bndT (read_char x fid) (\<lambda>c. case c of
         None \<Rightarrow> logical_end x fid
       | Some c \<Rightarrow> frame_chars x fid takes frs (b @ [c])))"

definition is_number_frame :: "fframe \<Rightarrow> bool" where
  "is_number_frame fr \<longleftrightarrow> fr \<in> {FR_Z, FR_D, FR_PLUS, FR_MINUS, FR_POINT, FR_E}"

definition read_string_frames :: "('o, 'z) io_fns_scheme \<Rightarrow> nat \<Rightarrow> fframe list \<Rightarrow> nat \<Rightarrow> a68_val \<Rightarrow> ('o, unit) tio" where
  "read_string_frames x fid frs tm r =
     bndT (modeT tm) (\<lambda>q.
     bndT (frame_chars x fid (\<lambda>fr. fr = FR_A) frs []) (\<lambda>b.
     if m_k q = M_CHAR then rtT (store_ref r (VChar (case b of c # cs \<Rightarrow> ucast c | [] \<Rightarrow> 32)))
     else (bndT (rtT (of_string b)) (\<lambda>v.
     rtT (store_ref r v)))))"

definition read_number_frames :: "('o, 'z) io_fns_scheme \<Rightarrow> nat \<Rightarrow> fframe list \<Rightarrow> nat \<Rightarrow> a68_val \<Rightarrow> ('o, unit) tio" where
  "read_number_frames x fid frs tm r =
     bndT (modeT tm) (\<lambda>q.
     bndT (frame_chars x fid is_number_frame frs []) (\<lambda>b.
     (let b = filter (\<lambda>c. c \<noteq> 32) b in
     if m_k q = M_INT then (
         if \<not>  is_int_text (cstr b) then dieT (''cannot read INT from '' @ quoted b)
         else (bndT (rtT (int_of_text (cstr b))) (\<lambda>v.
         rtT (store_ref r v))))
     else if m_k q = M_REAL then (
         store_real x tm (m_len q) b r)
     else (
         dieT ''numeric pattern on non-numeric value''))))"

definition read_frames :: "('o, 'z) io_fns_scheme \<Rightarrow> nat \<Rightarrow> fframe list \<Rightarrow> nat \<Rightarrow> a68_val \<Rightarrow> ('o, unit) tio" where
  "read_frames x fid frs tm r =
     (if find_radix frs \<noteq> None then read_radix x fid frs (the (find_radix frs)) tm r
     else (if has_frame frs FR_A then read_string_frames x fid frs tm r
     else (read_number_frames x fid frs tm r)))"

definition read_bool_pattern :: "('o, 'z) io_fns_scheme \<Rightarrow> nat \<Rightarrow> (u8 list \<times> u8 list) option \<Rightarrow> a68_val \<Rightarrow> ('o, unit) tio" where
  "read_bool_pattern x fid texts r =
     bndT (read_token x fid) (\<lambda>tok.
     (let val = (case texts of Some (flip, flop) \<Rightarrow> (if tok = flip then True else if tok = flop then False else tok = bstr ''T'') | None \<Rightarrow> tok = bstr ''T'') in
     rtT (store_ref r (VBool val))))"


text \<open>The longest alternative at the position, the first of those as long.\<close>

definition best_alternative :: "u8 list list \<Rightarrow> u8 list \<Rightarrow> (nat \<times> nat) option" where
  "best_alternative alts inp = fold (\<lambda>i best. let s = alts ! i in
     if take (length s) inp = s \<and> (case best of None \<Rightarrow> True | Some (j, l) \<Rightarrow> length s > l)
     then Some (i, length s) else best) [0..<length alts] None"

definition read_choice :: "('o, 'z) io_fns_scheme \<Rightarrow> nat \<Rightarrow> u8 list list \<Rightarrow> a68_val \<Rightarrow> ('o, unit) tio" where
  "read_choice x fid alts r =
     bndT (load_file x fid) (\<lambda>f.
     (let best = best_alternative alts (drop (fl_pos f) (fl_buf f)) in
     if best = None then value_error x fid ''no alternative of the choice pattern matches the input''
     else (bndT (file_upd fid (\<lambda>f. f\<lparr>fl_pos := fl_pos f + snd (the best)\<rparr>)) (\<lambda>u.
     rtT (store_ref r (VInt (of_nat (fst (the best) + 1))))))))"

definition read_scalar_formatted :: "('o, 'z) io_fns_scheme \<Rightarrow> nat \<Rightarrow> nat \<Rightarrow> a68_val \<Rightarrow> fmt_state \<Rightarrow> ('o, fmt_state) tio" where
  "read_scalar_formatted x fid m r st =
     bndT (read_pattern x fid st) (\<lambda>(pat, st).
     bndT (resolveT m) (\<lambda>mr.
     bndT (modeT mr) (\<lambda>p.
     bndT ((if m_k p = M_REF then resolveT (m_sub p) else okT mr)) (\<lambda>tm.
     bndT ((case pat of P_GENERAL a \<Rightarrow> read_into x fid m r | P_HGEN a \<Rightarrow> read_into x fid m r | P_CPAT fl cw ca \<Rightarrow> read_c_pattern x fid fl cw m tm r | P_PATTERN frs \<Rightarrow> read_frames x fid frs tm r | P_BOOL texts \<Rightarrow> read_bool_pattern x fid texts r | P_CHOICE alts \<Rightarrow> read_choice x fid alts r | _ \<Rightarrow> dieT ''internal: pattern expected'')) (\<lambda>u.
     okT (st))))))"


section \<open>Values\<close>


text \<open>\<open>read_union\<close> with the state of the formats.\<close>

definition read_union_st :: "(nat \<Rightarrow> a68_val \<Rightarrow> fmt_state \<Rightarrow> ('o, fmt_state) tio) \<Rightarrow> nat \<Rightarrow> a68_val \<Rightarrow> fmt_state \<Rightarrow> ('o, fmt_state) tio" where
  "read_union_st rd t r st =
     bndT (rtT (load_name r)) (\<lambda>cur.
     bndT ((case cur of VUnion q a \<Rightarrow> okT (q, a) | _ \<Rightarrow> die_mode ''attempt to use an uninitialised '' t '' value'')) (\<lambda>(q, um).
     bndT (rtT (slots_alloc 1)) (\<lambda>tmp.
     bndT (rtT (slot_read (q, 0))) (\<lambda>v.
     bndT (rtT (slot_write (tmp, 0) v)) (\<lambda>u.
     bndT (rtT (push (VRef tmp 0))) (\<lambda>u.
     bndT (ref_mode (unat um)) (\<lambda>m.
     bndT (rd m (VRef tmp 0) st) (\<lambda>st.
     bndT (rtT (slots_alloc 1)) (\<lambda>n.
     bndT (rtT (slot_read (tmp, 0))) (\<lambda>v.
     bndT (rtT (slot_write (n, 0) v)) (\<lambda>u.
     bndT (rtT (store_ref r (VUnion n um))) (\<lambda>u.
     bndT (rtT (pop)) (\<lambda>d.
     okT (st))))))))))))))"

definition read_compl_st :: "(nat \<Rightarrow> a68_val \<Rightarrow> fmt_state \<Rightarrow> ('o, fmt_state) tio) \<Rightarrow> int \<Rightarrow> a68_val \<Rightarrow> fmt_state \<Rightarrow> ('o, fmt_state) tio" where
  "read_compl_st self longness r st =
     bndT (rtT (load_name r)) (\<lambda>cur.
     bndT (rtT ((case cur of VStruct c \<Rightarrow> ret () | _ \<Rightarrow> bnd undef_pair (store_ref r)))) (\<lambda>u.
     bndT (simple_mode M_REAL longness) (\<lambda>sm.
     bndT (ref_mode sm) (\<lambda>m.
     bndT (rtT (ref_field r 0)) (\<lambda>re.
     bndT (self m re st) (\<lambda>st.
     bndT (rtT (ref_field r 1)) (\<lambda>im.
     self m im st)))))))"

definition read_elems_st :: "(nat \<Rightarrow> a68_val \<Rightarrow> fmt_state \<Rightarrow> ('o, fmt_state) tio) \<Rightarrow> nat \<Rightarrow> a68_val \<Rightarrow> fmt_state \<Rightarrow> ('o, fmt_state) tio" where
  "read_elems_st self em r st =
     bndT (row_of_name r) (\<lambda>p.
     bndT (rtT (row_len p)) (\<lambda>n.
     bndT (ref_mode em) (\<lambda>m.
     foldT (\<lambda>i st. bndT (rtT (elem_name r i)) (\<lambda>e. self m e st)) (upto_int n) st)))"

definition read_fields_st :: "(nat \<Rightarrow> a68_val \<Rightarrow> fmt_state \<Rightarrow> ('o, fmt_state) tio) \<Rightarrow> nat list \<Rightarrow> a68_val \<Rightarrow> fmt_state \<Rightarrow> ('o, fmt_state) tio" where
  "read_fields_st self ms r st =
     foldT (\<lambda>i st. bndT (ref_mode (ms ! i)) (\<lambda>m. bndT (rtT (ref_field r i)) (\<lambda>e. self m e st))) [0..<length ms] st"

definition read_formatted_body :: "('o, 'z) io_fns_scheme \<Rightarrow> nat \<Rightarrow> (nat \<Rightarrow> a68_val \<Rightarrow> fmt_state \<Rightarrow> ('o, fmt_state) tio) \<Rightarrow> nat \<Rightarrow> a68_val \<Rightarrow> fmt_state \<Rightarrow> ('o, fmt_state) tio" where
  "read_formatted_body x fid self m r st =
     bndT (resolveT m) (\<lambda>mr.
     bndT (modeT mr) (\<lambda>p.
     bndT (askT (\<lambda>w. mode_is_file_proc (w_tabs w) mr)) (\<lambda>isproc.
     bndT ((if m_k p = M_REF then resolveT (m_sub p) else if isproc then simple_mode M_VOID 0 else okT mr)) (\<lambda>tm.
     bndT (modeT tm) (\<lambda>q.
     bndT (askT (\<lambda>w. mode_is_string (w_tabs w) tm)) (\<lambda>isstr.
     if m_k q = M_VOID then bndT (read_into x fid m r) (\<lambda>u. okT st)
     else (if m_k q = M_STRUCT then read_fields_st self (take (m_n q) (m_modes q)) r st
     else (if m_k q = M_COMPL then read_compl_st self (m_len q) r st
     else (if m_k q = M_UNION then read_union_st self tm r st
     else (if m_k q = M_ROW \<and> \<not>  isstr \<and> m_dims q = 1 then read_elems_st self (m_sub q) r st
     else (read_scalar_formatted x fid m r st)))))))))))"


primrec read_formatted_n :: "nat \<Rightarrow> ('o, 'z) io_fns_scheme \<Rightarrow> nat \<Rightarrow> nat \<Rightarrow> a68_val \<Rightarrow> fmt_state \<Rightarrow> ('o, fmt_state) tio" where
  "read_formatted_n 0 x fid m r st = failT (Fatal ''stack overflow'')"
| "read_formatted_n (Suc k) x fid m r st = read_formatted_body x fid (read_formatted_n k x fid) m r st"

definition read_formatted :: "('o, 'z) io_fns_scheme \<Rightarrow> nat \<Rightarrow> nat \<Rightarrow> a68_val \<Rightarrow> fmt_state \<Rightarrow> ('o, fmt_state) tio" where
  "read_formatted x fid m r st = bndT (askT (\<lambda>w. depth_limit (w_rt w))) (\<lambda>k. read_formatted_n k x fid m r st)"

section \<open>Calls\<close>


text \<open>The insertions after the last pattern; the length of the picture lists bounds the loop.\<close>

function purge_read :: "('o, 'z) io_fns_scheme \<Rightarrow> nat \<Rightarrow> fmt_state \<Rightarrow> ('o, fmt_state) tio" where
  "purge_read x fid [] = okT []"
| "purge_read x fid (fr # frs) = (let i = ff_cursor fr in
     if i < length (ff_pics fr) then
       (let p = ff_pics fr ! i in
        if is_ins p then bndT (read_insertion x fid (p_text p)) (\<lambda>u. purge_read x fid (at_cursor (i + 1) fr # frs))
        else if is_col p then purge_read x fid (at_cursor (i + 1) fr # frs)
        else okT (fr # frs))
     else if ff_embedded fr then purge_read x fid frs else okT (fr # frs))"
  by pat_completeness auto
termination
  by (relation "measure (\<lambda>(x, fid, st). length st + sum_list (map (\<lambda>fr. length (ff_pics fr) - ff_cursor fr) st))")
    (auto simp: at_cursor_def)

declare purge_read.simps [simp del]

definition getf_item :: "('o, 'z) io_fns_scheme \<Rightarrow> nat \<Rightarrow> nat \<Rightarrow> int \<Rightarrow> fmt_state option \<Rightarrow> ('o, fmt_state option) tio" where
  "getf_item x fid p i st =
     bndT (rtT (row_at p i)) (\<lambda>e.
     bndT (is_format_union e) (\<lambda>f.
     if f \<noteq> None then (
         bndT ((if st \<noteq> None then bndT (purge_read x fid (the st)) (\<lambda>r. okT ()) else okT ())) (\<lambda>u.
         new_format x (the f)))
     else (
         bndT (need_union ''internal: read argument'' e) (\<lambda>(q, m).
         bndT (rtT (slot_read (q, 0))) (\<lambda>v.
         if st = None then bndT (read_into x fid m v) (\<lambda>u. okT None)
         else (bndT (read_formatted x fid m v (the st)) (\<lambda>st.
         okT (Some st))))))))"

definition getf_items_of :: "('o, 'z) io_fns_scheme \<Rightarrow> nat \<Rightarrow> nat \<Rightarrow> ('o, unit) tio" where
  "getf_items_of x fid p =
     bndT (rtT (row_len p)) (\<lambda>n.
     bndT (foldT (getf_item x fid p) (upto_int n) None) (\<lambda>st.
     if st = None then okT () else bndT (purge_read x fid (the st)) (\<lambda>s. okT ())))"

definition getf_items :: "('o, 'z) io_fns_scheme \<Rightarrow> nat \<Rightarrow> a68_val \<Rightarrow> ('o, unit) tio" where
  "getf_items x fid row =
     bndT (need_row ''internal: read argument'' row) (\<lambda>p.
     bndT (refresh_assoc fid) (\<lambda>u.
     bndT (catchT (getf_items_of x fid p)) (\<lambda>c.
     okT (()))))"


end
