(* ===== verification/IoBin.thy ===== *)
theory IoBin
  imports IoReadF
begin

text \<open>
  \<open>csrc/io.c\<close>: transput on strings, binary transput, and the start-up of transput. Binary values are laid out as
  the objects of C: little-endian, four bytes for INT, BITS, BOOL and CHAR, eight for REAL, the length and the
  characters for a string.
\<close>

section \<open>String files\<close>

definition with_string_file :: "(nat \<Rightarrow> ('o, unit) tio) \<Rightarrow> ('o, u8 list) tio" where
  "with_string_file act =
     bndT (askT w_col) (\<lambda>col.
     bndT (askT w_cut) (\<lambda>cut.
     bndT (modT (\<lambda>w. w\<lparr>w_cut := False\<rparr>)) (\<lambda>u.
     bndT (file_push (file_default\<lparr>fl_loaded := True, fl_channel := 4\<rparr>)) (\<lambda>fid.
     bndT (act fid) (\<lambda>u.
     bndT (file_get fid) (\<lambda>g.
     bndT (file_pop fid) (\<lambda>u.
     bndT (modT (\<lambda>w. w\<lparr>w_col := col, w_cut := cut\<rparr>)) (\<lambda>u.
     okT (fl_buf g)))))))))"


section \<open>Binary input\<close>

definition u32_at :: "u8 list \<Rightarrow> u32" where
  "u32_at b = or (ucast (b ! 0)) (or (push_bit 8 (ucast (b ! 1))) (or (push_bit 16 (ucast (b ! 2))) (push_bit 24 (ucast (b ! 3)))))"

text \<open>Eight bytes, from the last one.\<close>

definition u64_at :: "u8 list \<Rightarrow> u64" where
  "u64_at b = foldr (\<lambda>c u. u * 256 + ucast c) b 0"

definition read_bin_bytes :: "('o, 'z) io_fns_scheme \<Rightarrow> nat \<Rightarrow> nat \<Rightarrow> ('o, u8 list) tio" where
  "read_bin_bytes x fid n = read_n x fid n"

definition read_bin_scalar :: "('o, 'z) io_fns_scheme \<Rightarrow> nat \<Rightarrow> nat \<Rightarrow> (u8 list \<Rightarrow> a68_val) \<Rightarrow> a68_val \<Rightarrow> ('o, unit) tio" where
  "read_bin_scalar x fid n g r =
     bndT (read_bin_bytes x fid n) (\<lambda>b.
     rtT (store_ref r (g b)))"

definition read_bin_string :: "('o, 'z) io_fns_scheme \<Rightarrow> nat \<Rightarrow> a68_val \<Rightarrow> ('o, unit) tio" where
  "read_bin_string x fid r =
     bndT (read_bin_bytes x fid 4) (\<lambda>b.
     bndT (read_bin_bytes x fid (nat (sint (u32_at b)))) (\<lambda>s.
     bndT (rtT (string_row s 1)) (\<lambda>v.
     rtT (store_ref r v))))"

definition read_bin_name :: "('o, 'z) io_fns_scheme \<Rightarrow> nat \<Rightarrow> (nat \<Rightarrow> a68_val \<Rightarrow> ('o, unit) tio) \<Rightarrow> nat \<Rightarrow> a68_val \<Rightarrow> ('o, unit) tio" where
  "read_bin_name x fid self tsub r =
     bndT (resolveT tsub) (\<lambda>t.
     bndT (modeT t) (\<lambda>q.
     bndT (askT (\<lambda>w. mode_is_string (w_tabs w) t)) (\<lambda>isstr.
     if m_k q = M_INT \<and> m_len q = 0 then read_bin_scalar x fid 4 (\<lambda>b. VInt (scast (u32_at b))) r
     else (if m_k q = M_BITS \<and> m_len q = 0 then read_bin_scalar x fid 4 (\<lambda>b. VBits (ucast (u32_at b))) r
     else (if m_k q = M_BOOL then read_bin_scalar x fid 4 (\<lambda>b. VBool (u32_at b \<noteq> 0)) r
     else (if m_k q = M_CHAR then read_bin_scalar x fid 4 (\<lambda>b. VChar (ucast (b ! 0))) r
     else (if m_k q = M_REAL \<and> m_len q = 0 then read_bin_scalar x fid 8 (\<lambda>b. VReal (u64_at b)) r
     else (if m_k q = M_STRUCT then read_fields self (take (m_n q) (m_modes q)) r
     else (if m_k q = M_ROW \<and> isstr then read_bin_string x fid r
     else (if m_k q = M_ROW \<and> m_dims q = 1 then read_elems self (m_sub q) r
     else (die_mode ''cannot read a value of mode '' t '' in binary'')))))))))))"

definition read_bin_body :: "('o, 'z) io_fns_scheme \<Rightarrow> nat \<Rightarrow> (nat \<Rightarrow> a68_val \<Rightarrow> ('o, unit) tio) \<Rightarrow> nat \<Rightarrow> a68_val \<Rightarrow> ('o, unit) tio" where
  "read_bin_body x fid self m r =
     bndT (resolveT m) (\<lambda>mr.
     bndT (modeT mr) (\<lambda>p.
     bndT (askT (\<lambda>w. mode_is_file_proc (w_tabs w) mr)) (\<lambda>isproc.
     if m_k p = M_REF then read_bin_name x fid self (m_sub p) r
     else (if isproc then read_into x fid m r
     else (die_mode ''cannot read into a value of mode '' m [])))))"


primrec read_bin_n :: "nat \<Rightarrow> ('o, 'z) io_fns_scheme \<Rightarrow> nat \<Rightarrow> nat \<Rightarrow> a68_val \<Rightarrow> ('o, unit) tio" where
  "read_bin_n 0 x fid m r = failT (Fatal ''stack overflow'')"
| "read_bin_n (Suc k) x fid m r = read_bin_body x fid (read_bin_n k x fid) m r"

definition read_bin :: "('o, 'z) io_fns_scheme \<Rightarrow> nat \<Rightarrow> nat \<Rightarrow> a68_val \<Rightarrow> ('o, unit) tio" where
  "read_bin x fid m r = bndT (askT (\<lambda>w. depth_limit (w_rt w))) (\<lambda>k. read_bin_n k x fid m r)"

section \<open>Binary output\<close>

definition le_u8 :: "nat \<Rightarrow> u64 \<Rightarrow> u8 list" where
  "le_u8 n v = map (\<lambda>i. ucast (drop_bit (8 * i) v)) [0..<n]"

definition out_le :: "('o, 'z) io_fns_scheme \<Rightarrow> nat \<Rightarrow> u64 \<Rightarrow> nat \<Rightarrow> ('o, unit) tio" where
  "out_le x fid v n = file_out x fid (le_u8 n v)"

definition write_bin_string :: "('o, 'z) io_fns_scheme \<Rightarrow> nat \<Rightarrow> a68_val \<Rightarrow> ('o, unit) tio" where
  "write_bin_string x fid v =
     bndT (rtT (str_of v)) (\<lambda>s.
     bndT (out_le x fid (of_nat (length s)) 4) (\<lambda>u.
     file_out x fid s))"


text \<open>The bytes of a scalar, if the mode and the value have some.\<close>

definition bin_scalar :: "a68_mode \<Rightarrow> a68_val \<Rightarrow> u8 list option" where
  "bin_scalar p v = (case (m_k p, v) of
     (M_INT, VInt i) \<Rightarrow> if m_len p = 0 then Some (le_u8 4 i) else None
   | (M_BITS, VBits b) \<Rightarrow> if m_len p = 0 then Some (le_u8 4 b) else None
   | (M_BOOL, VBool b) \<Rightarrow> Some (le_u8 4 (if b then 1 else 0))
   | (M_CHAR, VChar c) \<Rightarrow> Some (le_u8 4 (ucast c))
   | (M_REAL, VReal r) \<Rightarrow> if m_len p = 0 then Some (le_u8 8 r) else None
   | _ \<Rightarrow> None)"

definition write_bin_body :: "('o, 'z) io_fns_scheme \<Rightarrow> nat \<Rightarrow> (nat \<Rightarrow> a68_val \<Rightarrow> ('o, unit) tio) \<Rightarrow> nat \<Rightarrow> a68_val \<Rightarrow> ('o, unit) tio" where
  "write_bin_body x fid self m v =
     bndT (resolveT m) (\<lambda>mr.
     bndT (modeT mr) (\<lambda>p.
     bndT (askT (\<lambda>w. mode_is_string (w_tabs w) mr)) (\<lambda>isstr.
     bndT (askT (\<lambda>w. mode_is_file_proc (w_tabs w) mr)) (\<lambda>isproc.
     if tag_of v = 11 then bndT (rtT (slot_read (val_ptr v, 0))) (self (unat (case v of VUnion q a \<Rightarrow> a | _ \<Rightarrow> 0)))
     else (if bin_scalar p v \<noteq> None then file_out x fid (the (bin_scalar p v))
     else (if isstr \<and> tag_of v = 9 then write_bin_string x fid v
     else (if m_k p = M_ROW \<and> tag_of v = 9 then (
         bndT (rtT (row_len (val_ptr v))) (\<lambda>n.
         eachT (upto_int n) (\<lambda>i. bndT (rtT (row_at (val_ptr v) i)) (self (m_sub p)))))
     else if m_k p = M_STRUCT \<and> tag_of v = 10 then (
         bndT (rtT (get_slots (val_ptr v))) (\<lambda>s.
         eachT [0..<min (m_n p) (length s)] (\<lambda>i. bndT (rtT (slot_read (val_ptr v, i))) (self (m_modes p ! i)))))
     else if m_k p = M_PROC \<and> isproc then (
         print_value x fid mr v)
     else if v = VUndef then (
         die_mode ''attempt to use an uninitialised '' m '' value'')
     else (
         die_mode ''cannot write a value of mode '' mr '' in binary''))))))))"


primrec write_bin_n :: "nat \<Rightarrow> ('o, 'z) io_fns_scheme \<Rightarrow> nat \<Rightarrow> nat \<Rightarrow> a68_val \<Rightarrow> ('o, unit) tio" where
  "write_bin_n 0 x fid m v = failT (Fatal ''stack overflow'')"
| "write_bin_n (Suc k) x fid m v = write_bin_body x fid (write_bin_n k x fid) m v"

definition write_bin :: "('o, 'z) io_fns_scheme \<Rightarrow> nat \<Rightarrow> nat \<Rightarrow> a68_val \<Rightarrow> ('o, unit) tio" where
  "write_bin x fid m v = bndT (askT (\<lambda>w. depth_limit (w_rt w))) (\<lambda>k. write_bin_n k x fid m v)"

section \<open>Start-up\<close>


text \<open>Standard output, input and error, and \<open>stand back\<close>. The program sees its arguments as a68g gives them.\<close>

definition io_init :: "string list \<Rightarrow> string \<Rightarrow> bool \<Rightarrow> nat \<Rightarrow> 'o io_world \<Rightarrow> 'o io_world" where
  "io_init argv src regression ll w = set_files (w_files w @ replicate 4 file_default)
     (w\<lparr>w_regression := regression, w_ll := ll, w_args := ''a68g'' # src # drop 1 argv\<rparr>)"

end
