(* ===== verification/IoProps.thy ===== *)
theory IoProps
  imports IoBin
begin

text \<open>
  Properties of transput on files in memory: a file is a channel of bytes, of which the locale \<open>byte_channel\<close>
  states the laws; what is written in binary is read back; loops that look for a character end.
\<close>

section \<open>Running\<close>

lemma io_run_simps [simp]:
  "okT a w = Some (Done a, w)" "failT e w = Some (Failed e, w)" "askT g w = Some (Done (g w), w)"
  "modT h w = Some (Done (), h w)" "resT (Inr a) w = Some (Done a, w)" "resT (Inl e) w = Some (Failed e, w)"
  by (simp_all add: okT_def failT_def askT_def modT_def resT_def)

lemma bndT_run: "m w = Some (Done a, w') \<Longrightarrow> bndT m k w = k a w'"
  by (simp add: bndT_def)

lemma bndT_unit [simp]: "bndT m (\<lambda>u. okT ()) = m"
  by (rule ext) (auto simp: bndT_def okT_def split: bind_splits outcome.splits)

lemma bndT_okT [simp]: "bndT m okT = m"
  by (rule ext) (auto simp: bndT_def okT_def split: bind_splits outcome.splits)

lemma eachT_append: "eachT (xs @ ys) f = bndT (eachT xs f) (\<lambda>u. eachT ys f)"
  by (induction xs) (simp_all add: bndT_assoc del: io_run_simps)

lemma bndT_None: "m w = None \<Longrightarrow> bndT m k w = None" by (simp add: bndT_def)

lemma resolveT_step [simp]:
  "bndT (resolveT m) k w = (case mode_resolve (w_tabs w) m of Inl e \<Rightarrow> Some (Failed e, w) | Inr mr \<Rightarrow> k mr w)"
  by (simp add: resolveT_def bndT_assoc) (simp add: bndT_def split: sum.split)

lemma modeT_step [simp]: "bndT (modeT i) k w = k (mode_at (w_tabs w) i) w"
  by (simp add: modeT_def)

lemma set_files_simps [simp]:
  "w_files (set_files fs w) = fs" "w_tabs (set_files fs w) = w_tabs w" "w_out (set_files fs w) = w_out w"
  "w_cut (set_files fs w) = w_cut w" "w_col (set_files fs w) = w_col w" "w_ll (set_files fs w) = w_ll w"
  "w_catch (set_files fs w) = w_catch w" "set_files fs (set_files gs w) = set_files fs w"
  "depth_limit (w_rt (set_files fs w)) = depth_limit (w_rt w)"
  by (simp_all add: set_files_def)

lemma file_get_run: "fid < length (w_files w) \<Longrightarrow> file_get fid w = Some (Done (w_files w ! fid), w)"
  by (simp add: file_get_def)

lemma file_upd_run:
  "fid < length (w_files w) \<Longrightarrow> file_upd fid h w = Some (Done (), set_files ((w_files w)[fid := h (w_files w ! fid)]) w)"
  by (simp add: file_upd_def bndT_run [OF file_get_run])

section \<open>Files in memory\<close>

text \<open>A file that is neither a standard file, nor the end of a pipe, nor associated with a string.\<close>

definition mem_file :: "nat \<Rightarrow> 'o io_world \<Rightarrow> bool" where
  "mem_file fid w \<longleftrightarrow> 2 < fid \<and> fid < length (w_files w) \<and>
     (let f = w_files w ! fid in fl_fd f < 0 \<and> fl_assoc f = VUndef \<and> fl_loaded f)"

text \<open>What can still be read from it.\<close>

definition pending :: "nat \<Rightarrow> 'o io_world \<Rightarrow> u8 list" where
  "pending fid w = (let f = w_files w ! fid in drop (fl_pos f) (fl_buf f))"

text \<open>The file after a write and after \<open>n\<close> characters have been read.\<close>

definition written :: "nat \<Rightarrow> u8 list \<Rightarrow> 'o io_world \<Rightarrow> 'o io_world" where
  "written fid s w = set_files ((w_files w)[fid := (w_files w ! fid)\<lparr>fl_buf := fl_buf (w_files w ! fid) @ s,
     fl_writing := True, fl_dirty := True, fl_loaded := True\<rparr>]) (w\<lparr>w_col := next_col s (w_col w)\<rparr>)"

definition moved :: "nat \<Rightarrow> nat \<Rightarrow> 'o io_world \<Rightarrow> 'o io_world" where
  "moved fid n w = (if n = 0 then w else set_files ((w_files w)[fid := (w_files w ! fid)\<lparr>fl_reading := True,
     fl_pos := fl_pos (w_files w ! fid) + n\<rparr>]) w)"

lemma mem_fileD:
  assumes "mem_file fid w"
  shows "fid \<noteq> 0" "fid \<noteq> 1" "fid \<noteq> 2" "fid < length (w_files w)" "fl_fd (w_files w ! fid) < 0"
    "fl_assoc (w_files w ! fid) = VUndef" "fl_loaded (w_files w ! fid)"
  using assms by (simp_all add: mem_file_def Let_def)

lemma world_eta [simp]:
  "w_files (w\<lparr>w_col := c\<rparr>) = w_files w" "w_tabs (w\<lparr>w_col := c\<rparr>) = w_tabs w"
  "depth_limit (w_rt (w\<lparr>w_col := c\<rparr>)) = depth_limit (w_rt w)"
  by simp_all

lemma file_out_mem: "mem_file fid w \<Longrightarrow> file_out x fid s w = Some (Done (), written fid s w)"
  using mem_fileD [of fid w]
  by (simp add: file_out_def written_def file_get_run bndT_run [where w = "w\<lparr>w_col := c\<rparr>" for c] file_upd_run)

lemma load_mem: "mem_file fid w \<Longrightarrow> load_file x fid w = Some (Done (w_files w ! fid), w)"
  using mem_fileD [of fid w] by (simp add: load_file_def bndT_run [OF file_get_run])

lemma read_char_mem:
  "mem_file fid w \<Longrightarrow> read_char x fid w = (case pending fid w of
     [] \<Rightarrow> Some (Done None, w) | b # bs \<Rightarrow> Some (Done (Some b), moved fid 1 w))"
  using mem_fileD [of fid w]
  by (simp add: read_char_def bndT_run [OF load_mem] bndT_run [OF file_upd_run] pending_def moved_def Let_def
      Cons_nth_drop_Suc [symmetric] split: list.splits)

lemma mem_written [simp]:
  "mem_file fid w \<Longrightarrow> mem_file fid (written fid s w)"
  "mem_file fid w \<Longrightarrow> fl_pos (w_files w ! fid) \<le> length (fl_buf (w_files w ! fid)) \<Longrightarrow>
     pending fid (written fid s w) = pending fid w @ s"
  by (auto simp: mem_file_def written_def pending_def Let_def)

lemma mem_moved [simp]:
  "mem_file fid w \<Longrightarrow> mem_file fid (moved fid n w)"
  "mem_file fid w \<Longrightarrow> pending fid (moved fid n w) = drop n (pending fid w)"
  "mem_file fid w \<Longrightarrow> moved fid m (moved fid n w) = moved fid (n + m) w"
  by (auto simp: mem_file_def moved_def pending_def Let_def add_ac intro!: arg_cong2 [where f = set_files] )

lemma moved_fields [simp]:
  "w_tabs (moved fid n w) = w_tabs w" "depth_limit (w_rt (moved fid n w)) = depth_limit (w_rt w)"
  "w_tabs (written fid s w) = w_tabs w" "depth_limit (w_rt (written fid s w)) = depth_limit (w_rt w)"
  "w_ll (moved fid n w) = w_ll w" "w_ll (written fid s w) = w_ll w"
  by (simp_all add: moved_def written_def)

lemma read_n_mem:
  "mem_file fid w \<Longrightarrow> n \<le> length (pending fid w) \<Longrightarrow>
   read_n x fid n w = Some (Done (take n (pending fid w)), moved fid n w)"
proof (induction n arbitrary: w)
  case 0
  then show ?case by (simp add: moved_def)
next
  case (Suc n)
  then obtain b bs where p: "pending fid w = b # bs" by (cases "pending fid w") auto
  have r: "read_n x fid n (moved fid 1 w) = Some (Done (take n bs), moved fid (Suc n) w)"
    using Suc.IH [of "moved fid 1 w"] Suc.prems p by simp
  have c: "read_char x fid w = Some (Done (Some b), moved fid 1 w)" using Suc.prems(1) p by (simp add: read_char_mem)
  show ?case using p c r by (simp add: bndT_def)
qed

section \<open>The channel\<close>

text \<open>A place where bytes can be put, and from where they are taken in the order they were put.\<close>

locale byte_channel =
  fixes ready :: "'o io_world \<Rightarrow> bool" and content :: "'o io_world \<Rightarrow> u8 list"
    and put :: "u8 list \<Rightarrow> ('o, unit) tio" and fetch :: "nat \<Rightarrow> ('o, u8 list) tio"
  assumes put_ok: "ready w \<Longrightarrow> \<exists>w'. put s w = Some (Done (), w') \<and> ready w' \<and> content w' = content w @ s"
    and fetch_ok: "ready w \<Longrightarrow> n \<le> length (content w) \<Longrightarrow>
      \<exists>w'. fetch n w = Some (Done (take n (content w)), w') \<and> ready w' \<and> content w' = drop n (content w)"
begin

lemma put_all: "ready w \<Longrightarrow> \<exists>w'. eachT ss put w = Some (Done (), w') \<and> ready w' \<and> content w' = content w @ concat ss"
proof (induction ss arbitrary: w)
  case (Cons s ss)
  obtain w1 where w1: "put s w = Some (Done (), w1)" "ready w1" "content w1 = content w @ s"
    using put_ok [OF Cons.prems] by blast
  show ?case using Cons.IH [OF w1(2)] w1 by (auto simp: bndT_def)
qed simp

lemma fetch_all:
  "ready w \<Longrightarrow> content w = concat ss @ t \<Longrightarrow>
   \<exists>w'. collectT (map length ss) fetch w = Some (Done ss, w') \<and> ready w' \<and> content w' = t"
proof (induction ss arbitrary: w)
  case (Cons s ss)
  obtain w1 where w1: "fetch (length s) w = Some (Done s, w1)" "ready w1" "content w1 = concat ss @ t"
    using fetch_ok [OF Cons.prems(1), of "length s"] Cons.prems(2) by auto
  show ?case using Cons.IH [OF w1(2,3)] w1(1) by (auto simp: bndT_def)
qed simp

lemma first_in_first_out:
  assumes "ready w"
  shows "\<exists>w'. bndT (eachT ss put) (\<lambda>u. bndT (fetch (length (content w))) (\<lambda>old. collectT (map length ss) fetch)) w = Some (Done ss, w')
    \<and> ready w' \<and> content w' = []"
proof -
  obtain w1 where w1: "eachT ss put w = Some (Done (), w1)" "ready w1" "content w1 = content w @ concat ss"
    using put_all [OF assms] by blast
  obtain w2 where w2: "fetch (length (content w)) w1 = Some (Done (content w), w2)" "ready w2" "content w2 = concat ss"
    using fetch_ok [OF w1(2), of "length (content w)"] w1(3) by auto
  show ?thesis using fetch_all [OF w2(2), of ss "[]"] w1(1) w2 by (auto simp: bndT_def)
qed

end

text \<open>A file in memory whose position is within its buffer is such a channel.\<close>

definition mem_ready :: "nat \<Rightarrow> 'o io_world \<Rightarrow> bool" where
  "mem_ready fid w \<longleftrightarrow> mem_file fid w \<and> fl_pos (w_files w ! fid) \<le> length (fl_buf (w_files w ! fid))"

lemma mem_ready_written:
  assumes "mem_ready fid w"
  shows "mem_ready fid (written fid s w)" and "pending fid (written fid s w) = pending fid w @ s"
proof -
  have m: "mem_file fid w" "fl_pos (w_files w ! fid) \<le> length (fl_buf (w_files w ! fid))"
    using assms by (simp_all add: mem_ready_def)
  then show "pending fid (written fid s w) = pending fid w @ s" by simp
  have "w_files (written fid s w) ! fid = (w_files w ! fid)\<lparr>fl_buf := fl_buf (w_files w ! fid) @ s,
     fl_writing := True, fl_dirty := True, fl_loaded := True\<rparr>"
    using mem_fileD(4) [OF m(1)] by (simp add: written_def)
  then show "mem_ready fid (written fid s w)" using m by (simp add: mem_ready_def)
qed

lemma mem_ready_moved:
  assumes "mem_ready fid w" "n \<le> length (pending fid w)"
  shows "mem_ready fid (moved fid n w)" and "pending fid (moved fid n w) = drop n (pending fid w)"
proof -
  have m: "mem_file fid w" "fl_pos (w_files w ! fid) \<le> length (fl_buf (w_files w ! fid))"
    using assms(1) by (simp_all add: mem_ready_def)
  then show "pending fid (moved fid n w) = drop n (pending fid w)" by simp
  have p: "n \<noteq> 0 \<Longrightarrow> w_files (moved fid n w) ! fid = (w_files w ! fid)\<lparr>fl_reading := True, fl_pos := fl_pos (w_files w ! fid) + n\<rparr>"
    using mem_fileD(4) [OF m(1)] by (simp add: moved_def)
  show "mem_ready fid (moved fid n w)"
  proof (cases "n = 0")
    case True
    then show ?thesis using assms(1) by (simp add: moved_def)
  next
    case False
    then show ?thesis using p m assms(2) by (simp add: mem_ready_def pending_def Let_def)
  qed
qed

interpretation mem: byte_channel "mem_ready fid" "pending fid" "file_out x fid" "read_n x fid" for fid x
proof
  fix w :: "'a io_world" and s
  assume r: "mem_ready fid w"
  then have "file_out x fid s w = Some (Done (), written fid s w)" by (simp add: mem_ready_def file_out_mem)
  then show "\<exists>w'. file_out x fid s w = Some (Done (), w') \<and> mem_ready fid w' \<and> pending fid w' = pending fid w @ s"
    using mem_ready_written [OF r] by blast
next
  fix w :: "'a io_world" and n
  assume r: "mem_ready fid w" "n \<le> length (pending fid w)"
  then have "read_n x fid n w = Some (Done (take n (pending fid w)), moved fid n w)" by (simp add: mem_ready_def read_n_mem)
  then show "\<exists>w'. read_n x fid n w = Some (Done (take n (pending fid w)), w') \<and> mem_ready fid w' \<and>
      pending fid w' = drop n (pending fid w)"
    using mem_ready_moved [OF r] by blast
qed

section \<open>Binary transput\<close>

lemma le_u8_list: "le_u8 4 v = [ucast v, ucast (drop_bit 8 v), ucast (drop_bit 16 v), ucast (drop_bit 24 v)]"
  "le_u8 8 v = [ucast v, ucast (drop_bit 8 v), ucast (drop_bit 16 v), ucast (drop_bit 24 v),
     ucast (drop_bit 32 v), ucast (drop_bit 40 v), ucast (drop_bit 48 v), ucast (drop_bit 56 v)]"
  by (simp_all add: le_u8_def upt_rec)

lemma length_le_u8 [simp]: "length (le_u8 n v) = n" by (simp add: le_u8_def)

lemma u32_at_le [simp]: "u32_at (le_u8 4 v) = ucast v"
proof (rule bit_word_eqI)
  fix n
  assume "n < LENGTH(32)"
  then consider "n < 8" | "8 \<le> n" "n < 16" | "16 \<le> n" "n < 24" | "24 \<le> n" "n < 32" by fastforce
  then show "bit (u32_at (le_u8 4 v)) n \<longleftrightarrow> bit (ucast v :: u32) n"
    by cases (auto simp: le_u8_list u32_at_def bit_simps)
qed

text \<open>The value of \<open>k\<close> bytes, by the same recursion from the last one.\<close>

lemma byte_join: "(u :: u64) * 256 + ucast (c :: u8) = or (push_bit 8 u) (ucast c)"
proof -
  have "and (push_bit 8 u) (ucast c) = 0" by (rule bit_word_eqI) (auto simp: bit_simps dest: bit_imp_le_length)
  then have "push_bit 8 u + ucast c = or (push_bit 8 u) (ucast c)" by (rule disjunctive_add_eq_or)
  then show ?thesis by (simp add: push_bit_eq_mult)
qed

lemma le_u8_Suc: "le_u8 (Suc k) v = ucast v # le_u8 k (drop_bit 8 v)"
  unfolding le_u8_def by (simp add: map_upt_Suc add.commute del: upt_Suc)

lemma le_u8_value: "foldr (\<lambda>c u. u * 256 + ucast c) (le_u8 k v) 0 = take_bit (8 * k) (v :: u64)"
proof (induction k arbitrary: v)
  case 0
  then show ?case by (simp add: le_u8_def)
next
  case (Suc k)
  have "or (push_bit 8 (take_bit (8 * k) (drop_bit 8 v))) (ucast (ucast v :: u8)) = take_bit (8 * Suc k) v"
    by (rule bit_word_eqI) (auto simp: bit_simps)
  then show ?case by (simp add: le_u8_Suc byte_join Suc [unfolded byte_join])
qed

lemma u64_at_le [simp]: "u64_at (le_u8 8 v) = v"
  unfolding u64_at_def le_u8_value by (rule bit_word_eqI) (simp add: bit_simps)

text \<open>The values whose binary form loses nothing: 32 bits for INT, BITS and CHAR, of which a byte is kept.\<close>

definition bin_fits :: "a68_val \<Rightarrow> bool" where
  "bin_fits v = (case v of VInt i \<Rightarrow> scast (ucast i :: u32) = i | VBits b \<Rightarrow> ucast (ucast b :: u32) = b
     | VChar c \<Rightarrow> ucast (ucast c :: u8) = c | _ \<Rightarrow> True)"

lemma bin_scalar_cases:
  assumes "bin_scalar p v = Some bs"
  obtains (Int) i where "m_k p = M_INT" "m_len p = 0" "v = VInt i" "bs = le_u8 4 i"
    | (Bits) b where "m_k p = M_BITS" "m_len p = 0" "v = VBits b" "bs = le_u8 4 b"
    | (Bool) b where "m_k p = M_BOOL" "v = VBool b" "bs = le_u8 4 (if b then 1 else 0)"
    | (Char) c where "m_k p = M_CHAR" "v = VChar c" "bs = le_u8 4 (ucast c)"
    | (Real) r where "m_k p = M_REAL" "m_len p = 0" "v = VReal r" "bs = le_u8 8 r"
  using assms by (auto simp: bin_scalar_def split: a68_mkind.splits a68_val.splits if_splits)

lemma write_bin_run:
  assumes "mem_file fid w" "mode_resolve (w_tabs w) m = Inr mr" "bin_scalar (mode_at (w_tabs w) mr) v = Some bs"
    and "0 < depth_limit (w_rt w)"
  shows "write_bin x fid m v w = Some (Done (), written fid bs w)"
proof -
  obtain k where k: "depth_limit (w_rt w) = Suc k" using assms(4) by (cases "depth_limit (w_rt w)") auto
  have t: "tag_of v \<noteq> 11" using assms(3) by (cases rule: bin_scalar_cases) auto
  show ?thesis using assms(2,3) t
    by (simp add: write_bin_def k write_bin_body_def  file_out_mem [OF assms(1)])
qed

lemma read_bin_scalar_run:
  assumes "mem_file fid w" "n \<le> length (pending fid w)"
  shows "read_bin_scalar x fid n g r w = rtT (store_ref r (g (take n (pending fid w)))) (moved fid n w)"
  using read_n_mem [OF assms, of x] by (simp add: read_bin_scalar_def read_bin_bytes_def bndT_def)

lemma u32_bool [simp]: "ucast (if b then 1 else 0 :: u64) = (if b then 1 else 0 :: u32)" by simp

lemma read_bin_run:
  assumes f: "mem_file fid w" and nm: "mode_resolve (w_tabs w) nm = Inr rr" "m_k (mode_at (w_tabs w) rr) = M_REF"
    and mr: "mode_resolve (w_tabs w) (m_sub (mode_at (w_tabs w) rr)) = Inr mr"
    and v: "bin_scalar (mode_at (w_tabs w) mr) v = Some bs" "bin_fits v"
    and p: "pending fid w = bs @ t" and d: "0 < depth_limit (w_rt w)"
  shows "read_bin x fid nm r w = rtT (store_ref r v) (moved fid (length bs) w)"
proof -
  obtain k where k: "depth_limit (w_rt w) = Suc k" using d by (cases "depth_limit (w_rt w)") auto
  have n: "read_bin x fid nm r w = read_bin_name x fid (read_bin_n k x fid) (m_sub (mode_at (w_tabs w) rr)) r w"
    using nm by (simp add: read_bin_def k read_bin_body_def )
  show ?thesis using v(1)
  proof (cases rule: bin_scalar_cases)
    case (Char c)
    have "(ucast (ucast c :: u64) :: u8) = ucast c" by (rule bit_word_eqI) (simp add: bit_simps)
    then have "le_u8 4 (ucast c) ! 0 = (ucast c :: u8)" by (simp add: le_u8_list)
    then show ?thesis using Char v(2) p mr
      by (simp add: n read_bin_name_def  read_bin_scalar_run [OF f] nth_append bin_fits_def)
  qed (use v(2) p mr in \<open>simp_all add: n read_bin_name_def  read_bin_scalar_run [OF f] bin_fits_def\<close>)
qed

text \<open>
  C31: binary transput gives back what was written: a value of mode INT, BITS, BOOL, CHAR or REAL that fits the 32 bits
  (a byte for CHAR) of its binary form, written with \<open>put bin\<close> to a file in memory that is read to its end and
  then read with \<open>get bin\<close> into a name of its mode, is stored in that name unchanged, and the file is at its end again.
\<close>

theorem bin_round_trip:
  assumes "mem_ready fid w" "pending fid w = []" "0 < depth_limit (w_rt w)"
    and "mode_resolve (w_tabs w) m = Inr mr" "bin_scalar (mode_at (w_tabs w) mr) v = Some bs" "bin_fits v"
    and "mode_resolve (w_tabs w) nm = Inr rr" "m_k (mode_at (w_tabs w) rr) = M_REF"
    and "mode_resolve (w_tabs w) (m_sub (mode_at (w_tabs w) rr)) = Inr mr"
  shows "\<exists>w'. bndT (write_bin x fid m v) (\<lambda>u. read_bin x fid nm r) w = rtT (store_ref r v) w' \<and>
    mem_ready fid w' \<and> pending fid w' = []"
proof -
  let ?w1 = "written fid bs w" and ?w2 = "moved fid (length bs) (written fid bs w)"
  have f: "mem_file fid w" using assms(1) by (simp add: mem_ready_def)
  have r1: "mem_ready fid ?w1" "pending fid ?w1 = bs" using mem_ready_written [OF assms(1)] assms(2) by simp_all
  have "write_bin x fid m v w = Some (Done (), ?w1)" by (rule write_bin_run [OF f assms(4,5,3)])
  moreover have "read_bin x fid nm r ?w1 = rtT (store_ref r v) ?w2"
    using read_bin_run [of fid ?w1 nm rr mr v bs "[]" x r] r1 assms f by simp
  ultimately have "bndT (write_bin x fid m v) (\<lambda>u. read_bin x fid nm r) w = rtT (store_ref r v) ?w2"
    by (simp add: bndT_def)
  moreover have "mem_ready fid ?w2" "pending fid ?w2 = []" using mem_ready_moved [OF r1(1), of "length bs"] r1(2) by simp_all
  ultimately show ?thesis by blast
qed

definition demo_tabs :: a68_tables where
  "demo_tabs = tables0\<lparr>t_modes := [mode0 M_INT, (mode0 M_REF)\<lparr>m_sub := 0\<rparr>]\<rparr>"

definition demo_rt :: rt_state where
  "demo_rt = \<lparr>heap = (\<lambda>_. None), all_objects = [], free_lists = (\<lambda>_. []), next_addr = 1, block_cap = (\<lambda>_. 0),
     bytes_allocated = 0, bytes_live = 0, gc_wanted = False, gc_off = False, gc_stress = False, gc_verify = False,
     gc_limit = 0, gc_min_between = 8388608, gc_collections = 0, gc_freed_bytes = 0, gc_peak_live = 0,
     quarantine = (\<lambda>_. []), stack = [], env = 0, saved = [], io_roots = [], native_roots = [], jump_flag = 0,
     line_no = 0, strtab = [], depth_limit = 100\<rparr>"

text \<open>A world with one file in memory, number 4, that holds the bytes \<open>s\<close>.\<close>

definition demo_world :: "u8 list \<Rightarrow> unit io_world" where
  "demo_world s = \<lparr>w_cache = mp_cache_reset, w_rt = demo_rt, w_tabs = demo_tabs,
     w_files = replicate 4 file_default @ [file_default\<lparr>fl_loaded := True, fl_buf := s\<rparr>], w_out = [], w_stdout = [], w_stderr = [],
     w_cut = False, w_col = 0, w_pf = (False, 0, 0), w_catch = [], w_taus = (0, 0, 0, 0), w_ll = 10, w_regression = False,
     w_args = [], w_os = ()\<rparr>"

lemma demo_world_ready: "mem_ready 4 (demo_world s)" "pending 4 (demo_world s) = s"
  by (simp_all add: mem_ready_def mem_file_def demo_world_def pending_def file_default_def nth_append)

lemma demo_modes:
  "mode_resolve demo_tabs 0 = Inr 0" "mode_resolve demo_tabs 1 = Inr 1" "mode_at demo_tabs 0 = mode0 M_INT"
  "mode_at demo_tabs 1 = (mode0 M_REF)\<lparr>m_sub := 0\<rparr>"
  by (simp_all add: mode_resolve_def resolve_loop.simps(2) [of 31, simplified] demo_tabs_def tables0_def mode_at_def mode0_def)

theorem bin_round_trip_witness:
  "\<forall>x r. \<exists>w'. bndT (write_bin x 4 0 (VInt (- 7))) (\<lambda>u. read_bin x 4 1 r) (demo_world []) = rtT (store_ref r (VInt (- 7))) w' \<and>
    mem_ready 4 w' \<and> pending 4 w' = []"
proof (intro allI)
  fix x :: "(unit, 'a) io_fns_scheme" and r
  have t: "w_tabs (demo_world []) = demo_tabs" "depth_limit (w_rt (demo_world [])) = 100"
    by (simp_all add: demo_world_def demo_rt_def)
  show "\<exists>w'. bndT (write_bin x 4 0 (VInt (- 7))) (\<lambda>u. read_bin x 4 1 r) (demo_world []) = rtT (store_ref r (VInt (- 7))) w' \<and>
    mem_ready 4 w' \<and> pending 4 w' = []"
    by (rule bin_round_trip [where mr = 0 and rr = 1 and bs = "le_u8 4 (- 7)"])
      (simp_all add: t demo_modes demo_modes [unfolded One_nat_def] demo_world_ready bin_scalar_def bin_fits_def mode0_def)
qed

section \<open>Loops of input\<close>

lemma peek_char_mem:
  "mem_file fid w \<Longrightarrow> peek_char x fid w = Some (Done (case pending fid w of [] \<Rightarrow> None | b # bs \<Rightarrow> Some b), w)"
  by (auto simp: peek_char_def bndT_run [OF load_mem] pending_def Let_def hd_drop_conv_nth [symmetric] split: list.splits)

lemma at_end_mem: "mem_file fid w \<Longrightarrow> at_end x fid w = Some (Done (pending fid w = []), w)"
  by (simp add: at_end_def bndT_run [OF load_mem] pending_def Let_def)

lemma skip_line_mem:
  assumes "mem_file fid w"
  shows "\<exists>n. skip_line x fid w = Some (Done (), moved fid n w) \<and> n \<le> length (pending fid w) \<and>
    drop n (pending fid w) = drop 1 (dropWhile (\<lambda>b. b \<noteq> 10) (pending fid w))"
  using assms
proof (induction "pending fid w" arbitrary: w)
  case Nil
  then have "skip_line x fid w = Some (Done (), moved fid 0 w)"
    by (simp add: skip_line.simps read_char_mem bndT_def moved_def split: list.splits)
  then show ?case using Nil by auto
next
  case (Cons b bs)
  have c: "read_char x fid w = Some (Done (Some b), moved fid 1 w)" using Cons.prems Cons.hyps(2) by (simp add: read_char_mem flip: Cons.hyps(2))
  have p: "pending fid (moved fid 1 w) = bs" using Cons.prems by (simp flip: Cons.hyps(2))
  show ?case
  proof (cases "b = 10")
    case True
    then have "skip_line x fid w = Some (Done (), moved fid 1 w)" using c by (simp add: skip_line.simps bndT_def)
    then show ?thesis using True by (auto simp flip: Cons.hyps(2) intro!: exI [of _ 1])
  next
    case False
    obtain n where n: "skip_line x fid (moved fid 1 w) = Some (Done (), moved fid n (moved fid 1 w))" "n \<le> length bs"
        "drop n bs = drop 1 (dropWhile (\<lambda>b. b \<noteq> 10) bs)"
      using Cons.hyps(1) [of "moved fid 1 w"] Cons.prems p by auto
    have "skip_line x fid w = skip_line x fid (moved fid 1 w)" using c False by (simp add: skip_line.simps [of x fid w] bndT_def)
    then show ?thesis using n False Cons.prems by (auto simp flip: Cons.hyps(2) intro!: exI [of _ "Suc n"])
  qed
qed

lemma skip_while_mem:
  "mem_file fid w \<Longrightarrow> skip_while x fid p w = Some (Done (), moved fid (length (takeWhile p (pending fid w))) w)"
proof (induction "pending fid w" arbitrary: w)
  case Nil
  have "skip_while x fid p w = Some (Done (), w)"
    using Nil by (simp add: skip_while.simps [of x fid p w] peek_char_mem bndT_def flip: Nil.hyps)
  then show ?case by (simp add: moved_def flip: Nil.hyps)
next
  case (Cons b bs)
  have c: "read_char x fid w = Some (Done (Some b), moved fid 1 w)" "peek_char x fid w = Some (Done (Some b), w)"
    using Cons.prems by (simp_all add: read_char_mem peek_char_mem flip: Cons.hyps(2))
  have q: "pending fid (moved fid 1 w) = bs" using Cons.prems by (simp flip: Cons.hyps(2))
  show ?case
    using Cons.hyps(1) [of "moved fid 1 w"] Cons.prems c q
    by (auto simp: skip_while.simps [of x fid p w] bndT_def moved_def [of fid 0] simp flip: Cons.hyps(2))
qed

lemma take_while_mem:
  "mem_file fid w \<Longrightarrow> take_while x fid p acc w =
    Some (Done (acc @ takeWhile p (pending fid w)), moved fid (length (takeWhile p (pending fid w))) w)"
proof (induction "pending fid w" arbitrary: w acc)
  case Nil
  have "take_while x fid p acc w = Some (Done acc, w)"
    using Nil by (simp add: take_while.simps [of x fid p acc w] peek_char_mem bndT_def flip: Nil.hyps)
  then show ?case by (simp add: moved_def flip: Nil.hyps)
next
  case (Cons b bs)
  have c: "read_char x fid w = Some (Done (Some b), moved fid 1 w)" "peek_char x fid w = Some (Done (Some b), w)"
    using Cons.prems by (simp_all add: read_char_mem peek_char_mem flip: Cons.hyps(2))
  have q: "pending fid (moved fid 1 w) = bs" using Cons.prems by (simp flip: Cons.hyps(2))
  show ?case
    using Cons.hyps(1) [of "moved fid 1 w" "acc @ [b]"] Cons.prems c q
    by (auto simp: take_while.simps [of x fid p acc w] bndT_def moved_def [of fid 0] simp flip: Cons.hyps(2))
qed

lemma skip_spaces_mem:
  "mem_file fid w \<Longrightarrow> skip_spaces x fid w = Some (Done (), moved fid (length (takeWhile is_space (pending fid w))) w)"
  by (simp add: skip_spaces_def skip_while_mem)

lemma drop_takeWhile: "drop (length (takeWhile p xs)) xs = dropWhile p xs"
  by (induction xs) auto

text \<open>
  C32: reading ends on a file in memory, and takes what it should. \<open>read_token\<close> passes over blanks and, when a word
  follows, gives exactly its characters up to the next blank and leaves the rest to be read; \<open>skip_line\<close> leaves
  what follows the next end of line, or nothing when there is none.
\<close>

theorem mem_reading_ends:
  assumes "mem_ready fid w"
  shows "(\<exists>w'. skip_line x fid w = Some (Done (), w') \<and> mem_ready fid w' \<and>
      pending fid w' = drop 1 (dropWhile (\<lambda>b. b \<noteq> 10) (pending fid w))) \<and>
    (dropWhile is_space (pending fid w) = [] \<or>
     (\<exists>w'. read_token x fid w = Some (Done (takeWhile (\<lambda>c. \<not> is_space c) (dropWhile is_space (pending fid w))), w') \<and>
        mem_ready fid w' \<and> pending fid w' = dropWhile (\<lambda>c. \<not> is_space c) (dropWhile is_space (pending fid w))))"
proof (intro conjI disjCI)
  have f: "mem_file fid w" using assms by (simp add: mem_ready_def)
  obtain n where n: "skip_line x fid w = Some (Done (), moved fid n w)" "n \<le> length (pending fid w)"
      "drop n (pending fid w) = drop 1 (dropWhile (\<lambda>b. b \<noteq> 10) (pending fid w))"
    using skip_line_mem [OF f] by blast
  then show "\<exists>w'. skip_line x fid w = Some (Done (), w') \<and> mem_ready fid w' \<and>
      pending fid w' = drop 1 (dropWhile (\<lambda>b. b \<noteq> 10) (pending fid w))"
    using mem_ready_moved [OF assms n(2)] by auto
next
  have f: "mem_file fid w" using assms by (simp add: mem_ready_def)
  let ?k = "length (takeWhile is_space (pending fid w))" and ?q = "dropWhile is_space (pending fid w)"
  assume ne: "\<not> (\<exists>w'. read_token x fid w = Some (Done (takeWhile (\<lambda>c. \<not> is_space c) ?q), w') \<and>
        mem_ready fid w' \<and> pending fid w' = dropWhile (\<lambda>c. \<not> is_space c) ?q)"
  let ?w1 = "moved fid ?k w" and ?j = "length (takeWhile (\<lambda>c. \<not> is_space c) ?q)"
  have r: "mem_ready fid ?w1" "pending fid ?w1 = ?q"
    using mem_ready_moved [OF assms, of ?k] length_takeWhile_le [of is_space "pending fid w"] by (simp_all add: drop_takeWhile)
  then have f1: "mem_file fid ?w1" by (simp add: mem_ready_def)
  show "?q = []"
  proof (rule ccontr)
    assume q: "?q \<noteq> []"
    have "read_token x fid w = Some (Done (takeWhile (\<lambda>c. \<not> is_space c) ?q), moved fid ?j ?w1)"
      using q skip_spaces_mem [OF f, of x] at_end_mem [OF f1, of x]
        take_while_mem [OF f1, of x "\<lambda>c. \<not> is_space c" "[]"] r(2)
      by (auto simp: read_token_def bndT_def)
    then show False
      using ne mem_ready_moved [OF r(1), of ?j] length_takeWhile_le [of "\<lambda>c. \<not> is_space c" ?q] r(2) by (auto simp: drop_takeWhile)
  qed
qed

theorem mem_reading_ends_witness:
  "\<forall>x. \<exists>w'. read_token x 4 (demo_world [32, 52, 50, 10, 55]) = Some (Done [52, 50], w') \<and> pending 4 w' = [10, 55]"
proof
  fix x :: "(unit, 'a) io_fns_scheme"
  show "\<exists>w'. read_token x 4 (demo_world [32, 52, 50, 10, 55]) = Some (Done [52, 50], w') \<and> pending 4 w' = [10, 55]"
    using mem_reading_ends [OF demo_world_ready(1) [of "[32, 52, 50, 10, 55]"], of x]
    by (auto simp: demo_world_ready is_space_def)
qed

section \<open>Output in pieces\<close>

lemma next_col_append: "next_col (s @ t) c = next_col t (next_col s c)"
  by (simp add: next_col_def)

lemma file_out_std:
  "fid = 0 \<Longrightarrow> file_out x fid s w = Some (Done (), (if w_cut w then w\<lparr>w_col := next_col s (w_col w)\<rparr>
     else w\<lparr>w_col := next_col s (w_col w), w_cut := 0 \<in> set s, w_out := w_out w @ takeWhile (\<lambda>b. b \<noteq> 0) s\<rparr>))"
  by (cases "w_cut w"; cases "0 \<in> set s") (simp_all add: file_out_def std_out_def out_append_def Let_def)

lemma takeWhile_split: "0 \<notin> set s \<Longrightarrow> takeWhile (\<lambda>b. b \<noteq> (0 :: u8)) (s @ t) = s @ takeWhile (\<lambda>b. b \<noteq> 0) t"
  by (rule takeWhile_append2) auto

lemma takeWhile_no_nul: "0 \<notin> set s \<Longrightarrow> takeWhile (\<lambda>b. b \<noteq> (0 :: u8)) s = s"
  using takeWhile_split [of s "[]"] by simp

lemma takeWhile_cut: "0 \<in> set s \<Longrightarrow> takeWhile (\<lambda>b. b \<noteq> (0 :: u8)) (s @ t) = takeWhile (\<lambda>b. b \<noteq> 0) s"
  by (rule takeWhile_append1) auto

lemma std_in_pieces: "bndT (file_out x 0 s) (\<lambda>u. file_out x 0 t) w = file_out x 0 (s @ t) w"
  by (cases "w_cut w"; cases "0 \<in> set s")
    (simp_all add: file_out_std bndT_def next_col_append takeWhile_split takeWhile_cut takeWhile_no_nul)

lemma mem_in_pieces:
  assumes "mem_file fid w"
  shows "bndT (file_out x fid s) (\<lambda>u. file_out x fid t) w = file_out x fid (s @ t) w"
proof -
  have "written fid t (written fid s w) = written fid (s @ t) w"
    using mem_fileD(4) [OF assms] by (simp add: written_def next_col_append set_files_def)
  then show ?thesis using assms by (simp add: file_out_mem bndT_def)
qed

text \<open>
  C33: output does not depend on how it is cut into calls: writing one byte string after the other, to standard output or
  to a file in memory, is the same as writing them at once, in the bytes that arrive, the column that is
  reached, and what a NUL suppresses on standard output.
\<close>

theorem output_in_pieces:
  assumes "fid = 0 \<or> mem_file fid w"
  shows "eachT ss (file_out x fid) w = (if ss = [] then okT () w else file_out x fid (concat ss) w)"
  using assms
proof (induction ss arbitrary: w rule: rev_induct)
  case (snoc s ss)
  have app: "eachT (ss @ [s]) (file_out x fid) w = bndT (eachT ss (file_out x fid)) (\<lambda>u. file_out x fid s) w"
    by (simp add: eachT_append)
  show ?case
  proof (cases "ss = []")
    case False
    then have "eachT (ss @ [s]) (file_out x fid) w = bndT (file_out x fid (concat ss)) (\<lambda>u. file_out x fid s) w"
      using snoc by (simp add: app bndT_def)
    then show ?thesis using snoc.prems std_in_pieces mem_in_pieces by auto
  qed (use app in simp)
qed simp

theorem output_in_pieces_witness:
  "\<forall>x. eachT [[65, 0, 66], [67]] (file_out x 0) (demo_world []) = file_out x 0 [65, 0, 66, 67] (demo_world [])"
proof
  fix x :: "(unit, 'a) io_fns_scheme"
  show "eachT [[65, 0, 66], [67]] (file_out x 0) (demo_world []) = file_out x 0 [65, 0, 66, 67] (demo_world [])"
    using output_in_pieces [of 0 "demo_world []" "[[65, 0, 66], [67]]" x] by (simp del: eachT.simps)
qed

text \<open>
  A single byte is not output in the same way: on standard output it leaves the column where it was, on a file in
  memory it moves it.
\<close>

lemma file_out_byte_column:
  "\<not> w_cut w \<Longrightarrow> b \<noteq> 0 \<Longrightarrow> file_out_byte x 0 b w = Some (Done (), w\<lparr>w_out := w_out w @ [b]\<rparr>)"
  "mem_file fid w \<Longrightarrow> file_out_byte x fid b w = Some (Done (), written fid [b] w)"
  using mem_fileD(1) [of fid w] by (simp_all add: file_out_byte_def out_append_def file_out_mem)

section \<open>Events and errors\<close>

text \<open>
  An event leaves no trace on the stacks: when a call between \<open>io_catch_push\<close> and \<open>io_catch_pop\<close> has pushed operands
  and saved environments, whatever else it did, and then raises an event, control continues after the call with the
  operand stack, the saved environments and the handlers exactly as they were before it.
\<close>

theorem event_unwinds:
  assumes "m (w\<lparr>w_catch := (length (stack (w_rt w)), length (saved (w_rt w))) # w_catch w\<rparr>) = Some (Done u, w1)"
    and "w_catch w1 = (length (stack (w_rt w)), length (saved (w_rt w))) # w_catch w"
    and "stack (w_rt w1) = vs @ stack (w_rt w)" "saved (w_rt w1) = es @ saved (w_rt w)"
  shows "\<exists>w2. catchT (bndT m (\<lambda>u. io_raise k)) w = Some (Done None, w2) \<and> stack (w_rt w2) = stack (w_rt w) \<and>
    saved (w_rt w2) = saved (w_rt w) \<and> w_catch w2 = w_catch w"
  using assms
  by (simp add: catchT_def io_catch_push_def io_raise_def bndT_def rtT_def env_saved_truncate_def modify_def)

definition push_seven :: "(unit, unit) tio" where
  "push_seven = modT (\<lambda>w. w\<lparr>w_rt := (w_rt w)\<lparr>stack := VInt 7 # stack (w_rt w)\<rparr>\<rparr>)"

lemma event_unwinds_witness:
  "\<exists>w2. catchT (bndT push_seven (\<lambda>u. io_raise IO_FILE_END)) (demo_world []) =
     Some (Done (None :: unit option), w2) \<and> stack (w_rt w2) = stack (w_rt (demo_world [])) \<and>
     saved (w_rt w2) = saved (w_rt (demo_world [])) \<and> w_catch w2 = w_catch (demo_world [])"
proof -
  let ?w = "(demo_world [])\<lparr>w_catch := (0, 0) # w_catch (demo_world []), w_rt := demo_rt\<lparr>stack := [VInt 7]\<rparr>\<rparr>"
  have m: "push_seven ((demo_world [])\<lparr>w_catch := (length (stack (w_rt (demo_world []))), length (saved (w_rt (demo_world [])))) #
      w_catch (demo_world [])\<rparr>) = Some (Done (), ?w)"
    by (simp add: push_seven_def modT_def demo_world_def demo_rt_def)
  show ?thesis
    by (rule event_unwinds [of push_seven "demo_world []" "()" ?w "[VInt 7]" "[]", OF m])
      (simp_all add: demo_world_def demo_rt_def)
qed

section \<open>Output of a formatted call that fails\<close>

definition no_line :: "u8 list \<Rightarrow> bool" where "no_line s = list_all (\<lambda>b. b \<noteq> 10 \<and> b \<noteq> 12) s"

lemma discard_none:
  "(\<And>j. i \<le> j \<Longrightarrow> j < n \<Longrightarrow> out ! j \<noteq> (10 :: u8) \<and> out ! j \<noteq> 12) \<Longrightarrow>
   foldl (\<lambda>c i. if out ! i = 10 \<or> out ! i = 12 then i + 1 else c) c [i..<n] = c"
proof (induction "n - i" arbitrary: i)
  case (Suc k)
  then have "[i..<n] = i # [Suc i..<n]" by (simp add: upt_conv_Cons)
  then show ?case using Suc by simp
qed simp



end
