(* ===== verification/IoRadix.thy ===== *)
theory IoRadix
  imports IoProps
begin

text \<open>
  Properties of the numbers in another radix (\<open>io.c\<close>, \<open>convert_radix\<close> and the reading of BITS denotations): what a
  radix pattern writes is what the reader takes for the same number, and the two loops that write it end.
\<close>

section \<open>Digits\<close>

lemma digit_of_hex: "d < 16 \<Longrightarrow> digit_of_char (hex_digit d) = d"
proof -
  have "list_all (\<lambda>d. digit_of_char (hex_digit d) = d) [0..<16]" by (simp add: upt_rec digit_of_char_def hex_digit_def)
  then show "d < 16 \<Longrightarrow> digit_of_char (hex_digit d) = d" by (simp add: list_all_iff)
qed

lemma sint_small: "n \<le> 16 \<Longrightarrow> sint (of_nat n :: u64) = int n"
  by (simp add: sint_of_unat unsigned_of_nat take_bit_nat_eq_self)

lemma big_small_val: "n \<le> 16 \<Longrightarrow> big_val (big_from_i64 (of_nat n)) = int n"
  by (simp add: big_from_i64_val sint_small)

lemma radix_step_spec:
  assumes "big_wf z" "0 \<le> big_val z" "2 \<le> radix" "radix \<le> 16"
  shows "\<exists>q. radix_step radix z = (hex_digit (nat (big_val z mod int radix)), q) \<and> big_wf q \<and> big_val q = big_val z div int radix"
proof -
  let ?r = "big_from_i64 (of_nat radix)"
  have r: "big_val ?r = int radix" using assms(4) by (rule big_small_val)
  have w: "big_wf ?r" by simp
  have "big_val ?r \<noteq> 0" using r assms(3) by simp
  then obtain q m where d: "big_divmod z ?r = Some (q, m)" and qm: "big_wf q" "big_wf m"
    and v: "big_val z = big_val q * big_val ?r + big_val m" "\<bar>big_val m\<bar> < \<bar>big_val ?r\<bar>"
      "big_val m = 0 \<or> sgn (big_val m) = sgn (big_val z)"
    using big_divmod_total [of z ?r] big_val_eq_0 [OF w] big_divmod_spec [OF assms(1) w] by fastforce
  have m0: "0 \<le> big_val m" using v(3) assms(2) by (auto simp: sgn_if split: if_splits)
  have m: "big_val m = big_val z mod int radix" and q: "big_val q = big_val z div int radix"
    using v(1,2) m0 r by (auto simp: int_mod_pos_eq int_div_pos_eq)
  have "big_fits_i64 m" using big_fits_i64_iff [OF qm(2)] v(2) m0 r assms(4) by simp
  then show ?thesis using d qm m q big_to_i64_val [OF qm(2)] by (simp add: radix_step_def)
qed

lemma radix_text_snoc:
  "radix_text_loop radix (s @ [c]) v = Option.bind (radix_text_loop radix s v) (radix_text_loop radix [c])"
  by (induction s arbitrary: v) (simp_all add: Let_def)

text \<open>What the reader makes of the text \<open>s\<close>.\<close>

definition radix_reads :: "nat \<Rightarrow> string \<Rightarrow> int \<Rightarrow> bool" where
  "radix_reads radix s n = (\<exists>b. radix_text_loop radix s (big_from_i64 0) = Some b \<and> big_wf b \<and> big_val b = n)"

lemma radix_reads_snoc:
  assumes "radix_reads radix s n" "d < radix" "radix \<le> 16"
  shows "radix_reads radix (s @ [hex_digit d]) (n * int radix + int d)"
  using assms digit_of_hex [of d] unfolding radix_reads_def
  by (auto simp: radix_text_snoc Let_def big_add_val big_mul_small_def big_mul_val big_small_val)

lemma radix_reads_nil: "radix_reads radix [] 0"
  by (simp add: radix_reads_def big_from_i64_val)

section \<open>The two loops\<close>

lemma radix_digits_n_spec:
  assumes "big_wf z" "0 \<le> big_val z" "2 \<le> radix" "radix \<le> 16"
  shows "\<exists>s q. radix_digits_n n radix z = (s, q) \<and> length s = n \<and> big_wf q \<and> big_val q = big_val z div int radix ^ n \<and>
    radix_reads radix (rev s) (big_val z mod int radix ^ n)"
  using assms(1,2)
proof (induction n arbitrary: z)
  case 0
  then show ?case by (simp add: radix_reads_nil)
next
  case (Suc n)
  let ?d = "big_val z mod int radix"
  obtain q where st: "radix_step radix z = (hex_digit (nat ?d), q)" and q: "big_wf q" "big_val q = big_val z div int radix"
    using radix_step_spec [OF Suc.prems assms(3,4)] by blast
  have q0: "0 \<le> big_val q" using q(2) Suc.prems(2) assms(3) by (simp add: pos_imp_zdiv_nonneg_iff)
  obtain s q' where ih: "radix_digits_n n radix q = (s, q')" "length s = n" "big_wf q'" "big_val q' = big_val q div int radix ^ n"
    "radix_reads radix (rev s) (big_val q mod int radix ^ n)"
    using Suc.IH [OF q(1) q0] by blast
  have d: "nat ?d < radix" "int (nat ?d) = ?d" using assms(3) by (simp_all add: nat_less_iff)
  have "big_val z mod int radix ^ Suc n = big_val q mod int radix ^ n * int radix + int (nat ?d)"
    unfolding d(2) q(2) power_Suc using assms(3) by (simp add: zmod_zmult2_eq algebra_simps)
  then have "radix_reads radix (rev (hex_digit (nat ?d) # s)) (big_val z mod int radix ^ Suc n)"
    using radix_reads_snoc [OF ih(5) d(1) assms(4)] by simp
  moreover have "big_val q' = big_val z div int radix ^ Suc n"
    unfolding ih(4) q(2) power_Suc by (simp add: zdiv_zmult2_eq)
  ultimately show ?case using st ih by simp
qed

lemma radix_digits_spec:
  assumes "big_wf z" "0 \<le> big_val z" "2 \<le> radix" "radix \<le> 16"
  shows "\<exists>s. radix_digits radix z = Some s \<and> s \<noteq> [] \<and> (last s = CHR ''0'' \<longrightarrow> s = ''0'') \<and> radix_reads radix (rev s) (big_val z)"
  using assms(1,2)
proof (induction "nat (big_val z)" arbitrary: z rule: less_induct)
  case less
  let ?d = "big_val z mod int radix"
  obtain q where st: "radix_step radix z = (hex_digit (nat ?d), q)" and q: "big_wf q" "big_val q = big_val z div int radix"
    using radix_step_spec [OF less.prems assms(3,4)] by blast
  have q0: "0 \<le> big_val q" using q(2) less.prems(2) assms(3) by (simp add: pos_imp_zdiv_nonneg_iff)
  have d: "nat ?d < radix" "int (nat ?d) = ?d" using assms(3) by (simp_all add: nat_less_iff)
  have z: "big_val z = big_val q * int radix + int (nat ?d)" unfolding d(2) q(2) by (simp add: mult.commute)
  show ?case
  proof (cases "big_val q = 0")
    case True
    then have "radix_reads radix (rev [hex_digit (nat ?d)]) (big_val z)"
      using radix_reads_snoc [OF radix_reads_nil d(1) assms(4)] z by simp
    then show ?thesis using True st q by (subst radix_digits.simps) (simp add: big_is_zero_val)
  next
    case False
    have "0 < big_val q * int radix" using False q0 assms(3) by simp
    then have "0 < big_val z" using z by linarith
    then have "big_val q < big_val z" unfolding q(2) using assms(3) by (intro int_div_less_self) auto
    then obtain s where ih: "radix_digits radix q = Some s" "s \<noteq> []" "last s = CHR ''0'' \<longrightarrow> s = ''0''"
      "radix_reads radix (rev s) (big_val q)"
      using less.hyps [OF _ q(1) q0] q0 by auto
    have "s \<noteq> ''0''"
      using ih(4) False by (auto simp: radix_reads_def digit_of_char_def Let_def big_add_val big_mul_small_def big_mul_val big_from_i64_val split: if_splits)
    moreover have "radix_reads radix (rev (hex_digit (nat ?d) # s)) (big_val z)"
      using radix_reads_snoc [OF ih(4) d(1) assms(4)] z by simp
    ultimately show ?thesis using False st q ih by (subst radix_digits.simps) (simp add: big_is_zero_val)
  qed
qed

section \<open>The text of a number\<close>

text \<open>
  C35: numbers in another radix: for a well-formed number and a radix from 2 to 16, \<open>convert_radix\<close> ends. Without a width it
  gives the digits of the magnitude, none of them a leading zero; with a width it gives exactly that many digits, or
  nothing when the magnitude does not fit them. What it gives, the reader of BITS denotations takes for the same magnitude.
\<close>

theorem radix_text_round_trip:
  assumes "big_wf v" "2 \<le> radix" "radix \<le> 16"
  shows "if width \<noteq> 0 \<and> int radix ^ width \<le> \<bar>big_val v\<bar> then convert_radix v radix width = Some None
    else \<exists>s. convert_radix v radix width = Some (Some s) \<and> radix_reads radix s \<bar>big_val v\<bar> \<and>
      (if width = 0 then hd s = CHR ''0'' \<longrightarrow> s = ''0'' else length s = width)"
proof -
  have w: "big_wf (big_abs v)" "0 \<le> big_val (big_abs v)" using assms(1) by (simp_all add: big_abs_val)
  show ?thesis
  proof (cases "width = 0")
    case True
    obtain s where s: "radix_digits radix (big_abs v) = Some s" "s \<noteq> []" "last s = CHR ''0'' \<longrightarrow> s = ''0''"
      "radix_reads radix (rev s) (big_val (big_abs v))"
      using radix_digits_spec [OF w assms(2,3)] by blast
    then show ?thesis using True by (auto simp: convert_radix_def hd_rev big_abs_val)
  next
    case False
    obtain s q where s: "radix_digits_n width radix (big_abs v) = (s, q)" "length s = width" "big_wf q"
      "big_val q = big_val (big_abs v) div int radix ^ width"
      "radix_reads radix (rev s) (big_val (big_abs v) mod int radix ^ width)"
      using radix_digits_n_spec [OF w assms(2,3), of width] by blast
    have p: "0 < int radix ^ width" using assms(2) by simp
    have "(a div b = 0) = (a < b)" if "0 \<le> a" "0 < b" for a b :: int
      using that by (auto simp: zdiv_eq_0_iff)
    then have "big_is_zero q \<longleftrightarrow> \<bar>big_val v\<bar> < int radix ^ width"
      using s(3,4) p by (simp only: big_is_zero_val big_abs_val abs_ge_zero)
    then show ?thesis using False s by (auto simp: convert_radix_def big_abs_val)
  qed
qed

lemma radix_text_round_trip_witness:
  "\<exists>s. convert_radix (big_from_i64 (- 255)) 16 0 = Some (Some s) \<and> radix_reads 16 s 255 \<and> (hd s = CHR ''0'' \<longrightarrow> s = ''0'') \<and>
   convert_radix (big_from_i64 (- 255)) 2 7 = Some None"
  using radix_text_round_trip [of "big_from_i64 (- 255)" 16 0] radix_text_round_trip [of "big_from_i64 (- 255)" 2 7]
  by (simp_all add: big_from_i64_val)

end
