(* ===== verification/PreludeMath.thy ===== *)
theory PreludeMath
  imports IoBin
begin

text \<open>
  \<open>csrc/prelude.c\<close>: the names of the standard procedures, the random numbers, and the functions of REAL values.
  The C library and the operating system are parameters: \<open>y_libm\<close> is a function of one \<open>double\<close> by its name,
  \<open>y_clib\<close> a complex function by its name (the two parts of the result), the others are the routines of \<open>os.c\<close>.
  The numbers of the enumeration are their names.
\<close>

record 'o pre_fns = "'o io_fns" +
  y_libm :: "string \<Rightarrow> u64 \<Rightarrow> u64"
  y_fmod :: "u64 \<Rightarrow> u64 \<Rightarrow> u64"
  y_clib :: "string \<Rightarrow> u64 \<Rightarrow> u64 \<Rightarrow> u64 \<times> u64"
  y_close_fd :: "int \<Rightarrow> 'o \<Rightarrow> bool \<times> 'o"
  y_read_file :: "string \<Rightarrow> 'o \<Rightarrow> u8 list option \<times> 'o"
  y_open_status :: "string \<Rightarrow> 'o \<Rightarrow> u32 \<times> 'o"
  y_remove_file :: "string \<Rightarrow> 'o \<Rightarrow> bool \<times> 'o"
  y_system :: "string \<Rightarrow> 'o \<Rightarrow> u32 \<times> 'o"
  y_fork :: "'o \<Rightarrow> u32 \<times> 'o"
  y_getenv :: "string \<Rightarrow> 'o \<Rightarrow> string \<times> 'o"
  y_execve :: "string \<Rightarrow> string list \<Rightarrow> string list \<Rightarrow> 'o \<Rightarrow> u32 \<times> 'o"
  y_execve_child :: "string \<Rightarrow> string list \<Rightarrow> string list \<Rightarrow> 'o \<Rightarrow> u32 \<times> 'o"
  y_execve_pipe :: "string \<Rightarrow> string list \<Rightarrow> string list \<Rightarrow> 'o \<Rightarrow> (u32 \<times> u32 \<times> u32) \<times> 'o"
  y_execve_output :: "string \<Rightarrow> string list \<Rightarrow> string list \<Rightarrow> 'o \<Rightarrow> (u32 \<times> u8 list option) \<times> 'o"
  y_waitpid :: "u32 \<Rightarrow> 'o \<Rightarrow> u32 \<times> 'o"
  y_time :: "bool \<Rightarrow> 'o \<Rightarrow> u32 list option \<times> 'o"
  y_readdir :: "string \<Rightarrow> 'o \<Rightarrow> string list option \<times> 'o"
  y_stat_mode :: "string \<Rightarrow> 'o \<Rightarrow> u32 \<times> 'o"
  y_regex :: "string \<Rightarrow> string \<Rightarrow> bool \<Rightarrow> 'o \<Rightarrow> (u32 \<times> u32 \<times> u32) \<times> 'o"
  y_strerror :: "u32 \<Rightarrow> string"
  y_errno :: "'o \<Rightarrow> u32 \<times> 'o"
  y_set_errno :: "u32 \<Rightarrow> 'o \<Rightarrow> unit \<times> 'o"
  y_getcwd :: "'o \<Rightarrow> string \<times> 'o"
  y_chdir :: "string \<Rightarrow> 'o \<Rightarrow> bool \<times> 'o"
  y_realpath :: "string \<Rightarrow> 'o \<Rightarrow> string \<times> 'o"
  y_sleep :: "u32 \<Rightarrow> 'o \<Rightarrow> u32 \<times> 'o"
  y_sleep_ms :: "u32 \<Rightarrow> 'o \<Rightarrow> unit \<times> 'o"
  y_walltime :: "'o \<Rightarrow> u64 \<times> 'o"
  y_clock_ms :: "'o \<Rightarrow> u64 \<times> 'o"
  y_gc_seconds :: "'o \<Rightarrow> u64 \<times> 'o"

section \<open>Names\<close>

text \<open>Each name with its number and what tells the members of a family apart.\<close>

definition names :: "(string \<times> string \<times> nat) list" where
  "names = [(''print'', ''B_PRINT'', 0), (''write'', ''B_PRINT'', 0), (''put'', ''B_PUT'', 0),
     (''printf'', ''B_PRINTF'', 0), (''writef'', ''B_PRINTF'', 0), (''putf'', ''B_PUTF'', 0),
     (''read'', ''B_READ'', 0), (''readf'', ''B_READF'', 0), (''get'', ''B_GET'', 0), (''getf'', ''B_GETF'', 0),
     (''newline'', ''B_NEWLINE'', 0), (''newpage'', ''B_NEWPAGE'', 0), (''space'', ''B_SPACE'', 0),
     (''backspace'', ''B_BACKSPACE'', 0), (''open'', ''B_OPEN'', 0), (''append'', ''B_OPEN'', 0),
     (''establish'', ''B_ESTABLISH'', 0), (''create'', ''B_CREATE'', 0), (''associate'', ''B_ASSOCIATE'', 0),
     (''close'', ''B_CLOSE'', 0), (''lock'', ''B_CLOSE'', 0), (''scratch'', ''B_SCRATCH'', 0),
     (''erase'', ''B_SCRATCH'', 0), (''rewind'', ''B_RESET'', 0), (''reset'', ''B_RESET'', 0),
     (''maketerm'', ''B_MAKETERM'', 0), (''onlogicalfileend'', ''B_ONFILEEND'', 0),
     (''onfileend'', ''B_ONFILEEND'', 0), (''onphysicalfileend'', ''B_ONFILEEND'', 0),
     (''onvalueerror'', ''B_ONVALUEERROR'', 0), (''onlineend'', ''B_ONLINEEND'', 0), (''whole'', ''B_WHOLE'', 0),
     (''fixed'', ''B_FIXED'', 0), (''float'', ''B_FLOAT'', 0), (''real'', ''B_REAL'', 0),
     (''charinstring'', ''B_CHARINSTRING'', 0), (''lastcharinstring'', ''B_LASTCHARINSTRING'', 0),
     (''stringinstring'', ''B_STRINGINSTRING'', 0), (''toupper'', ''B_TOUPPER'', 0),
     (''tolower'', ''B_TOLOWER'', 0), (''isupper'', ''B_ISUPPER'', 0), (''islower'', ''B_ISLOWER'', 0),
     (''isdigit'', ''B_ISDIGIT'', 0), (''isalpha'', ''B_ISALPHA'', 0), (''isalnum'', ''B_ISALNUM'', 0),
     (''isspace'', ''B_ISSPACE'', 0), (''ispunct'', ''B_ISPUNCT'', 0), (''isprint'', ''B_ISPRINT'', 0),
     (''isgraph'', ''B_ISGRAPH'', 0), (''iscntrl'', ''B_ISCNTRL'', 0), (''isxdigit'', ''B_ISXDIGIT'', 0),
     (''odd'', ''B_ODD'', 0), (''abs'', ''B_ABS'', 0), (''stop'', ''B_STOP'', 0), (''random'', ''B_RANDOM'', 0),
     (''longrandom'', ''B_RANDOM'', 0), (''nextrandom'', ''B_RANDOM'', 0), (''firstrandom'', ''B_FIRSTRANDOM'', 0),
     (''randomint'', ''B_RANDOMINT'', 0), (''sweepheap'', ''B_GC_SWEEP'', 0), (''gcheap'', ''B_GC_SWEEP'', 0),
     (''preemptivegc'', ''B_GC_SWEEP'', 0), (''preemptivesweep'', ''B_GC_SWEEP'', 0),
     (''preemptivesweepheap'', ''B_GC_SWEEP'', 0), (''collections'', ''B_GC_COLLECTIONS'', 0),
     (''sweeps'', ''B_GC_COLLECTIONS'', 0), (''garbagecollections'', ''B_GC_COLLECTIONS'', 0),
     (''garbage'', ''B_GC_GARBAGE'', 0), (''garbagefreed'', ''B_GC_GARBAGE'', 0),
     (''garbagerefused'', ''B_GC_REFUSED'', 0), (''sweepsrefused'', ''B_GC_REFUSED'', 0),
     (''garbageseconds'', ''B_GC_SECONDS'', 0), (''collectseconds'', ''B_GC_SECONDS'', 0),
     (''clock'', ''B_CLOCK'', 0), (''seconds'', ''B_CLOCK'', 0), (''cputime'', ''B_CLOCK'', 0),
     (''complexsqrt'', ''B_COMPLEXFN'', 0), (''csqrt'', ''B_COMPLEXFN'', 0), (''complexexp'', ''B_COMPLEXFN'', 1),
     (''cexp'', ''B_COMPLEXFN'', 1), (''complexln'', ''B_COMPLEXFN'', 2), (''cln'', ''B_COMPLEXFN'', 2),
     (''complexsin'', ''B_COMPLEXFN'', 3), (''csin'', ''B_COMPLEXFN'', 3), (''complexcos'', ''B_COMPLEXFN'', 4),
     (''ccos'', ''B_COMPLEXFN'', 4), (''complextan'', ''B_COMPLEXFN'', 5), (''ctan'', ''B_COMPLEXFN'', 5),
     (''complexarcsin'', ''B_COMPLEXFN'', 6), (''casin'', ''B_COMPLEXFN'', 6),
     (''complexarccos'', ''B_COMPLEXFN'', 7), (''cacos'', ''B_COMPLEXFN'', 7),
     (''complexarctan'', ''B_COMPLEXFN'', 8), (''catan'', ''B_COMPLEXFN'', 8),
     (''complexsinh'', ''B_COMPLEXFN'', 9), (''csinh'', ''B_COMPLEXFN'', 9), (''complexcosh'', ''B_COMPLEXFN'', 10),
     (''ccosh'', ''B_COMPLEXFN'', 10), (''complextanh'', ''B_COMPLEXFN'', 11), (''ctanh'', ''B_COMPLEXFN'', 11),
     (''complexarcsinh'', ''B_COMPLEXFN'', 12), (''casinh'', ''B_COMPLEXFN'', 12),
     (''complexarccosh'', ''B_COMPLEXFN'', 13), (''cacosh'', ''B_COMPLEXFN'', 13),
     (''complexarctanh'', ''B_COMPLEXFN'', 14), (''catanh'', ''B_COMPLEXFN'', 14),
     (''longarctan2'', ''B_LONGARCTAN2'', 0), (''longlongarctan2'', ''B_LONGARCTAN2'', 0),
     (''longarctan2dg'', ''B_LONGARCTAN2'', 0), (''longlongarctan2dg'', ''B_LONGARCTAN2'', 0),
     (''arctan2'', ''B_ARCTAN2'', 0), (''atan2'', ''B_ARCTAN2'', 0), (''readint'', ''B_READINT'', 0),
     (''readreal'', ''B_READREAL'', 0), (''readstring'', ''B_READSTRING'', 0), (''readchar'', ''B_READCHAR'', 0),
     (''readbool'', ''B_READBOOL'', 0), (''printint'', ''B_PRINTINT'', 0), (''printreal'', ''B_PRINTREAL'', 0),
     (''printstring'', ''B_PRINTSTRING'', 0), (''printchar'', ''B_PRINTCHAR'', 0),
     (''printbool'', ''B_PRINTBOOL'', 0), (''setexitcode'', ''B_NOOP1'', 0), (''setexit'', ''B_NOOP1'', 0),
     (''argc'', ''B_ARGC'', 0), (''argv'', ''B_ARGV'', 0), (''onpageend'', ''B_NOOP2'', 0),
     (''onformatend'', ''B_NOOP2'', 0), (''onformaterror'', ''B_NOOP2'', 0), (''ontransputerror'', ''B_NOOP2'', 0),
     (''onopenerror'', ''B_NOOP2'', 0), (''makeconv'', ''B_NOOP1'', 0), (''bitspack'', ''B_BITSPACK'', 0),
     (''bytespack'', ''B_BYTESPACK'', 0), (''longbytespack'', ''B_LONGBYTESPACK'', 0),
     (''evaluate'', ''B_EVALUATE'', 0), (''abend'', ''B_ABEND'', 0), (''system'', ''B_SYSTEM'', 0),
     (''fork'', ''B_FORK'', 0), (''getenv'', ''B_GETENV'', 0), (''execve'', ''B_EXECVE'', 0),
     (''exec'', ''B_EXECVE'', 0), (''execvechild'', ''B_EXECVECHILD'', 0), (''execsub'', ''B_EXECVECHILD'', 0),
     (''execvechildpipe'', ''B_EXECVECHILDPIPE'', 0), (''execsubpipeline'', ''B_EXECVECHILDPIPE'', 0),
     (''execveoutput'', ''B_EXECVEOUTPUT'', 0), (''execsuboutput'', ''B_EXECVEOUTPUT'', 0),
     (''createpipe'', ''B_CREATEPIPE'', 0), (''waitpid'', ''B_WAITPID'', 0), (''utctime'', ''B_UTCTIME'', 0),
     (''localtime'', ''B_LOCALTIME'', 0), (''getdirectory'', ''B_GETDIRECTORY'', 0),
     (''fileisdirectory'', ''B_FILEIS'', 16384), (''fileisregular'', ''B_FILEIS'', 32768),
     (''fileisblockdevice'', ''B_FILEIS'', 24576), (''fileischardevice'', ''B_FILEIS'', 8192),
     (''fileisfifo'', ''B_FILEIS'', 4096), (''fileislink'', ''B_FILEIS'', 40960), (''filemode'', ''B_FILEMODE'', 0),
     (''grepinstring'', ''B_GREPINSTRING'', 0), (''grepinsubstring'', ''B_GREPINSUBSTRING'', 0),
     (''subinstring'', ''B_SUBINSTRING'', 0), (''strerror'', ''B_STRERROR'', 0), (''errno'', ''B_ERRNO'', 0),
     (''reseterrno'', ''B_RESETERRNO'', 0), (''getpwd'', ''B_GETPWD'', 0), (''setpwd'', ''B_SETPWD'', 0),
     (''realpath'', ''B_REALPATH'', 0), (''sleep'', ''B_SLEEP'', 0), (''rows'', ''B_ROWS'', 0),
     (''columns'', ''B_COLUMNS'', 0), (''a68gargc'', ''B_ARGC'', 0), (''a68gargv'', ''B_ARGV'', 0),
     (''wallclock'', ''B_WALLCLOCK'', 0), (''wallseconds'', ''B_WALLCLOCK'', 0), (''walltime'', ''B_WALLCLOCK'', 0),
     (''nan'', ''B_NAN'', 0), (''inf'', ''B_INF'', 0), (''infinity'', ''B_INF'', 0), (''plusinf'', ''B_INF'', 0),
     (''plusinfinity'', ''B_INF'', 0), (''minusinf'', ''B_MINUSINF'', 0), (''minusinfinity'', ''B_MINUSINF'', 0),
     (''isfinite'', ''B_ISFINITE'', 0), (''isinf'', ''B_ISINF'', 0), (''isinfinite'', ''B_ISINF'', 0),
     (''isplusinf'', ''B_ISPLUSINF'', 0), (''isminusinf'', ''B_ISMINUSINF'', 0), (''isnan'', ''B_ISNAN'', 0),
     (''resetpossible'', ''B_RESETPOSSIBLE'', 0), (''rewindpossible'', ''B_RESETPOSSIBLE'', 0),
     (''setpossible'', ''B_RESETPOSSIBLE'', 0), (''binpossible'', ''B_RESETPOSSIBLE'', 0),
     (''getpossible'', ''B_GETPOSSIBLE'', 0), (''putpossible'', ''B_PUTPOSSIBLE'', 0),
     (''reidfpossible'', ''B_FALSE'', 0), (''drawpossible'', ''B_FALSE'', 0), (''compressible'', ''B_TRUE'', 0),
     (''idf'', ''B_IDF'', 0), (''term'', ''B_TERM'', 0), (''eof'', ''B_EOF'', 0), (''endoffile'', ''B_EOF'', 0),
     (''eoln'', ''B_EOLN'', 0), (''endofline'', ''B_EOLN'', 0), (''set'', ''B_SET'', 0), (''seek'', ''B_SET'', 0),
     (''puts'', ''B_PUTS'', 0), (''string'', ''B_STRING'', 0), (''putsf'', ''B_PUTSF'', 0),
     (''stringf'', ''B_STRINGF'', 0), (''gets'', ''B_GETS'', 0), (''getsf'', ''B_GETSF'', 0),
     (''readline'', ''B_READLINE'', 0), (''getbin'', ''B_GETBIN'', 0), (''putbin'', ''B_PUTBIN'', 0),
     (''readbin'', ''B_READBIN'', 0), (''printbin'', ''B_PRINTBIN'', 0), (''writebin'', ''B_PRINTBIN'', 0),
     (''longnextrandom'', ''B_LONGRANDOM'', 1), (''longlongnextrandom'', ''B_LONGRANDOM'', 2),
     (''longlongrandom'', ''B_LONGRANDOM'', 2)]"

text \<open>The cache of resolved names has no counterpart.\<close>

definition resolve :: "string \<Rightarrow> string \<times> nat" where
  "resolve n = (case map_of names n of None \<Rightarrow> (''B_UNKNOWN'', 0) | Some r \<Rightarrow> r)"

section \<open>Random numbers\<close>

type_synonym taus = "u32 \<times> u32 \<times> u32 \<times> u32"

text \<open>One component: shifts \<open>a\<close> and \<open>b\<close>, the mask, and the shift \<open>c\<close>.\<close>

definition taus_step :: "nat \<Rightarrow> nat \<Rightarrow> u32 \<Rightarrow> nat \<Rightarrow> u32 \<Rightarrow> u32" where
  "taus_step a b msk c z = xor (push_bit c (and z msk)) (drop_bit b (xor (push_bit a z) z))"

definition taus_get :: "taus \<Rightarrow> u32 \<times> taus" where
  "taus_get t = (case t of (z1, z2, z3, z4) \<Rightarrow>
     let z1 = taus_step 6 13 4294967294 18 z1; z2 = taus_step 2 27 4294967288 2 z2;
         z3 = taus_step 13 21 4294967280 7 z3; z4 = taus_step 3 12 4294967168 13 z4
     in (xor z1 (xor z2 (xor z3 z4)), (z1, z2, z3, z4)))"

definition at_least :: "u32 \<Rightarrow> u32 \<Rightarrow> u32" where "at_least k z = (if z < k then z + k else z)"

definition taus_start :: "u32 \<Rightarrow> taus" where
  "taus_start seed = (let s = (if seed = 0 then 1 else seed);
       z1 = at_least 2 (69069 * s); z2 = at_least 8 (69069 * z1);
       z3 = at_least 16 (69069 * z2); z4 = at_least 128 (69069 * z3) in (z1, z2, z3, z4))"

definition taus_seed :: "u32 \<Rightarrow> taus" where
  "taus_seed seed = ((snd \<circ> taus_get) ^^ 10) (taus_start seed)"

definition dbl_two32 :: u64 where "dbl_two32 = 0x41F0000000000000"

definition next_random :: "('o, 'z) pre_fns_scheme \<Rightarrow> ('o, u64) tio" where
  "next_random x =
     bndT (askT w_taus) (\<lambda>t.
     (let (r, t2) = taus_get (if t = (0, 0, 0, 0) then taus_seed 1 else t) in
     bndT (modT (\<lambda>w. w\<lparr>w_taus := t2\<rparr>)) (\<lambda>u.
     okT (f_div x (f_of_i64 x (ucast r)) dbl_two32))))"


section \<open>Functions of REAL values\<close>

definition dbl_pi_180 :: u64 where "dbl_pi_180 = 0x3F91DF46A2529D39"
definition dbl_180_pi :: u64 where "dbl_180_pi = 0x404CA5DC1A63C1F8"
definition dbl_pi :: u64 where "dbl_pi = 0x400921FB54442D18"
definition dbl_three_halves :: u64 where "dbl_three_halves = 0x3FF8000000000000"
definition dbl_two :: u64 where "dbl_two = 0x4000000000000000"
definition dbl_quarter :: u64 where "dbl_quarter = 0x3FD0000000000000"

text \<open>Exact at the multiples of a half.\<close>

definition sin_pi :: "('o, 'z) pre_fns_scheme \<Rightarrow> u64 \<Rightarrow> u64" where
  "sin_pi x v = (let r = y_fmod x v dbl_two;
       r = (if dbl_le x r dbl_minus_one then f_add x r dbl_two else if f_less x dbl_one r then f_sub x r dbl_two else r)
     in if f_eq x r dbl_zero \<or> f_eq x r dbl_one then dbl_zero
        else if f_eq x r dbl_half then dbl_one
        else if f_eq x r (dbl_neg dbl_half) then dbl_minus_one
        else y_libm x ''sin'' (f_mul x dbl_pi r))"

definition cos_pi :: "('o, 'z) pre_fns_scheme \<Rightarrow> u64 \<Rightarrow> u64" where
  "cos_pi x v = (let r = y_fmod x (dbl_abs v) dbl_two
     in if f_eq x r dbl_half \<or> f_eq x r dbl_three_halves then dbl_zero
        else if f_eq x r dbl_zero then dbl_one
        else if f_eq x r dbl_one then dbl_minus_one
        else y_libm x ''cos'' (f_mul x dbl_pi r))"

definition not_number :: "u64 res" where "not_number = Inl (Die ''REAL value is not a number'')"
definition math_exc :: "u64 res" where "math_exc = Inl (Die ''math exception'')"

text \<open>\<open>f x / g x\<close>, an error where \<open>g\<close> is zero.\<close>

definition quot :: "('o, 'z) pre_fns_scheme \<Rightarrow> u64 \<Rightarrow> u64 \<Rightarrow> u64 res" where
  "quot x a z = (if f_eq x z dbl_zero then math_exc else Inr (f_div x a z))"

definition tan_cot_pi :: "('o, 'z) pre_fns_scheme \<Rightarrow> bool \<Rightarrow> u64 \<Rightarrow> u64 res" where
  "tan_cot_pi x is_tan v = (let y = y_fmod x v dbl_one;
       y = (if dbl_le x y (dbl_neg dbl_half) then f_add x y dbl_one else if f_less x dbl_half y then f_sub x y dbl_one else y)
     in if is_tan then
          (if f_eq x y dbl_half then math_exc
           else Inr (if f_eq x y (dbl_neg dbl_quarter) then dbl_minus_one else if f_eq x y dbl_zero then dbl_zero
                     else if f_eq x y dbl_quarter then dbl_one else f_div x (sin_pi x y) (cos_pi x y)))
        else
          (if f_eq x y dbl_zero then math_exc
           else Inr (if f_eq x y (dbl_neg dbl_quarter) then dbl_minus_one else if f_eq x y dbl_quarter then dbl_one
                     else if f_eq x y dbl_half then dbl_zero else f_div x (cos_pi x y) (sin_pi x y))))"

definition unit_domain :: "('o, 'z) pre_fns_scheme \<Rightarrow> string \<Rightarrow> u64 \<Rightarrow> u64 res" where
  "unit_domain x g v = (if f_less x v dbl_minus_one \<or> f_less x dbl_one v then not_number else Inr (y_libm x g v))"

definition positive_domain :: "('o, 'z) pre_fns_scheme \<Rightarrow> string \<Rightarrow> u64 \<Rightarrow> u64 res" where
  "positive_domain x g v = (if f_less x v dbl_zero then not_number else Inr (y_libm x g v))"

text \<open>Names that are a function of the C library, and the name there.\<close>

definition libm_names :: "(string \<times> string) list" where
  "libm_names = [(''exp'', ''exp''), (''longexp'', ''exp''), (''longlongexp'', ''exp''), (''log2'', ''log2''), (''exp2'', ''exp2''),
     (''sin'', ''sin''), (''longsin'', ''sin''), (''longlongsin'', ''sin''), (''cos'', ''cos''), (''longcos'', ''cos''),
     (''longlongcos'', ''cos''), (''tan'', ''tan''), (''longtan'', ''tan''), (''longlongtan'', ''tan''),
     (''arctan'', ''atan''), (''atan'', ''atan''), (''longarctan'', ''atan''), (''longlongarctan'', ''atan''),
     (''sinh'', ''sinh''), (''cosh'', ''cosh''), (''tanh'', ''tanh''), (''arcsinh'', ''asinh''), (''arccosh'', ''acosh''),
     (''arctanh'', ''atanh''), (''cbrt'', ''cbrt''), (''curt'', ''cbrt''), (''gamma'', ''tgamma''), (''lngamma'', ''lgamma''),
     (''erf'', ''erf''), (''erfc'', ''erfc''), (''ln1p'', ''log1p'')]"

definition domain_fn :: "('o, 'z) pre_fns_scheme \<Rightarrow> string \<Rightarrow> u64 \<Rightarrow> u64 res option" where
  "domain_fn x n v =
     (if n \<in> {''sqrt'', ''longsqrt'', ''longlongsqrt''} then Some (positive_domain x ''sqrt'' v)
      else if n \<in> {''ln'', ''longln'', ''longlongln''} then Some (positive_domain x ''log'' v)
      else if n \<in> {''log'', ''longlog'', ''log10''} then Some (positive_domain x ''log10'' v)
      else if n \<in> {''arcsin'', ''asin'', ''longarcsin'', ''longlongarcsin''} then Some (unit_domain x ''asin'' v)
      else if n \<in> {''arccos'', ''acos'', ''longarccos'', ''longlongarccos''} then Some (unit_domain x ''acos'' v)
      else None)"

text \<open>Degrees.\<close>

definition degree_fn :: "('o, 'z) pre_fns_scheme \<Rightarrow> string \<Rightarrow> u64 \<Rightarrow> u64 res option" where
  "degree_fn x n v = (let l = y_libm x; a = f_mul x v dbl_pi_180 in
     if n = ''sindg'' then Some (Inr (l ''sin'' a))
     else if n = ''cosdg'' then Some (Inr (l ''cos'' a))
     else if n = ''tandg'' then Some (Inr (l ''tan'' a))
     else if n = ''arcsindg'' \<or> n = ''asindg'' then Some (Inr (f_mul x (l ''asin'' v) dbl_180_pi))
     else if n = ''arccosdg'' \<or> n = ''acosdg'' then Some (Inr (f_mul x (l ''acos'' v) dbl_180_pi))
     else if n = ''arctandg'' \<or> n = ''atandg'' then Some (Inr (f_mul x (l ''atan'' v) dbl_180_pi))
     else if n = ''cotdg'' then Some (quot x (l ''cos'' a) (l ''sin'' a))
     else if n = ''secdg'' then Some (quot x dbl_one (l ''cos'' a))
     else if n = ''cscdg'' then Some (quot x dbl_one (l ''sin'' a))
     else None)"

definition other_fn :: "('o, 'z) pre_fns_scheme \<Rightarrow> string \<Rightarrow> u64 \<Rightarrow> u64 res option" where
  "other_fn x n v = (let l = y_libm x in
     if n = ''cot'' then Some (quot x (l ''cos'' v) (l ''sin'' v))
     else if n = ''sec'' then Some (quot x dbl_one (l ''cos'' v))
     else if n = ''csc'' then Some (quot x dbl_one (l ''sin'' v))
     else if n = ''cas'' then Some (Inr (f_add x (l ''cos'' v) (l ''sin'' v)))
     else if n = ''sinpi'' then Some (Inr (sin_pi x v))
     else if n = ''cospi'' then Some (Inr (cos_pi x v))
     else if n = ''tanpi'' \<or> n = ''cotpi'' then Some (tan_cot_pi x (n = ''tanpi'') v)
     else None)"

text \<open>\<open>None\<close> when the name is none of these.\<close>

definition math_fn :: "('o, 'z) pre_fns_scheme \<Rightarrow> string \<Rightarrow> u64 \<Rightarrow> u64 res option" where
  "math_fn x n v =
     (case (case map_of libm_names n of Some g \<Rightarrow> Some (Inr (y_libm x g v)) | None \<Rightarrow>
        (case domain_fn x n v of Some r \<Rightarrow> Some r | None \<Rightarrow>
          (case degree_fn x n v of Some r \<Rightarrow> Some r | None \<Rightarrow> other_fn x n v))) of
      None \<Rightarrow> None
    | Some r \<Rightarrow> Some (bindE r check_real))"

definition math_names :: "string list" where
  "math_names = [''sqrt'', ''exp'', ''ln'', ''log'', ''log10'', ''log2'', ''exp2'', ''sin'', ''cos'', ''tan'', ''arcsin'',
     ''arccos'', ''arctan'', ''asin'', ''acos'', ''atan'', ''sinh'', ''cosh'', ''tanh'', ''arcsinh'',
     ''arccosh'', ''arctanh'', ''cbrt'', ''curt'', ''longsqrt'', ''longexp'', ''longln'', ''longlog'',
     ''longsin'', ''longcos'', ''longtan'', ''longarcsin'', ''longarccos'', ''longarctan'', ''longlongsqrt'',
     ''longlongexp'', ''longlongln'', ''longlongsin'', ''longlongcos'', ''longlongtan'', ''longlongarctan'',
     ''longlongarcsin'', ''longlongarccos'', ''gamma'', ''lngamma'', ''erf'', ''erfc'', ''ln1p'', ''sindg'',
     ''cosdg'', ''tandg'', ''arcsindg'', ''asindg'', ''arccosdg'', ''acosdg'', ''arctandg'', ''atandg'',
     ''cot'', ''sec'', ''csc'', ''cotdg'', ''secdg'', ''cscdg'', ''cas'', ''sinpi'', ''cospi'', ''tanpi'',
     ''cotpi'']"

text \<open>\<open>os.c\<close>: the complex functions of the C library, by number.\<close>

definition a68_compl_fn :: "('o, 'z) pre_fns_scheme \<Rightarrow> nat \<Rightarrow> u64 \<Rightarrow> u64 \<Rightarrow> u64 \<times> u64" where
  "a68_compl_fn x which re im = y_clib x ([''csqrt'', ''cexp'', ''clog'', ''csin'', ''ccos'', ''ctan'', ''casin'', ''cacos'',
     ''catan'', ''csinh'', ''ccosh'', ''ctanh'', ''casinh'', ''cacosh'', ''catanh''] ! min which 14) re im"

end
