(* ===== verification/Native.thy ===== *)
theory Native
  imports PreludeMath
begin

text \<open>
  \<open>csrc/native.c\<close>: the helpers of the LLVM back end, which compiled code calls where one instruction and a check are not
  enough. Integers are 64-bit words; a signed product that does not fit 64 bits is \<open>UB\<close>. The loops are \<open>None\<close> where they
  do not end. \<open>F\<close> is the arithmetic of \<open>double\<close>, \<open>cast\<close> the conversion of a \<open>double\<close> to \<open>int64_t\<close>, \<open>x\<close> the C library. The
  storage of native rows is a list of bytes; \<open>a68n_free\<close> has no counterpart.
\<close>

section \<open>Errors\<close>

text \<open>\<open>die_i\<close> and \<open>die_r\<close>: \<open>a68rt_arith_error\<close> does not return.\<close>

definition native_die :: "nat \<Rightarrow> 'a res" where
  "native_die k = Inl (Die (if k = 0 then ''INT value overflow, result too large''
     else if k = 1 then ''INT division by zero'' else if k = 2 then ''infinite REAL value''
     else if k = 3 then ''REAL value is not a number'' else if k = 4 then ''INT value out of bounds''
     else if k = 5 then ''REAL division by zero'' else if k = 6 then ''REPR argument out of range''
     else if k = 7 then ''REAL math error'' else ''invalid INT exponent''))"

definition native_rng :: "64 word \<Rightarrow> 64 word res" where
  "native_rng v = (if 2147483647 <s v \<or> v <s - 2147483647 then native_die 0 else Inr v)"

definition dbl_max :: u64 where "dbl_max = 0x7FEFFFFFFFFFFFFF"

text \<open>Larger than the largest \<open>double\<close>, or smaller than the smallest.\<close>

definition beyond_max :: "'a dbl_ops_scheme \<Rightarrow> u64 \<Rightarrow> bool" where
  "beyond_max F x \<longleftrightarrow> f_less F dbl_max x \<or> f_less F x (dbl_neg dbl_max)"

definition native_chk :: "'a dbl_ops_scheme \<Rightarrow> u64 \<Rightarrow> u64 res" where
  "native_chk F x = (if \<not> f_eq F x x then native_die 3 else if beyond_max F x then native_die 2 else Inr x)"

section \<open>Powers\<close>

definition smul64 :: "64 word \<Rightarrow> 64 word \<Rightarrow> 64 word res" where
  "smul64 a b = (if sint a * sint b = sint (a * b) then Inr (a * b) else Inl UB)"

text \<open>\<open>bit <<= 1\<close> goes to zero after 63 steps.\<close>

partial_function (option) native_pow_loop :: "u64 \<Rightarrow> u64 \<Rightarrow> 64 word \<Rightarrow> 64 word \<Rightarrow> 64 word res option" where
  "native_pow_loop nn b mm p =
     (case (if and nn b \<noteq> 0 then bindE (smul64 p mm) native_rng else Inr p) of
        Inl e \<Rightarrow> Some (Inl e)
      | Inr p2 \<Rightarrow> (let b2 = push_bit 1 b in
          if b2 \<le> nn then
            (case bindE (smul64 mm mm) native_rng of
               Inl e \<Rightarrow> Some (Inl e)
             | Inr mm2 \<Rightarrow> native_pow_loop nn b2 mm2 p2)
          else Some (Inr p2)))"

definition a68n_pow_i :: "64 word \<Rightarrow> 64 word \<Rightarrow> 64 word res option" where
  "a68n_pow_i m n = (if n <s 0 then Some (native_die 8)
     else if m = 0 \<and> n = 0 then Some (Inr 1)
     else if m = 0 \<or> m = 1 then Some (Inr m)
     else if m = - 1 then Some (Inr (if c_rem (sint n) 2 = 0 then 1 else - 1))
     else native_pow_loop n 1 m 1)"

partial_function (option) native_pow_real_loop :: "dbl_ops \<Rightarrow> u64 \<Rightarrow> u64 \<Rightarrow> u64 \<Rightarrow> u64 \<Rightarrow> u64 option" where
  "native_pow_real_loop F nn b mm p =
     (let p2 = (if and nn b \<noteq> 0 then f_mul F p mm else p); b2 = push_bit 1 b in
      if b2 \<le> nn then native_pow_real_loop F nn b2 (f_mul F mm mm) p2 else Some p2)"

definition a68n_pow_ri :: "dbl_ops \<Rightarrow> u64 \<Rightarrow> 64 word \<Rightarrow> u64 res option" where
  "a68n_pow_ri F x n = (let nn = (if n <s 0 then - (n + 1) + 1 else n);
       fin = (\<lambda>p. Inr (if n <s 0 then f_div F dbl_one p else p))
     in if f_eq F x dbl_zero \<and> nn = 0 then Some (fin dbl_one)
        else if f_eq F x dbl_zero \<or> f_eq F x dbl_one then Some (fin x)
        else if f_eq F x dbl_minus_one then Some (fin (if nn mod 2 = 0 then dbl_one else dbl_minus_one))
        else (case native_pow_real_loop F nn 1 x dbl_one of
            None \<Rightarrow> None
          | Some p \<Rightarrow> Some (if \<not> f_eq F p p \<or> beyond_max F p then native_die 2 else fin p)))"

definition a68n_pow_rr :: "dbl_ops \<Rightarrow> u64 \<Rightarrow> u64 \<Rightarrow> u64 res" where
  "a68n_pow_rr F x y = (if f_eq F y dbl_zero then Inr dbl_one
     else if f_less F x dbl_zero then native_die 7
     else if f_eq F x dbl_zero then (if f_less F y dbl_zero then native_die 7 else Inr dbl_zero)
     else Inr (f_exp F (f_mul F y (f_log F x))))"

section \<open>Conversions\<close>

definition dbl_maxint :: u64 where "dbl_maxint = 0x41DFFFFFFFC00000"

definition a68n_entier :: "dbl_ops \<Rightarrow> (u64 \<Rightarrow> 64 word) \<Rightarrow> u64 \<Rightarrow> 64 word res" where
  "a68n_entier F cast x = (if f_less F x (dbl_neg dbl_maxint) \<or> f_less F dbl_maxint x then native_die 4
     else Inr (cast (f_floor F x)))"

definition a68n_round :: "dbl_ops \<Rightarrow> (u64 \<Rightarrow> 64 word) \<Rightarrow> u64 \<Rightarrow> 64 word res" where
  "a68n_round F cast x = (if f_less F x (dbl_neg dbl_maxint) \<or> f_less F dbl_maxint x then native_die 4
     else (let ax = (if f_less F x dbl_zero then dbl_neg x else x); n = cast (f_floor F (f_add F ax dbl_half))
       in Inr (if f_less F x dbl_zero then - n else n)))"

section \<open>Functions of REAL values\<close>

text \<open>The names after \<open>a68n_m_\<close>: with an argument from -1 to 1, with an argument of at least 0, and others.\<close>

definition native_dom1 :: "(string \<times> string) list" where
  "native_dom1 = [(''acos'', ''acos''), (''arccos'', ''acos''), (''arcsin'', ''asin''), (''asin'', ''asin'')]"

definition native_domp :: "(string \<times> string) list" where
  "native_domp = [(''ln'', ''log''), (''log'', ''log10''), (''log10'', ''log10''), (''sqrt'', ''sqrt'')]"

definition native_plain :: "(string \<times> string) list" where
  "native_plain = [(''arccosh'', ''acosh''), (''arcsinh'', ''asinh''), (''arctan'', ''atan''), (''arctanh'', ''atanh''),
     (''atan'', ''atan''), (''cbrt'', ''cbrt''), (''curt'', ''cbrt''), (''cos'', ''cos''), (''cosh'', ''cosh''), (''log2'', ''log2''),
     (''sin'', ''sin''), (''sinh'', ''sinh''), (''tan'', ''tan''), (''tanh'', ''tanh'')]"

definition native_unchecked :: "string list" where "native_unchecked = [''exp'', ''exp2'']"

definition a68n_m :: "('o, 'z) pre_fns_scheme \<Rightarrow> string \<Rightarrow> u64 \<Rightarrow> u64 res option" where
  "a68n_m x n v =
     (case map_of native_dom1 n of Some g \<Rightarrow>
        Some (if f_less x v dbl_minus_one \<or> f_less x dbl_one v then native_die 3 else native_chk x (y_libm x g v))
      | None \<Rightarrow> (case map_of native_domp n of Some g \<Rightarrow>
          Some (if f_less x v dbl_zero then native_die 3 else native_chk x (y_libm x g v))
      | None \<Rightarrow> (case map_of native_plain n of Some g \<Rightarrow> Some (native_chk x (y_libm x g v))
      | None \<Rightarrow> if n \<in> set native_unchecked then Some (Inr (y_libm x n v)) else None)))"

section \<open>Texts and storage\<close>

definition a68n_echo :: "u8 list \<Rightarrow> ('o, unit) tio" where
  "a68n_echo s = modT (\<lambda>w. w\<lparr>w_stdout := w_stdout w @ takeWhile (\<lambda>b. b \<noteq> 0) s\<rparr>)"

definition a68n_alloc :: "64 word \<Rightarrow> u8 list" where
  "a68n_alloc bytes = replicate (if 0 <s bytes then unat bytes else 1) 0"

text \<open>The storage copied to, from its destination on; it must hold what is copied.\<close>

definition a68n_memcpy :: "u8 list \<Rightarrow> u8 list \<Rightarrow> 64 word \<Rightarrow> u8 list res" where
  "a68n_memcpy dst src bytes = (if 0 <s bytes then
     (if unat bytes \<le> length src \<and> unat bytes \<le> length dst
      then Inr (take (unat bytes) src @ drop (unat bytes) dst) else Inl UB)
   else Inr dst)"

end
