(* ===== verification/PreludeProcs.thy ===== *)
theory PreludeProcs
  imports PreludeMath
begin

text \<open>
  \<open>csrc/prelude.c\<close>: the standard procedures. Each arm of \<open>builtin\<close> is a definition, or an entry of one of the tables of
  arms below with its number of arguments; \<open>call_builtin\<close> runs the arm as a call of transput, between
  \<open>io_catch_push\<close> and \<open>io_catch_pop\<close>. C strings end at the first NUL.
\<close>

section \<open>Helpers\<close>

definition str_val :: "string \<Rightarrow> a68_val rt" where "str_val s = of_string (bstr s)"

definition cstr_of :: "a68_val \<Rightarrow> string rt" where
  "cstr_of v = bnd (str_of v) (\<lambda>s. ret (cstr (takeWhile (\<lambda>b. b \<noteq> 0) s)))"

text \<open>The resolved mode of a united value and the value in it.\<close>

definition union_parts :: "a68_val \<Rightarrow> ('o, (nat \<times> a68_val) option) tio" where
  "union_parts v = (case v of
     VUnion p a \<Rightarrow> bndT (resolveT (unat a)) (\<lambda>m. bndT (rtT (slot_read (p, 0))) (\<lambda>e. okT (Some (m, e))))
   | _ \<Rightarrow> okT None)"

definition row_lwb :: "a68_val \<Rightarrow> int rt" where
  "row_lwb r = bnd (row_of r) (\<lambda>d. ret (d_l (hd (r_dim d))))"

definition elem_of :: "a68_rowd \<Rightarrow> int \<Rightarrow> a68_val rt" where
  "elem_of d i = bnd (lift_res (row_store_index d i)) (rowd_get d)"

text \<open>The strings of a row that are not empty.\<close>

definition cvec :: "a68_val \<Rightarrow> string list rt" where
  "cvec row = bnd (row_of row) (\<lambda>d. bnd (collect_run (upto_int (row_count d)) (\<lambda>i. bnd (elem_of d i) cstr_of))
     (\<lambda>ss. ret (filter (\<lambda>s. s \<noteq> []) ss)))"

definition exec_args :: "a68_val \<Rightarrow> a68_val \<Rightarrow> a68_val \<Rightarrow> (string \<times> string list \<times> string list) rt" where
  "exec_args p as en = bnd (cstr_of p) (\<lambda>prog. bnd (cvec as) (\<lambda>av. bnd (cvec en) (\<lambda>ev.
     if av = [] then die ''empty argument row'' else ret (prog, av, ev))))"

definition cell_ref :: "a68_val \<Rightarrow> a68_val rt" where
  "cell_ref v = bnd (slots_alloc 1) (\<lambda>s. bnd (set_body s (Slots [v])) (\<lambda>u. ret (VRef s 0)))"

definition file_val :: "nat \<Rightarrow> a68_val" where "file_val fid = VFile (of_nat fid)"

definition struct3 :: "a68_val \<Rightarrow> a68_val \<Rightarrow> a68_val \<Rightarrow> a68_val rt" where
  "struct3 a b c = bnd (slots_alloc 3) (\<lambda>s. bnd (set_body s (Slots [a, b, c])) (\<lambda>u. ret (VStruct s)))"

definition sf_act :: "('o, 'z) pre_fns_scheme \<Rightarrow> bool \<Rightarrow> a68_val \<Rightarrow> nat \<Rightarrow> ('o, unit) tio" where
  "sf_act x formatted row fid = (if formatted then printf_items x fid row else print_items x fid row)"

text \<open>What \<open>whole\<close>, \<open>fixed\<close>, \<open>float\<close> and \<open>real\<close> are given, with the value and its length.\<close>

datatype num_kind = NUM_INT | NUM_LONG_INT | NUM_MP | NUM_REAL u64

definition number_kind :: "a68_val \<Rightarrow> string \<Rightarrow> ('o, num_kind \<times> a68_val \<times> int) tio" where
  "number_kind v what =
     bndT (union_parts v) (\<lambda>q.
     if q = None then dieT what
     else ((let e = snd (the q) in
     bndT (modeT (fst (the q))) (\<lambda>p.
     if e = VUndef then dieT ''attempt to use an uninitialised value''
     else ((case (m_k p, e) of (M_INT, VInt i) \<Rightarrow> okT (if m_len p \<le> 0 then NUM_INT else NUM_LONG_INT, e, m_len p) | (M_INT, VBigint l) \<Rightarrow> okT (if m_len p \<le> 0 then NUM_INT else NUM_LONG_INT, e, m_len p) | (M_REAL, VMp l) \<Rightarrow> okT (NUM_MP, e, m_len p) | (M_REAL, VReal r) \<Rightarrow> bndT (resT (check_real r)) (\<lambda>u. okT (NUM_REAL r, e, m_len p)) | _ \<Rightarrow> dieT what))))))"


definition big_int_of :: "a68_val \<Rightarrow> a68_big rt" where
  "big_int_of v = (case v of
     VInt i \<Rightarrow> ret (big_from_i64 i)
   | _ \<Rightarrow> bnd (leaf_bytes (val_ptr v)) (\<lambda>ds. ret (big_from_dec (chars_of_bytes ds))))"

definition chan_in :: "nat \<Rightarrow> nat \<Rightarrow> nat \<Rightarrow> nat \<Rightarrow> bool" where
  "chan_in c a b d \<longleftrightarrow> c = a \<or> c = b \<or> c = d"

definition unsupported :: "string \<Rightarrow> nat \<Rightarrow> ('o, 'a) tio" where
  "unsupported nm n = resT (die_buf 256 (''unsupported standard procedure '' @ nm @ ''/'' @ nat_dec n))"

text \<open>A result of C type \<open>int32_t\<close>, and a number as the channel of a file.\<close>

definition int32_val :: "u32 \<Rightarrow> a68_val" where "int32_val k = VInt (scast k)"

definition channel_arg :: "a68_val \<Rightarrow> int" where
  "channel_arg v = (case v of VInt i \<Rightarrow> sint (ucast i :: u32) | _ \<Rightarrow> 3)"

text \<open>The arms that return \<open>vvoid ()\<close>.\<close>

definition voidT :: "('o, unit) tio \<Rightarrow> ('o, a68_val) tio" where "voidT m = bndT m (\<lambda>u. okT VVoid)"

text \<open>\<open>if (a.tag != T_NIL) store_ref (a, v);\<close>\<close>

definition store_unless_nil :: "a68_val \<Rightarrow> a68_val \<Rightarrow> unit rt" where
  "store_unless_nil r v = (if r = VNil then ret () else store_ref r v)"

section \<open>Files\<close>

definition layout_byte :: "string \<Rightarrow> u8" where
  "layout_byte ident = (if ident = ''B_NEWLINE'' then 10 else if ident = ''B_NEWPAGE'' then 12 else if ident = ''B_SPACE'' then 32 else 8)"

definition layout_arm :: "('o, 'z) pre_fns_scheme \<Rightarrow> string \<Rightarrow> a68_val \<Rightarrow> ('o, a68_val) tio" where
  "layout_arm x ident fv =
     bndT (file_id_of fv) (\<lambda>fid.
     bndT (file_get fid) (\<lambda>fs.
     if fid = 1 \<or> fl_reading fs \<and> \<not>  fl_writing fs then (
         if ident = ''B_NEWLINE'' \<or> ident = ''B_NEWPAGE'' then voidT (skip_line x fid)
         else (bndT (read_char x fid) (\<lambda>c. okT VVoid)))
     else (
         voidT (file_out x fid [layout_byte ident]))))"

definition open_arm :: "('o, 'z) pre_fns_scheme \<Rightarrow> a68_val \<Rightarrow> a68_val \<Rightarrow> a68_val \<Rightarrow> ('o, a68_val) tio" where
  "open_arm x fv pathv chanv =
     bndT (rtT (cstr_of pathv)) (\<lambda>path.
     bndT (osT (y_open_status x path)) (\<lambda>status.
     bndT ((if status = 0 then osT (y_read_file x path) else okT None)) (\<lambda>b.
     bndT (file_new fv (file_default\<lparr>fl_name := Some path, fl_loaded := True, fl_ondisk := True, fl_channel := channel_arg chanv, fl_buf := (case b of None \<Rightarrow> [] | Some bs \<Rightarrow> bs)\<rparr>)) (\<lambda>fid.
     okT (int32_val status)))))"

definition establish_arm :: "a68_val \<Rightarrow> a68_val \<Rightarrow> a68_val \<Rightarrow> ('o, a68_val) tio" where
  "establish_arm fv pathv chanv =
     bndT (rtT (cstr_of pathv)) (\<lambda>path.
     bndT (file_new fv (file_default\<lparr>fl_name := Some path, fl_loaded := True, fl_ondisk := True, fl_writing := True, fl_channel := channel_arg chanv\<rparr>)) (\<lambda>fid.
     okT (VInt 0)))"

definition create_arm :: "a68_val \<Rightarrow> a68_val \<Rightarrow> ('o, a68_val) tio" where
  "create_arm fv chanv =
     bndT (file_new fv (file_default\<lparr>fl_name := Some [], fl_loaded := True, fl_channel := channel_arg chanv\<rparr>)) (\<lambda>fid.
     okT (VInt 0))"

definition associate_arm :: "a68_val \<Rightarrow> a68_val \<Rightarrow> ('o, a68_val) tio" where
  "associate_arm fv r =
     bndT (file_new fv (file_default\<lparr>fl_assoc := r, fl_channel := 4\<rparr>)) (\<lambda>fid.
     okT (VVoid))"

definition close_arm :: "('o, 'z) pre_fns_scheme \<Rightarrow> a68_val \<Rightarrow> ('o, a68_val) tio" where
  "close_arm x fv =
     bndT (file_id_of fv) (\<lambda>fid.
     bndT (file_get fid) (\<lambda>fs.
     bndT (if fl_fd fs \<ge> 0 then (
             bndT (osT (y_close_fd x (fl_fd fs))) (\<lambda>b.
             file_upd fid (\<lambda>f. f\<lparr>fl_fd := - 1, fl_eof := True\<rparr>)))
         else (
             okT (())))
       (\<lambda>u.
     voidT (file_flush x fid))))"

definition scratch_arm :: "('o, 'z) pre_fns_scheme \<Rightarrow> a68_val \<Rightarrow> ('o, a68_val) tio" where
  "scratch_arm x fv =
     bndT (file_id_of fv) (\<lambda>fid.
     bndT (file_flush x fid) (\<lambda>u.
     bndT (file_get fid) (\<lambda>fs.
     if \<not>  (fl_ondisk fs \<and> fl_name fs \<noteq> None \<and> fl_name fs \<noteq> Some [] \<and> (fl_reading fs \<or> fl_writing fs)) then okT (VVoid)
     else (bndT (osT (y_remove_file x (the (fl_name fs)))) (\<lambda>removed.
     if \<not>  removed then dieT ''cannot scratch the file''
     else (voidT (file_upd fid (\<lambda>f. f\<lparr>fl_ondisk := False, fl_dirty := False\<rparr>))))))))"

definition reset_arm :: "('o, 'z) pre_fns_scheme \<Rightarrow> a68_val \<Rightarrow> ('o, a68_val) tio" where
  "reset_arm x fv =
     bndT (file_id_of fv) (\<lambda>fid.
     bndT (file_channel fv) (\<lambda>ch.
     if ch \<noteq> 3 \<and> ch \<noteq> 4 then dieT ''the channel does not allow resetting the file''
     else (bndT (file_flush x fid) (\<lambda>u.
     voidT (file_upd fid (\<lambda>f. f\<lparr>fl_pos := 0, fl_reading := False, fl_writing := False, fl_loaded := (fl_assoc f = VUndef \<and> fid \<noteq> 1)\<rparr>))))))"

definition maketerm_arm :: "a68_val \<Rightarrow> a68_val \<Rightarrow> ('o, a68_val) tio" where
  "maketerm_arm fv sv =
     bndT (file_id_of fv) (\<lambda>fid.
     bndT (rtT (str_of sv)) (\<lambda>s.
     voidT (file_upd fid (\<lambda>f. f\<lparr>fl_term := s\<rparr>))))"


definition event_arm :: "(a68_val \<Rightarrow> a68_file \<Rightarrow> a68_file) \<Rightarrow> a68_val \<Rightarrow> a68_val \<Rightarrow> ('o, a68_val) tio" where
  "event_arm setter fv h = bndT (file_id_of fv) (\<lambda>fid. voidT (file_upd fid (setter h)))"

definition idf_arm :: "a68_val \<Rightarrow> ('o, a68_val) tio" where
  "idf_arm fv =
     bndT (file_id_of fv) (\<lambda>fid.
     bndT (file_get fid) (\<lambda>fs.
     if fl_name fs = None \<or> fl_name fs = Some [] then dieT ''attempt to use NIL''
     else (rtT (str_val (the (fl_name fs))))))"

definition term_arm :: "a68_val \<Rightarrow> ('o, a68_val) tio" where
  "term_arm fv =
     bndT (file_id_of fv) (\<lambda>fid.
     bndT (file_get fid) (\<lambda>fs.
     rtT (of_string (fl_term fs))))"

definition eof_arm :: "('o, 'z) pre_fns_scheme \<Rightarrow> bool \<Rightarrow> a68_val \<Rightarrow> ('o, a68_val) tio" where
  "eof_arm x is_eof fv =
     bndT (file_id_of fv) (\<lambda>fid.
     bndT (file_get fid) (\<lambda>fs.
     if fl_writing fs \<and> fid \<noteq> 1 then dieT ''the file is in write mood''
     else (if \<not>  (fl_reading fs \<or> fid = 1 \<or> fl_fd fs \<ge> 0) then dieT ''the file is in undetermined mood''
     else (bndT (at_end x fid) (\<lambda>e.
     if is_eof then okT (VBool e)
     else (bndT ((if e then logical_end x fid else okT ())) (\<lambda>u.
     bndT (peek_char x fid) (\<lambda>c.
     okT (VBool (c = Some 10))))))))))"

definition set_arm :: "('o, 'z) pre_fns_scheme \<Rightarrow> a68_val \<Rightarrow> a68_val \<Rightarrow> ('o, a68_val) tio" where
  "set_arm x fv kv =
     bndT (file_id_of fv) (\<lambda>fid.
     bndT (file_channel fv) (\<lambda>ch.
     if ch \<noteq> 3 \<and> ch \<noteq> 4 then dieT ''the channel does not allow setting the file''
     else (bndT (rtT (as_int kv)) (\<lambda>k.
     bndT (load_file x fid) (\<lambda>fs.
     (let np = int (fl_pos fs) + sint k in
     if np \<ge> 2 ^ 63 then failT UB
     else (if np < 0 \<or> np \<ge> int (length (fl_buf fs)) then (
         if fl_on_end fs = VUndef then dieT ''the file has ended''
         else (bndT (io_call_handler x (fl_on_end fs) fid) (\<lambda>b.
         if \<not>  b then dieT ''the file has ended''
         else (okT (VInt (word_of_int np))))))
     else (
         bndT (file_upd fid (\<lambda>f. f\<lparr>fl_pos := nat np\<rparr>)) (\<lambda>u.
         okT (VInt (word_of_int np)))))))))))"

definition puts_arm :: "('o, 'z) pre_fns_scheme \<Rightarrow> bool \<Rightarrow> bool \<Rightarrow> a68_val \<Rightarrow> a68_val \<Rightarrow> ('o, a68_val) tio" where
  "puts_arm x formatted keep r row =
     bndT (rtT (row_of row)) (\<lambda>d.
     bndT (if row_count d > 0 then (
             bndT (with_string_file (sf_act x formatted row)) (\<lambda>s.
             bndT (rtT (of_string s)) (\<lambda>v.
             rtT (store_ref r v))))
         else (
             okT (())))
       (\<lambda>u.
     okT (if keep then r else VVoid)))"

definition gets_arm :: "('o, 'z) pre_fns_scheme \<Rightarrow> bool \<Rightarrow> a68_val \<Rightarrow> a68_val \<Rightarrow> ('o, a68_val) tio" where
  "gets_arm x formatted r row =
     bndT (file_push (file_default\<lparr>fl_assoc := r, fl_channel := 4\<rparr>)) (\<lambda>fid.
     bndT ((if formatted then getf_items x fid row else get_items x fid row)) (\<lambda>u.
     voidT (file_pop fid)))"

definition bin_arm :: "('o, 'z) pre_fns_scheme \<Rightarrow> bool \<Rightarrow> nat \<Rightarrow> a68_val \<Rightarrow> ('o, a68_val) tio" where
  "bin_arm x reads fid row =
     bndT (rtT (row_of row)) (\<lambda>d.
     voidT (eachT (upto_int (row_count d)) (\<lambda>i. bndT (rtT (elem_of d i)) (\<lambda>e. bndT (need_union ''internal: binary transput argument'' e) (\<lambda>(q, m). bndT (rtT (slot_read (q, 0))) (\<lambda>v. if reads then read_bin x fid m v else write_bin x fid m v))))))"


section \<open>Numbers as strings\<close>

text \<open>\<open>take_str\<close>.\<close>

definition strT :: "string \<Rightarrow> ('o, a68_val) tio" where "strT s = rtT (str_val s)"

definition whole_arm :: "('o, 'z) pre_fns_scheme \<Rightarrow> a68_val \<Rightarrow> a68_val \<Rightarrow> ('o, a68_val) tio" where
  "whole_arm x v wv =
     bndT (askT w_ll) (\<lambda>ll.
     bndT (rtT (as_int wv)) (\<lambda>width.
     bndT (number_kind v ''internal: whole argument'') (\<lambda>(k, e, ln).
     (case k of NUM_MP \<Rightarrow> bndT (lrtT (mp_fmt_whole ll e ln (sint width))) strT | NUM_REAL r \<Rightarrow> bndT (optT (a68_fmt_whole_real x r (sint width))) strT | _ \<Rightarrow> bndT (rtT (big_int_of e)) (\<lambda>b. strT (a68_fmt_whole_int b (sint width)))))))"

definition fixed_arm :: "('o, 'z) pre_fns_scheme \<Rightarrow> a68_val \<Rightarrow> a68_val \<Rightarrow> a68_val \<Rightarrow> ('o, a68_val) tio" where
  "fixed_arm x v wv av =
     bndT (askT w_ll) (\<lambda>ll.
     bndT (rtT (as_int wv)) (\<lambda>width.
     bndT (rtT (as_int av)) (\<lambda>after.
     bndT (number_kind v ''internal: fixed argument'') (\<lambda>(k, e, ln).
     (case k of NUM_INT \<Rightarrow> bndT (rtT (big_int_of e)) (\<lambda>b. bndT (optT (a68_fmt_fixed_int x b (sint width) (sint after) False)) strT) | NUM_LONG_INT \<Rightarrow> bndT (rtT (big_int_of e)) (\<lambda>b. bndT (rtT (mp_of_int ll b ln)) (\<lambda>z. bndT (lrtT (mp_fmt_fixed ll z ln (sint width) (sint after))) strT)) | NUM_MP \<Rightarrow> bndT (lrtT (mp_fmt_fixed ll e ln (sint width) (sint after))) strT | NUM_REAL r \<Rightarrow> bndT (optT (a68_fmt_fixed_real x r (sint width) (sint after))) strT)))))"

definition float_arm :: "('o, 'z) pre_fns_scheme \<Rightarrow> string \<Rightarrow> a68_val \<Rightarrow> a68_val \<Rightarrow> a68_val \<Rightarrow> a68_val \<Rightarrow> a68_val option \<Rightarrow> ('o, a68_val) tio" where
  "float_arm x what v wv av ev fv =
     bndT (askT w_ll) (\<lambda>ll.
     bndT (rtT (as_int wv)) (\<lambda>width.
     bndT (rtT (as_int av)) (\<lambda>after.
     bndT (rtT (as_int ev)) (\<lambda>expo.
     bndT (rtT ((case fv of None \<Rightarrow> ret 1 | Some f \<Rightarrow> as_int f))) (\<lambda>frmt.
     bndT (number_kind v what) (\<lambda>(k, e, ln).
     (case k of NUM_INT \<Rightarrow> bndT (rtT (big_int_of e)) (\<lambda>b. bndT (optT (a68_fmt_float_int b (sint width) (sint after) (sint expo) (sint frmt))) strT) | NUM_LONG_INT \<Rightarrow> bndT (rtT (big_int_of e)) (\<lambda>b. bndT (rtT (mp_of_int ll b ln)) (\<lambda>z. bndT (lrtT (mp_fmt_float ll z ln (sint width) (sint after) (sint expo) (sint frmt))) strT)) | NUM_MP \<Rightarrow> bndT (lrtT (mp_fmt_float ll e ln (sint width) (sint after) (sint expo) (sint frmt))) strT | NUM_REAL r \<Rightarrow> bndT (optT (a68_fmt_float_real x r (sint width) (sint after) (sint expo) (sint frmt))) strT)))))))"


section \<open>Strings and characters\<close>

text \<open>The loop of \<open>char in string\<close>, to the first or the last place.\<close>

primrec find_char :: "a68_rowd \<Rightarrow> u32 \<Rightarrow> bool \<Rightarrow> int list \<Rightarrow> int option \<Rightarrow> int option rt" where
  "find_char d ch first [] found = ret found"
| "find_char d ch first (k # ks) found = bnd (bnd (elem_of d k) as_char) (\<lambda>c.
     if c = ch then (if first then ret (Some k) else find_char d ch first ks (Some k)) else find_char d ch first ks found)"

definition charinstring_arm :: "bool \<Rightarrow> a68_val \<Rightarrow> a68_val \<Rightarrow> a68_val \<Rightarrow> ('o, a68_val) tio" where
  "charinstring_arm first cv r row =
     bndT (rtT (as_char cv)) (\<lambda>ch.
     bndT (rtT (row_of row)) (\<lambda>d.
     bndT (rtT (find_char d ch first (upto_int (row_count d)) None)) (\<lambda>found.
     if found = None then okT (VBool False)
     else (bndT (rtT (store_unless_nil r (VInt (word_of_int (d_l (hd (r_dim d)) + the found))))) (\<lambda>u.
     okT (VBool True))))))"


text \<open>The first place \<open>k\<close>, at most the length of \<open>t\<close>, where \<open>p\<close> occurs.\<close>

definition match_at :: "u8 list \<Rightarrow> u8 list \<Rightarrow> nat \<Rightarrow> bool" where
  "match_at p t k \<longleftrightarrow> k + length p \<le> length t \<and> take (length p) (drop k t) = p"

definition stringinstring_arm :: "a68_val \<Rightarrow> a68_val \<Rightarrow> a68_val \<Rightarrow> ('o, a68_val) tio" where
  "stringinstring_arm pv r row =
     bndT (rtT (str_of pv)) (\<lambda>p.
     bndT (rtT (row_lwb row)) (\<lambda>l.
     bndT (rtT (str_of row)) (\<lambda>t.
     (let found = find (match_at p t) [0..<length t + 1] in
     if found = None then okT (VBool False)
     else (bndT (rtT (store_unless_nil r (VInt (word_of_int (l + int (the found)))))) (\<lambda>u.
     okT (VBool True)))))))"


definition is_up :: "u32 \<Rightarrow> bool" where "is_up c \<longleftrightarrow> c \<ge> 65 \<and> c \<le> 90"
definition is_low :: "u32 \<Rightarrow> bool" where "is_low c \<longleftrightarrow> c \<ge> 97 \<and> c \<le> 122"
definition is_digc :: "u32 \<Rightarrow> bool" where "is_digc c \<longleftrightarrow> c \<ge> 48 \<and> c \<le> 57"

definition to_up :: "u32 \<Rightarrow> u32" where "to_up c = (if is_low c then c - 32 else c)"
definition to_low :: "u32 \<Rightarrow> u32" where "to_low c = (if is_up c then c + 32 else c)"

definition charT :: "(u32 \<Rightarrow> a68_val) \<Rightarrow> a68_val \<Rightarrow> ('o, a68_val) tio" where
  "charT g v = bndT (rtT (as_char v)) (\<lambda>c. okT (g c))"

definition char_arms :: "a68_val list \<Rightarrow> (string \<times> nat \<times> ('o, a68_val) tio) list" where
  "char_arms a = [(''B_TOUPPER'', 1, charT (\<lambda>c. VChar (to_up c)) (a ! 0)), (''B_TOLOWER'', 1, charT (\<lambda>c. VChar (to_low c)) (a ! 0)),
     (''B_ISUPPER'', 1, charT (\<lambda>c. VBool (is_up c)) (a ! 0)), (''B_ISLOWER'', 1, charT (\<lambda>c. VBool (is_low c)) (a ! 0)),
     (''B_ISDIGIT'', 1, charT (\<lambda>c. VBool (is_digc c)) (a ! 0)),
     (''B_ISALPHA'', 1, charT (\<lambda>c. VBool (is_up c \<or> is_low c)) (a ! 0)),
     (''B_ISALNUM'', 1, charT (\<lambda>c. VBool (is_up c \<or> is_low c \<or> is_digc c)) (a ! 0)),
     (''B_ISSPACE'', 1, charT (\<lambda>c. VBool (c = 32 \<or> c \<ge> 9 \<and> c \<le> 13)) (a ! 0)),
     (''B_ISPUNCT'', 1, charT (\<lambda>c. VBool (c > 32 \<and> c < 127 \<and> \<not> (is_up c \<or> is_low c \<or> is_digc c))) (a ! 0)),
     (''B_ISPRINT'', 1, charT (\<lambda>c. VBool (c \<ge> 32 \<and> c < 127)) (a ! 0)),
     (''B_ISGRAPH'', 1, charT (\<lambda>c. VBool (c > 32 \<and> c < 127)) (a ! 0)),
     (''B_ISCNTRL'', 1, charT (\<lambda>c. VBool (c < 32 \<or> c = 127)) (a ! 0)),
     (''B_ISXDIGIT'', 1, charT (\<lambda>c. VBool (is_digc c \<or> c \<ge> 65 \<and> c \<le> 70 \<or> c \<ge> 97 \<and> c \<le> 102)) (a ! 0))]"

definition bitspack_arm :: "a68_val \<Rightarrow> ('o, a68_val) tio" where
  "bitspack_arm row =
     bndT (rtT (row_of row)) (\<lambda>d.
     bndT (rtT (collect_run (upto_int (row_count d)) (\<lambda>i. bnd (elem_of d i) as_bool))) (\<lambda>bs.
     okT (VBits (foldl (\<lambda>v b. v * 2 + (if b then 1 else 0)) 0 bs))))"

definition bytespack_arm :: "nat \<Rightarrow> a68_val \<Rightarrow> ('o, a68_val) tio" where
  "bytespack_arm width v =
     bndT (rtT (str_of v)) (\<lambda>s.
     if length s > width then dieT (''the string is longer than '' @ nat_dec width @ '' characters'')
     else (rtT (string_row (s @ replicate (width - length s) 0) 1)))"


section \<open>Random numbers and functions\<close>

text \<open>\<open>-k\<close> of the least number is undefined.\<close>

definition abs_i64 :: "64 word \<Rightarrow> 64 word res" where
  "abs_i64 k = (if k = 0x8000000000000000 then Inl UB else Inr (if sint k < 0 then - k else k))"

definition abs_arm :: "a68_val \<Rightarrow> ('o, a68_val) tio" where
  "abs_arm v =
     bndT (rtT (as_int v)) (\<lambda>k.
     bndT (resT (abs_i64 k)) (\<lambda>r.
     okT (VInt r)))"

definition firstrandom_arm :: "a68_val \<Rightarrow> ('o, a68_val) tio" where
  "firstrandom_arm v =
     bndT (rtT (as_int v)) (\<lambda>k.
     voidT (modT (\<lambda>w. w\<lparr>w_taus := taus_seed (if sint k < 0 then 0 else ucast k)\<rparr>)))"

definition randomint_arm :: "('o, 'z) pre_fns_scheme \<Rightarrow> a68_val \<Rightarrow> ('o, a68_val) tio" where
  "randomint_arm x v =
     bndT (rtT (as_int v)) (\<lambda>k.
     bndT (next_random x) (\<lambda>r.
     (let p = f_mul x r (f_of_i64 x k) in
     okT (VInt (1 + (if dbl_le x p dbl_zero then 0 else if dbl_le x dbl_two64 p then - 1 else f_to_u64 x p))))))"

definition complexfn_arm :: "('o, 'z) pre_fns_scheme \<Rightarrow> nat \<Rightarrow> a68_val \<Rightarrow> ('o, a68_val) tio" where
  "complexfn_arm x sub v =
     bndT (rtT (pair_parts v)) (\<lambda>p.
     (case p of Some (VReal re, VReal im) \<Rightarrow> (case a68_compl_fn x sub re im of (r, i) \<Rightarrow> rtT (check_compl r i)) | _ \<Rightarrow> dieT ''COMPL expected''))"

definition arctan2_arm :: "('o, 'z) pre_fns_scheme \<Rightarrow> a68_val \<Rightarrow> a68_val \<Rightarrow> ('o, a68_val) tio" where
  "arctan2_arm x yv xv =
     bndT (rtT (as_real (f_of_i64 x) yv)) (\<lambda>y.
     bndT (rtT (as_real (f_of_i64 x) xv)) (\<lambda>z.
     bndT (resT (check_real (f_atan2 x y z))) (\<lambda>r.
     okT (VReal r))))"


section \<open>Standard input and output\<close>

definition readint_arm :: "('o, 'z) pre_fns_scheme \<Rightarrow> ('o, a68_val) tio" where
  "readint_arm x =
     bndT (read_token x 1) (\<lambda>t.
     (let ds = (if t \<noteq> [] \<and> hd t = 45 then tl t else t) in
     if ds = [] \<or> \<not>  list_all is_dig ds then dieT ''cannot read INT''
     else ((let b = big_from_dec (cstr t) in
     if big_fits_i64 b then okT (VInt (big_to_i64 b))
     else (bndT (rtT (text_leaf (big_to_dec b))) (\<lambda>l.
     okT (VBigint l)))))))"

definition readreal_arm :: "('o, 'z) pre_fns_scheme \<Rightarrow> ('o, a68_val) tio" where
  "readreal_arm x =
     bndT (read_token x 1) (\<lambda>t.
     (let neg = (t \<noteq> [] \<and> hd t = 45);
          r = a68_fmt_parse_float x (cstr (if neg then tl t else t)) in
     okT (VReal (if neg then dbl_neg r else r))))"

definition readstring_arm :: "('o, 'z) pre_fns_scheme \<Rightarrow> ('o, a68_val) tio" where
  "readstring_arm x =
     bndT (read_line_str x 1) (\<lambda>s.
     bndT (skip_line x 1) (\<lambda>u.
     rtT (of_string s)))"

definition readchar_arm :: "('o, 'z) pre_fns_scheme \<Rightarrow> ('o, a68_val) tio" where
  "readchar_arm x =
     bndT (read_char x 1) (\<lambda>c.
     if c = None then dieT ''end of file''
     else (okT (VChar (ucast (the c)))))"

definition readbool_arm :: "('o, 'z) pre_fns_scheme \<Rightarrow> ('o, a68_val) tio" where
  "readbool_arm x =
     bndT (read_token x 1) (\<lambda>t.
     okT (VBool (t = bstr ''T'' \<or> t = bstr ''TRUE'')))"

definition printint_arm :: "a68_val \<Rightarrow> ('o, a68_val) tio" where
  "printint_arm v =
     bndT (fmt_int_of v 0) (\<lambda>s.
     voidT (out_append (bstr s)))"

definition printreal_arm :: "('o, 'z) pre_fns_scheme \<Rightarrow> a68_val \<Rightarrow> ('o, a68_val) tio" where
  "printreal_arm x v =
     bndT (askT w_ll) (\<lambda>ll.
     bndT (rtT (as_real (f_of_i64 x) v)) (\<lambda>r.
     bndT (optT (a68_fmt_print_real x r 0 (int ll))) (\<lambda>s.
     voidT (out_append (bstr s)))))"

definition printstring_arm :: "a68_val \<Rightarrow> ('o, a68_val) tio" where
  "printstring_arm v =
     bndT (rtT (str_of v)) (\<lambda>s.
     voidT (out_append s))"

definition printchar_arm :: "a68_val \<Rightarrow> ('o, a68_val) tio" where
  "printchar_arm v =
     bndT (rtT (as_char v)) (\<lambda>c.
     voidT (out_append [ucast c]))"

definition printbool_arm :: "a68_val \<Rightarrow> ('o, a68_val) tio" where
  "printbool_arm v =
     bndT (rtT (as_bool v)) (\<lambda>b.
     voidT (out_append (bstr (if b then ''T'' else ''F''))))"


section \<open>The system\<close>

definition argv_arm :: "a68_val \<Rightarrow> ('o, a68_val) tio" where
  "argv_arm v =
     bndT (rtT (as_int v)) (\<lambda>k.
     bndT (askT w_args) (\<lambda>as.
     rtT (str_val (if sint k < 1 \<or> sint k > int (length as) then [] else as ! nat (sint k - 1)))))"


text \<open>An arm that hands a C string to the system.\<close>

definition pathT :: "(string \<Rightarrow> 'o \<Rightarrow> 'b \<times> 'o) \<Rightarrow> ('b \<Rightarrow> ('o, a68_val) tio) \<Rightarrow> a68_val \<Rightarrow> ('o, a68_val) tio" where
  "pathT call k v = bndT (rtT (cstr_of v)) (\<lambda>s. bndT (osT (call s)) k)"

definition system_arm :: "('o, 'z) pre_fns_scheme \<Rightarrow> a68_val \<Rightarrow> ('o, a68_val) tio" where
  "system_arm x v =
     bndT (rtT (cstr_of v)) (\<lambda>c.
     bndT (io_flush_out) (\<lambda>u.
     bndT (osT (y_system x c)) (\<lambda>r.
     okT (int32_val r))))"

definition fork_arm :: "('o, 'z) pre_fns_scheme \<Rightarrow> ('o, a68_val) tio" where
  "fork_arm x =
     bndT (io_flush_out) (\<lambda>u.
     bndT (osT (y_fork x)) (\<lambda>r.
     okT (int32_val r)))"

definition execve_arm :: "(string \<Rightarrow> string list \<Rightarrow> string list \<Rightarrow> 'o \<Rightarrow> u32 \<times> 'o) \<Rightarrow> a68_val \<Rightarrow> a68_val \<Rightarrow> a68_val \<Rightarrow> ('o, a68_val) tio" where
  "execve_arm call p as en =
     bndT (rtT (exec_args p as en)) (\<lambda>(prog, av, ev).
     bndT (io_flush_out) (\<lambda>u.
     bndT (osT (call prog av ev)) (\<lambda>r.
     okT (int32_val r))))"

definition execpipe_arm :: "('o, 'z) pre_fns_scheme \<Rightarrow> a68_val \<Rightarrow> a68_val \<Rightarrow> a68_val \<Rightarrow> ('o, a68_val) tio" where
  "execpipe_arm x p as en =
     bndT (rtT (exec_args p as en)) (\<lambda>(prog, av, ev).
     bndT (io_flush_out) (\<lambda>u.
     bndT (osT (y_execve_pipe x prog av ev)) (\<lambda>(rd, wr, pid).
     bndT (file_push (file_default\<lparr>fl_fd := sint rd, fl_channel := 1, fl_reading := True\<rparr>)) (\<lambda>ir.
     bndT (file_push (file_default\<lparr>fl_fd := sint wr, fl_channel := 0, fl_writing := True\<rparr>)) (\<lambda>iw.
     bndT (rtT (cell_ref (file_val ir))) (\<lambda>cr.
     bndT (rtT (push cr)) (\<lambda>u.
     bndT (rtT (cell_ref (file_val iw))) (\<lambda>cw.
     bndT (rtT (struct3 cr cw (int32_val pid))) (\<lambda>r.
     bndT (rtT (pop)) (\<lambda>u.
     okT (r)))))))))))"

definition execoutput_arm :: "('o, 'z) pre_fns_scheme \<Rightarrow> a68_val \<Rightarrow> a68_val \<Rightarrow> a68_val \<Rightarrow> a68_val \<Rightarrow> ('o, a68_val) tio" where
  "execoutput_arm x p as en r =
     bndT (rtT (exec_args p as en)) (\<lambda>(prog, av, ev).
     bndT (io_flush_out) (\<lambda>u.
     bndT (osT (y_execve_output x prog av ev)) (\<lambda>(code, out).
     bndT (rtT ((case out of None \<Rightarrow> ret () | Some bs \<Rightarrow> if r = VNil then ret () else bnd (of_string bs) (store_ref r)))) (\<lambda>u.
     okT (int32_val code)))))"

definition time_arm :: "('o, 'z) pre_fns_scheme \<Rightarrow> bool \<Rightarrow> ('o, a68_val) tio" where
  "time_arm x utc =
     bndT (osT (y_time x utc)) (\<lambda>t.
     rtT (row_of_values (case t of None \<Rightarrow> [] | Some vs \<Rightarrow> map int32_val vs)))"


text \<open>Every string is kept on the stack until the row holds them.\<close>

definition getdirectory_arm :: "('o, 'z) pre_fns_scheme \<Rightarrow> a68_val \<Rightarrow> ('o, a68_val) tio" where
  "getdirectory_arm x v =
     bndT (rtT (cstr_of v)) (\<lambda>p.
     bndT (osT (y_readdir x p)) (\<lambda>ns.
     if ns = None then dieT ''cannot read the directory''
     else (bndT (rtT (collect_run (the ns) (\<lambda>n. bnd (str_val n) (\<lambda>s. bnd (push s) (\<lambda>u. ret s))))) (\<lambda>vs.
     bndT (rtT (row_of_values vs)) (\<lambda>r.
     bndT (rtT (drop_stack (length vs))) (\<lambda>u.
     okT (r)))))))"

definition grep_arm :: "('o, 'z) pre_fns_scheme \<Rightarrow> bool \<Rightarrow> a68_val \<Rightarrow> a68_val \<Rightarrow> a68_val \<Rightarrow> a68_val \<Rightarrow> ('o, a68_val) tio" where
  "grep_arm x notbol pv sv r1 r2 =
     bndT (rtT (cstr_of pv)) (\<lambda>p.
     bndT (rtT (row_lwb sv)) (\<lambda>l.
     bndT (rtT (cstr_of sv)) (\<lambda>s.
     bndT (osT (y_regex x p s notbol)) (\<lambda>(res, so, eo).
     if res \<noteq> 0 then okT (int32_val res)
     else (bndT (rtT (store_unless_nil r1 (VInt (word_of_int (sint so + l))))) (\<lambda>u.
     bndT (rtT (store_unless_nil r2 (VInt (word_of_int (sint eo + l - 1))))) (\<lambda>u.
     okT (int32_val res))))))))"


definition clip_to :: "nat \<Rightarrow> u32 \<Rightarrow> nat" where
  "clip_to n k = (if sint k < 0 \<or> sint k > int n then n else nat (sint k))"

definition subinstring_arm :: "('o, 'z) pre_fns_scheme \<Rightarrow> a68_val \<Rightarrow> a68_val \<Rightarrow> a68_val \<Rightarrow> ('o, a68_val) tio" where
  "subinstring_arm x pv tv r =
     (if r = VNil then okT (VInt 3)
     else (bndT (rtT (ref_load_checked r)) (\<lambda>v.
     bndT (rtT (str_of v)) (\<lambda>s.
     bndT (rtT (cstr_of pv)) (\<lambda>p.
     bndT (osT (y_regex x p (cstr (takeWhile (\<lambda>b. b \<noteq> 0) s)) False)) (\<lambda>(res, so, eo).
     if res \<noteq> 0 then okT (int32_val res)
     else (bndT (rtT (str_of tv)) (\<lambda>t.
     bndT (rtT (string_row (take (clip_to (length s) so) s @ t @ drop (clip_to (length s) eo) s) 1)) (\<lambda>nv.
     bndT (rtT (store_ref r nv)) (\<lambda>u.
     okT (VInt 0)))))))))))"

definition setpwd_arm :: "('o, 'z) pre_fns_scheme \<Rightarrow> a68_val \<Rightarrow> ('o, a68_val) tio" where
  "setpwd_arm x v =
     bndT (rtT (cstr_of v)) (\<lambda>p.
     bndT (osT (y_chdir x p)) (\<lambda>done.
     if \<not>  done then dieT ''cannot change to the directory''
     else (okT (VInt 0))))"


definition dbl_thousand :: u64 where "dbl_thousand = 0x408F400000000000"

text \<open>A number of seconds beyond 32 bits of milliseconds is undefined.\<close>

definition sleep_real :: "('o, 'z) pre_fns_scheme \<Rightarrow> u64 \<Rightarrow> ('o, a68_val) tio" where
  "sleep_real x r = (let ms = f_mul x (dbl_abs r) dbl_thousand in
     if f_less x ms dbl_two32 then bndT (osT (y_sleep_ms x (ucast (f_to_u64 x ms)))) (\<lambda>u. okT (VInt 0)) else failT UB)"

definition sleep_arm :: "('o, 'z) pre_fns_scheme \<Rightarrow> a68_val \<Rightarrow> ('o, a68_val) tio" where
  "sleep_arm x v =
     bndT (union_parts v) (\<lambda>q.
     if q = None then okT (VInt (- 1))
     else (bndT (modeT (fst (the q))) (\<lambda>p.
     (case (m_k p, snd (the q)) of (M_INT, VInt i) \<Rightarrow> bndT (resT (abs_i64 i)) (\<lambda>k. bndT (osT (y_sleep x (ucast k))) (\<lambda>r. okT (int32_val r))) | (M_REAL, VReal r) \<Rightarrow> sleep_real x r | _ \<Rightarrow> okT (VInt (- 1))))))"


end
