(* ===== verification/PreludeBuiltin.thy ===== *)
theory PreludeBuiltin
  imports PreludeProcs
begin

text \<open>
  \<open>csrc/prelude.c\<close>: the dispatch. The arms of the switch are entries: the number of the procedure, the number of
  arguments it demands, and what it does with the arguments \<open>a\<close>. Another number of arguments is \<open>unsupported\<close>. A name that
  has no number may be a constant or a function of a number, complex numbers included.
\<close>

type_synonym 'o arm = "string \<times> nat \<times> ('o, a68_val) tio"

section \<open>The arms\<close>

definition item_arms :: "('o, 'z) pre_fns_scheme \<Rightarrow> a68_val list \<Rightarrow> 'o arm list" where
  "item_arms x a = [(''B_PRINT'', 1, voidT (print_items x 0 (a ! 0))),
     (''B_PUT'', 2, bndT (file_id_of (a ! 0)) (\<lambda>fid. voidT (print_items x fid (a ! 1)))),
     (''B_PRINTF'', 1, voidT (printf_items x 0 (a ! 0))),
     (''B_PUTF'', 2, bndT (file_id_of (a ! 0)) (\<lambda>fid. voidT (printf_items x fid (a ! 1)))),
     (''B_READ'', 1, voidT (get_items x 1 (a ! 0))),
     (''B_READF'', 1, voidT (getf_items x 1 (a ! 0))),
     (''B_GET'', 2, bndT (file_id_of (a ! 0)) (\<lambda>fid. voidT (get_items x fid (a ! 1)))),
     (''B_GETF'', 2, bndT (file_id_of (a ! 0)) (\<lambda>fid. voidT (getf_items x fid (a ! 1))))]"

definition layout_arms :: "('o, 'z) pre_fns_scheme \<Rightarrow> a68_val list \<Rightarrow> 'o arm list" where
  "layout_arms x a = map (\<lambda>ident. (ident, 1, layout_arm x ident (a ! 0)))
     [''B_NEWLINE'', ''B_NEWPAGE'', ''B_SPACE'', ''B_BACKSPACE'']"

definition file_arms :: "('o, 'z) pre_fns_scheme \<Rightarrow> a68_val list \<Rightarrow> 'o arm list" where
  "file_arms x a = [(''B_OPEN'', 3, open_arm x (a ! 0) (a ! 1) (a ! 2)),
     (''B_ESTABLISH'', 6, establish_arm (a ! 0) (a ! 1) (a ! 2)),
     (''B_CREATE'', 2, create_arm (a ! 0) (a ! 1)),
     (''B_ASSOCIATE'', 2, associate_arm (a ! 0) (a ! 1)),
     (''B_CLOSE'', 1, close_arm x (a ! 0)),
     (''B_SCRATCH'', 1, scratch_arm x (a ! 0)),
     (''B_RESET'', 1, reset_arm x (a ! 0)),
     (''B_MAKETERM'', 2, maketerm_arm (a ! 0) (a ! 1))]"

definition event_arms :: "a68_val list \<Rightarrow> 'o arm list" where
  "event_arms a = [(''B_ONFILEEND'', 2, event_arm (\<lambda>h f. f\<lparr>fl_on_end := h\<rparr>) (a ! 0) (a ! 1)),
     (''B_ONVALUEERROR'', 2, event_arm (\<lambda>h f. f\<lparr>fl_on_value := h\<rparr>) (a ! 0) (a ! 1)),
     (''B_ONLINEEND'', 2, event_arm (\<lambda>h f. f\<lparr>fl_on_line := h\<rparr>) (a ! 0) (a ! 1))]"

definition number_arms :: "('o, 'z) pre_fns_scheme \<Rightarrow> a68_val list \<Rightarrow> 'o arm list" where
  "number_arms x a = [(''B_WHOLE'', 2, whole_arm x (a ! 0) (a ! 1)),
     (''B_FIXED'', 3, fixed_arm x (a ! 0) (a ! 1) (a ! 2)),
     (''B_FLOAT'', 4, float_arm x ''internal: float argument'' (a ! 0) (a ! 1) (a ! 2) (a ! 3) None),
     (''B_REAL'', 5, float_arm x ''internal: real argument'' (a ! 0) (a ! 1) (a ! 2) (a ! 3) (Some (a ! 4)))]"

definition string_arms :: "a68_val list \<Rightarrow> 'o arm list" where
  "string_arms a = [(''B_CHARINSTRING'', 3, charinstring_arm True (a ! 0) (a ! 1) (a ! 2)),
     (''B_LASTCHARINSTRING'', 3, charinstring_arm False (a ! 0) (a ! 1) (a ! 2)),
     (''B_STRINGINSTRING'', 3, stringinstring_arm (a ! 0) (a ! 1) (a ! 2))]"

definition math_arms :: "('o, 'z) pre_fns_scheme \<Rightarrow> string \<Rightarrow> nat \<Rightarrow> a68_val list \<Rightarrow> 'o arm list" where
  "math_arms x nm sub a = [(''B_ODD'', 1, bndT (rtT (as_int (a ! 0))) (\<lambda>k. okT (VBool (odd (sint k))))),
     (''B_ABS'', 1, abs_arm (a ! 0)),
     (''B_STOP'', 0, io_stop),
     (''B_RANDOM'', 0, bndT (next_random x) (\<lambda>r. okT (VReal r))),
     (''B_FIRSTRANDOM'', 1, firstrandom_arm (a ! 0)),
     (''B_RANDOMINT'', 1, randomint_arm x (a ! 0)),
     (''B_GC_SWEEP'', 0, bndT (rtT (a68_gc_query 0)) (\<lambda>u. okT VVoid)),
     (''B_GC_COLLECTIONS'', 0, bndT (rtT (a68_gc_query 1)) (\<lambda>n. okT (VInt (of_nat n)))),
     (''B_GC_GARBAGE'', 0, bndT (rtT (a68_gc_query 2)) (\<lambda>n. okT (VInt (of_nat n)))),
     (''B_GC_REFUSED'', 0, okT (VInt 0)),
     (''B_GC_SECONDS'', 0, bndT (osT (y_gc_seconds x)) (\<lambda>r. okT (VReal r))),
     (''B_CLOCK'', 0, bndT (osT (y_clock_ms x)) (\<lambda>ms. okT (VReal (f_div x (f_of_i64 x ms) dbl_thousand)))),
     (''B_COMPLEXFN'', 1, complexfn_arm x sub (a ! 0)),
     (''B_LONGARCTAN2'', 2, bndT (askT w_ll) (\<lambda>ll. lrtT (mp_arctan2 x ll nm (a ! 0) (a ! 1)))),
     (''B_ARCTAN2'', 2, arctan2_arm x (a ! 0) (a ! 1))]"

definition standard_arms :: "('o, 'z) pre_fns_scheme \<Rightarrow> a68_val list \<Rightarrow> 'o arm list" where
  "standard_arms x a = [(''B_READINT'', 0, readint_arm x), (''B_READREAL'', 0, readreal_arm x),
     (''B_READSTRING'', 0, readstring_arm x), (''B_READLINE'', 0, readstring_arm x), (''B_READCHAR'', 0, readchar_arm x),
     (''B_READBOOL'', 0, readbool_arm x), (''B_PRINTINT'', 1, printint_arm (a ! 0)), (''B_PRINTREAL'', 1, printreal_arm x (a ! 0)),
     (''B_PRINTSTRING'', 1, printstring_arm (a ! 0)), (''B_PRINTCHAR'', 1, printchar_arm (a ! 0)),
     (''B_PRINTBOOL'', 1, printbool_arm (a ! 0)), (''B_NOOP1'', 1, okT VVoid), (''B_NOOP2'', 2, okT VVoid)]"

definition pack_arms :: "a68_val list \<Rightarrow> 'o arm list" where
  "pack_arms a = [(''B_ARGC'', 0, bndT (askT w_args) (\<lambda>as. okT (VInt (of_nat (length as))))),
     (''B_ARGV'', 1, argv_arm (a ! 0)), (''B_BITSPACK'', 1, bitspack_arm (a ! 0)),
     (''B_BYTESPACK'', 1, bytespack_arm 32 (a ! 0)), (''B_LONGBYTESPACK'', 1, bytespack_arm 256 (a ! 0)),
     (''B_EVALUATE'', length a, dieT ''evaluate is not available in a compiled program''),
     (''B_ABEND'', 1, bndT (rtT (cstr_of (a ! 0))) dieT)]"

definition process_arms :: "('o, 'z) pre_fns_scheme \<Rightarrow> a68_val list \<Rightarrow> 'o arm list" where
  "process_arms x a = [(''B_SYSTEM'', 1, system_arm x (a ! 0)), (''B_FORK'', 0, fork_arm x),
     (''B_GETENV'', 1, pathT (y_getenv x) strT (a ! 0)),
     (''B_EXECVE'', 3, execve_arm (y_execve x) (a ! 0) (a ! 1) (a ! 2)),
     (''B_EXECVECHILD'', 3, execve_arm (y_execve_child x) (a ! 0) (a ! 1) (a ! 2)),
     (''B_EXECVECHILDPIPE'', 3, execpipe_arm x (a ! 0) (a ! 1) (a ! 2)),
     (''B_EXECVEOUTPUT'', 4, execoutput_arm x (a ! 0) (a ! 1) (a ! 2) (a ! 3)),
     (''B_CREATEPIPE'', 0, rtT (struct3 (file_val 1) (file_val 0) (VInt (- 1)))),
     (''B_WAITPID'', 1, bndT (rtT (as_int (a ! 0))) (\<lambda>k. bndT (osT (y_waitpid x (ucast k))) (\<lambda>r. okT (int32_val r))))]"

definition system_arms :: "('o, 'z) pre_fns_scheme \<Rightarrow> nat \<Rightarrow> a68_val list \<Rightarrow> 'o arm list" where
  "system_arms x sub a = [(''B_UTCTIME'', 0, time_arm x True), (''B_LOCALTIME'', 0, time_arm x False),
     (''B_GETDIRECTORY'', 1, getdirectory_arm x (a ! 0)),
     (''B_FILEIS'', 1, pathT (y_stat_mode x) (\<lambda>m. okT (VBool (m \<noteq> 0 \<and> unat (and m 61440) = sub))) (a ! 0)),
     (''B_FILEMODE'', 1, pathT (y_stat_mode x) (\<lambda>m. okT (VBits (ucast m))) (a ! 0)),
     (''B_GREPINSTRING'', 4, grep_arm x False (a ! 0) (a ! 1) (a ! 2) (a ! 3)),
     (''B_GREPINSUBSTRING'', 4, grep_arm x True (a ! 0) (a ! 1) (a ! 2) (a ! 3)),
     (''B_SUBINSTRING'', 3, subinstring_arm x (a ! 0) (a ! 1) (a ! 2))]"

definition environ_arms :: "('o, 'z) pre_fns_scheme \<Rightarrow> a68_val list \<Rightarrow> 'o arm list" where
  "environ_arms x a = [(''B_STRERROR'', 1, bndT (rtT (as_int (a ! 0))) (\<lambda>e. strT (y_strerror x (ucast e)))),
     (''B_ERRNO'', 0, bndT (osT (y_errno x)) (\<lambda>e. okT (int32_val e))),
     (''B_RESETERRNO'', 0, voidT (osT (y_set_errno x 0))),
     (''B_GETPWD'', 0, bndT (osT (y_getcwd x)) strT),
     (''B_SETPWD'', 1, setpwd_arm x (a ! 0)),
     (''B_REALPATH'', 1, pathT (y_realpath x) strT (a ! 0)),
     (''B_SLEEP'', 1, sleep_arm x (a ! 0)),
     (''B_ROWS'', 0, okT (VInt 24)), (''B_COLUMNS'', 0, okT (VInt 500)),
     (''B_WALLCLOCK'', 0, bndT (osT (y_walltime x)) (\<lambda>r. okT (VReal r)))]"

definition realT :: "('o, 'z) pre_fns_scheme \<Rightarrow> (u64 \<Rightarrow> bool) \<Rightarrow> a68_val \<Rightarrow> ('o, a68_val) tio" where
  "realT x p v = bndT (rtT (as_real (f_of_i64 x) v)) (\<lambda>r. okT (VBool (p r)))"

definition float_arms :: "('o, 'z) pre_fns_scheme \<Rightarrow> a68_val list \<Rightarrow> 'o arm list" where
  "float_arms x a = [(''B_NAN'', 0, okT (VReal (f_div x dbl_zero dbl_zero))),
     (''B_INF'', 0, okT (VReal (f_div x dbl_one dbl_zero))),
     (''B_MINUSINF'', 0, okT (VReal (f_div x dbl_minus_one dbl_zero))),
     (''B_ISFINITE'', 1, realT x (\<lambda>r. \<not> dbl_isnan r \<and> \<not> dbl_isinf r) (a ! 0)),
     (''B_ISINF'', 1, realT x dbl_isinf (a ! 0)),
     (''B_ISPLUSINF'', 1, realT x (\<lambda>r. dbl_isinf r \<and> f_less x dbl_zero r) (a ! 0)),
     (''B_ISMINUSINF'', 1, realT x (\<lambda>r. dbl_isinf r \<and> f_less x r dbl_zero) (a ! 0)),
     (''B_ISNAN'', 1, realT x dbl_isnan (a ! 0))]"

definition channelT :: "(nat \<Rightarrow> bool) \<Rightarrow> a68_val \<Rightarrow> ('o, a68_val) tio" where
  "channelT p v = bndT (file_channel v) (\<lambda>c. okT (VBool (p c)))"

definition enquiry_arms :: "('o, 'z) pre_fns_scheme \<Rightarrow> a68_val list \<Rightarrow> 'o arm list" where
  "enquiry_arms x a = [(''B_RESETPOSSIBLE'', 1, channelT (\<lambda>c. c = 3 \<or> c = 4) (a ! 0)),
     (''B_GETPOSSIBLE'', 1, channelT (\<lambda>c. chan_in c 1 3 4) (a ! 0)),
     (''B_PUTPOSSIBLE'', 1, channelT (\<lambda>c. c = 0 \<or> c = 2 \<or> c = 3 \<or> c = 4) (a ! 0)),
     (''B_FALSE'', 1, okT (VBool False)), (''B_TRUE'', 1, okT (VBool True)),
     (''B_IDF'', 1, idf_arm (a ! 0)), (''B_TERM'', 1, term_arm (a ! 0)),
     (''B_EOF'', 1, eof_arm x True (a ! 0)), (''B_EOLN'', 1, eof_arm x False (a ! 0)),
     (''B_SET'', 2, set_arm x (a ! 0) (a ! 1))]"

definition text_arms :: "('o, 'z) pre_fns_scheme \<Rightarrow> nat \<Rightarrow> a68_val list \<Rightarrow> 'o arm list" where
  "text_arms x sub a = [(''B_PUTS'', 2, puts_arm x False False (a ! 0) (a ! 1)),
     (''B_STRING'', 2, puts_arm x False True (a ! 0) (a ! 1)),
     (''B_PUTSF'', 2, puts_arm x True False (a ! 0) (a ! 1)),
     (''B_STRINGF'', 2, puts_arm x True True (a ! 0) (a ! 1)),
     (''B_GETS'', 2, gets_arm x False (a ! 0) (a ! 1)), (''B_GETSF'', 2, gets_arm x True (a ! 0) (a ! 1)),
     (''B_GETBIN'', 2, bndT (file_id_of (a ! 0)) (\<lambda>fid. bin_arm x True fid (a ! 1))),
     (''B_PUTBIN'', 2, bndT (file_id_of (a ! 0)) (\<lambda>fid. bin_arm x False fid (a ! 1))),
     (''B_READBIN'', 1, bin_arm x True 3 (a ! 0)), (''B_PRINTBIN'', 1, bin_arm x False 3 (a ! 0)),
     (''B_LONGRANDOM'', 0, bndT (askT w_ll) (\<lambda>ll. bndT (next_random x) (\<lambda>r. rtT (mp_long_random x ll r (int sub)))))]"

section \<open>The dispatch\<close>

definition builtin_arms :: "('o, 'z) pre_fns_scheme \<Rightarrow> string \<Rightarrow> nat \<Rightarrow> a68_val list \<Rightarrow> 'o arm list" where
  "builtin_arms x nm sub a = item_arms x a @ layout_arms x a @ file_arms x a @ event_arms a @ number_arms x a @
     string_arms a @ char_arms a @ math_arms x nm sub a @ standard_arms x a @ pack_arms a @ process_arms x a @
     system_arms x sub a @ environ_arms x a @ float_arms x a @ enquiry_arms x a @ text_arms x sub a"

text \<open>The names without a number: constants, and functions of one number.\<close>

definition math_name_fn :: "('o, 'z) pre_fns_scheme \<Rightarrow> string \<Rightarrow> a68_val \<Rightarrow> ('o, a68_val) tio" where
  "math_name_fn x nm v = (if nm \<in> set math_names then
     bndT (rtT (as_real (f_of_i64 x) v)) (\<lambda>y. case math_fn x nm y of
         None \<Rightarrow> failT UB
       | Some r \<Rightarrow> bndT (resT r) (\<lambda>z. okT (VReal z)))
     else unsupported nm 1)"

definition other_builtin :: "('o, 'z) pre_fns_scheme \<Rightarrow> string \<Rightarrow> a68_val list \<Rightarrow> ('o, a68_val) tio" where
  "other_builtin x nm a =
     bndT (askT w_ll) (\<lambda>ll.
     if length a = 0 then (
         bndT (lrtT (mp_const x ll nm)) (\<lambda>r.
         (case r of Some v \<Rightarrow> okT v | None \<Rightarrow> unsupported nm 0)))
     else if length a = 1 then (
         bndT (lrtT (mp_math_fn x ll nm (a ! 0))) (\<lambda>r.
         if r \<noteq> None then okT (the r)
         else (bndT (lrtT (mp_compl_fn x ll nm (a ! 0))) (\<lambda>c.
         if c \<noteq> None then okT (the c)
         else (math_name_fn x nm (a ! 0))))))
     else (
         unsupported nm (length a)))"


definition builtin :: "('o, 'z) pre_fns_scheme \<Rightarrow> string \<Rightarrow> string \<Rightarrow> nat \<Rightarrow> a68_val list \<Rightarrow> ('o, a68_val) tio" where
  "builtin x nm ident sub a = (case map_of (builtin_arms x nm sub a) ident of
     Some (k, m) \<Rightarrow> if length a = k then m else unsupported nm (length a)
   | None \<Rightarrow> other_builtin x nm a)"

text \<open>The arguments are the values on top of the stack, where they stay.\<close>

definition call_builtin :: "('o, 'z) pre_fns_scheme \<Rightarrow> u32 \<Rightarrow> nat \<Rightarrow> ('o, a68_val) tio" where
  "call_builtin x si nargs =
     bndT (rtT (strtab_at si)) (\<lambda>nm.
     if nargs > 8 then dieT ''internal: too many arguments to a standard procedure''
     else (bndT (askT (\<lambda>w. stack (w_rt w))) (\<lambda>st.
     if length st < nargs then failT UB
     else (bndT (catchT (builtin x nm (fst (resolve nm)) (snd (resolve nm)) (rev (take nargs st)))) (\<lambda>r.
     okT ((case r of None \<Rightarrow> VUndef | Some v \<Rightarrow> v)))))))"


end
