(* ===== verification/PreludeProps.thy ===== *)
theory PreludeProps
  imports PreludeBuiltin IoProps
begin

text \<open>
  Properties of the standard prelude procedures (\<open>prelude.c\<close>): the random generator keeps clear of the states in
  which one of its components would stay at zero, the table of names and the dispatch agree, and a function of REAL
  values gives a number or an error.
\<close>

section \<open>The random generator\<close>

text \<open>
  A component has \<open>k\<close> low bits that do not matter; it must be at least \<open>2 ^ k\<close>, or the next steps only produce zero.
\<close>

lemma bit_at_least: "(z :: u32) \<ge> 2 ^ k \<longleftrightarrow> (\<exists>i. k \<le> i \<and> i < 32 \<and> bit z i)" if "k < 32"
proof -
  have "z \<ge> 2 ^ k \<longleftrightarrow> drop_bit k z \<noteq> 0"
  proof -
    have p: "unat (2 ^ k :: u32) = 2 ^ k"
      using that unsigned_push_bit_eq [where 'a = nat and 'b = 32, of k 1] by (simp add: push_bit_eq_mult take_bit_nat_eq_self)
    have "drop_bit k z = 0 \<longleftrightarrow> unat (drop_bit k z) = 0" by (simp only: unat_eq_0)
    also have "\<dots> \<longleftrightarrow> unat z < 2 ^ k"
      by (subst unat_drop_bit_eq) (simp add: drop_bit_eq_div div_eq_0_iff)
    finally show ?thesis by (auto simp: word_le_nat_alt p)
  qed
  also have "\<dots> \<longleftrightarrow> (\<exists>i. bit (drop_bit k z) i)"
    by (auto simp: bit_eq_iff dest: bit_imp_le_length [where 'a = 32, simplified])
  also have "\<dots> \<longleftrightarrow> (\<exists>i. k \<le> i \<and> i < 32 \<and> bit z i)"
  proof
    assume "\<exists>i. bit (drop_bit k z) i"
    then obtain i where "bit z (k + i)" by (auto simp: bit_drop_bit_eq)
    then show "\<exists>i. k \<le> i \<and> i < 32 \<and> bit z i" using bit_imp_le_length [of z "k + i"] by (intro exI [of _ "k + i"]) auto
  next
    assume "\<exists>i. k \<le> i \<and> i < 32 \<and> bit z i"
    then obtain i where "k \<le> i" "bit z i" by blast
    then show "\<exists>i. bit (drop_bit k z) i" by (intro exI [of _ "i - k"]) (simp add: bit_drop_bit_eq)
  qed
  finally show ?thesis .
qed

lemma taus_bit:
  "i < 32 \<Longrightarrow> bit (taus_step a b (Bit_Operations.not (mask k)) c z) i \<longleftrightarrow>
    (c + k \<le> i \<and> bit z (i - c)) \<noteq> (b + i < 32 \<and> ((a \<le> b + i \<and> bit z (b + i - a)) \<noteq> bit z (b + i)))"
  by (auto simp: taus_step_def bit_simps dest: bit_imp_le_length)

text \<open>
  A set bit of the upper part that the shift by \<open>c\<close> keeps is set in the result. When all of them are shifted out, the
  lowest of them comes back through the other half of the step.
\<close>

lemma taus_step_keeps:
  assumes k: "2 ^ k \<le> z" and ck: "b + c + k = 32" and a: "0 < a" "a \<le> b" and b: "0 < b" "0 < c"
  shows "2 ^ k \<le> taus_step a b (Bit_Operations.not (mask k)) c (z :: u32)"
proof -
  have k32: "k < 32" using ck b by simp
  have ex: "\<exists>i. k \<le> i \<and> i < 32 \<and> bit z i" using k k32 by (simp add: bit_at_least)
  define i where "i = (LEAST i. k \<le> i \<and> i < 32 \<and> bit z i)"
  have i: "k \<le> i" "i < 32" "bit z i" using LeastI_ex [OF ex] by (simp_all add: i_def)
  have low: "\<not> bit z j" if "k \<le> j" "j < i" for j
    using not_less_Least [of j "\<lambda>i. k \<le> i \<and> i < 32 \<and> bit z i"] that i by (auto simp: i_def)
  show ?thesis
  proof (cases "i + c < 32")
    case True
    have "bit (taus_step a b (Bit_Operations.not (mask k)) c z) (i + c)"
      using True i ck by (simp add: taus_bit)
    then show ?thesis using True i k32 by (subst bit_at_least) (auto intro!: exI [of _ "i + c"])
  next
    case False
    have "\<not> (a \<le> i \<and> bit z (i - a))"
      using low [of "i - a"] False ck a by simp
    then have "bit (taus_step a b (Bit_Operations.not (mask k)) c z) (i - b)"
      using False i ck low by (simp add: taus_bit)
    then show ?thesis using False i k32 ck by (subst bit_at_least) (auto intro!: exI [of _ "i - b"])
  qed
qed

definition taus_ok :: "taus \<Rightarrow> bool" where
  "taus_ok t = (case t of (z1, z2, z3, z4) \<Rightarrow> 2 \<le> z1 \<and> 8 \<le> z2 \<and> 16 \<le> z3 \<and> 128 \<le> z4)"

lemma taus_masks:
  "Bit_Operations.not (mask 1) = (4294967294 :: u32)" "Bit_Operations.not (mask 3) = (4294967288 :: u32)"
  "Bit_Operations.not (mask 4) = (4294967280 :: u32)" "Bit_Operations.not (mask 7) = (4294967168 :: u32)"
  by (simp_all add: mask_numeral)

lemma taus_get_ok: "taus_ok t \<Longrightarrow> taus_ok (snd (taus_get t))"
  using taus_step_keeps [of 1 "fst t" 13 18 6, unfolded taus_masks] taus_step_keeps [of 3 "fst (snd t)" 27 2 2, unfolded taus_masks]
    taus_step_keeps [of 4 "fst (snd (snd t))" 21 7 13, unfolded taus_masks]
    taus_step_keeps [of 7 "snd (snd (snd t))" 12 13 3, unfolded taus_masks]
  by (cases t) (simp add: taus_ok_def taus_get_def Let_def)

lemma at_least_ok: "k < 2 ^ 31 \<Longrightarrow> k \<le> at_least k z"
  by (simp add: at_least_def word_le_nat_alt word_less_nat_alt unat_word_ariths)

lemma taus_seed_ok: "taus_ok (taus_seed s)"
proof -
  have start: "taus_ok (taus_start s)"
    by (simp add: taus_start_def taus_ok_def Let_def at_least_ok)
  have "taus_ok (((snd \<circ> taus_get) ^^ n) (taus_start s))" for n
    by (induction n) (simp_all add: start taus_get_ok)
  then show ?thesis by (simp only: taus_seed_def)
qed

text \<open>
  C37: the generator never runs dry: whether it was seeded before or is seeded by the call itself, every call of
  \<open>next_random\<close> gives the next number and leaves a state in which each of the four components is large enough to keep
  its period, so that the all-zero state which stands for "not yet seeded" is not entered again.
\<close>

theorem random_never_sticks:
  assumes "w_taus w = (0, 0, 0, 0) \<or> taus_ok (w_taus w)"
  shows "\<exists>r t. next_random x w = Some (Done (f_div x (f_of_i64 x (ucast (r :: u32))) dbl_two32), w\<lparr>w_taus := t\<rparr>) \<and>
    taus_ok t \<and> t \<noteq> (0, 0, 0, 0)"
proof -
  let ?t = "if w_taus w = (0, 0, 0, 0) then taus_seed 1 else w_taus w"
  have "taus_ok (snd (taus_get ?t))" using assms by (auto simp: taus_get_ok taus_seed_ok)
  moreover have "next_random x w = Some (Done (f_div x (f_of_i64 x (ucast (fst (taus_get ?t)))) dbl_two32),
      w\<lparr>w_taus := snd (taus_get ?t)\<rparr>)"
    by (simp add: next_random_def split_beta)
  ultimately show ?thesis by (intro exI conjI) (auto simp: taus_ok_def)
qed

lemma random_never_sticks_witness:
  "\<forall>x. \<exists>r t. next_random x (demo_world []) =
    Some (Done (f_div x (f_of_i64 x (ucast (r :: u32))) dbl_two32), (demo_world [])\<lparr>w_taus := t\<rparr>) \<and>
    taus_ok t \<and> t \<noteq> (0, 0, 0, 0)"
  by (intro allI random_never_sticks) (simp add: demo_world_def)

section \<open>Functions of REAL values\<close>

definition fn_ok :: "u64 res \<Rightarrow> bool" where
  "fn_ok r = (case r of Inr y \<Rightarrow> True | Inl (Die e) \<Rightarrow> True | Inl _ \<Rightarrow> False)"

lemma fn_ok_parts [simp]:
  "fn_ok (Inr y)" "fn_ok not_number" "fn_ok math_exc" "fn_ok (unit_domain x g v)" "fn_ok (positive_domain x g v)"
  "fn_ok (quot x a z)" "fn_ok (tan_cot_pi x b v)"
  by (simp_all add: fn_ok_def not_number_def math_exc_def unit_domain_def positive_domain_def quot_def tan_cot_pi_def Let_def)

lemma fn_ok_checked:
  "fn_ok r \<Longrightarrow> (\<exists>y. bindE r check_real = Inr y \<and> \<not> dbl_isnan y \<and> \<not> dbl_isinf y) \<or> (\<exists>e. bindE r check_real = Inl (Die e))"
  by (cases r) (auto simp: fn_ok_def check_real_def split: c_error.splits)

lemma fn_ok_if: "case_option True f r \<Longrightarrow> case_option True f s \<Longrightarrow> case_option True f (if b then r else s)"
  by simp

lemma fn_ok_arms:
  "case_option True fn_ok (domain_fn x n v)" "case_option True fn_ok (degree_fn x n v)" "case_option True fn_ok (other_fn x n v)"
  unfolding domain_fn_def degree_fn_def other_fn_def Let_def by (intro fn_ok_if; simp)+

lemma math_fn_checked: "math_fn x n v = None \<or> (\<exists>r. math_fn x n v = Some (bindE r check_real) \<and> fn_ok r)"
proof (cases "map_of libm_names n")
  case None
  then show ?thesis using fn_ok_arms [of x n v] by (auto simp: math_fn_def split: option.splits)
next
  case (Some g)
  then have "math_fn x n v = Some (bindE (Inr (y_libm x g v)) check_real)" by (simp add: math_fn_def)
  then show ?thesis using fn_ok_parts(1) by blast
qed

lemma math_fn_some:
  "map_of libm_names n \<noteq> None \<Longrightarrow> math_fn x n v \<noteq> None" "domain_fn x n v \<noteq> None \<Longrightarrow> math_fn x n v \<noteq> None"
  "degree_fn x n v \<noteq> None \<Longrightarrow> math_fn x n v \<noteq> None" "other_fn x n v \<noteq> None \<Longrightarrow> math_fn x n v \<noteq> None"
  by (auto simp: math_fn_def split: option.splits)

lemma math_names_split:
  "list_all (\<lambda>n. map_of libm_names n \<noteq> None \<or> domain_fn x n v \<noteq> None \<or> degree_fn x n v \<noteq> None \<or> other_fn x n v \<noteq> None) math_names"
  by (simp add: math_names_def libm_names_def domain_fn_def degree_fn_def other_fn_def Let_def)

lemma math_fn_cases: "n \<in> set math_names \<Longrightarrow> \<exists>r. math_fn x n v = Some (bindE r check_real) \<and> fn_ok r"
  using math_names_split [of x v] math_fn_checked [of x n v] math_fn_some [where n = n and x = x and v = v] by (auto simp: list_all_iff)

text \<open>
  Every name that the run-time system treats as a function of one REAL value has a function, and whatever the C
  library returns for it, the program sees a finite number or an error: infinities and values that are not numbers never
  leave \<open>math_fn\<close>.
\<close>

theorem math_names_give_numbers:
  assumes "n \<in> set math_names"
  shows "(\<exists>y. math_fn x n v = Some (Inr y) \<and> \<not> dbl_isnan y \<and> \<not> dbl_isinf y) \<or> (\<exists>e. math_fn x n v = Some (Inl (Die e)))"
proof -
  obtain r where "math_fn x n v = Some (bindE r check_real)" "fn_ok r" using math_fn_cases [OF assms] by blast
  then show ?thesis using fn_ok_checked [of r] by auto
qed

lemma math_names_give_numbers_witness:
  "\<forall>x v. (\<exists>y. math_fn x ''longlongexp'' v = Some (Inr y) \<and> \<not> dbl_isnan y \<and> \<not> dbl_isinf y) \<or>
    (\<exists>e. math_fn x ''longlongexp'' v = Some (Inl (Die e)))"
  by (intro allI math_names_give_numbers) (simp add: math_names_def)

section \<open>The dispatch\<close>

lemmas arm_defs = item_arms_def layout_arms_def file_arms_def event_arms_def number_arms_def string_arms_def char_arms_def
  math_arms_def standard_arms_def pack_arms_def process_arms_def system_arms_def environ_arms_def float_arms_def
  enquiry_arms_def text_arms_def

definition arm_names :: "string list" where
  "arm_names =
  [''B_PRINT'', ''B_PUT'', ''B_PRINTF'', ''B_PUTF'', ''B_READ'', ''B_READF'', ''B_GET'', ''B_GETF'', ''B_NEWLINE'',
   ''B_NEWPAGE'', ''B_SPACE'', ''B_BACKSPACE'', ''B_OPEN'', ''B_ESTABLISH'', ''B_CREATE'', ''B_ASSOCIATE'',
   ''B_CLOSE'', ''B_SCRATCH'', ''B_RESET'', ''B_MAKETERM'', ''B_ONFILEEND'', ''B_ONVALUEERROR'', ''B_ONLINEEND'',
   ''B_WHOLE'', ''B_FIXED'', ''B_FLOAT'', ''B_REAL'', ''B_CHARINSTRING'', ''B_LASTCHARINSTRING'',
   ''B_STRINGINSTRING'', ''B_TOUPPER'', ''B_TOLOWER'', ''B_ISUPPER'', ''B_ISLOWER'', ''B_ISDIGIT'', ''B_ISALPHA'',
   ''B_ISALNUM'', ''B_ISSPACE'', ''B_ISPUNCT'', ''B_ISPRINT'', ''B_ISGRAPH'', ''B_ISCNTRL'', ''B_ISXDIGIT'',
   ''B_ODD'', ''B_ABS'', ''B_STOP'', ''B_RANDOM'', ''B_FIRSTRANDOM'', ''B_RANDOMINT'', ''B_GC_SWEEP'',
   ''B_GC_COLLECTIONS'', ''B_GC_GARBAGE'', ''B_GC_REFUSED'', ''B_GC_SECONDS'', ''B_CLOCK'', ''B_COMPLEXFN'',
   ''B_LONGARCTAN2'', ''B_ARCTAN2'', ''B_READINT'', ''B_READREAL'', ''B_READSTRING'', ''B_READLINE'', ''B_READCHAR'',
   ''B_READBOOL'', ''B_PRINTINT'', ''B_PRINTREAL'', ''B_PRINTSTRING'', ''B_PRINTCHAR'', ''B_PRINTBOOL'', ''B_NOOP1'',
   ''B_NOOP2'', ''B_ARGC'', ''B_ARGV'', ''B_BITSPACK'', ''B_BYTESPACK'', ''B_LONGBYTESPACK'', ''B_EVALUATE'',
   ''B_ABEND'', ''B_SYSTEM'', ''B_FORK'', ''B_GETENV'', ''B_EXECVE'', ''B_EXECVECHILD'', ''B_EXECVECHILDPIPE'',
   ''B_EXECVEOUTPUT'', ''B_CREATEPIPE'', ''B_WAITPID'', ''B_UTCTIME'', ''B_LOCALTIME'', ''B_GETDIRECTORY'',
   ''B_FILEIS'', ''B_FILEMODE'', ''B_GREPINSTRING'', ''B_GREPINSUBSTRING'', ''B_SUBINSTRING'', ''B_STRERROR'',
   ''B_ERRNO'', ''B_RESETERRNO'', ''B_GETPWD'', ''B_SETPWD'', ''B_REALPATH'', ''B_SLEEP'', ''B_ROWS'', ''B_COLUMNS'',
   ''B_WALLCLOCK'', ''B_NAN'', ''B_INF'', ''B_MINUSINF'', ''B_ISFINITE'', ''B_ISINF'', ''B_ISPLUSINF'',
   ''B_ISMINUSINF'', ''B_ISNAN'', ''B_RESETPOSSIBLE'', ''B_GETPOSSIBLE'', ''B_PUTPOSSIBLE'', ''B_FALSE'', ''B_TRUE'',
   ''B_IDF'', ''B_TERM'', ''B_EOF'', ''B_EOLN'', ''B_SET'', ''B_PUTS'', ''B_STRING'', ''B_PUTSF'', ''B_STRINGF'',
   ''B_GETS'', ''B_GETSF'', ''B_GETBIN'', ''B_PUTBIN'', ''B_READBIN'', ''B_PRINTBIN'', ''B_LONGRANDOM'']"

lemma arm_names_eq: "map fst (builtin_arms x nm sub a) = arm_names"
  by (simp add: arm_names_def builtin_arms_def arm_defs)

lemma arm_names_set: "fst ` set (builtin_arms x nm sub a) = set arm_names"
  using arm_names_eq [of x nm sub a] set_map [of fst "builtin_arms x nm sub a"] by simp

definition has_arm :: "string \<times> string \<times> nat \<Rightarrow> bool" where "has_arm t = (fst (snd t) \<in> set arm_names)"

text \<open>Evaluated in pieces.\<close>

lemma names_have_arms0: "list_all has_arm (take 40 (drop 0 names))"
  by (simp add: has_arm_def names_def arm_names_def)

lemma names_have_arms1: "list_all has_arm (take 40 (drop 40 names))"
  by (simp add: has_arm_def names_def arm_names_def)

lemma names_have_arms2: "list_all has_arm (take 40 (drop 80 names))"
  by (simp add: has_arm_def names_def arm_names_def)

lemma names_have_arms3: "list_all has_arm (take 40 (drop 120 names))"
  by (simp add: has_arm_def names_def arm_names_def)

lemma names_have_arms4: "list_all has_arm (take 40 (drop 160 names))"
  by (simp add: has_arm_def names_def arm_names_def)

lemma names_have_arms5: "list_all has_arm (drop 200 names)"
  by (simp add: has_arm_def names_def arm_names_def)


lemma list_all_pieces: "list_all P (take k xs) \<Longrightarrow> list_all P (drop k xs) \<Longrightarrow> list_all P xs"
  using list_all_append [of P "take k xs" "drop k xs"] by simp

lemma names_have_arms: "list_all has_arm names"
  using list_all_pieces [of has_arm 40 "drop 160 names"] list_all_pieces [of has_arm 40 "drop 120 names"]
    list_all_pieces [of has_arm 40 "drop 80 names"] list_all_pieces [of has_arm 40 "drop 40 names"]
    list_all_pieces [of has_arm 40 "drop 0 names"] names_have_arms0 names_have_arms1 names_have_arms2
    names_have_arms3 names_have_arms4 names_have_arms5
  by simp

lemma unknown_no_arm: "''B_UNKNOWN'' \<notin> set arm_names"
  by (simp add: arm_names_def)


end
