(* ===== verification/NativeProps.thy ===== *)
theory NativeProps
  imports Native RtArith PreludeProps
begin

text \<open>
  The helpers of the LLVM back end (\<open>native.c\<close>) against the operators of \<open>rt.c\<close> and the functions of \<open>prelude.c\<close>: the
  same program computes the same values whichever back end compiled it, with the exceptions named here.
\<close>

section \<open>Integer powers\<close>

lemma native_die_msg:
  "native_die 0 = Inl (Die ''INT value overflow, result too large'')" "native_die 2 = Inl (Die ''infinite REAL value'')"
  "native_die 3 = Inl (Die ''REAL value is not a number'')" "native_die 4 = Inl (Die ''INT value out of bounds'')"
  "native_die 7 = Inl (Die ''REAL math error'')" "native_die 8 = Inl (Die ''invalid INT exponent'')"
  by (simp_all add: native_die_def)

lemma sint_bounds64: "- 9223372036854775808 \<le> sint (v :: 64 word)" "sint (v :: 64 word) \<le> 9223372036854775807"
  using sint_greater_eq [of v] sint_less [of v] by simp_all

lemma sint_word_of_int64: "- 9223372036854775808 \<le> i \<Longrightarrow> i \<le> 9223372036854775807 \<Longrightarrow> sint (word_of_int i :: 64 word) = i"
  by (simp add: signed_of_int signed_take_bit_int_eq_self)

lemma native_rng_sint: "native_rng v = map_sum id word_of_int (int_range (sint v))"
proof -
  have "native_rng v = (if 2147483647 < sint v \<or> sint v < - 2147483647 then native_die 0 else Inr v)"
    by (simp add: native_rng_def word_sless_alt)
  then show ?thesis by (simp add: int_range_def A68_MAXINT_def native_die_msg)
qed

text \<open>A checked product of two INT values is the product the operators of \<open>rt.c\<close> form.\<close>

lemma native_product:
  assumes "\<bar>sint a\<bar> \<le> A68_MAXINT" "\<bar>sint b\<bar> \<le> A68_MAXINT"
  shows "bindE (smul64 a b) native_rng = map_sum id word_of_int (int_range (sint a * sint b))"
proof -
  have "\<bar>sint a * sint b\<bar> \<le> A68_MAXINT * A68_MAXINT"
    unfolding abs_mult using assms by (intro mult_mono) (auto simp: A68_MAXINT_def)
  then have b: "\<bar>sint a * sint b\<bar> \<le> 4611686014132420609" by (simp add: A68_MAXINT_def)
  have "sint (word_of_int (sint a * sint b) :: 64 word) = sint a * sint b" using b by (intro sint_word_of_int64) linarith+
  then have s: "sint (a * b) = sint a * sint b" by simp
  show ?thesis by (simp add: smul64_def bindE_def s native_rng_sint)
qed

lemma int_range_bound: "int_range r = Inr s \<Longrightarrow> s = r \<and> \<bar>r\<bar> \<le> A68_MAXINT"
  by (auto simp: int_range_def split: if_splits)

lemma bit_test:
  assumes "k < 63"
  shows "and nn (2 ^ k) \<noteq> (0 :: u64) \<longleftrightarrow> odd (unat nn div 2 ^ k)"
proof -
  have "and nn (push_bit k 1) = 0 \<longleftrightarrow> \<not> bit nn k"
    using and_exp_eq_0_iff_not_bit [of nn k] by (simp add: push_bit_eq_mult)
  moreover have "bit nn k = bit (unat nn) k" using assms by (simp add: bit_unsigned_iff)
  ultimately show ?thesis by (simp add: push_bit_eq_mult bit_iff_odd)
qed

lemma pow2_unat: "k < 64 \<Longrightarrow> unat (2 ^ k :: u64) = 2 ^ k"
  using unsigned_push_bit_eq [where 'a = nat and 'b = 64, of k 1] by (simp add: push_bit_eq_mult take_bit_nat_eq_self)

lemma native_pow_loop_eq:
  assumes "k < 63" "unat nn < 2 ^ 63" "\<bar>sint mm\<bar> \<le> A68_MAXINT" "\<bar>sint p\<bar> \<le> A68_MAXINT"
  shows "native_pow_loop nn (2 ^ k) mm p = Some (map_sum id word_of_int (pow_loop (unat nn) (2 ^ k) (sint mm) (sint p)))"
  using assms
proof (induction "63 - k" arbitrary: k mm p)
  case (Suc j)
  have step: "(if and nn (2 ^ k) \<noteq> 0 then bindE (smul64 p mm) native_rng else Inr p) =
      map_sum id word_of_int (if odd (unat nn div 2 ^ k) then int_range (sint p * sint mm) else Inr (sint p))"
    using Suc.prems native_product [of p mm] by (simp add: bit_test)
  have small: "sint (word_of_int i :: 64 word) = i" if "\<bar>i\<bar> \<le> A68_MAXINT" for i
    using that by (intro sint_word_of_int64) (auto simp: A68_MAXINT_def)
  have le: "(2 ^ k * 2 :: u64) \<le> nn \<longleftrightarrow> 2 * 2 ^ k \<le> unat nn"
    using Suc.prems pow2_unat [of "Suc k"] by (simp add: word_le_nat_alt mult.commute)
  show ?case
  proof (cases "if odd (unat nn div 2 ^ k) then int_range (sint p * sint mm) else Inr (sint p)")
    case (Inl e)
    then show ?thesis
      by (subst native_pow_loop.simps, subst pow_loop.simps) (simp add: step bindE_simps)
  next
    case (Inr p2)
    have p2: "\<bar>p2\<bar> \<le> A68_MAXINT" "sint (word_of_int p2 :: 64 word) = p2"
      using small [of p2] Inr Suc.prems(4) int_range_bound [of "sint p * sint mm" p2] by (auto split: if_splits)
    show ?thesis
    proof (cases "2 * 2 ^ k \<le> unat nn")
      case False
      then show ?thesis using Inr
        by (subst native_pow_loop.simps, subst pow_loop.simps) (simp add: step le bindE_simps Let_def)
    next
      case True
      then have "(2 :: nat) ^ Suc k < 2 ^ 63" using True Suc.prems(2) by (simp only: power_Suc)
      then have k: "Suc k < 63" by (simp only: power_strict_increasing_iff)
      show ?thesis
      proof (cases "int_range (sint mm * sint mm)")
        case (Inl e)
        then show ?thesis using Inr True Suc.prems
          by (subst native_pow_loop.simps, subst pow_loop.simps) (simp add: step le native_product bindE_simps Let_def)
      next
        case (Inr m2)
        have m2: "\<bar>m2\<bar> \<le> A68_MAXINT" "sint (word_of_int m2 :: 64 word) = m2"
          using small [of m2] int_range_bound [OF Inr] by auto
        have "native_pow_loop nn (2 ^ Suc k) (word_of_int m2) (word_of_int p2) =
            Some (map_sum id word_of_int (pow_loop (unat nn) (2 ^ Suc k) m2 p2))"
          using Suc.hyps(1) [of "Suc k" "word_of_int m2" "word_of_int p2"] Suc.hyps(2) k Suc.prems p2 m2 by simp
        then have "native_pow_loop nn (2 ^ k * 2) (word_of_int m2) (word_of_int p2) =
            Some (map_sum id word_of_int (pow_loop (unat nn) (2 * 2 ^ k) m2 p2))" by (simp add: mult.commute)
        then show ?thesis using Inr \<open>_ = Inr p2\<close> True Suc.prems
          by (subst native_pow_loop.simps, subst pow_loop.simps) (simp add: step le native_product bindE_simps Let_def)
      qed
    qed
  qed
qed simp

text \<open>
  C38: powers of INT values are the same in both back ends: for every base of mode INT and every exponent, the machine
  loop of \<open>a68n_pow_i\<close> ends, forms no product beyond 64 bits, and gives what \<open>pow_int\<close> of \<open>rt.c\<close> gives, the overflow
  error and the error for a negative exponent included.
\<close>

theorem native_pow_agrees:
  assumes "\<bar>sint m\<bar> \<le> A68_MAXINT"
  shows "a68n_pow_i m n = Some (map_sum id word_of_int (pow_int (sint m) (sint n)))"
proof -
  have neg: "n <s 0 \<longleftrightarrow> sint n < 0" by (simp add: word_sless_alt)
  have eqs: "m = 0 \<longleftrightarrow> sint m = 0" "n = 0 \<longleftrightarrow> sint n = 0" "m = 1 \<longleftrightarrow> sint m = 1" "m = - 1 \<longleftrightarrow> sint m = - 1"
    using signed_word_eqI [of m 0] signed_word_eqI [of n 0] signed_word_eqI [of m 1] signed_word_eqI [of m "- 1"]
    by (auto simp: signed_1)
  show ?thesis
  proof (cases "sint n < 0")
    case True
    then show ?thesis by (simp add: a68n_pow_i_def pow_int_def neg native_die_msg)
  next
    case False
    then have n: "unat n = nat (sint n)" "unat n < 2 ^ 63"
      using sint_bounds64(2) [of n] unat_u64_less [of n] by (simp_all add: sint_of_unat split: if_splits)
    have loop: "native_pow_loop n 1 m 1 = Some (map_sum id word_of_int (pow_loop (nat (sint n)) 1 (sint m) 1))"
      using native_pow_loop_eq [of 0 n m 1] assms n by (simp add: A68_MAXINT_def)
    have par: "c_rem (sint n) 2 = 0 \<longleftrightarrow> even (sint n)"
      using False by (simp add: c_rem_nonneg even_iff_mod_2_eq_zero)
    show ?thesis using False by (simp add: a68n_pow_i_def pow_int_def neg eqs loop par)
  qed
qed

lemma native_pow_agrees_witness:
  "a68n_pow_i (- 3) 5 = Some (Inr (- 243)) \<and> a68n_pow_i 65536 2 = Some (Inl (Die ''INT value overflow, result too large''))"
  using native_pow_agrees [of "- 3" 5] native_pow_agrees [of 65536 2] by (simp add: A68_MAXINT_def pow_int_correct int_range_def)

section \<open>The order of \<open>double\<close>\<close>

text \<open>
  The comparisons of IEEE 754 on the 64 bits: a value that is not a number compares with nothing, the two zeros are
  equal, and otherwise sign and magnitude decide.
\<close>

definition dbl_key :: "u64 \<Rightarrow> int" where
  "dbl_key x = (if bit x 63 then - uint (dbl_abs x) else uint (dbl_abs x))"

definition ieee_less :: "u64 \<Rightarrow> u64 \<Rightarrow> bool" where
  "ieee_less x y \<longleftrightarrow> \<not> dbl_isnan x \<and> \<not> dbl_isnan y \<and> dbl_key x < dbl_key y"

definition ieee_eq :: "u64 \<Rightarrow> u64 \<Rightarrow> bool" where
  "ieee_eq x y \<longleftrightarrow> \<not> dbl_isnan x \<and> \<not> dbl_isnan y \<and> dbl_key x = dbl_key y"

definition ieee_order :: "'a dbl_ops_scheme \<Rightarrow> bool" where
  "ieee_order F \<longleftrightarrow> f_less F = ieee_less \<and> f_eq F = ieee_eq"

lemma nan_inf_abs:
  "dbl_isnan x \<longleftrightarrow> 9218868437227405312 < uint (dbl_abs x)" "dbl_isinf x \<longleftrightarrow> uint (dbl_abs x) = 9218868437227405312"
  by (simp_all add: dbl_isnan_def dbl_isinf_def word_less_def word_uint_eq_iff)

lemma dbl_max_key:
  "dbl_key dbl_max = 9218868437227405311" "dbl_key (dbl_neg dbl_max) = - 9218868437227405311"
  "\<not> dbl_isnan dbl_max" "\<not> dbl_isnan (dbl_neg dbl_max)"
  by (simp_all add: dbl_key_def dbl_max_def dbl_abs_def dbl_neg_def dbl_isnan_def bit_numeral_word_iff)

lemma beyond_max_inf:
  assumes "ieee_order F"
  shows "beyond_max F x \<longleftrightarrow> dbl_isinf x"
proof -
  have "beyond_max F x \<longleftrightarrow> \<not> dbl_isnan x \<and> (9218868437227405311 < dbl_key x \<or> dbl_key x < - 9218868437227405311)"
    using assms by (auto simp: beyond_max_def ieee_order_def ieee_less_def dbl_max_key)
  also have "\<dots> \<longleftrightarrow> dbl_isinf x"
  proof -
    obtain u where "uint (dbl_abs x) = u" "0 \<le> u" by simp
    then show ?thesis by (cases "bit x 63") (auto simp: nan_inf_abs dbl_key_def)
  qed
  finally show ?thesis .
qed

lemma eq_self_nan: "ieee_order F \<Longrightarrow> f_eq F x x \<longleftrightarrow> \<not> dbl_isnan x"
  by (simp add: ieee_order_def ieee_eq_def)

lemma native_chk_eq: "ieee_order F \<Longrightarrow> native_chk F x = check_real x"
  by (simp add: native_chk_def check_real_def beyond_max_inf eq_self_nan native_die_msg)

section \<open>Functions of REAL values\<close>

definition native_names :: "string list" where
  "native_names = map fst native_dom1 @ map fst native_domp @ map fst native_plain @ native_unchecked"

lemma math_fn_libm: "map_of libm_names n = Some g \<Longrightarrow> math_fn x n v = Some (check_real (y_libm x g v))"
  by (simp add: math_fn_def)

lemma math_fn_domain: "map_of libm_names n = None \<Longrightarrow> domain_fn x n v = Some r \<Longrightarrow> math_fn x n v = Some (bindE r check_real)"
  by (simp add: math_fn_def)

lemma native_tables:
  "list_all (\<lambda>(n, g). map_of libm_names n = None \<and> domain_fn x n v = Some (unit_domain x g v)) native_dom1"
  "list_all (\<lambda>(n, g). map_of native_dom1 n = None \<and> map_of libm_names n = None \<and>
     domain_fn x n v = Some (positive_domain x g v)) native_domp"
  "list_all (\<lambda>(n, g). map_of native_dom1 n = None \<and> map_of native_domp n = None \<and> map_of libm_names n = Some g) native_plain"
  "list_all (\<lambda>n. map_of native_dom1 n = None \<and> map_of native_domp n = None \<and> map_of native_plain n = None \<and>
     map_of libm_names n = Some n) native_unchecked"
  by (simp_all add: native_dom1_def native_domp_def native_plain_def native_unchecked_def libm_names_def domain_fn_def)

lemma native_distinct:
  "distinct (map fst native_dom1)" "distinct (map fst native_domp)" "distinct (map fst native_plain)"
  by (simp_all add: native_dom1_def native_domp_def native_plain_def)

lemma native_dom1D: "(n, g) \<in> set native_dom1 \<Longrightarrow> map_of libm_names n = None \<and> domain_fn x n v = Some (unit_domain x g v)"
  using native_tables(1) [where x = x and v = v] by (auto simp: list_all_iff)

lemma native_dompD:
  "(n, g) \<in> set native_domp \<Longrightarrow> map_of native_dom1 n = None \<and> map_of libm_names n = None \<and>
    domain_fn x n v = Some (positive_domain x g v)"
  using native_tables(2) [where x = x and v = v] by (auto simp: list_all_iff)

lemma native_plainD:
  "(n, g) \<in> set native_plain \<Longrightarrow> map_of native_dom1 n = None \<and> map_of native_domp n = None \<and> map_of libm_names n = Some g"
  using native_tables(3) by (auto simp: list_all_iff)

lemma native_uncheckedD:
  "n \<in> set native_unchecked \<Longrightarrow> map_of native_dom1 n = None \<and> map_of native_domp n = None \<and>
    map_of native_plain n = None \<and> map_of libm_names n = Some n"
  using native_tables(4) by (auto simp: list_all_iff)

lemma bind_unit_domain:
  "ieee_order x \<Longrightarrow> bindE (unit_domain x g v) check_real =
    (if f_less x v dbl_minus_one \<or> f_less x dbl_one v then native_die 3 else native_chk x (y_libm x g v))"
  by (simp add: unit_domain_def not_number_def native_die_msg native_chk_eq)

lemma bind_positive_domain:
  "ieee_order x \<Longrightarrow> bindE (positive_domain x g v) check_real =
    (if f_less x v dbl_zero then native_die 3 else native_chk x (y_libm x g v))"
  by (simp add: positive_domain_def not_number_def native_die_msg native_chk_eq)

text \<open>
  C39: the functions of REAL values that the LLVM back end calls itself give what the same functions of the standard
  prelude give, the errors included, where the comparisons of \<open>double\<close> are those of IEEE 754; except \<open>exp\<close> and \<open>exp2\<close>,
  whose result the native helpers hand on unchecked and the prelude procedures check.
\<close>

theorem native_math_agrees:
  assumes "ieee_order x" and "n \<in> set native_names"
  shows "a68n_m x n v = (if n \<in> set native_unchecked then Some (Inr (y_libm x n v)) else math_fn x n v) \<and>
    (n \<in> set native_unchecked \<longrightarrow> math_fn x n v = Some (check_real (y_libm x n v)))"
proof -
  have look: "(n, g) \<in> set ps \<Longrightarrow> distinct (map fst ps) \<Longrightarrow> map_of ps n = Some g" for g and ps :: "(string \<times> string) list"
    by (simp add: map_of_is_SomeI)
  consider g where "(n, g) \<in> set native_dom1" | g where "(n, g) \<in> set native_domp" | g where "(n, g) \<in> set native_plain"
    | "n \<in> set native_unchecked"
    using assms(2) unfolding native_names_def by fastforce
  then show ?thesis
  proof cases
    case 1
    note t = native_dom1D [OF 1, of x v] and m = look [OF 1 native_distinct(1)]
    have u: "n \<notin> set native_unchecked" using m native_uncheckedD by fastforce
    show ?thesis using u t by (simp add: a68n_m_def m math_fn_domain bind_unit_domain [OF assms(1)])
  next
    case 2
    note t = native_dompD [OF 2, of x v] and m = look [OF 2 native_distinct(2)]
    have u: "n \<notin> set native_unchecked" using m native_uncheckedD by fastforce
    show ?thesis using u t by (simp add: a68n_m_def m math_fn_domain bind_positive_domain [OF assms(1)])
  next
    case 3
    note t = native_plainD [OF 3] and m = look [OF 3 native_distinct(3)]
    have u: "n \<notin> set native_unchecked" using m native_uncheckedD by fastforce
    show ?thesis using u t by (simp add: a68n_m_def m math_fn_libm native_chk_eq [OF assms(1)])
  next
    case 4
    then show ?thesis using native_uncheckedD [OF 4] by (simp add: a68n_m_def math_fn_libm)
  qed
qed

lemma native_math_agrees_witness:
  "\<forall>x :: (unit, unit) pre_fns_scheme. \<forall>v. a68n_m (x\<lparr>f_less := ieee_less, f_eq := ieee_eq\<rparr>) ''sqrt'' v = math_fn (x\<lparr>f_less := ieee_less, f_eq := ieee_eq\<rparr>) ''sqrt'' v"
proof (intro allI)
  fix x :: "(unit, unit) pre_fns_scheme" and v
  show "a68n_m (x\<lparr>f_less := ieee_less, f_eq := ieee_eq\<rparr>) ''sqrt'' v = math_fn (x\<lparr>f_less := ieee_less, f_eq := ieee_eq\<rparr>) ''sqrt'' v"
    using native_math_agrees [of "x\<lparr>f_less := ieee_less, f_eq := ieee_eq\<rparr>" "''sqrt''" v]
    by (simp add: ieee_order_def native_names_def native_domp_def native_unchecked_def)
qed

section \<open>Powers of REAL values\<close>

lemma native_pow_real_loop_eq:
  assumes "k < 63" "unat nn < 2 ^ 63"
  shows "native_pow_real_loop F nn (2 ^ k) mm p = Some (pow_real_loop F (unat nn) (2 ^ k) mm p)"
  using assms
proof (induction "63 - k" arbitrary: k mm p)
  case (Suc j)
  have le: "(2 ^ k * 2 :: u64) \<le> nn \<longleftrightarrow> 2 * 2 ^ k \<le> unat nn"
    using Suc.prems pow2_unat [of "Suc k"] by (simp add: word_le_nat_alt mult.commute)
  show ?case
  proof (cases "2 * 2 ^ k \<le> unat nn")
    case False
    then show ?thesis using Suc.prems
      by (subst native_pow_real_loop.simps, subst pow_real_loop.simps) (simp add: bit_test le Let_def)
  next
    case True
    then have "(2 :: nat) ^ Suc k < 2 ^ 63" using True Suc.prems(2) by (simp only: power_Suc)
    then have "Suc k < 63" by (simp only: power_strict_increasing_iff)
    then have "native_pow_real_loop F nn (2 ^ k * 2) m2 p2 = Some (pow_real_loop F (unat nn) (2 * 2 ^ k) m2 p2)" for m2 p2
      using Suc.hyps(1) [of "Suc k" m2 p2] Suc.hyps(2) Suc.prems by (simp add: mult.commute)
    then show ?thesis using True Suc.prems
      by (subst native_pow_real_loop.simps, subst pow_real_loop.simps) (simp add: bit_test le Let_def)
  qed
qed simp

text \<open>
  C40: powers of REAL values are the same in both back ends: \<open>a68n_pow_rr\<close> is \<open>**\<close> of two REAL values, and \<open>a68n_pow_ri\<close>
  is \<open>pow_real_int\<close> for every exponent but the least 64-bit integer, which no INT value is; its loop ends.
\<close>

theorem native_real_powers_agree:
  assumes "ieee_order F" and "sint n \<noteq> - 9223372036854775808"
  shows "a68n_pow_ri F x n = Some (pow_real_int F x (sint n)) \<and> a68n_pow_rr F x y = real_pow F x y"
proof -
  define nn where "nn = (if n <s 0 then - (n + 1) + 1 else n)"
  have neg: "n <s 0 \<longleftrightarrow> sint n < 0" by (simp add: word_sless_alt)
  have minus: "- (n + 1) + 1 = 0 - n" by simp
  have "int (unat nn) = \<bar>sint n\<bar>"
  proof (cases "sint n < 0")
    case True
    then have "n \<noteq> 0" "nn = 0 - n" by (auto simp: nn_def neg minus)
    then have "unat nn = 18446744073709551616 - unat n" using unat_neg_u64 [of n] by (simp only: if_False)
    then show ?thesis using True unat_u64_less [of n] by (simp add: sint_of_unat of_nat_diff split: if_splits del: of_nat_unat)
  next
    case False
    then show ?thesis using unat_u64_less [of n] by (simp add: nn_def neg sint_of_unat split: if_splits del: of_nat_unat)
  qed
  then have nn: "unat nn = nat \<bar>sint n\<bar>" "unat nn < 2 ^ 63"
    using assms(2) sint_bounds64 [of n] by (auto simp del: of_nat_unat)
  have par: "nn mod 2 = 0 \<longleftrightarrow> even (nat \<bar>sint n\<bar>)"
  proof -
    have "nn mod 2 = 0 \<longleftrightarrow> unat (nn mod 2) = 0" by (simp only: unat_eq_0)
    then show ?thesis unfolding nn(1) [symmetric] by (simp only: unat_mod_distrib even_iff_mod_2_eq_zero) simp
  qed
  have zero: "nn = 0 \<longleftrightarrow> nat \<bar>sint n\<bar> = 0" unfolding nn(1) [symmetric] by (simp add: unat_eq_0)
  have loop: "native_pow_real_loop F nn 1 x dbl_one = Some (pow_real_loop F (nat \<bar>sint n\<bar>) 1 x dbl_one)"
    using native_pow_real_loop_eq [of 0 nn F x dbl_one] nn by simp
  define m where "m = nat \<bar>sint n\<bar>"
  have "a68n_pow_ri F x n = Some (pow_real_int F x (sint n))"
    unfolding a68n_pow_ri_def pow_real_int_def nn_def [symmetric] Let_def loop par zero m_def [symmetric]
    by (simp add: neg eq_self_nan [OF assms(1)] beyond_max_inf [OF assms(1)] native_die_msg)
  then show ?thesis by (simp add: a68n_pow_rr_def real_pow_def native_die_msg)
qed

definition demo_dbl :: dbl_ops where
  "demo_dbl = \<lparr>f_add = (\<lambda>x y. x), f_sub = (\<lambda>x y. x), f_mul = (\<lambda>x y. if x = dbl_one then y else x), f_div = (\<lambda>x y. x),
     f_less = ieee_less, f_eq = ieee_eq, f_exp = id, f_log = id, f_floor = id, f_of_i64 = id, f_to_u64 = id\<rparr>"

lemma native_real_powers_agree_witness:
  "\<forall>x y. a68n_pow_ri demo_dbl x (- 3) = Some (pow_real_int demo_dbl x (- 3)) \<and> a68n_pow_rr demo_dbl x y = real_pow demo_dbl x y"
  using native_real_powers_agree [of demo_dbl "- 3"] by (simp add: ieee_order_def demo_dbl_def)

end
